(* ===== verification/Ipa_Prelude.thy ===== *)
theory Ipa_Prelude
  imports Main "HOL-Library.Word" "HOL-Library.Monad_Syntax"
begin

text \<open>
  Shared vocabulary of the development: the widths of the C integer types, the errno
  values, the enumerations of \<^verbatim>\<open>linux/msm_ipa.h\<close> that every component uses, the IEEE-754
  product the table sizing performs, and generic facts on lists, options and words.

  Conventions.  A C function that returns an \<^verbatim>\<open>int\<close> status returns an \<^typ>\<open>int\<close> here, with
  the source's negative errno values.  A function whose execution can be undefined (a record
  is read outside the table, a NULL pointer is followed) or can loop for ever returns an
  \<^typ>\<open>'a option\<close>: \<^term>\<open>None\<close> is "no defined result", so that every theorem that says
  \<^term>\<open>Some\<close> also says that the code is memory safe and returns.
\<close>

unbundle bit_operations_syntax

section \<open>Widths, errno values, enumerations\<close>

type_synonym u8 = "8 word"
type_synonym u16 = "16 word"
type_synonym u32 = "32 word"
type_synonym u64 = "64 word"

abbreviation EPERM :: int where "EPERM \<equiv> 1"
abbreviation EIO :: int where "EIO \<equiv> 5"
abbreviation ENOMEM :: int where "ENOMEM \<equiv> 12"
abbreviation EINVAL :: int where "EINVAL \<equiv> 22"

datatype ipa3_nat_mem_in = IPA_NAT_MEM_IN_DDR | IPA_NAT_MEM_IN_SRAM | IPA_NAT_MEM_IN_MAX

fun nmi_code :: "ipa3_nat_mem_in \<Rightarrow> nat" where
  "nmi_code IPA_NAT_MEM_IN_DDR = 0"
| "nmi_code IPA_NAT_MEM_IN_SRAM = 1"
| "nmi_code IPA_NAT_MEM_IN_MAX = 2"

definition nmi_of_bit :: "bool \<Rightarrow> ipa3_nat_mem_in" where
  "nmi_of_bit b = (if b then IPA_NAT_MEM_IN_SRAM else IPA_NAT_MEM_IN_DDR)"

definition IPA_VALID_NAT_MEM_IN :: "ipa3_nat_mem_in \<Rightarrow> bool" where
  "IPA_VALID_NAT_MEM_IN n = (nmi_code n < 2)"

lemma IPA_VALID_NAT_MEM_IN_of_bit [simp]: "IPA_VALID_NAT_MEM_IN (nmi_of_bit b)"
  by (simp add: IPA_VALID_NAT_MEM_IN_def nmi_of_bit_def)

section \<open>IEEE-754 products of an integer and a constant\<close>

text \<open>
  The sizing code multiplies an integer by a floating point constant and truncates the
  product.  The constant is \<open>mant * 2 ^ -e\<close> with a \<open>p\<close>-bit significand (24 bits for \<^verbatim>\<open>float\<close>,
  53 for \<^verbatim>\<open>double\<close>); the exact product is rounded to \<open>p\<close> significant bits, to nearest, ties to
  even.  \<open>rne p m\<close> is that rounding on the integer \<open>m\<close>, the product scaled by \<open>2 ^ e\<close>.
\<close>

fun bit_len :: "nat \<Rightarrow> nat" where
  "bit_len n = (if n = 0 then 0 else Suc (bit_len (n div 2)))"

declare bit_len.simps [simp del]

definition rne :: "nat \<Rightarrow> nat \<Rightarrow> nat" where
  "rne p m =
     (let l = bit_len m in
      if l \<le> p then m
      else let k = l - p; q = m div 2 ^ k; r = m mod 2 ^ k; h = 2 ^ (k - 1) in
           (if r > h \<or> (r = h \<and> odd q) then q + 1 else q) * 2 ^ k)"

definition fp_mul_trunc :: "nat \<Rightarrow> nat \<Rightarrow> nat \<Rightarrow> nat \<Rightarrow> nat" where
  "fp_mul_trunc p mant e n = rne p (n * mant) div 2 ^ e"

lemma bit_len_bounds: "0 < n \<Longrightarrow> 2 ^ (bit_len n - 1) \<le> n \<and> n < 2 ^ bit_len n"
proof (induction n rule: bit_len.induct)
  case (1 n)
  show ?case
  proof (cases "n div 2 = 0")
    case True
    with "1.prems" have "n = 1" by arith
    then show ?thesis by (simp add: bit_len.simps [of "Suc 0"] bit_len.simps [of 0])
  next
    case False
    with 1 have IH: "2 ^ (bit_len (n div 2) - 1) \<le> n div 2" "n div 2 < 2 ^ bit_len (n div 2)"
      by simp_all
    obtain l where l: "bit_len (n div 2) = Suc l"
      using False by (metis bit_len.simps)
    have "bit_len n = Suc (Suc l)"
      using "1.prems" l by (simp add: bit_len.simps [of n])
    moreover from IH l have "2 * 2 ^ l \<le> n" "n < 4 * 2 ^ l" by simp_all
    ultimately show ?thesis by simp
  qed
qed

lemma rne_le:
  assumes "0 < p"
  shows "rne p m \<le> m + m div 2 ^ p"
proof (cases "bit_len m \<le> p")
  case True
  then show ?thesis by (simp add: rne_def)
next
  case False
  define k where "k = bit_len m - p"
  have k: "0 < k" using False by (simp add: k_def)
  have m: "0 < m" using False by (cases m) (simp_all add: bit_len.simps [of 0])
  let ?q = "m div 2 ^ k" and ?r = "m mod 2 ^ k"
  have split: "m = ?q * 2 ^ k + ?r" by (rule div_mult_mod_eq [symmetric])
  have two: "(2::nat) ^ k = 2 * 2 ^ (k - 1)" using k by (cases k) simp_all
  have "bit_len m - 1 = (k - 1) + p"
    using False k by (simp add: k_def)
  then have "2 ^ (k - 1) * 2 ^ p \<le> m"
    using bit_len_bounds [OF m] by (simp add: power_add)
  then have h: "2 ^ (k - 1) \<le> m div 2 ^ p"
    by (simp add: less_eq_div_iff_mult_less_eq)
  have up: "(?q + 1) * 2 ^ k \<le> m + 2 ^ (k - 1)" if "2 ^ (k - 1) \<le> ?r"
    using that split two by (simp add: algebra_simps)
  have down: "?q * 2 ^ k \<le> m"
    using split by linarith
  have "rne p m \<le> m + 2 ^ (k - 1)"
    using False up down unfolding rne_def Let_def k_def [symmetric]
    by (auto simp: not_less intro: trans_le_add1)
  with h show ?thesis by linarith
qed

lemma fp_mul_trunc_le:
  assumes "0 < p"
  shows "fp_mul_trunc p mant e n \<le> (n * mant + n * mant div 2 ^ p) div 2 ^ e"
  unfolding fp_mul_trunc_def by (rule div_le_mono [OF rne_le [OF assms]])

section \<open>Lists, counting, words\<close>

lemma nth_update: "i < length xs \<Longrightarrow> (xs[i := x]) ! j = (if i = j then x else xs ! j)"
  by (simp add: nth_list_update)

lemma find_filter: "find P xs = (case filter P xs of [] \<Rightarrow> None | x # _ \<Rightarrow> Some x)"
  by (induction xs) simp_all

lemma unat_of_nat_u16: "n < 65536 \<Longrightarrow> unat (of_nat n :: u16) = n"
  by (simp add: unat_of_nat take_bit_nat_eq_self_iff)

lemma unat_of_nat_u32: "n < 2 ^ 32 \<Longrightarrow> unat (of_nat n :: u32) = n"
  by (simp add: unat_of_nat take_bit_nat_eq_self_iff)

lemma of_nat_u16_eq_0: "n < 65536 \<Longrightarrow> (of_nat n :: u16) = 0 \<longleftrightarrow> n = 0"
  using unat_of_nat_u16 [of n] by (auto dest: arg_cong [where f = unat])

lemma unat_u16_less: "unat (w :: u16) < 65536"
  using unsigned_less [of w, where ?'a = nat] by simp

text \<open>Counting the indices below a bound that satisfy a predicate, and point updates of it.\<close>

definition count_upto :: "nat \<Rightarrow> nat \<Rightarrow> (nat \<Rightarrow> bool) \<Rightarrow> nat" where
  "count_upto a b P = length (filter P [a..<b])"

lemma count_upto_cong: "(\<And>i. a \<le> i \<Longrightarrow> i < b \<Longrightarrow> P i = Q i) \<Longrightarrow> count_upto a b P = count_upto a b Q"
  unfolding count_upto_def by (rule arg_cong [where f = length], rule filter_cong) auto

lemma count_upto_le: "count_upto a b P \<le> b - a"
  unfolding count_upto_def by (rule order_trans [OF length_filter_le]) simp

lemma count_upto_card: "count_upto a b P = card {i. a \<le> i \<and> i < b \<and> P i}"
proof -
  have "count_upto a b P = card (set (filter P [a..<b]))"
    unfolding count_upto_def by (rule distinct_card [symmetric]) simp
  also have "set (filter P [a..<b]) = {i. a \<le> i \<and> i < b \<and> P i}" by auto
  finally show ?thesis .
qed

lemma count_upto_finite [simp]: "finite {i. a \<le> i \<and> i < (b::nat) \<and> P i}"
  by (rule finite_subset [of _ "{..<b}"]) auto

lemma count_upto_set:
  assumes "a \<le> k" "k < b" "\<not> P k" "Q k" "\<And>i. i \<noteq> k \<Longrightarrow> a \<le> i \<Longrightarrow> i < b \<Longrightarrow> Q i = P i"
  shows "count_upto a b Q = Suc (count_upto a b P)"
proof -
  have "{i. a \<le> i \<and> i < b \<and> Q i} = insert k {i. a \<le> i \<and> i < b \<and> P i}"
  proof (intro set_eqI)
    fix i
    show "i \<in> {i. a \<le> i \<and> i < b \<and> Q i} \<longleftrightarrow> i \<in> insert k {i. a \<le> i \<and> i < b \<and> P i}"
      using assms(1-4) assms(5) [of i] by (cases "i = k") auto
  qed
  then show ?thesis
    using assms by (simp add: count_upto_card)
qed

lemma count_upto_upd:
  "a \<le> k \<Longrightarrow> k < b \<Longrightarrow> \<not> P k \<Longrightarrow> count_upto a b (P(k := True)) = Suc (count_upto a b P)"
  "a \<le> k \<Longrightarrow> k < b \<Longrightarrow> P k \<Longrightarrow> Suc (count_upto a b (P(k := False))) = count_upto a b P"
  "k < a \<or> b \<le> k \<Longrightarrow> count_upto a b (P(k := v)) = count_upto a b P"
proof -
  show "a \<le> k \<Longrightarrow> k < b \<Longrightarrow> \<not> P k \<Longrightarrow> count_upto a b (P(k := True)) = Suc (count_upto a b P)"
    by (rule count_upto_set [of a k]) simp_all
  show "a \<le> k \<Longrightarrow> k < b \<Longrightarrow> P k \<Longrightarrow> Suc (count_upto a b (P(k := False))) = count_upto a b P"
    by (rule count_upto_set [of a k, symmetric]) simp_all
  show "k < a \<or> b \<le> k \<Longrightarrow> count_upto a b (P(k := v)) = count_upto a b P"
    by (rule count_upto_cong) auto
qed

lemma count_upto_pos: "a \<le> k \<Longrightarrow> k < b \<Longrightarrow> P k \<Longrightarrow> 0 < count_upto a b P"
  by (auto simp: count_upto_def filter_empty_conv)

text \<open>A bit of a bit-field in a halfword.\<close>

definition bit_at :: "nat \<Rightarrow> bool \<Rightarrow> u16" where
  "bit_at n b = (if b then push_bit n 1 else 0)"

lemma bit_bit_at [simp]: "bit (bit_at n b) k \<longleftrightarrow> b \<and> k = n \<and> n < 16"
  by (auto simp: bit_at_def bit_simps)

end
