(* ===== verification/Ipa_Table.thy ===== *)
theory Ipa_Table
  imports Ipa_Prelude
begin

text \<open>
  The generic hash table of \<^verbatim>\<open>ipanat/src/ipa_table.c\<close> and \<^verbatim>\<open>ipanat/inc/ipa_table.h\<close>: a base table
  indexed by a hash and an expansion table whose records extend the chain of a base record.
  The IPv4 NAT table, its index table and the IPv6 connection tracking table are instances.

  Correspondence with the code.  The bytes at \<^verbatim>\<open>table_addr\<close> are a list of typed records
  (\<open>recs\<close>); base and expansion records are contiguous there, as \<^verbatim>\<open>ipa_table_calculate_addresses\<close>
  lays them out, so the record pointer \<^verbatim>\<open>GOTO_REC(tbl, i)\<close> is the index \<open>i\<close> and NULL is
  \<open>None\<close>.  The callbacks of \<^verbatim>\<open>ipa_table_entry_interface\<close> are an argument of every function
  that calls them, because the NAT callbacks read the PDN table of their own file.
  A DMA command is only queued in a \<^verbatim>\<open>struct ipa_ioc_nat_dma_cmd\<close> here; the device writes it
  later.  \<^verbatim>\<open>uint16_t\<close> record indices are naturals below 65536, counters are words.
\<close>

section \<open>Types\<close>

text \<open>\<open>entry_zero\<close> is the record \<^verbatim>\<open>memset(entry, 0, entry_size)\<close> leaves behind.  A getter or
  setter of \<^verbatim>\<open>prev_index\<close> indexes the meta array; \<open>None\<close> is an access outside of it.\<close>

record ('e, 'u) ipa_table_entry_interface =
  entry_zero :: 'e
  entry_is_valid :: "'e \<Rightarrow> bool"
  entry_get_next_index :: "'e \<Rightarrow> nat"
  entry_get_prev_index :: "'e \<Rightarrow> nat \<Rightarrow> u16 list option \<Rightarrow> nat \<Rightarrow> nat option"
  entry_set_prev_index :: "'e \<Rightarrow> nat \<Rightarrow> nat \<Rightarrow> u16 list option \<Rightarrow> nat \<Rightarrow> ('e \<times> u16 list option) option"
  entry_head_insert :: "'e \<Rightarrow> 'u \<Rightarrow> (int \<times> 'e \<times> u16) option"
  entry_tail_insert :: "'e \<Rightarrow> 'u \<Rightarrow> (int \<times> 'e) option"
  entry_get_delete_head_dma_command_data :: "'e \<Rightarrow> 'e \<Rightarrow> u16"

datatype ipa_table_dma_type =
    IPA_NAT_BASE_TBL | IPA_NAT_EXPN_TBL | IPA_NAT_INDX_TBL | IPA_NAT_INDEX_EXPN_TBL
  | IPA_IPV6CT_BASE_TBL | IPA_IPV6CT_EXPN_TBL

fun dma_type_code :: "ipa_table_dma_type \<Rightarrow> u8" where
  "dma_type_code IPA_NAT_BASE_TBL = 0"
| "dma_type_code IPA_NAT_EXPN_TBL = 1"
| "dma_type_code IPA_NAT_INDX_TBL = 2"
| "dma_type_code IPA_NAT_INDEX_EXPN_TBL = 3"
| "dma_type_code IPA_IPV6CT_BASE_TBL = 4"
| "dma_type_code IPA_IPV6CT_EXPN_TBL = 5"

datatype dma_help_type = HELP_UPDATE_HEAD | HELP_UPDATE_ENTRY | HELP_DELETE_HEAD | HELP_UPDATE_MAX

definition VALID_DMA_HELP_TYPE :: "dma_help_type \<Rightarrow> bool" where
  "VALID_DMA_HELP_TYPE t = (t \<noteq> HELP_UPDATE_MAX)"

record ipa_table_dma_cmd_helper =
  help_offset :: u32
  help_table_type :: ipa_table_dma_type
  help_expn_table_type :: ipa_table_dma_type
  help_table_indx :: u8

record ipa_ioc_nat_dma_one =
  dma_table_index :: u8
  dma_base_addr :: u8
  dma_offset :: u32
  dma_data :: u16

text \<open>\<^verbatim>\<open>entries\<close> is the length of the list: \<^verbatim>\<open>dma[0 .. entries-1]\<close> is what is in use.\<close>

record ipa_ioc_nat_dma_cmd =
  cmd_mem_type :: u8
  cmd_dma :: "ipa_ioc_nat_dma_one list"

definition dma_cmd_zero :: ipa_ioc_nat_dma_cmd where
  "dma_cmd_zero = \<lparr>cmd_mem_type = 0, cmd_dma = []\<rparr>"

record 'e ipa_table =
  tbl_name :: string
  tbl_nmi :: ipa3_nat_mem_in
  entry_size :: nat
  table_entries :: nat
  expn_table_entries :: nat
  tot_tbl_ents :: nat
  table_addr :: nat
  expn_table_addr :: nat
  cur_tbl_cnt :: u16
  cur_expn_tbl_cnt :: u16
  dma_help :: "dma_help_type \<Rightarrow> ipa_table_dma_cmd_helper option"
  meta :: "u16 list option"
  meta_entry_size :: nat
  recs :: "'e list"

record ipa_table_iterator =
  it_prev_index :: nat
  it_prev_entry :: "nat option"
  it_curr_index :: nat
  it_curr_entry :: "nat option"
  it_next_index :: nat
  it_next_entry :: "nat option"

definition IPA_TABLE_MAX_ENTRIES :: nat where "IPA_TABLE_MAX_ENTRIES = 5120"

definition IPA_TABLE_INVALID_ENTRY :: nat where "IPA_TABLE_INVALID_ENTRY = 0"

definition VALID_INDEX :: "nat \<Rightarrow> bool" where
  "VALID_INDEX idx = (idx \<noteq> IPA_TABLE_INVALID_ENTRY)"

definition VALID_RULE_HDL :: "u32 \<Rightarrow> bool" where
  "VALID_RULE_HDL hdl = (hdl \<noteq> 0)"

text \<open>The record a pointer designates, its address, and the store through the pointer.\<close>

definition rec_at :: "'e ipa_table \<Rightarrow> nat \<Rightarrow> 'e option" where
  "rec_at t i = (if i < length (recs t) then Some (recs t ! i) else None)"

definition put_rec :: "'e ipa_table \<Rightarrow> nat \<Rightarrow> 'e \<Rightarrow> 'e ipa_table" where
  "put_rec t i e = t\<lparr>recs := (recs t)[i := e]\<rparr>"

definition GOTO_REC :: "'e ipa_table \<Rightarrow> nat \<Rightarrow> nat" where
  "GOTO_REC t i = table_addr t + i * entry_size t"

section \<open>Rule handles\<close>

definition BREAK_RULE_HDL :: "'e ipa_table \<Rightarrow> u32 \<Rightarrow> ipa3_nat_mem_in \<times> bool \<times> nat" where
  "BREAK_RULE_HDL tbl hdl =
     (let mt = nmi_of_bit (drop_bit 15 hdl AND 1 \<noteq> 0);
          iet = (hdl AND 1 \<noteq> 0);
          indx = unat (drop_bit 1 hdl AND 0xFFF)
      in (mt, iet, if iet then (indx + table_entries tbl) mod 65536 else indx))"

definition MakeEntryHdl :: "'e ipa_table \<Rightarrow> nat \<Rightarrow> u16" where
  "MakeEntryHdl tbl tbl_entry =
     (let entry_hdl :: u16 =
            (if tbl_entry \<ge> table_entries tbl
             then push_bit 1 (of_nat tbl_entry - of_nat (table_entries tbl)) OR 1
             else push_bit 1 (of_nat tbl_entry))
      in entry_hdl OR push_bit 15 (of_nat (nmi_code (tbl_nmi tbl))))"

section \<open>Sizing, layout and reset\<close>

definition strlcpy_name :: "string \<Rightarrow> string" where
  "strlcpy_name s = take 31 s"

definition ipa_table_init ::
  "string \<Rightarrow> ipa3_nat_mem_in \<Rightarrow> nat \<Rightarrow> u16 list option \<Rightarrow> nat \<Rightarrow> 'e ipa_table" where
  "ipa_table_init table_name nmi esz m msz =
     \<lparr>tbl_name = strlcpy_name table_name, tbl_nmi = nmi, entry_size = esz,
      table_entries = 0, expn_table_entries = 0, tot_tbl_ents = 0,
      table_addr = 0, expn_table_addr = 0, cur_tbl_cnt = 0, cur_expn_tbl_cnt = 0,
      dma_help = (\<lambda>_. None), meta = m, meta_entry_size = msz, recs = []\<rparr>"

text \<open>The loop of \<^verbatim>\<open>Get2PowerTightUpperBound\<close> over \<^verbatim>\<open>tmp\<close>, \<^verbatim>\<open>prev\<close> and \<^verbatim>\<open>curr\<close>; it is entered
  with a nonzero \<^verbatim>\<open>tmp\<close> only, and \<^verbatim>\<open>curr <<= 1\<close> is on 16 bits.\<close>

fun pow2_loop :: "nat \<Rightarrow> nat \<Rightarrow> nat \<Rightarrow> nat \<times> nat" where
  "pow2_loop tmp prev cur =
     (if tmp \<le> 1 then (prev, cur) else pow2_loop (tmp div 2) cur (cur * 2 mod 65536))"

declare pow2_loop.simps [simp del]

definition Get2PowerTightUpperBound :: "nat \<Rightarrow> nat" where
  "Get2PowerTightUpperBound num =
     (if num = 0 then 2
      else let (prev, cur) = pow2_loop num 0 2 in if num = prev then prev else cur)"

definition GetEvenTightUpperBound :: "nat \<Rightarrow> nat" where
  "GetEvenTightUpperBound num =
     (if num = 0 then 2 else if num mod 2 \<noteq> 0 then num + 1 else num)"

text \<open>\<^verbatim>\<open>number_of_entries * btp\<close> and \<^verbatim>\<open>* etp\<close> in \<^verbatim>\<open>float\<close>: 0.8, 0.2, 1.00 and 0.43 as their 24-bit
  significands and exponents, truncated to \<^verbatim>\<open>uint16_t\<close> by the call.\<close>

definition base_part :: "ipa3_nat_mem_in \<Rightarrow> nat \<Rightarrow> nat" where
  "base_part nmi n =
     (if nmi = IPA_NAT_MEM_IN_SRAM then fp_mul_trunc 24 8388608 23 n
      else fp_mul_trunc 24 13421773 24 n)"

definition expn_part :: "ipa3_nat_mem_in \<Rightarrow> nat \<Rightarrow> nat" where
  "expn_part nmi n =
     (if nmi = IPA_NAT_MEM_IN_SRAM then fp_mul_trunc 24 14428406 25 n
      else fp_mul_trunc 24 13421773 26 n)"

definition ipa_table_calculate_entries_num ::
  "'e ipa_table \<Rightarrow> nat \<Rightarrow> ipa3_nat_mem_in \<Rightarrow> int \<times> 'e ipa_table" where
  "ipa_table_calculate_entries_num t number_of_entries nmi =
     (if number_of_entries > IPA_TABLE_MAX_ENTRIES then (- EINVAL, t)
      else
        let te = Get2PowerTightUpperBound (base_part nmi number_of_entries) mod 65536;
            xe = GetEvenTightUpperBound (expn_part nmi number_of_entries) mod 65536;
            t1 = t\<lparr>tot_tbl_ents := te + xe\<rparr>
        in if tot_tbl_ents t1 > IPA_TABLE_MAX_ENTRIES then (- EINVAL, t1)
           else (0, t1\<lparr>table_entries := te, expn_table_entries := xe\<rparr>))"

definition ipa_table_calculate_size :: "'e ipa_table \<Rightarrow> nat" where
  "ipa_table_calculate_size t = entry_size t * (table_entries t + expn_table_entries t)"

definition ipa_table_calculate_addresses :: "'e ipa_table \<Rightarrow> nat \<Rightarrow> nat \<times> 'e ipa_table" where
  "ipa_table_calculate_addresses t base_addr =
     (let t1 = t\<lparr>table_addr := base_addr,
                 expn_table_addr := base_addr + entry_size t * table_entries t\<rparr>
      in (expn_table_addr t1 + entry_size t1 * expn_table_entries t1, t1))"

definition ipa_table_reset :: "('e, 'u) ipa_table_entry_interface \<Rightarrow> 'e ipa_table \<Rightarrow> 'e ipa_table" where
  "ipa_table_reset ei t =
     t\<lparr>recs := replicate (table_entries t) (entry_zero ei) @
               replicate (expn_table_entries t) (entry_zero ei)\<rparr>"

text \<open>\<^verbatim>\<open>tot * 0.43\<close> is a product in \<^verbatim>\<open>double\<close> here (53-bit significand); \<^verbatim>\<open>tot * 1.00\<close> is exact.
  The record sizes the callers pass are 32 and 4 bytes, so the \<^verbatim>\<open>int\<close> size does not overflow.\<close>

definition sram_tables_size :: "nat \<Rightarrow> nat \<Rightarrow> nat \<Rightarrow> nat" where
  "sram_tables_size e1 e2 tot =
     (let te = Get2PowerTightUpperBound (fp_mul_trunc 53 4503599627370496 52 tot) mod 65536;
          xe = GetEvenTightUpperBound (fp_mul_trunc 53 7746191359077253 54 tot) mod 65536
      in e1 * (te + xe) + e2 * (te + xe))"

partial_function (option) calc_sram_loop :: "nat \<Rightarrow> nat \<Rightarrow> nat \<Rightarrow> nat \<Rightarrow> nat \<Rightarrow> nat option" where
  "calc_sram_loop sram_size e1 e2 tot num_entries =
     (if sram_tables_size e1 e2 tot > sram_size then Some num_entries
      else calc_sram_loop sram_size e1 e2 ((tot + 1) mod 65536) tot)"

definition ipa_calc_num_sram_table_entries :: "nat \<Rightarrow> nat \<Rightarrow> nat \<Rightarrow> (int \<times> nat) option" where
  "ipa_calc_num_sram_table_entries sram_size e1 e2 =
     do { n \<leftarrow> calc_sram_loop sram_size e1 e2 1 0;
          Some (if n \<noteq> 0 then 0 else - 1, n) }"

section \<open>DMA command generation\<close>

definition ipa_table_dma_cmd_helper_init ::
  "u8 \<Rightarrow> ipa_table_dma_type \<Rightarrow> ipa_table_dma_type \<Rightarrow> u32 \<Rightarrow> ipa_table_dma_cmd_helper" where
  "ipa_table_dma_cmd_helper_init table_indx table_type expn_table_type offset =
     \<lparr>help_offset = offset, help_table_type = table_type,
      help_expn_table_type = expn_table_type, help_table_indx = table_indx\<rparr>"

definition ipa_table_dma_cmd_generate ::
  "ipa_table_dma_cmd_helper \<Rightarrow> bool \<Rightarrow> u32 \<Rightarrow> u16 \<Rightarrow> ipa_ioc_nat_dma_cmd \<Rightarrow> ipa_ioc_nat_dma_cmd" where
  "ipa_table_dma_cmd_generate hlp is_expn entry_offset d cmd =
     cmd\<lparr>cmd_dma := cmd_dma cmd @
        [\<lparr>dma_table_index = help_table_indx hlp,
          dma_base_addr = dma_type_code (if is_expn then help_expn_table_type hlp
                                         else help_table_type hlp),
          dma_offset = help_offset hlp + entry_offset,
          dma_data = d\<rparr>]\<rparr>"

text \<open>\<^verbatim>\<open>rec_ptr\<close> is \<open>None\<close> for NULL.  A NULL entry of \<^verbatim>\<open>dma_help\<close> would be followed by
  \<^verbatim>\<open>ipa_table_dma_cmd_generate\<close>.\<close>

definition ipa_table_add_dma_cmd ::
  "'e ipa_table \<Rightarrow> dma_help_type \<Rightarrow> nat option \<Rightarrow> nat \<Rightarrow> u16 \<Rightarrow> ipa_ioc_nat_dma_cmd
    \<Rightarrow> (int \<times> ipa_ioc_nat_dma_cmd) option" where
  "ipa_table_add_dma_cmd t help_type rec_ptr rec_index data_for_entry cmd =
     (case rec_ptr of
        None \<Rightarrow> Some (- EINVAL, cmd)
      | Some p \<Rightarrow>
          if \<not> VALID_DMA_HELP_TYPE help_type then Some (- EINVAL, cmd)
          else let tab_sz = table_entries t + expn_table_entries t in
          if rec_index \<ge> tab_sz then Some (- EINVAL, cmd)
          else
            let is_expn = (rec_index \<ge> table_entries t);
                entry_offset :: u32 =
                  of_nat (GOTO_REC t p) -
                  of_nat (if is_expn then expn_table_addr t else table_addr t)
            in do { hlp \<leftarrow> dma_help t help_type;
                    Some (0, ipa_table_dma_cmd_generate hlp is_expn entry_offset data_for_entry cmd) })"

section \<open>Access to the records\<close>

definition ipa_table_get_entry :: "'e ipa_table \<Rightarrow> u32 \<Rightarrow> int \<times> nat" where
  "ipa_table_get_entry t entry_handle =
     (let (nmi, is_expn_tbl, rec_index) = BREAK_RULE_HDL t entry_handle in
      if rec_index \<ge> tot_tbl_ents t then (- EINVAL, 0) else (0, rec_index))"

definition ipa_table_get_entry_by_index :: "'e ipa_table \<Rightarrow> nat \<Rightarrow> nat option" where
  "ipa_table_get_entry_by_index t rec_index =
     (if rec_index = 0 \<or> rec_index \<ge> tot_tbl_ents t then None else Some rec_index)"

section \<open>Iterators\<close>

definition zero_iterator :: ipa_table_iterator where
  "zero_iterator = \<lparr>it_prev_index = 0, it_prev_entry = None, it_curr_index = 0,
     it_curr_entry = None, it_next_index = 0, it_next_entry = None\<rparr>"

definition ipa_table_iterator_init ::
  "('e, 'u) ipa_table_entry_interface \<Rightarrow> 'e ipa_table \<Rightarrow> nat \<Rightarrow> nat
    \<Rightarrow> (int \<times> ipa_table_iterator) option" where
  "ipa_table_iterator_init ei t curr_entry curr_index =
     do { e \<leftarrow> rec_at t curr_entry;
          if \<not> entry_is_valid ei e then Some (- EINVAL, zero_iterator)
          else do {
            pi \<leftarrow> entry_get_prev_index ei e curr_index (meta t) (table_entries t);
            let it1 = zero_iterator\<lparr>it_curr_entry := Some curr_entry, it_curr_index := curr_index,
                        it_prev_index := pi, it_next_index := entry_get_next_index ei e\<rparr>;
            let it2 = (if VALID_INDEX pi
                       then it1\<lparr>it_prev_entry := ipa_table_get_entry_by_index t pi\<rparr> else it1);
            if VALID_INDEX pi \<and> it_prev_entry it2 = None then Some (- EPERM, it2)
            else
              let ni = it_next_index it2;
                  it3 = (if VALID_INDEX ni
                         then it2\<lparr>it_next_entry := ipa_table_get_entry_by_index t ni\<rparr> else it2)
              in if VALID_INDEX ni \<and> it_next_entry it3 = None then Some (- EPERM, it3)
                 else Some (0, it3) } }"

definition ipa_table_iterator_next ::
  "('e, 'u) ipa_table_entry_interface \<Rightarrow> ipa_table_iterator \<Rightarrow> 'e ipa_table
    \<Rightarrow> (int \<times> ipa_table_iterator) option" where
  "ipa_table_iterator_next ei it t =
     do { ce \<leftarrow> it_next_entry it;
          e \<leftarrow> rec_at t ce;
          let it1 = it\<lparr>it_prev_entry := it_curr_entry it, it_prev_index := it_curr_index it,
                       it_curr_entry := Some ce, it_curr_index := it_next_index it,
                       it_next_index := entry_get_next_index ei e\<rparr>;
          if \<not> VALID_INDEX (it_next_index it1) then Some (0, it1\<lparr>it_next_entry := None\<rparr>)
          else let it2 = it1\<lparr>it_next_entry := ipa_table_get_entry_by_index t (it_next_index it1)\<rparr>
               in if it_next_entry it2 = None then Some (- EPERM, it2) else Some (0, it2) }"

text \<open>The \<^verbatim>\<open>while (1)\<close> of \<^verbatim>\<open>ipa_table_iterator_end\<close>: \<open>(found_end, prev_index)\<close>.  It follows
  \<^verbatim>\<open>next_index\<close> without a bounds check and stops at a record that points to nothing or to
  itself; a longer cycle would never end.\<close>

partial_function (option) iterator_end_loop ::
  "('e, 'u) ipa_table_entry_interface \<Rightarrow> 'e ipa_table \<Rightarrow> nat \<Rightarrow> (bool \<times> nat) option" where
  "iterator_end_loop ei t prev =
     do { e \<leftarrow> rec_at t prev;
          let next_index = entry_get_next_index ei e;
          if \<not> VALID_INDEX next_index then Some (True, prev)
          else if next_index = prev then Some (False, prev)
          else iterator_end_loop ei t next_index }"

definition ipa_table_iterator_end ::
  "('e, 'u) ipa_table_entry_interface \<Rightarrow> 'e ipa_table \<Rightarrow> nat \<Rightarrow> (int \<times> ipa_table_iterator) option" where
  "ipa_table_iterator_end ei t rec_index =
     do { (found_end, p) \<leftarrow> iterator_end_loop ei t rec_index;
          let it = zero_iterator\<lparr>it_prev_index := p, it_prev_entry := Some p\<rparr>;
          Some (if found_end then 0 else - 1, it) }"

definition ipa_table_iterator_is_head_with_tail :: "ipa_table_iterator \<Rightarrow> bool" where
  "ipa_table_iterator_is_head_with_tail it =
     (VALID_INDEX (it_next_index it) \<and> \<not> VALID_INDEX (it_prev_index it))"

section \<open>Walking the table\<close>

datatype When2Callback = WHEN_SLOT_EMPTY | WHEN_SLOT_FILLED | WHEN_SLOT_MAX

definition VALID_WHEN2CALLBACK :: "When2Callback \<Rightarrow> bool" where
  "VALID_WHEN2CALLBACK w = (w \<noteq> WHEN_SLOT_MAX)"

text \<open>The callback gets the table, the rule handle, the record (its index), the index, the meta
  record and its index, and \<^verbatim>\<open>arb_data_ptr\<close> as the state it may change.\<close>

type_synonym ('e, 's) ipa_table_walk_cb =
  "'e ipa_table \<Rightarrow> u32 \<Rightarrow> 'e \<Rightarrow> nat \<Rightarrow> u16 option \<Rightarrow> nat \<Rightarrow> 's \<Rightarrow> (int \<times> 's) option"

definition meta_record :: "'e ipa_table \<Rightarrow> nat \<Rightarrow> u16 option \<times> nat" where
  "meta_record t i =
     (case meta t of
        None \<Rightarrow> (None, 0)
      | Some m \<Rightarrow> if i \<ge> table_entries t
                  then (if i - table_entries t < length m then Some (m ! (i - table_entries t)) else None,
                        i - table_entries t)
                  else (None, 0))"

partial_function (option) walk_loop ::
  "('e, 'u) ipa_table_entry_interface \<Rightarrow> 'e ipa_table \<Rightarrow> nat \<Rightarrow> When2Callback
    \<Rightarrow> ('e, 's) ipa_table_walk_cb \<Rightarrow> nat \<Rightarrow> 's \<Rightarrow> (int \<times> 's) option" where
  "walk_loop ei t tot when2cb walk_cb i s =
     (if i < tot then
        do { e \<leftarrow> rec_at t i;
             if (if entry_is_valid ei e then when2cb = WHEN_SLOT_FILLED else when2cb = WHEN_SLOT_EMPTY)
             then do {
               (ret, s') \<leftarrow> walk_cb t (ucast (MakeEntryHdl t i)) e i
                              (fst (meta_record t i)) (snd (meta_record t i)) s;
               if ret \<noteq> 0 then Some (ret, s')
               else walk_loop ei t tot when2cb walk_cb ((i + 1) mod 65536) s' }
             else walk_loop ei t tot when2cb walk_cb ((i + 1) mod 65536) s }
      else Some (0, s))"

definition ipa_table_walk ::
  "('e, 'u) ipa_table_entry_interface \<Rightarrow> 'e ipa_table \<Rightarrow> nat \<Rightarrow> When2Callback
    \<Rightarrow> ('e, 's) ipa_table_walk_cb \<Rightarrow> 's \<Rightarrow> (int \<times> 's) option" where
  "ipa_table_walk ei t start_index when2cb walk_cb s =
     (if \<not> VALID_WHEN2CALLBACK when2cb then Some (- EINVAL, s)
      else let tot = table_entries t + expn_table_entries t in
           if start_index \<ge> tot then Some (- EINVAL, s)
           else walk_loop ei t tot when2cb walk_cb start_index s)"

definition mt_slot :: "('e, unit) ipa_table_walk_cb" where
  "mt_slot t rule_hdl e record_index meta_ptr meta_index s = Some (int record_index, s)"

definition FindExpnTblFreeEntry ::
  "('e, 'u) ipa_table_entry_interface \<Rightarrow> 'e ipa_table \<Rightarrow> (int \<times> nat option \<times> nat) option" where
  "FindExpnTblFreeEntry ei t =
     do { (ret, _) \<leftarrow> ipa_table_walk ei t (table_entries t) WHEN_SLOT_EMPTY mt_slot ();
          if ret > 0 then
            let entry_index = nat ret mod 65536 in Some (0, Some entry_index, entry_index)
          else Some (- 1, None, 0) }"

section \<open>Insertion\<close>

definition InsertHead ::
  "('e, 'u) ipa_table_entry_interface \<Rightarrow> 'e ipa_table \<Rightarrow> nat \<Rightarrow> 'u \<Rightarrow> ipa_ioc_nat_dma_cmd
    \<Rightarrow> (int \<times> 'e ipa_table \<times> ipa_ioc_nat_dma_cmd) option" where
  "InsertHead ei t rec_index user_data cmd =
     do { e \<leftarrow> rec_at t rec_index;
          (ret, e', enable_data) \<leftarrow> entry_head_insert ei e user_data;
          let t1 = put_rec t rec_index e';
          if ret \<noteq> 0 then Some (ret, t1, cmd)
          else do {
            (_, cmd1) \<leftarrow> ipa_table_add_dma_cmd t1 HELP_UPDATE_HEAD (Some rec_index) rec_index enable_data cmd;
            Some (0, t1\<lparr>cur_tbl_cnt := cur_tbl_cnt t1 + 1\<rparr>, cmd1) } }"

text \<open>\<^verbatim>\<open>is_index_tbl\<close>: a table with meta data is an index table.  The new record's content comes
  from \<^verbatim>\<open>entry_tail_insert\<close> there and from \<^verbatim>\<open>entry_head_insert\<close> (with an enable command) otherwise.\<close>

definition InsertTail ::
  "('e, 'u) ipa_table_entry_interface \<Rightarrow> 'e ipa_table \<Rightarrow> nat \<Rightarrow> 'u \<Rightarrow> ipa_ioc_nat_dma_cmd
    \<Rightarrow> (int \<times> 'e ipa_table \<times> nat \<times> ipa_ioc_nat_dma_cmd) option" where
  "InsertTail ei t rec_index user_data cmd =
     do { let is_index_tbl = (meta t \<noteq> None);
          (ret, it) \<leftarrow> ipa_table_iterator_end ei t rec_index;
          if ret \<noteq> 0 then Some (ret, t, rec_index, cmd)
          else do {
            (ret, ce, ci) \<leftarrow> FindExpnTblFreeEntry ei t;
            if ret \<noteq> 0 then Some (ret, t, rec_index, cmd)
            else do {
              e \<leftarrow> rec_at t ci;
              (ret, e', enable_data) \<leftarrow>
                (if is_index_tbl
                 then do { (r, x) \<leftarrow> entry_tail_insert ei e user_data; Some (r, x, 0) }
                 else entry_head_insert ei e user_data);
              if ret \<noteq> 0 then Some (ret, put_rec t ci e', rec_index, cmd)
              else do {
                (e'', m') \<leftarrow> entry_set_prev_index ei e' ci (it_prev_index it) (meta t) (table_entries t);
                let t1 = (put_rec t ci e'')\<lparr>meta := m'\<rparr>;
                (_, cmd1) \<leftarrow> (if is_index_tbl then Some (0, cmd)
                             else ipa_table_add_dma_cmd t1 HELP_UPDATE_HEAD ce ci enable_data cmd);
                (_, cmd2) \<leftarrow> ipa_table_add_dma_cmd t1 HELP_UPDATE_ENTRY (it_prev_entry it)
                              (it_prev_index it) (of_nat ci) cmd1;
                Some (0, t1\<lparr>cur_expn_tbl_cnt := cur_expn_tbl_cnt t1 + 1\<rparr>, ci, cmd2) } } } }"

text \<open>Result: status, table, \<^verbatim>\<open>*rec_index_ptr\<close>, \<^verbatim>\<open>*rule_hdl\<close> and the command under construction.\<close>

definition ipa_table_add_entry ::
  "('e, 'u) ipa_table_entry_interface \<Rightarrow> 'e ipa_table \<Rightarrow> 'u \<Rightarrow> nat \<Rightarrow> ipa_ioc_nat_dma_cmd
    \<Rightarrow> (int \<times> 'e ipa_table \<times> nat \<times> u32 \<times> ipa_ioc_nat_dma_cmd) option" where
  "ipa_table_add_entry ei t user_data rec_index cmd =
     do { e \<leftarrow> rec_at t rec_index;
          (ret, t1, idx, cmd1) \<leftarrow>
            (if \<not> entry_is_valid ei e
             then do { (r, t', c') \<leftarrow> InsertHead ei t rec_index user_data cmd; Some (r, t', rec_index, c') }
             else InsertTail ei t rec_index user_data cmd);
          if ret \<noteq> 0 then Some (ret, t1, idx, 0, cmd1)
          else Some (0, t1, idx, ucast (MakeEntryHdl t1 idx), cmd1) }"

section \<open>Deletion\<close>

definition ipa_table_create_delete_command ::
  "('e, 'u) ipa_table_entry_interface \<Rightarrow> 'e ipa_table \<Rightarrow> ipa_ioc_nat_dma_cmd \<Rightarrow> ipa_table_iterator
    \<Rightarrow> ipa_ioc_nat_dma_cmd option" where
  "ipa_table_create_delete_command ei t cmd it =
     (if \<not> VALID_INDEX (it_prev_index it) then
        do { (d, ht) \<leftarrow>
               (if VALID_INDEX (it_next_index it)
                then do { ce \<leftarrow> it_curr_entry it; c \<leftarrow> rec_at t ce;
                          ne \<leftarrow> it_next_entry it; n \<leftarrow> rec_at t ne;
                          Some (entry_get_delete_head_dma_command_data ei c n, HELP_DELETE_HEAD) }
                else Some (0, HELP_UPDATE_HEAD));
             map_option snd (ipa_table_add_dma_cmd t ht (it_curr_entry it) (it_curr_index it) d cmd) }
      else
        map_option snd
          (ipa_table_add_dma_cmd t HELP_UPDATE_ENTRY (it_prev_entry it) (it_prev_index it)
             (of_nat (it_next_index it)) cmd))"

definition ipa_table_erase_entry ::
  "('e, 'u) ipa_table_entry_interface \<Rightarrow> 'e ipa_table \<Rightarrow> nat \<Rightarrow> 'e ipa_table option" where
  "ipa_table_erase_entry ei t index =
     do { _ \<leftarrow> rec_at t index;
          let t1 = put_rec t index (entry_zero ei);
          Some (if index < table_entries t then t1\<lparr>cur_tbl_cnt := cur_tbl_cnt t1 - 1\<rparr>
                else t1\<lparr>cur_expn_tbl_cnt := cur_expn_tbl_cnt t1 - 1\<rparr>) }"

definition ipa_table_delete_entry ::
  "('e, 'u) ipa_table_entry_interface \<Rightarrow> 'e ipa_table \<Rightarrow> ipa_table_iterator \<Rightarrow> bool
    \<Rightarrow> 'e ipa_table option" where
  "ipa_table_delete_entry ei t it is_prev_empty =
     do { t1 \<leftarrow>
            (if VALID_INDEX (it_next_index it) then
               do { ne \<leftarrow> it_next_entry it; n \<leftarrow> rec_at t ne;
                    (n', m') \<leftarrow> entry_set_prev_index ei n (it_next_index it) (it_prev_index it)
                                  (meta t) (table_entries t);
                    Some ((put_rec t ne n')\<lparr>meta := m'\<rparr>) }
             else if is_prev_empty then
               (case it_prev_entry it of
                  None \<Rightarrow> Some t
                | Some pe \<Rightarrow> do { _ \<leftarrow> rec_at t pe;
                                  Some ((put_rec t pe (entry_zero ei))
                                          \<lparr>cur_tbl_cnt := cur_tbl_cnt t - 1\<rparr>) })
             else Some t);
          ipa_table_erase_entry ei t1 (it_curr_index it) }"

end
