(* ===== verification/Nat_Rules.thy ===== *)
theory Nat_Rules
  imports Ipa_Table
begin

text \<open>
  The records of the IPv4 NAT table and of its index table, with the callbacks
  \<^verbatim>\<open>ipa_nat_drvi.c\<close> installs in \<^verbatim>\<open>entry_interface\<close> and \<^verbatim>\<open>index_entry_interface\<close>, the checksum
  differences and the two hashes.  A bit-field of one bit is a \<^typ>\<open>bool\<close>, a wider one a word of its
  width.  \<open>nat_encode\<close> is the little-endian layout of \<^verbatim>\<open>struct ipa_nat_rule\<close> as 16 halfwords, the unit
  the device writes.
\<close>

section \<open>Data\<close>

record ipa_nat_rule =
  private_ip :: u32
  target_ip :: u32
  next_index :: u16
  public_port :: u16
  private_port :: u16
  target_port :: u16
  ip_chksum :: u16
  uc_activation_index :: "13 word"
  s_bit :: bool
  redirect :: bool
  enable :: bool
  time_stamp :: "24 word"
  protocol :: u8
  prev_index :: u16
  indx_tbl_entry :: u16
  rsvd2 :: u8
  rsvd3 :: bool
  dst_only :: bool
  src_only :: bool
  ucp :: bool
  pdn_index :: "4 word"
  tcp_udp_chksum :: u16

record ipa_nat_indx_tbl_rule =
  tbl_entry :: u16
  indx_next_index :: u16

record ipa_nat_pdn_entry =
  pdn_public_ip :: u32
  pdn_src_metadata :: u32
  pdn_dst_metadata :: u32

record ipa_nat_ipv4_rule =
  u_target_ip :: u32
  u_private_ip :: u32
  u_target_port :: u16
  u_private_port :: u16
  u_public_port :: u16
  u_protocol :: u8
  u_pdn_index :: u8
  u_redirect :: u8
  u_enable :: u8
  u_time_stamp :: u32
  u_uc_activation_index :: u16
  u_s :: bool
  u_ucp :: bool
  u_dst_only :: bool
  u_src_only :: bool

definition nat_rule_zero :: ipa_nat_rule where
  "nat_rule_zero =
     \<lparr>private_ip = 0, target_ip = 0, next_index = 0, public_port = 0, private_port = 0, target_port = 0,
      ip_chksum = 0, uc_activation_index = 0, s_bit = False, redirect = False, enable = False,
      time_stamp = 0, protocol = 0, prev_index = 0, indx_tbl_entry = 0, rsvd2 = 0, rsvd3 = False,
      dst_only = False, src_only = False, ucp = False, pdn_index = 0, tcp_udp_chksum = 0\<rparr>"

definition indx_rule_zero :: ipa_nat_indx_tbl_rule where
  "indx_rule_zero = \<lparr>tbl_entry = 0, indx_next_index = 0\<rparr>"

section \<open>Memory layout\<close>

definition nat_flags :: "13 word \<Rightarrow> bool \<Rightarrow> bool \<Rightarrow> bool \<Rightarrow> u16" where
  "nat_flags uc s r en = ucast uc OR bit_at 13 s OR bit_at 14 r OR bit_at 15 en"

definition nat_pdn_info :: "u8 \<Rightarrow> bool \<Rightarrow> bool \<Rightarrow> bool \<Rightarrow> bool \<Rightarrow> 4 word \<Rightarrow> u16" where
  "nat_pdn_info r2 r3 d s u p =
     ucast r2 OR bit_at 8 r3 OR bit_at 9 d OR bit_at 10 s OR bit_at 11 u OR push_bit 12 (ucast p)"

definition nat_encode :: "ipa_nat_rule \<Rightarrow> u16 list" where
  "nat_encode e =
     [ucast (private_ip e), ucast (drop_bit 16 (private_ip e)),
      ucast (target_ip e), ucast (drop_bit 16 (target_ip e)),
      next_index e, public_port e, private_port e, target_port e, ip_chksum e,
      nat_flags (uc_activation_index e) (s_bit e) (redirect e) (enable e),
      ucast (time_stamp e),
      ucast (drop_bit 16 (time_stamp e)) OR push_bit 8 (ucast (protocol e)),
      prev_index e, indx_tbl_entry e,
      nat_pdn_info (rsvd2 e) (rsvd3 e) (dst_only e) (src_only e) (ucp e) (pdn_index e),
      tcp_udp_chksum e]"

definition nat_decode :: "u16 list \<Rightarrow> ipa_nat_rule" where
  "nat_decode hs =
     \<lparr>private_ip = ucast (hs ! 0) OR push_bit 16 (ucast (hs ! 1)),
      target_ip = ucast (hs ! 2) OR push_bit 16 (ucast (hs ! 3)),
      next_index = hs ! 4, public_port = hs ! 5, private_port = hs ! 6, target_port = hs ! 7,
      ip_chksum = hs ! 8,
      uc_activation_index = ucast (hs ! 9), s_bit = bit (hs ! 9) 13, redirect = bit (hs ! 9) 14,
      enable = bit (hs ! 9) 15,
      time_stamp = ucast (hs ! 10) OR push_bit 16 (ucast (hs ! 11)),
      protocol = ucast (drop_bit 8 (hs ! 11)),
      prev_index = hs ! 12, indx_tbl_entry = hs ! 13,
      rsvd2 = ucast (hs ! 14), rsvd3 = bit (hs ! 14) 8, dst_only = bit (hs ! 14) 9,
      src_only = bit (hs ! 14) 10, ucp = bit (hs ! 14) 11, pdn_index = ucast (drop_bit 12 (hs ! 14)),
      tcp_udp_chksum = hs ! 15\<rparr>"

text \<open>The device's write of one halfword at a byte offset of a record.\<close>

definition nat_put :: "nat \<Rightarrow> u16 \<Rightarrow> ipa_nat_rule \<Rightarrow> ipa_nat_rule" where
  "nat_put ofs v e = nat_decode ((nat_encode e)[ofs div 2 := v])"

definition indx_put :: "nat \<Rightarrow> u16 \<Rightarrow> ipa_nat_indx_tbl_rule \<Rightarrow> ipa_nat_indx_tbl_rule" where
  "indx_put ofs v e = (if ofs div 2 = 0 then e\<lparr>tbl_entry := v\<rparr> else e\<lparr>indx_next_index := v\<rparr>)"

definition IPA_NAT_RULE_FLAG_FIELD_OFFSET :: nat where "IPA_NAT_RULE_FLAG_FIELD_OFFSET = 18"
definition IPA_NAT_RULE_NEXT_FIELD_OFFSET :: nat where "IPA_NAT_RULE_NEXT_FIELD_OFFSET = 8"
definition IPA_NAT_RULE_PROTO_FIELD_OFFSET :: nat where "IPA_NAT_RULE_PROTO_FIELD_OFFSET = 22"
definition IPA_NAT_INDEX_RULE_NEXT_FIELD_OFFSET :: nat where "IPA_NAT_INDEX_RULE_NEXT_FIELD_OFFSET = 2"
definition IPA_NAT_INDEX_RULE_NAT_INDEX_FIELD_OFFSET :: nat where
  "IPA_NAT_INDEX_RULE_NAT_INDEX_FIELD_OFFSET = 0"
definition IPA_NAT_INVALID_PROTO_FIELD_VALUE :: u16 where "IPA_NAT_INVALID_PROTO_FIELD_VALUE = 0xFF00"
definition IPAHAL_NAT_INVALID_PROTOCOL :: u8 where "IPAHAL_NAT_INVALID_PROTOCOL = 0xFF"
definition IPA_MAX_PDN_NUM :: nat where "IPA_MAX_PDN_NUM = 16"

section \<open>Checksum differences\<close>

text \<open>Each of the repeated steps \<^verbatim>\<open>cksum += x; if (cksum >> 16) { cksum &= 0xFFFF; cksum += 1; }\<close>.\<close>

definition cksum_fold :: "u32 \<Rightarrow> u32" where
  "cksum_fold c = (if drop_bit 16 c \<noteq> 0 then (c AND 0xFFFF) + 1 else c)"

definition ipa_nati_calc_ip_cksum :: "u32 \<Rightarrow> u32 \<Rightarrow> u16" where
  "ipa_nati_calc_ip_cksum pub_ip_addr priv_ip_addr =
     (let cksum = 0 + (pub_ip_addr AND 0xFFFF);
          cksum = cksum_fold (cksum + drop_bit 16 pub_ip_addr);
          priv = NOT priv_ip_addr;
          cksum = cksum_fold (cksum + (priv AND 0xFFFF));
          cksum = cksum_fold (cksum + drop_bit 16 priv)
      in ucast cksum)"

definition ipa_nati_calc_tcp_udp_cksum :: "u32 \<Rightarrow> u16 \<Rightarrow> u32 \<Rightarrow> u16 \<Rightarrow> u16" where
  "ipa_nati_calc_tcp_udp_cksum pub_ip_addr pub_port priv_ip_addr priv_port =
     (let cksum = 0 + (pub_ip_addr AND 0xFFFF);
          cksum = cksum_fold (cksum + drop_bit 16 pub_ip_addr);
          cksum = cksum_fold (cksum + ucast pub_port);
          priv = NOT priv_ip_addr;
          cksum = cksum_fold (cksum + (priv AND 0xFFFF));
          cksum = cksum_fold (cksum + drop_bit 16 priv);
          priv_port = NOT priv_port;
          cksum = cksum_fold (cksum + ucast priv_port)
      in ucast cksum)"

section \<open>Callbacks of the NAT table\<close>

definition table_entry_is_valid :: "ipa_nat_rule \<Rightarrow> bool" where
  "table_entry_is_valid e = enable e"

definition table_entry_get_next_index :: "ipa_nat_rule \<Rightarrow> nat" where
  "table_entry_get_next_index e = unat (next_index e)"

definition table_entry_get_prev_index :: "ipa_nat_rule \<Rightarrow> nat \<Rightarrow> u16 list option \<Rightarrow> nat \<Rightarrow> nat option" where
  "table_entry_get_prev_index e entry_index m base_table_size = Some (unat (prev_index e))"

definition table_entry_set_prev_index ::
  "ipa_nat_rule \<Rightarrow> nat \<Rightarrow> nat \<Rightarrow> u16 list option \<Rightarrow> nat \<Rightarrow> (ipa_nat_rule \<times> u16 list option) option" where
  "table_entry_set_prev_index e entry_index p m base_table_size = Some (e\<lparr>prev_index := of_nat p\<rparr>, m)"

text \<open>\<^verbatim>\<open>pdns[user_rule->pdn_index]\<close> is outside of the array from 16 on.  \<^verbatim>\<open>IPPROTO_TCP\<close> is 6 and
  \<^verbatim>\<open>IPPROTO_UDP\<close> 17.\<close>

definition table_entry_copy_from_user ::
  "ipa_nat_pdn_entry list \<Rightarrow> ipa_nat_rule \<Rightarrow> ipa_nat_ipv4_rule \<Rightarrow> (int \<times> ipa_nat_rule) option" where
  "table_entry_copy_from_user pdns e u =
     (if unat (u_pdn_index u) \<ge> length pdns then None
      else
        let pub_ip_addr = pdn_public_ip (pdns ! unat (u_pdn_index u));
            e1 = e\<lparr>private_ip := u_private_ip u, private_port := u_private_port u,
                   protocol := u_protocol u, public_port := u_public_port u,
                   target_ip := u_target_ip u, target_port := u_target_port u,
                   pdn_index := ucast (u_pdn_index u),
                   uc_activation_index := ucast (u_uc_activation_index u),
                   s_bit := u_s u, ucp := u_ucp u, dst_only := u_dst_only u, src_only := u_src_only u,
                   ip_chksum := ipa_nati_calc_ip_cksum pub_ip_addr (u_private_ip u)\<rparr>
        in Some (0, if protocol e1 = 6 \<or> protocol e1 = 17
                    then e1\<lparr>tcp_udp_chksum := ipa_nati_calc_tcp_udp_cksum pub_ip_addr (u_public_port u)
                                                 (u_private_ip u) (u_private_port u)\<rparr>
                    else e1))"

definition table_entry_head_insert ::
  "ipa_nat_pdn_entry list \<Rightarrow> ipa_nat_rule \<Rightarrow> ipa_nat_ipv4_rule \<Rightarrow> (int \<times> ipa_nat_rule \<times> u16) option" where
  "table_entry_head_insert pdns e u =
     do { (ret, e1) \<leftarrow> table_entry_copy_from_user pdns e u;
          if ret \<noteq> 0 then Some (ret, e1, 0)
          else Some (0, e1, nat_flags (uc_activation_index e1) (s_bit e1) False True) }"

definition table_entry_tail_insert ::
  "ipa_nat_pdn_entry list \<Rightarrow> ipa_nat_rule \<Rightarrow> ipa_nat_ipv4_rule \<Rightarrow> (int \<times> ipa_nat_rule) option" where
  "table_entry_tail_insert pdns e u =
     do { (ret, e1) \<leftarrow> table_entry_copy_from_user pdns e u;
          if ret \<noteq> 0 then Some (ret, e1) else Some (0, e1\<lparr>enable := True\<rparr>) }"

definition table_entry_get_delete_head_dma_command_data :: "ipa_nat_rule \<Rightarrow> ipa_nat_rule \<Rightarrow> u16" where
  "table_entry_get_delete_head_dma_command_data hd_e nx_e = IPA_NAT_INVALID_PROTO_FIELD_VALUE"

definition entry_interface ::
  "ipa_nat_pdn_entry list \<Rightarrow> (ipa_nat_rule, ipa_nat_ipv4_rule) ipa_table_entry_interface" where
  "entry_interface pdns =
     \<lparr>entry_zero = nat_rule_zero,
      entry_is_valid = table_entry_is_valid,
      entry_get_next_index = table_entry_get_next_index,
      entry_get_prev_index = table_entry_get_prev_index,
      entry_set_prev_index = table_entry_set_prev_index,
      entry_head_insert = table_entry_head_insert pdns,
      entry_tail_insert = table_entry_tail_insert pdns,
      entry_get_delete_head_dma_command_data = table_entry_get_delete_head_dma_command_data\<rparr>"

section \<open>Callbacks of the index table\<close>

definition index_table_entry_is_valid :: "ipa_nat_indx_tbl_rule \<Rightarrow> bool" where
  "index_table_entry_is_valid e = (tbl_entry e \<noteq> 0)"

definition index_table_entry_get_next_index :: "ipa_nat_indx_tbl_rule \<Rightarrow> nat" where
  "index_table_entry_get_next_index e = unat (indx_next_index e)"

definition index_table_entry_get_prev_index ::
  "ipa_nat_indx_tbl_rule \<Rightarrow> nat \<Rightarrow> u16 list option \<Rightarrow> nat \<Rightarrow> nat option" where
  "index_table_entry_get_prev_index e entry_index m base_table_size =
     (if entry_index \<ge> base_table_size then
        (case m of None \<Rightarrow> None
         | Some ms \<Rightarrow> if entry_index - base_table_size < length ms
                     then Some (unat (ms ! (entry_index - base_table_size))) else None)
      else Some 0)"

definition index_table_entry_set_prev_index ::
  "ipa_nat_indx_tbl_rule \<Rightarrow> nat \<Rightarrow> nat \<Rightarrow> u16 list option \<Rightarrow> nat
    \<Rightarrow> (ipa_nat_indx_tbl_rule \<times> u16 list option) option" where
  "index_table_entry_set_prev_index e entry_index p m base_table_size =
     (if entry_index \<ge> base_table_size then
        (case m of None \<Rightarrow> None
         | Some ms \<Rightarrow> if entry_index - base_table_size < length ms
                     then Some (e, Some (ms[entry_index - base_table_size := of_nat p])) else None)
      else Some (e, m))"

definition index_table_entry_head_insert ::
  "ipa_nat_indx_tbl_rule \<Rightarrow> u16 \<Rightarrow> (int \<times> ipa_nat_indx_tbl_rule \<times> u16) option" where
  "index_table_entry_head_insert e u = Some (0, e, u)"

definition index_table_entry_tail_insert ::
  "ipa_nat_indx_tbl_rule \<Rightarrow> u16 \<Rightarrow> (int \<times> ipa_nat_indx_tbl_rule) option" where
  "index_table_entry_tail_insert e u = Some (0, e\<lparr>tbl_entry := u\<rparr>)"

definition index_table_entry_get_delete_head_dma_command_data ::
  "ipa_nat_indx_tbl_rule \<Rightarrow> ipa_nat_indx_tbl_rule \<Rightarrow> u16" where
  "index_table_entry_get_delete_head_dma_command_data hd_e nx_e = tbl_entry nx_e"

definition index_entry_interface :: "(ipa_nat_indx_tbl_rule, u16) ipa_table_entry_interface" where
  "index_entry_interface =
     \<lparr>entry_zero = indx_rule_zero,
      entry_is_valid = index_table_entry_is_valid,
      entry_get_next_index = index_table_entry_get_next_index,
      entry_get_prev_index = index_table_entry_get_prev_index,
      entry_set_prev_index = index_table_entry_set_prev_index,
      entry_head_insert = index_table_entry_head_insert,
      entry_tail_insert = index_table_entry_tail_insert,
      entry_get_delete_head_dma_command_data = index_table_entry_get_delete_head_dma_command_data\<rparr>"

section \<open>Hashes\<close>

text \<open>\<open>v4\<close> is \<^verbatim>\<open>nat_cache_ptr->ipa_desc->ver >= IPA_HW_v4_0\<close>; \<open>sz\<close> is the base table size less one.\<close>

definition dst_hash :: "bool \<Rightarrow> u32 \<Rightarrow> u32 \<Rightarrow> u16 \<Rightarrow> u16 \<Rightarrow> u8 \<Rightarrow> u16 \<Rightarrow> u16" where
  "dst_hash v4 public_ip trgt_ip trgt_port pub_port proto sz =
     (let hash = ucast trgt_ip XOR ucast (drop_bit 16 trgt_ip) XOR trgt_port XOR pub_port XOR ucast proto;
          hash = (if v4 then hash XOR (ucast public_ip XOR ucast (drop_bit 16 public_ip)) else hash);
          hash = hash AND sz
      in if hash = 0 then sz else hash)"

definition src_hash :: "u32 \<Rightarrow> u16 \<Rightarrow> u32 \<Rightarrow> u16 \<Rightarrow> u8 \<Rightarrow> u16 \<Rightarrow> u16" where
  "src_hash priv_ip priv_port trgt_ip trgt_port proto sz =
     (let hash = ucast priv_ip XOR ucast (drop_bit 16 priv_ip) XOR priv_port XOR
                 ucast trgt_ip XOR ucast (drop_bit 16 trgt_ip) XOR trgt_port XOR ucast proto;
          hash = hash AND sz
      in if hash = 0 then sz else hash)"

end
