(* ===== verification/Ipa_Mem_Descriptor.thy ===== *)
theory Ipa_Mem_Descriptor
  imports Ipa_Table
begin

text \<open>
  The kernel interface the library runs on, the IPA descriptor of \<^verbatim>\<open>ipa_nat_utils.c\<close> and the memory
  descriptor of \<^verbatim>\<open>ipa_mem_descriptor.c\<close>.  System calls, ioctls and the allocator are not part of the
  repository's library: they are the fields of a record \<open>ipa_env\<close> over an arbitrary world state
  \<^typ>\<open>'w\<close>, and every operation threads the world.  The sources are read without \<^verbatim>\<open>IPA_ON_R3PC\<close>.
\<close>

record ipa_nat_in_sram_info =
  sram_mem_available_for_nat :: u32
  nat_table_offset_into_mmap :: u32
  best_nat_in_sram_size_rqst :: u32

text \<open>\<open>IOCTL_NONE\<close> is the zero an erased descriptor holds.\<close>

datatype table_ioctl =
    IOCTL_NONE | IPA_IOC_ALLOC_NAT_TABLE | IPA_IOC_DEL_NAT_TABLE
  | IPA_IOC_ALLOC_IPV6CT_TABLE | IPA_IOC_DEL_IPV6CT_TABLE

datatype ipa_app_clock_vote_type = IPA_APP_CLK_DEVOTE | IPA_APP_CLK_VOTE | IPA_APP_CLK_RESET_VOTE

text \<open>An ioctl returns its status, its output and the new world.  \<^verbatim>\<open>mmap\<close> gives an address or
  \<^verbatim>\<open>MAP_FAILED\<close> (\<open>None\<close>); \<open>env_calloc\<close> says whether an allocation of that many bytes succeeds.\<close>

record 'w ipa_env =
  env_mutex_lock :: "'w \<Rightarrow> int \<times> 'w"
  env_mutex_unlock :: "'w \<Rightarrow> int \<times> 'w"
  env_calloc :: "nat \<Rightarrow> 'w \<Rightarrow> bool \<times> 'w"
  env_open :: "string \<Rightarrow> 'w \<Rightarrow> int \<times> 'w"
  env_close :: "int \<Rightarrow> 'w \<Rightarrow> int \<times> 'w"
  env_get_hw_version :: "int \<Rightarrow> 'w \<Rightarrow> int \<times> nat \<times> 'w"
  env_mmap :: "int \<Rightarrow> int \<Rightarrow> 'w \<Rightarrow> nat option \<times> 'w"
  env_munmap :: "nat \<Rightarrow> int \<Rightarrow> 'w \<Rightarrow> 'w"
  env_get_sram_info :: "int \<Rightarrow> 'w \<Rightarrow> int \<times> ipa_nat_in_sram_info \<times> 'w"
  env_alloc_table :: "table_ioctl \<Rightarrow> int \<Rightarrow> int \<Rightarrow> 'w \<Rightarrow> int \<times> u32 \<times> 'w"
  env_del_table :: "table_ioctl \<Rightarrow> int \<Rightarrow> u8 \<Rightarrow> ipa3_nat_mem_in \<Rightarrow> 'w \<Rightarrow> int \<times> 'w"

section \<open>The IPA descriptor\<close>

record ipa_descriptor =
  desc_fd :: int
  desc_ver :: nat

definition IPA_HW_None :: nat where "IPA_HW_None = 0"
definition IPA_HW_v4_0 :: nat where "IPA_HW_v4_0 = 14"

definition ipa_descriptor_open :: "('w, 'z) ipa_env_scheme \<Rightarrow> 'w \<Rightarrow> ipa_descriptor option \<times> 'w" where
  "ipa_descriptor_open env w =
     (let (ok, w) = env_calloc env 8 w in
      if \<not> ok then (None, w)
      else let (fd, w) = env_open env ''/dev/ipa'' w in
      if fd < 0 then (None, w)
      else let (res, ver, w) = env_get_hw_version env fd w in
      (Some \<lparr>desc_fd = fd, desc_ver = (if res = 0 then ver else IPA_HW_None)\<rparr>, w))"

definition ipa_descriptor_close :: "('w, 'z) ipa_env_scheme \<Rightarrow> ipa_descriptor option \<Rightarrow> 'w \<Rightarrow> 'w" where
  "ipa_descriptor_close env d w =
     (case d of None \<Rightarrow> w
      | Some desc \<Rightarrow> if desc_fd desc \<ge> 0 then snd (env_close env (desc_fd desc) w) else w)"

text \<open>\<^verbatim>\<open>if (! x->ipa_desc) x->ipa_desc = ipa_descriptor_open();\<close>, as the NAT caches and the IPv6 table do it.\<close>

definition open_desc :: "('w, 'z) ipa_env_scheme \<Rightarrow> ipa_descriptor option \<Rightarrow> 'w \<Rightarrow> ipa_descriptor option \<times> 'w" where
  "open_desc env d w = (case d of None \<Rightarrow> ipa_descriptor_open env w | Some d \<Rightarrow> (Some d, w))"

section \<open>The memory descriptor\<close>

record ipa_mem_descriptor =
  orig_rqst_size :: int
  mmap_size :: int
  base_addr :: "nat option"
  mmap_addr :: "nat option"
  addr_offset :: u32
  allocate_ioctl_num :: table_ioctl
  delete_ioctl_num :: table_ioctl
  md_name :: string
  md_table_index :: u8
  md_valid :: bool
  consider_using_sram :: bool
  sram_available :: bool
  sram_to_be_used :: bool
  nat_sram_info :: ipa_nat_in_sram_info

definition sram_info_zero :: ipa_nat_in_sram_info where
  "sram_info_zero = \<lparr>sram_mem_available_for_nat = 0, nat_table_offset_into_mmap = 0,
     best_nat_in_sram_size_rqst = 0\<rparr>"

definition mem_desc_zero :: ipa_mem_descriptor where
  "mem_desc_zero = \<lparr>orig_rqst_size = 0, mmap_size = 0, base_addr = None, mmap_addr = None, addr_offset = 0,
     allocate_ioctl_num = IOCTL_NONE, delete_ioctl_num = IOCTL_NONE, md_name = [], md_table_index = 0,
     md_valid = False, consider_using_sram = False, sram_available = False, sram_to_be_used = False,
     nat_sram_info = sram_info_zero\<rparr>"

definition ipa_mem_descriptor_init ::
  "ipa_mem_descriptor \<Rightarrow> string \<Rightarrow> int \<Rightarrow> u8 \<Rightarrow> table_ioctl \<Rightarrow> table_ioctl \<Rightarrow> bool \<Rightarrow> ipa_mem_descriptor" where
  "ipa_mem_descriptor_init desc device_name sz table_index alloc_num del_num use_sram =
     desc\<lparr>md_name := strlcpy_name device_name, orig_rqst_size := sz, mmap_size := sz,
          md_table_index := table_index, allocate_ioctl_num := alloc_num,
          delete_ioctl_num := del_num, consider_using_sram := use_sram\<rparr>"

text \<open>A failing \<^verbatim>\<open>IPA_IOC_GET_NAT_IN_SRAM_INFO\<close> is not an error: the table then goes to DDR.\<close>

definition AllocateMemory ::
  "('w, 'z) ipa_env_scheme \<Rightarrow> ipa_mem_descriptor \<Rightarrow> int \<Rightarrow> 'w \<Rightarrow> int \<times> ipa_mem_descriptor \<times> 'w" where
  "AllocateMemory env desc ipa_fd w =
     (let desc = desc\<lparr>sram_available := False, sram_to_be_used := False, nat_sram_info := sram_info_zero\<rparr>;
          (ret, info, w) = env_get_sram_info env ipa_fd w;
          desc = desc\<lparr>nat_sram_info := info\<rparr>;
          desc = (if ret = 0
                  then desc\<lparr>sram_available := True,
                            sram_to_be_used := consider_using_sram desc \<and>
                              orig_rqst_size desc \<le> uint (sram_mem_available_for_nat info)\<rparr>
                  else desc);
          (ret, offset, w) = env_alloc_table env (allocate_ioctl_num desc) ipa_fd (orig_rqst_size desc) w
      in if ret \<noteq> 0 then (ret, desc, w) else (ret, desc\<lparr>addr_offset := offset\<rparr>, w))"

definition device_full_path :: "string \<Rightarrow> string" where
  "device_full_path name = ''/dev/'' @ take 26 name"

text \<open>A failing \<^verbatim>\<open>close\<close> after a successful \<^verbatim>\<open>mmap\<close> is reported as an error.\<close>

definition MapMemory ::
  "('w, 'z) ipa_env_scheme \<Rightarrow> ipa_mem_descriptor \<Rightarrow> int \<Rightarrow> 'w \<Rightarrow> int \<times> ipa_mem_descriptor \<times> 'w" where
  "MapMemory env desc ipa_fd w =
     (let (device_fd, w) = env_open env (device_full_path (md_name desc)) w in
      if device_fd < 0 then (- EIO, desc, w)
      else
        let desc = desc\<lparr>mmap_size := if sram_to_be_used desc
                          then uint (best_nat_in_sram_size_rqst (nat_sram_info desc))
                          else orig_rqst_size desc\<rparr>;
            (addr, w) = env_mmap env (mmap_size desc) device_fd w;
            desc = desc\<lparr>mmap_addr := addr, base_addr := addr\<rparr>;
            (ret, desc) =
              (case addr of
                 None \<Rightarrow> (- EINVAL, desc)
               | Some a \<Rightarrow>
                   (0, if sram_to_be_used desc
                       then desc\<lparr>base_addr := Some (a + unat (nat_table_offset_into_mmap (nat_sram_info desc)))\<rparr>
                       else desc));
            (c, w) = env_close env device_fd w
        in (if c \<noteq> 0 then - EINVAL else ret, desc, w))"

definition DeallocateMemory ::
  "('w, 'z) ipa_env_scheme \<Rightarrow> ipa_mem_descriptor \<Rightarrow> int \<Rightarrow> 'w \<Rightarrow> int \<times> 'w" where
  "DeallocateMemory env desc ipa_fd w =
     env_del_table env (delete_ioctl_num desc) ipa_fd (md_table_index desc)
       (if sram_to_be_used desc then IPA_NAT_MEM_IN_SRAM else IPA_NAT_MEM_IN_DDR) w"

definition ipa_mem_descriptor_allocate_memory ::
  "('w, 'z) ipa_env_scheme \<Rightarrow> ipa_mem_descriptor \<Rightarrow> int \<Rightarrow> 'w \<Rightarrow> int \<times> ipa_mem_descriptor \<times> 'w" where
  "ipa_mem_descriptor_allocate_memory env desc ipa_fd w =
     (let (ret, desc, w) = AllocateMemory env desc ipa_fd w in
      if ret \<noteq> 0 then (ret, desc, w)
      else let (ret, desc, w) = MapMemory env desc ipa_fd w in
      if ret \<noteq> 0 then (ret, desc, snd (DeallocateMemory env desc ipa_fd w))
      else (ret, desc\<lparr>md_valid := True\<rparr>, w))"

definition ipa_mem_descriptor_delete ::
  "('w, 'z) ipa_env_scheme \<Rightarrow> ipa_mem_descriptor \<Rightarrow> int \<Rightarrow> 'w \<Rightarrow> int \<times> ipa_mem_descriptor \<times> 'w" where
  "ipa_mem_descriptor_delete env desc ipa_fd w =
     (if \<not> md_valid desc then (- EINVAL, desc, w)
      else
        let desc = desc\<lparr>md_valid := False\<rparr>;
            w = (case mmap_addr desc of None \<Rightarrow> w | Some a \<Rightarrow> env_munmap env a (mmap_size desc) w);
            (ret, w) = DeallocateMemory env desc ipa_fd w
        in (ret, desc, w))"

section \<open>The descriptor after its operations\<close>

lemma AllocateMemory_frame:
  assumes "AllocateMemory env desc fd w = (ret, desc', w')"
  shows "md_valid desc' = md_valid desc" "orig_rqst_size desc' = orig_rqst_size desc"
    "md_table_index desc' = md_table_index desc" "md_name desc' = md_name desc"
    "delete_ioctl_num desc' = delete_ioctl_num desc"
    "sram_to_be_used desc' \<Longrightarrow> orig_rqst_size desc' \<le> uint (sram_mem_available_for_nat (nat_sram_info desc'))"
  using assms by (auto simp: AllocateMemory_def Let_def split: prod.splits if_splits)

lemma MapMemory_frame:
  assumes "MapMemory env desc fd w = (ret, desc', w')"
  shows "md_valid desc' = md_valid desc" "orig_rqst_size desc' = orig_rqst_size desc"
    "sram_to_be_used desc' = sram_to_be_used desc" "nat_sram_info desc' = nat_sram_info desc"
    "addr_offset desc' = addr_offset desc" "md_table_index desc' = md_table_index desc"
    "ret = 0 \<Longrightarrow> \<exists>a. mmap_addr desc' = Some a \<and>
       base_addr desc' = Some (if sram_to_be_used desc'
         then a + unat (nat_table_offset_into_mmap (nat_sram_info desc')) else a)"
  using assms by (auto simp: MapMemory_def Let_def split: prod.splits if_splits option.splits)

text \<open>\<^verbatim>\<open>ipa_mem_descriptor_allocate_memory\<close> marks the descriptor valid when it succeeds and leaves the
  mark alone when it fails.  On success there is a mapped base address, at the SRAM offset when SRAM is used, and SRAM is used only
  when the caller allows it and the request fits what the kernel offers; \<^verbatim>\<open>ipa_mem_descriptor_delete\<close>
  refuses an invalid descriptor and always leaves an invalid one behind.\<close>

theorem mem_descriptor_lifecycle:
  "case ipa_mem_descriptor_allocate_memory env desc fd w of (ret, desc', _) \<Rightarrow>
     (if ret = 0 then md_valid desc' \<and>
        (\<exists>a. mmap_addr desc' = Some a \<and>
          base_addr desc' = Some (if sram_to_be_used desc'
            then a + unat (nat_table_offset_into_mmap (nat_sram_info desc')) else a)) \<and>
        (if sram_to_be_used desc'
         then consider_using_sram desc \<and>
              orig_rqst_size desc' \<le> uint (sram_mem_available_for_nat (nat_sram_info desc'))
         else True)
      else md_valid desc' = md_valid desc) \<and>
     (case ipa_mem_descriptor_delete env d fd w of (ret, d', _) \<Rightarrow>
        \<not> md_valid d' \<and> (if md_valid d then True else ret = - EINVAL \<and> d' = d))"
proof -
  obtain r1 d1 w1 where A: "AllocateMemory env desc fd w = (r1, d1, w1)" by (cases "AllocateMemory env desc fd w")
  obtain r2 d2 w2 where M: "MapMemory env d1 fd w1 = (r2, d2, w2)" by (cases "MapMemory env d1 fd w1")
  have cs: "sram_to_be_used d1 \<Longrightarrow> consider_using_sram desc"
    using A by (auto simp: AllocateMemory_def Let_def split: prod.splits if_splits)
  have del: "case ipa_mem_descriptor_delete env d fd w of (ret, d', _) \<Rightarrow>
        \<not> md_valid d' \<and> (if md_valid d then True else ret = - EINVAL \<and> d' = d)"
    by (simp add: ipa_mem_descriptor_delete_def Let_def split: prod.splits)
  note fa = AllocateMemory_frame [OF A] and fm = MapMemory_frame [OF M]
  consider "r1 \<noteq> 0" | "r1 = 0" "r2 \<noteq> 0" | "r1 = 0" "r2 = 0" by blast
  then show ?thesis
  proof cases
    case 3
    then obtain a where "mmap_addr d2 = Some a" "base_addr d2 = Some (if sram_to_be_used d2
        then a + unat (nat_table_offset_into_mmap (nat_sram_info d2)) else a)"
      using fm(7) by blast
    then show ?thesis
      using 3 A M del fa(6) fm(2-4) cs by (simp add: ipa_mem_descriptor_allocate_memory_def)
  qed (use A M del fa(1) fm(1) in \<open>simp_all add: ipa_mem_descriptor_allocate_memory_def\<close>)
qed

end
