(* ===== verification/Nat_Drvi.thy ===== *)
theory Nat_Drvi
  imports Nat_Rules Ipa_Mem_Descriptor
begin

text \<open>
  The IPv4 NAT driver layer, \<^verbatim>\<open>ipanat/src/ipa_nat_drvi.c\<close>: one cache per memory type, each with one NAT
  table and its index table, the PDN table, and the operations the state machine calls.

  State.  \<open>nat_state\<close> holds the file's static data and the world.  \<^verbatim>\<open>ip4_tbl\<close> is an array of
  \<^verbatim>\<open>IPA_NAT_MAX_IP4_TBLS\<close> = 1 elements: handle 1 is its only element and any other handle is an access
  outside of it.  \<^verbatim>\<open>index_expn_table_meta\<close> is the array \<^verbatim>\<open>index_table.meta\<close> points to.  The DMA helpers are
  stored by value.  \<^verbatim>\<open>Hash_token\<close> is an \<^verbatim>\<open>int\<close> in two's complement.
\<close>

section \<open>State and environment\<close>

record ipa_nat_ip4_table_cache =
  public_addr :: u32
  mem_desc :: ipa_mem_descriptor
  nat_table :: "ipa_nat_rule ipa_table"
  index_table :: "ipa_nat_indx_tbl_rule ipa_table"

record ipa_nat_cache =
  ipa_desc :: "ipa_descriptor option"
  ip4_tbl :: ipa_nat_ip4_table_cache
  table_cnt :: u8
  cache_nmi :: ipa3_nat_mem_in

record 'w nat_state =
  ipv4_nat_cache :: "ipa3_nat_mem_in \<Rightarrow> ipa_nat_cache"
  active_nat_cache :: "ipa3_nat_mem_in option"
  st_pdns :: "ipa_nat_pdn_entry list"
  num_pdns :: int
  Hash_token :: u32
  world :: 'w

record ipa_ioc_v4_nat_init =
  init_tbl_index :: u8
  ipv4_rules_offset :: u32
  expn_rules_offset :: u32
  index_offset :: u32
  index_expn_offset :: u32
  init_table_entries :: u16
  init_expn_table_entries :: u16
  init_ip_addr :: u32
  init_mem_type :: ipa3_nat_mem_in
  init_focus_change :: bool

record ipa_ioc_nat_pdn_entry =
  ioc_pdn_index :: u8
  ioc_public_ip :: u32
  ioc_src_metadata :: u32
  ioc_dst_metadata :: u32

text \<open>\<open>env_table_dma\<close> is \<^verbatim>\<open>IPA_IOC_TABLE_DMA_CMD\<close>: the device writes into the two tables of the cache whose
  memory type the command carries.\<close>

record 'w nat_env = "'w ipa_env" +
  env_v4_init :: "int \<Rightarrow> ipa_ioc_v4_nat_init \<Rightarrow> 'w \<Rightarrow> int \<times> 'w"
  env_table_dma :: "int \<Rightarrow> ipa_ioc_nat_dma_cmd \<Rightarrow> ipa_nat_rule ipa_table \<times> ipa_nat_indx_tbl_rule ipa_table
    \<Rightarrow> 'w \<Rightarrow> int \<times> (ipa_nat_rule ipa_table \<times> ipa_nat_indx_tbl_rule ipa_table) \<times> 'w"
  env_modify_pdn :: "int \<Rightarrow> ipa_ioc_nat_pdn_entry \<Rightarrow> 'w \<Rightarrow> int \<times> 'w"
  env_clock_vote :: "int \<Rightarrow> ipa_app_clock_vote_type \<Rightarrow> 'w \<Rightarrow> int \<times> 'w"

definition IPA_NAT_MAX_IP4_TBLS :: nat where "IPA_NAT_MAX_IP4_TBLS = 1"
definition MAX_DMA_ENTRIES_FOR_ADD :: nat where "MAX_DMA_ENTRIES_FOR_ADD = 4"
definition MAX_DMA_ENTRIES_FOR_DEL :: nat where "MAX_DMA_ENTRIES_FOR_DEL = 3"

definition MAKE_TBL_HDL :: "u32 \<Rightarrow> ipa3_nat_mem_in \<Rightarrow> u32" where
  "MAKE_TBL_HDL hdl mt = push_bit 31 (of_nat (nmi_code mt)) OR hdl"

definition BREAK_TBL_HDL :: "u32 \<Rightarrow> ipa3_nat_mem_in \<times> u32" where
  "BREAK_TBL_HDL hdl_in = (nmi_of_bit (drop_bit 31 hdl_in AND 1 \<noteq> 0), hdl_in AND 0xFF)"

definition VALID_TBL_HDL :: "u32 \<Rightarrow> bool" where
  "VALID_TBL_HDL h = (unat (h AND 0xFF) = IPA_NAT_MAX_IP4_TBLS)"

definition ip4_table_zero :: ipa_nat_ip4_table_cache where
  "ip4_table_zero = \<lparr>public_addr = 0, mem_desc = mem_desc_zero,
     nat_table = ipa_table_init [] IPA_NAT_MEM_IN_DDR 0 None 0,
     index_table = ipa_table_init [] IPA_NAT_MEM_IN_DDR 0 None 0\<rparr>"

text \<open>\<^verbatim>\<open>&nat_cache_ptr->ip4_tbl[tbl_hdl - 1]\<close>, followed.\<close>

definition get_ip4_tbl :: "ipa_nat_cache \<Rightarrow> u32 \<Rightarrow> ipa_nat_ip4_table_cache option" where
  "get_ip4_tbl c hdl = (if unat hdl = 1 then Some (ip4_tbl c) else None)"

definition set_cache :: "ipa3_nat_mem_in \<Rightarrow> ipa_nat_cache \<Rightarrow> 'w nat_state \<Rightarrow> 'w nat_state" where
  "set_cache nmi c st = st\<lparr>ipv4_nat_cache := (ipv4_nat_cache st)(nmi := c)\<rparr>"

definition set_tbl :: "ipa3_nat_mem_in \<Rightarrow> ipa_nat_ip4_table_cache \<Rightarrow> 'w nat_state \<Rightarrow> 'w nat_state" where
  "set_tbl nmi tbl st = set_cache nmi ((ipv4_nat_cache st nmi)\<lparr>ip4_tbl := tbl\<rparr>) st"

definition nat_lock :: "('w, 'z) nat_env_scheme \<Rightarrow> 'w nat_state \<Rightarrow> int \<times> 'w nat_state" where
  "nat_lock env st = (let (r, w) = env_mutex_lock env (world st) in (r, st\<lparr>world := w\<rparr>))"

definition nat_unlock :: "('w, 'z) nat_env_scheme \<Rightarrow> 'w nat_state \<Rightarrow> int \<times> 'w nat_state" where
  "nat_unlock env st = (let (r, w) = env_mutex_unlock env (world st) in (r, st\<lparr>world := w\<rparr>))"

text \<open>\<^verbatim>\<open>if (pthread_mutex_unlock(&nat_mutex)) ret = (ret) ? ret : -EPERM;\<close>\<close>

definition unlock_ret :: "('w, 'z) nat_env_scheme \<Rightarrow> int \<Rightarrow> 'w nat_state \<Rightarrow> int \<times> 'w nat_state" where
  "unlock_ret env ret st =
     (let (r, st) = nat_unlock env st in (if r \<noteq> 0 then (if ret \<noteq> 0 then ret else - EPERM) else ret, st))"

section \<open>Creating and destroying the tables of a cache\<close>

definition ipa_nati_create_table_dma_cmd_helpers ::
  "ipa_nat_ip4_table_cache \<Rightarrow> u8 \<Rightarrow> ipa_nat_ip4_table_cache" where
  "ipa_nati_create_table_dma_cmd_helpers tbl table_indx =
     (let ofs = addr_offset (mem_desc tbl);
          flags = ipa_table_dma_cmd_helper_init table_indx IPA_NAT_BASE_TBL IPA_NAT_EXPN_TBL
                    (ofs + of_nat IPA_NAT_RULE_FLAG_FIELD_OFFSET);
          nxt = ipa_table_dma_cmd_helper_init table_indx IPA_NAT_BASE_TBL IPA_NAT_EXPN_TBL
                    (ofs + of_nat IPA_NAT_RULE_NEXT_FIELD_OFFSET);
          proto = ipa_table_dma_cmd_helper_init table_indx IPA_NAT_BASE_TBL IPA_NAT_EXPN_TBL
                    (ofs + of_nat IPA_NAT_RULE_PROTO_FIELD_OFFSET);
          ient = ipa_table_dma_cmd_helper_init table_indx IPA_NAT_INDX_TBL IPA_NAT_INDEX_EXPN_TBL
                    (ofs + of_nat IPA_NAT_INDEX_RULE_NAT_INDEX_FIELD_OFFSET);
          inxt = ipa_table_dma_cmd_helper_init table_indx IPA_NAT_INDX_TBL IPA_NAT_INDEX_EXPN_TBL
                    (ofs + of_nat IPA_NAT_INDEX_RULE_NEXT_FIELD_OFFSET)
      in tbl\<lparr>nat_table := (nat_table tbl)
               \<lparr>dma_help := (dma_help (nat_table tbl))
                  (HELP_UPDATE_HEAD := Some flags, HELP_UPDATE_ENTRY := Some nxt, HELP_DELETE_HEAD := Some proto)\<rparr>,
             index_table := (index_table tbl)
               \<lparr>dma_help := (dma_help (index_table tbl))
                  (HELP_UPDATE_HEAD := Some ient, HELP_UPDATE_ENTRY := Some inxt, HELP_DELETE_HEAD := Some ient)\<rparr>\<rparr>)"

text \<open>Records are 32 and 4 bytes, a meta record 2.  \<open>None\<close>: a NULL \<^verbatim>\<open>ipa_desc\<close> is followed.\<close>

definition ipa_nati_create_table ::
  "('w, 'z) nat_env_scheme \<Rightarrow> ipa_nat_cache \<Rightarrow> ipa_nat_ip4_table_cache \<Rightarrow> u32 \<Rightarrow> nat \<Rightarrow> u8 \<Rightarrow> 'w
    \<Rightarrow> (int \<times> ipa_nat_ip4_table_cache \<times> 'w) option" where
  "ipa_nati_create_table env c tbl public_ip_addr number_of_entries table_index w =
     (let tbl = tbl\<lparr>public_addr := public_ip_addr,
                    nat_table := ipa_table_init ''IPA NAT table'' (cache_nmi c) 32 None 0\<rparr>;
          (ret, t) = ipa_table_calculate_entries_num (nat_table tbl) number_of_entries (cache_nmi c);
          tbl = tbl\<lparr>nat_table := t\<rparr>
      in if ret \<noteq> 0 then Some (ret, tbl, w)
      else
        let (ok, w) = env_calloc env (expn_table_entries t * 2) w in
        if \<not> ok then Some (- ENOMEM, tbl, w)
        else
          let x = (ipa_table_init ''IPA NAT index table'' (cache_nmi c) 4
                    (Some (replicate (expn_table_entries t) 0)) 2)
                  \<lparr>table_entries := table_entries t, expn_table_entries := expn_table_entries t,
                   tot_tbl_ents := tot_tbl_ents t\<rparr>;
              sz = int (ipa_table_calculate_size t) + int (ipa_table_calculate_size x);
              md = ipa_mem_descriptor_init (mem_desc tbl) ''ipaNatTable'' sz table_index
                     IPA_IOC_ALLOC_NAT_TABLE IPA_IOC_DEL_NAT_TABLE True
          in do {
            desc \<leftarrow> ipa_desc c;
            let (ret, md, w) = ipa_mem_descriptor_allocate_memory env md (desc_fd desc) w;
            if ret \<noteq> 0 then Some (ret, ip4_table_zero, w)
            else do {
              base \<leftarrow> base_addr md;
              let (base2, t) = ipa_table_calculate_addresses t base;
              let (_, x) = ipa_table_calculate_addresses x base2;
              let t = ipa_table_reset (entry_interface []) t;
              let x = ipa_table_reset index_entry_interface x;
              let tbl = tbl\<lparr>mem_desc := md, nat_table := t, index_table := x\<rparr>;
              Some (ret, ipa_nati_create_table_dma_cmd_helpers tbl table_index, w) } })"

definition ipa_nati_destroy_table ::
  "('w, 'z) nat_env_scheme \<Rightarrow> ipa_nat_cache \<Rightarrow> ipa_nat_ip4_table_cache \<Rightarrow> 'w
    \<Rightarrow> (int \<times> ipa_nat_ip4_table_cache \<times> 'w) option" where
  "ipa_nati_destroy_table env c tbl w =
     do { desc \<leftarrow> ipa_desc c;
          let (ret, _, w) = ipa_mem_descriptor_delete env (mem_desc tbl) (desc_fd desc) w;
          Some (ret, ip4_table_zero, w) }"

definition v4_init_cmd :: "ipa_nat_cache \<Rightarrow> ipa_nat_ip4_table_cache \<Rightarrow> u8 \<Rightarrow> bool \<Rightarrow> ipa_ioc_v4_nat_init" where
  "v4_init_cmd c tbl tbl_index focus_change =
     (let o1 = addr_offset (mem_desc tbl);
          o2 = o1 + of_nat (table_entries (nat_table tbl) * 32);
          o3 = o2 + of_nat (expn_table_entries (nat_table tbl) * 32);
          o4 = o3 + of_nat (table_entries (index_table tbl) * 4)
      in \<lparr>init_tbl_index = tbl_index, ipv4_rules_offset = o1, expn_rules_offset = o2, index_offset = o3,
          index_expn_offset = o4, init_table_entries = of_nat (table_entries (nat_table tbl)) - 1,
          init_expn_table_entries = of_nat (expn_table_entries (nat_table tbl)),
          init_ip_addr = public_addr tbl, init_mem_type = cache_nmi c, init_focus_change = focus_change\<rparr>)"

definition ipa_nati_post_ipv4_init_cmd ::
  "('w, 'z) nat_env_scheme \<Rightarrow> ipa_nat_cache \<Rightarrow> ipa_nat_ip4_table_cache \<Rightarrow> u8 \<Rightarrow> bool \<Rightarrow> 'w \<Rightarrow> (int \<times> 'w) option" where
  "ipa_nati_post_ipv4_init_cmd env c tbl tbl_index focus_change w =
     do { desc \<leftarrow> ipa_desc c;
          Some (env_v4_init env (desc_fd desc) (v4_init_cmd c tbl tbl_index focus_change) w) }"

definition ipa_NATI_post_ipv4_init_cmd ::
  "('w, 'z) nat_env_scheme \<Rightarrow> u32 \<Rightarrow> 'w nat_state \<Rightarrow> (int \<times> 'w nat_state) option" where
  "ipa_NATI_post_ipv4_init_cmd env tbl_hdl st =
     (let (nmi, hdl) = BREAK_TBL_HDL tbl_hdl in
      if \<not> IPA_VALID_NAT_MEM_IN nmi then Some (- EINVAL, st)
      else let (r, st) = nat_lock env st in
      if r \<noteq> 0 then Some (- EINVAL, st)
      else if table_cnt (ipv4_nat_cache st nmi) = 0 then Some (unlock_ret env (- EINVAL) st)
      else do {
        tbl \<leftarrow> get_ip4_tbl (ipv4_nat_cache st nmi) hdl;
        (ret, w) \<leftarrow> ipa_nati_post_ipv4_init_cmd env (ipv4_nat_cache st nmi) tbl (ucast hdl - 1) True (world st);
        let st = st\<lparr>world := w\<rparr>;
        let st = (if ret \<noteq> 0 then st else st\<lparr>active_nat_cache := Some nmi\<rparr>);
        Some (unlock_ret env ret st) })"

definition ipa_NATI_add_ipv4_tbl ::
  "('w, 'z) nat_env_scheme \<Rightarrow> ipa3_nat_mem_in \<Rightarrow> u32 \<Rightarrow> nat \<Rightarrow> 'w nat_state \<Rightarrow> (int \<times> u32 \<times> 'w nat_state) option" where
  "ipa_NATI_add_ipv4_tbl env nmi public_ip_addr number_of_entries st =
     (if \<not> IPA_VALID_NAT_MEM_IN nmi then Some (- EINVAL, 0, st)
      else let (r, st) = nat_lock env st in
      if r \<noteq> 0 then Some (- EINVAL, 0, st)
      else
        let unlock = (\<lambda>ret hdl st. let (r, st) = nat_unlock env st in (if r \<noteq> 0 then - EPERM else ret, hdl, st));
            c = (ipv4_nat_cache st nmi)\<lparr>cache_nmi := nmi\<rparr>;
            st = set_cache nmi c st
        in if unat (table_cnt c) \<ge> IPA_NAT_MAX_IP4_TBLS then Some (unlock (- EINVAL) 0 st)
        else
          let (d, w) = open_desc env (ipa_desc c) (world st);
              c = c\<lparr>ipa_desc := d\<rparr>;
              st = (set_cache nmi c st)\<lparr>world := w\<rparr>
          in if d = None then Some (unlock (- EIO) 0 st)
          else do {
            (ret, tbl, w) \<leftarrow> ipa_nati_create_table env c (ip4_tbl c) public_ip_addr number_of_entries
                               (table_cnt c) (world st);
            let c = c\<lparr>ip4_tbl := tbl\<rparr>;
            let closed = (\<lambda>c w. (c\<lparr>ipa_desc := None\<rparr>, ipa_descriptor_close env (ipa_desc c) w));
            if ret \<noteq> 0 then
              let (c, w) = (if table_cnt c = 0 then closed c w else (c, w))
              in Some (unlock ret 0 ((set_cache nmi c st)\<lparr>world := w\<rparr>))
            else do {
              (ret, w) \<leftarrow> ipa_nati_post_ipv4_init_cmd env c tbl (table_cnt c) False w;
              if ret \<noteq> 0 then do {
                (_, tbl, w) \<leftarrow> ipa_nati_destroy_table env c tbl w;
                let c = c\<lparr>ip4_tbl := tbl\<rparr>;
                let (c, w) = (if table_cnt c = 0 then closed c w else (c, w));
                Some (unlock ret 0 ((set_cache nmi c st)\<lparr>world := w\<rparr>)) }
              else do {
                p0 \<leftarrow> (case st_pdns st of [] \<Rightarrow> None | p # _ \<Rightarrow> Some p);
                let c = c\<lparr>table_cnt := table_cnt c + 1\<rparr>;
                let st = (set_cache nmi c st)\<lparr>world := w, active_nat_cache := Some nmi,
                           st_pdns := (st_pdns st)[0 := p0\<lparr>pdn_public_ip := public_ip_addr\<rparr>], num_pdns := 1\<rparr>;
                Some (unlock ret (MAKE_TBL_HDL (ucast (table_cnt c)) nmi) st) } } })"

text \<open>The table is erased even when the delete ioctl fails; the count is then not decremented.\<close>

definition ipa_NATI_del_ipv4_table ::
  "('w, 'z) nat_env_scheme \<Rightarrow> u32 \<Rightarrow> 'w nat_state \<Rightarrow> (int \<times> 'w nat_state) option" where
  "ipa_NATI_del_ipv4_table env tbl_hdl st =
     (let (nmi, hdl) = BREAK_TBL_HDL tbl_hdl in
      if \<not> IPA_VALID_NAT_MEM_IN nmi then Some (- EINVAL, st)
      else let (r, st) = nat_lock env st in
      if r \<noteq> 0 then Some (- EINVAL, st)
      else do {
        let c = ipv4_nat_cache st nmi;
        tbl \<leftarrow> get_ip4_tbl c hdl;
        if \<not> md_valid (mem_desc tbl) then Some (unlock_ret env (- EINVAL) st)
        else do {
          (ret, tbl, w) \<leftarrow> ipa_nati_destroy_table env c tbl (world st);
          let c = c\<lparr>ip4_tbl := tbl\<rparr>;
          let (c, w) = (if ret \<noteq> 0 then (c, w)
                        else let c = c\<lparr>table_cnt := table_cnt c - 1\<rparr>
                             in if table_cnt c = 0
                                then (c\<lparr>ipa_desc := None\<rparr>, ipa_descriptor_close env (ipa_desc c) w)
                                else (c, w));
          Some (unlock_ret env ret ((set_cache nmi c st)\<lparr>world := w\<rparr>)) } })"

section \<open>PDN entries\<close>

definition pdn_zero :: ipa_nat_pdn_entry where
  "pdn_zero = \<lparr>pdn_public_ip = 0, pdn_src_metadata = 0, pdn_dst_metadata = 0\<rparr>"

text \<open>\<open>None\<close>: \<^verbatim>\<open>pdns[entry->pdn_index]\<close> is written outside of the array.\<close>

definition ipa_nati_modify_pdn ::
  "('w, 'z) nat_env_scheme \<Rightarrow> ipa_ioc_nat_pdn_entry \<Rightarrow> 'w nat_state \<Rightarrow> (int \<times> 'w nat_state) option" where
  "ipa_nati_modify_pdn env entry st =
     (let c = (if ipa_desc (ipv4_nat_cache st IPA_NAT_MEM_IN_DDR) \<noteq> None
               then ipv4_nat_cache st IPA_NAT_MEM_IN_DDR else ipv4_nat_cache st IPA_NAT_MEM_IN_SRAM)
      in case ipa_desc c of
           None \<Rightarrow> Some (- EIO, st)
         | Some desc \<Rightarrow>
             let (ret, w) = env_modify_pdn env (desc_fd desc) entry (world st);
                 st = st\<lparr>world := w\<rparr>;
                 i = unat (ioc_pdn_index entry)
             in if ret \<noteq> 0 then Some (ret, st)
                else if i \<ge> length (st_pdns st) then None
                else Some (0, st\<lparr>st_pdns := (st_pdns st)[i :=
                       \<lparr>pdn_public_ip = ioc_public_ip entry, pdn_src_metadata = ioc_src_metadata entry,
                        pdn_dst_metadata = ioc_dst_metadata entry\<rparr>]\<rparr>))"

text \<open>The loops run over \<^verbatim>\<open>0 .. IPA_MAX_PDN_NUM - 2\<close>; the last entry is never searched.\<close>

definition ipa_nati_get_pdn_index :: "u32 \<Rightarrow> 'w nat_state \<Rightarrow> int \<times> nat option" where
  "ipa_nati_get_pdn_index public_ip st =
     (case find (\<lambda>i. pdn_public_ip (st_pdns st ! i) = public_ip) [0..<IPA_MAX_PDN_NUM - 1] of
        Some i \<Rightarrow> (0, Some i)
      | None \<Rightarrow> (- EIO, None))"

definition ipa_nati_alloc_pdn ::
  "('w, 'z) nat_env_scheme \<Rightarrow> ipa_nat_pdn_entry \<Rightarrow> 'w nat_state \<Rightarrow> (int \<times> nat option \<times> 'w nat_state) option" where
  "ipa_nati_alloc_pdn env info st =
     (if num_pdns st \<ge> int (IPA_MAX_PDN_NUM - 1) then Some (- EIO, None, st)
      else case find (\<lambda>i. pdn_public_ip (st_pdns st ! i) = pdn_public_ip info \<or> st_pdns st ! i = pdn_zero)
                  [0..<IPA_MAX_PDN_NUM - 1] of
        None \<Rightarrow> Some (- EIO, None, st)
      | Some i \<Rightarrow>
          if pdn_public_ip (st_pdns st ! i) = pdn_public_ip info then Some (0, Some i, st)
          else do {
            (ret, st) \<leftarrow> ipa_nati_modify_pdn env
               \<lparr>ioc_pdn_index = of_nat i, ioc_public_ip = pdn_public_ip info,
                ioc_src_metadata = pdn_src_metadata info, ioc_dst_metadata = pdn_dst_metadata info\<rparr> st;
            Some (if ret = 0 then (ret, Some i, st\<lparr>num_pdns := num_pdns st + 1\<rparr>) else (ret, None, st)) })"

definition ipa_nati_get_pdn_cnt :: "'w nat_state \<Rightarrow> int" where
  "ipa_nati_get_pdn_cnt st = num_pdns st"

definition ipa_nati_dealloc_pdn ::
  "('w, 'z) nat_env_scheme \<Rightarrow> nat \<Rightarrow> 'w nat_state \<Rightarrow> (int \<times> 'w nat_state) option" where
  "ipa_nati_dealloc_pdn env i st =
     (if num_pdns st = 0 then Some (- EIO, st)
      else if i \<ge> length (st_pdns st) then None
      else if st_pdns st ! i = pdn_zero then Some (- EIO, st)
      else do {
        (ret, st) \<leftarrow> ipa_nati_modify_pdn env
          \<lparr>ioc_pdn_index = of_nat i, ioc_public_ip = 0, ioc_src_metadata = 0, ioc_dst_metadata = 0\<rparr> st;
        if ret \<noteq> 0 then Some (- EIO, st)
        else Some (0, st\<lparr>st_pdns := (st_pdns st)[i := pdn_zero], num_pdns := num_pdns st - 1\<rparr>) })"

section \<open>Rules\<close>

definition ipa_NATI_query_timestamp ::
  "('w, 'z) nat_env_scheme \<Rightarrow> u32 \<Rightarrow> u32 \<Rightarrow> 'w nat_state \<Rightarrow> (int \<times> u32 option \<times> 'w nat_state) option" where
  "ipa_NATI_query_timestamp env tbl_hdl rule_hdl st =
     (let (nmi, hdl) = BREAK_TBL_HDL tbl_hdl in
      if \<not> IPA_VALID_NAT_MEM_IN nmi then Some (- EINVAL, None, st)
      else let (r, st) = nat_lock env st in
      if r \<noteq> 0 then Some (- EINVAL, None, st)
      else do {
        tbl \<leftarrow> get_ip4_tbl (ipv4_nat_cache st nmi) hdl;
        (ret, ts) \<leftarrow>
          (if \<not> md_valid (mem_desc tbl) then Some (- EINVAL, None)
           else let (ret, i) = ipa_table_get_entry (nat_table tbl) rule_hdl in
                if ret \<noteq> 0 then Some (ret, None)
                else do { e \<leftarrow> rec_at (nat_table tbl) i; Some (0, Some (ucast (time_stamp e))) });
        let (ret, st) = unlock_ret env ret st;
        Some (ret, ts, st) })"

text \<open>\<^verbatim>\<open>ipa_nati_post_ipv4_dma_cmd\<close> on the two tables of a cache.\<close>

definition ipa_nati_post_ipv4_dma_cmd ::
  "('w, 'z) nat_env_scheme \<Rightarrow> ipa_nat_cache \<Rightarrow> ipa_ioc_nat_dma_cmd
    \<Rightarrow> ipa_nat_rule ipa_table \<times> ipa_nat_indx_tbl_rule ipa_table \<Rightarrow> 'w
    \<Rightarrow> (int \<times> (ipa_nat_rule ipa_table \<times> ipa_nat_indx_tbl_rule ipa_table) \<times> 'w) option" where
  "ipa_nati_post_ipv4_dma_cmd env c cmd tx w =
     do { desc \<leftarrow> ipa_desc c;
          let (r, tx, w) = env_table_dma env (desc_fd desc) (cmd\<lparr>cmd_mem_type := of_nat (nmi_code (cache_nmi c))\<rparr>) tx w;
          Some (if r \<noteq> 0 then - EIO else 0, tx, w) }"

text \<open>The base index of a rule: its hash, shifted by the running \<^verbatim>\<open>Hash_token\<close> for a one-sided rule.\<close>

definition token_slot :: "bool \<Rightarrow> u16 \<Rightarrow> u16 \<Rightarrow> u32 \<Rightarrow> u16 \<times> u32" where
  "token_slot one_sided hash sz token =
     (if one_sided
      then let i = (hash + ucast token) AND sz in (if i = 0 then sz else i, token + 1)
      else (hash, token))"

definition nat_slot ::
  "ipa_descriptor \<Rightarrow> ipa_nat_pdn_entry list \<Rightarrow> ipa_nat_rule ipa_table \<Rightarrow> ipa_nat_ipv4_rule \<Rightarrow> u32 \<Rightarrow> u16 \<times> u32" where
  "nat_slot desc pdns t u token =
     (let sz = of_nat (table_entries t) - 1 in
      token_slot (u_src_only u)
        (dst_hash (desc_ver desc \<ge> IPA_HW_v4_0) (pdn_public_ip (pdns ! unat (u_pdn_index u))) (u_target_ip u)
           (u_target_port u) (u_public_port u) (u_protocol u) sz) sz token)"

definition indx_slot :: "ipa_nat_rule ipa_table \<Rightarrow> ipa_nat_ipv4_rule \<Rightarrow> u32 \<Rightarrow> u16 \<times> u32" where
  "indx_slot t u token =
     (let sz = of_nat (table_entries t) - 1 in
      token_slot (u_dst_only u)
        (src_hash (u_private_ip u) (u_private_port u) (u_target_ip u) (u_target_port u) (u_protocol u) sz) sz token)"

text \<open>The assignments to \<^verbatim>\<open>rule->indx_tbl_entry\<close>, \<^verbatim>\<open>redirect\<close>, \<^verbatim>\<open>enable\<close> and \<^verbatim>\<open>time_stamp\<close>.\<close>

definition finish_rule :: "nat \<Rightarrow> ipa_nat_ipv4_rule \<Rightarrow> ipa_nat_rule \<Rightarrow> ipa_nat_rule" where
  "finish_rule index_slot_nr u e =
     e\<lparr>indx_tbl_entry := of_nat index_slot_nr, redirect := bit (u_redirect u) 0, enable := bit (u_enable u) 0,
       time_stamp := ucast (u_time_stamp u)\<rparr>"

text \<open>The body of \<^verbatim>\<open>ipa_NATI_add_ipv4_rule\<close> between lock and unlock: status, handle, tables, token and
  world.  The labels \<^verbatim>\<open>bail\<close> and \<^verbatim>\<open>fail_add_index_entry\<close> erase the new records.\<close>

definition add_ipv4_rule_body ::
  "('w, 'z) nat_env_scheme \<Rightarrow> ipa_nat_cache \<Rightarrow> ipa_nat_pdn_entry list \<Rightarrow> ipa_nat_ipv4_rule \<Rightarrow> u32
    \<Rightarrow> ipa_nat_rule ipa_table \<Rightarrow> ipa_nat_indx_tbl_rule ipa_table \<Rightarrow> 'w
    \<Rightarrow> (int \<times> u32 \<times> ipa_nat_rule ipa_table \<times> ipa_nat_indx_tbl_rule ipa_table \<times> u32 \<times> 'w) option" where
  "add_ipv4_rule_body env c pdns u token t x w =
     do { desc \<leftarrow> ipa_desc c;
          let ei = entry_interface pdns;
          let (h, token1) = nat_slot desc pdns t u token;
          (ret, t1, i, hdl, cmd1) \<leftarrow> ipa_table_add_entry ei t u (unat h) dma_cmd_zero;
          if ret \<noteq> 0 then Some (ret, 0, t1, x, token1, w)
          else do {
            let (g, token2) = indx_slot t1 u token1;
            (ret, x1, k, _, cmd2) \<leftarrow> ipa_table_add_entry index_entry_interface x (of_nat i) (unat g) cmd1;
            if ret \<noteq> 0 then do {
              t2 \<leftarrow> ipa_table_erase_entry ei t1 i;
              Some (ret, 0, t2, x1, token2, w) }
            else case ipa_table_get_entry_by_index t1 i of
              None \<Rightarrow> do {
                x2 \<leftarrow> ipa_table_erase_entry index_entry_interface x1 k;
                t2 \<leftarrow> ipa_table_erase_entry ei t1 i;
                Some (- EPERM, 0, t2, x2, token2, w) }
            | Some p \<Rightarrow> do {
                e \<leftarrow> rec_at t1 p;
                let t2 = put_rec t1 p (finish_rule k u e);
                (ret, (t3, x3), w) \<leftarrow> ipa_nati_post_ipv4_dma_cmd env c cmd2 (t2, x1) w;
                if ret \<noteq> 0 then do {
                  x4 \<leftarrow> ipa_table_erase_entry index_entry_interface x3 k;
                  t4 \<leftarrow> ipa_table_erase_entry ei t3 i;
                  Some (ret, 0, t4, x4, token2, w) }
                else Some (0, hdl, t3, x3, token2, w) } } }"

text \<open>From 16 on, the error message of the PDN check itself reads outside of \<^verbatim>\<open>pdns\<close>.\<close>

definition ipa_NATI_add_ipv4_rule ::
  "('w, 'z) nat_env_scheme \<Rightarrow> u32 \<Rightarrow> ipa_nat_ipv4_rule option \<Rightarrow> bool \<Rightarrow> 'w nat_state
    \<Rightarrow> (int \<times> u32 \<times> 'w nat_state) option" where
  "ipa_NATI_add_ipv4_rule env tbl_hdl clnt_rule has_hdl_ptr st =
     (case clnt_rule of
        None \<Rightarrow> Some (- EINVAL, 0, st)
      | Some u \<Rightarrow>
        if \<not> VALID_TBL_HDL tbl_hdl \<or> \<not> has_hdl_ptr then Some (- EINVAL, 0, st)
        else let (nmi, hdl) = BREAK_TBL_HDL tbl_hdl in
        if \<not> IPA_VALID_NAT_MEM_IN nmi then Some (- EINVAL, 0, st)
        else if u_protocol u = IPAHAL_NAT_INVALID_PROTOCOL then Some (- EINVAL, 0, st)
        else if unat (u_pdn_index u) \<ge> length (st_pdns st) then None
        else if pdn_public_ip (st_pdns st ! unat (u_pdn_index u)) = 0 then Some (- EINVAL, 0, st)
        else let (r, st) = nat_lock env st in
        if r \<noteq> 0 then Some (- EINVAL, 0, st)
        else do {
          let c = ipv4_nat_cache st nmi;
          tbl \<leftarrow> get_ip4_tbl c hdl;
          if \<not> md_valid (mem_desc tbl) then Some (- EINVAL, 0, snd (nat_unlock env st))
          else do {
            (ret, rule_hdl, t, x, token, w) \<leftarrow>
              add_ipv4_rule_body env c (st_pdns st) u (Hash_token st) (nat_table tbl) (index_table tbl) (world st);
            let st = (set_tbl nmi (tbl\<lparr>nat_table := t, index_table := x\<rparr>) st)\<lparr>Hash_token := token, world := w\<rparr>;
            let (r, st) = nat_unlock env st;
            Some (if ret \<noteq> 0 then (ret, 0, st) else if r \<noteq> 0 then (- EPERM, 0, st) else (0, rule_hdl, st)) } })"

definition ipa_nati_copy_second_index_entry_to_head ::
  "ipa_nat_rule ipa_table \<Rightarrow> ipa_nat_indx_tbl_rule ipa_table \<Rightarrow> ipa_table_iterator \<Rightarrow> ipa_ioc_nat_dma_cmd
    \<Rightarrow> (ipa_nat_rule ipa_table \<times> ipa_ioc_nat_dma_cmd) option" where
  "ipa_nati_copy_second_index_entry_to_head t x it cmd =
     do { ne \<leftarrow> it_next_entry it;
          n \<leftarrow> rec_at x ne;
          (_, cmd1) \<leftarrow> ipa_table_add_dma_cmd x HELP_UPDATE_ENTRY (it_curr_entry it) (it_curr_index it)
                         (indx_next_index n) cmd;
          e \<leftarrow> rec_at t (unat (tbl_entry n));
          Some (put_rec t (unat (tbl_entry n)) (e\<lparr>indx_tbl_entry := of_nat (it_curr_index it)\<rparr>), cmd1) }"

definition clear_prev_meta :: "ipa_nat_indx_tbl_rule ipa_table \<Rightarrow> nat \<Rightarrow> ipa_nat_indx_tbl_rule ipa_table option" where
  "clear_prev_meta x i =
     (if i \<ge> table_entries x then
        (case meta x of None \<Rightarrow> None
         | Some ms \<Rightarrow> if i - table_entries x < length ms
                     then Some (x\<lparr>meta := Some (ms[i - table_entries x := 0])\<rparr>) else None)
      else Some x)"

text \<open>The commands of \<^verbatim>\<open>ipa_NATI_del_ipv4_rule\<close> for the index table, and the index entry to delete.\<close>

definition delete_index_commands ::
  "ipa_nat_rule ipa_table \<Rightarrow> ipa_nat_indx_tbl_rule ipa_table \<Rightarrow> ipa_table_iterator
    \<Rightarrow> (int \<times> ipa_nat_rule ipa_table \<times> ipa_table_iterator \<times> ipa_ioc_nat_dma_cmd) option" where
  "delete_index_commands t x xit =
     do { cmd1 \<leftarrow> ipa_table_create_delete_command index_entry_interface x dma_cmd_zero xit;
          if ipa_table_iterator_is_head_with_tail xit then do {
            (t1, cmd2) \<leftarrow> ipa_nati_copy_second_index_entry_to_head t x xit cmd1;
            (ret, xit2) \<leftarrow> ipa_table_iterator_next index_entry_interface xit x;
            Some (ret, t1, xit2, cmd2) }
          else Some (0, t, xit, cmd1) }"

text \<open>The updates of \<^verbatim>\<open>ipa_NATI_del_ipv4_rule\<close> after the device has run: the rule's record goes, unless it is
  a head with a tail, and so does the index entry the iterator is at.\<close>

definition delete_nat_entry :: "ipa_nat_rule ipa_table \<Rightarrow> ipa_table_iterator \<Rightarrow> ipa_nat_rule ipa_table option" where
  "delete_nat_entry t ti =
     (if \<not> ipa_table_iterator_is_head_with_tail ti then do {
        is_prev_empty \<leftarrow>
          (case it_prev_entry ti of
             None \<Rightarrow> Some False
           | Some p \<Rightarrow> do { pe \<leftarrow> rec_at t p; Some (protocol pe = IPAHAL_NAT_INVALID_PROTOCOL) });
        ipa_table_delete_entry (entry_interface []) t ti is_prev_empty }
      else Some t)"

definition delete_index_entry ::
  "ipa_nat_indx_tbl_rule ipa_table \<Rightarrow> ipa_table_iterator \<Rightarrow> ipa_nat_indx_tbl_rule ipa_table option" where
  "delete_index_entry x xit =
     do { x1 \<leftarrow> ipa_table_delete_entry index_entry_interface x xit False;
          clear_prev_meta x1 (it_curr_index xit) }"

text \<open>The body of \<^verbatim>\<open>ipa_NATI_del_ipv4_rule\<close> between lock and unlock.\<close>

definition del_ipv4_rule_body ::
  "('w, 'z) nat_env_scheme \<Rightarrow> ipa_nat_cache \<Rightarrow> u32 \<Rightarrow> ipa_nat_rule ipa_table \<Rightarrow> ipa_nat_indx_tbl_rule ipa_table \<Rightarrow> 'w
    \<Rightarrow> (int \<times> ipa_nat_rule ipa_table \<times> ipa_nat_indx_tbl_rule ipa_table \<times> 'w) option" where
  "del_ipv4_rule_body env c rule_hdl t x w =
     (let ei = entry_interface [];
          xi = index_entry_interface;
          (ret, index) = ipa_table_get_entry t rule_hdl
      in if ret \<noteq> 0 then Some (ret, t, x, w)
      else do {
        (ret, ti) \<leftarrow> ipa_table_iterator_init ei t index index;
        if ret \<noteq> 0 then Some (ret, t, x, w)
        else do {
          e \<leftarrow> rec_at t index;
          let index = unat (indx_tbl_entry e);
          case ipa_table_get_entry_by_index x index of
            None \<Rightarrow> Some (- EPERM, t, x, w)
          | Some k \<Rightarrow> do {
              (ret, xit) \<leftarrow> ipa_table_iterator_init xi x k index;
              if ret \<noteq> 0 then Some (ret, t, x, w)
              else do {
                (ret, t1, xit2, cmd2) \<leftarrow> delete_index_commands t x xit;
                if ret \<noteq> 0 then Some (ret, t1, x, w)
                else do {
                  cmd3 \<leftarrow> ipa_table_create_delete_command ei t1 cmd2 ti;
                  (ret, (t2, x2), w) \<leftarrow> ipa_nati_post_ipv4_dma_cmd env c cmd3 (t1, x) w;
                  if ret \<noteq> 0 then Some (ret, t2, x2, w)
                  else do {
                    t3 \<leftarrow> delete_nat_entry t2 ti;
                    x4 \<leftarrow> delete_index_entry x2 xit2;
                    Some (0, t3, x4, w) } } } } } })"

definition ipa_NATI_del_ipv4_rule ::
  "('w, 'z) nat_env_scheme \<Rightarrow> u32 \<Rightarrow> u32 \<Rightarrow> 'w nat_state \<Rightarrow> (int \<times> 'w nat_state) option" where
  "ipa_NATI_del_ipv4_rule env tbl_hdl rule_hdl st =
     (let (nmi, hdl) = BREAK_TBL_HDL tbl_hdl in
      if \<not> IPA_VALID_NAT_MEM_IN nmi then Some (- EINVAL, st)
      else let (r, st) = nat_lock env st in
      if r \<noteq> 0 then Some (- EINVAL, st)
      else do {
        let c = ipv4_nat_cache st nmi;
        tbl \<leftarrow> get_ip4_tbl c hdl;
        if \<not> md_valid (mem_desc tbl) then Some (unlock_ret env (- EINVAL) st)
        else do {
          (ret, t, x, w) \<leftarrow> del_ipv4_rule_body env c rule_hdl (nat_table tbl) (index_table tbl) (world st);
          Some (unlock_ret env ret ((set_tbl nmi (tbl\<lparr>nat_table := t, index_table := x\<rparr>) st)\<lparr>world := w\<rparr>)) } })"

section \<open>Whole-table operations\<close>

definition ipa_nati_get_sram_size ::
  "('w, 'z) nat_env_scheme \<Rightarrow> 'w nat_state \<Rightarrow> int \<times> u32 option \<times> 'w nat_state" where
  "ipa_nati_get_sram_size env st =
     (let (r, st) = nat_lock env st in
      if r \<noteq> 0 then (- EINVAL, None, st)
      else
        let c = ipv4_nat_cache st IPA_NAT_MEM_IN_SRAM;
            (d, w) = open_desc env (ipa_desc c) (world st);
            st = (set_cache IPA_NAT_MEM_IN_SRAM (c\<lparr>ipa_desc := d\<rparr>) st)\<lparr>world := w\<rparr>
        in case d of
             None \<Rightarrow> let (ret, st) = unlock_ret env (- EIO) st in (ret, None, st)
           | Some desc \<Rightarrow>
               let (ret, info, w) = env_get_sram_info env (desc_fd desc) (world st);
                   st = st\<lparr>world := w\<rparr>
               in if ret \<noteq> 0 then let (ret, st) = unlock_ret env ret st in (ret, None, st)
                  else let sz = sram_mem_available_for_nat info;
                           (ret, st) = unlock_ret env (if sz = 0 then - EINVAL else 0) st
                       in (ret, Some sz, st))"

definition clear_tables :: "ipa_nat_ip4_table_cache \<Rightarrow> ipa_nat_ip4_table_cache" where
  "clear_tables tbl =
     tbl\<lparr>nat_table := (ipa_table_reset (entry_interface []) (nat_table tbl))\<lparr>cur_tbl_cnt := 0, cur_expn_tbl_cnt := 0\<rparr>,
         index_table := (ipa_table_reset index_entry_interface (index_table tbl))
                          \<lparr>cur_tbl_cnt := 0, cur_expn_tbl_cnt := 0\<rparr>\<rparr>"

definition ipa_NATI_clear_ipv4_tbl ::
  "('w, 'z) nat_env_scheme \<Rightarrow> u32 \<Rightarrow> 'w nat_state \<Rightarrow> (int \<times> 'w nat_state) option" where
  "ipa_NATI_clear_ipv4_tbl env tbl_hdl st =
     (let (nmi, hdl) = BREAK_TBL_HDL tbl_hdl in
      if \<not> IPA_VALID_NAT_MEM_IN nmi then Some (- EINVAL, st)
      else let (r, st) = nat_lock env st in
      if r \<noteq> 0 then Some (- EINVAL, st)
      else if table_cnt (ipv4_nat_cache st nmi) = 0 then Some (unlock_ret env (- EINVAL) st)
      else do {
        tbl \<leftarrow> get_ip4_tbl (ipv4_nat_cache st nmi) hdl;
        Some (unlock_ret env 0 (set_tbl nmi (clear_tables tbl) st)) })"

datatype WhichTbl2Use = USE_NAT_TABLE | USE_INDEX_TABLE | USE_MAX

text \<open>A walk callback of the NAT table may call back into the library (the migration of rules does), so it
  gets the whole driver state; the walked table is the one the walk started with.\<close>

definition ipa_NATI_walk_ipv4_tbl ::
  "('w, 'z) nat_env_scheme \<Rightarrow> u32 \<Rightarrow> WhichTbl2Use
    \<Rightarrow> (ipa_nat_rule, 's \<times> 'w nat_state) ipa_table_walk_cb
    \<Rightarrow> (ipa_nat_indx_tbl_rule, 's \<times> 'w nat_state) ipa_table_walk_cb
    \<Rightarrow> 's \<Rightarrow> 'w nat_state \<Rightarrow> (int \<times> 's \<times> 'w nat_state) option" where
  "ipa_NATI_walk_ipv4_tbl env tbl_hdl which nat_cb indx_cb arb st =
     (if \<not> VALID_TBL_HDL tbl_hdl \<or> which = USE_MAX then Some (- EINVAL, arb, st)
      else let (r, st) = nat_lock env st in
      if r \<noteq> 0 then Some (- EINVAL, arb, st)
      else
        let (nmi, hdl) = BREAK_TBL_HDL tbl_hdl;
            unlock = (\<lambda>(ret, arb, st). let (ret, st) = unlock_ret env ret st in (ret, arb, st))
        in if \<not> IPA_VALID_NAT_MEM_IN nmi then Some (unlock (- EINVAL, arb, st))
        else if table_cnt (ipv4_nat_cache st nmi) = 0 then Some (unlock (- EINVAL, arb, st))
        else do {
          tbl \<leftarrow> get_ip4_tbl (ipv4_nat_cache st nmi) hdl;
          (ret, arb, st) \<leftarrow>
            (if which = USE_NAT_TABLE
             then ipa_table_walk (entry_interface []) (nat_table tbl) 0 WHEN_SLOT_FILLED nat_cb (arb, st)
             else ipa_table_walk index_entry_interface (index_table tbl) 0 WHEN_SLOT_FILLED indx_cb (arb, st));
          Some (unlock (ret, arb, st)) })"

definition ipa_nati_vote_clock ::
  "('w, 'z) nat_env_scheme \<Rightarrow> ipa_app_clock_vote_type \<Rightarrow> 'w nat_state \<Rightarrow> int \<times> 'w nat_state" where
  "ipa_nati_vote_clock env vote_type st =
     (let c = ipv4_nat_cache st IPA_NAT_MEM_IN_SRAM;
          (d, w) = open_desc env (ipa_desc c) (world st);
          st = (set_cache IPA_NAT_MEM_IN_SRAM (c\<lparr>ipa_desc := d\<rparr>) st)\<lparr>world := w\<rparr>
      in case d of
           None \<Rightarrow> (- EIO, st)
         | Some desc \<Rightarrow> let (ret, w) = env_clock_vote env (desc_fd desc) vote_type (world st)
                        in (ret, st\<lparr>world := w\<rparr>))"

end
