(* ===== verification/Ipa_Dma.thy ===== *)
theory Ipa_Dma
  imports Ipa_Table
begin

text \<open>
  What the device does with a queued DMA command, as \<^verbatim>\<open>struct ipa_ioc_nat_dma_one\<close> documents it:
  \<^verbatim>\<open>base_addr\<close> is the type of the table part the address is relative to, \<^verbatim>\<open>offset\<close> the byte offset in
  it and \<^verbatim>\<open>data\<close> the halfword that is written there.  The write into one record is a parameter
  \<open>put\<close>, instantiated by the byte layout of each record type.  A command for another table leaves
  a table as it is.
\<close>

definition dma_target :: "ipa_table_dma_type \<Rightarrow> ipa_table_dma_type \<Rightarrow> 'e ipa_table \<Rightarrow> ipa_ioc_nat_dma_one \<Rightarrow> nat option" where
  "dma_target bt xt t d =
     (let i = unat (dma_offset d) div entry_size t in
      if dma_base_addr d = dma_type_code bt then (if i < table_entries t then Some i else None)
      else if dma_base_addr d = dma_type_code xt
           then (if i < expn_table_entries t then Some (table_entries t + i) else None)
      else None)"

definition dma_write ::
  "(nat \<Rightarrow> u16 \<Rightarrow> 'e \<Rightarrow> 'e) \<Rightarrow> ipa_table_dma_type \<Rightarrow> ipa_table_dma_type \<Rightarrow> ipa_ioc_nat_dma_one
    \<Rightarrow> 'e ipa_table \<Rightarrow> 'e ipa_table" where
  "dma_write put bt xt d t =
     (case dma_target bt xt t d of
        None \<Rightarrow> t
      | Some i \<Rightarrow> put_rec t i (put (unat (dma_offset d) mod entry_size t) (dma_data d) (recs t ! i)))"

definition dma_run ::
  "(nat \<Rightarrow> u16 \<Rightarrow> 'e \<Rightarrow> 'e) \<Rightarrow> ipa_table_dma_type \<Rightarrow> ipa_table_dma_type \<Rightarrow> ipa_ioc_nat_dma_one list
    \<Rightarrow> 'e ipa_table \<Rightarrow> 'e ipa_table" where
  "dma_run put bt xt ds t = fold (dma_write put bt xt) ds t"

lemma dma_type_code_inj: "dma_type_code a = dma_type_code b \<longleftrightarrow> a = b"
  by (cases a; cases b) simp_all

lemma dma_run_simps [simp]:
  "dma_run put bt xt [] t = t"
  "dma_run put bt xt (d # ds) t = dma_run put bt xt ds (dma_write put bt xt d t)"
  "dma_run put bt xt (ds @ es) t = dma_run put bt xt es (dma_run put bt xt ds t)"
  by (simp_all add: dma_run_def)

text \<open>A command of the table: helper \<open>k\<close>, record \<open>i\<close>, data \<open>v\<close>.\<close>

definition cmd_one :: "'e ipa_table \<Rightarrow> dma_help_type \<Rightarrow> nat \<Rightarrow> u16 \<Rightarrow> ipa_ioc_nat_dma_one" where
  "cmd_one t k i v =
     (let hlp = the (dma_help t k); x = (table_entries t \<le> i) in
      \<lparr>dma_table_index = help_table_indx hlp,
       dma_base_addr = dma_type_code (if x then help_expn_table_type hlp else help_table_type hlp),
       dma_offset = help_offset hlp + of_nat ((if x then i - table_entries t else i) * entry_size t),
       dma_data = v\<rparr>)"

text \<open>Geometry of a table that was set up for the types \<open>bt\<close> and \<open>xt\<close> with the field offsets \<open>off\<close>.\<close>

definition table_geom :: "ipa_table_dma_type \<Rightarrow> ipa_table_dma_type \<Rightarrow> (dma_help_type \<Rightarrow> nat) \<Rightarrow> 'e ipa_table \<Rightarrow> bool" where
  "table_geom bt xt off t \<longleftrightarrow>
     length (recs t) = table_entries t + expn_table_entries t \<and>
     tot_tbl_ents t = table_entries t + expn_table_entries t \<and>
     2 \<le> table_entries t \<and> table_entries t \<le> 4096 \<and>
     2 \<le> expn_table_entries t \<and> expn_table_entries t \<le> 4096 \<and>
     0 < entry_size t \<and> entry_size t \<le> 64 \<and>
     expn_table_addr t = table_addr t + entry_size t * table_entries t \<and>
     tbl_nmi t \<noteq> IPA_NAT_MEM_IN_MAX \<and>
     (\<forall>k. VALID_DMA_HELP_TYPE k \<longrightarrow>
        off k < entry_size t \<and>
        (\<exists>x. dma_help t k = Some \<lparr>help_offset = of_nat (off k), help_table_type = bt,
                               help_expn_table_type = xt, help_table_indx = x\<rparr>))"

lemma table_geomD:
  assumes "table_geom bt xt off t"
  shows geom_len: "length (recs t) = table_entries t + expn_table_entries t"
    and geom_tot: "tot_tbl_ents t = table_entries t + expn_table_entries t"
    and geom_te: "2 \<le> table_entries t" "table_entries t \<le> 4096"
    and geom_xe: "2 \<le> expn_table_entries t" "expn_table_entries t \<le> 4096"
    and geom_esz: "0 < entry_size t" "entry_size t \<le> 64"
    and geom_nmi: "tbl_nmi t \<noteq> IPA_NAT_MEM_IN_MAX"
  using assms by (simp_all add: table_geom_def)

text \<open>The fields of a table that the pointer-level operations never touch.\<close>

definition same_shape :: "'e ipa_table \<Rightarrow> 'e ipa_table \<Rightarrow> bool" where
  "same_shape t t' \<longleftrightarrow>
     tbl_name t' = tbl_name t \<and> tbl_nmi t' = tbl_nmi t \<and> entry_size t' = entry_size t \<and>
     table_entries t' = table_entries t \<and> expn_table_entries t' = expn_table_entries t \<and>
     tot_tbl_ents t' = tot_tbl_ents t \<and> table_addr t' = table_addr t \<and>
     expn_table_addr t' = expn_table_addr t \<and> dma_help t' = dma_help t \<and>
     meta_entry_size t' = meta_entry_size t \<and> length (recs t') = length (recs t)"

lemma same_shape_refl [simp]: "same_shape t t"
  by (simp add: same_shape_def)

lemma same_shape_upd [simp]:
  "same_shape t (put_rec t' i e) = same_shape t t'"
  "same_shape t (t'\<lparr>cur_tbl_cnt := c\<rparr>) = same_shape t t'"
  "same_shape t (t'\<lparr>cur_expn_tbl_cnt := c\<rparr>) = same_shape t t'"
  "same_shape t (t'\<lparr>meta := m\<rparr>) = same_shape t t'"
  by (simp_all add: same_shape_def put_rec_def)

lemma same_shape_trans: "same_shape t t' \<Longrightarrow> same_shape t' t'' \<Longrightarrow> same_shape t t''"
  by (simp add: same_shape_def)

lemma same_shape_fields:
  assumes "same_shape t t'"
  shows "table_entries t' = table_entries t" "expn_table_entries t' = expn_table_entries t"
    "tot_tbl_ents t' = tot_tbl_ents t" "entry_size t' = entry_size t" "table_addr t' = table_addr t"
    "expn_table_addr t' = expn_table_addr t" "dma_help t' = dma_help t" "tbl_nmi t' = tbl_nmi t"
    "length (recs t') = length (recs t)"
  using assms by (simp_all add: same_shape_def)

lemma same_shape_geom: "same_shape t t' \<Longrightarrow> table_geom bt xt off t' = table_geom bt xt off t"
  by (simp add: same_shape_def table_geom_def)

lemma same_shape_cmd_one: "same_shape t t' \<Longrightarrow> cmd_one t' = cmd_one t"
  by (intro ext) (simp add: same_shape_def cmd_one_def Let_def)

lemma same_shape_MakeEntryHdl: "same_shape t t' \<Longrightarrow> MakeEntryHdl t' i = MakeEntryHdl t i"
  by (simp add: same_shape_def MakeEntryHdl_def)

section \<open>The queued command is the write the device performs\<close>

lemma of_nat_diff_u32: "b \<le> a \<Longrightarrow> (of_nat a - of_nat b :: u32) = of_nat (a - b)"
  by (simp add: of_nat_diff)

lemma add_dma_cmd_eq:
  assumes g: "table_geom bt xt off t" and "i < table_entries t + expn_table_entries t" "VALID_DMA_HELP_TYPE k"
  shows "ipa_table_add_dma_cmd t k (Some i) i v cmd = Some (0, cmd\<lparr>cmd_dma := cmd_dma cmd @ [cmd_one t k i v]\<rparr>)"
proof -
  obtain x where h: "dma_help t k = Some \<lparr>help_offset = of_nat (off k), help_table_type = bt,
      help_expn_table_type = xt, help_table_indx = x\<rparr>"
    using g assms(3) unfolding table_geom_def by blast
  have addr: "expn_table_addr t = table_addr t + entry_size t * table_entries t"
    using g by (simp add: table_geom_def)
  have "(of_nat (GOTO_REC t i) - of_nat (if table_entries t \<le> i then expn_table_addr t else table_addr t) :: u32) =
        of_nat ((if table_entries t \<le> i then i - table_entries t else i) * entry_size t)"
    using addr by (auto simp: GOTO_REC_def of_nat_diff algebra_simps)
  then show ?thesis
    using assms(2,3) h
    by (simp add: ipa_table_add_dma_cmd_def ipa_table_dma_cmd_generate_def cmd_one_def Let_def)
qed

lemma cmd_one_offset:
  assumes g: "table_geom bt xt off t" and "i < table_entries t + expn_table_entries t" "VALID_DMA_HELP_TYPE k"
  shows "unat (dma_offset (cmd_one t k i v)) =
           off k + (if table_entries t \<le> i then i - table_entries t else i) * entry_size t"
    and "dma_base_addr (cmd_one t k i v) = dma_type_code (if table_entries t \<le> i then xt else bt)"
    and "dma_data (cmd_one t k i v) = v"
    and "off k < entry_size t"
proof -
  define j where "j = (if table_entries t \<le> i then i - table_entries t else i)"
  obtain x where h: "dma_help t k = Some \<lparr>help_offset = of_nat (off k), help_table_type = bt,
      help_expn_table_type = xt, help_table_indx = x\<rparr>" and o: "off k < entry_size t"
    using g assms(3) unfolding table_geom_def by blast
  have "j < 4096" using assms(2) table_geomD [OF g] by (auto simp: j_def)
  then have "j * entry_size t \<le> 4096 * 64" using table_geomD [OF g] by (intro mult_mono) simp_all
  then have "off k + j * entry_size t < 2 ^ 32" using o table_geomD [OF g] by simp
  then have "unat (of_nat (off k + j * entry_size t) :: u32) = off k + j * entry_size t"
    by (rule unat_of_nat_u32)
  then show "unat (dma_offset (cmd_one t k i v)) =
           off k + (if table_entries t \<le> i then i - table_entries t else i) * entry_size t"
    using h by (simp add: cmd_one_def Let_def flip: j_def)
  show "dma_base_addr (cmd_one t k i v) = dma_type_code (if table_entries t \<le> i then xt else bt)"
    "dma_data (cmd_one t k i v) = v"
    using h by (simp_all add: cmd_one_def Let_def)
  show "off k < entry_size t" by (rule o)
qed

lemma dma_write_cmd_one:
  assumes g: "table_geom bt xt off t" and i: "i < table_entries t + expn_table_entries t"
    and k: "VALID_DMA_HELP_TYPE k" and "bt \<noteq> xt"
  shows "dma_write put bt xt (cmd_one t k i v) t = put_rec t i (put (off k) v (recs t ! i))"
proof -
  let ?j = "if table_entries t \<le> i then i - table_entries t else i"
  note o = cmd_one_offset [OF g i k]
  have "(off k + ?j * entry_size t) div entry_size t = ?j" "(off k + ?j * entry_size t) mod entry_size t = off k"
    using o(4) by simp_all
  moreover have "dma_target bt xt t (cmd_one t k i v) = Some i"
    using calculation i assms(4) o by (auto simp: dma_target_def Let_def dma_type_code_inj)
  ultimately show ?thesis using o by (simp add: dma_write_def)
qed

lemma dma_write_other:
  assumes "table_geom bt' xt' off' t'" "i < table_entries t' + expn_table_entries t'" "VALID_DMA_HELP_TYPE k"
    "{bt, xt} \<inter> {bt', xt'} = {}"
  shows "dma_write put bt xt (cmd_one t' k i v) t = t"
  using assms cmd_one_offset(2) [OF assms(1-3)]
  by (auto simp: dma_write_def dma_target_def Let_def dma_type_code_inj)

lemma same_shape_dma_write: "same_shape t (dma_write put bt xt d t') = same_shape t t'"
  by (auto simp: dma_write_def split: option.split)

lemma same_shape_dma_run: "same_shape t (dma_run put bt xt ds t') = same_shape t t'"
  by (induction ds arbitrary: t') (simp_all add: same_shape_dma_write)

text \<open>The commands of one table leave the records of another table type alone.\<close>

lemma dma_run_other:
  assumes g: "table_geom bt' xt' off' t'" and "{bt, xt} \<inter> {bt', xt'} = {}"
    and "\<And>d. d \<in> set ds \<Longrightarrow> \<exists>k j w. d = cmd_one t' k j w \<and> VALID_DMA_HELP_TYPE k \<and>
                               j < table_entries t' + expn_table_entries t'"
  shows "dma_run put bt xt ds t = t"
  using assms(3)
proof (induction ds arbitrary: t)
  case (Cons d ds)
  obtain k j w where "d = cmd_one t' k j w" "VALID_DMA_HELP_TYPE k" "j < table_entries t' + expn_table_entries t'"
    using Cons.prems [of d] by auto
  then have "dma_write put bt xt d t = t" using dma_write_other [OF g _ _ assms(2)] by simp
  then show ?case using Cons by simp
qed simp

end
