(* ===== verification/Ipa_Chains.thy ===== *)
theory Ipa_Chains
  imports Ipa_Prelude
begin

text \<open>
  Collision chains, independent of what a record holds.  A table of \<open>n\<close> records, the first \<open>te\<close> of
  them base records, is seen as three functions of the record index: is the record in use (\<open>vd\<close>),
  its \<^verbatim>\<open>next_index\<close> (\<open>nx\<close>) and its \<^verbatim>\<open>prev_index\<close> (\<open>pv\<close>).  \<open>ch h\<close> lists the expansion records
  that hang from base record \<open>h\<close>.  The lemmas say how the invariant moves along the pointer updates
  of an insertion and of a deletion.
\<close>

section \<open>Linked segments\<close>

fun links :: "(nat \<Rightarrow> nat) \<Rightarrow> nat \<Rightarrow> nat list \<Rightarrow> bool" where
  "links nx i [] \<longleftrightarrow> nx i = 0"
| "links nx i (j # js) \<longleftrightarrow> nx i = j \<and> j \<noteq> 0 \<and> links nx j js"

fun backs :: "(nat \<Rightarrow> nat) \<Rightarrow> nat \<Rightarrow> nat list \<Rightarrow> bool" where
  "backs pv i [] \<longleftrightarrow> True"
| "backs pv i (j # js) \<longleftrightarrow> pv j = i \<and> backs pv j js"

lemma links_cong:
  "(\<And>k. k \<in> set (i # js) \<Longrightarrow> nx k = nx' k) \<Longrightarrow> links nx i js = links nx' i js"
  by (induction js arbitrary: i) auto

lemma backs_cong:
  "(\<And>k. k \<in> set js \<Longrightarrow> pv k = pv' k) \<Longrightarrow> backs pv i js = backs pv' i js"
  by (induction js arbitrary: i) auto

lemma links_nonzero: "links nx i js \<Longrightarrow> 0 \<notin> set js"
  by (induction js arbitrary: i) auto

lemma links_last: "links nx i js \<Longrightarrow> nx (last (i # js)) = 0"
  by (induction js arbitrary: i) auto

lemma links_succ: "links nx i (xs @ y # ys) \<Longrightarrow> nx (last (i # xs)) = y \<and> links nx y ys"
  by (induction xs arbitrary: i) auto

lemma last_not_hd: "distinct (i # x # xs) \<Longrightarrow> i \<noteq> last (x # xs)"
  using last_in_set [of "x # xs"] by auto

lemma links_snoc:
  assumes "links nx i js" "distinct (i # js)" "c \<notin> set (i # js)" "c \<noteq> 0"
    and "nx' (last (i # js)) = c" "nx' c = 0" "\<And>k. k \<noteq> c \<Longrightarrow> k \<noteq> last (i # js) \<Longrightarrow> nx' k = nx k"
  shows "links nx' i (js @ [c])"
  using assms
proof (induction js arbitrary: i)
  case (Cons j js)
  have j: "nx i = j" "j \<noteq> 0" "links nx j js" using Cons.prems(1) by simp_all
  have "nx' i = nx i"
    using Cons.prems(3) last_not_hd [OF Cons.prems(2)] by (intro Cons.prems(7)) simp_all
  moreover have "links nx' j (js @ [c])"
    by (rule Cons.IH [OF j(3)]) (use Cons.prems in simp_all)
  ultimately show ?case using j by simp
qed simp

lemma links_remove:
  assumes "links nx i (xs @ y # ys)" "distinct (i # xs @ y # ys)"
    and "nx' (last (i # xs)) = nx y" "\<And>k. k \<noteq> y \<Longrightarrow> k \<noteq> last (i # xs) \<Longrightarrow> nx' k = nx k"
  shows "links nx' i (xs @ ys)"
  using assms
proof (induction xs arbitrary: i)
  case Nil
  have i: "nx' i = nx y" "links nx y ys" using Nil.prems(1,3) by simp_all
  show ?case
  proof (cases ys)
    case (Cons z zs)
    have "links nx z zs = links nx' z zs"
    proof (rule links_cong)
      fix k assume "k \<in> set (z # zs)"
      then have "k \<noteq> y" "k \<noteq> i" using Nil.prems(2) Cons by auto
      then show "nx k = nx' k" using Nil.prems(4) [of k] by simp
    qed
    then show ?thesis using i Cons by simp
  qed (use i in simp)
next
  case (Cons x xs)
  have x: "nx i = x" "x \<noteq> 0" "links nx x (xs @ y # ys)" using Cons.prems(1) by simp_all
  have "nx' i = nx i"
    using Cons.prems(2) last_not_hd [of i x xs] by (intro Cons.prems(4)) simp_all
  moreover have "links nx' x (xs @ ys)"
    by (rule Cons.IH [OF x(3)]) (use Cons.prems in simp_all)
  ultimately show ?case using x by simp
qed

lemma backs_snoc:
  assumes "backs pv i js" "c \<notin> set js" "pv' c = last (i # js)" "\<And>k. k \<noteq> c \<Longrightarrow> pv' k = pv k"
  shows "backs pv' i (js @ [c])"
  using assms by (induction js arbitrary: i) simp_all

lemma backs_pred: "backs pv i (xs @ y # ys) \<Longrightarrow> pv y = last (i # xs) \<and> backs pv y ys"
  by (induction xs arbitrary: i) simp_all

lemma backs_remove:
  assumes "backs pv i (xs @ y # ys)" "distinct (xs @ y # ys)"
    and "\<And>k. k \<noteq> y \<Longrightarrow> pv' k = (if ys \<noteq> [] \<and> k = hd ys then last (i # xs) else pv k)"
  shows "backs pv' i (xs @ ys)"
  using assms
proof (induction xs arbitrary: i)
  case Nil
  show ?case
  proof (cases ys)
    case (Cons z zs)
    have "backs pv z zs = backs pv' z zs"
    proof (rule backs_cong)
      fix k assume "k \<in> set zs"
      then have "k \<noteq> y" "k \<noteq> z" using Nil.prems(2) Cons by auto
      then show "pv k = pv' k" using Nil.prems(3) [of k] Cons by simp
    qed
    moreover have "pv' z = i" using Nil.prems(2) Nil.prems(3) [of z] Cons by simp
    ultimately show ?thesis using Nil.prems(1) Cons by simp
  qed simp
next
  case (Cons x xs)
  have x: "pv x = i" "backs pv x (xs @ y # ys)" using Cons.prems(1) by simp_all
  have "backs pv' x (xs @ ys)"
    by (rule Cons.IH [OF x(2)]) (use Cons.prems in simp_all)
  moreover have "pv' x = pv x" using Cons.prems(2) Cons.prems(3) [of x] by (cases ys) auto
  ultimately show ?case using x by simp
qed

section \<open>All chains of a table\<close>

definition chains_ok ::
  "nat \<Rightarrow> nat \<Rightarrow> (nat \<Rightarrow> bool) \<Rightarrow> (nat \<Rightarrow> nat) \<Rightarrow> (nat \<Rightarrow> nat) \<Rightarrow> (nat \<Rightarrow> nat list) \<Rightarrow> bool" where
  "chains_ok te n vd nx pv ch \<longleftrightarrow>
     \<not> vd 0 \<and>
     (\<forall>h. te \<le> h \<or> \<not> vd h \<longrightarrow> ch h = []) \<and>
     (\<forall>h < te. vd h \<longrightarrow> links nx h (ch h) \<and> backs pv h (ch h) \<and> pv h = 0) \<and>
     (\<forall>h. distinct (ch h) \<and> (\<forall>x \<in> set (ch h). te \<le> x \<and> x < n \<and> vd x)) \<and>
     (\<forall>h g. h \<noteq> g \<longrightarrow> set (ch h) \<inter> set (ch g) = {}) \<and>
     (\<forall>x. te \<le> x \<and> x < n \<and> vd x \<longrightarrow> (\<exists>h < te. vd h \<and> x \<in> set (ch h)))"

lemma chains_okD:
  assumes "chains_ok te n vd nx pv ch"
  shows chains_ok_0: "\<not> vd 0"
    and chains_ok_empty: "te \<le> h \<or> \<not> vd h \<Longrightarrow> ch h = []"
    and chains_ok_links: "h < te \<Longrightarrow> vd h \<Longrightarrow> links nx h (ch h)"
    and chains_ok_backs: "h < te \<Longrightarrow> vd h \<Longrightarrow> backs pv h (ch h)"
    and chains_ok_head: "h < te \<Longrightarrow> vd h \<Longrightarrow> pv h = 0"
    and chains_ok_distinct: "distinct (ch h)"
    and chains_ok_mem: "x \<in> set (ch h) \<Longrightarrow> te \<le> x \<and> x < n \<and> vd x"
    and chains_ok_disjoint: "h \<noteq> g \<Longrightarrow> x \<in> set (ch h) \<Longrightarrow> x \<notin> set (ch g)"
    and chains_ok_cover: "te \<le> x \<Longrightarrow> x < n \<Longrightarrow> vd x \<Longrightarrow> \<exists>h < te. vd h \<and> x \<in> set (ch h)"
  using assms unfolding chains_ok_def by blast+

lemma chains_ok_owner:
  assumes "chains_ok te n vd nx pv ch" "x \<in> set (ch h)"
  shows "h < te" "vd h"
  using assms chains_ok_empty [OF assms(1), of h] by force+

lemma chains_ok_distinct_all:
  assumes "chains_ok te n vd nx pv ch" "h < te"
  shows "distinct (h # ch h)"
  using chains_ok_distinct [OF assms(1), of h] chains_ok_mem [OF assms(1), of h h] assms(2) by auto

lemma chains_okI:
  assumes "\<not> vd' 0"
    and "\<And>g. te \<le> g \<or> \<not> vd' g \<Longrightarrow> ch' g = []"
    and "\<And>g. g < te \<Longrightarrow> vd' g \<Longrightarrow> links nx' g (ch' g) \<and> backs pv' g (ch' g) \<and> pv' g = 0"
    and "\<And>g. distinct (ch' g)"
    and "\<And>g x. x \<in> set (ch' g) \<Longrightarrow> te \<le> x \<and> x < n \<and> vd' x"
    and "\<And>g f x. g \<noteq> f \<Longrightarrow> x \<in> set (ch' g) \<Longrightarrow> x \<notin> set (ch' f)"
    and "\<And>x. te \<le> x \<Longrightarrow> x < n \<Longrightarrow> vd' x \<Longrightarrow> \<exists>h < te. vd' h \<and> x \<in> set (ch' h)"
  shows "chains_ok te n vd' nx' pv' ch'"
proof -
  have "\<forall>h g. h \<noteq> g \<longrightarrow> set (ch' h) \<inter> set (ch' g) = {}" using assms(6) by blast
  moreover have "\<forall>h. distinct (ch' h) \<and> (\<forall>x \<in> set (ch' h). te \<le> x \<and> x < n \<and> vd' x)"
    using assms(4,5) by blast
  moreover have "\<forall>h. te \<le> h \<or> \<not> vd' h \<longrightarrow> ch' h = []" using assms(2) by blast
  moreover have "\<forall>h < te. vd' h \<longrightarrow> links nx' h (ch' h) \<and> backs pv' h (ch' h) \<and> pv' h = 0"
    using assms(3) by blast
  moreover have "\<forall>x. te \<le> x \<and> x < n \<and> vd' x \<longrightarrow> (\<exists>h < te. vd' h \<and> x \<in> set (ch' h))"
    using assms(7) by blast
  ultimately show ?thesis unfolding chains_ok_def using assms(1) by blast
qed

text \<open>Only the \<^verbatim>\<open>prev_index\<close> of a record in use matters.\<close>

lemma chains_ok_pv_cong:
  assumes ok: "chains_ok te n vd nx pv ch" and pv': "\<And>k. vd k \<Longrightarrow> pv' k = pv k"
  shows "chains_ok te n vd nx pv' ch"
proof (rule chains_okI)
  show "links nx g (ch g) \<and> backs pv' g (ch g) \<and> pv' g = 0" if g: "g < te" "vd g" for g
  proof -
    have "backs pv' g (ch g) = backs pv g (ch g)"
      by (rule backs_cong) (use chains_ok_mem [OF ok] pv' in blast)
    then show ?thesis
      using chains_ok_links [OF ok g] chains_ok_backs [OF ok g] chains_ok_head [OF ok g] pv' [OF g(2)] by simp
  qed
  show "\<exists>h < te. vd h \<and> x \<in> set (ch h)" if "te \<le> x" "x < n" "vd x" for x
    by (rule chains_ok_cover [OF ok that])
  show "ch g = []" if "te \<le> g \<or> \<not> vd g" for g by (rule chains_ok_empty [OF ok that])
  show "te \<le> x \<and> x < n \<and> vd x" if "x \<in> set (ch g)" for g x by (rule chains_ok_mem [OF ok that])
  show "x \<notin> set (ch f)" if "g \<noteq> f" "x \<in> set (ch g)" for g f x by (rule chains_ok_disjoint [OF ok that])
qed (fact chains_ok_0 [OF ok] chains_ok_distinct [OF ok])+

text \<open>A fresh head: base record \<open>h\<close> comes into use and points nowhere.\<close>

lemma chains_ok_insert_head:
  assumes ok: "chains_ok te n vd nx pv ch" and h: "0 < h" "h < te" "\<not> vd h" "nx h = 0" "pv h = 0"
  shows "chains_ok te n (vd(h := True)) nx pv ch"
proof -
  have e: "ch h = []" using chains_ok_empty [OF ok] h by blast
  show ?thesis
  proof (rule chains_okI)
    show "ch g = []" if "te \<le> g \<or> \<not> (vd(h := True)) g" for g
      using that chains_ok_empty [OF ok, of g] h by (auto split: if_splits)
    show "links nx g (ch g) \<and> backs pv g (ch g) \<and> pv g = 0" if "g < te" "(vd(h := True)) g" for g
      using that e h chains_ok_links [OF ok that(1)] chains_ok_backs [OF ok that(1)]
        chains_ok_head [OF ok that(1)] by (cases "g = h") simp_all
    show "\<exists>g < te. (vd(h := True)) g \<and> x \<in> set (ch g)" if "te \<le> x" "x < n" "(vd(h := True)) x" for x
      using that h chains_ok_cover [OF ok, of x] by (auto split: if_splits)
  qed (use chains_ok_0 [OF ok] chains_ok_distinct [OF ok] chains_ok_mem [OF ok]
         chains_ok_disjoint [OF ok] h(1) in auto)
qed

text \<open>A fresh tail: expansion record \<open>c\<close> is appended to the chain of \<open>h\<close>.\<close>

lemma chains_ok_insert_tail:
  assumes ok: "chains_ok te n vd nx pv ch" and h: "h < te" "vd h" and c: "te \<le> c" "c < n" "\<not> vd c"
    and nx': "nx' (last (h # ch h)) = c" "nx' c = 0" "\<And>k. k \<noteq> c \<Longrightarrow> k \<noteq> last (h # ch h) \<Longrightarrow> nx' k = nx k"
    and pv': "pv' c = last (h # ch h)" "\<And>k. k \<noteq> c \<Longrightarrow> pv' k = pv k"
  shows "chains_ok te n (vd(c := True)) nx' pv' (ch(h := ch h @ [c]))"
proof (rule chains_okI)
  let ?l = "last (h # ch h)"
  have cfree: "c \<notin> set (ch g)" for g using chains_ok_mem [OF ok] c(3) by blast
  have c0: "c \<noteq> 0" using c h by simp
  have l: "?l \<in> set (h # ch h)" by (rule last_in_set) simp
  show "\<not> (vd(c := True)) 0" using chains_ok_0 [OF ok] c0 by simp
  show "(ch(h := ch h @ [c])) g = []" if "te \<le> g \<or> \<not> (vd(c := True)) g" for g
    using that chains_ok_empty [OF ok, of g] h by (auto split: if_splits)
  show "links nx' g ((ch(h := ch h @ [c])) g) \<and> backs pv' g ((ch(h := ch h @ [c])) g) \<and> pv' g = 0"
    if g: "g < te" "(vd(c := True)) g" for g
  proof (cases "g = h")
    case True
    have "links nx' h (ch h @ [c])"
      by (rule links_snoc [OF chains_ok_links [OF ok h] chains_ok_distinct_all [OF ok h(1)] _ c0 nx'])
         (use cfree c h in auto)
    moreover have "backs pv' h (ch h @ [c])"
      by (rule backs_snoc [OF chains_ok_backs [OF ok h] cfree pv'])
    moreover have "pv' h = 0" using chains_ok_head [OF ok h] c h pv'(2) [of h] by auto
    ultimately show ?thesis using True by simp
  next
    case False
    have vg: "vd g" using g c by (auto split: if_splits)
    have "?l \<notin> set (g # ch g)"
      using l chains_ok_disjoint [OF ok False] chains_ok_mem [OF ok, of ?l h]
        chains_ok_mem [OF ok, of h g] False g(1) h(1) by (auto simp del: last.simps)
    moreover have "c \<notin> set (g # ch g)" using cfree [of g] c g by auto
    ultimately have "links nx' g (ch g) = links nx g (ch g)"
      by (intro links_cong nx'(3)) auto
    moreover have "backs pv' g (ch g) = backs pv g (ch g)"
      using cfree [of g] by (intro backs_cong pv'(2)) auto
    moreover have "pv' g = pv g" using c g by (intro pv'(2)) auto
    ultimately show ?thesis
      using False chains_ok_links [OF ok g(1) vg] chains_ok_backs [OF ok g(1) vg]
        chains_ok_head [OF ok g(1) vg] by simp
  qed
  show "distinct ((ch(h := ch h @ [c])) g)" for g
    using chains_ok_distinct [OF ok] cfree by simp
  show "te \<le> x \<and> x < n \<and> (vd(c := True)) x" if "x \<in> set ((ch(h := ch h @ [c])) g)" for g x
    using that chains_ok_mem [OF ok] c by (auto split: if_splits)
  show "x \<notin> set ((ch(h := ch h @ [c])) f)" if "g \<noteq> f" "x \<in> set ((ch(h := ch h @ [c])) g)" for g f x
    using that chains_ok_disjoint [OF ok, of g f] cfree by (auto split: if_splits)
  show "\<exists>g < te. (vd(c := True)) g \<and> x \<in> set ((ch(h := ch h @ [c])) g)"
    if "te \<le> x" "x < n" "(vd(c := True)) x" for x
  proof (cases "x = c")
    case True
    then show ?thesis using h by (intro exI [of _ h]) simp
  next
    case False
    then obtain g where "g < te" "vd g" "x \<in> set (ch g)"
      using chains_ok_cover [OF ok, of x] \<open>te \<le> x\<close> \<open>x < n\<close> \<open>(vd(c := True)) x\<close> by auto
    then show ?thesis by (intro exI [of _ g]) auto
  qed
qed

text \<open>A lone head leaves.\<close>

lemma chains_ok_delete_head:
  assumes ok: "chains_ok te n vd nx pv ch" and h: "h < te" "vd h" "ch h = []"
    and nx': "\<And>i. i \<noteq> h \<Longrightarrow> nx' i = nx i" and pv': "\<And>i. i \<noteq> h \<Longrightarrow> pv' i = pv i"
  shows "chains_ok te n (vd(h := False)) nx' pv' ch"
proof (rule chains_okI)
  have hx: "h \<notin> set (ch g)" for g using chains_ok_mem [OF ok] h(1) by (meson not_le)
  show "links nx' g (ch g) \<and> backs pv' g (ch g) \<and> pv' g = 0"
    if g: "g < te" "(vd(h := False)) g" for g
  proof -
    have gh: "g \<noteq> h" "vd g" using g by (auto split: if_splits)
    have "links nx' g (ch g) = links nx g (ch g)" by (intro links_cong nx') (use hx [of g] gh in auto)
    moreover have "backs pv' g (ch g) = backs pv g (ch g)" by (intro backs_cong pv') (use hx [of g] in auto)
    ultimately show ?thesis
      using gh pv' chains_ok_links [OF ok g(1)] chains_ok_backs [OF ok g(1)] chains_ok_head [OF ok g(1)] by auto
  qed
  show "ch g = []" if "te \<le> g \<or> \<not> (vd(h := False)) g" for g
    using that chains_ok_empty [OF ok, of g] h by (auto split: if_splits)
  show "te \<le> x \<and> x < n \<and> (vd(h := False)) x" if "x \<in> set (ch g)" for g x
    using that chains_ok_mem [OF ok that] hx by auto
  show "\<exists>g < te. (vd(h := False)) g \<and> x \<in> set (ch g)"
    if "te \<le> x" "x < n" "(vd(h := False)) x" for x
  proof -
    have "vd x" using that by (simp split: if_splits)
    then obtain g where g: "g < te" "vd g" "x \<in> set (ch g)"
      using chains_ok_cover [OF ok \<open>te \<le> x\<close> \<open>x < n\<close>] by blast
    then have "g \<noteq> h" using h(3) by auto
    with g show ?thesis by auto
  qed
qed (use chains_ok_0 [OF ok] chains_ok_distinct [OF ok] chains_ok_disjoint [OF ok] in auto)

text \<open>A member \<open>y\<close> of the chain of \<open>h\<close> leaves; its neighbours are joined.\<close>

lemma chains_ok_delete_tail:
  assumes ok: "chains_ok te n vd nx pv ch" and h: "ch h = xs @ y # ys"
    and nx': "nx' (last (h # xs)) = nx y" "\<And>k. k \<noteq> y \<Longrightarrow> k \<noteq> last (h # xs) \<Longrightarrow> nx' k = nx k"
    and pv': "\<And>i. i \<noteq> y \<Longrightarrow> pv' i = (if ys \<noteq> [] \<and> i = hd ys then last (h # xs) else pv i)"
  shows "chains_ok te n (vd(y := False)) nx' pv' (ch(h := xs @ ys))"
proof (rule chains_okI)
  let ?l = "last (h # xs)"
  have yin: "y \<in> set (ch h)" using h by simp
  note own = chains_ok_owner [OF ok yin]
  note dist = chains_ok_distinct_all [OF ok own(1), unfolded h]
  have y: "te \<le> y" "y < n" using chains_ok_mem [OF ok yin] by auto
  have yo: "y \<notin> set (ch g)" if "g \<noteq> h" for g using chains_ok_disjoint [OF ok _ yin, of g] that by blast
  have l: "?l \<in> set (h # xs)" by (rule last_in_set) simp
  show "\<not> (vd(y := False)) 0" using chains_ok_0 [OF ok] by simp
  show "(ch(h := xs @ ys)) g = []" if "te \<le> g \<or> \<not> (vd(y := False)) g" for g
    using that chains_ok_empty [OF ok, of g] own y by (auto split: if_splits)
  show "links nx' g ((ch(h := xs @ ys)) g) \<and> backs pv' g ((ch(h := xs @ ys)) g) \<and> pv' g = 0"
    if g: "g < te" "(vd(y := False)) g" for g
  proof (cases "g = h")
    case True
    have "links nx' h (xs @ ys)"
      by (rule links_remove [OF _ _ nx']) (use chains_ok_links [OF ok own] dist h in auto)
    moreover have "backs pv' h (xs @ ys)"
      by (rule backs_remove [OF _ _ pv']) (use chains_ok_backs [OF ok own] dist h in auto)
    moreover have "pv' h = 0"
      using pv' [of h] chains_ok_head [OF ok own] y own dist by (cases ys) auto
    ultimately show ?thesis using True by simp
  next
    case False
    have vg: "vd g" using g by (auto split: if_splits)
    have out: "x \<notin> set (ch g)" "x \<noteq> g" if "x \<in> set (h # xs @ y # ys)" for x
      using that chains_ok_disjoint [OF ok False] chains_ok_mem [OF ok] h own g(1) False
      by (metis not_le set_ConsD)+
    have lnk: "links nx' g (ch g) = links nx g (ch g)"
      by (intro links_cong nx'(2)) (use out [of ?l] out [of y] l in auto)
    have same: "pv' x = pv x" if "x \<in> set (g # ch g)" for x
    proof -
      have "x \<noteq> y" "ys \<noteq> [] \<Longrightarrow> x \<noteq> hd ys" using that out [of y] out [of "hd ys"] by auto
      then show ?thesis using pv' [of x] by (cases "ys = []") simp_all
    qed
    have "backs pv' g (ch g) = backs pv g (ch g)" by (intro backs_cong same) simp
    moreover have "pv' g = pv g" by (rule same) simp
    moreover note lnk
    ultimately show ?thesis
      using False chains_ok_links [OF ok g(1) vg] chains_ok_backs [OF ok g(1) vg]
        chains_ok_head [OF ok g(1) vg] by simp
  qed
  show "distinct ((ch(h := xs @ ys)) g)" for g
    using chains_ok_distinct [OF ok, of g] dist by auto
  show "te \<le> x \<and> x < n \<and> (vd(y := False)) x" if "x \<in> set ((ch(h := xs @ ys)) g)" for g x
    using that chains_ok_mem [OF ok, of x g] chains_ok_mem [OF ok, of x h] dist h yo [of g]
    by (auto split: if_splits)
  show "x \<notin> set ((ch(h := xs @ ys)) f)" if "g \<noteq> f" "x \<in> set ((ch(h := xs @ ys)) g)" for g f x
    using that chains_ok_disjoint [OF ok, of g f x] h by (auto split: if_splits)
  show "\<exists>g < te. (vd(y := False)) g \<and> x \<in> set ((ch(h := xs @ ys)) g)"
    if "te \<le> x" "x < n" "(vd(y := False)) x" for x
  proof -
    have "vd x" using that by (simp split: if_splits)
    then obtain g where g: "g < te" "vd g" "x \<in> set (ch g)"
      using chains_ok_cover [OF ok \<open>te \<le> x\<close> \<open>x < n\<close>] by blast
    moreover have "x \<noteq> y" using that by auto
    ultimately show ?thesis using h y by (intro exI [of _ g]) auto
  qed
qed

end
