(* ===== verification/Ipa_Table_Sizing.thy ===== *)
theory Ipa_Table_Sizing
  imports Ipa_Table
begin

text \<open>
  Sizing of the tables: the two rounding helpers, the floating point split between base and
  expansion records (exact on every count the library accepts), the bounds
  \<^verbatim>\<open>ipa_table_calculate_entries_num\<close> establishes, the search for the number of entries that fits
  the SRAM, the layout of the two parts, and the round trip of a rule handle.
\<close>

section \<open>Rounding to a power of two and to an even number\<close>

lemma bit_len_double: "0 < n \<Longrightarrow> bit_len n = Suc (bit_len (n div 2))"
  by (simp add: bit_len.simps [of n])

lemma bit_len_1: "bit_len 1 = 1"
  by (simp add: bit_len.simps)

lemma pow2_loop_eq:
  "0 < tmp \<Longrightarrow>
   pow2_loop tmp p (2 ^ Suc j mod 65536) =
     (if tmp = 1 then p else 2 ^ (j + bit_len tmp - 1) mod 65536, 2 ^ (j + bit_len tmp) mod 65536)"
proof (induction tmp arbitrary: p j rule: bit_len.induct)
  case (1 tmp p j)
  show ?case
  proof (cases "tmp = 1")
    case True
    then show ?thesis using bit_len_1 by (simp add: pow2_loop.simps)
  next
    case False
    with "1.prems" have big: "1 < tmp" and half: "0 < tmp div 2" by simp_all
    have len: "bit_len tmp = Suc (bit_len (tmp div 2))" using big by (simp add: bit_len_double)
    obtain l where l: "bit_len (tmp div 2) = Suc l" using half by (metis bit_len_double)
    have md: "2 ^ Suc j mod 65536 * 2 mod 65536 = (2 ^ Suc (Suc j) mod 65536 :: nat)"
      using mod_mult_left_eq [of "2 ^ Suc j" 65536 2] by (simp add: mult.commute)
    have "pow2_loop tmp p (2 ^ Suc j mod 65536) =
            pow2_loop (tmp div 2) (2 ^ Suc j mod 65536) (2 ^ Suc (Suc j) mod 65536)"
      using big md by (simp add: pow2_loop.simps [of tmp])
    also have "\<dots> = (if tmp div 2 = 1 then 2 ^ Suc j mod 65536
                        else 2 ^ (Suc j + bit_len (tmp div 2) - 1) mod 65536,
                      2 ^ (Suc j + bit_len (tmp div 2)) mod 65536)"
      using "1.IH" [of "2 ^ Suc j mod 65536" "Suc j"] big half by simp
    also have "\<dots> = (2 ^ (j + bit_len tmp - 1) mod 65536, 2 ^ (j + bit_len tmp) mod 65536)"
      using len l bit_len_1 by auto
    finally show ?thesis using False by simp
  qed
qed

lemma pow2_lessD: "(2::nat) ^ a < 2 ^ b \<Longrightarrow> a < b"
  by (rule power_less_imp_less_exp [of 2]) simp_all

lemma pow2_leD: "(2::nat) ^ a \<le> 2 ^ b \<Longrightarrow> a \<le> b"
  by (rule power_le_imp_le_exp [of 2]) simp_all

lemma bit_len_le:
  assumes "n < 2 ^ k"
  shows "bit_len n \<le> k"
proof (cases "n = 0")
  case True
  then show ?thesis by (simp add: bit_len.simps)
next
  case False
  then have "(2::nat) ^ (bit_len n - 1) < 2 ^ k"
    using bit_len_bounds [of n] assms by linarith
  then have "bit_len n - 1 < k" by (rule pow2_lessD)
  then show ?thesis by linarith
qed

lemma Get2Power_eq:
  assumes "0 < n"
  shows "Get2PowerTightUpperBound n =
           (if 1 < n \<and> n = 2 ^ (bit_len n - 1) mod 65536 then n else 2 ^ bit_len n mod 65536)"
proof -
  have "pow2_loop n 0 2 =
          (if n = 1 then 0 else 2 ^ (bit_len n - 1) mod 65536, 2 ^ bit_len n mod 65536)"
    using pow2_loop_eq [of n 0 0] assms by simp
  then show ?thesis using assms by (cases "n = 1") (simp_all add: Get2PowerTightUpperBound_def)
qed

text \<open>Above \<open>2 ^ 15\<close> the last \<^verbatim>\<open>curr <<= 1\<close> drops the only bit.\<close>

lemma Get2Power_high:
  assumes "32768 \<le> n" "n < 65536"
  shows "Get2PowerTightUpperBound n = (if n = 32768 then 32768 else 0)"
proof -
  have "bit_len n \<le> 16" by (rule bit_len_le) (simp add: assms)
  have "n < 2 ^ bit_len n" using bit_len_bounds [of n] assms by simp
  then have "(2::nat) ^ 15 < 2 ^ bit_len n" using assms by simp
  then have "15 < bit_len n" by (rule pow2_lessD)
  with \<open>bit_len n \<le> 16\<close> have "bit_len n = 16" by linarith
  then show ?thesis using assms by (simp add: Get2Power_eq)
qed

lemma Get2Power_power:
  assumes "n \<le> 32768"
  shows "\<exists>k. 1 \<le> k \<and> k \<le> 15 \<and> Get2PowerTightUpperBound n = 2 ^ k \<and> n \<le> 2 ^ k \<and>
             (\<forall>j. 1 \<le> j \<and> n \<le> 2 ^ j \<longrightarrow> k \<le> j)"
proof -
  consider "n = 0" | "n = 1" | "n = 32768" | "1 < n" "n < 32768" using assms by linarith
  then show ?thesis
  proof cases
    case 1
    then show ?thesis by (intro exI [of _ 1]) (simp add: Get2PowerTightUpperBound_def)
  next
    case 2
    then show ?thesis
      by (intro exI [of _ 1]) (simp add: Get2PowerTightUpperBound_def pow2_loop.simps)
  next
    case 3
    have "15 \<le> j" if "(32768::nat) \<le> 2 ^ j" for j :: nat
    proof -
      have "(2::nat) ^ 15 \<le> 2 ^ j" using that by simp
      then show ?thesis by (rule power_le_imp_le_exp [rotated]) simp
    qed
    with 3 show ?thesis by (intro exI [of _ 15]) (simp add: Get2Power_high)
  next
    case 4
    let ?l = "bit_len n"
    have b: "2 ^ (?l - 1) \<le> n" "n < 2 ^ ?l" using bit_len_bounds [of n] 4 by simp_all
    have l15: "?l \<le> 15" using bit_len_le [of n 15] 4 by simp
    have l2: "2 \<le> ?l"
      using b 4 by (cases "?l = 0 \<or> ?l = 1") auto
    have "(2::nat) ^ ?l \<le> 2 ^ 15" using l15 by (intro power_increasing) simp_all
    then have small: "2 ^ ?l mod 65536 = (2::nat) ^ ?l" "2 ^ (?l - 1) mod 65536 = (2::nat) ^ (?l - 1)"
      using b 4 by simp_all
    show ?thesis
    proof (cases "n = 2 ^ (?l - 1)")
      case True
      have "?l - 1 \<le> j" if "n \<le> 2 ^ j" for j
        using that True pow2_leD by metis
      moreover have "Get2PowerTightUpperBound n = 2 ^ (?l - 1)"
        using True small 4 by (simp add: Get2Power_eq)
      ultimately show ?thesis using True l15 l2
        by (intro exI [of _ "?l - 1"]) auto
    next
      case False
      have "?l \<le> j" if "n \<le> 2 ^ j" for j
      proof -
        have "(2::nat) ^ (?l - 1) < 2 ^ j" using False b 4 that by linarith
        then have "?l - 1 < j" by (rule pow2_lessD)
        then show ?thesis by linarith
      qed
      with False l15 l2 4 b small show ?thesis
        by (intro exI [of _ ?l]) (simp add: Get2Power_eq)
    qed
  qed
qed

lemma Get2Power_ge: "n \<le> 32768 \<Longrightarrow> n \<le> Get2PowerTightUpperBound n \<and> 2 \<le> Get2PowerTightUpperBound n"
proof -
  assume "n \<le> 32768"
  then obtain k where "1 \<le> k" "Get2PowerTightUpperBound n = 2 ^ k" "n \<le> 2 ^ k"
    using Get2Power_power by blast
  moreover have "(2::nat) ^ 1 \<le> 2 ^ k" using \<open>1 \<le> k\<close> by (intro power_increasing) simp_all
  ultimately show ?thesis by simp
qed

lemma Get2Power_le:
  assumes "n \<le> 2 ^ j" "1 \<le> j" "j \<le> 15"
  shows "Get2PowerTightUpperBound n \<le> 2 ^ j"
proof -
  have "(2::nat) ^ j \<le> 2 ^ 15" using assms by (intro power_increasing) simp_all
  then have "n \<le> 32768" using assms by simp
  then obtain k where "Get2PowerTightUpperBound n = 2 ^ k" "k \<le> j"
    using Get2Power_power assms by blast
  then show ?thesis by (simp add: power_increasing)
qed

lemma GetEven_bounds:
  "even (GetEvenTightUpperBound n)" "2 \<le> GetEvenTightUpperBound n"
  "n \<le> GetEvenTightUpperBound n" "GetEvenTightUpperBound n \<le> n + 2"
  by (auto simp: GetEvenTightUpperBound_def)

section \<open>The floating point split\<close>

text \<open>Rounding keeps every representable lower bound, and a product that is within half a unit
  below a representable number is rounded to it.\<close>

lemma rne_ge_representable:
  assumes "a * 2 ^ e \<le> m" "a < 2 ^ p" "0 < p"
  shows "a * 2 ^ e \<le> rne p m"
proof (cases "bit_len m \<le> p")
  case True
  then show ?thesis using assms by (simp add: rne_def)
next
  case False
  define k where "k = bit_len m - p"
  have m: "0 < m" using False by (cases m) (simp_all add: bit_len.simps [of 0])
  have low: "m div 2 ^ k * 2 ^ k \<le> rne p m"
    using False by (simp add: rne_def Let_def k_def)
  show ?thesis
  proof (cases "k \<le> e")
    case True
    then obtain d where d: "e = d + k" by (metis le_add_diff_inverse2)
    have "a * 2 ^ d * 2 ^ k \<le> m" using assms(1) d by (simp add: power_add mult.assoc)
    then have "a * 2 ^ d \<le> m div 2 ^ k" by (simp add: less_eq_div_iff_mult_less_eq)
    then have "a * 2 ^ d * 2 ^ k \<le> m div 2 ^ k * 2 ^ k" by simp
    then have "a * 2 ^ e \<le> m div 2 ^ k * 2 ^ k" using d by (simp add: power_add mult.assoc)
    then show ?thesis using low by (rule order_trans)
  next
    case ek: False
    have l: "bit_len m - 1 = (p - 1) + k" using False assms(3) by (simp add: k_def)
    have "2 ^ (p - 1) * 2 ^ k \<le> m" using bit_len_bounds [OF m] l by (simp add: power_add)
    then have "2 ^ (p - 1) \<le> m div 2 ^ k" by (simp add: less_eq_div_iff_mult_less_eq)
    then have "2 ^ (p - 1) * 2 ^ k \<le> m div 2 ^ k * 2 ^ k" by simp
    moreover have "a * 2 ^ e \<le> 2 ^ p * 2 ^ e" using assms(2) by simp
    moreover have "(2::nat) ^ p * 2 ^ e \<le> 2 ^ (p - 1) * 2 ^ k"
      using ek assms(3) by (simp flip: power_add)
    ultimately show ?thesis using low by linarith
  qed
qed

lemma rne_near_below:
  assumes "m + d = a * 2 ^ e" "p < bit_len m" "bit_len m - p \<le> e" "2 * d < 2 ^ (bit_len m - p)"
  shows "rne p m = m + d"
proof -
  define k where "k = bit_len m - p"
  let ?q = "m div 2 ^ k" and ?r = "m mod 2 ^ k"
  have k: "0 < k" "k \<le> e" "2 * d < 2 ^ k" using assms by (simp_all add: k_def)
  have two: "(2::nat) ^ k = 2 * 2 ^ (k - 1)" using k by (cases k) simp_all
  have split: "m = ?q * 2 ^ k + ?r" by (rule div_mult_mod_eq [symmetric])
  have "2 ^ k dvd m + d" unfolding assms(1) using k(2) by (simp add: le_imp_power_dvd)
  then have "2 ^ k dvd ?r + d" by (simp add: mod_add_left_eq dvd_eq_mod_eq_0)
  then obtain c where c: "?r + d = 2 ^ k * c" by (rule dvdE)
  have "?r < 2 ^ k" by simp
  then have "2 ^ k * c < 2 ^ k * 2" using k(3) c by linarith
  then have "c < 2" by simp
  then consider "c = 0" | "c = 1" by linarith
  then have r: "d = 0 \<and> ?r = 0 \<or> 0 < d \<and> ?r + d = 2 ^ k"
    using c \<open>?r < 2 ^ k\<close> by cases (simp, cases d, simp_all)
  have unfold: "rne p m = (if ?r > 2 ^ (k - 1) \<or> (?r = 2 ^ (k - 1) \<and> odd ?q) then ?q + 1 else ?q) * 2 ^ k"
    using assms(2) by (simp add: rne_def Let_def k_def)
  from r show ?thesis
  proof
    assume "d = 0 \<and> ?r = 0"
    then show ?thesis using unfold split by simp
  next
    assume d: "0 < d \<and> ?r + d = 2 ^ k"
    then have "?r > 2 ^ (k - 1)" using k(3) two by linarith
    then have "rne p m = (?q + 1) * 2 ^ k" using unfold by simp
    also have "\<dots> = ?q * 2 ^ k + (?r + d)" using d by simp
    also have "\<dots> = m + d" using split by linarith
    finally show ?thesis .
  qed
qed

lemma fp_mul_trunc_ge:
  assumes "a * 2 ^ e \<le> n * mant" "a < 2 ^ p" "0 < p"
  shows "a \<le> fp_mul_trunc p mant e n"
  using rne_ge_representable [OF assms]
  by (simp add: fp_mul_trunc_def less_eq_div_iff_mult_less_eq)

lemma fp_mul_trunc_less:
  assumes "n * mant + n * mant div 2 ^ p < b * 2 ^ e" "0 < p"
  shows "fp_mul_trunc p mant e n < b"
proof -
  have "rne p (n * mant) < b * 2 ^ e" using rne_le [OF assms(2)] assms(1) le_less_trans by blast
  then show ?thesis by (simp add: fp_mul_trunc_def div_less_iff_less_mult)
qed

lemma base_part_ddr: "n \<le> 65535 \<Longrightarrow> fp_mul_trunc 24 13421773 24 n = 4 * n div 5"
  by (intro order_antisym less_Suc_eq_le [THEN iffD1] fp_mul_trunc_less fp_mul_trunc_ge) (simp; linarith)+

lemma expn_part_ddr: "n \<le> 65535 \<Longrightarrow> fp_mul_trunc 24 13421773 26 n = n div 5"
  by (intro order_antisym less_Suc_eq_le [THEN iffD1] fp_mul_trunc_less fp_mul_trunc_ge) (simp; linarith)+

lemma base_part_sram: "n \<le> 65535 \<Longrightarrow> fp_mul_trunc 24 8388608 23 n = n"
  by (intro order_antisym less_Suc_eq_le [THEN iffD1] fp_mul_trunc_less fp_mul_trunc_ge) (simp; linarith)+

lemma expn_part_sram: "n \<le> 10000 \<Longrightarrow> fp_mul_trunc 24 14428406 25 n = 43 * n div 100"
  by (intro order_antisym less_Suc_eq_le [THEN iffD1] fp_mul_trunc_less fp_mul_trunc_ge) (simp; linarith)+

lemma expn_part_double:
  assumes "n \<le> 65535"
  shows "fp_mul_trunc 53 7746191359077253 54 n = 43 * n div 100"
proof (cases "n mod 100 = 0")
  case False
  define a r where "a = 43 * n div 100" and "r = 43 * n mod 100"
  have split: "43 * n = 100 * a + r" unfolding a_def r_def by simp
  have "r \<noteq> 0"
  proof
    assume "r = 0"
    then have "n = 100 * (7 * a - 3 * n)" using split by simp
    then have "100 dvd n" by (metis dvd_triv_left)
    then show False using False by simp
  qed
  moreover have "r < 100" unfolding r_def by simp
  ultimately have "fp_mul_trunc 53 7746191359077253 54 n = a"
    using assms split
    by (intro order_antisym less_Suc_eq_le [THEN iffD1] fp_mul_trunc_less fp_mul_trunc_ge)
       (simp; linarith)+
  then show ?thesis by (simp add: a_def)
next
  case True
  then obtain j where j: "n = 100 * j" by (metis mod_0_imp_dvd dvdE)
  show ?thesis
  proof (cases "j = 0")
    case True
    then show ?thesis using j by (simp add: fp_mul_trunc_def rne_def bit_len.simps)
  next
    case False
    let ?m = "n * 7746191359077253"
    have b: "2 ^ (bit_len ?m - 1) \<le> ?m" "?m < 2 ^ bit_len ?m"
      using bit_len_bounds [of ?m] False j by simp_all
    have "2 ^ 59 * j \<le> ?m" using j by simp
    then have "2 ^ 59 * j < 2 ^ bit_len ?m" using b(2) by (rule le_less_trans)
    moreover have "(2::nat) ^ 59 * 1 \<le> 2 ^ 59 * j" using False by (intro mult_le_mono2) simp
    ultimately have "(2::nat) ^ 59 < 2 ^ bit_len ?m" by linarith
    then have l59: "59 < bit_len ?m" by (rule pow2_lessD)
    have "?m < 2 ^ 70" using assms by simp
    then have l70: "bit_len ?m \<le> 70" by (rule bit_len_le)
    define e where "e = bit_len ?m - 53"
    have e: "bit_len ?m = 53 + e" using l59 by (simp add: e_def)
    have "2 ^ 53 * (64 * j) < 2 ^ 53 * 2 ^ e"
      using \<open>2 ^ 59 * j < 2 ^ bit_len ?m\<close> unfolding e power_add by simp
    then have "64 * j < 2 ^ (bit_len ?m - 53)" using e by simp
    then have "rne 53 ?m = ?m + 12 * j"
      using j l59 l70 by (intro rne_near_below [where a = "43 * j" and e = 54]) simp_all
    then show ?thesis using j by (simp add: fp_mul_trunc_def)
  qed
qed

lemmas fp_split = base_part_ddr expn_part_ddr base_part_sram expn_part_sram

lemma base_part_eq: "n \<le> 5120 \<Longrightarrow> base_part nmi n = (if nmi = IPA_NAT_MEM_IN_SRAM then n else 4 * n div 5)"
  by (simp add: base_part_def fp_split)

lemma expn_part_eq: "n \<le> 5120 \<Longrightarrow> expn_part nmi n = (if nmi = IPA_NAT_MEM_IN_SRAM then 43 * n div 100 else n div 5)"
  by (simp add: expn_part_def fp_split)

section \<open>Number of entries\<close>

lemma Get2Power_u16: "n \<le> 32768 \<Longrightarrow> Get2PowerTightUpperBound n mod 65536 = Get2PowerTightUpperBound n"
  using Get2Power_le [of n 15] by simp

lemma GetEven_mono: "m \<le> n \<Longrightarrow> GetEvenTightUpperBound m \<le> GetEvenTightUpperBound n"
  by (auto simp: GetEvenTightUpperBound_def) presburger

text \<open>The counts of both parts for a number of entries and a memory.\<close>

definition entry_split :: "ipa3_nat_mem_in \<Rightarrow> nat \<Rightarrow> nat \<times> nat" where
  "entry_split nmi n =
     (if nmi = IPA_NAT_MEM_IN_SRAM
      then (Get2PowerTightUpperBound n, GetEvenTightUpperBound (43 * n div 100))
      else (Get2PowerTightUpperBound (4 * n div 5), GetEvenTightUpperBound (n div 5)))"

lemma calculate_entries_num_eq:
  assumes "n \<le> 5120"
  shows "ipa_table_calculate_entries_num t n nmi =
           (let (te, xe) = entry_split nmi n in
            if te + xe > 5120 then (- EINVAL, t\<lparr>tot_tbl_ents := te + xe\<rparr>)
            else (0, t\<lparr>tot_tbl_ents := te + xe, table_entries := te, expn_table_entries := xe\<rparr>))"
proof -
  have "GetEvenTightUpperBound m mod 65536 = GetEvenTightUpperBound m" if "m \<le> 5120" for m
    using that GetEven_bounds(4) [of m] by simp
  then show ?thesis
    using assms
    by (simp add: ipa_table_calculate_entries_num_def IPA_TABLE_MAX_ENTRIES_def entry_split_def
          base_part_eq expn_part_eq Get2Power_u16 Let_def)
qed

lemma entry_split_fits:
  assumes "n \<le> 5120"
  shows "fst (entry_split nmi n) + snd (entry_split nmi n) \<le> 5120 \<longleftrightarrow>
         n \<le> (if nmi = IPA_NAT_MEM_IN_SRAM then 2383 else 5120)"
proof (cases "nmi = IPA_NAT_MEM_IN_SRAM")
  case False
  have "Get2PowerTightUpperBound (4 * n div 5) \<le> 2 ^ 12"
    using assms by (intro Get2Power_le) simp_all
  moreover have "GetEvenTightUpperBound (n div 5) \<le> GetEvenTightUpperBound 1024"
    using assms by (intro GetEven_mono) simp
  ultimately show ?thesis using False assms by (simp add: entry_split_def GetEvenTightUpperBound_def)
next
  case True
  consider "n \<le> 2048" | "2048 < n" "n \<le> 2383" | "2383 < n" by linarith
  then show ?thesis
  proof cases
    case 1
    have "Get2PowerTightUpperBound n \<le> 2 ^ 11" using 1 by (intro Get2Power_le) simp_all
    moreover have "GetEvenTightUpperBound (43 * n div 100) \<le> GetEvenTightUpperBound 1024"
      using 1 by (intro GetEven_mono) linarith
    ultimately show ?thesis using True 1 by (simp add: entry_split_def GetEvenTightUpperBound_def [of 1024])
  next
    case 2
    have "Get2PowerTightUpperBound n \<le> 2 ^ 12" using 2 by (intro Get2Power_le) simp_all
    moreover have "GetEvenTightUpperBound (43 * n div 100) \<le> GetEvenTightUpperBound 1024"
      using 2 by (intro GetEven_mono) linarith
    ultimately show ?thesis using True 2 by (simp add: entry_split_def GetEvenTightUpperBound_def [of 1024])
  next
    case 3
    obtain k where k: "Get2PowerTightUpperBound n = 2 ^ k" "n \<le> 2 ^ k"
      using Get2Power_power [of n] assms by auto
    have "(2::nat) ^ 11 < 2 ^ k" using k(2) 3 by simp
    then have "12 \<le> k" using pow2_lessD [of 11 k] by simp
    then have "(2::nat) ^ 12 \<le> 2 ^ k" by (intro power_increasing) simp_all
    moreover have "GetEvenTightUpperBound 1025 \<le> GetEvenTightUpperBound (43 * n div 100)"
      using 3 by (intro GetEven_mono) linarith
    ultimately show ?thesis using True 3 k by (simp add: entry_split_def GetEvenTightUpperBound_def [of 1025])
  qed
qed

lemma entry_split_bounds:
  assumes "n \<le> 5120" "fst (entry_split nmi n) + snd (entry_split nmi n) \<le> 5120"
  shows "\<exists>k. 1 \<le> k \<and> k \<le> 12 \<and> fst (entry_split nmi n) = 2 ^ k"
    and "even (snd (entry_split nmi n))" "2 \<le> snd (entry_split nmi n)" "snd (entry_split nmi n) \<le> 2202"
    and "n \<le> fst (entry_split nmi n) + snd (entry_split nmi n) + 1"
proof -
  define b where "b = (if nmi = IPA_NAT_MEM_IN_SRAM then n else 4 * n div 5)"
  define x where "x = (if nmi = IPA_NAT_MEM_IN_SRAM then 43 * n div 100 else n div 5)"
  have split: "entry_split nmi n = (Get2PowerTightUpperBound b, GetEvenTightUpperBound x)"
    by (simp add: entry_split_def b_def x_def)
  have bx: "b \<le> 5120" "x \<le> 2201" "n \<le> b + x + 1"
    using assms(1) by (auto simp: b_def x_def)
  obtain k where k: "1 \<le> k" "Get2PowerTightUpperBound b = 2 ^ k"
    using Get2Power_power [of b] bx by auto
  have "(2::nat) ^ k < 2 ^ 13" using assms(2) split k by simp
  then have "k < 13" by (rule pow2_lessD)
  then have "k \<le> 12" by simp
  with k show "\<exists>k. 1 \<le> k \<and> k \<le> 12 \<and> fst (entry_split nmi n) = 2 ^ k"
    using split by auto
  show "even (snd (entry_split nmi n))" "2 \<le> snd (entry_split nmi n)"
    using split GetEven_bounds by simp_all
  have "GetEvenTightUpperBound x \<le> GetEvenTightUpperBound 2201" by (rule GetEven_mono [OF bx(2)])
  then show "snd (entry_split nmi n) \<le> 2202" using split by (simp add: GetEvenTightUpperBound_def)
  show "n \<le> fst (entry_split nmi n) + snd (entry_split nmi n) + 1"
    using split bx Get2Power_ge [of b] GetEven_bounds(3) [of x] by simp
qed

text \<open>\<^verbatim>\<open>ipa_table_calculate_entries_num\<close> succeeds exactly up to 5120 entries in DDR and 2383 in
  SRAM.  On success the base table is a power of two between 2 and 4096 (what the hash mask and the
  12-bit index of a handle need), the expansion table is even, nonempty and at most 2202 records,
  the total is their sum, at most 5120 and at most one record short of the request; nothing else of
  the table changes.  On failure the two counts are not touched.\<close>

theorem calculate_entries_num_spec:
  "case ipa_table_calculate_entries_num t n nmi of (ret, t') \<Rightarrow>
     ret = (if n \<le> (if nmi = IPA_NAT_MEM_IN_SRAM then 2383 else 5120) then 0 else - EINVAL) \<and>
     (if ret = 0 then
        (\<exists>k. 1 \<le> k \<and> k \<le> 12 \<and> table_entries t' = 2 ^ k) \<and>
        even (expn_table_entries t') \<and> 2 \<le> expn_table_entries t' \<and> expn_table_entries t' \<le> 2202 \<and>
        tot_tbl_ents t' = table_entries t' + expn_table_entries t' \<and>
        tot_tbl_ents t' \<le> 5120 \<and> n \<le> tot_tbl_ents t' + 1 \<and>
        t' = t\<lparr>tot_tbl_ents := tot_tbl_ents t', table_entries := table_entries t',
               expn_table_entries := expn_table_entries t'\<rparr>
      else table_entries t' = table_entries t \<and> expn_table_entries t' = expn_table_entries t)"
proof (cases "n \<le> 5120")
  case False
  then show ?thesis by (simp add: ipa_table_calculate_entries_num_def IPA_TABLE_MAX_ENTRIES_def)
next
  case True
  let ?te = "fst (entry_split nmi n)" and ?xe = "snd (entry_split nmi n)"
  show ?thesis
  proof (cases "?te + ?xe \<le> 5120")
    case fits: True
    note b = entry_split_bounds [OF True fits]
    show ?thesis
      using entry_split_fits [OF True, of nmi] fits b(1-3) b(4-5)
      by (simp add: calculate_entries_num_eq [OF True] case_prod_unfold Let_def)
  next
    case False
    then show ?thesis
      using entry_split_fits [OF True, of nmi]
      by (simp add: calculate_entries_num_eq [OF True] case_prod_unfold Let_def)
  qed
qed

section \<open>Entries that fit the SRAM\<close>

text \<open>The size of a NAT table and an index table of \<open>n\<close> SRAM entries, with 32 and 4 byte records.\<close>

definition sram_bytes :: "nat \<Rightarrow> nat" where
  "sram_bytes n = 36 * (fst (entry_split IPA_NAT_MEM_IN_SRAM n) + snd (entry_split IPA_NAT_MEM_IN_SRAM n))"

lemma fp_exact_double: "n \<le> 65535 \<Longrightarrow> fp_mul_trunc 53 4503599627370496 52 n = n"
  by (intro order_antisym less_Suc_eq_le [THEN iffD1] fp_mul_trunc_less fp_mul_trunc_ge) (simp; linarith)+

lemma sram_tables_size_eq:
  assumes "n \<le> 32768"
  shows "sram_tables_size 32 4 n = sram_bytes n"
proof -
  have "GetEvenTightUpperBound (43 * n div 100) \<le> 65535"
    using assms GetEven_bounds(4) [of "43 * n div 100"] by linarith
  then show ?thesis using assms
    by (simp add: sram_tables_size_def sram_bytes_def entry_split_def fp_exact_double expn_part_double
          Get2Power_u16 Let_def)
qed

lemma sram_tables_size_high:
  assumes "32768 < n" "n \<le> 65535"
  shows "sram_tables_size 32 4 n \<le> 36 * 28182"
proof -
  have "GetEvenTightUpperBound (43 * n div 100) \<le> 28182"
    using assms GetEven_bounds(4) [of "43 * n div 100"] by linarith
  moreover have "GetEvenTightUpperBound (43 * n div 100) mod 65536 \<le> GetEvenTightUpperBound (43 * n div 100)"
    by (rule mod_less_eq_dividend)
  ultimately show ?thesis using assms
    by (simp add: sram_tables_size_def Let_def fp_exact_double expn_part_double Get2Power_high)
qed

lemma Get2Power_mono:
  assumes "m \<le> n" "n \<le> 32768"
  shows "Get2PowerTightUpperBound m \<le> Get2PowerTightUpperBound n"
proof -
  obtain k where "1 \<le> k" "k \<le> 15" "Get2PowerTightUpperBound n = 2 ^ k" "n \<le> 2 ^ k"
    using Get2Power_power [OF assms(2)] by blast
  then show ?thesis using Get2Power_le [of m k] assms(1) by simp
qed

lemma sram_bytes_mono: "m \<le> n \<Longrightarrow> n \<le> 32768 \<Longrightarrow> sram_bytes m \<le> sram_bytes n"
  unfolding sram_bytes_def entry_split_def
  by (auto intro!: add_mono Get2Power_mono GetEven_mono div_le_mono)

lemma sram_bytes_max: "sram_bytes 32768 = 1686888"
  by (simp add: sram_bytes_def entry_split_def Get2Power_high GetEvenTightUpperBound_def)

lemma sram_bytes_1: "sram_bytes 1 = 144"
  by (simp add: sram_bytes_def entry_split_def GetEvenTightUpperBound_def Get2PowerTightUpperBound_def
        pow2_loop.simps)

lemma calc_sram_loop_spec:
  assumes "sram < 1686888" "tot \<le> 32768" "\<forall>i. 1 \<le> i \<and> i < tot \<longrightarrow> sram_bytes i \<le> sram" "1 \<le> tot"
  shows "\<exists>n. calc_sram_loop sram 32 4 tot (tot - 1) = Some n \<and> n < 32768 \<and> sram < sram_bytes (n + 1) \<and>
             (\<forall>i. 1 \<le> i \<and> i \<le> n \<longrightarrow> sram_bytes i \<le> sram)"
  using assms
proof (induction "32768 - tot" arbitrary: tot)
  case 0
  then have "tot = 32768" by simp
  then have "sram_tables_size 32 4 tot > sram" using 0 sram_bytes_max by (simp add: sram_tables_size_eq)
  then show ?case using 0 \<open>tot = 32768\<close> sram_bytes_max
    by (intro exI [of _ "tot - 1"]) (simp add: calc_sram_loop.simps)
next
  case (Suc d)
  show ?case
  proof (cases "sram_tables_size 32 4 tot > sram")
    case True
    then show ?thesis using Suc.prems Suc.hyps(2)
      by (intro exI [of _ "tot - 1"]) (auto simp: calc_sram_loop.simps [of sram 32 4 tot] sram_tables_size_eq)
  next
    case False
    then have fits: "sram_bytes tot \<le> sram" using Suc.prems by (simp add: sram_tables_size_eq)
    have step: "calc_sram_loop sram 32 4 tot (tot - 1) = calc_sram_loop sram 32 4 (tot + 1) (tot + 1 - 1)"
      using False Suc.hyps(2) by (simp add: calc_sram_loop.simps [of sram 32 4 tot])
    have "\<forall>i. 1 \<le> i \<and> i < tot + 1 \<longrightarrow> sram_bytes i \<le> sram"
      using Suc.prems(3) fits by (metis less_Suc_eq Suc_eq_plus1)
    then show ?thesis unfolding step using Suc.hyps Suc.prems by (intro Suc.hyps(1)) simp_all
  qed
qed

text \<open>C39: for an SRAM below 1686888 bytes the search of \<^verbatim>\<open>ipa_calc_num_sram_table_entries\<close> ends, and the
  count it reports is the largest whose NAT and index tables, sized as \<^verbatim>\<open>ipa_table_calculate_entries_num\<close>
  sizes them for SRAM, fit; it reports an error exactly when not even one entry fits (below 144
  bytes).\<close>

theorem sram_search_maximal:
  assumes "sram < 1686888"
  shows "\<exists>n. ipa_calc_num_sram_table_entries sram 32 4 = Some (if 144 \<le> sram then 0 else - 1, n) \<and>
             (\<forall>i. 1 \<le> i \<and> i \<le> 32768 \<longrightarrow> (sram_bytes i \<le> sram \<longleftrightarrow> i \<le> n))"
proof -
  obtain n where n: "calc_sram_loop sram 32 4 1 0 = Some n" "n < 32768" "sram < sram_bytes (n + 1)"
      "\<forall>i. 1 \<le> i \<and> i \<le> n \<longrightarrow> sram_bytes i \<le> sram"
    using calc_sram_loop_spec [of sram 1] assms by auto
  have "sram_bytes i \<le> sram \<longleftrightarrow> i \<le> n" if "1 \<le> i" "i \<le> 32768" for i
  proof (cases "i \<le> n")
    case False
    then have "sram_bytes (n + 1) \<le> sram_bytes i" using that by (intro sram_bytes_mono) simp_all
    then show ?thesis using n False by simp
  qed (use n that in simp)
  moreover have "n \<noteq> 0 \<longleftrightarrow> 144 \<le> sram"
    using calculation [of 1] sram_bytes_1 by auto
  ultimately show ?thesis using n(1) by (auto simp: ipa_calc_num_sram_table_entries_def)
qed

theorem sram_search_maximal_witness:
  "(131072::nat) < 1686888 \<and> (\<exists>n. ipa_calc_num_sram_table_entries 131072 32 4 = Some (0, n))"
  using sram_search_maximal [of 131072] by auto

lemma sram_tables_size_le:
  assumes "tot < 65536"
  shows "sram_tables_size 32 4 tot \<le> 1686888"
  using assms sram_tables_size_high [of tot] sram_bytes_mono [of tot 32768] sram_bytes_max
  by (cases "tot \<le> 32768") (simp_all add: sram_tables_size_eq)

lemma calc_sram_loop_big:
  assumes "calc_sram_loop sram 32 4 tot c = Some n" "1686888 \<le> sram" "tot < 65536"
  shows False
proof -
  have "1686888 \<le> sram \<longrightarrow> (32::nat) = 32 \<longrightarrow> (4::nat) = 4 \<longrightarrow> tot < 65536 \<longrightarrow> False"
    by (rule calc_sram_loop.raw_induct
          [where P = "\<lambda>sram e1 e2 tot c n. 1686888 \<le> sram \<longrightarrow> e1 = 32 \<longrightarrow> e2 = 4 \<longrightarrow> tot < 65536 \<longrightarrow> False",
           OF _ assms(1)])
       (use sram_tables_size_le in \<open>fastforce split: if_splits simp: not_less\<close>)
  then show False using assms by simp
qed

text \<open>C40: from 1686888 bytes on, the 16-bit counter of the search wraps before any size exceeds the
  SRAM, and \<^verbatim>\<open>ipa_calc_num_sram_table_entries\<close> never returns.\<close>

theorem sram_search_diverges:
  assumes "1686888 \<le> sram"
  shows "ipa_calc_num_sram_table_entries sram 32 4 = None"
proof (cases "calc_sram_loop sram 32 4 1 0")
  case None
  then show ?thesis by (simp add: ipa_calc_num_sram_table_entries_def)
next
  case (Some n)
  then show ?thesis using calc_sram_loop_big [OF Some] assms by simp
qed

theorem sram_search_diverges_witness:
  "(1686888::nat) \<le> 2097152 \<and> ipa_calc_num_sram_table_entries 2097152 32 4 = None"
  using sram_search_diverges [of 2097152] by simp

section \<open>Layout of the two parts\<close>

lemma calculate_addresses_layout:
  assumes "ipa_table_calculate_addresses t base = (end_addr, t')"
  shows "GOTO_REC t' i = base + i * entry_size t"
    and "expn_table_addr t' = GOTO_REC t' (table_entries t)"
    and "end_addr = base + ipa_table_calculate_size t"
    and "recs t' = recs t"
  using assms
  by (auto simp: ipa_table_calculate_addresses_def ipa_table_calculate_size_def GOTO_REC_def Let_def algebra_simps)

section \<open>Rule handles\<close>

lemma bit_small: "j < 4096 \<Longrightarrow> bit j n \<Longrightarrow> n < 12" for j :: nat
proof -
  assume j: "j < 4096" "bit j n"
  then have "take_bit 12 j = j" by (simp add: take_bit_nat_eq_self_iff)
  with j(2) have "bit (take_bit 12 j) n" by simp
  then show "n < 12" by (simp add: bit_take_bit_iff)
qed

definition mk_hdl :: "nat \<Rightarrow> bool \<Rightarrow> nat \<Rightarrow> u16" where
  "mk_hdl j x c = push_bit 1 (of_nat j) OR of_bool x OR push_bit 15 (of_nat c)"

lemma mk_hdl_index:
  assumes "j < 4096"
  shows "drop_bit 1 (ucast (mk_hdl j x c)) AND 0xFFF = (of_nat j :: u32)"
proof -
  have m: "0xFFF = (mask 12 :: u32)" by (simp add: mask_eq_exp_minus_1)
  show ?thesis
    unfolding m mk_hdl_def
    by (rule bit_word_eqI)
       (auto simp: bit_simps simp del: push_bit_Suc drop_bit_Suc dest: bit_small [OF assms])
qed

lemma mk_hdl_expn: "(ucast (mk_hdl j x c) AND 1 :: u32) = of_bool x"
  unfolding mk_hdl_def by (rule bit_word_eqI) (auto simp: bit_simps simp del: push_bit_Suc)

lemma mk_hdl_mem:
  assumes "j < 4096" "c < 2"
  shows "(drop_bit 15 (ucast (mk_hdl j x c)) AND 1 :: u32) = of_nat c"
proof -
  have c: "c = 0 \<or> c = 1" using assms by linarith
  show ?thesis
    unfolding mk_hdl_def
    by (rule bit_word_eqI)
       (use c in \<open>auto simp: bit_simps simp del: push_bit_Suc drop_bit_Suc dest: bit_small [OF assms(1)]\<close>)
qed

lemma MakeEntryHdl_mk_hdl:
  "MakeEntryHdl t i = mk_hdl (if table_entries t \<le> i then i - table_entries t else i) (table_entries t \<le> i)
     (nmi_code (tbl_nmi t))"
  by (simp add: MakeEntryHdl_def mk_hdl_def of_nat_diff or.assoc del: push_bit_Suc)

lemma BREAK_RULE_HDL_MakeEntryHdl:
  assumes "table_entries t \<le> 4096" "expn_table_entries t \<le> 4096" "tbl_nmi t \<noteq> IPA_NAT_MEM_IN_MAX"
    "i < table_entries t + expn_table_entries t"
  shows "BREAK_RULE_HDL t (ucast (MakeEntryHdl t i)) = (tbl_nmi t, table_entries t \<le> i, i)"
proof -
  define j where "j = (if table_entries t \<le> i then i - table_entries t else i)"
  have j: "j < 4096" using assms by (auto simp: j_def)
  have c: "nmi_code (tbl_nmi t) < 2" using assms(3) by (cases "tbl_nmi t") simp_all
  have "unat (of_nat j :: u32) = j" using j by (simp add: unat_of_nat take_bit_nat_eq_self_iff)
  moreover have mem: "nmi_of_bit ((of_nat (nmi_code (tbl_nmi t)) :: u32) \<noteq> 0) = tbl_nmi t"
    using assms(3) by (cases "tbl_nmi t") (simp_all add: nmi_of_bit_def)
  ultimately show ?thesis
    unfolding BREAK_RULE_HDL_def Let_def MakeEntryHdl_mk_hdl j_def [symmetric]
      mk_hdl_mem [OF j c] mk_hdl_expn mk_hdl_index [OF j]
    using assms(1,2,4) by (auto simp: j_def)
qed

text \<open>A rule handle names its record.  On a table whose parts have at most 4096 records each, the
  handle of a record breaks up into the table's memory, the part the record is in and its index, and
  \<^verbatim>\<open>ipa_table_get_entry\<close> finds the record again.  The handle is the invalid handle 0 for record 0 of a
  DDR table only.\<close>

theorem rule_hdl_roundtrip:
  assumes "table_entries t \<le> 4096" "expn_table_entries t \<le> 4096" "tbl_nmi t \<noteq> IPA_NAT_MEM_IN_MAX"
    "tot_tbl_ents t = table_entries t + expn_table_entries t" "i < tot_tbl_ents t" "0 < table_entries t"
  shows "BREAK_RULE_HDL t (ucast (MakeEntryHdl t i)) = (tbl_nmi t, table_entries t \<le> i, i) \<and>
         ipa_table_get_entry t (ucast (MakeEntryHdl t i)) = (0, i) \<and>
         (VALID_RULE_HDL (ucast (MakeEntryHdl t i)) \<longleftrightarrow> i \<noteq> 0 \<or> tbl_nmi t = IPA_NAT_MEM_IN_SRAM)"
proof -
  let ?h = "ucast (MakeEntryHdl t i) :: u32"
  have brk: "BREAK_RULE_HDL t ?h = (tbl_nmi t, table_entries t \<le> i, i)"
    using assms by (intro BREAK_RULE_HDL_MakeEntryHdl) simp_all
  have get: "ipa_table_get_entry t ?h = (0, i)"
    using brk assms by (simp add: ipa_table_get_entry_def)
  have "i = 0 \<and> tbl_nmi t = IPA_NAT_MEM_IN_DDR" if "?h = 0"
    using brk unfolding that by (auto simp: BREAK_RULE_HDL_def nmi_of_bit_def Let_def)
  moreover have "i = 0 \<and> tbl_nmi t = IPA_NAT_MEM_IN_DDR \<Longrightarrow> ?h = 0"
    using assms by (simp add: MakeEntryHdl_def)
  ultimately have "VALID_RULE_HDL ?h \<longleftrightarrow> i \<noteq> 0 \<or> tbl_nmi t = IPA_NAT_MEM_IN_SRAM"
    using assms(3) unfolding VALID_RULE_HDL_def by (cases "tbl_nmi t"; cases "i = 0") auto
  with brk get show ?thesis by blast
qed

theorem rule_hdl_roundtrip_witness:
  "\<exists>t :: nat ipa_table. table_entries t = 1024 \<and> tbl_nmi t = IPA_NAT_MEM_IN_SRAM \<and>
     ipa_table_get_entry t (ucast (MakeEntryHdl t 1030)) = (0, 1030)"
proof -
  define t :: "nat ipa_table" where
    "t = (ipa_table_init ''t'' IPA_NAT_MEM_IN_SRAM 4 None 0)
           \<lparr>table_entries := 1024, expn_table_entries := 440, tot_tbl_ents := 1464\<rparr>"
  have "table_entries t \<le> 4096" "expn_table_entries t \<le> 4096" "tbl_nmi t \<noteq> IPA_NAT_MEM_IN_MAX"
    "tot_tbl_ents t = table_entries t + expn_table_entries t" "1030 < tot_tbl_ents t" "0 < table_entries t"
    by (simp_all add: t_def ipa_table_init_def)
  from rule_hdl_roundtrip [OF this] show ?thesis
    by (intro exI [of _ t]) (simp add: t_def ipa_table_init_def)
qed

end
