(* ===== verification/Ipa_Table_Inv.thy ===== *)
theory Ipa_Table_Inv
  imports Ipa_Dma Ipa_Chains Ipa_Table_Sizing
begin

text \<open>
  The invariant of a table and what the operations of \<^verbatim>\<open>ipa_table.c\<close> do on a table that satisfies it.
  The operations work on any record type whose callbacks keep the contract of the locale
  \<open>table_entry\<close>; the NAT rule, the NAT index entry and the IPv6 connection tracking entry are its
  interpretations.
\<close>

section \<open>The three views of a table\<close>

definition vdT :: "('e, 'u) ipa_table_entry_interface \<Rightarrow> 'e ipa_table \<Rightarrow> nat \<Rightarrow> bool" where
  "vdT ei t i \<longleftrightarrow> i < length (recs t) \<and> entry_is_valid ei (recs t ! i)"

definition nxT :: "('e, 'u) ipa_table_entry_interface \<Rightarrow> 'e ipa_table \<Rightarrow> nat \<Rightarrow> nat" where
  "nxT ei t i = entry_get_next_index ei (recs t ! i)"

definition pvT :: "('e, 'u) ipa_table_entry_interface \<Rightarrow> 'e ipa_table \<Rightarrow> nat \<Rightarrow> nat" where
  "pvT ei t i =
     (case entry_get_prev_index ei (recs t ! i) i (meta t) (table_entries t) of None \<Rightarrow> 0 | Some p \<Rightarrow> p)"

definition meta_fits :: "bool \<Rightarrow> u16 list option \<Rightarrow> nat \<Rightarrow> nat \<Rightarrow> bool" where
  "meta_fits um m te n \<longleftrightarrow>
     te \<le> n \<and> (case m of None \<Rightarrow> \<not> um | Some ms \<Rightarrow> um \<and> te + length ms = n)"

abbreviation n_recs :: "'e ipa_table \<Rightarrow> nat" where
  "n_recs t \<equiv> table_entries t + expn_table_entries t"

definition table_inv ::
  "('e, 'u) ipa_table_entry_interface \<Rightarrow> bool \<Rightarrow> ipa_table_dma_type \<Rightarrow> ipa_table_dma_type \<Rightarrow>
   (dma_help_type \<Rightarrow> nat) \<Rightarrow> 'e ipa_table \<Rightarrow> (nat \<Rightarrow> nat list) \<Rightarrow> bool" where
  "table_inv ei um bt xt off t ch \<longleftrightarrow>
     table_geom bt xt off t \<and>
     meta_fits um (meta t) (table_entries t) (n_recs t) \<and>
     chains_ok (table_entries t) (n_recs t) (vdT ei t) (nxT ei t) (pvT ei t) ch \<and>
     (\<forall>i < n_recs t. \<not> vdT ei t i \<longrightarrow> recs t ! i = entry_zero ei) \<and>
     cur_tbl_cnt t = of_nat (count_upto 0 (table_entries t) (vdT ei t)) \<and>
     cur_expn_tbl_cnt t = of_nat (count_upto (table_entries t) (n_recs t) (vdT ei t))"

lemma table_invD:
  assumes "table_inv ei um bt xt off t ch"
  shows inv_geom: "table_geom bt xt off t"
    and inv_meta: "meta_fits um (meta t) (table_entries t) (n_recs t)"
    and inv_chains: "chains_ok (table_entries t) (n_recs t) (vdT ei t) (nxT ei t) (pvT ei t) ch"
    and inv_zero: "i < n_recs t \<Longrightarrow> \<not> vdT ei t i \<Longrightarrow> recs t ! i = entry_zero ei"
    and inv_cnt: "cur_tbl_cnt t = of_nat (count_upto 0 (table_entries t) (vdT ei t))"
    and inv_xcnt: "cur_expn_tbl_cnt t = of_nat (count_upto (table_entries t) (n_recs t) (vdT ei t))"
  using assms by (auto simp: table_inv_def)

lemma put_rec_fields [simp]:
  "table_entries (put_rec t k e) = table_entries t" "expn_table_entries (put_rec t k e) = expn_table_entries t"
  "meta (put_rec t k e) = meta t" "recs (put_rec t k e) = (recs t)[k := e]"
  "cur_tbl_cnt (put_rec t k e) = cur_tbl_cnt t" "cur_expn_tbl_cnt (put_rec t k e) = cur_expn_tbl_cnt t"
  "tot_tbl_ents (put_rec t k e) = tot_tbl_ents t" "tbl_nmi (put_rec t k e) = tbl_nmi t"
  "dma_help (put_rec t k e) = dma_help t" "entry_size (put_rec t k e) = entry_size t"
  by (simp_all add: put_rec_def)

lemma put_rec_twice [simp]: "put_rec (put_rec t k a) k b = put_rec t k b"
  by (simp add: put_rec_def)

lemma vdT_put: "k < length (recs t) \<Longrightarrow> vdT ei (put_rec t k e) = (vdT ei t)(k := entry_is_valid ei e)"
  by (auto simp: vdT_def fun_eq_iff nth_list_update)

lemma nxT_put: "k < length (recs t) \<Longrightarrow> nxT ei (put_rec t k e) = (nxT ei t)(k := entry_get_next_index ei e)"
  by (auto simp: nxT_def fun_eq_iff nth_list_update)

lemma pvT_put:
  "k < length (recs t) \<Longrightarrow> pvT ei (put_rec t k e) =
     (pvT ei t)(k := case entry_get_prev_index ei e k (meta t) (table_entries t) of None \<Rightarrow> 0 | Some p \<Rightarrow> p)"
  by (auto simp: pvT_def fun_eq_iff nth_list_update)

lemma views_cnt [simp]:
  "vdT ei (t\<lparr>cur_tbl_cnt := c\<rparr>) = vdT ei t" "vdT ei (t\<lparr>cur_expn_tbl_cnt := c\<rparr>) = vdT ei t"
  "nxT ei (t\<lparr>cur_tbl_cnt := c\<rparr>) = nxT ei t" "nxT ei (t\<lparr>cur_expn_tbl_cnt := c\<rparr>) = nxT ei t"
  "pvT ei (t\<lparr>cur_tbl_cnt := c\<rparr>) = pvT ei t" "pvT ei (t\<lparr>cur_expn_tbl_cnt := c\<rparr>) = pvT ei t"
  "vdT ei (t\<lparr>meta := m\<rparr>) = vdT ei t" "nxT ei (t\<lparr>meta := m\<rparr>) = nxT ei t"
  by (simp_all add: vdT_def nxT_def pvT_def fun_eq_iff)

lemma rec_at_inv: "table_geom bt xt off t \<Longrightarrow> i < n_recs t \<Longrightarrow> rec_at t i = Some (recs t ! i)"
  by (simp add: rec_at_def geom_len)

section \<open>Walking and the end of a chain, on any table\<close>

text \<open>The reference walk: visit the listed records in order, stop at the first nonzero status.\<close>

fun visit :: "(nat \<Rightarrow> 's \<Rightarrow> (int \<times> 's) option) \<Rightarrow> nat list \<Rightarrow> 's \<Rightarrow> (int \<times> 's) option" where
  "visit f [] s = Some (0, s)"
| "visit f (i # is) s = do { (r, s') \<leftarrow> f i s; if r \<noteq> 0 then Some (r, s') else visit f is s' }"

definition walk_call ::
  "'e ipa_table \<Rightarrow> ('e, 's) ipa_table_walk_cb \<Rightarrow> nat \<Rightarrow> 's \<Rightarrow> (int \<times> 's) option" where
  "walk_call t cb i s =
     cb t (ucast (MakeEntryHdl t i)) (recs t ! i) i (fst (meta_record t i)) (snd (meta_record t i)) s"

lemma walk_loop_visit:
  assumes "length (recs t) = n" "n < 65536"
    and Q: "\<And>k. Q k \<longleftrightarrow> (if vdT ei t k then w = WHEN_SLOT_FILLED else w = WHEN_SLOT_EMPTY)"
  shows "i \<le> n \<Longrightarrow> walk_loop ei t n w cb i s = visit (walk_call t cb) (filter Q [i..<n]) s"
proof (induction "n - i" arbitrary: i s)
  case 0
  then show ?case by (simp add: walk_loop.simps)
next
  case (Suc d)
  then have i: "i < n" by simp
  have split: "[i..<n] = i # [Suc i..<n]" using i by (rule upt_conv_Cons)
  have v: "Q i \<longleftrightarrow> (if entry_is_valid ei (recs t ! i) then w = WHEN_SLOT_FILLED else w = WHEN_SLOT_EMPTY)"
    using i assms(1) Q [of i] by (simp add: vdT_def)
  have nxt: "(i + 1) mod 65536 = Suc i" using i assms by simp
  have IH: "walk_loop ei t n w cb (Suc i) s' = visit (walk_call t cb) (filter Q [Suc i..<n]) s'" for s'
    using Suc by simp
  have "walk_loop ei t n w cb i s =
      (if Q i then do { (ret, s') \<leftarrow> walk_call t cb i s;
                        if ret \<noteq> 0 then Some (ret, s') else walk_loop ei t n w cb ((i + 1) mod 65536) s' }
       else walk_loop ei t n w cb ((i + 1) mod 65536) s)"
    unfolding v using i assms(1)
    by (subst walk_loop.simps) (simp add: rec_at_def walk_call_def)
  then show ?case unfolding nxt IH split by simp
qed

lemma visit_mt_slot:
  "(\<And>k. k \<in> set ks \<Longrightarrow> 0 < k) \<Longrightarrow>
   visit (walk_call t mt_slot) ks () = Some (case ks of [] \<Rightarrow> 0 | k # _ \<Rightarrow> int k, ())"
  by (cases ks) (auto simp: walk_call_def mt_slot_def)

text \<open>The free expansion slot an insertion takes: the first one not in use.\<close>

definition free_slot :: "('e, 'u) ipa_table_entry_interface \<Rightarrow> 'e ipa_table \<Rightarrow> nat option" where
  "free_slot ei t = find (\<lambda>k. \<not> vdT ei t k) [table_entries t..<n_recs t]"

lemma free_slot_SomeD:
  "free_slot ei t = Some c \<Longrightarrow> table_entries t \<le> c \<and> c < n_recs t \<and> \<not> vdT ei t c"
  by (auto simp: free_slot_def find_Some_iff)

lemma free_slot_None: "free_slot ei t = None \<longleftrightarrow> (\<forall>k. table_entries t \<le> k \<and> k < n_recs t \<longrightarrow> vdT ei t k)"
  by (auto simp: free_slot_def find_None_iff)

lemma FindExpnTblFreeEntry_eq:
  assumes g: "table_geom bt xt off t"
  shows "FindExpnTblFreeEntry ei t =
           Some (case free_slot ei t of None \<Rightarrow> (- 1, None, 0) | Some c \<Rightarrow> (0, Some c, c))"
proof -
  let ?ks = "filter (\<lambda>k. \<not> vdT ei t k) [table_entries t..<n_recs t]"
  have "ipa_table_walk ei t (table_entries t) WHEN_SLOT_EMPTY mt_slot () =
          walk_loop ei t (n_recs t) WHEN_SLOT_EMPTY mt_slot (table_entries t) ()"
    using table_geomD [OF g] by (simp add: ipa_table_walk_def VALID_WHEN2CALLBACK_def)
  also have "\<dots> = visit (walk_call t mt_slot) ?ks ()"
    using table_geomD [OF g] by (intro walk_loop_visit) simp_all
  also have "\<dots> = Some (case ?ks of [] \<Rightarrow> 0 | k # _ \<Rightarrow> int k, ())"
    using table_geomD [OF g] by (intro visit_mt_slot) auto
  finally have w: "ipa_table_walk ei t (table_entries t) WHEN_SLOT_EMPTY mt_slot () =
      Some (case free_slot ei t of None \<Rightarrow> 0 | Some c \<Rightarrow> int c, ())"
    unfolding free_slot_def find_filter by (simp split: list.splits)
  show ?thesis
  proof (cases "free_slot ei t")
    case None
    then show ?thesis using w by (simp add: FindExpnTblFreeEntry_def)
  next
    case (Some c)
    then have "0 < c" "c mod 65536 = c"
      using free_slot_SomeD [OF Some] table_geomD [OF g] by simp_all
    then show ?thesis using w Some by (simp add: FindExpnTblFreeEntry_def)
  qed
qed

lemma iterator_end_loop_eq:
  assumes "table_geom bt xt off t"
  shows "links (nxT ei t) i js \<Longrightarrow> distinct (i # js) \<Longrightarrow> \<forall>k \<in> set (i # js). k < n_recs t \<Longrightarrow>
         iterator_end_loop ei t i = Some (True, last (i # js))"
proof (induction js arbitrary: i)
  case Nil
  then show ?case
    by (subst iterator_end_loop.simps)
       (simp add: rec_at_inv [OF assms] VALID_INDEX_def IPA_TABLE_INVALID_ENTRY_def nxT_def)
next
  case (Cons j js)
  have j: "entry_get_next_index ei (recs t ! i) = j" "j \<noteq> 0" "links (nxT ei t) j js" "j \<noteq> i"
    using Cons.prems(1,2) by (simp_all add: nxT_def [of ei t i, symmetric])
  have "iterator_end_loop ei t i = iterator_end_loop ei t j"
    using Cons.prems(3) j(1,2,4)
    by (subst iterator_end_loop.simps)
       (simp add: rec_at_inv [OF assms] VALID_INDEX_def IPA_TABLE_INVALID_ENTRY_def)
  also have "\<dots> = Some (True, last (j # js))"
    using Cons.prems by (intro Cons.IH [OF j(3)]) simp_all
  finally show ?case by simp
qed

definition end_iterator :: "nat \<Rightarrow> ipa_table_iterator" where
  "end_iterator p = zero_iterator\<lparr>it_prev_index := p, it_prev_entry := Some p\<rparr>"

lemma chain_in_range:
  assumes "table_inv ei um bt xt off t ch" "h < table_entries t" "k \<in> set (h # ch h)"
  shows "k < n_recs t"
  using assms chains_ok_mem [OF inv_chains [OF assms(1)], of k h] by auto

lemma iterator_end_inv:
  assumes inv: "table_inv ei um bt xt off t ch" and h: "h < table_entries t" "vdT ei t h"
  shows "ipa_table_iterator_end ei t h = Some (0, end_iterator (last (h # ch h)))"
proof -
  note ok = inv_chains [OF inv]
  have "iterator_end_loop ei t h = Some (True, last (h # ch h))"
    using iterator_end_loop_eq [OF inv_geom [OF inv] chains_ok_links [OF ok h] chains_ok_distinct_all [OF ok h(1)]]
      chain_in_range [OF inv h(1)] by simp
  then show ?thesis by (simp add: ipa_table_iterator_end_def end_iterator_def)
qed

lemma table_walk_visit:
  assumes "length (recs t) = n_recs t" "n_recs t < 65536"
  shows "ipa_table_walk ei t start w cb s =
           (if w = WHEN_SLOT_MAX \<or> n_recs t \<le> start then Some (- EINVAL, s)
            else visit (walk_call t cb) (filter (\<lambda>k. vdT ei t k = (w = WHEN_SLOT_FILLED)) [start..<n_recs t]) s)"
proof -
  have "(vdT ei t k = (w = WHEN_SLOT_FILLED)) \<longleftrightarrow>
        (if vdT ei t k then w = WHEN_SLOT_FILLED else w = WHEN_SLOT_EMPTY)" if "w \<noteq> WHEN_SLOT_MAX" for k
    using that by (cases w) auto
  then have "walk_loop ei t (n_recs t) w cb start s =
      visit (walk_call t cb) (filter (\<lambda>k. vdT ei t k = (w = WHEN_SLOT_FILLED)) [start..<n_recs t]) s"
    if "w \<noteq> WHEN_SLOT_MAX" "start < n_recs t"
    using that assms by (intro walk_loop_visit) simp_all
  then show ?thesis
    by (simp add: ipa_table_walk_def VALID_WHEN2CALLBACK_def Let_def)
qed

text \<open>C35: \<^verbatim>\<open>ipa_table_walk\<close> refines the reference walk: on a table whose record array has the declared
  length it calls back exactly the filled (or the empty) records from \<^verbatim>\<open>start_index\<close> on, once each, in
  index order, each with its own handle and meta record, and stops at the first nonzero status; bad
  arguments give \<^verbatim>\<open>-EINVAL\<close> and no call.\<close>

theorem table_walk_refines_visit:
  assumes "length (recs t) = n_recs t" "n_recs t < 65536"
  shows "ipa_table_walk ei t start w cb s =
           (if w = WHEN_SLOT_MAX \<or> n_recs t \<le> start then Some (- EINVAL, s)
            else visit (walk_call t cb) (filter (\<lambda>k. vdT ei t k = (w = WHEN_SLOT_FILLED)) [start..<n_recs t]) s)"
  by (rule table_walk_visit [OF assms])

theorem table_walk_refines_visit_witness:
  "\<exists>t :: nat ipa_table. length (recs t) = n_recs t \<and> n_recs t < 65536 \<and>
     ipa_table_walk \<lparr>entry_zero = 0, entry_is_valid = (\<lambda>e. e \<noteq> 0), entry_get_next_index = (\<lambda>e. 0),
        entry_get_prev_index = (\<lambda>e i m b. Some 0), entry_set_prev_index = (\<lambda>e i p m b. Some (e, m)),
        entry_head_insert = (\<lambda>e u. Some (0, e, 0)), entry_tail_insert = (\<lambda>e u. Some (0, e)),
        entry_get_delete_head_dma_command_data = (\<lambda>a b. 0)\<rparr>
       t 0 WHEN_SLOT_FILLED (\<lambda>t h e i m mi s. Some (0, s @ [i])) [] = Some (0, [1, 3])"
proof -
  define t :: "nat ipa_table" where
    "t = (ipa_table_init ''t'' IPA_NAT_MEM_IN_DDR 4 None 0)
           \<lparr>table_entries := 2, expn_table_entries := 2, tot_tbl_ents := 4, recs := [0, 5, 0, 7]\<rparr>"
  have "length (recs t) = n_recs t" "n_recs t < 65536" by (simp_all add: t_def)
  note w = table_walk_refines_visit [OF this]
  show ?thesis
    by (rule exI [of _ t], unfold w) (simp add: t_def vdT_def walk_call_def upt_rec)
qed

end
