(* ===== verification/Ipa_Table_Ops.thy ===== *)
theory Ipa_Table_Ops
  imports Ipa_Table_Inv
begin

text \<open>
  Insertion and deletion keep the table invariant.  First the four ways the invariant moves, stated
  on the views of the table; then the contract the record callbacks promise (locale
  \<open>table_entry\<close>) and, from it, what \<^verbatim>\<open>ipa_table_add_entry\<close>, \<^verbatim>\<open>ipa_table_iterator_init\<close>,
  \<^verbatim>\<open>ipa_table_create_delete_command\<close> and \<^verbatim>\<open>ipa_table_delete_entry\<close> do, once the device has executed the
  queued commands.
\<close>

section \<open>How the invariant moves\<close>

lemma table_invI:
  assumes inv: "table_inv ei um bt xt off t ch" and sh: "same_shape t t'"
    and "meta_fits um (meta t') (table_entries t) (n_recs t)"
    and "chains_ok (table_entries t) (n_recs t) (vdT ei t') (nxT ei t') (pvT ei t') ch'"
    and "\<And>i. i < n_recs t \<Longrightarrow> \<not> vdT ei t' i \<Longrightarrow> recs t' ! i = entry_zero ei"
    and "cur_tbl_cnt t' = of_nat (count_upto 0 (table_entries t) (vdT ei t'))"
    and "cur_expn_tbl_cnt t' = of_nat (count_upto (table_entries t) (n_recs t) (vdT ei t'))"
  shows "table_inv ei um bt xt off t' ch'"
  using assms same_shape_geom [OF sh] same_shape_fields [OF sh] by (simp add: table_inv_def)

lemma inv_same_views:
  assumes inv: "table_inv ei um bt xt off t ch" and sh: "same_shape t t'"
    and "vdT ei t' = vdT ei t" "nxT ei t' = nxT ei t" "pvT ei t' = pvT ei t"
    and "meta_fits um (meta t') (table_entries t) (n_recs t)"
    and "\<And>i. i < n_recs t \<Longrightarrow> \<not> vdT ei t i \<Longrightarrow> recs t' ! i = recs t ! i"
    and "cur_tbl_cnt t' = cur_tbl_cnt t" "cur_expn_tbl_cnt t' = cur_expn_tbl_cnt t"
  shows "table_inv ei um bt xt off t' ch"
  by (rule table_invI [OF inv sh assms(6)])
     (use assms inv_chains [OF inv] inv_zero [OF inv] inv_cnt [OF inv] inv_xcnt [OF inv] in simp_all)

lemma inv_insert_head:
  assumes inv: "table_inv ei um bt xt off t ch" and sh: "same_shape t t'"
    and h: "0 < h" "h < table_entries t" "\<not> vdT ei t h"
    and m: "meta_fits um (meta t') (table_entries t) (n_recs t)"
    and vd: "vdT ei t' = (vdT ei t)(h := True)"
    and nx: "nxT ei t' = nxT ei t" "nxT ei t h = 0" and pv: "pvT ei t' = pvT ei t" "pvT ei t h = 0"
    and rs: "\<And>i. i < n_recs t \<Longrightarrow> i \<noteq> h \<Longrightarrow> \<not> vdT ei t i \<Longrightarrow> recs t' ! i = recs t ! i"
    and cnt: "cur_tbl_cnt t' = cur_tbl_cnt t + 1" "cur_expn_tbl_cnt t' = cur_expn_tbl_cnt t"
  shows "table_inv ei um bt xt off t' ch"
proof (rule table_invI [OF inv sh m])
  show "chains_ok (table_entries t) (n_recs t) (vdT ei t') (nxT ei t') (pvT ei t') ch"
    unfolding vd nx(1) pv(1) by (rule chains_ok_insert_head [OF inv_chains [OF inv] h nx(2) pv(2)])
  show "recs t' ! i = entry_zero ei" if "i < n_recs t" "\<not> vdT ei t' i" for i
    using that rs [of i] inv_zero [OF inv, of i] vd by (auto split: if_splits)
  show "cur_tbl_cnt t' = of_nat (count_upto 0 (table_entries t) (vdT ei t'))"
    using h cnt inv_cnt [OF inv] by (simp add: vd count_upto_upd(1) add.commute)
  show "cur_expn_tbl_cnt t' = of_nat (count_upto (table_entries t) (n_recs t) (vdT ei t'))"
    using h cnt inv_xcnt [OF inv] by (simp add: vd count_upto_upd(3))
qed

lemma inv_insert_tail:
  assumes inv: "table_inv ei um bt xt off t ch" and sh: "same_shape t t'"
    and h: "h < table_entries t" "vdT ei t h"
    and c: "table_entries t \<le> c" "c < n_recs t" "\<not> vdT ei t c"
    and m: "meta_fits um (meta t') (table_entries t) (n_recs t)"
    and vd: "vdT ei t' = (vdT ei t)(c := True)"
    and nx: "nxT ei t' (last (h # ch h)) = c" "nxT ei t' c = 0"
      "\<And>k. k \<noteq> c \<Longrightarrow> k \<noteq> last (h # ch h) \<Longrightarrow> nxT ei t' k = nxT ei t k"
    and pv: "pvT ei t' c = last (h # ch h)" "\<And>k. k \<noteq> c \<Longrightarrow> pvT ei t' k = pvT ei t k"
    and rs: "\<And>i. i < n_recs t \<Longrightarrow> i \<noteq> c \<Longrightarrow> \<not> vdT ei t i \<Longrightarrow> recs t' ! i = recs t ! i"
    and cnt: "cur_tbl_cnt t' = cur_tbl_cnt t" "cur_expn_tbl_cnt t' = cur_expn_tbl_cnt t + 1"
  shows "table_inv ei um bt xt off t' (ch(h := ch h @ [c]))"
proof (rule table_invI [OF inv sh m])
  show "chains_ok (table_entries t) (n_recs t) (vdT ei t') (nxT ei t') (pvT ei t') (ch(h := ch h @ [c]))"
    unfolding vd by (rule chains_ok_insert_tail [OF inv_chains [OF inv] h c nx pv])
  show "recs t' ! i = entry_zero ei" if "i < n_recs t" "\<not> vdT ei t' i" for i
    using that rs [of i] inv_zero [OF inv, of i] vd by (auto split: if_splits)
  show "cur_tbl_cnt t' = of_nat (count_upto 0 (table_entries t) (vdT ei t'))"
    using c cnt inv_cnt [OF inv] by (simp add: vd count_upto_upd(3))
  show "cur_expn_tbl_cnt t' = of_nat (count_upto (table_entries t) (n_recs t) (vdT ei t'))"
    using c cnt inv_xcnt [OF inv] by (simp add: vd count_upto_upd(1) add.commute)
qed

lemma word_pred_of_Suc: "Suc n = m \<Longrightarrow> (of_nat m :: u16) - 1 = of_nat n"
  by auto

lemma inv_delete_head:
  assumes inv: "table_inv ei um bt xt off t ch" and sh: "same_shape t t'"
    and h: "h < table_entries t" "vdT ei t h" "ch h = []"
    and m: "meta_fits um (meta t') (table_entries t) (n_recs t)"
    and vd: "vdT ei t' = (vdT ei t)(h := False)"
    and nx: "\<And>k. k \<noteq> h \<Longrightarrow> nxT ei t' k = nxT ei t k"
    and pv: "\<And>k. k \<noteq> h \<Longrightarrow> pvT ei t' k = pvT ei t k"
    and rs: "recs t' ! h = entry_zero ei"
      "\<And>i. i < n_recs t \<Longrightarrow> i \<noteq> h \<Longrightarrow> \<not> vdT ei t i \<Longrightarrow> recs t' ! i = recs t ! i"
    and cnt: "cur_tbl_cnt t' = cur_tbl_cnt t - 1" "cur_expn_tbl_cnt t' = cur_expn_tbl_cnt t"
  shows "table_inv ei um bt xt off t' ch"
proof (rule table_invI [OF inv sh m])
  show "chains_ok (table_entries t) (n_recs t) (vdT ei t') (nxT ei t') (pvT ei t') ch"
    unfolding vd by (rule chains_ok_delete_head [OF inv_chains [OF inv] h nx pv])
  show "recs t' ! i = entry_zero ei" if "i < n_recs t" "\<not> vdT ei t' i" for i
    using that rs(1) rs(2) [of i] inv_zero [OF inv, of i] vd by (cases "i = h") auto
  have "Suc (count_upto 0 (table_entries t) (vdT ei t')) = count_upto 0 (table_entries t) (vdT ei t)"
    unfolding vd using h by (intro count_upto_upd(2)) simp_all
  then show "cur_tbl_cnt t' = of_nat (count_upto 0 (table_entries t) (vdT ei t'))"
    using cnt inv_cnt [OF inv] word_pred_of_Suc by simp
  show "cur_expn_tbl_cnt t' = of_nat (count_upto (table_entries t) (n_recs t) (vdT ei t'))"
    using h cnt inv_xcnt [OF inv] by (simp add: vd count_upto_upd(3))
qed

lemma inv_delete_tail:
  assumes inv: "table_inv ei um bt xt off t ch" and sh: "same_shape t t'"
    and h: "ch h = xs @ y # ys"
    and m: "meta_fits um (meta t') (table_entries t) (n_recs t)"
    and vd: "vdT ei t' = (vdT ei t)(y := False)"
    and nx: "nxT ei t' (last (h # xs)) = nxT ei t y"
      "\<And>k. k \<noteq> y \<Longrightarrow> k \<noteq> last (h # xs) \<Longrightarrow> nxT ei t' k = nxT ei t k"
    and pv: "\<And>k. k \<noteq> y \<Longrightarrow> pvT ei t' k = (if ys \<noteq> [] \<and> k = hd ys then last (h # xs) else pvT ei t k)"
    and rs: "recs t' ! y = entry_zero ei"
      "\<And>i. i < n_recs t \<Longrightarrow> i \<noteq> y \<Longrightarrow> \<not> vdT ei t i \<Longrightarrow> recs t' ! i = recs t ! i"
    and cnt: "cur_tbl_cnt t' = cur_tbl_cnt t" "cur_expn_tbl_cnt t' = cur_expn_tbl_cnt t - 1"
  shows "table_inv ei um bt xt off t' (ch(h := xs @ ys))"
proof (rule table_invI [OF inv sh m])
  have y: "table_entries t \<le> y" "y < n_recs t" "vdT ei t y"
    using chains_ok_mem [OF inv_chains [OF inv], of y h] h by simp_all
  show "chains_ok (table_entries t) (n_recs t) (vdT ei t') (nxT ei t') (pvT ei t') (ch(h := xs @ ys))"
    unfolding vd by (rule chains_ok_delete_tail [OF inv_chains [OF inv] h nx pv])
  show "recs t' ! i = entry_zero ei" if "i < n_recs t" "\<not> vdT ei t' i" for i
    using that rs(1) rs(2) [of i] inv_zero [OF inv, of i] vd by (cases "i = y") auto
  have "Suc (count_upto (table_entries t) (n_recs t) (vdT ei t')) = count_upto (table_entries t) (n_recs t) (vdT ei t)"
    unfolding vd using y by (intro count_upto_upd(2)) simp_all
  then show "cur_expn_tbl_cnt t' = of_nat (count_upto (table_entries t) (n_recs t) (vdT ei t'))"
    using cnt inv_xcnt [OF inv] word_pred_of_Suc by simp
  show "cur_tbl_cnt t' = of_nat (count_upto 0 (table_entries t) (vdT ei t'))"
    using y cnt inv_cnt [OF inv] by (simp add: vd count_upto_upd(3))
qed

section \<open>Positions in a chain\<close>

definition hd0 :: "nat list \<Rightarrow> nat" where
  "hd0 ys = (case ys of [] \<Rightarrow> 0 | y # _ \<Rightarrow> y)"

text \<open>The iterator at record \<open>i\<close> of the chain \<open>xs @ i # ys\<close>.\<close>

definition pos_it :: "nat list \<Rightarrow> nat \<Rightarrow> nat list \<Rightarrow> ipa_table_iterator" where
  "pos_it xs i ys =
     \<lparr>it_prev_index = (if xs = [] then 0 else last xs), it_prev_entry = (if xs = [] then None else Some (last xs)),
      it_curr_index = i, it_curr_entry = Some i,
      it_next_index = hd0 ys, it_next_entry = (if ys = [] then None else Some (hd ys))\<rparr>"

lemma valid_position:
  assumes inv: "table_inv ei um bt xt off t ch" and "vdT ei t i"
  shows "\<exists>h xs ys. h < table_entries t \<and> vdT ei t h \<and> h # ch h = xs @ i # ys"
proof -
  have n: "i < n_recs t" using assms(2) geom_len [OF inv_geom [OF inv]] by (simp add: vdT_def)
  show ?thesis
  proof (cases "i < table_entries t")
    case True
    then show ?thesis using assms(2) by (intro exI [of _ i] exI [of _ "[]"] exI [of _ "ch i"]) simp
  next
    case False
    then obtain h where h: "h < table_entries t" "vdT ei t h" "i \<in> set (ch h)"
      using chains_ok_cover [OF inv_chains [OF inv], of i] n assms(2) by auto
    then obtain xs ys where "ch h = xs @ i # ys" by (auto dest: split_list)
    then show ?thesis using h by (intro exI [of _ h] exI [of _ "h # xs"] exI [of _ ys]) simp
  qed
qed

lemma position_views:
  assumes inv: "table_inv ei um bt xt off t ch" and h: "h < table_entries t" "vdT ei t h"
    and pos: "h # ch h = xs @ i # ys"
  shows "nxT ei t i = hd0 ys" "pvT ei t i = (if xs = [] then 0 else last xs)" "\<And>k. k \<in> set (xs @ i # ys) \<Longrightarrow> k \<noteq> 0"
    "\<And>k. k \<in> set (xs @ i # ys) \<Longrightarrow> vdT ei t k \<and> k < n_recs t" "distinct (xs @ i # ys)"
proof -
  note ok = inv_chains [OF inv]
  note l = chains_ok_links [OF ok h] and b = chains_ok_backs [OF ok h]
  have "h \<noteq> 0" using chains_ok_0 [OF ok] h(2) by metis
  then have "0 \<notin> set (h # ch h)" using links_nonzero [OF l] by simp
  then show "k \<noteq> 0" if "k \<in> set (xs @ i # ys)" for k using that unfolding pos by metis
  show "vdT ei t k \<and> k < n_recs t" if "k \<in> set (xs @ i # ys)" for k
    using that chains_ok_mem [OF ok, of k h] h pos [symmetric] by auto
  show "distinct (xs @ i # ys)" using chains_ok_distinct_all [OF ok h(1)] pos by simp
  show "nxT ei t i = hd0 ys"
  proof (cases xs)
    case Nil
    then show ?thesis using l pos by (cases ys) (auto simp: hd0_def)
  next
    case (Cons x xs')
    with pos have "ch h = xs' @ i # ys" by (metis append_Cons list.inject)
    then have "links (nxT ei t) h (xs' @ i # ys)" using l by simp
    then have "links (nxT ei t) i ys" using links_succ by blast
    then show ?thesis by (cases ys) (auto simp: hd0_def)
  qed
  show "pvT ei t i = (if xs = [] then 0 else last xs)"
  proof (cases xs)
    case Nil
    then show ?thesis using chains_ok_head [OF ok h] pos by simp
  next
    case (Cons x xs')
    with pos have "h = x" "ch h = xs' @ i # ys" by (metis append_Cons list.inject)+
    then have "backs (pvT ei t) x (xs' @ i # ys)" using b by simp
    then show ?thesis using backs_pred [of "pvT ei t" x xs' i ys] Cons by simp
  qed
qed

text \<open>The chains after record \<open>i\<close> was inserted at base record \<open>h\<close>.\<close>

definition grown ::
  "('e, 'u) ipa_table_entry_interface \<Rightarrow> 'e ipa_table \<Rightarrow> (nat \<Rightarrow> nat list) \<Rightarrow> nat \<Rightarrow> nat \<Rightarrow> nat \<Rightarrow> nat list" where
  "grown ei t ch h i = (if vdT ei t h then ch(h := ch h @ [i]) else ch)"

section \<open>The contract of the record callbacks\<close>

text \<open>
  \<open>put\<close> is the device's write of a halfword into a record, \<open>off\<close> the byte offset of the field each
  DMA helper writes, \<open>um\<close> says that \<^verbatim>\<open>prev_index\<close> lives in the meta array, \<open>good\<close> is what the
  user data must satisfy.
\<close>

locale table_entry =
  fixes ei :: "('e, 'u) ipa_table_entry_interface"
    and put :: "nat \<Rightarrow> u16 \<Rightarrow> 'e \<Rightarrow> 'e"
    and off :: "dma_help_type \<Rightarrow> nat"
    and um :: bool
    and good :: "'u \<Rightarrow> bool"
    and bt :: ipa_table_dma_type
    and xt :: ipa_table_dma_type
  assumes types: "bt \<noteq> xt"
    and zero_invalid: "\<not> entry_is_valid ei (entry_zero ei)"
    and zero_next: "entry_get_next_index ei (entry_zero ei) = 0"
    and zero_prev: "meta_fits um m te n \<Longrightarrow> i < te \<Longrightarrow> entry_get_prev_index ei (entry_zero ei) i m te = Some 0"
    and prev_total: "meta_fits um m te n \<Longrightarrow> i < n \<Longrightarrow> \<exists>p. entry_get_prev_index ei e i m te = Some p"
    and put_entry_next: "entry_get_next_index ei (put (off HELP_UPDATE_ENTRY) v e) = unat v"
    and put_entry_valid: "entry_is_valid ei (put (off HELP_UPDATE_ENTRY) v e) = entry_is_valid ei e"
    and put_head_next: "entry_get_next_index ei (put (off HELP_UPDATE_HEAD) v e) = entry_get_next_index ei e"
    and put_head_valid: "entry_is_valid ei (put (off HELP_UPDATE_HEAD) v e) =
                         entry_is_valid ei (put (off HELP_UPDATE_HEAD) v e')"
    and put_head_zero: "\<not> entry_is_valid ei (put (off HELP_UPDATE_HEAD) 0 e)"
    and put_delete_next: "entry_get_next_index ei (put (off HELP_DELETE_HEAD) v e) = entry_get_next_index ei e"
    and put_delete_valid: "entry_is_valid ei e \<Longrightarrow> entry_is_valid ei e' \<Longrightarrow>
          entry_is_valid ei (put (off HELP_DELETE_HEAD) (entry_get_delete_head_dma_command_data ei e e') e)"
    and put_prev: "VALID_DMA_HELP_TYPE k \<Longrightarrow>
          entry_get_prev_index ei (put (off k) v e) i m te = entry_get_prev_index ei e i m te"
    and head_insert: "good u \<Longrightarrow> \<exists>e' v. entry_head_insert ei e u = Some (0, e', v) \<and>
          entry_get_next_index ei e' = entry_get_next_index ei e \<and>
          (\<forall>i m te. entry_get_prev_index ei e' i m te = entry_get_prev_index ei e i m te) \<and>
          entry_is_valid ei (put (off HELP_UPDATE_HEAD) v e')"
    and tail_insert: "good u \<Longrightarrow> um \<Longrightarrow> \<exists>e'. entry_tail_insert ei e u = Some (0, e') \<and>
          entry_get_next_index ei e' = entry_get_next_index ei e \<and> entry_is_valid ei e'"
    and set_prev: "meta_fits um m te n \<Longrightarrow> te \<le> i \<Longrightarrow> i < n \<Longrightarrow> p < 65536 \<Longrightarrow>
          \<exists>e' m'. entry_set_prev_index ei e i p m te = Some (e', m') \<and> meta_fits um m' te n \<and>
            entry_is_valid ei e' = entry_is_valid ei e \<and>
            entry_get_next_index ei e' = entry_get_next_index ei e \<and>
            entry_get_prev_index ei e' i m' te = Some p \<and>
            (\<forall>e2 j. j \<noteq> i \<longrightarrow> entry_get_prev_index ei e2 j m' te = entry_get_prev_index ei e2 j m te)"
begin

abbreviation inv :: "'e ipa_table \<Rightarrow> (nat \<Rightarrow> nat list) \<Rightarrow> bool" where
  "inv t ch \<equiv> table_inv ei um bt xt off t ch"

text \<open>What \<^verbatim>\<open>ipa_table_add_entry\<close> leaves before the device has run: the new record \<open>e1\<close> in slot \<open>i\<close>
  and the commands \<open>ds\<close>.\<close>

definition add_shape ::
  "'e ipa_table \<Rightarrow> (nat \<Rightarrow> nat list) \<Rightarrow> nat \<Rightarrow> nat \<Rightarrow> 'e \<Rightarrow> u16 \<Rightarrow> 'e ipa_table \<Rightarrow> ipa_ioc_nat_dma_one list \<Rightarrow> bool" where
  "add_shape t ch h i e1 v t1 ds \<longleftrightarrow>
     i \<noteq> 0 \<and> i < n_recs t \<and> \<not> vdT ei t i \<and> entry_get_next_index ei e1 = 0 \<and>
     entry_is_valid ei (put (off HELP_UPDATE_HEAD) v e1) \<and>
     (if vdT ei t h then
        free_slot ei t = Some i \<and> (um \<longrightarrow> entry_is_valid ei e1) \<and>
        (\<exists>m'. t1 = (put_rec t i e1)\<lparr>meta := m', cur_expn_tbl_cnt := cur_expn_tbl_cnt t + 1\<rparr> \<and>
           meta_fits um m' (table_entries t) (n_recs t) \<and>
           entry_get_prev_index ei e1 i m' (table_entries t) = Some (last (h # ch h)) \<and>
           (\<forall>e2 j. j \<noteq> i \<longrightarrow> entry_get_prev_index ei e2 j m' (table_entries t) =
                              entry_get_prev_index ei e2 j (meta t) (table_entries t))) \<and>
        ds = (if um then [] else [cmd_one t HELP_UPDATE_HEAD i v]) @
             [cmd_one t HELP_UPDATE_ENTRY (last (h # ch h)) (of_nat i)]
      else
        i = h \<and> t1 = (put_rec t h e1)\<lparr>cur_tbl_cnt := cur_tbl_cnt t + 1\<rparr> \<and>
        entry_get_prev_index ei e1 h (meta t) (table_entries t) = Some 0 \<and>
        ds = [cmd_one t HELP_UPDATE_HEAD h v])"

lemma add_entry_head:
  assumes inv: "inv t ch" and h: "0 < h" "h < table_entries t" "\<not> vdT ei t h" and u: "good u"
  shows "\<exists>e1 v. entry_head_insert ei (entry_zero ei) u = Some (0, e1, v) \<and>
     ipa_table_add_entry ei t u h cmd =
       Some (0, (put_rec t h e1)\<lparr>cur_tbl_cnt := cur_tbl_cnt t + 1\<rparr>, h, ucast (MakeEntryHdl t h),
             cmd\<lparr>cmd_dma := cmd_dma cmd @ [cmd_one t HELP_UPDATE_HEAD h v]\<rparr>) \<and>
     add_shape t ch h h e1 v ((put_rec t h e1)\<lparr>cur_tbl_cnt := cur_tbl_cnt t + 1\<rparr>) [cmd_one t HELP_UPDATE_HEAD h v]"
proof -
  note g = inv_geom [OF inv]
  have n: "h < n_recs t" using h by simp
  have z: "recs t ! h = entry_zero ei" using inv_zero [OF inv n h(3)] .
  obtain e1 v where hi: "entry_head_insert ei (entry_zero ei) u = Some (0, e1, v) \<and>
      entry_get_next_index ei e1 = entry_get_next_index ei (entry_zero ei) \<and>
      (\<forall>i m te. entry_get_prev_index ei e1 i m te = entry_get_prev_index ei (entry_zero ei) i m te) \<and>
      entry_is_valid ei (put (off HELP_UPDATE_HEAD) v e1)"
    using head_insert [OF u, of "entry_zero ei"] by (elim exE)
  have "ipa_table_add_dma_cmd (put_rec t h e1) HELP_UPDATE_HEAD (Some h) h v cmd =
          Some (0, cmd\<lparr>cmd_dma := cmd_dma cmd @ [cmd_one (put_rec t h e1) HELP_UPDATE_HEAD h v]\<rparr>)"
    using g n same_shape_geom [of t "put_rec t h e1" bt xt off]
    by (intro add_dma_cmd_eq [of bt xt off]) (simp_all add: VALID_DMA_HELP_TYPE_def)
  then have "ipa_table_add_entry ei t u h cmd =
       Some (0, (put_rec t h e1)\<lparr>cur_tbl_cnt := cur_tbl_cnt t + 1\<rparr>, h, ucast (MakeEntryHdl t h),
             cmd\<lparr>cmd_dma := cmd_dma cmd @ [cmd_one t HELP_UPDATE_HEAD h v]\<rparr>)"
    using n z hi [THEN conjunct1] zero_invalid same_shape_cmd_one [of t "put_rec t h e1"]
      same_shape_MakeEntryHdl [of t "(put_rec t h e1)\<lparr>cur_tbl_cnt := cur_tbl_cnt t + 1\<rparr>"]
    by (simp add: ipa_table_add_entry_def InsertHead_def rec_at_inv [OF g])
  then show ?thesis
    using hi h n zero_next zero_prev [OF inv_meta [OF inv] h(2)]
    by (intro exI [of _ e1] exI [of _ v]) (simp add: add_shape_def)
qed

lemma add_entry_full:
  assumes inv: "inv t ch" and h: "h < table_entries t" "vdT ei t h" and full: "free_slot ei t = None"
  shows "ipa_table_add_entry ei t u h cmd = Some (- 1, t, h, 0, cmd)"
  using h iterator_end_inv [OF inv h] FindExpnTblFreeEntry_eq [OF inv_geom [OF inv], of ei] full
  by (simp add: ipa_table_add_entry_def InsertTail_def rec_at_inv [OF inv_geom [OF inv]] vdT_def)

lemma add_entry_tail:
  assumes inv: "inv t ch" and h: "h < table_entries t" "vdT ei t h" and u: "good u"
    and free: "free_slot ei t = Some c"
  shows "\<exists>e0 e1 v t1 ds. (if um then entry_tail_insert ei (entry_zero ei) u = Some (0, e0)
                          else entry_head_insert ei (entry_zero ei) u = Some (0, e0, v)) \<and>
     entry_set_prev_index ei e0 c (last (h # ch h)) (meta t) (table_entries t) = Some (e1, meta t1) \<and>
     ipa_table_add_entry ei t u h cmd =
       Some (0, t1, c, ucast (MakeEntryHdl t c), cmd\<lparr>cmd_dma := cmd_dma cmd @ ds\<rparr>) \<and>
     add_shape t ch h c e1 v t1 ds"
proof -
  note g = inv_geom [OF inv]
  let ?te = "table_entries t" and ?l = "last (h # ch h)"
  have c: "?te \<le> c" "c < n_recs t" "\<not> vdT ei t c" using free_slot_SomeD [OF free] by auto
  have z: "recs t ! c = entry_zero ei" using inv_zero [OF inv c(2,3)] .
  have l: "?l < n_recs t" using chain_in_range [OF inv h(1), of ?l] last_in_set [of "h # ch h"] by blast
  then have l16: "?l < 65536" using table_geomD [OF g] by linarith
  have c16: "unat (of_nat c :: u16) = c" using c(2) table_geomD [OF g] by (intro unat_of_nat_u16) linarith
  obtain e' vh where hi: "entry_head_insert ei (entry_zero ei) u = Some (0, e', vh)"
      "entry_get_next_index ei e' = entry_get_next_index ei (entry_zero ei)"
      "entry_is_valid ei (put (off HELP_UPDATE_HEAD) vh e')"
    using head_insert [OF u, of "entry_zero ei"] by blast
  obtain e0 where e0: "if um then entry_tail_insert ei (entry_zero ei) u = Some (0, e0) \<and> entry_is_valid ei e0
                        else e0 = e'"
      "entry_get_next_index ei e0 = 0"
    using tail_insert [OF u, of "entry_zero ei"] hi(2) zero_next by (cases um) fastforce+
  obtain e1 m' where sp: "entry_set_prev_index ei e0 c ?l (meta t) ?te = Some (e1, m')"
      "meta_fits um m' ?te (n_recs t)" "entry_is_valid ei e1 = entry_is_valid ei e0"
      "entry_get_next_index ei e1 = entry_get_next_index ei e0" "entry_get_prev_index ei e1 c m' ?te = Some ?l"
      "\<forall>e2 j. j \<noteq> c \<longrightarrow> entry_get_prev_index ei e2 j m' ?te = entry_get_prev_index ei e2 j (meta t) ?te"
    using set_prev [OF inv_meta [OF inv] c(1,2) l16, of e0] by blast
  define t0 where "t0 = (put_rec t c e1)\<lparr>meta := m'\<rparr>"
  define t1 where "t1 = t0\<lparr>cur_expn_tbl_cnt := cur_expn_tbl_cnt t + 1\<rparr>"
  define ds where "ds = (if um then [] else [cmd_one t HELP_UPDATE_HEAD c vh]) @ [cmd_one t HELP_UPDATE_ENTRY ?l (of_nat c)]"
  have sh: "same_shape t t0" "same_shape t t1" by (simp_all add: t0_def t1_def)
  have g0: "table_geom bt xt off t0" "n_recs t0 = n_recs t"
    using g same_shape_geom [OF sh(1)] same_shape_fields [OF sh(1)] by simp_all
  have dma: "ipa_table_add_dma_cmd t0 k (Some i) i w cm = Some (0, cm\<lparr>cmd_dma := cmd_dma cm @ [cmd_one t k i w]\<rparr>)"
    if "i < n_recs t" "VALID_DMA_HELP_TYPE k" for i k w cm
    using add_dma_cmd_eq [OF g0(1)] g0(2) that same_shape_cmd_one [OF sh(1)] by simp
  have um: "meta t \<noteq> None \<longleftrightarrow> um" using inv_meta [OF inv] by (auto simp: meta_fits_def split: option.splits)
  have "InsertTail ei t h u cmd = Some (0, t1, c, cmd\<lparr>cmd_dma := cmd_dma cmd @ ds\<rparr>)"
    unfolding InsertTail_def iterator_end_inv [OF inv h] FindExpnTblFreeEntry_eq [OF g] free um
    using c(2) l z e0(1) hi(1) sp(1)
    by (cases um) (simp_all add: rec_at_inv [OF g] end_iterator_def dma VALID_DMA_HELP_TYPE_def ds_def
          flip: t0_def t1_def)
  then have "ipa_table_add_entry ei t u h cmd =
       Some (0, t1, c, ucast (MakeEntryHdl t c), cmd\<lparr>cmd_dma := cmd_dma cmd @ ds\<rparr>)"
    using h same_shape_MakeEntryHdl [OF sh(2)]
    by (simp add: ipa_table_add_entry_def rec_at_inv [OF g] vdT_def)
  moreover have "add_shape t ch h c e1 vh t1 ds"
    using c sp e0 free h hi(3) put_head_valid [of vh e' e1]
    by (auto simp: add_shape_def ds_def t1_def t0_def)
  moreover have "meta t1 = m'" by (simp add: t1_def t0_def)
  ultimately show ?thesis using sp(1) e0(1) hi(1)
    by (intro exI [of _ e0] exI [of _ e1] exI [of _ vh] exI [of _ t1] exI [of _ ds]) (auto split: if_splits)
qed

lemma dma_write_shape:
  assumes "table_geom bt xt off t" "same_shape t t'" "i < n_recs t" "VALID_DMA_HELP_TYPE k"
  shows "dma_write put bt xt (cmd_one t k i v) t' = put_rec t' i (put (off k) v (recs t' ! i))"
  using dma_write_cmd_one [of bt xt off t' i k put v] assms types
    same_shape_geom [OF assms(2)] same_shape_cmd_one [OF assms(2)] same_shape_fields [OF assms(2)] by simp

lemmas valid_help [simp] = VALID_DMA_HELP_TYPE_def

text \<open>The device runs the commands, after the client may have changed the new record's other fields.\<close>

lemma add_shape_commit_head:
  assumes inv: "inv t ch" and h: "h < table_entries t" "\<not> vdT ei t h" and sh: "add_shape t ch h i e1 v t1 ds"
    and e2: "entry_get_next_index ei e2 = 0"
      "\<And>j m te. entry_get_prev_index ei e2 j m te = entry_get_prev_index ei e1 j m te"
    and t3: "t3 = dma_run put bt xt ds (put_rec t1 i e2)"
  shows "inv t3 ch" "recs t3 = (recs t)[h := put (off HELP_UPDATE_HEAD) v e2]"
    "vdT ei t3 = (vdT ei t)(h := True)" "same_shape t t3"
proof -
  note g = inv_geom [OF inv]
  have s: "i = h" "h \<noteq> 0" "t1 = (put_rec t h e1)\<lparr>cur_tbl_cnt := cur_tbl_cnt t + 1\<rparr>"
      "ds = [cmd_one t HELP_UPDATE_HEAD h v]" "entry_is_valid ei (put (off HELP_UPDATE_HEAD) v e1)"
      "entry_get_prev_index ei e1 h (meta t) (table_entries t) = Some 0"
    using sh h by (auto simp: add_shape_def)
  have n: "h < length (recs t)" using h geom_len [OF g] by simp
  define e3 where "e3 = put (off HELP_UPDATE_HEAD) v e2"
  have t3': "t3 = (put_rec t h e3)\<lparr>cur_tbl_cnt := cur_tbl_cnt t + 1\<rparr>"
    unfolding t3 s using h n
    by (simp add: dma_write_shape [OF g] e3_def) (simp add: put_rec_def)
  show r: "recs t3 = (recs t)[h := put (off HELP_UPDATE_HEAD) v e2]" by (simp add: t3' e3_def)
  have e3v: "entry_is_valid ei e3" unfolding e3_def using put_head_valid [of v e2 e1] s(5) by simp
  have e3n: "entry_get_next_index ei e3 = 0" by (simp add: e3_def put_head_next e2)
  have e3p: "entry_get_prev_index ei e3 h (meta t) (table_entries t) = Some 0"
    by (simp add: e3_def put_prev e2 s)
  have z: "recs t ! h = entry_zero ei" using inv_zero [OF inv _ h(2)] h by simp
  have nx0: "nxT ei t h = 0" by (simp add: nxT_def z zero_next)
  have pv0: "pvT ei t h = 0" using zero_prev [OF inv_meta [OF inv] h(1)] by (simp add: pvT_def z)
  show vd: "vdT ei t3 = (vdT ei t)(h := True)" unfolding t3' using n e3v by (simp add: vdT_put)
  show same: "same_shape t t3" by (simp add: t3')
  have nx: "nxT ei t3 = nxT ei t" unfolding t3' using n e3n nx0 by (simp add: nxT_put fun_upd_idem)
  have pv: "pvT ei t3 = pvT ei t" unfolding t3' using n e3p pv0 by (simp add: pvT_put fun_upd_idem)
  show "inv t3 ch"
    by (rule inv_insert_head [OF inv same _ h _ vd nx nx0 pv pv0])
       (use s(2) inv_meta [OF inv] in \<open>simp_all add: t3'\<close>)
qed

lemma add_shape_commit_tail:
  assumes inv: "inv t ch" and h: "h < table_entries t" "vdT ei t h" and sh: "add_shape t ch h i e1 v t1 ds"
    and e2: "entry_get_next_index ei e2 = 0" "um \<Longrightarrow> entry_is_valid ei e2"
      "\<And>j m te. entry_get_prev_index ei e2 j m te = entry_get_prev_index ei e1 j m te"
    and t3: "t3 = dma_run put bt xt ds (put_rec t1 i e2)"
  shows "inv t3 (ch(h := ch h @ [i]))"
    "recs t3 = (recs t)[i := if um then e2 else put (off HELP_UPDATE_HEAD) v e2,
                        last (h # ch h) := put (off HELP_UPDATE_ENTRY) (of_nat i) (recs t ! last (h # ch h))]"
    "vdT ei t3 = (vdT ei t)(i := True)" "same_shape t t3"
proof -
  note g = inv_geom [OF inv]
  let ?te = "table_entries t" and ?l = "last (h # ch h)"
  obtain m' where s: "free_slot ei t = Some i" "um \<longrightarrow> entry_is_valid ei e1"
      "t1 = (put_rec t i e1)\<lparr>meta := m', cur_expn_tbl_cnt := cur_expn_tbl_cnt t + 1\<rparr>"
      "meta_fits um m' ?te (n_recs t)" "entry_get_prev_index ei e1 i m' ?te = Some ?l"
      "\<forall>e2 j. j \<noteq> i \<longrightarrow> entry_get_prev_index ei e2 j m' ?te = entry_get_prev_index ei e2 j (meta t) ?te"
      "ds = (if um then [] else [cmd_one t HELP_UPDATE_HEAD i v]) @ [cmd_one t HELP_UPDATE_ENTRY ?l (of_nat i)]"
      "entry_is_valid ei (put (off HELP_UPDATE_HEAD) v e1)"
    using sh h(2) unfolding add_shape_def by auto
  have c: "?te \<le> i" "i < n_recs t" "\<not> vdT ei t i" using free_slot_SomeD [OF s(1)] by auto
  have lin: "?l \<in> set (h # ch h)" by (rule last_in_set) simp
  have lvd: "vdT ei t ?l"
    using lin h(2) chains_ok_mem [OF inv_chains [OF inv], of ?l h] by (auto simp del: last.simps)
  have l: "?l < length (recs t)" "?l < n_recs t" using lvd geom_len [OF g] by (simp_all add: vdT_def)
  have il: "i \<noteq> ?l" using lvd c(3) by metis
  have n: "i < length (recs t)" using c geom_len [OF g] by simp
  have i16: "unat (of_nat i :: u16) = i" using c(2) table_geomD [OF g] by (intro unat_of_nat_u16) linarith
  define e3 where "e3 = (if um then e2 else put (off HELP_UPDATE_HEAD) v e2)"
  define el where "el = put (off HELP_UPDATE_ENTRY) (of_nat i) (recs t ! ?l)"
  have "t3 = put_rec (put_rec (put_rec t1 i e2) i e3) ?l el"
    unfolding t3 s(3,7) using c(2) l(2) n il
    by (cases um) (simp_all add: dma_write_shape [OF g] e3_def el_def del: last.simps)
  then have t3': "recs t3 = (recs t)[i := e3, ?l := el]" "meta t3 = m'" "cur_tbl_cnt t3 = cur_tbl_cnt t"
      "cur_expn_tbl_cnt t3 = cur_expn_tbl_cnt t + 1" "same_shape t t3" "table_entries t3 = ?te"
    by (simp_all add: s(3) del: last.simps)
  show "recs t3 = (recs t)[i := if um then e2 else put (off HELP_UPDATE_HEAD) v e2,
                        ?l := put (off HELP_UPDATE_ENTRY) (of_nat i) (recs t ! ?l)]"
    using t3'(1) unfolding e3_def el_def .
  show "same_shape t t3" by fact
  have e3: "entry_is_valid ei e3" "entry_get_next_index ei e3 = 0" "entry_get_prev_index ei e3 i m' ?te = Some ?l"
    using e2 s(5,8) put_head_valid [of v e2 e1] by (simp_all add: e3_def put_head_next put_prev)
  have el: "entry_is_valid ei el" "entry_get_next_index ei el = i"
      "entry_get_prev_index ei el ?l m' ?te = entry_get_prev_index ei (recs t ! ?l) ?l (meta t) ?te"
    using lvd il s(6) by (simp_all add: el_def put_entry_valid put_entry_next put_prev i16 vdT_def)
  have r: "recs t3 ! k = (if k = ?l then el else if k = i then e3 else recs t ! k)" for k
    unfolding t3'(1) using n l(1) by (simp add: nth_list_update del: last.simps)
  show vd: "vdT ei t3 = (vdT ei t)(i := True)"
  proof
    fix k
    have "length (recs t3) = length (recs t)" using t3'(1) by simp
    then show "vdT ei t3 k = ((vdT ei t)(i := True)) k"
      using lvd n el(1) e3(1) il by (simp add: vdT_def r del: last.simps)
  qed
  have nx: "nxT ei t3 ?l = i" "nxT ei t3 i = 0" "\<And>k. k \<noteq> i \<Longrightarrow> k \<noteq> ?l \<Longrightarrow> nxT ei t3 k = nxT ei t k"
    using il el(2) e3(2) by (simp_all add: nxT_def r del: last.simps)
  have pv: "pvT ei t3 i = ?l" "\<And>k. k \<noteq> i \<Longrightarrow> pvT ei t3 k = pvT ei t k"
    using il el(3) e3(3) s(6) by (simp_all add: pvT_def r t3'(2,6) del: last.simps)
  show "inv t3 (ch(h := ch h @ [i]))"
    by (rule inv_insert_tail [OF inv t3'(5) h c _ vd nx pv])
       (use s(4) t3'(2-4) lvd in \<open>auto simp: r simp del: last.simps\<close>)
qed

lemma add_shape_new:
  assumes "add_shape t ch h i e1 v t1 ds"
  shows "i \<noteq> 0" "i < n_recs t" "\<not> vdT ei t i" "entry_get_next_index ei e1 = 0"
    "um \<Longrightarrow> vdT ei t h \<Longrightarrow> entry_is_valid ei e1"
  using assms unfolding add_shape_def by simp_all

lemma add_shape_t1:
  assumes sh: "add_shape t ch h i e1 v t1 ds" and h: "h < table_entries t"
  shows "same_shape t t1" "recs t1 = (recs t)[i := e1]"
    "cur_tbl_cnt t1 = cur_tbl_cnt t + (if i < table_entries t then 1 else 0)"
    "cur_expn_tbl_cnt t1 = cur_expn_tbl_cnt t + (if i < table_entries t then 0 else 1)"
  using sh h free_slot_SomeD [of ei t i] by (auto simp: add_shape_def split: if_splits)

lemma add_shape_rec:
  assumes "inv t ch" "add_shape t ch h i e1 v t1 ds" "h < table_entries t"
  shows "rec_at t1 i = Some e1" "put_rec t1 i e1 = t1" "ipa_table_get_entry_by_index t1 i = Some i"
proof -
  note n = add_shape_new [OF assms(2)] and g = inv_geom [OF assms(1)] and s = add_shape_t1 [OF assms(2,3)]
  have "i < length (recs t)" using n(2) geom_len [OF g] by simp
  then show "rec_at t1 i = Some e1" "put_rec t1 i e1 = t1" using s(2) by (simp_all add: rec_at_def put_rec_def)
  show "ipa_table_get_entry_by_index t1 i = Some i"
    using n(1,2) geom_tot [OF g] same_shape_fields [OF s(1)] by (simp add: ipa_table_get_entry_by_index_def)
qed

text \<open>The roll back of an insertion whose commands were never run.\<close>

lemma add_shape_rollback:
  assumes inv: "inv t ch" and sh: "add_shape t ch h i e1 v t1 ds" and h: "h < table_entries t"
  shows "\<exists>t4. ipa_table_erase_entry ei (put_rec t1 i e2) i = Some t4 \<and> inv t4 ch \<and> recs t4 = recs t \<and>
              same_shape t t4"
proof -
  note g = inv_geom [OF inv]
  have i: "i < n_recs t" "\<not> vdT ei t i" "i \<noteq> 0" using sh by (simp_all add: add_shape_def)
  have len: "length (recs t) = n_recs t" by (rule geom_len [OF g])
  have z: "recs t ! i = entry_zero ei" using inv_zero [OF inv i(1,2)] .
  note t1 = add_shape_t1 [OF sh h]
  have m1: "meta_fits um (meta t1) (table_entries t) (n_recs t)"
      "\<And>j. j \<noteq> i \<Longrightarrow> entry_get_prev_index ei e j (meta t1) (table_entries t) =
                       entry_get_prev_index ei e j (meta t) (table_entries t)" for e
    using sh inv_meta [OF inv] by (auto simp: add_shape_def split: if_splits)
  define t4 where "t4 = (let u = put_rec t1 i (entry_zero ei) in
      if i < table_entries t1 then u\<lparr>cur_tbl_cnt := cur_tbl_cnt u - 1\<rparr>
      else u\<lparr>cur_expn_tbl_cnt := cur_expn_tbl_cnt u - 1\<rparr>)"
  have er: "ipa_table_erase_entry ei (put_rec t1 i e2) i = Some t4"
    using i(1) len t1(1,2)
    by (simp add: ipa_table_erase_entry_def rec_at_def t4_def Let_def)
  have r4: "recs t4 = recs t"
    using z by (simp add: t4_def Let_def t1(2) list_update_same_conv i len)
  have sh4: "same_shape t t4" using t1(1) by (simp add: t4_def Let_def)
  have te: "table_entries t1 = table_entries t" "table_entries t4 = table_entries t"
    using same_shape_fields [OF t1(1)] same_shape_fields [OF sh4] by simp_all
  have c4: "cur_tbl_cnt t4 = cur_tbl_cnt t" "cur_expn_tbl_cnt t4 = cur_expn_tbl_cnt t" "meta t4 = meta t1"
    using t1(3,4) te by (simp_all add: t4_def Let_def)
  have v4: "vdT ei t4 = vdT ei t" "nxT ei t4 = nxT ei t" by (simp_all add: vdT_def nxT_def r4 fun_eq_iff)
  have p4: "pvT ei t4 k = pvT ei t k" if "vdT ei t k" for k
  proof -
    have "k \<noteq> i" using that i(2) by auto
    then show ?thesis by (simp add: pvT_def r4 c4 te m1(2))
  qed
  have "inv t4 ch"
  proof (rule table_invI [OF inv sh4])
    show "chains_ok (table_entries t) (n_recs t) (vdT ei t4) (nxT ei t4) (pvT ei t4) ch"
      unfolding v4 by (rule chains_ok_pv_cong [OF inv_chains [OF inv] p4])
  qed (use m1 inv_zero [OF inv] inv_cnt [OF inv] inv_xcnt [OF inv] in \<open>simp_all add: c4 v4 r4\<close>)
  then show ?thesis using er r4 sh4 by blast
qed

lemma get_prev_pvT:
  assumes inv: "inv t ch" and "i < n_recs t"
  shows "entry_get_prev_index ei (recs t ! i) i (meta t) (table_entries t) = Some (pvT ei t i)"
  using prev_total [OF inv_meta [OF inv] assms(2), of "recs t ! i"] by (auto simp: pvT_def)

lemma iterator_init_inv:
  assumes inv: "inv t ch" and h: "h < table_entries t" "vdT ei t h" and pos: "h # ch h = xs @ i # ys"
  shows "ipa_table_iterator_init ei t i i = Some (0, pos_it xs i ys)"
proof -
  note g = inv_geom [OF inv]
  note v = position_views [OF inv h pos]
  have i: "i < n_recs t" "entry_is_valid ei (recs t ! i)" using v(4) [of i] by (simp_all add: vdT_def)
  have by_index: "ipa_table_get_entry_by_index t k = Some k" if "k \<in> set (xs @ i # ys)" for k
    using v(4) [OF that] v(3) [OF that] geom_tot [OF g]
    by (simp add: ipa_table_get_entry_by_index_def)
  have prev: "xs \<noteq> [] \<Longrightarrow> last xs \<noteq> 0 \<and> ipa_table_get_entry_by_index t (last xs) = Some (last xs)"
    using by_index [of "last xs"] v(3) [of "last xs"] last_in_set [of xs] by simp
  have nxt: "ys \<noteq> [] \<Longrightarrow> hd0 ys = hd ys \<and> hd ys \<noteq> 0 \<and> ipa_table_get_entry_by_index t (hd ys) = Some (hd ys)"
    using by_index [of "hd ys"] v(3) [of "hd ys"] by (cases ys) (simp_all add: hd0_def)
  have nx: "entry_get_next_index ei (recs t ! i) = hd0 ys" using v(1) by (simp add: nxT_def)
  have ys0: "ys = [] \<Longrightarrow> hd0 ys = 0" by (simp add: hd0_def)
  show ?thesis
    using i prev nxt nx ys0 get_prev_pvT [OF inv i(1)] v(2)
    by (cases "xs = []"; cases "ys = []")
       (simp_all add: ipa_table_iterator_init_def rec_at_inv [OF g] Let_def VALID_INDEX_def
          IPA_TABLE_INVALID_ENTRY_def zero_iterator_def pos_it_def)
qed

lemma iterator_init_free:
  assumes inv: "inv t ch" and "i < n_recs t" "\<not> vdT ei t i"
  shows "ipa_table_iterator_init ei t i i = Some (- EINVAL, zero_iterator)"
  using assms(2,3) rec_at_inv [OF inv_geom [OF inv] assms(2)]
  by (simp add: ipa_table_iterator_init_def vdT_def geom_len [OF inv_geom [OF inv]])

lemma iterator_next_inv:
  assumes inv: "inv t ch" and h: "h < table_entries t" "vdT ei t h" and pos: "h # ch h = xs @ i # y # ys"
    and t': "same_shape t t'" "nxT ei t' y = nxT ei t y"
  shows "ipa_table_iterator_next ei (pos_it xs i (y # ys)) t' = Some (0, pos_it (xs @ [i]) y ys)"
proof -
  have pos': "h # ch h = (xs @ [i]) @ y # ys" using pos by simp
  note v = position_views [OF inv h pos']
  note g = inv_geom [OF inv]
  have y: "y < n_recs t" using v(4) [of y] by simp
  have nx: "entry_get_next_index ei (recs t' ! y) = hd0 ys" using v(1) t'(2) by (simp add: nxT_def)
  have rec: "rec_at t' y = Some (recs t' ! y)"
    using y geom_len [OF g] same_shape_fields [OF t'(1)] by (simp add: rec_at_def)
  show ?thesis
  proof (cases ys)
    case Nil
    then show ?thesis using rec nx
      by (simp add: ipa_table_iterator_next_def pos_it_def hd0_def VALID_INDEX_def IPA_TABLE_INVALID_ENTRY_def)
  next
    case (Cons z zs)
    then have "z \<noteq> 0" "z < n_recs t" using v(3) [of z] v(4) [of z] by simp_all
    then have "ipa_table_get_entry_by_index t' z = Some z"
      using geom_tot [OF g] same_shape_fields [OF t'(1)] by (simp add: ipa_table_get_entry_by_index_def)
    then show ?thesis using rec nx Cons \<open>z \<noteq> 0\<close>
      by (simp add: ipa_table_iterator_next_def pos_it_def hd0_def VALID_INDEX_def IPA_TABLE_INVALID_ENTRY_def)
  qed
qed

text \<open>The one command that takes a record out: the head is disabled, a head with a tail gets the
  delete-head data, any other record is unlinked from its predecessor.\<close>

lemma create_delete_command_inv:
  assumes inv: "inv t ch" and h: "h < table_entries t" "vdT ei t h" and pos: "h # ch h = xs @ i # ys"
  shows "ipa_table_create_delete_command ei t cmd (pos_it xs i ys) =
    Some (cmd\<lparr>cmd_dma := cmd_dma cmd @
      [if xs \<noteq> [] then cmd_one t HELP_UPDATE_ENTRY (last xs) (of_nat (hd0 ys))
       else if ys = [] then cmd_one t HELP_UPDATE_HEAD i 0
       else cmd_one t HELP_DELETE_HEAD i
              (entry_get_delete_head_dma_command_data ei (recs t ! i) (recs t ! hd ys))]\<rparr>)"
proof -
  note g = inv_geom [OF inv]
  note v = position_views [OF inv h pos]
  have last: "xs \<noteq> [] \<Longrightarrow> last xs \<noteq> 0 \<and> last xs < n_recs t"
    using v(3) [of "last xs"] v(4) [of "last xs"] last_in_set [of xs] by simp
  have nxt: "ys \<noteq> [] \<Longrightarrow> hd0 ys = hd ys \<and> hd ys \<noteq> 0 \<and> hd ys < n_recs t"
    using v(3) [of "hd ys"] v(4) [of "hd ys"] by (cases ys) (simp_all add: hd0_def)
  have i: "i < n_recs t" using v(4) [of i] by simp
  show ?thesis
    using last nxt i
    by (cases "xs = []"; cases "ys = []")
       (simp_all add: ipa_table_create_delete_command_def pos_it_def VALID_INDEX_def hd0_def
          IPA_TABLE_INVALID_ENTRY_def add_dma_cmd_eq [OF g] rec_at_inv [OF g])
qed

text \<open>A tail record leaves: its predecessor already carries the record \<open>ep\<close> the device has written.\<close>

lemma delete_tail_commit:
  assumes inv: "inv t ch" and h: "ch h = xs @ y # ys" and p: "p = last (h # xs)"
    and ep: "entry_is_valid ei ep" "entry_get_next_index ei ep = nxT ei t y"
      "\<And>j m te. entry_get_prev_index ei ep j m te = entry_get_prev_index ei (recs t ! p) j m te"
    and ipe: "ipe \<Longrightarrow> ys \<noteq> []"
  shows "\<exists>t'. ipa_table_delete_entry ei (put_rec t p ep) (pos_it (h # xs) y ys) ipe = Some t' \<and>
    inv t' (ch(h := xs @ ys)) \<and> same_shape t t' \<and> vdT ei t' = (vdT ei t)(y := False) \<and>
    (\<forall>k. k \<noteq> y \<longrightarrow> (ys \<noteq> [] \<longrightarrow> k \<noteq> hd ys) \<longrightarrow> recs t' ! k = (if k = p then ep else recs t ! k)) \<and>
    recs t' ! y = entry_zero ei \<and>
    (if ys = [] then meta t' = meta t
     else entry_set_prev_index ei (recs t ! hd ys) (hd ys) p (meta t) (table_entries t) =
            Some (recs t' ! hd ys, meta t'))"
proof -
  note g = inv_geom [OF inv] and ok = inv_chains [OF inv]
  let ?te = "table_entries t"
  have yin: "y \<in> set (ch h)" using h by simp
  note own = chains_ok_owner [OF ok yin]
  have pos: "h # ch h = (h # xs) @ y # ys" using h by simp
  note v = position_views [OF inv own pos]
  have pin: "p \<in> set (h # xs)" unfolding p by (rule last_in_set) simp
  have pv: "vdT ei t p" "p < n_recs t" "p \<noteq> 0" using v(3,4) [of p] pin by auto
  have py: "p \<noteq> y" "y \<notin> set ys" "p \<notin> set ys" using v(5) pin by auto
  have y: "?te \<le> y" "y < n_recs t" using chains_ok_mem [OF ok yin] by auto
  have len: "length (recs t) = n_recs t" by (rule geom_len [OF g])
  have p16: "p < 65536" using pv(2) table_geomD [OF g] by linarith
  obtain tA ez mz where A: "ipa_table_delete_entry ei (put_rec t p ep) (pos_it (h # xs) y ys) ipe =
        ipa_table_erase_entry ei tA y"
      "\<And>k. recs tA ! k = (if k = p then ep else if ys \<noteq> [] \<and> k = hd ys then ez else recs t ! k)"
      "same_shape t tA" "meta tA = mz" "cur_tbl_cnt tA = cur_tbl_cnt t" "cur_expn_tbl_cnt tA = cur_expn_tbl_cnt t"
      "meta_fits um mz ?te (n_recs t)"
      "if ys = [] then mz = meta t
       else entry_set_prev_index ei (recs t ! hd ys) (hd ys) p (meta t) ?te = Some (ez, mz) \<and>
            entry_is_valid ei ez = entry_is_valid ei (recs t ! hd ys) \<and>
            entry_get_next_index ei ez = nxT ei t (hd ys) \<and> entry_get_prev_index ei ez (hd ys) mz ?te = Some p"
      "\<And>e j. ys = [] \<or> j \<noteq> hd ys \<Longrightarrow>
               entry_get_prev_index ei e j mz ?te = entry_get_prev_index ei e j (meta t) ?te"
  proof (cases "ys = []")
    case True
    then have "\<not> ipe" using ipe by blast
    then have "ipa_table_delete_entry ei (put_rec t p ep) (pos_it (h # xs) y ys) ipe =
            ipa_table_erase_entry ei (put_rec t p ep) y"
      using True by (simp add: ipa_table_delete_entry_def pos_it_def hd0_def VALID_INDEX_def
          IPA_TABLE_INVALID_ENTRY_def)
    then show ?thesis
      by (rule that) (use True pv(2) len inv_meta [OF inv] in \<open>simp_all add: nth_list_update\<close>)
  next
    case False
    define z where "z = hd ys"
    have zin: "z \<in> set ys" using False by (simp add: z_def)
    have z: "z < n_recs t" "z \<noteq> 0" "z \<noteq> p" "hd0 ys = z" "?te \<le> z"
      using v(3,4) [of z] zin py False chains_ok_mem [OF ok, of z h] h
      by (auto simp: z_def hd0_def split: list.splits)
    obtain ez mz where sp: "entry_set_prev_index ei (recs t ! z) z p (meta t) ?te = Some (ez, mz)"
        "meta_fits um mz ?te (n_recs t)" "entry_is_valid ei ez = entry_is_valid ei (recs t ! z)"
        "entry_get_next_index ei ez = entry_get_next_index ei (recs t ! z)"
        "entry_get_prev_index ei ez z mz ?te = Some p"
        "\<forall>e2 j. j \<noteq> z \<longrightarrow> entry_get_prev_index ei e2 j mz ?te = entry_get_prev_index ei e2 j (meta t) ?te"
      using set_prev [OF inv_meta [OF inv] z(5,1) p16, of "recs t ! z"] by blast
    let ?tA = "(put_rec (put_rec t p ep) z ez)\<lparr>meta := mz\<rparr>"
    have "ipa_table_delete_entry ei (put_rec t p ep) (pos_it (h # xs) y ys) ipe = ipa_table_erase_entry ei ?tA y"
      using False z sp(1) len pv(2) p
      by (simp add: ipa_table_delete_entry_def pos_it_def VALID_INDEX_def IPA_TABLE_INVALID_ENTRY_def rec_at_def
            nth_list_update z_def [symmetric])
    then show ?thesis
      by (rule that [of _ ez mz])
         (use False pv(2) len sp z in \<open>auto simp: nth_list_update nxT_def simp flip: z_def\<close>)
  qed
  have lenA: "length (recs tA) = n_recs t" "table_entries tA = ?te"
    using same_shape_fields [OF A(3)] len by simp_all
  define t' where "t' = (put_rec tA y (entry_zero ei))\<lparr>cur_expn_tbl_cnt := cur_expn_tbl_cnt t - 1\<rparr>"
  have er: "ipa_table_erase_entry ei tA y = Some t'"
    using y lenA A(6) by (simp add: ipa_table_erase_entry_def rec_at_def t'_def)
  have r: "recs t' ! k = (if k = y then entry_zero ei else if k = p then ep
             else if ys \<noteq> [] \<and> k = hd ys then ez else recs t ! k)" for k
    using y lenA by (simp add: t'_def nth_list_update A(2))
  have f: "same_shape t t'" "meta t' = mz" "cur_tbl_cnt t' = cur_tbl_cnt t"
      "cur_expn_tbl_cnt t' = cur_expn_tbl_cnt t - 1" "length (recs t') = n_recs t" "table_entries t' = ?te"
    using A(3-5) lenA by (simp_all add: t'_def)
  have hdv: "vdT ei t (hd ys)" "hd ys \<noteq> p" "hd ys \<noteq> y" "hd ys \<in> set ys" if "ys \<noteq> []"
    using that v(4) [of "hd ys"] py hd_in_set [OF that] by auto
  have vd: "vdT ei t' = (vdT ei t)(y := False)"
  proof
    fix k show "vdT ei t' k = ((vdT ei t)(y := False)) k"
      using y pv ep(1) A(8) hdv zero_invalid by (auto simp: vdT_def f(5) r len)
  qed
  have nx: "nxT ei t' p = nxT ei t y" "\<And>k. k \<noteq> y \<Longrightarrow> k \<noteq> p \<Longrightarrow> nxT ei t' k = nxT ei t k"
    using py(1) ep(2) A(8) by (auto simp: nxT_def r split: if_splits)
  have pvk: "pvT ei t' k = (if ys \<noteq> [] \<and> k = hd ys then p else pvT ei t k)" if "k \<noteq> y" for k
    using that A(8,9) ep(3) hdv by (auto simp: pvT_def r f(2,6))
  have "inv t' (ch(h := xs @ ys))"
    by (rule inv_delete_tail [OF inv f(1) h _ vd])
       (use nx pvk A(7) f pv hdv r in \<open>auto simp: p\<close>)
  moreover have "recs t' ! y = entry_zero ei" by (simp add: r)
  moreover have "ys \<noteq> [] \<Longrightarrow> recs t' ! hd ys = ez" using hdv by (simp add: r)
  ultimately show ?thesis
    using A(1,8) er f(1,2) vd r by (intro exI [of _ t']) auto
qed

text \<open>A head without a tail leaves.\<close>

lemma delete_head_commit:
  assumes inv: "inv t ch" and h: "h < table_entries t" "vdT ei t h" "ch h = []"
  shows "\<exists>t'. ipa_table_delete_entry ei (put_rec t h eh) (pos_it [] h []) ipe = Some t' \<and>
    inv t' ch \<and> same_shape t t' \<and> vdT ei t' = (vdT ei t)(h := False) \<and>
    recs t' = (recs t)[h := entry_zero ei] \<and> meta t' = meta t"
proof -
  note g = inv_geom [OF inv]
  define t' where "t' = (put_rec t h (entry_zero ei))\<lparr>cur_tbl_cnt := cur_tbl_cnt t - 1\<rparr>"
  have n: "h < length (recs t)" using h geom_len [OF g] by simp
  have "ipa_table_delete_entry ei (put_rec t h eh) (pos_it [] h []) ipe = Some t'"
    using h n by (simp add: ipa_table_delete_entry_def pos_it_def hd0_def VALID_INDEX_def
        IPA_TABLE_INVALID_ENTRY_def ipa_table_erase_entry_def rec_at_def t'_def)
  moreover have vd: "vdT ei t' = (vdT ei t)(h := False)"
    using n zero_invalid by (simp add: t'_def vdT_put)
  moreover have "inv t' ch"
    by (rule inv_delete_head [OF inv _ h _ vd])
       (use n inv_meta [OF inv] in \<open>simp_all add: t'_def nxT_put pvT_put\<close>)
  ultimately show ?thesis by (intro exI [of _ t']) (simp add: t'_def)
qed

text \<open>The last tail record of a head that was deleted before leaves, and takes the head with it.\<close>

lemma delete_dead_head_commit:
  assumes inv: "inv t ch" and h: "ch h = [y]"
    and ep: "entry_is_valid ei ep" "entry_get_next_index ei ep = nxT ei t y"
      "\<And>j m te. entry_get_prev_index ei ep j m te = entry_get_prev_index ei (recs t ! h) j m te"
  shows "\<exists>t'. ipa_table_delete_entry ei (put_rec t h ep) (pos_it [h] y []) True = Some t' \<and>
    inv t' (ch(h := [])) \<and> same_shape t t' \<and> vdT ei t' = (vdT ei t)(y := False, h := False) \<and>
    recs t' = (recs t)[h := entry_zero ei, y := entry_zero ei] \<and> meta t' = meta t"
proof -
  note g = inv_geom [OF inv] and ok = inv_chains [OF inv]
  have yin: "y \<in> set (ch h)" using h by simp
  note own = chains_ok_owner [OF ok yin]
  have y: "table_entries t \<le> y" "y < n_recs t" using chains_ok_mem [OF ok yin] by auto
  have hy: "h \<noteq> y" "h < n_recs t" using own y by auto
  have len: "length (recs t) = n_recs t" by (rule geom_len [OF g])
  obtain t1 where t1: "ipa_table_delete_entry ei (put_rec t h ep) (pos_it [h] y []) False = Some t1"
      "inv t1 (ch(h := []))" "same_shape t t1" "vdT ei t1 = (vdT ei t)(y := False)"
    using delete_tail_commit [OF inv, of h "[]" y "[]" h ep False] h ep by auto
  have t1': "t1 = (put_rec (put_rec t h ep) y (entry_zero ei))\<lparr>cur_expn_tbl_cnt := cur_expn_tbl_cnt t - 1\<rparr>"
    using t1(1) y len by (simp add: ipa_table_delete_entry_def pos_it_def hd0_def VALID_INDEX_def
        IPA_TABLE_INVALID_ENTRY_def ipa_table_erase_entry_def rec_at_def)
  define t' where "t' = (put_rec t1 h (entry_zero ei))\<lparr>cur_tbl_cnt := cur_tbl_cnt t - 1\<rparr>"
  have n1: "h < length (recs t1)" using hy len same_shape_fields [OF t1(3)] by simp
  have "ipa_table_delete_entry ei (put_rec t h ep) (pos_it [h] y []) True = Some t'"
    using y hy len
    by (simp add: ipa_table_delete_entry_def pos_it_def hd0_def VALID_INDEX_def IPA_TABLE_INVALID_ENTRY_def
          ipa_table_erase_entry_def rec_at_def t'_def t1' put_rec_def list_update_swap)
  moreover have vd: "vdT ei t' = (vdT ei t1)(h := False)"
    using n1 zero_invalid by (simp add: t'_def vdT_put)
  moreover have "inv t' (ch(h := []))"
    by (rule inv_delete_head [OF t1(2) _ _ _ _ _ vd])
       (use n1 own hy inv_meta [OF t1(2)] t1(4) same_shape_fields [OF t1(3)] in
         \<open>simp_all add: t'_def nxT_put pvT_put\<close>, simp_all add: t1')
  moreover have "same_shape t t'" using t1(3) by (simp add: t'_def)
  moreover have "recs t' = (recs t)[h := entry_zero ei, y := entry_zero ei]" "meta t' = meta t"
    using hy by (simp_all add: t'_def t1' list_update_swap)
  ultimately show ?thesis using t1(4) by (intro exI [of _ t']) simp
qed

text \<open>Every outcome of an insertion, and the state once the device has run.\<close>

lemma add_entry_cases:
  assumes inv: "inv t ch" and h: "0 < h" "h < table_entries t" and u: "good u"
  shows "(vdT ei t h \<and> free_slot ei t = None \<and> ipa_table_add_entry ei t u h cmd = Some (- 1, t, h, 0, cmd)) \<or>
    (\<exists>i e1 v t1 ds. ipa_table_add_entry ei t u h cmd =
         Some (0, t1, i, ucast (MakeEntryHdl t i), cmd\<lparr>cmd_dma := cmd_dma cmd @ ds\<rparr>) \<and>
       add_shape t ch h i e1 v t1 ds \<and>
       (\<exists>e0. (if um \<and> vdT ei t h then entry_tail_insert ei (entry_zero ei) u = Some (0, e0)
              else entry_head_insert ei (entry_zero ei) u = Some (0, e0, v)) \<and>
             (if vdT ei t h
              then entry_set_prev_index ei e0 i (last (h # ch h)) (meta t) (table_entries t) = Some (e1, meta t1)
              else e1 = e0)))"
proof (cases "vdT ei t h")
  case False
  then show ?thesis using add_entry_head [OF inv h False u, of cmd] by fastforce
next
  case True
  show ?thesis
  proof (cases "free_slot ei t")
    case None
    then show ?thesis using True add_entry_full [OF inv h(2) True None, of u cmd] by blast
  next
    case (Some c)
    obtain e0 e1 v t1 ds where a:
        "if um then entry_tail_insert ei (entry_zero ei) u = Some (0, e0)
         else entry_head_insert ei (entry_zero ei) u = Some (0, e0, v)"
        "entry_set_prev_index ei e0 c (last (h # ch h)) (meta t) (table_entries t) = Some (e1, meta t1)"
        "ipa_table_add_entry ei t u h cmd =
           Some (0, t1, c, ucast (MakeEntryHdl t c), cmd\<lparr>cmd_dma := cmd_dma cmd @ ds\<rparr>)"
        "add_shape t ch h c e1 v t1 ds"
      using add_entry_tail [OF inv h(2) True u Some, of cmd] by blast
    have "\<exists>e0. (if um \<and> vdT ei t h then entry_tail_insert ei (entry_zero ei) u = Some (0, e0)
              else entry_head_insert ei (entry_zero ei) u = Some (0, e0, v)) \<and>
             (if vdT ei t h
              then entry_set_prev_index ei e0 c (last (h # ch h)) (meta t) (table_entries t) = Some (e1, meta t1)
              else e1 = e0)"
      using a(1,2) True by (intro exI [of _ e0]) simp
    then show ?thesis using a(3,4) by blast
  qed
qed

lemma add_shape_commit:
  assumes inv: "inv t ch" and h: "h < table_entries t" and sh: "add_shape t ch h i e1 v t1 ds"
    and e2: "entry_get_next_index ei e2 = 0" "um \<Longrightarrow> vdT ei t h \<Longrightarrow> entry_is_valid ei e2"
      "\<And>j m te. entry_get_prev_index ei e2 j m te = entry_get_prev_index ei e1 j m te"
    and t3: "t3 = dma_run put bt xt ds (put_rec t1 i e2)"
  shows "inv t3 (grown ei t ch h i)" "vdT ei t3 = (vdT ei t)(i := True)" "same_shape t t3"
    "recs t3 ! i = (if um \<and> vdT ei t h then e2 else put (off HELP_UPDATE_HEAD) v e2)"
    "\<And>j. j \<noteq> i \<Longrightarrow> recs t3 ! j = recs t ! j \<or> recs t3 ! j = put (off HELP_UPDATE_ENTRY) (of_nat i) (recs t ! j)"
    "i \<in> set (h # grown ei t ch h i h)"
proof -
  have n: "i < length (recs t)" "\<not> vdT ei t i"
    using sh geom_len [OF inv_geom [OF inv]] by (simp_all add: add_shape_def)
  have mem: "vdT ei t k" if "k \<in> set (h # ch h)" "vdT ei t h" for k
    using that chains_ok_mem [OF inv_chains [OF inv], of k h] by auto
  have "inv t3 (grown ei t ch h i) \<and> vdT ei t3 = (vdT ei t)(i := True) \<and> same_shape t t3 \<and>
    recs t3 ! i = (if um \<and> vdT ei t h then e2 else put (off HELP_UPDATE_HEAD) v e2) \<and>
    (\<forall>j. j \<noteq> i \<longrightarrow> recs t3 ! j = recs t ! j \<or> recs t3 ! j = put (off HELP_UPDATE_ENTRY) (of_nat i) (recs t ! j))"
  proof (cases "vdT ei t h")
    case False
    have "i = h" using sh False by (simp add: add_shape_def)
    then show ?thesis
      using add_shape_commit_head [OF inv h False sh e2(1,3) t3] False n
      by (simp add: grown_def nth_list_update)
  next
    case True
    let ?l = "last (h # ch h)"
    have "?l \<in> set (h # ch h)" by (rule last_in_set) simp
    then have l: "?l \<noteq> i" "?l < length (recs t)" using mem [OF _ True] n(2) by (auto simp: vdT_def)
    note c = add_shape_commit_tail [OF inv h True sh e2(1) e2(2) [OF _ True] e2(3) t3]
    show ?thesis
      using c True n l by (simp add: grown_def nth_list_update del: last.simps)
  qed
  then show "inv t3 (grown ei t ch h i)" "vdT ei t3 = (vdT ei t)(i := True)" "same_shape t t3"
    "recs t3 ! i = (if um \<and> vdT ei t h then e2 else put (off HELP_UPDATE_HEAD) v e2)"
    "\<And>j. j \<noteq> i \<Longrightarrow> recs t3 ! j = recs t ! j \<or> recs t3 ! j = put (off HELP_UPDATE_ENTRY) (of_nat i) (recs t ! j)"
    by blast+
  show "i \<in> set (h # grown ei t ch h i h)" using sh by (auto simp: grown_def add_shape_def split: if_splits)
qed

lemma add_shape_cmds:
  assumes inv: "inv t ch" and h: "h < table_entries t" and sh: "add_shape t ch h i e1 v t1 ds"
  shows "length ds \<le> (if um then 1 else 2)" "ds \<noteq> []"
    "\<And>d. d \<in> set ds \<Longrightarrow> \<exists>k j w. d = cmd_one t k j w \<and> VALID_DMA_HELP_TYPE k \<and> j < n_recs t"
proof -
  have "last (h # ch h) < n_recs t"
    using chain_in_range [OF inv h, of "last (h # ch h)"] last_in_set [of "h # ch h"] by blast
  then show "\<And>d. d \<in> set ds \<Longrightarrow> \<exists>k j w. d = cmd_one t k j w \<and> VALID_DMA_HELP_TYPE k \<and> j < n_recs t"
    using sh unfolding add_shape_def by (auto simp del: last.simps split: if_splits)
  show "length ds \<le> (if um then 1 else 2)" "ds \<noteq> []"
    using sh unfolding add_shape_def by (auto split: if_splits)
qed

end

end
