(* ===== verification/Nat_Rules_Ok.thy ===== *)
theory Nat_Rules_Ok
  imports Nat_Rules Ipa_Table_Ops
begin

text \<open>
  Properties of the NAT records: the memory layout is a bijection and each DMA field offset names the
  field it is meant for, the checksum differences are the one's complement differences, the hashes
  stay inside the base table, and both callback tables satisfy the contract \<open>table_entry\<close>.
\<close>

section \<open>Layout\<close>

lemma join32: "ucast (ucast x :: u16) OR push_bit 16 (ucast (ucast (drop_bit 16 x) :: u16)) = (x :: u32)"
  by (rule bit_word_eqI) (auto simp: bit_simps dest: bit_imp_le_length)

lemma nat_flags_fields [simp]:
  "ucast (nat_flags uc s r en) = uc" "bit (nat_flags uc s r en) 13 = s"
  "bit (nat_flags uc s r en) 14 = r" "bit (nat_flags uc s r en) 15 = en"
proof -
  show "ucast (nat_flags uc s r en) = uc"
    by (rule bit_word_eqI) (auto simp: nat_flags_def bit_simps dest: bit_imp_le_length)
qed (auto simp: nat_flags_def bit_simps dest: bit_imp_le_length)

lemma nat_pdn_info_fields [simp]:
  "ucast (nat_pdn_info r2 r3 d s u p) = r2" "bit (nat_pdn_info r2 r3 d s u p) 8 = r3"
  "bit (nat_pdn_info r2 r3 d s u p) 9 = d" "bit (nat_pdn_info r2 r3 d s u p) 10 = s"
  "bit (nat_pdn_info r2 r3 d s u p) 11 = u" "ucast (drop_bit 12 (nat_pdn_info r2 r3 d s u p)) = p"
proof -
  show "ucast (nat_pdn_info r2 r3 d s u p) = r2"
    by (rule bit_word_eqI) (auto simp: nat_pdn_info_def bit_simps dest: bit_imp_le_length)
  show "ucast (drop_bit 12 (nat_pdn_info r2 r3 d s u p)) = p"
    by (rule bit_word_eqI) (auto simp: nat_pdn_info_def bit_simps dest: bit_imp_le_length)
qed (auto simp: nat_pdn_info_def bit_simps dest: bit_imp_le_length)

lemma join24:
  "ucast (ucast x :: u16) OR push_bit 16 (ucast (ucast (drop_bit 16 x) OR push_bit 8 (ucast (p :: u8)) :: u16)) = (x :: 24 word)"
  by (rule bit_word_eqI) (auto simp: bit_simps dest: bit_imp_le_length)

lemma proto_field: "ucast (drop_bit 8 (ucast (drop_bit 16 (x :: 24 word)) OR push_bit 8 (ucast p) :: u16)) = (p :: u8)"
  by (rule bit_word_eqI) (auto simp: bit_simps dest: bit_imp_le_length)

lemma nat_encode_length [simp]: "length (nat_encode e) = 16"
  by (simp add: nat_encode_def)

lemma nat_decode_encode: "nat_decode (nat_encode e) = e"
  by (cases e) (simp add: nat_encode_def nat_decode_def join32 join24 proto_field proto_field [unfolded drop_bit_or])

lemma split32:
  "ucast (ucast (a :: u16) OR push_bit 16 (ucast (b :: u16)) :: u32) = a"
  "ucast (drop_bit 16 (ucast (a :: u16) OR push_bit 16 (ucast (b :: u16)) :: u32)) = b"
  by (rule bit_word_eqI; auto simp: bit_simps dest: bit_imp_le_length)+

lemma nat_flags_join: "nat_flags (ucast h) (bit h 13) (bit h 14) (bit h 15) = h" for h :: u16
proof (rule bit_word_eqI)
  fix n assume "n < LENGTH(16)"
  then consider "n < 13" | "n = 13" | "n = 14" | "n = 15" by fastforce
  then show "bit (nat_flags (ucast h) (bit h 13) (bit h 14) (bit h 15)) n = bit h n"
    by cases (auto simp: nat_flags_def bit_simps)
qed

lemma nat_pdn_info_join:
  "nat_pdn_info (ucast h) (bit h 8) (bit h 9) (bit h 10) (bit h 11) (ucast (drop_bit 12 h)) = h" for h :: u16
proof (rule bit_word_eqI)
  fix n assume "n < LENGTH(16)"
  then consider "n < 8" | "n = 8" | "n = 9" | "n = 10" | "n = 11" | "12 \<le> n" "n < 16" by fastforce
  then show "bit (nat_pdn_info (ucast h) (bit h 8) (bit h 9) (bit h 10) (bit h 11) (ucast (drop_bit 12 h))) n = bit h n"
    by cases (auto simp: nat_pdn_info_def bit_simps)
qed

lemma time_proto_join:
  "ucast (ucast (a :: u16) OR push_bit 16 (ucast (b :: u16)) :: 24 word) = a"
  "ucast (drop_bit 16 (ucast (a :: u16) OR push_bit 16 (ucast b) :: 24 word)) OR
     push_bit 8 (ucast (ucast (drop_bit 8 b) :: u8)) = (b :: u16)"
  by (rule bit_word_eqI; auto simp: bit_simps dest: bit_imp_le_length)+

lemma nat_encode_decode:
  assumes "length hs = 16"
  shows "nat_encode (nat_decode hs) = hs"
proof -
  obtain a0 a1 a2 a3 a4 a5 a6 a7 a8 a9 b0 b1 b2 b3 b4 b5 where
    hs: "hs = [a0, a1, a2, a3, a4, a5, a6, a7, a8, a9, b0, b1, b2, b3, b4, b5]"
    using assms by (auto simp: length_Suc_conv numeral_eq_Suc)
  show ?thesis
    by (simp add: hs nat_encode_def nat_decode_def split32 split32 [unfolded drop_bit_or] nat_flags_join
          nat_pdn_info_join time_proto_join time_proto_join [unfolded drop_bit_or])
qed

lemmas nat_fields = nat_encode_def nat_decode_def join32 join24 proto_field proto_field [unfolded drop_bit_or]

lemma nat_put_next: "nat_put IPA_NAT_RULE_NEXT_FIELD_OFFSET v e = e\<lparr>next_index := v\<rparr>"
  by (cases e) (simp add: nat_put_def IPA_NAT_RULE_NEXT_FIELD_OFFSET_def nat_fields)

lemma nat_put_flags:
  "nat_put IPA_NAT_RULE_FLAG_FIELD_OFFSET v e =
     e\<lparr>uc_activation_index := ucast v, s_bit := bit v 13, redirect := bit v 14, enable := bit v 15\<rparr>"
  by (cases e) (simp add: nat_put_def IPA_NAT_RULE_FLAG_FIELD_OFFSET_def nat_fields)

lemma nat_put_proto:
  "nat_put IPA_NAT_RULE_PROTO_FIELD_OFFSET v e =
     e\<lparr>time_stamp := ucast (ucast (time_stamp e) :: u16) OR push_bit 16 (ucast v),
       protocol := ucast (drop_bit 8 v)\<rparr>"
  by (cases e) (simp add: nat_put_def IPA_NAT_RULE_PROTO_FIELD_OFFSET_def nat_fields)


section \<open>The callbacks satisfy the contract\<close>

fun nat_off :: "dma_help_type \<Rightarrow> nat" where
  "nat_off HELP_UPDATE_HEAD = IPA_NAT_RULE_FLAG_FIELD_OFFSET"
| "nat_off HELP_UPDATE_ENTRY = IPA_NAT_RULE_NEXT_FIELD_OFFSET"
| "nat_off HELP_DELETE_HEAD = IPA_NAT_RULE_PROTO_FIELD_OFFSET"
| "nat_off HELP_UPDATE_MAX = 0"

fun indx_off :: "dma_help_type \<Rightarrow> nat" where
  "indx_off HELP_UPDATE_HEAD = IPA_NAT_INDEX_RULE_NAT_INDEX_FIELD_OFFSET"
| "indx_off HELP_UPDATE_ENTRY = IPA_NAT_INDEX_RULE_NEXT_FIELD_OFFSET"
| "indx_off HELP_DELETE_HEAD = IPA_NAT_INDEX_RULE_NAT_INDEX_FIELD_OFFSET"
| "indx_off HELP_UPDATE_MAX = 0"

definition pdn_in_range :: "ipa_nat_pdn_entry list \<Rightarrow> ipa_nat_ipv4_rule \<Rightarrow> bool" where
  "pdn_in_range pdns u \<longleftrightarrow> unat (u_pdn_index u) < length pdns"

lemmas nat_callbacks = entry_interface_def table_entry_is_valid_def table_entry_get_next_index_def
  table_entry_get_prev_index_def table_entry_set_prev_index_def table_entry_head_insert_def
  table_entry_get_delete_head_dma_command_data_def table_entry_copy_from_user_def nat_rule_zero_def

lemmas indx_callbacks = index_entry_interface_def index_table_entry_is_valid_def
  index_table_entry_get_next_index_def index_table_entry_get_prev_index_def
  index_table_entry_set_prev_index_def index_table_entry_head_insert_def
  index_table_entry_tail_insert_def index_table_entry_get_delete_head_dma_command_data_def
  indx_rule_zero_def indx_put_def IPA_NAT_INDEX_RULE_NAT_INDEX_FIELD_OFFSET_def
  IPA_NAT_INDEX_RULE_NEXT_FIELD_OFFSET_def

interpretation nat_tbl: table_entry "entry_interface pdns" nat_put nat_off False "pdn_in_range pdns"
  IPA_NAT_BASE_TBL IPA_NAT_EXPN_TBL for pdns
proof unfold_locales
  show "entry_get_prev_index (entry_interface pdns) (nat_put (nat_off k) v e) i m te =
        entry_get_prev_index (entry_interface pdns) e i m te" if "VALID_DMA_HELP_TYPE k" for k v e i m te
    using that by (cases k) (simp_all add: nat_callbacks nat_put_flags nat_put_next nat_put_proto VALID_DMA_HELP_TYPE_def)
  show "\<exists>e' v. entry_head_insert (entry_interface pdns) e u = Some (0, e', v) \<and>
          entry_get_next_index (entry_interface pdns) e' = entry_get_next_index (entry_interface pdns) e \<and>
          (\<forall>i m te. entry_get_prev_index (entry_interface pdns) e' i m te =
                     entry_get_prev_index (entry_interface pdns) e i m te) \<and>
          entry_is_valid (entry_interface pdns) (nat_put (nat_off HELP_UPDATE_HEAD) v e')"
    if "pdn_in_range pdns u" for u e
    using that by (simp add: nat_callbacks pdn_in_range_def nat_put_flags Let_def)
  show "\<exists>e' m'. entry_set_prev_index (entry_interface pdns) e i p m te = Some (e', m') \<and>
            meta_fits False m' te n \<and>
            entry_is_valid (entry_interface pdns) e' = entry_is_valid (entry_interface pdns) e \<and>
            entry_get_next_index (entry_interface pdns) e' = entry_get_next_index (entry_interface pdns) e \<and>
            entry_get_prev_index (entry_interface pdns) e' i m' te = Some p \<and>
            (\<forall>e2 j. j \<noteq> i \<longrightarrow> entry_get_prev_index (entry_interface pdns) e2 j m' te =
                               entry_get_prev_index (entry_interface pdns) e2 j m te)"
    if "meta_fits False m te n" "te \<le> i" "i < n" "p < 65536" for m te n i p e
    using that unat_of_nat_u16 [of p] by (simp add: nat_callbacks)
qed (simp_all add: nat_callbacks nat_put_flags nat_put_next nat_put_proto)

interpretation indx_tbl: table_entry index_entry_interface indx_put indx_off True "\<lambda>u. u \<noteq> 0"
  IPA_NAT_INDX_TBL IPA_NAT_INDEX_EXPN_TBL
proof unfold_locales
  show "\<exists>p. entry_get_prev_index index_entry_interface e i m te = Some p"
    if "meta_fits True m te n" "i < n" for m te n i e
    using that by (auto simp: indx_callbacks meta_fits_def split: option.splits)
  show "entry_get_prev_index index_entry_interface (indx_put (indx_off k) v e) i m te =
        entry_get_prev_index index_entry_interface e i m te" if "VALID_DMA_HELP_TYPE k" for k v e i m te
    by (simp add: indx_callbacks)
  show "\<exists>e' m'. entry_set_prev_index index_entry_interface e i p m te = Some (e', m') \<and>
            meta_fits True m' te n \<and>
            entry_is_valid index_entry_interface e' = entry_is_valid index_entry_interface e \<and>
            entry_get_next_index index_entry_interface e' = entry_get_next_index index_entry_interface e \<and>
            entry_get_prev_index index_entry_interface e' i m' te = Some p \<and>
            (\<forall>e2 j. j \<noteq> i \<longrightarrow> entry_get_prev_index index_entry_interface e2 j m' te =
                               entry_get_prev_index index_entry_interface e2 j m te)"
    if "meta_fits True m te n" "te \<le> i" "i < n" "p < 65536" for m te n i p e
    using that unat_of_nat_u16 [of p]
    by (auto simp: indx_callbacks meta_fits_def nth_list_update split: option.splits)
qed (simp_all add: indx_callbacks)

section \<open>The record a client rule becomes\<close>

definition user_fields :: "ipa_nat_pdn_entry list \<Rightarrow> ipa_nat_ipv4_rule \<Rightarrow> ipa_nat_rule \<Rightarrow> ipa_nat_rule" where
  "user_fields pdns u e = snd (the (table_entry_copy_from_user pdns e u))"

lemma head_insert_user_fields:
  "pdn_in_range pdns u \<Longrightarrow> table_entry_head_insert pdns e u =
     Some (0, user_fields pdns u e, nat_flags (ucast (u_uc_activation_index u)) (u_s u) False True)"
  by (simp add: user_fields_def table_entry_head_insert_def table_entry_copy_from_user_def pdn_in_range_def Let_def)

lemma user_fields_simps [simp]:
  assumes "pdn_in_range pdns u"
  shows "next_index (user_fields pdns u e) = next_index e" "prev_index (user_fields pdns u e) = prev_index e"
    "protocol (user_fields pdns u e) = u_protocol u" "target_ip (user_fields pdns u e) = u_target_ip u"
    "private_ip (user_fields pdns u e) = u_private_ip u" "target_port (user_fields pdns u e) = u_target_port u"
    "private_port (user_fields pdns u e) = u_private_port u" "public_port (user_fields pdns u e) = u_public_port u"
    "indx_tbl_entry (user_fields pdns u e) = indx_tbl_entry e"
  using assms by (simp_all add: user_fields_def table_entry_copy_from_user_def pdn_in_range_def Let_def)

section \<open>Hashes\<close>

text \<open>\<open>sz\<close> is \<^verbatim>\<open>table_entries - 1\<close>, all ones since \<^verbatim>\<open>table_entries\<close> is a power of two.\<close>

lemma hash_mask_range:
  fixes x :: u16
  assumes "sz = of_nat (2 ^ k - 1)" "1 \<le> k" "k \<le> 12" "r = (if x AND sz = 0 then sz else x AND sz)"
  shows "0 < unat r" "unat r < 2 ^ k"
proof -
  have "(2::nat) ^ k \<le> 2 ^ 12" using assms(3) by (intro power_increasing) simp_all
  then have small: "(2::nat) ^ k - 1 < 65536" by simp
  have "(2::nat) ^ 1 \<le> 2 ^ k" using assms(2) by (intro power_increasing) simp_all
  then have two: "2 \<le> (2::nat) ^ k" by simp
  have sz: "unat sz = 2 ^ k - 1" unfolding assms(1) by (rule unat_of_nat_u16 [OF small])
  then have sz0: "sz \<noteq> 0" using two by auto
  have "x AND sz \<le> sz" by (rule word_and_le1)
  then have le: "unat (x AND sz) \<le> 2 ^ k - 1" using sz by (simp add: word_le_nat_alt)
  show "0 < unat r" using sz0 assms(4) by (auto simp: unat_gt_0)
  show "unat r < 2 ^ k" using le sz two assms(4) by auto
qed

text \<open>Both hashes of a rule are proper base table indices: on a base table of \<open>2 ^ k\<close> records they
  are at least 1 and below \<open>2 ^ k\<close>, so record 0, the null index, is never the head of a chain.\<close>

theorem hashes_in_base_table:
  assumes "1 \<le> k" "k \<le> 12"
  shows "0 < unat (dst_hash v4 pub_ip t_ip t_port p_port proto (of_nat (2 ^ k - 1))) \<and>
         unat (dst_hash v4 pub_ip t_ip t_port p_port proto (of_nat (2 ^ k - 1))) < 2 ^ k \<and>
         0 < unat (src_hash priv_ip priv_port t_ip t_port proto (of_nat (2 ^ k - 1))) \<and>
         unat (src_hash priv_ip priv_port t_ip t_port proto (of_nat (2 ^ k - 1))) < 2 ^ k"
  unfolding dst_hash_def src_hash_def Let_def
  using hash_mask_range [OF refl assms refl] by blast

theorem hashes_in_base_table_witness:
  "(1::nat) \<le> 10 \<and> (10::nat) \<le> 12 \<and>
   unat (dst_hash True 0xC0A80001 0x08080808 53 1024 17 (of_nat (2 ^ 10 - 1))) < 2 ^ 10"
  using hashes_in_base_table [of 10] by simp

section \<open>Checksum differences\<close>

abbreviation lo16 :: "u32 \<Rightarrow> nat" where "lo16 w \<equiv> unat w mod 65536"
abbreviation hi16 :: "u32 \<Rightarrow> nat" where "hi16 w \<equiv> unat w div 65536"

lemma and_FFFF: "(w :: u32) AND 0xFFFF = take_bit 16 w"
proof -
  have "(0xFFFF :: u32) = mask 16" by (simp add: mask_eq_exp_minus_1)
  then show ?thesis by (simp add: take_bit_eq_mask)
qed

lemma unat_lo16: "unat (w AND 0xFFFF :: u32) = lo16 w"
  unfolding and_FFFF unsigned_take_bit_eq by (simp add: take_bit_eq_mod)

lemma unat_hi16: "unat (drop_bit 16 w :: u32) = hi16 w"
  unfolding unat_drop_bit_eq by (simp add: drop_bit_eq_div)

lemma hi16_bound: "hi16 w \<le> 65535"
  using unsigned_less [of w, where ?'a = nat] by simp

lemma unat_u32_add: "unat (a :: u32) + unat b < 2 ^ 32 \<Longrightarrow> unat (a + b) = unat a + unat b"
  by (simp add: unat_plus_if')

lemma unat_not_u32: "unat (NOT p :: u32) = 4294967295 - unat p" "unat (p :: u32) \<le> 4294967295"
proof -
  have "unat (p + NOT p) = 4294967295" by (simp add: unsigned_minus_1_eq_mask mask_eq_exp_minus_1)
  moreover have b: "unat p < 4294967296" "unat (NOT p) < 4294967296"
    using unsigned_less [of p, where ?'a = nat] unsigned_less [of "NOT p", where ?'a = nat] by simp_all
  ultimately show "unat (NOT p) = 4294967295 - unat p"
    unfolding unat_plus_if' by (simp split: if_splits)
  show "unat p \<le> 4294967295" using b by simp
qed

lemma lo16_not: "lo16 (NOT p) = 65535 - lo16 p" and hi16_not: "hi16 (NOT p) = 65535 - hi16 p"
proof -
  define h l where "h = hi16 p" and "l = lo16 p"
  have "unat p = 65536 * h + l" "h \<le> 65535" "l < 65536"
    using hi16_bound [of p] by (simp_all add: h_def l_def)
  then have "unat (NOT p) = (65535 - l) + 65536 * (65535 - h)"
    by (simp add: unat_not_u32 algebra_simps)
  then show "lo16 (NOT p) = 65535 - lo16 p" "hi16 (NOT p) = 65535 - hi16 p"
    by (simp_all add: h_def [symmetric] l_def [symmetric])
qed

lemma cksum_fold_mod:
  assumes "unat c \<le> 131070"
  shows "unat (cksum_fold c) \<le> 65535" "unat (cksum_fold c) mod 65535 = unat c mod 65535"
proof -
  have fold: "unat (cksum_fold c) = (if hi16 c \<noteq> 0 then lo16 c + 1 else unat c)"
  proof -
    have "unat ((c AND 0xFFFF) + 1) = lo16 c + 1"
      using unat_u32_add [of "c AND 0xFFFF" 1] by (simp add: unat_lo16)
    moreover have "drop_bit 16 c \<noteq> 0 \<longleftrightarrow> hi16 c \<noteq> 0"
      using unat_hi16 [of c] by (metis unat_eq_zero)
    ultimately show ?thesis by (simp add: cksum_fold_def)
  qed
  have dm: "unat c = 65536 * hi16 c + lo16 c" "lo16 c \<le> 65535" by simp_all
  show "unat (cksum_fold c) \<le> 65535"
  proof (cases "hi16 c = 0")
    case False
    then have "1 \<le> hi16 c" by simp
    then have "lo16 c \<le> 65534" using assms dm by linarith
    then show ?thesis using fold False by simp
  next
    case True
    then have "unat c \<le> 65535" using dm by linarith
    then show ?thesis using fold True by simp
  qed
  show "unat (cksum_fold c) mod 65535 = unat c mod 65535"
  proof (cases "hi16 c = 0")
    case False
    then have "1 \<le> hi16 c" "hi16 c < 2" using assms by simp_all
    then have "hi16 c = 1" by linarith
    then have "unat c = 65535 + (lo16 c + 1)" using dm by linarith
    then have "unat c mod 65535 = (lo16 c + 1) mod 65535" by (metis mod_add_self1)
    then show ?thesis using False fold by simp
  qed (simp add: fold)
qed

text \<open>One step of the sum: the running value stays a halfword and is the sum modulo \<open>2 ^ 16 - 1\<close>.\<close>

lemma cksum_step:
  assumes "unat c \<le> 65535" "unat c mod 65535 = a mod 65535" "unat x \<le> 65535"
  shows "unat (cksum_fold (c + x)) \<le> 65535" "unat (cksum_fold (c + x)) mod 65535 = (a + unat x) mod 65535"
proof -
  have sum: "unat (c + x) = unat c + unat x" using assms by (intro unat_u32_add) simp
  then show "unat (cksum_fold (c + x)) \<le> 65535" using assms by (intro cksum_fold_mod) simp
  have "unat (cksum_fold (c + x)) mod 65535 = (unat c + unat x) mod 65535"
    using cksum_fold_mod(2) [of "c + x"] assms sum by simp
  then show "unat (cksum_fold (c + x)) mod 65535 = (a + unat x) mod 65535"
    using mod_add_cong [OF assms(2) refl, of "unat x"] by simp
qed

lemma unat_ucast_u16_u32: "unat (ucast (x :: u16) :: u32) = unat x"
  using unat_u16_less [of x] by (simp add: unsigned_ucast_eq take_bit_nat_eq_self_iff)

lemma unat_ucast_u32_u16: "unat (c :: u32) \<le> 65535 \<Longrightarrow> unat (ucast c :: u16) = unat c"
  by (simp add: unsigned_ucast_eq take_bit_nat_eq_self_iff)

lemma unat_not_u16: "unat (NOT p :: u16) = 65535 - unat p"
proof -
  have "unat (p + NOT p) = 65535" by (simp add: unsigned_minus_1_eq_mask mask_eq_exp_minus_1)
  moreover have "unat p < 65536" "unat (NOT p) < 65536" by (rule unat_u16_less)+
  ultimately show ?thesis unfolding unat_plus_if' by (simp split: if_splits)
qed

lemma ones_diff: "(a + (65535 - b)) + b = a + 65535" if "b \<le> 65535" for a b :: nat
  using that by simp

lemma ip_cksum_mod:
  "(unat (ipa_nati_calc_ip_cksum q p) + lo16 p + hi16 p) mod 65535 = (lo16 q + hi16 q) mod 65535"
proof -
  have 0: "unat (0 + (q AND 0xFFFF)) \<le> 65535" "unat (0 + (q AND 0xFFFF)) mod 65535 = lo16 q mod 65535"
    by (simp_all add: unat_lo16)
  note 1 = cksum_step [OF 0, of "drop_bit 16 q", unfolded unat_hi16, OF hi16_bound]
  note 2 = cksum_step [OF 1, of "NOT p AND 0xFFFF", unfolded unat_lo16 lo16_not, OF diff_le_self]
  note 3 = cksum_step [OF 2, of "drop_bit 16 (NOT p)", unfolded unat_hi16 hi16_not, OF diff_le_self]
  have "unat (ipa_nati_calc_ip_cksum q p) mod 65535 = (lo16 q + hi16 q + (65535 - lo16 p) + (65535 - hi16 p)) mod 65535"
    unfolding ipa_nati_calc_ip_cksum_def Let_def unat_ucast_u32_u16 [OF 3(1)] by (rule 3(2))
  then have "(unat (ipa_nati_calc_ip_cksum q p) + (lo16 p + hi16 p)) mod 65535 =
      (lo16 q + hi16 q + (65535 - lo16 p) + (65535 - hi16 p) + (lo16 p + hi16 p)) mod 65535"
    by (rule mod_add_cong) (rule refl)
  moreover have "lo16 p \<le> 65535" by simp
  then have "lo16 q + hi16 q + (65535 - lo16 p) + (65535 - hi16 p) + (lo16 p + hi16 p) =
      lo16 q + hi16 q + 65535 + 65535" using hi16_bound [of p] by linarith
  ultimately show ?thesis by (simp only: add.assoc [symmetric] mod_add_self2)
qed

lemma tcp_udp_cksum_mod:
  "(unat (ipa_nati_calc_tcp_udp_cksum q qp p pp) + lo16 p + hi16 p + unat pp) mod 65535 =
     (lo16 q + hi16 q + unat qp) mod 65535"
proof -
  have 0: "unat (0 + (q AND 0xFFFF)) \<le> 65535" "unat (0 + (q AND 0xFFFF)) mod 65535 = lo16 q mod 65535"
    by (simp_all add: unat_lo16)
  have ub: "unat w \<le> 65535" for w :: u16 using unat_u16_less [of w] by simp
  note 1 = cksum_step [OF 0, of "drop_bit 16 q", unfolded unat_hi16, OF hi16_bound]
  note 2 = cksum_step [OF 1, of "ucast qp", unfolded unat_ucast_u16_u32, OF ub]
  note 3 = cksum_step [OF 2, of "NOT p AND 0xFFFF", unfolded unat_lo16 lo16_not, OF diff_le_self]
  note 4 = cksum_step [OF 3, of "drop_bit 16 (NOT p)", unfolded unat_hi16 hi16_not, OF diff_le_self]
  note 5 = cksum_step [OF 4, of "ucast (NOT pp)", unfolded unat_ucast_u16_u32 unat_not_u16, OF diff_le_self]
  let ?s = "lo16 q + hi16 q + unat qp + (65535 - lo16 p) + (65535 - hi16 p) + (65535 - unat pp)"
  have "unat (ipa_nati_calc_tcp_udp_cksum q qp p pp) mod 65535 = ?s mod 65535"
    unfolding ipa_nati_calc_tcp_udp_cksum_def Let_def unat_ucast_u32_u16 [OF 5(1)] by (rule 5(2))
  then have "(unat (ipa_nati_calc_tcp_udp_cksum q qp p pp) + (lo16 p + hi16 p + unat pp)) mod 65535 =
      (?s + (lo16 p + hi16 p + unat pp)) mod 65535"
    by (rule mod_add_cong) (rule refl)
  moreover have "lo16 p \<le> 65535" by simp
  then have "?s + (lo16 p + hi16 p + unat pp) = lo16 q + hi16 q + unat qp + 65535 + 65535 + 65535"
    using hi16_bound [of p] ub [of pp] by linarith
  ultimately show ?thesis by (simp only: add.assoc [symmetric] mod_add_self2)
qed

text \<open>The checksum differences stored in a rule are the one's complement differences their comments
  promise: modulo \<open>2 ^ 16 - 1\<close>, adding the private address (and port) to the difference gives the
  public address (and port), both summed by halfwords, so the device can patch a packet's checksum by
  one addition.\<close>

theorem cksum_diff_correct:
  "(unat (ipa_nati_calc_ip_cksum q p) + lo16 p + hi16 p) mod 65535 = (lo16 q + hi16 q) mod 65535 \<and>
   (unat (ipa_nati_calc_tcp_udp_cksum q qp p pp) + lo16 p + hi16 p + unat pp) mod 65535 =
     (lo16 q + hi16 q + unat qp) mod 65535"
  using ip_cksum_mod tcp_udp_cksum_mod by blast

end
