(* ===== verification/Nat_Drvi_Ok.thy ===== *)
theory Nat_Drvi_Ok
  imports Nat_Drvi Nat_Rules_Ok
begin

text \<open>
  Correctness of adding and deleting IPv4 NAT rules.  The NAT table and the index table of a cache
  refer to each other: a live rule names its index entry and the index entry names the rule.  The
  invariant \<open>nat_inv\<close> says that both tables are well formed and that the two references are inverse to
  each other; the abstraction \<open>rules_of\<close> is the map from record index to rule.
\<close>

section \<open>Partial bijections\<close>

definition pbij :: "(nat \<Rightarrow> bool) \<Rightarrow> (nat \<Rightarrow> nat) \<Rightarrow> (nat \<Rightarrow> bool) \<Rightarrow> (nat \<Rightarrow> nat) \<Rightarrow> bool" where
  "pbij P f Q g \<longleftrightarrow> (\<forall>i. P i \<longrightarrow> Q (f i) \<and> g (f i) = i) \<and> (\<forall>k. Q k \<longrightarrow> P (g k) \<and> f (g k) = k)"

lemma pbij_cong:
  assumes "pbij P f Q g" "\<And>i. P' i = P i" "\<And>k. Q' k = Q k" "\<And>i. P i \<Longrightarrow> f' i = f i" "\<And>k. Q k \<Longrightarrow> g' k = g k"
  shows "pbij P' f' Q' g'"
  using assms unfolding pbij_def by auto

lemma pbij_insert:
  assumes b: "pbij P f Q g" and "\<not> P i" "\<not> Q k"
    and "\<And>j. P' j \<longleftrightarrow> j = i \<or> P j" "\<And>j. Q' j \<longleftrightarrow> j = k \<or> Q j"
    and "f' i = k" "g' k = i" "\<And>j. P j \<Longrightarrow> f' j = f j" "\<And>j. Q j \<Longrightarrow> g' j = g j"
  shows "pbij P' f' Q' g'"
  using assms unfolding pbij_def by metis

lemma pbij_delete:
  assumes b: "pbij P f Q g" and "P i" "f i = k"
    and "\<And>j. P' j \<longleftrightarrow> j \<noteq> i \<and> P j" "\<And>j. Q' j \<longleftrightarrow> j \<noteq> k \<and> Q j"
    and "\<And>j. P' j \<Longrightarrow> f' j = f j" "\<And>j. Q' j \<Longrightarrow> g' j = g j"
  shows "pbij P' f' Q' g'"
  using assms unfolding pbij_def by metis

text \<open>The index entry of \<open>j\<close> moves from \<open>y\<close> to \<open>k\<close>, the place of the deleted \<open>i\<close>.\<close>

lemma pbij_delete_move:
  assumes b: "pbij P f Q g" and i: "P i" "f i = k" and y: "Q y" "g y = j" "y \<noteq> k"
    and P': "\<And>m. P' m \<longleftrightarrow> m \<noteq> i \<and> P m" and Q': "\<And>m. Q' m \<longleftrightarrow> m \<noteq> y \<and> Q m"
    and moved: "f' j = k" "g' k = j"
    and f': "\<And>m. P' m \<Longrightarrow> m \<noteq> j \<Longrightarrow> f' m = f m" and g': "\<And>m. Q' m \<Longrightarrow> m \<noteq> k \<Longrightarrow> g' m = g m"
  shows "pbij P' f' Q' g'"
proof -
  have fw: "\<And>m. P m \<Longrightarrow> Q (f m) \<and> g (f m) = m" and bw: "\<And>m. Q m \<Longrightarrow> P (g m) \<and> f (g m) = m"
    using b unfolding pbij_def by blast+
  have j: "P j" "f j = y" "j \<noteq> i" using bw [OF y(1)] y i by auto
  have k: "Q k" "g k = i" using fw [OF i(1)] i by auto
  have 1: "Q' (f' m) \<and> g' (f' m) = m" if "P' m" for m
  proof (cases "m = j")
    case True
    then show ?thesis using moved k Q' y(3) by auto
  next
    case False
    have m: "m \<noteq> i" "P m" using that P' by auto
    then have "f m \<noteq> y" "f m \<noteq> k" using fw [OF m(2)] k y False by auto
    then show ?thesis using f' [OF that False] fw [OF m(2)] Q' g' by auto
  qed
  have 2: "P' (g' m) \<and> f' (g' m) = m" if "Q' m" for m
  proof (cases "m = k")
    case True
    then show ?thesis using moved j P' by auto
  next
    case False
    have m: "m \<noteq> y" "Q m" using that Q' by auto
    then have "g m \<noteq> i" "g m \<noteq> j" using bw [OF m(2)] i j False by auto
    then show ?thesis using g' [OF that False] bw [OF m(2)] P' f' by auto
  qed
  show ?thesis unfolding pbij_def using 1 2 by blast
qed

section \<open>Invariant and abstraction\<close>

abbreviation nat_ei :: "(ipa_nat_rule, ipa_nat_ipv4_rule) ipa_table_entry_interface" where
  "nat_ei \<equiv> entry_interface []"

abbreviation indx_ei :: "(ipa_nat_indx_tbl_rule, u16) ipa_table_entry_interface" where
  "indx_ei \<equiv> index_entry_interface"

abbreviation nat_tinv :: "ipa_nat_rule ipa_table \<Rightarrow> (nat \<Rightarrow> nat list) \<Rightarrow> bool" where
  "nat_tinv \<equiv> table_inv nat_ei False IPA_NAT_BASE_TBL IPA_NAT_EXPN_TBL nat_off"

abbreviation indx_tinv :: "ipa_nat_indx_tbl_rule ipa_table \<Rightarrow> (nat \<Rightarrow> nat list) \<Rightarrow> bool" where
  "indx_tinv \<equiv> table_inv indx_ei True IPA_NAT_INDX_TBL IPA_NAT_INDEX_EXPN_TBL indx_off"

definition live :: "ipa_nat_rule ipa_table \<Rightarrow> nat \<Rightarrow> bool" where
  "live t i \<longleftrightarrow> vdT nat_ei t i \<and> protocol (recs t ! i) \<noteq> IPAHAL_NAT_INVALID_PROTOCOL"

definition indx_of :: "ipa_nat_rule ipa_table \<Rightarrow> nat \<Rightarrow> nat" where
  "indx_of t i = unat (indx_tbl_entry (recs t ! i))"

definition rule_of :: "ipa_nat_indx_tbl_rule ipa_table \<Rightarrow> nat \<Rightarrow> nat" where
  "rule_of x k = unat (tbl_entry (recs x ! k))"

definition rule_view :: "ipa_nat_rule \<Rightarrow> ipa_nat_rule" where
  "rule_view e = e\<lparr>next_index := 0, prev_index := 0, indx_tbl_entry := 0\<rparr>"

definition rules_of :: "ipa_nat_rule ipa_table \<Rightarrow> nat \<Rightarrow> ipa_nat_rule option" where
  "rules_of t i = (if live t i then Some (rule_view (recs t ! i)) else None)"

definition nat_inv ::
  "ipa_nat_rule ipa_table \<Rightarrow> ipa_nat_indx_tbl_rule ipa_table \<Rightarrow> (nat \<Rightarrow> nat list) \<Rightarrow> (nat \<Rightarrow> nat list) \<Rightarrow> bool" where
  "nat_inv t x ct cx \<longleftrightarrow>
     nat_tinv t ct \<and> indx_tinv x cx \<and>
     table_entries x = table_entries t \<and> expn_table_entries x = expn_table_entries t \<and>
     (\<exists>k. 1 \<le> k \<and> k \<le> 12 \<and> table_entries t = 2 ^ k) \<and>
     pbij (live t) (indx_of t) (vdT indx_ei x) (rule_of x) \<and>
     (\<forall>i. vdT nat_ei t i \<and> \<not> live t i \<longrightarrow> i < table_entries t \<and> ct i \<noteq> [])"

lemma nat_invD:
  assumes "nat_inv t x ct cx"
  shows nat_inv_t: "nat_tinv t ct" and nat_inv_x: "indx_tinv x cx"
    and nat_inv_te: "table_entries x = table_entries t" "expn_table_entries x = expn_table_entries t"
    and nat_inv_pow: "\<exists>k. 1 \<le> k \<and> k \<le> 12 \<and> table_entries t = 2 ^ k"
    and nat_inv_pbij: "pbij (live t) (indx_of t) (vdT indx_ei x) (rule_of x)"
    and nat_inv_dead: "vdT nat_ei t i \<Longrightarrow> \<not> live t i \<Longrightarrow> i < table_entries t \<and> ct i \<noteq> []"
  using assms unfolding nat_inv_def by blast+

text \<open>The views do not depend on the PDN table.\<close>

lemma interface_pdns:
  "entry_is_valid (entry_interface pdns) = entry_is_valid nat_ei"
  "entry_get_next_index (entry_interface pdns) = entry_get_next_index nat_ei"
  "entry_get_prev_index (entry_interface pdns) = entry_get_prev_index nat_ei"
  "entry_zero (entry_interface pdns) = entry_zero nat_ei"
  by (simp_all add: entry_interface_def)

lemma views_pdns:
  "vdT (entry_interface pdns) = vdT nat_ei" "nxT (entry_interface pdns) = nxT nat_ei"
  "pvT (entry_interface pdns) = pvT nat_ei"
  by (intro ext, simp only: vdT_def nxT_def pvT_def interface_pdns [of pdns])+

lemma inv_pdns: "table_inv (entry_interface pdns) um bt xt off = table_inv nat_ei um bt xt off"
  by (intro ext) (simp only: table_inv_def views_pdns [of pdns] interface_pdns [of pdns])

section \<open>Slots\<close>

lemma mask_of_power: "1 \<le> k \<Longrightarrow> k \<le> 12 \<Longrightarrow> (of_nat (2 ^ k) - 1 :: u16) = of_nat (2 ^ k - 1)"
  by (simp add: of_nat_diff)

lemma token_slot_range:
  assumes "1 \<le> k" "k \<le> 12" "sz = (of_nat (2 ^ k) - 1 :: u16)" "0 < unat hash" "unat hash < 2 ^ k"
    "token_slot b hash sz token = (r, token')"
  shows "0 < unat r" "unat r < 2 ^ k"
proof -
  have r: "r = (if b then (if (hash + ucast token) AND sz = 0 then sz else (hash + ucast token) AND sz) else hash)"
    using assms(6) by (auto simp: token_slot_def Let_def split: if_splits)
  have sz: "sz = of_nat (2 ^ k - 1)" using assms(1-3) mask_of_power by simp
  note m = hash_mask_range [OF sz assms(1,2) refl, of "hash + ucast token"]
  show "0 < unat r" "unat r < 2 ^ k" using r m assms(4,5) by auto
qed

lemma nat_slot_range:
  assumes "1 \<le> k" "k \<le> 12" "table_entries t = 2 ^ k" "nat_slot desc pdns t u token = (r, token')"
  shows "0 < unat r" "unat r < table_entries t"
proof -
  let ?sz = "of_nat (2 ^ k) - 1 :: u16"
  have sz: "?sz = of_nat (2 ^ k - 1)" by (rule mask_of_power [OF assms(1,2)])
  note hr = hash_mask_range [OF sz assms(1,2) refl]
  have d: "0 < unat (dst_hash v a b c d e ?sz)" "unat (dst_hash v a b c d e ?sz) < 2 ^ k" for v a b c d e
    unfolding dst_hash_def Let_def by (rule hr)+
  show "0 < unat r" "unat r < table_entries t"
    using token_slot_range [OF assms(1,2) refl d assms(4) [unfolded nat_slot_def Let_def assms(3)]]
    unfolding assms(3) by blast+
qed

lemma indx_slot_range:
  assumes "1 \<le> k" "k \<le> 12" "table_entries t = 2 ^ k" "indx_slot t u token = (r, token')"
  shows "0 < unat r" "unat r < table_entries t"
proof -
  let ?sz = "of_nat (2 ^ k) - 1 :: u16"
  have sz: "?sz = of_nat (2 ^ k - 1)" by (rule mask_of_power [OF assms(1,2)])
  note hr = hash_mask_range [OF sz assms(1,2) refl]
  have d: "0 < unat (src_hash a b c d e ?sz)" "unat (src_hash a b c d e ?sz) < 2 ^ k" for a b c d e
    unfolding src_hash_def Let_def by (rule hr)+
  show "0 < unat r" "unat r < table_entries t"
    using token_slot_range [OF assms(1,2) refl d assms(4) [unfolded indx_slot_def Let_def assms(3)]]
    unfolding assms(3) by blast+
qed

section \<open>The device\<close>

text \<open>What the library relies on: \<^verbatim>\<open>IPA_IOC_TABLE_DMA_CMD\<close> executes all writes in order when it
  succeeds and none when it fails.\<close>

definition dma_device :: "('w, 'z) nat_env_scheme \<Rightarrow> bool" where
  "dma_device env \<longleftrightarrow>
     (\<forall>fd cmd t x w. case env_table_dma env fd cmd (t, x) w of (r, tx, w') \<Rightarrow>
        tx = (if r = 0
              then (dma_run nat_put IPA_NAT_BASE_TBL IPA_NAT_EXPN_TBL (cmd_dma cmd) t,
                    dma_run indx_put IPA_NAT_INDX_TBL IPA_NAT_INDEX_EXPN_TBL (cmd_dma cmd) x)
              else (t, x)))"

lemma post_dma_cases:
  assumes "dma_device env" "ipa_desc c = Some desc"
  obtains w' where "ipa_nati_post_ipv4_dma_cmd env c cmd (t, x) w =
      Some (0, (dma_run nat_put IPA_NAT_BASE_TBL IPA_NAT_EXPN_TBL (cmd_dma cmd) t,
                dma_run indx_put IPA_NAT_INDX_TBL IPA_NAT_INDEX_EXPN_TBL (cmd_dma cmd) x), w')"
  | w' where "ipa_nati_post_ipv4_dma_cmd env c cmd (t, x) w = Some (- EIO, (t, x), w')"
proof -
  let ?cmd = "cmd\<lparr>cmd_mem_type := of_nat (nmi_code (cache_nmi c))\<rparr>"
  obtain r tx w' where e: "env_table_dma env (desc_fd desc) ?cmd (t, x) w = (r, tx, w')"
    by (cases "env_table_dma env (desc_fd desc) ?cmd (t, x) w")
  then have "tx = (if r = 0
              then (dma_run nat_put IPA_NAT_BASE_TBL IPA_NAT_EXPN_TBL (cmd_dma cmd) t,
                    dma_run indx_put IPA_NAT_INDX_TBL IPA_NAT_INDEX_EXPN_TBL (cmd_dma cmd) x)
              else (t, x))"
    using assms(1) [unfolded dma_device_def, rule_format, where fd = "desc_fd desc" and cmd = ?cmd and t = t and x = x and w = w] by simp
  then show ?thesis
    using that e assms(2) by (cases "r = 0") (simp_all add: ipa_nati_post_ipv4_dma_cmd_def)
qed

end
