(* ===== verification/Nat_Add_Ok.thy ===== *)
theory Nat_Add_Ok
  imports Nat_Drvi_Ok
begin

text \<open>
  Adding a rule.  \<^verbatim>\<open>ipa_NATI_add_ipv4_rule\<close> inserts into the NAT table, then into the index table, and
  posts the commands of both.  On success both tables satisfy the invariant and the abstract map has
  gained exactly the client's rule; on every failure the records are what they were.
\<close>

section \<open>The two insertions\<close>

lemma free_slot_pdns: "free_slot (entry_interface pdns) = free_slot nat_ei"
  by (intro ext) (simp only: free_slot_def views_pdns [of pdns])

lemma grown_pdns: "grown (entry_interface pdns) = grown nat_ei"
  by (intro ext) (simp only: grown_def views_pdns [of pdns])

text \<open>What the record of a rule holds once the device has run, the links apart.  \<^verbatim>\<open>enable_data\<close> carries no
  \<^verbatim>\<open>redirect\<close> bit, so the device clears the bit the library has stored.\<close>

definition user_flags :: "ipa_nat_ipv4_rule \<Rightarrow> u16" where
  "user_flags u = nat_flags (ucast (u_uc_activation_index u)) (u_s u) False True"

definition stored_rule :: "ipa_nat_pdn_entry list \<Rightarrow> ipa_nat_ipv4_rule \<Rightarrow> ipa_nat_rule" where
  "stored_rule pdns u =
     rule_view ((user_fields pdns u nat_rule_zero)
       \<lparr>time_stamp := ucast (u_time_stamp u), redirect := False, enable := True\<rparr>)"

lemma user_fields_flags:
  "pdn_in_range pdns u \<Longrightarrow> uc_activation_index (user_fields pdns u e) = ucast (u_uc_activation_index u)"
  "pdn_in_range pdns u \<Longrightarrow> s_bit (user_fields pdns u e) = u_s u"
  by (simp_all add: user_fields_def table_entry_copy_from_user_def pdn_in_range_def Let_def)

abbreviation nat_added where
  "nat_added pdns \<equiv> table_entry.add_shape (entry_interface pdns) nat_put nat_off False"

abbreviation indx_added where
  "indx_added \<equiv> table_entry.add_shape indx_ei indx_put indx_off True"

lemma nat_add_cases:
  assumes inv: "nat_tinv t ct" and h: "0 < h" "h < table_entries t" and u: "pdn_in_range pdns u"
  obtains (full) "vdT nat_ei t h" "free_slot nat_ei t = None"
      "ipa_table_add_entry (entry_interface pdns) t u h cmd = Some (- 1, t, h, 0, cmd)"
  | (added) i p t1 ds where "\<not> (vdT nat_ei t h \<and> free_slot nat_ei t = None)"
      "ipa_table_add_entry (entry_interface pdns) t u h cmd =
         Some (0, t1, i, ucast (MakeEntryHdl t i), cmd\<lparr>cmd_dma := cmd_dma cmd @ ds\<rparr>)"
      "nat_added pdns t ct h i ((user_fields pdns u nat_rule_zero)\<lparr>prev_index := p\<rparr>) (user_flags u) t1 ds"
proof -
  have zero: "entry_zero (entry_interface pdns) = nat_rule_zero" by (simp add: entry_interface_def)
  have prev0: "(user_fields pdns u nat_rule_zero)\<lparr>prev_index := 0\<rparr> = user_fields pdns u nat_rule_zero"
    using u user_fields_simps(2) [OF u, of nat_rule_zero] by (simp add: nat_rule_zero_def)
  have hi: "entry_head_insert (entry_interface pdns) nat_rule_zero u = Some (0, user_fields pdns u nat_rule_zero, user_flags u)"
    using head_insert_user_fields [OF u] by (simp add: entry_interface_def user_flags_def)
  have inv': "nat_tbl.inv pdns t ct" using inv unfolding inv_pdns [of pdns] .
  note c = nat_tbl.add_entry_cases [OF inv' h u, of cmd,
      unfolded views_pdns [of pdns] free_slot_pdns [of pdns] zero hi]
  from c show thesis
  proof
    assume "vdT nat_ei t h \<and> free_slot nat_ei t = None \<and>
      ipa_table_add_entry (entry_interface pdns) t u h cmd = Some (- 1, t, h, 0, cmd)"
    then show thesis by (intro full) simp_all
  next
    assume "\<exists>i e1 v t1 ds. ipa_table_add_entry (entry_interface pdns) t u h cmd =
         Some (0, t1, i, ucast (MakeEntryHdl t i), cmd\<lparr>cmd_dma := cmd_dma cmd @ ds\<rparr>) \<and>
       nat_added pdns t ct h i e1 v t1 ds \<and>
       (\<exists>e0. (if False \<and> vdT nat_ei t h then entry_tail_insert (entry_interface pdns) nat_rule_zero u = Some (0, e0)
              else Some (0, user_fields pdns u nat_rule_zero, user_flags u) = Some (0, e0, v)) \<and>
             (if vdT nat_ei t h
              then entry_set_prev_index (entry_interface pdns) e0 i (last (h # ct h)) (meta t) (table_entries t) =
                     Some (e1, meta t1)
              else e1 = e0))"
    then obtain i e1 t1 ds where a: "ipa_table_add_entry (entry_interface pdns) t u h cmd =
         Some (0, t1, i, ucast (MakeEntryHdl t i), cmd\<lparr>cmd_dma := cmd_dma cmd @ ds\<rparr>)"
       "nat_added pdns t ct h i e1 (user_flags u) t1 ds"
       "if vdT nat_ei t h
        then entry_set_prev_index (entry_interface pdns) (user_fields pdns u nat_rule_zero) i (last (h # ct h)) (meta t)
               (table_entries t) = Some (e1, meta t1)
        else e1 = user_fields pdns u nat_rule_zero"
      by auto
    have "entry_set_prev_index (entry_interface pdns) = table_entry_set_prev_index" by (simp add: entry_interface_def)
    with a(3) obtain p where "e1 = (user_fields pdns u nat_rule_zero)\<lparr>prev_index := p\<rparr>"
      using prev0 by (cases "vdT nat_ei t h") (simp_all add: table_entry_set_prev_index_def, metis+)
    moreover have "\<not> (vdT nat_ei t h \<and> free_slot nat_ei t = None)"
      using a(2) unfolding nat_tbl.add_shape_def views_pdns [of pdns] free_slot_pdns [of pdns] by auto
    ultimately show thesis using a by (intro added) simp_all
  qed
qed

lemma indx_add_cases:
  assumes inv: "indx_tinv x cx" and g: "0 < g" "g < table_entries x" and u: "u \<noteq> 0"
  obtains (full) "vdT indx_ei x g" "free_slot indx_ei x = None"
      "ipa_table_add_entry indx_ei x u g cmd = Some (- 1, x, g, 0, cmd)"
  | (added) k e1 v x1 hdl ds where "\<not> (vdT indx_ei x g \<and> free_slot indx_ei x = None)"
      "ipa_table_add_entry indx_ei x u g cmd = Some (0, x1, k, hdl, cmd\<lparr>cmd_dma := cmd_dma cmd @ ds\<rparr>)"
      "indx_added x cx g k e1 v x1 ds" "if vdT indx_ei x g then tbl_entry e1 = u else v = u"
proof -
  have sp: "tbl_entry e' = tbl_entry e"
    if "entry_set_prev_index indx_ei e i p m te = Some (e', m')" for e e' i p m m' te
    using that by (auto simp: indx_callbacks split: if_splits option.splits)
  from indx_tbl.add_entry_cases [OF inv g u, of cmd] show thesis
  proof
    assume "vdT indx_ei x g \<and> free_slot indx_ei x = None \<and>
      ipa_table_add_entry indx_ei x u g cmd = Some (- 1, x, g, 0, cmd)"
    then show thesis by (intro full) simp_all
  next
    assume "\<exists>i e1 v t1 ds. ipa_table_add_entry indx_ei x u g cmd =
         Some (0, t1, i, ucast (MakeEntryHdl x i), cmd\<lparr>cmd_dma := cmd_dma cmd @ ds\<rparr>) \<and>
       indx_added x cx g i e1 v t1 ds \<and>
       (\<exists>e0. (if True \<and> vdT indx_ei x g then entry_tail_insert indx_ei (entry_zero indx_ei) u = Some (0, e0)
              else entry_head_insert indx_ei (entry_zero indx_ei) u = Some (0, e0, v)) \<and>
             (if vdT indx_ei x g
              then entry_set_prev_index indx_ei e0 i (last (g # cx g)) (meta x) (table_entries x) = Some (e1, meta t1)
              else e1 = e0))"
    then obtain i e1 v t1 ds e0 where a: "ipa_table_add_entry indx_ei x u g cmd =
         Some (0, t1, i, ucast (MakeEntryHdl x i), cmd\<lparr>cmd_dma := cmd_dma cmd @ ds\<rparr>)"
       "indx_added x cx g i e1 v t1 ds"
       "if vdT indx_ei x g then entry_tail_insert indx_ei (entry_zero indx_ei) u = Some (0, e0)
        else entry_head_insert indx_ei (entry_zero indx_ei) u = Some (0, e0, v)"
       "if vdT indx_ei x g
        then entry_set_prev_index indx_ei e0 i (last (g # cx g)) (meta x) (table_entries x) = Some (e1, meta t1)
        else e1 = e0"
      by auto
    have "if vdT indx_ei x g then tbl_entry e1 = u else v = u"
      using a(3,4) sp [of e0 i "last (g # cx g)" "meta x" "table_entries x" e1 "meta t1"]
      by (cases "vdT indx_ei x g")
         (simp_all add: index_entry_interface_def index_table_entry_tail_insert_def index_table_entry_head_insert_def
            del: last.simps, metis ipa_nat_indx_tbl_rule.select_convs(1) ipa_nat_indx_tbl_rule.surjective
            ipa_nat_indx_tbl_rule.update_convs(1))
    moreover have "\<not> (vdT indx_ei x g \<and> free_slot indx_ei x = None)"
      using a(2) unfolding indx_tbl.add_shape_def by auto
    ultimately show thesis using a(1,2) by (intro added) simp_all
  qed
qed

section \<open>Once the device has run\<close>

lemma nat_put_next_fields:
  "rule_view (nat_put (nat_off HELP_UPDATE_ENTRY) w e) = rule_view e"
  "protocol (nat_put (nat_off HELP_UPDATE_ENTRY) w e) = protocol e"
  "indx_tbl_entry (nat_put (nat_off HELP_UPDATE_ENTRY) w e) = indx_tbl_entry e"
  by (simp_all add: nat_put_next rule_view_def)

lemma new_rule_record:
  assumes u: "pdn_in_range pdns u"
    and e: "e = nat_put (nat_off HELP_UPDATE_HEAD) (user_flags u)
                 (finish_rule k u ((user_fields pdns u nat_rule_zero)\<lparr>prev_index := p\<rparr>))"
  shows "rule_view e = stored_rule pdns u" "protocol e = u_protocol u" "indx_tbl_entry e = of_nat k" "enable e"
  using user_fields_flags [OF u, of nat_rule_zero] user_fields_simps(3) [OF u, of nat_rule_zero]
  by (simp_all add: e nat_put_flags user_flags_def finish_rule_def stored_rule_def rule_view_def)

lemma rules_of_upd:
  assumes "\<And>j. live t' j \<longleftrightarrow> j = i \<or> live t j" "rule_view (recs t' ! i) = r"
    and "\<And>j. j \<noteq> i \<Longrightarrow> rule_view (recs t' ! j) = rule_view (recs t ! j)"
  shows "rules_of t' = (rules_of t)(i \<mapsto> r)"
  using assms by (auto simp: rules_of_def fun_eq_iff)

lemma nat_commit:
  assumes inv: "nat_tinv t ct" and h: "h < table_entries t"
    and u: "pdn_in_range pdns u" "u_protocol u \<noteq> IPAHAL_NAT_INVALID_PROTOCOL"
    and sh: "nat_added pdns t ct h i ((user_fields pdns u nat_rule_zero)\<lparr>prev_index := p\<rparr>) (user_flags u) t1 ds"
    and e2: "e2 = finish_rule k u ((user_fields pdns u nat_rule_zero)\<lparr>prev_index := p\<rparr>)"
    and t3: "t3 = dma_run nat_put IPA_NAT_BASE_TBL IPA_NAT_EXPN_TBL ds (put_rec t1 i e2)"
  shows "nat_tinv t3 (grown nat_ei t ct h i)" "same_shape t t3"
    "\<And>j. vdT nat_ei t3 j \<longleftrightarrow> j = i \<or> vdT nat_ei t j" "\<And>j. live t3 j \<longleftrightarrow> j = i \<or> live t j"
    "k < 65536 \<Longrightarrow> indx_of t3 i = k" "\<And>j. j \<noteq> i \<Longrightarrow> indx_of t3 j = indx_of t j"
    "rules_of t3 = (rules_of t)(i \<mapsto> stored_rule pdns u)" "i \<in> set (h # grown nat_ei t ct h i h)"
proof -
  have inv': "nat_tbl.inv pdns t ct" using inv unfolding inv_pdns [of pdns] .
  have nxt: "entry_get_next_index (entry_interface pdns) e2 = 0"
    using u(1) by (simp add: e2 finish_rule_def entry_interface_def table_entry_get_next_index_def nat_rule_zero_def)
  have prv: "entry_get_prev_index (entry_interface pdns) e2 j m te =
      entry_get_prev_index (entry_interface pdns) ((user_fields pdns u nat_rule_zero)\<lparr>prev_index := p\<rparr>) j m te" for j m te
    by (simp add: e2 finish_rule_def entry_interface_def table_entry_get_prev_index_def)
  note c = nat_tbl.add_shape_commit [OF inv' h sh nxt _ prv t3, unfolded views_pdns [of pdns] inv_pdns [of pdns]
      grown_pdns [of pdns], simplified]
  show "nat_tinv t3 (grown nat_ei t ct h i)" "same_shape t t3" using c(1,3) by blast+
  show vd: "\<And>j. vdT nat_ei t3 j \<longleftrightarrow> j = i \<or> vdT nat_ei t j" using c(2) by simp
  have ri: "recs t3 ! i = nat_put (nat_off HELP_UPDATE_HEAD) (user_flags u) e2" using c(4) by simp
  note rec = new_rule_record [OF u(1), of _ k p, folded e2, OF ri]
  have other: "rule_view (recs t3 ! j) = rule_view (recs t ! j)" "protocol (recs t3 ! j) = protocol (recs t ! j)"
      "indx_tbl_entry (recs t3 ! j) = indx_tbl_entry (recs t ! j)" if "j \<noteq> i" for j
    using c(5) [OF that] nat_put_next_fields by auto
  have ni: "\<not> vdT nat_ei t i"
    using nat_tbl.add_shape_new(3) [OF sh] unfolding views_pdns [of pdns] .
  show lv: "live t3 j \<longleftrightarrow> j = i \<or> live t j" for j
    using vd [of j] rec(2) u(2) other(2) [of j] by (cases "j = i") (simp_all add: live_def)
  show "indx_of t3 i = k" if "k < 65536"
    using rec(3) unat_of_nat_u16 [OF that] by (simp add: indx_of_def)
  show "indx_of t3 j = indx_of t j" if "j \<noteq> i" for j using other(3) [OF that] by (simp add: indx_of_def)
  show "rules_of t3 = (rules_of t)(i \<mapsto> stored_rule pdns u)" by (rule rules_of_upd [OF lv rec(1) other(1)])
  show "i \<in> set (h # grown nat_ei t ct h i h)" using c(6) by simp
qed

lemma indx_commit:
  assumes inv: "indx_tinv x cx" and g: "g < table_entries x"
    and sh: "indx_added x cx g k e1 v x1 ds" and e1: "if vdT indx_ei x g then tbl_entry e1 = of_nat i else v = of_nat i"
    and i: "i < 65536"
    and x3: "x3 = dma_run indx_put IPA_NAT_INDX_TBL IPA_NAT_INDEX_EXPN_TBL ds x1"
  shows "indx_tinv x3 (grown indx_ei x cx g k)" "same_shape x x3"
    "\<And>j. vdT indx_ei x3 j \<longleftrightarrow> j = k \<or> vdT indx_ei x j"
    "rule_of x3 k = i" "\<And>j. j \<noteq> k \<Longrightarrow> rule_of x3 j = rule_of x j" "k \<in> set (g # grown indx_ei x cx g k g)"
proof -
  note n = indx_tbl.add_shape_new [OF sh]
  have "put_rec x1 k e1 = x1" by (rule indx_tbl.add_shape_rec [OF inv sh g])
  then have x3': "x3 = dma_run indx_put IPA_NAT_INDX_TBL IPA_NAT_INDEX_EXPN_TBL ds (put_rec x1 k e1)" using x3 by simp
  note c = indx_tbl.add_shape_commit [OF inv g sh n(4) n(5) refl x3', simplified]
  show "indx_tinv x3 (grown indx_ei x cx g k)" "same_shape x x3" using c(1,3) by blast+
  show "\<And>j. vdT indx_ei x3 j \<longleftrightarrow> j = k \<or> vdT indx_ei x j" using c(2) by simp
  have "tbl_entry (recs x3 ! k) = of_nat i"
    using c(4) e1 by (cases "vdT indx_ei x g")
      (simp_all add: indx_put_def IPA_NAT_INDEX_RULE_NAT_INDEX_FIELD_OFFSET_def)
  then show "rule_of x3 k = i" using unat_of_nat_u16 [OF i] by (simp add: rule_of_def)
  show "rule_of x3 j = rule_of x j" if "j \<noteq> k" for j
    using c(5) [OF that] by (auto simp: rule_of_def indx_put_def IPA_NAT_INDEX_RULE_NEXT_FIELD_OFFSET_def)
  show "k \<in> set (g # grown indx_ei x cx g k g)" using c(6) by simp
qed

lemma nat_inv_commit:
  assumes inv: "nat_inv t x ct cx" and h: "h < table_entries t" and g: "g < table_entries x"
    and t3: "nat_tinv t3 (grown nat_ei t ct h i)" "same_shape t t3"
      "\<And>j. vdT nat_ei t3 j \<longleftrightarrow> j = i \<or> vdT nat_ei t j" "\<And>j. live t3 j \<longleftrightarrow> j = i \<or> live t j"
      "indx_of t3 i = k" "\<And>j. j \<noteq> i \<Longrightarrow> indx_of t3 j = indx_of t j"
    and x3: "indx_tinv x3 (grown indx_ei x cx g k)" "same_shape x x3"
      "\<And>j. vdT indx_ei x3 j \<longleftrightarrow> j = k \<or> vdT indx_ei x j" "rule_of x3 k = i"
      "\<And>j. j \<noteq> k \<Longrightarrow> rule_of x3 j = rule_of x j"
    and new: "\<not> vdT nat_ei t i" "\<not> vdT indx_ei x k"
  shows "nat_inv t3 x3 (grown nat_ei t ct h i) (grown indx_ei x cx g k)"
proof -
  have ni: "\<not> live t i" using new by (simp add: live_def)
  then have "pbij (live t3) (indx_of t3) (vdT indx_ei x3) (rule_of x3)"
    by (rule pbij_insert [where i = i and k = k, OF nat_inv_pbij [OF inv] _ new(2)])
       (use t3(4-6) x3(3-5) new ni in metis)+
  moreover have "j < table_entries t \<and> grown nat_ei t ct h i j \<noteq> []" if "vdT nat_ei t3 j" "\<not> live t3 j" for j
    using nat_inv_dead [OF inv, of j] that t3(3,4) [of j] by (auto simp: grown_def)
  ultimately show ?thesis
    using t3(1) x3(1) nat_invD(3,4,5) [OF inv] same_shape_fields [OF t3(2)] same_shape_fields [OF x3(2)]
    unfolding nat_inv_def by simp
qed

section \<open>The whole operation\<close>

lemma nat_inv_same_recs:
  assumes inv: "nat_inv t x ct cx" and t': "nat_tinv t' ct" "recs t' = recs t" "same_shape t t'"
    and x': "indx_tinv x' cx" "recs x' = recs x" "same_shape x x'"
  shows "nat_inv t' x' ct cx"
proof -
  have v: "vdT nat_ei t' = vdT nat_ei t" "live t' = live t" "indx_of t' = indx_of t"
      "vdT indx_ei x' = vdT indx_ei x" "rule_of x' = rule_of x"
    using t'(2) x'(2) by (simp_all add: fun_eq_iff vdT_def live_def indx_of_def rule_of_def)
  show ?thesis
    using inv t'(1) x'(1) same_shape_fields [OF t'(3)] same_shape_fields [OF x'(3)]
    unfolding nat_inv_def v by simp
qed

text \<open>What the body does before and after the device is called, whatever the device is.\<close>

definition nat_full :: "ipa_nat_rule ipa_table \<Rightarrow> ipa_nat_indx_tbl_rule ipa_table \<Rightarrow> nat \<Rightarrow> nat \<Rightarrow> bool" where
  "nat_full t x h g \<longleftrightarrow>
     vdT nat_ei t h \<and> free_slot nat_ei t = None \<or> vdT indx_ei x g \<and> free_slot indx_ei x = None"

definition rolled_back ::
  "ipa_nat_rule ipa_table \<Rightarrow> ipa_nat_indx_tbl_rule ipa_table \<Rightarrow> (nat \<Rightarrow> nat list) \<Rightarrow> (nat \<Rightarrow> nat list)
    \<Rightarrow> ipa_nat_rule ipa_table \<Rightarrow> ipa_nat_indx_tbl_rule ipa_table \<Rightarrow> bool" where
  "rolled_back t x ct cx t' x' \<longleftrightarrow> nat_inv t' x' ct cx \<and> same_shape t t' \<and> recs t' = recs t \<and> recs x' = recs x"

lemma add_body_shape:
  assumes inv: "nat_inv t x ct cx" and c: "ipa_desc c = Some desc" and u: "pdn_in_range pdns u"
    and h: "nat_slot desc pdns t u token = (h, token1)" and g: "indx_slot t u token1 = (g, token2)"
  obtains (full) t' tok where "nat_full t x (unat h) (unat g)" "rolled_back t x ct cx t' x"
      "\<And>env :: ('w, 'z) nat_env_scheme. \<And>w.
         add_ipv4_rule_body env c pdns u token t x w = Some (- 1, 0, t', x, tok, w)"
  | (posted) i k p e1 v t1 x1 ds dx where "\<not> nat_full t x (unat h) (unat g)"
      "nat_added pdns t ct (unat h) i ((user_fields pdns u nat_rule_zero)\<lparr>prev_index := p\<rparr>) (user_flags u) t1 ds"
      "indx_added x cx (unat g) k e1 v x1 dx"
      "if vdT indx_ei x (unat g) then tbl_entry e1 = of_nat i else v = of_nat i"
      "\<And>env :: ('w, 'z) nat_env_scheme. \<And>w.
         add_ipv4_rule_body env c pdns u token t x w =
           do { (ret, (t3, x3), w) \<leftarrow> ipa_nati_post_ipv4_dma_cmd env c (dma_cmd_zero\<lparr>cmd_dma := ds @ dx\<rparr>)
                    (put_rec t1 i (finish_rule k u ((user_fields pdns u nat_rule_zero)\<lparr>prev_index := p\<rparr>)), x1) w;
                if ret \<noteq> 0 then do {
                  x4 \<leftarrow> ipa_table_erase_entry index_entry_interface x3 k;
                  t4 \<leftarrow> ipa_table_erase_entry (entry_interface pdns) t3 i;
                  Some (ret, 0, t4, x4, token2, w) }
                else Some (0, ucast (MakeEntryHdl t i), t3, x3, token2, w) }"
proof -
  note it = nat_inv_t [OF inv] and ix = nat_inv_x [OF inv]
  obtain n where n: "1 \<le> n" "n \<le> 12" "table_entries t = 2 ^ n" using nat_inv_pow [OF inv] by blast
  note hr = nat_slot_range [OF n h] and gr = indx_slot_range [OF n g]
  have gr': "0 < unat g" "unat g < table_entries x" using gr nat_inv_te [OF inv] by simp_all
  have it': "nat_tbl.inv pdns t ct" using it unfolding inv_pdns [of pdns] .
  show thesis
  proof (cases rule: nat_add_cases [OF it hr u, of dma_cmd_zero])
    case 1
    then show thesis
      using c h inv by (intro full [of t token1]) (simp_all add: nat_full_def rolled_back_def add_ipv4_rule_body_def)
  next
    case (2 i p t1 ds)
    let ?e = "(user_fields pdns u nat_rule_zero)\<lparr>prev_index := p\<rparr>"
    note new = nat_tbl.add_shape_new [OF 2(3)] and rec = nat_tbl.add_shape_rec [OF it' 2(3) hr(2)]
      and sh = nat_tbl.add_shape_t1 [OF 2(3) hr(2)]
    have slot: "indx_slot t1 u token1 = (g, token2)"
      using g same_shape_fields [OF sh(1)] by (simp add: indx_slot_def)
    have i16: "i < 65536" using new(2) table_geomD [OF inv_geom [OF it]] by linarith
    then have i0: "(of_nat i :: u16) \<noteq> 0" using new(1) unat_of_nat_u16 [OF i16] by auto
    show thesis
    proof (cases rule: indx_add_cases [OF ix gr' i0, of "dma_cmd_zero\<lparr>cmd_dma := cmd_dma dma_cmd_zero @ ds\<rparr>"])
      case 1
      obtain t4 where t4: "ipa_table_erase_entry (entry_interface pdns) t1 i = Some t4" "nat_tinv t4 ct"
          "recs t4 = recs t" "same_shape t t4"
        using nat_tbl.add_shape_rollback [OF it' 2(3) hr(2), of ?e] rec(2) unfolding inv_pdns [of pdns] by auto
      have "rolled_back t x ct cx t4 x"
        using nat_inv_same_recs [OF inv t4(2-4) ix] t4 by (simp add: rolled_back_def)
      then show thesis
        using c h slot 1 2(2) t4(1)
        by (intro full [of t4 token2]) (simp_all add: nat_full_def add_ipv4_rule_body_def)
    next
      case (2 k e1 v x1 hdl dx)
      show thesis
        by (rule posted [OF _ \<open>nat_added pdns t ct (unat h) i ?e (user_flags u) t1 ds\<close> 2(3,4)])
           (use c h slot 2 \<open>\<not> (vdT nat_ei t (unat h) \<and> free_slot nat_ei t = None)\<close>
              \<open>ipa_table_add_entry (entry_interface pdns) t u (unat h) dma_cmd_zero = _\<close> rec
            in \<open>simp_all add: nat_full_def add_ipv4_rule_body_def dma_cmd_zero_def\<close>)
    qed
  qed
qed

lemma add_posted_commands:
  assumes inv: "nat_inv t x ct cx" and h: "h < table_entries t" and g: "g < table_entries x"
    and sh: "nat_added pdns t ct h i e v t1 ds" "indx_added x cx g k e1 v1 x1 dx"
  shows "dma_run nat_put IPA_NAT_BASE_TBL IPA_NAT_EXPN_TBL dx t' = t'"
    "dma_run indx_put IPA_NAT_INDX_TBL IPA_NAT_INDEX_EXPN_TBL ds x' = x'" "length (ds @ dx) \<le> 3"
proof -
  note it = nat_inv_t [OF inv] and ix = nat_inv_x [OF inv]
  have it': "nat_tbl.inv pdns t ct" using it unfolding inv_pdns [of pdns] .
  note a = nat_tbl.add_shape_cmds [OF it' h sh(1)] and b = indx_tbl.add_shape_cmds [OF ix g sh(2)]
  show "dma_run nat_put IPA_NAT_BASE_TBL IPA_NAT_EXPN_TBL dx t' = t'"
    by (rule dma_run_other [OF inv_geom [OF ix] _ b(3)]) simp_all
  show "dma_run indx_put IPA_NAT_INDX_TBL IPA_NAT_INDEX_EXPN_TBL ds x' = x'"
    by (rule dma_run_other [OF inv_geom [OF it] _ a(3)]) simp_all
  show "length (ds @ dx) \<le> 3" using a(1) b(1) by simp
qed

definition rule_added ::
  "ipa_nat_rule ipa_table \<Rightarrow> ipa_nat_indx_tbl_rule ipa_table \<Rightarrow> (nat \<Rightarrow> nat list) \<Rightarrow> (nat \<Rightarrow> nat list) \<Rightarrow> nat \<Rightarrow> nat
    \<Rightarrow> ipa_nat_rule \<Rightarrow> u32 \<Rightarrow> ipa_nat_rule ipa_table \<Rightarrow> ipa_nat_indx_tbl_rule ipa_table \<Rightarrow> bool" where
  "rule_added t x ct cx h g r hdl t' x' \<longleftrightarrow>
     (\<exists>i k. i < n_recs t \<and> \<not> vdT nat_ei t i \<and> hdl = ucast (MakeEntryHdl t i) \<and>
        nat_inv t' x' (grown nat_ei t ct h i) (grown indx_ei x cx g k) \<and> same_shape t t' \<and> same_shape x x' \<and>
        rules_of t' = (rules_of t)(i \<mapsto> r) \<and>
        i \<in> set (h # grown nat_ei t ct h i h) \<and> k \<in> set (g # grown indx_ei x cx g k g) \<and>
        indx_of t' i = k \<and> rule_of x' k = i)"

lemma add_body_outcome:
  fixes env :: "('w, 'z) nat_env_scheme"
  assumes inv: "nat_inv t x ct cx" and dev: "dma_device env" and c: "ipa_desc c = Some desc"
    and u: "pdn_in_range pdns u" "u_protocol u \<noteq> IPAHAL_NAT_INVALID_PROTOCOL"
    and h: "nat_slot desc pdns t u token = (h, token1)" and g: "indx_slot t u token1 = (g, token2)"
  shows "\<exists>ret hdl t' x' tok w'. add_ipv4_rule_body env c pdns u token t x w = Some (ret, hdl, t', x', tok, w') \<and>
     (if ret = 0
      then \<not> nat_full t x (unat h) (unat g) \<and>
           rule_added t x ct cx (unat h) (unat g) (stored_rule pdns u) hdl t' x'
      else rolled_back t x ct cx t' x' \<and> hdl = 0 \<and> ret = (if nat_full t x (unat h) (unat g) then - 1 else - EIO))"
proof -
  note it = nat_inv_t [OF inv] and ix = nat_inv_x [OF inv]
  obtain n where n: "1 \<le> n" "n \<le> 12" "table_entries t = 2 ^ n" using nat_inv_pow [OF inv] by blast
  have hr: "unat h < table_entries t" and gr: "unat g < table_entries x"
    using nat_slot_range [OF n h] indx_slot_range [OF n g] nat_inv_te [OF inv] by simp_all
  have it': "nat_tbl.inv pdns t ct" using it unfolding inv_pdns [of pdns] .
  show ?thesis
  proof (cases rule: add_body_shape [OF inv c u(1) h g, where ?'w = 'w and ?'z = 'z])
    case (1 t' tok)
    show ?thesis
      by (intro exI [of _ "- 1"] exI [of _ 0] exI [of _ t'] exI [of _ x] exI [of _ tok] exI [of _ w])
         (simp add: 1)
  next
    case (2 i k p e1 v t1 x1 ds dx)
    let ?e2 = "finish_rule k u ((user_fields pdns u nat_rule_zero)\<lparr>prev_index := p\<rparr>)"
    note cmds = add_posted_commands [OF inv hr gr 2(2,3)]
    note newt = nat_tbl.add_shape_new [OF 2(2), unfolded views_pdns [of pdns]] and newx = indx_tbl.add_shape_new [OF 2(3)]
    have i16: "i < 65536" using newt(2) table_geomD [OF inv_geom [OF it]] by linarith
    have k16: "k < 65536" using newx(2) table_geomD [OF inv_geom [OF ix]] by linarith
    define t3 where "t3 = dma_run nat_put IPA_NAT_BASE_TBL IPA_NAT_EXPN_TBL ds (put_rec t1 i ?e2)"
    define x3 where "x3 = dma_run indx_put IPA_NAT_INDX_TBL IPA_NAT_INDEX_EXPN_TBL dx x1"
    show ?thesis
    proof (cases rule: post_dma_cases [OF dev c, of "dma_cmd_zero\<lparr>cmd_dma := ds @ dx\<rparr>" "put_rec t1 i ?e2" x1 w])
      case (1 w')
      note t = nat_commit [OF it hr u 2(2) refl t3_def] and x = indx_commit [OF ix gr 2(3,4) i16 x3_def]
      note new = nat_inv_commit [OF inv hr gr t(1-4) t(5) [OF k16] t(6) x(1-5) newt(3) newx(3)]
      have "add_ipv4_rule_body env c pdns u token t x w = Some (0, ucast (MakeEntryHdl t i), t3, x3, token2, w')"
        using 1 cmds(1,2) by (simp add: 2(5) t3_def x3_def)
      moreover have "rule_added t x ct cx (unat h) (unat g) (stored_rule pdns u) (ucast (MakeEntryHdl t i)) t3 x3"
        unfolding rule_added_def using new t(2) t(5) [OF k16] t(7,8) x(2,4,6) newt(2,3)
        by (intro exI [of _ i] exI [of _ k]) simp
      ultimately show ?thesis using 2(1) by simp
    next
      case (2 w')
      note sh = \<open>nat_added pdns t ct (unat h) i _ (user_flags u) t1 ds\<close>
        and shx = \<open>indx_added x cx (unat g) k e1 v x1 dx\<close>
      obtain t4 where t4: "ipa_table_erase_entry (entry_interface pdns) (put_rec t1 i ?e2) i = Some t4" "nat_tinv t4 ct"
          "recs t4 = recs t" "same_shape t t4"
        using nat_tbl.add_shape_rollback [OF it' sh hr, of ?e2] unfolding inv_pdns [of pdns] by auto
      obtain x4 where x4: "ipa_table_erase_entry indx_ei x1 k = Some x4" "indx_tinv x4 cx" "recs x4 = recs x" "same_shape x x4"
        using indx_tbl.add_shape_rollback [OF ix shx gr, of e1] indx_tbl.add_shape_rec(2) [OF ix shx gr] by auto
      have "rolled_back t x ct cx t4 x4"
        using nat_inv_same_recs [OF inv t4(2-4) x4(2-4)] t4 x4 by (simp add: rolled_back_def)
      moreover have "add_ipv4_rule_body env c pdns u token t x w = Some (- EIO, 0, t4, x4, token2, w')"
        using 2 t4(1) x4(1)
        by (simp add: \<open>add_ipv4_rule_body _ c pdns u token t x _ = _\<close>)
      ultimately show ?thesis using \<open>\<not> nat_full t x (unat h) (unat g)\<close> by simp
    qed
  qed
qed

text \<open>A device that never fails.\<close>

definition dma_reliable :: "('w, 'z) nat_env_scheme \<Rightarrow> bool" where
  "dma_reliable env \<longleftrightarrow> dma_device env \<and> (\<forall>fd cmd tx w. fst (env_table_dma env fd cmd tx w) = 0)"

lemma post_reliable:
  assumes "dma_reliable env" "ipa_desc c = Some desc"
  shows "\<exists>tx' w'. ipa_nati_post_ipv4_dma_cmd env c cmd tx w = Some (0, tx', w')"
proof -
  let ?cmd = "cmd\<lparr>cmd_mem_type := of_nat (nmi_code (cache_nmi c))\<rparr>"
  obtain r tx' w' where e: "env_table_dma env (desc_fd desc) ?cmd tx w = (r, tx', w')"
    by (cases "env_table_dma env (desc_fd desc) ?cmd tx w")
  moreover have "r = 0"
    using assms(1) e unfolding dma_reliable_def by (metis fst_conv)
  ultimately show ?thesis using assms(2) by (simp add: ipa_nati_post_ipv4_dma_cmd_def)
qed

lemma add_body_success:
  fixes env :: "('w, 'z) nat_env_scheme"
  assumes inv: "nat_inv t x ct cx" and dev: "dma_reliable env" and c: "ipa_desc c = Some desc"
    and u: "pdn_in_range pdns u"
    and h: "nat_slot desc pdns t u token = (h, token1)" and g: "indx_slot t u token1 = (g, token2)"
    and room: "\<not> nat_full t x (unat h) (unat g)"
  shows "\<exists>hdl t' x' tok w'. add_ipv4_rule_body env c pdns u token t x w = Some (0, hdl, t', x', tok, w')"
proof (cases rule: add_body_shape [OF inv c u h g, where ?'w = 'w and ?'z = 'z])
  case (1 t' tok)
  then show ?thesis using room by simp
next
  case (2 i k p e1 v t1 x1 ds dx)
  obtain t3 x3 w' where "ipa_nati_post_ipv4_dma_cmd env c (dma_cmd_zero\<lparr>cmd_dma := ds @ dx\<rparr>)
      (put_rec t1 i (finish_rule k u ((user_fields pdns u nat_rule_zero)\<lparr>prev_index := p\<rparr>)), x1) w =
      Some (0, (t3, x3), w')"
    using post_reliable [OF dev c] by fast
  then show ?thesis by (simp add: 2(5))
qed

end
