(* ===== verification/Ipa_Table_Dead.thy ===== *)
theory Ipa_Table_Dead
  imports Ipa_Table_Ops
begin

text \<open>
  Tables whose heads die before they leave.  The NAT table and the IPv6 connection tracking table treat the
  deletion of a head with a tail alike: the device marks the record dead (protocol 0xFF) and it stays in its
  place until the last record of its tail is deleted.  The locale \<open>dead_head_table\<close> extends the contract of the
  callbacks by what a client sees of a record, its \<open>view\<close>, and by the mark; from it follow what an insertion and
  a deletion do to the live records.
\<close>

section \<open>Chains without a record\<close>

definition without :: "nat \<Rightarrow> (nat \<Rightarrow> nat list) \<Rightarrow> nat \<Rightarrow> nat list" where
  "without i ch = (\<lambda>h. filter (\<lambda>j. j \<noteq> i) (ch h))"

lemma without_base:
  assumes "table_inv ei um bt xt off t ch" "i < table_entries t"
  shows "without i ch = ch"
proof
  fix h show "without i ch h = ch h"
    using chains_ok_mem [OF inv_chains [OF assms(1)], of _ h] assms(2)
    unfolding without_def by (intro filter_True) force
qed

lemma without_tail:
  assumes inv: "table_inv ei um bt xt off t ch" and h: "ch h = xs @ i # ys"
  shows "without i ch = ch(h := xs @ ys)"
proof
  note ok = inv_chains [OF inv]
  fix g
  have i: "i \<in> set (ch h)" using h by simp
  have "distinct (xs @ i # ys)" using chains_ok_distinct [OF ok, of h] h by simp
  then have "filter (\<lambda>j. j \<noteq> i) xs = xs" "filter (\<lambda>j. j \<noteq> i) ys = ys" by (auto intro: filter_True)
  moreover have "filter (\<lambda>j. j \<noteq> i) (ch g) = ch g" if "g \<noteq> h"
    using chains_ok_disjoint [OF ok that [symmetric] i] by (intro filter_True) auto
  ultimately show "without i ch g = (ch(h := xs @ ys)) g" using h by (simp add: without_def)
qed

section \<open>Handles\<close>

lemma get_entry_own_handle:
  assumes "table_geom bt xt off t" "i < n_recs t"
  shows "ipa_table_get_entry t (ucast (MakeEntryHdl t i)) = (0, i)"
  using BREAK_RULE_HDL_MakeEntryHdl [OF geom_te(2) [OF assms(1)] geom_xe(2) [OF assms(1)] geom_nmi [OF assms(1)] assms(2)]
    geom_tot [OF assms(1)] assms(2) by (simp add: ipa_table_get_entry_def)

lemma same_shape_get_entry: "same_shape t t' \<Longrightarrow> ipa_table_get_entry t' h = ipa_table_get_entry t h"
  by (simp add: ipa_table_get_entry_def BREAK_RULE_HDL_def same_shape_def Let_def)

section \<open>The contract\<close>

locale dead_head_table = table_entry ei put off um good bt xt
  for ei :: "('e, 'u) ipa_table_entry_interface" and put :: "nat \<Rightarrow> u16 \<Rightarrow> 'e \<Rightarrow> 'e" and off um good bt xt +
  fixes view :: "'e \<Rightarrow> 'v" and dead :: "'v \<Rightarrow> bool"
  assumes put_entry_view: "view (put (off HELP_UPDATE_ENTRY) v e) = view e"
    and set_prev_view: "entry_set_prev_index ei e i p m te = Some (e', m') \<Longrightarrow> view e' = view e"
    and delete_head_dead: "dead (view (put (off HELP_DELETE_HEAD) (entry_get_delete_head_dma_command_data ei e e') e))"
begin

definition live :: "'e ipa_table \<Rightarrow> nat \<Rightarrow> bool" where
  "live t i \<longleftrightarrow> vdT ei t i \<and> \<not> dead (view (recs t ! i))"

definition seen :: "'e ipa_table \<Rightarrow> nat \<Rightarrow> 'v option" where
  "seen t i = (if live t i then Some (view (recs t ! i)) else None)"

definition dead_ok :: "'e ipa_table \<Rightarrow> (nat \<Rightarrow> nat list) \<Rightarrow> bool" where
  "dead_ok t ch \<longleftrightarrow> (\<forall>j. vdT ei t j \<and> \<not> live t j \<longrightarrow> j < table_entries t \<and> ch j \<noteq> [])"

definition deleted :: "'e ipa_table \<Rightarrow> (nat \<Rightarrow> nat list) \<Rightarrow> nat \<Rightarrow> 'e ipa_table \<Rightarrow> bool" where
  "deleted t ch i t' \<longleftrightarrow>
     inv t' (without i ch) \<and> same_shape t t' \<and> dead_ok t' (without i ch) \<and>
     (\<forall>j. live t' j \<longleftrightarrow> j \<noteq> i \<and> live t j) \<and> (\<forall>j. live t' j \<longrightarrow> view (recs t' ! j) = view (recs t ! j))"

text \<open>What the clients do after the device has run: the record goes unless it is a head with a tail, and a dead
  predecessor goes with its last tail record.\<close>

definition unlink :: "'e ipa_table \<Rightarrow> ipa_table_iterator \<Rightarrow> 'e ipa_table option" where
  "unlink t ti =
     (if \<not> ipa_table_iterator_is_head_with_tail ti then do {
        is_prev_empty \<leftarrow>
          (case it_prev_entry ti of
             None \<Rightarrow> Some False
           | Some p \<Rightarrow> do { pe \<leftarrow> rec_at t p; Some (dead (view pe)) });
        ipa_table_delete_entry ei t ti is_prev_empty }
      else Some t)"

abbreviation written :: "'e ipa_table \<Rightarrow> dma_help_type \<Rightarrow> nat \<Rightarrow> u16 \<Rightarrow> 'e ipa_table" where
  "written t hk i v \<equiv> put_rec t i (put (off hk) v (recs t ! i))"

text \<open>The removals with the record's own validity taken away: every other record keeps its view.\<close>

lemma deletedI:
  assumes "inv t' (without i ch)" "same_shape t t'" and dead: "dead_ok t ch"
    and vd: "\<And>j. vdT ei t' j \<longleftrightarrow> j \<notin> D \<and> vdT ei t j" and i: "i \<in> D" "\<And>j. j \<in> D \<Longrightarrow> j \<noteq> i \<Longrightarrow> \<not> live t j"
    and same: "\<And>j. j \<notin> D \<Longrightarrow> vdT ei t j \<Longrightarrow> view (recs t' ! j) = view (recs t ! j)"
    and chain: "\<And>j. j \<notin> D \<Longrightarrow> j < table_entries t \<Longrightarrow> vdT ei t j \<Longrightarrow> \<not> live t j \<Longrightarrow> without i ch j \<noteq> []"
  shows "deleted t ch i t'"
proof -
  have lv: "live t' j \<longleftrightarrow> j \<noteq> i \<and> live t j" for j
  proof (cases "j \<in> D")
    case True
    then show ?thesis using vd [of j] i by (auto simp: live_def)
  next
    case False
    then have "j \<noteq> i" using i by auto
    then show ?thesis using False vd [of j] same [OF False] by (auto simp: live_def)
  qed
  have "dead_ok t' (without i ch)"
    unfolding dead_ok_def
  proof (intro allI impI, elim conjE)
    fix j assume j: "vdT ei t' j" "\<not> live t' j"
    then have "j \<notin> D" "vdT ei t j" "\<not> live t j" using vd lv i(1) by auto
    then show "j < table_entries t' \<and> without i ch j \<noteq> []"
      using chain [of j] dead same_shape_fields [OF assms(2)] by (auto simp: dead_ok_def)
  qed
  moreover have "view (recs t' ! j) = view (recs t ! j)" if "live t' j" for j
    using same [of j] that lv [of j] vd [of j] by (auto simp: live_def)
  ultimately show ?thesis using assms(1,2) lv unfolding deleted_def by blast
qed

lemma delete_head:
  assumes inv: "inv t ch" and dead: "dead_ok t ch" and h: "i < table_entries t" "vdT ei t i" "ch i = []"
  shows "\<exists>t'. unlink (written t HELP_UPDATE_HEAD i 0) (pos_it [] i []) = Some t' \<and> deleted t ch i t'"
proof -
  obtain t' where t': "ipa_table_delete_entry ei (written t HELP_UPDATE_HEAD i 0) (pos_it [] i []) False = Some t'"
      "inv t' ch" "same_shape t t'" "vdT ei t' = (vdT ei t)(i := False)" "recs t' = (recs t)[i := entry_zero ei]"
    using delete_head_commit [OF inv h] by blast
  have "unlink (written t HELP_UPDATE_HEAD i 0) (pos_it [] i []) = Some t'"
    using t'(1) by (simp add: unlink_def pos_it_def hd0_def ipa_table_iterator_is_head_with_tail_def
        VALID_INDEX_def IPA_TABLE_INVALID_ENTRY_def)
  moreover have "deleted t ch i t'"
    by (rule deletedI [where D = "{i}", OF _ t'(3) dead])
       (use t' without_base [OF inv h(1)] dead in \<open>auto simp: dead_ok_def\<close>)
  ultimately show ?thesis by blast
qed

text \<open>A head with a tail: the device marks the record, which stays.\<close>

lemma delete_head_with_tail:
  assumes inv: "inv t ch" and dead: "dead_ok t ch" and h: "i < table_entries t" "vdT ei t i" "ch i \<noteq> []"
    and t': "t' = written t HELP_DELETE_HEAD i
               (entry_get_delete_head_dma_command_data ei (recs t ! i) (recs t ! hd (ch i)))"
  shows "unlink t' (pos_it [] i (ch i)) = Some t'" "deleted t ch i t'"
proof -
  let ?n = "hd (ch i)"
  have hd0: "hd0 (ch i) \<noteq> 0"
    using position_views(3) [OF inv h(1,2), of "[]" i "ch i"] h(3) by (cases "ch i") (simp_all add: hd0_def)
  show "unlink t' (pos_it [] i (ch i)) = Some t'"
    using hd0 by (simp add: unlink_def pos_it_def ipa_table_iterator_is_head_with_tail_def
        VALID_INDEX_def IPA_TABLE_INVALID_ENTRY_def)
  have nv: "entry_is_valid ei (recs t ! ?n)" "entry_is_valid ei (recs t ! i)"
    using position_views(4) [OF inv h(1,2), of "[]" i "ch i"] h by (simp_all add: vdT_def)
  define e where "e = put (off HELP_DELETE_HEAD) (entry_get_delete_head_dma_command_data ei (recs t ! i) (recs t ! ?n)) (recs t ! i)"
  have e: "entry_is_valid ei e" "entry_get_next_index ei e = entry_get_next_index ei (recs t ! i)"
      "entry_get_prev_index ei e j m te = entry_get_prev_index ei (recs t ! i) j m te" "dead (view e)" for j m te
    using nv by (simp_all add: e_def put_delete_valid put_delete_next put_prev delete_head_dead)
  have n: "i < length (recs t)" using h(2) by (simp add: vdT_def)
  have t'e: "t' = put_rec t i e" by (simp add: t' e_def)
  have v: "vdT ei t' = vdT ei t" "nxT ei t' = nxT ei t" "pvT ei t' = pvT ei t"
    using n h(2) e(1,2) e(3) [of i "meta t" "table_entries t"] unfolding t'e
    by (auto simp: vdT_put nxT_put pvT_put fun_eq_iff vdT_def nxT_def pvT_def)
  have sh: "same_shape t t'" by (simp add: t'e)
  have inv': "inv t' ch"
    by (rule inv_same_views [OF inv sh v])
       (use inv_meta [OF inv] h(2) in \<open>simp_all add: t'e\<close>, metis nth_list_update_neq)
  have lv: "live t' j \<longleftrightarrow> j \<noteq> i \<and> live t j" for j
    using n e(4) unfolding live_def v(1) by (auto simp: t'e nth_list_update)
  have "dead_ok t' ch" using dead h lv v(1) by (auto simp: dead_ok_def t'e)
  then show "deleted t ch i t'"
    using inv' sh lv by (simp add: deleted_def without_base [OF inv h(1)] t'e)
qed

lemma delete_tail:
  assumes inv: "inv t ch" and dead: "dead_ok t ch" and h: "ch h = xs @ i # ys" and p: "p = last (h # xs)"
  shows "\<exists>t'. unlink (written t HELP_UPDATE_ENTRY p (of_nat (hd0 ys))) (pos_it (h # xs) i ys) = Some t' \<and>
              deleted t ch i t'"
proof -
  note ok = inv_chains [OF inv]
  have iin: "i \<in> set (ch h)" using h by simp
  note own = chains_ok_owner [OF ok iin]
  have pos: "h # ch h = (h # xs) @ i # ys" using h by simp
  note v = position_views [OF inv own pos]
  have pin: "p \<in> set (h # xs)" unfolding p by (rule last_in_set) simp
  have pv: "vdT ei t p" "p \<noteq> i" "p \<noteq> 0" using v(3,4) [of p] v(5) pin by auto
  have n: "p < length (recs t)" using pv(1) by (simp add: vdT_def)
  have hd16: "hd0 ys < 65536"
    using v(4) [of "hd0 ys"] table_geomD [OF inv_geom [OF inv]] by (cases ys) (auto simp: hd0_def)
  define e where "e = put (off HELP_UPDATE_ENTRY) (of_nat (hd0 ys)) (recs t ! p)"
  have ep: "entry_is_valid ei e" "entry_get_next_index ei e = nxT ei t i"
      "\<And>j m te. entry_get_prev_index ei e j m te = entry_get_prev_index ei (recs t ! p) j m te"
    using pv(1) v(1) unat_of_nat_u16 [OF hd16]
    by (simp_all add: e_def put_entry_valid put_entry_next put_prev vdT_def)
  have se: "view e = view (recs t ! p)" by (simp add: e_def put_entry_view)
  define ipe where "ipe \<longleftrightarrow> dead (view e)"
  have ipe: "ipe \<longleftrightarrow> \<not> live t p" using pv(1) by (simp add: ipe_def se live_def)
  have prev: "it_prev_index (pos_it (h # xs) i ys) = p" "it_prev_entry (pos_it (h # xs) i ys) = Some p"
    unfolding p by (simp_all add: pos_it_def)
  have del: "unlink (put_rec t p e) (pos_it (h # xs) i ys) =
      ipa_table_delete_entry ei (put_rec t p e) (pos_it (h # xs) i ys) ipe"
    using n pv(3) prev by (simp add: unlink_def ipa_table_iterator_is_head_with_tail_def
        VALID_INDEX_def IPA_TABLE_INVALID_ENTRY_def rec_at_def ipe_def)
  show ?thesis
    unfolding e_def [symmetric]
  proof (cases "ipe \<and> ys = []")
    case True
    then have "p < table_entries t" using dead ipe pv(1) by (simp add: dead_ok_def)
    then have ph: "p = h" "xs = []"
      using p chains_ok_mem [OF ok, of p h] h by (auto split: if_splits)
    then have ch: "ch h = [i]" using h True by simp
    obtain t' where t': "ipa_table_delete_entry ei (put_rec t h e) (pos_it [h] i []) True = Some t'"
        "inv t' (ch(h := []))" "same_shape t t'" "vdT ei t' = (vdT ei t)(i := False, h := False)"
        "recs t' = (recs t)[h := entry_zero ei, i := entry_zero ei]"
      using delete_dead_head_commit [OF inv ch ep [unfolded ph]] by blast
    have wo: "without i ch = ch(h := [])" using without_tail [OF inv h] True ph by simp
    have "deleted t ch i t'"
      by (rule deletedI [where D = "{i, h}", OF _ t'(3) dead])
         (use t' wo ipe True ph dead in \<open>auto simp: dead_ok_def\<close>)
    then show "\<exists>t'. unlink (put_rec t p e) (pos_it (h # xs) i ys) = Some t' \<and> deleted t ch i t'"
      using t'(1) True ph del by (intro exI [of _ t']) simp
  next
    case False
    then have "ipe \<Longrightarrow> ys \<noteq> []" by simp
    then obtain t' where t': "ipa_table_delete_entry ei (put_rec t p e) (pos_it (h # xs) i ys) ipe = Some t'"
        "inv t' (ch(h := xs @ ys))" "same_shape t t'" "vdT ei t' = (vdT ei t)(i := False)"
        "\<forall>k. k \<noteq> i \<longrightarrow> (ys \<noteq> [] \<longrightarrow> k \<noteq> hd ys) \<longrightarrow> recs t' ! k = (if k = p then e else recs t ! k)"
        "if ys = [] then meta t' = meta t
         else entry_set_prev_index ei (recs t ! hd ys) (hd ys) p (meta t) (table_entries t) =
                Some (recs t' ! hd ys, meta t')"
      using delete_tail_commit [OF inv h p ep] by blast
    have wo: "without i ch = ch(h := xs @ ys)" by (rule without_tail [OF inv h])
    have same: "view (recs t' ! j) = view (recs t ! j)" if "j \<noteq> i" for j
    proof (cases "ys \<noteq> [] \<and> j = hd ys")
      case True
      then show ?thesis using t'(6) set_prev_view by simp
    next
      case False
      then show ?thesis using t'(5) that se by auto
    qed
    have nonempty: "xs @ ys \<noteq> []" if "vdT ei t h" "\<not> live t h"
    proof
      assume "xs @ ys = []"
      then have "ys = []" "p = h" using p by simp_all
      then show False using False ipe that by simp
    qed
    have "deleted t ch i t'"
      by (rule deletedI [where D = "{i}", OF _ t'(3) dead])
         (use t' wo same nonempty dead in \<open>auto simp: dead_ok_def\<close>)
    then show "\<exists>t'. unlink (put_rec t p e) (pos_it (h # xs) i ys) = Some t' \<and> deleted t ch i t'"
      using t'(1) del by (intro exI [of _ t']) simp
  qed
qed

text \<open>The three cases as one: the command the library posts is one write, and after it the record is gone.\<close>

lemma delete_command:
  assumes inv: "inv t ch" and dead: "dead_ok t ch" and h: "h < table_entries t" "vdT ei t h"
    and pos: "h # ch h = xs @ i # ys"
  shows "\<exists>q j v t'. ipa_table_create_delete_command ei t cmd (pos_it xs i ys) =
            Some (cmd\<lparr>cmd_dma := cmd_dma cmd @ [cmd_one t q j v]\<rparr>) \<and> VALID_DMA_HELP_TYPE q \<and> j < n_recs t \<and>
          unlink (written t q j v) (pos_it xs i ys) = Some t' \<and> deleted t ch i t'"
proof -
  note v = position_views [OF inv h pos]
  note cmd = create_delete_command_inv [OF inv h pos, of cmd]
  show ?thesis
  proof (cases xs)
    case (Cons a xs')
    then have gx: "xs = h # xs'" "ch h = xs' @ i # ys" using pos by auto
    have "last xs < n_recs t" using v(4) [of "last xs"] last_in_set [of xs] gx by simp
    then show ?thesis
      using cmd delete_tail [OF inv dead gx(2) refl] gx(1)
      by (intro exI [of _ HELP_UPDATE_ENTRY] exI [of _ "last xs"] exI [of _ "of_nat (hd0 ys)"]) (simp del: last.simps)
  next
    case Nil
    then have i: "i = h" "ch i = ys" "i < n_recs t" using pos h by auto
    show ?thesis
    proof (cases "ys = []")
      case True
      then show ?thesis
        using cmd delete_head [OF inv dead, of i] h i Nil
        by (intro exI [of _ HELP_UPDATE_HEAD] exI [of _ i] exI [of _ 0]) simp
    next
      case False
      let ?v = "entry_get_delete_head_dma_command_data ei (recs t ! i) (recs t ! hd (ch i))"
      have "unlink (written t HELP_DELETE_HEAD i ?v) (pos_it [] i (ch i)) = Some (written t HELP_DELETE_HEAD i ?v)"
          "deleted t ch i (written t HELP_DELETE_HEAD i ?v)"
        using delete_head_with_tail [OF inv dead, of i, OF _ _ _ refl] h i False by simp_all
      then show ?thesis
        using cmd i Nil False
        by (intro exI [of _ HELP_DELETE_HEAD] exI [of _ i] exI [of _ ?v] exI [of _ "written t HELP_DELETE_HEAD i ?v"]) simp
    qed
  qed
qed

lemma delete_outcome:
  assumes inv: "inv t ch" and dead: "dead_ok t ch" and i: "vdT ei t i"
  shows "\<exists>ti q j v t'. ipa_table_iterator_init ei t i i = Some (0, ti) \<and> VALID_DMA_HELP_TYPE q \<and> j < n_recs t \<and>
    ipa_table_create_delete_command ei t cmd ti = Some (cmd\<lparr>cmd_dma := cmd_dma cmd @ [cmd_one t q j v]\<rparr>) \<and>
    unlink (dma_run put bt xt [cmd_one t q j v] t) ti = Some t' \<and> deleted t ch i t'"
proof -
  obtain h xs ys where h: "h < table_entries t" "vdT ei t h" "h # ch h = xs @ i # ys"
    using valid_position [OF inv i] by blast
  obtain q j v t' where d: "ipa_table_create_delete_command ei t cmd (pos_it xs i ys) =
        Some (cmd\<lparr>cmd_dma := cmd_dma cmd @ [cmd_one t q j v]\<rparr>)" "VALID_DMA_HELP_TYPE q" "j < n_recs t"
      "unlink (written t q j v) (pos_it xs i ys) = Some t'" "deleted t ch i t'"
    using delete_command [OF inv dead h] by blast
  have run: "dma_run put bt xt [cmd_one t q j v] t = written t q j v"
    using dma_write_shape [OF inv_geom [OF inv] same_shape_refl d(3,2)] by simp
  show ?thesis using iterator_init_inv [OF inv h] d(1-3,5) d(4) [folded run] by blast
qed

text \<open>An insertion once the device has run.\<close>

lemma insert_outcome:
  assumes inv: "inv t ch" and dead: "dead_ok t ch" and h: "h < table_entries t"
    and sh: "add_shape t ch h i e1 v t1 ds" and nu: "\<not> um"
    and r: "view (put (off HELP_UPDATE_HEAD) v e1) = r" "\<not> dead r"
    and t3: "t3 = dma_run put bt xt ds t1"
  shows "inv t3 (grown ei t ch h i)" "same_shape t t3" "dead_ok t3 (grown ei t ch h i)"
    "seen t3 = (seen t)(i \<mapsto> r)" "i \<in> set (h # grown ei t ch h i h)"
proof -
  note n = add_shape_new [OF sh]
  have "put_rec t1 i e1 = t1" by (rule add_shape_rec [OF inv sh h])
  then have t3': "t3 = dma_run put bt xt ds (put_rec t1 i e1)" using t3 by simp
  note c = add_shape_commit [OF inv h sh n(4) n(5) refl t3', simplified]
  show "inv t3 (grown ei t ch h i)" "same_shape t t3" "i \<in> set (h # grown ei t ch h i h)" using c(1,3,6) by simp_all
  have vi: "view (recs t3 ! i) = r" using c(4) nu r by simp
  have vo: "view (recs t3 ! j) = view (recs t ! j)" if "j \<noteq> i" for j
    using c(5) [OF that] put_entry_view by auto
  have lv: "live t3 j \<longleftrightarrow> j = i \<or> live t j" for j
    using c(2) n(3) vi vo r by (cases "j = i") (simp_all add: live_def)
  then show "seen t3 = (seen t)(i \<mapsto> r)" using vi vo by (auto simp: seen_def fun_eq_iff)
  have vd: "vdT ei t3 j \<longleftrightarrow> j = i \<or> vdT ei t j" for j using c(2) by simp
  show "dead_ok t3 (grown ei t ch h i)"
    using dead lv vd same_shape_fields [OF c(3)] by (auto simp: dead_ok_def grown_def)
qed

lemma seen_deleted: "deleted t ch i t' \<Longrightarrow> seen t' = (seen t)(i := None)"
  by (auto simp: deleted_def seen_def fun_eq_iff)

lemma seen_recs: "recs t' = recs t \<Longrightarrow> seen t' = seen t" "recs t' = recs t \<Longrightarrow> live t' = live t"
  by (simp_all add: seen_def live_def vdT_def fun_eq_iff)

end

end
