(* ===== verification/Nat_Del_Ok.thy ===== *)
theory Nat_Del_Ok
  imports Nat_Add_Ok Ipa_Table_Dead
begin

text \<open>
  Deleting a rule.  \<^verbatim>\<open>ipa_NATI_del_ipv4_rule\<close> takes the rule out of its chain in the NAT table and its
  index entry out of the index table.  A head with a tail stays in the NAT table as a dead record
  (protocol 0xFF) until the last record of its tail is deleted; in the index table the second entry
  is copied over the head and the second entry is deleted instead.
\<close>

section \<open>The NAT table\<close>

definition dead_ok :: "ipa_nat_rule ipa_table \<Rightarrow> (nat \<Rightarrow> nat list) \<Rightarrow> bool" where
  "dead_ok t ct \<longleftrightarrow> (\<forall>j. vdT nat_ei t j \<and> \<not> live t j \<longrightarrow> j < table_entries t \<and> ct j \<noteq> [])"

definition nat_deleted :: "ipa_nat_rule ipa_table \<Rightarrow> (nat \<Rightarrow> nat list) \<Rightarrow> nat \<Rightarrow> ipa_nat_rule ipa_table \<Rightarrow> bool" where
  "nat_deleted t ct i t' \<longleftrightarrow>
     nat_tinv t' (without i ct) \<and> same_shape t t' \<and> dead_ok t' (without i ct) \<and>
     (\<forall>j. live t' j \<longleftrightarrow> j \<noteq> i \<and> live t j) \<and>
     (\<forall>j. live t' j \<longrightarrow> rule_view (recs t' ! j) = rule_view (recs t ! j) \<and>
                         indx_tbl_entry (recs t' ! j) = indx_tbl_entry (recs t ! j))"

lemma live_vdT: "live t j \<Longrightarrow> vdT nat_ei t j" by (simp add: live_def)

text \<open>A rule and its index entry are what the index table relies on; the protocol marks a dead head.\<close>

definition nat_view :: "ipa_nat_rule \<Rightarrow> ipa_nat_rule \<times> u16" where
  "nat_view e = (rule_view e, indx_tbl_entry e)"

definition nat_dead :: "ipa_nat_rule \<times> u16 \<Rightarrow> bool" where
  "nat_dead v \<longleftrightarrow> protocol (fst v) = IPAHAL_NAT_INVALID_PROTOCOL"

interpretation nat_heads: dead_head_table nat_ei nat_put nat_off False "pdn_in_range []" IPA_NAT_BASE_TBL
  IPA_NAT_EXPN_TBL nat_view nat_dead
proof unfold_locales
  show "nat_view (nat_put (nat_off HELP_UPDATE_ENTRY) v e) = nat_view e" for v e
    by (simp add: nat_view_def nat_put_next rule_view_def)
  show "nat_view e' = nat_view e" if "entry_set_prev_index nat_ei e i p m te = Some (e', m')" for e i p m te e' m'
    using that by (auto simp: nat_view_def nat_callbacks rule_view_def)
  show "nat_dead (nat_view (nat_put (nat_off HELP_DELETE_HEAD) (entry_get_delete_head_dma_command_data nat_ei e e') e))" for e e'
    by (simp add: nat_dead_def nat_view_def nat_callbacks nat_put_proto rule_view_def
        IPA_NAT_INVALID_PROTO_FIELD_VALUE_def IPAHAL_NAT_INVALID_PROTOCOL_def)
qed

lemma nat_heads_eqs:
  "nat_heads.live = live" "nat_heads.dead_ok = dead_ok" "nat_heads.deleted = nat_deleted" "nat_heads.unlink = delete_nat_entry"
proof -
  have nd: "nat_dead (nat_view e) \<longleftrightarrow> protocol e = IPAHAL_NAT_INVALID_PROTOCOL" for e
    by (simp add: nat_dead_def nat_view_def rule_view_def)
  show lv: "nat_heads.live = live" by (simp add: fun_eq_iff nat_heads.live_def live_def nd)
  show dd: "nat_heads.dead_ok = dead_ok" by (simp add: fun_eq_iff nat_heads.dead_ok_def dead_ok_def lv)
  show "nat_heads.deleted = nat_deleted"
    by (simp add: fun_eq_iff nat_heads.deleted_def nat_deleted_def lv dd nat_view_def)
  show "nat_heads.unlink = delete_nat_entry" 
    unfolding fun_eq_iff nat_heads.unlink_def delete_nat_entry_def nd by simp
qed

abbreviation nat_write :: "ipa_nat_rule ipa_table \<Rightarrow> dma_help_type \<Rightarrow> nat \<Rightarrow> u16 \<Rightarrow> ipa_nat_rule ipa_table" where
  "nat_write t hk i v \<equiv> put_rec t i (nat_put (nat_off hk) v (recs t ! i))"

lemmas delete_nat_command = nat_heads.delete_command [unfolded nat_heads_eqs]

section \<open>The index table\<close>

lemma clear_prev_meta_inv:
  assumes inv: "indx_tinv x cx" and m: "m < n_recs x" "\<not> vdT indx_ei x m"
  shows "\<exists>x'. clear_prev_meta x m = Some x' \<and> indx_tinv x' cx \<and> recs x' = recs x \<and> same_shape x x'"
proof (cases "table_entries x \<le> m")
  case False
  then show ?thesis using inv by (intro exI [of _ x]) (simp add: clear_prev_meta_def)
next
  case True
  obtain ms where ms: "meta x = Some ms" "table_entries x + length ms = n_recs x"
    using inv_meta [OF inv] by (auto simp: meta_fits_def split: option.splits)
  define x' where "x' = x\<lparr>meta := Some (ms[m - table_entries x := 0])\<rparr>"
  have "clear_prev_meta x m = Some x'" using True ms m by (simp add: clear_prev_meta_def x'_def)
  moreover have v: "vdT indx_ei x' = vdT indx_ei x" "nxT indx_ei x' = nxT indx_ei x" by (simp_all add: x'_def)
  have pv: "pvT indx_ei x' j = pvT indx_ei x j" if "vdT indx_ei x j" for j
  proof -
    have "j \<noteq> m" using that m by auto
    then show ?thesis using True ms
      by (auto simp: pvT_def x'_def index_entry_interface_def index_table_entry_get_prev_index_def nth_list_update)
  qed
  have "indx_tinv x' cx"
  proof (rule table_invI [OF inv])
    show "chains_ok (table_entries x) (n_recs x) (vdT indx_ei x') (nxT indx_ei x') (pvT indx_ei x') cx"
      unfolding v by (rule chains_ok_pv_cong [OF inv_chains [OF inv] pv])
  qed (use inv_meta [OF inv] inv_zero [OF inv] inv_cnt [OF inv] inv_xcnt [OF inv] ms in
        \<open>simp_all add: v, simp_all add: x'_def meta_fits_def\<close>)
  ultimately show ?thesis by (intro exI [of _ x']) (simp add: x'_def)
qed

definition indx_deleted ::
  "ipa_nat_indx_tbl_rule ipa_table \<Rightarrow> (nat \<Rightarrow> nat list) \<Rightarrow> nat \<Rightarrow> (nat \<Rightarrow> nat) \<Rightarrow> ipa_nat_indx_tbl_rule ipa_table \<Rightarrow> bool" where
  "indx_deleted x cx m f x' \<longleftrightarrow>
     indx_tinv x' (without m cx) \<and> same_shape x x' \<and> (\<forall>j. vdT indx_ei x' j \<longleftrightarrow> j \<noteq> m \<and> vdT indx_ei x j) \<and>
     (\<forall>j. vdT indx_ei x' j \<longrightarrow> rule_of x' j = f j)"

lemma indx_deletedI:
  assumes x1: "indx_tinv x1 (without m cx)" "same_shape x x1" "vdT indx_ei x1 = (vdT indx_ei x)(m := False)"
    and m: "m < n_recs x" and f: "\<And>j. j \<noteq> m \<Longrightarrow> vdT indx_ei x j \<Longrightarrow> rule_of x1 j = f j"
  shows "\<exists>x'. clear_prev_meta x1 m = Some x' \<and> indx_deleted x cx m f x'"
proof -
  have "m < n_recs x1" "\<not> vdT indx_ei x1 m" using m x1(3) same_shape_fields [OF x1(2)] by simp_all
  from clear_prev_meta_inv [OF x1(1) this] obtain x' where x': "clear_prev_meta x1 m = Some x'"
      "indx_tinv x' (without m cx)" "recs x' = recs x1" "same_shape x1 x'" by blast
  have "vdT indx_ei x' = vdT indx_ei x1" "rule_of x' = rule_of x1"
    using x'(3) by (simp_all add: fun_eq_iff vdT_def rule_of_def)
  then have "indx_deleted x cx m f x'"
    using x'(2) same_shape_trans [OF x1(2) x'(4)] x1(3) f by (auto simp: indx_deleted_def)
  then show ?thesis using x'(1) by blast
qed

abbreviation indx_write :: "ipa_nat_indx_tbl_rule ipa_table \<Rightarrow> dma_help_type \<Rightarrow> nat \<Rightarrow> u16 \<Rightarrow> ipa_nat_indx_tbl_rule ipa_table" where
  "indx_write x hk i v \<equiv> put_rec x i (indx_put (indx_off hk) v (recs x ! i))"

lemma delete_indx_head:
  assumes inv: "indx_tinv x cx" and k: "k < table_entries x" "vdT indx_ei x k" "cx k = []"
  shows "\<exists>x'. delete_index_entry (indx_write x HELP_UPDATE_HEAD k 0) (pos_it [] k []) = Some x' \<and>
              indx_deleted x cx k (rule_of x) x'"
proof -
  obtain x1 where x1: "ipa_table_delete_entry indx_ei (indx_write x HELP_UPDATE_HEAD k 0) (pos_it [] k []) False = Some x1"
      "indx_tinv x1 cx" "same_shape x x1" "vdT indx_ei x1 = (vdT indx_ei x)(k := False)"
      "recs x1 = (recs x)[k := entry_zero indx_ei]"
    using indx_tbl.delete_head_commit [OF inv k] by blast
  have "\<exists>x'. clear_prev_meta x1 k = Some x' \<and> indx_deleted x cx k (rule_of x) x'"
    by (rule indx_deletedI [OF _ x1(3,4)]) (use x1 k without_base [OF inv k(1)] in \<open>simp_all add: rule_of_def\<close>)
  then show ?thesis using x1(1) by (auto simp: delete_index_entry_def pos_it_def)
qed

text \<open>A tail entry, also with new data \<open>d\<close> written into its predecessor.\<close>

lemma delete_indx_tail:
  assumes inv: "indx_tinv x cx" and h: "cx g = xs @ k # ys" and p: "p = last (g # xs)"
    and e: "tbl_entry e \<noteq> 0" "unat (indx_next_index e) = nxT indx_ei x k"
  shows "\<exists>x'. delete_index_entry (put_rec x p e) (pos_it (g # xs) k ys) = Some x' \<and>
              indx_deleted x cx k ((rule_of x)(p := unat (tbl_entry e))) x'"
proof -
  note ok = inv_chains [OF inv]
  have kin: "k \<in> set (cx g)" using h by simp
  note own = chains_ok_owner [OF ok kin]
  have pos: "g # cx g = (g # xs) @ k # ys" using h by simp
  note v = position_views [OF inv own pos]
  have pin: "p \<in> set (g # xs)" unfolding p by (rule last_in_set) simp
  have pk: "p \<noteq> k" "p \<notin> set ys" "k < n_recs x" using v(4) [of k] v(5) pin by auto
  have ep: "entry_is_valid indx_ei e" "entry_get_next_index indx_ei e = nxT indx_ei x k"
      "\<And>j m te. entry_get_prev_index indx_ei e j m te = entry_get_prev_index indx_ei (recs x ! p) j m te"
    using e by (simp_all add: indx_callbacks)
  obtain x1 where x1: "ipa_table_delete_entry indx_ei (put_rec x p e) (pos_it (g # xs) k ys) False = Some x1"
      "indx_tinv x1 (cx(g := xs @ ys))" "same_shape x x1" "vdT indx_ei x1 = (vdT indx_ei x)(k := False)"
      "\<forall>j. j \<noteq> k \<longrightarrow> (ys \<noteq> [] \<longrightarrow> j \<noteq> hd ys) \<longrightarrow> recs x1 ! j = (if j = p then e else recs x ! j)"
      "if ys = [] then meta x1 = meta x
       else entry_set_prev_index indx_ei (recs x ! hd ys) (hd ys) p (meta x) (table_entries x) =
              Some (recs x1 ! hd ys, meta x1)"
    using indx_tbl.delete_tail_commit [OF inv h p ep, of False] by auto
  have "rule_of x1 j = ((rule_of x)(p := unat (tbl_entry e))) j" if "j \<noteq> k" for j
  proof (cases "ys \<noteq> [] \<and> j = hd ys")
    case True
    then have "recs x1 ! j = recs x ! j" "j \<noteq> p"
      using x1(6) pk(2) by (auto simp: indx_callbacks split: if_splits option.splits)
    then show ?thesis by (simp add: rule_of_def)
  next
    case False
    then show ?thesis using x1(5) that by (auto simp: rule_of_def)
  qed
  then have "\<exists>x'. clear_prev_meta x1 k = Some x' \<and> indx_deleted x cx k ((rule_of x)(p := unat (tbl_entry e))) x'"
    using x1 without_tail [OF inv h] pk(3) by (intro indx_deletedI) simp_all
  then show ?thesis using x1(1) by (auto simp: delete_index_entry_def pos_it_def)
qed

section \<open>Commands and cross references\<close>

text \<open>The rule whose index entry moves into the head, as the library leaves it before the device runs.\<close>

definition repoint :: "ipa_nat_rule ipa_table \<Rightarrow> nat \<Rightarrow> nat \<Rightarrow> ipa_nat_rule ipa_table" where
  "repoint t j k = put_rec t j ((recs t ! j)\<lparr>indx_tbl_entry := of_nat k\<rparr>)"

definition indx_cmds_ok ::
  "ipa_nat_indx_tbl_rule ipa_table \<Rightarrow> (nat \<Rightarrow> nat list) \<Rightarrow> ipa_table_iterator \<Rightarrow> ipa_ioc_nat_dma_one list \<Rightarrow> nat \<Rightarrow> (nat \<Rightarrow> nat) \<Rightarrow> bool" where
  "indx_cmds_ok x cx xit dx m f \<longleftrightarrow>
     length dx \<le> 2 \<and>
     (\<forall>d \<in> set dx. \<exists>q j v. d = cmd_one x q j v \<and> VALID_DMA_HELP_TYPE q \<and> j < n_recs x) \<and>
     (\<exists>x'. delete_index_entry (dma_run indx_put IPA_NAT_INDX_TBL IPA_NAT_INDEX_EXPN_TBL dx x) xit = Some x' \<and>
           indx_deleted x cx m f x')"

lemma indx_dma_one:
  assumes "indx_tinv x cx" "same_shape x x'" "j < n_recs x" "VALID_DMA_HELP_TYPE q"
  shows "dma_write indx_put IPA_NAT_INDX_TBL IPA_NAT_INDEX_EXPN_TBL (cmd_one x q j v) x' = indx_write x' q j v"
  using indx_tbl.dma_write_shape [OF inv_geom [OF assms(1)] assms(2-4)] by simp

lemma delete_index_commands_plain:
  assumes inv: "indx_tinv x cx" and g: "g < table_entries x" "vdT indx_ei x g" and pos: "g # cx g = xs @ k # ys"
    and plain: "xs \<noteq> [] \<or> ys = []"
  shows "\<exists>dx. delete_index_commands t x (pos_it xs k ys) = Some (0, t, pos_it xs k ys, dma_cmd_zero\<lparr>cmd_dma := dx\<rparr>) \<and>
              indx_cmds_ok x cx (pos_it xs k ys) dx k (rule_of x)"
proof -
  note v = position_views [OF inv g pos]
  let ?d = "if xs \<noteq> [] then cmd_one x HELP_UPDATE_ENTRY (last xs) (of_nat (hd0 ys)) else cmd_one x HELP_UPDATE_HEAD k 0"
  have last: "xs \<noteq> [] \<Longrightarrow> last xs \<noteq> 0 \<and> last xs < n_recs x \<and> vdT indx_ei x (last xs)"
    using v(3) [of "last xs"] v(4) [of "last xs"] last_in_set [of xs] by simp
  have "ipa_table_create_delete_command indx_ei x dma_cmd_zero (pos_it xs k ys) = Some (dma_cmd_zero\<lparr>cmd_dma := [?d]\<rparr>)"
    using indx_tbl.create_delete_command_inv [OF inv g pos, of dma_cmd_zero] plain
    by (cases "xs = []") (simp_all add: dma_cmd_zero_def)
  moreover have "\<not> ipa_table_iterator_is_head_with_tail (pos_it xs k ys)"
    using plain last by (auto simp: ipa_table_iterator_is_head_with_tail_def pos_it_def VALID_INDEX_def
        IPA_TABLE_INVALID_ENTRY_def hd0_def)
  ultimately have cmds: "delete_index_commands t x (pos_it xs k ys) =
      Some (0, t, pos_it xs k ys, dma_cmd_zero\<lparr>cmd_dma := [?d]\<rparr>)"
    by (simp add: delete_index_commands_def)
  have del: "\<exists>x'. delete_index_entry (dma_run indx_put IPA_NAT_INDX_TBL IPA_NAT_INDEX_EXPN_TBL [?d] x) (pos_it xs k ys) = Some x' \<and>
           indx_deleted x cx k (rule_of x) x'"
  proof (cases xs)
    case Nil
    then have "k = g" "cx g = []" "ys = []" using pos plain by auto
    moreover have "k < n_recs x" using v(4) [of k] by simp
    ultimately show ?thesis
      using delete_indx_head [OF inv, of k] g Nil indx_dma_one [OF inv same_shape_refl, of k HELP_UPDATE_HEAD 0]
      by simp
  next
    case (Cons a xs')
    then have gx: "xs = g # xs'" "cx g = xs' @ k # ys" using pos by auto
    let ?p = "last (g # xs')"
    have p: "?p \<noteq> 0" "?p < n_recs x" "vdT indx_ei x ?p" using last gx by auto
    have hd16: "hd0 ys < 65536"
      using v(4) [of "hd0 ys"] table_geomD [OF inv_geom [OF inv]] by (cases ys) (auto simp: hd0_def)
    let ?e = "(recs x ! ?p)\<lparr>indx_next_index := of_nat (hd0 ys)\<rparr>"
    have w: "indx_write x HELP_UPDATE_ENTRY ?p (of_nat (hd0 ys)) = put_rec x ?p ?e"
      by (simp add: indx_put_def IPA_NAT_INDEX_RULE_NEXT_FIELD_OFFSET_def)
    have "tbl_entry ?e \<noteq> 0" "unat (indx_next_index ?e) = nxT indx_ei x k"
      using p(3) v(1) unat_of_nat_u16 [OF hd16] by (simp_all add: vdT_def indx_callbacks del: last.simps)
    moreover have "(rule_of x)(?p := unat (tbl_entry ?e)) = rule_of x" by (simp add: fun_eq_iff rule_of_def)
    ultimately show ?thesis
      using delete_indx_tail [OF inv gx(2) refl, of ?e] indx_dma_one [OF inv same_shape_refl p(2), of HELP_UPDATE_ENTRY "of_nat (hd0 ys)"]
        gx(1) w by (simp del: last.simps)
  qed
  have "indx_cmds_ok x cx (pos_it xs k ys) [?d] k (rule_of x)"
    unfolding indx_cmds_ok_def using del last v(4) [of k] by (auto simp del: dma_run_simps)
  then show ?thesis using cmds by blast
qed

text \<open>A head with a tail: the second entry \<open>y\<close> is copied into the head \<open>k\<close> and goes itself.\<close>

lemma delete_index_commands_move:
  assumes inv: "indx_tinv x cx" and k: "k < table_entries x" "vdT indx_ei x k" and pos: "cx k = y # ys"
    and j: "rule_of x y < length (recs t)"
  shows "\<exists>dx. delete_index_commands t x (pos_it [] k (y # ys)) =
              Some (0, repoint t (rule_of x y) k, pos_it [k] y ys, dma_cmd_zero\<lparr>cmd_dma := dx\<rparr>) \<and>
              indx_cmds_ok x cx (pos_it [k] y ys) dx y ((rule_of x)(k := rule_of x y))"
proof -
  note g = inv_geom [OF inv]
  have pos1: "k # cx k = [] @ k # y # ys" and pos2: "k # cx k = [k] @ y # ys" using pos by simp_all
  note v = position_views [OF inv k pos1] and vy = position_views [OF inv k pos2]
  have n: "k < n_recs x" "y < n_recs x" "y \<noteq> 0" "vdT indx_ei x y" "y \<noteq> k"
    using v(3) [of y] v(4) [of y] v(4) [of k] v(5) by auto
  let ?dx = "[cmd_one x HELP_DELETE_HEAD k (tbl_entry (recs x ! y)),
              cmd_one x HELP_UPDATE_ENTRY k (indx_next_index (recs x ! y))]"
  have del: "ipa_table_create_delete_command indx_ei x dma_cmd_zero (pos_it [] k (y # ys)) =
      Some (dma_cmd_zero\<lparr>cmd_dma := [cmd_one x HELP_DELETE_HEAD k (tbl_entry (recs x ! y))]\<rparr>)"
    using indx_tbl.create_delete_command_inv [OF inv k pos1, of dma_cmd_zero]
    by (simp add: dma_cmd_zero_def index_entry_interface_def index_table_entry_get_delete_head_dma_command_data_def)
  have copy: "ipa_nati_copy_second_index_entry_to_head t x (pos_it [] k (y # ys))
        (dma_cmd_zero\<lparr>cmd_dma := [cmd_one x HELP_DELETE_HEAD k (tbl_entry (recs x ! y))]\<rparr>) =
      Some (repoint t (rule_of x y) k, dma_cmd_zero\<lparr>cmd_dma := ?dx\<rparr>)"
    using n j add_dma_cmd_eq [OF g n(1), of HELP_UPDATE_ENTRY]
    by (simp add: ipa_nati_copy_second_index_entry_to_head_def pos_it_def rec_at_inv [OF g] rec_at_def [of t]
          rule_of_def repoint_def)
  have nxt: "ipa_table_iterator_next indx_ei (pos_it [] k (y # ys)) x = Some (0, pos_it [k] y ys)"
    using indx_tbl.iterator_next_inv [OF inv k pos1 same_shape_refl refl] by simp
  have cmds: "delete_index_commands t x (pos_it [] k (y # ys)) =
      Some (0, repoint t (rule_of x y) k, pos_it [k] y ys, dma_cmd_zero\<lparr>cmd_dma := ?dx\<rparr>)"
    using del copy nxt n(3)
    by (simp add: delete_index_commands_def ipa_table_iterator_is_head_with_tail_def pos_it_def [of "[]"] hd0_def
          VALID_INDEX_def IPA_TABLE_INVALID_ENTRY_def)
  let ?e = "(recs x ! k)\<lparr>tbl_entry := tbl_entry (recs x ! y), indx_next_index := indx_next_index (recs x ! y)\<rparr>"
  have "dma_run indx_put IPA_NAT_INDX_TBL IPA_NAT_INDEX_EXPN_TBL ?dx x = put_rec x k ?e"
    using n geom_len [OF g] indx_dma_one [OF inv same_shape_refl n(1), of HELP_DELETE_HEAD]
      indx_dma_one [OF inv _ n(1), of "indx_write x HELP_DELETE_HEAD k (tbl_entry (recs x ! y))" HELP_UPDATE_ENTRY]
    by (simp add: indx_put_def IPA_NAT_INDEX_RULE_NEXT_FIELD_OFFSET_def IPA_NAT_INDEX_RULE_NAT_INDEX_FIELD_OFFSET_def)
  moreover have "tbl_entry ?e \<noteq> 0" "unat (indx_next_index ?e) = nxT indx_ei x y"
    using n(4) by (simp_all add: vdT_def nxT_def indx_callbacks)
  then have "\<exists>x'. delete_index_entry (put_rec x k ?e) (pos_it [k] y ys) = Some x' \<and>
      indx_deleted x cx y ((rule_of x)(k := rule_of x y)) x'"
    using delete_indx_tail [OF inv, of k "[]" y ys k ?e] pos by (simp add: rule_of_def)
  ultimately have "indx_cmds_ok x cx (pos_it [k] y ys) ?dx y ((rule_of x)(k := rule_of x y))"
    unfolding indx_cmds_ok_def using n(1) by (auto simp del: dma_run_simps)
  then show ?thesis using cmds by blast
qed

lemma repoint_inv:
  assumes inv: "nat_tinv t ct" and dead: "dead_ok t ct" and j: "vdT nat_ei t j" and k: "k < 65536"
  shows "nat_tinv (repoint t j k) ct" "dead_ok (repoint t j k) ct" "same_shape t (repoint t j k)"
    "live (repoint t j k) = live t" "indx_of (repoint t j k) = (indx_of t)(j := k)"
    "rule_view (recs (repoint t j k) ! m) = rule_view (recs t ! m)"
    "vdT nat_ei (repoint t j k) = vdT nat_ei t"
proof -
  have n: "j < length (recs t)" using j by (simp add: vdT_def)
  have r: "recs (repoint t j k) ! m =
      (if m = j then (recs t ! j)\<lparr>indx_tbl_entry := of_nat k\<rparr> else recs t ! m)" for m
    using n by (simp add: repoint_def nth_list_update)
  show sh: "same_shape t (repoint t j k)" by (simp add: repoint_def)
  show v: "vdT nat_ei (repoint t j k) = vdT nat_ei t"
    using n by (auto simp: fun_eq_iff vdT_def r nat_callbacks) (simp_all add: repoint_def)
  have w: "nxT nat_ei (repoint t j k) = nxT nat_ei t"
      "pvT nat_ei (repoint t j k) = pvT nat_ei t"
    by (auto simp: fun_eq_iff nxT_def pvT_def r nat_callbacks)
  show lv: "live (repoint t j k) = live t"
    unfolding live_def v fun_eq_iff by (simp add: r)
  show "nat_tinv (repoint t j k) ct"
    by (rule inv_same_views [OF inv sh v w])
       (use inv_meta [OF inv] j in \<open>auto simp: r, simp_all add: repoint_def\<close>)
  show "dead_ok (repoint t j k) ct"
    using dead same_shape_fields [OF sh] unfolding dead_ok_def lv v by simp
  show "indx_of (repoint t j k) = (indx_of t)(j := k)"
    using unat_of_nat_u16 [OF k] by (simp add: fun_eq_iff indx_of_def r)
  show "rule_view (recs (repoint t j k) ! m) = rule_view (recs t ! m)" by (simp add: r rule_view_def)
qed

lemma nat_dma_one:
  assumes "nat_tinv t ct" "same_shape t t'" "j < n_recs t" "VALID_DMA_HELP_TYPE q"
  shows "dma_write nat_put IPA_NAT_BASE_TBL IPA_NAT_EXPN_TBL (cmd_one t q j v) t' = nat_write t' q j v"
  using nat_tbl.dma_write_shape [OF inv_geom [OF assms(1)] assms(2-4)] by simp

section \<open>The whole operation\<close>

definition rule_deleted ::
  "ipa_nat_rule ipa_table \<Rightarrow> (nat \<Rightarrow> nat list) \<Rightarrow> (nat \<Rightarrow> nat list) \<Rightarrow> nat
    \<Rightarrow> ipa_nat_rule ipa_table \<Rightarrow> ipa_nat_indx_tbl_rule ipa_table \<Rightarrow> bool" where
  "rule_deleted t ct cx i t' x' \<longleftrightarrow>
     (\<exists>m. nat_inv t' x' (without i ct) (without m cx)) \<and> same_shape t t' \<and> rules_of t' = (rules_of t)(i := None)"

lemma nat_inv_dead_ok: "nat_inv t x ct cx \<Longrightarrow> dead_ok t ct"
  by (simp add: nat_inv_def dead_ok_def)

text \<open>The state the device finds: the rules are those of before, one rule may already point to the entry its
  index entry is about to move to.\<close>

definition moves ::
  "ipa_nat_rule ipa_table \<Rightarrow> ipa_nat_indx_tbl_rule ipa_table \<Rightarrow> nat \<Rightarrow> ipa_nat_rule ipa_table \<Rightarrow> nat \<Rightarrow> (nat \<Rightarrow> nat) \<Rightarrow> bool" where
  "moves t x k t1 m f \<longleftrightarrow>
     m = k \<and> t1 = t \<and> f = rule_of x \<or>
     (vdT indx_ei x m \<and> m \<noteq> k \<and> t1 = repoint t (rule_of x m) k \<and> f = (rule_of x)(k := rule_of x m))"

lemma del_index_side:
  assumes inv: "nat_inv t x ct cx" and k: "vdT indx_ei x k"
  shows "\<exists>xit t1 xit2 dx m f. ipa_table_iterator_init indx_ei x k k = Some (0, xit) \<and>
     delete_index_commands t x xit = Some (0, t1, xit2, dma_cmd_zero\<lparr>cmd_dma := dx\<rparr>) \<and>
     indx_cmds_ok x cx xit2 dx m f \<and> moves t x k t1 m f"
proof -
  note ix = nat_inv_x [OF inv]
  obtain g xs ys where g: "g < table_entries x" "vdT indx_ei x g" "g # cx g = xs @ k # ys"
    using valid_position [OF ix k] by blast
  note init = indx_tbl.iterator_init_inv [OF ix g]
  show ?thesis
  proof (cases "xs \<noteq> [] \<or> ys = []")
    case True
    from delete_index_commands_plain [OF ix g True, of t] obtain dx where
      "delete_index_commands t x (pos_it xs k ys) = Some (0, t, pos_it xs k ys, dma_cmd_zero\<lparr>cmd_dma := dx\<rparr>)"
      "indx_cmds_ok x cx (pos_it xs k ys) dx k (rule_of x)" by blast
    then show ?thesis using init unfolding moves_def by blast
  next
    case False
    then obtain y zs where p: "xs = []" "ys = y # zs" "g = k" "cx k = y # zs" using g(3) by (cases ys) auto
    have y: "vdT indx_ei x y" "y \<noteq> k"
      using position_views(4) [OF ix g, of y] position_views(5) [OF ix g] p by auto
    have "live t (rule_of x y)" using nat_inv_pbij [OF inv] y(1) by (simp add: pbij_def)
    then have "rule_of x y < length (recs t)" by (simp add: live_def vdT_def)
    from delete_index_commands_move [OF ix _ k p(4) this] obtain dx where
      "delete_index_commands t x (pos_it [] k (y # zs)) =
         Some (0, repoint t (rule_of x y) k, pos_it [k] y zs, dma_cmd_zero\<lparr>cmd_dma := dx\<rparr>)"
      "indx_cmds_ok x cx (pos_it [k] y zs) dx y ((rule_of x)(k := rule_of x y))"
      using g(1) p(3) by blast
    then show ?thesis using init y p unfolding moves_def by blast
  qed
qed

lemma moves_inv:
  assumes inv: "nat_inv t x ct cx" and m: "moves t x k t1 m f" and k: "k < 65536"
  shows "nat_tinv t1 ct" "dead_ok t1 ct" "same_shape t t1" "live t1 = live t"
    "rule_view (recs t1 ! j) = rule_view (recs t ! j)" "vdT nat_ei t1 = vdT nat_ei t"
proof -
  have l: "vdT nat_ei t (rule_of x m)" if "vdT indx_ei x m"
    using nat_inv_pbij [OF inv] that by (simp add: pbij_def live_def)
  note r = repoint_inv [OF nat_inv_t [OF inv] nat_inv_dead_ok [OF inv] l k]
  show "nat_tinv t1 ct" "dead_ok t1 ct" "same_shape t t1" "live t1 = live t"
    "rule_view (recs t1 ! j) = rule_view (recs t ! j)" "vdT nat_ei t1 = vdT nat_ei t"
    using m r nat_inv_t [OF inv] nat_inv_dead_ok [OF inv] unfolding moves_def by auto
qed

lemma moves_pbij:
  assumes inv: "nat_inv t x ct cx" and i: "live t i" "k = indx_of t i" and m: "moves t x k t1 m f"
    and t3: "nat_deleted t1 ct i t3" and x4: "indx_deleted x cx m f x4"
  shows "pbij (live t3) (indx_of t3) (vdT indx_ei x4) (rule_of x4)"
proof -
  note b = nat_inv_pbij [OF inv]
  have kv: "vdT indx_ei x k" "rule_of x k = i" using b i by (simp_all add: pbij_def)
  have k16: "k < 65536" using i(2) by (simp add: indx_of_def unat_u16_less)
  note mi = moves_inv [OF inv m k16]
  have lv: "live t3 j \<longleftrightarrow> j \<noteq> i \<and> live t j" for j using t3 mi(4) by (simp add: nat_deleted_def)
  have io: "indx_of t3 j = indx_of t1 j" if "live t3 j" for j
    using t3 that by (simp add: nat_deleted_def indx_of_def)
  have vd: "vdT indx_ei x4 j \<longleftrightarrow> j \<noteq> m \<and> vdT indx_ei x j" for j using x4 by (simp add: indx_deleted_def)
  have ro: "rule_of x4 j = f j" if "vdT indx_ei x4 j" for j using x4 that by (simp add: indx_deleted_def)
  from m consider "m = k" "t1 = t" "f = rule_of x"
    | "vdT indx_ei x m" "m \<noteq> k" "t1 = repoint t (rule_of x m) k" "f = (rule_of x)(k := rule_of x m)"
    unfolding moves_def by blast
  then show ?thesis
  proof cases
    case 1
    show ?thesis
      by (rule pbij_delete [where i = i and k = k, OF b]) (use i lv io vd ro 1 in auto)
  next
    case 2
    have j: "live t (rule_of x m)" "indx_of t (rule_of x m) = m" using b 2(1) by (simp_all add: pbij_def)
    have jv: "vdT nat_ei t (rule_of x m)" using j(1) by (rule live_vdT)
    have ji: "rule_of x m \<noteq> i" using j(2) i(2) 2(2) by auto
    have io1: "indx_of t1 = (indx_of t)(rule_of x m := k)"
      using repoint_inv(5) [OF nat_inv_t [OF inv] nat_inv_dead_ok [OF inv] jv k16] 2(3) by simp
    show ?thesis
      by (rule pbij_delete_move [where i = i and k = k and y = m and j = "rule_of x m", OF b])
         (use i lv io vd ro io1 2 j ji kv in auto)
  qed
qed

text \<open>What the body does, whatever the device is: at most three commands are posted.\<close>

lemma del_body_shape:
  assumes inv: "nat_inv t x ct cx" and c: "ipa_desc c = Some desc" and i: "live t i"
  obtains ti t1 xit2 dx d m f where
    "length (dx @ [d]) \<le> 3" "moves t x (indx_of t i) t1 m f" "indx_cmds_ok x cx xit2 dx m f"
    "\<exists>q j v t'. d = cmd_one t1 q j v \<and> VALID_DMA_HELP_TYPE q \<and> j < n_recs t1 \<and>
       delete_nat_entry (nat_write t1 q j v) ti = Some t' \<and> nat_deleted t1 ct i t'"
    "\<And>env :: ('w, 'z) nat_env_scheme. \<And>w.
       del_ipv4_rule_body env c (ucast (MakeEntryHdl t i)) t x w =
         do { (ret, (t2, x2), w) \<leftarrow> ipa_nati_post_ipv4_dma_cmd env c (dma_cmd_zero\<lparr>cmd_dma := dx @ [d]\<rparr>) (t1, x) w;
              if ret \<noteq> 0 then Some (ret, t2, x2, w)
              else do { t3 \<leftarrow> delete_nat_entry t2 ti; x4 \<leftarrow> delete_index_entry x2 xit2; Some (0, t3, x4, w) } }"
proof -
  note it = nat_inv_t [OF inv] and ix = nat_inv_x [OF inv]
  let ?k = "indx_of t i"
  have iv: "vdT nat_ei t i" by (rule live_vdT [OF i])
  then have n: "i < n_recs t" using geom_len [OF inv_geom [OF it]] by (simp add: vdT_def)
  have kv: "vdT indx_ei x ?k" using nat_inv_pbij [OF inv] i by (simp add: pbij_def)
  have k16: "?k < 65536" by (simp add: indx_of_def unat_u16_less)
  have k: "?k \<noteq> 0" "?k < n_recs x"
    using kv chains_ok_0 [OF inv_chains [OF ix]] geom_len [OF inv_geom [OF ix]]
    by (metis, simp add: vdT_def)
  have kidx: "ipa_table_get_entry_by_index x ?k = Some ?k"
    using k geom_tot [OF inv_geom [OF ix]] by (simp add: ipa_table_get_entry_by_index_def)
  obtain h xs ys where h: "h < table_entries t" "vdT nat_ei t h" "h # ct h = xs @ i # ys"
    using valid_position [OF it iv] by blast
  note init = nat_tbl.iterator_init_inv [OF it h]
  obtain xit t1 xit2 dx m f where x: "ipa_table_iterator_init indx_ei x ?k ?k = Some (0, xit)"
      "delete_index_commands t x xit = Some (0, t1, xit2, dma_cmd_zero\<lparr>cmd_dma := dx\<rparr>)"
      "indx_cmds_ok x cx xit2 dx m f" "moves t x ?k t1 m f"
    using del_index_side [OF inv kv] by blast
  note mi = moves_inv [OF inv x(4) k16]
  have h1: "h < table_entries t1" "vdT nat_ei t1 h"
    using h same_shape_fields [OF mi(3)] mi(6) by simp_all
  obtain q j v t' where d: "ipa_table_create_delete_command nat_ei t1 (dma_cmd_zero\<lparr>cmd_dma := dx\<rparr>) (pos_it xs i ys) =
        Some (dma_cmd_zero\<lparr>cmd_dma := dx @ [cmd_one t1 q j v]\<rparr>)" "VALID_DMA_HELP_TYPE q" "j < n_recs t1"
      "delete_nat_entry (nat_write t1 q j v) (pos_it xs i ys) = Some t'" "nat_deleted t1 ct i t'"
    using delete_nat_command [OF mi(1,2) h1 h(3), of "dma_cmd_zero\<lparr>cmd_dma := dx\<rparr>"] by auto
  have rec: "rec_at t i = Some (recs t ! i)" by (rule rec_at_inv [OF inv_geom [OF it] n])
  show thesis
  proof (rule that [OF _ x(4,3)])
    show "length (dx @ [cmd_one t1 q j v]) \<le> 3" using x(3) by (simp add: indx_cmds_ok_def)
    show "\<exists>q' j' v' t'. cmd_one t1 q j v = cmd_one t1 q' j' v' \<and> VALID_DMA_HELP_TYPE q' \<and> j' < n_recs t1 \<and>
       delete_nat_entry (nat_write t1 q' j' v') (pos_it xs i ys) = Some t' \<and> nat_deleted t1 ct i t'"
      using d by blast
    show "del_ipv4_rule_body env c (ucast (MakeEntryHdl t i)) t x w =
         do { (ret, (t2, x2), w) \<leftarrow> ipa_nati_post_ipv4_dma_cmd env c (dma_cmd_zero\<lparr>cmd_dma := dx @ [cmd_one t1 q j v]\<rparr>) (t1, x) w;
              if ret \<noteq> 0 then Some (ret, t2, x2, w)
              else do { t3 \<leftarrow> delete_nat_entry t2 (pos_it xs i ys); x4 \<leftarrow> delete_index_entry x2 xit2; Some (0, t3, x4, w) } }"
      for env :: "('w, 'z) nat_env_scheme" and w
      using get_entry_own_handle [OF inv_geom [OF it] n] init rec kidx x(1,2) d(1)
      by (simp add: del_ipv4_rule_body_def indx_of_def)
  qed
qed

lemma nat_deletedD:
  assumes "nat_deleted t ct i t'"
  shows "nat_tinv t' (without i ct)" "dead_ok t' (without i ct)" "table_entries t' = table_entries t"
    "expn_table_entries t' = expn_table_entries t"
  using assms by (simp_all add: nat_deleted_def same_shape_def)

lemma indx_deletedD:
  assumes "indx_deleted x cx m f x'"
  shows "indx_tinv x' (without m cx)" "table_entries x' = table_entries x" "expn_table_entries x' = expn_table_entries x"
  using assms by (simp_all add: indx_deleted_def same_shape_def)

lemma rules_of_delete:
  assumes "\<And>j. live t' j \<longleftrightarrow> j \<noteq> i \<and> live t j" "\<And>j. live t' j \<Longrightarrow> rule_view (recs t' ! j) = rule_view (recs t ! j)"
  shows "rules_of t' = (rules_of t)(i := None)"
  using assms by (auto simp: rules_of_def fun_eq_iff)

lemma del_body_outcome:
  fixes env :: "('w, 'z) nat_env_scheme"
  assumes inv: "nat_inv t x ct cx" and dev: "dma_device env" and c: "ipa_desc c = Some desc" and i: "live t i"
  shows "\<exists>ret t' x' w'. del_ipv4_rule_body env c (ucast (MakeEntryHdl t i)) t x w = Some (ret, t', x', w') \<and>
     (if ret = 0 then rule_deleted t ct cx i t' x'
      else ret = - EIO \<and> x' = x \<and> nat_tinv t' ct \<and> rules_of t' = rules_of t)"
proof -
  have k16: "indx_of t i < 65536" by (simp add: indx_of_def unat_u16_less)
  obtain ti t1 xit2 dx d m f where b: "length (dx @ [d]) \<le> 3" "moves t x (indx_of t i) t1 m f" "indx_cmds_ok x cx xit2 dx m f"
    "\<exists>q j v t'. d = cmd_one t1 q j v \<and> VALID_DMA_HELP_TYPE q \<and> j < n_recs t1 \<and>
       delete_nat_entry (nat_write t1 q j v) ti = Some t' \<and> nat_deleted t1 ct i t'"
    "\<And>env :: ('w, 'z) nat_env_scheme. \<And>w.
       del_ipv4_rule_body env c (ucast (MakeEntryHdl t i)) t x w =
         do { (ret, (t2, x2), w) \<leftarrow> ipa_nati_post_ipv4_dma_cmd env c (dma_cmd_zero\<lparr>cmd_dma := dx @ [d]\<rparr>) (t1, x) w;
              if ret \<noteq> 0 then Some (ret, t2, x2, w)
              else do { t3 \<leftarrow> delete_nat_entry t2 ti; x4 \<leftarrow> delete_index_entry x2 xit2; Some (0, t3, x4, w) } }"
    by (rule del_body_shape [OF inv c i, where ?'w = 'w and ?'z = 'z]) (rule that, assumption+)
  note mi = moves_inv [OF inv b(2) k16]
  note ix = nat_inv_x [OF inv]
  obtain q j v t3 where d: "d = cmd_one t1 q j v" "VALID_DMA_HELP_TYPE q" "j < n_recs t1"
      "delete_nat_entry (nat_write t1 q j v) ti = Some t3" "nat_deleted t1 ct i t3"
    using b(4) by blast
  obtain x4 where x4: "delete_index_entry (dma_run indx_put IPA_NAT_INDX_TBL IPA_NAT_INDEX_EXPN_TBL dx x) xit2 = Some x4"
      "indx_deleted x cx m f x4"
    using b(3) by (auto simp: indx_cmds_ok_def)
  have t2: "dma_run nat_put IPA_NAT_BASE_TBL IPA_NAT_EXPN_TBL (dx @ [d]) t1 = nat_write t1 q j v"
    using dma_run_other [OF inv_geom [OF ix], of IPA_NAT_BASE_TBL IPA_NAT_EXPN_TBL dx nat_put t1] b(3)
      nat_dma_one [OF mi(1) same_shape_refl d(3,2), of v] d(1)
    by (simp add: indx_cmds_ok_def)
  have x2: "dma_run indx_put IPA_NAT_INDX_TBL IPA_NAT_INDEX_EXPN_TBL (dx @ [d]) x =
      dma_run indx_put IPA_NAT_INDX_TBL IPA_NAT_INDEX_EXPN_TBL dx x"
    using dma_write_other [OF inv_geom [OF mi(1)] d(3,2), of IPA_NAT_INDX_TBL IPA_NAT_INDEX_EXPN_TBL] d(1) by simp
  show ?thesis
  proof (cases rule: post_dma_cases [OF dev c, of "dma_cmd_zero\<lparr>cmd_dma := dx @ [d]\<rparr>" t1 x w])
    case (1 w')
    have "del_ipv4_rule_body env c (ucast (MakeEntryHdl t i)) t x w = Some (0, t3, x4, w')"
      using 1 t2 x2 d(4) x4(1) by (simp add: b(5))
    moreover have "nat_inv t3 x4 (without i ct) (without m cx)"
      using nat_deletedD [OF d(5)] indx_deletedD [OF x4(2)] moves_pbij [OF inv i refl b(2) d(5) x4(2)]
        nat_invD(3,4,5) [OF inv] same_shape_fields [OF mi(3)]
      unfolding nat_inv_def dead_ok_def by simp
    moreover have "rules_of t3 = (rules_of t)(i := None)"
      using d(5) mi(4,5) by (intro rules_of_delete) (simp_all add: nat_deleted_def)
    moreover have "same_shape t t3"
      using same_shape_trans [OF mi(3)] d(5) by (simp add: nat_deleted_def)
    ultimately show ?thesis by (auto simp: rule_deleted_def)
  next
    case (2 w')
    have "rules_of t1 = rules_of t" using mi(4,5) by (simp add: rules_of_def fun_eq_iff)
    then show ?thesis using 2 mi(1) by (simp add: b(5))
  qed
qed

text \<open>A device that never fails makes the deletion succeed.\<close>

lemma del_body_success:
  fixes env :: "('w, 'z) nat_env_scheme"
  assumes inv: "nat_inv t x ct cx" and dev: "dma_reliable env" and c: "ipa_desc c = Some desc" and i: "live t i"
  shows "\<exists>t' x' w'. del_ipv4_rule_body env c (ucast (MakeEntryHdl t i)) t x w = Some (0, t', x', w') \<and>
     rule_deleted t ct cx i t' x'"
proof -
  have dd: "dma_device env" using dev by (simp add: dma_reliable_def)
  obtain ret t' x' w' where o: "del_ipv4_rule_body env c (ucast (MakeEntryHdl t i)) t x w = Some (ret, t', x', w')"
      "if ret = 0 then rule_deleted t ct cx i t' x'
       else ret = - EIO \<and> x' = x \<and> nat_tinv t' ct \<and> rules_of t' = rules_of t"
    using del_body_outcome [OF inv dd c i, of w] by blast
  have "ret = 0"
  proof (cases rule: del_body_shape [OF inv c i, where ?'w = 'w and ?'z = 'z])
    case (1 ti t1 xit2 dx d m f)
    obtain t2 x2 w2 where p: "ipa_nati_post_ipv4_dma_cmd env c (dma_cmd_zero\<lparr>cmd_dma := dx @ [d]\<rparr>) (t1, x) w =
        Some (0, (t2, x2), w2)" using post_reliable [OF dev c] by fast
    show ?thesis using o(1) p by (auto simp: 1(5) split: Option.bind_splits)
  qed
  then show ?thesis using o by auto
qed

end
