(* ===== verification/Nat_Table_Ok.thy ===== *)
theory Nat_Table_Ok
  imports Nat_Drvi_Ok
begin

text \<open>
  Creating, clearing and destroying the tables of a cache: fresh tables satisfy the invariant, with no
  rule and with empty chains.
\<close>

section \<open>Fresh tables\<close>

definition no_chains :: "nat \<Rightarrow> nat list" where "no_chains = (\<lambda>_. [])"

lemma fresh_table_inv:
  assumes g: "table_geom bt xt off t" and m: "meta_fits um (meta t) (table_entries t) (n_recs t)"
    and r: "recs t = replicate (n_recs t) (entry_zero ei)" and z: "\<not> entry_is_valid ei (entry_zero ei)"
    and c: "cur_tbl_cnt t = 0" "cur_expn_tbl_cnt t = 0"
  shows "table_inv ei um bt xt off t no_chains"
proof -
  have vd: "vdT ei t = (\<lambda>_. False)" using z by (auto simp: vdT_def fun_eq_iff r)
  have "count_upto a b (\<lambda>_. False) = 0" for a b by (simp add: count_upto_card)
  then show ?thesis
    using assms by (simp add: table_inv_def vd chains_ok_def no_chains_def)
qed

lemma fresh_nat_inv:
  assumes t: "table_geom IPA_NAT_BASE_TBL IPA_NAT_EXPN_TBL nat_off t" "meta t = None"
      "recs t = replicate (n_recs t) nat_rule_zero" "cur_tbl_cnt t = 0" "cur_expn_tbl_cnt t = 0"
    and x: "table_geom IPA_NAT_INDX_TBL IPA_NAT_INDEX_EXPN_TBL indx_off x"
      "meta x = Some ms" "length ms = expn_table_entries x"
      "recs x = replicate (n_recs x) indx_rule_zero" "cur_tbl_cnt x = 0" "cur_expn_tbl_cnt x = 0"
    and s: "table_entries x = table_entries t" "expn_table_entries x = expn_table_entries t"
      "1 \<le> k" "k \<le> 12" "table_entries t = 2 ^ k"
  shows "nat_inv t x no_chains no_chains" "rules_of t = Map.empty"
proof -
  have zt: "entry_zero nat_ei = nat_rule_zero" "\<not> entry_is_valid nat_ei (entry_zero nat_ei)"
    using nat_tbl.zero_invalid by (simp_all add: entry_interface_def)
  have zx: "entry_zero indx_ei = indx_rule_zero" "\<not> entry_is_valid indx_ei (entry_zero indx_ei)"
    using indx_tbl.zero_invalid by (simp_all add: index_entry_interface_def)
  have "nat_tinv t no_chains"
    by (rule fresh_table_inv [OF t(1)]) (use t zt in \<open>simp_all add: meta_fits_def\<close>)
  moreover have "indx_tinv x no_chains"
    by (rule fresh_table_inv [OF x(1)]) (use x zx in \<open>simp_all add: meta_fits_def\<close>)
  moreover have vd: "vdT nat_ei t = (\<lambda>_. False)" "vdT indx_ei x = (\<lambda>_. False)"
    using zt zx by (auto simp: vdT_def fun_eq_iff t(3) x(4))
  then have lv: "live t = (\<lambda>_. False)" by (simp add: live_def fun_eq_iff)
  ultimately show "nat_inv t x no_chains no_chains"
    using s unfolding nat_inv_def lv vd pbij_def by blast
  show "rules_of t = Map.empty" by (simp add: rules_of_def lv fun_eq_iff)
qed

section \<open>Creation\<close>

text \<open>What the library relies on: the kernel places a table at offset 0 of its memory.\<close>

definition alloc_at_base :: "('w, 'z) ipa_env_scheme \<Rightarrow> bool" where
  "alloc_at_base env \<longleftrightarrow> (\<forall>io fd sz w. fst (snd (env_alloc_table env io fd sz w)) = 0)"

definition mutex_ok :: "('w, 'z) ipa_env_scheme \<Rightarrow> bool" where
  "mutex_ok env \<longleftrightarrow> (\<forall>w. fst (env_mutex_lock env w) = 0 \<and> fst (env_mutex_unlock env w) = 0)"

lemma allocate_memory_ok:
  assumes "alloc_at_base env" "ipa_mem_descriptor_allocate_memory env md fd w = (0, md', w')"
  shows "\<exists>a. base_addr md' = Some a" "addr_offset md' = 0" "md_valid md'"
proof -
  obtain r1 d1 w1 where A: "AllocateMemory env md fd w = (r1, d1, w1)" by (cases "AllocateMemory env md fd w")
  obtain r2 d2 w2 where M: "MapMemory env d1 fd w1 = (r2, d2, w2)" by (cases "MapMemory env d1 fd w1")
  have r: "r1 = 0" "r2 = 0" "md' = d2\<lparr>md_valid := True\<rparr>"
    using assms(2) A M by (auto simp: ipa_mem_descriptor_allocate_memory_def split: if_splits)
  have "addr_offset d1 = 0"
    using A r(1) assms(1) unfolding alloc_at_base_def
    by (auto simp: AllocateMemory_def Let_def split: prod.splits if_splits) (metis fst_conv snd_conv)+
  then show "\<exists>a. base_addr md' = Some a" "addr_offset md' = 0" "md_valid md'"
    using MapMemory_frame [OF M] r by auto
qed

definition with_helpers ::
  "u8 \<Rightarrow> ipa_table_dma_type \<Rightarrow> ipa_table_dma_type \<Rightarrow> (dma_help_type \<Rightarrow> nat) \<Rightarrow> 'e ipa_table \<Rightarrow> 'e ipa_table" where
  "with_helpers ti bt xt off t =
     t\<lparr>dma_help := (\<lambda>k. if VALID_DMA_HELP_TYPE k
                        then Some (ipa_table_dma_cmd_helper_init ti bt xt (of_nat (off k))) else dma_help t k)\<rparr>"

lemma helpers_upd:
  "dm(HELP_UPDATE_HEAD := a, HELP_UPDATE_ENTRY := b, HELP_DELETE_HEAD := c) =
    (\<lambda>k. if VALID_DMA_HELP_TYPE k then (case k of HELP_UPDATE_HEAD \<Rightarrow> a | HELP_UPDATE_ENTRY \<Rightarrow> b | _ \<Rightarrow> c) else dm k)"
  by (auto simp: fun_eq_iff VALID_DMA_HELP_TYPE_def split: dma_help_type.split)

lemma create_helpers:
  assumes "addr_offset (mem_desc tbl) = 0"
  shows "ipa_nati_create_table_dma_cmd_helpers tbl ti =
    tbl\<lparr>nat_table := with_helpers ti IPA_NAT_BASE_TBL IPA_NAT_EXPN_TBL nat_off (nat_table tbl),
        index_table := with_helpers ti IPA_NAT_INDX_TBL IPA_NAT_INDEX_EXPN_TBL indx_off (index_table tbl)\<rparr>"
  using assms unfolding ipa_nati_create_table_dma_cmd_helpers_def Let_def helpers_upd with_helpers_def
  by (auto intro!: ipa_nat_ip4_table_cache.fold_congs ipa_table.fold_congs simp: VALID_DMA_HELP_TYPE_def
      split: dma_help_type.split)

lemma created_geom:
  fixes t0 :: "'e ipa_table" and ei :: "('e, 'u) ipa_table_entry_interface"
  assumes t: "t = with_helpers ti bt xt off (ipa_table_reset ei (snd (ipa_table_calculate_addresses t0 base)))"
    and t0: "2 \<le> table_entries t0" "table_entries t0 \<le> 4096" "2 \<le> expn_table_entries t0"
      "expn_table_entries t0 \<le> 4096" "tot_tbl_ents t0 = n_recs t0" "0 < entry_size t0" "entry_size t0 \<le> 64"
      "tbl_nmi t0 \<noteq> IPA_NAT_MEM_IN_MAX"
    and o: "\<And>k. VALID_DMA_HELP_TYPE k \<Longrightarrow> off k < entry_size t0"
  shows "table_geom bt xt off t" "recs t = replicate (n_recs t0) (entry_zero ei)" "table_entries t = table_entries t0"
    "expn_table_entries t = expn_table_entries t0" "meta t = meta t0" "cur_tbl_cnt t = cur_tbl_cnt t0"
    "cur_expn_tbl_cnt t = cur_expn_tbl_cnt t0" "table_addr t = base"
proof -
  note d = ipa_table_reset_def ipa_table_calculate_addresses_def ipa_table_dma_cmd_helper_init_def with_helpers_def
  show "table_geom bt xt off t"
    using t0 o by (auto simp: table_geom_def t d)
qed (simp_all add: t with_helpers_def ipa_table_reset_def ipa_table_calculate_addresses_def replicate_add)

lemma off_in_record:
  "VALID_DMA_HELP_TYPE k \<Longrightarrow> nat_off k < 32" "VALID_DMA_HELP_TYPE k \<Longrightarrow> indx_off k < 4"
  by (cases k; simp add: IPA_NAT_RULE_FLAG_FIELD_OFFSET_def IPA_NAT_RULE_NEXT_FIELD_OFFSET_def
        IPA_NAT_RULE_PROTO_FIELD_OFFSET_def IPA_NAT_INDEX_RULE_NAT_INDEX_FIELD_OFFSET_def
        IPA_NAT_INDEX_RULE_NEXT_FIELD_OFFSET_def VALID_DMA_HELP_TYPE_def)+

definition tables_ready :: "ipa_nat_ip4_table_cache \<Rightarrow> u32 \<Rightarrow> bool" where
  "tables_ready tbl ip \<longleftrightarrow>
     nat_inv (nat_table tbl) (index_table tbl) no_chains no_chains \<and> rules_of (nat_table tbl) = Map.empty \<and>
     md_valid (mem_desc tbl) \<and> base_addr (mem_desc tbl) = Some (table_addr (nat_table tbl)) \<and>
     table_addr (index_table tbl) = table_addr (nat_table tbl) + ipa_table_calculate_size (nat_table tbl) \<and>
     public_addr tbl = ip"

lemma created_ready:
  fixes t :: "ipa_nat_rule ipa_table" and x :: "ipa_nat_indx_tbl_rule ipa_table"
  assumes f: "table_entries t = te" "expn_table_entries t = xe" "tot_tbl_ents t = te + xe" "entry_size t = 32"
      "tbl_nmi t = nmi" "meta t = None" "cur_tbl_cnt t = 0" "cur_expn_tbl_cnt t = 0"
      "table_entries x = te" "expn_table_entries x = xe" "tot_tbl_ents x = te + xe" "entry_size x = 4"
      "tbl_nmi x = nmi" "meta x = Some (replicate xe 0)" "cur_tbl_cnt x = 0" "cur_expn_tbl_cnt x = 0"
    and k: "1 \<le> k" "k \<le> 12" "te = 2 ^ k" and xe: "2 \<le> xe" "xe \<le> 4096" and nmi: "nmi \<noteq> IPA_NAT_MEM_IN_MAX"
    and m: "addr_offset md = 0" "md_valid md" "base_addr md = Some a"
    and tbl': "tbl' = ipa_nati_create_table_dma_cmd_helpers (tbl\<lparr>public_addr := ip, mem_desc := md,
         nat_table := ipa_table_reset nat_ei (snd (ipa_table_calculate_addresses t a)),
         index_table := ipa_table_reset indx_ei
           (snd (ipa_table_calculate_addresses x (fst (ipa_table_calculate_addresses t a))))\<rparr>) ti"
  shows "tables_ready tbl' ip" "n_recs (nat_table tbl') = te + xe" "tbl_nmi (nat_table tbl') = nmi"
proof -
  have "(2::nat) ^ 1 \<le> 2 ^ k" "(2::nat) ^ k \<le> 2 ^ 12" using k by (intro power_increasing; simp)+
  then have te: "2 \<le> te" "te \<le> 4096" using k by simp_all
  have tx: "nat_table tbl' = with_helpers ti IPA_NAT_BASE_TBL IPA_NAT_EXPN_TBL nat_off
                          (ipa_table_reset nat_ei (snd (ipa_table_calculate_addresses t a)))"
      "index_table tbl' = with_helpers ti IPA_NAT_INDX_TBL IPA_NAT_INDEX_EXPN_TBL indx_off
                          (ipa_table_reset indx_ei
                            (snd (ipa_table_calculate_addresses x (fst (ipa_table_calculate_addresses t a)))))"
      "mem_desc tbl' = md" "public_addr tbl' = ip"
    using m(1) by (simp_all add: tbl' create_helpers)
  have z: "entry_zero nat_ei = nat_rule_zero" "entry_zero indx_ei = indx_rule_zero"
    by (simp_all add: entry_interface_def index_entry_interface_def)
  note gt = created_geom [OF tx(1), unfolded f z, OF te xe refl _ _ nmi off_in_record(1), simplified]
    and gx = created_geom [OF tx(2), unfolded f z, OF te xe refl _ _ nmi off_in_record(2), simplified]
  have inv: "nat_inv (nat_table tbl') (index_table tbl') no_chains no_chains" "rules_of (nat_table tbl') = Map.empty"
    by (rule fresh_nat_inv [where k = k and ms = "replicate xe 0" and x = "index_table tbl'"]; use gt gx k in simp)+
  show "tables_ready tbl' ip"
    using inv m(2,3) gt(3,4,8) gx(8) f tx(3,4)
    by (simp add: tables_ready_def tx(1) with_helpers_def
          ipa_table_calculate_addresses_def ipa_table_calculate_size_def ipa_table_reset_def algebra_simps)
  show "n_recs (nat_table tbl') = te + xe" using gt(3,4) k by simp
  show "tbl_nmi (nat_table tbl') = nmi"
    using f by (simp add: tx(1) with_helpers_def ipa_table_calculate_addresses_def ipa_table_reset_def)
qed

lemma create_table_cases:
  assumes nmi: "cache_nmi c \<noteq> IPA_NAT_MEM_IN_MAX" and c: "ipa_desc c = Some desc" and al: "alloc_at_base env"
  shows "\<exists>ret tbl' w'. ipa_nati_create_table env c tbl ip n ti w = Some (ret, tbl', w') \<and>
           (if ret = 0 then tables_ready tbl' ip \<and> n \<le> n_recs (nat_table tbl') + 1 \<and>
              tbl_nmi (nat_table tbl') = cache_nmi c else True)"
proof -
  let ?t0 = "ipa_table_init ''IPA NAT table'' (cache_nmi c) 32 None 0 :: ipa_nat_rule ipa_table"
  obtain te xe where sp: "entry_split (cache_nmi c) n = (te, xe)" by (cases "entry_split (cache_nmi c) n")
  show ?thesis
  proof (cases "n \<le> 5120 \<and> te + xe \<le> 5120")
    case False
    then obtain t' where "ipa_table_calculate_entries_num ?t0 n (cache_nmi c) = (- EINVAL, t')"
      using sp calculate_entries_num_eq [of n ?t0 "cache_nmi c"]
      by (cases "n \<le> 5120") (auto simp: ipa_table_calculate_entries_num_def IPA_TABLE_MAX_ENTRIES_def)
    then have "ipa_nati_create_table env c tbl ip n ti w =
        Some (- EINVAL, tbl\<lparr>public_addr := ip, nat_table := t'\<rparr>, w)"
      by (simp add: ipa_nati_create_table_def)
    then show ?thesis by simp
  next
    case True
    then have n: "n \<le> 5120" "fst (entry_split (cache_nmi c) n) + snd (entry_split (cache_nmi c) n) \<le> 5120"
      using sp by simp_all
    note b = entry_split_bounds [OF n, unfolded sp, simplified]
    obtain k where k: "1 \<le> k" "k \<le> 12" "te = 2 ^ k" using b(1) by auto
    define t1 where "t1 = ?t0\<lparr>tot_tbl_ents := te + xe, table_entries := te, expn_table_entries := xe\<rparr>"
    have num: "ipa_table_calculate_entries_num ?t0 n (cache_nmi c) = (0, t1)"
      using n(1) sp True by (simp add: calculate_entries_num_eq t1_def)
    define x1 :: "ipa_nat_indx_tbl_rule ipa_table" where
      "x1 = (ipa_table_init ''IPA NAT index table'' (cache_nmi c) 4 (Some (replicate xe 0)) 2)
              \<lparr>table_entries := te, expn_table_entries := xe, tot_tbl_ents := te + xe\<rparr>"
    obtain ok w1 where ca: "env_calloc env (xe * 2) w = (ok, w1)" by (cases "env_calloc env (xe * 2) w")
    define md0 where "md0 = ipa_mem_descriptor_init (mem_desc tbl) ''ipaNatTable''
        (int (ipa_table_calculate_size t1) + int (ipa_table_calculate_size x1)) ti IPA_IOC_ALLOC_NAT_TABLE
        IPA_IOC_DEL_NAT_TABLE True"
    obtain ret md w2 where al': "ipa_mem_descriptor_allocate_memory env md0 (desc_fd desc) w1 = (ret, md, w2)"
      by (cases "ipa_mem_descriptor_allocate_memory env md0 (desc_fd desc) w1")
    note t1 = t1_def [unfolded ipa_table_init_def] and x1 = x1_def [unfolded ipa_table_init_def]
    show ?thesis
    proof (cases "ok \<and> ret = 0")
      case False
      then show ?thesis using num ca al' c
        by (cases ok) (simp_all add: ipa_nati_create_table_def t1_def x1_def md0_def)
    next
      case True
      note m = allocate_memory_ok [OF al al' [unfolded conjunct2 [OF True]]]
      obtain a where a: "base_addr md = Some a" using m(1) by blast
      define tbl' where "tbl' = ipa_nati_create_table_dma_cmd_helpers (tbl\<lparr>public_addr := ip, mem_desc := md,
         nat_table := ipa_table_reset nat_ei (snd (ipa_table_calculate_addresses t1 a)),
         index_table := ipa_table_reset indx_ei
           (snd (ipa_table_calculate_addresses x1 (fst (ipa_table_calculate_addresses t1 a))))\<rparr>) ti"
      have "ipa_nati_create_table env c tbl ip n ti w = Some (0, tbl', w2)"
        using num ca al' c True a unfolding t1_def x1_def md0_def tbl'_def
        by (simp add: ipa_nati_create_table_def split: prod.splits)
      moreover have "tables_ready tbl' ip" "n_recs (nat_table tbl') = te + xe" "tbl_nmi (nat_table tbl') = cache_nmi c"
        by (rule created_ready [OF _ _ _ _ _ _ _ _ _ _ _ _ _ _ _ _ k b(3) _ nmi m(2,3) a tbl'_def];
            use b(4) in \<open>simp add: t1 x1\<close>)+
      ultimately show ?thesis using b(5) by simp
    qed
  qed
qed

section \<open>Clearing\<close>

lemma clear_tables_inv:
  assumes inv: "nat_inv (nat_table tbl) (index_table tbl) ct cx"
  shows "nat_inv (nat_table (clear_tables tbl)) (index_table (clear_tables tbl)) no_chains no_chains"
    "rules_of (nat_table (clear_tables tbl)) = Map.empty"
proof -
  note it = nat_inv_t [OF inv] and ix = nat_inv_x [OF inv]
  obtain k where k: "1 \<le> k" "k \<le> 12" "table_entries (nat_table tbl) = 2 ^ k" using nat_inv_pow [OF inv] by blast
  obtain ms where ms: "meta (index_table tbl) = Some ms" "length ms = expn_table_entries (index_table tbl)"
    using inv_meta [OF ix] by (auto simp: meta_fits_def split: option.splits)
  have mt: "meta (nat_table tbl) = None" using inv_meta [OF it] by (simp add: meta_fits_def split: option.splits)
  have z: "entry_zero nat_ei = nat_rule_zero" "entry_zero indx_ei = indx_rule_zero"
    by (simp_all add: entry_interface_def index_entry_interface_def)
  let ?t = "nat_table (clear_tables tbl)" and ?x = "index_table (clear_tables tbl)"
  have gt: "table_geom IPA_NAT_BASE_TBL IPA_NAT_EXPN_TBL nat_off ?t"
    using inv_geom [OF it] by (simp add: table_geom_def clear_tables_def ipa_table_reset_def)
  have gx: "table_geom IPA_NAT_INDX_TBL IPA_NAT_INDEX_EXPN_TBL indx_off ?x"
    using inv_geom [OF ix] by (simp add: table_geom_def clear_tables_def ipa_table_reset_def)
  show "nat_inv ?t ?x no_chains no_chains" "rules_of ?t = Map.empty"
    by (rule fresh_nat_inv [OF gt _ _ _ _ gx, of ms k];
        use k ms mt z nat_inv_te [OF inv] in \<open>simp add: clear_tables_def ipa_table_reset_def replicate_add\<close>)+
qed

end
