(* ===== verification/Nat_Api_Ok.thy ===== *)
theory Nat_Api_Ok
  imports Nat_Add_Ok Nat_Del_Ok Nat_Table_Ok
begin

text \<open>
  The operations of \<^verbatim>\<open>ipa_nat_drvi.c\<close> on the whole driver state: what a client of a table handle sees.
  \<open>cache_ok\<close> is the invariant of a cache with a table.
\<close>

section \<open>Handles, locks and the state\<close>

definition cache_ok :: "ipa_nat_cache \<Rightarrow> (nat \<Rightarrow> nat list) \<Rightarrow> (nat \<Rightarrow> nat list) \<Rightarrow> bool" where
  "cache_ok c ct cx \<longleftrightarrow>
     ipa_desc c \<noteq> None \<and> table_cnt c = 1 \<and> md_valid (mem_desc (ip4_tbl c)) \<and>
     nat_inv (nat_table (ip4_tbl c)) (index_table (ip4_tbl c)) ct cx"

definition cache_rules :: "ipa_nat_cache \<Rightarrow> nat \<Rightarrow> ipa_nat_rule option" where
  "cache_rules c = rules_of (nat_table (ip4_tbl c))"

abbreviation tbl_hdl :: "ipa3_nat_mem_in \<Rightarrow> u32" where
  "tbl_hdl nmi \<equiv> MAKE_TBL_HDL 1 nmi"

lemma tbl_hdl_facts:
  assumes "nmi \<noteq> IPA_NAT_MEM_IN_MAX"
  shows "BREAK_TBL_HDL (tbl_hdl nmi) = (nmi, 1)" "VALID_TBL_HDL (tbl_hdl nmi)" "IPA_VALID_NAT_MEM_IN nmi"
  using assms
  by (cases nmi; simp add: BREAK_TBL_HDL_def MAKE_TBL_HDL_def VALID_TBL_HDL_def IPA_NAT_MAX_IP4_TBLS_def
        IPA_VALID_NAT_MEM_IN_def nmi_of_bit_def)+

lemma nat_lock_ok: "mutex_ok env \<Longrightarrow> nat_lock env st = (0, st\<lparr>world := snd (env_mutex_lock env (world st))\<rparr>)"
  by (simp add: nat_lock_def mutex_ok_def prod_eq_iff split: prod.splits)

lemma nat_unlock_ok: "mutex_ok env \<Longrightarrow> nat_unlock env st = (0, st\<lparr>world := snd (env_mutex_unlock env (world st))\<rparr>)"
  by (simp add: nat_unlock_def mutex_ok_def prod_eq_iff split: prod.splits)

lemma unlock_ret_ok: "mutex_ok env \<Longrightarrow> unlock_ret env ret st = (ret, st\<lparr>world := snd (env_mutex_unlock env (world st))\<rparr>)"
  by (simp add: unlock_ret_def nat_unlock_ok)

lemma get_ip4_tbl_1 [simp]: "get_ip4_tbl c 1 = Some (ip4_tbl c)" by (simp add: get_ip4_tbl_def)

text \<open>Only the cache \<open>nmi\<close>, its tables and the world may differ.\<close>

definition same_but :: "ipa3_nat_mem_in \<Rightarrow> 'w nat_state \<Rightarrow> 'w nat_state \<Rightarrow> bool" where
  "same_but nmi st st' \<longleftrightarrow>
     (\<forall>m. m \<noteq> nmi \<longrightarrow> ipv4_nat_cache st' m = ipv4_nat_cache st m) \<and>
     (let c = ipv4_nat_cache st nmi; c' = ipv4_nat_cache st' nmi in
      ipa_desc c' = ipa_desc c \<and> table_cnt c' = table_cnt c \<and> cache_nmi c' = cache_nmi c \<and>
      public_addr (ip4_tbl c') = public_addr (ip4_tbl c) \<and> mem_desc (ip4_tbl c') = mem_desc (ip4_tbl c)) \<and>
     active_nat_cache st' = active_nat_cache st \<and> st_pdns st' = st_pdns st \<and> num_pdns st' = num_pdns st"

section \<open>Adding a rule\<close>

definition put_tables ::
  "ipa3_nat_mem_in \<Rightarrow> ipa_nat_rule ipa_table \<Rightarrow> ipa_nat_indx_tbl_rule ipa_table \<Rightarrow> 'w nat_state \<Rightarrow> 'w nat_state" where
  "put_tables nmi t x st = set_tbl nmi ((ip4_tbl (ipv4_nat_cache st nmi))\<lparr>nat_table := t, index_table := x\<rparr>) st"

abbreviation nat_table_of :: "'w nat_state \<Rightarrow> ipa3_nat_mem_in \<Rightarrow> ipa_nat_rule ipa_table" where
  "nat_table_of st nmi \<equiv> nat_table (ip4_tbl (ipv4_nat_cache st nmi))"

abbreviation index_table_of :: "'w nat_state \<Rightarrow> ipa3_nat_mem_in \<Rightarrow> ipa_nat_indx_tbl_rule ipa_table" where
  "index_table_of st nmi \<equiv> index_table (ip4_tbl (ipv4_nat_cache st nmi))"

lemma put_tables_simps [simp]:
  "nat_table_of (put_tables nmi t x st) nmi = t" "index_table_of (put_tables nmi t x st) nmi = x"
  "same_but nmi st (put_tables nmi t x st)"
  "same_but nmi st (st'\<lparr>world := w\<rparr>) = same_but nmi st st'"
  "same_but nmi st (st'\<lparr>Hash_token := k\<rparr>) = same_but nmi st st'"
  by (simp_all add: put_tables_def set_tbl_def set_cache_def same_but_def)

lemma add_rule_eq:
  assumes nmi: "nmi \<noteq> IPA_NAT_MEM_IN_MAX" and mtx: "mutex_ok env"
    and ok: "cache_ok (ipv4_nat_cache st nmi) ct cx"
    and u: "unat (u_pdn_index u) < length (st_pdns st)" "u_protocol u \<noteq> IPAHAL_NAT_INVALID_PROTOCOL"
      "pdn_public_ip (st_pdns st ! unat (u_pdn_index u)) \<noteq> 0"
    and b: "add_ipv4_rule_body env (ipv4_nat_cache st nmi) (st_pdns st) u (Hash_token st) (nat_table_of st nmi)
        (index_table_of st nmi) (snd (env_mutex_lock env (world st))) = Some (ret, hdl, t', x', tok, w')"
  shows "ipa_NATI_add_ipv4_rule env (tbl_hdl nmi) (Some u) True st =
    Some (ret, if ret \<noteq> 0 then 0 else hdl,
          (put_tables nmi t' x' st)\<lparr>Hash_token := tok, world := snd (env_mutex_unlock env w')\<rparr>)"
  using tbl_hdl_facts [OF nmi] u ok b
  by (simp add: ipa_NATI_add_ipv4_rule_def nat_lock_ok [OF mtx] nat_unlock_ok [OF mtx] put_tables_def set_tbl_def
        set_cache_def cache_ok_def Let_def)

text \<open>C12: \<^verbatim>\<open>ipa_NATI_add_ipv4_rule\<close> on a cache whose invariant holds, for a rule with a PDN in use and a
  proper protocol, always returns.  Status 0: the invariant holds again, the rules are those of before
  and the client's rule at one record that was free, the returned handle names that record, the
  record is in the chain of its hash slot and its index entry in the chain of the index slot, the
  two naming each other.  Any other status: both record arrays are unchanged, the status is -1
  exactly when a chain needs an expansion record and none is free, else \<^verbatim>\<open>-EIO\<close> from the device.
  Other caches and the PDN table are not touched.\<close>

theorem nat_add_rule_correct:
  fixes env :: "('w, 'z) nat_env_scheme"
  assumes ok: "cache_ok (ipv4_nat_cache st nmi) ct cx" and dev: "dma_device env" and mtx: "mutex_ok env"
    and nmi: "nmi \<noteq> IPA_NAT_MEM_IN_MAX"
    and u: "unat (u_pdn_index u) < length (st_pdns st)" "u_protocol u \<noteq> IPAHAL_NAT_INVALID_PROTOCOL"
      "pdn_public_ip (st_pdns st ! unat (u_pdn_index u)) \<noteq> 0"
    and tbl: "t = nat_table_of st nmi" "x = index_table_of st nmi"
    and h: "nat_slot (the (ipa_desc (ipv4_nat_cache st nmi))) (st_pdns st) t u (Hash_token st) = (h, token1)"
    and g: "indx_slot t u token1 = (g, token2)"
  shows "\<exists>ret hdl st'. ipa_NATI_add_ipv4_rule env (tbl_hdl nmi) (Some u) True st = Some (ret, hdl, st') \<and>
     same_but nmi st st' \<and>
     (let t' = nat_table_of st' nmi; x' = index_table_of st' nmi in
      if ret = 0
      then \<not> nat_full t x (unat h) (unat g) \<and>
           rule_added t x ct cx (unat h) (unat g) (stored_rule (st_pdns st) u) hdl t' x'
      else rolled_back t x ct cx t' x' \<and> hdl = 0 \<and> ret = (if nat_full t x (unat h) (unat g) then - 1 else - EIO))"
proof -
  let ?c = "ipv4_nat_cache st nmi"
  obtain desc where d: "ipa_desc ?c = Some desc" using ok by (auto simp: cache_ok_def)
  have inv: "nat_inv t x ct cx" "md_valid (mem_desc (ip4_tbl ?c))" using ok tbl by (simp_all add: cache_ok_def)
  have pr: "pdn_in_range (st_pdns st) u" using u by (simp add: pdn_in_range_def)
  obtain ret hdl t' x' tok w' where b: "add_ipv4_rule_body env ?c (st_pdns st) u (Hash_token st) t x
        (snd (env_mutex_lock env (world st))) = Some (ret, hdl, t', x', tok, w')"
      "if ret = 0
       then \<not> nat_full t x (unat h) (unat g) \<and>
            rule_added t x ct cx (unat h) (unat g) (stored_rule (st_pdns st) u) hdl t' x'
       else rolled_back t x ct cx t' x' \<and> hdl = 0 \<and> ret = (if nat_full t x (unat h) (unat g) then - 1 else - EIO)"
    using add_body_outcome [OF inv(1) dev d pr u(2) h [unfolded d option.sel] g,
        of "snd (env_mutex_lock env (world st))"] by blast
  note eq = add_rule_eq [OF nmi mtx ok u b(1) [unfolded tbl]]
  show ?thesis by (intro exI conjI, rule eq) (use b(2) in \<open>simp_all add: Let_def\<close>)
qed

lemma add_rule_runs:
  fixes env :: "('w, 'z) nat_env_scheme"
  assumes ok: "cache_ok (ipv4_nat_cache st nmi) ct cx" and dev: "dma_reliable env" and mtx: "mutex_ok env"
    and nmi: "nmi \<noteq> IPA_NAT_MEM_IN_MAX"
    and u: "unat (u_pdn_index u) < length (st_pdns st)" "u_protocol u \<noteq> IPAHAL_NAT_INVALID_PROTOCOL"
      "pdn_public_ip (st_pdns st ! unat (u_pdn_index u)) \<noteq> 0"
    and tbl: "t = nat_table_of st nmi" "x = index_table_of st nmi"
    and h: "nat_slot (the (ipa_desc (ipv4_nat_cache st nmi))) (st_pdns st) t u (Hash_token st) = (h, token1)"
    and g: "indx_slot t u token1 = (g, token2)"
    and room: "\<not> nat_full t x (unat h) (unat g)"
  shows "\<exists>hdl st'. ipa_NATI_add_ipv4_rule env (tbl_hdl nmi) (Some u) True st = Some (0, hdl, st')"
proof -
  obtain desc where d: "ipa_desc (ipv4_nat_cache st nmi) = Some desc" using ok by (auto simp: cache_ok_def)
  have inv: "nat_inv t x ct cx" using ok tbl by (simp add: cache_ok_def)
  have pr: "pdn_in_range (st_pdns st) u" using u by (simp add: pdn_in_range_def)
  obtain hdl t' x' tok w' where "add_ipv4_rule_body env (ipv4_nat_cache st nmi) (st_pdns st) u (Hash_token st) t x
        (snd (env_mutex_lock env (world st))) = Some (0, hdl, t', x', tok, w')"
    using add_body_success [OF inv dev d pr h [unfolded d option.sel] g room] by blast
  then show ?thesis using add_rule_eq [OF nmi mtx ok u] unfolding tbl by fastforce
qed

text \<open>C33: with a device that does not fail, an addition succeeds whenever both the chain of the rule's hash slot
  and that of its index slot can grow, that is when the slot is free or an expansion record is.\<close>

theorem nat_add_rule_succeeds:
  fixes env :: "('w, 'z) nat_env_scheme"
  assumes ok: "cache_ok (ipv4_nat_cache st nmi) ct cx" and dev: "dma_reliable env" and mtx: "mutex_ok env"
    and nmi: "nmi \<noteq> IPA_NAT_MEM_IN_MAX"
    and u: "unat (u_pdn_index u) < length (st_pdns st)" "u_protocol u \<noteq> IPAHAL_NAT_INVALID_PROTOCOL"
      "pdn_public_ip (st_pdns st ! unat (u_pdn_index u)) \<noteq> 0"
    and tbl: "t = nat_table_of st nmi" "x = index_table_of st nmi"
    and h: "nat_slot (the (ipa_desc (ipv4_nat_cache st nmi))) (st_pdns st) t u (Hash_token st) = (h, token1)"
    and g: "indx_slot t u token1 = (g, token2)"
    and room: "\<not> nat_full t x (unat h) (unat g)"
  shows "\<exists>hdl st'. ipa_NATI_add_ipv4_rule env (tbl_hdl nmi) (Some u) True st = Some (0, hdl, st')"
  by (rule add_rule_runs [OF assms])

section \<open>Deleting a rule\<close>

lemma del_rule_eq:
  assumes nmi: "nmi \<noteq> IPA_NAT_MEM_IN_MAX" and mtx: "mutex_ok env"
    and ok: "cache_ok (ipv4_nat_cache st nmi) ct cx"
    and b: "del_ipv4_rule_body env (ipv4_nat_cache st nmi) rule_hdl (nat_table_of st nmi)
        (index_table_of st nmi) (snd (env_mutex_lock env (world st))) = Some (ret, t', x', w')"
  shows "ipa_NATI_del_ipv4_rule env (tbl_hdl nmi) rule_hdl st =
    Some (ret, (put_tables nmi t' x' st)\<lparr>world := snd (env_mutex_unlock env w')\<rparr>)"
  using tbl_hdl_facts [OF nmi] ok b
  by (simp add: ipa_NATI_del_ipv4_rule_def nat_lock_ok [OF mtx] unlock_ret_ok [OF mtx] put_tables_def set_tbl_def
        set_cache_def cache_ok_def Let_def)

lemma del_rule_outcome:
  fixes env :: "('w, 'z) nat_env_scheme"
  assumes ok: "cache_ok (ipv4_nat_cache st nmi) ct cx" and dev: "dma_device env" and mtx: "mutex_ok env"
    and nmi: "nmi \<noteq> IPA_NAT_MEM_IN_MAX" and t: "t = nat_table_of st nmi" and i: "rules_of t i = Some r"
  shows "\<exists>ret st'. ipa_NATI_del_ipv4_rule env (tbl_hdl nmi) (ucast (MakeEntryHdl t i)) st = Some (ret, st') \<and>
     same_but nmi st st' \<and>
     (if ret = 0 then rule_deleted t ct cx i (nat_table_of st' nmi) (index_table_of st' nmi)
      else ret = - EIO \<and> index_table_of st' nmi = index_table_of st nmi \<and>
           nat_tinv (nat_table_of st' nmi) ct \<and> rules_of (nat_table_of st' nmi) = rules_of t)"
proof -
  obtain desc where d: "ipa_desc (ipv4_nat_cache st nmi) = Some desc" using ok by (auto simp: cache_ok_def)
  have inv: "nat_inv t (index_table_of st nmi) ct cx" using ok t by (simp add: cache_ok_def)
  have l: "live t i" using i by (simp add: rules_of_def split: if_splits)
  obtain ret t' x' w' where b: "del_ipv4_rule_body env (ipv4_nat_cache st nmi) (ucast (MakeEntryHdl t i)) t
        (index_table_of st nmi) (snd (env_mutex_lock env (world st))) = Some (ret, t', x', w')"
      "if ret = 0 then rule_deleted t ct cx i t' x'
       else ret = - EIO \<and> x' = index_table_of st nmi \<and> nat_tinv t' ct \<and> rules_of t' = rules_of t"
    using del_body_outcome [OF inv dev d l, of "snd (env_mutex_lock env (world st))"] by blast
  note eq = del_rule_eq [OF nmi mtx ok, folded t, OF b(1)]
  show ?thesis by (intro exI conjI, rule eq) (use b(2) in simp_all)
qed

text \<open>C22: \<^verbatim>\<open>ipa_NATI_del_ipv4_rule\<close> with the handle of a rule in the table always returns.  Status 0: the
  invariant holds again, exactly that rule is gone from the rules, and from the chain of the NAT
  table, and one entry from the index table.  The only other status is \<^verbatim>\<open>-EIO\<close> from the device; the
  index table and the rules are then unchanged.\<close>

theorem nat_del_rule_correct:
  fixes env :: "('w, 'z) nat_env_scheme"
  assumes ok: "cache_ok (ipv4_nat_cache st nmi) ct cx" and dev: "dma_device env" and mtx: "mutex_ok env"
    and nmi: "nmi \<noteq> IPA_NAT_MEM_IN_MAX" and t: "t = nat_table_of st nmi" and i: "rules_of t i = Some r"
  shows "\<exists>ret st'. ipa_NATI_del_ipv4_rule env (tbl_hdl nmi) (ucast (MakeEntryHdl t i)) st = Some (ret, st') \<and>
     same_but nmi st st' \<and>
     (if ret = 0 then rule_deleted t ct cx i (nat_table_of st' nmi) (index_table_of st' nmi)
      else ret = - EIO \<and> index_table_of st' nmi = index_table_of st nmi \<and>
           nat_tinv (nat_table_of st' nmi) ct \<and> rules_of (nat_table_of st' nmi) = rules_of t)"
  by (rule del_rule_outcome [OF ok dev mtx nmi t i])

text \<open>A handle that names no record in use.\<close>

lemma del_body_invalid:
  assumes inv: "nat_inv t x ct cx" and i: "ipa_table_get_entry t hdl = (0, i)" "\<not> vdT nat_ei t i"
  shows "del_ipv4_rule_body env c hdl t x w = Some (- EINVAL, t, x, w)"
proof -
  note it = nat_inv_t [OF inv]
  have "i < n_recs t"
    using i(1) geom_tot [OF inv_geom [OF it]] by (auto simp: ipa_table_get_entry_def split: prod.splits if_splits)
  then show ?thesis
    using nat_tbl.iterator_init_free [OF it _ i(2)] i(1) by (simp add: del_ipv4_rule_body_def)
qed

section \<open>Insertion and deletion are inverse\<close>

lemma cache_ok_same_but:
  assumes "same_but nmi st st'" "cache_ok (ipv4_nat_cache st nmi) ct cx"
    "nat_inv (nat_table_of st' nmi) (index_table_of st' nmi) ct' cx'"
  shows "cache_ok (ipv4_nat_cache st' nmi) ct' cx'"
  using assms by (simp add: same_but_def cache_ok_def Let_def)

lemma add_rule_success:
  fixes env :: "('w, 'z) nat_env_scheme"
  assumes ok: "cache_ok (ipv4_nat_cache st nmi) ct cx" and dev: "dma_device env" and mtx: "mutex_ok env"
    and nmi: "nmi \<noteq> IPA_NAT_MEM_IN_MAX"
    and u: "unat (u_pdn_index u) < length (st_pdns st)" "u_protocol u \<noteq> IPAHAL_NAT_INVALID_PROTOCOL"
      "pdn_public_ip (st_pdns st ! unat (u_pdn_index u)) \<noteq> 0"
    and add: "ipa_NATI_add_ipv4_rule env (tbl_hdl nmi) (Some u) True st = Some (0, hdl, st1)"
  obtains i ct1 cx1 where "rules_of (nat_table_of st nmi) i = None" "hdl = ucast (MakeEntryHdl (nat_table_of st1 nmi) i)"
    "cache_ok (ipv4_nat_cache st1 nmi) ct1 cx1" "same_but nmi st st1"
    "rules_of (nat_table_of st1 nmi) = (rules_of (nat_table_of st nmi))(i \<mapsto> stored_rule (st_pdns st) u)"
proof -
  let ?t = "nat_table_of st nmi" and ?x = "index_table_of st nmi"
  obtain desc where d: "ipa_desc (ipv4_nat_cache st nmi) = Some desc" using ok by (auto simp: cache_ok_def)
  have inv: "nat_inv ?t ?x ct cx" using ok by (simp add: cache_ok_def)
  have pr: "pdn_in_range (st_pdns st) u" using u by (simp add: pdn_in_range_def)
  obtain h token1 where h: "nat_slot desc (st_pdns st) ?t u (Hash_token st) = (h, token1)" by fastforce
  obtain g token2 where g: "indx_slot ?t u token1 = (g, token2)" by fastforce
  obtain ret hdl' t' x' tok w' where b: "add_ipv4_rule_body env (ipv4_nat_cache st nmi) (st_pdns st) u (Hash_token st) ?t ?x
        (snd (env_mutex_lock env (world st))) = Some (ret, hdl', t', x', tok, w')"
      "ret = 0 \<Longrightarrow> rule_added ?t ?x ct cx (unat h) (unat g) (stored_rule (st_pdns st) u) hdl' t' x'"
    using add_body_outcome [OF inv dev d pr u(2) h g, of "snd (env_mutex_lock env (world st))"] by metis
  have r0: "ret = 0" "hdl = hdl'" and st1: "nat_table_of st1 nmi = t'" "index_table_of st1 nmi = x'" "same_but nmi st st1"
    using add add_rule_eq [OF nmi mtx ok u b(1)] by auto
  obtain i k where a: "\<not> vdT nat_ei ?t i" "hdl = ucast (MakeEntryHdl ?t i)"
      "nat_inv t' x' (grown nat_ei ?t ct (unat h) i) (grown indx_ei ?x cx (unat g) k)" "same_shape ?t t'"
      "rules_of t' = (rules_of ?t)(i \<mapsto> stored_rule (st_pdns st) u)"
    using b(2) r0 unfolding rule_added_def by blast
  show thesis
  proof (rule that)
    show "cache_ok (ipv4_nat_cache st1 nmi) (grown nat_ei ?t ct (unat h) i) (grown indx_ei ?x cx (unat g) k)"
      by (rule cache_ok_same_but [OF st1(3) ok, unfolded st1(1,2), OF a(3)])
  qed (use a st1 same_shape_MakeEntryHdl [OF a(4), of i] in \<open>simp_all add: rules_of_def live_def\<close>)
qed

text \<open>C31: a rule that was added can be deleted with the handle its addition returned, and then the rules
  of the table are what they were before the addition.\<close>

theorem nat_add_delete_roundtrip:
  fixes env :: "('w, 'z) nat_env_scheme"
  assumes ok: "cache_ok (ipv4_nat_cache st nmi) ct cx" and dev: "dma_device env" and mtx: "mutex_ok env"
    and nmi: "nmi \<noteq> IPA_NAT_MEM_IN_MAX"
    and u: "unat (u_pdn_index u) < length (st_pdns st)" "u_protocol u \<noteq> IPAHAL_NAT_INVALID_PROTOCOL"
      "pdn_public_ip (st_pdns st ! unat (u_pdn_index u)) \<noteq> 0"
    and add: "ipa_NATI_add_ipv4_rule env (tbl_hdl nmi) (Some u) True st = Some (0, hdl, st1)"
  shows "\<exists>ret st2. ipa_NATI_del_ipv4_rule env (tbl_hdl nmi) hdl st1 = Some (ret, st2) \<and>
     (if ret = 0 then cache_rules (ipv4_nat_cache st2 nmi) = cache_rules (ipv4_nat_cache st nmi) \<and>
                      (\<exists>ct cx. cache_ok (ipv4_nat_cache st2 nmi) ct cx)
      else ret = - EIO)"
proof (rule add_rule_success [OF ok dev mtx nmi u add])
  fix i ct1 cx1
  assume a: "rules_of (nat_table_of st nmi) i = None" "hdl = ucast (MakeEntryHdl (nat_table_of st1 nmi) i)"
    "cache_ok (ipv4_nat_cache st1 nmi) ct1 cx1" "same_but nmi st st1"
    "rules_of (nat_table_of st1 nmi) = (rules_of (nat_table_of st nmi))(i \<mapsto> stored_rule (st_pdns st) u)"
  have i: "rules_of (nat_table_of st1 nmi) i = Some (stored_rule (st_pdns st) u)" by (simp add: a(5))
  obtain ret st2 where del: "ipa_NATI_del_ipv4_rule env (tbl_hdl nmi) hdl st1 = Some (ret, st2)" "same_but nmi st1 st2"
     "if ret = 0 then rule_deleted (nat_table_of st1 nmi) ct1 cx1 i (nat_table_of st2 nmi) (index_table_of st2 nmi)
      else ret = - EIO"
    using del_rule_outcome [OF a(3) dev mtx nmi refl i] unfolding a(2) by metis
  have "cache_rules (ipv4_nat_cache st2 nmi) = cache_rules (ipv4_nat_cache st nmi)"
    "\<exists>ct cx. cache_ok (ipv4_nat_cache st2 nmi) ct cx" if "ret = 0"
    using del(3) that a(1,5) cache_ok_same_but [OF del(2) a(3)]
    by (auto simp: rule_deleted_def cache_rules_def fun_upd_idem)
  then show ?thesis using del(1,3) by (intro exI conjI) auto
qed

text \<open>A successful addition stores the client's rule: addresses, ports, protocol, PDN, time stamp and
  flags are the client's, the rule is enabled, and the \<^verbatim>\<open>redirect\<close> bit is clear whatever the client asked
  for, because the enable command the device executes afterwards carries a zero there.\<close>

theorem nat_add_stores_rule:
  fixes env :: "('w, 'z) nat_env_scheme"
  assumes ok: "cache_ok (ipv4_nat_cache st nmi) ct cx" and dev: "dma_device env" and mtx: "mutex_ok env"
    and nmi: "nmi \<noteq> IPA_NAT_MEM_IN_MAX"
    and u: "unat (u_pdn_index u) < length (st_pdns st)" "u_protocol u \<noteq> IPAHAL_NAT_INVALID_PROTOCOL"
      "pdn_public_ip (st_pdns st ! unat (u_pdn_index u)) \<noteq> 0"
    and add: "ipa_NATI_add_ipv4_rule env (tbl_hdl nmi) (Some u) True st = Some (0, hdl, st1)"
  shows "\<exists>i r. ipa_table_get_entry (nat_table_of st1 nmi) hdl = (0, i) \<and>
     cache_rules (ipv4_nat_cache st nmi) i = None \<and>
     cache_rules (ipv4_nat_cache st1 nmi) = (cache_rules (ipv4_nat_cache st nmi))(i \<mapsto> r) \<and>
     private_ip r = u_private_ip u \<and> target_ip r = u_target_ip u \<and> private_port r = u_private_port u \<and>
     target_port r = u_target_port u \<and> public_port r = u_public_port u \<and> protocol r = u_protocol u \<and>
     pdn_index r = ucast (u_pdn_index u) \<and> time_stamp r = ucast (u_time_stamp u) \<and>
     s_bit r = u_s u \<and> ucp r = u_ucp u \<and> dst_only r = u_dst_only u \<and> src_only r = u_src_only u \<and>
     uc_activation_index r = ucast (u_uc_activation_index u) \<and>
     ip_chksum r = ipa_nati_calc_ip_cksum (pdn_public_ip (st_pdns st ! unat (u_pdn_index u))) (u_private_ip u) \<and>
     enable r \<and> \<not> redirect r"
proof (rule add_rule_success [OF ok dev mtx nmi u add])
  fix i ct1 cx1
  assume a: "rules_of (nat_table_of st nmi) i = None" "hdl = ucast (MakeEntryHdl (nat_table_of st1 nmi) i)"
    "cache_ok (ipv4_nat_cache st1 nmi) ct1 cx1" "same_but nmi st st1"
    "rules_of (nat_table_of st1 nmi) = (rules_of (nat_table_of st nmi))(i \<mapsto> stored_rule (st_pdns st) u)"
  have g: "nat_tinv (nat_table_of st1 nmi) ct1" using a(3) nat_inv_t by (auto simp: cache_ok_def)
  have "live (nat_table_of st1 nmi) i" using fun_cong [OF a(5), of i] by (simp add: rules_of_def split: if_splits)
  then have "i < n_recs (nat_table_of st1 nmi)"
    using geom_len [OF inv_geom [OF g]] by (simp add: live_def vdT_def)
  then have e: "ipa_table_get_entry (nat_table_of st1 nmi) hdl = (0, i)"
    using get_entry_own_handle [OF inv_geom [OF g]] a(2) by simp
  have pr: "pdn_in_range (st_pdns st) u" using u by (simp add: pdn_in_range_def)
  show ?thesis
    by (intro exI [of _ i] exI [of _ "stored_rule (st_pdns st) u"])
       (use e a(1,5) u(1) pr in \<open>simp add: cache_rules_def stored_rule_def rule_view_def user_fields_def
          table_entry_copy_from_user_def Let_def\<close>)
qed

section \<open>The command buffers\<close>

text \<open>A device that refuses a command with more than \<open>n\<close> writes.\<close>

definition dma_guard :: "nat \<Rightarrow> ('w, 'z) nat_env_scheme \<Rightarrow> ('w, 'z) nat_env_scheme" where
  "dma_guard n env =
     env\<lparr>env_table_dma := (\<lambda>fd cmd tx w. if length (cmd_dma cmd) \<le> n then env_table_dma env fd cmd tx w else (- 1, tx, w))\<rparr>"

lemma post_guard:
  "length (cmd_dma cmd) \<le> n \<Longrightarrow>
   ipa_nati_post_ipv4_dma_cmd (dma_guard n env) c cmd tx w = ipa_nati_post_ipv4_dma_cmd env c cmd tx w"
  by (simp add: ipa_nati_post_ipv4_dma_cmd_def dma_guard_def)

text \<open>C34: the command buffers allocated on the stack are large enough: an addition never posts more than
  \<^verbatim>\<open>MAX_DMA_ENTRIES_FOR_ADD\<close> writes and a deletion never more than \<^verbatim>\<open>MAX_DMA_ENTRIES_FOR_DEL\<close>, since a
  device that refuses longer commands makes no difference.\<close>

theorem dma_buffers_suffice:
  fixes env :: "('w, 'z) nat_env_scheme"
  assumes inv: "nat_inv t x ct cx" and c: "ipa_desc c = Some desc" and u: "pdn_in_range pdns u" and i: "live t i"
  shows "add_ipv4_rule_body (dma_guard MAX_DMA_ENTRIES_FOR_ADD env) c pdns u token t x w =
           add_ipv4_rule_body env c pdns u token t x w \<and>
         del_ipv4_rule_body (dma_guard MAX_DMA_ENTRIES_FOR_DEL env) c (ucast (MakeEntryHdl t i)) t x w =
           del_ipv4_rule_body env c (ucast (MakeEntryHdl t i)) t x w"
proof
  obtain h token1 where h: "nat_slot desc pdns t u token = (h, token1)" by fastforce
  obtain g token2 where g: "indx_slot t u token1 = (g, token2)" by fastforce
  obtain n where n: "1 \<le> n" "n \<le> 12" "table_entries t = 2 ^ n" using nat_inv_pow [OF inv] by blast
  have hr: "unat h < table_entries t" and gr: "unat g < table_entries x"
    using nat_slot_range [OF n h] indx_slot_range [OF n g] nat_inv_te [OF inv] by simp_all
  show "add_ipv4_rule_body (dma_guard MAX_DMA_ENTRIES_FOR_ADD env) c pdns u token t x w =
      add_ipv4_rule_body env c pdns u token t x w"
  proof (cases rule: add_body_shape [OF inv c u h g, where ?'w = 'w and ?'z = 'z])
    case (1 t' tok)
    then show ?thesis by simp
  next
    case (2 i k p e1 v t1 x1 ds dx)
    have "length (ds @ dx) \<le> MAX_DMA_ENTRIES_FOR_ADD"
      using add_posted_commands(3) [OF inv hr gr 2(2,3)] by (simp add: MAX_DMA_ENTRIES_FOR_ADD_def)
    then show ?thesis by (simp add: 2(5) post_guard)
  qed
  show "del_ipv4_rule_body (dma_guard MAX_DMA_ENTRIES_FOR_DEL env) c (ucast (MakeEntryHdl t i)) t x w =
      del_ipv4_rule_body env c (ucast (MakeEntryHdl t i)) t x w"
  proof (cases rule: del_body_shape [OF inv c i, where ?'w = 'w and ?'z = 'z])
    case (1 ti t1 xit2 dx d m f)
    then have "length (dx @ [d]) \<le> MAX_DMA_ENTRIES_FOR_DEL" by (simp add: MAX_DMA_ENTRIES_FOR_DEL_def)
    then show ?thesis by (simp add: 1(5) post_guard)
  qed
qed

section \<open>Tables\<close>

lemma add_tbl_outcome:
  fixes env :: "('w, 'z) nat_env_scheme"
  assumes mtx: "mutex_ok env" and al: "alloc_at_base env" and nmi: "nmi \<noteq> IPA_NAT_MEM_IN_MAX" and p: "st_pdns st \<noteq> []"
  shows "\<exists>ret hdl st'. ipa_NATI_add_ipv4_tbl env nmi ip n st = Some (ret, hdl, st') \<and>
     (if table_cnt (ipv4_nat_cache st nmi) \<noteq> 0 then ret = - EINVAL \<and> hdl = 0
      else if ret = 0
      then hdl = tbl_hdl nmi \<and> cache_ok (ipv4_nat_cache st' nmi) no_chains no_chains \<and>
           cache_rules (ipv4_nat_cache st' nmi) = Map.empty \<and> n \<le> n_recs (nat_table_of st' nmi) + 1 \<and>
           active_nat_cache st' = Some nmi \<and> pdn_public_ip (st_pdns st' ! 0) = ip \<and> num_pdns st' = 1
      else hdl = 0 \<and> table_cnt (ipv4_nat_cache st' nmi) = 0 \<and> ipa_desc (ipv4_nat_cache st' nmi) = None \<and>
           st_pdns st' = st_pdns st) \<and>
     (ret = 0 \<longrightarrow> tbl_nmi (nat_table_of st' nmi) = nmi \<and> length (st_pdns st') = length (st_pdns st)) \<and>
     (\<forall>m. m \<noteq> nmi \<longrightarrow> ipv4_nat_cache st' m = ipv4_nat_cache st m)"
proof (cases "table_cnt (ipv4_nat_cache st nmi) = 0")
  case False
  then have "\<not> unat (table_cnt (ipv4_nat_cache st nmi)) < 1" using unat_gt_0 [of "table_cnt (ipv4_nat_cache st nmi)"] by linarith
  then show ?thesis using False tbl_hdl_facts(3) [OF nmi]
    by (simp add: ipa_NATI_add_ipv4_tbl_def nat_lock_ok [OF mtx] nat_unlock_ok [OF mtx] set_cache_def IPA_NAT_MAX_IP4_TBLS_def Let_def)
next
  case True
  let ?w1 = "snd (env_mutex_lock env (world st))"
  let ?c = "(ipv4_nat_cache st nmi)\<lparr>cache_nmi := nmi\<rparr>"
  obtain d w2 where d: "open_desc env (ipa_desc (ipv4_nat_cache st nmi)) ?w1 = (d, w2)" by fastforce
  note defs = ipa_NATI_add_ipv4_tbl_def nat_lock_ok [OF mtx] nat_unlock_ok [OF mtx] set_cache_def
    IPA_NAT_MAX_IP4_TBLS_def Let_def
  show ?thesis
  proof (cases d)
    case None
    then show ?thesis using True d tbl_hdl_facts(3) [OF nmi] by (simp add: defs)
  next
    case (Some desc)
    obtain ret tbl' w3 where ct: "ipa_nati_create_table env (?c\<lparr>ipa_desc := d\<rparr>) (ip4_tbl ?c) ip n 0 w2 = Some (ret, tbl', w3)"
        "ret = 0 \<Longrightarrow> tables_ready tbl' ip \<and> n \<le> n_recs (nat_table tbl') + 1 \<and> tbl_nmi (nat_table tbl') = nmi"
      using create_table_cases [OF _ _ al, of "?c\<lparr>ipa_desc := d\<rparr>" desc "ip4_tbl ?c" ip n 0 w2] nmi Some by force
    show ?thesis
    proof (cases "ret = 0")
      case False
      then show ?thesis using True d ct(1) Some tbl_hdl_facts(3) [OF nmi] by (simp add: defs)
    next
      case r0: True
      obtain r4 w4 where v4: "env_v4_init env (desc_fd desc) (v4_init_cmd (?c\<lparr>ipa_desc := d, ip4_tbl := tbl'\<rparr>) tbl' 0 False) w3 = (r4, w4)"
        by fastforce
      show ?thesis
      proof (cases "r4 = 0")
        case False
        obtain r5 md w5 where "ipa_mem_descriptor_delete env (mem_desc tbl') (desc_fd desc) w4 = (r5, md, w5)"
          by (cases "ipa_mem_descriptor_delete env (mem_desc tbl') (desc_fd desc) w4")
        then show ?thesis
          using False True d ct(1) r0 Some v4 tbl_hdl_facts(3) [OF nmi]
          by (simp add: defs ipa_nati_post_ipv4_init_cmd_def ipa_nati_destroy_table_def)
      next
        case r4: True
        obtain p0 ps where pp: "st_pdns st = p0 # ps" using p by (cases "st_pdns st") auto
        show ?thesis
          using True d ct r0 Some v4 r4 pp tbl_hdl_facts(3) [OF nmi]
          by (simp add: defs ipa_nati_post_ipv4_init_cmd_def cache_ok_def cache_rules_def tables_ready_def)
      qed
    qed
  qed
qed

text \<open>C32: \<^verbatim>\<open>ipa_NATI_add_ipv4_tbl\<close> on a cache without a table always returns.  Status 0: the handle is the
  cache's handle, the cache satisfies the invariant with no rule, has room for the requested number
  of entries less one at most, is the active cache, and PDN 0 has the public address.  Any other
  status: no handle, no table, the descriptor is closed, the PDN table is unchanged.  A cache that
  has a table refuses a second one with \<^verbatim>\<open>-EINVAL\<close>.\<close>

theorem nat_add_tbl_correct:
  fixes env :: "('w, 'z) nat_env_scheme"
  assumes mtx: "mutex_ok env" and al: "alloc_at_base env" and nmi: "nmi \<noteq> IPA_NAT_MEM_IN_MAX" and p: "st_pdns st \<noteq> []"
  shows "\<exists>ret hdl st'. ipa_NATI_add_ipv4_tbl env nmi ip n st = Some (ret, hdl, st') \<and>
     (if table_cnt (ipv4_nat_cache st nmi) \<noteq> 0 then ret = - EINVAL \<and> hdl = 0
      else if ret = 0
      then hdl = tbl_hdl nmi \<and> cache_ok (ipv4_nat_cache st' nmi) no_chains no_chains \<and>
           cache_rules (ipv4_nat_cache st' nmi) = Map.empty \<and> n \<le> n_recs (nat_table_of st' nmi) + 1 \<and>
           active_nat_cache st' = Some nmi \<and> pdn_public_ip (st_pdns st' ! 0) = ip \<and> num_pdns st' = 1
      else hdl = 0 \<and> table_cnt (ipv4_nat_cache st' nmi) = 0 \<and> ipa_desc (ipv4_nat_cache st' nmi) = None \<and>
           st_pdns st' = st_pdns st)"
  using add_tbl_outcome [OF assms, of ip n] by metis

lemma clear_tbl_outcome:
  assumes ok: "cache_ok (ipv4_nat_cache st nmi) ct cx" and mtx: "mutex_ok env" and nmi: "nmi \<noteq> IPA_NAT_MEM_IN_MAX"
  shows "\<exists>st'. ipa_NATI_clear_ipv4_tbl env (tbl_hdl nmi) st = Some (0, st') \<and> same_but nmi st st' \<and>
     cache_ok (ipv4_nat_cache st' nmi) no_chains no_chains \<and> cache_rules (ipv4_nat_cache st' nmi) = Map.empty \<and>
     tbl_nmi (nat_table_of st' nmi) = tbl_nmi (nat_table_of st nmi)"
proof -
  have "nat_inv (nat_table_of st nmi) (index_table_of st nmi) ct cx" using ok by (simp add: cache_ok_def)
  note c = clear_tables_inv [OF this]
  show ?thesis
    using ok c tbl_hdl_facts [OF nmi]
    by (simp add: ipa_NATI_clear_ipv4_tbl_def nat_lock_ok [OF mtx] unlock_ret_ok [OF mtx] set_tbl_def set_cache_def
          cache_ok_def cache_rules_def same_but_def Let_def) (simp add: clear_tables_def ipa_table_reset_def)
qed

text \<open>\<^verbatim>\<open>ipa_NATI_clear_ipv4_tbl\<close> on a cache whose invariant holds succeeds, leaves the invariant with no rule,
  and touches nothing but the two tables.\<close>

theorem nat_clear_tbl_correct:
  assumes ok: "cache_ok (ipv4_nat_cache st nmi) ct cx" and mtx: "mutex_ok env" and nmi: "nmi \<noteq> IPA_NAT_MEM_IN_MAX"
  shows "\<exists>st'. ipa_NATI_clear_ipv4_tbl env (tbl_hdl nmi) st = Some (0, st') \<and> same_but nmi st st' \<and>
     cache_ok (ipv4_nat_cache st' nmi) no_chains no_chains \<and> cache_rules (ipv4_nat_cache st' nmi) = Map.empty"
  using clear_tbl_outcome [OF assms] by blast

text \<open>\<^verbatim>\<open>ipa_NATI_del_ipv4_table\<close> on a cache with a table returns the status of the delete ioctl.  On success the
  cache has no table and no descriptor.  On failure the table is erased all the same while the count
  stays 1, so that from then on the cache refuses both a deletion and a new table with \<^verbatim>\<open>-EINVAL\<close>.\<close>

theorem nat_del_tbl_outcome:
  fixes env :: "('w, 'z) nat_env_scheme"
  assumes ok: "cache_ok (ipv4_nat_cache st nmi) ct cx" and mtx: "mutex_ok env" and nmi: "nmi \<noteq> IPA_NAT_MEM_IN_MAX"
  shows "\<exists>ret st'. ipa_NATI_del_ipv4_table env (tbl_hdl nmi) st = Some (ret, st') \<and>
     \<not> md_valid (mem_desc (ip4_tbl (ipv4_nat_cache st' nmi))) \<and>
     (if ret = 0 then table_cnt (ipv4_nat_cache st' nmi) = 0 \<and> ipa_desc (ipv4_nat_cache st' nmi) = None
      else table_cnt (ipv4_nat_cache st' nmi) = 1 \<and>
           map_option fst (ipa_NATI_del_ipv4_table env (tbl_hdl nmi) st') = Some (- EINVAL) \<and>
           map_option fst (ipa_NATI_add_ipv4_tbl env nmi ip n st') = Some (- EINVAL))"
proof -
  let ?c = "ipv4_nat_cache st nmi"
  obtain desc where d: "ipa_desc ?c = Some desc" "table_cnt ?c = 1" "md_valid (mem_desc (ip4_tbl ?c))"
    using ok by (auto simp: cache_ok_def)
  obtain ret md w where del: "ipa_mem_descriptor_delete env (mem_desc (ip4_tbl ?c)) (desc_fd desc)
      (snd (env_mutex_lock env (world st))) = (ret, md, w)"
    by (cases "ipa_mem_descriptor_delete env (mem_desc (ip4_tbl ?c)) (desc_fd desc) (snd (env_mutex_lock env (world st)))")
  note defs = nat_lock_ok [OF mtx] nat_unlock_ok [OF mtx] unlock_ret_ok [OF mtx] set_cache_def Let_def
  show ?thesis
    using d del tbl_hdl_facts [OF nmi]
    by (cases "ret = 0")
       (simp_all add: ipa_NATI_del_ipv4_table_def ipa_NATI_add_ipv4_tbl_def ipa_nati_destroy_table_def defs
          ip4_table_zero_def mem_desc_zero_def IPA_NAT_MAX_IP4_TBLS_def)
qed

section \<open>Handles\<close>

text \<open>A handle that names no record in use is refused with \<^verbatim>\<open>-EINVAL\<close> and nothing changes: neither the tables
  nor the rest of the state, the world apart.\<close>

theorem nat_del_rule_invalid:
  assumes ok: "cache_ok (ipv4_nat_cache st nmi) ct cx" and mtx: "mutex_ok env" and nmi: "nmi \<noteq> IPA_NAT_MEM_IN_MAX"
    and i: "\<not> vdT nat_ei (nat_table_of st nmi) (snd (ipa_table_get_entry (nat_table_of st nmi) hdl))"
      "fst (ipa_table_get_entry (nat_table_of st nmi) hdl) = 0"
  shows "\<exists>w. ipa_NATI_del_ipv4_rule env (tbl_hdl nmi) hdl st = Some (- EINVAL, st\<lparr>world := w\<rparr>)"
proof -
  have inv: "nat_inv (nat_table_of st nmi) (index_table_of st nmi) ct cx" using ok by (simp add: cache_ok_def)
  have b: "del_ipv4_rule_body env (ipv4_nat_cache st nmi) hdl (nat_table_of st nmi) (index_table_of st nmi) w =
      Some (- EINVAL, nat_table_of st nmi, index_table_of st nmi, w)" for w
    by (rule del_body_invalid [OF inv, of hdl "snd (ipa_table_get_entry (nat_table_of st nmi) hdl)"])
       (use i in \<open>simp_all add: prod_eq_iff\<close>)
  have "put_tables nmi (nat_table_of st nmi) (index_table_of st nmi) st = st"
    by (simp add: put_tables_def set_tbl_def set_cache_def)
  then show ?thesis using del_rule_eq [OF nmi mtx ok b] by auto
qed

text \<open>The table handle of each cache is a proper handle and breaks into its memory type and table number 1.\<close>

lemma tbl_hdl_roundtrip:
  "{nmi. BREAK_TBL_HDL (MAKE_TBL_HDL 1 nmi) = (nmi, 1) \<and> VALID_TBL_HDL (MAKE_TBL_HDL 1 nmi)} =
   {IPA_NAT_MEM_IN_DDR, IPA_NAT_MEM_IN_SRAM}"
proof -
  have "fst (BREAK_TBL_HDL h) \<noteq> IPA_NAT_MEM_IN_MAX" for h
    by (simp add: BREAK_TBL_HDL_def nmi_of_bit_def)
  then have "BREAK_TBL_HDL (MAKE_TBL_HDL 1 nmi) = (nmi, 1) \<Longrightarrow> nmi \<noteq> IPA_NAT_MEM_IN_MAX" for nmi
    by (metis fst_conv)
  moreover have "nmi \<in> {IPA_NAT_MEM_IN_DDR, IPA_NAT_MEM_IN_SRAM} \<longleftrightarrow> nmi \<noteq> IPA_NAT_MEM_IN_MAX" for nmi
    by (cases nmi) simp_all
  ultimately show ?thesis using tbl_hdl_facts by blast
qed

end
