(* ===== verification/Nat_Pdn_Ok.thy ===== *)
theory Nat_Pdn_Ok
  imports Nat_Drvi
begin

text \<open>
  The PDN table: \<^verbatim>\<open>num_pdns\<close> counts the entries in use, allocation finds the entry of an address or the
  first free one, and freeing an entry gives it back.
\<close>

definition pdns_used :: "ipa_nat_pdn_entry list \<Rightarrow> nat" where
  "pdns_used ps = length (filter (\<lambda>p. p \<noteq> pdn_zero) ps)"

definition pdn_ok :: "'w nat_state \<Rightarrow> bool" where
  "pdn_ok st \<longleftrightarrow> length (st_pdns st) = IPA_MAX_PDN_NUM \<and> num_pdns st = int (pdns_used (st_pdns st))"

lemma pdns_used_upd:
  assumes "i < length ps"
  shows "int (pdns_used (ps[i := p])) =
           int (pdns_used ps) - (if ps ! i \<noteq> pdn_zero then 1 else 0) + (if p \<noteq> pdn_zero then 1 else 0)"
proof -
  define as bs where "as = take i ps" and "bs = drop (Suc i) ps"
  have ps: "ps = as @ ps ! i # bs" using assms unfolding as_def bs_def by (rule id_take_nth_drop)
  have len: "length as = i" using assms by (simp add: as_def)
  have u: "ps[i := p] = as @ p # bs" by (subst ps) (simp add: list_update_append len)
  have "pdns_used ps = pdns_used as + (if ps ! i \<noteq> pdn_zero then 1 else 0) + pdns_used bs"
    by (subst ps) (simp add: pdns_used_def)
  moreover have "pdns_used (ps[i := p]) = pdns_used as + (if p \<noteq> pdn_zero then 1 else 0) + pdns_used bs"
    unfolding u by (simp add: pdns_used_def)
  ultimately show ?thesis by simp
qed

text \<open>\<^verbatim>\<open>ipa_nati_modify_pdn\<close> inside the table returns, and on success it stores the entry and nothing else.\<close>

lemma modify_pdn_cases:
  assumes "unat (ioc_pdn_index e) < length (st_pdns st)"
  obtains (stored) w where "ipa_nati_modify_pdn env e st = Some (0, st\<lparr>world := w,
      st_pdns := (st_pdns st)[unat (ioc_pdn_index e) :=
        \<lparr>pdn_public_ip = ioc_public_ip e, pdn_src_metadata = ioc_src_metadata e, pdn_dst_metadata = ioc_dst_metadata e\<rparr>]\<rparr>)"
  | (failed) ret w where "ret \<noteq> 0" "ipa_nati_modify_pdn env e st = Some (ret, st\<lparr>world := w\<rparr>)"
proof -
  define c where "c = (if ipa_desc (ipv4_nat_cache st IPA_NAT_MEM_IN_DDR) \<noteq> None
               then ipv4_nat_cache st IPA_NAT_MEM_IN_DDR else ipv4_nat_cache st IPA_NAT_MEM_IN_SRAM)"
  show thesis
  proof (cases "ipa_desc c")
    case None
    then have "ipa_nati_modify_pdn env e st = Some (- EIO, st\<lparr>world := world st\<rparr>)"
      unfolding ipa_nati_modify_pdn_def Let_def c_def [symmetric] by simp
    then show thesis by (intro failed [of "- EIO" "world st"]) simp_all
  next
    case (Some desc)
    obtain r w where r: "env_modify_pdn env (desc_fd desc) e (world st) = (r, w)" by fastforce
    show thesis
      using stored [of w] failed [of r w] assms Some r
      unfolding ipa_nati_modify_pdn_def Let_def c_def [symmetric] by (cases "r = 0") simp_all
  qed
qed

text \<open>\<^verbatim>\<open>ipa_nati_alloc_pdn\<close> for a nonzero public address always returns and keeps the count of entries in use.
  Status 0: the index is below 15 and its entry has the address; either the address was already there
  and nothing changed, or the entry was free and now holds the client's data, all others unchanged.
  Any other status: no index and no change of the PDN table.\<close>

theorem alloc_pdn_correct:
  assumes ok: "pdn_ok st" and ip: "pdn_public_ip info \<noteq> 0"
  shows "\<exists>ret idx st'. ipa_nati_alloc_pdn env info st = Some (ret, idx, st') \<and> pdn_ok st' \<and>
     (if ret = 0
      then \<exists>i < 15. idx = Some i \<and> pdn_public_ip (st_pdns st' ! i) = pdn_public_ip info \<and>
             (st' = st \<or> st_pdns st ! i = pdn_zero \<and> st_pdns st' = (st_pdns st)[i := info])
      else idx = None \<and> st_pdns st' = st_pdns st \<and> num_pdns st' = num_pdns st)"
proof (cases "num_pdns st \<ge> int (IPA_MAX_PDN_NUM - 1)")
  case True
  then show ?thesis using ok by (simp add: ipa_nati_alloc_pdn_def)
next
  case False
  let ?P = "\<lambda>i. pdn_public_ip (st_pdns st ! i) = pdn_public_ip info \<or> st_pdns st ! i = pdn_zero"
  show ?thesis
  proof (cases "find ?P [0..<IPA_MAX_PDN_NUM - 1]")
    case None
    then show ?thesis using False ok by (simp add: ipa_nati_alloc_pdn_def)
  next
    case (Some i)
    then have i: "i < 15" "?P i" by (auto simp: find_Some_iff IPA_MAX_PDN_NUM_def)
    have len: "length (st_pdns st) = 16" using ok by (simp add: pdn_ok_def IPA_MAX_PDN_NUM_def)
    show ?thesis
    proof (cases "pdn_public_ip (st_pdns st ! i) = pdn_public_ip info")
      case True
      then show ?thesis using False Some i ok by (auto simp: ipa_nati_alloc_pdn_def)
    next
      case ne: False
      let ?e = "\<lparr>ioc_pdn_index = of_nat i, ioc_public_ip = pdn_public_ip info,
                ioc_src_metadata = pdn_src_metadata info, ioc_dst_metadata = pdn_dst_metadata info\<rparr>"
      have ui: "unat (of_nat i :: u8) = i" using i by (simp add: unat_of_nat take_bit_nat_eq_self_iff)
      then have "unat (ioc_pdn_index ?e) < length (st_pdns st)" using i len by simp
      then show ?thesis
      proof (cases rule: modify_pdn_cases [of ?e st env])
        case (stored w)
        have z: "st_pdns st ! i = pdn_zero" using ne i by simp
        have eta: "\<lparr>pdn_public_ip = pdn_public_ip info, pdn_src_metadata = pdn_src_metadata info,
            pdn_dst_metadata = pdn_dst_metadata info\<rparr> = info" by simp
        have nz: "info \<noteq> pdn_zero" using ip by (auto simp: pdn_zero_def)
        let ?st = "st\<lparr>world := w, st_pdns := (st_pdns st)[i := info], num_pdns := num_pdns st + 1\<rparr>"
        have "pdn_ok ?st"
          using ok z nz pdns_used_upd [of i "st_pdns st" info] i len by (simp add: pdn_ok_def)
        moreover have "ipa_nati_alloc_pdn env info st = Some (0, Some i, ?st)"
          using False Some ne stored ui by (simp add: ipa_nati_alloc_pdn_def eta)
        ultimately show ?thesis using i z len by auto
      next
        case (failed ret w)
        then have "ipa_nati_alloc_pdn env info st = Some (ret, None, st\<lparr>world := w\<rparr>)"
          using False Some ne by (simp add: ipa_nati_alloc_pdn_def)
        then show ?thesis using ok failed(1) by (simp add: pdn_ok_def)
      qed
    qed
  qed
qed

text \<open>\<^verbatim>\<open>ipa_nati_dealloc_pdn\<close> inside the table keeps the count of entries in use; it succeeds only on an entry in
  use, which is then free, and leaves all others alone; so freeing what was allocated restores the
  PDN table.\<close>

theorem dealloc_pdn_correct:
  assumes ok: "pdn_ok st" and i: "i < IPA_MAX_PDN_NUM"
  shows "\<exists>ret st'. ipa_nati_dealloc_pdn env i st = Some (ret, st') \<and> pdn_ok st' \<and>
     (if ret = 0 then st_pdns st ! i \<noteq> pdn_zero \<and> st_pdns st' = (st_pdns st)[i := pdn_zero]
      else ret = - EIO \<and> st_pdns st' = st_pdns st \<and> num_pdns st' = num_pdns st)"
proof -
  have len: "length (st_pdns st) = 16" "i < 16" using ok i by (simp_all add: pdn_ok_def IPA_MAX_PDN_NUM_def)
  show ?thesis
  proof (cases "num_pdns st = 0 \<or> st_pdns st ! i = pdn_zero")
    case True
    then show ?thesis using ok len by (auto simp: ipa_nati_dealloc_pdn_def)
  next
    case False
    let ?e = "\<lparr>ioc_pdn_index = of_nat i, ioc_public_ip = 0, ioc_src_metadata = 0, ioc_dst_metadata = 0\<rparr>"
    have ui: "unat (of_nat i :: u8) = i" using len by (simp add: unat_of_nat take_bit_nat_eq_self_iff)
    then have "unat (ioc_pdn_index ?e) < length (st_pdns st)" using len by simp
    then show ?thesis
    proof (cases rule: modify_pdn_cases [of ?e st env])
      case (stored w)
      let ?st = "st\<lparr>world := w, st_pdns := (st_pdns st)[i := pdn_zero], num_pdns := num_pdns st - 1\<rparr>"
      have "pdn_ok ?st"
        using ok False pdns_used_upd [of i "st_pdns st" pdn_zero] len by (simp add: pdn_ok_def)
      moreover have "ipa_nati_dealloc_pdn env i st = Some (0, ?st)"
        using False stored ui len by (simp add: ipa_nati_dealloc_pdn_def)
      ultimately show ?thesis using False by auto
    next
      case (failed ret w)
      then have "ipa_nati_dealloc_pdn env i st = Some (- EIO, st\<lparr>world := w\<rparr>)"
        using False len by (simp add: ipa_nati_dealloc_pdn_def)
      then show ?thesis using ok by (simp add: pdn_ok_def)
    qed
  qed
qed

text \<open>\<^verbatim>\<open>ipa_nati_get_pdn_index\<close> finds the first of the entries 0 to 14 that has the address, and fails exactly
  when none of them has it; the last entry of the table is never found.\<close>

lemma get_pdn_index_correct:
  "case ipa_nati_get_pdn_index ip st of
     (ret, Some i) \<Rightarrow> ret = 0 \<and> i < 15 \<and> pdn_public_ip (st_pdns st ! i) = ip \<and>
                      {j. j < i \<and> pdn_public_ip (st_pdns st ! j) = ip} = {}
   | (ret, None) \<Rightarrow> ret = - EIO \<and> {j. j < 15 \<and> pdn_public_ip (st_pdns st ! j) = ip} = {}"
proof (cases "find (\<lambda>i. pdn_public_ip (st_pdns st ! i) = ip) [0..<IPA_MAX_PDN_NUM - 1]")
  case None
  then have "\<And>j. j < 15 \<Longrightarrow> pdn_public_ip (st_pdns st ! j) \<noteq> ip" by (auto simp: find_None_iff IPA_MAX_PDN_NUM_def)
  then show ?thesis using None by (auto simp: ipa_nati_get_pdn_index_def)
next
  case (Some i)
  then have "i < 15" "pdn_public_ip (st_pdns st ! i) = ip"
    "\<And>j. j < i \<Longrightarrow> pdn_public_ip (st_pdns st ! j) \<noteq> ip"
    by (auto simp: find_Some_iff IPA_MAX_PDN_NUM_def)
  then show ?thesis using Some by (auto simp: ipa_nati_get_pdn_index_def)
qed

end
