(* ===== verification/Nat_Demo.thy ===== *)
theory Nat_Demo
  imports Nat_Api_Ok Nat_Pdn_Ok
begin

text \<open>
  A concrete driver state and a concrete kernel: DDR tables of two base and two expansion records, and a
  device that executes every command.  The properties of the driver layer are applied to them.
\<close>

definition demo_env :: "unit nat_env" where
  "demo_env =
     \<lparr>env_mutex_lock = (\<lambda>w. (0, w)), env_mutex_unlock = (\<lambda>w. (0, w)), env_calloc = (\<lambda>n w. (True, w)),
      env_open = (\<lambda>s w. (3, w)), env_close = (\<lambda>fd w. (0, w)), env_get_hw_version = (\<lambda>fd w. (0, 14, w)),
      env_mmap = (\<lambda>sz fd w. (Some 4096, w)), env_munmap = (\<lambda>a sz w. w),
      env_get_sram_info = (\<lambda>fd w. (- 1, sram_info_zero, w)),
      env_alloc_table = (\<lambda>io fd sz w. (0, 0, w)), env_del_table = (\<lambda>io fd i m w. (0, w)),
      env_v4_init = (\<lambda>fd c w. (0, w)),
      env_table_dma = (\<lambda>fd cmd tx w.
        (0, (dma_run nat_put IPA_NAT_BASE_TBL IPA_NAT_EXPN_TBL (cmd_dma cmd) (fst tx),
             dma_run indx_put IPA_NAT_INDX_TBL IPA_NAT_INDEX_EXPN_TBL (cmd_dma cmd) (snd tx)), w)),
      env_modify_pdn = (\<lambda>fd e w. (0, w)), env_clock_vote = (\<lambda>fd v w. (0, w))\<rparr>"

definition demo_t :: "ipa_nat_rule ipa_table" where
  "demo_t = (ipa_table_init ''nat'' IPA_NAT_MEM_IN_DDR 32 None 0)
              \<lparr>table_entries := 2, expn_table_entries := 2, tot_tbl_ents := 4\<rparr>"

definition demo_x :: "ipa_nat_indx_tbl_rule ipa_table" where
  "demo_x = (ipa_table_init ''index'' IPA_NAT_MEM_IN_DDR 4 (Some (replicate 2 0)) 2)
              \<lparr>table_entries := 2, expn_table_entries := 2, tot_tbl_ents := 4\<rparr>"

definition demo_md :: ipa_mem_descriptor where
  "demo_md = mem_desc_zero\<lparr>md_valid := True, base_addr := Some 4096\<rparr>"

definition demo_tbl :: ipa_nat_ip4_table_cache where
  "demo_tbl = ipa_nati_create_table_dma_cmd_helpers (ip4_table_zero\<lparr>public_addr := 0x0A000001, mem_desc := demo_md,
         nat_table := ipa_table_reset nat_ei (snd (ipa_table_calculate_addresses demo_t 4096)),
         index_table := ipa_table_reset indx_ei
           (snd (ipa_table_calculate_addresses demo_x (fst (ipa_table_calculate_addresses demo_t 4096))))\<rparr>) 0"

definition demo_cache :: ipa_nat_cache where
  "demo_cache = \<lparr>ipa_desc = Some \<lparr>desc_fd = 3, desc_ver = 14\<rparr>, ip4_tbl = demo_tbl, table_cnt = 1,
                 cache_nmi = IPA_NAT_MEM_IN_DDR\<rparr>"

definition no_cache :: ipa_nat_cache where
  "no_cache = \<lparr>ipa_desc = None, ip4_tbl = ip4_table_zero, table_cnt = 0, cache_nmi = IPA_NAT_MEM_IN_SRAM\<rparr>"

definition demo_state :: "unit nat_state" where
  "demo_state = \<lparr>ipv4_nat_cache = (\<lambda>m. if m = IPA_NAT_MEM_IN_DDR then demo_cache else no_cache),
     active_nat_cache = Some IPA_NAT_MEM_IN_DDR, st_pdns = (pdn_zero\<lparr>pdn_public_ip := 0x0A000001\<rparr>) # replicate 15 pdn_zero,
     num_pdns = 1, Hash_token = 69, world = ()\<rparr>"

definition demo_rule :: ipa_nat_ipv4_rule where
  "demo_rule = \<lparr>u_target_ip = 0x08080808, u_private_ip = 0xC0A80002, u_target_port = 53, u_private_port = 4000,
     u_public_port = 5000, u_protocol = 17, u_pdn_index = 0, u_redirect = 1, u_enable = 1, u_time_stamp = 7,
     u_uc_activation_index = 0, u_s = False, u_ucp = False, u_dst_only = False, u_src_only = False\<rparr>"

lemma demo_env_ok: "mutex_ok demo_env" "dma_device demo_env" "alloc_at_base demo_env"
  by (simp_all add: mutex_ok_def dma_device_def alloc_at_base_def demo_env_def)

lemma demo_ready: "tables_ready demo_tbl 0x0A000001"
  by (rule created_ready [where t = demo_t and x = demo_x and k = 1 and te = 2 and xe = 2 and
        nmi = IPA_NAT_MEM_IN_DDR and a = 4096 and md = demo_md and tbl = ip4_table_zero and ti = 0])
     (simp_all add: demo_t_def demo_x_def demo_tbl_def demo_md_def mem_desc_zero_def ipa_table_init_def)

lemma demo_inv: "nat_inv (nat_table demo_tbl) (index_table demo_tbl) no_chains no_chains"
  using demo_ready by (simp add: tables_ready_def)

lemma demo_ok: "cache_ok (ipv4_nat_cache demo_state IPA_NAT_MEM_IN_DDR) no_chains no_chains"
  using demo_ready by (simp add: cache_ok_def demo_state_def demo_cache_def tables_ready_def)

lemma demo_rule_ok:
  "unat (u_pdn_index demo_rule) < length (st_pdns demo_state)" "u_protocol demo_rule \<noteq> IPAHAL_NAT_INVALID_PROTOCOL"
  "pdn_public_ip (st_pdns demo_state ! unat (u_pdn_index demo_rule)) \<noteq> 0"
  by (simp_all add: demo_rule_def demo_state_def IPAHAL_NAT_INVALID_PROTOCOL_def)

lemma demo_reliable: "dma_reliable demo_env"
  using demo_env_ok(2) by (simp add: dma_reliable_def demo_env_def)

lemma demo_empty: "\<not> vdT nat_ei (nat_table demo_tbl) i" "\<not> vdT indx_ei (index_table demo_tbl) i"
  using nat_tbl.zero_invalid [of "[]"] indx_tbl.zero_invalid
  by (auto simp: vdT_def demo_tbl_def create_helpers demo_md_def mem_desc_zero_def with_helpers_def
        ipa_table_reset_def ipa_table_calculate_addresses_def nth_append)

lemma demo_tables:
  "nat_table_of demo_state IPA_NAT_MEM_IN_DDR = nat_table demo_tbl"
  "index_table_of demo_state IPA_NAT_MEM_IN_DDR = index_table demo_tbl"
  by (simp_all add: demo_state_def demo_cache_def)

theorem nat_add_rule_correct_witness:
  "\<exists>ret hdl st'. ipa_NATI_add_ipv4_rule demo_env (tbl_hdl IPA_NAT_MEM_IN_DDR) (Some demo_rule) True demo_state =
       Some (ret, hdl, st') \<and> same_but IPA_NAT_MEM_IN_DDR demo_state st'"
  using nat_add_rule_correct [OF demo_ok demo_env_ok(2,1) _ demo_rule_ok refl refl surjective_pairing surjective_pairing]
  by auto

theorem nat_add_rule_succeeds_witness:
  "\<exists>hdl st'. ipa_NATI_add_ipv4_rule demo_env (tbl_hdl IPA_NAT_MEM_IN_DDR) (Some demo_rule) True demo_state =
       Some (0, hdl, st')"
  by (rule nat_add_rule_succeeds [OF demo_ok demo_reliable demo_env_ok(1) _ demo_rule_ok refl refl surjective_pairing
        surjective_pairing])
     (simp_all add: nat_full_def demo_tables demo_empty)

section \<open>A state with a rule\<close>

abbreviation DDR :: ipa3_nat_mem_in where "DDR \<equiv> IPA_NAT_MEM_IN_DDR"

lemma demo_added:
  obtains hdl st1 where
    "ipa_NATI_add_ipv4_rule demo_env (tbl_hdl DDR) (Some demo_rule) True demo_state = Some (0, hdl, st1)"
proof -
  have "\<exists>hdl st'. ipa_NATI_add_ipv4_rule demo_env (tbl_hdl DDR) (Some demo_rule) True demo_state = Some (0, hdl, st')"
    by (rule add_rule_runs [OF demo_ok demo_reliable demo_env_ok(1) _ demo_rule_ok refl refl surjective_pairing
          surjective_pairing])
       (simp_all add: nat_full_def demo_tables demo_empty)
  then show thesis using that by blast
qed

lemma demo_with_rule:
  obtains st1 :: "unit nat_state" and ct cx i r where "cache_ok (ipv4_nat_cache st1 DDR) ct cx" "rules_of (nat_table_of st1 DDR) i = Some r"
proof (rule demo_added)
  fix hdl st1
  assume a: "ipa_NATI_add_ipv4_rule demo_env (tbl_hdl DDR) (Some demo_rule) True demo_state = Some (0, hdl, st1)"
  have ddr: "DDR \<noteq> IPA_NAT_MEM_IN_MAX" by simp
  show thesis
  proof (rule add_rule_success [OF demo_ok demo_env_ok(2,1) ddr demo_rule_ok a])
    fix i ct1 cx1
    assume "cache_ok (ipv4_nat_cache st1 DDR) ct1 cx1"
      "rules_of (nat_table_of st1 DDR) = (rules_of (nat_table_of demo_state DDR))(i \<mapsto> stored_rule (st_pdns demo_state) demo_rule)"
    then show thesis using that [of st1 ct1 cx1 i] by simp
  qed
qed

theorem nat_add_stores_rule_witness:
  "\<exists>hdl st1 i r. ipa_NATI_add_ipv4_rule demo_env (tbl_hdl DDR) (Some demo_rule) True demo_state = Some (0, hdl, st1) \<and>
     cache_rules (ipv4_nat_cache st1 DDR) i = Some r \<and> u_redirect demo_rule = 1 \<and> \<not> redirect r"
proof (rule demo_added)
  fix hdl st1
  assume a: "ipa_NATI_add_ipv4_rule demo_env (tbl_hdl DDR) (Some demo_rule) True demo_state = Some (0, hdl, st1)"
  obtain i r where "cache_rules (ipv4_nat_cache st1 DDR) = (cache_rules (ipv4_nat_cache demo_state DDR))(i \<mapsto> r)" "\<not> redirect r"
    using nat_add_stores_rule [OF demo_ok demo_env_ok(2,1) _ demo_rule_ok a] by auto
  then show ?thesis using a by (intro exI [of _ hdl] exI [of _ st1] exI [of _ i] exI [of _ r]) (simp add: demo_rule_def)
qed

theorem nat_add_delete_roundtrip_witness:
  "\<exists>hdl st1 ret st2. ipa_NATI_add_ipv4_rule demo_env (tbl_hdl DDR) (Some demo_rule) True demo_state = Some (0, hdl, st1) \<and>
     ipa_NATI_del_ipv4_rule demo_env (tbl_hdl DDR) hdl st1 = Some (ret, st2) \<and>
     (if ret = 0 then cache_rules (ipv4_nat_cache st2 DDR) = cache_rules (ipv4_nat_cache demo_state DDR) else ret = - EIO)"
proof (rule demo_added)
  fix hdl st1
  assume a: "ipa_NATI_add_ipv4_rule demo_env (tbl_hdl DDR) (Some demo_rule) True demo_state = Some (0, hdl, st1)"
  obtain ret st2 where "ipa_NATI_del_ipv4_rule demo_env (tbl_hdl DDR) hdl st1 = Some (ret, st2)"
      "if ret = 0 then cache_rules (ipv4_nat_cache st2 DDR) = cache_rules (ipv4_nat_cache demo_state DDR) else ret = - EIO"
    using nat_add_delete_roundtrip [OF demo_ok demo_env_ok(2,1) _ demo_rule_ok a] by (auto split: if_splits)
  then show ?thesis using a by blast
qed

theorem nat_del_rule_correct_witness:
  "\<exists>st i r ret st'. rules_of (nat_table_of st DDR) i = Some r \<and>
     ipa_NATI_del_ipv4_rule demo_env (tbl_hdl DDR) (ucast (MakeEntryHdl (nat_table_of st DDR) i)) st = Some (ret, st') \<and>
     same_but DDR st st'"
proof (rule demo_with_rule)
  fix st1 :: "unit nat_state" and ct cx i r
  assume a: "cache_ok (ipv4_nat_cache st1 DDR) ct cx" and b: "rules_of (nat_table_of st1 DDR) i = Some r"
  show ?thesis using nat_del_rule_correct [OF a demo_env_ok(2,1) _ refl b] b by blast
qed

theorem nat_del_rule_invalid_witness:
  "\<exists>w. ipa_NATI_del_ipv4_rule demo_env (tbl_hdl DDR) 2 demo_state = Some (- EINVAL, demo_state\<lparr>world := w\<rparr>)"
  by (rule nat_del_rule_invalid [OF demo_ok demo_env_ok(1)])
     (simp_all add: demo_tables demo_empty, simp add: demo_tbl_def create_helpers demo_md_def mem_desc_zero_def
        with_helpers_def ipa_table_reset_def ipa_table_calculate_addresses_def demo_t_def ipa_table_get_entry_def
        BREAK_RULE_HDL_def)

theorem dma_buffers_suffice_witness:
  "\<exists>(st :: unit nat_state) i. add_ipv4_rule_body (dma_guard MAX_DMA_ENTRIES_FOR_ADD demo_env) demo_cache (st_pdns demo_state) demo_rule 69
            (nat_table_of st DDR) (index_table_of st DDR) () =
          add_ipv4_rule_body demo_env demo_cache (st_pdns demo_state) demo_rule 69
            (nat_table_of st DDR) (index_table_of st DDR) () \<and> live (nat_table_of st DDR) i"
proof (rule demo_with_rule)
  fix st1 :: "unit nat_state" and ct cx i r
  assume a: "cache_ok (ipv4_nat_cache st1 DDR) ct cx" and b: "rules_of (nat_table_of st1 DDR) i = Some r"
  have inv: "nat_inv (nat_table_of st1 DDR) (index_table_of st1 DDR) ct cx" using a by (simp add: cache_ok_def)
  have l: "live (nat_table_of st1 DDR) i" using b by (simp add: rules_of_def split: if_splits)
  have d: "ipa_desc demo_cache = Some \<lparr>desc_fd = 3, desc_ver = 14\<rparr>" by (simp add: demo_cache_def)
  have pr: "pdn_in_range (st_pdns demo_state) demo_rule" using demo_rule_ok by (simp add: pdn_in_range_def)
  show ?thesis using dma_buffers_suffice [OF inv d pr l, of demo_env 69 "()"] l by blast
qed

theorem nat_add_tbl_correct_witness:
  "\<exists>ret hdl st'. ipa_NATI_add_ipv4_tbl demo_env IPA_NAT_MEM_IN_SRAM 5 100 demo_state = Some (ret, hdl, st') \<and>
     (if ret = 0 then hdl = tbl_hdl IPA_NAT_MEM_IN_SRAM \<and> cache_rules (ipv4_nat_cache st' IPA_NAT_MEM_IN_SRAM) = Map.empty
      else hdl = 0)"
  using nat_add_tbl_correct [OF demo_env_ok(1,3), of IPA_NAT_MEM_IN_SRAM demo_state 5 100]
  by (auto simp: demo_state_def no_cache_def split: if_splits)

theorem nat_clear_tbl_correct_witness:
  "\<exists>st'. ipa_NATI_clear_ipv4_tbl demo_env (tbl_hdl DDR) demo_state = Some (0, st') \<and>
     cache_rules (ipv4_nat_cache st' DDR) = Map.empty"
  using nat_clear_tbl_correct [OF demo_ok demo_env_ok(1)] by auto

theorem nat_del_tbl_outcome_witness:
  "\<exists>ret st'. ipa_NATI_del_ipv4_table demo_env (tbl_hdl DDR) demo_state = Some (ret, st') \<and>
     \<not> md_valid (mem_desc (ip4_tbl (ipv4_nat_cache st' DDR)))"
  using nat_del_tbl_outcome [OF demo_ok demo_env_ok(1), where ip = 0 and n = 0] by blast

section \<open>PDN entries\<close>

lemma demo_pdn_ok: "pdn_ok demo_state"
  by (simp add: pdn_ok_def demo_state_def IPA_MAX_PDN_NUM_def pdns_used_def pdn_zero_def)

theorem alloc_pdn_correct_witness:
  "\<exists>ret idx st'. ipa_nati_alloc_pdn demo_env (pdn_zero\<lparr>pdn_public_ip := 9\<rparr>) demo_state = Some (ret, idx, st') \<and> pdn_ok st'"
  using alloc_pdn_correct [OF demo_pdn_ok, of "pdn_zero\<lparr>pdn_public_ip := 9\<rparr>" demo_env] by auto

theorem dealloc_pdn_correct_witness:
  "\<exists>ret st'. ipa_nati_dealloc_pdn demo_env 0 demo_state = Some (ret, st') \<and> pdn_ok st'"
  using dealloc_pdn_correct [OF demo_pdn_ok, of 0 demo_env] by (auto simp: IPA_MAX_PDN_NUM_def)

end
