(* ===== verification/Nat_Map.thy ===== *)
theory Nat_Map
  imports Ipa_Prelude
begin

text \<open>
  The handle maps of \<^verbatim>\<open>ipanat/src/ipa_nat_map.cpp\<close>: an array of five \<^verbatim>\<open>std::map<uint32_t, uint32_t>\<close>.  A map
  number outside of the array is an undefined access (\<open>None\<close>): the macro that should refuse it accepts
  every number, because its two conditions are joined by an \<^verbatim>\<open>||\<close>.
\<close>

datatype ipa_which_map = MAP_NUM_00 | MAP_NUM_01 | MAP_NUM_02 | MAP_NUM_03 | MAP_NUM_99 | MAP_NUM_MAX

definition which_map_code :: "ipa_which_map \<Rightarrow> nat" where
  "which_map_code w = (case w of MAP_NUM_00 \<Rightarrow> 0 | MAP_NUM_01 \<Rightarrow> 1 | MAP_NUM_02 \<Rightarrow> 2 | MAP_NUM_03 \<Rightarrow> 3
     | MAP_NUM_99 \<Rightarrow> 4 | MAP_NUM_MAX \<Rightarrow> 5)"

definition VALID_IPA_USE_MAP :: "ipa_which_map \<Rightarrow> bool" where
  "VALID_IPA_USE_MAP w =
     (which_map_code w \<ge> which_map_code MAP_NUM_00 \<or> which_map_code w < which_map_code MAP_NUM_MAX)"

type_synonym nat_maps = "ipa_which_map \<Rightarrow> (u32 \<rightharpoonup> u32)"

text \<open>\<^verbatim>\<open>map_array[which]\<close>, followed.\<close>

definition map_at :: "nat_maps \<Rightarrow> ipa_which_map \<Rightarrow> (u32 \<rightharpoonup> u32) option" where
  "map_at ms which = (if which_map_code which < which_map_code MAP_NUM_MAX then Some (ms which) else None)"

text \<open>\<^verbatim>\<open>std::map::insert\<close> keeps the value of a key that exists.\<close>

definition ipa_nat_map_add :: "ipa_which_map \<Rightarrow> u32 \<Rightarrow> u32 \<Rightarrow> nat_maps \<Rightarrow> (int \<times> nat_maps) option" where
  "ipa_nat_map_add which key val ms =
     (if \<not> VALID_IPA_USE_MAP which then Some (- 1, ms)
      else do { m \<leftarrow> map_at ms which;
                Some (case m key of Some _ \<Rightarrow> (- 1, ms) | None \<Rightarrow> (0, ms(which := m(key \<mapsto> val)))) })"

text \<open>The value is written through \<^verbatim>\<open>val_ptr\<close> only when the key is found.\<close>

definition ipa_nat_map_find :: "ipa_which_map \<Rightarrow> u32 \<Rightarrow> nat_maps \<Rightarrow> (int \<times> u32 option) option" where
  "ipa_nat_map_find which key ms =
     (if \<not> VALID_IPA_USE_MAP which then Some (- 1, None)
      else do { m \<leftarrow> map_at ms which;
                Some (case m key of None \<Rightarrow> (- 1, None) | Some v \<Rightarrow> (0, Some v)) })"

definition ipa_nat_map_del :: "ipa_which_map \<Rightarrow> u32 \<Rightarrow> nat_maps \<Rightarrow> (int \<times> u32 option \<times> nat_maps) option" where
  "ipa_nat_map_del which key ms =
     (if \<not> VALID_IPA_USE_MAP which then Some (- 1, None, ms)
      else do { m \<leftarrow> map_at ms which;
                Some (case m key of None \<Rightarrow> (- 1, None, ms) | Some v \<Rightarrow> (0, Some v, ms(which := m(key := None)))) })"

definition ipa_nat_map_clear :: "ipa_which_map \<Rightarrow> nat_maps \<Rightarrow> (int \<times> nat_maps) option" where
  "ipa_nat_map_clear which ms =
     (if \<not> VALID_IPA_USE_MAP which then Some (- 1, ms)
      else do { _ \<leftarrow> map_at ms which; Some (0, ms(which := Map.empty)) })"

text \<open>The macro refuses nothing.\<close>

lemma valid_map_always [simp]: "VALID_IPA_USE_MAP w"
  by (simp add: VALID_IPA_USE_MAP_def which_map_code_def)

lemma map_at_in_range [simp]: "w \<noteq> MAP_NUM_MAX \<Longrightarrow> map_at ms w = Some (ms w)"
  by (cases w) (simp_all add: map_at_def which_map_code_def)

lemma map_at_max [simp]: "map_at ms MAP_NUM_MAX = None"
  by (simp add: map_at_def)

lemma map_clear_eq [simp]: "w \<noteq> MAP_NUM_MAX \<Longrightarrow> ipa_nat_map_clear w ms = Some (0, ms(w := Map.empty))"
  by (simp add: ipa_nat_map_clear_def)

lemma map_find_eq [simp]:
  "w \<noteq> MAP_NUM_MAX \<Longrightarrow> ipa_nat_map_find w k ms = Some (if ms w k = None then - 1 else 0, ms w k)"
  by (cases "ms w k") (simp_all add: ipa_nat_map_find_def)

lemma map_add_eq [simp]:
  "w \<noteq> MAP_NUM_MAX \<Longrightarrow>
   ipa_nat_map_add w k v ms = Some (if ms w k = None then (0, ms(w := (ms w)(k \<mapsto> v))) else (- 1, ms))"
  by (cases "ms w k") (simp_all add: ipa_nat_map_add_def)

lemma map_del_eq [simp]:
  "w \<noteq> MAP_NUM_MAX \<Longrightarrow>
   ipa_nat_map_del w k ms =
     Some (if ms w k = None then - 1 else 0, ms w k, if ms w k = None then ms else ms(w := (ms w)(k := None)))"
  by (cases "ms w k") (simp_all add: ipa_nat_map_del_def)

text \<open>The maps are dictionaries that never overwrite.  On a map number of the array, adding a key
  that exists changes nothing and fails; otherwise the key then has the value.  Deleting returns the
  value a lookup found and the key is gone, other keys and other maps are untouched.  On
  \<^verbatim>\<open>MAP_NUM_MAX\<close>, which the validity test accepts, every operation accesses the array out of bounds.\<close>

theorem nat_map_dictionary:
  "(\<forall>w \<in> {w. w \<noteq> MAP_NUM_MAX}. \<forall>k v ms.
      (case ipa_nat_map_add w k v ms of None \<Rightarrow> False | Some (ret, ms') \<Rightarrow>
         (ret = 0 \<longleftrightarrow> ms w k = None) \<and>
         ipa_nat_map_find w k ms' = Some (0, if ret = 0 then Some v else ms w k) \<and>
         (\<forall>w' k'. (w', k') \<noteq> (w, k) \<or> ret \<noteq> 0 \<longrightarrow> ms' w' k' = ms w' k')) \<and>
      (case ipa_nat_map_del w k ms of None \<Rightarrow> False | Some (ret, v', ms') \<Rightarrow>
         ipa_nat_map_find w k ms = Some (ret, v') \<and> ms' w k = None \<and>
         (\<forall>w' k'. (w', k') \<noteq> (w, k) \<longrightarrow> ms' w' k' = ms w' k'))) \<and>
   VALID_IPA_USE_MAP MAP_NUM_MAX \<and> (\<forall>k v ms. ipa_nat_map_add MAP_NUM_MAX k v ms = None)"
  by (auto simp: ipa_nat_map_add_def split: if_splits)

theorem nat_map_dictionary_witness:
  "ipa_nat_map_add MAP_NUM_00 7 9 (\<lambda>_. Map.empty) \<noteq> None \<and> VALID_IPA_USE_MAP MAP_NUM_MAX"
  using nat_map_dictionary by (auto split: option.splits)

end
