(* ===== verification/Nat_Stats.thy ===== *)
theory Nat_Stats
  imports Nat_Drvi
begin

text \<open>
  The copy of a table into another one and the table statistics of \<^verbatim>\<open>ipa_nat_drvi.c\<close>.

  \<^verbatim>\<open>avg_chain_len\<close> is a \<^verbatim>\<open>float\<close> that is only reported: it is kept as the dividend and the divisor of the
  division the code makes, \<open>None\<close> being the 0.0 of the cleared structure.
\<close>

section \<open>Copying a table\<close>

definition ipa_nati_copy_ipv4_tbl ::
  "('w, 'z) nat_env_scheme \<Rightarrow> u32 \<Rightarrow> u32 \<Rightarrow> (u32 \<Rightarrow> (ipa_nat_rule, 's \<times> 'w nat_state) ipa_table_walk_cb) option
    \<Rightarrow> 's \<Rightarrow> 'w nat_state \<Rightarrow> (int \<times> 's \<times> 'w nat_state) option" where
  "ipa_nati_copy_ipv4_tbl env src_tbl_hdl dst_tbl_hdl copy_cb s st =
     (case copy_cb of
        None \<Rightarrow> Some (- EINVAL, s, st)
      | Some cb \<Rightarrow>
          let (r, st) = nat_lock env st in
          if r \<noteq> 0 then Some (- EINVAL, s, st)
          else do {
            (ret, st) \<leftarrow> ipa_NATI_clear_ipv4_tbl env dst_tbl_hdl st;
            (ret, s, st) \<leftarrow>
              (if ret = 0
               then ipa_NATI_walk_ipv4_tbl env src_tbl_hdl USE_NAT_TABLE (cb dst_tbl_hdl)
                      (\<lambda>_ _ _ _ _ _ s. Some (0, s)) s st
               else Some (ret, s, st));
            let (ret, st) = unlock_ret env ret st;
            Some (ret, s, st) })"

section \<open>Statistics\<close>

record ipa_nati_tbl_stats =
  stats_nmi :: ipa3_nat_mem_in
  tot_ents :: u32
  tot_base_ents :: u32
  tot_base_ents_filled :: u32
  tot_expn_ents :: u32
  tot_expn_ents_filled :: u32
  tot_chains :: u32
  min_chain_len :: u32
  max_chain_len :: u32
  avg_chain_len :: "(u32 \<times> u32) option"

definition tbl_stats_zero :: ipa_nati_tbl_stats where
  "tbl_stats_zero = \<lparr>stats_nmi = IPA_NAT_MEM_IN_DDR, tot_ents = 0, tot_base_ents = 0, tot_base_ents_filled = 0,
     tot_expn_ents = 0, tot_expn_ents_filled = 0, tot_chains = 0, min_chain_len = 0, max_chain_len = 0,
     avg_chain_len = None\<rparr>"

record chain_stat_help =
  tot_for_avg :: u32
  csh_stats :: ipa_nati_tbl_stats

text \<open>The loop that counts the elements of a list, from an element with a successor on.  The code has it
  twice, for the two record types; \<open>nxt\<close> reads \<^verbatim>\<open>next_index\<close>.\<close>

partial_function (option) chain_len_loop :: "('e \<Rightarrow> u16) \<Rightarrow> 'e ipa_table \<Rightarrow> 'e \<Rightarrow> u32 \<Rightarrow> u32 option" where
  "chain_len_loop nxt t e chain_len =
     (if nxt e \<noteq> 0
      then do { e' \<leftarrow> rec_at t (unat (nxt e)); chain_len_loop nxt t e' (chain_len + 1) }
      else Some chain_len)"

declare chain_len_loop.simps [code]

definition gen_chain_stats :: "('e \<Rightarrow> u16) \<Rightarrow> ('e, chain_stat_help) ipa_table_walk_cb" where
  "gen_chain_stats nxt t rule_hdl e record_index meta_ptr meta_index csh =
     (let (nmi, is_expn_tbl, rule_index) = BREAK_RULE_HDL t rule_hdl in
      if is_expn_tbl then Some (1, csh)
      else do {
        chain_len \<leftarrow> (if nxt e \<noteq> 0 then chain_len_loop nxt t e 1 else Some 0);
        let s = csh_stats csh;
        Some (0,
          if chain_len \<noteq> 0 then
            csh\<lparr>tot_for_avg := tot_for_avg csh + chain_len,
                csh_stats := s\<lparr>tot_chains := tot_chains s + 1,
                  min_chain_len := if min_chain_len s = 0 then chain_len else min (min_chain_len s) chain_len,
                  max_chain_len := max (max_chain_len s) chain_len\<rparr>\<rparr>
          else csh) })"

text \<open>The part of \<^verbatim>\<open>ipa_NATI_ipv4_tbl_stats\<close> for one table: status and statistics.\<close>

definition gather_stats ::
  "('e, 'u) ipa_table_entry_interface \<Rightarrow> ('e \<Rightarrow> u16) \<Rightarrow> ipa3_nat_mem_in \<Rightarrow> 'e ipa_table
    \<Rightarrow> (int \<times> ipa_nati_tbl_stats) option" where
  "gather_stats ei nxt nmi t =
     do { let base = of_nat (table_entries t);
          let expn = of_nat (expn_table_entries t);
          let s = tbl_stats_zero\<lparr>stats_nmi := nmi, tot_base_ents := base, tot_expn_ents := expn, tot_ents := base + expn,
                     tot_base_ents_filled := ucast (cur_tbl_cnt t), tot_expn_ents_filled := ucast (cur_expn_tbl_cnt t)\<rparr>;
          (ret, csh) \<leftarrow> ipa_table_walk ei t 0 WHEN_SLOT_FILLED (gen_chain_stats nxt) \<lparr>tot_for_avg = 0, csh_stats = s\<rparr>;
          let s = csh_stats csh;
          Some (if ret < 0 then (- EINVAL, s)
                else (0, if tot_for_avg csh \<noteq> 0 \<and> tot_chains s \<noteq> 0
                         then s\<lparr>avg_chain_len := Some (tot_for_avg csh, tot_chains s)\<rparr> else s)) }"

text \<open>Status and the two structures written; \<open>None\<close> in their place: they are not written.\<close>

definition ipa_NATI_ipv4_tbl_stats ::
  "('w, 'z) nat_env_scheme \<Rightarrow> u32 \<Rightarrow> 'w nat_state
    \<Rightarrow> (int \<times> (ipa_nati_tbl_stats \<times> ipa_nati_tbl_stats) option \<times> 'w nat_state) option" where
  "ipa_NATI_ipv4_tbl_stats env tbl_hdl st =
     (if \<not> VALID_TBL_HDL tbl_hdl then Some (- EINVAL, None, st)
      else let (r, st) = nat_lock env st in
      if r \<noteq> 0 then Some (- EINVAL, None, st)
      else
        let (nmi, hdl) = BREAK_TBL_HDL tbl_hdl;
            unlock = (\<lambda>ret s st. let (ret, st) = unlock_ret env ret st in (ret, Some s, st))
        in if \<not> IPA_VALID_NAT_MEM_IN nmi then Some (unlock (- EINVAL) (tbl_stats_zero, tbl_stats_zero) st)
        else if table_cnt (ipv4_nat_cache st nmi) = 0
        then Some (unlock (- EINVAL) (tbl_stats_zero, tbl_stats_zero) st)
        else do {
          tbl \<leftarrow> get_ip4_tbl (ipv4_nat_cache st nmi) hdl;
          (ret, ns) \<leftarrow> gather_stats (entry_interface []) next_index nmi (nat_table tbl);
          if ret \<noteq> 0 then Some (unlock ret (ns, tbl_stats_zero) st)
          else do {
            (ret, xs) \<leftarrow> gather_stats index_entry_interface indx_next_index nmi (index_table tbl);
            Some (unlock ret (ns, xs) st) } })"

end
