(* ===== verification/Nat_Statemach.thy ===== *)
theory Nat_Statemach
  imports Nat_Map Nat_Stats
begin

text \<open>
  The state machine of \<^verbatim>\<open>ipanat/src/ipa_nat_statemach.c\<close>: it gives clients one NAT table that lives in DDR, in
  SRAM or, in hybrid mode, in either of the two, the rules being moved between them.

  State.  \<open>sm_ctl\<close> holds \<^verbatim>\<open>nati_obj\<close>, the handle maps, the flag \<^verbatim>\<open>nat_mutex_init\<close> and the cells of the
  caller that the operations write through pointers (\<open>io_\<close>\<dots>); a state is such a control part with the
  driver state of \<^verbatim>\<open>ipa_nat_drvi.c\<close>.  \<^verbatim>\<open>map_pairs\<close> is initialised statically and never written: a constant.
  Callbacks return status and state; \<open>None\<close> is an undefined access, or fuel that ran out.
\<close>

section \<open>States, triggers and the nati object\<close>

datatype ipa_nati_state =
    NATI_STATE_NULL | NATI_STATE_DDR_ONLY | NATI_STATE_SRAM_ONLY | NATI_STATE_HYBRID | NATI_STATE_HYBRID_DDR
  | NATI_STATE_LAST

datatype ipa_nati_trigger =
    NATI_TRIG_NULL | NATI_TRIG_ADD_TABLE | NATI_TRIG_DEL_TABLE | NATI_TRIG_CLR_TABLE | NATI_TRIG_WLK_TABLE
  | NATI_TRIG_TBL_STATS | NATI_TRIG_ADD_RULE | NATI_TRIG_DEL_RULE | NATI_TRIG_TBL_SWITCH | NATI_TRIG_GOTO_DDR
  | NATI_TRIG_GOTO_SRAM | NATI_TRIG_GET_TSTAMP | NATI_TRIG_LAST

text \<open>The subscripts \<^verbatim>\<open>DDR_SUB\<close> and \<^verbatim>\<open>SRAM_SUB\<close> of the arrays of two.\<close>

datatype mem_sub = DDR_SUB | SRAM_SUB

record nati_switch_stats =
  sw_pass :: u32
  sw_fail :: u32

record nati_map_pair =
  orig2new_map :: ipa_which_map
  new2orig_map :: ipa_which_map

record ipa_nati_obj =
  prev_state :: ipa_nati_state
  curr_state :: ipa_nati_state
  hold_state :: bool
  state_to_hold :: ipa_nati_state
  ddr_tbl_hdl :: u32
  sram_tbl_hdl :: u32
  tot_slots_in_sram :: u32
  back_to_sram_thresh :: u32
  tot_rules_in_table :: "mem_sub \<Rightarrow> u32"
  sw_stats :: "mem_sub \<Rightarrow> nati_switch_stats"

definition map_pairs :: "mem_sub \<Rightarrow> nati_map_pair" where
  "map_pairs sub = (case sub of
      DDR_SUB \<Rightarrow> \<lparr>orig2new_map = MAP_NUM_00, new2orig_map = MAP_NUM_01\<rparr>
    | SRAM_SUB \<Rightarrow> \<lparr>orig2new_map = MAP_NUM_02, new2orig_map = MAP_NUM_03\<rparr>)"

definition nati_obj_init :: ipa_nati_obj where
  "nati_obj_init = \<lparr>prev_state = NATI_STATE_NULL, curr_state = NATI_STATE_NULL, hold_state = False,
     state_to_hold = NATI_STATE_NULL, ddr_tbl_hdl = 0, sram_tbl_hdl = 0, tot_slots_in_sram = 0, back_to_sram_thresh = 0,
     tot_rules_in_table = (\<lambda>_. 0), sw_stats = (\<lambda>_. \<lparr>sw_pass = 0, sw_fail = 0\<rparr>)\<rparr>"

record sm_ctl = ipa_nati_obj +
  map_array :: nat_maps
  nat_mutex_init :: bool
  io_tbl_hdl :: u32
  io_clnt_rule :: ipa_nat_ipv4_rule
  io_rule_hdl :: u32
  io_time_stamp :: u32
  io_stats :: "ipa_nati_tbl_stats \<times> ipa_nati_tbl_stats"

type_synonym 'w sm_state = "sm_ctl \<times> 'w nat_state"

record 'w sm_env = "'w nat_env" +
  env_mutexattr_init :: "'w \<Rightarrow> int \<times> 'w"
  env_mutexattr_settype :: "'w \<Rightarrow> int \<times> 'w"
  env_mutex_init :: "'w \<Rightarrow> int \<times> 'w"

text \<open>The \<^verbatim>\<open>args\<close> arrays of the callers; pointers to cells of the caller are the \<open>io_\<close>\<dots> fields.\<close>

datatype 'w sm_args =
    NoArgs
  | AddTblArgs u32 nat "string option"
  | TblArgs u32
  | WalkArgs u32 WhichTbl2Use "(ipa_nat_rule, 'w sm_state) ipa_table_walk_cb"
      "(ipa_nat_indx_tbl_rule, 'w sm_state) ipa_table_walk_cb"
  | RuleArgs u32 u32

section \<open>Macros\<close>

definition CHOOSE_MEM_SUB :: "sm_ctl \<Rightarrow> mem_sub" where
  "CHOOSE_MEM_SUB c = (if curr_state c = NATI_STATE_HYBRID then SRAM_SUB else DDR_SUB)"

definition CHOOSE_MAPS :: "sm_ctl \<Rightarrow> nati_map_pair" where
  "CHOOSE_MAPS c = map_pairs (CHOOSE_MEM_SUB c)"

text \<open>\<^verbatim>\<open>PRCNT_OF(v)\<close> is \<^verbatim>\<open>(.25) * (v)\<close>, truncated by the conversion to \<^verbatim>\<open>uint32_t\<close>.\<close>

definition PRCNT_OF :: "u32 \<Rightarrow> u32" where
  "PRCNT_OF v = v div 4"

definition BACK2_UNSTARTED_STATE :: "sm_ctl \<Rightarrow> sm_ctl" where
  "BACK2_UNSTARTED_STATE c = c\<lparr>prev_state := NATI_STATE_NULL, curr_state := NATI_STATE_NULL\<rparr>"

definition IN_UNSTARTED_STATE :: "sm_ctl \<Rightarrow> bool" where
  "IN_UNSTARTED_STATE c = (prev_state c = NATI_STATE_NULL)"

definition IN_HYBRID_STATE :: "sm_ctl \<Rightarrow> bool" where
  "IN_HYBRID_STATE c = (curr_state c = NATI_STATE_HYBRID \<or> curr_state c = NATI_STATE_HYBRID_DDR)"

definition COMPATIBLE_NMI_4SWITCH :: "ipa3_nat_mem_in \<Rightarrow> sm_ctl \<Rightarrow> bool" where
  "COMPATIBLE_NMI_4SWITCH n c =
     (n = IPA_NAT_MEM_IN_SRAM \<and> curr_state c = NATI_STATE_HYBRID_DDR \<or>
      n = IPA_NAT_MEM_IN_DDR \<and> curr_state c = NATI_STATE_HYBRID \<or>
      n = IPA_NAT_MEM_IN_DDR \<and> curr_state c = NATI_STATE_DDR_ONLY \<or>
      n = IPA_NAT_MEM_IN_SRAM \<and> curr_state c = NATI_STATE_SRAM_ONLY)"

definition GEN_HOLD_STATE :: "sm_ctl \<Rightarrow> ipa_nati_state" where
  "GEN_HOLD_STATE c = (if \<not> IN_HYBRID_STATE c then curr_state c
     else if curr_state c = NATI_STATE_HYBRID then NATI_STATE_SRAM_ONLY else NATI_STATE_DDR_ONLY)"

definition SRAM_CURRENTLY_ACTIVE :: "sm_ctl \<Rightarrow> bool" where
  "SRAM_CURRENTLY_ACTIVE c = (curr_state c = NATI_STATE_SRAM_ONLY \<or> curr_state c = NATI_STATE_HYBRID)"

definition SRAM_TO_BE_ACCESSED :: "ipa_nati_trigger \<Rightarrow> sm_ctl \<Rightarrow> bool" where
  "SRAM_TO_BE_ACCESSED t c = (SRAM_CURRENTLY_ACTIVE c \<or> t = NATI_TRIG_GOTO_SRAM \<or> t = NATI_TRIG_TBL_SWITCH)"

definition VOTE_REQUIRED :: "ipa_nati_trigger \<Rightarrow> sm_ctl \<Rightarrow> bool" where
  "VOTE_REQUIRED t c = (SRAM_TO_BE_ACCESSED t c \<and> t \<noteq> NATI_TRIG_GET_TSTAMP \<and> t \<noteq> NATI_TRIG_ADD_TABLE)"

definition SET_NATIOBJ_STATE :: "ipa_nati_state \<Rightarrow> sm_ctl \<Rightarrow> sm_ctl" where
  "SET_NATIOBJ_STATE s c = c\<lparr>prev_state := curr_state c, curr_state := s\<rparr>"

text \<open>\<^verbatim>\<open>strcasecmp\<close> in the C locale.\<close>

definition tolower_char :: "char \<Rightarrow> char" where
  "tolower_char ch = (let n = of_char ch :: nat in if 65 \<le> n \<and> n \<le> 90 then char_of (n + 32) else ch)"

definition strcasesame :: "string \<Rightarrow> string \<Rightarrow> bool" where
  "strcasesame a b = (map tolower_char a = map tolower_char b)"

definition mem_type_str_to_ipa_nati_state :: "string option \<Rightarrow> ipa_nati_state" where
  "mem_type_str_to_ipa_nati_state str =
     (case str of
        Some s \<Rightarrow> if strcasesame s ''HYBRID'' then NATI_STATE_HYBRID
                  else if strcasesame s ''SRAM'' then NATI_STATE_SRAM_ONLY else NATI_STATE_DDR_ONLY
      | None \<Rightarrow> NATI_STATE_DDR_ONLY)"

section \<open>The mutex\<close>

definition mutex_init :: "('w, 'z) sm_env_scheme \<Rightarrow> 'w sm_state \<Rightarrow> int \<times> 'w sm_state" where
  "mutex_init env = (\<lambda>(c, st).
     let (ret, w) = env_mutexattr_init env (world st) in
     if ret \<noteq> 0 then (ret, c, st\<lparr>world := w\<rparr>)
     else let (ret, w) = env_mutexattr_settype env w in
     if ret \<noteq> 0 then (ret, c, st\<lparr>world := w\<rparr>)
     else let (ret, w) = env_mutex_init env w in
     if ret \<noteq> 0 then (ret, c, st\<lparr>world := w\<rparr>)
     else (ret, c\<lparr>nat_mutex_init := True\<rparr>, st\<lparr>world := w\<rparr>))"

definition take_mutex :: "('w, 'z) sm_env_scheme \<Rightarrow> 'w sm_state \<Rightarrow> int \<times> 'w sm_state" where
  "take_mutex env = (\<lambda>(c, st).
     let (ret, c, st) = (if nat_mutex_init c then (0, c, st) else mutex_init env (c, st)) in
     if ret \<noteq> 0 then (ret, c, st) else let (r, st) = nat_lock env st in (r, c, st))"

definition give_mutex :: "('w, 'z) sm_env_scheme \<Rightarrow> 'w sm_state \<Rightarrow> int \<times> 'w sm_state" where
  "give_mutex env = (\<lambda>(c, st).
     if nat_mutex_init c then let (r, st) = nat_unlock env st in (r, c, st) else (- 1, c, st))"

text \<open>\<^verbatim>\<open>ipa_nat_vote_clock\<close> of \<^verbatim>\<open>ipa_nat_drv.c\<close>; its range test is vacuous on the enumeration.\<close>

definition ipa_nat_vote_clock ::
  "('w, 'z) nat_env_scheme \<Rightarrow> ipa_app_clock_vote_type \<Rightarrow> 'w nat_state \<Rightarrow> int \<times> 'w nat_state" where
  "ipa_nat_vote_clock env vote_type st = ipa_nati_vote_clock env vote_type st"

section \<open>Moving a rule\<close>

definition IPA_NAT_INVALID_PROTO_FIELD_VALUE_IN_RULE :: u8 where
  "IPA_NAT_INVALID_PROTO_FIELD_VALUE_IN_RULE = 0xFF"

text \<open>The client rule \<^verbatim>\<open>migrate_rule\<close> makes of a record.\<close>

definition migrated_rule :: "ipa_nat_rule \<Rightarrow> ipa_nat_ipv4_rule" where
  "migrated_rule e =
     \<lparr>u_target_ip = target_ip e, u_private_ip = private_ip e, u_target_port = target_port e,
      u_private_port = private_port e, u_public_port = public_port e, u_protocol = protocol e,
      u_pdn_index = ucast (pdn_index e), u_redirect = of_bool (redirect e), u_enable = of_bool (enable e),
      u_time_stamp = ucast (time_stamp e), u_uc_activation_index = ucast (uc_activation_index e),
      u_s = s_bit e, u_ucp = ucp e, u_dst_only = dst_only e, u_src_only = src_only e\<rparr>"

definition count_rule :: "mem_sub \<Rightarrow> (u32 \<Rightarrow> u32) \<Rightarrow> sm_ctl \<Rightarrow> sm_ctl" where
  "count_rule sub f c = c\<lparr>tot_rules_in_table := (tot_rules_in_table c)(sub := f (tot_rules_in_table c sub))\<rparr>"

definition migrate_rule :: "('w, 'z) nat_env_scheme \<Rightarrow> u32 \<Rightarrow> (ipa_nat_rule, 'w sm_state) ipa_table_walk_cb" where
  "migrate_rule env dst_tbl_hdl t tbl_rule_hdl e record_index meta_ptr meta_index = (\<lambda>(c, st).
     let (src, dst) = (if tbl_nmi t = IPA_NAT_MEM_IN_SRAM then (SRAM_SUB, DDR_SUB) else (DDR_SUB, SRAM_SUB)) in
     if protocol e = IPA_NAT_INVALID_PROTO_FIELD_VALUE_IN_RULE then Some (0, c, st)
     else do {
       (ret, found) \<leftarrow> ipa_nat_map_find (new2orig_map (map_pairs src)) tbl_rule_hdl (map_array c);
       if ret \<noteq> 0 then Some (ret, c, st)
       else do {
         orig_rule_hdl \<leftarrow> found;
         (ret, new_rule_hdl, st) \<leftarrow> ipa_NATI_add_ipv4_rule env dst_tbl_hdl (Some (migrated_rule e)) True st;
         if ret \<noteq> 0 then Some (ret, c, st)
         else do {
           let c = count_rule dst (\<lambda>n. n + 1) c;
           (ret, ms) \<leftarrow> ipa_nat_map_add (orig2new_map (map_pairs dst)) orig_rule_hdl new_rule_hdl (map_array c);
           let c = c\<lparr>map_array := ms\<rparr>;
           if ret \<noteq> 0 then Some (ret, c, st)
           else do {
             (ret, ms) \<leftarrow> ipa_nat_map_add (new2orig_map (map_pairs dst)) new_rule_hdl orig_rule_hdl (map_array c);
             Some (ret, c\<lparr>map_array := ms\<rparr>, st) } } } })"

section \<open>Callbacks\<close>

type_synonym 'w sm_run = "ipa_nati_trigger \<Rightarrow> 'w sm_args \<Rightarrow> 'w sm_state \<Rightarrow> (int \<times> 'w sm_state) option"

text \<open>Both maps of a memory type are cleared.\<close>

definition clear_maps :: "mem_sub \<Rightarrow> sm_ctl \<Rightarrow> sm_ctl option" where
  "clear_maps sub c =
     do { (_, ms) \<leftarrow> ipa_nat_map_clear (orig2new_map (map_pairs sub)) (map_array c);
          (_, ms) \<leftarrow> ipa_nat_map_clear (new2orig_map (map_pairs sub)) ms;
          Some (c\<lparr>map_array := ms\<rparr>) }"

text \<open>The handle a hybrid callback passes on.\<close>

definition hybrid_hdl :: "u32 \<Rightarrow> sm_ctl \<Rightarrow> u32" where
  "hybrid_hdl tbl_hdl c = (if curr_state c = NATI_STATE_HYBRID then tbl_hdl else ddr_tbl_hdl c)"

definition smUndef :: "'w sm_state \<Rightarrow> (int \<times> 'w sm_state) option" where
  "smUndef = (\<lambda>(c, st). Some (- 1, c, st))"

definition smDelTbl :: "('w, 'z) sm_env_scheme \<Rightarrow> 'w sm_args \<Rightarrow> 'w sm_state \<Rightarrow> (int \<times> 'w sm_state) option" where
  "smDelTbl env args = (\<lambda>(c, st).
     case args of
       TblArgs tbl_hdl \<Rightarrow> do {
         (ret, st) \<leftarrow> ipa_NATI_del_ipv4_table env tbl_hdl st;
         Some (ret, if ret = 0 \<and> \<not> IN_HYBRID_STATE c then BACK2_UNSTARTED_STATE c else c, st) }
     | _ \<Rightarrow> None)"

definition smFirstTbl :: "'w sm_run \<Rightarrow> 'w sm_args \<Rightarrow> 'w sm_state \<Rightarrow> (int \<times> 'w sm_state) option" where
  "smFirstTbl statemach args = (\<lambda>(c, st).
     case args of
       AddTblArgs public_ip_addr number_of_entries mem_type_ptr \<Rightarrow>
         statemach NATI_TRIG_ADD_TABLE args
           (SET_NATIOBJ_STATE
              (if hold_state c \<and> state_to_hold c \<noteq> NATI_STATE_NULL then state_to_hold c
               else mem_type_str_to_ipa_nati_state mem_type_ptr) c, st)
     | _ \<Rightarrow> None)"

definition smAddDdrTbl :: "('w, 'z) sm_env_scheme \<Rightarrow> 'w sm_args \<Rightarrow> 'w sm_state \<Rightarrow> (int \<times> 'w sm_state) option" where
  "smAddDdrTbl env args = (\<lambda>(c, st).
     case args of
       AddTblArgs public_ip_addr number_of_entries mem_type_ptr \<Rightarrow> do {
         (ret, hdl, st) \<leftarrow> ipa_NATI_add_ipv4_tbl env IPA_NAT_MEM_IN_DDR public_ip_addr number_of_entries st;
         let c = c\<lparr>ddr_tbl_hdl := hdl\<rparr>;
         Some (ret, if ret = 0 then c\<lparr>io_tbl_hdl := ddr_tbl_hdl c\<rparr> else c, st) }
     | _ \<Rightarrow> None)"

text \<open>\<^verbatim>\<open>ipa_calc_num_sram_table_entries\<close> is passed the address of the \<^verbatim>\<open>uint32_t\<close> field as a \<^verbatim>\<open>uint16_t*\<close>: it writes
  the lower half.  The count is passed on as a \<^verbatim>\<open>uint16_t\<close>.\<close>

definition smAddSramTbl :: "('w, 'z) sm_env_scheme \<Rightarrow> 'w sm_args \<Rightarrow> 'w sm_state \<Rightarrow> (int \<times> 'w sm_state) option" where
  "smAddSramTbl env args = (\<lambda>(c, st).
     case args of
       AddTblArgs public_ip_addr number_of_entries mem_type_ptr \<Rightarrow>
         let (ret, size, st) = ipa_nati_get_sram_size env st in
         if ret \<noteq> 0 then Some (ret, c, st)
         else do {
           sram_size \<leftarrow> size;
           (ret, n) \<leftarrow> ipa_calc_num_sram_table_entries (unat sram_size) 32 4;
           let c = c\<lparr>tot_slots_in_sram := (tot_slots_in_sram c AND 0xFFFF0000) OR of_nat n\<rparr>;
           if ret \<noteq> 0 then Some (ret, c, st)
           else
             let c = c\<lparr>back_to_sram_thresh := PRCNT_OF (tot_slots_in_sram c)\<rparr>;
                 (ret, st) = ipa_nat_vote_clock env IPA_APP_CLK_VOTE st
             in if ret \<noteq> 0 then Some (ret, c, st)
             else do {
               (ret, hdl, st) \<leftarrow> ipa_NATI_add_ipv4_tbl env IPA_NAT_MEM_IN_SRAM public_ip_addr
                                   (unat (tot_slots_in_sram c) mod 65536) st;
               let c = c\<lparr>sram_tbl_hdl := hdl\<rparr>;
               let (_, st) = ipa_nat_vote_clock env IPA_APP_CLK_DEVOTE st;
               Some (ret, if ret = 0 then c\<lparr>io_tbl_hdl := sram_tbl_hdl c\<rparr> else c, st) } }
     | _ \<Rightarrow> None)"

text \<open>The second table's handle goes to a local variable, so the caller's cell is restored.\<close>

definition smAddSramAndDdrTbl ::
  "('w, 'z) sm_env_scheme \<Rightarrow> 'w sm_run \<Rightarrow> 'w sm_args \<Rightarrow> 'w sm_state \<Rightarrow> (int \<times> 'w sm_state) option" where
  "smAddSramAndDdrTbl env statemach args = (\<lambda>(c, st).
     case args of
       AddTblArgs public_ip_addr number_of_entries mem_type_ptr \<Rightarrow> do {
         let c = c\<lparr>tot_rules_in_table := (\<lambda>_. 0)\<rparr>;
         c \<leftarrow> clear_maps SRAM_SUB c;
         c \<leftarrow> clear_maps DDR_SUB c;
         (ret, c, st) \<leftarrow> smAddSramTbl env args (c, st);
         if ret = 0 then
           if unat (tot_slots_in_sram c) \<ge> number_of_entries
           then Some (ret, SET_NATIOBJ_STATE NATI_STATE_SRAM_ONLY c, st)
           else do {
             let app_hdl = io_tbl_hdl c;
             (ret, c, st) \<leftarrow> smAddDdrTbl env (AddTblArgs public_ip_addr number_of_entries None) (c, st);
             let c = c\<lparr>io_tbl_hdl := app_hdl\<rparr>;
             if ret = 0 then statemach NATI_TRIG_GOTO_SRAM NoArgs (c, st) else Some (ret, c, st) }
         else do {
           (ret, c, st) \<leftarrow> smAddDdrTbl env args (c, st);
           Some (ret, if ret = 0 then SET_NATIOBJ_STATE NATI_STATE_DDR_ONLY c else c, st) } }
     | _ \<Rightarrow> None)"

definition smDelSramAndDdrTbl ::
  "('w, 'z) sm_env_scheme \<Rightarrow> 'w sm_args \<Rightarrow> 'w sm_state \<Rightarrow> (int \<times> 'w sm_state) option" where
  "smDelSramAndDdrTbl env args = (\<lambda>(c, st).
     do {
       let c = c\<lparr>tot_rules_in_table := (\<lambda>_. 0)\<rparr>;
       c \<leftarrow> clear_maps SRAM_SUB c;
       c \<leftarrow> clear_maps DDR_SUB c;
       (ret, c, st) \<leftarrow> smDelTbl env args (c, st);
       (ret, c, st) \<leftarrow> (if ret = 0 then smDelTbl env (TblArgs (ddr_tbl_hdl c)) (c, st) else Some (ret, c, st));
       Some (ret, if ret = 0 then BACK2_UNSTARTED_STATE c else c, st) })"

definition smClrTbl :: "('w, 'z) sm_env_scheme \<Rightarrow> 'w sm_args \<Rightarrow> 'w sm_state \<Rightarrow> (int \<times> 'w sm_state) option" where
  "smClrTbl env args = (\<lambda>(c, st).
     case args of
       TblArgs tbl_hdl \<Rightarrow>
         let nmi = fst (BREAK_TBL_HDL tbl_hdl) in
         if \<not> IPA_VALID_NAT_MEM_IN nmi then Some (- EINVAL, c, st)
         else do {
           let sub = (if nmi = IPA_NAT_MEM_IN_SRAM then SRAM_SUB else DDR_SUB);
           c \<leftarrow> clear_maps sub (count_rule sub (\<lambda>_. 0) c);
           (ret, st) \<leftarrow> ipa_NATI_clear_ipv4_tbl env tbl_hdl st;
           Some (ret, c, st) }
     | _ \<Rightarrow> None)"

definition smClrTblHybrid :: "('w, 'z) sm_env_scheme \<Rightarrow> 'w sm_args \<Rightarrow> 'w sm_state \<Rightarrow> (int \<times> 'w sm_state) option" where
  "smClrTblHybrid env args = (\<lambda>(c, st).
     case args of TblArgs tbl_hdl \<Rightarrow> smClrTbl env (TblArgs (hybrid_hdl tbl_hdl c)) (c, st) | _ \<Rightarrow> None)"

definition smWalkTbl :: "('w, 'z) sm_env_scheme \<Rightarrow> 'w sm_args \<Rightarrow> 'w sm_state \<Rightarrow> (int \<times> 'w sm_state) option" where
  "smWalkTbl env args = (\<lambda>(c, st).
     case args of
       WalkArgs tbl_hdl which nat_cb indx_cb \<Rightarrow> ipa_NATI_walk_ipv4_tbl env tbl_hdl which nat_cb indx_cb c st
     | _ \<Rightarrow> None)"

definition smWalkTblHybrid :: "('w, 'z) sm_env_scheme \<Rightarrow> 'w sm_args \<Rightarrow> 'w sm_state \<Rightarrow> (int \<times> 'w sm_state) option" where
  "smWalkTblHybrid env args = (\<lambda>(c, st).
     case args of
       WalkArgs tbl_hdl which nat_cb indx_cb \<Rightarrow>
         smWalkTbl env (WalkArgs (hybrid_hdl tbl_hdl c) which nat_cb indx_cb) (c, st)
     | _ \<Rightarrow> None)"

definition smStatTbl :: "('w, 'z) sm_env_scheme \<Rightarrow> 'w sm_args \<Rightarrow> 'w sm_state \<Rightarrow> (int \<times> 'w sm_state) option" where
  "smStatTbl env args = (\<lambda>(c, st).
     case args of
       TblArgs tbl_hdl \<Rightarrow> do {
         (ret, stats, st) \<leftarrow> ipa_NATI_ipv4_tbl_stats env tbl_hdl st;
         Some (ret, case stats of None \<Rightarrow> c | Some s \<Rightarrow> c\<lparr>io_stats := s\<rparr>, st) }
     | _ \<Rightarrow> None)"

definition smStatTblHybrid :: "('w, 'z) sm_env_scheme \<Rightarrow> 'w sm_args \<Rightarrow> 'w sm_state \<Rightarrow> (int \<times> 'w sm_state) option" where
  "smStatTblHybrid env args = (\<lambda>(c, st).
     case args of TblArgs tbl_hdl \<Rightarrow> smStatTbl env (TblArgs (hybrid_hdl tbl_hdl c)) (c, st) | _ \<Rightarrow> None)"

text \<open>\<^verbatim>\<open>*rule_hdl\<close> is written, with 0 first, unless the table handle is refused.\<close>

definition smAddRuleToTbl :: "('w, 'z) sm_env_scheme \<Rightarrow> 'w sm_args \<Rightarrow> 'w sm_state \<Rightarrow> (int \<times> 'w sm_state) option" where
  "smAddRuleToTbl env args = (\<lambda>(c, st).
     case args of
       TblArgs tbl_hdl \<Rightarrow> do {
         let c = c\<lparr>io_clnt_rule := (io_clnt_rule c)\<lparr>u_redirect := 0, u_enable := 0, u_time_stamp := 0\<rparr>\<rparr>;
         (ret, hdl, st) \<leftarrow> ipa_NATI_add_ipv4_rule env tbl_hdl (Some (io_clnt_rule c)) True st;
         let c = (if VALID_TBL_HDL tbl_hdl then c\<lparr>io_rule_hdl := hdl\<rparr> else c);
         Some (ret, if ret = 0 then count_rule (CHOOSE_MEM_SUB c) (\<lambda>n. n + 1) c else c, st) }
     | _ \<Rightarrow> None)"

definition smDelRuleFromTbl :: "('w, 'z) sm_env_scheme \<Rightarrow> 'w sm_args \<Rightarrow> 'w sm_state \<Rightarrow> (int \<times> 'w sm_state) option" where
  "smDelRuleFromTbl env args = (\<lambda>(c, st).
     case args of
       RuleArgs tbl_hdl rule_hdl \<Rightarrow> do {
         (ret, st) \<leftarrow> ipa_NATI_del_ipv4_rule env tbl_hdl rule_hdl st;
         Some (ret, if ret = 0 then count_rule (CHOOSE_MEM_SUB c) (\<lambda>n. n - 1) c else c, st) }
     | _ \<Rightarrow> None)"

definition smAddRuleHybrid ::
  "('w, 'z) sm_env_scheme \<Rightarrow> 'w sm_run \<Rightarrow> ipa_nati_trigger \<Rightarrow> 'w sm_args \<Rightarrow> 'w sm_state
    \<Rightarrow> (int \<times> 'w sm_state) option" where
  "smAddRuleHybrid env statemach trigger args = (\<lambda>(c, st).
     case args of
       TblArgs tbl_hdl \<Rightarrow> do {
         (ret, c, st) \<leftarrow> smAddRuleToTbl env (TblArgs (hybrid_hdl tbl_hdl c)) (c, st);
         if ret = 0 then do {
           let maps = CHOOSE_MAPS c;
           let rule_hdl = io_rule_hdl c;
           (ret, ms) \<leftarrow> ipa_nat_map_add (orig2new_map maps) rule_hdl rule_hdl (map_array c);
           let c = c\<lparr>map_array := ms\<rparr>;
           if ret = 0 then do {
             (ret, ms) \<leftarrow> ipa_nat_map_add (new2orig_map maps) rule_hdl rule_hdl (map_array c);
             Some (ret, c\<lparr>map_array := ms\<rparr>, st) }
           else Some (ret, c, st) }
         else if curr_state c = NATI_STATE_HYBRID \<and> \<not> hold_state c then do {
           (ret, c, st) \<leftarrow> statemach NATI_TRIG_TBL_SWITCH NoArgs (c, st);
           if ret = 0 then statemach trigger args (SET_NATIOBJ_STATE NATI_STATE_HYBRID_DDR c, st)
           else Some (ret, c, st) }
         else Some (ret, c, st) }
     | _ \<Rightarrow> None)"

definition smDelRuleHybrid ::
  "('w, 'z) sm_env_scheme \<Rightarrow> 'w sm_run \<Rightarrow> 'w sm_args \<Rightarrow> 'w sm_state \<Rightarrow> (int \<times> 'w sm_state) option" where
  "smDelRuleHybrid env statemach args = (\<lambda>(c, st).
     case args of
       RuleArgs tbl_hdl orig_rule_hdl \<Rightarrow> do {
         let maps = CHOOSE_MAPS c;
         (ret, new_hdl, ms) \<leftarrow> ipa_nat_map_del (orig2new_map maps) orig_rule_hdl (map_array c);
         let c = c\<lparr>map_array := ms\<rparr>;
         if ret \<noteq> 0 then Some (ret, c, st)
         else do {
           new_rule_hdl \<leftarrow> new_hdl;
           (_, _, ms) \<leftarrow> ipa_nat_map_del (new2orig_map maps) new_rule_hdl (map_array c);
           let c = c\<lparr>map_array := ms\<rparr>;
           (ret, c, st) \<leftarrow> smDelRuleFromTbl env (RuleArgs (hybrid_hdl tbl_hdl c) new_rule_hdl) (c, st);
           if ret = 0 \<and> curr_state c = NATI_STATE_HYBRID_DDR \<and>
              tot_rules_in_table c (CHOOSE_MEM_SUB c) \<le> back_to_sram_thresh c \<and> \<not> hold_state c
           then do {
             (ret, c, st) \<leftarrow> statemach NATI_TRIG_TBL_SWITCH NoArgs (c, st);
             Some (0, if ret = 0 then SET_NATIOBJ_STATE NATI_STATE_HYBRID c else c, st) }
           else Some (ret, c, st) } }
     | _ \<Rightarrow> None)"

definition smGoToDdr :: "('w, 'z) sm_env_scheme \<Rightarrow> 'w sm_state \<Rightarrow> (int \<times> 'w sm_state) option" where
  "smGoToDdr env = (\<lambda>(c, st). do {
     (ret, st) \<leftarrow> ipa_NATI_post_ipv4_init_cmd env (ddr_tbl_hdl c) st;
     Some (ret, if ret = 0 then SET_NATIOBJ_STATE NATI_STATE_HYBRID_DDR c else c, st) })"

definition smGoToSram :: "('w, 'z) sm_env_scheme \<Rightarrow> 'w sm_state \<Rightarrow> (int \<times> 'w sm_state) option" where
  "smGoToSram env = (\<lambda>(c, st). do {
     (ret, st) \<leftarrow> ipa_NATI_post_ipv4_init_cmd env (sram_tbl_hdl c) st;
     Some (ret, if ret = 0 then SET_NATIOBJ_STATE NATI_STATE_HYBRID c else c, st) })"

text \<open>The statistics of the two switches go to local variables and are only printed; the pointers to the
  switch counters are computed at the entry.\<close>

definition count_switch :: "mem_sub \<Rightarrow> bool \<Rightarrow> sm_ctl \<Rightarrow> sm_ctl" where
  "count_switch sub ok c =
     (let s = sw_stats c sub in
      c\<lparr>sw_stats := (sw_stats c)(sub := if ok then s\<lparr>sw_pass := sw_pass s + 1\<rparr> else s\<lparr>sw_fail := sw_fail s + 1\<rparr>)\<rparr>)"

definition collect_stats :: "('w, 'z) sm_env_scheme \<Rightarrow> 'w sm_args \<Rightarrow> u32 \<Rightarrow> 'w nat_state \<Rightarrow> 'w nat_state option" where
  "collect_stats env args tbl_hdl st =
     (case args of NoArgs \<Rightarrow> Some st
      | _ \<Rightarrow> do { (_, _, st) \<leftarrow> ipa_NATI_ipv4_tbl_stats env tbl_hdl st; Some st })"

definition smSwitchFromDdrToSram ::
  "('w, 'z) sm_env_scheme \<Rightarrow> 'w sm_run \<Rightarrow> 'w sm_args \<Rightarrow> 'w sm_state \<Rightarrow> (int \<times> 'w sm_state) option" where
  "smSwitchFromDdrToSram env statemach args = (\<lambda>(c, st).
     let sub = CHOOSE_MEM_SUB c in
     do {
       st \<leftarrow> collect_stats env args (ddr_tbl_hdl c) st;
       (ret, c, st) \<leftarrow> statemach NATI_TRIG_GOTO_SRAM NoArgs (c, st);
       if ret = 0 then do {
         c \<leftarrow> clear_maps SRAM_SUB (count_rule SRAM_SUB (\<lambda>_. 0) c);
         (ret, c, st) \<leftarrow> ipa_nati_copy_ipv4_tbl env (ddr_tbl_hdl c) (sram_tbl_hdl c) (Some (migrate_rule env)) c st;
         Some (ret, count_switch sub (ret = 0) c, st) }
       else Some (ret, c, st) })"

definition smSwitchFromSramToDdr ::
  "('w, 'z) sm_env_scheme \<Rightarrow> 'w sm_run \<Rightarrow> 'w sm_args \<Rightarrow> 'w sm_state \<Rightarrow> (int \<times> 'w sm_state) option" where
  "smSwitchFromSramToDdr env statemach args = (\<lambda>(c, st).
     let sub = CHOOSE_MEM_SUB c in
     do {
       st \<leftarrow> collect_stats env args (sram_tbl_hdl c) st;
       (ret, c, st) \<leftarrow> statemach NATI_TRIG_GOTO_DDR NoArgs (c, st);
       if ret = 0 then do {
         c \<leftarrow> clear_maps DDR_SUB (count_rule DDR_SUB (\<lambda>_. 0) c);
         (ret, c, st) \<leftarrow> ipa_nati_copy_ipv4_tbl env (sram_tbl_hdl c) (ddr_tbl_hdl c) (Some (migrate_rule env)) c st;
         Some (ret, count_switch sub (ret = 0) c, st) }
       else Some (ret, c, st) })"

definition smGetTmStmp :: "('w, 'z) sm_env_scheme \<Rightarrow> 'w sm_args \<Rightarrow> 'w sm_state \<Rightarrow> (int \<times> 'w sm_state) option" where
  "smGetTmStmp env args = (\<lambda>(c, st).
     case args of
       RuleArgs tbl_hdl rule_hdl \<Rightarrow> do {
         (ret, ts, st) \<leftarrow> ipa_NATI_query_timestamp env tbl_hdl rule_hdl st;
         Some (ret, case ts of None \<Rightarrow> c | Some v \<Rightarrow> c\<lparr>io_time_stamp := v\<rparr>, st) }
     | _ \<Rightarrow> None)"

definition smGetTmStmpHybrid :: "('w, 'z) sm_env_scheme \<Rightarrow> 'w sm_args \<Rightarrow> 'w sm_state \<Rightarrow> (int \<times> 'w sm_state) option" where
  "smGetTmStmpHybrid env args = (\<lambda>(c, st).
     case args of
       RuleArgs tbl_hdl orig_rule_hdl \<Rightarrow> do {
         (ret, new_hdl) \<leftarrow> ipa_nat_map_find (orig2new_map (CHOOSE_MAPS c)) orig_rule_hdl (map_array c);
         if ret \<noteq> 0 then Some (ret, c, st)
         else do {
           new_rule_hdl \<leftarrow> new_hdl;
           smGetTmStmp env (RuleArgs (hybrid_hdl tbl_hdl c) new_rule_hdl) (c, st) } }
     | _ \<Rightarrow> None)"

section \<open>The table of the state machine\<close>

datatype nati_statemach_cb =
    Undef | FirstTbl | AddDdrTbl | AddSramTbl | AddSramAndDdrTbl | DelTbl | DelSramAndDdrTbl | ClrTbl | ClrTblHybrid
  | WalkTbl | WalkTblHybrid | StatTbl | StatTblHybrid | AddRuleToTbl | AddRuleHybrid | DelRuleFromTbl | DelRuleHybrid
  | SwitchFromSramToDdr | SwitchFromDdrToSram | GoToDdr | GoToSram | GetTmStmp | GetTmStmpHybrid

fun state_mach_tbl :: "ipa_nati_state \<Rightarrow> ipa_nati_trigger \<Rightarrow> nati_statemach_cb" where
  "state_mach_tbl NATI_STATE_NULL NATI_TRIG_ADD_TABLE = FirstTbl"
| "state_mach_tbl NATI_STATE_DDR_ONLY NATI_TRIG_ADD_TABLE = AddDdrTbl"
| "state_mach_tbl NATI_STATE_DDR_ONLY NATI_TRIG_DEL_TABLE = DelTbl"
| "state_mach_tbl NATI_STATE_DDR_ONLY NATI_TRIG_CLR_TABLE = ClrTbl"
| "state_mach_tbl NATI_STATE_DDR_ONLY NATI_TRIG_WLK_TABLE = WalkTbl"
| "state_mach_tbl NATI_STATE_DDR_ONLY NATI_TRIG_TBL_STATS = StatTbl"
| "state_mach_tbl NATI_STATE_DDR_ONLY NATI_TRIG_ADD_RULE = AddRuleToTbl"
| "state_mach_tbl NATI_STATE_DDR_ONLY NATI_TRIG_DEL_RULE = DelRuleFromTbl"
| "state_mach_tbl NATI_STATE_DDR_ONLY NATI_TRIG_GET_TSTAMP = GetTmStmp"
| "state_mach_tbl NATI_STATE_SRAM_ONLY NATI_TRIG_ADD_TABLE = AddSramTbl"
| "state_mach_tbl NATI_STATE_SRAM_ONLY NATI_TRIG_DEL_TABLE = DelTbl"
| "state_mach_tbl NATI_STATE_SRAM_ONLY NATI_TRIG_CLR_TABLE = ClrTbl"
| "state_mach_tbl NATI_STATE_SRAM_ONLY NATI_TRIG_WLK_TABLE = WalkTbl"
| "state_mach_tbl NATI_STATE_SRAM_ONLY NATI_TRIG_TBL_STATS = StatTbl"
| "state_mach_tbl NATI_STATE_SRAM_ONLY NATI_TRIG_ADD_RULE = AddRuleToTbl"
| "state_mach_tbl NATI_STATE_SRAM_ONLY NATI_TRIG_DEL_RULE = DelRuleFromTbl"
| "state_mach_tbl NATI_STATE_SRAM_ONLY NATI_TRIG_GET_TSTAMP = GetTmStmp"
| "state_mach_tbl NATI_STATE_HYBRID NATI_TRIG_ADD_TABLE = AddSramAndDdrTbl"
| "state_mach_tbl NATI_STATE_HYBRID NATI_TRIG_DEL_TABLE = DelSramAndDdrTbl"
| "state_mach_tbl NATI_STATE_HYBRID NATI_TRIG_CLR_TABLE = ClrTblHybrid"
| "state_mach_tbl NATI_STATE_HYBRID NATI_TRIG_WLK_TABLE = WalkTblHybrid"
| "state_mach_tbl NATI_STATE_HYBRID NATI_TRIG_TBL_STATS = StatTblHybrid"
| "state_mach_tbl NATI_STATE_HYBRID NATI_TRIG_ADD_RULE = AddRuleHybrid"
| "state_mach_tbl NATI_STATE_HYBRID NATI_TRIG_DEL_RULE = DelRuleHybrid"
| "state_mach_tbl NATI_STATE_HYBRID NATI_TRIG_TBL_SWITCH = SwitchFromSramToDdr"
| "state_mach_tbl NATI_STATE_HYBRID NATI_TRIG_GOTO_DDR = GoToDdr"
| "state_mach_tbl NATI_STATE_HYBRID NATI_TRIG_GOTO_SRAM = GoToSram"
| "state_mach_tbl NATI_STATE_HYBRID NATI_TRIG_GET_TSTAMP = GetTmStmpHybrid"
| "state_mach_tbl NATI_STATE_HYBRID_DDR NATI_TRIG_DEL_TABLE = DelSramAndDdrTbl"
| "state_mach_tbl NATI_STATE_HYBRID_DDR NATI_TRIG_CLR_TABLE = ClrTblHybrid"
| "state_mach_tbl NATI_STATE_HYBRID_DDR NATI_TRIG_WLK_TABLE = WalkTblHybrid"
| "state_mach_tbl NATI_STATE_HYBRID_DDR NATI_TRIG_TBL_STATS = StatTblHybrid"
| "state_mach_tbl NATI_STATE_HYBRID_DDR NATI_TRIG_ADD_RULE = AddRuleHybrid"
| "state_mach_tbl NATI_STATE_HYBRID_DDR NATI_TRIG_DEL_RULE = DelRuleHybrid"
| "state_mach_tbl NATI_STATE_HYBRID_DDR NATI_TRIG_TBL_SWITCH = SwitchFromDdrToSram"
| "state_mach_tbl NATI_STATE_HYBRID_DDR NATI_TRIG_GOTO_DDR = GoToDdr"
| "state_mach_tbl NATI_STATE_HYBRID_DDR NATI_TRIG_GOTO_SRAM = GoToSram"
| "state_mach_tbl NATI_STATE_HYBRID_DDR NATI_TRIG_GET_TSTAMP = GetTmStmpHybrid"
| "state_mach_tbl _ _ = Undef"

text \<open>The call of a callback; \<open>statemach\<close> is what its nested triggers run.\<close>

definition sm_cb ::
  "('w, 'z) sm_env_scheme \<Rightarrow> 'w sm_run \<Rightarrow> nati_statemach_cb \<Rightarrow> 'w sm_run" where
  "sm_cb env statemach cb trigger args s =
     (case cb of
        Undef \<Rightarrow> smUndef s
      | FirstTbl \<Rightarrow> smFirstTbl statemach args s
      | AddDdrTbl \<Rightarrow> smAddDdrTbl env args s
      | AddSramTbl \<Rightarrow> smAddSramTbl env args s
      | AddSramAndDdrTbl \<Rightarrow> smAddSramAndDdrTbl env statemach args s
      | DelTbl \<Rightarrow> smDelTbl env args s
      | DelSramAndDdrTbl \<Rightarrow> smDelSramAndDdrTbl env args s
      | ClrTbl \<Rightarrow> smClrTbl env args s
      | ClrTblHybrid \<Rightarrow> smClrTblHybrid env args s
      | WalkTbl \<Rightarrow> smWalkTbl env args s
      | WalkTblHybrid \<Rightarrow> smWalkTblHybrid env args s
      | StatTbl \<Rightarrow> smStatTbl env args s
      | StatTblHybrid \<Rightarrow> smStatTblHybrid env args s
      | AddRuleToTbl \<Rightarrow> smAddRuleToTbl env args s
      | AddRuleHybrid \<Rightarrow> smAddRuleHybrid env statemach trigger args s
      | DelRuleFromTbl \<Rightarrow> smDelRuleFromTbl env args s
      | DelRuleHybrid \<Rightarrow> smDelRuleHybrid env statemach args s
      | SwitchFromSramToDdr \<Rightarrow> smSwitchFromSramToDdr env statemach args s
      | SwitchFromDdrToSram \<Rightarrow> smSwitchFromDdrToSram env statemach args s
      | GoToDdr \<Rightarrow> smGoToDdr env s
      | GoToSram \<Rightarrow> smGoToSram env s
      | GetTmStmp \<Rightarrow> smGetTmStmp env args s
      | GetTmStmpHybrid \<Rightarrow> smGetTmStmpHybrid env args s)"

text \<open>The state machine calls itself through the callbacks: \<open>fuel\<close> bounds the depth.  The status of the
  callback is overwritten by that of \<^verbatim>\<open>give_mutex\<close> at the label \<^verbatim>\<open>unlock\<close>.\<close>

fun statemach_fuel :: "('w, 'z) sm_env_scheme \<Rightarrow> nat \<Rightarrow> 'w sm_run" where
  "statemach_fuel env 0 trigger args s = None"
| "statemach_fuel env (Suc fuel) trigger args s =
     (let (ret, c, st) = take_mutex env s in
      if ret \<noteq> 0 then Some (ret, c, st)
      else
        let vote = VOTE_REQUIRED trigger c;
            (ret, st) = (if vote then ipa_nat_vote_clock env IPA_APP_CLK_VOTE st else (0, st))
        in if ret \<noteq> 0 then Some (give_mutex env (c, st))
        else do {
          (_, c, st) \<leftarrow> sm_cb env (statemach_fuel env fuel) (state_mach_tbl (curr_state c) trigger) trigger args (c, st);
          let (_, st) = (if vote then ipa_nat_vote_clock env IPA_APP_CLK_DEVOTE st else (0, st));
          Some (give_mutex env (c, st)) })"

declare statemach_fuel.simps [simp del]

definition ipa_nati_statemach :: "('w, 'z) sm_env_scheme \<Rightarrow> 'w sm_run" where
  "ipa_nati_statemach env = statemach_fuel env 3"

section \<open>The interface of the state machine\<close>

definition ipa_nati_add_ipv4_tbl ::
  "('w, 'z) sm_env_scheme \<Rightarrow> u32 \<Rightarrow> string option \<Rightarrow> nat \<Rightarrow> 'w sm_state \<Rightarrow> (int \<times> 'w sm_state) option" where
  "ipa_nati_add_ipv4_tbl env public_ip_addr mem_type_ptr number_of_entries s =
     ipa_nati_statemach env NATI_TRIG_ADD_TABLE (AddTblArgs public_ip_addr number_of_entries mem_type_ptr) s"

definition ipa_nati_del_ipv4_table :: "('w, 'z) sm_env_scheme \<Rightarrow> u32 \<Rightarrow> 'w sm_state \<Rightarrow> (int \<times> 'w sm_state) option" where
  "ipa_nati_del_ipv4_table env tbl_hdl s = ipa_nati_statemach env NATI_TRIG_DEL_TABLE (TblArgs tbl_hdl) s"

definition ipa_nati_clear_ipv4_tbl :: "('w, 'z) sm_env_scheme \<Rightarrow> u32 \<Rightarrow> 'w sm_state \<Rightarrow> (int \<times> 'w sm_state) option" where
  "ipa_nati_clear_ipv4_tbl env tbl_hdl s = ipa_nati_statemach env NATI_TRIG_CLR_TABLE (TblArgs tbl_hdl) s"

definition ipa_nati_walk_ipv4_tbl ::
  "('w, 'z) sm_env_scheme \<Rightarrow> u32 \<Rightarrow> WhichTbl2Use \<Rightarrow> (ipa_nat_rule, 'w sm_state) ipa_table_walk_cb
    \<Rightarrow> (ipa_nat_indx_tbl_rule, 'w sm_state) ipa_table_walk_cb \<Rightarrow> 'w sm_state \<Rightarrow> (int \<times> 'w sm_state) option" where
  "ipa_nati_walk_ipv4_tbl env tbl_hdl which nat_cb indx_cb s =
     ipa_nati_statemach env NATI_TRIG_WLK_TABLE (WalkArgs tbl_hdl which nat_cb indx_cb) s"

definition ipa_nati_ipv4_tbl_stats ::
  "('w, 'z) sm_env_scheme \<Rightarrow> u32 \<Rightarrow> 'w sm_state \<Rightarrow> (int \<times> 'w sm_state) option" where
  "ipa_nati_ipv4_tbl_stats env tbl_hdl s = ipa_nati_statemach env NATI_TRIG_TBL_STATS (TblArgs tbl_hdl) s"

text \<open>The client's rule is in \<open>io_clnt_rule\<close>, its handle is written to \<open>io_rule_hdl\<close>.\<close>

definition ipa_nati_add_ipv4_rule :: "('w, 'z) sm_env_scheme \<Rightarrow> u32 \<Rightarrow> 'w sm_state \<Rightarrow> (int \<times> 'w sm_state) option" where
  "ipa_nati_add_ipv4_rule env tbl_hdl s = ipa_nati_statemach env NATI_TRIG_ADD_RULE (TblArgs tbl_hdl) s"

definition ipa_nati_del_ipv4_rule :: "('w, 'z) sm_env_scheme \<Rightarrow> u32 \<Rightarrow> u32 \<Rightarrow> 'w sm_state \<Rightarrow> (int \<times> 'w sm_state) option" where
  "ipa_nati_del_ipv4_rule env tbl_hdl rule_hdl s = ipa_nati_statemach env NATI_TRIG_DEL_RULE (RuleArgs tbl_hdl rule_hdl) s"

definition ipa_nati_query_timestamp :: "('w, 'z) sm_env_scheme \<Rightarrow> u32 \<Rightarrow> u32 \<Rightarrow> 'w sm_state \<Rightarrow> (int \<times> 'w sm_state) option" where
  "ipa_nati_query_timestamp env tbl_hdl rule_hdl s =
     ipa_nati_statemach env NATI_TRIG_GET_TSTAMP (RuleArgs tbl_hdl rule_hdl) s"

text \<open>\<^verbatim>\<open>ipa_nat_switch_to\<close>; here too the label \<^verbatim>\<open>unlock\<close> overwrites the status.\<close>

definition switch_to_locked ::
  "('w, 'z) sm_env_scheme \<Rightarrow> ipa3_nat_mem_in \<Rightarrow> bool \<Rightarrow> 'w sm_state \<Rightarrow> (int \<times> 'w sm_state) option" where
  "switch_to_locked env nmi hold = (\<lambda>(c, st).
     if IN_UNSTARTED_STATE c then
       Some (0, c\<lparr>hold_state := hold,
                  state_to_hold := if nmi = IPA_NAT_MEM_IN_DDR then NATI_STATE_DDR_ONLY else NATI_STATE_SRAM_ONLY\<rparr>, st)
     else if IN_HYBRID_STATE c then do {
       (ret, c, st) \<leftarrow> (if COMPATIBLE_NMI_4SWITCH nmi c
                         then ipa_nati_statemach env NATI_TRIG_TBL_SWITCH NoArgs (c, st) else Some (0, c, st));
       Some (ret, if ret = 0
                  then let c = c\<lparr>hold_state := hold\<rparr> in if hold then c\<lparr>state_to_hold := GEN_HOLD_STATE c\<rparr> else c
                  else c, st) }
     else if hold then
       if COMPATIBLE_NMI_4SWITCH nmi c then Some (0, c\<lparr>state_to_hold := GEN_HOLD_STATE c, hold_state := hold\<rparr>, st)
       else Some (- 1, c, st)
     else Some (0, c\<lparr>state_to_hold := NATI_STATE_NULL, hold_state := hold\<rparr>, st))"

definition ipa_nat_switch_to ::
  "('w, 'z) sm_env_scheme \<Rightarrow> ipa3_nat_mem_in \<Rightarrow> bool \<Rightarrow> 'w sm_state \<Rightarrow> (int \<times> 'w sm_state) option" where
  "ipa_nat_switch_to env nmi hold s =
     (if \<not> IPA_VALID_NAT_MEM_IN nmi then Some (- 1, s)
      else let (ret, s) = take_mutex env s in
      if ret \<noteq> 0 then Some (ret, s)
      else do { (_, s) \<leftarrow> switch_to_locked env nmi hold s; Some (give_mutex env s) })"

definition ipa_nat_is_sram_supported :: "'w sm_state \<Rightarrow> bool" where
  "ipa_nat_is_sram_supported s = VALID_TBL_HDL (sram_tbl_hdl (fst s))"

end
