(* ===== verification/Nat_Store_Ok.thy ===== *)
theory Nat_Store_Ok
  imports Nat_Api_Ok Nat_Statemach
begin

text \<open>
  A cache of the driver layer as a store of rules: what the state machine relies on when it adds,
  deletes and moves rules.  A store is a map from rule handles to rules; the locale \<open>rule_store\<close> states
  the law of an addition, and \<open>copy_rules\<close>, the reference for the migration of a table, is verified in
  it once, for any store.
\<close>

section \<open>Rules by handle\<close>

definition hrules :: "ipa_nat_rule ipa_table \<Rightarrow> u32 \<Rightarrow> ipa_nat_rule option" where
  "hrules t h = (case ipa_table_get_entry t h of (ret, i) \<Rightarrow>
     if ret = 0 \<and> h = ucast (MakeEntryHdl t i) then rules_of t i else None)"

lemma rules_of_in_range:
  assumes "nat_tinv t ct" "rules_of t i \<noteq> None"
  shows "i < n_recs t"
  using assms(2) geom_len [OF inv_geom [OF assms(1)]] by (auto simp: rules_of_def live_def vdT_def split: if_splits)

lemma hrules_own:
  assumes "nat_tinv t ct" "i < n_recs t"
  shows "hrules t (ucast (MakeEntryHdl t i)) = rules_of t i"
  using get_entry_own_handle [OF inv_geom [OF assms(1)] assms(2)] by (simp add: hrules_def)

lemma hrules_SomeD:
  assumes "hrules t h = Some r"
  obtains i where "h = ucast (MakeEntryHdl t i)" "rules_of t i = Some r"
  using assms by (auto simp: hrules_def split: prod.splits if_splits)

lemma hrules_upd:
  assumes t: "nat_tinv t ct" "i < n_recs t" and sh: "same_shape t t'" and r: "rules_of t' = (rules_of t)(i := v)"
  shows "hrules t' = (hrules t)(ucast (MakeEntryHdl t i) := v)"
proof
  fix h
  obtain ret j where e: "ipa_table_get_entry t h = (ret, j)" by fastforce
  show "hrules t' h = ((hrules t)(ucast (MakeEntryHdl t i) := v)) h"
    using e r get_entry_own_handle [OF inv_geom [OF t(1)] t(2)]
    by (auto simp: hrules_def same_shape_get_entry [OF sh] same_shape_MakeEntryHdl [OF sh])
qed

lemma hrules_same: "same_shape t t' \<Longrightarrow> rules_of t' = rules_of t \<Longrightarrow> hrules t' = hrules t"
  by (auto simp: fun_eq_iff hrules_def same_shape_get_entry same_shape_MakeEntryHdl split: prod.splits)

lemma hrules_empty: "rules_of t = Map.empty \<Longrightarrow> hrules t = Map.empty"
  by (auto simp: fun_eq_iff hrules_def split: prod.splits)

section \<open>A cache as a store\<close>

definition store_ok :: "ipa3_nat_mem_in \<Rightarrow> 'w nat_state \<Rightarrow> bool" where
  "store_ok nmi st \<longleftrightarrow> (\<exists>ct cx. cache_ok (ipv4_nat_cache st nmi) ct cx) \<and> tbl_nmi (nat_table_of st nmi) = nmi \<and>
     length (st_pdns st) = IPA_MAX_PDN_NUM"

definition store_rules :: "ipa3_nat_mem_in \<Rightarrow> 'w nat_state \<Rightarrow> u32 \<Rightarrow> ipa_nat_rule option" where
  "store_rules nmi st = hrules (nat_table_of st nmi)"

lemma store_world [simp]:
  "store_ok nmi (st\<lparr>world := w\<rparr>) = store_ok nmi st" "store_rules nmi (st\<lparr>world := w\<rparr>) = store_rules nmi st"
  "store_ok nmi (st\<lparr>active_nat_cache := a\<rparr>) = store_ok nmi st"
  "store_rules nmi (st\<lparr>active_nat_cache := a\<rparr>) = store_rules nmi st"
  by (simp_all add: store_ok_def store_rules_def)

lemma store_nmi: "store_ok nmi st \<Longrightarrow> nmi \<noteq> IPA_NAT_MEM_IN_MAX"
proof
  assume "store_ok nmi st" "nmi = IPA_NAT_MEM_IN_MAX"
  then obtain ct cx where n: "nat_inv (nat_table_of st nmi) (index_table_of st nmi) ct cx"
      "tbl_nmi (nat_table_of st nmi) = IPA_NAT_MEM_IN_MAX"
    by (auto simp: store_ok_def cache_ok_def)
  show False using geom_nmi [OF inv_geom [OF nat_inv_t [OF n(1)]]] n(2) by simp
qed

lemma store_tinv:
  assumes "store_ok nmi st"
  obtains ct where "nat_tinv (nat_table_of st nmi) ct"
proof -
  obtain ct cx where "nat_inv (nat_table_of st nmi) (index_table_of st nmi) ct cx"
    using assms by (auto simp: store_ok_def cache_ok_def)
  then show thesis using that nat_inv_t by blast
qed

lemma store_other:
  assumes "same_but nmi st st'" "m \<noteq> nmi"
  shows "store_ok m st' = store_ok m st" "store_rules m st' = store_rules m st"
  using assms by (simp_all add: same_but_def store_ok_def store_rules_def)

lemma same_but_refl [simp]: "same_but nmi st st"
  by (simp add: same_but_def)

lemma same_but_trans: "same_but nmi s s' \<Longrightarrow> same_but nmi s' s'' \<Longrightarrow> same_but nmi s s''"
  by (simp add: same_but_def Let_def)

definition pdn_fits :: "ipa_nat_ipv4_rule \<Rightarrow> bool" where
  "pdn_fits u \<longleftrightarrow> unat (u_pdn_index u) < IPA_MAX_PDN_NUM"

definition store_env :: "('w, 'z) nat_env_scheme \<Rightarrow> bool" where
  "store_env env \<longleftrightarrow> mutex_ok env \<and> dma_device env"

abbreviation store_add ::
  "ipa3_nat_mem_in \<Rightarrow> ('w, 'z) nat_env_scheme \<Rightarrow> ipa_nat_ipv4_rule \<Rightarrow> 'w nat_state \<Rightarrow> (int \<times> u32 \<times> 'w nat_state) option" where
  "store_add nmi env u st \<equiv> ipa_NATI_add_ipv4_rule env (tbl_hdl nmi) (Some u) True st"

lemma add_rule_refused:
  assumes nmi: "nmi \<noteq> IPA_NAT_MEM_IN_MAX" and u: "unat (u_pdn_index u) < length (st_pdns st)"
    and bad: "u_protocol u = IPAHAL_NAT_INVALID_PROTOCOL \<or> pdn_public_ip (st_pdns st ! unat (u_pdn_index u)) = 0"
  shows "store_add nmi env u st = Some (- EINVAL, 0, st)"
  using tbl_hdl_facts [OF nmi] u bad by (auto simp: ipa_NATI_add_ipv4_rule_def)

lemma store_add_outcome:
  fixes env :: "('w, 'z) nat_env_scheme"
  assumes env: "store_env env" and ok: "store_ok nmi st" and u: "pdn_fits u"
  shows "\<exists>ret h st'. store_add nmi env u st = Some (ret, h, st') \<and> store_ok nmi st' \<and> same_but nmi st st' \<and>
     (if ret = 0 then store_rules nmi st h = None \<and>
        store_rules nmi st' = (store_rules nmi st)(h \<mapsto> stored_rule (st_pdns st) u)
      else h = 0 \<and> store_rules nmi st' = store_rules nmi st)"
proof -
  note nmi = store_nmi [OF ok]
  have mtx: "mutex_ok env" and dev: "dma_device env" using env by (simp_all add: store_env_def)
  obtain ct cx where c: "cache_ok (ipv4_nat_cache st nmi) ct cx" "tbl_nmi (nat_table_of st nmi) = nmi"
      "length (st_pdns st) = IPA_MAX_PDN_NUM" using ok by (auto simp: store_ok_def)
  have u1: "unat (u_pdn_index u) < length (st_pdns st)" using u c(3) by (simp add: pdn_fits_def)
  let ?t = "nat_table_of st nmi" and ?x = "index_table_of st nmi"
  obtain desc where d: "ipa_desc (ipv4_nat_cache st nmi) = Some desc" using c by (auto simp: cache_ok_def)
  have inv: "nat_inv ?t ?x ct cx" using c by (simp add: cache_ok_def)
  note it = nat_inv_t [OF inv]
  show ?thesis
  proof (cases "u_protocol u = IPAHAL_NAT_INVALID_PROTOCOL \<or> pdn_public_ip (st_pdns st ! unat (u_pdn_index u)) = 0")
    case True
    show ?thesis
      by (intro exI [of _ "- EINVAL"] exI [of _ 0] exI [of _ st])
         (use add_rule_refused [OF nmi u1 True] ok in simp)
  next
    case False
    then have u2: "u_protocol u \<noteq> IPAHAL_NAT_INVALID_PROTOCOL" "pdn_public_ip (st_pdns st ! unat (u_pdn_index u)) \<noteq> 0"
      by simp_all
    have pr: "pdn_in_range (st_pdns st) u" using u1 by (simp add: pdn_in_range_def)
    obtain h token1 where h: "nat_slot desc (st_pdns st) ?t u (Hash_token st) = (h, token1)" by fastforce
    obtain g token2 where g: "indx_slot ?t u token1 = (g, token2)" by fastforce
    obtain ret hdl t' x' tok w' where b: "add_ipv4_rule_body env (ipv4_nat_cache st nmi) (st_pdns st) u (Hash_token st) ?t ?x
          (snd (env_mutex_lock env (world st))) = Some (ret, hdl, t', x', tok, w')"
        "if ret = 0 then rule_added ?t ?x ct cx (unat h) (unat g) (stored_rule (st_pdns st) u) hdl t' x'
         else rolled_back ?t ?x ct cx t' x' \<and> hdl = 0"
      using add_body_outcome [OF inv dev d pr u2(1) h g, of "snd (env_mutex_lock env (world st))"] by metis
    note eq = add_rule_eq [OF nmi mtx c(1) u1 u2 b(1)]
    let ?st' = "(put_tables nmi t' x' st)\<lparr>Hash_token := tok, world := snd (env_mutex_unlock env w')\<rparr>"
    have sb: "same_but nmi st ?st'" by simp
    have ok': "store_ok nmi ?st'" if "nat_inv t' x' ct' cx'" "same_shape ?t t'" for ct' cx'
    proof -
      have "cache_ok (ipv4_nat_cache ?st' nmi) ct' cx'"
        by (rule cache_ok_same_but [OF sb c(1)]) (use that(1) in simp)
      moreover have "tbl_nmi t' = nmi" using c(2) that(2) by (simp add: same_shape_def)
      moreover have "length (st_pdns ?st') = IPA_MAX_PDN_NUM" using c(3) sb by (simp add: same_but_def)
      ultimately show ?thesis by (auto simp: store_ok_def)
    qed
    show ?thesis
    proof (cases "ret = 0")
      case True
      then obtain i k where a: "i < n_recs ?t" "\<not> vdT nat_ei ?t i" "hdl = ucast (MakeEntryHdl ?t i)"
          "nat_inv t' x' (grown nat_ei ?t ct (unat h) i) (grown indx_ei ?x cx (unat g) k)" "same_shape ?t t'"
          "rules_of t' = (rules_of ?t)(i \<mapsto> stored_rule (st_pdns st) u)"
        using b(2) unfolding rule_added_def by auto
      have "hrules ?t hdl = None" using hrules_own [OF it a(1)] a(2,3) by (simp add: rules_of_def live_def)
      then show ?thesis
        using eq True sb ok' [OF a(4,5)] hrules_upd [OF it a(1,5,6)] a(3) by (simp add: store_rules_def)
    next
      case False
      then have rb: "nat_inv t' x' ct cx" "same_shape ?t t'" "recs t' = recs ?t" "hdl = 0"
        using b(2) by (simp_all add: rolled_back_def)
      have "rules_of t' = rules_of ?t" using rb(3) by (simp add: fun_eq_iff rules_of_def live_def vdT_def)
      then show ?thesis
        using eq False sb ok' [OF rb(1,2)] hrules_same [OF rb(2)] by (simp add: store_rules_def)
    qed
  qed
qed

lemma store_del_outcome:
  fixes env :: "('w, 'z) nat_env_scheme"
  assumes mtx: "mutex_ok env" and dev: "dma_reliable env" and ok: "store_ok nmi st" and r: "store_rules nmi st h = Some r"
  shows "\<exists>st'. ipa_NATI_del_ipv4_rule env (tbl_hdl nmi) h st = Some (0, st') \<and> store_ok nmi st' \<and> same_but nmi st st' \<and>
     store_rules nmi st' = (store_rules nmi st)(h := None)"
proof -
  note nmi = store_nmi [OF ok]
  obtain ct cx where c: "cache_ok (ipv4_nat_cache st nmi) ct cx" "tbl_nmi (nat_table_of st nmi) = nmi"
      "length (st_pdns st) = IPA_MAX_PDN_NUM" using ok by (auto simp: store_ok_def)
  let ?t = "nat_table_of st nmi" and ?x = "index_table_of st nmi"
  obtain desc where d: "ipa_desc (ipv4_nat_cache st nmi) = Some desc" using c by (auto simp: cache_ok_def)
  have inv: "nat_inv ?t ?x ct cx" using c by (simp add: cache_ok_def)
  obtain i where i: "h = ucast (MakeEntryHdl ?t i)" "rules_of ?t i = Some r"
    using r by (auto simp: store_rules_def elim: hrules_SomeD)
  have l: "live ?t i" using i(2) by (simp add: rules_of_def split: if_splits)
  have n: "i < n_recs ?t" using rules_of_in_range [OF nat_inv_t [OF inv]] i(2) by blast
  obtain t' x' w' where b: "del_ipv4_rule_body env (ipv4_nat_cache st nmi) h ?t ?x
        (snd (env_mutex_lock env (world st))) = Some (0, t', x', w')" "rule_deleted ?t ct cx i t' x'"
    using del_body_success [OF inv dev d l] i(1) by blast
  let ?st' = "(put_tables nmi t' x' st)\<lparr>world := snd (env_mutex_unlock env w')\<rparr>"
  obtain m where dd: "nat_inv t' x' (without i ct) (without m cx)" "same_shape ?t t'" "rules_of t' = (rules_of ?t)(i := None)"
    using b(2) by (auto simp: rule_deleted_def)
  have sb: "same_but nmi st ?st'" by simp
  have "cache_ok (ipv4_nat_cache ?st' nmi) (without i ct) (without m cx)"
    by (rule cache_ok_same_but [OF sb c(1)]) (use dd(1) in simp)
  moreover have "tbl_nmi t' = nmi" "length (st_pdns ?st') = IPA_MAX_PDN_NUM"
    using c(2,3) dd(2) sb by (simp_all add: same_shape_def same_but_def)
  ultimately have "store_ok nmi ?st'" by (auto simp: store_ok_def)
  then show ?thesis
    using del_rule_eq [OF nmi mtx c(1) b(1)] sb hrules_upd [OF nat_inv_t [OF inv] n dd(2,3)] i(1)
    by (simp add: store_rules_def)
qed

lemma store_clear_outcome:
  assumes mtx: "mutex_ok env" and ok: "store_ok nmi st"
  shows "\<exists>st'. ipa_NATI_clear_ipv4_tbl env (tbl_hdl nmi) st = Some (0, st') \<and> store_ok nmi st' \<and> same_but nmi st st' \<and>
     store_rules nmi st' = Map.empty"
proof -
  obtain ct cx where c: "cache_ok (ipv4_nat_cache st nmi) ct cx" "tbl_nmi (nat_table_of st nmi) = nmi"
      "length (st_pdns st) = IPA_MAX_PDN_NUM" using ok by (auto simp: store_ok_def)
  obtain st' where "ipa_NATI_clear_ipv4_tbl env (tbl_hdl nmi) st = Some (0, st')" "same_but nmi st st'"
      "cache_ok (ipv4_nat_cache st' nmi) no_chains no_chains" "cache_rules (ipv4_nat_cache st' nmi) = Map.empty"
      "tbl_nmi (nat_table_of st' nmi) = tbl_nmi (nat_table_of st nmi)"
    using clear_tbl_outcome [OF c(1) mtx store_nmi [OF ok]] by blast
  then show ?thesis
    using c(2,3) by (auto simp: store_ok_def store_rules_def cache_rules_def hrules_empty same_but_def)
qed

section \<open>The reference of the migration\<close>

text \<open>A pair of handle maps is consistent with a store: the maps are inverse to each other, and every new
  handle names a rule.  A client sees the rule its original handle leads to.\<close>

definition maps_inv :: "(u32 \<rightharpoonup> u32) \<Rightarrow> (u32 \<rightharpoonup> u32) \<Rightarrow> (u32 \<Rightarrow> 'r option) \<Rightarrow> bool" where
  "maps_inv o2n n2o rs \<longleftrightarrow> (\<forall>og nw. o2n og = Some nw \<longleftrightarrow> n2o nw = Some og) \<and> dom n2o \<subseteq> dom rs"

definition handle_view :: "(u32 \<rightharpoonup> u32) \<Rightarrow> (u32 \<Rightarrow> 'r option) \<Rightarrow> u32 \<Rightarrow> 'r option" where
  "handle_view o2n rs og = Option.bind (o2n og) rs"

text \<open>Rules are added one by one, each under the original handle it had; the first failure ends it.  The
  counter, the two maps and the store are threaded.\<close>

fun copy_rules ::
  "('u \<Rightarrow> 's \<Rightarrow> (int \<times> u32 \<times> 's) option) \<Rightarrow> (u32 option \<times> 'u) list
    \<Rightarrow> (u32 \<times> (u32 \<rightharpoonup> u32) \<times> (u32 \<rightharpoonup> u32)) \<times> 's \<Rightarrow> (int \<times> (u32 \<times> (u32 \<rightharpoonup> u32) \<times> (u32 \<rightharpoonup> u32)) \<times> 's) option" where
  "copy_rules add [] ms = Some (0, ms)"
| "copy_rules add ((og, u) # xs) ((cnt, o2n, n2o), s) =
     (case og of
        None \<Rightarrow> Some (- 1, (cnt, o2n, n2o), s)
      | Some oh \<Rightarrow> do {
          (ret, h, s) \<leftarrow> add u s;
          if ret \<noteq> 0 then Some (ret, (cnt, o2n, n2o), s)
          else if o2n oh \<noteq> None then Some (- 1, (cnt + 1, o2n, n2o), s)
          else if n2o h \<noteq> None then Some (- 1, (cnt + 1, o2n(oh \<mapsto> h), n2o), s)
          else copy_rules add xs ((cnt + 1, o2n(oh \<mapsto> h), n2o(h \<mapsto> oh)), s) })"

lemma maps_inv_empty [simp]: "maps_inv Map.empty Map.empty rs"
  by (simp add: maps_inv_def)

lemma maps_inv_add:
  assumes m: "maps_inv o2n n2o rs" and h: "rs h = None" "o2n oh = None"
  shows "maps_inv (o2n(oh \<mapsto> h)) (n2o(h \<mapsto> oh)) (rs(h \<mapsto> r))" "n2o h = None"
    "handle_view (o2n(oh \<mapsto> h)) (rs(h \<mapsto> r)) = (handle_view o2n rs)(oh \<mapsto> r)"
proof -
  have inv: "o2n og = Some nw \<longleftrightarrow> n2o nw = Some og" for og nw using m by (simp add: maps_inv_def)
  have d: "n2o k \<noteq> None \<Longrightarrow> rs k \<noteq> None" for k using m by (auto simp: maps_inv_def dom_def)
  show n: "n2o h = None" using d h(1) by blast
  have no: "o2n og \<noteq> Some h" "n2o k \<noteq> Some oh" for og k using inv n h(2) by (metis option.distinct(1))+
  show "maps_inv (o2n(oh \<mapsto> h)) (n2o(h \<mapsto> oh)) (rs(h \<mapsto> r))"
    unfolding maps_inv_def using inv no d by (auto simp: dom_def)
  show "handle_view (o2n(oh \<mapsto> h)) (rs(h \<mapsto> r)) = (handle_view o2n rs)(oh \<mapsto> r)"
    using no(1) by (auto simp: fun_eq_iff handle_view_def split: Option.bind_splits)
qed

lemma maps_inv_del:
  assumes m: "maps_inv o2n n2o rs" and h: "o2n oh = Some h"
  shows "maps_inv (o2n(oh := None)) (n2o(h := None)) (rs(h := None))" "rs h \<noteq> None" "n2o h = Some oh"
    "handle_view (o2n(oh := None)) (rs(h := None)) = (handle_view o2n rs)(oh := None)"
proof -
  have inv: "o2n og = Some nw \<longleftrightarrow> n2o nw = Some og" for og nw using m by (simp add: maps_inv_def)
  have d: "n2o k \<noteq> None \<Longrightarrow> rs k \<noteq> None" for k using m by (auto simp: maps_inv_def dom_def)
  show n: "n2o h = Some oh" using inv h by blast
  then show "rs h \<noteq> None" using d by blast
  have no: "o2n og = Some h \<Longrightarrow> og = oh" "n2o k = Some oh \<Longrightarrow> k = h" for og k using inv n h by (metis option.inject)+
  show "maps_inv (o2n(oh := None)) (n2o(h := None)) (rs(h := None))"
    unfolding maps_inv_def using inv no d by (auto simp: dom_def)
  show "handle_view (o2n(oh := None)) (rs(h := None)) = (handle_view o2n rs)(oh := None)"
    using no(1) by (auto simp: fun_eq_iff handle_view_def split: Option.bind_splits)
qed

text \<open>The interface of a store of rules, and the migration into it.\<close>

locale rule_store =
  fixes good :: "'env \<Rightarrow> bool" and ok :: "'s \<Rightarrow> bool" and rules :: "'s \<Rightarrow> u32 \<Rightarrow> 'r option"
    and add :: "'env \<Rightarrow> 'u \<Rightarrow> 's \<Rightarrow> (int \<times> u32 \<times> 's) option" and fits :: "'u \<Rightarrow> bool"
    and stored :: "'s \<Rightarrow> 'u \<Rightarrow> 'r" and others :: "'s \<Rightarrow> 's \<Rightarrow> bool"
  assumes add_outcome: "good env \<Longrightarrow> ok s \<Longrightarrow> fits u \<Longrightarrow>
      \<exists>ret h s'. add env u s = Some (ret, h, s') \<and> ok s' \<and> others s s' \<and>
        (if ret = 0 then rules s h = None \<and> rules s' = (rules s)(h \<mapsto> stored s u) else rules s' = rules s)"
    and others_stored: "others s s' \<Longrightarrow> stored s' = stored s"
    and others_refl: "others s s"
    and others_trans: "others s s' \<Longrightarrow> others s' s'' \<Longrightarrow> others s s''"
begin

lemma copy_rules_outcome:
  assumes env: "good env"
  shows "ok s \<Longrightarrow> \<forall>x \<in> set xs. fits (snd x) \<Longrightarrow> maps_inv o2n n2o (rules s) \<Longrightarrow>
    distinct (filter (\<lambda>og. og \<noteq> None) (map fst xs)) \<Longrightarrow> (\<forall>oh. Some oh \<in> fst ` set xs \<longrightarrow> o2n oh = None) \<Longrightarrow>
    \<exists>ret cnt' o2n' n2o' s' j. copy_rules (add env) xs ((cnt, o2n, n2o), s) = Some (ret, (cnt', o2n', n2o'), s') \<and>
      ok s' \<and> others s s' \<and> maps_inv o2n' n2o' (rules s') \<and> j \<le> length xs \<and> (ret = 0 \<longrightarrow> j = length xs) \<and>
      cnt' = cnt + of_nat j \<and> (\<forall>x \<in> set (take j xs). fst x \<noteq> None) \<and>
      handle_view o2n' (rules s') = handle_view o2n (rules s) ++ map_of (map (\<lambda>(og, u). (the og, stored s u)) (take j xs))"
proof (induction xs arbitrary: cnt o2n n2o s)
  case Nil
  then show ?case using others_refl by simp
next
  case (Cons x xs)
  obtain og u where x: "x = (og, u)" by fastforce
  show ?case
  proof (cases og)
    case None
    show ?thesis
        by (rule exI [of _ "- 1"], rule exI [of _ cnt], rule exI [of _ o2n], rule exI [of _ n2o], rule exI [of _ s], rule exI [of _ 0],
            use None Cons.prems x others_refl in simp)
  next
    case (Some oh)
    obtain ret h s' where a: "add env u s = Some (ret, h, s')" "ok s'" "others s s'"
        "if ret = 0 then rules s h = None \<and> rules s' = (rules s)(h \<mapsto> stored s u) else rules s' = rules s"
      using add_outcome [OF env Cons.prems(1), of u] Cons.prems(2) x by auto
    show ?thesis
    proof (cases "ret = 0")
      case False
      show ?thesis
        by (rule exI [of _ ret], rule exI [of _ cnt], rule exI [of _ o2n], rule exI [of _ n2o], rule exI [of _ s'], rule exI [of _ 0],
            use False Cons.prems x Some a in simp)
    next
      case True
      have oh: "o2n oh = None" using Cons.prems(5) x Some by auto
      have r: "rules s h = None" "rules s' = (rules s)(h \<mapsto> stored s u)" using a(4) True by simp_all
      note ma = maps_inv_add(1,3) [OF Cons.prems(3) r(1) oh, of "stored s u", folded r(2)]
        and nh = maps_inv_add(2) [OF Cons.prems(3) r(1) oh]
      have fresh: "\<forall>oh'. Some oh' \<in> fst ` set xs \<longrightarrow> (o2n(oh \<mapsto> h)) oh' = None"
        using Cons.prems(4,5) x Some by auto
      have prems: "\<forall>x \<in> set xs. fits (snd x)" "distinct (filter (\<lambda>og. og \<noteq> None) (map fst xs))"
        using Cons.prems(2,4) x Some by simp_all
      obtain ret' cnt' o2n' n2o' s'' j where
        ih: "copy_rules (add env) xs ((cnt + 1, o2n(oh \<mapsto> h), n2o(h \<mapsto> oh)), s') = Some (ret', (cnt', o2n', n2o'), s'')"
          "ok s''" "others s' s''" "maps_inv o2n' n2o' (rules s'')" "j \<le> length xs" "ret' = 0 \<longrightarrow> j = length xs"
          "cnt' = cnt + 1 + of_nat j" "\<forall>x \<in> set (take j xs). fst x \<noteq> None"
          "handle_view o2n' (rules s'') = handle_view (o2n(oh \<mapsto> h)) (rules s') ++
             map_of (map (\<lambda>(og, u). (the og, stored s' u)) (take j xs))"
        using Cons.IH [OF a(2) prems(1) ma(1) prems(2) fresh, of "cnt + 1"] by blast
      let ?m = "map_of (map (\<lambda>(og, u). (the og, stored s u)) (take j xs))"
      have "oh \<notin> dom ?m"
      proof
        assume "oh \<in> dom ?m"
        then obtain og' u' where "(og', u') \<in> set (take j xs)" "the og' = oh"
          by (auto simp: dom_map_of_conv_image_fst)
        then have "(Some oh, u') \<in> set xs" using ih(8) in_set_takeD by (metis fst_conv option.collapse)
        then show False using Cons.prems(4) x Some by force
      qed
      then have hv: "handle_view o2n' (rules s'') = handle_view o2n (rules s) ++ map_of (map (\<lambda>(og, u). (the og, stored s u)) (take (Suc j) (x # xs)))"
        using ih(9) ma(2) others_stored [OF a(3)] x Some by (simp add: map_add_upd_left)
      show ?thesis
        by (rule exI [of _ ret'], rule exI [of _ cnt'], rule exI [of _ o2n'], rule exI [of _ n2o'], rule exI [of _ s''], rule exI [of _ "Suc j"],
            use x Some a(1) True oh nh ih(1-8) others_trans [OF a(3) ih(3)] hv in \<open>simp add: algebra_simps fun_eq_iff map_add_def\<close>)
    qed
  qed
qed

end

text \<open>Each of the two caches is such a store.\<close>

lemma same_but_stored: "same_but nmi s s' \<Longrightarrow> stored_rule (st_pdns s') = stored_rule (st_pdns s)"
  by (simp add: same_but_def)

interpretation cache_store: rule_store store_env "store_ok nmi" "store_rules nmi" "store_add nmi" pdn_fits
    "\<lambda>st. stored_rule (st_pdns st)" "same_but nmi" for nmi
  by unfold_locales (use store_add_outcome same_but_stored same_but_trans in \<open>fastforce split: if_splits\<close>)+

end
