(* ===== verification/Nat_Migrate_Ok.thy ===== *)
theory Nat_Migrate_Ok
  imports Nat_Store_Ok
begin

text \<open>
  The migration of a table: \<^verbatim>\<open>migrate_rule\<close>, driven by \<^verbatim>\<open>ipa_nati_copy_ipv4_tbl\<close>, is \<open>copy_rules\<close> on the live records of the
  source table, and what a client sees through its handles is preserved.
\<close>

section \<open>Client rules\<close>

text \<open>A record as its client knows it: the checksums and the links are the library's, \<^verbatim>\<open>redirect\<close> is never set.\<close>

definition client_rule :: "ipa_nat_rule \<Rightarrow> ipa_nat_ipv4_rule" where
  "client_rule r = (migrated_rule r)\<lparr>u_redirect := 0\<rparr>"

lemma migrated_fits [simp]: "pdn_fits (migrated_rule e)"
proof -
  have "unat (pdn_index e) < 2 ^ LENGTH(4)" by (rule unsigned_less)
  then show ?thesis by (simp add: pdn_fits_def migrated_rule_def IPA_MAX_PDN_NUM_def unsigned_ucast_eq take_bit_eq_mod)
qed

lemma client_rule_view [simp]: "client_rule (rule_view e) = client_rule e"
  by (simp add: client_rule_def migrated_rule_def rule_view_def)

lemma client_rule_stored:
  assumes "pdn_in_range pdns u"
  shows "client_rule (stored_rule pdns u) =
    u\<lparr>u_redirect := 0, u_enable := 1, u_pdn_index := ucast (ucast (u_pdn_index u) :: 4 word),
      u_time_stamp := ucast (ucast (u_time_stamp u) :: 24 word),
      u_uc_activation_index := ucast (ucast (u_uc_activation_index u) :: 13 word)\<rparr>"
  using assms
  by (simp add: client_rule_def stored_rule_def migrated_rule_def user_fields_def table_entry_copy_from_user_def
        pdn_in_range_def rule_view_def Let_def)

lemma client_rule_migrated:
  assumes "pdn_in_range pdns (migrated_rule e)" "enable e"
  shows "client_rule (stored_rule pdns (migrated_rule e)) = client_rule e"
  using assms(2) unfolding client_rule_stored [OF assms(1)]
  by (simp add: client_rule_def migrated_rule_def ucast_down_ucast_id is_down)

section \<open>One rule\<close>

abbreviation o2n_of :: "mem_sub \<Rightarrow> sm_ctl \<Rightarrow> u32 \<rightharpoonup> u32" where
  "o2n_of sub c \<equiv> map_array c (orig2new_map (map_pairs sub))"

abbreviation n2o_of :: "mem_sub \<Rightarrow> sm_ctl \<Rightarrow> u32 \<rightharpoonup> u32" where
  "n2o_of sub c \<equiv> map_array c (new2orig_map (map_pairs sub))"

definition handles :: "mem_sub \<Rightarrow> sm_ctl \<Rightarrow> u32 \<times> (u32 \<rightharpoonup> u32) \<times> (u32 \<rightharpoonup> u32)" where
  "handles sub c = (tot_rules_in_table c sub, o2n_of sub c, n2o_of sub c)"

definition put_handles :: "mem_sub \<Rightarrow> u32 \<times> (u32 \<rightharpoonup> u32) \<times> (u32 \<rightharpoonup> u32) \<Rightarrow> sm_ctl \<Rightarrow> sm_ctl" where
  "put_handles sub = (\<lambda>(cnt, o2n, n2o) c.
     c\<lparr>tot_rules_in_table := (tot_rules_in_table c)(sub := cnt),
       map_array := (map_array c)(orig2new_map (map_pairs sub) := o2n, new2orig_map (map_pairs sub) := n2o)\<rparr>)"

lemma map_pairs_distinct [simp]:
  "orig2new_map (map_pairs a) \<noteq> new2orig_map (map_pairs b)" "new2orig_map (map_pairs b) \<noteq> orig2new_map (map_pairs a)"
  "orig2new_map (map_pairs a) = orig2new_map (map_pairs b) \<longleftrightarrow> a = b"
  "new2orig_map (map_pairs a) = new2orig_map (map_pairs b) \<longleftrightarrow> a = b"
  "orig2new_map (map_pairs a) \<noteq> MAP_NUM_MAX" "new2orig_map (map_pairs a) \<noteq> MAP_NUM_MAX"
  by (cases a; cases b; simp add: map_pairs_def)+

lemma put_handles_get [simp]:
  "handles sub (put_handles sub ms c) = ms"
  "sub' \<noteq> sub \<Longrightarrow> handles sub' (put_handles sub ms c) = handles sub' c"
  "sub' \<noteq> sub \<Longrightarrow> n2o_of sub' (put_handles sub ms c) = n2o_of sub' c"
  "put_handles sub ms' (put_handles sub ms c) = put_handles sub ms' c"
  "put_handles sub (handles sub c) c = c"
  by (cases ms; cases ms'; auto simp: handles_def put_handles_def fun_eq_iff)+

definition src_sub :: "ipa_nat_rule ipa_table \<Rightarrow> mem_sub" where
  "src_sub t = (if tbl_nmi t = IPA_NAT_MEM_IN_SRAM then SRAM_SUB else DDR_SUB)"

definition other_sub :: "mem_sub \<Rightarrow> mem_sub" where
  "other_sub sub = (case sub of DDR_SUB \<Rightarrow> SRAM_SUB | SRAM_SUB \<Rightarrow> DDR_SUB)"

lemma other_sub_neq [simp]: "other_sub s \<noteq> s" "s \<noteq> other_sub s" "other_sub DDR_SUB = SRAM_SUB" "other_sub SRAM_SUB = DDR_SUB"
  by (cases s; simp add: other_sub_def)+

abbreviation hdl_add ::
  "('w, 'z) nat_env_scheme \<Rightarrow> u32 \<Rightarrow> ipa_nat_ipv4_rule \<Rightarrow> 'w nat_state \<Rightarrow> (int \<times> u32 \<times> 'w nat_state) option" where
  "hdl_add env hdl u st \<equiv> ipa_NATI_add_ipv4_rule env hdl (Some u) True st"

lemma migrate_rule_copy:
  assumes "protocol e \<noteq> IPA_NAT_INVALID_PROTO_FIELD_VALUE_IN_RULE"
  shows "migrate_rule env hdl t rh e i mp mi (c, st) =
    map_option (\<lambda>(ret, ms, st'). (ret, put_handles (other_sub (src_sub t)) ms c, st'))
      (copy_rules (hdl_add env hdl) [(n2o_of (src_sub t) c rh, migrated_rule e)] (handles (other_sub (src_sub t)) c, st))"
proof -
  have sd: "(if tbl_nmi t = IPA_NAT_MEM_IN_SRAM then (SRAM_SUB, DDR_SUB) else (DDR_SUB, SRAM_SUB)) =
      (src_sub t, other_sub (src_sub t))" by (simp add: src_sub_def)
  show ?thesis
  proof (cases "n2o_of (src_sub t) c rh")
    case None
    then show ?thesis using assms
      by (simp add: migrate_rule_def sd handles_def put_handles_def fun_upd_twist)
  next
    case (Some oh)
    show ?thesis
    proof (cases "hdl_add env hdl (migrated_rule e) st")
      case None
      then show ?thesis using assms Some by (simp add: migrate_rule_def sd handles_def)
    next
      case (Some r)
      then show ?thesis using assms \<open>n2o_of (src_sub t) c rh = Some oh\<close>
        by (cases r) (auto simp: migrate_rule_def sd handles_def put_handles_def count_rule_def fun_eq_iff)
    qed
  qed
qed

lemma copy_rules_append:
  "copy_rules add (xs @ ys) ms =
     do { (ret, ms) \<leftarrow> copy_rules add xs ms; if ret \<noteq> 0 then Some (ret, ms) else copy_rules add ys ms }"
proof (induction add xs ms rule: copy_rules.induct)
  case (2 add og u xs cnt o2n n2o s)
  then show ?case by (auto split: option.splits Option.bind_splits)
qed simp

section \<open>A table\<close>

lemma visit_migrate:
  fixes t :: "ipa_nat_rule ipa_table"
  defines "src \<equiv> src_sub t" and "dst \<equiv> other_sub (src_sub t)"
  shows "visit (walk_call t (migrate_rule env hdl)) ks (c, st) =
    map_option (\<lambda>(ret, ms, st'). (ret, put_handles dst ms c, st'))
      (copy_rules (hdl_add env hdl)
         (map (\<lambda>k. (n2o_of src c (ucast (MakeEntryHdl t k)), migrated_rule (recs t ! k)))
            (filter (\<lambda>k. protocol (recs t ! k) \<noteq> IPA_NAT_INVALID_PROTO_FIELD_VALUE_IN_RULE) ks))
         (handles dst c, st))"
proof (induction ks arbitrary: c st)
  case Nil
  then show ?case by simp
next
  case (Cons k ks)
  let ?x = "(n2o_of src c (ucast (MakeEntryHdl t k)), migrated_rule (recs t ! k))"
  show ?case
  proof (cases "protocol (recs t ! k) = IPA_NAT_INVALID_PROTO_FIELD_VALUE_IN_RULE")
    case True
    then have "walk_call t (migrate_rule env hdl) k (c, st) = Some (0, c, st)"
      by (simp add: walk_call_def migrate_rule_def)
    then show ?thesis using True Cons.IH by simp
  next
    case False
    have step: "walk_call t (migrate_rule env hdl) k (c, st) =
        map_option (\<lambda>(ret, ms, st'). (ret, put_handles dst ms c, st')) (copy_rules (hdl_add env hdl) [?x] (handles dst c, st))"
      unfolding src_def dst_def by (simp only: walk_call_def migrate_rule_copy [OF False])
    have neq: "src \<noteq> dst" by (simp add: src_def dst_def)
    let ?xs = "map (\<lambda>k. (n2o_of src c (ucast (MakeEntryHdl t k)), migrated_rule (recs t ! k)))
          (filter (\<lambda>k. protocol (recs t ! k) \<noteq> IPA_NAT_INVALID_PROTO_FIELD_VALUE_IN_RULE) ks)"
    note app = copy_rules_append [of "hdl_add env hdl" "[?x]" ?xs "(handles dst c, st)"]
    show ?thesis
    proof (cases "copy_rules (hdl_add env hdl) [?x] (handles dst c, st)")
      case None
      then have "copy_rules (hdl_add env hdl) (?x # ?xs) (handles dst c, st) = None" using app by simp
      then show ?thesis using False step None by simp
    next
      case (Some r)
      obtain ret ms st' where r: "r = (ret, ms, st')" by (cases r)
      let ?W = "walk_call t (migrate_rule env hdl)"
      have v: "visit ?W (k # ks) (c, st) =
          (if ret \<noteq> 0 then Some (ret, put_handles dst ms c, st') else visit ?W ks (put_handles dst ms c, st'))"
        using step Some r by simp
      have x: "copy_rules (hdl_add env hdl) (?x # ?xs) (handles dst c, st) =
          (if ret \<noteq> 0 then Some (ret, ms, st') else copy_rules (hdl_add env hdl) ?xs (ms, st'))"
        using app Some r by simp
      have xs: "map_option (\<lambda>(ret, ms', st'). (ret, put_handles dst ms' (put_handles dst ms c), st')) y =
          map_option (\<lambda>(ret, ms', st'). (ret, put_handles dst ms' c, st')) y" for y :: "(int \<times> _ \<times> _) option"
        by (simp add: split_def)
      show ?thesis
        unfolding v using False x Cons.IH [of "put_handles dst ms c" st'] xs neq by simp
    qed
  qed
qed

text \<open>The live records of a table with their original handles, in the order of the walk.\<close>

definition live_list :: "mem_sub \<Rightarrow> sm_ctl \<Rightarrow> ipa_nat_rule ipa_table \<Rightarrow> (u32 option \<times> ipa_nat_ipv4_rule) list" where
  "live_list sub c t =
     map (\<lambda>k. (n2o_of sub c (ucast (MakeEntryHdl t k)), migrated_rule (recs t ! k))) (filter (live t) [0..<n_recs t])"

lemma live_filter:
  "filter (\<lambda>k. vdT nat_ei t k \<and> protocol (recs t ! k) \<noteq> IPA_NAT_INVALID_PROTO_FIELD_VALUE_IN_RULE) ks =
   filter (live t) ks"
  by (simp add: live_def [abs_def] IPA_NAT_INVALID_PROTO_FIELD_VALUE_IN_RULE_def IPAHAL_NAT_INVALID_PROTOCOL_def)

lemma walk_migrate:
  assumes mtx: "mutex_ok env" and ok: "store_ok src st" and t: "t = nat_table_of st src"
  shows "\<exists>w. ipa_NATI_walk_ipv4_tbl env (tbl_hdl src) USE_NAT_TABLE (migrate_rule env hdl) icb c st =
    map_option (\<lambda>(ret, ms, st'). (ret, put_handles (other_sub (src_sub t)) ms c, st'\<lparr>world := snd (env_mutex_unlock env (world st'))\<rparr>))
      (copy_rules (hdl_add env hdl) (live_list (src_sub t) c t) (handles (other_sub (src_sub t)) c, st\<lparr>world := w\<rparr>))"
proof -
  note nmi = tbl_hdl_facts [OF store_nmi [OF ok]]
  obtain ct cx where c: "cache_ok (ipv4_nat_cache st src) ct cx" using ok by (auto simp: store_ok_def)
  have g: "table_geom IPA_NAT_BASE_TBL IPA_NAT_EXPN_TBL nat_off t"
    using c t by (auto simp: cache_ok_def intro: inv_geom nat_inv_t)
  have len: "length (recs t) = n_recs t" "n_recs t < 65536" "0 < n_recs t"
    using table_geomD [OF g] by simp_all
  let ?w = "snd (env_mutex_lock env (world st))"
  have walk: "ipa_table_walk nat_ei t 0 WHEN_SLOT_FILLED (migrate_rule env hdl) (c, st\<lparr>world := ?w\<rparr>) =
      map_option (\<lambda>(ret, ms, st'). (ret, put_handles (other_sub (src_sub t)) ms c, st'))
        (copy_rules (hdl_add env hdl) (live_list (src_sub t) c t) (handles (other_sub (src_sub t)) c, st\<lparr>world := ?w\<rparr>))"
    using len unfolding table_walk_visit [OF len(1,2)] live_list_def
    by (simp add: visit_migrate live_filter)
  have "ipa_NATI_walk_ipv4_tbl env (tbl_hdl src) USE_NAT_TABLE (migrate_rule env hdl) icb c st =
     map_option (\<lambda>(ret, c, st). case unlock_ret env ret st of (ret, st) \<Rightarrow> (ret, c, st))
       (ipa_table_walk nat_ei t 0 WHEN_SLOT_FILLED (migrate_rule env hdl) (c, st\<lparr>world := ?w\<rparr>))"
    using nmi c t
    by (simp add: ipa_NATI_walk_ipv4_tbl_def nat_lock_ok [OF mtx] cache_ok_def Let_def map_option_bind map_conv_bind_option
          split_def comp_def)
  then show ?thesis
    by (intro exI [of _ ?w]) (simp add: walk option.map_comp comp_def split_def unlock_ret_ok [OF mtx])
qed

section \<open>What a client sees\<close>

definition client_view :: "(u32 \<rightharpoonup> u32) \<Rightarrow> (u32 \<Rightarrow> ipa_nat_rule option) \<Rightarrow> u32 \<Rightarrow> ipa_nat_ipv4_rule option" where
  "client_view o2n rs og = map_option client_rule (handle_view o2n rs og)"

definition nmi_of_sub :: "mem_sub \<Rightarrow> ipa3_nat_mem_in" where
  "nmi_of_sub sub = (case sub of DDR_SUB \<Rightarrow> IPA_NAT_MEM_IN_DDR | SRAM_SUB \<Rightarrow> IPA_NAT_MEM_IN_SRAM)"

lemma nmi_of_sub_simps [simp]:
  "nmi_of_sub DDR_SUB = IPA_NAT_MEM_IN_DDR" "nmi_of_sub SRAM_SUB = IPA_NAT_MEM_IN_SRAM"
  "nmi_of_sub s \<noteq> IPA_NAT_MEM_IN_MAX" "nmi_of_sub (other_sub s) \<noteq> nmi_of_sub s" "nmi_of_sub s \<noteq> nmi_of_sub (other_sub s)"
  by (cases s; simp add: nmi_of_sub_def other_sub_def)+

lemma store_src_sub:
  assumes "store_ok (nmi_of_sub sub) st"
  shows "src_sub (nat_table_of st (nmi_of_sub sub)) = sub"
  using assms by (cases sub) (simp_all add: store_ok_def src_sub_def)

text \<open>The list of live records against the view of the source.\<close>

lemma live_list_view:
  assumes ok: "store_ok nmi st" and t: "t = nat_table_of st nmi" and m: "maps_inv (o2n_of sub c) (n2o_of sub c) (store_rules nmi st)"
    and x: "(Some og, u) \<in> set (live_list sub c t)"
  shows "\<exists>k. live t k \<and> u = migrated_rule (recs t ! k) \<and> enable (recs t ! k) \<and>
     client_view (o2n_of sub c) (store_rules nmi st) og = Some (client_rule (recs t ! k))"
proof -
  obtain ct where it: "nat_tinv t ct" using ok t store_tinv by blast
  obtain k where k: "live t k" "u = migrated_rule (recs t ! k)" "n2o_of sub c (ucast (MakeEntryHdl t k)) = Some og" "k < n_recs t"
    using x by (auto simp: live_list_def)
  have "o2n_of sub c og = Some (ucast (MakeEntryHdl t k))" using m k(3) by (simp add: maps_inv_def)
  then have "client_view (o2n_of sub c) (store_rules nmi st) og = Some (client_rule (recs t ! k))"
    using hrules_own [OF it k(4)] k(1) t by (simp add: client_view_def handle_view_def store_rules_def rules_of_def)
  moreover have "enable (recs t ! k)" using k(1) by (simp add: live_def vdT_def entry_interface_def table_entry_is_valid_def)
  ultimately show ?thesis using k by blast
qed

lemma live_list_complete:
  assumes ok: "store_ok nmi st" and t: "t = nat_table_of st nmi" and m: "maps_inv (o2n_of sub c) (n2o_of sub c) (store_rules nmi st)"
    and v: "client_view (o2n_of sub c) (store_rules nmi st) og = Some r"
  shows "Some og \<in> fst ` set (live_list sub c t)"
proof -
  obtain ct where it: "nat_tinv t ct" using ok t store_tinv by blast
  obtain h rr where h: "o2n_of sub c og = Some h" "store_rules nmi st h = Some rr"
    using v by (auto simp: client_view_def handle_view_def split: Option.bind_splits)
  obtain k where k: "h = ucast (MakeEntryHdl t k)" "rules_of t k = Some rr"
    using h(2) t by (auto simp: store_rules_def elim: hrules_SomeD)
  have "live t k" "k < n_recs t" using k(2) rules_of_in_range [OF it, of k] by (auto simp: rules_of_def split: if_splits)
  moreover have "n2o_of sub c (ucast (MakeEntryHdl t k)) = Some og" using m h(1) k(1) by (simp add: maps_inv_def)
  ultimately show ?thesis by (force simp: live_list_def)
qed

lemma live_list_distinct:
  assumes ok: "store_ok nmi st" and t: "t = nat_table_of st nmi" and m: "maps_inv (o2n_of sub c) (n2o_of sub c) rs"
  shows "distinct (filter (\<lambda>og. og \<noteq> None) (map fst (live_list sub c t)))"
proof -
  obtain ct where "nat_tinv t ct" using ok t store_tinv by blast
  note g = inv_geom [OF this]
  let ?f = "\<lambda>k. n2o_of sub c (ucast (MakeEntryHdl t k))"
  have "i = j" if f: "?f i = ?f j" "?f i \<noteq> None" "i < n_recs t" "j < n_recs t" for i j
  proof -
    obtain og where "?f i = Some og" "?f j = Some og" using f(1,2) by auto
    then have "o2n_of sub c og = Some (ucast (MakeEntryHdl t i))" "o2n_of sub c og = Some (ucast (MakeEntryHdl t j))"
      using m by (simp_all add: maps_inv_def)
    then show ?thesis
      using get_entry_own_handle [OF g f(3)] get_entry_own_handle [OF g f(4)] by auto
  qed
  then show ?thesis
    by (auto simp: live_list_def comp_def filter_map distinct_map inj_on_def)
qed

section \<open>The copy of a table\<close>

text \<open>What \<^verbatim>\<open>ipa_nati_copy_ipv4_tbl\<close> with \<^verbatim>\<open>migrate_rule\<close> does from the store of \<open>src\<close> to the other one, whose maps have been
  cleared: a client sees through the new maps a part of what it saw, all of it when the status is 0.\<close>

lemma map_of_copied:
  assumes ok: "store_ok nmi st" and t: "t = nat_table_of st nmi" and m: "maps_inv (o2n_of sub c) (n2o_of sub c) (store_rules nmi st)"
    and pdns: "length pdns = IPA_MAX_PDN_NUM" and some: "\<forall>x \<in> set (take j (live_list sub c t)). fst x \<noteq> None"
    and g: "map_of (map (\<lambda>(og, u). (the og, stored_rule pdns u)) (take j (live_list sub c t))) og = Some r"
  shows "client_view (o2n_of sub c) (store_rules nmi st) og = Some (client_rule r)"
proof -
  obtain og' u where x: "(og', u) \<in> set (take j (live_list sub c t))" "the og' = og" "r = stored_rule pdns u"
    using map_of_SomeD [OF g] by auto
  then have "(Some og, u) \<in> set (live_list sub c t)" using some in_set_takeD by (metis fst_conv option.collapse)
  then obtain k where k: "u = migrated_rule (recs t ! k)" "enable (recs t ! k)"
      "client_view (o2n_of sub c) (store_rules nmi st) og = Some (client_rule (recs t ! k))"
    using live_list_view [OF ok t m] by blast
  have "pdn_in_range pdns u" using migrated_fits [of "recs t ! k"] k(1) pdns by (simp add: pdn_fits_def pdn_in_range_def)
  then show ?thesis using k client_rule_migrated x(3) by simp
qed

lemma copy_tbl_outcome:
  fixes env :: "('w, 'z) nat_env_scheme"
  defines "nmi \<equiv> nmi_of_sub"
  assumes env: "store_env env" and ok: "store_ok (nmi src) st" "store_ok (nmi dst) st" and dst: "dst = other_sub src"
    and m: "maps_inv (o2n_of src c) (n2o_of src c) (store_rules (nmi src) st)"
    and clr: "handles dst c = (0, Map.empty, Map.empty)"
  shows "\<exists>ret j o2n n2o st'. ipa_nati_copy_ipv4_tbl env (tbl_hdl (nmi src)) (tbl_hdl (nmi dst)) (Some (migrate_rule env)) c st =
       Some (ret, put_handles dst (of_nat j, o2n, n2o) c, st') \<and>
     store_ok (nmi dst) st' \<and> same_but (nmi dst) st st' \<and> maps_inv o2n n2o (store_rules (nmi dst) st') \<and>
     client_view o2n (store_rules (nmi dst) st') \<subseteq>\<^sub>m client_view (o2n_of src c) (store_rules (nmi src) st) \<and>
     (ret = 0 \<longrightarrow> client_view o2n (store_rules (nmi dst) st') = client_view (o2n_of src c) (store_rules (nmi src) st))"
proof -
  have mtx: "mutex_ok env" using env by (simp add: store_env_def)
  have neq: "nmi src \<noteq> nmi dst" "src \<noteq> dst" by (simp_all add: nmi_def dst)
  let ?st1 = "st\<lparr>world := snd (env_mutex_lock env (world st))\<rparr>"
  obtain st2 where cl: "ipa_NATI_clear_ipv4_tbl env (tbl_hdl (nmi dst)) ?st1 = Some (0, st2)" "store_ok (nmi dst) st2"
      "same_but (nmi dst) ?st1 st2" "store_rules (nmi dst) st2 = Map.empty"
    using store_clear_outcome [OF mtx, of "nmi dst" ?st1] ok(2) by auto
  have sb: "same_but (nmi dst) st st2" using cl(3) by (simp add: same_but_def)
  note so = store_other [OF sb neq(1)]
  let ?t = "nat_table_of st2 (nmi src)" and ?xs = "live_list src c (nat_table_of st2 (nmi src))"
  have ok2: "store_ok (nmi src) st2" using so(1) ok(1) by simp
  have m2: "maps_inv (o2n_of src c) (n2o_of src c) (store_rules (nmi src) st2)" using m so(2) by simp
  have sub: "src_sub ?t = src" using store_src_sub ok2 by (simp add: nmi_def)
  obtain w where walk: "ipa_NATI_walk_ipv4_tbl env (tbl_hdl (nmi src)) USE_NAT_TABLE (migrate_rule env (tbl_hdl (nmi dst)))
        (\<lambda>_ _ _ _ _ _ s. Some (0, s)) c st2 =
      map_option (\<lambda>(ret, ms, st'). (ret, put_handles dst ms c, st'\<lparr>world := snd (env_mutex_unlock env (world st'))\<rparr>))
        (copy_rules (store_add (nmi dst) env) ?xs ((0, Map.empty, Map.empty), st2\<lparr>world := w\<rparr>))"
    using walk_migrate [OF mtx ok2 refl, of "tbl_hdl (nmi dst)"] unfolding sub clr [symmetric] dst by blast
  have fit: "\<forall>x \<in> set ?xs. pdn_fits (snd x)" by (auto simp: live_list_def)
  obtain ret cnt o2n n2o st3 j where
    cp: "copy_rules (store_add (nmi dst) env) ?xs ((0, Map.empty, Map.empty), st2\<lparr>world := w\<rparr>) = Some (ret, (cnt, o2n, n2o), st3)"
      "store_ok (nmi dst) st3" "same_but (nmi dst) (st2\<lparr>world := w\<rparr>) st3" "maps_inv o2n n2o (store_rules (nmi dst) st3)"
      "ret = 0 \<longrightarrow> j = length ?xs" "cnt = of_nat j" "\<forall>x \<in> set (take j ?xs). fst x \<noteq> None"
      "handle_view o2n (store_rules (nmi dst) st3) =
         map_of (map (\<lambda>(og, u). (the og, stored_rule (st_pdns st2) u)) (take j ?xs))"
    using cache_store.copy_rules_outcome [OF env, where nmi = "nmi dst" and s = "st2\<lparr>world := w\<rparr>" and xs = ?xs and
        o2n = Map.empty and n2o = Map.empty and cnt = 0] cl(2,4) fit live_list_distinct [OF ok2 refl m2]
    by (auto simp: handle_view_def [abs_def])
  have pdns: "length (st_pdns st2) = IPA_MAX_PDN_NUM" using cl(2) by (simp add: store_ok_def)
  have sub_view: "client_view o2n (store_rules (nmi dst) st3) og = Some r \<Longrightarrow>
      client_view (o2n_of src c) (store_rules (nmi src) st) og = Some r" for og r
    using map_of_copied [OF ok2 refl m2 pdns cp(7), of og] so(2) unfolding client_view_def [of o2n] cp(8) by auto
  have all_view: "client_view o2n (store_rules (nmi dst) st3) og \<noteq> None"
    if r0: "ret = 0" and v: "client_view (o2n_of src c) (store_rules (nmi src) st) og = Some r" for og r
  proof -
    have "Some og \<in> fst ` set ?xs" using live_list_complete [OF ok2 refl m2] v so(2) by simp
    then obtain u where u: "(Some og, u) \<in> set (take j ?xs)" using cp(5) r0 by auto
    have "og \<in> dom (map_of (map (\<lambda>(og, u). (the og, stored_rule (st_pdns st2) u)) (take j ?xs)))"
      unfolding dom_map_of_conv_image_fst set_map image_image
      by (rule image_eqI [OF _ u]) simp
    then show ?thesis using cp(8) by (auto simp: client_view_def)
  qed
  have le: "client_view o2n (store_rules (nmi dst) st3) \<subseteq>\<^sub>m client_view (o2n_of src c) (store_rules (nmi src) st)"
    using sub_view by (auto simp: map_le_def dom_def)
  have eq: "client_view o2n (store_rules (nmi dst) st3) = client_view (o2n_of src c) (store_rules (nmi src) st)" if "ret = 0"
  proof (rule map_le_antisym [OF le])
    show "client_view (o2n_of src c) (store_rules (nmi src) st) \<subseteq>\<^sub>m client_view o2n (store_rules (nmi dst) st3)"
      using all_view [OF that] sub_view by (fastforce simp: map_le_def dom_def)
  qed
  have run: "\<exists>w'. ipa_nati_copy_ipv4_tbl env (tbl_hdl (nmi src)) (tbl_hdl (nmi dst)) (Some (migrate_rule env)) c st =
       Some (ret, put_handles dst (of_nat j, o2n, n2o) c, st3\<lparr>world := w'\<rparr>)"
    using cl(1) walk cp(1,6) by (auto simp: ipa_nati_copy_ipv4_tbl_def nat_lock_ok [OF mtx] unlock_ret_ok [OF mtx])
  have "same_but (nmi dst) st st3" using sb cp(3) by (simp add: same_but_def Let_def)
  then show ?thesis using run cp(2,4) le eq by fastforce
qed

end
