(* ===== verification/Nat_Statemach_Ok.thy ===== *)
theory Nat_Statemach_Ok
  imports Nat_Migrate_Ok
begin

text \<open>
  The state machine in hybrid mode: the invariant of its states, and what each trigger does to the table a
  client sees.  A client holds the handle its addition returned; the rule may since have been moved to the
  other memory, and the handle maps lead to it.
\<close>

section \<open>The environment\<close>

definition sm_mutex_ok :: "('w, 'z) sm_env_scheme \<Rightarrow> bool" where
  "sm_mutex_ok env \<longleftrightarrow> mutex_ok env \<and>
     (\<forall>w. fst (env_mutexattr_init env w) = 0 \<and> fst (env_mutexattr_settype env w) = 0 \<and> fst (env_mutex_init env w) = 0)"

text \<open>The kernel accepts votes for the clock and moves the focus of the device between the tables.\<close>

definition focus_ok :: "('w, 'z) nat_env_scheme \<Rightarrow> bool" where
  "focus_ok env \<longleftrightarrow> (\<forall>fd v w. fst (env_clock_vote env fd v w) = 0) \<and> (\<forall>fd cmd w. fst (env_v4_init env fd cmd w) = 0)"

lemma sm_mutexD: "sm_mutex_ok env \<Longrightarrow> mutex_ok env"
  by (simp add: sm_mutex_ok_def)

lemma take_mutex_ok:
  assumes "sm_mutex_ok env"
  shows "\<exists>w. take_mutex env (c, st) = (0, c\<lparr>nat_mutex_init := True\<rparr>, st\<lparr>world := w\<rparr>)"
proof (cases "nat_mutex_init c")
  case True
  then have "c\<lparr>nat_mutex_init := True\<rparr> = c" by simp
  then show ?thesis using True nat_lock_ok [OF sm_mutexD [OF assms], of st] by (auto simp: take_mutex_def)
next
  case False
  have "\<exists>w. mutex_init env (c, st) = (0, c\<lparr>nat_mutex_init := True\<rparr>, st\<lparr>world := w\<rparr>)"
    using assms by (auto simp: mutex_init_def sm_mutex_ok_def prod_eq_iff split: prod.splits)
  then show ?thesis using False by (auto simp: take_mutex_def nat_lock_ok [OF sm_mutexD [OF assms]])
qed

lemma give_mutex_ok:
  "sm_mutex_ok env \<Longrightarrow> nat_mutex_init c \<Longrightarrow> \<exists>w. give_mutex env (c, st) = (0, c, st\<lparr>world := w\<rparr>)"
  by (auto simp: give_mutex_def nat_unlock_ok [OF sm_mutexD])

lemma vote_clock_ok:
  assumes "ipa_desc (ipv4_nat_cache st IPA_NAT_MEM_IN_SRAM) \<noteq> None"
  shows "\<exists>ret w. ipa_nat_vote_clock env v st = (ret, st\<lparr>world := w\<rparr>) \<and> (focus_ok env \<longrightarrow> ret = 0)"
proof -
  obtain d where d: "ipa_desc (ipv4_nat_cache st IPA_NAT_MEM_IN_SRAM) = Some d" using assms by blast
  obtain ret w where v: "env_clock_vote env (desc_fd d) v (world st) = (ret, w)" by fastforce
  have "(ipv4_nat_cache st IPA_NAT_MEM_IN_SRAM)\<lparr>ipa_desc := Some d\<rparr> = ipv4_nat_cache st IPA_NAT_MEM_IN_SRAM"
    using d by (cases "ipv4_nat_cache st IPA_NAT_MEM_IN_SRAM") simp
  then have "set_cache IPA_NAT_MEM_IN_SRAM ((ipv4_nat_cache st IPA_NAT_MEM_IN_SRAM)\<lparr>ipa_desc := Some d\<rparr>) st = st"
    by (simp add: set_cache_def)
  then have "ipa_nat_vote_clock env v st = (ret, st\<lparr>world := w\<rparr>)"
    using d v by (simp add: ipa_nat_vote_clock_def ipa_nati_vote_clock_def open_desc_def)
  moreover have "focus_ok env \<longrightarrow> ret = 0" using v by (metis focus_ok_def fst_conv)
  ultimately show ?thesis by blast
qed

lemma post_init_ok:
  assumes mtx: "mutex_ok env" and ok: "store_ok nmi st"
  shows "\<exists>ret w. ipa_NATI_post_ipv4_init_cmd env (tbl_hdl nmi) st =
      Some (ret, st\<lparr>active_nat_cache := if ret = 0 then Some nmi else active_nat_cache st, world := w\<rparr>) \<and>
    (focus_ok env \<longrightarrow> ret = 0)"
proof -
  obtain d where d: "ipa_desc (ipv4_nat_cache st nmi) = Some d" "table_cnt (ipv4_nat_cache st nmi) = 1"
    using ok by (auto simp: store_ok_def cache_ok_def)
  let ?w = "snd (env_mutex_lock env (world st))"
  obtain ret w where v: "env_v4_init env (desc_fd d) (v4_init_cmd (ipv4_nat_cache st nmi) (ip4_tbl (ipv4_nat_cache st nmi))
        (ucast (1 :: u16) - 1) True) ?w = (ret, w)" by fastforce
  have "focus_ok env \<longrightarrow> ret = 0" using v by (metis focus_ok_def fst_conv)
  then show ?thesis
    using d v tbl_hdl_facts [OF store_nmi [OF ok]]
    by (auto simp: ipa_NATI_post_ipv4_init_cmd_def ipa_nati_post_ipv4_init_cmd_def nat_lock_ok [OF mtx] unlock_ret_ok [OF mtx] Let_def)
qed

section \<open>The hybrid invariant\<close>

definition sub_ok :: "mem_sub \<Rightarrow> 'w sm_state \<Rightarrow> bool" where
  "sub_ok sub = (\<lambda>(c, st). store_ok (nmi_of_sub sub) st \<and>
     maps_inv (o2n_of sub c) (n2o_of sub c) (store_rules (nmi_of_sub sub) st))"

definition hyb :: "'w sm_state \<Rightarrow> bool" where
  "hyb s \<longleftrightarrow> IN_HYBRID_STATE (fst s) \<and> sub_ok DDR_SUB s \<and> sub_ok SRAM_SUB s \<and>
     ddr_tbl_hdl (fst s) = tbl_hdl IPA_NAT_MEM_IN_DDR \<and> sram_tbl_hdl (fst s) = tbl_hdl IPA_NAT_MEM_IN_SRAM"

text \<open>What the client's handles lead to in one memory, and in the active one.\<close>

definition sub_view :: "mem_sub \<Rightarrow> 'w sm_state \<Rightarrow> u32 \<Rightarrow> ipa_nat_ipv4_rule option" where
  "sub_view sub = (\<lambda>(c, st). client_view (o2n_of sub c) (store_rules (nmi_of_sub sub) st))"

definition sm_view :: "'w sm_state \<Rightarrow> u32 \<Rightarrow> ipa_nat_ipv4_rule option" where
  "sm_view s = sub_view (CHOOSE_MEM_SUB (fst s)) s"

lemma sub_world [simp]:
  "sub_ok sub (c\<lparr>nat_mutex_init := b\<rparr>, st) = sub_ok sub (c, st)" "sub_ok sub (c, st\<lparr>world := w\<rparr>) = sub_ok sub (c, st)"
  "sub_ok sub (c, st\<lparr>active_nat_cache := a\<rparr>) = sub_ok sub (c, st)"
  "sub_view sub (c\<lparr>nat_mutex_init := b\<rparr>, st) = sub_view sub (c, st)"
  "sub_view sub (c, st\<lparr>world := w\<rparr>) = sub_view sub (c, st)"
  "sub_view sub (c, st\<lparr>active_nat_cache := a\<rparr>) = sub_view sub (c, st)"
  by (simp_all add: sub_ok_def sub_view_def)

lemma sub_state [simp]:
  "sub_ok sub (SET_NATIOBJ_STATE x c, st) = sub_ok sub (c, st)"
  "sub_view sub (SET_NATIOBJ_STATE x c, st) = sub_view sub (c, st)"
  "sub_ok sub (count_switch y b c, st) = sub_ok sub (c, st)"
  "sub_view sub (count_switch y b c, st) = sub_view sub (c, st)"
  by (simp_all add: sub_ok_def sub_view_def SET_NATIOBJ_STATE_def count_switch_def Let_def)

lemma hyb_world [simp]:
  "hyb (c\<lparr>nat_mutex_init := b\<rparr>, st) = hyb (c, st)" "hyb (c, st\<lparr>world := w\<rparr>) = hyb (c, st)"
  "hyb (c, st\<lparr>active_nat_cache := a\<rparr>) = hyb (c, st)"
  "sm_view (c\<lparr>nat_mutex_init := b\<rparr>, st) = sm_view (c, st)" "sm_view (c, st\<lparr>world := w\<rparr>) = sm_view (c, st)"
  "sm_view (c, st\<lparr>active_nat_cache := a\<rparr>) = sm_view (c, st)"
  by (simp_all add: hyb_def IN_HYBRID_STATE_def sm_view_def CHOOSE_MEM_SUB_def)

lemma hyb_sub: "hyb s \<Longrightarrow> sub_ok sub s"
  by (cases sub) (simp_all add: hyb_def)

lemma hyb_store: "hyb (c, st) \<Longrightarrow> store_ok (nmi_of_sub sub) st"
  using hyb_sub [of "(c, st)" sub] by (simp add: sub_ok_def)

lemma sub_sram_desc: "sub_ok SRAM_SUB (c, st) \<Longrightarrow> ipa_desc (ipv4_nat_cache st IPA_NAT_MEM_IN_SRAM) \<noteq> None"
  by (auto simp: sub_ok_def store_ok_def cache_ok_def)

text \<open>A handle is mapped exactly when it leads to a rule.\<close>

lemma view_dom:
  assumes "sub_ok sub (c, st)"
  shows "sub_view sub (c, st) og = None \<longleftrightarrow> o2n_of sub c og = None"
proof -
  have m: "maps_inv (o2n_of sub c) (n2o_of sub c) (store_rules (nmi_of_sub sub) st)" using assms by (simp add: sub_ok_def)
  have "store_rules (nmi_of_sub sub) st h \<noteq> None" if "o2n_of sub c og = Some h" for h
    using m that unfolding maps_inv_def dom_def by blast
  then show ?thesis
    by (cases "o2n_of sub c og") (auto simp: sub_view_def client_view_def handle_view_def)
qed

section \<open>One call of the state machine\<close>

text \<open>The mutex, the votes and the lost status around a callback.  When the first vote is refused the
  callback does not run; in both cases the caller gets the status of the mutex, 0.\<close>

lemma statemach_step:
  fixes env :: "('w, 'z) sm_env_scheme"
  assumes env: "sm_mutex_ok env" and s: "sub_ok SRAM_SUB (c, st)"
  obtains (refused) w where "\<not> focus_ok env"
      "statemach_fuel env (Suc n) trigger args (c, st) = Some (0, c\<lparr>nat_mutex_init := True\<rparr>, st\<lparr>world := w\<rparr>)"
  | (run) w where "\<And>r c' st'. sm_cb env (statemach_fuel env n) (state_mach_tbl (curr_state c) trigger) trigger args
        (c\<lparr>nat_mutex_init := True\<rparr>, st\<lparr>world := w\<rparr>) = Some (r, c', st') \<Longrightarrow> sub_ok SRAM_SUB (c', st') \<Longrightarrow> nat_mutex_init c' \<Longrightarrow>
        \<exists>w'. statemach_fuel env (Suc n) trigger args (c, st) = Some (0, c', st'\<lparr>world := w'\<rparr>)"
proof -
  let ?c = "c\<lparr>nat_mutex_init := True\<rparr>"
  obtain w1 where tk: "take_mutex env (c, st) = (0, ?c, st\<lparr>world := w1\<rparr>)" using take_mutex_ok [OF env] by blast
  have d: "ipa_desc (ipv4_nat_cache (st\<lparr>world := w1\<rparr>) IPA_NAT_MEM_IN_SRAM) \<noteq> None" using sub_sram_desc [OF s] by simp
  obtain ret w2 where v: "(if VOTE_REQUIRED trigger ?c then ipa_nat_vote_clock env IPA_APP_CLK_VOTE (st\<lparr>world := w1\<rparr>)
        else (0, st\<lparr>world := w1\<rparr>)) = (ret, st\<lparr>world := w2\<rparr>)" "focus_ok env \<longrightarrow> ret = 0"
    using vote_clock_ok [OF d, of env IPA_APP_CLK_VOTE] by (cases "VOTE_REQUIRED trigger ?c") auto
  show thesis
  proof (cases "ret = 0")
    case False
    obtain w3 where "give_mutex env (?c, st\<lparr>world := w2\<rparr>) = (0, ?c, st\<lparr>world := w3\<rparr>)"
      using give_mutex_ok [OF env, of ?c "st\<lparr>world := w2\<rparr>"] by auto
    then show thesis using refused [of w3] tk v False by (simp add: statemach_fuel.simps Let_def)
  next
    case True
    show thesis
    proof (rule run)
      fix r c' st'
      assume cb: "sm_cb env (statemach_fuel env n) (state_mach_tbl (curr_state c) trigger) trigger args
          (?c, st\<lparr>world := w2\<rparr>) = Some (r, c', st')" and s': "sub_ok SRAM_SUB (c', st')" and i: "nat_mutex_init c'"
      obtain r' w3 where v': "(if VOTE_REQUIRED trigger ?c then ipa_nat_vote_clock env IPA_APP_CLK_DEVOTE st' else (0, st')) =
          (r', st'\<lparr>world := w3\<rparr>)"
        using vote_clock_ok [OF sub_sram_desc [OF s'], of env IPA_APP_CLK_DEVOTE]
        by (cases "VOTE_REQUIRED trigger ?c") (auto intro: that [of 0 "world st'"])
      obtain w4 where "give_mutex env (c', st'\<lparr>world := w3\<rparr>) = (0, c', st'\<lparr>world := w4\<rparr>)"
        using give_mutex_ok [OF env i, of "st'\<lparr>world := w3\<rparr>"] by auto
      then show "\<exists>w'. statemach_fuel env (Suc n) trigger args (c, st) = Some (0, c', st'\<lparr>world := w'\<rparr>)"
        using tk v True cb v' by (auto simp: statemach_fuel.simps Let_def)
    qed
  qed
qed

section \<open>Switching between the tables\<close>

definition state_of_sub :: "mem_sub \<Rightarrow> ipa_nati_state" where
  "state_of_sub sub = (case sub of DDR_SUB \<Rightarrow> NATI_STATE_HYBRID_DDR | SRAM_SUB \<Rightarrow> NATI_STATE_HYBRID)"

definition goto_trigger :: "mem_sub \<Rightarrow> ipa_nati_trigger" where
  "goto_trigger sub = (case sub of DDR_SUB \<Rightarrow> NATI_TRIG_GOTO_DDR | SRAM_SUB \<Rightarrow> NATI_TRIG_GOTO_SRAM)"

text \<open>What the internal triggers leave to the caller as it was.\<close>

definition same_io :: "sm_ctl \<Rightarrow> sm_ctl \<Rightarrow> bool" where
  "same_io c c' \<longleftrightarrow> hold_state c' = hold_state c \<and> back_to_sram_thresh c' = back_to_sram_thresh c \<and>
     tot_slots_in_sram c' = tot_slots_in_sram c \<and> ddr_tbl_hdl c' = ddr_tbl_hdl c \<and> sram_tbl_hdl c' = sram_tbl_hdl c \<and>
     io_tbl_hdl c' = io_tbl_hdl c \<and> io_clnt_rule c' = io_clnt_rule c \<and> io_rule_hdl c' = io_rule_hdl c \<and>
     io_time_stamp c' = io_time_stamp c \<and> io_stats c' = io_stats c"

lemma same_io_refl [simp]: "same_io c c"
  by (simp add: same_io_def)

lemma same_io_trans: "same_io a b \<Longrightarrow> same_io b c \<Longrightarrow> same_io a c"
  by (simp add: same_io_def)

lemma same_io_upd [simp]:
  "same_io c (c'\<lparr>nat_mutex_init := b\<rparr>) = same_io c c'" "same_io c (SET_NATIOBJ_STATE x c') = same_io c c'"
  "same_io c (count_switch y k c') = same_io c c'" "same_io c (put_handles y ms c') = same_io c c'"
  "same_io c (count_rule y f c') = same_io c c'" "same_io c (c'\<lparr>map_array := m\<rparr>) = same_io c c'"
  by (cases ms; simp add: same_io_def SET_NATIOBJ_STATE_def count_switch_def put_handles_def count_rule_def Let_def)+

lemma hyb_curr: "hyb (c, st) \<Longrightarrow> curr_state c = state_of_sub (CHOOSE_MEM_SUB c)"
  by (auto simp: hyb_def IN_HYBRID_STATE_def CHOOSE_MEM_SUB_def state_of_sub_def)

lemma curr_upd [simp]:
  "curr_state (SET_NATIOBJ_STATE x c) = x" "curr_state (count_switch y k c) = curr_state c"
  "curr_state (put_handles y ms c) = curr_state c" "curr_state (count_rule y f c) = curr_state c"
  "nat_mutex_init (SET_NATIOBJ_STATE x c) = nat_mutex_init c" "nat_mutex_init (count_switch y k c) = nat_mutex_init c"
  "nat_mutex_init (put_handles y ms c) = nat_mutex_init c" "nat_mutex_init (count_rule y f c) = nat_mutex_init c"
  "sw_stats (SET_NATIOBJ_STATE x c) = sw_stats c" "sw_stats (put_handles y ms c) = sw_stats c"
  "map_array (SET_NATIOBJ_STATE x c) = map_array c" "map_array (count_switch y k c) = map_array c"
  "map_array (count_rule y f c) = map_array c"
  by (cases ms; simp add: SET_NATIOBJ_STATE_def count_switch_def put_handles_def count_rule_def Let_def)+

lemma hyb_setstate [simp]:
  "hyb (c, st) \<Longrightarrow> hyb (SET_NATIOBJ_STATE (state_of_sub sub) c, st)"
  "CHOOSE_MEM_SUB (SET_NATIOBJ_STATE (state_of_sub sub) c) = sub"
  by (cases sub; simp add: hyb_def IN_HYBRID_STATE_def state_of_sub_def CHOOSE_MEM_SUB_def;
      simp add: SET_NATIOBJ_STATE_def)+

lemma goto_callback:
  assumes env: "mutex_ok env" and h: "hyb (c, st)"
  shows "\<exists>ret w a. sm_cb env rec (state_mach_tbl (curr_state c) (goto_trigger sub)) trig NoArgs (c, st) =
       Some (ret, if ret = 0 then SET_NATIOBJ_STATE (state_of_sub sub) c else c, st\<lparr>active_nat_cache := a, world := w\<rparr>) \<and>
     (focus_ok env \<longrightarrow> ret = 0)"
proof -
  obtain ret w a where p: "ipa_NATI_post_ipv4_init_cmd env (tbl_hdl (nmi_of_sub sub)) st =
      Some (ret, st\<lparr>active_nat_cache := a, world := w\<rparr>)"
      "focus_ok env \<longrightarrow> ret = 0"
    using post_init_ok [OF env hyb_store [OF h]] by blast
  have h': "ddr_tbl_hdl c = tbl_hdl IPA_NAT_MEM_IN_DDR" "sram_tbl_hdl c = tbl_hdl IPA_NAT_MEM_IN_SRAM" using h by (simp_all add: hyb_def)
  show ?thesis
    unfolding hyb_curr [OF h] using p h' by (cases sub; cases "CHOOSE_MEM_SUB c")
      (auto simp: sm_cb_def state_of_sub_def goto_trigger_def smGoToDdr_def smGoToSram_def)
qed

lemma goto_outcome:
  assumes env: "sm_mutex_ok env" and h: "hyb (c, st)"
  shows "\<exists>c' w a. statemach_fuel env (Suc n) (goto_trigger sub) NoArgs (c, st) = Some (0, c', st\<lparr>active_nat_cache := a, world := w\<rparr>) \<and>
     (c' = SET_NATIOBJ_STATE (state_of_sub sub) (c\<lparr>nat_mutex_init := True\<rparr>) \<or> \<not> focus_ok env \<and> c' = c\<lparr>nat_mutex_init := True\<rparr>)"
proof (rule statemach_step [OF env, of c st n "goto_trigger sub" NoArgs])
  show "sub_ok SRAM_SUB (c, st)" by (rule hyb_sub [OF h])
next
  fix w assume "\<not> focus_ok env"
    "statemach_fuel env (Suc n) (goto_trigger sub) NoArgs (c, st) = Some (0, c\<lparr>nat_mutex_init := True\<rparr>, st\<lparr>world := w\<rparr>)"
  then show ?thesis
    by (intro exI [of _ "c\<lparr>nat_mutex_init := True\<rparr>"] exI [of _ w] exI [of _ "active_nat_cache st"]) simp
next
  fix w
  let ?c = "c\<lparr>nat_mutex_init := True\<rparr>"
  assume run: "\<And>r c' st'. sm_cb env (statemach_fuel env n) (state_mach_tbl (curr_state c) (goto_trigger sub)) (goto_trigger sub) NoArgs
      (?c, st\<lparr>world := w\<rparr>) = Some (r, c', st') \<Longrightarrow> sub_ok SRAM_SUB (c', st') \<Longrightarrow> nat_mutex_init c' \<Longrightarrow>
      \<exists>w'. statemach_fuel env (Suc n) (goto_trigger sub) NoArgs (c, st) = Some (0, c', st'\<lparr>world := w'\<rparr>)"
  have hc: "hyb (?c, st\<lparr>world := w\<rparr>)" using h by simp
  obtain ret w' a where cb: "sm_cb env (statemach_fuel env n) (state_mach_tbl (curr_state ?c) (goto_trigger sub)) (goto_trigger sub) NoArgs
        (?c, st\<lparr>world := w\<rparr>) = Some (ret, if ret = 0 then SET_NATIOBJ_STATE (state_of_sub sub) ?c else ?c,
           st\<lparr>world := w\<rparr>\<lparr>active_nat_cache := a, world := w'\<rparr>)" "focus_ok env \<longrightarrow> ret = 0"
    using goto_callback [OF sm_mutexD [OF env] hc] by blast
  have "\<exists>w''. statemach_fuel env (Suc n) (goto_trigger sub) NoArgs (c, st) =
      Some (0, if ret = 0 then SET_NATIOBJ_STATE (state_of_sub sub) ?c else ?c, st\<lparr>active_nat_cache := a, world := w''\<rparr>)"
    using run [OF cb(1) [simplified]] hyb_sub [OF h, of SRAM_SUB] by simp
  then show ?thesis using cb(2) by (auto split: if_splits)
qed

text \<open>What a switch that ran did: the rules of the active memory are copied to the other one, which
  becomes the active one.  \<open>ok\<close> tells whether all of them were copied; the switch counters record it.  A device
  that refuses the change of focus does not prevent the copy, only the change of state.\<close>

definition copied :: "('w, 'z) nat_env_scheme \<Rightarrow> 'w sm_state \<Rightarrow> bool \<Rightarrow> 'w sm_state \<Rightarrow> bool" where
  "copied env s ok s' \<longleftrightarrow>
     (let c = fst s; c' = fst s'; src = CHOOSE_MEM_SUB c; dst = other_sub src in
      hyb s' \<and> nat_mutex_init c' \<and> same_io c c' \<and> st_pdns (snd s') = st_pdns (snd s) \<and>
      (curr_state c' = state_of_sub dst \<or> \<not> focus_ok env \<and> curr_state c' = state_of_sub src) \<and>
      sub_view src s' = sub_view src s \<and> sub_view dst s' \<subseteq>\<^sub>m sub_view src s \<and>
      (ok \<longrightarrow> sub_view dst s' = sub_view src s) \<and> sw_stats c' = sw_stats (count_switch src ok c))"

lemma clear_maps_eq: "clear_maps sub (count_rule sub (\<lambda>_. 0) c) = Some (put_handles sub (0, Map.empty, Map.empty) c)"
  by (simp add: clear_maps_def put_handles_def count_rule_def)

lemma switch_callback_eq:
  assumes h: "hyb (c, st)" and src: "src = CHOOSE_MEM_SUB c" and dst: "dst = other_sub src"
    and rec: "rec (goto_trigger dst) NoArgs (c, st) = Some (0, c1, st1)" and io: "same_io c c1"
  shows "sm_cb env rec (state_mach_tbl (curr_state c) NATI_TRIG_TBL_SWITCH) trig NoArgs (c, st) =
     do { (ret, c', st') \<leftarrow> ipa_nati_copy_ipv4_tbl env (tbl_hdl (nmi_of_sub src)) (tbl_hdl (nmi_of_sub dst)) (Some (migrate_rule env))
            (put_handles dst (0, Map.empty, Map.empty) c1) st1;
          Some (ret, count_switch src (ret = 0) c', st') }"
proof -
  have hd: "ddr_tbl_hdl c1 = tbl_hdl IPA_NAT_MEM_IN_DDR" "sram_tbl_hdl c1 = tbl_hdl IPA_NAT_MEM_IN_SRAM"
    using h io by (simp_all add: hyb_def same_io_def)
  have ph: "ddr_tbl_hdl (put_handles dst ms c1) = ddr_tbl_hdl c1" "sram_tbl_hdl (put_handles dst ms c1) = sram_tbl_hdl c1" for ms
    by (cases ms; simp add: put_handles_def)+
  show ?thesis
  proof (cases src)
    case DDR_SUB
    then have d: "dst = SRAM_SUB" "curr_state c = NATI_STATE_HYBRID_DDR" "CHOOSE_MEM_SUB c = DDR_SUB"
      using hyb_curr [OF h] src dst by (simp_all add: state_of_sub_def)
    show ?thesis using rec hd ph DDR_SUB unfolding d
      by (simp add: sm_cb_def smSwitchFromDdrToSram_def collect_stats_def goto_trigger_def clear_maps_eq d(3))
  next
    case SRAM_SUB
    then have d: "dst = DDR_SUB" "curr_state c = NATI_STATE_HYBRID" "CHOOSE_MEM_SUB c = SRAM_SUB"
      using hyb_curr [OF h] src dst by (simp_all add: state_of_sub_def)
    show ?thesis using rec hd ph SRAM_SUB unfolding d
      by (simp add: sm_cb_def smSwitchFromSramToDdr_def collect_stats_def goto_trigger_def clear_maps_eq d(3))
  qed
qed

lemma put_handles_maps [simp]:
  "o2n_of sub (put_handles sub (n, o2n, n2o) c) = o2n" "n2o_of sub (put_handles sub (n, o2n, n2o) c) = n2o"
  "sub' \<noteq> sub \<Longrightarrow> o2n_of sub' (put_handles sub (n, o2n, n2o) c) = o2n_of sub' c"
  by (simp_all add: put_handles_def)

lemma switch_callback:
  fixes env :: "('w, 'z) sm_env_scheme"
  assumes env: "sm_mutex_ok env" "dma_device env" and h: "hyb (c, st)" and i: "nat_mutex_init c"
  shows "\<exists>ret c' st'. sm_cb env (statemach_fuel env (Suc n)) (state_mach_tbl (curr_state c) NATI_TRIG_TBL_SWITCH) trig NoArgs (c, st) =
       Some (ret, c', st') \<and> copied env (c, st) (ret = 0) (c', st')"
proof -
  define src where "src = CHOOSE_MEM_SUB c"
  define dst where "dst = other_sub src"
  have se: "store_env env" using env by (simp add: store_env_def sm_mutexD)
  have c_i: "c\<lparr>nat_mutex_init := True\<rparr> = c" using i by simp
  obtain c1 w a where g: "statemach_fuel env (Suc n) (goto_trigger dst) NoArgs (c, st) =
        Some (0, c1, st\<lparr>active_nat_cache := a, world := w\<rparr>)"
      "c1 = SET_NATIOBJ_STATE (state_of_sub dst) c \<or> \<not> focus_ok env \<and> c1 = c"
    using goto_outcome [OF env(1) h, of n dst] unfolding c_i by blast
  let ?st1 = "st\<lparr>active_nat_cache := a, world := w\<rparr>" and ?c2 = "put_handles dst (0, Map.empty, Map.empty) c1"
  have io: "same_io c c1" "nat_mutex_init c1" "sw_stats c1 = sw_stats c" using g(2) i by auto
  have maps: "map_array c1 = map_array c" using g(2) by (auto simp: SET_NATIOBJ_STATE_def)
  have neq: "src \<noteq> dst" by (simp add: dst_def)
  have m: "maps_inv (o2n_of src ?c2) (n2o_of src ?c2) (store_rules (nmi_of_sub src) ?st1)"
    using hyb_sub [OF h, of src] neq maps by (simp add: sub_ok_def)
  obtain ret j o2n n2o st3 where cp: "ipa_nati_copy_ipv4_tbl env (tbl_hdl (nmi_of_sub src)) (tbl_hdl (nmi_of_sub dst)) (Some (migrate_rule env)) ?c2 ?st1 =
       Some (ret, put_handles dst (of_nat j, o2n, n2o) ?c2, st3)"
     "store_ok (nmi_of_sub dst) st3" "same_but (nmi_of_sub dst) ?st1 st3" "maps_inv o2n n2o (store_rules (nmi_of_sub dst) st3)"
     "client_view o2n (store_rules (nmi_of_sub dst) st3) \<subseteq>\<^sub>m client_view (o2n_of src ?c2) (store_rules (nmi_of_sub src) ?st1)"
     "ret = 0 \<longrightarrow> client_view o2n (store_rules (nmi_of_sub dst) st3) = client_view (o2n_of src ?c2) (store_rules (nmi_of_sub src) ?st1)"
    using copy_tbl_outcome [OF se _ _ dst_def m] hyb_store [OF h] by fastforce
  let ?c3 = "count_switch src (ret = 0) (put_handles dst (of_nat j, o2n, n2o) c1)"
  have run: "sm_cb env (statemach_fuel env (Suc n)) (state_mach_tbl (curr_state c) NATI_TRIG_TBL_SWITCH) trig NoArgs (c, st) =
      Some (ret, ?c3, st3)"
    unfolding switch_callback_eq [OF h src_def dst_def, of "statemach_fuel env (Suc n)", OF g(1) io(1)] cp(1) by simp
  have so: "store_ok (nmi_of_sub src) st3 = store_ok (nmi_of_sub src) st" "store_rules (nmi_of_sub src) st3 = store_rules (nmi_of_sub src) st"
    using store_other [OF cp(3), of "nmi_of_sub src"] by (simp_all add: dst_def)
  have okd: "sub_ok dst (?c3, st3)" using cp(2,4) by (simp add: sub_ok_def)
  have oks: "sub_ok src (?c3, st3)" using so hyb_sub [OF h, of src] neq maps by (simp add: sub_ok_def)
  have vs: "sub_view src (?c3, st3) = sub_view src (c, st)" using so neq maps by (simp add: sub_view_def)
  have vd: "sub_view dst (?c3, st3) \<subseteq>\<^sub>m sub_view src (c, st)" "ret = 0 \<longrightarrow> sub_view dst (?c3, st3) = sub_view src (c, st)"
    using cp(5,6) neq maps by (simp_all add: sub_view_def)
  have cs: "curr_state ?c3 = state_of_sub dst \<or> \<not> focus_ok env \<and> curr_state ?c3 = state_of_sub src"
    using g(2) hyb_curr [OF h] by (auto simp: src_def)
  have io3: "same_io c ?c3" "nat_mutex_init ?c3" using io by simp_all
  have hd: "ddr_tbl_hdl ?c3 = ddr_tbl_hdl c" "sram_tbl_hdl ?c3 = sram_tbl_hdl c"
    using io3(1) unfolding same_io_def by blast+
  have "hyb (?c3, st3)"
    using okd oks cs h hd by (cases src) (auto simp: hyb_def dst_def IN_HYBRID_STATE_def state_of_sub_def)
  moreover have "sw_stats ?c3 = sw_stats (count_switch src (ret = 0) c)" using io(3) by (simp add: count_switch_def Let_def)
  moreover have "st_pdns st3 = st_pdns st" using cp(3) by (simp add: same_but_def)
  ultimately have "copied env (c, st) (ret = 0) (?c3, st3)"
    using cs vs vd io3 unfolding copied_def src_def dst_def by (simp add: Let_def)
  then show ?thesis using run by blast
qed

lemma switch_outcome:
  fixes env :: "('w, 'z) sm_env_scheme"
  assumes env: "sm_mutex_ok env" "dma_device env" and h: "hyb (c, st)"
  obtains (refused) w where "\<not> focus_ok env"
      "statemach_fuel env (Suc (Suc n)) NATI_TRIG_TBL_SWITCH NoArgs (c, st) = Some (0, c\<lparr>nat_mutex_init := True\<rparr>, st\<lparr>world := w\<rparr>)"
  | (ran) c' st' ok where
      "statemach_fuel env (Suc (Suc n)) NATI_TRIG_TBL_SWITCH NoArgs (c, st) = Some (0, c', st')" "copied env (c, st) ok (c', st')"
proof (rule statemach_step [OF env(1) hyb_sub [OF h], of "Suc n" NATI_TRIG_TBL_SWITCH NoArgs])
  fix w
  let ?c = "c\<lparr>nat_mutex_init := True\<rparr>"
  assume run: "\<And>r c' st'. sm_cb env (statemach_fuel env (Suc n)) (state_mach_tbl (curr_state c) NATI_TRIG_TBL_SWITCH) NATI_TRIG_TBL_SWITCH NoArgs
      (?c, st\<lparr>world := w\<rparr>) = Some (r, c', st') \<Longrightarrow> sub_ok SRAM_SUB (c', st') \<Longrightarrow> nat_mutex_init c' \<Longrightarrow>
      \<exists>w'. statemach_fuel env (Suc (Suc n)) NATI_TRIG_TBL_SWITCH NoArgs (c, st) = Some (0, c', st'\<lparr>world := w'\<rparr>)"
  obtain ret c' st' where cb: "sm_cb env (statemach_fuel env (Suc n)) (state_mach_tbl (curr_state c) NATI_TRIG_TBL_SWITCH) NATI_TRIG_TBL_SWITCH NoArgs
      (?c, st\<lparr>world := w\<rparr>) = Some (ret, c', st')" "copied env (?c, st\<lparr>world := w\<rparr>) (ret = 0) (c', st')"
    using switch_callback [OF env, of ?c "st\<lparr>world := w\<rparr>" n NATI_TRIG_TBL_SWITCH] h by auto
  then have "sub_ok SRAM_SUB (c', st')" "nat_mutex_init c'" by (auto simp: copied_def Let_def hyb_sub)
  then obtain w' where "statemach_fuel env (Suc (Suc n)) NATI_TRIG_TBL_SWITCH NoArgs (c, st) = Some (0, c', st'\<lparr>world := w'\<rparr>)"
    using run [OF cb(1)] by blast
  moreover have "copied env (c, st) (ret = 0) (c', st'\<lparr>world := w'\<rparr>)"
    using cb(2) by (simp add: copied_def Let_def CHOOSE_MEM_SUB_def count_switch_def same_io_def)
  ultimately show thesis using ran by blast
qed (use refused in blast)

end
