(* ===== verification/Nat_Hybrid_Ok.thy ===== *)
theory Nat_Hybrid_Ok
  imports Nat_Statemach_Ok
begin

text \<open>
  The client operations of the state machine in hybrid mode, against an abstract table: a map from the
  handles of the client to its rules.
\<close>

section \<open>Adding to the active memory\<close>

text \<open>What the state machine sends of the client's rule, and how the client sees it afterwards.\<close>

definition sent_rule :: "ipa_nat_ipv4_rule \<Rightarrow> ipa_nat_ipv4_rule" where
  "sent_rule u = u\<lparr>u_redirect := 0, u_enable := 0, u_time_stamp := 0\<rparr>"

definition seen_rule :: "ipa_nat_ipv4_rule \<Rightarrow> ipa_nat_ipv4_rule" where
  "seen_rule u = u\<lparr>u_redirect := 0, u_enable := 1, u_time_stamp := 0,
     u_uc_activation_index := ucast (ucast (u_uc_activation_index u) :: 13 word)\<rparr>"

lemma pdn_fits_nibble:
  assumes "pdn_fits u"
  shows "ucast (ucast (u_pdn_index u) :: 4 word) = u_pdn_index u"
  using assms by (simp add: word_unat_eq_iff pdn_fits_def IPA_MAX_PDN_NUM_def unsigned_ucast_eq take_bit_eq_mod unat_mod)

lemma sent_rule_seen:
  assumes "pdn_fits u" "length pdns = IPA_MAX_PDN_NUM"
  shows "client_rule (stored_rule pdns (sent_rule u)) = seen_rule u"
proof -
  have "pdn_in_range pdns (sent_rule u)" using assms by (simp add: pdn_in_range_def pdn_fits_def sent_rule_def)
  then show ?thesis
    using pdn_fits_nibble [OF assms(1)] by (simp add: client_rule_stored sent_rule_def seen_rule_def)
qed

lemma sent_rule_simps [simp]:
  "sent_rule (sent_rule u) = sent_rule u" "seen_rule (sent_rule u) = seen_rule u" "pdn_fits (sent_rule u) = pdn_fits u"
  by (simp_all add: sent_rule_def seen_rule_def pdn_fits_def)

text \<open>A rule the driver layer refuses: its protocol is the reserved one or its PDN has no address.\<close>

definition rule_bad :: "ipa_nat_pdn_entry list \<Rightarrow> ipa_nat_ipv4_rule \<Rightarrow> bool" where
  "rule_bad pdns u \<longleftrightarrow> u_protocol u = IPAHAL_NAT_INVALID_PROTOCOL \<or> pdn_public_ip (pdns ! unat (u_pdn_index u)) = 0"

lemma rule_bad_sent [simp]: "rule_bad pdns (sent_rule u) = rule_bad pdns u"
  by (simp add: rule_bad_def sent_rule_def)

lemma hybrid_hdl_active:
  "hyb (c, st) \<Longrightarrow> hybrid_hdl (tbl_hdl IPA_NAT_MEM_IN_SRAM) c = tbl_hdl (nmi_of_sub (CHOOSE_MEM_SUB c))"
  by (auto simp: hyb_def hybrid_hdl_def CHOOSE_MEM_SUB_def)

lemma add_to_active:
  fixes env :: "('w, 'z) sm_env_scheme"
  assumes env: "store_env env" and h: "hyb (c, st)" and u: "pdn_fits (io_clnt_rule c)" and sub: "sub = CHOOSE_MEM_SUB c"
  defines "nmi \<equiv> nmi_of_sub sub"
  shows "\<exists>ret rh st'. smAddRuleToTbl env (TblArgs (tbl_hdl nmi)) (c, st) =
      Some (ret, let c1 = c\<lparr>io_clnt_rule := sent_rule (io_clnt_rule c), io_rule_hdl := rh\<rparr>
                 in if ret = 0 then count_rule sub (\<lambda>n. n + 1) c1 else c1, st') \<and>
    store_ok nmi st' \<and> same_but nmi st st' \<and> (rule_bad (st_pdns st) (io_clnt_rule c) \<longrightarrow> ret \<noteq> 0) \<and>
    (if ret = 0 then store_rules nmi st rh = None \<and>
       store_rules nmi st' = (store_rules nmi st)(rh \<mapsto> stored_rule (st_pdns st) (sent_rule (io_clnt_rule c)))
     else rh = 0 \<and> store_rules nmi st' = store_rules nmi st)"
proof -
  obtain ret rh st' where a: "store_add nmi env (sent_rule (io_clnt_rule c)) st = Some (ret, rh, st')"
      "store_ok nmi st' \<and> same_but nmi st st' \<and>
       (if ret = 0 then store_rules nmi st rh = None \<and>
          store_rules nmi st' = (store_rules nmi st)(rh \<mapsto> stored_rule (st_pdns st) (sent_rule (io_clnt_rule c)))
        else rh = 0 \<and> store_rules nmi st' = store_rules nmi st)"
    using store_add_outcome [OF env hyb_store [OF h, of sub], of "sent_rule (io_clnt_rule c)"] u unfolding nmi_def by auto
  have nmi: "nmi \<noteq> IPA_NAT_MEM_IN_MAX" by (simp add: nmi_def)
  have "unat (u_pdn_index (sent_rule (io_clnt_rule c))) < length (st_pdns st)"
    using u hyb_store [OF h, of sub] by (simp add: store_ok_def pdn_fits_def sent_rule_def)
  then have "rule_bad (st_pdns st) (io_clnt_rule c) \<longrightarrow> ret \<noteq> 0"
    using add_rule_refused [OF nmi, of "sent_rule (io_clnt_rule c)" st env] a(1) rule_bad_sent [of "st_pdns st" "io_clnt_rule c"]
    by (auto simp: rule_bad_def)
  moreover have "VALID_TBL_HDL (tbl_hdl nmi)" by (rule tbl_hdl_facts [OF nmi])
  ultimately show ?thesis
    using a unfolding sent_rule_def sub
    by (auto simp: smAddRuleToTbl_def CHOOSE_MEM_SUB_def Let_def)
qed

text \<open>What a client sees of an addition: the rule under a new handle, or nothing changed and the handle 0, or
  nothing changed and a handle that another rule of the client has.\<close>

definition rule_added_view ::
  "(u32 \<rightharpoonup> ipa_nat_ipv4_rule) \<Rightarrow> ipa_nat_ipv4_rule \<Rightarrow> u32 \<Rightarrow> (u32 \<rightharpoonup> ipa_nat_ipv4_rule) \<Rightarrow> bool" where
  "rule_added_view v r rh v' \<longleftrightarrow> v rh = None \<and> v' = v(rh \<mapsto> r) \<or> v' = v \<and> (rh = 0 \<or> v rh \<noteq> None)"

definition same_mode :: "sm_ctl \<Rightarrow> sm_ctl \<Rightarrow> bool" where
  "same_mode c c' \<longleftrightarrow> curr_state c' = curr_state c \<and> hold_state c' = hold_state c \<and> sw_stats c' = sw_stats c \<and>
     back_to_sram_thresh c' = back_to_sram_thresh c \<and> nat_mutex_init c' = nat_mutex_init c \<and>
     ddr_tbl_hdl c' = ddr_tbl_hdl c \<and> sram_tbl_hdl c' = sram_tbl_hdl c"

definition added_here :: "'w sm_state \<Rightarrow> 'w sm_state \<Rightarrow> bool" where
  "added_here s s' \<longleftrightarrow> hyb s' \<and> same_mode (fst s) (fst s') \<and> st_pdns (snd s') = st_pdns (snd s) \<and>
     sub_view (other_sub (CHOOSE_MEM_SUB (fst s))) s' = sub_view (other_sub (CHOOSE_MEM_SUB (fst s))) s \<and>
     rule_added_view (sm_view s) (seen_rule (io_clnt_rule (fst s))) (io_rule_hdl (fst s')) (sm_view s') \<and>
     (rule_bad (st_pdns (snd s)) (io_clnt_rule (fst s)) \<longrightarrow> io_rule_hdl (fst s') = 0 \<and> sm_view s' = sm_view s)"

text \<open>A change of one memory and of its maps keeps the invariant.\<close>

lemma hyb_change:
  assumes h: "hyb (c, st)" and md: "same_mode c c'" and sb: "same_but (nmi_of_sub sub) st st'"
    and ok: "sub_ok sub (c', st')"
    and mp: "o2n_of (other_sub sub) c' = o2n_of (other_sub sub) c" "n2o_of (other_sub sub) c' = n2o_of (other_sub sub) c"
  shows "hyb (c', st')" "sub_view (other_sub sub) (c', st') = sub_view (other_sub sub) (c, st)"
    "st_pdns st' = st_pdns st"
proof -
  note so = store_other [OF sb nmi_of_sub_simps(4)]
  have "sub_ok (other_sub sub) (c', st')" using hyb_sub [OF h, of "other_sub sub"] so mp by (simp add: sub_ok_def)
  then have "\<forall>x. sub_ok x (c', st')" using ok by (metis (full_types) mem_sub.exhaust other_sub_neq(3,4))
  then show "hyb (c', st')" using h md by (simp add: hyb_def same_mode_def IN_HYBRID_STATE_def)
  show "sub_view (other_sub sub) (c', st') = sub_view (other_sub sub) (c, st)" using so mp by (simp add: sub_view_def)
  show "st_pdns st' = st_pdns st" using sb by (simp add: same_but_def)
qed

lemma add_hybrid_cb:
  fixes env :: "('w, 'z) sm_env_scheme"
  assumes env: "store_env env" and h: "hyb (c, st)" and u: "pdn_fits (io_clnt_rule c)"
  defines "args \<equiv> TblArgs (tbl_hdl IPA_NAT_MEM_IN_SRAM)"
  obtains (here) r c' st' where "smAddRuleHybrid env rec trig args (c, st) = Some (r, c', st')" "added_here (c, st) (c', st')"
      "rule_bad (st_pdns st) (io_clnt_rule c) \<longrightarrow> curr_state c = NATI_STATE_HYBRID \<longrightarrow> hold_state c"
  | (full) c' st' where "curr_state c = NATI_STATE_HYBRID" "\<not> hold_state c" "added_here (c, st) (c', st')" "io_rule_hdl c' = 0"
      "sm_view (c', st') = sm_view (c, st)" "io_clnt_rule c' = sent_rule (io_clnt_rule c)"
      "smAddRuleHybrid env rec trig args (c, st) = do {
         (ret, c, st) \<leftarrow> rec NATI_TRIG_TBL_SWITCH NoArgs (c', st');
         if ret = 0 then rec trig args (SET_NATIOBJ_STATE NATI_STATE_HYBRID_DDR c, st) else Some (ret, c, st) }"
proof -
  define sub where "sub = CHOOSE_MEM_SUB c"
  let ?nmi = "nmi_of_sub sub" and ?u = "sent_rule (io_clnt_rule c)"
  obtain ret rh st' where a: "smAddRuleToTbl env (TblArgs (tbl_hdl ?nmi)) (c, st) =
      Some (ret, let c1 = c\<lparr>io_clnt_rule := ?u, io_rule_hdl := rh\<rparr> in if ret = 0 then count_rule sub (\<lambda>n. n + 1) c1 else c1, st')"
    "store_ok ?nmi st'" "same_but ?nmi st st'" "rule_bad (st_pdns st) (io_clnt_rule c) \<longrightarrow> ret \<noteq> 0"
    "if ret = 0 then store_rules ?nmi st rh = None \<and> store_rules ?nmi st' = (store_rules ?nmi st)(rh \<mapsto> stored_rule (st_pdns st) ?u)
     else rh = 0 \<and> store_rules ?nmi st' = store_rules ?nmi st"
    using add_to_active [OF env h u sub_def] by blast
  let ?c1 = "c\<lparr>io_clnt_rule := ?u, io_rule_hdl := rh\<rparr>"
  have m: "maps_inv (o2n_of sub c) (n2o_of sub c) (store_rules ?nmi st)" using hyb_sub [OF h] by (simp add: sub_ok_def)
  have seen: "client_rule (stored_rule (st_pdns st) ?u) = seen_rule (io_clnt_rule c)"
    using u hyb_store [OF h, of sub] by (intro sent_rule_seen) (simp_all add: store_ok_def)
  have hd: "hybrid_hdl (tbl_hdl IPA_NAT_MEM_IN_SRAM) c = tbl_hdl ?nmi" using hybrid_hdl_active [OF h] sub_def by simp
  have sm: "CHOOSE_MEM_SUB c' = sub" if "same_mode c c'" for c' using that sub_def by (simp add: CHOOSE_MEM_SUB_def same_mode_def)
  have result: "added_here (c, st) (c', st')"
    if md: "same_mode c c'" and ok: "maps_inv (o2n_of sub c') (n2o_of sub c') (store_rules ?nmi st')"
      and mp: "o2n_of (other_sub sub) c' = o2n_of (other_sub sub) c" "n2o_of (other_sub sub) c' = n2o_of (other_sub sub) c"
      and rv: "rule_added_view (sub_view sub (c, st)) (seen_rule (io_clnt_rule c)) (io_rule_hdl c') (sub_view sub (c', st'))"
      and bd: "rule_bad (st_pdns st) (io_clnt_rule c) \<longrightarrow> io_rule_hdl c' = 0 \<and> sub_view sub (c', st') = sub_view sub (c, st)"
    for c'
    using hyb_change [OF h md a(3) _ mp] a(2) ok md rv bd sm [OF md] sub_def
    by (simp add: added_here_def sub_ok_def sm_view_def)
  show thesis
  proof (cases "ret = 0")
    case False
    have r: "rh = 0" "store_rules ?nmi st' = store_rules ?nmi st" using a(5) False by simp_all
    have ah: "added_here (c, st) (?c1, st')"
      by (rule result) (use m r in \<open>simp_all add: same_mode_def rule_added_view_def sub_view_def\<close>)
    show thesis
    proof (cases "curr_state c = NATI_STATE_HYBRID \<and> \<not> hold_state c")
      case True
      show thesis
      proof (rule full [of ?c1 st'])
        show "sm_view (?c1, st') = sm_view (c, st)" using r sm [of ?c1] sub_def by (simp add: sm_view_def same_mode_def sub_view_def)
        show "smAddRuleHybrid env rec trig args (c, st) = do {
           (ret, c, st) \<leftarrow> rec NATI_TRIG_TBL_SWITCH NoArgs (?c1, st');
           if ret = 0 then rec trig args (SET_NATIOBJ_STATE NATI_STATE_HYBRID_DDR c, st) else Some (ret, c, st) }"
          using a(1) False True hd unfolding args_def by (simp add: smAddRuleHybrid_def)
      qed (use True ah r in simp_all)
    next
      case F: False
      show thesis
        by (rule here [OF _ ah, of ret]) (use a(1) False F hd in \<open>auto simp: smAddRuleHybrid_def args_def\<close>)
    qed
  next
    case True
    have r: "store_rules ?nmi st rh = None" "store_rules ?nmi st' = (store_rules ?nmi st)(rh \<mapsto> stored_rule (st_pdns st) ?u)"
      using a(5) True by simp_all
    let ?c2 = "count_rule sub (\<lambda>n. n + 1) ?c1"
    have mp2: "CHOOSE_MAPS ?c2 = map_pairs sub" using sub_def by (simp add: CHOOSE_MAPS_def CHOOSE_MEM_SUB_def)
    have rh2: "io_rule_hdl ?c2 = rh" "map_array ?c2 = map_array c" by (simp_all add: count_rule_def)
    show thesis
    proof (cases "o2n_of sub c rh")
      case None
      note ma = maps_inv_add(1,3) [OF m r(1) None, of "stored_rule (st_pdns st) ?u", folded r(2)]
        and nn = maps_inv_add(2) [OF m r(1) None]
      let ?c3 = "?c2\<lparr>map_array := (map_array c)(orig2new_map (map_pairs sub) := (o2n_of sub c)(rh \<mapsto> rh),
                       new2orig_map (map_pairs sub) := (n2o_of sub c)(rh \<mapsto> rh))\<rparr>"
      have "added_here (c, st) (?c3, st')"
        by (rule result)
           (use ma None view_dom [OF hyb_sub [OF h], of sub rh] seen rh2 a(4) True in
             \<open>simp_all add: same_mode_def count_rule_def rule_added_view_def sub_view_def client_view_def fun_eq_iff\<close>)
      moreover have "smAddRuleHybrid env rec trig args (c, st) = Some (0, ?c3, st')"
        using a(1) True hd mp2 rh2 None nn by (simp add: smAddRuleHybrid_def args_def Let_def)
      ultimately show thesis using a(4) True by (intro here) simp_all
    next
      case (Some nw)
      have keep: "handle_view (o2n_of sub c) (store_rules ?nmi st') = handle_view (o2n_of sub c) (store_rules ?nmi st)"
      proof -
        have "o2n_of sub c og \<noteq> Some rh" for og using m r(1) unfolding maps_inv_def dom_def by fastforce
        then show ?thesis using r(2) by (auto simp: fun_eq_iff handle_view_def split: Option.bind_splits)
      qed
      have "added_here (c, st) (?c2, st')"
        by (rule result)
           (use m r(2) Some keep view_dom [OF hyb_sub [OF h], of sub rh] rh2 a(4) True in
             \<open>auto simp: same_mode_def count_rule_def rule_added_view_def sub_view_def client_view_def fun_eq_iff maps_inv_def\<close>)
      moreover have "smAddRuleHybrid env rec trig args (c, st) = Some (- 1, ?c2, st')"
        using a(1) True hd mp2 rh2 Some by (simp add: smAddRuleHybrid_def args_def Let_def)
      ultimately show thesis using a(4) True by (intro here) simp_all
    qed
  qed
qed

section \<open>Deleting from the active memory\<close>

definition deleted_here :: "u32 \<Rightarrow> 'w sm_state \<Rightarrow> 'w sm_state \<Rightarrow> bool" where
  "deleted_here og s s' \<longleftrightarrow> hyb s' \<and> same_mode (fst s) (fst s') \<and> same_io (fst s) (fst s') \<and> st_pdns (snd s') = st_pdns (snd s) \<and>
     sub_view (other_sub (CHOOSE_MEM_SUB (fst s))) s' = sub_view (other_sub (CHOOSE_MEM_SUB (fst s))) s \<and>
     sm_view s' = (sm_view s)(og := None)"

lemma del_hybrid_cb:
  fixes env :: "('w, 'z) sm_env_scheme" and og :: u32
  assumes mtx: "mutex_ok env" and dev: "dma_reliable env" and h: "hyb (c, st)"
  defines "args \<equiv> RuleArgs (tbl_hdl IPA_NAT_MEM_IN_SRAM) og"
  obtains (here) r c' st' where "smDelRuleHybrid env rec args (c, st) = Some (r, c', st')" "deleted_here og (c, st) (c', st')"
  | (to_sram) c' st' where "curr_state c = NATI_STATE_HYBRID_DDR" "\<not> hold_state c" "deleted_here og (c, st) (c', st')"
      "smDelRuleHybrid env rec args (c, st) = do {
         (ret, c, st) \<leftarrow> rec NATI_TRIG_TBL_SWITCH NoArgs (c', st');
         Some (0, if ret = 0 then SET_NATIOBJ_STATE NATI_STATE_HYBRID c else c, st) }"
proof -
  define sub where "sub = CHOOSE_MEM_SUB c"
  let ?nmi = "nmi_of_sub sub"
  have mp: "CHOOSE_MAPS c = map_pairs sub" by (simp add: CHOOSE_MAPS_def sub_def)
  have m: "maps_inv (o2n_of sub c) (n2o_of sub c) (store_rules ?nmi st)" using hyb_sub [OF h] by (simp add: sub_ok_def)
  have hd: "hybrid_hdl (tbl_hdl IPA_NAT_MEM_IN_SRAM) c = tbl_hdl ?nmi" using hybrid_hdl_active [OF h] sub_def by simp
  show thesis
  proof (cases "o2n_of sub c og")
    case None
    then have "sm_view (c, st) og = None" using view_dom [OF hyb_sub [OF h]] by (simp add: sm_view_def sub_def)
    then have "deleted_here og (c, st) (c, st)" using h by (simp add: deleted_here_def same_mode_def fun_upd_idem)
    moreover have "smDelRuleHybrid env rec args (c, st) = Some (- 1, c, st)"
      using None mp by (simp add: smDelRuleHybrid_def args_def Let_def)
    ultimately show thesis by (rule here [rotated])
  next
    case (Some nw)
    note md = maps_inv_del [OF m Some]
    obtain rr where rr: "store_rules ?nmi st nw = Some rr" using md(2) by blast
    obtain st' where d: "ipa_NATI_del_ipv4_rule env (tbl_hdl ?nmi) nw st = Some (0, st')" "store_ok ?nmi st'"
        "same_but ?nmi st st'" "store_rules ?nmi st' = (store_rules ?nmi st)(nw := None)"
      using store_del_outcome [OF mtx dev hyb_store [OF h] rr] by blast
    let ?c1 = "c\<lparr>map_array := (map_array c)(orig2new_map (map_pairs sub) := (o2n_of sub c)(og := None),
                     new2orig_map (map_pairs sub) := (n2o_of sub c)(nw := None))\<rparr>"
    let ?c2 = "count_rule sub (\<lambda>n. n - 1) ?c1"
    have sm: "same_mode c ?c2" by (simp add: same_mode_def count_rule_def)
    have sub2: "CHOOSE_MEM_SUB ?c2 = sub" by (simp add: CHOOSE_MEM_SUB_def sub_def)
    have ok2: "sub_ok sub (?c2, st')" using d(2,4) md(1) by (simp add: sub_ok_def)
    have v: "sub_view sub (?c2, st') = (sub_view sub (c, st))(og := None)"
      by (rule ext) (simp add: sub_view_def client_view_def d(4) md(4))
    have dh: "deleted_here og (c, st) (?c2, st')"
      using hyb_change [OF h sm d(3) ok2] sm sub2 v by (simp add: deleted_here_def sm_view_def sub_def)
    have del: "smDelRuleFromTbl env (RuleArgs (tbl_hdl ?nmi) nw) (?c1, st) = Some (0, ?c2, st')"
      using d(1) by (simp add: smDelRuleFromTbl_def CHOOSE_MEM_SUB_def sub_def)
    have hd1: "hybrid_hdl (tbl_hdl IPA_NAT_MEM_IN_SRAM) ?c1 = tbl_hdl ?nmi" using hd by (simp add: hybrid_hdl_def split: if_splits)
    let ?to_sram = "curr_state ?c2 = NATI_STATE_HYBRID_DDR \<and> tot_rules_in_table ?c2 sub \<le> back_to_sram_thresh ?c2 \<and> \<not> hold_state ?c2"
    have eq: "smDelRuleHybrid env rec args (c, st) = (if ?to_sram
        then do { (ret, c, st) \<leftarrow> rec NATI_TRIG_TBL_SWITCH NoArgs (?c2, st');
                  Some (0, if ret = 0 then SET_NATIOBJ_STATE NATI_STATE_HYBRID c else c, st) }
        else Some (0, ?c2, st'))"
      using Some mp md(3) del hd1 sub2 by (simp add: smDelRuleHybrid_def args_def Let_def)
    show thesis
    proof (cases ?to_sram)
      case True
      show thesis by (rule to_sram [OF _ _ dh]) (use True eq sm in \<open>simp_all add: same_mode_def\<close>)
    next
      case False
      show thesis by (rule here [OF _ dh]) (simp only: eq if_not_P [OF False])
    qed
  qed
qed

section \<open>The operations\<close>

text \<open>The table of a client after an operation that may have moved it: \<open>v\<close> is what the move left of it, all of
  it unless a failed switch was counted.\<close>

definition no_failed_switch :: "'w sm_state \<Rightarrow> 'w sm_state \<Rightarrow> bool" where
  "no_failed_switch s s' \<longleftrightarrow> (\<forall>sub. sw_fail (sw_stats (fst s') sub) = sw_fail (sw_stats (fst s) sub))"

definition moved :: "'w sm_state \<Rightarrow> (u32 \<rightharpoonup> ipa_nat_ipv4_rule) \<Rightarrow> (u32 \<rightharpoonup> ipa_nat_ipv4_rule) \<Rightarrow> 'w sm_state \<Rightarrow> bool" where
  "moved s v v' s' \<longleftrightarrow> v' \<subseteq>\<^sub>m v \<and> (no_failed_switch s s' \<longrightarrow> v' = v)"

text \<open>What every operation on a hybrid state keeps.\<close>

definition client_op :: "'w sm_state \<Rightarrow> 'w sm_state \<Rightarrow> bool" where
  "client_op s s' \<longleftrightarrow> hyb s' \<and> st_pdns (snd s') = st_pdns (snd s) \<and> hold_state (fst s') = hold_state (fst s)"

lemma client_op_world [simp]: "client_op s (c, st\<lparr>world := w\<rparr>) = client_op s (c, st)"
  by (simp add: client_op_def)

lemma copied_moved:
  assumes "copied env s ok s'" "focus_ok env"
  shows "moved s (sm_view s) (sm_view s') s'" "CHOOSE_MEM_SUB (fst s') = other_sub (CHOOSE_MEM_SUB (fst s))"
proof -
  let ?src = "CHOOSE_MEM_SUB (fst s)"
  have c: "curr_state (fst s') = state_of_sub (other_sub ?src)" "sub_view (other_sub ?src) s' \<subseteq>\<^sub>m sub_view ?src s"
      "ok \<longrightarrow> sub_view (other_sub ?src) s' = sub_view ?src s" "sw_stats (fst s') = sw_stats (count_switch ?src ok (fst s))"
    using assms by (simp_all add: copied_def Let_def)
  show d: "CHOOSE_MEM_SUB (fst s') = other_sub ?src"
    using c(1) by (cases "other_sub ?src") (simp_all add: CHOOSE_MEM_SUB_def [of "fst s'"] state_of_sub_def)
  have "no_failed_switch s s' \<longrightarrow> ok" using c(4) by (auto simp: no_failed_switch_def count_switch_def Let_def)
  then show "moved s (sm_view s) (sm_view s') s'" using c d by (simp add: moved_def sm_view_def)
qed

definition locked :: "sm_ctl \<Rightarrow> sm_ctl" where
  "locked c = c\<lparr>nat_mutex_init := True\<rparr>"

lemma locked_simps [simp]:
  "hyb (locked c, st) = hyb (c, st)" "sm_view (locked c, st) = sm_view (c, st)" "nat_mutex_init (locked c)"
  "curr_state (locked c) = curr_state c" "hold_state (locked c) = hold_state c" "sw_stats (locked c) = sw_stats c"
  "io_clnt_rule (locked c) = io_clnt_rule c" "CHOOSE_MEM_SUB (locked c) = CHOOSE_MEM_SUB c" "sub_view sub (locked c, st) = sub_view sub (c, st)"
  "io_rule_hdl (locked c) = io_rule_hdl c" "back_to_sram_thresh (locked c) = back_to_sram_thresh c"
  by (simp_all add: locked_def CHOOSE_MEM_SUB_def)

lemma add_hybrid_step:
  fixes env :: "('w, 'z) sm_env_scheme"
  assumes env: "sm_mutex_ok env" "dma_device env" and h: "hyb (c, st)" and u: "pdn_fits (io_clnt_rule c)"
  defines "args \<equiv> TblArgs (tbl_hdl IPA_NAT_MEM_IN_SRAM)"
  obtains (refused) w where "\<not> focus_ok env"
      "statemach_fuel env (Suc n) NATI_TRIG_ADD_RULE args (c, st) = Some (0, locked c, st\<lparr>world := w\<rparr>)"
  | (here) c' st' where "statemach_fuel env (Suc n) NATI_TRIG_ADD_RULE args (c, st) = Some (0, c', st')"
      "added_here (locked c, st) (c', st')"
      "rule_bad (st_pdns st) (io_clnt_rule c) \<longrightarrow> curr_state c = NATI_STATE_HYBRID \<longrightarrow> hold_state c"
  | (full) c' st' where "curr_state c = NATI_STATE_HYBRID" "\<not> hold_state c" "added_here (locked c, st) (c', st')" "io_rule_hdl c' = 0"
      "sm_view (c', st') = sm_view (c, st)" "io_clnt_rule c' = sent_rule (io_clnt_rule c)"
      "\<And>r c2 st2. do { (ret, c, st) \<leftarrow> statemach_fuel env n NATI_TRIG_TBL_SWITCH NoArgs (c', st');
           if ret = 0 then statemach_fuel env n NATI_TRIG_ADD_RULE args (SET_NATIOBJ_STATE NATI_STATE_HYBRID_DDR c, st)
           else Some (ret, c, st) } = Some (r, c2, st2) \<Longrightarrow> hyb (c2, st2) \<Longrightarrow> nat_mutex_init c2 \<Longrightarrow>
         \<exists>w'. statemach_fuel env (Suc n) NATI_TRIG_ADD_RULE args (c, st) = Some (0, c2, st2\<lparr>world := w'\<rparr>)"
proof (rule statemach_step [OF env(1) hyb_sub [OF h], of n NATI_TRIG_ADD_RULE args, folded locked_def])
  fix w
  assume run: "\<And>r c' st'. sm_cb env (statemach_fuel env n) (state_mach_tbl (curr_state c) NATI_TRIG_ADD_RULE) NATI_TRIG_ADD_RULE args
      (locked c, st\<lparr>world := w\<rparr>) = Some (r, c', st') \<Longrightarrow> sub_ok SRAM_SUB (c', st') \<Longrightarrow> nat_mutex_init c' \<Longrightarrow>
      \<exists>w'. statemach_fuel env (Suc n) NATI_TRIG_ADD_RULE args (c, st) = Some (0, c', st'\<lparr>world := w'\<rparr>)"
  have se: "store_env env" using env by (simp add: store_env_def sm_mutexD)
  have h': "hyb (locked c, st\<lparr>world := w\<rparr>)" "pdn_fits (io_clnt_rule (locked c))" using h u by simp_all
  have cb: "sm_cb env rec (state_mach_tbl (curr_state c) NATI_TRIG_ADD_RULE) NATI_TRIG_ADD_RULE args s =
      smAddRuleHybrid env rec NATI_TRIG_ADD_RULE args s" for rec s
    using hyb_curr [OF h] by (cases "CHOOSE_MEM_SUB c") (simp_all add: state_of_sub_def sm_cb_def)
  have ah: "added_here (locked c, st) (c', st'\<lparr>world := w'\<rparr>)" if "added_here (locked c, st\<lparr>world := w\<rparr>) (c', st')" for c' st' w'
    using that by (simp add: added_here_def)
  have mi: "nat_mutex_init c'" "hyb (c', st')" if "added_here (locked c, st\<lparr>world := w\<rparr>) (c', st')" for c' st'
    using that by (simp_all add: added_here_def same_mode_def)
  show thesis
  proof (rule add_hybrid_cb [OF se h', of "statemach_fuel env n" NATI_TRIG_ADD_RULE, folded args_def])
    fix r c' st'
    assume a: "smAddRuleHybrid env (statemach_fuel env n) NATI_TRIG_ADD_RULE args (locked c, st\<lparr>world := w\<rparr>) = Some (r, c', st')"
      "added_here (locked c, st\<lparr>world := w\<rparr>) (c', st')"
      "rule_bad (st_pdns (st\<lparr>world := w\<rparr>)) (io_clnt_rule (locked c)) \<longrightarrow> curr_state (locked c) = NATI_STATE_HYBRID \<longrightarrow> hold_state (locked c)"
    then obtain w' where "statemach_fuel env (Suc n) NATI_TRIG_ADD_RULE args (c, st) = Some (0, c', st'\<lparr>world := w'\<rparr>)"
      using run [unfolded cb, OF a(1)] mi [OF a(2)] hyb_sub by blast
    then show thesis using here ah [OF a(2)] a(3) by simp
  next
    fix c' st'
    assume a: "curr_state (locked c) = NATI_STATE_HYBRID" "\<not> hold_state (locked c)" "added_here (locked c, st\<lparr>world := w\<rparr>) (c', st')" "io_rule_hdl c' = 0"
      "sm_view (c', st') = sm_view (locked c, st\<lparr>world := w\<rparr>)" "io_clnt_rule c' = sent_rule (io_clnt_rule (locked c))"
      "smAddRuleHybrid env (statemach_fuel env n) NATI_TRIG_ADD_RULE args (locked c, st\<lparr>world := w\<rparr>) = do {
         (ret, c, st) \<leftarrow> statemach_fuel env n NATI_TRIG_TBL_SWITCH NoArgs (c', st');
         if ret = 0 then statemach_fuel env n NATI_TRIG_ADD_RULE args (SET_NATIOBJ_STATE NATI_STATE_HYBRID_DDR c, st)
         else Some (ret, c, st) }"
    have "added_here (locked c, st) (c', st')" using a(3) by (simp add: added_here_def)
    then show thesis
      using full [of c' st'] a(1,2,4-6) run [unfolded cb a(7)] hyb_sub by simp blast
  qed
qed (use refused in blast)

text \<open>A rule is added, to the other memory after a switch when the active one refuses it.\<close>

definition added :: "'w sm_state \<Rightarrow> 'w sm_state \<Rightarrow> bool" where
  "added s s' \<longleftrightarrow> (\<exists>v. moved s (sm_view s) v s' \<and>
     rule_added_view v (seen_rule (io_clnt_rule (fst s))) (io_rule_hdl (fst s')) (sm_view s'))"

text \<open>A rule that is refused in any case: the client gets the handle 0, but unless the state is held the
  table is moved to DDR for it.\<close>

definition bad_refused :: "'w sm_state \<Rightarrow> 'w sm_state \<Rightarrow> bool" where
  "bad_refused s s' \<longleftrightarrow> (rule_bad (st_pdns (snd s)) (io_clnt_rule (fst s)) \<longrightarrow>
     io_rule_hdl (fst s') = 0 \<and> moved s (sm_view s) (sm_view s') s' \<and>
     curr_state (fst s') = (if hold_state (fst s) then curr_state (fst s) else NATI_STATE_HYBRID_DDR))"

lemma added_here_added:
  assumes "added_here s s'"
  shows "client_op s s'" "added s s'" "nat_mutex_init (fst s') = nat_mutex_init (fst s)"
  using assms unfolding added_def moved_def
  by (auto simp: added_here_def client_op_def same_mode_def no_failed_switch_def intro: exI [of _ "sm_view s"])

lemma hyb_ddr_simps: "state_of_sub DDR_SUB = NATI_STATE_HYBRID_DDR" "state_of_sub SRAM_SUB = NATI_STATE_HYBRID"
  by (simp_all add: state_of_sub_def)

text \<open>The second attempt, in DDR: nothing is nested any more.\<close>

lemma add_in_ddr:
  fixes env :: "('w, 'z) sm_env_scheme"
  assumes env: "sm_mutex_ok env" "dma_device env" and h: "hyb (c, st)" "curr_state c = NATI_STATE_HYBRID_DDR"
    and u: "pdn_fits (io_clnt_rule c)"
  shows "\<exists>c' st'. statemach_fuel env (Suc n) NATI_TRIG_ADD_RULE (TblArgs (tbl_hdl IPA_NAT_MEM_IN_SRAM)) (c, st) = Some (0, c', st') \<and>
     nat_mutex_init c' \<and> client_op (c, st) (c', st') \<and>
     (added_here (locked c, st) (c', st') \<or> \<not> focus_ok env)"
proof (rule add_hybrid_step [OF env h(1) u, of n])
  fix c' st'
  assume "statemach_fuel env (Suc n) NATI_TRIG_ADD_RULE (TblArgs (tbl_hdl IPA_NAT_MEM_IN_SRAM)) (c, st) = Some (0, c', st')"
    "added_here (locked c, st) (c', st')"
  then show ?thesis using added_here_added [of "(locked c, st)" "(c', st')"] by (simp add: client_op_def)
qed (use h in \<open>simp_all add: client_op_def\<close>)

lemma add_outcome:
  fixes env :: "('w, 'z) sm_env_scheme"
  assumes env: "sm_mutex_ok env" "dma_device env" and h: "hyb (c, st)" and u: "pdn_fits (io_clnt_rule c)"
  shows "\<exists>c' st'. statemach_fuel env (Suc (Suc (Suc n))) NATI_TRIG_ADD_RULE (TblArgs (tbl_hdl IPA_NAT_MEM_IN_SRAM)) (c, st) =
       Some (0, c', st') \<and> client_op (c, st) (c', st') \<and>
       (focus_ok env \<longrightarrow> added (c, st) (c', st') \<and> bad_refused (c, st) (c', st'))"
proof (rule add_hybrid_step [OF env h u, of "Suc (Suc n)"])
  fix c' st'
  assume a: "statemach_fuel env (Suc (Suc (Suc n))) NATI_TRIG_ADD_RULE (TblArgs (tbl_hdl IPA_NAT_MEM_IN_SRAM)) (c, st) = Some (0, c', st')"
    "added_here (locked c, st) (c', st')"
    "rule_bad (st_pdns st) (io_clnt_rule c) \<longrightarrow> curr_state c = NATI_STATE_HYBRID \<longrightarrow> hold_state c"
  have "bad_refused (c, st) (c', st')"
    using a(2,3) h by (auto simp: bad_refused_def added_here_def same_mode_def moved_def hyb_def IN_HYBRID_STATE_def)
  then show ?thesis
    using a(1) added_here_added [OF a(2)] by (simp add: client_op_def added_def moved_def no_failed_switch_def)
next
  fix c1 st1
  let ?F = "\<lambda>s. statemach_fuel env (Suc (Suc n)) NATI_TRIG_ADD_RULE (TblArgs (tbl_hdl IPA_NAT_MEM_IN_SRAM)) s"
  assume a: "curr_state c = NATI_STATE_HYBRID" "\<not> hold_state c" "added_here (locked c, st) (c1, st1)" "io_rule_hdl c1 = 0"
      "sm_view (c1, st1) = sm_view (c, st)" "io_clnt_rule c1 = sent_rule (io_clnt_rule c)"
    and run: "\<And>r c2 st2. do { (ret, c, st) \<leftarrow> statemach_fuel env (Suc (Suc n)) NATI_TRIG_TBL_SWITCH NoArgs (c1, st1);
           if ret = 0 then ?F (SET_NATIOBJ_STATE NATI_STATE_HYBRID_DDR c, st) else Some (ret, c, st) } = Some (r, c2, st2) \<Longrightarrow>
         hyb (c2, st2) \<Longrightarrow> nat_mutex_init c2 \<Longrightarrow>
         \<exists>w'. statemach_fuel env (Suc (Suc (Suc n))) NATI_TRIG_ADD_RULE (TblArgs (tbl_hdl IPA_NAT_MEM_IN_SRAM)) (c, st) =
              Some (0, c2, st2\<lparr>world := w'\<rparr>)"
  have h1: "hyb (c1, st1)" "hold_state c1 = hold_state c" "sw_stats c1 = sw_stats c" "st_pdns st1 = st_pdns st" "curr_state c1 = curr_state c"
    using a(3) by (simp_all add: added_here_def same_mode_def)
  have sub1: "CHOOSE_MEM_SUB c1 = SRAM_SUB" using a(1) h1(5) by (simp add: CHOOSE_MEM_SUB_def)
  have second: ?thesis
    if sw: "statemach_fuel env (Suc (Suc n)) NATI_TRIG_TBL_SWITCH NoArgs (c1, st1) = Some (0, c2, st2)"
      and h2: "client_op (c1, st1) (c2, st2)" and io: "io_clnt_rule c2 = io_clnt_rule c1"
      and mv: "focus_ok env \<longrightarrow> moved (c1, st1) (sm_view (c1, st1)) (sub_view DDR_SUB (c2, st2)) (c2, st2)" for c2 st2
  proof -
    let ?c = "SET_NATIOBJ_STATE NATI_STATE_HYBRID_DDR c2"
    have hc: "hyb (?c, st2)" using h2 hyb_setstate(1) [of c2 st2 DDR_SUB] by (simp add: client_op_def hyb_ddr_simps)
    have ioc: "io_clnt_rule ?c = sent_rule (io_clnt_rule c)" using io a(6) by (simp add: SET_NATIOBJ_STATE_def)
    have hold: "hold_state ?c = hold_state c2" by (simp add: SET_NATIOBJ_STATE_def)
    obtain c3 st3 where f: "?F (?c, st2) = Some (0, c3, st3)" "nat_mutex_init c3" "client_op (?c, st2) (c3, st3)"
        "added_here (locked ?c, st2) (c3, st3) \<or> \<not> focus_ok env"
      using add_in_ddr [OF env hc, of "Suc n"] ioc u by auto
    then obtain w' where r: "statemach_fuel env (Suc (Suc (Suc n))) NATI_TRIG_ADD_RULE (TblArgs (tbl_hdl IPA_NAT_MEM_IN_SRAM)) (c, st) =
        Some (0, c3, st3\<lparr>world := w'\<rparr>)"
      using run [of 0 c3 st3] sw by (auto simp: client_op_def)
    have "added (c, st) (c3, st3\<lparr>world := w'\<rparr>) \<and> bad_refused (c, st) (c3, st3\<lparr>world := w'\<rparr>)" if fo: "focus_ok env"
    proof -
      have sub: "CHOOSE_MEM_SUB ?c = DDR_SUB" by (simp add: CHOOSE_MEM_SUB_def)
      have "added_here (locked ?c, st2) (c3, st3)" using f(4) fo by blast
      then have r3: "rule_added_view (sub_view DDR_SUB (c2, st2)) (seen_rule (io_clnt_rule c)) (io_rule_hdl c3) (sm_view (c3, st3))"
          "sw_stats c3 = sw_stats c2" "curr_state c3 = NATI_STATE_HYBRID_DDR"
          "rule_bad (st_pdns st2) (io_clnt_rule c) \<longrightarrow> io_rule_hdl c3 = 0 \<and> sm_view (c3, st3) = sub_view DDR_SUB (c2, st2)"
        using ioc sub by (simp_all add: added_here_def sm_view_def same_mode_def)
      have mv3: "moved (c, st) (sm_view (c, st)) (sub_view DDR_SUB (c2, st2)) (c3, st3)"
        using mv fo h1(3) a(5) r3(2) by (simp add: moved_def no_failed_switch_def)
      have "bad_refused (c, st) (c3, st3)"
        using r3 mv3 a(2) h1(4) h2 by (auto simp: bad_refused_def client_op_def)
      then show ?thesis
        using mv3 r3(1) unfolding added_def bad_refused_def moved_def no_failed_switch_def by auto
    qed
    moreover have "client_op (c, st) (c3, st3\<lparr>world := w'\<rparr>)" using f(3) h2 h1(2,4) hold by (simp add: client_op_def)
    ultimately show ?thesis using r by blast
  qed
  show ?thesis
  proof (rule switch_outcome [OF env h1(1), of n])
    fix w
    assume s: "\<not> focus_ok env"
      "statemach_fuel env (Suc (Suc n)) NATI_TRIG_TBL_SWITCH NoArgs (c1, st1) = Some (0, c1\<lparr>nat_mutex_init := True\<rparr>, st1\<lparr>world := w\<rparr>)"
    show ?thesis by (rule second [OF s(2)]) (use s(1) h1 in \<open>simp_all add: client_op_def\<close>)
  next
    fix c2 st2 ok
    assume s: "statemach_fuel env (Suc (Suc n)) NATI_TRIG_TBL_SWITCH NoArgs (c1, st1) = Some (0, c2, st2)" "copied env (c1, st1) ok (c2, st2)"
    show ?thesis
      by (rule second [OF s(1)])
         (use s(2) copied_moved [OF s(2)] sub1 in \<open>auto simp: copied_def Let_def client_op_def same_io_def sm_view_def\<close>)
  qed
qed (use h in \<open>simp add: client_op_def\<close>)

text \<open>A rule is deleted; a table that shrank to the threshold goes back to SRAM.\<close>

definition deleted :: "u32 \<Rightarrow> 'w sm_state \<Rightarrow> 'w sm_state \<Rightarrow> bool" where
  "deleted og s s' \<longleftrightarrow> moved s ((sm_view s)(og := None)) (sm_view s') s'"

lemma deleted_here_deleted:
  assumes "deleted_here og s s'"
  shows "client_op s s'" "deleted og s s'" "nat_mutex_init (fst s') = nat_mutex_init (fst s)"
  using assms by (simp_all add: deleted_here_def client_op_def same_mode_def deleted_def moved_def)

lemma del_outcome:
  fixes env :: "('w, 'z) sm_env_scheme"
  assumes env: "sm_mutex_ok env" "dma_reliable env" and h: "hyb (c, st)"
  shows "\<exists>c' st'. statemach_fuel env (Suc (Suc (Suc n))) NATI_TRIG_DEL_RULE (RuleArgs (tbl_hdl IPA_NAT_MEM_IN_SRAM) og) (c, st) =
       Some (0, c', st') \<and> client_op (c, st) (c', st') \<and> (focus_ok env \<longrightarrow> deleted og (c, st) (c', st'))"
proof (rule statemach_step [OF env(1) hyb_sub [OF h], of "Suc (Suc n)" NATI_TRIG_DEL_RULE "RuleArgs (tbl_hdl IPA_NAT_MEM_IN_SRAM) og",
      folded locked_def])
  fix w
  let ?args = "RuleArgs (tbl_hdl IPA_NAT_MEM_IN_SRAM) og" and ?s = "(locked c, st\<lparr>world := w\<rparr>)"
  let ?R = "statemach_fuel env (Suc (Suc n))"
  assume run: "\<And>r c' st'. sm_cb env ?R (state_mach_tbl (curr_state c) NATI_TRIG_DEL_RULE) NATI_TRIG_DEL_RULE ?args ?s = Some (r, c', st') \<Longrightarrow>
      sub_ok SRAM_SUB (c', st') \<Longrightarrow> nat_mutex_init c' \<Longrightarrow>
      \<exists>w'. statemach_fuel env (Suc (Suc (Suc n))) NATI_TRIG_DEL_RULE ?args (c, st) = Some (0, c', st'\<lparr>world := w'\<rparr>)"
  have cb: "sm_cb env rec (state_mach_tbl (curr_state c) NATI_TRIG_DEL_RULE) NATI_TRIG_DEL_RULE ?args s = smDelRuleHybrid env rec ?args s"
    for rec s using hyb_curr [OF h] by (cases "CHOOSE_MEM_SUB c") (simp_all add: state_of_sub_def sm_cb_def)
  have dev: "dma_device env" using env(2) by (simp add: dma_reliable_def)
  have h': "hyb ?s" using h by simp
  have fin: ?thesis if r: "smDelRuleHybrid env ?R ?args ?s = Some (r, c', st')" and op: "client_op ?s (c', st')" "nat_mutex_init c'"
    and d: "focus_ok env \<longrightarrow> deleted og ?s (c', st')" for r c' st'
  proof -
    obtain w' where "statemach_fuel env (Suc (Suc (Suc n))) NATI_TRIG_DEL_RULE ?args (c, st) = Some (0, c', st'\<lparr>world := w'\<rparr>)"
      using run [unfolded cb, OF r] op hyb_sub by (auto simp: client_op_def)
    then show ?thesis using op d by (simp add: client_op_def deleted_def moved_def no_failed_switch_def)
  qed
  show ?thesis
  proof (rule del_hybrid_cb [OF sm_mutexD [OF env(1)] env(2) h', of ?R og])
    fix r c' st'
    assume "smDelRuleHybrid env ?R ?args ?s = Some (r, c', st')" "deleted_here og ?s (c', st')"
    then show ?thesis using fin deleted_here_deleted [of og ?s "(c', st')"] by simp
  next
    fix c1 st1
    assume a: "curr_state (locked c) = NATI_STATE_HYBRID_DDR" "deleted_here og ?s (c1, st1)"
      "smDelRuleHybrid env ?R ?args ?s = do { (ret, c, st) \<leftarrow> ?R NATI_TRIG_TBL_SWITCH NoArgs (c1, st1);
         Some (0, if ret = 0 then SET_NATIOBJ_STATE NATI_STATE_HYBRID c else c, st) }"
    have h1: "hyb (c1, st1)" "client_op ?s (c1, st1)" "nat_mutex_init c1" "sw_stats c1 = sw_stats c" "curr_state c1 = NATI_STATE_HYBRID_DDR"
        "sm_view (c1, st1) = (sm_view (c, st))(og := None)"
      using a(1,2) deleted_here_deleted [OF a(2)] by (simp_all add: deleted_here_def same_mode_def)
    have sub1: "CHOOSE_MEM_SUB c1 = DDR_SUB" using h1(5) by (simp add: CHOOSE_MEM_SUB_def)
    have second: ?thesis
      if sw: "?R NATI_TRIG_TBL_SWITCH NoArgs (c1, st1) = Some (0, c2, st2)"
        and h2: "client_op (c1, st1) (c2, st2)" "nat_mutex_init c2"
        and mv: "focus_ok env \<longrightarrow> moved (c1, st1) (sm_view (c1, st1)) (sub_view SRAM_SUB (c2, st2)) (c2, st2)" for c2 st2
    proof (rule fin [of 0 "SET_NATIOBJ_STATE NATI_STATE_HYBRID c2" st2])
      show "client_op ?s (SET_NATIOBJ_STATE NATI_STATE_HYBRID c2, st2)"
        using h2 h1(2) hyb_setstate(1) [of c2 st2 SRAM_SUB] by (simp add: client_op_def hyb_ddr_simps) (simp add: SET_NATIOBJ_STATE_def)
      show "focus_ok env \<longrightarrow> deleted og ?s (SET_NATIOBJ_STATE NATI_STATE_HYBRID c2, st2)"
        using mv h1(4,6) by (simp add: deleted_def moved_def no_failed_switch_def sm_view_def CHOOSE_MEM_SUB_def [of "SET_NATIOBJ_STATE s c2" for s])
    qed (use a(3) sw h2 in simp_all)
    show ?thesis
    proof (rule switch_outcome [OF env(1) dev h1(1), of n])
      fix w
      assume s: "\<not> focus_ok env" "?R NATI_TRIG_TBL_SWITCH NoArgs (c1, st1) = Some (0, c1\<lparr>nat_mutex_init := True\<rparr>, st1\<lparr>world := w\<rparr>)"
      show ?thesis by (rule second [OF s(2)]) (use s(1) h1 in \<open>simp_all add: client_op_def\<close>)
    next
      fix c2 st2 ok
      assume s: "?R NATI_TRIG_TBL_SWITCH NoArgs (c1, st1) = Some (0, c2, st2)" "copied env (c1, st1) ok (c2, st2)"
      show ?thesis
        by (rule second [OF s(1)])
           (use s(2) copied_moved [OF s(2)] sub1 in \<open>auto simp: copied_def Let_def client_op_def same_io_def sm_view_def\<close>)
    qed
  qed
qed (use h in \<open>simp add: client_op_def\<close>)

end
