(* ===== verification/Nat_Drv.thy ===== *)
theory Nat_Drv
  imports Nat_Statemach
begin

text \<open>
  The client interface of \<^verbatim>\<open>ipanat/src/ipa_nat_drv.c\<close>: argument checks in front of the state machine and the
  PDN operations of the driver layer.  A pointer argument that may be NULL is a flag (\<open>has_\<close>\<dots>) or an option.
\<close>

definition ipa_nat_add_ipv4_tbl ::
  "('w, 'z) sm_env_scheme \<Rightarrow> u32 \<Rightarrow> string option \<Rightarrow> nat \<Rightarrow> bool \<Rightarrow> 'w sm_state \<Rightarrow> (int \<times> 'w sm_state) option" where
  "ipa_nat_add_ipv4_tbl env public_ip_addr mem_type_ptr number_of_entries has_tbl_hdl = (\<lambda>(c, st).
     if \<not> has_tbl_hdl \<or> mem_type_ptr = None \<or> number_of_entries = 0 then Some (- EINVAL, c, st)
     else ipa_nati_add_ipv4_tbl env public_ip_addr mem_type_ptr number_of_entries (c\<lparr>io_tbl_hdl := 0\<rparr>, st))"

definition ipa_nat_del_ipv4_tbl :: "('w, 'z) sm_env_scheme \<Rightarrow> u32 \<Rightarrow> 'w sm_state \<Rightarrow> (int \<times> 'w sm_state) option" where
  "ipa_nat_del_ipv4_tbl env tbl_hdl s =
     (if \<not> VALID_TBL_HDL tbl_hdl then Some (- EINVAL, s) else ipa_nati_del_ipv4_table env tbl_hdl s)"

definition ipa_nat_add_ipv4_rule ::
  "('w, 'z) sm_env_scheme \<Rightarrow> u32 \<Rightarrow> ipa_nat_ipv4_rule option \<Rightarrow> bool \<Rightarrow> 'w sm_state \<Rightarrow> (int \<times> 'w sm_state) option" where
  "ipa_nat_add_ipv4_rule env tbl_hdl clnt_rule has_rule_hdl = (\<lambda>(c, st).
     case clnt_rule of
       Some u \<Rightarrow>
         if \<not> VALID_TBL_HDL tbl_hdl \<or> \<not> has_rule_hdl then Some (- EINVAL, c, st)
         else do { (ret, s) \<leftarrow> ipa_nati_add_ipv4_rule env tbl_hdl (c\<lparr>io_clnt_rule := u\<rparr>, st);
                   Some (if ret \<noteq> 0 then - EINVAL else 0, s) }
     | None \<Rightarrow> Some (- EINVAL, c, st))"

definition ipa_nat_del_ipv4_rule :: "('w, 'z) sm_env_scheme \<Rightarrow> u32 \<Rightarrow> u32 \<Rightarrow> 'w sm_state \<Rightarrow> (int \<times> 'w sm_state) option" where
  "ipa_nat_del_ipv4_rule env tbl_hdl rule_hdl s =
     (if \<not> VALID_TBL_HDL tbl_hdl \<or> \<not> VALID_RULE_HDL rule_hdl then Some (- EINVAL, s)
      else ipa_nati_del_ipv4_rule env tbl_hdl rule_hdl s)"

definition ipa_nat_query_timestamp ::
  "('w, 'z) sm_env_scheme \<Rightarrow> u32 \<Rightarrow> u32 \<Rightarrow> bool \<Rightarrow> 'w sm_state \<Rightarrow> (int \<times> 'w sm_state) option" where
  "ipa_nat_query_timestamp env tbl_hdl rule_hdl has_time_stamp s =
     (if \<not> VALID_TBL_HDL tbl_hdl \<or> \<not> VALID_RULE_HDL rule_hdl \<or> \<not> has_time_stamp then Some (- EINVAL, s)
      else ipa_nati_query_timestamp env tbl_hdl rule_hdl s)"

text \<open>The test of the index lets \<^verbatim>\<open>IPA_MAX_PDN_NUM\<close> itself through.\<close>

definition ipa_nat_modify_pdn ::
  "('w, 'z) nat_env_scheme \<Rightarrow> u32 \<Rightarrow> u8 \<Rightarrow> ipa_nat_pdn_entry option \<Rightarrow> 'w nat_state \<Rightarrow> (int \<times> 'w nat_state) option" where
  "ipa_nat_modify_pdn env tbl_hdl index pdn_info st =
     (case pdn_info of
        None \<Rightarrow> Some (- EINVAL, st)
      | Some info \<Rightarrow>
          if \<not> VALID_TBL_HDL tbl_hdl then Some (- EINVAL, st)
          else if unat index > IPA_MAX_PDN_NUM then Some (- EINVAL, st)
          else ipa_nati_modify_pdn env
            \<lparr>ioc_pdn_index = index, ioc_public_ip = pdn_public_ip info, ioc_src_metadata = pdn_src_metadata info,
             ioc_dst_metadata = pdn_dst_metadata info\<rparr> st)"

definition ipa_nat_get_pdn_index :: "u32 \<Rightarrow> bool \<Rightarrow> 'w nat_state \<Rightarrow> int \<times> nat option" where
  "ipa_nat_get_pdn_index public_ip has_pdn_index st =
     (if \<not> has_pdn_index then (- EINVAL, None) else ipa_nati_get_pdn_index public_ip st)"

definition ipa_nat_alloc_pdn ::
  "('w, 'z) nat_env_scheme \<Rightarrow> ipa_nat_pdn_entry option \<Rightarrow> bool \<Rightarrow> 'w nat_state
    \<Rightarrow> (int \<times> nat option \<times> 'w nat_state) option" where
  "ipa_nat_alloc_pdn env pdn_info has_pdn_index st =
     (case pdn_info of
        None \<Rightarrow> Some (- EINVAL, None, st)
      | Some info \<Rightarrow> if \<not> has_pdn_index then Some (- EINVAL, None, st) else ipa_nati_alloc_pdn env info st)"

text \<open>The count goes through a \<^verbatim>\<open>uint8_t\<close>.\<close>

definition ipa_nat_get_pdn_count :: "bool \<Rightarrow> 'w nat_state \<Rightarrow> int \<times> u8 option" where
  "ipa_nat_get_pdn_count has_pdn_cnt st =
     (if \<not> has_pdn_cnt then (- EINVAL, None) else (0, Some (of_int (ipa_nati_get_pdn_cnt st))))"

definition ipa_nat_dealloc_pdn :: "('w, 'z) nat_env_scheme \<Rightarrow> u8 \<Rightarrow> 'w nat_state \<Rightarrow> (int \<times> 'w nat_state) option" where
  "ipa_nat_dealloc_pdn env index st =
     (if unat index > IPA_MAX_PDN_NUM then Some (- EINVAL, st) else ipa_nati_dealloc_pdn env (unat index) st)"

end
