(* ===== verification/Ipa_Service.thy ===== *)
theory Ipa_Service
  imports Main
begin

text \<open>
  Services and their runs: sequences of client requests against a component that threads its state, and the
  refinement of an abstract service.  The locale \<open>service\<close> is interpreted on the client calls of the NAT state machine
  and on those of the IPv6 connection tracking.
\<close>

text \<open>Sequences of requests with their responses, on the program and on an abstract state.  \<open>clean\<close> is a condition
  on each step.\<close>

inductive runs :: "('q \<Rightarrow> 's \<Rightarrow> (int \<times> 's) option) \<Rightarrow> ('s \<Rightarrow> 's \<Rightarrow> bool) \<Rightarrow> ('s \<Rightarrow> 'r) \<Rightarrow> 's \<Rightarrow> ('q \<times> 'r) list \<Rightarrow> 's \<Rightarrow> bool"
  for call clean resp where
  runs_nil: "runs call clean resp s [] s"
| runs_step: "call q s = Some (ret, s') \<Longrightarrow> clean s s' \<Longrightarrow> runs call clean resp s' tr s'' \<Longrightarrow>
    runs call clean resp s ((q, resp s') # tr) s''"

inductive spec_runs :: "('q \<Rightarrow> 'r \<Rightarrow> 'a \<Rightarrow> 'a \<Rightarrow> bool) \<Rightarrow> 'a \<Rightarrow> ('q \<times> 'r) list \<Rightarrow> 'a \<Rightarrow> bool" for spec where
  spec_runs_nil: "spec_runs spec a [] a"
| spec_runs_step: "spec q r a a' \<Longrightarrow> spec_runs spec a' tr a'' \<Longrightarrow> spec_runs spec a ((q, r) # tr) a''"

inductive_simps runs_Nil [simp]: "runs call clean resp s [] s'"
inductive_simps runs_Cons: "runs call clean resp s (x # tr) s'"

text \<open>A service that keeps an invariant, answers every admissible request and refines an abstract one.\<close>

locale service =
  fixes good :: "'e \<Rightarrow> bool" and inv :: "'s \<Rightarrow> bool" and ok :: "'q \<Rightarrow> bool" and call :: "'e \<Rightarrow> 'q \<Rightarrow> 's \<Rightarrow> (int \<times> 's) option"
    and abs :: "'s \<Rightarrow> 'a" and resp :: "'s \<Rightarrow> 'r" and clean :: "'e \<Rightarrow> 's \<Rightarrow> 's \<Rightarrow> bool" and spec :: "'q \<Rightarrow> 'r \<Rightarrow> 'a \<Rightarrow> 'a \<Rightarrow> bool"
  assumes answers: "good env \<Longrightarrow> inv s \<Longrightarrow> ok q \<Longrightarrow> \<exists>ret s'. call env q s = Some (ret, s') \<and> inv s'"
    and refines: "good env \<Longrightarrow> inv s \<Longrightarrow> ok q \<Longrightarrow> call env q s = Some (ret, s') \<Longrightarrow> clean env s s' \<Longrightarrow>
      spec q (resp s') (abs s) (abs s')"
begin

lemma call_inv: "good env \<Longrightarrow> inv s \<Longrightarrow> ok q \<Longrightarrow> call env q s = Some (ret, s') \<Longrightarrow> inv s'"
  using answers by fastforce

lemma runs_inv:
  assumes "runs (call env) cl resp s tr s'" "good env" "inv s" "\<forall>q \<in> fst ` set tr. ok q"
  shows "inv s'"
  using assms by (induction rule: runs.induct) (auto dest: call_inv)

lemma runs_exist:
  assumes "good env" "inv s" "\<forall>q \<in> set qs. ok q"
  shows "\<exists>tr s'. runs (call env) (\<lambda>_ _. True) resp s tr s' \<and> map fst tr = qs \<and> inv s'"
  using assms(2,3)
proof (induction qs arbitrary: s)
  case Nil
  then show ?case by (intro exI [of _ "[]"] exI [of _ s]) simp
next
  case (Cons q qs)
  obtain ret s1 where c: "call env q s = Some (ret, s1)" "inv s1" using answers [OF assms(1) Cons.prems(1), of q] Cons.prems(2) by auto
  obtain tr s' where "runs (call env) (\<lambda>_ _. True) resp s1 tr s'" "map fst tr = qs" "inv s'"
    using Cons.IH [OF c(2)] Cons.prems(2) by auto
  then show ?case
    using runs_step [where call = "call env" and clean = "\<lambda>_ _. True" and resp = resp, OF c(1)]
    by (intro exI [of _ "(q, resp s1) # tr"] exI [of _ s']) simp
qed

lemma runs_refine:
  assumes "runs (call env) (clean env) resp s tr s'" "good env" "inv s" "\<forall>q \<in> fst ` set tr. ok q"
  shows "spec_runs spec (abs s) tr (abs s')"
  using assms
proof (induction rule: runs.induct)
  case (runs_nil s)
  then show ?case by (simp add: spec_runs_nil)
next
  case (runs_step q s ret s' tr s'')
  have q: "ok q" "\<forall>q \<in> fst ` set tr. ok q" using runs_step.prems(3) by simp_all
  note i = call_inv [OF runs_step.prems(1,2) q(1) runs_step.hyps(1)]
    and r = refines [OF runs_step.prems(1,2) q(1) runs_step.hyps(1,2)]
  show ?case by (rule spec_runs_step [of spec, OF r runs_step.IH [OF runs_step.prems(1) i q(2)]])
qed

end

end
