(* ===== verification/Nat_Client_Ok.thy ===== *)
theory Nat_Client_Ok
  imports Nat_Hybrid_Ok Nat_Drv Ipa_Service
begin

text \<open>
  The properties of the state machine in hybrid mode: a step relation of the client operations, its
  invariant, and the abstract table it refines.
\<close>

section \<open>Clearing and time stamps\<close>

text \<open>A callback without nested triggers.\<close>

lemma simple_outcome:
  fixes env :: "('w, 'z) sm_env_scheme"
  assumes env: "sm_mutex_ok env" and h: "hyb (c, st)"
    and cb: "\<And>w. \<exists>r c' st'. sm_cb env (statemach_fuel env n) (state_mach_tbl (curr_state c) trigger) trigger args
          (locked c, st\<lparr>world := w\<rparr>) = Some (r, c', st') \<and> hyb (c', st') \<and> nat_mutex_init c' \<and> Q c' st'"
    and Q: "\<And>c' st' w. Q c' st' \<Longrightarrow> Q c' (st'\<lparr>world := w\<rparr>)"
  shows "\<exists>c' st'. statemach_fuel env (Suc n) trigger args (c, st) = Some (0, c', st') \<and> hyb (c', st') \<and>
     (Q c' st' \<or> \<not> focus_ok env \<and> c' = locked c \<and> (\<exists>w. st' = st\<lparr>world := w\<rparr>))"
proof (rule statemach_step [OF env hyb_sub [OF h], of n trigger args, folded locked_def])
  fix w
  assume run: "\<And>r c' st'. sm_cb env (statemach_fuel env n) (state_mach_tbl (curr_state c) trigger) trigger args (locked c, st\<lparr>world := w\<rparr>) =
      Some (r, c', st') \<Longrightarrow> sub_ok SRAM_SUB (c', st') \<Longrightarrow> nat_mutex_init c' \<Longrightarrow>
      \<exists>w'. statemach_fuel env (Suc n) trigger args (c, st) = Some (0, c', st'\<lparr>world := w'\<rparr>)"
  obtain r c' st' where cb': "sm_cb env (statemach_fuel env n) (state_mach_tbl (curr_state c) trigger) trigger args
      (locked c, st\<lparr>world := w\<rparr>) = Some (r, c', st')" "hyb (c', st')" "nat_mutex_init c'" "Q c' st'"
    using cb by blast
  obtain w' where "statemach_fuel env (Suc n) trigger args (c, st) = Some (0, c', st'\<lparr>world := w'\<rparr>)"
    using run [OF cb'(1) hyb_sub [OF cb'(2)] cb'(3)] by blast
  then show ?thesis using cb'(2) Q [OF cb'(4)] by (intro exI [of _ c'] exI [of _ "st'\<lparr>world := w'\<rparr>"]) simp
qed (use h in auto)

lemma clear_outcome:
  fixes env :: "('w, 'z) sm_env_scheme"
  assumes env: "sm_mutex_ok env" and h: "hyb (c, st)"
  shows "\<exists>c' st'. statemach_fuel env (Suc n) NATI_TRIG_CLR_TABLE (TblArgs (tbl_hdl IPA_NAT_MEM_IN_SRAM)) (c, st) = Some (0, c', st') \<and>
     client_op (c, st) (c', st') \<and> (focus_ok env \<longrightarrow> sm_view (c', st') = Map.empty)"
proof -
  define sub where "sub = CHOOSE_MEM_SUB c"
  let ?nmi = "nmi_of_sub sub" and ?args = "TblArgs (tbl_hdl IPA_NAT_MEM_IN_SRAM)"
  let ?c = "put_handles sub (0, Map.empty, Map.empty) (locked c)"
  let ?Q = "\<lambda>c' st'. client_op (c, st) (c', st') \<and> sm_view (c', st') = Map.empty"
  have cb: "sm_cb env rec (state_mach_tbl (curr_state c) NATI_TRIG_CLR_TABLE) NATI_TRIG_CLR_TABLE ?args s = smClrTblHybrid env ?args s"
    for rec s using hyb_curr [OF h] by (cases "CHOOSE_MEM_SUB c") (simp_all add: state_of_sub_def sm_cb_def)
  have hdl: "BREAK_TBL_HDL (tbl_hdl ?nmi) = (?nmi, 1)" "IPA_VALID_NAT_MEM_IN ?nmi"
      "(if ?nmi = IPA_NAT_MEM_IN_SRAM then SRAM_SUB else DDR_SUB) = sub"
    using tbl_hdl_facts [of ?nmi] by (simp_all, cases sub, simp_all)
  have run: "\<exists>st'. smClrTblHybrid env ?args (locked c, st\<lparr>world := w\<rparr>) = Some (0, ?c, st') \<and> hyb (?c, st') \<and> nat_mutex_init ?c \<and> ?Q ?c st'"
    for w
  proof -
    obtain st' where cl: "ipa_NATI_clear_ipv4_tbl env (tbl_hdl ?nmi) (st\<lparr>world := w\<rparr>) = Some (0, st')" "store_ok ?nmi st'"
        "same_but ?nmi (st\<lparr>world := w\<rparr>) st'" "store_rules ?nmi st' = Map.empty"
      using store_clear_outcome [OF sm_mutexD [OF env], of ?nmi "st\<lparr>world := w\<rparr>"] hyb_store [OF h, of sub] by auto
    have "hybrid_hdl (tbl_hdl IPA_NAT_MEM_IN_SRAM) (locked c) = tbl_hdl ?nmi"
      using hybrid_hdl_active [of "locked c" st] h by (simp add: sub_def)
    then have r: "smClrTblHybrid env ?args (locked c, st\<lparr>world := w\<rparr>) = Some (0, ?c, st')"
      using cl(1) hdl by (simp add: smClrTblHybrid_def smClrTbl_def clear_maps_eq)
    have md: "same_mode (locked c) ?c" by (simp add: same_mode_def put_handles_def)
    have ok: "sub_ok sub (?c, st')" using cl(2) by (simp add: sub_ok_def)
    have hw: "hyb (locked c, st\<lparr>world := w\<rparr>)" using h by simp
    note ch = hyb_change [OF hw md cl(3) ok]
    have "CHOOSE_MEM_SUB ?c = sub" by (simp add: CHOOSE_MEM_SUB_def sub_def)
    then have "sm_view (?c, st') = Map.empty" by (auto simp: sm_view_def sub_view_def client_view_def handle_view_def fun_eq_iff)
    then show ?thesis using r ch md by (simp add: client_op_def same_mode_def)
  qed
  show ?thesis
    using simple_outcome [OF env h, where n = n and trigger = NATI_TRIG_CLR_TABLE and args = ?args and Q = ?Q] run h
    unfolding cb by (fastforce simp: client_op_def)
qed

lemma store_query:
  assumes mtx: "mutex_ok env" and ok: "store_ok nmi st" and r: "store_rules nmi st k = Some r"
  shows "\<exists>w. ipa_NATI_query_timestamp env (tbl_hdl nmi) k st = Some (0, Some (ucast (time_stamp r)), st\<lparr>world := w\<rparr>)"
proof -
  let ?t = "nat_table_of st nmi"
  obtain ct where it: "nat_tinv ?t ct" using ok store_tinv by blast
  obtain i where i: "k = ucast (MakeEntryHdl ?t i)" "rules_of ?t i = Some r"
    using r by (auto simp: store_rules_def elim: hrules_SomeD)
  have n: "i < n_recs ?t" using rules_of_in_range [OF it] i(2) by blast
  have e: "ipa_table_get_entry ?t k = (0, i)" using get_entry_own_handle [OF inv_geom [OF it] n] i(1) by simp
  have ts: "time_stamp (recs ?t ! i) = time_stamp r" using i(2) by (auto simp: rules_of_def rule_view_def split: if_splits)
  have "rec_at ?t i = Some (recs ?t ! i)" using n geom_len [OF inv_geom [OF it]] by (simp add: rec_at_def)
  moreover have "md_valid (mem_desc (ip4_tbl (ipv4_nat_cache st nmi)))" using ok by (auto simp: store_ok_def cache_ok_def)
  ultimately show ?thesis
    using e ts tbl_hdl_facts [OF store_nmi [OF ok]]
    by (auto simp: ipa_NATI_query_timestamp_def nat_lock_ok [OF mtx] unlock_ret_ok [OF mtx] Let_def)
qed

definition stamped :: "u32 \<Rightarrow> 'w sm_state \<Rightarrow> 'w sm_state \<Rightarrow> bool" where
  "stamped og s s' \<longleftrightarrow> sm_view s' = sm_view s \<and>
     (case sm_view s og of None \<Rightarrow> io_time_stamp (fst s') = io_time_stamp (fst s)
      | Some r \<Rightarrow> io_time_stamp (fst s') = u_time_stamp r)"

lemma tstamp_outcome:
  fixes env :: "('w, 'z) sm_env_scheme"
  assumes env: "sm_mutex_ok env" and h: "hyb (c, st)"
  shows "\<exists>c' st'. statemach_fuel env (Suc n) NATI_TRIG_GET_TSTAMP (RuleArgs (tbl_hdl IPA_NAT_MEM_IN_SRAM) og) (c, st) = Some (0, c', st') \<and>
     client_op (c, st) (c', st') \<and> (focus_ok env \<longrightarrow> stamped og (c, st) (c', st'))"
proof -
  define sub where "sub = CHOOSE_MEM_SUB c"
  let ?nmi = "nmi_of_sub sub" and ?args = "RuleArgs (tbl_hdl IPA_NAT_MEM_IN_SRAM) og"
  let ?Q = "\<lambda>c' st'. client_op (c, st) (c', st') \<and> stamped og (c, st) (c', st')"
  have cb: "sm_cb env rec (state_mach_tbl (curr_state c) NATI_TRIG_GET_TSTAMP) NATI_TRIG_GET_TSTAMP ?args s = smGetTmStmpHybrid env ?args s"
    for rec s using hyb_curr [OF h] by (cases "CHOOSE_MEM_SUB c") (simp_all add: state_of_sub_def sm_cb_def)
  have run: "\<exists>r c' st'. smGetTmStmpHybrid env ?args (locked c, st\<lparr>world := w\<rparr>) = Some (r, c', st') \<and> hyb (c', st') \<and> nat_mutex_init c' \<and> ?Q c' st'"
    for w
  proof -
    have mp: "CHOOSE_MAPS (locked c) = map_pairs sub" "map_array (locked c) = map_array c" by (simp add: CHOOSE_MAPS_def sub_def) (simp add: locked_def)
    have hd: "hybrid_hdl (tbl_hdl IPA_NAT_MEM_IN_SRAM) (locked c) = tbl_hdl ?nmi"
      using hybrid_hdl_active [of "locked c" st] h by (simp add: sub_def)
    show ?thesis
    proof (cases "o2n_of sub c og")
      case None
      then have "sm_view (c, st) og = None" using view_dom [OF hyb_sub [OF h]] by (simp add: sm_view_def sub_def)
      moreover have "smGetTmStmpHybrid env ?args (locked c, st\<lparr>world := w\<rparr>) = Some (- 1, locked c, st\<lparr>world := w\<rparr>)"
        using None mp by (simp add: smGetTmStmpHybrid_def)
      ultimately show ?thesis using h by (auto simp: client_op_def stamped_def locked_def)
    next
      case (Some nw)
      have m: "maps_inv (o2n_of sub c) (n2o_of sub c) (store_rules ?nmi st)" using hyb_sub [OF h] by (simp add: sub_ok_def)
      obtain r where r: "store_rules ?nmi st nw = Some r" using maps_inv_del(2) [OF m Some] by blast
      let ?c = "(locked c)\<lparr>io_time_stamp := ucast (time_stamp r)\<rparr>"
      obtain w' where q: "ipa_NATI_query_timestamp env (tbl_hdl ?nmi) nw (st\<lparr>world := w\<rparr>) =
          Some (0, Some (ucast (time_stamp r)), st\<lparr>world := w'\<rparr>)"
        using store_query [OF sm_mutexD [OF env], of ?nmi "st\<lparr>world := w\<rparr>" nw r] hyb_store [OF h, of sub] r by auto
      have v: "sm_view (c, st) og = Some (client_rule r)"
        using Some r by (simp add: sm_view_def sub_view_def client_view_def handle_view_def sub_def)
      have same: "hyb (?c, st)" "sm_view (?c, st) = sm_view (c, st)"
        using h by (auto simp: hyb_def IN_HYBRID_STATE_def sub_ok_def locked_def sm_view_def sub_view_def CHOOSE_MEM_SUB_def)
      have "smGetTmStmpHybrid env ?args (locked c, st\<lparr>world := w\<rparr>) = Some (0, ?c, st\<lparr>world := w'\<rparr>)"
        using Some mp hd q by (simp add: smGetTmStmpHybrid_def smGetTmStmp_def)
      then show ?thesis
        using same v by (auto simp: client_op_def stamped_def client_rule_def migrated_rule_def)
    qed
  qed
  have "\<exists>c' st'. statemach_fuel env (Suc n) NATI_TRIG_GET_TSTAMP ?args (c, st) = Some (0, c', st') \<and> hyb (c', st') \<and>
      (?Q c' st' \<or> \<not> focus_ok env \<and> c' = locked c \<and> (\<exists>w. st' = st\<lparr>world := w\<rparr>))"
  proof (rule simple_outcome [OF env h, where Q = ?Q])
    fix w
    show "\<exists>r c' st'. sm_cb env (statemach_fuel env n) (state_mach_tbl (curr_state c) NATI_TRIG_GET_TSTAMP) NATI_TRIG_GET_TSTAMP ?args
        (locked c, st\<lparr>world := w\<rparr>) = Some (r, c', st') \<and> hyb (c', st') \<and> nat_mutex_init c' \<and> ?Q c' st'"
      unfolding cb by (rule run)
  qed (simp add: stamped_def split: option.splits)
  then show ?thesis using h by (auto simp: client_op_def)
qed

section \<open>Switching on request\<close>

definition nmi_sub :: "ipa3_nat_mem_in \<Rightarrow> mem_sub" where
  "nmi_sub nmi = (if nmi = IPA_NAT_MEM_IN_SRAM then SRAM_SUB else DDR_SUB)"

definition held :: "ipa3_nat_mem_in \<Rightarrow> bool \<Rightarrow> 'w sm_state \<Rightarrow> 'w sm_state \<Rightarrow> bool" where
  "held nmi hold s s' \<longleftrightarrow> moved s (sm_view s) (sm_view s') s' \<and> hold_state (fst s') = hold \<and>
     (prev_state (fst s) \<noteq> NATI_STATE_NULL \<longrightarrow> CHOOSE_MEM_SUB (fst s') = nmi_sub nmi)"

lemma hold_fields [simp]:
  "hyb (c\<lparr>hold_state := x, state_to_hold := y\<rparr>, st) = hyb (c, st)" "hyb (c\<lparr>hold_state := x\<rparr>, st) = hyb (c, st)"
  "sm_view (c\<lparr>hold_state := x, state_to_hold := y\<rparr>, st) = sm_view (c, st)" "sm_view (c\<lparr>hold_state := x\<rparr>, st) = sm_view (c, st)"
  by (simp_all add: hyb_def IN_HYBRID_STATE_def sub_ok_def sm_view_def sub_view_def CHOOSE_MEM_SUB_def)

lemma compatible_hyb:
  assumes "hyb (c, st)" "nmi \<noteq> IPA_NAT_MEM_IN_MAX"
  shows "COMPATIBLE_NMI_4SWITCH nmi c \<longleftrightarrow> CHOOSE_MEM_SUB c \<noteq> nmi_sub nmi"
  using assms by (cases nmi) (auto simp: hyb_def IN_HYBRID_STATE_def COMPATIBLE_NMI_4SWITCH_def CHOOSE_MEM_SUB_def nmi_sub_def)

text \<open>The state after the switch proper: the memory asked for is active.\<close>

lemma switch_request:
  fixes env :: "('w, 'z) sm_env_scheme"
  assumes env: "sm_mutex_ok env" "dma_device env" and h: "hyb (c, st)" and nmi: "nmi \<noteq> IPA_NAT_MEM_IN_MAX" and i: "nat_mutex_init c"
  shows "\<exists>c' st'. (if COMPATIBLE_NMI_4SWITCH nmi c then ipa_nati_statemach env NATI_TRIG_TBL_SWITCH NoArgs (c, st) else Some (0, c, st)) =
       Some (0, c', st') \<and> hyb (c', st') \<and> nat_mutex_init c' \<and> st_pdns st' = st_pdns st \<and>
     (focus_ok env \<longrightarrow> moved (c, st) (sm_view (c, st)) (sm_view (c', st')) (c', st') \<and> CHOOSE_MEM_SUB c' = nmi_sub nmi)"
proof (cases "COMPATIBLE_NMI_4SWITCH nmi c")
  case False
  then show ?thesis using h i compatible_hyb [OF h nmi] by (simp add: moved_def)
next
  case True
  have other: "other_sub (CHOOSE_MEM_SUB c) = nmi_sub nmi"
    using True compatible_hyb [OF h nmi] by (cases "CHOOSE_MEM_SUB c"; cases "nmi_sub nmi") simp_all
  have three: "ipa_nati_statemach env = statemach_fuel env (Suc (Suc 1))" by (simp add: ipa_nati_statemach_def eval_nat_numeral)
  show ?thesis
    unfolding three
  proof (rule switch_outcome [OF env h, of 1])
    fix c' st' ok
    assume s: "statemach_fuel env (Suc (Suc 1)) NATI_TRIG_TBL_SWITCH NoArgs (c, st) = Some (0, c', st')" "copied env (c, st) ok (c', st')"
    then show "\<exists>c' st'. (if COMPATIBLE_NMI_4SWITCH nmi c then statemach_fuel env (Suc (Suc 1)) NATI_TRIG_TBL_SWITCH NoArgs (c, st) else Some (0, c, st)) =
         Some (0, c', st') \<and> hyb (c', st') \<and> nat_mutex_init c' \<and> st_pdns st' = st_pdns st \<and>
       (focus_ok env \<longrightarrow> moved (c, st) (sm_view (c, st)) (sm_view (c', st')) (c', st') \<and> CHOOSE_MEM_SUB c' = nmi_sub nmi)"
      using True copied_moved [OF s(2)] other by (auto simp: copied_def Let_def)
  qed (use True h in auto)
qed

lemma switch_to_outcome:
  fixes env :: "('w, 'z) sm_env_scheme"
  assumes env: "sm_mutex_ok env" "dma_device env" and h: "hyb (c, st)" and nmi: "nmi \<noteq> IPA_NAT_MEM_IN_MAX"
  shows "\<exists>c' st'. ipa_nat_switch_to env nmi hold (c, st) = Some (0, c', st') \<and> hyb (c', st') \<and> st_pdns st' = st_pdns st \<and>
     (focus_ok env \<longrightarrow> held nmi hold (c, st) (c', st'))"
proof -
  have v: "IPA_VALID_NAT_MEM_IN nmi" using tbl_hdl_facts [OF nmi] by simp
  obtain w where tk: "take_mutex env (c, st) = (0, locked c, st\<lparr>world := w\<rparr>)" using take_mutex_ok [OF env(1)] by (auto simp: locked_def)
  have hw: "hyb (locked c, st\<lparr>world := w\<rparr>)" using h by simp
  have "\<exists>r c' st'. switch_to_locked env nmi hold (locked c, st\<lparr>world := w\<rparr>) = Some (r, c', st') \<and> hyb (c', st') \<and> nat_mutex_init c' \<and>
      st_pdns st' = st_pdns st \<and> (focus_ok env \<longrightarrow> held nmi hold (c, st) (c', st'))"
  proof (cases "IN_UNSTARTED_STATE (locked c)")
    case True
    then show ?thesis
      using h by (simp add: switch_to_locked_def held_def moved_def IN_UNSTARTED_STATE_def locked_def)
  next
    case False
    obtain c' st' where s: "(if COMPATIBLE_NMI_4SWITCH nmi (locked c) then ipa_nati_statemach env NATI_TRIG_TBL_SWITCH NoArgs (locked c, st\<lparr>world := w\<rparr>)
        else Some (0, locked c, st\<lparr>world := w\<rparr>)) = Some (0, c', st')" "hyb (c', st')" "nat_mutex_init c'" "st_pdns st' = st_pdns st"
      "focus_ok env \<longrightarrow> moved (c, st) (sm_view (c, st)) (sm_view (c', st')) (c', st') \<and> CHOOSE_MEM_SUB c' = nmi_sub nmi"
      using switch_request [OF env hw nmi] by (auto simp: moved_def no_failed_switch_def)
    let ?c = "if hold then c'\<lparr>hold_state := hold, state_to_hold := GEN_HOLD_STATE (c'\<lparr>hold_state := hold\<rparr>)\<rparr> else c'\<lparr>hold_state := hold\<rparr>"
    have "IN_HYBRID_STATE (locked c)" using h by (simp add: hyb_def IN_HYBRID_STATE_def)
    then have "switch_to_locked env nmi hold (locked c, st\<lparr>world := w\<rparr>) = Some (0, ?c, st')"
      using False s(1) by (simp add: switch_to_locked_def Let_def)
    moreover have "focus_ok env \<longrightarrow> held nmi hold (c, st) (?c, st')"
      using s(5) by (simp add: held_def moved_def no_failed_switch_def CHOOSE_MEM_SUB_def)
    ultimately show ?thesis using s(2-4) by auto
  qed
  then obtain r c' st' where l: "switch_to_locked env nmi hold (locked c, st\<lparr>world := w\<rparr>) = Some (r, c', st')" "hyb (c', st')" "nat_mutex_init c'"
      "st_pdns st' = st_pdns st" "focus_ok env \<longrightarrow> held nmi hold (c, st) (c', st')" by blast
  obtain w' where "give_mutex env (c', st') = (0, c', st'\<lparr>world := w'\<rparr>)" using give_mutex_ok [OF env(1) l(3)] by blast
  then have "ipa_nat_switch_to env nmi hold (c, st) = Some (0, c', st'\<lparr>world := w'\<rparr>)"
    using tk v l(1) by (simp add: ipa_nat_switch_to_def)
  then show ?thesis using l by (simp add: held_def moved_def no_failed_switch_def)
qed

section \<open>Client requests\<close>

datatype request =
    AddRule ipa_nat_ipv4_rule
  | DelRule u32
  | QueryStamp u32
  | ClearTable
  | SwitchTo ipa3_nat_mem_in bool

text \<open>The calls a client makes, with the handle of the table it was given in hybrid mode.\<close>

abbreviation client_tbl :: u32 where
  "client_tbl \<equiv> tbl_hdl IPA_NAT_MEM_IN_SRAM"

fun client_call :: "('w, 'z) sm_env_scheme \<Rightarrow> request \<Rightarrow> 'w sm_state \<Rightarrow> (int \<times> 'w sm_state) option" where
  "client_call env (AddRule u) s = ipa_nat_add_ipv4_rule env client_tbl (Some u) True s"
| "client_call env (DelRule k) s = ipa_nat_del_ipv4_rule env client_tbl k s"
| "client_call env (QueryStamp k) s = ipa_nat_query_timestamp env client_tbl k True s"
| "client_call env ClearTable s = ipa_nati_clear_ipv4_tbl env client_tbl s"
| "client_call env (SwitchTo nmi hold) s = ipa_nat_switch_to env nmi hold s"

text \<open>The PDN index of a rule is an index of the array of PDNs: the interface does not check it.\<close>

fun request_ok :: "request \<Rightarrow> bool" where
  "request_ok (AddRule u) = pdn_fits u"
| "request_ok _ = True"

text \<open>The abstract table: what a request may do to it, given the handle the caller finds in its cell.\<close>

inductive nat_spec :: "request \<Rightarrow> u32 \<Rightarrow> (u32 \<rightharpoonup> ipa_nat_ipv4_rule) \<Rightarrow> (u32 \<rightharpoonup> ipa_nat_ipv4_rule) \<Rightarrow> bool" where
  spec_add: "v k = None \<Longrightarrow> nat_spec (AddRule u) k v (v(k \<mapsto> seen_rule u))"
| spec_refused: "nat_spec (AddRule u) 0 v v"
| spec_clash: "v k \<noteq> None \<Longrightarrow> nat_spec (AddRule u) k v v"
| spec_del: "VALID_RULE_HDL k \<Longrightarrow> nat_spec (DelRule k) j v (v(k := None))"
| spec_del_invalid: "\<not> VALID_RULE_HDL k \<Longrightarrow> nat_spec (DelRule k) j v v"
| spec_stamp: "nat_spec (QueryStamp k) j v v"
| spec_clear: "nat_spec ClearTable j v Map.empty"
| spec_switch: "nat_spec (SwitchTo nmi hold) j v v"

inductive_cases spec_addE: "nat_spec (AddRule u) k v v'"
inductive_cases spec_delE: "nat_spec (DelRule k) j v v'"

code_pred (modes: i \<Rightarrow> i \<Rightarrow> i \<Rightarrow> o \<Rightarrow> bool) nat_spec .

text \<open>One request: the table before, what a move left of it, the request on that, and a move again.\<close>

definition refined :: "request \<Rightarrow> 'w sm_state \<Rightarrow> 'w sm_state \<Rightarrow> bool" where
  "refined req s s' \<longleftrightarrow> (\<exists>v v'. moved s (sm_view s) v s' \<and> nat_spec req (io_rule_hdl (fst s')) v v' \<and> moved s v' (sm_view s') s')"

lemma refined_clean: "refined req s s' \<Longrightarrow> no_failed_switch s s' \<Longrightarrow> nat_spec req (io_rule_hdl (fst s')) (sm_view s) (sm_view s')"
  by (auto simp: refined_def moved_def)

lemma moved_refl [simp]: "moved s v v s'"
  by (simp add: moved_def)

lemma moved_io [simp]: "moved (c\<lparr>io_clnt_rule := u\<rparr>, st) v v' s' = moved (c, st) v v' s'"
  by (simp add: moved_def no_failed_switch_def)

lemma io_clnt_rule_hyb [simp]:
  "hyb (c\<lparr>io_clnt_rule := u\<rparr>, st) = hyb (c, st)" "sm_view (c\<lparr>io_clnt_rule := u\<rparr>, st) = sm_view (c, st)"
  by (simp_all add: hyb_def IN_HYBRID_STATE_def sub_ok_def sm_view_def sub_view_def CHOOSE_MEM_SUB_def)

lemma added_refined:
  assumes "added (c\<lparr>io_clnt_rule := u\<rparr>, st) s'"
  shows "refined (AddRule u) (c, st) s'"
proof -
  obtain v where v: "moved (c, st) (sm_view (c, st)) v s'" "rule_added_view v (seen_rule u) (io_rule_hdl (fst s')) (sm_view s')"
    using assms by (auto simp: added_def)
  have "nat_spec (AddRule u) (io_rule_hdl (fst s')) v (sm_view s')"
    using v(2) nat_spec.intros(1-3) by (auto simp: rule_added_view_def)
  then show ?thesis using v(1) moved_refl unfolding refined_def by blast
qed

lemma three: "ipa_nati_statemach env = statemach_fuel env (Suc (Suc (Suc 0)))"
  by (simp add: ipa_nati_statemach_def eval_nat_numeral)

lemma client_tbl_valid [simp]: "VALID_TBL_HDL client_tbl"
  by (rule tbl_hdl_facts) simp

text \<open>Every request of a client on a hybrid state returns and keeps the invariant, whatever the kernel
  answers to votes and changes of focus; when it accepts them the request refines the abstract one.\<close>

lemma refinedI:
  "nat_spec req (io_rule_hdl (fst s')) (sm_view s) v' \<Longrightarrow> moved s v' (sm_view s') s' \<Longrightarrow> refined req s s'"
  unfolding refined_def using moved_refl by blast

definition request_done :: "('w, 'z) sm_env_scheme \<Rightarrow> request \<Rightarrow> 'w sm_state \<Rightarrow> bool" where
  "request_done env req s \<longleftrightarrow> (\<exists>ret s'. client_call env req s = Some (ret, s') \<and> hyb s' \<and> st_pdns (snd s') = st_pdns (snd s) \<and>
     (focus_ok env \<longrightarrow> refined req s s'))"

lemma request_doneI:
  "client_call env req s = Some (ret, s') \<Longrightarrow> hyb s' \<Longrightarrow> st_pdns (snd s') = st_pdns (snd s) \<Longrightarrow>
   (focus_ok env \<Longrightarrow> refined req s s') \<Longrightarrow> request_done env req s"
  unfolding request_done_def by blast

lemma request_outcome:
  fixes env :: "('w, 'z) sm_env_scheme"
  assumes env: "sm_mutex_ok env" "dma_reliable env" and h: "hyb (c, st)" and req: "request_ok req"
  shows "request_done env req (c, st)"
proof -
  have dev: "dma_device env" using env(2) by (simp add: dma_reliable_def)
  note api = ipa_nat_add_ipv4_rule_def ipa_nati_add_ipv4_rule_def ipa_nat_del_ipv4_rule_def ipa_nati_del_ipv4_rule_def
    ipa_nat_query_timestamp_def ipa_nati_query_timestamp_def ipa_nati_clear_ipv4_tbl_def three
  show ?thesis
  proof (cases req)
    case (AddRule u)
    have "hyb (c\<lparr>io_clnt_rule := u\<rparr>, st)" "pdn_fits (io_clnt_rule (c\<lparr>io_clnt_rule := u\<rparr>))" using h req AddRule by simp_all
    from add_outcome [OF env(1) dev this, of 0] obtain c' st' where
      o: "statemach_fuel env (Suc (Suc (Suc 0))) NATI_TRIG_ADD_RULE (TblArgs client_tbl) (c\<lparr>io_clnt_rule := u\<rparr>, st) = Some (0, c', st')"
        "client_op (c\<lparr>io_clnt_rule := u\<rparr>, st) (c', st')" "focus_ok env \<longrightarrow> added (c\<lparr>io_clnt_rule := u\<rparr>, st) (c', st')" by blast
    show ?thesis
      by (rule request_doneI [of _ _ _ 0 "(c', st')"]) (use AddRule o added_refined in \<open>auto simp: api client_op_def\<close>)
  next
    case (DelRule k)
    from del_outcome [OF env h, of 0 k] obtain c' st' where
      o: "statemach_fuel env (Suc (Suc (Suc 0))) NATI_TRIG_DEL_RULE (RuleArgs client_tbl k) (c, st) = Some (0, c', st')"
        "client_op (c, st) (c', st')" "focus_ok env \<longrightarrow> deleted k (c, st) (c', st')" by blast
    show ?thesis
    proof (cases "VALID_RULE_HDL k")
      case True
      show ?thesis
        by (rule request_doneI [of _ _ _ 0 "(c', st')"])
           (use DelRule True o in \<open>auto simp: api client_op_def deleted_def intro: refinedI spec_del\<close>)
    next
      case False
      show ?thesis
        by (rule request_doneI [of _ _ _ "- EINVAL" "(c, st)"])
           (use DelRule False h in \<open>auto simp: api intro!: refinedI [OF spec_del_invalid]\<close>)
    qed
  next
    case (QueryStamp k)
    from tstamp_outcome [OF env(1) h, of "Suc (Suc 0)" k] obtain c' st' where
      o: "statemach_fuel env (Suc (Suc (Suc 0))) NATI_TRIG_GET_TSTAMP (RuleArgs client_tbl k) (c, st) = Some (0, c', st')"
        "client_op (c, st) (c', st')" "focus_ok env \<longrightarrow> stamped k (c, st) (c', st')" by blast
    show ?thesis
    proof (cases "VALID_RULE_HDL k")
      case True
      show ?thesis
        by (rule request_doneI [of _ _ _ 0 "(c', st')"])
           (use QueryStamp True o in \<open>auto simp: api client_op_def stamped_def intro!: refinedI [OF spec_stamp]\<close>)
    next
      case False
      show ?thesis
        by (rule request_doneI [of _ _ _ "- EINVAL" "(c, st)"])
           (use QueryStamp False h in \<open>auto simp: api intro!: refinedI [OF spec_stamp]\<close>)
    qed
  next
    case ClearTable
    from clear_outcome [OF env(1) h, of "Suc (Suc 0)"] obtain c' st' where
      o: "statemach_fuel env (Suc (Suc (Suc 0))) NATI_TRIG_CLR_TABLE (TblArgs client_tbl) (c, st) = Some (0, c', st')"
        "client_op (c, st) (c', st')" "focus_ok env \<longrightarrow> sm_view (c', st') = Map.empty" by blast
    show ?thesis
      by (rule request_doneI [of _ _ _ 0 "(c', st')"])
         (use ClearTable o in \<open>auto simp: api client_op_def intro!: refinedI [OF spec_clear]\<close>)
  next
    case (SwitchTo nmi hold)
    show ?thesis
    proof (cases "nmi = IPA_NAT_MEM_IN_MAX")
      case True
      then have "client_call env req (c, st) = Some (- 1, c, st)" using SwitchTo by (simp add: ipa_nat_switch_to_def IPA_VALID_NAT_MEM_IN_def)
      then show ?thesis by (rule request_doneI) (use h SwitchTo in \<open>auto intro!: refinedI [OF spec_switch]\<close>)
    next
      case False
      from switch_to_outcome [OF env(1) dev h False, of hold] obtain c' st' where
        o: "ipa_nat_switch_to env nmi hold (c, st) = Some (0, c', st')" "hyb (c', st')" "st_pdns st' = st_pdns st"
          "focus_ok env \<longrightarrow> held nmi hold (c, st) (c', st')" by blast
      show ?thesis
        by (rule request_doneI [of _ _ _ 0 "(c', st')"])
           (use SwitchTo o in \<open>auto simp: held_def intro!: refinedI [OF spec_switch]\<close>)
    qed
  qed
qed

section \<open>Runs of the state machine\<close>

definition sm_good :: "('w, 'z) sm_env_scheme \<Rightarrow> bool" where
  "sm_good env \<longleftrightarrow> sm_mutex_ok env \<and> dma_reliable env"

definition sm_clean :: "('w, 'z) sm_env_scheme \<Rightarrow> 'w sm_state \<Rightarrow> 'w sm_state \<Rightarrow> bool" where
  "sm_clean env s s' \<longleftrightarrow> focus_ok env \<and> no_failed_switch s s'"

interpretation hybrid: service sm_good hyb request_ok client_call sm_view "\<lambda>s. io_rule_hdl (fst s)" sm_clean nat_spec
proof unfold_locales
  fix env :: "('w, 'z) sm_env_scheme" and s :: "'w sm_state" and q
  assume a: "sm_good env" "hyb s" "request_ok q"
  then have d: "request_done env q s" using request_outcome [of env "fst s" "snd s" q] by (simp add: sm_good_def)
  then show "\<exists>ret s'. client_call env q s = Some (ret, s') \<and> hyb s'" unfolding request_done_def by blast
  show "nat_spec q (io_rule_hdl (fst s')) (sm_view s) (sm_view s')" if "client_call env q s = Some (ret, s')" "sm_clean env s s'" for ret s'
    by (rule refined_clean) (use d that in \<open>auto simp: request_done_def sm_clean_def\<close>)
qed



end
