(* ===== verification/Nat_Start_Ok.thy ===== *)
theory Nat_Start_Ok
  imports Nat_Client_Ok
begin

text \<open>
  The depth of the state machine's recursion, the start of hybrid mode, and what a client is told of an
  addition that failed.
\<close>

section \<open>Depth of the recursion\<close>

lemma take_mutex_curr: "take_mutex env s = (ret, c, st) \<Longrightarrow> curr_state c = curr_state (fst s)"
  by (auto simp: take_mutex_def mutex_init_def split: prod.splits if_splits)

text \<open>Two depths agree when the callback of the state does.\<close>

lemma fuel_cong:
  assumes "\<And>c st. curr_state c = curr_state (fst s) \<Longrightarrow>
    sm_cb env (statemach_fuel env m) (state_mach_tbl (curr_state c) trigger) trigger args (c, st) =
    sm_cb env (statemach_fuel env n) (state_mach_tbl (curr_state c) trigger) trigger args (c, st)"
  shows "statemach_fuel env (Suc m) trigger args s = statemach_fuel env (Suc n) trigger args s"
proof -
  obtain ret c st where t: "take_mutex env s = (ret, c, st)" by (cases "take_mutex env s")
  show ?thesis
    by (simp add: statemach_fuel.simps t Let_def assms [OF take_mutex_curr [OF t]] split: prod.splits)
qed

lemma cb_goto:
  "sm_cb env f (state_mach_tbl x NATI_TRIG_GOTO_SRAM) trigger args s = sm_cb env g (state_mach_tbl x NATI_TRIG_GOTO_SRAM) trigger args s"
  "sm_cb env f (state_mach_tbl x NATI_TRIG_GOTO_DDR) trigger args s = sm_cb env g (state_mach_tbl x NATI_TRIG_GOTO_DDR) trigger args s"
  by (cases x; simp add: sm_cb_def)+

lemma fuel_goto:
  "statemach_fuel env (Suc m) NATI_TRIG_GOTO_SRAM args s = statemach_fuel env (Suc n) NATI_TRIG_GOTO_SRAM args s"
  "statemach_fuel env (Suc m) NATI_TRIG_GOTO_DDR args s = statemach_fuel env (Suc n) NATI_TRIG_GOTO_DDR args s"
  by (rule fuel_cong, rule cb_goto)+

lemma fuel_switch:
  "statemach_fuel env (Suc (Suc m)) NATI_TRIG_TBL_SWITCH args s = statemach_fuel env (Suc (Suc n)) NATI_TRIG_TBL_SWITCH args s"
proof (rule fuel_cong)
  fix c st
  show "sm_cb env (statemach_fuel env (Suc m)) (state_mach_tbl (curr_state c) NATI_TRIG_TBL_SWITCH) NATI_TRIG_TBL_SWITCH args (c, st) =
      sm_cb env (statemach_fuel env (Suc n)) (state_mach_tbl (curr_state c) NATI_TRIG_TBL_SWITCH) NATI_TRIG_TBL_SWITCH args (c, st)"
    by (cases "curr_state c") (simp_all add: sm_cb_def smSwitchFromSramToDdr_def smSwitchFromDdrToSram_def fuel_goto [of env m _ _ n])
qed

lemma fuel_add_rule_ddr:
  assumes "curr_state (fst s) \<noteq> NATI_STATE_HYBRID"
  shows "statemach_fuel env (Suc m) NATI_TRIG_ADD_RULE args s = statemach_fuel env (Suc n) NATI_TRIG_ADD_RULE args s"
proof (rule fuel_cong)
  fix c :: sm_ctl and st
  assume c: "curr_state c = curr_state (fst s)"
  have keep: "smAddRuleToTbl env a (c, st) = Some (r, c', st') \<Longrightarrow> curr_state c' = curr_state c" for a r c' st'
    by (auto simp: smAddRuleToTbl_def Let_def split: sm_args.splits Option.bind_splits if_splits)
  have "smAddRuleHybrid env f NATI_TRIG_ADD_RULE args (c, st) = smAddRuleHybrid env g NATI_TRIG_ADD_RULE args (c, st)" for f g
    using assms c keep
    by (auto simp: smAddRuleHybrid_def split: sm_args.splits Option.bind_splits)
  then show "sm_cb env (statemach_fuel env m) (state_mach_tbl (curr_state c) NATI_TRIG_ADD_RULE) NATI_TRIG_ADD_RULE args (c, st) =
      sm_cb env (statemach_fuel env n) (state_mach_tbl (curr_state c) NATI_TRIG_ADD_RULE) NATI_TRIG_ADD_RULE args (c, st)"
    by (cases "curr_state c") (simp_all add: sm_cb_def)
qed

lemma fuel_add_rule:
  "statemach_fuel env (Suc (Suc (Suc m))) NATI_TRIG_ADD_RULE args s = statemach_fuel env (Suc (Suc (Suc n))) NATI_TRIG_ADD_RULE args s"
proof (rule fuel_cong)
  fix c :: sm_ctl and st
  have "statemach_fuel env (Suc (Suc m)) NATI_TRIG_ADD_RULE args (SET_NATIOBJ_STATE NATI_STATE_HYBRID_DDR c', st') =
      statemach_fuel env (Suc (Suc n)) NATI_TRIG_ADD_RULE args (SET_NATIOBJ_STATE NATI_STATE_HYBRID_DDR c', st')" for c' st'
    by (rule fuel_add_rule_ddr) simp
  then have "smAddRuleHybrid env (statemach_fuel env (Suc (Suc m))) NATI_TRIG_ADD_RULE args (c, st) =
      smAddRuleHybrid env (statemach_fuel env (Suc (Suc n))) NATI_TRIG_ADD_RULE args (c, st)"
    unfolding smAddRuleHybrid_def fuel_switch [of env m _ _ n] by (simp only:)
  then show "sm_cb env (statemach_fuel env (Suc (Suc m))) (state_mach_tbl (curr_state c) NATI_TRIG_ADD_RULE) NATI_TRIG_ADD_RULE args (c, st) =
      sm_cb env (statemach_fuel env (Suc (Suc n))) (state_mach_tbl (curr_state c) NATI_TRIG_ADD_RULE) NATI_TRIG_ADD_RULE args (c, st)"
    by (cases "curr_state c") (simp_all add: sm_cb_def)
qed

lemma fuel_del_rule:
  "statemach_fuel env (Suc (Suc (Suc m))) NATI_TRIG_DEL_RULE args s = statemach_fuel env (Suc (Suc (Suc n))) NATI_TRIG_DEL_RULE args s"
proof (rule fuel_cong)
  fix c :: sm_ctl and st
  have "smDelRuleHybrid env (statemach_fuel env (Suc (Suc m))) args (c, st) =
      smDelRuleHybrid env (statemach_fuel env (Suc (Suc n))) args (c, st)"
    unfolding smDelRuleHybrid_def fuel_switch [of env m _ _ n] by (rule refl)
  then show "sm_cb env (statemach_fuel env (Suc (Suc m))) (state_mach_tbl (curr_state c) NATI_TRIG_DEL_RULE) NATI_TRIG_DEL_RULE args (c, st) =
      sm_cb env (statemach_fuel env (Suc (Suc n))) (state_mach_tbl (curr_state c) NATI_TRIG_DEL_RULE) NATI_TRIG_DEL_RULE args (c, st)"
    by (cases "curr_state c") (simp_all add: sm_cb_def)
qed

lemma fuel_add_table_started:
  assumes "curr_state (fst s) \<noteq> NATI_STATE_NULL"
  shows "statemach_fuel env (Suc (Suc m)) NATI_TRIG_ADD_TABLE args s = statemach_fuel env (Suc (Suc n)) NATI_TRIG_ADD_TABLE args s"
proof (rule fuel_cong)
  fix c :: sm_ctl and st
  assume c: "curr_state c = curr_state (fst s)"
  have "smAddSramAndDdrTbl env (statemach_fuel env (Suc m)) args (c, st) = smAddSramAndDdrTbl env (statemach_fuel env (Suc n)) args (c, st)"
    unfolding smAddSramAndDdrTbl_def fuel_goto [of env m _ _ n] by (rule refl)
  then show "sm_cb env (statemach_fuel env (Suc m)) (state_mach_tbl (curr_state c) NATI_TRIG_ADD_TABLE) NATI_TRIG_ADD_TABLE args (c, st) =
      sm_cb env (statemach_fuel env (Suc n)) (state_mach_tbl (curr_state c) NATI_TRIG_ADD_TABLE) NATI_TRIG_ADD_TABLE args (c, st)"
    using assms c by (cases "curr_state c") (simp_all add: sm_cb_def)
qed

lemma fuel_add_table:
  "statemach_fuel env (Suc (Suc (Suc m))) NATI_TRIG_ADD_TABLE args s = statemach_fuel env (Suc (Suc (Suc n))) NATI_TRIG_ADD_TABLE args s"
proof (rule fuel_cong)
  fix c :: sm_ctl and st
  have a: "smAddSramAndDdrTbl env (statemach_fuel env (Suc (Suc m))) args (c, st) = smAddSramAndDdrTbl env (statemach_fuel env (Suc (Suc n))) args (c, st)"
    unfolding smAddSramAndDdrTbl_def fuel_goto [of env "Suc m" _ _ "Suc n"] by (rule refl)
  have b: "smFirstTbl (statemach_fuel env (Suc (Suc m))) args (c, st) = smFirstTbl (statemach_fuel env (Suc (Suc n))) args (c, st)"
  proof (cases args)
    case (AddTblArgs ip k ty)
    have "mem_type_str_to_ipa_nati_state ty \<noteq> NATI_STATE_NULL" by (simp add: mem_type_str_to_ipa_nati_state_def split: option.splits)
    then show ?thesis unfolding AddTblArgs smFirstTbl_def by (auto intro!: fuel_add_table_started)
  qed (simp_all add: smFirstTbl_def)
  show "sm_cb env (statemach_fuel env (Suc (Suc m))) (state_mach_tbl (curr_state c) NATI_TRIG_ADD_TABLE) NATI_TRIG_ADD_TABLE args (c, st) =
      sm_cb env (statemach_fuel env (Suc (Suc n))) (state_mach_tbl (curr_state c) NATI_TRIG_ADD_TABLE) NATI_TRIG_ADD_TABLE args (c, st)"
    using a b by (cases "curr_state c") (simp_all add: sm_cb_def)
qed

lemma fuel_other:
  assumes "trigger \<notin> {NATI_TRIG_ADD_TABLE, NATI_TRIG_ADD_RULE, NATI_TRIG_DEL_RULE, NATI_TRIG_TBL_SWITCH}"
  shows "statemach_fuel env (Suc m) trigger args s = statemach_fuel env (Suc n) trigger args s"
proof (rule fuel_cong)
  fix c :: sm_ctl and st
  show "sm_cb env (statemach_fuel env m) (state_mach_tbl (curr_state c) trigger) trigger args (c, st) =
      sm_cb env (statemach_fuel env n) (state_mach_tbl (curr_state c) trigger) trigger args (c, st)"
    using assms by (cases trigger; cases "curr_state c") (simp_all add: sm_cb_def)
qed

text \<open>C28: \<^verbatim>\<open>ipa_nati_statemach\<close> calls itself, through its callbacks, to a depth of three at most: a bound on the
  depth of three or more never cuts a call short, in any state, for any trigger and any arguments.\<close>

theorem statemach_depth_three: "statemach_fuel env (3 + n) trigger args s = ipa_nati_statemach env trigger args s"
proof -
  have n: "3 + n = Suc (Suc (Suc n))" by simp
  show ?thesis
    unfolding ipa_nati_statemach_def three [unfolded ipa_nati_statemach_def] n
    using fuel_add_table [of env n] fuel_add_rule [of env n] fuel_del_rule [of env n] fuel_switch [of env "Suc n"]
      fuel_other [of trigger env "Suc (Suc n)" args s "Suc (Suc 0)"]
    by (cases trigger) simp_all
qed

section \<open>The first table\<close>

text \<open>The SRAM is small enough for the search of the table size to end.\<close>

definition sram_bound :: "('w, 'z) ipa_env_scheme \<Rightarrow> bool" where
  "sram_bound env \<longleftrightarrow> (\<forall>fd w. unat (sram_mem_available_for_nat (fst (snd (env_get_sram_info env fd w)))) < 1686888)"

definition sram_desc :: "ipa_descriptor option \<Rightarrow> 'w \<Rightarrow> 'w nat_state \<Rightarrow> 'w nat_state" where
  "sram_desc d w st =
     (set_cache IPA_NAT_MEM_IN_SRAM ((ipv4_nat_cache st IPA_NAT_MEM_IN_SRAM)\<lparr>ipa_desc := d\<rparr>) st)\<lparr>world := w\<rparr>"

lemma sram_desc_simps [simp]:
  "st_pdns (sram_desc d w st) = st_pdns st"
  "ipv4_nat_cache (sram_desc d w st) IPA_NAT_MEM_IN_DDR = ipv4_nat_cache st IPA_NAT_MEM_IN_DDR"
  "table_cnt (ipv4_nat_cache (sram_desc d w st) IPA_NAT_MEM_IN_SRAM) = table_cnt (ipv4_nat_cache st IPA_NAT_MEM_IN_SRAM)"
  by (simp_all add: sram_desc_def set_cache_def)

lemma vote_clock_frame: "\<exists>ret d w. ipa_nat_vote_clock env v st = (ret, sram_desc d w st)"
proof -
  obtain d w where d: "open_desc env (ipa_desc (ipv4_nat_cache st IPA_NAT_MEM_IN_SRAM)) (world st) = (d, w)" by fastforce
  show ?thesis
  proof (cases d)
    case None
    then show ?thesis using d by (auto simp: ipa_nat_vote_clock_def ipa_nati_vote_clock_def sram_desc_def)
  next
    case (Some x)
    obtain r w' where "env_clock_vote env (desc_fd x) v w = (r, w')" by fastforce
    then have "ipa_nat_vote_clock env v st = (r, sram_desc d w' st)"
      using d Some by (simp add: ipa_nat_vote_clock_def ipa_nati_vote_clock_def sram_desc_def)
    then show ?thesis by blast
  qed
qed

lemma sram_size_frame:
  assumes mtx: "mutex_ok env" and sb: "sram_bound env"
  shows "\<exists>ret z d w. ipa_nati_get_sram_size env st = (ret, z, sram_desc d w st) \<and> (ret = 0 \<longrightarrow> (\<exists>x. z = Some x \<and> unat x < 1686888))"
proof -
  let ?w = "snd (env_mutex_lock env (world st))"
  obtain d w where d: "open_desc env (ipa_desc (ipv4_nat_cache st IPA_NAT_MEM_IN_SRAM)) ?w = (d, w)" by fastforce
  note defs = ipa_nati_get_sram_size_def nat_lock_ok [OF mtx] unlock_ret_ok [OF mtx] sram_desc_def set_cache_def Let_def
  show ?thesis
  proof (cases d)
    case None
    then have "ipa_nati_get_sram_size env st = (- EIO, None, sram_desc d (snd (env_mutex_unlock env w)) st)" using d by (simp add: defs)
    then show ?thesis by force
  next
    case (Some x)
    obtain r info w' where i: "env_get_sram_info env (desc_fd x) w = (r, info, w')" by (cases "env_get_sram_info env (desc_fd x) w") auto
    have "unat (sram_mem_available_for_nat info) < 1686888" using sb i by (metis sram_bound_def fst_conv snd_conv)
    moreover have "ipa_nati_get_sram_size env st =
        (if r \<noteq> 0 then r else if sram_mem_available_for_nat info = 0 then - EINVAL else 0,
         if r \<noteq> 0 then None else Some (sram_mem_available_for_nat info), sram_desc d (snd (env_mutex_unlock env w')) st)"
      using d Some i by (simp add: defs)
    ultimately show ?thesis by (auto split: if_splits)
  qed
qed

lemma calc_sram_runs:
  assumes "sz < 1686888"
  shows "\<exists>r n. ipa_calc_num_sram_table_entries sz 32 4 = Some (r, n)"
  using calc_sram_loop_spec [of sz 1] assms by (auto simp: ipa_calc_num_sram_table_entries_def)

text \<open>What the creation of tables keeps of the control part.\<close>

definition same_start :: "sm_ctl \<Rightarrow> sm_ctl \<Rightarrow> bool" where
  "same_start c c' \<longleftrightarrow> curr_state c' = curr_state c \<and> prev_state c' = prev_state c \<and> hold_state c' = hold_state c \<and>
     map_array c' = map_array c \<and> nat_mutex_init c' = nat_mutex_init c"

definition no_tables :: "ipa3_nat_mem_in \<Rightarrow> 'w nat_state \<Rightarrow> bool" where
  "no_tables nmi st \<longleftrightarrow> table_cnt (ipv4_nat_cache st nmi) = 0"

definition new_store :: "ipa3_nat_mem_in \<Rightarrow> 'w nat_state \<Rightarrow> bool" where
  "new_store nmi st \<longleftrightarrow> store_ok nmi st \<and> store_rules nmi st = Map.empty"

lemma add_tbl_store:
  fixes env :: "('w, 'z) nat_env_scheme"
  assumes "mutex_ok env" "alloc_at_base env" "nmi \<noteq> IPA_NAT_MEM_IN_MAX" "length (st_pdns st) = IPA_MAX_PDN_NUM" "no_tables nmi st"
  shows "\<exists>ret hdl st'. ipa_NATI_add_ipv4_tbl env nmi ip n st = Some (ret, hdl, st') \<and> length (st_pdns st') = IPA_MAX_PDN_NUM \<and>
     (if ret = 0 then hdl = tbl_hdl nmi \<and> new_store nmi st' else hdl = 0 \<and> no_tables nmi st') \<and>
     (\<forall>m. m \<noteq> nmi \<longrightarrow> ipv4_nat_cache st' m = ipv4_nat_cache st m)"
proof -
  have "st_pdns st \<noteq> []" using assms(4) by (auto simp: IPA_MAX_PDN_NUM_def)
  then obtain ret hdl st' where o: "ipa_NATI_add_ipv4_tbl env nmi ip n st = Some (ret, hdl, st')"
      "if ret = 0 then hdl = tbl_hdl nmi \<and> cache_ok (ipv4_nat_cache st' nmi) no_chains no_chains \<and> cache_rules (ipv4_nat_cache st' nmi) = Map.empty
       else hdl = 0 \<and> table_cnt (ipv4_nat_cache st' nmi) = 0 \<and> st_pdns st' = st_pdns st"
      "ret = 0 \<longrightarrow> tbl_nmi (nat_table_of st' nmi) = nmi \<and> length (st_pdns st') = length (st_pdns st)"
      "\<forall>m. m \<noteq> nmi \<longrightarrow> ipv4_nat_cache st' m = ipv4_nat_cache st m"
    using add_tbl_outcome [OF assms(1-3), of st ip n] assms(5) by (fastforce simp: no_tables_def split: if_splits)
  show ?thesis
  proof (cases "ret = 0")
    case True
    then have "new_store nmi st'"
      using o(2,3) assms(4) by (auto simp: new_store_def store_ok_def store_rules_def cache_rules_def hrules_empty)
    then show ?thesis using True o assms(4) by simp
  next
    case False
    then show ?thesis using o assms(4) by (simp add: no_tables_def)
  qed
qed

lemma add_ddr_tbl:
  fixes env :: "('w, 'z) sm_env_scheme"
  assumes "mutex_ok env" "alloc_at_base env" "length (st_pdns st) = IPA_MAX_PDN_NUM" "no_tables IPA_NAT_MEM_IN_DDR st"
  shows "\<exists>ret c' st'. smAddDdrTbl env (AddTblArgs ip n ty) (c, st) = Some (ret, c', st') \<and> same_start c c' \<and>
     sram_tbl_hdl c' = sram_tbl_hdl c \<and> length (st_pdns st') = IPA_MAX_PDN_NUM \<and>
     ipv4_nat_cache st' IPA_NAT_MEM_IN_SRAM = ipv4_nat_cache st IPA_NAT_MEM_IN_SRAM \<and>
     (if ret = 0 then new_store IPA_NAT_MEM_IN_DDR st' \<and> ddr_tbl_hdl c' = tbl_hdl IPA_NAT_MEM_IN_DDR \<and> io_tbl_hdl c' = tbl_hdl IPA_NAT_MEM_IN_DDR
      else ddr_tbl_hdl c' = 0 \<and> io_tbl_hdl c' = io_tbl_hdl c)"
proof -
  obtain ret hdl st' where "ipa_NATI_add_ipv4_tbl env IPA_NAT_MEM_IN_DDR ip n st = Some (ret, hdl, st')"
      "length (st_pdns st') = IPA_MAX_PDN_NUM"
      "if ret = 0 then hdl = tbl_hdl IPA_NAT_MEM_IN_DDR \<and> new_store IPA_NAT_MEM_IN_DDR st' else hdl = 0 \<and> no_tables IPA_NAT_MEM_IN_DDR st'"
      "\<forall>m. m \<noteq> IPA_NAT_MEM_IN_DDR \<longrightarrow> ipv4_nat_cache st' m = ipv4_nat_cache st m"
    using add_tbl_store [OF assms(1,2) _ assms(3,4), of ip n] by blast
  then show ?thesis by (cases "ret = 0") (simp_all add: smAddDdrTbl_def same_start_def)
qed

lemma add_sram_tbl:
  fixes env :: "('w, 'z) sm_env_scheme"
  assumes mtx: "mutex_ok env" and al: "alloc_at_base env" and sb: "sram_bound env"
    and p: "length (st_pdns st) = IPA_MAX_PDN_NUM" and nt: "no_tables IPA_NAT_MEM_IN_SRAM st"
  shows "\<exists>ret c' st'. smAddSramTbl env (AddTblArgs ip n ty) (c, st) = Some (ret, c', st') \<and> same_start c c' \<and>
     ddr_tbl_hdl c' = ddr_tbl_hdl c \<and> length (st_pdns st') = IPA_MAX_PDN_NUM \<and>
     ipv4_nat_cache st' IPA_NAT_MEM_IN_DDR = ipv4_nat_cache st IPA_NAT_MEM_IN_DDR \<and>
     (if ret = 0 then new_store IPA_NAT_MEM_IN_SRAM st' \<and> sram_tbl_hdl c' = tbl_hdl IPA_NAT_MEM_IN_SRAM \<and> io_tbl_hdl c' = tbl_hdl IPA_NAT_MEM_IN_SRAM
      else io_tbl_hdl c' = io_tbl_hdl c)"
proof -
  obtain ret z d w where g: "ipa_nati_get_sram_size env st = (ret, z, sram_desc d w st)" "ret = 0 \<longrightarrow> (\<exists>x. z = Some x \<and> unat x < 1686888)"
    using sram_size_frame [OF mtx sb] by blast
  show ?thesis
  proof (cases "ret = 0")
    case False
    then show ?thesis using g(1) p by (simp add: smAddSramTbl_def same_start_def)
  next
    case True
    then obtain x where x: "z = Some x" "unat x < 1686888" using g(2) by blast
    obtain r k where k: "ipa_calc_num_sram_table_entries (unat x) 32 4 = Some (r, k)" using calc_sram_runs [OF x(2)] by blast
    let ?c1 = "c\<lparr>tot_slots_in_sram := (tot_slots_in_sram c AND 0xFFFF0000) OR of_nat k\<rparr>"
    let ?c2 = "?c1\<lparr>back_to_sram_thresh := PRCNT_OF (tot_slots_in_sram ?c1)\<rparr>"
    obtain rv d2 w2 where v: "ipa_nat_vote_clock env IPA_APP_CLK_VOTE (sram_desc d w st) = (rv, sram_desc d2 w2 (sram_desc d w st))"
      using vote_clock_frame [of env IPA_APP_CLK_VOTE "sram_desc d w st"] by blast
    let ?st2 = "sram_desc d2 w2 (sram_desc d w st)"
    have "no_tables IPA_NAT_MEM_IN_SRAM ?st2" "length (st_pdns ?st2) = IPA_MAX_PDN_NUM" using nt p by (simp_all add: no_tables_def)
    then obtain ra h3 st3 where a: "ipa_NATI_add_ipv4_tbl env IPA_NAT_MEM_IN_SRAM ip (unat (tot_slots_in_sram ?c2) mod 65536) ?st2 = Some (ra, h3, st3)"
        "length (st_pdns st3) = IPA_MAX_PDN_NUM" "if ra = 0 then h3 = tbl_hdl IPA_NAT_MEM_IN_SRAM \<and> new_store IPA_NAT_MEM_IN_SRAM st3 else h3 = 0 \<and> no_tables IPA_NAT_MEM_IN_SRAM st3"
        "\<forall>m. m \<noteq> IPA_NAT_MEM_IN_SRAM \<longrightarrow> ipv4_nat_cache st3 m = ipv4_nat_cache ?st2 m"
      using add_tbl_store [OF mtx al, of IPA_NAT_MEM_IN_SRAM ?st2 ip "unat (tot_slots_in_sram ?c2) mod 65536"] by auto
    obtain r4 d4 w4 where dv: "ipa_nat_vote_clock env IPA_APP_CLK_DEVOTE st3 = (r4, sram_desc d4 w4 st3)" using vote_clock_frame [of env IPA_APP_CLK_DEVOTE st3] by blast
    have new: "new_store IPA_NAT_MEM_IN_SRAM (sram_desc d4 w4 st3)" if "ra = 0"
    proof -
      have n3: "new_store IPA_NAT_MEM_IN_SRAM st3" using a(3) that by simp
      then have "ipa_desc (ipv4_nat_cache st3 IPA_NAT_MEM_IN_SRAM) \<noteq> None" by (auto simp: new_store_def store_ok_def cache_ok_def)
      then obtain r5 w5 where "ipa_nat_vote_clock env IPA_APP_CLK_DEVOTE st3 = (r5, st3\<lparr>world := w5\<rparr>)" using vote_clock_ok by blast
      then have "sram_desc d4 w4 st3 = st3\<lparr>world := w5\<rparr>" using dv by simp
      then show ?thesis using n3 by (simp add: new_store_def)
    qed
    let ?st' = "if r \<noteq> 0 then sram_desc d w st else if rv \<noteq> 0 then ?st2 else sram_desc d4 w4 st3"
    let ?c' = "if r \<noteq> 0 then ?c1 else if rv \<noteq> 0 then ?c2 else if ra = 0 then ?c2\<lparr>sram_tbl_hdl := h3, io_tbl_hdl := h3\<rparr> else ?c2\<lparr>sram_tbl_hdl := h3\<rparr>"
    have "smAddSramTbl env (AddTblArgs ip n ty) (c, st) = Some (if r \<noteq> 0 then r else if rv \<noteq> 0 then rv else ra, ?c', ?st')"
      using g(1) True x(1) k v a(1) dv by (simp add: smAddSramTbl_def Let_def)
    then show ?thesis using a p new by (auto simp: same_start_def)
  qed
qed

lemma sub_new:
  "new_store (nmi_of_sub sub) st \<Longrightarrow> o2n_of sub c = Map.empty \<Longrightarrow> n2o_of sub c = Map.empty \<Longrightarrow>
   sub_ok sub (c, st) \<and> sub_view sub (c, st) = Map.empty"
  by (simp add: new_store_def sub_ok_def sub_view_def client_view_def [abs_def] handle_view_def)

text \<open>The states a client may be in after it asked for a hybrid table.\<close>

definition started :: "'w sm_state \<Rightarrow> bool" where
  "started s \<longleftrightarrow> (let c = fst s; st = snd s in
     hyb s \<and> sm_view s = Map.empty \<and> CHOOSE_MEM_SUB c = SRAM_SUB \<and> io_tbl_hdl c = client_tbl \<or>
     curr_state c = NATI_STATE_SRAM_ONLY \<and> new_store IPA_NAT_MEM_IN_SRAM st \<and> io_tbl_hdl c = tbl_hdl IPA_NAT_MEM_IN_SRAM \<or>
     curr_state c = NATI_STATE_DDR_ONLY \<and> new_store IPA_NAT_MEM_IN_DDR st \<and> io_tbl_hdl c = tbl_hdl IPA_NAT_MEM_IN_DDR)"

text \<open>The two failures: no table and no handle; or an SRAM table only, with a handle as if all were well.\<close>

definition start_failed :: "'w sm_state \<Rightarrow> bool" where
  "start_failed s \<longleftrightarrow> (let c = fst s; st = snd s in
     curr_state c = NATI_STATE_HYBRID \<and>
     (io_tbl_hdl c = 0 \<or> new_store IPA_NAT_MEM_IN_SRAM st \<and> io_tbl_hdl c = client_tbl \<and> ddr_tbl_hdl c = 0))"

lemma started_world [simp]:
  "started (c, st\<lparr>world := w\<rparr>) = started (c, st)" "start_failed (c, st\<lparr>world := w\<rparr>) = start_failed (c, st)"
  by (simp_all add: started_def start_failed_def new_store_def)

lemma statemach_add_table:
  fixes env :: "('w, 'z) sm_env_scheme"
  assumes env: "sm_mutex_ok env"
  obtains w where "\<And>r c' st'. sm_cb env (statemach_fuel env n) (state_mach_tbl (curr_state c) NATI_TRIG_ADD_TABLE) NATI_TRIG_ADD_TABLE args
        (locked c, st\<lparr>world := w\<rparr>) = Some (r, c', st') \<Longrightarrow> nat_mutex_init c' \<Longrightarrow>
        \<exists>w'. statemach_fuel env (Suc n) NATI_TRIG_ADD_TABLE args (c, st) = Some (0, c', st'\<lparr>world := w'\<rparr>)"
proof -
  obtain w where tk: "take_mutex env (c, st) = (0, locked c, st\<lparr>world := w\<rparr>)" using take_mutex_ok [OF env] by (auto simp: locked_def)
  show thesis
  proof (rule that)
    fix r c' st'
    assume a: "sm_cb env (statemach_fuel env n) (state_mach_tbl (curr_state c) NATI_TRIG_ADD_TABLE) NATI_TRIG_ADD_TABLE args
        (locked c, st\<lparr>world := w\<rparr>) = Some (r, c', st')" "nat_mutex_init c'"
    obtain w' where "give_mutex env (c', st') = (0, c', st'\<lparr>world := w'\<rparr>)" using give_mutex_ok [OF env a(2)] by blast
    then show "\<exists>w'. statemach_fuel env (Suc n) NATI_TRIG_ADD_TABLE args (c, st) = Some (0, c', st'\<lparr>world := w'\<rparr>)"
      using tk a(1) by (auto simp: statemach_fuel.simps VOTE_REQUIRED_def Let_def)
  qed
qed

lemma clear_maps_all:
  "clear_maps sub c = Some (c\<lparr>map_array := (map_array c)(orig2new_map (map_pairs sub) := Map.empty, new2orig_map (map_pairs sub) := Map.empty)\<rparr>)"
  by (simp add: clear_maps_def)

lemma add_both_tables:
  fixes env :: "('w, 'z) sm_env_scheme"
  assumes env: "sm_mutex_ok env" and al: "alloc_at_base env" and sb: "sram_bound env"
    and p: "length (st_pdns st) = IPA_MAX_PDN_NUM" and nt: "no_tables IPA_NAT_MEM_IN_SRAM st" "no_tables IPA_NAT_MEM_IN_DDR st"
    and c: "curr_state c = NATI_STATE_HYBRID" "nat_mutex_init c" "io_tbl_hdl c = 0"
  shows "\<exists>ret c' st'. smAddSramAndDdrTbl env (statemach_fuel env (Suc n)) (AddTblArgs ip k ty) (c, st) = Some (ret, c', st') \<and>
     nat_mutex_init c' \<and> (started (c', st') \<or> start_failed (c', st'))"
proof -
  note mtx = sm_mutexD [OF env]
  let ?c0 = "c\<lparr>tot_rules_in_table := (\<lambda>_. 0), map_array := (map_array c)(MAP_NUM_00 := Map.empty, MAP_NUM_01 := Map.empty,
      MAP_NUM_02 := Map.empty, MAP_NUM_03 := Map.empty)\<rparr>"
  have mp: "o2n_of sub x = Map.empty \<and> n2o_of sub x = Map.empty" if "map_array x = map_array ?c0" for sub x
    using that by (cases sub) (simp_all add: map_pairs_def)
  have cl: "clear_maps DDR_SUB (the (clear_maps SRAM_SUB (c\<lparr>tot_rules_in_table := (\<lambda>_. 0)\<rparr>))) = Some ?c0"
    by (simp add: clear_maps_all map_pairs_def fun_upd_twist)
  obtain r1 c1 st1 where s1: "smAddSramTbl env (AddTblArgs ip k ty) (?c0, st) = Some (r1, c1, st1)" "same_start ?c0 c1"
      "ddr_tbl_hdl c1 = ddr_tbl_hdl ?c0" "length (st_pdns st1) = IPA_MAX_PDN_NUM"
      "ipv4_nat_cache st1 IPA_NAT_MEM_IN_DDR = ipv4_nat_cache st IPA_NAT_MEM_IN_DDR"
      "if r1 = 0 then new_store IPA_NAT_MEM_IN_SRAM st1 \<and> sram_tbl_hdl c1 = tbl_hdl IPA_NAT_MEM_IN_SRAM \<and> io_tbl_hdl c1 = tbl_hdl IPA_NAT_MEM_IN_SRAM
       else io_tbl_hdl c1 = io_tbl_hdl ?c0"
    using add_sram_tbl [OF mtx al sb p nt(1)] by blast
  have nt1: "no_tables IPA_NAT_MEM_IN_DDR st1" using nt(2) s1(5) by (simp add: no_tables_def)
  have ddr: "\<exists>r2 c2 st2. smAddDdrTbl env (AddTblArgs ip k ty') (c1, st1) = Some (r2, c2, st2) \<and> same_start c1 c2 \<and>
     sram_tbl_hdl c2 = sram_tbl_hdl c1 \<and> length (st_pdns st2) = IPA_MAX_PDN_NUM \<and>
     ipv4_nat_cache st2 IPA_NAT_MEM_IN_SRAM = ipv4_nat_cache st1 IPA_NAT_MEM_IN_SRAM \<and>
     (if r2 = 0 then new_store IPA_NAT_MEM_IN_DDR st2 \<and> ddr_tbl_hdl c2 = tbl_hdl IPA_NAT_MEM_IN_DDR \<and> io_tbl_hdl c2 = tbl_hdl IPA_NAT_MEM_IN_DDR
      else ddr_tbl_hdl c2 = 0 \<and> io_tbl_hdl c2 = io_tbl_hdl c1)" for ty'
    by (rule add_ddr_tbl [OF mtx al s1(4) nt1])
  have eq: "smAddSramAndDdrTbl env (statemach_fuel env (Suc n)) (AddTblArgs ip k ty) (c, st) =
     (if r1 = 0 then
        if unat (tot_slots_in_sram c1) \<ge> k then Some (r1, SET_NATIOBJ_STATE NATI_STATE_SRAM_ONLY c1, st1)
        else do { (ret, c2, st2) \<leftarrow> smAddDdrTbl env (AddTblArgs ip k None) (c1, st1);
                  let c3 = c2\<lparr>io_tbl_hdl := io_tbl_hdl c1\<rparr>;
                  if ret = 0 then statemach_fuel env (Suc n) NATI_TRIG_GOTO_SRAM NoArgs (c3, st2) else Some (ret, c3, st2) }
      else do { (ret, c2, st2) \<leftarrow> smAddDdrTbl env (AddTblArgs ip k ty) (c1, st1);
                Some (ret, if ret = 0 then SET_NATIOBJ_STATE NATI_STATE_DDR_ONLY c2 else c2, st2) })"
    using cl s1(1) by (simp add: smAddSramAndDdrTbl_def clear_maps_all Let_def)
  show ?thesis
  proof (cases "r1 = 0")
    case False
    obtain r2 c2 st2 where d: "smAddDdrTbl env (AddTblArgs ip k ty) (c1, st1) = Some (r2, c2, st2)" "same_start c1 c2"
       "if r2 = 0 then new_store IPA_NAT_MEM_IN_DDR st2 \<and> ddr_tbl_hdl c2 = tbl_hdl IPA_NAT_MEM_IN_DDR \<and> io_tbl_hdl c2 = tbl_hdl IPA_NAT_MEM_IN_DDR
        else ddr_tbl_hdl c2 = 0 \<and> io_tbl_hdl c2 = io_tbl_hdl c1"
      using ddr by blast
    have i2: "nat_mutex_init c2" "curr_state c2 = NATI_STATE_HYBRID" using d(2) s1(2) c by (simp_all add: same_start_def)
    show ?thesis
    proof (cases "r2 = 0")
      case True
      then have "started (SET_NATIOBJ_STATE NATI_STATE_DDR_ONLY c2, st2)" using d(3) by (simp add: started_def Let_def SET_NATIOBJ_STATE_def)
      then show ?thesis unfolding eq using False True d(1) i2 by simp
    next
      case r2: False
      then have "start_failed (c2, st2)" using d(3) i2 s1(6) False c(3) by (simp add: start_failed_def)
      then show ?thesis unfolding eq using False r2 d(1) i2 by simp
    qed
  next
    case True
    then have n1: "new_store IPA_NAT_MEM_IN_SRAM st1" "sram_tbl_hdl c1 = tbl_hdl IPA_NAT_MEM_IN_SRAM" "io_tbl_hdl c1 = tbl_hdl IPA_NAT_MEM_IN_SRAM"
      using s1(6) by simp_all
    show ?thesis
    proof (cases "unat (tot_slots_in_sram c1) \<ge> k")
      case small: True
      have "started (SET_NATIOBJ_STATE NATI_STATE_SRAM_ONLY c1, st1)" using n1 by (simp add: started_def Let_def SET_NATIOBJ_STATE_def)
      then show ?thesis unfolding eq using True small s1(2) c by (simp add: same_start_def)
    next
      case big: False
      obtain r2 c2 st2 where d: "smAddDdrTbl env (AddTblArgs ip k None) (c1, st1) = Some (r2, c2, st2)" "same_start c1 c2"
         "sram_tbl_hdl c2 = sram_tbl_hdl c1" "length (st_pdns st2) = IPA_MAX_PDN_NUM"
         "ipv4_nat_cache st2 IPA_NAT_MEM_IN_SRAM = ipv4_nat_cache st1 IPA_NAT_MEM_IN_SRAM"
         "if r2 = 0 then new_store IPA_NAT_MEM_IN_DDR st2 \<and> ddr_tbl_hdl c2 = tbl_hdl IPA_NAT_MEM_IN_DDR \<and> io_tbl_hdl c2 = tbl_hdl IPA_NAT_MEM_IN_DDR
          else ddr_tbl_hdl c2 = 0 \<and> io_tbl_hdl c2 = io_tbl_hdl c1"
        using ddr by blast
      let ?c3 = "c2\<lparr>io_tbl_hdl := io_tbl_hdl c1\<rparr>"
      have n2: "new_store IPA_NAT_MEM_IN_SRAM st2" using n1(1) d(4,5) s1(4) by (simp add: new_store_def store_ok_def store_rules_def)
      have i2: "nat_mutex_init ?c3" "curr_state ?c3 = NATI_STATE_HYBRID" "map_array ?c3 = map_array ?c0"
        using d(2) s1(2) c by (simp_all add: same_start_def)
      show ?thesis
      proof (cases "r2 = 0")
        case False
        then have "start_failed (?c3, st2)" using d(6) i2 n1(3) n2 by (simp add: start_failed_def)
        then show ?thesis unfolding eq using True big False d(1) i2 by simp
      next
        case r2: True
        have s: "sub_ok sub (?c3, st2) \<and> sub_view sub (?c3, st2) = Map.empty" for sub
          by (rule sub_new) (use n2 d(6) r2 mp [OF i2(3)] in \<open>cases sub, simp_all\<close>)
        have h: "hyb (?c3, st2)" using s d(3,6) r2 n1(2) i2(2) by (simp add: hyb_def IN_HYBRID_STATE_def)
        obtain c4 w a where g: "statemach_fuel env (Suc n) NATI_TRIG_GOTO_SRAM NoArgs (?c3, st2) = Some (0, c4, st2\<lparr>active_nat_cache := a, world := w\<rparr>)"
            "c4 = SET_NATIOBJ_STATE NATI_STATE_HYBRID (?c3\<lparr>nat_mutex_init := True\<rparr>) \<or> c4 = ?c3\<lparr>nat_mutex_init := True\<rparr>"
          using goto_outcome [OF env h, of n SRAM_SUB] by (auto simp: goto_trigger_def hyb_ddr_simps)
        have h4: "hyb (c4, st2)" using g(2) h hyb_setstate(1) [OF h, of SRAM_SUB]
          by (auto simp: hyb_ddr_simps) (simp add: hyb_def IN_HYBRID_STATE_def SET_NATIOBJ_STATE_def sub_ok_def)
        have x4: "curr_state c4 = NATI_STATE_HYBRID" "io_tbl_hdl c4 = client_tbl" "nat_mutex_init c4" "map_array c4 = map_array ?c3"
          using g(2) i2 n1(3) by (auto simp: SET_NATIOBJ_STATE_def)
        have "sm_view (c4, st2) = Map.empty" using s [of SRAM_SUB] x4 by (simp add: sm_view_def CHOOSE_MEM_SUB_def sub_view_def)
        then have "started (c4, st2\<lparr>active_nat_cache := a, world := w\<rparr>)"
          using h4 x4 by (simp add: started_def Let_def CHOOSE_MEM_SUB_def)
        then show ?thesis unfolding eq using True big r2 d(1) g(1) x4 by simp
      qed
    qed
  qed
qed

lemma hybrid_string: "mem_type_str_to_ipa_nati_state (Some ''HYBRID'') = NATI_STATE_HYBRID"
  by (simp add: mem_type_str_to_ipa_nati_state_def strcasesame_def)

lemma first_table_outcome:
  fixes env :: "('w, 'z) sm_env_scheme"
  assumes env: "sm_mutex_ok env" and al: "alloc_at_base env" and sb: "sram_bound env"
    and p: "length (st_pdns st) = IPA_MAX_PDN_NUM" and nt: "no_tables IPA_NAT_MEM_IN_SRAM st" "no_tables IPA_NAT_MEM_IN_DDR st"
    and c: "curr_state c = NATI_STATE_NULL" "\<not> hold_state c" and k: "k \<noteq> 0"
  shows "\<exists>s'. ipa_nat_add_ipv4_tbl env ip (Some ''HYBRID'') k True (c, st) = Some (0, s') \<and> (started s' \<or> start_failed s')"
proof -
  let ?args = "AddTblArgs ip k (Some ''HYBRID'')" and ?c = "c\<lparr>io_tbl_hdl := 0\<rparr>"
  let ?c1 = "SET_NATIOBJ_STATE NATI_STATE_HYBRID (locked ?c)"
  obtain w where o: "\<And>r c' st'. sm_cb env (statemach_fuel env (Suc (Suc 0))) (state_mach_tbl (curr_state ?c) NATI_TRIG_ADD_TABLE)
      NATI_TRIG_ADD_TABLE ?args (locked ?c, st\<lparr>world := w\<rparr>) = Some (r, c', st') \<Longrightarrow> nat_mutex_init c' \<Longrightarrow>
      \<exists>w'. statemach_fuel env (Suc (Suc (Suc 0))) NATI_TRIG_ADD_TABLE ?args (?c, st) = Some (0, c', st'\<lparr>world := w'\<rparr>)"
    using statemach_add_table [OF env, of "Suc (Suc 0)" ?c ?args st] by blast
  have first: "sm_cb env rec (state_mach_tbl (curr_state ?c) NATI_TRIG_ADD_TABLE) NATI_TRIG_ADD_TABLE ?args (locked ?c, st\<lparr>world := w\<rparr>) =
      rec NATI_TRIG_ADD_TABLE ?args (?c1, st\<lparr>world := w\<rparr>)" for rec
    using c by (simp add: sm_cb_def smFirstTbl_def hybrid_string)
  obtain w2 where i: "\<And>r c' st'. sm_cb env (statemach_fuel env (Suc 0)) (state_mach_tbl (curr_state ?c1) NATI_TRIG_ADD_TABLE)
      NATI_TRIG_ADD_TABLE ?args (locked ?c1, st\<lparr>world := w\<rparr>\<lparr>world := w2\<rparr>) = Some (r, c', st') \<Longrightarrow> nat_mutex_init c' \<Longrightarrow>
      \<exists>w'. statemach_fuel env (Suc (Suc 0)) NATI_TRIG_ADD_TABLE ?args (?c1, st\<lparr>world := w\<rparr>) = Some (0, c', st'\<lparr>world := w'\<rparr>)"
    using statemach_add_table [OF env, of "Suc 0" ?c1 ?args "st\<lparr>world := w\<rparr>"] by blast
  have second: "sm_cb env rec (state_mach_tbl (curr_state ?c1) NATI_TRIG_ADD_TABLE) NATI_TRIG_ADD_TABLE ?args s =
      smAddSramAndDdrTbl env rec ?args s" for rec s
    by (simp add: sm_cb_def)
  have l: "io_tbl_hdl (locked ?c1) = 0" by (simp add: locked_def SET_NATIOBJ_STATE_def)
  have "\<exists>r c' st'. smAddSramAndDdrTbl env (statemach_fuel env (Suc 0)) ?args (locked ?c1, st\<lparr>world := w\<rparr>\<lparr>world := w2\<rparr>) = Some (r, c', st') \<and>
      nat_mutex_init c' \<and> (started (c', st') \<or> start_failed (c', st'))"
    by (rule add_both_tables [OF env al sb]) (use p nt l in \<open>simp_all add: no_tables_def\<close>)
  then obtain r c' st' where a: "smAddSramAndDdrTbl env (statemach_fuel env (Suc 0)) ?args (locked ?c1, st\<lparr>world := w\<rparr>\<lparr>world := w2\<rparr>) =
      Some (r, c', st')" "nat_mutex_init c'" "started (c', st') \<or> start_failed (c', st')" by blast
  obtain w3 where "statemach_fuel env (Suc (Suc 0)) NATI_TRIG_ADD_TABLE ?args (?c1, st\<lparr>world := w\<rparr>) = Some (0, c', st'\<lparr>world := w3\<rparr>)"
    using i [unfolded second, OF a(1,2)] by blast
  then obtain w4 where "statemach_fuel env (Suc (Suc (Suc 0))) NATI_TRIG_ADD_TABLE ?args (?c, st) = Some (0, c', st'\<lparr>world := w4\<rparr>)"
    using o [unfolded first, of 0 c' "st'\<lparr>world := w3\<rparr>"] a(2) by auto
  then show ?thesis
    using k a(3) by (intro exI [of _ "(c', st'\<lparr>world := w4\<rparr>)"]) (simp add: ipa_nat_add_ipv4_tbl_def ipa_nati_add_ipv4_tbl_def three)
qed


section \<open>What a client is told\<close>

text \<open>C27: a rule the driver layer refuses whatever the table (a reserved protocol, a PDN without an address)
  is answered with status 0 and handle 0.  Unless the state is held, the whole table is moved to DDR for it,
  as if the SRAM were full.\<close>

theorem hybrid_add_refused:
  fixes env :: "('w, 'z) sm_env_scheme"
  assumes env: "sm_mutex_ok env" "dma_device env" "focus_ok env" and h: "hyb (c, st)" and u: "pdn_fits u" "rule_bad (st_pdns st) u"
  shows "\<exists>c' st'. ipa_nat_add_ipv4_rule env client_tbl (Some u) True (c, st) = Some (0, c', st') \<and> io_rule_hdl c' = 0 \<and>
     hyb (c', st') \<and> moved (c, st) (sm_view (c, st)) (sm_view (c', st')) (c', st') \<and>
     curr_state c' = (if hold_state c then curr_state c else NATI_STATE_HYBRID_DDR)"
proof -
  let ?c = "c\<lparr>io_clnt_rule := u\<rparr>"
  have "hyb (?c, st)" "pdn_fits (io_clnt_rule ?c)" using h u by simp_all
  from add_outcome [OF env(1,2) this, of 0] obtain c' st' where
    o: "statemach_fuel env (Suc (Suc (Suc 0))) NATI_TRIG_ADD_RULE (TblArgs client_tbl) (?c, st) = Some (0, c', st')"
      "client_op (?c, st) (c', st')" "bad_refused (?c, st) (c', st')" using env(3) by blast
  then show ?thesis
    using u(2) by (simp add: bad_refused_def client_op_def ipa_nat_add_ipv4_rule_def ipa_nati_add_ipv4_rule_def three)
qed

text \<open>C23: an addition in hybrid mode.  The status is always 0.  The client finds in its cell a handle that is
  new and leads to its rule, with the fields the state machine clears (redirect, time stamp) cleared and the
  rule enabled; or 0 and nothing added; or a handle that another of its rules has, and nothing it can reach
  added.  Its other rules are those it had, unless a failed switch was counted: then some may be gone.\<close>

theorem hybrid_add_correct:
  fixes env :: "('w, 'z) sm_env_scheme"
  assumes env: "sm_mutex_ok env" "dma_device env" "focus_ok env" and h: "hyb (c, st)" and u: "pdn_fits u"
  shows "\<exists>c' st' v. ipa_nat_add_ipv4_rule env client_tbl (Some u) True (c, st) = Some (0, c', st') \<and> hyb (c', st') \<and>
     moved (c, st) (sm_view (c, st)) v (c', st') \<and> rule_added_view v (seen_rule u) (io_rule_hdl c') (sm_view (c', st'))"
proof -
  let ?c = "c\<lparr>io_clnt_rule := u\<rparr>"
  have "hyb (?c, st)" "pdn_fits (io_clnt_rule ?c)" using h u by simp_all
  from add_outcome [OF env(1,2) this, of 0] obtain c' st' where
    o: "statemach_fuel env (Suc (Suc (Suc 0))) NATI_TRIG_ADD_RULE (TblArgs client_tbl) (?c, st) = Some (0, c', st')"
      "client_op (?c, st) (c', st')" "added (?c, st) (c', st')" using env(3) by blast
  then show ?thesis
    by (auto simp: added_def client_op_def ipa_nat_add_ipv4_rule_def ipa_nati_add_ipv4_rule_def three)
qed


text \<open>C25: \<^verbatim>\<open>ipa_nat_switch_to\<close> makes the requested memory the active one and records the hold; the client sees the
  same rules under the same handles unless a failed switch was counted.\<close>

theorem hybrid_switch_correct:
  fixes env :: "('w, 'z) sm_env_scheme"
  assumes env: "sm_mutex_ok env" "dma_device env" "focus_ok env" and h: "hyb (c, st)" "prev_state c \<noteq> NATI_STATE_NULL"
    and nmi: "nmi \<noteq> IPA_NAT_MEM_IN_MAX"
  shows "\<exists>c' st'. ipa_nat_switch_to env nmi hold (c, st) = Some (0, c', st') \<and> hyb (c', st') \<and> hold_state c' = hold \<and>
     CHOOSE_MEM_SUB c' = nmi_sub nmi \<and> moved (c, st) (sm_view (c, st)) (sm_view (c', st')) (c', st')"
  using switch_to_outcome [OF env(1,2) h(1) nmi, of hold] env(3) h(2) by (auto simp: held_def)

text \<open>The time stamp a client reads in hybrid mode is that of the rule its handle leads to; with a handle that
  leads to no rule its cell is not written, and the status is 0 all the same.\<close>

theorem hybrid_timestamp_correct:
  fixes env :: "('w, 'z) sm_env_scheme"
  assumes env: "sm_mutex_ok env" "focus_ok env" and h: "hyb (c, st)" and k: "k \<noteq> 0"
  shows "\<exists>c' st'. ipa_nat_query_timestamp env client_tbl k True (c, st) = Some (0, c', st') \<and> hyb (c', st') \<and>
     sm_view (c', st') = sm_view (c, st) \<and>
     io_time_stamp c' = (case sm_view (c, st) k of None \<Rightarrow> io_time_stamp c | Some r \<Rightarrow> u_time_stamp r)"
  using tstamp_outcome [OF env(1) h, of "Suc (Suc 0)" k] env(2) k
  by (auto simp: stamped_def client_op_def ipa_nat_query_timestamp_def ipa_nati_query_timestamp_def VALID_RULE_HDL_def three
        split: option.splits)

end
