(* ===== verification/Nat_Stats_Ok.thy ===== *)
theory Nat_Stats_Ok
  imports Nat_Stats Nat_Api_Ok
begin

text \<open>
  The table statistics against a reference: the list of the lengths of the chains.  \<^verbatim>\<open>gen_nat_chain_stats\<close> ends
  the walk at the first expansion record, which the walk reaches after all base records.
\<close>

section \<open>The reference\<close>

definition chain_lens :: "('e, 'u) ipa_table_entry_interface \<Rightarrow> 'e ipa_table \<Rightarrow> (nat \<Rightarrow> nat list) \<Rightarrow> nat list" where
  "chain_lens ei t ch = map (\<lambda>h. Suc (length (ch h))) (filter (\<lambda>h. vdT ei t h \<and> ch h \<noteq> []) [0..<table_entries t])"

definition with_lens :: "nat list \<Rightarrow> ipa_nati_tbl_stats \<Rightarrow> ipa_nati_tbl_stats" where
  "with_lens ls s = s\<lparr>tot_chains := of_nat (length ls),
     min_chain_len := if ls = [] then 0 else of_nat (Min (set ls)),
     max_chain_len := if ls = [] then 0 else of_nat (Max (set ls))\<rparr>"

definition csh_of :: "ipa_nati_tbl_stats \<Rightarrow> nat list \<Rightarrow> chain_stat_help" where
  "csh_of s ls = \<lparr>tot_for_avg = of_nat (sum_list ls), csh_stats = with_lens ls s\<rparr>"

definition ref_stats ::
  "('e, 'u) ipa_table_entry_interface \<Rightarrow> ipa3_nat_mem_in \<Rightarrow> 'e ipa_table \<Rightarrow> (nat \<Rightarrow> nat list) \<Rightarrow> ipa_nati_tbl_stats" where
  "ref_stats ei nmi t ch = (let ls = chain_lens ei t ch in
     (with_lens ls tbl_stats_zero)
       \<lparr>stats_nmi := nmi, tot_base_ents := of_nat (table_entries t), tot_expn_ents := of_nat (expn_table_entries t),
        tot_ents := of_nat (n_recs t), tot_base_ents_filled := of_nat (count_upto 0 (table_entries t) (vdT ei t)),
        tot_expn_ents_filled := of_nat (count_upto (table_entries t) (n_recs t) (vdT ei t)),
        avg_chain_len := if ls = [] then None else Some (of_nat (sum_list ls), of_nat (length ls))\<rparr>)"

text \<open>One more chain.\<close>

lemma of_nat_word_le: "a < 2 ^ 32 \<Longrightarrow> b < 2 ^ 32 \<Longrightarrow> (of_nat a :: u32) \<le> of_nat b \<longleftrightarrow> a \<le> b"
  by (simp add: word_le_nat_alt unat_of_nat)

lemma of_nat_word_min_max:
  assumes "a < 2 ^ 32" "b < 2 ^ 32"
  shows "min (of_nat a :: u32) (of_nat b) = of_nat (min a b)" "max (of_nat a :: u32) (of_nat b) = of_nat (max a b)"
  using of_nat_word_le [OF assms] of_nat_word_le [OF assms(2,1)] by (auto simp: min_def max_def)

lemma of_nat_word_0: "a < 2 ^ 32 \<Longrightarrow> (of_nat a :: u32) = 0 \<longleftrightarrow> a = 0"
  by (simp add: word_unat_eq_iff unat_of_nat)

lemma csh_of_snoc:
  assumes b: "\<forall>x \<in> set (ls @ [l]). 0 < x \<and> x < 2 ^ 32"
  shows "csh_of s (ls @ [l]) = (let csh = csh_of s ls; s' = csh_stats csh; chain_len = of_nat l in
     csh\<lparr>tot_for_avg := tot_for_avg csh + chain_len,
         csh_stats := s'\<lparr>tot_chains := tot_chains s' + 1,
           min_chain_len := if min_chain_len s' = 0 then chain_len else min (min_chain_len s') chain_len,
           max_chain_len := max (max_chain_len s') chain_len\<rparr>\<rparr>)"
proof (cases "ls = []")
  case True
  then show ?thesis by (simp add: csh_of_def with_lens_def Let_def)
next
  case False
  have m: "Min (set ls) \<in> set ls" "Max (set ls) \<in> set ls" using False by simp_all
  have r: "0 < Min (set ls)" "Min (set ls) < 2 ^ 32" "Max (set ls) < 2 ^ 32" "l < 2 ^ 32"
    using b m by auto
  have mm: "Min (insert l (set ls)) = min (Min (set ls)) l" "Max (insert l (set ls)) = max (Max (set ls)) l"
    using False by (simp_all add: min.commute max.commute)
  have w0: "(of_nat (Min (set ls)) :: u32) \<noteq> 0" using of_nat_word_0 [OF r(2)] r(1) by linarith
  show ?thesis
    using False w0 of_nat_word_min_max(1) [OF r(2,4)] of_nat_word_min_max(2) [OF r(3,4)] mm
    by (simp add: csh_of_def with_lens_def Let_def add.commute)
qed

section \<open>The walk\<close>

lemma chain_len_loop_links:
  assumes nx: "\<And>e. entry_get_next_index ei e = unat (nxt e)"
  shows "links (nxT ei t) i js \<Longrightarrow> \<forall>j \<in> set js. j < length (recs t) \<Longrightarrow>
    chain_len_loop nxt t (recs t ! i) n = Some (n + of_nat (length js))"
proof (induction js arbitrary: i n)
  case Nil
  then have "nxt (recs t ! i) = 0" using nx by (simp add: nxT_def unat_eq_0)
  then show ?case by (simp add: chain_len_loop.simps)
next
  case (Cons j js)
  have j: "unat (nxt (recs t ! i)) = j" "j \<noteq> 0" "links (nxT ei t) j js" "j < length (recs t)"
    using Cons.prems nx [of "recs t ! i"] by (simp_all add: nxT_def [of ei t i])
  then have n0: "nxt (recs t ! i) \<noteq> 0" by auto
  show ?case
    using n0 j Cons.IH [OF j(3), of "n + 1"] Cons.prems(2)
    by (subst chain_len_loop.simps) (simp add: rec_at_def algebra_simps)
qed

lemma geom_break:
  assumes "table_geom bt xt off t" "i < n_recs t"
  shows "BREAK_RULE_HDL t (ucast (MakeEntryHdl t i)) = (tbl_nmi t, table_entries t \<le> i, i)"
  using table_geomD [OF assms(1)] assms(2) by (intro BREAK_RULE_HDL_MakeEntryHdl) simp_all

lemma chain_len_bound:
  assumes inv: "table_inv ei um bt xt off t ch" and h: "h < table_entries t"
  shows "Suc (length (ch h)) < 2 ^ 32" "Suc (length (ch h)) \<le> 8193"
proof -
  note ok = inv_chains [OF inv]
  have "set (ch h) \<subseteq> {..<n_recs t}" "distinct (ch h)"
    using chain_in_range [OF inv h] chains_ok_distinct_all [OF ok h] geom_len [OF inv_geom [OF inv]] by auto
  then have "length (ch h) \<le> n_recs t" by (metis card_lessThan card_mono distinct_card finite_lessThan)
  moreover have "n_recs t \<le> 8192" using table_geomD [OF inv_geom [OF inv]] by simp
  ultimately show "Suc (length (ch h)) < 2 ^ 32" "Suc (length (ch h)) \<le> 8193" by simp_all
qed

lemma walk_call_stats:
  assumes inv: "table_inv ei um bt xt off t ch" and nx: "\<And>e. entry_get_next_index ei e = unat (nxt e)"
    and h: "h < table_entries t" "vdT ei t h" and b: "\<forall>x \<in> set ls. 0 < x \<and> x < 2 ^ 32"
  shows "walk_call t (gen_chain_stats nxt) h (csh_of s ls) =
    Some (0, csh_of s (ls @ (if ch h = [] then [] else [Suc (length (ch h))])))"
proof -
  note g = inv_geom [OF inv] and ok = inv_chains [OF inv]
  have n: "h < n_recs t" using h by simp
  have lk: "links (nxT ei t) h (ch h)" by (rule chains_ok_links [OF ok h])
  have rng: "\<forall>j \<in> set (ch h). j < length (recs t)" using chain_in_range [OF inv h(1)] geom_len [OF g] by simp
  have nz: "nxt (recs t ! h) = 0 \<longleftrightarrow> ch h = []" using lk nx by (cases "ch h") (auto simp: nxT_def unat_eq_0)
  have loop: "chain_len_loop nxt t (recs t ! h) 1 = Some (of_nat (Suc (length (ch h))))"
    using chain_len_loop_links [OF nx lk rng, of 1] by simp
  let ?l = "Suc (length (ch h))"
  have bl: "?l < 2 ^ 32" by (rule chain_len_bound(1) [OF inv h(1)])
  then have l0: "(of_nat ?l :: u32) \<noteq> 0" using of_nat_word_0 [OF bl] by simp
  have b': "\<forall>x \<in> set (ls @ [?l]). 0 < x \<and> x < 2 ^ 32" using b bl by simp
  show ?thesis
  proof (cases "ch h = []")
    case True
    then show ?thesis using geom_break [OF g n] h nz by (simp add: walk_call_def gen_chain_stats_def)
  next
    case False
    show ?thesis
      using False geom_break [OF g n] h nz loop l0 unfolding csh_of_snoc [OF b', symmetric]
      by (simp add: walk_call_def gen_chain_stats_def Let_def csh_of_snoc [OF b'] del: of_nat_Suc)
  qed
qed

lemma visit_stats_base:
  assumes inv: "table_inv ei um bt xt off t ch" and nx: "\<And>e. entry_get_next_index ei e = unat (nxt e)"
  shows "\<forall>h \<in> set ks. h < table_entries t \<and> vdT ei t h \<Longrightarrow> \<forall>x \<in> set ls. 0 < x \<and> x < 2 ^ 32 \<Longrightarrow>
    visit (walk_call t (gen_chain_stats nxt)) (ks @ xs) (csh_of s ls) =
    visit (walk_call t (gen_chain_stats nxt)) xs
      (csh_of s (ls @ map (\<lambda>h. Suc (length (ch h))) (filter (\<lambda>h. ch h \<noteq> []) ks)))"
proof (induction ks arbitrary: ls)
  case (Cons h ks)
  have h: "h < table_entries t" "vdT ei t h" using Cons.prems(1) by simp_all
  let ?ls = "ls @ (if ch h = [] then [] else [Suc (length (ch h))])"
  have "\<forall>x \<in> set ?ls. 0 < x \<and> x < 2 ^ 32" using Cons.prems(2) chain_len_bound(1) [OF inv h(1)] by auto
  then show ?case using Cons.IH [of ?ls] Cons.prems(1) walk_call_stats [OF inv nx h Cons.prems(2)] by auto
qed simp

lemma visit_stats_expn:
  assumes g: "table_geom bt xt off t" and xs: "\<forall>k \<in> set xs. table_entries t \<le> k \<and> k < n_recs t"
  shows "\<exists>r. visit (walk_call t (gen_chain_stats nxt)) xs csh = Some (r, csh) \<and> 0 \<le> r"
  using xs geom_break [OF g] by (cases xs) (simp_all add: walk_call_def gen_chain_stats_def)

lemma sum_list_le: "\<forall>x \<in> set xs. x \<le> (k :: nat) \<Longrightarrow> sum_list xs \<le> length xs * k"
  by (induction xs) auto

lemma sum_list_pos: "xs \<noteq> [] \<Longrightarrow> \<forall>x \<in> set xs. 0 < (x :: nat) \<Longrightarrow> 0 < sum_list xs"
  by (cases xs) simp_all

lemma gather_stats_eq:
  assumes inv: "table_inv ei um bt xt off t ch" and nx: "\<And>e. entry_get_next_index ei e = unat (nxt e)"
  shows "gather_stats ei nxt nmi t = Some (0, ref_stats ei nmi t ch)"
proof -
  define ls where "ls = chain_lens ei t ch"
  note g = inv_geom [OF inv]
  have len: "length (recs t) = n_recs t" "n_recs t < 65536" "0 < n_recs t" using table_geomD [OF g] by simp_all
  let ?s = "tbl_stats_zero\<lparr>stats_nmi := nmi, tot_base_ents := of_nat (table_entries t), tot_expn_ents := of_nat (expn_table_entries t),
      tot_ents := of_nat (table_entries t) + of_nat (expn_table_entries t),
      tot_base_ents_filled := ucast (cur_tbl_cnt t), tot_expn_ents_filled := ucast (cur_expn_tbl_cnt t)\<rparr>"
  let ?bs = "filter (vdT ei t) [0..<table_entries t]" and ?xs = "filter (vdT ei t) [table_entries t..<n_recs t]"
  have split: "filter (vdT ei t) [0..<n_recs t] = ?bs @ ?xs"
    using upt_add_eq_append [of 0 "table_entries t" "expn_table_entries t"] by simp
  have ls: "ls = map (\<lambda>h. Suc (length (ch h))) (filter (\<lambda>h. ch h \<noteq> []) ?bs)"
    by (simp add: ls_def chain_lens_def conj_commute)
  have b: "visit (walk_call t (gen_chain_stats nxt)) (?bs @ ?xs) (csh_of ?s []) =
      visit (walk_call t (gen_chain_stats nxt)) ?xs (csh_of ?s ls)"
    using visit_stats_base [OF inv nx, of ?bs "[]" ?xs ?s] by (simp add: ls)
  have "\<exists>r. visit (walk_call t (gen_chain_stats nxt)) ?xs (csh_of ?s ls) = Some (r, csh_of ?s ls) \<and> 0 \<le> r"
    by (rule visit_stats_expn [OF g]) auto
  then obtain r where r: "visit (walk_call t (gen_chain_stats nxt)) (?bs @ ?xs) (csh_of ?s []) = Some (r, csh_of ?s ls)" "0 \<le> r"
    using b by auto
  have init: "\<lparr>tot_for_avg = 0, csh_stats = ?s\<rparr> = csh_of ?s []" by (simp add: csh_of_def with_lens_def tbl_stats_zero_def)
  have walk: "ipa_table_walk ei t 0 WHEN_SLOT_FILLED (gen_chain_stats nxt) \<lparr>tot_for_avg = 0, csh_stats = ?s\<rparr> = Some (r, csh_of ?s ls)"
    unfolding table_walk_visit [OF len(1,2)] init using geom_te(1) [OF g] r(1) by (simp add: split)
  have "length ls \<le> table_entries t" unfolding ls by (simp add: order_trans [OF length_filter_le] order_trans [OF length_filter_le length_filter_le])
  then have "length ls \<le> 4096" using geom_te(2) [OF g] by simp
  moreover have "sum_list ls \<le> length ls * 8193"
    by (rule sum_list_le) (use chain_len_bound(2) [OF inv] in \<open>auto simp: ls\<close>)
  moreover have "0 < sum_list ls" if "ls \<noteq> []" by (rule sum_list_pos [OF that]) (auto simp: ls)
  ultimately have z: "(of_nat (sum_list ls) :: u32) = 0 \<longleftrightarrow> ls = []" "(of_nat (length ls) :: u32) = 0 \<longleftrightarrow> ls = []"
    using of_nat_word_0 [of "sum_list ls"] of_nat_word_0 [of "length ls"] by (cases "ls = []", simp_all del: sum_list_eq_0_iff)
  have cnt: "(ucast (cur_tbl_cnt t) :: u32) = of_nat (count_upto 0 (table_entries t) (vdT ei t))"
      "(ucast (cur_expn_tbl_cnt t) :: u32) = of_nat (count_upto (table_entries t) (n_recs t) (vdT ei t))"
    using count_upto_le [of 0 "table_entries t" "vdT ei t"] count_upto_le [of "table_entries t" "n_recs t" "vdT ei t"] len(2)
    unfolding inv_cnt [OF inv] inv_xcnt [OF inv]
    by (simp_all add: word_unat_eq_iff unsigned_ucast_eq unat_of_nat take_bit_eq_mod)
  show ?thesis
    using walk r(2) z unfolding gather_stats_def ref_stats_def ls_def [symmetric]
    by (simp add: Let_def csh_of_def with_lens_def cnt tbl_stats_zero_def)
qed

section \<open>The statistics of a cache\<close>

lemma next_reads: "entry_get_next_index (entry_interface pdns) e = unat (next_index e)"
  "entry_get_next_index index_entry_interface x = unat (indx_next_index x)"
  by (simp_all add: entry_interface_def index_entry_interface_def table_entry_get_next_index_def
        index_table_entry_get_next_index_def)

text \<open>C36: \<^verbatim>\<open>ipa_NATI_ipv4_tbl_stats\<close> on a well-formed cache always returns, changes nothing, and reports for each of
  the two tables exactly the reference: the sizes, the records in use in each part, and of the chains (the
  base records with successors) the number, the least, the greatest and the total length; no counter
  wraps.\<close>

theorem tbl_stats_correct:
  assumes ok: "cache_ok (ipv4_nat_cache st nmi) ct cx" and mtx: "mutex_ok env" and nmi: "nmi \<noteq> IPA_NAT_MEM_IN_MAX"
  shows "\<exists>w. ipa_NATI_ipv4_tbl_stats env (tbl_hdl nmi) st =
    Some (0, Some (ref_stats nat_ei nmi (nat_table_of st nmi) ct, ref_stats index_entry_interface nmi (index_table_of st nmi) cx),
          st\<lparr>world := w\<rparr>)"
proof -
  have inv: "nat_inv (nat_table_of st nmi) (index_table_of st nmi) ct cx" and c: "table_cnt (ipv4_nat_cache st nmi) = 1"
    using ok by (simp_all add: cache_ok_def)
  note g1 = gather_stats_eq [OF nat_inv_t [OF inv] next_reads(1), of nmi]
    and g2 = gather_stats_eq [OF nat_inv_x [OF inv] next_reads(2), of nmi]
  show ?thesis
    using c tbl_hdl_facts [OF nmi] g1 g2
    by (auto simp: ipa_NATI_ipv4_tbl_stats_def nat_lock_ok [OF mtx] unlock_ret_ok [OF mtx] Let_def)
qed

end
