(* ===== verification/Nat_Drv_Ok.thy ===== *)
theory Nat_Drv_Ok
  imports Nat_Drv Nat_Pdn_Ok
begin

text \<open>The bound of the PDN index at the client interface.\<close>

text \<open>C37: \<^verbatim>\<open>ipa_nat_dealloc_pdn\<close> refuses the indices above \<^verbatim>\<open>IPA_MAX_PDN_NUM\<close> only.  With entries in use, the one index
  for which the call accesses the array of PDNs out of bounds is \<^verbatim>\<open>IPA_MAX_PDN_NUM\<close> itself; with every other
  index it returns.\<close>

theorem dealloc_pdn_out_of_bounds:
  assumes ok: "pdn_ok st" and n: "num_pdns st \<noteq> 0"
  shows "ipa_nat_dealloc_pdn env i st = None \<longleftrightarrow> unat i = IPA_MAX_PDN_NUM"
proof -
  have len: "length (st_pdns st) = IPA_MAX_PDN_NUM" using ok by (simp add: pdn_ok_def)
  consider "IPA_MAX_PDN_NUM < unat i" | "unat i = IPA_MAX_PDN_NUM" | "unat i < IPA_MAX_PDN_NUM" by linarith
  then show ?thesis
  proof cases
    case 3
    let ?e = "\<lparr>ioc_pdn_index = i, ioc_public_ip = 0, ioc_src_metadata = 0, ioc_dst_metadata = 0\<rparr>"
    have "unat (ioc_pdn_index ?e) < length (st_pdns st)" using 3 len by simp
    then have "ipa_nati_modify_pdn env ?e st \<noteq> None" by (rule modify_pdn_cases [where env = env]) simp_all
    then show ?thesis
      using 3 n len by (auto simp: ipa_nat_dealloc_pdn_def ipa_nati_dealloc_pdn_def split: Option.bind_splits)
  qed (use n len in \<open>simp_all add: ipa_nat_dealloc_pdn_def ipa_nati_dealloc_pdn_def\<close>)
qed

end
