(* ===== verification/Nat_Hybrid_Demo.thy ===== *)
theory Nat_Hybrid_Demo
  imports Nat_Demo Nat_Start_Ok Nat_Stats_Ok Nat_Drv_Ok
begin

text \<open>
  A concrete hybrid state: small tables in DDR and in SRAM, a kernel that accepts every command.  The
  properties of the state machine are applied to it.
\<close>

definition demo_sm_env :: "unit sm_env" where
  "demo_sm_env =
     \<lparr>env_mutex_lock = (\<lambda>w. (0, w)), env_mutex_unlock = (\<lambda>w. (0, w)), env_calloc = (\<lambda>n w. (True, w)),
      env_open = (\<lambda>s w. (3, w)), env_close = (\<lambda>fd w. (0, w)), env_get_hw_version = (\<lambda>fd w. (0, 14, w)),
      env_mmap = (\<lambda>sz fd w. (Some 4096, w)), env_munmap = (\<lambda>a sz w. w),
      env_get_sram_info = (\<lambda>fd w. (- 1, sram_info_zero, w)),
      env_alloc_table = (\<lambda>io fd sz w. (0, 0, w)), env_del_table = (\<lambda>io fd i m w. (0, w)),
      env_v4_init = (\<lambda>fd c w. (0, w)),
      env_table_dma = (\<lambda>fd cmd tx w.
        (0, (dma_run nat_put IPA_NAT_BASE_TBL IPA_NAT_EXPN_TBL (cmd_dma cmd) (fst tx),
             dma_run indx_put IPA_NAT_INDX_TBL IPA_NAT_INDEX_EXPN_TBL (cmd_dma cmd) (snd tx)), w)),
      env_modify_pdn = (\<lambda>fd e w. (0, w)), env_clock_vote = (\<lambda>fd v w. (0, w)),
      env_mutexattr_init = (\<lambda>w. (0, w)), env_mutexattr_settype = (\<lambda>w. (0, w)), env_mutex_init = (\<lambda>w. (0, w))\<rparr>"

definition mem_t :: "ipa3_nat_mem_in \<Rightarrow> ipa_nat_rule ipa_table" where
  "mem_t nmi = (ipa_table_init ''nat'' nmi 32 None 0)\<lparr>table_entries := 2, expn_table_entries := 2, tot_tbl_ents := 4\<rparr>"

definition mem_x :: "ipa3_nat_mem_in \<Rightarrow> ipa_nat_indx_tbl_rule ipa_table" where
  "mem_x nmi = (ipa_table_init ''index'' nmi 4 (Some (replicate 2 0)) 2)
                 \<lparr>table_entries := 2, expn_table_entries := 2, tot_tbl_ents := 4\<rparr>"

definition mem_tbl :: "ipa3_nat_mem_in \<Rightarrow> ipa_nat_ip4_table_cache" where
  "mem_tbl nmi = ipa_nati_create_table_dma_cmd_helpers (ip4_table_zero\<lparr>public_addr := 0x0A000001, mem_desc := demo_md,
         nat_table := ipa_table_reset nat_ei (snd (ipa_table_calculate_addresses (mem_t nmi) 4096)),
         index_table := ipa_table_reset indx_ei
           (snd (ipa_table_calculate_addresses (mem_x nmi) (fst (ipa_table_calculate_addresses (mem_t nmi) 4096))))\<rparr>) 0"

definition both_state :: "unit nat_state" where
  "both_state = demo_state\<lparr>ipv4_nat_cache := (\<lambda>nmi. \<lparr>ipa_desc = Some \<lparr>desc_fd = 3, desc_ver = 14\<rparr>, ip4_tbl = mem_tbl nmi,
       table_cnt = 1, cache_nmi = nmi\<rparr>)\<rparr>"

definition ctl_init :: sm_ctl where
  "ctl_init = ipa_nati_obj.extend nati_obj_init
     \<lparr>map_array = (\<lambda>_. Map.empty), nat_mutex_init = False, io_tbl_hdl = 0, io_clnt_rule = demo_rule, io_rule_hdl = 0,
      io_time_stamp = 0, io_stats = (tbl_stats_zero, tbl_stats_zero)\<rparr>"

definition hyb_ctl :: sm_ctl where
  "hyb_ctl = ctl_init\<lparr>prev_state := NATI_STATE_HYBRID, curr_state := NATI_STATE_HYBRID,
     ddr_tbl_hdl := tbl_hdl IPA_NAT_MEM_IN_DDR, sram_tbl_hdl := tbl_hdl IPA_NAT_MEM_IN_SRAM\<rparr>"

lemma ctl_init_fields [simp]:
  "curr_state ctl_init = NATI_STATE_NULL" "hold_state ctl_init = False" "map_array ctl_init = (\<lambda>_. Map.empty)"
  by (simp_all add: ctl_init_def ipa_nati_obj.extend_def nati_obj_init_def)

lemma demo_sm_env_ok: "sm_mutex_ok demo_sm_env" "dma_device demo_sm_env" "focus_ok demo_sm_env" "alloc_at_base demo_sm_env"
    "sram_bound demo_sm_env"
  by (simp_all add: sm_mutex_ok_def mutex_ok_def dma_device_def focus_ok_def alloc_at_base_def sram_bound_def sram_info_zero_def
        demo_sm_env_def)

lemma demo_sm_reliable: "dma_reliable demo_sm_env"
  using demo_sm_env_ok(2) by (simp add: dma_reliable_def demo_sm_env_def)

lemma mem_ready:
  assumes "nmi \<noteq> IPA_NAT_MEM_IN_MAX"
  shows "tables_ready (mem_tbl nmi) 0x0A000001" "tbl_nmi (nat_table (mem_tbl nmi)) = nmi"
  by (rule created_ready(1,3) [where t = "mem_t nmi" and x = "mem_x nmi" and k = 1 and te = 2 and xe = 2 and
        nmi = nmi and a = 4096 and md = demo_md and tbl = ip4_table_zero and ti = 0 and ip = "0x0A000001"];
      simp add: assms mem_t_def mem_x_def mem_tbl_def demo_md_def mem_desc_zero_def ipa_table_init_def)+

lemma both_new: "nmi \<noteq> IPA_NAT_MEM_IN_MAX \<Longrightarrow> new_store nmi both_state"
  using mem_ready [of nmi]
  by (auto simp: new_store_def store_ok_def store_rules_def both_state_def cache_ok_def tables_ready_def demo_state_def
        IPA_MAX_PDN_NUM_def intro!: hrules_empty)

lemma hyb_demo: "hyb (hyb_ctl, both_state)" "sm_view (hyb_ctl, both_state) = Map.empty"
proof -
  have s: "sub_ok sub (hyb_ctl, both_state) \<and> sub_view sub (hyb_ctl, both_state) = Map.empty" for sub
    by (rule sub_new [OF both_new]) (simp_all add: hyb_ctl_def)
  show "hyb (hyb_ctl, both_state)" using s by (simp add: hyb_def) (simp add: hyb_ctl_def IN_HYBRID_STATE_def)
  show "sm_view (hyb_ctl, both_state) = Map.empty" using s by (simp add: sm_view_def)
qed

lemma demo_fits: "pdn_fits demo_rule"
  by (simp add: pdn_fits_def demo_rule_def IPA_MAX_PDN_NUM_def)




theorem hybrid_add_refused_witness:
  "\<exists>c' st'. ipa_nat_add_ipv4_rule demo_sm_env client_tbl (Some (demo_rule\<lparr>u_protocol := 0xFF\<rparr>)) True (hyb_ctl, both_state) =
       Some (0, c', st') \<and> io_rule_hdl c' = 0 \<and> curr_state c' = NATI_STATE_HYBRID_DDR"
proof -
  have h: "\<not> hold_state hyb_ctl" by (simp add: hyb_ctl_def)
  have u: "pdn_fits (demo_rule\<lparr>u_protocol := 0xFF\<rparr>)" "rule_bad (st_pdns both_state) (demo_rule\<lparr>u_protocol := 0xFF\<rparr>)"
    using demo_fits by (simp_all add: pdn_fits_def rule_bad_def IPAHAL_NAT_INVALID_PROTOCOL_def)
  show ?thesis using hybrid_add_refused [OF demo_sm_env_ok(1-3) hyb_demo(1) u] h by auto
qed

theorem hybrid_add_correct_witness:
  "\<exists>c' st' v. ipa_nat_add_ipv4_rule demo_sm_env client_tbl (Some demo_rule) True (hyb_ctl, both_state) = Some (0, c', st') \<and>
     hyb (c', st') \<and> rule_added_view v (seen_rule demo_rule) (io_rule_hdl c') (sm_view (c', st'))"
  using hybrid_add_correct [OF demo_sm_env_ok(1-3) hyb_demo(1) demo_fits] by blast


theorem hybrid_switch_correct_witness:
  "\<exists>c' st'. ipa_nat_switch_to demo_sm_env IPA_NAT_MEM_IN_DDR True (hyb_ctl, both_state) = Some (0, c', st') \<and>
     CHOOSE_MEM_SUB c' = DDR_SUB \<and> hold_state c'"
proof -
  have p: "prev_state hyb_ctl \<noteq> NATI_STATE_NULL" by (simp add: hyb_ctl_def)
  show ?thesis
    using hybrid_switch_correct [OF demo_sm_env_ok(1-3) hyb_demo(1) p, of IPA_NAT_MEM_IN_DDR True] by (auto simp: nmi_sub_def)
qed

theorem hybrid_timestamp_correct_witness:
  "\<exists>c' st'. ipa_nat_query_timestamp demo_sm_env client_tbl 9 True (hyb_ctl, both_state) = Some (0, c', st') \<and>
     io_time_stamp c' = io_time_stamp hyb_ctl"
  using hybrid_timestamp_correct [OF demo_sm_env_ok(1,3) hyb_demo(1), of 9] hyb_demo(2) by auto

theorem tbl_stats_correct_witness:
  "\<exists>s x w. ipa_NATI_ipv4_tbl_stats demo_env (tbl_hdl DDR) demo_state = Some (0, Some (s, x), demo_state\<lparr>world := w\<rparr>)"
  using tbl_stats_correct [OF demo_ok demo_env_ok(1)] by auto

theorem dealloc_pdn_out_of_bounds_witness:
  "ipa_nat_dealloc_pdn demo_env 16 demo_state = None"
  using dealloc_pdn_out_of_bounds [OF demo_pdn_ok, of demo_env 16] by (simp add: demo_state_def IPA_MAX_PDN_NUM_def)

end
