(* ===== verification/Ipv6ct.thy ===== *)
theory Ipv6ct
  imports Ipa_Mem_Descriptor
begin

text \<open>
  IPv6 connection tracking, \<^verbatim>\<open>ipanat/src/ipa_ipv6ct.c\<close> and \<^verbatim>\<open>ipanat/inc/ipa_ipv6cti.h\<close>: one table of 64-byte
  records, the third client of the generic table.  The file's static functions have the names of those of
  \<^verbatim>\<open>ipa_nat_drvi.c\<close>; here they carry the prefix \<open>ct_\<close>.  A bit-field of one bit is a \<^typ>\<open>bool\<close>, a wider one a word of
  its width; \<open>ct_encode\<close> is the little-endian layout as 32 halfwords.  The state is the static \<^verbatim>\<open>ipv6ct\<close> and the
  world; \<^verbatim>\<open>tables\<close> has \<^verbatim>\<open>IPA_IPV6CT_MAX_TBLS\<close> = 1 elements.  An operation is \<open>None\<close> where it follows a NULL
  \<^verbatim>\<open>ipv6ct.ipa_desc\<close>.  \<^verbatim>\<open>ipa_ipv6ct_dump_table\<close> only prints.
\<close>

section \<open>Data\<close>

record ipa_ipv6ct_hw_entry =
  ct_src_ipv6_lsb :: "64 word"
  ct_src_ipv6_msb :: "64 word"
  ct_dest_ipv6_lsb :: "64 word"
  ct_dest_ipv6_msb :: "64 word"
  ct_uc_activation_index :: "13 word"
  ct_s :: bool
  ct_rsvd1 :: u16
  ct_redirect :: bool
  ct_enable :: bool
  ct_time_stamp :: "24 word"
  ct_protocol :: u8
  ct_next_index :: u16
  ct_dest_port :: u16
  ct_src_port :: u16
  ct_ucp :: bool
  ct_rsvd2 :: "5 word"
  ct_out_allowed :: bool
  ct_in_allowed :: bool
  ct_rsvd3 :: u8
  ct_rsvd4 :: "48 word"
  ct_prev_index :: u16
  ct_rsvd5 :: "64 word"

text \<open>\<^verbatim>\<open>direction_settings\<close> is an enumeration, any \<^verbatim>\<open>int\<close> in C.\<close>

record ipa_ipv6ct_rule =
  r_src_ipv6_lsb :: "64 word"
  r_src_ipv6_msb :: "64 word"
  r_dest_ipv6_lsb :: "64 word"
  r_dest_ipv6_msb :: "64 word"
  r_direction_settings :: u32
  r_ucp :: bool
  r_s :: bool
  r_uc_activation_index :: u16
  r_src_port :: u16
  r_dest_port :: u16
  r_protocol :: u8

definition IPA_IPV6CT_DIRECTION_DENY_ALL :: u32 where "IPA_IPV6CT_DIRECTION_DENY_ALL = 0"
definition IPA_IPV6CT_DIRECTION_ALLOW_OUT :: u32 where "IPA_IPV6CT_DIRECTION_ALLOW_OUT = 1"
definition IPA_IPV6CT_DIRECTION_ALLOW_IN :: u32 where "IPA_IPV6CT_DIRECTION_ALLOW_IN = 2"
definition IPA_IPV6CT_DIRECTION_ALLOW_ALL :: u32 where "IPA_IPV6CT_DIRECTION_ALLOW_ALL = 3"

definition IPA_IPV6CT_MAX_TBLS :: nat where "IPA_IPV6CT_MAX_TBLS = 1"
definition IPA_IPV6CT_RULE_FLAG_FIELD_OFFSET :: nat where "IPA_IPV6CT_RULE_FLAG_FIELD_OFFSET = 34"
definition IPA_IPV6CT_RULE_NEXT_FIELD_OFFSET :: nat where "IPA_IPV6CT_RULE_NEXT_FIELD_OFFSET = 40"
definition IPA_IPV6CT_RULE_PROTO_FIELD_OFFSET :: nat where "IPA_IPV6CT_RULE_PROTO_FIELD_OFFSET = 38"
definition IPA_IPV6CT_INVALID_PROTO_FIELD_VALUE :: u16 where "IPA_IPV6CT_INVALID_PROTO_FIELD_VALUE = 0xFF00"
definition IPA_IPV6CT_INVALID_PROTO_FIELD_CMP :: u8 where "IPA_IPV6CT_INVALID_PROTO_FIELD_CMP = 0xFF"

definition ct_entry_zero :: ipa_ipv6ct_hw_entry where
  "ct_entry_zero =
     \<lparr>ct_src_ipv6_lsb = 0, ct_src_ipv6_msb = 0, ct_dest_ipv6_lsb = 0, ct_dest_ipv6_msb = 0,
      ct_uc_activation_index = 0, ct_s = False, ct_rsvd1 = 0, ct_redirect = False, ct_enable = False,
      ct_time_stamp = 0, ct_protocol = 0, ct_next_index = 0, ct_dest_port = 0, ct_src_port = 0, ct_ucp = False,
      ct_rsvd2 = 0, ct_out_allowed = False, ct_in_allowed = False, ct_rsvd3 = 0, ct_rsvd4 = 0,
      ct_prev_index = 0, ct_rsvd5 = 0\<rparr>"

section \<open>Memory layout\<close>

definition halves64 :: "64 word \<Rightarrow> u16 list" where
  "halves64 x = [ucast x, ucast (drop_bit 16 x), ucast (drop_bit 32 x), ucast (drop_bit 48 x)]"

definition join64 :: "u16 \<Rightarrow> u16 \<Rightarrow> u16 \<Rightarrow> u16 \<Rightarrow> 64 word" where
  "join64 a b c d = ucast a OR push_bit 16 (ucast b) OR push_bit 32 (ucast c) OR push_bit 48 (ucast d)"

definition ct_uc_half :: "13 word \<Rightarrow> bool \<Rightarrow> u16 \<Rightarrow> u16" where
  "ct_uc_half uc s r1 = ucast uc OR bit_at 13 s OR push_bit 14 r1"

definition ipa_ipv6ct_flags :: "u16 \<Rightarrow> bool \<Rightarrow> bool \<Rightarrow> u16" where
  "ipa_ipv6ct_flags r1 r en = take_bit 14 r1 OR bit_at 14 r OR bit_at 15 en"

definition ct_settings :: "bool \<Rightarrow> 5 word \<Rightarrow> bool \<Rightarrow> bool \<Rightarrow> u8 \<Rightarrow> u16" where
  "ct_settings u r2 out inn r3 =
     bit_at 0 u OR push_bit 1 (ucast r2) OR bit_at 6 out OR bit_at 7 inn OR push_bit 8 (ucast r3)"

definition ct_encode :: "ipa_ipv6ct_hw_entry \<Rightarrow> u16 list" where
  "ct_encode e =
     halves64 (ct_src_ipv6_lsb e) @ halves64 (ct_src_ipv6_msb e) @
     halves64 (ct_dest_ipv6_lsb e) @ halves64 (ct_dest_ipv6_msb e) @
     [ct_uc_half (ct_uc_activation_index e) (ct_s e) (ct_rsvd1 e),
      ipa_ipv6ct_flags (drop_bit 2 (ct_rsvd1 e)) (ct_redirect e) (ct_enable e),
      ucast (ct_time_stamp e),
      ucast (drop_bit 16 (ct_time_stamp e)) OR push_bit 8 (ucast (ct_protocol e)),
      ct_next_index e, ct_dest_port e, ct_src_port e,
      ct_settings (ct_ucp e) (ct_rsvd2 e) (ct_out_allowed e) (ct_in_allowed e) (ct_rsvd3 e),
      ucast (ct_rsvd4 e), ucast (drop_bit 16 (ct_rsvd4 e)), ucast (drop_bit 32 (ct_rsvd4 e)),
      ct_prev_index e] @
     halves64 (ct_rsvd5 e)"

definition ct_decode :: "u16 list \<Rightarrow> ipa_ipv6ct_hw_entry" where
  "ct_decode hs =
     \<lparr>ct_src_ipv6_lsb = join64 (hs ! 0) (hs ! 1) (hs ! 2) (hs ! 3),
      ct_src_ipv6_msb = join64 (hs ! 4) (hs ! 5) (hs ! 6) (hs ! 7),
      ct_dest_ipv6_lsb = join64 (hs ! 8) (hs ! 9) (hs ! 10) (hs ! 11),
      ct_dest_ipv6_msb = join64 (hs ! 12) (hs ! 13) (hs ! 14) (hs ! 15),
      ct_uc_activation_index = ucast (hs ! 16), ct_s = bit (hs ! 16) 13,
      ct_rsvd1 = drop_bit 14 (hs ! 16) OR push_bit 2 (take_bit 14 (hs ! 17)),
      ct_redirect = bit (hs ! 17) 14, ct_enable = bit (hs ! 17) 15,
      ct_time_stamp = ucast (hs ! 18) OR push_bit 16 (ucast (hs ! 19)),
      ct_protocol = ucast (drop_bit 8 (hs ! 19)),
      ct_next_index = hs ! 20, ct_dest_port = hs ! 21, ct_src_port = hs ! 22,
      ct_ucp = bit (hs ! 23) 0, ct_rsvd2 = ucast (drop_bit 1 (hs ! 23)), ct_out_allowed = bit (hs ! 23) 6,
      ct_in_allowed = bit (hs ! 23) 7, ct_rsvd3 = ucast (drop_bit 8 (hs ! 23)),
      ct_rsvd4 = ucast (hs ! 24) OR push_bit 16 (ucast (hs ! 25)) OR push_bit 32 (ucast (hs ! 26)),
      ct_prev_index = hs ! 27,
      ct_rsvd5 = join64 (hs ! 28) (hs ! 29) (hs ! 30) (hs ! 31)\<rparr>"

text \<open>The device's write of one halfword at a byte offset of a record.\<close>

definition ct_put :: "nat \<Rightarrow> u16 \<Rightarrow> ipa_ipv6ct_hw_entry \<Rightarrow> ipa_ipv6ct_hw_entry" where
  "ct_put ofs v e = ct_decode ((ct_encode e)[ofs div 2 := v])"

section \<open>Hash\<close>

function ipa_ipv6ct_xor_segments_loop :: "64 word \<Rightarrow> u16 \<Rightarrow> u16" where
  "ipa_ipv6ct_xor_segments_loop num ret =
     (if num = 0 then ret
      else ipa_ipv6ct_xor_segments_loop (drop_bit 16 num) (ret XOR ucast (num AND 0xFFFF)))"
  by pat_completeness auto
termination
proof (relation "measure (\<lambda>(num, _). unat num)")
  fix num :: "64 word" and ret :: u16
  assume "num \<noteq> 0"
  then have "0 < unat num" by (simp add: unat_gt_0)
  then show "((drop_bit 16 num, ret XOR ucast (num AND 0xFFFF)), num, ret) \<in> measure (\<lambda>(num, _). unat num)"
    by (simp add: unat_drop_bit_eq drop_bit_eq_div unat_div)
qed simp

declare ipa_ipv6ct_xor_segments_loop.simps [simp del]

definition ipa_ipv6ct_xor_segments :: "64 word \<Rightarrow> u16" where
  "ipa_ipv6ct_xor_segments num = ipa_ipv6ct_xor_segments_loop num 0"

definition ipa_ipv6ct_hash :: "ipa_ipv6ct_rule \<Rightarrow> u16 \<Rightarrow> u16" where
  "ipa_ipv6ct_hash r sz =
     (let hash = 0;
          hash = hash XOR ipa_ipv6ct_xor_segments (r_src_ipv6_lsb r);
          hash = hash XOR ipa_ipv6ct_xor_segments (r_src_ipv6_msb r);
          hash = hash XOR ipa_ipv6ct_xor_segments (r_dest_ipv6_lsb r);
          hash = hash XOR ipa_ipv6ct_xor_segments (r_dest_ipv6_msb r);
          hash = hash XOR r_src_port r;
          hash = hash XOR r_dest_port r;
          hash = hash XOR ucast (r_protocol r);
          hash = hash AND sz
      in if hash = 0 then sz else hash)"

section \<open>Callbacks of the table\<close>

definition ct_table_entry_is_valid :: "ipa_ipv6ct_hw_entry \<Rightarrow> bool" where
  "ct_table_entry_is_valid e = ct_enable e"

definition ct_table_entry_get_next_index :: "ipa_ipv6ct_hw_entry \<Rightarrow> nat" where
  "ct_table_entry_get_next_index e = unat (ct_next_index e)"

definition ct_table_entry_get_prev_index :: "ipa_ipv6ct_hw_entry \<Rightarrow> nat \<Rightarrow> u16 list option \<Rightarrow> nat \<Rightarrow> nat option" where
  "ct_table_entry_get_prev_index e entry_index m base_table_size = Some (unat (ct_prev_index e))"

definition ct_table_entry_set_prev_index ::
  "ipa_ipv6ct_hw_entry \<Rightarrow> nat \<Rightarrow> nat \<Rightarrow> u16 list option \<Rightarrow> nat \<Rightarrow> (ipa_ipv6ct_hw_entry \<times> u16 list option) option" where
  "ct_table_entry_set_prev_index e entry_index p m base_table_size = Some (e\<lparr>ct_prev_index := of_nat p\<rparr>, m)"

text \<open>The direction bits are only ever set, never cleared; on a wrong direction the other fields stay written.\<close>

definition ct_table_entry_copy_from_user :: "ipa_ipv6ct_hw_entry \<Rightarrow> ipa_ipv6ct_rule \<Rightarrow> int \<times> ipa_ipv6ct_hw_entry" where
  "ct_table_entry_copy_from_user e u =
     (let e1 = e\<lparr>ct_src_ipv6_lsb := r_src_ipv6_lsb u, ct_src_ipv6_msb := r_src_ipv6_msb u,
                 ct_dest_ipv6_lsb := r_dest_ipv6_lsb u, ct_dest_ipv6_msb := r_dest_ipv6_msb u,
                 ct_protocol := r_protocol u, ct_src_port := r_src_port u, ct_dest_port := r_dest_port u,
                 ct_ucp := r_ucp u, ct_uc_activation_index := ucast (r_uc_activation_index u), ct_s := r_s u\<rparr>
      in if r_direction_settings u = IPA_IPV6CT_DIRECTION_DENY_ALL then (0, e1)
         else if r_direction_settings u = IPA_IPV6CT_DIRECTION_ALLOW_OUT then (0, e1\<lparr>ct_out_allowed := True\<rparr>)
         else if r_direction_settings u = IPA_IPV6CT_DIRECTION_ALLOW_IN then (0, e1\<lparr>ct_in_allowed := True\<rparr>)
         else if r_direction_settings u = IPA_IPV6CT_DIRECTION_ALLOW_ALL
         then (0, e1\<lparr>ct_out_allowed := True, ct_in_allowed := True\<rparr>)
         else (- EINVAL, e1))"

definition ct_table_entry_head_insert ::
  "ipa_ipv6ct_hw_entry \<Rightarrow> ipa_ipv6ct_rule \<Rightarrow> (int \<times> ipa_ipv6ct_hw_entry \<times> u16) option" where
  "ct_table_entry_head_insert e u =
     (let (ret, e1) = ct_table_entry_copy_from_user e u in
      if ret \<noteq> 0 then Some (ret, e1, 0) else Some (0, e1, ipa_ipv6ct_flags 0 False True))"

definition ct_table_entry_tail_insert ::
  "ipa_ipv6ct_hw_entry \<Rightarrow> ipa_ipv6ct_rule \<Rightarrow> (int \<times> ipa_ipv6ct_hw_entry) option" where
  "ct_table_entry_tail_insert e u =
     (let (ret, e1) = ct_table_entry_copy_from_user e u in
      if ret \<noteq> 0 then Some (ret, e1) else Some (0, e1\<lparr>ct_enable := True\<rparr>))"

definition ct_table_entry_get_delete_head_dma_command_data ::
  "ipa_ipv6ct_hw_entry \<Rightarrow> ipa_ipv6ct_hw_entry \<Rightarrow> u16" where
  "ct_table_entry_get_delete_head_dma_command_data hd_e nx_e = IPA_IPV6CT_INVALID_PROTO_FIELD_VALUE"

definition ct_entry_interface :: "(ipa_ipv6ct_hw_entry, ipa_ipv6ct_rule) ipa_table_entry_interface" where
  "ct_entry_interface =
     \<lparr>entry_zero = ct_entry_zero,
      entry_is_valid = ct_table_entry_is_valid,
      entry_get_next_index = ct_table_entry_get_next_index,
      entry_get_prev_index = ct_table_entry_get_prev_index,
      entry_set_prev_index = ct_table_entry_set_prev_index,
      entry_head_insert = ct_table_entry_head_insert,
      entry_tail_insert = ct_table_entry_tail_insert,
      entry_get_delete_head_dma_command_data = ct_table_entry_get_delete_head_dma_command_data\<rparr>"

section \<open>State and environment\<close>

text \<open>The DMA helpers are stored by value in the table.\<close>

record ipa_ipv6ct_table =
  ct_mem_desc :: ipa_mem_descriptor
  ct_table :: "ipa_ipv6ct_hw_entry ipa_table"

record 'w ipa_ipv6ct =
  ct_ipa_desc :: "ipa_descriptor option"
  ct_tables :: ipa_ipv6ct_table
  ct_table_cnt :: u8
  ct_world :: 'w

record ipa_ioc_ipv6ct_init =
  ct_base_table_offset :: u32
  ct_expn_table_offset :: u32
  ct_init_table_entries :: u16
  ct_init_expn_table_entries :: u16
  ct_tbl_index :: u8

text \<open>\<open>env_ct_dma\<close> is \<^verbatim>\<open>IPA_IOC_TABLE_DMA_CMD\<close>, which writes into the table.  \<^verbatim>\<open>union ipa_ioc_uc_activation_entry\<close> is
  passed through as the bytes the kernel reads and writes.\<close>

record 'w ct_env = "'w ipa_env" +
  env_ct_init :: "int \<Rightarrow> ipa_ioc_ipv6ct_init \<Rightarrow> 'w \<Rightarrow> int \<times> 'w"
  env_ct_dma :: "int \<Rightarrow> ipa_ioc_nat_dma_cmd \<Rightarrow> ipa_ipv6ct_hw_entry ipa_table \<Rightarrow> 'w
    \<Rightarrow> int \<times> ipa_ipv6ct_hw_entry ipa_table \<times> 'w"
  env_add_uc_act :: "int \<Rightarrow> u8 list \<Rightarrow> 'w \<Rightarrow> int \<times> u8 list \<times> 'w"
  env_del_uc_act :: "int \<Rightarrow> u16 \<Rightarrow> 'w \<Rightarrow> int \<times> 'w"

definition ct_table_zero :: ipa_ipv6ct_table where
  "ct_table_zero = \<lparr>ct_mem_desc = mem_desc_zero, ct_table = ipa_table_init [] IPA_NAT_MEM_IN_DDR 0 None 0\<rparr>"

definition ct_lock :: "('w, 'z) ct_env_scheme \<Rightarrow> 'w ipa_ipv6ct \<Rightarrow> int \<times> 'w ipa_ipv6ct" where
  "ct_lock env s = (let (r, w) = env_mutex_lock env (ct_world s) in (r, s\<lparr>ct_world := w\<rparr>))"

definition ct_unlock :: "('w, 'z) ct_env_scheme \<Rightarrow> 'w ipa_ipv6ct \<Rightarrow> int \<times> 'w ipa_ipv6ct" where
  "ct_unlock env s = (let (r, w) = env_mutex_unlock env (ct_world s) in (r, s\<lparr>ct_world := w\<rparr>))"

text \<open>\<^verbatim>\<open>if (pthread_mutex_unlock(&ipv6ct_mutex)) return (ret) ? ret : -EPERM; return ret;\<close>\<close>

definition ct_unlock_ret :: "('w, 'z) ct_env_scheme \<Rightarrow> int \<Rightarrow> 'w ipa_ipv6ct \<Rightarrow> int \<times> 'w ipa_ipv6ct" where
  "ct_unlock_ret env ret s =
     (let (r, s) = ct_unlock env s in (if r \<noteq> 0 then (if ret \<noteq> 0 then ret else - EPERM) else ret, s))"

text \<open>\<^verbatim>\<open>table_handle == IPA_TABLE_INVALID_ENTRY || table_handle > IPA_IPV6CT_MAX_TBLS\<close>\<close>

definition ct_bad_handle :: "u32 \<Rightarrow> bool" where
  "ct_bad_handle table_handle = (unat table_handle = IPA_TABLE_INVALID_ENTRY \<or> unat table_handle > IPA_IPV6CT_MAX_TBLS)"

section \<open>Creating and destroying the table\<close>

definition ipa_ipv6ct_create_table_dma_cmd_helpers :: "ipa_ipv6ct_table \<Rightarrow> u8 \<Rightarrow> ipa_ipv6ct_table" where
  "ipa_ipv6ct_create_table_dma_cmd_helpers tbl table_indx =
     (let ofs = addr_offset (ct_mem_desc tbl);
          flags = ipa_table_dma_cmd_helper_init table_indx IPA_IPV6CT_BASE_TBL IPA_IPV6CT_EXPN_TBL
                    (ofs + of_nat IPA_IPV6CT_RULE_FLAG_FIELD_OFFSET);
          nxt = ipa_table_dma_cmd_helper_init table_indx IPA_IPV6CT_BASE_TBL IPA_IPV6CT_EXPN_TBL
                    (ofs + of_nat IPA_IPV6CT_RULE_NEXT_FIELD_OFFSET);
          proto = ipa_table_dma_cmd_helper_init table_indx IPA_IPV6CT_BASE_TBL IPA_IPV6CT_EXPN_TBL
                    (ofs + of_nat IPA_IPV6CT_RULE_PROTO_FIELD_OFFSET)
      in tbl\<lparr>ct_table := (ct_table tbl)
               \<lparr>dma_help := (dma_help (ct_table tbl))
                  (HELP_UPDATE_HEAD := Some flags, HELP_UPDATE_ENTRY := Some nxt, HELP_DELETE_HEAD := Some proto)\<rparr>\<rparr>)"

text \<open>A record is 64 bytes.  When the number of entries is refused the table keeps what was initialised; when the
  memory is refused the whole structure is erased.\<close>

definition ipa_ipv6ct_create_table ::
  "('w, 'z) ct_env_scheme \<Rightarrow> ipa_descriptor option \<Rightarrow> ipa_ipv6ct_table \<Rightarrow> u16 \<Rightarrow> u8 \<Rightarrow> 'w
    \<Rightarrow> (int \<times> ipa_ipv6ct_table \<times> 'w) option" where
  "ipa_ipv6ct_create_table env d tbl number_of_entries table_index w =
     (let t = ipa_table_init ''IPA IPv6CT table'' IPA_NAT_MEM_IN_DDR 64 None 0;
          (ret, t) = ipa_table_calculate_entries_num t (unat number_of_entries) IPA_NAT_MEM_IN_DDR;
          tbl = tbl\<lparr>ct_table := t\<rparr>
      in if ret \<noteq> 0 then Some (ret, tbl, w)
      else
        let md = ipa_mem_descriptor_init (ct_mem_desc tbl) ''ipaIpv6CTTable'' (int (ipa_table_calculate_size t)) table_index
                   IPA_IOC_ALLOC_IPV6CT_TABLE IPA_IOC_DEL_IPV6CT_TABLE False
        in do {
          desc \<leftarrow> d;
          let (ret, md, w) = ipa_mem_descriptor_allocate_memory env md (desc_fd desc) w;
          if ret \<noteq> 0 then Some (ret, ct_table_zero, w)
          else do {
            base \<leftarrow> base_addr md;
            let (_, t) = ipa_table_calculate_addresses t base;
            let t = ipa_table_reset ct_entry_interface t;
            Some (0, ipa_ipv6ct_create_table_dma_cmd_helpers (tbl\<lparr>ct_mem_desc := md, ct_table := t\<rparr>) table_index, w) } })"

definition ipa_ipv6ct_destroy_table ::
  "('w, 'z) ct_env_scheme \<Rightarrow> ipa_descriptor option \<Rightarrow> ipa_ipv6ct_table \<Rightarrow> 'w \<Rightarrow> (int \<times> ipa_ipv6ct_table \<times> 'w) option" where
  "ipa_ipv6ct_destroy_table env d tbl w =
     do { desc \<leftarrow> d;
          let (ret, _, w) = ipa_mem_descriptor_delete env (ct_mem_desc tbl) (desc_fd desc) w;
          Some (ret, ct_table_zero, w) }"

definition ct_init_cmd :: "ipa_ipv6ct_table \<Rightarrow> u8 \<Rightarrow> ipa_ioc_ipv6ct_init" where
  "ct_init_cmd tbl tbl_index =
     (let base = addr_offset (ct_mem_desc tbl) in
      \<lparr>ct_base_table_offset = base, ct_expn_table_offset = base + of_nat (table_entries (ct_table tbl) * 64),
       ct_init_table_entries = of_nat (table_entries (ct_table tbl)) - 1,
       ct_init_expn_table_entries = of_nat (expn_table_entries (ct_table tbl)), ct_tbl_index = tbl_index\<rparr>)"

definition ipa_ipv6ct_post_init_cmd ::
  "('w, 'z) ct_env_scheme \<Rightarrow> ipa_descriptor option \<Rightarrow> ipa_ipv6ct_table \<Rightarrow> u8 \<Rightarrow> 'w \<Rightarrow> (int \<times> 'w) option" where
  "ipa_ipv6ct_post_init_cmd env d tbl tbl_index w =
     do { desc \<leftarrow> d; Some (env_ct_init env (desc_fd desc) (ct_init_cmd tbl tbl_index) w) }"

definition ipa_ipv6ct_post_dma_cmd ::
  "('w, 'z) ct_env_scheme \<Rightarrow> ipa_descriptor option \<Rightarrow> ipa_ioc_nat_dma_cmd \<Rightarrow> ipa_ipv6ct_hw_entry ipa_table \<Rightarrow> 'w
    \<Rightarrow> (int \<times> ipa_ipv6ct_hw_entry ipa_table \<times> 'w) option" where
  "ipa_ipv6ct_post_dma_cmd env d cmd t w =
     do { desc \<leftarrow> d;
          let (r, t, w) = env_ct_dma env (desc_fd desc) (cmd\<lparr>cmd_mem_type := of_nat (nmi_code IPA_NAT_MEM_IN_DDR)\<rparr>) t w;
          Some (if r \<noteq> 0 then - EIO else 0, t, w) }"

text \<open>The second result is what \<^verbatim>\<open>*table_handle\<close> is set to, \<open>None\<close> when it is not written.  The function takes no lock.\<close>

definition ipa_ipv6ct_add_tbl ::
  "('w, 'z) ct_env_scheme \<Rightarrow> u16 \<Rightarrow> bool \<Rightarrow> 'w ipa_ipv6ct \<Rightarrow> (int \<times> u32 option \<times> 'w ipa_ipv6ct) option" where
  "ipa_ipv6ct_add_tbl env number_of_entries has_hdl_ptr s =
     (if \<not> has_hdl_ptr \<or> number_of_entries = 0 then Some (- EINVAL, None, s)
      else if unat (ct_table_cnt s) \<ge> IPA_IPV6CT_MAX_TBLS then Some (- EINVAL, Some 0, s)
      else
        let (d, w) = open_desc env (ct_ipa_desc s) (ct_world s);
            s = s\<lparr>ct_ipa_desc := d, ct_world := w\<rparr>
        in case d of None \<Rightarrow> Some (- EIO, Some 0, s)
        | Some desc \<Rightarrow>
          let bail_ipa_desc = (\<lambda>ret s.
                (ret, Some 0,
                 if ct_table_cnt s = 0
                 then s\<lparr>ct_ipa_desc := None, ct_world := ipa_descriptor_close env (ct_ipa_desc s) (ct_world s)\<rparr> else s))
          in if desc_ver desc < IPA_HW_v4_0 then Some (bail_ipa_desc (- EPERM) s)
          else do {
            (ret, tbl, w) \<leftarrow> ipa_ipv6ct_create_table env d (ct_tables s) number_of_entries (ct_table_cnt s) (ct_world s);
            let s = s\<lparr>ct_tables := tbl, ct_world := w\<rparr>;
            if ret \<noteq> 0 then Some (bail_ipa_desc ret s)
            else do {
              (ret, w) \<leftarrow> ipa_ipv6ct_post_init_cmd env d tbl (ct_table_cnt s) (ct_world s);
              let s = s\<lparr>ct_world := w\<rparr>;
              if ret \<noteq> 0 then do {
                (_, tbl, w) \<leftarrow> ipa_ipv6ct_destroy_table env d tbl (ct_world s);
                Some (bail_ipa_desc ret (s\<lparr>ct_tables := tbl, ct_world := w\<rparr>)) }
              else do {
                let s = s\<lparr>ct_table_cnt := ct_table_cnt s + 1\<rparr>;
                Some (0, Some (ucast (ct_table_cnt s)), s) } } })"

text \<open>As in the NAT driver the table is erased even when the delete ioctl fails, and the count is then kept.\<close>

definition ipa_ipv6ct_del_tbl ::
  "('w, 'z) ct_env_scheme \<Rightarrow> u32 \<Rightarrow> 'w ipa_ipv6ct \<Rightarrow> (int \<times> 'w ipa_ipv6ct) option" where
  "ipa_ipv6ct_del_tbl env table_handle s =
     do { desc \<leftarrow> ct_ipa_desc s;
          if desc_ver desc < IPA_HW_v4_0 then Some (- EINVAL, s)
          else if ct_bad_handle table_handle then Some (- EINVAL, s)
          else let (r, s) = ct_lock env s in
          if r \<noteq> 0 then Some (- EINVAL, s)
          else if \<not> md_valid (ct_mem_desc (ct_tables s)) then Some (ct_unlock_ret env (- EINVAL) s)
          else do {
            (ret, tbl, w) \<leftarrow> ipa_ipv6ct_destroy_table env (ct_ipa_desc s) (ct_tables s) (ct_world s);
            let s = s\<lparr>ct_tables := tbl, ct_world := w\<rparr>;
            let s = (if ret \<noteq> 0 then s
                     else let s = s\<lparr>ct_table_cnt := ct_table_cnt s - 1\<rparr>
                          in if ct_table_cnt s = 0
                             then s\<lparr>ct_ipa_desc := None,
                                    ct_world := ipa_descriptor_close env (ct_ipa_desc s) (ct_world s)\<rparr>
                             else s);
            Some (ct_unlock_ret env ret s) } }"

section \<open>Rules\<close>

text \<open>The body of \<^verbatim>\<open>ipa_ipv6ct_add_rule\<close> between lock and unlock; the label \<^verbatim>\<open>bail\<close> erases the new record.\<close>

definition ct_add_rule_body ::
  "('w, 'z) ct_env_scheme \<Rightarrow> ipa_descriptor option \<Rightarrow> ipa_ipv6ct_rule \<Rightarrow> ipa_ipv6ct_hw_entry ipa_table \<Rightarrow> 'w
    \<Rightarrow> (int \<times> u32 \<times> ipa_ipv6ct_hw_entry ipa_table \<times> 'w) option" where
  "ct_add_rule_body env d u t w =
     do { let h = ipa_ipv6ct_hash u (of_nat (table_entries t) - 1);
          (ret, t1, i, hdl, cmd) \<leftarrow> ipa_table_add_entry ct_entry_interface t u (unat h) dma_cmd_zero;
          if ret \<noteq> 0 then Some (ret, 0, t1, w)
          else do {
            (ret, t2, w) \<leftarrow> ipa_ipv6ct_post_dma_cmd env d cmd t1 w;
            if ret \<noteq> 0 then do {
              t3 \<leftarrow> ipa_table_erase_entry ct_entry_interface t2 i;
              Some (ret, 0, t3, w) }
            else Some (0, hdl, t2, w) } }"

text \<open>The second result is what \<^verbatim>\<open>*rule_handle\<close> is set to, \<open>None\<close> when it is not written.\<close>

definition ipa_ipv6ct_add_rule ::
  "('w, 'z) ct_env_scheme \<Rightarrow> u32 \<Rightarrow> ipa_ipv6ct_rule option \<Rightarrow> bool \<Rightarrow> 'w ipa_ipv6ct
    \<Rightarrow> (int \<times> u32 option \<times> 'w ipa_ipv6ct) option" where
  "ipa_ipv6ct_add_rule env table_handle user_rule has_hdl_ptr s =
     do { desc \<leftarrow> ct_ipa_desc s;
          if desc_ver desc < IPA_HW_v4_0 then Some (- EINVAL, None, s)
          else case user_rule of None \<Rightarrow> Some (- EINVAL, None, s)
          | Some u \<Rightarrow>
            if ct_bad_handle table_handle \<or> \<not> has_hdl_ptr then Some (- EINVAL, None, s)
            else if r_protocol u = IPA_IPV6CT_INVALID_PROTO_FIELD_CMP then Some (- EINVAL, None, s)
            else let (r, s) = ct_lock env s in
            if r \<noteq> 0 then Some (- EINVAL, None, s)
            else if \<not> md_valid (ct_mem_desc (ct_tables s)) then Some (- EINVAL, None, snd (ct_unlock env s))
            else do {
              (ret, hdl, t, w) \<leftarrow> ct_add_rule_body env (ct_ipa_desc s) u (ct_table (ct_tables s)) (ct_world s);
              let s = s\<lparr>ct_tables := (ct_tables s)\<lparr>ct_table := t\<rparr>, ct_world := w\<rparr>;
              let (r, s) = ct_unlock env s;
              Some (if ret \<noteq> 0 then (ret, None, s) else if r \<noteq> 0 then (- EPERM, None, s) else (0, Some hdl, s)) } }"

text \<open>\<^verbatim>\<open>ipa_ipv6ct_del_rule\<close> after the device has run: the record goes unless it is a head with a tail.\<close>

definition ct_delete_entry ::
  "ipa_ipv6ct_hw_entry ipa_table \<Rightarrow> ipa_table_iterator \<Rightarrow> ipa_ipv6ct_hw_entry ipa_table option" where
  "ct_delete_entry t ti =
     (if \<not> ipa_table_iterator_is_head_with_tail ti then do {
        is_prev_empty \<leftarrow>
          (case it_prev_entry ti of
             None \<Rightarrow> Some False
           | Some p \<Rightarrow> do { pe \<leftarrow> rec_at t p; Some (ct_protocol pe = IPA_IPV6CT_INVALID_PROTO_FIELD_CMP) });
        ipa_table_delete_entry ct_entry_interface t ti is_prev_empty }
      else Some t)"

definition ct_del_rule_body ::
  "('w, 'z) ct_env_scheme \<Rightarrow> ipa_descriptor option \<Rightarrow> u32 \<Rightarrow> ipa_ipv6ct_hw_entry ipa_table \<Rightarrow> 'w
    \<Rightarrow> (int \<times> ipa_ipv6ct_hw_entry ipa_table \<times> 'w) option" where
  "ct_del_rule_body env d rule_handle t w =
     (let (ret, index) = ipa_table_get_entry t rule_handle in
      if ret \<noteq> 0 then Some (ret, t, w)
      else do {
        (ret, ti) \<leftarrow> ipa_table_iterator_init ct_entry_interface t index index;
        if ret \<noteq> 0 then Some (ret, t, w)
        else do {
          cmd \<leftarrow> ipa_table_create_delete_command ct_entry_interface t dma_cmd_zero ti;
          (ret, t1, w) \<leftarrow> ipa_ipv6ct_post_dma_cmd env d cmd t w;
          if ret \<noteq> 0 then Some (ret, t1, w)
          else do {
            t2 \<leftarrow> ct_delete_entry t1 ti;
            Some (0, t2, w) } } })"

definition ipa_ipv6ct_del_rule ::
  "('w, 'z) ct_env_scheme \<Rightarrow> u32 \<Rightarrow> u32 \<Rightarrow> 'w ipa_ipv6ct \<Rightarrow> (int \<times> 'w ipa_ipv6ct) option" where
  "ipa_ipv6ct_del_rule env table_handle rule_handle s =
     do { desc \<leftarrow> ct_ipa_desc s;
          if desc_ver desc < IPA_HW_v4_0 then Some (- EINVAL, s)
          else if ct_bad_handle table_handle \<or> unat rule_handle = IPA_TABLE_INVALID_ENTRY then Some (- EINVAL, s)
          else let (r, s) = ct_lock env s in
          if r \<noteq> 0 then Some (- EINVAL, s)
          else if \<not> md_valid (ct_mem_desc (ct_tables s)) then Some (ct_unlock_ret env (- EINVAL) s)
          else do {
            (ret, t, w) \<leftarrow> ct_del_rule_body env (ct_ipa_desc s) rule_handle (ct_table (ct_tables s)) (ct_world s);
            Some (ct_unlock_ret env ret (s\<lparr>ct_tables := (ct_tables s)\<lparr>ct_table := t\<rparr>, ct_world := w\<rparr>)) } }"

text \<open>The record is read whether it is in use or not.\<close>

definition ipa_ipv6ct_query_timestamp ::
  "('w, 'z) ct_env_scheme \<Rightarrow> u32 \<Rightarrow> u32 \<Rightarrow> bool \<Rightarrow> 'w ipa_ipv6ct \<Rightarrow> (int \<times> u32 option \<times> 'w ipa_ipv6ct) option" where
  "ipa_ipv6ct_query_timestamp env table_handle rule_handle has_ptr s =
     do { desc \<leftarrow> ct_ipa_desc s;
          if desc_ver desc < IPA_HW_v4_0 then Some (- EINVAL, None, s)
          else if ct_bad_handle table_handle \<or> unat rule_handle = IPA_TABLE_INVALID_ENTRY \<or> \<not> has_ptr
          then Some (- EINVAL, None, s)
          else let (r, s) = ct_lock env s in
          if r \<noteq> 0 then Some (- EINVAL, None, s)
          else do {
            (ret, ts) \<leftarrow>
              (if \<not> md_valid (ct_mem_desc (ct_tables s)) then Some (- EINVAL, None)
               else let (ret, i) = ipa_table_get_entry (ct_table (ct_tables s)) rule_handle in
                    if ret \<noteq> 0 then Some (ret, None)
                    else do { e \<leftarrow> rec_at (ct_table (ct_tables s)) i; Some (0, Some (ucast (ct_time_stamp e))) });
            let (ret, s) = ct_unlock_ret env ret s;
            Some (ret, ts, s) } }"

section \<open>uC activation entries\<close>

definition ipa_ipv6ct_add_uc_act_entry ::
  "('w, 'z) ct_env_scheme \<Rightarrow> u8 list \<Rightarrow> 'w ipa_ipv6ct \<Rightarrow> (int \<times> u8 list \<times> 'w ipa_ipv6ct) option" where
  "ipa_ipv6ct_add_uc_act_entry env u s =
     do { desc \<leftarrow> ct_ipa_desc s;
          let (r, u, w) = env_add_uc_act env (desc_fd desc) u (ct_world s);
          Some (if r \<noteq> 0 then - EIO else 0, u, s\<lparr>ct_world := w\<rparr>) }"

definition ipa_ipv6ct_del_uc_act_entry ::
  "('w, 'z) ct_env_scheme \<Rightarrow> u16 \<Rightarrow> 'w ipa_ipv6ct \<Rightarrow> (int \<times> 'w ipa_ipv6ct) option" where
  "ipa_ipv6ct_del_uc_act_entry env index s =
     do { desc \<leftarrow> ct_ipa_desc s;
          let (r, w) = env_del_uc_act env (desc_fd desc) index (ct_world s);
          Some (if r \<noteq> 0 then - EIO else 0, s\<lparr>ct_world := w\<rparr>) }"

end
