(* ===== verification/Ipv6ct_Ok.thy ===== *)
theory Ipv6ct_Ok
  imports Ipv6ct Ipa_Table_Dead Nat_Rules_Ok
begin

text \<open>
  The records and callbacks of the IPv6 connection tracking: the layout is a bijection and each DMA offset names the
  field it is meant for, the hash is the exclusive or of the halfwords and lies in the base table, and the
  callbacks satisfy the contract \<open>dead_head_table\<close>.
\<close>

section \<open>Layout\<close>

lemma halves64_length [simp]: "length (halves64 x) = 4" by (simp add: halves64_def)

lemma join64_halves:
  "join64 (ucast x) (ucast (drop_bit 16 x)) (ucast (drop_bit 32 x)) (ucast (drop_bit 48 x)) = x"
proof (rule bit_word_eqI)
  fix n assume n: "n < LENGTH(64)"
  then consider "n < 16" | "16 \<le> n" "n < 32" | "32 \<le> n" "n < 48" | "48 \<le> n" "n < 64" by fastforce
  then show "bit (join64 (ucast x) (ucast (drop_bit 16 x)) (ucast (drop_bit 32 x)) (ucast (drop_bit 48 x))) n = bit x n"
    by cases (auto simp: join64_def bit_simps)
qed

lemma halves_join64: "halves64 (join64 a b c d) = [a, b, c, d]"
  unfolding halves64_def join64_def list.inject
  by (intro conjI refl; rule bit_word_eqI; auto simp: bit_simps dest: bit_imp_le_length)

lemma ct_uc_half_fields [simp]:
  "ucast (ct_uc_half uc s r) = uc" "bit (ct_uc_half uc s r) 13 = s"
  "drop_bit 14 (ct_uc_half uc s r) = take_bit 2 r"
proof -
  show "ucast (ct_uc_half uc s r) = uc"
    by (rule bit_word_eqI) (auto simp: ct_uc_half_def bit_simps dest: bit_imp_le_length)
  show "drop_bit 14 (ct_uc_half uc s r) = take_bit 2 r"
    by (rule bit_word_eqI) (auto simp: ct_uc_half_def bit_simps dest: bit_imp_le_length)
qed (auto simp: ct_uc_half_def bit_simps dest: bit_imp_le_length)

lemma ct_flags_fields [simp]:
  "take_bit 14 (ipa_ipv6ct_flags r1 r en) = take_bit 14 r1"
  "bit (ipa_ipv6ct_flags r1 r en) 14 = r" "bit (ipa_ipv6ct_flags r1 r en) 15 = en"
proof -
  show "take_bit 14 (ipa_ipv6ct_flags r1 r en) = take_bit 14 r1"
    by (rule bit_word_eqI) (auto simp: ipa_ipv6ct_flags_def bit_simps)
qed (auto simp: ipa_ipv6ct_flags_def bit_simps)

lemma ct_rsvd1_join: "take_bit 2 r OR push_bit 2 (take_bit 14 (drop_bit 2 r)) = r" for r :: u16
proof (rule bit_word_eqI)
  fix n assume n: "n < LENGTH(16)"
  show "bit (take_bit 2 r OR push_bit 2 (take_bit 14 (drop_bit 2 r))) n = bit r n"
  proof (cases "n < 2")
    case True
    then show ?thesis by (simp add: bit_simps)
  next
    case False
    then obtain m where "n = Suc (Suc m)" using less_imp_Suc_add [of 1 n] by auto
    then show ?thesis using n by (simp add: bit_simps)
  qed
qed

lemma ct_settings_fields [simp]:
  "bit (ct_settings u r2 out inn r3) 0 = u" "ucast (drop_bit (Suc 0) (ct_settings u r2 out inn r3)) = r2"
  "bit (ct_settings u r2 out inn r3) 6 = out" "bit (ct_settings u r2 out inn r3) 7 = inn"
  "ucast (drop_bit 8 (ct_settings u r2 out inn r3)) = r3"
proof -
  show "ucast (drop_bit (Suc 0) (ct_settings u r2 out inn r3)) = r2"
    by (rule bit_word_eqI) (auto simp: ct_settings_def bit_simps simp del: One_nat_def push_bit_Suc dest: bit_imp_le_length)
  show "ucast (drop_bit 8 (ct_settings u r2 out inn r3)) = r3"
    by (rule bit_word_eqI) (auto simp: ct_settings_def bit_simps simp del: One_nat_def dest: bit_imp_le_length)
qed (auto simp: ct_settings_def bit_simps simp del: One_nat_def dest: bit_imp_le_length)

lemma join48:
  "ucast (ucast x :: u16) OR push_bit 16 (ucast (ucast (drop_bit 16 x) :: u16)) OR
     push_bit 32 (ucast (ucast (drop_bit 32 x) :: u16)) = (x :: 48 word)"
proof (rule bit_word_eqI)
  fix n assume n: "n < LENGTH(48)"
  then consider "n < 16" | "16 \<le> n" "n < 32" | "32 \<le> n" "n < 48" by fastforce
  then show "bit (ucast (ucast x :: u16) OR push_bit 16 (ucast (ucast (drop_bit 16 x) :: u16)) OR
     push_bit 32 (ucast (ucast (drop_bit 32 x) :: u16)) :: 48 word) n = bit x n"
    by cases (auto simp: bit_simps)
qed

lemma split48:
  "ucast (ucast a OR push_bit 16 (ucast b) OR push_bit 32 (ucast c) :: 48 word) = (a :: u16)"
  "ucast (drop_bit 16 (ucast a OR push_bit 16 (ucast b) OR push_bit 32 (ucast c) :: 48 word)) = (b :: u16)"
  "ucast (drop_bit 32 (ucast a OR push_bit 16 (ucast b) OR push_bit 32 (ucast c) :: 48 word)) = (c :: u16)"
  by (rule bit_word_eqI; auto simp: bit_simps dest: bit_imp_le_length)+

lemma ct_uc_half_join: "ct_uc_half (ucast h) (bit h 13) (drop_bit 14 h OR push_bit 2 x) = h" for h x :: u16
proof (rule bit_word_eqI)
  fix n assume "n < LENGTH(16)"
  then consider "n < 13" | "n = 13" | "n = 14" | "n = 15" by fastforce
  then show "bit (ct_uc_half (ucast h) (bit h 13) (drop_bit 14 h OR push_bit 2 x)) n = bit h n"
    by cases (auto simp: ct_uc_half_def bit_simps)
qed

lemma ct_flags_join: "ipa_ipv6ct_flags (drop_bit 2 (push_bit 2 (take_bit 14 h))) (bit h 14) (bit h 15) = h"
  for h :: u16
proof (rule bit_word_eqI)
  fix n assume "n < LENGTH(16)"
  then consider "n < 14" | "n = 14" | "n = 15" by fastforce
  then show "bit (ipa_ipv6ct_flags (drop_bit 2 (push_bit 2 (take_bit 14 h))) (bit h 14) (bit h 15)) n = bit h n"
    by cases (auto simp: ipa_ipv6ct_flags_def bit_simps dest: bit_imp_le_length)
qed

lemma ct_settings_join:
  "ct_settings (bit h 0) (ucast (drop_bit 1 h)) (bit h 6) (bit h 7) (ucast (drop_bit 8 h)) = h" for h :: u16
proof (rule bit_word_eqI)
  fix n assume "n < LENGTH(16)"
  then consider "n = 0" | "1 \<le> n" "n < 6" | "n = 6" | "n = 7" | "8 \<le> n" "n < 16" by fastforce
  then show "bit (ct_settings (bit h 0) (ucast (drop_bit 1 h)) (bit h 6) (bit h 7) (ucast (drop_bit 8 h))) n = bit h n"
    by cases (auto simp: ct_settings_def bit_simps simp del: One_nat_def)
qed

lemmas ct_joins = join64_halves ct_rsvd1_join join24 proto_field proto_field [unfolded drop_bit_or] join48

lemma ct_encode_length [simp]: "length (ct_encode e) = 32"
  by (simp add: ct_encode_def halves64_def)

lemma ct_decode_encode: "ct_decode (ct_encode e) = e"
  by (cases e) (simp add: ct_encode_def ct_decode_def halves64_def ct_joins)

lemma ct_encode_decode:
  assumes "length hs = 32"
  shows "ct_encode (ct_decode hs) = hs"
proof -
  obtain a0 a1 a2 a3 a4 a5 a6 a7 a8 a9 b0 b1 b2 b3 b4 b5 b6 b7 b8 b9 c0 c1 c2 c3 c4 c5 c6 c7 c8 c9 d0 d1 where
    hs: "hs = [a0, a1, a2, a3, a4, a5, a6, a7, a8, a9, b0, b1, b2, b3, b4, b5, b6, b7, b8, b9,
               c0, c1, c2, c3, c4, c5, c6, c7, c8, c9, d0, d1]"
    using assms by (auto simp: length_Suc_conv numeral_eq_Suc)
  show ?thesis
    by (simp add: hs ct_encode_def ct_decode_def halves_join64 ct_uc_half_join ct_flags_join
          ct_settings_join [unfolded One_nat_def]           split48 split48 [unfolded drop_bit_or] time_proto_join time_proto_join [unfolded drop_bit_or])
qed

lemmas ct_fields = ct_encode_def ct_decode_def halves64_def ct_joins

lemma ct_put_next: "ct_put IPA_IPV6CT_RULE_NEXT_FIELD_OFFSET v e = e\<lparr>ct_next_index := v\<rparr>"
  by (cases e) (simp add: ct_put_def IPA_IPV6CT_RULE_NEXT_FIELD_OFFSET_def ct_fields)

lemma ct_put_flags:
  "ct_put IPA_IPV6CT_RULE_FLAG_FIELD_OFFSET v e =
     e\<lparr>ct_rsvd1 := take_bit 2 (ct_rsvd1 e) OR push_bit 2 (take_bit 14 v), ct_redirect := bit v 14, ct_enable := bit v 15\<rparr>"
  by (cases e) (simp add: ct_put_def IPA_IPV6CT_RULE_FLAG_FIELD_OFFSET_def ct_fields)

lemma ct_put_proto:
  "ct_put IPA_IPV6CT_RULE_PROTO_FIELD_OFFSET v e =
     e\<lparr>ct_time_stamp := ucast (ucast (ct_time_stamp e) :: u16) OR push_bit 16 (ucast v),
       ct_protocol := ucast (drop_bit 8 v)\<rparr>"
  by (cases e) (simp add: ct_put_def IPA_IPV6CT_RULE_PROTO_FIELD_OFFSET_def ct_fields)

text \<open>The layout of \<^verbatim>\<open>ipa_ipv6ct_hw_entry\<close> is a bijection between records and 32 halfwords, and a device write
  changes exactly the halfword it names: offset 40 the next index, offset 34 the flags and the upper
  14 bits of the first reserved field, offset 38 the protocol and the upper byte of the time stamp.\<close>

theorem ipv6ct_entry_layout:
  "ct_decode (ct_encode e) = e \<and>
   (if length hs = 32 then ct_encode (ct_decode hs) = hs else True) \<and>
   ct_put IPA_IPV6CT_RULE_NEXT_FIELD_OFFSET v e = e\<lparr>ct_next_index := v\<rparr> \<and>
   ct_put IPA_IPV6CT_RULE_FLAG_FIELD_OFFSET v e =
     e\<lparr>ct_rsvd1 := take_bit 2 (ct_rsvd1 e) OR push_bit 2 (take_bit 14 v), ct_redirect := bit v 14, ct_enable := bit v 15\<rparr> \<and>
   ct_put IPA_IPV6CT_RULE_PROTO_FIELD_OFFSET v e =
     e\<lparr>ct_time_stamp := ucast (ucast (ct_time_stamp e) :: u16) OR push_bit 16 (ucast v),
       ct_protocol := ucast (drop_bit 8 v)\<rparr>"
  using ct_decode_encode ct_encode_decode ct_put_next ct_put_flags ct_put_proto by simp

section \<open>Hash\<close>

lemma and_FFFF64: "ucast (num AND 0xFFFF :: 64 word) = (ucast num :: u16)"
proof -
  have "(0xFFFF :: 64 word) = mask 16" by (simp add: mask_eq_exp_minus_1)
  then have "num AND 0xFFFF = take_bit 16 num" by (simp only: take_bit_eq_mask)
  then show ?thesis by (intro bit_word_eqI) (simp add: bit_simps)
qed

lemma xor_loop_step:
  "ipa_ipv6ct_xor_segments_loop num ret = ipa_ipv6ct_xor_segments_loop (drop_bit 16 num) (ret XOR ucast num)"
proof (cases "num = 0")
  case True
  then show ?thesis by simp
next
  case False
  then show ?thesis by (subst ipa_ipv6ct_xor_segments_loop.simps) (simp add: and_FFFF64)
qed

lemma xor_loop_done: "ipa_ipv6ct_xor_segments_loop 0 ret = ret"
  by (simp add: ipa_ipv6ct_xor_segments_loop.simps)

lemma xor_segments_eq:
  "ipa_ipv6ct_xor_segments x = ucast x XOR ucast (drop_bit 16 x) XOR ucast (drop_bit 32 x) XOR ucast (drop_bit 48 x)"
proof -
  have z: "drop_bit 16 (drop_bit 16 (drop_bit 16 (drop_bit 16 x))) = 0"
    by (rule bit_word_eqI) (auto simp: bit_simps dest: bit_imp_le_length)
  have "ipa_ipv6ct_xor_segments_loop x 0 =
      ipa_ipv6ct_xor_segments_loop (drop_bit 16 (drop_bit 16 (drop_bit 16 (drop_bit 16 x))))
        (0 XOR ucast x XOR ucast (drop_bit 16 x) XOR ucast (drop_bit 16 (drop_bit 16 x)) XOR
          ucast (drop_bit 16 (drop_bit 16 (drop_bit 16 x))))"
    by (subst xor_loop_step, subst xor_loop_step, subst xor_loop_step, subst xor_loop_step)
       (simp add: xor.assoc)
  then show ?thesis
    unfolding z xor_loop_done ipa_ipv6ct_xor_segments_def by (simp add: xor.assoc)
qed

definition ct_key :: "ipa_ipv6ct_rule \<Rightarrow> u16" where
  "ct_key r = fold (XOR) (halves64 (r_src_ipv6_lsb r) @ halves64 (r_src_ipv6_msb r) @ halves64 (r_dest_ipv6_lsb r) @
     halves64 (r_dest_ipv6_msb r) @ [r_src_port r, r_dest_port r, ucast (r_protocol r)]) 0"

lemma ct_hash_eq: "ipa_ipv6ct_hash r sz = (if ct_key r AND sz = 0 then sz else ct_key r AND sz)"
  by (simp add: ipa_ipv6ct_hash_def Let_def ct_key_def halves64_def xor_segments_eq xor.assoc xor.commute xor.left_commute)

text \<open>\<^verbatim>\<open>ipa_ipv6ct_hash\<close> with its loop over 16-bit segments equals the reference: the exclusive or of all halfwords of
  both addresses, both ports and the protocol, masked, with 0 replaced by the mask; on a base table of \<open>2 ^ k\<close>
  records it is at least 1 and below \<open>2 ^ k\<close>.\<close>

theorem ipv6ct_hash_correct:
  "ipa_ipv6ct_hash r sz = (if ct_key r AND sz = 0 then sz else ct_key r AND sz) \<and>
   (if 1 \<le> k \<and> k \<le> 12 then 0 < unat (ipa_ipv6ct_hash r (of_nat (2 ^ k - 1))) \<and>
      unat (ipa_ipv6ct_hash r (of_nat (2 ^ k - 1))) < 2 ^ k else True)"
  using hash_mask_range [OF refl _ _ ct_hash_eq, of k r] ct_hash_eq by simp

section \<open>The contract of the callbacks\<close>

fun ct_off :: "dma_help_type \<Rightarrow> nat" where
  "ct_off HELP_UPDATE_HEAD = IPA_IPV6CT_RULE_FLAG_FIELD_OFFSET"
| "ct_off HELP_UPDATE_ENTRY = IPA_IPV6CT_RULE_NEXT_FIELD_OFFSET"
| "ct_off HELP_DELETE_HEAD = IPA_IPV6CT_RULE_PROTO_FIELD_OFFSET"
| "ct_off HELP_UPDATE_MAX = 0"

definition direction_ok :: "ipa_ipv6ct_rule \<Rightarrow> bool" where
  "direction_ok u \<longleftrightarrow> unat (r_direction_settings u) \<le> 3"

definition ct_view :: "ipa_ipv6ct_hw_entry \<Rightarrow> ipa_ipv6ct_hw_entry" where
  "ct_view e = e\<lparr>ct_next_index := 0, ct_prev_index := 0\<rparr>"

definition ct_dead :: "ipa_ipv6ct_hw_entry \<Rightarrow> bool" where
  "ct_dead e \<longleftrightarrow> ct_protocol e = IPA_IPV6CT_INVALID_PROTO_FIELD_CMP"

lemmas ct_callbacks = ct_entry_interface_def ct_table_entry_is_valid_def ct_table_entry_get_next_index_def
  ct_table_entry_get_prev_index_def ct_table_entry_set_prev_index_def ct_table_entry_head_insert_def
  ct_table_entry_get_delete_head_dma_command_data_def ct_table_entry_copy_from_user_def ct_entry_zero_def

lemmas ct_puts = ct_put_flags ct_put_next ct_put_proto

lemma direction_cases:
  assumes "direction_ok u"
  shows "r_direction_settings u = IPA_IPV6CT_DIRECTION_DENY_ALL \<or> r_direction_settings u = IPA_IPV6CT_DIRECTION_ALLOW_OUT \<or>
    r_direction_settings u = IPA_IPV6CT_DIRECTION_ALLOW_IN \<or> r_direction_settings u = IPA_IPV6CT_DIRECTION_ALLOW_ALL"
proof -
  have "unat (r_direction_settings u) \<in> {0, 1, 2, 3}" using assms by (auto simp: direction_ok_def)
  then show ?thesis
    by (auto simp: word_unat_eq_iff IPA_IPV6CT_DIRECTION_DENY_ALL_def IPA_IPV6CT_DIRECTION_ALLOW_OUT_def
        IPA_IPV6CT_DIRECTION_ALLOW_IN_def IPA_IPV6CT_DIRECTION_ALLOW_ALL_def)
qed

text \<open>The record a rule becomes: the fields of the client and the bits of its direction.\<close>

definition ct_stored :: "ipa_ipv6ct_rule \<Rightarrow> ipa_ipv6ct_hw_entry" where
  "ct_stored u = ct_entry_zero
     \<lparr>ct_src_ipv6_lsb := r_src_ipv6_lsb u, ct_src_ipv6_msb := r_src_ipv6_msb u, ct_dest_ipv6_lsb := r_dest_ipv6_lsb u,
      ct_dest_ipv6_msb := r_dest_ipv6_msb u, ct_uc_activation_index := ucast (r_uc_activation_index u), ct_s := r_s u,
      ct_enable := True, ct_protocol := r_protocol u, ct_src_port := r_src_port u, ct_dest_port := r_dest_port u,
      ct_ucp := r_ucp u, ct_out_allowed := bit (r_direction_settings u) 0, ct_in_allowed := bit (r_direction_settings u) 1\<rparr>"

lemma copy_from_user_ok:
  assumes "direction_ok u"
  shows "ct_table_entry_head_insert ct_entry_zero u =
    Some (0, (ct_stored u)\<lparr>ct_enable := False\<rparr>, ipa_ipv6ct_flags 0 False True)"
  using direction_cases [OF assms]
  by (auto simp: ct_table_entry_head_insert_def ct_table_entry_copy_from_user_def ct_stored_def Let_def
      ct_entry_zero_def IPA_IPV6CT_DIRECTION_DENY_ALL_def IPA_IPV6CT_DIRECTION_ALLOW_OUT_def
      IPA_IPV6CT_DIRECTION_ALLOW_IN_def IPA_IPV6CT_DIRECTION_ALLOW_ALL_def bit_simps)

interpretation ct: dead_head_table ct_entry_interface ct_put ct_off False direction_ok IPA_IPV6CT_BASE_TBL
  IPA_IPV6CT_EXPN_TBL ct_view ct_dead
proof unfold_locales
  let ?ei = ct_entry_interface
  show "entry_get_prev_index ?ei (ct_put (ct_off k) v e) i m te = entry_get_prev_index ?ei e i m te"
    if "VALID_DMA_HELP_TYPE k" for k v e i m te
    using that by (cases k) (simp_all add: ct_callbacks ct_puts VALID_DMA_HELP_TYPE_def)
  show "\<exists>e' v. entry_head_insert ?ei e u = Some (0, e', v) \<and>
          entry_get_next_index ?ei e' = entry_get_next_index ?ei e \<and>
          (\<forall>i m te. entry_get_prev_index ?ei e' i m te = entry_get_prev_index ?ei e i m te) \<and>
          entry_is_valid ?ei (ct_put (ct_off HELP_UPDATE_HEAD) v e')"
    if "direction_ok u" for u e
    using direction_cases [OF that] by (auto simp: ct_callbacks ct_puts Let_def)
  show "\<exists>e' m'. entry_set_prev_index ?ei e i p m te = Some (e', m') \<and> meta_fits False m' te n \<and>
            entry_is_valid ?ei e' = entry_is_valid ?ei e \<and> entry_get_next_index ?ei e' = entry_get_next_index ?ei e \<and>
            entry_get_prev_index ?ei e' i m' te = Some p \<and>
            (\<forall>e2 j. j \<noteq> i \<longrightarrow> entry_get_prev_index ?ei e2 j m' te = entry_get_prev_index ?ei e2 j m te)"
    if "meta_fits False m te n" "te \<le> i" "i < n" "p < 65536" for m te n i p e
    using that unat_of_nat_u16 [of p] by (simp add: ct_callbacks)
  show "ct_view (ct_put (ct_off HELP_UPDATE_ENTRY) v e) = ct_view e" for v e
    by (simp add: ct_puts ct_view_def)
  show "ct_view e' = ct_view e" if "entry_set_prev_index ?ei e i p m te = Some (e', m')" for e i p m te e' m'
    using that by (auto simp: ct_callbacks ct_view_def)
  show "ct_dead (ct_view (ct_put (ct_off HELP_DELETE_HEAD) (entry_get_delete_head_dma_command_data ?ei e e') e))" for e e'
    by (simp add: ct_dead_def ct_view_def ct_callbacks ct_puts IPA_IPV6CT_INVALID_PROTO_FIELD_VALUE_def
        IPA_IPV6CT_INVALID_PROTO_FIELD_CMP_def)
qed (simp_all add: ct_callbacks ct_puts)

end
