(* ===== verification/Ipv6ct_Api_Ok.thy ===== *)
theory Ipv6ct_Api_Ok
  imports Ipv6ct_Ok Nat_Table_Ok Ipa_Service
begin

text \<open>
  The operations of the IPv6 connection tracking on the whole state.  A client sees numbered slots: a handle names a
  slot, and a slot in use holds a rule.  Additions and deletions change exactly one slot or nothing; sequences of
  requests refine that abstract table.
\<close>

section \<open>Invariant and abstraction\<close>

abbreviation ct_ei :: "(ipa_ipv6ct_hw_entry, ipa_ipv6ct_rule) ipa_table_entry_interface" where
  "ct_ei \<equiv> ct_entry_interface"

definition ct_inv :: "ipa_ipv6ct_hw_entry ipa_table \<Rightarrow> (nat \<Rightarrow> nat list) \<Rightarrow> bool" where
  "ct_inv t ch \<longleftrightarrow> ct.inv t ch \<and> ct.dead_ok t ch \<and> (\<exists>k. 1 \<le> k \<and> k \<le> 12 \<and> table_entries t = 2 ^ k)"

abbreviation ct_table_of :: "'w ipa_ipv6ct \<Rightarrow> ipa_ipv6ct_hw_entry ipa_table" where
  "ct_table_of s \<equiv> ct_table (ct_tables s)"

definition ct_ok :: "'w ipa_ipv6ct \<Rightarrow> bool" where
  "ct_ok s \<longleftrightarrow> (\<exists>desc. ct_ipa_desc s = Some desc \<and> IPA_HW_v4_0 \<le> desc_ver desc) \<and> md_valid (ct_mem_desc (ct_tables s)) \<and>
     ct_table_cnt s = 1 \<and> (\<exists>ch. ct_inv (ct_table_of s) ch)"

text \<open>The slot a handle names and the rule in a slot.\<close>

definition ct_slot :: "'w ipa_ipv6ct \<Rightarrow> u32 \<Rightarrow> nat option" where
  "ct_slot s h = (case ipa_table_get_entry (ct_table_of s) h of (ret, i) \<Rightarrow> if ret = 0 \<and> h \<noteq> 0 then Some i else None)"

definition ct_rules :: "'w ipa_ipv6ct \<Rightarrow> nat \<Rightarrow> ipa_ipv6ct_hw_entry option" where
  "ct_rules s i = ct.seen (ct_table_of s) i"

definition ct_in_use :: "'w ipa_ipv6ct \<Rightarrow> nat \<Rightarrow> bool" where
  "ct_in_use s i \<longleftrightarrow> vdT ct_ei (ct_table_of s) i"

definition ct_head :: "ipa_ipv6ct_hw_entry ipa_table \<Rightarrow> ipa_ipv6ct_rule \<Rightarrow> nat" where
  "ct_head t u = unat (ipa_ipv6ct_hash u (of_nat (table_entries t) - 1))"

definition ct_full :: "ipa_ipv6ct_hw_entry ipa_table \<Rightarrow> ipa_ipv6ct_rule \<Rightarrow> bool" where
  "ct_full t u \<longleftrightarrow> vdT ct_ei t (ct_head t u) \<and> free_slot ct_ei t = None"

text \<open>What the library relies on: a DMA command that succeeds was executed, one that fails changed nothing.\<close>

definition ct_device :: "('w, 'z) ct_env_scheme \<Rightarrow> bool" where
  "ct_device env \<longleftrightarrow> (\<forall>fd cmd t w. case env_ct_dma env fd cmd t w of (r, t', w') \<Rightarrow>
     t' = (if r = 0 then dma_run ct_put IPA_IPV6CT_BASE_TBL IPA_IPV6CT_EXPN_TBL (cmd_dma cmd) t else t))"

lemma ct_post_cases:
  assumes "ct_device env"
  obtains (posted) w' where "ipa_ipv6ct_post_dma_cmd env (Some desc) cmd t w =
      Some (0, dma_run ct_put IPA_IPV6CT_BASE_TBL IPA_IPV6CT_EXPN_TBL (cmd_dma cmd) t, w')"
  | (failed) w' where "ipa_ipv6ct_post_dma_cmd env (Some desc) cmd t w = Some (- EIO, t, w')"
proof -
  let ?cmd = "cmd\<lparr>cmd_mem_type := of_nat (nmi_code IPA_NAT_MEM_IN_DDR)\<rparr>"
  obtain r t' w' where e: "env_ct_dma env (desc_fd desc) ?cmd t w = (r, t', w')"
    by (cases "env_ct_dma env (desc_fd desc) ?cmd t w")
  have "t' = (if r = 0 then dma_run ct_put IPA_IPV6CT_BASE_TBL IPA_IPV6CT_EXPN_TBL (cmd_dma cmd) t else t)"
    using assms [unfolded ct_device_def, THEN spec, of "desc_fd desc", THEN spec, of ?cmd, THEN spec, of t, THEN spec, of w] e
    by simp
  then show thesis using e that by (cases "r = 0") (simp_all add: ipa_ipv6ct_post_dma_cmd_def)
qed

section \<open>The bodies\<close>

lemma ct_head_range:
  assumes "ct_inv t ch"
  shows "0 < ct_head t u" "ct_head t u < table_entries t"
proof -
  obtain k where k: "1 \<le> k" "k \<le> 12" "table_entries t = 2 ^ k" using assms by (auto simp: ct_inv_def)
  show "0 < ct_head t u" "ct_head t u < table_entries t"
    using hash_mask_range [OF mask_of_power [OF k(1,2)] k(1,2) ct_hash_eq, of u] by (simp_all add: ct_head_def k(3))
qed

lemma ct_inv_shape: "ct.inv t' ch' \<Longrightarrow> ct.dead_ok t' ch' \<Longrightarrow> same_shape t t' \<Longrightarrow> ct_inv t ch \<Longrightarrow> ct_inv t' ch'"
  by (auto simp: ct_inv_def same_shape_def)

lemma ct_same_recs:
  assumes "ct.inv t' ch" "recs t' = recs t" "same_shape t t'" "ct_inv t ch"
  shows "ct_inv t' ch" "ct.seen t' = ct.seen t"
proof -
  have "ct.live t' = ct.live t" by (rule ct.seen_recs [OF assms(2)])
  moreover have "vdT ct_ei t' = vdT ct_ei t" using assms(2) by (simp add: vdT_def fun_eq_iff)
  ultimately have "ct.dead_ok t' ch" using assms(3,4) by (simp add: ct.dead_ok_def ct_inv_def same_shape_def)
  then show "ct_inv t' ch" using ct_inv_shape assms by blast
  show "ct.seen t' = ct.seen t" by (rule ct.seen_recs [OF assms(2)])
qed

text \<open>What an addition leaves: the new rule in a free slot, in the chain of its hash.\<close>

definition ct_added ::
  "ipa_ipv6ct_hw_entry ipa_table \<Rightarrow> ipa_ipv6ct_rule \<Rightarrow> u32 \<Rightarrow> ipa_ipv6ct_hw_entry ipa_table \<Rightarrow> bool" where
  "ct_added t u hdl t' \<longleftrightarrow> \<not> ct_full t u \<and> (\<exists>i ch'. i \<noteq> 0 \<and> i < n_recs t \<and> \<not> vdT ct_ei t i \<and>
     hdl = ucast (MakeEntryHdl t i) \<and> ct_inv t' ch' \<and> i \<in> set (ct_head t u # ch' (ct_head t u)) \<and>
     ct.seen t' = (ct.seen t)(i \<mapsto> ct_stored u))"

lemma ct_stored_view:
  assumes "e1 = ((ct_stored u)\<lparr>ct_enable := False\<rparr>)\<lparr>ct_prev_index := p\<rparr>"
  shows "ct_view (ct_put (ct_off HELP_UPDATE_HEAD) (ipa_ipv6ct_flags 0 False True) e1) = ct_stored u"
  by (simp add: assms ct_puts ct_view_def ct_stored_def ct_entry_zero_def)

lemma ct_add_cases:
  assumes inv: "ct_inv t ch" and u: "direction_ok u"
  obtains (full) "ct_full t u" "ipa_table_add_entry ct_ei t u (ct_head t u) dma_cmd_zero = Some (- 1, t, ct_head t u, 0, dma_cmd_zero)"
  | (added) i e1 t1 ds where "\<not> ct_full t u"
      "ipa_table_add_entry ct_ei t u (ct_head t u) dma_cmd_zero =
         Some (0, t1, i, ucast (MakeEntryHdl t i), dma_cmd_zero\<lparr>cmd_dma := ds\<rparr>)"
      "ct.add_shape t ch (ct_head t u) i e1 (ipa_ipv6ct_flags 0 False True) t1 ds"
      "ct_view (ct_put (ct_off HELP_UPDATE_HEAD) (ipa_ipv6ct_flags 0 False True) e1) = ct_stored u"
proof -
  let ?h = "ct_head t u"
  have it: "ct.inv t ch" using inv by (simp add: ct_inv_def)
  have hi: "entry_head_insert ct_ei (entry_zero ct_ei) u =
      Some (0, (ct_stored u)\<lparr>ct_enable := False\<rparr>, ipa_ipv6ct_flags 0 False True)"
    using copy_from_user_ok [OF u] by (simp add: ct_entry_interface_def)
  have p0: "((ct_stored u)\<lparr>ct_enable := False\<rparr>)\<lparr>ct_prev_index := 0\<rparr> = (ct_stored u)\<lparr>ct_enable := False\<rparr>"
    by (simp add: ct_stored_def ct_entry_zero_def)
  from ct.add_entry_cases [OF it ct_head_range [OF inv, of u] u, of dma_cmd_zero, unfolded hi] show thesis
  proof (elim disjE)
    assume "vdT ct_ei t ?h \<and> free_slot ct_ei t = None \<and>
      ipa_table_add_entry ct_ei t u ?h dma_cmd_zero = Some (- 1, t, ?h, 0, dma_cmd_zero)"
    then show thesis by (intro full) (simp_all add: ct_full_def)
  next
    assume "\<exists>i e1 v t1 ds. ipa_table_add_entry ct_ei t u ?h dma_cmd_zero =
         Some (0, t1, i, ucast (MakeEntryHdl t i), dma_cmd_zero\<lparr>cmd_dma := cmd_dma dma_cmd_zero @ ds\<rparr>) \<and>
       ct.add_shape t ch ?h i e1 v t1 ds \<and>
       (\<exists>e0. (if False \<and> vdT ct_ei t ?h then entry_tail_insert ct_ei (entry_zero ct_ei) u = Some (0, e0)
              else Some (0, (ct_stored u)\<lparr>ct_enable := False\<rparr>, ipa_ipv6ct_flags 0 False True) = Some (0, e0, v)) \<and>
             (if vdT ct_ei t ?h
              then entry_set_prev_index ct_ei e0 i (last (?h # ch ?h)) (meta t) (table_entries t) = Some (e1, meta t1)
              else e1 = e0))"
    then obtain i e1 t1 ds where a: "ipa_table_add_entry ct_ei t u ?h dma_cmd_zero =
         Some (0, t1, i, ucast (MakeEntryHdl t i), dma_cmd_zero\<lparr>cmd_dma := ds\<rparr>)"
       "ct.add_shape t ch ?h i e1 (ipa_ipv6ct_flags 0 False True) t1 ds"
       "if vdT ct_ei t ?h
        then entry_set_prev_index ct_ei ((ct_stored u)\<lparr>ct_enable := False\<rparr>) i (last (?h # ch ?h)) (meta t)
               (table_entries t) = Some (e1, meta t1)
        else e1 = (ct_stored u)\<lparr>ct_enable := False\<rparr>"
      by (auto simp: dma_cmd_zero_def)
    from a(3) obtain p where "e1 = ((ct_stored u)\<lparr>ct_enable := False\<rparr>)\<lparr>ct_prev_index := p\<rparr>"
      using p0 by (cases "vdT ct_ei t ?h")
        (auto simp: ct_entry_interface_def ct_table_entry_set_prev_index_def simp del: last.simps, metis)
    moreover have "\<not> ct_full t u" using a(2) unfolding ct.add_shape_def ct_full_def by auto
    ultimately show thesis using a(1,2) ct_stored_view by (intro added)
  qed
qed

lemma ct_add_body:
  assumes inv: "ct_inv t ch" and dev: "ct_device env" and u: "direction_ok u" "r_protocol u \<noteq> IPA_IPV6CT_INVALID_PROTO_FIELD_CMP"
  shows "\<exists>ret hdl t' w'. ct_add_rule_body env (Some desc) u t w = Some (ret, hdl, t', w') \<and> same_shape t t' \<and>
    (if ret = 0 then ct_added t u hdl t'
     else ct_inv t' ch \<and> recs t' = recs t \<and> ret = (if ct_full t u then - 1 else - EIO))"
proof (cases rule: ct_add_cases [OF inv u(1)])
  case 1
  then have "ct_add_rule_body env (Some desc) u t w = Some (- 1, 0, t, w)"
    by (simp add: ct_add_rule_body_def ct_head_def)
  then show ?thesis using inv 1 by simp
next
  case (2 i e1 t1 ds)
  let ?h = "ct_head t u"
  have it: "ct.inv t ch" and dd: "ct.dead_ok t ch" using inv by (simp_all add: ct_inv_def)
  note h = ct_head_range [OF inv, of u]
  note new = ct.add_shape_new [OF 2(3)] and rec = ct.add_shape_rec [OF it 2(3) h(2)]
  let ?cmd = "dma_cmd_zero\<lparr>cmd_dma := ds\<rparr>"
  have b: "ct_add_rule_body env (Some desc) u t w =
      do { (ret, t2, w) \<leftarrow> ipa_ipv6ct_post_dma_cmd env (Some desc) ?cmd t1 w;
           if ret \<noteq> 0 then do { t3 \<leftarrow> ipa_table_erase_entry ct_ei t2 i; Some (ret, 0, t3, w) }
           else Some (0, ucast (MakeEntryHdl t i), t2, w) }"
    using 2(2) by (simp add: ct_add_rule_body_def ct_head_def)
  show ?thesis
  proof (cases rule: ct_post_cases [OF dev, of desc ?cmd t1 w])
    case (1 w')
    have nd: "\<not> ct_dead (ct_stored u)" using u(2) by (simp add: ct_dead_def ct_stored_def)
    note o = ct.insert_outcome [OF it dd h(2) 2(3) _ 2(4) nd refl, simplified]
    have "ct_inv (dma_run ct_put IPA_IPV6CT_BASE_TBL IPA_IPV6CT_EXPN_TBL ds t1) (grown ct_ei t ch ?h i)"
      using ct_inv_shape [OF o(1,3,2) inv] .
    then have "ct_added t u (ucast (MakeEntryHdl t i)) (dma_run ct_put IPA_IPV6CT_BASE_TBL IPA_IPV6CT_EXPN_TBL ds t1)"
      using new(1-3) o(4,5) 2(1) unfolding ct_added_def by (auto simp: grown_def)
    then show ?thesis using b 1 o(2) by simp
  next
    case (2 w')
    obtain t4 where t4: "ipa_table_erase_entry ct_ei t1 i = Some t4" "ct.inv t4 ch" "recs t4 = recs t" "same_shape t t4"
      using ct.add_shape_rollback [OF it \<open>ct.add_shape t ch ?h i e1 _ t1 ds\<close> h(2), of e1] rec(2) by auto
    then show ?thesis using b 2 ct_same_recs [OF t4(2-4) inv] \<open>\<not> ct_full t u\<close> by simp
  qed
qed

lemma ct_unlink_eq: "ct_delete_entry = ct.unlink"
proof -
  have d: "ct_dead (ct_view e) \<longleftrightarrow> ct_protocol e = IPA_IPV6CT_INVALID_PROTO_FIELD_CMP" for e
    by (simp add: ct_dead_def ct_view_def)
  show ?thesis unfolding fun_eq_iff ct_delete_entry_def ct.unlink_def d by simp
qed

lemma ct_del_body:
  assumes inv: "ct_inv t ch" and dev: "ct_device env" and g: "ipa_table_get_entry t h = (0, i)"
  shows "\<exists>ret t' w'. ct_del_rule_body env (Some desc) h t w = Some (ret, t', w') \<and> same_shape t t' \<and>
    (if ret = 0 then vdT ct_ei t i \<and> (\<exists>ch'. ct_inv t' ch') \<and> ct.seen t' = (ct.seen t)(i := None)
     else t' = t \<and> ret = (if vdT ct_ei t i then - EIO else - EINVAL))"
proof -
  have it: "ct.inv t ch" and dd: "ct.dead_ok t ch" using inv by (simp_all add: ct_inv_def)
  have n: "i < n_recs t"
    using g geom_tot [OF inv_geom [OF it]] by (auto simp: ipa_table_get_entry_def split: prod.splits if_splits)
  show ?thesis
  proof (cases "vdT ct_ei t i")
    case False
    then show ?thesis using ct.iterator_init_free [OF it n False] g by (simp add: ct_del_rule_body_def)
  next
    case True
    obtain ti q j v t' where d: "ipa_table_iterator_init ct_ei t i i = Some (0, ti)"
        "ipa_table_create_delete_command ct_ei t dma_cmd_zero ti =
           Some (dma_cmd_zero\<lparr>cmd_dma := cmd_dma dma_cmd_zero @ [cmd_one t q j v]\<rparr>)"
        "ct.unlink (dma_run ct_put IPA_IPV6CT_BASE_TBL IPA_IPV6CT_EXPN_TBL [cmd_one t q j v] t) ti = Some t'"
        "ct.deleted t ch i t'"
      using ct.delete_outcome [OF it dd True, of dma_cmd_zero] by blast
    let ?cmd = "dma_cmd_zero\<lparr>cmd_dma := [cmd_one t q j v]\<rparr>"
    have c: "cmd_dma dma_cmd_zero = []" by (simp add: dma_cmd_zero_def)
    have b: "ct_del_rule_body env (Some desc) h t w =
        do { (ret, t1, w) \<leftarrow> ipa_ipv6ct_post_dma_cmd env (Some desc) ?cmd t w;
             if ret \<noteq> 0 then Some (ret, t1, w) else do { t2 \<leftarrow> ct.unlink t1 ti; Some (0, t2, w) } }"
      unfolding ct_del_rule_body_def ct_unlink_eq using g d(1,2) c by simp
    show ?thesis
    proof (cases rule: ct_post_cases [OF dev, of desc ?cmd t w])
      case (1 w')
      have "ct_inv t' (without i ch)" "same_shape t t'"
        using d(4) ct_inv_shape [of t' "without i ch" t ch] inv by (auto simp: ct.deleted_def)
      then show ?thesis using b 1 d(3) True ct.seen_deleted [OF d(4)] by auto
    next
      case (2 w')
      then show ?thesis using b True by simp
    qed
  qed
qed

section \<open>The operations\<close>

lemma ct_lock_ok: "mutex_ok env \<Longrightarrow> ct_lock env s = (0, s\<lparr>ct_world := snd (env_mutex_lock env (ct_world s))\<rparr>)"
  by (simp add: ct_lock_def mutex_ok_def prod_eq_iff split: prod.splits)

lemma ct_unlock_ok: "mutex_ok env \<Longrightarrow> ct_unlock env s = (0, s\<lparr>ct_world := snd (env_mutex_unlock env (ct_world s))\<rparr>)"
  by (simp add: ct_unlock_def mutex_ok_def prod_eq_iff split: prod.splits)

lemma ct_unlock_ret_ok:
  "mutex_ok env \<Longrightarrow> ct_unlock_ret env ret s = (ret, s\<lparr>ct_world := snd (env_mutex_unlock env (ct_world s))\<rparr>)"
  by (simp add: ct_unlock_ret_def ct_unlock_ok)

lemma ct_handle_1: "\<not> ct_bad_handle 1"
  by (simp add: ct_bad_handle_def IPA_TABLE_INVALID_ENTRY_def IPA_IPV6CT_MAX_TBLS_def)

lemma ct_okD:
  assumes "ct_ok s"
  obtains desc ch where "ct_ipa_desc s = Some desc" "\<not> desc_ver desc < IPA_HW_v4_0" "md_valid (ct_mem_desc (ct_tables s))"
    "ct_inv (ct_table_of s) ch"
  using assms by (auto simp: ct_ok_def)

definition put_ct :: "ipa_ipv6ct_hw_entry ipa_table \<Rightarrow> 'w \<Rightarrow> 'w ipa_ipv6ct \<Rightarrow> 'w ipa_ipv6ct" where
  "put_ct t w s = s\<lparr>ct_tables := (ct_tables s)\<lparr>ct_table := t\<rparr>, ct_world := w\<rparr>"

lemma put_ct_simps [simp]:
  "ct_table_of (put_ct t w s) = t" "(put_ct t w s)\<lparr>ct_world := w'\<rparr> = put_ct t w' s"
  "same_shape (ct_table_of s) t \<Longrightarrow> ct_slot (put_ct t w s) = ct_slot s" "ct_rules (put_ct t w s) = ct.seen t"
  by (simp_all add: put_ct_def fun_eq_iff ct_slot_def ct_rules_def same_shape_get_entry)

lemma ct_rules_eq: "ct_rules s = ct.seen (ct_table_of s)"
  by (simp add: fun_eq_iff ct_rules_def)

lemma put_ct_ok: "ct_ok s \<Longrightarrow> ct_inv t ch \<Longrightarrow> ct_ok (put_ct t w s)"
  by (auto simp: ct_ok_def put_ct_def)

lemma put_ct_same: "s\<lparr>ct_world := w\<rparr> = put_ct (ct_table_of s) w s"
  by (simp add: put_ct_def)

lemma own_slot:
  assumes "ct_inv (ct_table_of s) ch" "i < n_recs (ct_table_of s)" "i \<noteq> 0"
  shows "ct_slot s (ucast (MakeEntryHdl (ct_table_of s) i)) = Some i"
proof -
  let ?h = "ucast (MakeEntryHdl (ct_table_of s) i) :: u32"
  have it: "ct.inv (ct_table_of s) ch" using assms(1) by (simp add: ct_inv_def)
  have g: "ipa_table_get_entry (ct_table_of s) ?h = (0, i)"
    by (rule get_entry_own_handle [OF inv_geom [OF it] assms(2)])
  have "ipa_table_get_entry (ct_table_of s) 0 = (0, 0)"
    using geom_tot [OF inv_geom [OF it]] geom_te [OF inv_geom [OF it]]
    by (simp add: ipa_table_get_entry_def BREAK_RULE_HDL_def)
  then have "?h \<noteq> 0" using g assms(3) by auto
  then show ?thesis using g by (simp add: ct_slot_def)
qed

lemma ct_add_outcome:
  assumes ok: "ct_ok s" and dev: "ct_device env" and mtx: "mutex_ok env" and u: "direction_ok u"
  shows "\<exists>ret out s'. ipa_ipv6ct_add_rule env 1 (Some u) True s = Some (ret, out, s') \<and> ct_ok s' \<and> ct_slot s' = ct_slot s \<and>
    (if ret = 0
     then r_protocol u \<noteq> IPA_IPV6CT_INVALID_PROTO_FIELD_CMP \<and> \<not> ct_full (ct_table_of s) u \<and>
          (\<exists>h i. out = Some h \<and> ct_slot s h = Some i \<and> \<not> ct_in_use s i \<and> ct_rules s' = (ct_rules s)(i \<mapsto> ct_stored u))
     else out = None \<and> ct_rules s' = ct_rules s \<and>
          ret = (if r_protocol u = IPA_IPV6CT_INVALID_PROTO_FIELD_CMP then - EINVAL
                 else if ct_full (ct_table_of s) u then - 1 else - EIO))"
proof -
  obtain desc ch where s: "ct_ipa_desc s = Some desc" "\<not> desc_ver desc < IPA_HW_v4_0"
      "md_valid (ct_mem_desc (ct_tables s))" "ct_inv (ct_table_of s) ch" using ct_okD [OF ok] .
  show ?thesis
  proof (cases "r_protocol u = IPA_IPV6CT_INVALID_PROTO_FIELD_CMP")
    case True
    then show ?thesis using ok s ct_handle_1 by (simp add: ipa_ipv6ct_add_rule_def)
  next
    case False
    let ?t = "ct_table_of s" and ?w = "snd (env_mutex_lock env (ct_world s))"
    obtain ret hdl t' w' where b: "ct_add_rule_body env (Some desc) u ?t ?w = Some (ret, hdl, t', w')" "same_shape ?t t'"
        "if ret = 0 then ct_added ?t u hdl t'
         else ct_inv t' ch \<and> recs t' = recs ?t \<and> ret = (if ct_full ?t u then - 1 else - EIO)"
      using ct_add_body [OF s(4) dev u False] by blast
    have c: "ipa_ipv6ct_add_rule env 1 (Some u) True s =
        Some (ret, if ret = 0 then Some hdl else None, put_ct t' (snd (env_mutex_unlock env w')) s)"
      using s False b(1) ct_handle_1
      by (simp add: ipa_ipv6ct_add_rule_def ct_lock_ok [OF mtx] ct_unlock_ok [OF mtx] put_ct_def)
    show ?thesis
    proof (cases "ret = 0")
      case True
      then obtain i ch' where i: "\<not> ct_full ?t u" "i \<noteq> 0" "i < n_recs ?t" "\<not> vdT ct_ei ?t i" "hdl = ucast (MakeEntryHdl ?t i)"
          "ct_inv t' ch'" "ct.seen t' = (ct.seen ?t)(i \<mapsto> ct_stored u)"
        using b(3) by (auto simp: ct_added_def)
      let ?s = "put_ct t' (snd (env_mutex_unlock env w')) s"
      have "ct_slot s hdl = Some i" "\<not> ct_in_use s i" "ct_rules ?s = (ct_rules s)(i \<mapsto> ct_stored u)"
        using own_slot [OF s(4) i(3,2)] i(4,5,7) by (simp_all add: ct_in_use_def ct_rules_eq)
      moreover have "ct_ok ?s" "ct_slot ?s = ct_slot s" using put_ct_ok [OF ok i(6)] b(2) by simp_all
      ultimately show ?thesis using c True False i(1) by simp
    next
      case nz: False
      then have "ct.seen t' = ct.seen ?t" using b(3) by (intro ct.seen_recs(1)) simp
      then show ?thesis using c nz False b(2,3) put_ct_ok [OF ok, of t' ch] by (simp add: ct_rules_eq)
    qed
  qed
qed

lemma ct_del_outcome:
  assumes ok: "ct_ok s" and dev: "ct_device env" and mtx: "mutex_ok env"
  shows "\<exists>ret s'. ipa_ipv6ct_del_rule env 1 h s = Some (ret, s') \<and> ct_ok s' \<and> ct_slot s' = ct_slot s \<and>
    (case ct_slot s h of
       None \<Rightarrow> ret = - EINVAL \<and> ct_rules s' = ct_rules s
     | Some i \<Rightarrow> if ret = 0 then ct_in_use s i \<and> ct_rules s' = (ct_rules s)(i := None)
                else ct_rules s' = ct_rules s \<and> ret = (if ct_in_use s i then - EIO else - EINVAL))"
proof -
  obtain desc ch where s: "ct_ipa_desc s = Some desc" "\<not> desc_ver desc < IPA_HW_v4_0"
      "md_valid (ct_mem_desc (ct_tables s))" "ct_inv (ct_table_of s) ch" using ct_okD [OF ok] .
  let ?t = "ct_table_of s" and ?w = "snd (env_mutex_lock env (ct_world s))"
  note d = ipa_ipv6ct_del_rule_def ct_lock_ok [OF mtx] ct_unlock_ret_ok [OF mtx] put_ct_def ct_handle_1
    IPA_TABLE_INVALID_ENTRY_def unat_eq_0
  obtain r i where g: "ipa_table_get_entry ?t h = (r, i)" by fastforce
  have r: "r = 0 \<or> r = - EINVAL" using g by (auto simp: ipa_table_get_entry_def split: prod.splits if_splits)
  consider "h = 0" | "h \<noteq> 0" "r \<noteq> 0" | "h \<noteq> 0" "r = 0" by blast
  then show ?thesis
  proof cases
    case 1
    then show ?thesis using s ok by (simp add: d ct_slot_def split: prod.splits)
  next
    case 2
    have "ct_del_rule_body env (Some desc) h ?t ?w = Some (r, ?t, ?w)" using g 2 by (simp add: ct_del_rule_body_def)
    then have "ipa_ipv6ct_del_rule env 1 h s = Some (r, put_ct ?t (snd (env_mutex_unlock env ?w)) s)"
      using s 2 by (simp add: d)
    then show ?thesis using 2 r g put_ct_ok [OF ok s(4)] by (simp add: ct_slot_def ct_rules_eq)
  next
    case 3
    have g0: "ipa_table_get_entry ?t h = (0, i)" using g 3 by simp
    obtain ret t' w' where b: "ct_del_rule_body env (Some desc) h ?t ?w = Some (ret, t', w')" "same_shape ?t t'"
        "if ret = 0 then vdT ct_ei ?t i \<and> (\<exists>ch'. ct_inv t' ch') \<and> ct.seen t' = (ct.seen ?t)(i := None)
         else t' = ?t \<and> ret = (if vdT ct_ei ?t i then - EIO else - EINVAL)"
      using ct_del_body [OF s(4) dev g0] by blast
    have c: "ipa_ipv6ct_del_rule env 1 h s = Some (ret, put_ct t' (snd (env_mutex_unlock env w')) s)"
      using s 3 b(1) by (simp add: d)
    have sl: "ct_slot s h = Some i" using g0 3 by (simp add: ct_slot_def)
    have "ct_ok (put_ct t' w'' s)" for w'' using b(3) s(4) put_ct_ok [OF ok] by (cases "ret = 0") auto
    then show ?thesis using c sl b(2,3) by (auto simp: ct_rules_eq ct_in_use_def)
  qed
qed

lemma ct_query_outcome:
  assumes ok: "ct_ok s" and mtx: "mutex_ok env"
  shows "\<exists>ret out w. ipa_ipv6ct_query_timestamp env 1 h True s = Some (ret, out, s\<lparr>ct_world := w\<rparr>) \<and>
    (case ct_slot s h of None \<Rightarrow> ret = - EINVAL \<and> out = None
     | Some i \<Rightarrow> ret = 0 \<and> (\<forall>r. ct_rules s i = Some r \<longrightarrow> out = Some (ucast (ct_time_stamp r))))"
proof -
  obtain desc ch where s: "ct_ipa_desc s = Some desc" "\<not> desc_ver desc < IPA_HW_v4_0"
      "md_valid (ct_mem_desc (ct_tables s))" "ct_inv (ct_table_of s) ch" using ct_okD [OF ok] .
  let ?t = "ct_table_of s"
  note d = ipa_ipv6ct_query_timestamp_def ct_lock_ok [OF mtx] ct_unlock_ret_ok [OF mtx] ct_handle_1
    IPA_TABLE_INVALID_ENTRY_def unat_eq_0 ct_slot_def
  obtain r i where g: "ipa_table_get_entry ?t h = (r, i)" by fastforce
  show ?thesis
  proof (cases "h \<noteq> 0 \<and> r = 0")
    case True
    then have "i < length (recs ?t)"
      using g geom_tot [OF inv_geom] geom_len [OF inv_geom] s(4)
      by (fastforce simp: ct_inv_def ipa_table_get_entry_def split: prod.splits if_splits)
    then have "rec_at ?t i = Some (recs ?t ! i)" by (simp add: rec_at_def)
    moreover have "ct_rules s i = Some r \<Longrightarrow> ct_time_stamp r = ct_time_stamp (recs ?t ! i)" for r
      by (auto simp: ct_rules_def ct.seen_def ct_view_def split: if_splits)
    ultimately show ?thesis using True g s by (simp add: d) fastforce
  next
    case False
    have "r = 0 \<or> r = - EINVAL" using g by (auto simp: ipa_table_get_entry_def split: prod.splits if_splits)
    then show ?thesis using False g s
      by (cases "h = 0", intro exI [of _ "- EINVAL"] exI [of _ None] exI [of _ "ct_world s"]) (auto simp: d)
  qed
qed

section \<open>Creating and deleting the table\<close>

lemma ct_helpers:
  assumes "addr_offset (ct_mem_desc tbl) = 0"
  shows "ipa_ipv6ct_create_table_dma_cmd_helpers tbl ti =
    tbl\<lparr>ct_table := with_helpers ti IPA_IPV6CT_BASE_TBL IPA_IPV6CT_EXPN_TBL ct_off (ct_table tbl)\<rparr>"
  using assms unfolding ipa_ipv6ct_create_table_dma_cmd_helpers_def Let_def helpers_upd with_helpers_def
  by (auto intro!: ipa_ipv6ct_table.fold_congs ipa_table.fold_congs simp: VALID_DMA_HELP_TYPE_def
      split: dma_help_type.split)

lemma ct_off_in_record: "VALID_DMA_HELP_TYPE k \<Longrightarrow> ct_off k < 64"
  by (cases k) (simp_all add: IPA_IPV6CT_RULE_FLAG_FIELD_OFFSET_def IPA_IPV6CT_RULE_NEXT_FIELD_OFFSET_def
      IPA_IPV6CT_RULE_PROTO_FIELD_OFFSET_def VALID_DMA_HELP_TYPE_def)

definition ct_ready :: "u16 \<Rightarrow> ipa_ipv6ct_table \<Rightarrow> bool" where
  "ct_ready n tbl \<longleftrightarrow> md_valid (ct_mem_desc tbl) \<and> ct_inv (ct_table tbl) no_chains \<and> ct.seen (ct_table tbl) = Map.empty \<and>
     base_addr (ct_mem_desc tbl) = Some (table_addr (ct_table tbl)) \<and> unat n \<le> n_recs (ct_table tbl) + 1"

lemma ct_fresh:
  assumes g: "table_geom IPA_IPV6CT_BASE_TBL IPA_IPV6CT_EXPN_TBL ct_off t" "meta t = None"
      "recs t = replicate (n_recs t) ct_entry_zero" "cur_tbl_cnt t = 0" "cur_expn_tbl_cnt t = 0"
    and k: "1 \<le> k" "k \<le> 12" "table_entries t = 2 ^ k"
  shows "ct_inv t no_chains" "ct.seen t = Map.empty"
proof -
  have z: "entry_zero ct_ei = ct_entry_zero" "\<not> entry_is_valid ct_ei (entry_zero ct_ei)"
    using ct.zero_invalid by (simp_all add: ct_entry_interface_def)
  have "ct.inv t no_chains" by (rule fresh_table_inv [OF g(1)]) (use g z in \<open>simp_all add: meta_fits_def\<close>)
  moreover have vd: "\<not> vdT ct_ei t i" for i using z by (auto simp: vdT_def g(3))
  then have lv: "\<not> ct.live t i" for i by (simp add: ct.live_def)
  ultimately show "ct_inv t no_chains" using k vd by (auto simp: ct_inv_def ct.dead_ok_def)
  show "ct.seen t = Map.empty" by (simp add: ct.seen_def lv fun_eq_iff)
qed

lemma ct_create_cases:
  assumes al: "alloc_at_base env"
  shows "\<exists>ret tbl' w'. ipa_ipv6ct_create_table env (Some desc) tbl n ti w = Some (ret, tbl', w') \<and>
    (if ret = 0 then ct_ready n tbl' else ct_mem_desc tbl' = ct_mem_desc tbl \<or> tbl' = ct_table_zero)"
proof -
  let ?t0 = "ipa_table_init ''IPA IPv6CT table'' IPA_NAT_MEM_IN_DDR 64 None 0 :: ipa_ipv6ct_hw_entry ipa_table"
  let ?n = "unat n"
  obtain te xe where sp: "entry_split IPA_NAT_MEM_IN_DDR ?n = (te, xe)" by (cases "entry_split IPA_NAT_MEM_IN_DDR ?n")
  show ?thesis
  proof (cases "?n \<le> 5120 \<and> te + xe \<le> 5120")
    case False
    then obtain t' where "ipa_table_calculate_entries_num ?t0 ?n IPA_NAT_MEM_IN_DDR = (- EINVAL, t')"
      using sp calculate_entries_num_eq [of ?n ?t0 IPA_NAT_MEM_IN_DDR]
      by (cases "?n \<le> 5120") (auto simp: ipa_table_calculate_entries_num_def IPA_TABLE_MAX_ENTRIES_def)
    then show ?thesis by (simp add: ipa_ipv6ct_create_table_def)
  next
    case True
    then have n: "?n \<le> 5120" "fst (entry_split IPA_NAT_MEM_IN_DDR ?n) + snd (entry_split IPA_NAT_MEM_IN_DDR ?n) \<le> 5120"
      using sp by simp_all
    note b = entry_split_bounds [OF n, unfolded sp, simplified]
    obtain k where k: "1 \<le> k" "k \<le> 12" "te = 2 ^ k" using b(1) by auto
    have "(2::nat) ^ 1 \<le> 2 ^ k" "(2::nat) ^ k \<le> 2 ^ 12" using k by (intro power_increasing; simp)+
    then have te: "2 \<le> te" "te \<le> 4096" using k by simp_all
    define t1 where "t1 = ?t0\<lparr>tot_tbl_ents := te + xe, table_entries := te, expn_table_entries := xe\<rparr>"
    have num: "ipa_table_calculate_entries_num ?t0 ?n IPA_NAT_MEM_IN_DDR = (0, t1)"
      using n(1) sp True by (simp add: calculate_entries_num_eq t1_def)
    define md0 where "md0 = ipa_mem_descriptor_init (ct_mem_desc tbl) ''ipaIpv6CTTable'' (int (ipa_table_calculate_size t1)) ti
        IPA_IOC_ALLOC_IPV6CT_TABLE IPA_IOC_DEL_IPV6CT_TABLE False"
    obtain ret md w2 where al': "ipa_mem_descriptor_allocate_memory env md0 (desc_fd desc) w = (ret, md, w2)"
      by (cases "ipa_mem_descriptor_allocate_memory env md0 (desc_fd desc) w")
    show ?thesis
    proof (cases "ret = 0")
      case False
      then show ?thesis using num al' by (simp add: ipa_ipv6ct_create_table_def md0_def)
    next
      case True
      note m = allocate_memory_ok [OF al al' [unfolded True]]
      obtain a where a: "base_addr md = Some a" using m(1) by blast
      define t2 where "t2 = with_helpers ti IPA_IPV6CT_BASE_TBL IPA_IPV6CT_EXPN_TBL ct_off
          (ipa_table_reset ct_ei (snd (ipa_table_calculate_addresses t1 a)))"
      have c: "ipa_ipv6ct_create_table env (Some desc) tbl n ti w = Some (0, tbl\<lparr>ct_mem_desc := md, ct_table := t2\<rparr>, w2)"
        using num al' True a m(2) unfolding md0_def t2_def
        by (simp add: ipa_ipv6ct_create_table_def ct_helpers split: prod.splits)
      note t1 = t1_def [unfolded ipa_table_init_def]
      have z: "entry_zero ct_ei = ct_entry_zero" by (simp add: ct_entry_interface_def)
      have f1: "table_entries t1 = te" "expn_table_entries t1 = xe" "tot_tbl_ents t1 = te + xe" "entry_size t1 = 64"
          "tbl_nmi t1 = IPA_NAT_MEM_IN_DDR" "meta t1 = None" "cur_tbl_cnt t1 = 0" "cur_expn_tbl_cnt t1 = 0"
        by (simp_all add: t1)
      note g = created_geom [OF t2_def, unfolded f1 z, OF te b(3) _ refl _ _ _ ct_off_in_record, simplified]
      have xe: "xe \<le> 4096" using b(4) by simp
      note g = g [OF xe]
      have "ct_inv t2 no_chains" "ct.seen t2 = Map.empty"
        by (rule ct_fresh [OF g(1) g(5), of k]; use g k in simp)+
      then have "ct_ready n (tbl\<lparr>ct_mem_desc := md, ct_table := t2\<rparr>)"
        using m(3) a g(3,4,8) b(5) by (simp add: ct_ready_def)
      then show ?thesis using c by simp
    qed
  qed
qed

text \<open>No table and no descriptor.\<close>

definition ct_none :: "'w ipa_ipv6ct \<Rightarrow> bool" where
  "ct_none s \<longleftrightarrow> ct_table_cnt s = 0 \<and> ct_ipa_desc s = None \<and> \<not> md_valid (ct_mem_desc (ct_tables s))"

lemma ct_zero_invalid [simp]: "\<not> md_valid (ct_mem_desc ct_table_zero)"
  by (simp add: ct_table_zero_def mem_desc_zero_def)

lemma ct_add_tbl_outcome:
  assumes al: "alloc_at_base env" and s: "ct_table_cnt s = 0" "\<not> md_valid (ct_mem_desc (ct_tables s))" and n: "n \<noteq> 0"
  shows "\<exists>ret s'. ipa_ipv6ct_add_tbl env n True s = Some (ret, Some (if ret = 0 then 1 else 0), s') \<and>
    (if ret = 0 then ct_ok s' \<and> ct_rules s' = Map.empty \<and> unat n \<le> n_recs (ct_table_of s') + 1 else ct_none s')"
proof -
  obtain d w1 where o: "open_desc env (ct_ipa_desc s) (ct_world s) = (d, w1)" by fastforce
  note def = ipa_ipv6ct_add_tbl_def IPA_IPV6CT_MAX_TBLS_def
  show ?thesis
  proof (cases d)
    case None
    then show ?thesis using o s n by (simp add: def ct_none_def)
  next
    case (Some desc)
    show ?thesis
    proof (cases "desc_ver desc < IPA_HW_v4_0")
      case True
      then show ?thesis using o s n Some by (simp add: def ct_none_def)
    next
      case v: False
      obtain ret tbl' w2 where c: "ipa_ipv6ct_create_table env (Some desc) (ct_tables s) n 0 w1 = Some (ret, tbl', w2)"
          "if ret = 0 then ct_ready n tbl' else ct_mem_desc tbl' = ct_mem_desc (ct_tables s) \<or> tbl' = ct_table_zero"
        using ct_create_cases [OF al] by blast
      obtain r w3 where i: "env_ct_init env (desc_fd desc) (ct_init_cmd tbl' 0) w2 = (r, w3)" by fastforce
      obtain r2 md2 w4 where de: "ipa_mem_descriptor_delete env (ct_mem_desc tbl') (desc_fd desc) w3 = (r2, md2, w4)"
        by (cases "ipa_mem_descriptor_delete env (ct_mem_desc tbl') (desc_fd desc) w3")
      consider "ret \<noteq> 0" | "ret = 0" "r \<noteq> 0" | "ret = 0" "r = 0" by blast
      then show ?thesis
      proof cases
        case 1
        then show ?thesis using o s n Some v c by (auto simp: def ct_none_def)
      next
        case 2
        then show ?thesis using o s n Some v c i de
          by (simp add: def ct_none_def ipa_ipv6ct_post_init_cmd_def ipa_ipv6ct_destroy_table_def)
      next
        case 3
        then show ?thesis using o s n Some v c i
          by (auto simp: def ipa_ipv6ct_post_init_cmd_def ct_ok_def ct_ready_def ct_rules_eq)
      qed
    qed
  qed
qed

lemma ct_del_tbl_outcome:
  assumes ok: "ct_ok s" and mtx: "mutex_ok env"
  shows "\<exists>ret s'. ipa_ipv6ct_del_tbl env 1 s = Some (ret, s') \<and>
    (if ret = 0 then ct_none s' else ct_table_cnt s' = 1 \<and> ct_ipa_desc s' = ct_ipa_desc s \<and> ct_tables s' = ct_table_zero)"
proof -
  obtain desc ch where s: "ct_ipa_desc s = Some desc" "\<not> desc_ver desc < IPA_HW_v4_0"
      "md_valid (ct_mem_desc (ct_tables s))" "ct_inv (ct_table_of s) ch" using ct_okD [OF ok] .
  have cnt: "ct_table_cnt s = 1" using ok by (simp add: ct_ok_def)
  let ?w = "snd (env_mutex_lock env (ct_world s))"
  obtain ret md w where de: "ipa_mem_descriptor_delete env (ct_mem_desc (ct_tables s)) (desc_fd desc) ?w = (ret, md, w)"
    by (cases "ipa_mem_descriptor_delete env (ct_mem_desc (ct_tables s)) (desc_fd desc) ?w")
  show ?thesis
    using s cnt de by (cases "ret = 0")
      (simp_all add: ipa_ipv6ct_del_tbl_def ct_lock_ok [OF mtx] ct_unlock_ret_ok [OF mtx] ct_handle_1
        ipa_ipv6ct_destroy_table_def ct_none_def)
qed

end
