(* ===== verification/Ipv6ct_Client_Ok.thy ===== *)
theory Ipv6ct_Client_Ok
  imports Ipv6ct_Api_Ok
begin

text \<open>
  The properties of the IPv6 connection tracking: what each client operation does, sequences of requests against an
  abstract table of slots, and the life of the table.  A concrete table with a device that executes every
  command shows that the hypotheses can hold.
\<close>

section \<open>Requests\<close>

datatype ct_request = CtAdd ipa_ipv6ct_rule | CtDel u32 | CtQuery u32

text \<open>The state of a run carries the last response, status and output.\<close>

fun ct_call :: "('w, 'z) ct_env_scheme \<Rightarrow> ct_request \<Rightarrow> (int \<times> u32 option) \<times> 'w ipa_ipv6ct
    \<Rightarrow> (int \<times> (int \<times> u32 option) \<times> 'w ipa_ipv6ct) option" where
  "ct_call env (CtAdd u) (_, s) =
     map_option (\<lambda>(ret, out, s'). (ret, (ret, out), s')) (ipa_ipv6ct_add_rule env 1 (Some u) True s)"
| "ct_call env (CtDel h) (_, s) =
     map_option (\<lambda>(ret, s'). (ret, (ret, None), s')) (ipa_ipv6ct_del_rule env 1 h s)"
| "ct_call env (CtQuery h) (_, s) =
     map_option (\<lambda>(ret, out, s'). (ret, (ret, out), s')) (ipa_ipv6ct_query_timestamp env 1 h True s)"

fun ct_request_ok :: "ct_request \<Rightarrow> bool" where
  "ct_request_ok (CtAdd u) = direction_ok u"
| "ct_request_ok (CtDel h) = True"
| "ct_request_ok (CtQuery h) = True"

text \<open>The abstract table: a fixed naming of slots by handles and the rules in the slots.\<close>

type_synonym ct_abs = "(u32 \<Rightarrow> nat option) \<times> (nat \<Rightarrow> ipa_ipv6ct_hw_entry option)"

inductive ct_spec :: "ct_request \<Rightarrow> int \<times> u32 option \<Rightarrow> ct_abs \<Rightarrow> ct_abs \<Rightarrow> bool" where
  spec_added: "f h = Some i \<Longrightarrow> m i = None \<Longrightarrow> ct_spec (CtAdd u) (0, Some h) (f, m) (f, m(i \<mapsto> ct_stored u))"
| spec_add_refused: "ret \<noteq> 0 \<Longrightarrow> ct_spec (CtAdd u) (ret, None) (f, m) (f, m)"
| spec_deleted: "f h = Some i \<Longrightarrow> ct_spec (CtDel h) (0, None) (f, m) (f, m(i := None))"
| spec_del_refused: "ret = - EINVAL \<and> (\<forall>i. f h = Some i \<longrightarrow> m i = None) \<or> ret = - EIO \<Longrightarrow>
    ct_spec (CtDel h) (ret, None) (f, m) (f, m)"
| spec_stamp: "f h = Some i \<Longrightarrow> (\<And>r. m i = Some r \<Longrightarrow> out = Some (ucast (ct_time_stamp r))) \<Longrightarrow>
    ct_spec (CtQuery h) (0, out) (f, m) (f, m)"
| spec_stamp_refused: "f h = None \<Longrightarrow> ct_spec (CtQuery h) (- EINVAL, None) (f, m) (f, m)"

inductive_cases ct_spec_addE: "ct_spec (CtAdd u) r a a'"
inductive_cases ct_spec_delE: "ct_spec (CtDel h) r a a'"

definition ct_abs :: "'w ipa_ipv6ct \<Rightarrow> ct_abs" where
  "ct_abs s = (ct_slot s, ct_rules s)"

definition ct_good :: "('w, 'z) ct_env_scheme \<Rightarrow> bool" where
  "ct_good env \<longleftrightarrow> mutex_ok env \<and> ct_device env"

lemma ct_in_use_rules: "\<not> ct_in_use s i \<Longrightarrow> ct_rules s i = None"
  by (simp add: ct_in_use_def ct_rules_def ct.seen_def ct.live_def)

lemma ct_world_upd [simp]:
  "ct_ok (s\<lparr>ct_world := w\<rparr>) = ct_ok s" "ct_abs (s\<lparr>ct_world := w\<rparr>) = ct_abs s"
  by (simp_all add: ct_ok_def ct_abs_def ct_slot_def ct_rules_def fun_eq_iff)

lemma ct_request_outcome:
  assumes env: "ct_good env" and ok: "ct_ok s" and q: "ct_request_ok q"
  shows "\<exists>ret out s'. ct_call env q (r0, s) = Some (ret, (ret, out), s') \<and> ct_ok s' \<and>
    ct_spec q (ret, out) (ct_abs s) (ct_abs s')"
proof (cases q)
  case (CtAdd u)
  obtain ret out s' where o: "ipa_ipv6ct_add_rule env 1 (Some u) True s = Some (ret, out, s')" "ct_ok s'"
      "ct_slot s' = ct_slot s"
      "if ret = 0 then (\<exists>h i. out = Some h \<and> ct_slot s h = Some i \<and> \<not> ct_in_use s i \<and> ct_rules s' = (ct_rules s)(i \<mapsto> ct_stored u))
       else out = None \<and> ct_rules s' = ct_rules s"
    using ct_add_outcome [OF ok, of env u] env q CtAdd by (auto simp: ct_good_def split: if_splits)
  have "ct_spec q (ret, out) (ct_abs s) (ct_abs s')"
    using o(3,4) unfolding CtAdd ct_abs_def
    by (cases "ret = 0") (auto simp: ct_in_use_rules intro: spec_add_refused intro!: spec_added)
  then show ?thesis using o(1,2) CtAdd by simp
next
  case (CtDel h)
  obtain ret s' where o: "ipa_ipv6ct_del_rule env 1 h s = Some (ret, s')" "ct_ok s'" "ct_slot s' = ct_slot s"
      "case ct_slot s h of None \<Rightarrow> ret = - EINVAL \<and> ct_rules s' = ct_rules s
       | Some i \<Rightarrow> if ret = 0 then ct_in_use s i \<and> ct_rules s' = (ct_rules s)(i := None)
                  else ct_rules s' = ct_rules s \<and> ret = (if ct_in_use s i then - EIO else - EINVAL)"
    using ct_del_outcome [OF ok, of env h] env by (auto simp: ct_good_def)
  have "ct_spec q (ret, None) (ct_abs s) (ct_abs s')"
    using o(3,4) unfolding CtDel ct_abs_def
    by (auto simp: ct_in_use_rules intro!: spec_deleted spec_del_refused split: option.splits if_splits)
  then show ?thesis using o(1,2) CtDel by simp
next
  case (CtQuery h)
  obtain ret out w where o: "ipa_ipv6ct_query_timestamp env 1 h True s = Some (ret, out, s\<lparr>ct_world := w\<rparr>)"
      "case ct_slot s h of None \<Rightarrow> ret = - EINVAL \<and> out = None
       | Some i \<Rightarrow> ret = 0 \<and> (\<forall>r. ct_rules s i = Some r \<longrightarrow> out = Some (ucast (ct_time_stamp r)))"
    using ct_query_outcome [OF ok, of env h] env by (auto simp: ct_good_def)
  have "ct_spec q (ret, out) (ct_abs s) (ct_abs s)"
    using o(2) unfolding CtQuery ct_abs_def by (auto intro: spec_stamp spec_stamp_refused split: option.splits)
  then show ?thesis using o(1) CtQuery ok by (intro exI [of _ ret] exI [of _ out] exI [of _ "s\<lparr>ct_world := w\<rparr>"]) simp
qed

interpretation tracking: service ct_good "\<lambda>s. ct_ok (snd s)" ct_request_ok ct_call "\<lambda>s. ct_abs (snd s)" fst
  "\<lambda>_ _ _. True" ct_spec
proof unfold_locales
  fix env :: "('w, 'z) ct_env_scheme" and s :: "(int \<times> u32 option) \<times> 'w ipa_ipv6ct" and q
  assume a: "ct_good env" "ct_ok (snd s)" "ct_request_ok q"
  obtain ret out s' where o: "ct_call env q s = Some (ret, (ret, out), s')" "ct_ok s'"
      "ct_spec q (ret, out) (ct_abs (snd s)) (ct_abs s')"
    using ct_request_outcome [OF a, of "fst s"] by auto
  then show "\<exists>ret s'. ct_call env q s = Some (ret, s') \<and> ct_ok (snd s')" by auto
  show "ct_spec q (fst s1) (ct_abs (snd s)) (ct_abs (snd s1))" if "ct_call env q s = Some (r, s1)" for r s1
    using that o by auto
qed

section \<open>Properties\<close>


text \<open>C30: \<^verbatim>\<open>ipa_ipv6ct_add_rule\<close> on a well-formed state, for a rule with one of the four directions, always returns.  Status 0:
  one slot that was free holds the rule of the client, enabled, with the direction bits, and the returned
  handle names it.  Otherwise the rules are unchanged and the status tells the cause: the reserved protocol, a
  chain that needs an expansion record when none is free, or a failed command.\<close>

theorem ipv6ct_add_rule_correct:
  assumes "ct_ok s" "ct_device env" "mutex_ok env" "direction_ok u"
  shows "\<exists>ret out s'. ipa_ipv6ct_add_rule env 1 (Some u) True s = Some (ret, out, s') \<and> ct_ok s' \<and> ct_slot s' = ct_slot s \<and>
    (if ret = 0
     then r_protocol u \<noteq> IPA_IPV6CT_INVALID_PROTO_FIELD_CMP \<and> \<not> ct_full (ct_table_of s) u \<and>
          (\<exists>h i. out = Some h \<and> ct_slot s h = Some i \<and> \<not> ct_in_use s i \<and> ct_rules s' = (ct_rules s)(i \<mapsto> ct_stored u))
     else out = None \<and> ct_rules s' = ct_rules s \<and>
          ret = (if r_protocol u = IPA_IPV6CT_INVALID_PROTO_FIELD_CMP then - EINVAL
                 else if ct_full (ct_table_of s) u then - 1 else - EIO))"
  using ct_add_outcome [OF assms] .

text \<open>\<^verbatim>\<open>ipa_ipv6ct_del_rule\<close> on a well-formed state always returns.  Status 0: the slot of the handle was in use and
  exactly its rule is gone.  A handle that names no slot, or a slot that is not in use, gives \<^verbatim>\<open>-EINVAL\<close>, a failed
  command \<^verbatim>\<open>-EIO\<close>, and both leave the rules unchanged.\<close>

theorem ipv6ct_del_rule_correct:
  assumes "ct_ok s" "ct_device env" "mutex_ok env"
  shows "\<exists>ret s'. ipa_ipv6ct_del_rule env 1 h s = Some (ret, s') \<and> ct_ok s' \<and> ct_slot s' = ct_slot s \<and>
    (case ct_slot s h of
       None \<Rightarrow> ret = - EINVAL \<and> ct_rules s' = ct_rules s
     | Some i \<Rightarrow> if ret = 0 then ct_in_use s i \<and> ct_rules s' = (ct_rules s)(i := None)
                else ct_rules s' = ct_rules s \<and> ret = (if ct_in_use s i then - EIO else - EINVAL))"
  using ct_del_outcome [OF assms] .

text \<open>\<^verbatim>\<open>ipa_ipv6ct_add_tbl\<close> without a table either makes a well-formed empty table of at least the requested size less
  one and returns handle 1, or returns an error and handle 0 and leaves neither table nor descriptor.\<close>

theorem ipv6ct_add_tbl_correct:
  assumes "alloc_at_base env" "ct_table_cnt s = 0" "\<not> md_valid (ct_mem_desc (ct_tables s))" "n \<noteq> 0"
  shows "\<exists>ret s'. ipa_ipv6ct_add_tbl env n True s = Some (ret, Some (if ret = 0 then 1 else 0), s') \<and>
    (if ret = 0 then ct_ok s' \<and> ct_rules s' = Map.empty \<and> unat n \<le> n_recs (ct_table_of s') + 1 else ct_none s')"
  using ct_add_tbl_outcome [OF assms] .

text \<open>\<^verbatim>\<open>ipa_ipv6ct_del_tbl\<close> removes the table.  When the delete ioctl succeeds there is no descriptor any more, and every
  operation but \<^verbatim>\<open>ipa_ipv6ct_add_tbl\<close>, a second deletion included, then follows the NULL \<^verbatim>\<open>ipa_desc\<close>.  When the ioctl fails
  the table is erased but counted: from then on both a deletion and a new table are refused.\<close>

theorem ipv6ct_del_tbl_outcome:
  assumes "ct_ok s" "mutex_ok env"
  shows "\<exists>ret s'. ipa_ipv6ct_del_tbl env 1 s = Some (ret, s') \<and>
    (if ret = 0
     then ct_none s' \<and> (\<forall>env :: ('w, 'y) ct_env_scheme. \<forall>th h u p.
       ipa_ipv6ct_del_tbl env th s' = None \<and> ipa_ipv6ct_add_rule env th u p s' = None \<and>
       ipa_ipv6ct_del_rule env th h s' = None \<and> ipa_ipv6ct_query_timestamp env th h p s' = None \<and>
       ipa_ipv6ct_add_uc_act_entry env bs s' = None \<and> ipa_ipv6ct_del_uc_act_entry env ix s' = None)
     else (\<exists>s''. ipa_ipv6ct_del_tbl env 1 s' = Some (- EINVAL, s'')) \<and>
       ipa_ipv6ct_add_tbl env n True s' = Some (- EINVAL, if n = 0 then None else Some 0, s'))"
proof -
  obtain ret s' where d: "ipa_ipv6ct_del_tbl env 1 s = Some (ret, s')"
      "if ret = 0 then ct_none s' else ct_table_cnt s' = 1 \<and> ct_ipa_desc s' = ct_ipa_desc s \<and> ct_tables s' = ct_table_zero"
    using ct_del_tbl_outcome [OF assms] by blast
  obtain desc ch where s: "ct_ipa_desc s = Some desc" "\<not> desc_ver desc < IPA_HW_v4_0" using ct_okD [OF assms(1)] by metis
  show ?thesis
  proof (cases "ret = 0")
    case True
    then have "ct_ipa_desc s' = None" using d(2) by (simp add: ct_none_def)
    then show ?thesis using d True
      by (simp add: ipa_ipv6ct_del_tbl_def ipa_ipv6ct_add_rule_def ipa_ipv6ct_del_rule_def ipa_ipv6ct_query_timestamp_def
          ipa_ipv6ct_add_uc_act_entry_def ipa_ipv6ct_del_uc_act_entry_def)
  next
    case False
    then have "\<exists>s''. ipa_ipv6ct_del_tbl env 1 s' = Some (- EINVAL, s'')"
      using d(2) s by (simp add: ipa_ipv6ct_del_tbl_def ct_lock_ok [OF assms(2)] ct_unlock_ret_ok [OF assms(2)] ct_handle_1)
    moreover have "ipa_ipv6ct_add_tbl env n True s' = Some (- EINVAL, if n = 0 then None else Some 0, s')"
      using False d(2) by (simp add: ipa_ipv6ct_add_tbl_def IPA_IPV6CT_MAX_TBLS_def)
    ultimately show ?thesis using d(1) False by simp
  qed
qed

section \<open>A concrete table\<close>

definition ct_demo_env :: "unit ct_env" where
  "ct_demo_env =
     \<lparr>env_mutex_lock = (\<lambda>w. (0, w)), env_mutex_unlock = (\<lambda>w. (0, w)), env_calloc = (\<lambda>n w. (True, w)),
      env_open = (\<lambda>s w. (3, w)), env_close = (\<lambda>fd w. (0, w)), env_get_hw_version = (\<lambda>fd w. (0, 14, w)),
      env_mmap = (\<lambda>sz fd w. (Some 4096, w)), env_munmap = (\<lambda>a sz w. w),
      env_get_sram_info = (\<lambda>fd w. (- 1, sram_info_zero, w)),
      env_alloc_table = (\<lambda>io fd sz w. (0, 0, w)), env_del_table = (\<lambda>io fd i m w. (0, w)),
      env_ct_init = (\<lambda>fd c w. (0, w)),
      env_ct_dma = (\<lambda>fd cmd t w. (0, dma_run ct_put IPA_IPV6CT_BASE_TBL IPA_IPV6CT_EXPN_TBL (cmd_dma cmd) t, w)),
      env_add_uc_act = (\<lambda>fd u w. (0, u, w)), env_del_uc_act = (\<lambda>fd i w. (0, w))\<rparr>"

definition ct_demo_t :: "ipa_ipv6ct_hw_entry ipa_table" where
  "ct_demo_t = (ipa_table_init ''ct'' IPA_NAT_MEM_IN_DDR 64 None 0)
     \<lparr>table_entries := 2, expn_table_entries := 2, tot_tbl_ents := 4\<rparr>"

definition ct_demo_state :: "unit ipa_ipv6ct" where
  "ct_demo_state =
     \<lparr>ct_ipa_desc = Some \<lparr>desc_fd = 3, desc_ver = 14\<rparr>,
      ct_tables = \<lparr>ct_mem_desc = mem_desc_zero\<lparr>md_valid := True, base_addr := Some 4096\<rparr>,
        ct_table = with_helpers 0 IPA_IPV6CT_BASE_TBL IPA_IPV6CT_EXPN_TBL ct_off
          (ipa_table_reset ct_ei (snd (ipa_table_calculate_addresses ct_demo_t 4096)))\<rparr>,
      ct_table_cnt = 1, ct_world = ()\<rparr>"

definition ct_demo_rule :: ipa_ipv6ct_rule where
  "ct_demo_rule = \<lparr>r_src_ipv6_lsb = 1, r_src_ipv6_msb = 0x20010DB800000000, r_dest_ipv6_lsb = 2,
     r_dest_ipv6_msb = 0x20010DB800000001, r_direction_settings = 3, r_ucp = False, r_s = False, r_uc_activation_index = 0,
     r_src_port = 4000, r_dest_port = 443, r_protocol = 6\<rparr>"

lemma ct_demo_env_ok: "mutex_ok ct_demo_env" "ct_device ct_demo_env" "alloc_at_base ct_demo_env"
  by (simp_all add: mutex_ok_def ct_device_def alloc_at_base_def ct_demo_env_def)

lemma ct_demo_rule_ok: "direction_ok ct_demo_rule" "r_protocol ct_demo_rule \<noteq> IPA_IPV6CT_INVALID_PROTO_FIELD_CMP"
  by (simp_all add: direction_ok_def ct_demo_rule_def IPA_IPV6CT_INVALID_PROTO_FIELD_CMP_def)

lemma ct_demo_fresh: "ct_inv (ct_table_of ct_demo_state) no_chains" "ct.seen (ct_table_of ct_demo_state) = Map.empty"
proof -
  let ?t = "ct_table_of ct_demo_state"
  have t: "?t = with_helpers 0 IPA_IPV6CT_BASE_TBL IPA_IPV6CT_EXPN_TBL ct_off
      (ipa_table_reset ct_ei (snd (ipa_table_calculate_addresses ct_demo_t 4096)))" by (simp add: ct_demo_state_def)
  have f: "table_entries ct_demo_t = 2" "expn_table_entries ct_demo_t = 2" "tot_tbl_ents ct_demo_t = 4" "entry_size ct_demo_t = 64"
      "tbl_nmi ct_demo_t = IPA_NAT_MEM_IN_DDR" "meta ct_demo_t = None" "cur_tbl_cnt ct_demo_t = 0" "cur_expn_tbl_cnt ct_demo_t = 0"
    by (simp_all add: ct_demo_t_def ipa_table_init_def)
  have z: "entry_zero ct_ei = ct_entry_zero" by (simp add: ct_entry_interface_def)
  note g = created_geom [OF t, unfolded f z, OF _ _ _ _ _ _ _ _ ct_off_in_record, simplified]
  show "ct_inv ?t no_chains" "ct.seen ?t = Map.empty"
    by (rule ct_fresh [OF g(1) g(5), of 1]; use g in simp)+
qed

lemma ct_demo_ok: "ct_ok ct_demo_state"
  using ct_demo_fresh(1) by (auto simp: ct_ok_def ct_demo_state_def IPA_HW_v4_0_def)

lemma ct_demo_not_full: "\<not> ct_full (ct_table_of ct_demo_state) ct_demo_rule"
proof -
  have "\<not> vdT ct_ei (ct_table_of ct_demo_state) i" for i
    using ct.zero_invalid
    by (auto simp: vdT_def ct_demo_state_def with_helpers_def ipa_table_reset_def ipa_table_calculate_addresses_def
        ct_demo_t_def ipa_table_init_def nth_append nth_Cons' numeral_2_eq_2)
  then show ?thesis by (simp add: ct_full_def)
qed


theorem ipv6ct_add_rule_correct_witness:
  "\<exists>ret out s'. ipa_ipv6ct_add_rule ct_demo_env 1 (Some ct_demo_rule) True ct_demo_state = Some (ret, out, s') \<and> ct_ok s' \<and>
     (ret = 0 \<or> ret = - EIO)"
  using ipv6ct_add_rule_correct [OF ct_demo_ok ct_demo_env_ok(2,1) ct_demo_rule_ok(1)] ct_demo_rule_ok(2) ct_demo_not_full
  by (auto split: if_splits)

theorem ipv6ct_del_rule_correct_witness:
  "\<exists>s'. ipa_ipv6ct_del_rule ct_demo_env 1 0 ct_demo_state = Some (- EINVAL, s') \<and> ct_ok s' \<and> ct_rules s' = ct_rules ct_demo_state"
  using ipv6ct_del_rule_correct [OF ct_demo_ok ct_demo_env_ok(2,1), of 0]
  by (auto simp: ct_slot_def split: prod.splits)

theorem ipv6ct_add_tbl_correct_witness:
  "\<exists>ret s'. ipa_ipv6ct_add_tbl ct_demo_env 100 True
       \<lparr>ct_ipa_desc = None, ct_tables = ct_table_zero, ct_table_cnt = 0, ct_world = ()\<rparr> =
     Some (ret, Some (if ret = 0 then 1 else 0), s')"
  using ipv6ct_add_tbl_correct [OF ct_demo_env_ok(3),
      of "\<lparr>ct_ipa_desc = None, ct_tables = ct_table_zero, ct_table_cnt = 0, ct_world = ()\<rparr>" 100] by auto

theorem ipv6ct_del_tbl_outcome_witness:
  "\<exists>ret s'. ipa_ipv6ct_del_tbl ct_demo_env 1 ct_demo_state = Some (ret, s') \<and>
     (if ret = 0 then ct_none s' \<and> ipa_ipv6ct_del_tbl ct_demo_env 1 s' = None
      else ipa_ipv6ct_add_tbl ct_demo_env 8 True s' = Some (- EINVAL, Some 0, s'))"
proof -
  obtain ret s' where "ipa_ipv6ct_del_tbl ct_demo_env 1 ct_demo_state = Some (ret, s')"
      "if ret = 0 then ct_none s' \<and> (\<forall>env :: unit ct_env. \<forall>th h u p. ipa_ipv6ct_del_tbl env th s' = None \<and>
         ipa_ipv6ct_add_rule env th u p s' = None \<and> ipa_ipv6ct_del_rule env th h s' = None \<and>
         ipa_ipv6ct_query_timestamp env th h p s' = None \<and> ipa_ipv6ct_add_uc_act_entry env [] s' = None \<and>
         ipa_ipv6ct_del_uc_act_entry env 0 s' = None)
       else (\<exists>s''. ipa_ipv6ct_del_tbl ct_demo_env 1 s' = Some (- EINVAL, s'')) \<and>
         ipa_ipv6ct_add_tbl ct_demo_env 8 True s' = Some (- EINVAL, if (8 :: u16) = 0 then None else Some 0, s')"
    using ipv6ct_del_tbl_outcome [OF ct_demo_ok ct_demo_env_ok(1), where n = 8 and bs = "[]" and ix = 0] by blast
  then show ?thesis by (intro exI [of _ ret] exI [of _ s']) (auto split: if_splits)
qed

end
