(* ===== verification/Ipa_Bitfields.thy ===== *)
theory Ipa_Bitfields
  imports Ipa_Prelude
begin

text \<open>
  C bit-field structures as numbers.  A structure is the list of its field widths, in the order of their
  declaration; its memory, read little-endian, is one natural number.  The hardware structures of the driver fill
  their storage units exactly, so a field starts where the one before it ends.
\<close>

fun pack :: "(nat \<times> nat) list \<Rightarrow> nat" where
  "pack [] = 0"
| "pack ((w, v) # fs) = v mod 2 ^ w + 2 ^ w * pack fs"

fun unpack :: "nat list \<Rightarrow> nat \<Rightarrow> nat list" where
  "unpack [] n = []"
| "unpack (w # ws) n = n mod 2 ^ w # unpack ws (n div 2 ^ w)"

text \<open>A structure with the names of its fields: its size, the value of a field, and the memory a list of values,
  one per field, makes.\<close>

type_synonym c_struct = "(string \<times> nat) list"

definition struct_bytes :: "c_struct \<Rightarrow> nat" where
  "struct_bytes st = sum_list (map snd st) div 8"

fun get_field :: "c_struct \<Rightarrow> nat \<Rightarrow> string \<Rightarrow> nat" where
  "get_field [] n f = 0"
| "get_field ((g, w) # fs) n f = (if g = f then n mod 2 ^ w else get_field fs (n div 2 ^ w) f)"

definition pack_struct :: "c_struct \<Rightarrow> nat list \<Rightarrow> nat" where
  "pack_struct st vs = pack (zip (map snd st) vs)"

text \<open>The memory of a structure given as halfwords.\<close>

definition halves_num :: "u16 list \<Rightarrow> nat" where
  "halves_num hs = pack (map (\<lambda>h. (16, unat h)) hs)"

lemma unpack_pack: "unpack (map fst fs) (pack fs) = map (\<lambda>(w, v). v mod 2 ^ w) fs"
  by (induction fs rule: pack.induct) simp_all

lemma pack_unpack: "pack (zip ws (unpack ws n)) = n mod 2 ^ sum_list ws"
proof (induction ws arbitrary: n)
  case (Cons w ws)
  show ?case by (simp add: Cons.IH power_add mod_mult2_eq)
qed simp

lemma unpack_pack_struct:
  "length vs = length st \<Longrightarrow> unpack (map snd st) (pack_struct st vs) = map (\<lambda>(w, v). v mod 2 ^ w) (zip (map snd st) vs)"
  using unpack_pack [of "zip (map snd st) vs"] by (simp add: pack_struct_def)

lemma get_field_unpack:
  "get_field st n f = (case map_of (zip (map fst st) (unpack (map snd st) n)) f of None \<Rightarrow> 0 | Some v \<Rightarrow> v)"
  by (induction st arbitrary: n) auto

lemma pack_less: "pack fs < 2 ^ sum_list (map fst fs)"
proof (induction fs rule: pack.induct)
  case (2 w v fs)
  have "v mod 2 ^ w + 2 ^ w * pack fs < 2 ^ w + 2 ^ w * pack fs" by simp
  also have "\<dots> = 2 ^ w * Suc (pack fs)" by simp
  also have "\<dots> \<le> 2 ^ w * 2 ^ sum_list (map fst fs)"
    using 2 by (intro mult_left_mono) simp_all
  finally show ?case by (simp add: power_add)
qed simp

lemma unpack_append: "n < 2 ^ sum_list ws \<Longrightarrow> unpack (ws @ vs) (n + 2 ^ sum_list ws * m) = unpack ws n @ unpack vs m"
proof (induction ws arbitrary: n)
  case (Cons w ws)
  have p: "n + 2 ^ sum_list (w # ws) * m = n + 2 ^ w * (2 ^ sum_list ws * m)"
    by (simp add: power_add)
  have "n div 2 ^ w < 2 ^ sum_list ws"
    using Cons.prems by (simp add: less_mult_imp_div_less power_add mult.commute)
  then show ?case
    unfolding p using Cons.IH [of "n div 2 ^ w"] by (simp add: add.commute)
qed simp

lemma halves_num_simps [simp]:
  "halves_num [] = 0" "halves_num (h # hs) = unat h + 65536 * halves_num hs"
  using unat_u16_less [of h] by (simp_all add: halves_num_def)

lemma halves_num_zero: "halves_num hs = 0 \<longleftrightarrow> (\<forall>h \<in> set hs. h = 0)"
  by (induction hs) (auto simp: unat_eq_0)

text \<open>One halfword, or two, hold whole fields.\<close>

lemma unpack_half:
  "sum_list ws = 16 \<Longrightarrow> unpack (ws @ vs) (unat (h :: u16) + 65536 * m) = unpack ws (unat h) @ unpack vs m"
  using unpack_append [of "unat h" ws vs m] unat_u16_less [of h] by simp

lemma unpack_word:
  assumes "sum_list ws = 32"
  shows "unpack (ws @ vs) (unat (l :: u16) + 65536 * (unat (h :: u16) + 65536 * m)) = unpack ws (unat l + 65536 * unat h) @ unpack vs m"
proof -
  have "unat l + 65536 * unat h < 2 ^ 32" using unat_u16_less [of l] unat_u16_less [of h] by simp
  then show ?thesis using unpack_append [of "unat l + 65536 * unat h" ws vs m] assms by (simp add: algebra_simps)
qed

lemma unat_join:
  fixes l h :: u16
  assumes "16 \<le> LENGTH('a::len)"
  shows "unat (ucast l OR push_bit 16 (ucast h) :: 'a word) = (unat l + 65536 * unat h) mod 2 ^ LENGTH('a)"
proof -
  have "ucast l OR push_bit 16 (ucast h) = (ucast l + push_bit 16 (ucast h) :: 'a word)"
    by (rule disjunctive_add [symmetric]) (auto simp: bit_simps dest: bit_imp_le_length)
  also have "\<dots> = of_nat (unat l + 65536 * unat h)"
    by (simp add: push_bit_eq_mult)
  finally show ?thesis by (simp only: unat_of_nat take_bit_eq_mod)
qed

lemma unat_ucast_mod: "unat (ucast (h :: u16) :: 'a::len word) = unat h mod 2 ^ LENGTH('a)"
  by (simp add: unsigned_ucast_eq take_bit_eq_mod)

lemma unat_bit: "of_bool (bit (h :: u16) n) = unat h div 2 ^ n mod 2"
proof -
  have "bit h n \<longleftrightarrow> odd (unat h div 2 ^ n)" 
    using bit_unsigned_iff [of h n, where ?'a = nat] by (auto simp: bit_iff_odd [of "unat h"] dest: bit_imp_le_length)
  then show ?thesis by (simp add: mod_2_eq_odd)
qed

lemma unat_drop: "unat (drop_bit k (h :: u16)) = unat h div 2 ^ k"
  by (simp only: unat_drop_bit_eq) (simp add: drop_bit_eq_div)

lemma unat_ucast_drop: "unat (ucast (drop_bit k (h :: u16)) :: 'a::len word) = unat h div 2 ^ k mod 2 ^ LENGTH('a)"
  by (simp only: unat_ucast_mod unat_drop)

lemma div_join: "(unat (l :: u16) + 65536 * n) div (65536 * m) = n div m"
proof -
  have "(unat l + 65536 * n) div 65536 = n" using unat_u16_less [of l] by simp
  then show ?thesis by (simp add: div_mult2_eq)
qed

end
