(* ===== verification/Ipahal.thy ===== *)
theory Ipahal
  imports Ipa_Bitfields Nat_Rules Ipv6ct
begin

text \<open>
  The hardware abstraction layer the NAT driver of the kernel uses: the entry types of
  \<^verbatim>\<open>ipahal/ipahal_nat.c\<close> (with the layouts of \<^verbatim>\<open>ipahal_nat_i.h\<close>) and the immediate commands of \<^verbatim>\<open>ipahal/ipahal.c\<close>
  that initialise a table, write into it, copy the PDN table and write a register (with the layouts of \<^verbatim>\<open>ipahal_i.h\<close>).

  Both parts choose a callback by hardware version from a table in which a missing version inherits the one before
  it.  The memory of an entry or of a command is a number (\<open>Ipa_Bitfields\<close>).  A callback of the table is an option,
  NULL is \<open>None\<close>; calling NULL makes the operation \<open>None\<close>.  Stringification only formats, its callback is a tag.
\<close>

section \<open>Versions\<close>

definition IPA_HW_v3_0 :: nat where "IPA_HW_v3_0 = 10"
definition IPA_HW_v4_1 :: nat where "IPA_HW_v4_1 = 15"
definition IPA_HW_v4_5 :: nat where "IPA_HW_v4_5 = 17"
definition IPA_HW_v5_0 :: nat where "IPA_HW_v5_0 = 21"
definition IPA_HW_MAX :: nat where "IPA_HW_MAX = 26"

text \<open>The loops of \<^verbatim>\<open>ipahal_nat_init\<close> and \<^verbatim>\<open>ipahal_imm_cmd_init\<close>: for each version and each column an entry that is
  all zero is overwritten with the entry of the version before.\<close>

definition fill_version :: "('o \<Rightarrow> bool) \<Rightarrow> 'j list \<Rightarrow> nat \<Rightarrow> (nat \<Rightarrow> 'j \<Rightarrow> 'o) \<Rightarrow> (nat \<Rightarrow> 'j \<Rightarrow> 'o)" where
  "fill_version is_zero js i objs =
     fold (\<lambda>j objs. if is_zero (objs (i + 1) j) then objs(i + 1 := (objs (i + 1))(j := objs i j)) else objs) js objs"

definition fill_versions :: "('o \<Rightarrow> bool) \<Rightarrow> 'j list \<Rightarrow> nat \<Rightarrow> (nat \<Rightarrow> 'j \<Rightarrow> 'o) \<Rightarrow> (nat \<Rightarrow> 'j \<Rightarrow> 'o)" where
  "fill_versions is_zero js hw_type objs = fold (fill_version is_zero js) [IPA_HW_v3_0..<hw_type] objs"

section \<open>NAT and connection tracking entries\<close>

datatype ipahal_nat_type = IPAHAL_NAT_IPV4 | IPAHAL_NAT_IPV4_INDEX | IPAHAL_NAT_IPV4_PDN | IPAHAL_NAT_IPV6CT | IPA_NAT_MAX

record ipahal_nat_pdn_entry =
  hal_public_ip :: u32
  hal_src_metadata :: u32
  hal_dst_metadata :: u32

definition ipa_nat_hw_ipv4_entry :: c_struct where
  "ipa_nat_hw_ipv4_entry =
     [(''private_ip'', 32), (''target_ip'', 32), (''next_index'', 16), (''public_port'', 16), (''private_port'', 16),
      (''target_port'', 16), (''ip_chksum'', 16), (''uc_activation_index'', 13), (''s'', 1), (''redirect'', 1),
      (''enable'', 1), (''time_stamp'', 24), (''protocol'', 8), (''prev_index'', 16), (''indx_tbl_entry'', 16),
      (''rsvd2'', 11), (''ucp'', 1), (''pdn_index'', 4), (''tcp_udp_chksum'', 16)]"

definition ipa_nat_hw_indx_entry :: c_struct where
  "ipa_nat_hw_indx_entry = [(''tbl_entry'', 16), (''next_index'', 16)]"

definition ipa_nat_hw_pdn_entry :: c_struct where
  "ipa_nat_hw_pdn_entry = [(''public_ip'', 32), (''src_metadata'', 32), (''dst_metadata'', 32), (''resrvd'', 32)]"

definition ipa_nat_hw_ipv6ct_entry :: c_struct where
  "ipa_nat_hw_ipv6ct_entry =
     [(''src_ipv6_lsb'', 64), (''src_ipv6_msb'', 64), (''dest_ipv6_lsb'', 64), (''dest_ipv6_msb'', 64),
      (''uc_activation_index'', 13), (''s'', 1), (''rsvd1'', 16), (''redirect'', 1), (''enable'', 1),
      (''time_stamp'', 24), (''protocol'', 8), (''next_index'', 16), (''dest_port'', 16), (''src_port'', 16),
      (''ucp'', 1), (''rsvd2'', 5), (''out_allowed'', 1), (''in_allowed'', 1), (''rsvd3'', 8), (''rsvd4'', 48),
      (''prev_index'', 16), (''rsvd5'', 64)]"

definition ipa_nat_is_entry_zeroed :: "nat \<Rightarrow> bool" where
  "ipa_nat_is_entry_zeroed entry \<longleftrightarrow> entry = 0"

definition ipa_nat_ipv4_is_entry_valid_v_3_0 :: "nat \<Rightarrow> bool" where
  "ipa_nat_ipv4_is_entry_valid_v_3_0 entry \<longleftrightarrow>
     get_field ipa_nat_hw_ipv4_entry entry ''enable'' \<noteq> 0 \<and>
     get_field ipa_nat_hw_ipv4_entry entry ''protocol'' \<noteq> unat IPAHAL_NAT_INVALID_PROTOCOL"

definition ipa_nat_ipv4_is_index_entry_valid_v_3_0 :: "nat \<Rightarrow> bool" where
  "ipa_nat_ipv4_is_index_entry_valid_v_3_0 entry \<longleftrightarrow> get_field ipa_nat_hw_indx_entry entry ''tbl_entry'' \<noteq> 0"

definition ipa_nat_ipv4_is_pdn_entry_valid_v_4_0 :: "nat \<Rightarrow> bool" where
  "ipa_nat_ipv4_is_pdn_entry_valid_v_4_0 entry \<longleftrightarrow> get_field ipa_nat_hw_pdn_entry entry ''public_ip'' \<noteq> 0"

definition ipa_nat_ipv6ct_is_entry_valid_v_4_0 :: "nat \<Rightarrow> bool" where
  "ipa_nat_ipv6ct_is_entry_valid_v_4_0 entry \<longleftrightarrow>
     get_field ipa_nat_hw_ipv6ct_entry entry ''enable'' \<noteq> 0 \<and>
     get_field ipa_nat_hw_ipv6ct_entry entry ''protocol'' \<noteq> unat IPAHAL_NAT_INVALID_PROTOCOL"

definition ipa_nat_ipv4_pdn_construct_entry_v_4_0 :: "ipahal_nat_pdn_entry \<Rightarrow> nat" where
  "ipa_nat_ipv4_pdn_construct_entry_v_4_0 flds =
     pack_struct ipa_nat_hw_pdn_entry
       [unat (hal_public_ip flds), unat (hal_src_metadata flds), unat (hal_dst_metadata flds), 0]"

definition ipa_nat_ipv4_pdn_parse_entry_v_4_0 :: "nat \<Rightarrow> ipahal_nat_pdn_entry" where
  "ipa_nat_ipv4_pdn_parse_entry_v_4_0 address =
     \<lparr>hal_public_ip = of_nat (get_field ipa_nat_hw_pdn_entry address ''public_ip''),
      hal_src_metadata = of_nat (get_field ipa_nat_hw_pdn_entry address ''src_metadata''),
      hal_dst_metadata = of_nat (get_field ipa_nat_hw_pdn_entry address ''dst_metadata'')\<rparr>"

datatype nat_stringify_cb =
    Stringify_v_3_0 | Stringify_v_4_0 | Stringify_v_4_5 | Stringify_index_v_3_0 | Stringify_pdn_v_4_0
  | Stringify_ipv6ct_v_4_0 | Stringify_ipv6ct_v_4_5

record ipahal_nat_obj =
  nobj_entry_size :: "nat option"
  nobj_is_entry_zeroed :: "(nat \<Rightarrow> bool) option"
  nobj_is_entry_valid :: "(nat \<Rightarrow> bool) option"
  nobj_stringify_entry :: "nat_stringify_cb option"
  nobj_construct_entry :: "(ipahal_nat_pdn_entry \<Rightarrow> nat) option"
  nobj_parse_entry :: "(nat \<Rightarrow> ipahal_nat_pdn_entry) option"

definition nat_zero_obj :: ipahal_nat_obj where
  "nat_zero_obj = \<lparr>nobj_entry_size = None, nobj_is_entry_zeroed = None, nobj_is_entry_valid = None,
     nobj_stringify_entry = None, nobj_construct_entry = None, nobj_parse_entry = None\<rparr>"

definition nat_obj_is_zero :: "ipahal_nat_obj \<Rightarrow> bool" where
  "nat_obj_is_zero obj \<longleftrightarrow>
     Option.is_none (nobj_entry_size obj) \<and> Option.is_none (nobj_is_entry_zeroed obj) \<and>
     Option.is_none (nobj_is_entry_valid obj) \<and> Option.is_none (nobj_stringify_entry obj) \<and>
     Option.is_none (nobj_construct_entry obj) \<and> Option.is_none (nobj_parse_entry obj)"

text \<open>An initialiser of \<^verbatim>\<open>ipahal_nat_objs\<close> with four members; the remaining two are NULL.\<close>

definition nat_obj4 :: "c_struct \<Rightarrow> (nat \<Rightarrow> bool) \<Rightarrow> nat_stringify_cb \<Rightarrow> ipahal_nat_obj" where
  "nat_obj4 st valid str =
     nat_zero_obj\<lparr>nobj_entry_size := Some (struct_bytes st), nobj_is_entry_zeroed := Some ipa_nat_is_entry_zeroed,
       nobj_is_entry_valid := Some valid, nobj_stringify_entry := Some str\<rparr>"

definition ipahal_nat_objs :: "nat \<Rightarrow> ipahal_nat_type \<Rightarrow> ipahal_nat_obj" where
  "ipahal_nat_objs ver ty =
     (case ty of
        IPAHAL_NAT_IPV4 \<Rightarrow>
          if ver = IPA_HW_v3_0 then nat_obj4 ipa_nat_hw_ipv4_entry ipa_nat_ipv4_is_entry_valid_v_3_0 Stringify_v_3_0
          else if ver = IPA_HW_v4_0 then nat_obj4 ipa_nat_hw_ipv4_entry ipa_nat_ipv4_is_entry_valid_v_3_0 Stringify_v_4_0
          else if ver = IPA_HW_v4_5 then nat_obj4 ipa_nat_hw_ipv4_entry ipa_nat_ipv4_is_entry_valid_v_3_0 Stringify_v_4_5
          else nat_zero_obj
      | IPAHAL_NAT_IPV4_INDEX \<Rightarrow>
          if ver = IPA_HW_v3_0
          then nat_obj4 ipa_nat_hw_indx_entry ipa_nat_ipv4_is_index_entry_valid_v_3_0 Stringify_index_v_3_0
          else nat_zero_obj
      | IPAHAL_NAT_IPV4_PDN \<Rightarrow>
          if ver = IPA_HW_v4_0
          then (nat_obj4 ipa_nat_hw_pdn_entry ipa_nat_ipv4_is_pdn_entry_valid_v_4_0 Stringify_pdn_v_4_0)
                 \<lparr>nobj_construct_entry := Some ipa_nat_ipv4_pdn_construct_entry_v_4_0,
                  nobj_parse_entry := Some ipa_nat_ipv4_pdn_parse_entry_v_4_0\<rparr>
          else nat_zero_obj
      | IPAHAL_NAT_IPV6CT \<Rightarrow>
          if ver = IPA_HW_v4_0
          then nat_obj4 ipa_nat_hw_ipv6ct_entry ipa_nat_ipv6ct_is_entry_valid_v_4_0 Stringify_ipv6ct_v_4_0
          else if ver = IPA_HW_v4_5
          then nat_obj4 ipa_nat_hw_ipv6ct_entry ipa_nat_ipv6ct_is_entry_valid_v_4_0 Stringify_ipv6ct_v_4_5
          else nat_zero_obj
      | IPA_NAT_MAX \<Rightarrow> nat_zero_obj)"

type_synonym nat_objs = "nat \<Rightarrow> ipahal_nat_type \<Rightarrow> ipahal_nat_obj"

definition ipahal_nat_init :: "nat \<Rightarrow> nat_objs \<Rightarrow> int \<times> nat_objs" where
  "ipahal_nat_init hw_type objs =
     (if hw_type \<ge> IPA_HW_MAX then (- EINVAL, objs)
      else (0, fill_versions nat_obj_is_zero
                 [IPAHAL_NAT_IPV4, IPAHAL_NAT_IPV4_INDEX, IPAHAL_NAT_IPV4_PDN, IPAHAL_NAT_IPV6CT] hw_type objs))"

text \<open>The accessors on the table \<open>objs\<close> and the version of the HAL context.  Pointers to results are results; the
  NULL checks on them are of no effect for the callers.\<close>

definition ipahal_nat_entry_size :: "nat_objs \<Rightarrow> nat \<Rightarrow> ipahal_nat_type \<Rightarrow> (int \<times> nat option) option" where
  "ipahal_nat_entry_size objs hw nat_type =
     (if nat_type = IPA_NAT_MAX then Some (- EINVAL, None)
      else do { sz \<leftarrow> nobj_entry_size (objs hw nat_type); Some (0, Some sz) })"

definition ipahal_nat_is_entry_zeroed :: "nat_objs \<Rightarrow> nat \<Rightarrow> ipahal_nat_type \<Rightarrow> nat \<Rightarrow> (int \<times> bool option) option" where
  "ipahal_nat_is_entry_zeroed objs hw nat_type entry =
     (if nat_type = IPA_NAT_MAX then Some (- EINVAL, None)
      else do { f \<leftarrow> nobj_is_entry_zeroed (objs hw nat_type); Some (0, Some (f entry)) })"

definition ipahal_nat_is_entry_valid :: "nat_objs \<Rightarrow> nat \<Rightarrow> ipahal_nat_type \<Rightarrow> nat \<Rightarrow> (int \<times> bool option) option" where
  "ipahal_nat_is_entry_valid objs hw nat_type entry =
     (if nat_type = IPA_NAT_MAX then Some (- EINVAL, None)
      else do { f \<leftarrow> nobj_is_entry_valid (objs hw nat_type); Some (0, Some (f entry)) })"

definition ipahal_nat_construct_entry ::
  "nat_objs \<Rightarrow> nat \<Rightarrow> ipahal_nat_type \<Rightarrow> ipahal_nat_pdn_entry \<Rightarrow> (int \<times> nat option) option" where
  "ipahal_nat_construct_entry objs hw nat_type flds =
     (if nat_type = IPA_NAT_MAX then Some (- EINVAL, None)
      else do { f \<leftarrow> nobj_construct_entry (objs hw nat_type); Some (0, Some (f flds)) })"

definition ipahal_nat_parse_entry ::
  "nat_objs \<Rightarrow> nat \<Rightarrow> ipahal_nat_type \<Rightarrow> nat \<Rightarrow> (int \<times> ipahal_nat_pdn_entry option) option" where
  "ipahal_nat_parse_entry objs hw nat_type address =
     (if nat_type = IPA_NAT_MAX then Some (- EINVAL, None)
      else do { f \<leftarrow> nobj_parse_entry (objs hw nat_type); Some (0, Some (f address)) })"

section \<open>Immediate commands\<close>

datatype ipahal_pipeline_clear_option = IPAHAL_HPS_CLEAR | IPAHAL_SRC_GRP_CLEAR | IPAHAL_FULL_PIPELINE_CLEAR

record ipahal_imm_cmd_nat_ipv6ct_init_common =
  base_table_addr :: u64
  expansion_table_addr :: u64
  base_table_addr_shared :: bool
  expansion_table_addr_shared :: bool
  size_base_table :: u16
  size_expansion_table :: u16
  init_table_index :: u8

record ipahal_imm_cmd_ip_v4_nat_init =
  table_init :: ipahal_imm_cmd_nat_ipv6ct_init_common
  index_table_addr :: u64
  index_table_expansion_addr :: u64
  index_table_addr_shared :: bool
  index_table_expansion_addr_shared :: bool
  public_addr_info :: u32

record ipahal_imm_cmd_register_write =
  rw_offset :: u32
  rw_value :: u32
  rw_value_mask :: u32
  rw_skip_pipeline_clear :: bool
  rw_pipeline_clear_options :: ipahal_pipeline_clear_option

record ipahal_imm_cmd_dma_shared_mem =
  sm_system_addr :: u64
  sm_size :: u32
  sm_local_addr :: u32
  sm_clear_after_read :: bool
  sm_is_read :: bool
  sm_skip_pipeline_clear :: bool
  sm_pipeline_clear_options :: ipahal_pipeline_clear_option

text \<open>A command with its parameters; a \<^verbatim>\<open>struct ipahal_imm_cmd_table_dma\<close> has the members of \<open>ipa_ioc_nat_dma_one\<close>.\<close>

datatype imm_cmd =
    IPA_IMM_CMD_IP_V4_NAT_INIT ipahal_imm_cmd_ip_v4_nat_init
  | IPA_IMM_CMD_IP_V6_CT_INIT ipahal_imm_cmd_nat_ipv6ct_init_common
  | IPA_IMM_CMD_REGISTER_WRITE ipahal_imm_cmd_register_write
  | IPA_IMM_CMD_NAT_DMA ipa_ioc_nat_dma_one
  | IPA_IMM_CMD_TABLE_DMA ipa_ioc_nat_dma_one
  | IPA_IMM_CMD_DMA_SHARED_MEM ipahal_imm_cmd_dma_shared_mem

datatype imm_name = N_IP_V4_NAT_INIT | N_IP_V6_CT_INIT | N_REGISTER_WRITE | N_NAT_DMA | N_TABLE_DMA | N_DMA_SHARED_MEM

fun imm_name_of :: "imm_cmd \<Rightarrow> imm_name" where
  "imm_name_of (IPA_IMM_CMD_IP_V4_NAT_INIT _) = N_IP_V4_NAT_INIT"
| "imm_name_of (IPA_IMM_CMD_IP_V6_CT_INIT _) = N_IP_V6_CT_INIT"
| "imm_name_of (IPA_IMM_CMD_REGISTER_WRITE _) = N_REGISTER_WRITE"
| "imm_name_of (IPA_IMM_CMD_NAT_DMA _) = N_NAT_DMA"
| "imm_name_of (IPA_IMM_CMD_TABLE_DMA _) = N_TABLE_DMA"
| "imm_name_of (IPA_IMM_CMD_DMA_SHARED_MEM _) = N_DMA_SHARED_MEM"

record ipahal_imm_cmd_pyld =
  pyld_opcode :: u16
  pyld_len :: nat
  pyld_data :: nat

definition ipa_imm_cmd_hw_ip_v4_nat_init :: c_struct where
  "ipa_imm_cmd_hw_ip_v4_nat_init =
     [(''ipv4_rules_addr'', 64), (''ipv4_expansion_rules_addr'', 64), (''index_table_addr'', 64),
      (''index_table_expansion_addr'', 64), (''table_index'', 3), (''rsvd1'', 1), (''ipv4_rules_addr_type'', 1),
      (''ipv4_expansion_rules_addr_type'', 1), (''index_table_addr_type'', 1), (''index_table_expansion_addr_type'', 1),
      (''size_base_tables'', 12), (''size_expansion_tables'', 10), (''rsvd2'', 2), (''public_addr_info'', 32)]"

definition ipa_imm_cmd_hw_ip_v6_ct_init :: c_struct where
  "ipa_imm_cmd_hw_ip_v6_ct_init =
     [(''table_addr'', 64), (''expansion_table_addr'', 64), (''table_index'', 3), (''rsvd1'', 1),
      (''table_addr_type'', 1), (''expansion_table_addr_type'', 1), (''rsvd2'', 2), (''size_base_table'', 12),
      (''size_expansion_table'', 10), (''rsvd3'', 34)]"

definition ipa_imm_cmd_hw_nat_dma :: c_struct where
  "ipa_imm_cmd_hw_nat_dma =
     [(''table_index'', 3), (''rsvd1'', 1), (''base_addr'', 2), (''rsvd2'', 2), (''offset'', 32), (''data'', 16), (''rsvd3'', 8)]"

definition ipa_imm_cmd_hw_table_dma_ipav4 :: c_struct where
  "ipa_imm_cmd_hw_table_dma_ipav4 =
     [(''table_index'', 3), (''rsvd1'', 1), (''base_addr'', 3), (''rsvd2'', 1), (''offset'', 32), (''data'', 16), (''rsvd3'', 8)]"

definition ipa_imm_cmd_hw_register_write :: c_struct where
  "ipa_imm_cmd_hw_register_write =
     [(''sw_rsvd'', 15), (''skip_pipeline_clear'', 1), (''offset'', 16), (''value'', 32), (''value_mask'', 32),
      (''pipeline_clear_options'', 2), (''rsvd'', 30)]"

definition ipa_imm_cmd_hw_register_write_v_4_0 :: c_struct where
  "ipa_imm_cmd_hw_register_write_v_4_0 =
     [(''sw_rsvd'', 11), (''offset_high'', 4), (''rsvd'', 1), (''offset'', 16), (''value'', 32), (''value_mask'', 32),
      (''rsvd2'', 32)]"

definition ipa_imm_cmd_hw_dma_shared_mem :: c_struct where
  "ipa_imm_cmd_hw_dma_shared_mem =
     [(''sw_rsvd'', 16), (''size'', 16), (''local_addr'', 16), (''direction'', 1), (''skip_pipeline_clear'', 1),
      (''pipeline_clear_options'', 2), (''rsvd'', 12), (''system_addr'', 64)]"

definition ipa_imm_cmd_hw_dma_shared_mem_v_4_0 :: c_struct where
  "ipa_imm_cmd_hw_dma_shared_mem_v_4_0 =
     [(''sw_rsvd'', 15), (''clear_after_read'', 1), (''size'', 16), (''local_addr'', 16), (''direction'', 1),
      (''rsvd'', 15), (''system_addr'', 64)]"

text \<open>\<open>alloc\<close> is the zeroing allocation of the payload; the status tells whether it succeeded.\<close>

definition make_pyld ::
  "('w \<Rightarrow> bool \<times> 'w) \<Rightarrow> u16 \<Rightarrow> c_struct \<Rightarrow> nat list \<Rightarrow> 'w \<Rightarrow> ipahal_imm_cmd_pyld option \<times> 'w" where
  "make_pyld alloc opcode st vs w =
     (let (ok, w) = alloc w in
      (if ok then Some \<lparr>pyld_opcode = opcode, pyld_len = struct_bytes st, pyld_data = pack_struct st vs\<rparr> else None, w))"

fun clear_code :: "ipahal_pipeline_clear_option \<Rightarrow> nat" where
  "clear_code IPAHAL_HPS_CLEAR = 0"
| "clear_code IPAHAL_SRC_GRP_CLEAR = 1"
| "clear_code IPAHAL_FULL_PIPELINE_CLEAR = 2"

text \<open>From version 4.0 on the pipeline clear options are bits 8 to 10 of the opcode.\<close>

definition opcode_clear :: "u16 \<Rightarrow> bool \<Rightarrow> ipahal_pipeline_clear_option \<Rightarrow> u16" where
  "opcode_clear opcode skip opt = opcode OR push_bit 8 (of_bool skip) OR push_bit 9 (of_nat (clear_code opt))"

definition ipa_imm_cmd_construct_dma_shared_mem ::
  "('w \<Rightarrow> bool \<times> 'w) \<Rightarrow> u16 \<Rightarrow> ipahal_imm_cmd_dma_shared_mem \<Rightarrow> 'w \<Rightarrow> ipahal_imm_cmd_pyld option \<times> 'w" where
  "ipa_imm_cmd_construct_dma_shared_mem alloc opcode p w =
     make_pyld alloc opcode ipa_imm_cmd_hw_dma_shared_mem
       [0, unat (sm_size p), unat (sm_local_addr p), of_bool (sm_is_read p), of_bool (sm_skip_pipeline_clear p),
        clear_code (sm_pipeline_clear_options p), 0, unat (sm_system_addr p)] w"

definition ipa_imm_cmd_construct_dma_shared_mem_v_4_0 ::
  "('w \<Rightarrow> bool \<times> 'w) \<Rightarrow> u16 \<Rightarrow> ipahal_imm_cmd_dma_shared_mem \<Rightarrow> 'w \<Rightarrow> ipahal_imm_cmd_pyld option \<times> 'w" where
  "ipa_imm_cmd_construct_dma_shared_mem_v_4_0 alloc opcode p w =
     (if sm_size p AND NOT 0xFFFF \<noteq> 0 then (None, w)
      else if sm_local_addr p AND NOT 0xFFFF \<noteq> 0 then (None, w)
      else make_pyld alloc (opcode_clear opcode (sm_skip_pipeline_clear p) (sm_pipeline_clear_options p))
             ipa_imm_cmd_hw_dma_shared_mem_v_4_0
             [0, of_bool (sm_clear_after_read p), unat (sm_size p), unat (sm_local_addr p), of_bool (sm_is_read p), 0,
              unat (sm_system_addr p)] w)"

definition ipa_imm_cmd_construct_register_write ::
  "('w \<Rightarrow> bool \<times> 'w) \<Rightarrow> u16 \<Rightarrow> ipahal_imm_cmd_register_write \<Rightarrow> 'w \<Rightarrow> ipahal_imm_cmd_pyld option \<times> 'w" where
  "ipa_imm_cmd_construct_register_write alloc opcode p w =
     make_pyld alloc opcode ipa_imm_cmd_hw_register_write
       [0, of_bool (rw_skip_pipeline_clear p), unat (rw_offset p), unat (rw_value p), unat (rw_value_mask p),
        clear_code (rw_pipeline_clear_options p), 0] w"

definition ipa_imm_cmd_construct_register_write_v_4_0 ::
  "('w \<Rightarrow> bool \<times> 'w) \<Rightarrow> u16 \<Rightarrow> ipahal_imm_cmd_register_write \<Rightarrow> 'w \<Rightarrow> ipahal_imm_cmd_pyld option \<times> 'w" where
  "ipa_imm_cmd_construct_register_write_v_4_0 alloc opcode p w =
     (if rw_offset p AND NOT 0xFFFF \<noteq> 0 then (None, w)
      else make_pyld alloc (opcode_clear opcode (rw_skip_pipeline_clear p) (rw_pipeline_clear_options p))
             ipa_imm_cmd_hw_register_write_v_4_0
             [0, unat (drop_bit 16 (rw_offset p)), 0, unat (rw_offset p), unat (rw_value p), unat (rw_value_mask p), 0] w)"

definition ipa_imm_cmd_construct_nat_dma ::
  "('w \<Rightarrow> bool \<times> 'w) \<Rightarrow> u16 \<Rightarrow> ipa_ioc_nat_dma_one \<Rightarrow> 'w \<Rightarrow> ipahal_imm_cmd_pyld option \<times> 'w" where
  "ipa_imm_cmd_construct_nat_dma alloc opcode p w =
     make_pyld alloc opcode ipa_imm_cmd_hw_nat_dma
       [unat (dma_table_index p), 0, unat (dma_base_addr p), 0, unat (dma_offset p), unat (dma_data p), 0] w"

definition ipa_imm_cmd_construct_table_dma_ipav4 ::
  "('w \<Rightarrow> bool \<times> 'w) \<Rightarrow> u16 \<Rightarrow> ipa_ioc_nat_dma_one \<Rightarrow> 'w \<Rightarrow> ipahal_imm_cmd_pyld option \<times> 'w" where
  "ipa_imm_cmd_construct_table_dma_ipav4 alloc opcode p w =
     make_pyld alloc opcode ipa_imm_cmd_hw_table_dma_ipav4
       [unat (dma_table_index p), 0, unat (dma_base_addr p), 0, unat (dma_offset p), unat (dma_data p), 0] w"

definition ipa_imm_cmd_construct_ip_v4_nat_init ::
  "('w \<Rightarrow> bool \<times> 'w) \<Rightarrow> u16 \<Rightarrow> ipahal_imm_cmd_ip_v4_nat_init \<Rightarrow> 'w \<Rightarrow> ipahal_imm_cmd_pyld option \<times> 'w" where
  "ipa_imm_cmd_construct_ip_v4_nat_init alloc opcode p w =
     (let c = table_init p in
      make_pyld alloc opcode ipa_imm_cmd_hw_ip_v4_nat_init
        [unat (base_table_addr c), unat (expansion_table_addr c), unat (index_table_addr p),
         unat (index_table_expansion_addr p), unat (init_table_index c), 0, of_bool (base_table_addr_shared c),
         of_bool (expansion_table_addr_shared c), of_bool (index_table_addr_shared p),
         of_bool (index_table_expansion_addr_shared p), unat (size_base_table c), unat (size_expansion_table c), 0,
         unat (public_addr_info p)] w)"

definition ipa_imm_cmd_construct_ip_v6_ct_init ::
  "('w \<Rightarrow> bool \<times> 'w) \<Rightarrow> u16 \<Rightarrow> ipahal_imm_cmd_nat_ipv6ct_init_common \<Rightarrow> 'w \<Rightarrow> ipahal_imm_cmd_pyld option \<times> 'w" where
  "ipa_imm_cmd_construct_ip_v6_ct_init alloc opcode c w =
     make_pyld alloc opcode ipa_imm_cmd_hw_ip_v6_ct_init
       [unat (base_table_addr c), unat (expansion_table_addr c), unat (init_table_index c), 0,
        of_bool (base_table_addr_shared c), of_bool (expansion_table_addr_shared c), 0, unat (size_base_table c),
        unat (size_expansion_table c), 0] w"

datatype imm_construct_cb =
    Construct_ip_v4_nat_init | Construct_ip_v6_ct_init | Construct_register_write | Construct_register_write_v_4_0
  | Construct_nat_dma | Construct_table_dma_ipav4 | Construct_dma_shared_mem | Construct_dma_shared_mem_v_4_0
  | Construct_dummy

record ipahal_imm_cmd_obj =
  iobj_construct :: "imm_construct_cb option"
  iobj_opcode :: u16

definition imm_zero_obj :: ipahal_imm_cmd_obj where
  "imm_zero_obj = \<lparr>iobj_construct = None, iobj_opcode = 0\<rparr>"

definition imm_obj_is_zero :: "ipahal_imm_cmd_obj \<Rightarrow> bool" where
  "imm_obj_is_zero obj \<longleftrightarrow> Option.is_none (iobj_construct obj) \<and> iobj_opcode obj = 0"

definition imm_obj :: "imm_construct_cb \<Rightarrow> u16 \<Rightarrow> ipahal_imm_cmd_obj" where
  "imm_obj cb opcode = \<lparr>iobj_construct = Some cb, iobj_opcode = opcode\<rparr>"

text \<open>The columns of \<^verbatim>\<open>ipahal_imm_cmd_objs\<close> of the commands above.\<close>

definition ipahal_imm_cmd_objs :: "nat \<Rightarrow> imm_name \<Rightarrow> ipahal_imm_cmd_obj" where
  "ipahal_imm_cmd_objs ver nm =
     (case nm of
        N_IP_V4_NAT_INIT \<Rightarrow> if ver = IPA_HW_v3_0 then imm_obj Construct_ip_v4_nat_init 5 else imm_zero_obj
      | N_IP_V6_CT_INIT \<Rightarrow> if ver = IPA_HW_v4_0 then imm_obj Construct_ip_v6_ct_init 23 else imm_zero_obj
      | N_REGISTER_WRITE \<Rightarrow>
          if ver = IPA_HW_v3_0 then imm_obj Construct_register_write 12
          else if ver = IPA_HW_v4_0 then imm_obj Construct_register_write_v_4_0 12 else imm_zero_obj
      | N_NAT_DMA \<Rightarrow>
          if ver = IPA_HW_v3_0 then imm_obj Construct_nat_dma 14
          else if ver = IPA_HW_v4_0 then imm_obj Construct_dummy (- 1) else imm_zero_obj
      | N_TABLE_DMA \<Rightarrow> if ver = IPA_HW_v4_0 then imm_obj Construct_table_dma_ipav4 14 else imm_zero_obj
      | N_DMA_SHARED_MEM \<Rightarrow>
          if ver = IPA_HW_v3_0 then imm_obj Construct_dma_shared_mem 19
          else if ver = IPA_HW_v4_0 then imm_obj Construct_dma_shared_mem_v_4_0 19 else imm_zero_obj)"

type_synonym imm_objs = "nat \<Rightarrow> imm_name \<Rightarrow> ipahal_imm_cmd_obj"

definition ipahal_imm_cmd_init :: "nat \<Rightarrow> imm_objs \<Rightarrow> int \<times> imm_objs" where
  "ipahal_imm_cmd_init hw_type objs =
     (if hw_type \<ge> IPA_HW_MAX then (- EINVAL, objs)
      else (0, fill_versions imm_obj_is_zero
                 [N_IP_V4_NAT_INIT, N_REGISTER_WRITE, N_NAT_DMA, N_DMA_SHARED_MEM, N_TABLE_DMA, N_IP_V6_CT_INIT] hw_type objs))"

text \<open>\<^verbatim>\<open>u32 opcode\<close> is read from a \<^verbatim>\<open>u16\<close> member, so the test against \<^verbatim>\<open>-1\<close> never holds.\<close>

definition ipahal_imm_cmd_get_opcode :: "imm_objs \<Rightarrow> nat \<Rightarrow> imm_name \<Rightarrow> u16" where
  "ipahal_imm_cmd_get_opcode objs hw nm =
     (let opcode :: u32 = ucast (iobj_opcode (objs hw nm)) in
      if opcode = - 1 then - 14 else ucast opcode)"

text \<open>\<open>None\<close>: a NULL callback is called, or a callback with parameters of another command.\<close>

definition ipahal_construct_imm_cmd ::
  "imm_objs \<Rightarrow> nat \<Rightarrow> ('w \<Rightarrow> bool \<times> 'w) \<Rightarrow> imm_cmd \<Rightarrow> 'w \<Rightarrow> (ipahal_imm_cmd_pyld option \<times> 'w) option" where
  "ipahal_construct_imm_cmd objs hw alloc cmd w =
     (let opcode = ipahal_imm_cmd_get_opcode objs hw (imm_name_of cmd) in
      do {
        cb \<leftarrow> iobj_construct (objs hw (imm_name_of cmd));
        case (cb, cmd) of
          (Construct_ip_v4_nat_init, IPA_IMM_CMD_IP_V4_NAT_INIT p) \<Rightarrow> Some (ipa_imm_cmd_construct_ip_v4_nat_init alloc opcode p w)
        | (Construct_ip_v6_ct_init, IPA_IMM_CMD_IP_V6_CT_INIT p) \<Rightarrow> Some (ipa_imm_cmd_construct_ip_v6_ct_init alloc opcode p w)
        | (Construct_register_write, IPA_IMM_CMD_REGISTER_WRITE p) \<Rightarrow> Some (ipa_imm_cmd_construct_register_write alloc opcode p w)
        | (Construct_register_write_v_4_0, IPA_IMM_CMD_REGISTER_WRITE p) \<Rightarrow>
            Some (ipa_imm_cmd_construct_register_write_v_4_0 alloc opcode p w)
        | (Construct_nat_dma, IPA_IMM_CMD_NAT_DMA p) \<Rightarrow> Some (ipa_imm_cmd_construct_nat_dma alloc opcode p w)
        | (Construct_table_dma_ipav4, IPA_IMM_CMD_TABLE_DMA p) \<Rightarrow> Some (ipa_imm_cmd_construct_table_dma_ipav4 alloc opcode p w)
        | (Construct_dma_shared_mem, IPA_IMM_CMD_DMA_SHARED_MEM p) \<Rightarrow> Some (ipa_imm_cmd_construct_dma_shared_mem alloc opcode p w)
        | (Construct_dma_shared_mem_v_4_0, IPA_IMM_CMD_DMA_SHARED_MEM p) \<Rightarrow>
            Some (ipa_imm_cmd_construct_dma_shared_mem_v_4_0 alloc opcode p w)
        | (Construct_dummy, _) \<Rightarrow> Some (None, w)
        | _ \<Rightarrow> None })"

definition ipahal_construct_nop_imm_cmd ::
  "imm_objs \<Rightarrow> nat \<Rightarrow> ('w \<Rightarrow> bool \<times> 'w) \<Rightarrow> bool \<Rightarrow> ipahal_pipeline_clear_option \<Rightarrow> 'w
    \<Rightarrow> (ipahal_imm_cmd_pyld option \<times> 'w) option" where
  "ipahal_construct_nop_imm_cmd objs hw alloc skip opt w =
     ipahal_construct_imm_cmd objs hw alloc
       (IPA_IMM_CMD_REGISTER_WRITE \<lparr>rw_offset = 0, rw_value = 0, rw_value_mask = 0, rw_skip_pipeline_clear = skip,
          rw_pipeline_clear_options = opt\<rparr>) w"

end
