(* ===== verification/Ipa3_Nat.thy ===== *)
theory Ipa3_Nat
  imports Ipahal Nat_Drvi
begin

text \<open>
  The kernel driver behind the NAT and IPv6 connection tracking ioctls, \<^verbatim>\<open>ipa_v3/ipa_nat.c\<close>, with its ioctl cases
  of \<^verbatim>\<open>ipa_v3/ipa.c\<close>: the two memory devices, allocation and mapping of table memory, the initialisation, deletion
  and PDN commands and the validation of table writes.

  State.  \<open>ipa3\<close> holds the parts of \<^verbatim>\<open>ipa3_ctx\<close> the file uses, \<^verbatim>\<open>sram_compatible\<close> and the world.  Addresses, sizes
  and DMA handles are 64-bit words (a 64-bit kernel), NULL is 0.  \<open>k_ledger\<close> lists the resources the kernel has handed
  out and not taken back; giving back one that is not in it, following a NULL callback or writing outside of an
  array makes an operation \<open>None\<close>.  \<open>k_pylds\<close> counts the command payloads that are allocated.  Each operation is
  one step: the driver holds the mutex of the device, or is called with parameters it copied before.

  The Linux interfaces, the data path that carries commands to the device and the copies from user space are the
  fields of \<open>kernel_env\<close>; what the driver reads of the configuration of the platform is \<open>ipa3_platform\<close>.  A
  \<^verbatim>\<open>mem_type\<close> or \<^verbatim>\<open>nmi\<close> of 2 or more is \<open>IPA_NAT_MEM_IN_MAX\<close>.
\<close>

section \<open>Platform, environment, state\<close>

abbreviation EFAULT :: int where "EFAULT \<equiv> 14"
abbreviation ENODEV :: int where "ENODEV \<equiv> 19"
abbreviation ENOBUFS :: int where "ENOBUFS \<equiv> 105"

definition PAGE_SIZE :: nat where "PAGE_SIZE = 4096"
definition IPA_DEV_NAME_MAX_LEN :: nat where "IPA_DEV_NAME_MAX_LEN = 15"
definition IPA_NAT_IPV6CT_TEMP_MEM_SIZE :: u64 where "IPA_NAT_IPV6CT_TEMP_MEM_SIZE = 128"
definition IPA_NAT_MAX_NUM_OF_INIT_CMD_DESC :: nat where "IPA_NAT_MAX_NUM_OF_INIT_CMD_DESC = 4"
definition IPA_IPV6CT_MAX_NUM_OF_INIT_CMD_DESC :: nat where "IPA_IPV6CT_MAX_NUM_OF_INIT_CMD_DESC = 3"
definition IPA_MAX_NUM_OF_TABLE_DMA_CMD_DESC :: nat where "IPA_MAX_NUM_OF_TABLE_DMA_CMD_DESC = 5"
definition IPA3_TABLE_MAX_ENTRIES :: nat where "IPA3_TABLE_MAX_ENTRIES = 8192"
definition IPA_QMAP_TETH_BIT :: u32 where "IPA_QMAP_TETH_BIT = push_bit 30 1"

definition MAX_ALLOC_NAT_SIZE :: "nat \<Rightarrow> nat" where
  "MAX_ALLOC_NAT_SIZE sz = IPA3_TABLE_MAX_ENTRIES * sz"

definition IPA_VALID_TBL_INDEX :: "u8 \<Rightarrow> bool" where
  "IPA_VALID_TBL_INDEX ti \<longleftrightarrow> ti = 0"

text \<open>\<open>coal_ep\<close> is \<^verbatim>\<open>ipa_get_ep_mapping(IPA_CLIENT_APPS_WAN_COAL_CONS)\<close>, -1 if the platform has no coalescing pipe;
  \<open>force_close_*\<close> is the register write that closes its frame, \<open>sram_direct_ofst\<close> the offset of the register
  \<^verbatim>\<open>IPA_SW_AREA_RAM_DIRECT_ACCESS_n\<close>.\<close>

record ipa3_platform =
  hw_type :: nat
  nat_objs :: nat_objs
  imm_objs :: imm_objs
  nat_tbl_ofst :: u32
  nat_tbl_size :: u32
  pdn_config_ofst :: u32
  pdn_config_size :: u32
  ipa_wrapper_base :: u32
  ipa_reg_base_ofst :: u32
  sram_direct_ofst :: u32
  smem_restricted_bytes :: u16
  coal_ep :: int
  ulso_wa :: bool
  force_close_ofst :: u32
  force_close_val :: u32
  force_close_mask :: u32

record 'w kernel_env =
  kenv_kzalloc :: "'w \<Rightarrow> bool \<times> 'w"
  kenv_dma_alloc_coherent :: "u64 \<Rightarrow> 'w \<Rightarrow> u64 \<times> u64 \<times> 'w"
  kenv_ioremap :: "u64 \<Rightarrow> u32 \<Rightarrow> 'w \<Rightarrow> u64 \<times> 'w"
  kenv_dma_mmap_coherent :: "u64 \<Rightarrow> u64 \<Rightarrow> u64 \<Rightarrow> u64 \<Rightarrow> 'w \<Rightarrow> int \<times> 'w"
  kenv_vm_iomap_memory :: "u64 \<Rightarrow> u64 \<Rightarrow> u32 \<Rightarrow> 'w \<Rightarrow> int \<times> 'w"
  kenv_class_create :: "string \<Rightarrow> 'w \<Rightarrow> bool \<times> 'w"
  kenv_alloc_chrdev_region :: "string \<Rightarrow> 'w \<Rightarrow> int \<times> 'w"
  kenv_device_create :: "string \<Rightarrow> 'w \<Rightarrow> bool \<times> 'w"
  kenv_cdev_add :: "string \<Rightarrow> 'w \<Rightarrow> int \<times> 'w"
  kenv_send_cmd :: "ipahal_imm_cmd_pyld list \<Rightarrow> 'w \<Rightarrow> int \<times> 'w"
  kenv_copy_user :: "'w \<Rightarrow> bool \<times> 'w"
  kenv_memdup_user :: "'w \<Rightarrow> int \<times> 'w"

datatype kres =
    DmaMem u64 u64 u64
  | IoMem u64
  | TmpStruct
  | DevClass string
  | ChrdevRegion string
  | DeviceNode string
  | Cdev string

record ipa3_nat_ipv6ct_tmp_mem =
  tmp_vaddr :: u64
  tmp_dma_handle :: u64

record ipa3_nat_ipv6ct_common_mem =
  cm_name :: string
  cm_is_nat_mem :: bool
  cm_is_ipv6ct_mem :: bool
  cm_is_dev_init :: bool
  cm_is_hw_init :: bool
  cm_is_mapped :: bool
  cm_phys_mem_size :: u32
  cm_phys_mem_ofst :: u32
  cm_table_alloc_size :: u64
  cm_vaddr :: u64
  cm_dma_handle :: u64
  cm_base_address :: u64
  cm_base_table_addr :: u64
  cm_expansion_table_addr :: u64
  cm_table_entries :: u32
  cm_expn_table_entries :: u32
  cm_tmp_mem :: "ipa3_nat_ipv6ct_tmp_mem option"

record ipa3_nat_mem_loc_data =
  ml_is_mapped :: bool
  ml_io_vaddr :: u64
  ml_vaddr :: u64
  ml_dma_handle :: u64
  ml_phys_addr :: u64
  ml_table_alloc_size :: u64
  ml_table_entries :: u32
  ml_expn_table_entries :: u32
  ml_base_address :: u64
  ml_base_table_addr :: u64
  ml_expansion_table_addr :: u64
  ml_index_table_addr :: u64
  ml_index_table_expansion_addr :: u64

text \<open>\<open>nm_pdn_table\<close> is the memory at \<^verbatim>\<open>pdn_mem.base\<close>, one number per entry.\<close>

record ipa3_nat_mem =
  nm_dev :: ipa3_nat_ipv6ct_common_mem
  nm_public_ip_addr :: u32
  nm_pdn_base :: u64
  nm_pdn_phys_base :: u64
  nm_pdn_size :: u32
  nm_pdn_table :: "nat list"
  nm_is_tmp_mem_allocated :: bool
  nm_last_alloc_loc :: ipa3_nat_mem_in
  nm_active_table :: ipa3_nat_mem_in
  nm_switch2ddr_cnt :: u32
  nm_switch2sram_cnt :: u32
  nm_ddr_in_use :: bool
  nm_sram_in_use :: bool
  nm_mem_loc :: "ipa3_nat_mem_in \<Rightarrow> ipa3_nat_mem_loc_data"

record 'w ipa3 =
  nat_mem :: ipa3_nat_mem
  ipv6ct_dev :: ipa3_nat_ipv6ct_common_mem
  sram_compatible :: bool
  k_ledger :: "kres list"
  k_pylds :: nat
  k_world :: 'w

definition loc_zero :: ipa3_nat_mem_loc_data where
  "loc_zero = \<lparr>ml_is_mapped = False, ml_io_vaddr = 0, ml_vaddr = 0, ml_dma_handle = 0, ml_phys_addr = 0,
     ml_table_alloc_size = 0, ml_table_entries = 0, ml_expn_table_entries = 0, ml_base_address = 0, ml_base_table_addr = 0,
     ml_expansion_table_addr = 0, ml_index_table_addr = 0, ml_index_table_expansion_addr = 0\<rparr>"

datatype mem_dev = NatDev | Ipv6ctDev

fun get_dev :: "mem_dev \<Rightarrow> 'w ipa3 \<Rightarrow> ipa3_nat_ipv6ct_common_mem" where
  "get_dev NatDev k = nm_dev (nat_mem k)"
| "get_dev Ipv6ctDev k = ipv6ct_dev k"

fun set_dev :: "mem_dev \<Rightarrow> ipa3_nat_ipv6ct_common_mem \<Rightarrow> 'w ipa3 \<Rightarrow> 'w ipa3" where
  "set_dev NatDev d k = k\<lparr>nat_mem := (nat_mem k)\<lparr>nm_dev := d\<rparr>\<rparr>"
| "set_dev Ipv6ctDev d k = k\<lparr>ipv6ct_dev := d\<rparr>"

definition get_loc :: "ipa3_nat_mem_in \<Rightarrow> 'w ipa3 \<Rightarrow> ipa3_nat_mem_loc_data" where
  "get_loc nmi k = nm_mem_loc (nat_mem k) nmi"

definition set_loc :: "ipa3_nat_mem_in \<Rightarrow> ipa3_nat_mem_loc_data \<Rightarrow> 'w ipa3 \<Rightarrow> 'w ipa3" where
  "set_loc nmi l k = k\<lparr>nat_mem := (nat_mem k)\<lparr>nm_mem_loc := (nm_mem_loc (nat_mem k))(nmi := l)\<rparr>\<rparr>"

definition acquire :: "kres \<Rightarrow> 'w ipa3 \<Rightarrow> 'w ipa3" where
  "acquire r k = k\<lparr>k_ledger := r # k_ledger k\<rparr>"

definition release :: "kres \<Rightarrow> 'w ipa3 \<Rightarrow> 'w ipa3 option" where
  "release r k = (if r \<in> set (k_ledger k) then Some (k\<lparr>k_ledger := remove1 r (k_ledger k)\<rparr>) else None)"

text \<open>A call of the environment on the world, the result of \<^verbatim>\<open>dma_alloc_coherent\<close> entered into the ledger.\<close>

definition in_world :: "('w \<Rightarrow> 'a \<times> 'w) \<Rightarrow> 'w ipa3 \<Rightarrow> 'a \<times> 'w ipa3" where
  "in_world f k = (let (a, w) = f (k_world k) in (a, k\<lparr>k_world := w\<rparr>))"

definition dma_alloc_coherent :: "'w kernel_env \<Rightarrow> u64 \<Rightarrow> 'w ipa3 \<Rightarrow> u64 \<times> u64 \<times> 'w ipa3" where
  "dma_alloc_coherent env sz k =
     (let (vaddr, handle, w) = kenv_dma_alloc_coherent env sz (k_world k);
          k = k\<lparr>k_world := w\<rparr>
      in (vaddr, handle, if vaddr = 0 then k else acquire (DmaMem vaddr handle sz) k))"

definition dma_free_coherent :: "u64 \<Rightarrow> u64 \<Rightarrow> u64 \<Rightarrow> 'w ipa3 \<Rightarrow> 'w ipa3 option" where
  "dma_free_coherent sz vaddr handle k = release (DmaMem vaddr handle sz) k"

definition nat_entry_size :: "ipa3_platform \<Rightarrow> ipahal_nat_type \<Rightarrow> nat option" where
  "nat_entry_size pl ty = do { (r, sz) \<leftarrow> ipahal_nat_entry_size (nat_objs pl) (hw_type pl) ty; sz }"

definition ipa3_get_max_pdn :: "ipa3_platform \<Rightarrow> nat option" where
  "ipa3_get_max_pdn pl = do { sz \<leftarrow> nat_entry_size pl IPAHAL_NAT_IPV4_PDN; Some (unat (pdn_config_size pl) div sz) }"

section \<open>The memory devices\<close>

definition ipa3_nat_ipv6ct_allocate_tmp_memory ::
  "'w kernel_env \<Rightarrow> 'w ipa3 \<Rightarrow> (ipa3_nat_ipv6ct_tmp_mem option \<times> 'w ipa3) option" where
  "ipa3_nat_ipv6ct_allocate_tmp_memory env k =
     (let (ok, k) = in_world (kenv_kzalloc env) k in
      if \<not> ok then Some (None, k)
      else
        let k = acquire TmpStruct k;
            (vaddr, handle, k) = dma_alloc_coherent env IPA_NAT_IPV6CT_TEMP_MEM_SIZE k
        in if vaddr = 0 then do { k \<leftarrow> release TmpStruct k; Some (None, k) }
           else Some (Some \<lparr>tmp_vaddr = vaddr, tmp_dma_handle = handle\<rparr>, k))"

definition ipa3_nat_ipv6ct_init_device ::
  "'w kernel_env \<Rightarrow> mem_dev \<Rightarrow> string \<Rightarrow> u32 \<Rightarrow> u32 \<Rightarrow> ipa3_nat_ipv6ct_tmp_mem option \<Rightarrow> 'w ipa3
    \<Rightarrow> (int \<times> 'w ipa3) option" where
  "ipa3_nat_ipv6ct_init_device env d name phys_mem_size phys_mem_ofst tmp_mem k =
     (let k = set_dev d ((get_dev d k)\<lparr>cm_is_nat_mem := (d = NatDev), cm_is_ipv6ct_mem := (d = Ipv6ctDev)\<rparr>) k in
      if length (take IPA_DEV_NAME_MAX_LEN name) = IPA_DEV_NAME_MAX_LEN then Some (- ENODEV, k)
      else
        let k = set_dev d ((get_dev d k)\<lparr>cm_name := name\<rparr>) k;
            (ok, k) = in_world (kenv_class_create env name) k
        in if \<not> ok then Some (- ENODEV, k)
        else
          let k = acquire (DevClass name) k;
              (res, k) = in_world (kenv_alloc_chrdev_region env name) k
          in if res \<noteq> 0 then do { k \<leftarrow> release (DevClass name) k; Some (- ENODEV, k) }
          else
            let k = acquire (ChrdevRegion name) k;
                (ok, k) = in_world (kenv_device_create env name) k
            in if \<not> ok then do {
                 k \<leftarrow> release (ChrdevRegion name) k;
                 k \<leftarrow> release (DevClass name) k;
                 Some (- ENODEV, k) }
            else
              let k = acquire (DeviceNode name) k;
                  (res, k) = in_world (kenv_cdev_add env name) k
              in if res \<noteq> 0 then do {
                   k \<leftarrow> release (DeviceNode name) k;
                   k \<leftarrow> release (ChrdevRegion name) k;
                   k \<leftarrow> release (DevClass name) k;
                   Some (res, k) }
              else Some (0, set_dev d ((get_dev d k)\<lparr>cm_tmp_mem := tmp_mem, cm_phys_mem_size := phys_mem_size,
                     cm_phys_mem_ofst := phys_mem_ofst, cm_is_dev_init := True\<rparr>) (acquire (Cdev name) k)))"

text \<open>The temporary memory is shared by the devices; the flag in \<^verbatim>\<open>nat_mem\<close> says that it still exists.\<close>

definition ipa3_nat_ipv6ct_destroy_device :: "mem_dev \<Rightarrow> 'w ipa3 \<Rightarrow> 'w ipa3 option" where
  "ipa3_nat_ipv6ct_destroy_device d k =
     do {
       k \<leftarrow> (case cm_tmp_mem (get_dev d k) of
               None \<Rightarrow> Some k
             | Some tmp \<Rightarrow> do {
                 k \<leftarrow> (if nm_is_tmp_mem_allocated (nat_mem k) then do {
                         k \<leftarrow> dma_free_coherent IPA_NAT_IPV6CT_TEMP_MEM_SIZE (tmp_vaddr tmp) (tmp_dma_handle tmp) k;
                         k \<leftarrow> release TmpStruct k;
                         Some (k\<lparr>nat_mem := (nat_mem k)\<lparr>nm_is_tmp_mem_allocated := False\<rparr>\<rparr>) }
                       else Some k);
                 Some (set_dev d ((get_dev d k)\<lparr>cm_tmp_mem := None\<rparr>) k) });
       k \<leftarrow> release (DeviceNode (cm_name (get_dev d k))) k;
       k \<leftarrow> release (ChrdevRegion (cm_name (get_dev d k))) k;
       k \<leftarrow> release (DevClass (cm_name (get_dev d k))) k;
       Some (set_dev d ((get_dev d k)\<lparr>cm_is_dev_init := False\<rparr>) k) }"

definition ipa3_nat_ipv6ct_init_devices :: "'w kernel_env \<Rightarrow> ipa3_platform \<Rightarrow> 'w ipa3 \<Rightarrow> (int \<times> 'w ipa3) option" where
  "ipa3_nat_ipv6ct_init_devices env pl k =
     do {
       (tmp_mem, k) \<leftarrow> ipa3_nat_ipv6ct_allocate_tmp_memory env k;
       case tmp_mem of
         None \<Rightarrow> Some (- ENOMEM, k)
       | Some tmp \<Rightarrow> do {
           let free_tmp = (\<lambda>k. if nm_is_tmp_mem_allocated (nat_mem k) then do {
                              k \<leftarrow> dma_free_coherent IPA_NAT_IPV6CT_TEMP_MEM_SIZE (tmp_vaddr tmp) (tmp_dma_handle tmp) k;
                              k \<leftarrow> release TmpStruct k;
                              Some (k\<lparr>nat_mem := (nat_mem k)\<lparr>nm_is_tmp_mem_allocated := False\<rparr>\<rparr>) }
                            else Some k);
           let k = k\<lparr>nat_mem := (nat_mem k)\<lparr>nm_is_tmp_mem_allocated := True\<rparr>\<rparr>;
           (res, k) \<leftarrow> ipa3_nat_ipv6ct_init_device env NatDev ''ipaNatTable'' (nat_tbl_size pl) (nat_tbl_ofst pl) tmp_mem k;
           if res \<noteq> 0 then do { k \<leftarrow> free_tmp k; Some (- ENODEV, k) }
           else if hw_type pl < IPA_HW_v4_0 then Some (0, k)
           else do {
             (res, k) \<leftarrow> ipa3_nat_ipv6ct_init_device env Ipv6ctDev ''ipaIpv6CTTable'' 0 0 tmp_mem k;
             if res \<noteq> 0 then do {
               k \<leftarrow> ipa3_nat_ipv6ct_destroy_device NatDev k;
               k \<leftarrow> free_tmp k;
               Some (- ENODEV, k) }
             else Some (0, k) } } }"

definition ipa3_nat_ipv6ct_destroy_devices :: "ipa3_platform \<Rightarrow> 'w ipa3 \<Rightarrow> 'w ipa3 option" where
  "ipa3_nat_ipv6ct_destroy_devices pl k =
     do {
       k \<leftarrow> ipa3_nat_ipv6ct_destroy_device NatDev k;
       if hw_type pl \<ge> IPA_HW_v4_0 then ipa3_nat_ipv6ct_destroy_device Ipv6ctDev k else Some k }"

section \<open>Memory of the tables\<close>

text \<open>The arithmetic of the physical address is on 32 bits.\<close>

definition sram_phys_addr :: "ipa3_platform \<Rightarrow> u32" where
  "sram_phys_addr pl = ipa_wrapper_base pl + ipa_reg_base_ofst pl + sram_direct_ofst pl + nat_tbl_ofst pl"

text \<open>The IPv4 branch of \<^verbatim>\<open>ipa3_nat_ipv6ct_allocate_mem\<close>.\<close>

definition allocate_nat_mem :: "'w kernel_env \<Rightarrow> ipa3_platform \<Rightarrow> u64 \<Rightarrow> 'w ipa3 \<Rightarrow> int \<times> 'w ipa3" where
  "allocate_nat_mem env pl sz k =
     (if sram_compatible k \<and> unat sz \<le> unat (nat_tbl_size pl) then
        if nm_sram_in_use (nat_mem k) then (- EPERM, k)
        else
          let k = set_loc IPA_NAT_MEM_IN_SRAM ((get_loc IPA_NAT_MEM_IN_SRAM k)
                    \<lparr>ml_table_alloc_size := sz, ml_phys_addr := ucast (sram_phys_addr pl)\<rparr>) k;
              (io, k) = in_world (kenv_ioremap env (ucast (sram_phys_addr pl)) (nat_tbl_size pl)) k;
              k = set_loc IPA_NAT_MEM_IN_SRAM ((get_loc IPA_NAT_MEM_IN_SRAM k)\<lparr>ml_io_vaddr := io\<rparr>) k
          in if io = 0 then (- ENOMEM, k)
             else
               let k = set_loc IPA_NAT_MEM_IN_SRAM ((get_loc IPA_NAT_MEM_IN_SRAM k)\<lparr>ml_vaddr := io\<rparr>) (acquire (IoMem io) k)
               in (0, k\<lparr>nat_mem := (nat_mem k)\<lparr>nm_sram_in_use := True, nm_last_alloc_loc := IPA_NAT_MEM_IN_SRAM\<rparr>\<rparr>)
      else
        if nm_ddr_in_use (nat_mem k) then (- EPERM, k)
        else
          let k = set_loc IPA_NAT_MEM_IN_DDR ((get_loc IPA_NAT_MEM_IN_DDR k)\<lparr>ml_table_alloc_size := sz\<rparr>) k;
              (vaddr, handle, k) = dma_alloc_coherent env sz k;
              k = set_loc IPA_NAT_MEM_IN_DDR ((get_loc IPA_NAT_MEM_IN_DDR k)\<lparr>ml_vaddr := vaddr, ml_dma_handle := handle\<rparr>) k
          in if vaddr = 0 then (- ENOMEM, k)
             else (0, k\<lparr>nat_mem := (nat_mem k)\<lparr>nm_ddr_in_use := True, nm_last_alloc_loc := IPA_NAT_MEM_IN_DDR\<rparr>\<rparr>))"

definition allocate_ipv6ct_mem :: "'w kernel_env \<Rightarrow> u64 \<Rightarrow> 'w ipa3 \<Rightarrow> int \<times> 'w ipa3" where
  "allocate_ipv6ct_mem env sz k =
     (let k = k\<lparr>ipv6ct_dev := (ipv6ct_dev k)\<lparr>cm_table_alloc_size := sz\<rparr>\<rparr>;
          (vaddr, handle, k) = dma_alloc_coherent env sz k;
          k = k\<lparr>ipv6ct_dev := (ipv6ct_dev k)\<lparr>cm_vaddr := vaddr, cm_dma_handle := handle\<rparr>\<rparr>
      in (if vaddr = 0 then - ENOMEM else 0, k))"

definition ipa3_nat_ipv6ct_allocate_mem ::
  "'w kernel_env \<Rightarrow> ipa3_platform \<Rightarrow> mem_dev \<Rightarrow> u64 \<Rightarrow> ipahal_nat_type \<Rightarrow> 'w ipa3 \<Rightarrow> (int \<times> 'w ipa3) option" where
  "ipa3_nat_ipv6ct_allocate_mem env pl d sz nat_type k =
     (let dev = get_dev d k in
      if sz = 0 then Some (- EPERM, k)
      else if \<not> cm_is_dev_init dev then Some (- EPERM, k)
      else if (cm_is_nat_mem dev \<and> nat_type \<noteq> IPAHAL_NAT_IPV4) \<or> (cm_is_ipv6ct_mem dev \<and> nat_type \<noteq> IPAHAL_NAT_IPV6CT)
      then Some (- EPERM, k)
      else do {
        nat_entry_size \<leftarrow> nat_entry_size pl nat_type;
        if unat sz > MAX_ALLOC_NAT_SIZE nat_entry_size then Some (- EPERM, k)
        else Some (if nat_type = IPAHAL_NAT_IPV4 then allocate_nat_mem env pl sz k
                   else if nat_type = IPAHAL_NAT_IPV6CT then allocate_ipv6ct_mem env sz k
                   else (0, k)) })"

text \<open>The label \<^verbatim>\<open>fail_alloc_pdn\<close>.  The in-use flag of the memory stays set.\<close>

definition fail_alloc_pdn :: "'w ipa3 \<Rightarrow> 'w ipa3 option" where
  "fail_alloc_pdn k =
     (let nmi = nm_last_alloc_loc (nat_mem k); mld = get_loc nmi k in
      if nmi = IPA_NAT_MEM_IN_DDR then
        if ml_vaddr mld \<noteq> 0 then do {
          k \<leftarrow> dma_free_coherent (ml_table_alloc_size mld) (ml_vaddr mld) (ml_dma_handle mld) k;
          Some (set_loc nmi ((get_loc nmi k)\<lparr>ml_vaddr := 0\<rparr>) k) }
        else Some k
      else if nmi = IPA_NAT_MEM_IN_SRAM then
        if ml_io_vaddr mld \<noteq> 0 then do {
          k \<leftarrow> release (IoMem (ml_io_vaddr mld)) k;
          Some (set_loc nmi ((get_loc nmi k)\<lparr>ml_io_vaddr := 0, ml_vaddr := 0\<rparr>) k) }
        else Some k
      else Some k)"

definition ipa3_allocate_nat_table :: "'w kernel_env \<Rightarrow> ipa3_platform \<Rightarrow> u64 \<Rightarrow> 'w ipa3 \<Rightarrow> (int \<times> 'w ipa3) option" where
  "ipa3_allocate_nat_table env pl sz k =
     do {
       (result, k) \<leftarrow> ipa3_nat_ipv6ct_allocate_mem env pl NatDev sz IPAHAL_NAT_IPV4 k;
       if result \<noteq> 0 then Some (result, k)
       else if \<not> (hw_type pl \<ge> IPA_HW_v4_0 \<and> nm_pdn_base (nat_mem k) = 0) then Some (0, k)
       else do {
         pdn_entry_size \<leftarrow> nat_entry_size pl IPAHAL_NAT_IPV4_PDN;
         max_pdn \<leftarrow> ipa3_get_max_pdn pl;
         let pdn_size = (of_nat (pdn_entry_size * max_pdn) :: u32);
         let k = k\<lparr>nat_mem := (nat_mem k)\<lparr>nm_pdn_size := pdn_size\<rparr>\<rparr>;
         if pdn_config_size pl < pdn_size then do { k \<leftarrow> fail_alloc_pdn k; Some (- ENOMEM, k) }
         else
           let (base, phys, k) = dma_alloc_coherent env (ucast pdn_size) k;
               k = k\<lparr>nat_mem := (nat_mem k)\<lparr>nm_pdn_base := base, nm_pdn_phys_base := phys\<rparr>\<rparr>
           in if base = 0 then do { k \<leftarrow> fail_alloc_pdn k; Some (- ENOMEM, k) }
              else Some (0, k\<lparr>nat_mem := (nat_mem k)\<lparr>nm_pdn_table := replicate max_pdn 0\<rparr>\<rparr>) } }"

definition ipa3_allocate_nat_device :: "'w kernel_env \<Rightarrow> ipa3_platform \<Rightarrow> u64 \<Rightarrow> 'w ipa3 \<Rightarrow> (int \<times> 'w ipa3) option" where
  "ipa3_allocate_nat_device env pl sz k = ipa3_allocate_nat_table env pl sz k"

definition ipa3_allocate_ipv6ct_table :: "'w kernel_env \<Rightarrow> ipa3_platform \<Rightarrow> u64 \<Rightarrow> 'w ipa3 \<Rightarrow> (int \<times> 'w ipa3) option" where
  "ipa3_allocate_ipv6ct_table env pl sz k =
     (if hw_type pl < IPA_HW_v4_0 then Some (- EPERM, k)
      else ipa3_nat_ipv6ct_allocate_mem env pl Ipv6ctDev sz IPAHAL_NAT_IPV6CT k)"

text \<open>\<open>vsize\<close> is the size of the mapping; page protections are not state of the driver.\<close>

definition ipa3_nat_ipv6ct_mmap :: "'w kernel_env \<Rightarrow> mem_dev \<Rightarrow> u64 \<Rightarrow> 'w ipa3 \<Rightarrow> int \<times> 'w ipa3" where
  "ipa3_nat_ipv6ct_mmap env d vsize k =
     (let dev = get_dev d k in
      if \<not> cm_is_dev_init dev then (- EPERM, k)
      else if cm_is_nat_mem dev then
        let nmi = nm_last_alloc_loc (nat_mem k); mld = get_loc nmi k in
        if \<not> IPA_VALID_NAT_MEM_IN nmi then (- EPERM, k)
        else if ml_vaddr mld = 0 then (- EPERM, k)
        else if ml_is_mapped mld then (- EINVAL, k)
        else if nmi = IPA_NAT_MEM_IN_SRAM \<and> (cm_phys_mem_size dev = 0 \<or> unat (cm_phys_mem_size dev) > unat vsize)
        then (- EINVAL, k)
        else
          let k = set_loc nmi (mld\<lparr>ml_base_address := 0\<rparr>) k;
              (result, k) = in_world (if nmi = IPA_NAT_MEM_IN_DDR
                then kenv_dma_mmap_coherent env vsize (ml_vaddr mld) (ml_dma_handle mld) (ml_table_alloc_size mld)
                else kenv_vm_iomap_memory env vsize (ml_phys_addr mld) (cm_phys_mem_size dev)) k
          in if result \<noteq> 0 then (result, k)
             else (0, set_loc nmi ((get_loc nmi k)\<lparr>ml_base_address := ml_vaddr mld, ml_is_mapped := True\<rparr>) k)
      else
        if cm_vaddr dev = 0 then (- EPERM, k)
        else if cm_is_mapped dev then (- EINVAL, k)
        else
          let k = set_dev d (dev\<lparr>cm_base_address := 0\<rparr>) k;
              (result, k) = in_world (kenv_dma_mmap_coherent env vsize (cm_vaddr dev) (cm_dma_handle dev) (cm_table_alloc_size dev)) k
          in if result \<noteq> 0 then (result, k)
             else (0, set_dev d ((get_dev d k)\<lparr>cm_base_address := cm_vaddr dev, cm_is_mapped := True\<rparr>) k))"

section \<open>Commands\<close>

text \<open>\<^verbatim>\<open>UINT_MAX - dma_handle\<close> is computed on 64 bits.\<close>

definition UINT_MAX :: u64 where "UINT_MAX = 0xFFFFFFFF"

definition ipa3_nat_ipv6ct_check_table_params ::
  "ipa3_platform \<Rightarrow> mem_dev \<Rightarrow> ipa3_nat_mem_in \<Rightarrow> u32 \<Rightarrow> u16 \<Rightarrow> ipahal_nat_type \<Rightarrow> 'w ipa3 \<Rightarrow> int option" where
  "ipa3_nat_ipv6ct_check_table_params pl d nmi offset entries_num nat_type k =
     (let dev = get_dev d k; mld = get_loc nmi k;
          orig_alloc_size = (if cm_is_ipv6ct_mem dev then cm_table_alloc_size dev else ml_table_alloc_size mld);
          overflow = (if cm_is_ipv6ct_mem dev then ucast offset > UINT_MAX - cm_dma_handle dev
                      else nmi = IPA_NAT_MEM_IN_DDR \<and> ucast offset > UINT_MAX - ml_dma_handle mld)
      in if overflow then Some (- EPERM)
      else do {
        entry_size \<leftarrow> nat_entry_size pl nat_type;
        let table_size = of_nat entry_size * (ucast entries_num :: u64);
        Some (if ucast offset > UINT_MAX - table_size then - EPERM
              else if ucast offset + table_size > orig_alloc_size then - EPERM
              else 0) })"

definition ipa3_nat_ipv6ct_create_init_cmd ::
  "bool \<Rightarrow> u64 \<Rightarrow> u8 \<Rightarrow> u32 \<Rightarrow> u32 \<Rightarrow> u16 \<Rightarrow> u16 \<Rightarrow> ipahal_imm_cmd_nat_ipv6ct_init_common" where
  "ipa3_nat_ipv6ct_create_init_cmd is_shared baddr tbl_index base_ofst expn_ofst entries expn_entries =
     \<lparr>base_table_addr = baddr + ucast base_ofst, expansion_table_addr = baddr + ucast expn_ofst,
      base_table_addr_shared = is_shared, expansion_table_addr_shared = is_shared,
      size_base_table = entries, size_expansion_table = expn_entries, init_table_index = tbl_index\<rparr>"

definition chk_sram_offset_alignment :: "u64 \<Rightarrow> u32 \<Rightarrow> bool" where
  "chk_sram_offset_alignment a m \<longleftrightarrow> a AND ucast m = 0"

definition ipa3_nat_ipv6ct_init_device_structure ::
  "mem_dev \<Rightarrow> ipa3_nat_mem_in \<Rightarrow> u32 \<Rightarrow> u32 \<Rightarrow> u16 \<Rightarrow> u16 \<Rightarrow> u32 \<Rightarrow> u32 \<Rightarrow> bool \<Rightarrow> 'w ipa3 \<Rightarrow> int \<times> 'w ipa3" where
  "ipa3_nat_ipv6ct_init_device_structure d nmi base_ofst expn_ofst entries expn_entries indx_ofst indx_expn_ofst focus_change k =
     (let dev = get_dev d k in
      if cm_is_ipv6ct_mem dev then
        (0, set_dev d (dev\<lparr>cm_base_table_addr := cm_base_address dev + ucast base_ofst,
               cm_expansion_table_addr := cm_base_address dev + ucast expn_ofst,
               cm_table_entries := ucast entries, cm_expn_table_entries := ucast expn_entries\<rparr>) k)
      else if cm_is_nat_mem dev then
        let k = k\<lparr>nat_mem := (nat_mem k)\<lparr>nm_active_table := nmi\<rparr>\<rparr>;
            mld = get_loc nmi k;
            mld = mld\<lparr>ml_base_table_addr := ml_base_address mld + ucast base_ofst,
                      ml_expansion_table_addr := ml_base_address mld + ucast expn_ofst,
                      ml_table_entries := ucast entries, ml_expn_table_entries := ucast expn_entries,
                      ml_index_table_addr := ml_base_address mld + ucast indx_ofst,
                      ml_index_table_expansion_addr := ml_base_address mld + ucast indx_expn_ofst\<rparr>;
            k = set_loc nmi mld k
        in if nmi = IPA_NAT_MEM_IN_DDR then
             (0, if focus_change then k\<lparr>nat_mem := (nat_mem k)\<lparr>nm_switch2ddr_cnt := nm_switch2ddr_cnt (nat_mem k) + 1\<rparr>\<rparr> else k)
           else if \<not> chk_sram_offset_alignment (ml_base_table_addr mld) 31 \<or>
                   \<not> chk_sram_offset_alignment (ml_expansion_table_addr mld) 31 \<or>
                   \<not> chk_sram_offset_alignment (ml_index_table_addr mld) 3 \<or>
                   \<not> chk_sram_offset_alignment (ml_index_table_expansion_addr mld) 3
                then (- ENODEV, k)
                else (0, if focus_change
                         then k\<lparr>nat_mem := (nat_mem k)\<lparr>nm_switch2sram_cnt := nm_switch2sram_cnt (nat_mem k) + 1\<rparr>\<rparr> else k)
      else (0, k))"

definition ipa3_nat_create_init_cmd ::
  "ipa3_platform \<Rightarrow> ipa_ioc_v4_nat_init \<Rightarrow> bool \<Rightarrow> u64 \<Rightarrow> ipahal_imm_cmd_ip_v4_nat_init" where
  "ipa3_nat_create_init_cmd pl init is_shared baddr =
     \<lparr>table_init = ipa3_nat_ipv6ct_create_init_cmd is_shared baddr (init_tbl_index init) (ipv4_rules_offset init)
        (expn_rules_offset init) (init_table_entries init) (init_expn_table_entries init),
      index_table_addr = baddr + ucast (index_offset init),
      index_table_expansion_addr = baddr + ucast (index_expn_offset init),
      index_table_addr_shared = is_shared, index_table_expansion_addr_shared = is_shared,
      public_addr_info = (if hw_type pl \<ge> IPA_HW_v4_0 then pdn_config_ofst pl else init_ip_addr init)\<rparr>"

definition ipa3_nat_create_modify_pdn_cmd ::
  "ipa3_platform \<Rightarrow> bool \<Rightarrow> 'w ipa3 \<Rightarrow> (int \<times> ipahal_imm_cmd_dma_shared_mem \<times> 'w ipa3) option" where
  "ipa3_nat_create_modify_pdn_cmd pl zero_mem k =
     do {
       pdn_entry_size \<leftarrow> nat_entry_size pl IPAHAL_NAT_IPV4_PDN;
       max_pdn \<leftarrow> ipa3_get_max_pdn pl;
       let mem_cmd = \<lparr>sm_system_addr = 0, sm_size = 0, sm_local_addr = 0, sm_clear_after_read = False, sm_is_read = False,
                      sm_skip_pipeline_clear = False, sm_pipeline_clear_options = IPAHAL_HPS_CLEAR\<rparr>;
       if nm_pdn_base (nat_mem k) = 0 then Some (- EFAULT, mem_cmd, k)
       else
         let k = (if zero_mem then k\<lparr>nat_mem := (nat_mem k)\<lparr>nm_pdn_table := map (\<lambda>_. 0) (nm_pdn_table (nat_mem k))\<rparr>\<rparr> else k)
         in Some (0, mem_cmd\<lparr>sm_size := of_nat (pdn_entry_size * max_pdn), sm_system_addr := nm_pdn_phys_base (nat_mem k),
                             sm_local_addr := ucast (smem_restricted_bytes pl) + pdn_config_ofst pl\<rparr>, k) }"

text \<open>The arrays \<^verbatim>\<open>cmd_pyld\<close> and \<^verbatim>\<open>desc\<close> under construction: the status so far, the payloads and the state.  A step is
  skipped once the status is an error; \<open>cap\<close> is the length of the arrays.\<close>

type_synonym 'w imm_seq = "int \<times> ipahal_imm_cmd_pyld list \<times> 'w ipa3"

definition construct_imm ::
  "'w kernel_env \<Rightarrow> ipa3_platform \<Rightarrow> imm_cmd \<Rightarrow> 'w ipa3 \<Rightarrow> (ipahal_imm_cmd_pyld option \<times> 'w ipa3) option" where
  "construct_imm env pl cmd k =
     do { (p, w) \<leftarrow> ipahal_construct_imm_cmd (imm_objs pl) (hw_type pl) (kenv_kzalloc env) cmd (k_world k);
          let k = k\<lparr>k_world := w\<rparr>;
          Some (p, if p = None then k else k\<lparr>k_pylds := k_pylds k + 1\<rparr>) }"

definition imm_push :: "'w kernel_env \<Rightarrow> ipa3_platform \<Rightarrow> nat \<Rightarrow> imm_cmd \<Rightarrow> int \<Rightarrow> 'w imm_seq \<Rightarrow> 'w imm_seq option" where
  "imm_push env pl cap cmd err s =
     (case s of (r, ps, k) \<Rightarrow>
        if r \<noteq> 0 then Some s
        else if length ps \<ge> cap then None
        else do { (p, k) \<leftarrow> construct_imm env pl cmd k;
                  Some (case p of None \<Rightarrow> (err, ps, k) | Some y \<Rightarrow> (0, ps @ [y], k)) })"

text \<open>The command that closes the coalescing frame, the no-operation, and the end of every sequence: sending it, unless a
  step failed, and destroying the payloads.\<close>

definition imm_coal_close :: "'w kernel_env \<Rightarrow> ipa3_platform \<Rightarrow> nat \<Rightarrow> 'w imm_seq \<Rightarrow> 'w imm_seq option" where
  "imm_coal_close env pl cap s =
     (if coal_ep pl \<noteq> - 1 \<and> \<not> ulso_wa pl
      then imm_push env pl cap (IPA_IMM_CMD_REGISTER_WRITE \<lparr>rw_offset = force_close_ofst pl, rw_value = force_close_val pl,
             rw_value_mask = force_close_mask pl, rw_skip_pipeline_clear = False, rw_pipeline_clear_options = IPAHAL_HPS_CLEAR\<rparr>)
             (- ENOMEM) s
      else Some s)"

definition imm_nop :: "'w kernel_env \<Rightarrow> ipa3_platform \<Rightarrow> nat \<Rightarrow> 'w imm_seq \<Rightarrow> 'w imm_seq option" where
  "imm_nop env pl cap s =
     imm_push env pl cap (IPA_IMM_CMD_REGISTER_WRITE \<lparr>rw_offset = 0, rw_value = 0, rw_value_mask = 0,
       rw_skip_pipeline_clear = False, rw_pipeline_clear_options = IPAHAL_HPS_CLEAR\<rparr>) (- ENOMEM) s"

definition imm_finish :: "'w kernel_env \<Rightarrow> 'w imm_seq \<Rightarrow> int \<times> 'w ipa3" where
  "imm_finish env s =
     (case s of (r, ps, k) \<Rightarrow>
        let (r, k) = (if r \<noteq> 0 then (r, k) else in_world (kenv_send_cmd env ps) k)
        in (r, k\<lparr>k_pylds := k_pylds k - length ps\<rparr>))"

definition ipa3_nat_send_init_cmd ::
  "'w kernel_env \<Rightarrow> ipa3_platform \<Rightarrow> ipahal_imm_cmd_ip_v4_nat_init \<Rightarrow> bool \<Rightarrow> 'w ipa3 \<Rightarrow> (int \<times> 'w ipa3) option" where
  "ipa3_nat_send_init_cmd env pl cmd zero_pdn_table k =
     do {
       let cap = IPA_NAT_MAX_NUM_OF_INIT_CMD_DESC;
       s \<leftarrow> imm_coal_close env pl cap (0, [], k);
       s \<leftarrow> imm_nop env pl cap s;
       (r, ps, k) \<leftarrow> imm_push env pl cap (IPA_IMM_CMD_IP_V4_NAT_INIT cmd) (- EPERM) s;
       s \<leftarrow> (if r \<noteq> 0 \<or> hw_type pl < IPA_HW_v4_0 then Some (r, ps, k)
             else if length ps \<ge> IPA_NAT_MAX_NUM_OF_INIT_CMD_DESC then Some (- ENOBUFS, ps, k)
             else do {
               (r, mem_cmd, k) \<leftarrow> ipa3_nat_create_modify_pdn_cmd pl zero_pdn_table k;
               if r \<noteq> 0 then Some (r, ps, k)
               else imm_push env pl cap (IPA_IMM_CMD_DMA_SHARED_MEM mem_cmd) (- ENOMEM) (0, ps, k) });
       Some (imm_finish env s) }"

definition ipa3_ipv6ct_send_init_cmd ::
  "'w kernel_env \<Rightarrow> ipa3_platform \<Rightarrow> ipahal_imm_cmd_nat_ipv6ct_init_common \<Rightarrow> 'w ipa3 \<Rightarrow> (int \<times> 'w ipa3) option" where
  "ipa3_ipv6ct_send_init_cmd env pl cmd k =
     do {
       let cap = IPA_IPV6CT_MAX_NUM_OF_INIT_CMD_DESC;
       s \<leftarrow> imm_coal_close env pl cap (0, [], k);
       (r, ps, k) \<leftarrow> imm_nop env pl cap s;
       s \<leftarrow> (if r \<noteq> 0 then Some (r, ps, k)
             else if length ps \<ge> IPA_IPV6CT_MAX_NUM_OF_INIT_CMD_DESC then Some (- ENOBUFS, ps, k)
             else imm_push env pl cap (IPA_IMM_CMD_IP_V6_CT_INIT cmd) (- EPERM) (0, ps, k));
       Some (imm_finish env s) }"

end
