(* ===== verification/Ipa3_Nat_Cmd.thy ===== *)
theory Ipa3_Nat_Cmd
  imports Ipa3_Nat
begin

text \<open>
  The ioctl handlers of \<^verbatim>\<open>ipa_v3/ipa_nat.c\<close> (initialisation, PDN modification, table writes, deletion, SRAM query)
  and their dispatch in \<^verbatim>\<open>ipa3_ioctl\<close> of \<^verbatim>\<open>ipa_v3/ipa.c\<close>.
\<close>

section \<open>Initialisation\<close>

definition nmi_of_u8 :: "u8 \<Rightarrow> ipa3_nat_mem_in" where
  "nmi_of_u8 b = (if b = 0 then IPA_NAT_MEM_IN_DDR else if b = 1 then IPA_NAT_MEM_IN_SRAM else IPA_NAT_MEM_IN_MAX)"

text \<open>The construction of the PDN entry \<open>i\<close> at \<^verbatim>\<open>pdn_mem.base\<close>; outside of the table it is a write outside of the buffer.\<close>

definition construct_pdn_entry :: "ipa3_platform \<Rightarrow> nat \<Rightarrow> ipahal_nat_pdn_entry \<Rightarrow> 'w ipa3 \<Rightarrow> (int \<times> 'w ipa3) option" where
  "construct_pdn_entry pl i flds k =
     do {
       (result, entry) \<leftarrow> ipahal_nat_construct_entry (nat_objs pl) (hw_type pl) IPAHAL_NAT_IPV4_PDN flds;
       if result \<noteq> 0 then Some (result, k)
       else if i < length (nm_pdn_table (nat_mem k))
       then Some (0, k\<lparr>nat_mem := (nat_mem k)\<lparr>nm_pdn_table := (nm_pdn_table (nat_mem k))[i := the entry]\<rparr>\<rparr>)
       else None }"

fun check_tables :: "(unit \<Rightarrow> int option) list \<Rightarrow> int option" where
  "check_tables [] = Some 0"
| "check_tables (c # cs) = do { r \<leftarrow> c (); if r \<noteq> 0 then Some r else check_tables cs }"

definition ipa3_nat_init_cmd ::
  "'w kernel_env \<Rightarrow> ipa3_platform \<Rightarrow> ipa_ioc_v4_nat_init \<Rightarrow> 'w ipa3 \<Rightarrow> (int \<times> 'w ipa3) option" where
  "ipa3_nat_init_cmd env pl init k =
     (let init = (if sram_compatible k then init
                  else init\<lparr>init_mem_type := IPA_NAT_MEM_IN_DDR, init_focus_change := False\<rparr>);
          nmi = init_mem_type init
      in if \<not> IPA_VALID_TBL_INDEX (init_tbl_index init) then Some (- EPERM, k)
      else if init_table_entries init = 0 \<or> init_table_entries init = 0xFFFF then Some (- EPERM, k)
      else if \<not> IPA_VALID_NAT_MEM_IN nmi then Some (- EPERM, k)
      else if \<not> ml_is_mapped (get_loc nmi k) then Some (- EPERM, k)
      else do {
        result \<leftarrow> check_tables
          [\<lambda>_. ipa3_nat_ipv6ct_check_table_params pl NatDev nmi (ipv4_rules_offset init) (init_table_entries init + 1) IPAHAL_NAT_IPV4 k,
           \<lambda>_. ipa3_nat_ipv6ct_check_table_params pl NatDev nmi (expn_rules_offset init) (init_expn_table_entries init) IPAHAL_NAT_IPV4 k,
           \<lambda>_. ipa3_nat_ipv6ct_check_table_params pl NatDev nmi (index_offset init) (init_table_entries init + 1) IPAHAL_NAT_IPV4_INDEX k,
           \<lambda>_. ipa3_nat_ipv6ct_check_table_params pl NatDev nmi (index_expn_offset init) (init_expn_table_entries init)
                  IPAHAL_NAT_IPV4_INDEX k];
        if result \<noteq> 0 then Some (result, k)
        else do {
          let cmd = (if nmi = IPA_NAT_MEM_IN_DDR then ipa3_nat_create_init_cmd pl init False (ml_dma_handle (get_loc nmi k))
                     else ipa3_nat_create_init_cmd pl init True (ucast (nat_tbl_ofst pl)));
          (result, k) \<leftarrow> (if hw_type pl \<ge> IPA_HW_v4_0 \<and> nm_pdn_base (nat_mem k) \<noteq> 0 \<and> \<not> init_focus_change init
                         then construct_pdn_entry pl 0
                                \<lparr>hal_public_ip = init_ip_addr init, hal_src_metadata = 0, hal_dst_metadata = 0\<rparr> k
                         else Some (0, k));
          if result \<noteq> 0 then Some (result, k)
          else do {
            (result, k) \<leftarrow> ipa3_nat_send_init_cmd env pl cmd False k;
            if result \<noteq> 0 then Some (result, k)
            else
              let (result, k) = ipa3_nat_ipv6ct_init_device_structure NatDev nmi (ipv4_rules_offset init) (expn_rules_offset init)
                     (init_table_entries init) (init_expn_table_entries init) (index_offset init) (index_expn_offset init)
                     (init_focus_change init) k
              in Some (if result \<noteq> 0 then (result, k)
                       else (0, k\<lparr>nat_mem := (nat_mem k)\<lparr>nm_public_ip_addr := init_ip_addr init,
                                    nm_dev := (nm_dev (nat_mem k))\<lparr>cm_is_hw_init := True\<rparr>\<rparr>\<rparr>)) } } })"

definition ipa3_ipv6ct_init_cmd ::
  "'w kernel_env \<Rightarrow> ipa3_platform \<Rightarrow> ipa_ioc_ipv6ct_init \<Rightarrow> 'w ipa3 \<Rightarrow> (int \<times> 'w ipa3) option" where
  "ipa3_ipv6ct_init_cmd env pl init k =
     (if hw_type pl < IPA_HW_v4_0 then Some (- EPERM, k)
      else if \<not> IPA_VALID_TBL_INDEX (ct_tbl_index init) then Some (- EPERM, k)
      else if ct_init_table_entries init = 0 then Some (- EPERM, k)
      else if \<not> cm_is_mapped (ipv6ct_dev k) then Some (- EPERM, k)
      else do {
        result \<leftarrow> check_tables
          [\<lambda>_. ipa3_nat_ipv6ct_check_table_params pl Ipv6ctDev IPA_NAT_MEM_IN_DDR (ct_base_table_offset init)
                  (ct_init_table_entries init + 1) IPAHAL_NAT_IPV6CT k,
           \<lambda>_. ipa3_nat_ipv6ct_check_table_params pl Ipv6ctDev IPA_NAT_MEM_IN_DDR (ct_expn_table_offset init)
                  (ct_init_expn_table_entries init) IPAHAL_NAT_IPV6CT k];
        if result \<noteq> 0 then Some (result, k)
        else do {
          (result, k) \<leftarrow> ipa3_ipv6ct_send_init_cmd env pl
             (ipa3_nat_ipv6ct_create_init_cmd False (cm_dma_handle (ipv6ct_dev k)) (ct_tbl_index init) (ct_base_table_offset init)
                (ct_expn_table_offset init) (ct_init_table_entries init) (ct_init_expn_table_entries init)) k;
          if result \<noteq> 0 then Some (result, k)
          else
            let (_, k) = ipa3_nat_ipv6ct_init_device_structure Ipv6ctDev IPA_NAT_MEM_IN_DDR (ct_base_table_offset init)
                   (ct_expn_table_offset init) (ct_init_table_entries init) (ct_init_expn_table_entries init) 0 0 False k
            in Some (0, k\<lparr>ipv6ct_dev := (ipv6ct_dev k)\<lparr>cm_is_hw_init := True\<rparr>\<rparr>) } })"

section \<open>PDN entries and table writes\<close>

definition ipa3_nat_mdfy_pdn ::
  "'w kernel_env \<Rightarrow> ipa3_platform \<Rightarrow> ipa_ioc_nat_pdn_entry \<Rightarrow> 'w ipa3 \<Rightarrow> (int \<times> 'w ipa3) option" where
  "ipa3_nat_mdfy_pdn env pl mdfy_pdn k =
     (if hw_type pl < IPA_HW_v4_0 then Some (- EPERM, k)
      else if nm_pdn_base (nat_mem k) = 0 then Some (- EPERM, k)
      else do {
        max_pdn \<leftarrow> ipa3_get_max_pdn pl;
        if uint (ioc_pdn_index mdfy_pdn) > int max_pdn - 1 then Some (- EPERM, k)
        else do {
          (result, k) \<leftarrow> construct_pdn_entry pl (unat (ioc_pdn_index mdfy_pdn))
             \<lparr>hal_public_ip = ioc_public_ip mdfy_pdn,
              hal_src_metadata = (if hw_type pl = IPA_HW_v4_1 then ioc_src_metadata mdfy_pdn OR IPA_QMAP_TETH_BIT
                                  else ioc_src_metadata mdfy_pdn),
              hal_dst_metadata = ioc_dst_metadata mdfy_pdn\<rparr> k;
          if result \<noteq> 0 then Some (result, k)
          else do {
            (result, mem_cmd, k) \<leftarrow> ipa3_nat_create_modify_pdn_cmd pl False k;
            if result \<noteq> 0 then Some (result, k)
            else do {
              s \<leftarrow> imm_push env pl 1 (IPA_IMM_CMD_DMA_SHARED_MEM mem_cmd) (- ENOMEM) (0, [], k);
              Some (imm_finish env s) } } } })"

datatype nat_tbl_type =
    IPA_NAT_BASE_TBL_K | IPA_NAT_EXPN_TBL_K | IPA_NAT_INDX_TBL_K | IPA_NAT_INDEX_EXPN_TBL_K
  | IPA_IPV6CT_BASE_TBL_K | IPA_IPV6CT_EXPN_TBL_K

definition ipa_nat_ipv6ct_table_type :: "u8 \<Rightarrow> nat_tbl_type option" where
  "ipa_nat_ipv6ct_table_type b =
     (if b = 0 then Some IPA_NAT_BASE_TBL_K else if b = 1 then Some IPA_NAT_EXPN_TBL_K
      else if b = 2 then Some IPA_NAT_INDX_TBL_K else if b = 3 then Some IPA_NAT_INDEX_EXPN_TBL_K
      else if b = 4 then Some IPA_IPV6CT_BASE_TBL_K else if b = 5 then Some IPA_IPV6CT_EXPN_TBL_K else None)"

definition ipa3_nat_ipv6ct_calculate_table_size ::
  "ipa3_platform \<Rightarrow> ipa3_nat_mem_in \<Rightarrow> u8 \<Rightarrow> 'w ipa3 \<Rightarrow> u32 option" where
  "ipa3_nat_ipv6ct_calculate_table_size pl nmi tbl k =
     (let mld = get_loc nmi k; sized = (\<lambda>nat_type n. do { sz \<leftarrow> nat_entry_size pl nat_type; Some (of_nat sz * n) }) in
      case ipa_nat_ipv6ct_table_type tbl of
        Some IPA_NAT_BASE_TBL_K \<Rightarrow> sized IPAHAL_NAT_IPV4 (ml_table_entries mld + 1)
      | Some IPA_NAT_EXPN_TBL_K \<Rightarrow> sized IPAHAL_NAT_IPV4 (ml_expn_table_entries mld)
      | Some IPA_NAT_INDX_TBL_K \<Rightarrow> sized IPAHAL_NAT_IPV4_INDEX (ml_table_entries mld + 1)
      | Some IPA_NAT_INDEX_EXPN_TBL_K \<Rightarrow> sized IPAHAL_NAT_IPV4_INDEX (ml_expn_table_entries mld)
      | Some IPA_IPV6CT_BASE_TBL_K \<Rightarrow> sized IPAHAL_NAT_IPV6CT (cm_table_entries (ipv6ct_dev k) + 1)
      | Some IPA_IPV6CT_EXPN_TBL_K \<Rightarrow> sized IPAHAL_NAT_IPV6CT (cm_expn_table_entries (ipv6ct_dev k))
      | None \<Rightarrow> Some 0)"

definition ipa3_table_validate_table_dma_one ::
  "ipa3_platform \<Rightarrow> ipa3_nat_mem_in \<Rightarrow> ipa_ioc_nat_dma_one \<Rightarrow> 'w ipa3 \<Rightarrow> int option" where
  "ipa3_table_validate_table_dma_one pl nmi param k =
     (if dma_table_index param \<ge> 1 then Some (- EPERM)
      else
        let ok = (case ipa_nat_ipv6ct_table_type (dma_base_addr param) of
                    None \<Rightarrow> False
                  | Some t \<Rightarrow>
                      if t \<in> {IPA_IPV6CT_BASE_TBL_K, IPA_IPV6CT_EXPN_TBL_K}
                      then \<not> hw_type pl < IPA_HW_v4_0 \<and> cm_is_hw_init (ipv6ct_dev k)
                      else cm_is_hw_init (nm_dev (nat_mem k)))
        in if \<not> ok then Some (- EPERM)
        else do {
          table_size \<leftarrow> ipa3_nat_ipv6ct_calculate_table_size pl nmi (dma_base_addr param) k;
          Some (if table_size = 0 then - EPERM
                else if dma_offset param \<ge> table_size then - EPERM
                else 0) })"

text \<open>One descriptor less than the array holds is left for entries, and one less still with a coalescing pipe.\<close>

definition max_dma_table_cmds :: "ipa3_platform \<Rightarrow> nat" where
  "max_dma_table_cmds pl =
     (if coal_ep pl \<noteq> - 1 then IPA_MAX_NUM_OF_TABLE_DMA_CMD_DESC - 1 else IPA_MAX_NUM_OF_TABLE_DMA_CMD_DESC)"

fun push_table_dmas ::
  "'w kernel_env \<Rightarrow> ipa3_platform \<Rightarrow> ipa_ioc_nat_dma_one list \<Rightarrow> 'w imm_seq \<Rightarrow> 'w imm_seq option" where
  "push_table_dmas env pl [] s = Some s"
| "push_table_dmas env pl (d # ds) s =
     do {
       s \<leftarrow> imm_push env pl IPA_MAX_NUM_OF_TABLE_DMA_CMD_DESC
              (if hw_type pl \<ge> IPA_HW_v4_0 then IPA_IMM_CMD_TABLE_DMA d else IPA_IMM_CMD_NAT_DMA d) (- ENOMEM) s;
       push_table_dmas env pl ds s }"

definition ipa3_table_dma_cmd ::
  "'w kernel_env \<Rightarrow> ipa3_platform \<Rightarrow> ipa_ioc_nat_dma_cmd \<Rightarrow> 'w ipa3 \<Rightarrow> (int \<times> 'w ipa3) option" where
  "ipa3_table_dma_cmd env pl dma k =
     (let nmi = (if sram_compatible k then nmi_of_u8 (cmd_mem_type dma) else IPA_NAT_MEM_IN_DDR);
          entries = length (cmd_dma dma)
      in if \<not> cm_is_dev_init (nm_dev (nat_mem k)) then Some (- EPERM, k)
      else if \<not> IPA_VALID_NAT_MEM_IN nmi then Some (- EPERM, k)
      else if entries = 0 \<or> entries > max_dma_table_cmds pl - 1 then Some (- EPERM, k)
      else do {
        result \<leftarrow> check_tables (map (\<lambda>d _. ipa3_table_validate_table_dma_one pl nmi d k) (cmd_dma dma));
        if result \<noteq> 0 then Some (result, k)
        else do {
          s \<leftarrow> imm_coal_close env pl IPA_MAX_NUM_OF_TABLE_DMA_CMD_DESC (0, [], k);
          s \<leftarrow> imm_nop env pl IPA_MAX_NUM_OF_TABLE_DMA_CMD_DESC s;
          s \<leftarrow> push_table_dmas env pl (cmd_dma dma) s;
          Some (imm_finish env s) } })"

definition ipa3_nat_dma_cmd ::
  "'w kernel_env \<Rightarrow> ipa3_platform \<Rightarrow> ipa_ioc_nat_dma_cmd \<Rightarrow> 'w ipa3 \<Rightarrow> (int \<times> 'w ipa3) option" where
  "ipa3_nat_dma_cmd env pl dma k = ipa3_table_dma_cmd env pl dma k"

section \<open>Deletion\<close>

definition ipa3_nat_ipv6ct_free_mem :: "mem_dev \<Rightarrow> 'w ipa3 \<Rightarrow> 'w ipa3 option" where
  "ipa3_nat_ipv6ct_free_mem d k =
     (let dev = get_dev d k in
      if cm_is_ipv6ct_mem dev then do {
        k \<leftarrow> (if cm_vaddr dev \<noteq> 0 then dma_free_coherent (cm_table_alloc_size dev) (cm_vaddr dev) (cm_dma_handle dev) k else Some k);
        Some (set_dev d ((get_dev d k)\<lparr>cm_vaddr := 0, cm_dma_handle := 0, cm_table_alloc_size := 0, cm_base_table_addr := 0,
                cm_expansion_table_addr := 0, cm_table_entries := 0, cm_expn_table_entries := 0, cm_is_hw_init := False,
                cm_is_mapped := False\<rparr>) k) }
      else if cm_is_nat_mem dev then do {
        k \<leftarrow> (if nm_ddr_in_use (nat_mem k) then
                let k = k\<lparr>nat_mem := (nat_mem k)\<lparr>nm_ddr_in_use := False\<rparr>\<rparr>; mld = get_loc IPA_NAT_MEM_IN_DDR k
                in if ml_vaddr mld \<noteq> 0 then dma_free_coherent (ml_table_alloc_size mld) (ml_vaddr mld) (ml_dma_handle mld) k
                   else Some k
              else Some k);
        k \<leftarrow> (if nm_sram_in_use (nat_mem k) then
                let k = k\<lparr>nat_mem := (nat_mem k)\<lparr>nm_sram_in_use := False\<rparr>\<rparr>; mld = get_loc IPA_NAT_MEM_IN_SRAM k
                in if ml_io_vaddr mld \<noteq> 0 then release (IoMem (ml_io_vaddr mld)) k else Some k
              else Some k);
        Some (k\<lparr>nat_mem := (nat_mem k)\<lparr>nm_dev := (nm_dev (nat_mem k))\<lparr>cm_is_hw_init := False, cm_is_mapped := False\<rparr>,
                nm_mem_loc := (\<lambda>_. loc_zero)\<rparr>\<rparr>) }
      else Some k)"

text \<open>The address of the temporary memory goes through a \<^verbatim>\<open>u32\<close>.\<close>

definition ipa3_nat_ipv6ct_create_del_table_cmd ::
  "u8 \<Rightarrow> u32 \<Rightarrow> ipa3_nat_ipv6ct_common_mem \<Rightarrow> int \<times> ipahal_imm_cmd_nat_ipv6ct_init_common" where
  "ipa3_nat_ipv6ct_create_del_table_cmd tbl_index addr0 dev =
     (let (mem_type_shared, addr) = (case cm_tmp_mem dev of
              None \<Rightarrow> (True, addr0) | Some tmp \<Rightarrow> (False, ucast (tmp_dma_handle tmp)))
      in (if \<not> IPA_VALID_TBL_INDEX tbl_index then - EPERM else 0,
          \<lparr>base_table_addr = ucast addr, expansion_table_addr = ucast addr, base_table_addr_shared = mem_type_shared,
           expansion_table_addr_shared = mem_type_shared, size_base_table = 0, size_expansion_table = 0,
           init_table_index = tbl_index\<rparr>))"

definition ipa3_nat_send_del_table_cmd ::
  "'w kernel_env \<Rightarrow> ipa3_platform \<Rightarrow> u8 \<Rightarrow> 'w ipa3 \<Rightarrow> (int \<times> 'w ipa3) option" where
  "ipa3_nat_send_del_table_cmd env pl tbl_index k =
     (let (result, ti) = ipa3_nat_ipv6ct_create_del_table_cmd tbl_index (nat_tbl_ofst pl) (nm_dev (nat_mem k)) in
      if result \<noteq> 0 then Some (result, k)
      else ipa3_nat_send_init_cmd env pl
             \<lparr>table_init = ti, index_table_addr = base_table_addr ti, index_table_expansion_addr = base_table_addr ti,
              index_table_addr_shared = base_table_addr_shared ti, index_table_expansion_addr_shared = base_table_addr_shared ti,
              public_addr_info = 0\<rparr> True k)"

definition ipa3_ipv6ct_send_del_table_cmd ::
  "'w kernel_env \<Rightarrow> ipa3_platform \<Rightarrow> u8 \<Rightarrow> 'w ipa3 \<Rightarrow> (int \<times> 'w ipa3) option" where
  "ipa3_ipv6ct_send_del_table_cmd env pl tbl_index k =
     (let (result, ti) = ipa3_nat_ipv6ct_create_del_table_cmd tbl_index 0 (ipv6ct_dev k) in
      if result \<noteq> 0 then Some (result, k) else ipa3_ipv6ct_send_init_cmd env pl ti k)"

definition ipa3_del_nat_table ::
  "'w kernel_env \<Rightarrow> ipa3_platform \<Rightarrow> u8 \<Rightarrow> u8 \<Rightarrow> 'w ipa3 \<Rightarrow> (int \<times> 'w ipa3) option" where
  "ipa3_del_nat_table env pl table_index mem_type k =
     (let nmi = (if sram_compatible k then nmi_of_u8 mem_type else IPA_NAT_MEM_IN_DDR) in
      if \<not> cm_is_dev_init (nm_dev (nat_mem k)) then Some (- EPERM, k)
      else if \<not> IPA_VALID_TBL_INDEX table_index then Some (- EPERM, k)
      else if \<not> IPA_VALID_NAT_MEM_IN nmi then Some (- EPERM, k)
      else do {
        (result, k) \<leftarrow> (if cm_is_hw_init (nm_dev (nat_mem k)) then ipa3_nat_send_del_table_cmd env pl table_index k else Some (0, k));
        if result \<noteq> 0 then Some (result, k)
        else do {
          let k = k\<lparr>nat_mem := (nat_mem k)\<lparr>nm_public_ip_addr := 0\<rparr>\<rparr>;
          let k = set_loc nmi ((get_loc nmi k)\<lparr>ml_index_table_addr := 0, ml_index_table_expansion_addr := 0\<rparr>) k;
          k \<leftarrow> (if hw_type pl \<ge> IPA_HW_v4_0 \<and> nm_pdn_base (nat_mem k) \<noteq> 0 then do {
                  k \<leftarrow> dma_free_coherent (ucast (nm_pdn_size (nat_mem k))) (nm_pdn_base (nat_mem k)) (nm_pdn_phys_base (nat_mem k)) k;
                  Some (k\<lparr>nat_mem := (nat_mem k)\<lparr>nm_pdn_base := 0, nm_pdn_table := []\<rparr>\<rparr>) }
                else Some k);
          k \<leftarrow> ipa3_nat_ipv6ct_free_mem NatDev k;
          Some (0, k) } })"

text \<open>\<open>stack_mem_type\<close> is the member \<^verbatim>\<open>mem_type\<close> of the local structure, which is not initialised.\<close>

definition ipa3_nat_del_cmd ::
  "'w kernel_env \<Rightarrow> ipa3_platform \<Rightarrow> u8 \<Rightarrow> u8 \<Rightarrow> 'w ipa3 \<Rightarrow> (int \<times> 'w ipa3) option" where
  "ipa3_nat_del_cmd env pl stack_mem_type table_index k = ipa3_del_nat_table env pl table_index stack_mem_type k"

definition ipa3_del_ipv6ct_table ::
  "'w kernel_env \<Rightarrow> ipa3_platform \<Rightarrow> u8 \<Rightarrow> 'w ipa3 \<Rightarrow> (int \<times> 'w ipa3) option" where
  "ipa3_del_ipv6ct_table env pl table_index k =
     (if \<not> cm_is_dev_init (ipv6ct_dev k) then Some (- EPERM, k)
      else if hw_type pl < IPA_HW_v4_0 then Some (- EPERM, k)
      else do {
        (result, k) \<leftarrow> (if cm_is_hw_init (ipv6ct_dev k) then ipa3_ipv6ct_send_del_table_cmd env pl table_index k else Some (0, k));
        if result \<noteq> 0 then Some (result, k)
        else do { k \<leftarrow> ipa3_nat_ipv6ct_free_mem Ipv6ctDev k; Some (0, k) } })"

section \<open>The SRAM query\<close>

text \<open>\<^verbatim>\<open>PAGE_SIZE\<close> is 4096 and \<^verbatim>\<open>~PAGE_MASK\<close> its low 12 bits; the sum of the offset and the size is on 32 bits.\<close>

definition ipa3_nat_get_sram_info :: "ipa3_platform \<Rightarrow> 'w ipa3 \<Rightarrow> int \<times> ipa_nat_in_sram_info \<times> 'w ipa3" where
  "ipa3_nat_get_sram_info pl k =
     (if \<not> cm_is_dev_init (nm_dev (nat_mem k)) then (- EPERM, sram_info_zero, k)
      else
        let ofst = sram_phys_addr pl AND of_nat (PAGE_SIZE - 1)
        in (0, \<lparr>sram_mem_available_for_nat = nat_tbl_size pl, nat_table_offset_into_mmap = ofst,
                best_nat_in_sram_size_rqst =
                  of_nat ((unat (ofst + nat_tbl_size pl) + (PAGE_SIZE - 1)) div PAGE_SIZE * PAGE_SIZE)\<rparr>,
            k\<lparr>sram_compatible := True\<rparr>))"

section \<open>The ioctls\<close>

text \<open>A request with the structure that is copied from user space.  \<open>offset\<close> is what the caller left in the structure: the
  driver never writes it.  The table writes carry the number of entries of the first copy and the command of the second;
  \<open>IPA_IOC_V4_DEL_NAT\<close> the content of the stack.\<close>

datatype nat_request =
    IPA_IOC_ALLOC_NAT_MEM u64
  | IPA_IOC_ALLOC_NAT_TABLE u64 int
  | IPA_IOC_ALLOC_IPV6CT_TABLE u64 int
  | IPA_IOC_V4_INIT_NAT ipa_ioc_v4_nat_init
  | IPA_IOC_INIT_IPV6CT_TABLE ipa_ioc_ipv6ct_init
  | IPA_IOC_TABLE_DMA_CMD nat ipa_ioc_nat_dma_cmd
  | IPA_IOC_V4_DEL_NAT u8 u8
  | IPA_IOC_DEL_NAT_TABLE u8 u8
  | IPA_IOC_DEL_IPV6CT_TABLE u8 u8
  | IPA_IOC_NAT_MODIFY_PDN ipa_ioc_nat_pdn_entry
  | IPA_IOC_GET_NAT_IN_SRAM_INFO
  | MMAP mem_dev u64

definition proc_sram_info_rqst :: "'w kernel_env \<Rightarrow> ipa3_platform \<Rightarrow> 'w ipa3 \<Rightarrow> int \<times> 'w ipa3" where
  "proc_sram_info_rqst env pl k =
     (let (result, _, k) = ipa3_nat_get_sram_info pl k in
      if result \<noteq> 0 then (- EFAULT, k)
      else let (ok, k) = in_world (kenv_copy_user env) k in (if ok then 0 else - EFAULT, k))"

text \<open>A handler after \<^verbatim>\<open>copy_from_user\<close>: every error of the handler becomes \<^verbatim>\<open>-EFAULT\<close>.\<close>

definition handled :: "'w kernel_env \<Rightarrow> ('w ipa3 \<Rightarrow> (int \<times> 'w ipa3) option) \<Rightarrow> 'w ipa3 \<Rightarrow> (int \<times> 'w ipa3) option" where
  "handled env h k =
     (let (ok, k) = in_world (kenv_copy_user env) k in
      if \<not> ok then Some (- EFAULT, k)
      else do { (result, k) \<leftarrow> h k; Some (if result \<noteq> 0 then - EFAULT else 0, k) })"

definition copied_back :: "'w kernel_env \<Rightarrow> bool \<Rightarrow> int \<times> 'w ipa3 \<Rightarrow> int \<times> 'w ipa3" where
  "copied_back env need rk =
     (case rk of (result, k) \<Rightarrow>
        if result \<noteq> 0 \<or> \<not> need then (result, k)
        else let (ok, k) = in_world (kenv_copy_user env) k in (if ok then 0 else - EFAULT, k))"

fun ipa3_nat_ioctl :: "'w kernel_env \<Rightarrow> ipa3_platform \<Rightarrow> nat_request \<Rightarrow> 'w ipa3 \<Rightarrow> (int \<times> 'w ipa3) option" where
  "ipa3_nat_ioctl env pl (IPA_IOC_ALLOC_NAT_MEM sz) k =
     map_option (copied_back env True) (handled env (ipa3_allocate_nat_device env pl sz) k)"
| "ipa3_nat_ioctl env pl (IPA_IOC_ALLOC_NAT_TABLE sz offset) k =
     map_option (copied_back env (offset \<noteq> 0)) (handled env (ipa3_allocate_nat_table env pl sz) k)"
| "ipa3_nat_ioctl env pl (IPA_IOC_ALLOC_IPV6CT_TABLE sz offset) k =
     map_option (copied_back env (offset \<noteq> 0)) (handled env (ipa3_allocate_ipv6ct_table env pl sz) k)"
| "ipa3_nat_ioctl env pl (IPA_IOC_V4_INIT_NAT init) k = handled env (ipa3_nat_init_cmd env pl init) k"
| "ipa3_nat_ioctl env pl (IPA_IOC_INIT_IPV6CT_TABLE init) k = handled env (ipa3_ipv6ct_init_cmd env pl init) k"
| "ipa3_nat_ioctl env pl (IPA_IOC_TABLE_DMA_CMD pre_entry dma) k =
     (let (ok, k) = in_world (kenv_copy_user env) k in
      if \<not> ok then Some (- EFAULT, k)
      else
        let (err, k) = in_world (kenv_memdup_user env) k in
        if err < 0 then Some (err, k)
        else if length (cmd_dma dma) \<noteq> pre_entry then Some (- EFAULT, k)
        else do { (result, k) \<leftarrow> ipa3_table_dma_cmd env pl dma k; Some (if result \<noteq> 0 then - EFAULT else 0, k) })"
| "ipa3_nat_ioctl env pl (IPA_IOC_V4_DEL_NAT stack_mem_type table_index) k =
     handled env (ipa3_nat_del_cmd env pl stack_mem_type table_index) k"
| "ipa3_nat_ioctl env pl (IPA_IOC_DEL_NAT_TABLE table_index mem_type) k =
     handled env (ipa3_del_nat_table env pl table_index mem_type) k"
| "ipa3_nat_ioctl env pl (IPA_IOC_DEL_IPV6CT_TABLE table_index _) k =
     handled env (ipa3_del_ipv6ct_table env pl table_index) k"
| "ipa3_nat_ioctl env pl (IPA_IOC_NAT_MODIFY_PDN mdfy_pdn) k = handled env (ipa3_nat_mdfy_pdn env pl mdfy_pdn) k"
| "ipa3_nat_ioctl env pl IPA_IOC_GET_NAT_IN_SRAM_INFO k = Some (proc_sram_info_rqst env pl k)"
| "ipa3_nat_ioctl env pl (MMAP d vsize) k = Some (ipa3_nat_ipv6ct_mmap env d vsize k)"

end
