(* ===== verification/Ipahal_Ok.thy ===== *)
theory Ipahal_Ok
  imports Ipahal Nat_Rules_Ok Ipv6ct_Ok
begin

text \<open>
  The hardware abstraction layer: which callback a version gets, that the driver's view of the entries is the
  library's layout, that PDN entries are read back as written, and what the payload of a command carries.
\<close>

section \<open>Inheritance between versions\<close>

text \<open>The reference: an entry that is not given is that of the nearest version below, down to 3.0.\<close>

fun inherited :: "('o \<Rightarrow> bool) \<Rightarrow> (nat \<Rightarrow> 'j \<Rightarrow> 'o) \<Rightarrow> nat \<Rightarrow> 'j \<Rightarrow> 'o" where
  "inherited z objs 0 j = objs 0 j"
| "inherited z objs (Suc n) j = (if z (objs (Suc n) j) \<and> IPA_HW_v3_0 \<le> n then inherited z objs n j else objs (Suc n) j)"

lemma fill_version_eq:
  "fill_version z js i objs =
     objs(Suc i := (\<lambda>j. if j \<in> set js \<and> z (objs (Suc i) j) then objs i j else objs (Suc i) j))"
  unfolding fill_version_def
proof (induction js arbitrary: objs)
  case (Cons k js)
  show ?case by (simp only: fold_simps o_apply Cons.IH) (auto simp: fun_eq_iff)
qed (simp add: fun_eq_iff)

lemma fill_versions_inherited:
  assumes "IPA_HW_v3_0 \<le> hw"
  shows "fill_versions z js hw objs =
    (\<lambda>i j. if j \<in> set js \<and> IPA_HW_v3_0 \<le> i \<and> i \<le> hw then inherited z objs i j else objs i j)"
  using assms unfolding fill_versions_def
proof (induction hw rule: nat_induct_at_least)
  case base
  show ?case by (auto simp: fun_eq_iff IPA_HW_v3_0_def eval_nat_numeral)
next
  case (Suc n)
  have up: "[IPA_HW_v3_0..<Suc n] = [IPA_HW_v3_0..<n] @ [n]" using Suc.hyps by simp
  show ?case
    unfolding up fold_append o_apply Suc.IH using Suc.hyps
    by (auto simp: fill_version_eq fun_eq_iff le_Suc_eq)
qed

lemmas versions = IPA_HW_v3_0_def IPA_HW_v4_0_def IPA_HW_v4_5_def IPA_HW_v4_1_def IPA_HW_v5_0_def IPA_HW_MAX_def

lemmas hal_structs = ipa_nat_hw_ipv4_entry_def ipa_nat_hw_indx_entry_def ipa_nat_hw_pdn_entry_def
  ipa_nat_hw_ipv6ct_entry_def

lemma inherited_from:
  assumes "IPA_HW_v3_0 \<le> m" "m \<le> n" "\<not> z (objs m j)" "\<And>i. m < i \<Longrightarrow> i \<le> n \<Longrightarrow> z (objs i j)"
  shows "inherited z objs n j = objs m j"
  using assms(2,4)
proof (induction n rule: nat_induct_at_least)
  case base
  show ?case using assms(1,3) by (cases m) simp_all
next
  case (Suc n)
  then have "z (objs (Suc n) j)" by simp
  moreover have "inherited z objs n j = objs m j" using Suc.prems by (intro Suc.IH) simp
  ultimately show ?case using Suc.hyps assms(1) by simp
qed

lemma inherited_none:
  assumes "\<And>i. IPA_HW_v3_0 \<le> i \<Longrightarrow> i \<le> n \<Longrightarrow> objs i j = o0" "IPA_HW_v3_0 \<le> n"
  shows "inherited z objs n j = o0"
  using assms(2,1)
proof (induction n rule: nat_induct_at_least)
  case base
  have "inherited z objs IPA_HW_v3_0 j = objs IPA_HW_v3_0 j" by (simp add: IPA_HW_v3_0_def eval_nat_numeral)
  then show ?case using base by simp
qed (simp add: IPA_HW_v3_0_def)

lemma nat_obj4_nonzero [simp]: "\<not> nat_obj_is_zero (nat_obj4 st v str)"
  "\<not> nat_obj_is_zero ((nat_obj4 st v str)\<lparr>nobj_construct_entry := c, nobj_parse_entry := p\<rparr>)"
  "nat_obj_is_zero nat_zero_obj"
  by (simp_all add: nat_obj4_def nat_obj_is_zero_def nat_zero_obj_def)

text \<open>The table of a running driver.\<close>

definition hal_nat_objs :: "nat \<Rightarrow> nat_objs" where
  "hal_nat_objs hw = snd (ipahal_nat_init hw ipahal_nat_objs)"

definition hal_imm_objs :: "nat \<Rightarrow> imm_objs" where
  "hal_imm_objs hw = snd (ipahal_imm_cmd_init hw ipahal_imm_cmd_objs)"

lemma hal_nat_objs_inherited:
  assumes "IPA_HW_v3_0 \<le> hw" "hw < IPA_HW_MAX" "ty \<noteq> IPA_NAT_MAX"
  shows "hal_nat_objs hw hw ty = inherited nat_obj_is_zero ipahal_nat_objs hw ty"
  using assms by (cases ty) (simp_all add: hal_nat_objs_def ipahal_nat_init_def fill_versions_inherited)

lemma hal_nat_from:
  assumes "IPA_HW_v3_0 \<le> v" "v \<le> hw" "hw < IPA_HW_MAX" "ty \<noteq> IPA_NAT_MAX" "\<not> nat_obj_is_zero (ipahal_nat_objs v ty)"
    and "\<And>i. v < i \<Longrightarrow> i \<le> hw \<Longrightarrow> nat_obj_is_zero (ipahal_nat_objs i ty)"
  shows "hal_nat_objs hw hw ty = ipahal_nat_objs v ty"
proof -
  have "IPA_HW_v3_0 \<le> hw" using assms(1,2) by simp
  then show ?thesis
    unfolding hal_nat_objs_inherited [OF \<open>IPA_HW_v3_0 \<le> hw\<close> assms(3,4)] by (intro inherited_from assms(1,2,5,6))
qed

lemma hal_nat_obj_ipv4:
  assumes "IPA_HW_v3_0 \<le> hw" "hw < IPA_HW_MAX"
  shows "\<exists>str. hal_nat_objs hw hw IPAHAL_NAT_IPV4 = nat_obj4 ipa_nat_hw_ipv4_entry ipa_nat_ipv4_is_entry_valid_v_3_0 str"
proof -
  define v where "v = (if IPA_HW_v4_5 \<le> hw then IPA_HW_v4_5 else if IPA_HW_v4_0 \<le> hw then IPA_HW_v4_0 else IPA_HW_v3_0)"
  have "hal_nat_objs hw hw IPAHAL_NAT_IPV4 = ipahal_nat_objs v IPAHAL_NAT_IPV4"
    using assms by (intro hal_nat_from) (auto simp: v_def ipahal_nat_objs_def versions split: if_splits)
  then show ?thesis by (auto simp: v_def ipahal_nat_objs_def versions)
qed

lemma hal_nat_obj_indx:
  assumes "IPA_HW_v3_0 \<le> hw" "hw < IPA_HW_MAX"
  shows "hal_nat_objs hw hw IPAHAL_NAT_IPV4_INDEX =
    nat_obj4 ipa_nat_hw_indx_entry ipa_nat_ipv4_is_index_entry_valid_v_3_0 Stringify_index_v_3_0"
proof -
  have "hal_nat_objs hw hw IPAHAL_NAT_IPV4_INDEX = ipahal_nat_objs IPA_HW_v3_0 IPAHAL_NAT_IPV4_INDEX"
    using assms by (intro hal_nat_from) (auto simp: ipahal_nat_objs_def versions)
  then show ?thesis by (simp add: ipahal_nat_objs_def)
qed

lemma hal_nat_obj_pdn:
  assumes "IPA_HW_v4_0 \<le> hw" "hw < IPA_HW_MAX"
  shows "hal_nat_objs hw hw IPAHAL_NAT_IPV4_PDN =
    (nat_obj4 ipa_nat_hw_pdn_entry ipa_nat_ipv4_is_pdn_entry_valid_v_4_0 Stringify_pdn_v_4_0)
      \<lparr>nobj_construct_entry := Some ipa_nat_ipv4_pdn_construct_entry_v_4_0,
       nobj_parse_entry := Some ipa_nat_ipv4_pdn_parse_entry_v_4_0\<rparr>"
proof -
  have "hal_nat_objs hw hw IPAHAL_NAT_IPV4_PDN = ipahal_nat_objs IPA_HW_v4_0 IPAHAL_NAT_IPV4_PDN"
    using assms by (intro hal_nat_from) (auto simp: ipahal_nat_objs_def versions)
  then show ?thesis by (simp add: ipahal_nat_objs_def)
qed

lemma hal_nat_obj_ipv6ct:
  assumes "IPA_HW_v4_0 \<le> hw" "hw < IPA_HW_MAX"
  shows "\<exists>str. hal_nat_objs hw hw IPAHAL_NAT_IPV6CT = nat_obj4 ipa_nat_hw_ipv6ct_entry ipa_nat_ipv6ct_is_entry_valid_v_4_0 str"
proof -
  define v where "v = (if IPA_HW_v4_5 \<le> hw then IPA_HW_v4_5 else IPA_HW_v4_0)"
  have "hal_nat_objs hw hw IPAHAL_NAT_IPV6CT = ipahal_nat_objs v IPAHAL_NAT_IPV6CT"
    using assms by (intro hal_nat_from) (auto simp: v_def ipahal_nat_objs_def versions split: if_splits)
  then show ?thesis by (auto simp: v_def ipahal_nat_objs_def versions)
qed

lemma hal_nat_obj_absent:
  assumes "IPA_HW_v3_0 \<le> hw" "hw < IPA_HW_v4_0" "ty = IPAHAL_NAT_IPV4_PDN \<or> ty = IPAHAL_NAT_IPV6CT"
  shows "hal_nat_objs hw hw ty = nat_zero_obj"
proof -
  have "ty \<noteq> IPA_NAT_MAX" "hw < IPA_HW_MAX" using assms(2,3) by (auto simp: versions)
  then show ?thesis
    unfolding hal_nat_objs_inherited [OF assms(1) \<open>hw < IPA_HW_MAX\<close> \<open>ty \<noteq> IPA_NAT_MAX\<close>]
    using assms by (intro inherited_none) (auto simp: ipahal_nat_objs_def versions)
qed

section \<open>Sizes\<close>

lemma struct_sizes [simp]:
  "struct_bytes ipa_nat_hw_ipv4_entry = 32" "struct_bytes ipa_nat_hw_indx_entry = 4"
  "struct_bytes ipa_nat_hw_pdn_entry = 16" "struct_bytes ipa_nat_hw_ipv6ct_entry = 64"
  by (simp_all add: struct_bytes_def hal_structs)

definition hal_size :: "ipahal_nat_type \<Rightarrow> nat" where
  "hal_size ty = (case ty of IPAHAL_NAT_IPV4 \<Rightarrow> 32 | IPAHAL_NAT_IPV4_INDEX \<Rightarrow> 4 | IPAHAL_NAT_IPV4_PDN \<Rightarrow> 16
     | IPAHAL_NAT_IPV6CT \<Rightarrow> 64 | IPA_NAT_MAX \<Rightarrow> 0)"

lemma nobj_size_obj4 [simp]:
  "nobj_entry_size (nat_obj4 st v str) = Some (struct_bytes st)" "nobj_is_entry_valid (nat_obj4 st v str) = Some v"
  by (simp_all add: nat_obj4_def)

lemma hal_entry_size:
  assumes "IPA_HW_v3_0 \<le> hw" "hw < IPA_HW_MAX"
  shows "ipahal_nat_entry_size (hal_nat_objs hw) hw ty =
    (if ty = IPA_NAT_MAX then Some (- EINVAL, None)
     else if hw < IPA_HW_v4_0 \<and> ty \<in> {IPAHAL_NAT_IPV4_PDN, IPAHAL_NAT_IPV6CT} then None
     else Some (0, Some (hal_size ty)))"
proof -
  have z: "nobj_entry_size nat_zero_obj = None" by (simp add: nat_zero_obj_def)
  have late: "IPA_HW_v4_0 \<le> hw" if "\<not> hw < IPA_HW_v4_0" using that by simp
  show ?thesis
    using hal_nat_obj_ipv4 [OF assms] hal_nat_obj_indx [OF assms] hal_nat_obj_absent [OF assms(1)]
      hal_nat_obj_pdn [OF late assms(2)] hal_nat_obj_ipv6ct [OF late assms(2)]
    by (cases ty) (auto simp: ipahal_nat_entry_size_def hal_size_def z)
qed

section \<open>The layouts of the library\<close>

lemma length16_cases:
  assumes "length hs = 16"
  obtains h0 h1 h2 h3 h4 h5 h6 h7 h8 h9 h10 h11 h12 h13 h14 h15 where
    "hs = [h0, h1, h2, h3, h4, h5, h6, h7, h8, h9, h10, h11, h12, h13, h14, h15]"
  using assms by (auto simp: eval_nat_numeral length_Suc_conv)

lemma length_nat_encode: "length (nat_encode e) = 16"
  by (simp add: nat_encode_def)

text \<open>The groups of fields that fill one, two or four halfwords.\<close>

lemma unpack_quad:
  assumes "sum_list ws = 64"
  shows "unpack (ws @ vs) (unat (a :: u16) + 65536 * (unat (b :: u16) + 65536 * (unat (c :: u16) + 65536 * (unat (d :: u16) + 65536 * m)))) =
    unpack ws (unat a + 65536 * (unat b + 65536 * (unat c + 65536 * unat d))) @ unpack vs m"
proof -
  have "unat a + 65536 * (unat b + 65536 * (unat c + 65536 * unat d)) < 2 ^ 64"
    using unat_u16_less [of a] unat_u16_less [of b] unat_u16_less [of c] unat_u16_less [of d] by simp
  from unpack_append [where ws = ws, unfolded assms, OF this, of vs m] show ?thesis by (simp add: algebra_simps)
qed

lemma unpack_groups:
  "unpack ([16] @ vs) (unat (a :: u16) + 65536 * m) = unpack [16] (unat a) @ unpack vs m"
  "unpack ([13, 1, 1, 1] @ vs) (unat a + 65536 * m) = unpack [13, 1, 1, 1] (unat a) @ unpack vs m"
  "unpack ([11, 1, 4] @ vs) (unat a + 65536 * m) = unpack [11, 1, 4] (unat a) @ unpack vs m"
  "unpack ([1, 5, 1, 1, 8] @ vs) (unat a + 65536 * m) = unpack [1, 5, 1, 1, 8] (unat a) @ unpack vs m"
  "unpack ([32] @ vs) (unat a + 65536 * (unat (b :: u16) + 65536 * m)) = unpack [32] (unat a + 65536 * unat b) @ unpack vs m"
  "unpack ([24, 8] @ vs) (unat a + 65536 * (unat b + 65536 * m)) = unpack [24, 8] (unat a + 65536 * unat b) @ unpack vs m"
  "unpack ([13, 1, 16, 1, 1] @ vs) (unat a + 65536 * (unat b + 65536 * m)) =
     unpack [13, 1, 16, 1, 1] (unat a + 65536 * unat b) @ unpack vs m"
  "unpack ([64] @ vs) (unat a + 65536 * (unat b + 65536 * (unat (c :: u16) + 65536 * (unat (d :: u16) + 65536 * m)))) =
     unpack [64] (unat a + 65536 * (unat b + 65536 * (unat c + 65536 * unat d))) @ unpack vs m"
  "unpack ([48, 16] @ vs) (unat a + 65536 * (unat b + 65536 * (unat c + 65536 * (unat d + 65536 * m)))) =
     unpack [48, 16] (unat a + 65536 * (unat b + 65536 * (unat c + 65536 * unat d))) @ unpack vs m"
  by (rule unpack_half unpack_word unpack_quad; simp)+

lemma hw_ipv4_fields:
  "unpack ([32] @ [32] @ [16] @ [16] @ [16] @ [16] @ [16] @ [13, 1, 1, 1] @ [24, 8] @ [16] @ [16] @ [11, 1, 4] @ [16] @ [])
     (halves_num [h0, h1, h2, h3, h4, h5, h6, h7, h8, h9, h10, h11, h12, h13, h14, h15]) =
   unpack [32] (unat h0 + 65536 * unat h1) @ unpack [32] (unat h2 + 65536 * unat h3) @ unpack [16] (unat h4) @
   unpack [16] (unat h5) @ unpack [16] (unat h6) @ unpack [16] (unat h7) @ unpack [16] (unat h8) @
   unpack [13, 1, 1, 1] (unat h9) @ unpack [24, 8] (unat h10 + 65536 * unat h11) @ unpack [16] (unat h12) @
   unpack [16] (unat h13) @ unpack [11, 1, 4] (unat h14) @ unpack [16] (unat h15)"
  unfolding halves_num_simps unpack_groups by simp

lemma hw_ipv6ct_fields:
  "unpack ([64] @ [64] @ [64] @ [64] @ [13, 1, 16, 1, 1] @ [24, 8] @ [16] @ [16] @ [16] @ [1, 5, 1, 1, 8] @ [48, 16] @ [64] @ [])
     (halves_num ([a0, a1, a2, a3] @ [b0, b1, b2, b3] @ [c0, c1, c2, c3] @ [d0, d1, d2, d3] @
        [h16, h17, h18, h19, h20, h21, h22, h23, h24, h25, h26, h27] @ [e0, e1, e2, e3])) =
   unpack [64] (unat a0 + 65536 * (unat a1 + 65536 * (unat a2 + 65536 * unat a3))) @
   unpack [64] (unat b0 + 65536 * (unat b1 + 65536 * (unat b2 + 65536 * unat b3))) @
   unpack [64] (unat c0 + 65536 * (unat c1 + 65536 * (unat c2 + 65536 * unat c3))) @
   unpack [64] (unat d0 + 65536 * (unat d1 + 65536 * (unat d2 + 65536 * unat d3))) @
   unpack [13, 1, 16, 1, 1] (unat h16 + 65536 * unat h17) @ unpack [24, 8] (unat h18 + 65536 * unat h19) @
   unpack [16] (unat h20) @ unpack [16] (unat h21) @ unpack [16] (unat h22) @ unpack [1, 5, 1, 1, 8] (unat h23) @
   unpack [48, 16] (unat h24 + 65536 * (unat h25 + 65536 * (unat h26 + 65536 * unat h27))) @
   unpack [64] (unat e0 + 65536 * (unat e1 + 65536 * (unat e2 + 65536 * unat e3)))"
  unfolding halves_num_simps append.simps(1) append.simps(2) [of _ _ "_ # _"] unpack_groups by simp

lemma nat_layout_halves:
  assumes "hs = [h0, h1, h2, h3, h4, h5, h6, h7, h8, h9, h10, h11, h12, h13, h14, h15]" "e = nat_decode hs"
  shows "unpack (map snd ipa_nat_hw_ipv4_entry) (halves_num hs) =
    [unat (private_ip e), unat (target_ip e), unat (next_index e), unat (public_port e), unat (private_port e),
     unat (target_port e), unat (ip_chksum e), unat (uc_activation_index e), of_bool (s_bit e), of_bool (redirect e),
     of_bool (enable e), unat (time_stamp e), unat (protocol e), unat (prev_index e), unat (indx_tbl_entry e),
     pack [(8, unat (rsvd2 e)), (1, of_bool (rsvd3 e)), (1, of_bool (dst_only e)), (1, of_bool (src_only e))],
     of_bool (ucp e), unat (pdn_index e), unat (tcp_udp_chksum e)]"
proof -
  have "pack (zip [8, 1, 1, 1] (unpack [8, 1, 1, 1] (unat h14))) = unat h14 mod 2 ^ 11"
    by (simp only: pack_unpack) simp
  then have r: "pack [(8, unat (rsvd2 e)), (1, of_bool (rsvd3 e)), (1, of_bool (dst_only e)), (1, of_bool (src_only e))] =
      unat h14 mod 2 ^ 11"
    by (simp add: assms nat_decode_def unat_bit unat_ucast_mod div_mult2_eq [symmetric])
  have p: "(unat h10 + 65536 * unat h11) div 16777216 = unat h11 div 256"
    using div_join [of h10 "unat h11" 256] by simp
  have lt: "unat h < 65536" for h :: u16 by (rule unat_u16_less)
  have ws: "map snd ipa_nat_hw_ipv4_entry = [32] @ [32] @ [16] @ [16] @ [16] @ [16] @ [16] @ [13, 1, 1, 1] @ [24, 8] @
      [16] @ [16] @ [11, 1, 4] @ [16] @ []"
    by (simp add: ipa_nat_hw_ipv4_entry_def)
  show ?thesis
    unfolding r ws assms(1) hw_ipv4_fields using lt
    by (simp add: assms nat_decode_def unat_join unat_ucast_mod unat_bit unat_drop p div_mult2_eq [symmetric])
qed

lemma nat_layout_agrees:
  "unpack (map snd ipa_nat_hw_ipv4_entry) (halves_num (nat_encode e)) =
    [unat (private_ip e), unat (target_ip e), unat (next_index e), unat (public_port e), unat (private_port e),
     unat (target_port e), unat (ip_chksum e), unat (uc_activation_index e), of_bool (s_bit e), of_bool (redirect e),
     of_bool (enable e), unat (time_stamp e), unat (protocol e), unat (prev_index e), unat (indx_tbl_entry e),
     pack [(8, unat (rsvd2 e)), (1, of_bool (rsvd3 e)), (1, of_bool (dst_only e)), (1, of_bool (src_only e))],
     of_bool (ucp e), unat (pdn_index e), unat (tcp_udp_chksum e)]"
proof -
  obtain h0 h1 h2 h3 h4 h5 h6 h7 h8 h9 h10 h11 h12 h13 h14 h15 where
    hs: "nat_encode e = [h0, h1, h2, h3, h4, h5, h6, h7, h8, h9, h10, h11, h12, h13, h14, h15]"
    using length16_cases [OF length_nat_encode] by metis
  show ?thesis by (rule nat_layout_halves [OF hs nat_decode_encode [symmetric]])
qed

lemma unat_join64: "unat (join64 a b c d) = unat a + 65536 * (unat b + 65536 * (unat c + 65536 * unat d))"
proof -
  have "join64 a b c d = ucast a + (push_bit 16 (ucast b) + (push_bit 32 (ucast c) + push_bit 48 (ucast d)))"
    unfolding join64_def or.assoc
    by (subst (1 2 3) disjunctive_add) (auto simp: bit_simps dest: bit_imp_le_length)
  also have "\<dots> = of_nat (unat a + 65536 * (unat b + 65536 * (unat c + 65536 * unat d)))"
    by (simp add: push_bit_eq_mult algebra_simps)
  finally have "unat (join64 a b c d) = (unat a + 65536 * (unat b + 65536 * (unat c + 65536 * unat d))) mod 2 ^ 64"
    by (simp only: unat_of_nat take_bit_eq_mod) simp
  then show ?thesis
    using unat_u16_less [of a] unat_u16_less [of b] unat_u16_less [of c] unat_u16_less [of d] by simp
qed

lemma unat_join48:
  fixes a b c :: u16
  shows "unat (ucast a OR push_bit 16 (ucast b) OR push_bit 32 (ucast c) :: 48 word) = unat a + 65536 * (unat b + 65536 * unat c)"
proof -
  have "(ucast a OR push_bit 16 (ucast b) OR push_bit 32 (ucast c) :: 48 word) =
      ucast a + (push_bit 16 (ucast b) + push_bit 32 (ucast c))"
    unfolding or.assoc by (subst (1 2) disjunctive_add) (auto simp: bit_simps dest: bit_imp_le_length)
  also have "\<dots> = of_nat (unat a + 65536 * (unat b + 65536 * unat c))"
    by (simp add: push_bit_eq_mult algebra_simps)
  finally have "unat (ucast a OR push_bit 16 (ucast b) OR push_bit 32 (ucast c) :: 48 word) =
      (unat a + 65536 * (unat b + 65536 * unat c)) mod 2 ^ 48"
    by (simp only: unat_of_nat take_bit_eq_mod) simp
  then show ?thesis using unat_u16_less [of a] unat_u16_less [of b] unat_u16_less [of c] by simp
qed

lemma unat_rsvd1:
  "unat (drop_bit 14 l OR push_bit 2 (take_bit 14 h) :: u16) = (unat l + 65536 * unat (h :: u16)) div 2 ^ 14 mod 2 ^ 16"
proof -
  have "drop_bit 14 l OR push_bit 2 (take_bit 14 h) = drop_bit 14 l + push_bit 2 (take_bit 14 h)"
    by (rule disjunctive_add [symmetric]) (auto simp: bit_simps dest: bit_imp_le_length)
  also have "\<dots> = of_nat (unat l div 2 ^ 14 + 4 * (unat h mod 2 ^ 14))"
    using arg_cong [OF unat_drop [of 14 l], of "of_nat :: nat \<Rightarrow> u16"]
      arg_cong [OF unsigned_take_bit_eq [of 14 h, where ?'a = nat], of "of_nat :: nat \<Rightarrow> u16"]
    by (simp add: push_bit_eq_mult take_bit_eq_mod)
  finally have u: "unat (drop_bit 14 l OR push_bit 2 (take_bit 14 h)) = (unat l div 2 ^ 14 + 4 * (unat h mod 2 ^ 14)) mod 2 ^ 16"
    by (simp only: unat_of_nat take_bit_eq_mod) simp
  have "4 * (unat h mod 2 ^ 14) = 4 * unat h mod 2 ^ 16" by (simp add: mult_mod_right)
  moreover have "(unat l + 65536 * unat h) div 2 ^ 14 = unat l div 2 ^ 14 + 4 * unat h" by simp
  ultimately show ?thesis
    unfolding u by (simp only: mod_add_right_eq)
qed

lemma ct_layout_agrees:
  "unpack (map snd ipa_nat_hw_ipv6ct_entry) (halves_num (ct_encode e)) =
    [unat (ct_src_ipv6_lsb e), unat (ct_src_ipv6_msb e), unat (ct_dest_ipv6_lsb e), unat (ct_dest_ipv6_msb e),
     unat (ct_uc_activation_index e), of_bool (ct_s e), unat (ct_rsvd1 e), of_bool (ct_redirect e), of_bool (ct_enable e),
     unat (ct_time_stamp e), unat (ct_protocol e), unat (ct_next_index e), unat (ct_dest_port e), unat (ct_src_port e),
     of_bool (ct_ucp e), unat (ct_rsvd2 e), of_bool (ct_out_allowed e), of_bool (ct_in_allowed e), unat (ct_rsvd3 e),
     unat (ct_rsvd4 e), unat (ct_prev_index e), unat (ct_rsvd5 e)]"
proof -
  obtain a0 a1 a2 a3 b0 b1 b2 b3 c0 c1 c2 c3 d0 d1 d2 d3 h16 h17 h18 h19 h20 h21 h22 h23 h24 h25 h26 h27 e0 e1 e2 e3
    where hs: "ct_encode e = [a0, a1, a2, a3] @ [b0, b1, b2, b3] @ [c0, c1, c2, c3] @ [d0, d1, d2, d3] @
        [h16, h17, h18, h19, h20, h21, h22, h23, h24, h25, h26, h27] @ [e0, e1, e2, e3]"
    by (simp add: ct_encode_def halves64_def)
  have ws: "map snd ipa_nat_hw_ipv6ct_entry = [64] @ [64] @ [64] @ [64] @ [13, 1, 16, 1, 1] @ [24, 8] @ [16] @ [16] @ [16] @
      [1, 5, 1, 1, 8] @ [48, 16] @ [64] @ []"
    by (simp add: ipa_nat_hw_ipv6ct_entry_def)
  have e: "e = ct_decode ([a0, a1, a2, a3] @ [b0, b1, b2, b3] @ [c0, c1, c2, c3] @ [d0, d1, d2, d3] @
        [h16, h17, h18, h19, h20, h21, h22, h23, h24, h25, h26, h27] @ [e0, e1, e2, e3])"
    using arg_cong [OF hs, of ct_decode] by (simp only: ct_decode_encode)
  have lt: "unat h < 65536" for h :: u16 by (rule unat_u16_less)
  have j64: "(unat a + 65536 * (unat b + 65536 * (unat c + 65536 * unat d))) mod 2 ^ 64 = unat (join64 a b c d)" for a b c d
    using unsigned_less [of "join64 a b c d", where ?'a = nat] by (simp add: unat_join64)
  have fs1: "ct_src_ipv6_lsb e = join64 a0 a1 a2 a3" "ct_src_ipv6_msb e = join64 b0 b1 b2 b3"
    "ct_dest_ipv6_lsb e = join64 c0 c1 c2 c3" "ct_dest_ipv6_msb e = join64 d0 d1 d2 d3" "ct_rsvd5 e = join64 e0 e1 e2 e3"
    "ct_next_index e = h20" "ct_dest_port e = h21" "ct_src_port e = h22" "ct_prev_index e = h27"
    "ct_s e = bit h16 13" "ct_redirect e = bit h17 14" "ct_enable e = bit h17 15" "ct_ucp e = bit h23 0"
    "ct_out_allowed e = bit h23 6" "ct_in_allowed e = bit h23 7"
    by (simp_all add: e ct_decode_def)
  have fs2: "ct_rsvd1 e = drop_bit 14 h16 OR push_bit 2 (take_bit 14 h17)" "ct_uc_activation_index e = ucast h16"
    "ct_time_stamp e = ucast h18 OR push_bit 16 (ucast h19)" "ct_protocol e = ucast (drop_bit 8 h19)"
    "ct_rsvd2 e = ucast (drop_bit 1 h23)" "ct_rsvd3 e = ucast (drop_bit 8 h23)"
    "ct_rsvd4 e = ucast h24 OR push_bit 16 (ucast h25) OR push_bit 32 (ucast h26)"
    by (simp_all add: e ct_decode_def)
  have j24: "unat (ucast h18 OR push_bit 16 (ucast h19) :: 24 word) = (unat h18 + 65536 * unat h19) mod 2 ^ 24"
    using unat_join [of h18 h19, where ?'a = 24] by simp
  have len: "LENGTH(8) = 8" "LENGTH(5) = 5" "LENGTH(13) = 13" by simp_all
  have p: "(unat h18 + 65536 * unat h19) div 2 ^ 24 = unat h19 div 2 ^ 8"
    using div_join [of h18 "unat h19" "2 ^ 8"] by simp
  have w: "unat h16 + 65536 * unat h17 = unat h16 + 2 ^ 13 * (2 * (4 * unat h17))" by simp
  have "(unat h16 + 2 ^ 13 * (2 * (4 * unat h17))) div 2 ^ 13 mod 2 ^ 1 = unat h16 div 2 ^ 13 mod 2"
    by (simp only: div_mult_self2 power_not_zero zero_neq_numeral [symmetric] not_False_eq_True power_one_right mod_mult_self4)
  then have q: "(unat h16 + 65536 * unat h17) mod 2 ^ 13 = unat h16 mod 2 ^ 13"
    "(unat h16 + 65536 * unat h17) div 2 ^ 13 mod 2 ^ 1 = unat h16 div 2 ^ 13 mod 2"
    "(unat h16 + 65536 * unat h17) div 2 ^ 30 = unat h17 div 2 ^ 14"
    "(unat h16 + 65536 * unat h17) div 2 ^ 31 = unat h17 div 2 ^ 15"
    using div_join [of h16 "unat h17" "2 ^ 14"] div_join [of h16 "unat h17" "2 ^ 15"]
    by (simp_all only: w mod_mult_self2) simp_all
  have r4: "(unat h24 + 65536 * (unat h25 + 65536 * (unat h26 + 65536 * unat h27))) mod 2 ^ 48 =
      unat h24 + 65536 * (unat h25 + 65536 * unat h26)"
    "(unat h24 + 65536 * (unat h25 + 65536 * (unat h26 + 65536 * unat h27))) div 2 ^ 48 = unat h27"
  proof -
    define m where "m = unat h24 + 65536 * (unat h25 + 65536 * unat h26)"
    have m: "m < 2 ^ 48" unfolding m_def using lt [of h24] lt [of h25] lt [of h26] by simp
    have n: "unat h24 + 65536 * (unat h25 + 65536 * (unat h26 + 65536 * unat h27)) = m + 2 ^ 48 * unat h27"
      by (simp add: m_def)
    show "(unat h24 + 65536 * (unat h25 + 65536 * (unat h26 + 65536 * unat h27))) mod 2 ^ 48 =
        unat h24 + 65536 * (unat h25 + 65536 * unat h26)"
      unfolding n m_def [symmetric] by (simp only: mod_mult_self2 mod_less [OF m])
    show "(unat h24 + 65536 * (unat h25 + 65536 * (unat h26 + 65536 * unat h27))) div 2 ^ 48 = unat h27"
      unfolding n using m by simp
  qed
  have b: "unat h mod 2 ^ 16 = unat h" for h :: u16 using lt [of h] by simp
  have bits: "of_bool (bit h16 13) = unat h16 div 2 ^ 13 mod 2" "of_bool (bit h17 14) = unat h17 div 2 ^ 14 mod 2 ^ 1"
    "of_bool (bit h17 15) = unat h17 div 2 ^ 15 mod 2 ^ 1" "of_bool (bit h23 0) = unat h23 mod 2 ^ 1"
    "of_bool (bit h23 6) = unat h23 div 2 ^ 6 mod 2 ^ 1" "of_bool (bit h23 7) = unat h23 div 2 ^ 7 mod 2 ^ 1"
    by (simp_all only: unat_bit) simp_all
  have dd: "n div 2 ^ k div 2 ^ l = n div 2 ^ (k + l)" for n k l :: nat
    by (simp add: div_mult2_eq power_add)
  show ?thesis
    unfolding ws hs
    unfolding hw_ipv6ct_fields
    unfolding fs1 fs2 bits unpack.simps append.simps dd j64 b
      unat_rsvd1 unat_join48 unat_ucast_mod unat_drop j24 len
    by (simp only: add_numeral_left arith_simps numeral_plus_one one_plus_numeral p q r4 b)
qed

lemma hal_valid_agrees:
  "ipa_nat_ipv4_is_entry_valid_v_3_0 (halves_num (nat_encode e)) \<longleftrightarrow> enable e \<and> protocol e \<noteq> IPAHAL_NAT_INVALID_PROTOCOL"
  "ipa_nat_ipv6ct_is_entry_valid_v_4_0 (halves_num (ct_encode c)) \<longleftrightarrow> ct_enable c \<and> ct_protocol c \<noteq> IPAHAL_NAT_INVALID_PROTOCOL"
  "ipa_nat_ipv4_is_index_entry_valid_v_3_0 (halves_num [tbl_entry i, indx_next_index i]) \<longleftrightarrow> tbl_entry i \<noteq> 0"
  unfolding ipa_nat_ipv4_is_entry_valid_v_3_0_def ipa_nat_ipv6ct_is_entry_valid_v_4_0_def
    ipa_nat_ipv4_is_index_entry_valid_v_3_0_def get_field_unpack nat_layout_agrees ct_layout_agrees
  using unat_u16_less [of "tbl_entry i"]
  by (simp_all add: ipa_nat_hw_ipv4_entry_def ipa_nat_hw_ipv6ct_entry_def ipa_nat_hw_indx_entry_def unat_eq_0 word_unat_eq_iff [of _ IPAHAL_NAT_INVALID_PROTOCOL])

lemma hal_zeroed_agrees: "ipa_nat_is_entry_zeroed (halves_num (nat_encode e)) \<longleftrightarrow> e = nat_rule_zero"
proof -
  have "(\<forall>h \<in> set (nat_encode e). h = 0) \<longleftrightarrow> nat_encode e = replicate 16 0"
    using replicate_length_same [of "nat_encode e" 0] by (auto simp: length_nat_encode)
  also have "\<dots> \<longleftrightarrow> e = nat_rule_zero"
  proof
    assume "nat_encode e = replicate 16 0"
    then have "nat_decode (nat_encode e) = nat_decode (replicate 16 0)" by simp
    also have "\<dots> = nat_rule_zero" by (simp add: nat_decode_def nat_rule_zero_def)
    finally show "e = nat_rule_zero" by (simp add: nat_decode_encode)
  next
    assume "e = nat_rule_zero"
    then show "nat_encode e = replicate 16 0"
      by (simp add: nat_encode_def nat_rule_zero_def nat_flags_def nat_pdn_info_def bit_at_def eval_nat_numeral)
  qed
  finally show ?thesis by (simp add: ipa_nat_is_entry_zeroed_def halves_num_zero)
qed

text \<open>C19: the driver and the library agree on the memory of the tables.  Every field of \<^verbatim>\<open>ipa_nat_hw_ipv4_entry\<close> and of
  \<^verbatim>\<open>ipa_nat_hw_ipv6ct_entry\<close>, read as the C bit-fields of the driver, is the field of the library's record in the
  library's layout (the eleven bits the driver calls reserved hold three fields of the library), and an entry is valid
  for the driver exactly if it is enabled and does not have the protocol of a deleted head.\<close>

theorem hal_layout_agrees:
  "unpack (map snd ipa_nat_hw_ipv4_entry) (halves_num (nat_encode e)) =
    [unat (private_ip e), unat (target_ip e), unat (next_index e), unat (public_port e), unat (private_port e),
     unat (target_port e), unat (ip_chksum e), unat (uc_activation_index e), of_bool (s_bit e), of_bool (redirect e),
     of_bool (enable e), unat (time_stamp e), unat (protocol e), unat (prev_index e), unat (indx_tbl_entry e),
     pack [(8, unat (rsvd2 e)), (1, of_bool (rsvd3 e)), (1, of_bool (dst_only e)), (1, of_bool (src_only e))],
     of_bool (ucp e), unat (pdn_index e), unat (tcp_udp_chksum e)] \<and>
   unpack (map snd ipa_nat_hw_ipv6ct_entry) (halves_num (ct_encode c)) =
    [unat (ct_src_ipv6_lsb c), unat (ct_src_ipv6_msb c), unat (ct_dest_ipv6_lsb c), unat (ct_dest_ipv6_msb c),
     unat (ct_uc_activation_index c), of_bool (ct_s c), unat (ct_rsvd1 c), of_bool (ct_redirect c), of_bool (ct_enable c),
     unat (ct_time_stamp c), unat (ct_protocol c), unat (ct_next_index c), unat (ct_dest_port c), unat (ct_src_port c),
     of_bool (ct_ucp c), unat (ct_rsvd2 c), of_bool (ct_out_allowed c), of_bool (ct_in_allowed c), unat (ct_rsvd3 c),
     unat (ct_rsvd4 c), unat (ct_prev_index c), unat (ct_rsvd5 c)] \<and>
   (ipa_nat_ipv4_is_entry_valid_v_3_0 (halves_num (nat_encode e)) \<longleftrightarrow>
      enable e \<and> protocol e \<noteq> IPAHAL_NAT_INVALID_PROTOCOL) \<and>
   (ipa_nat_ipv6ct_is_entry_valid_v_4_0 (halves_num (ct_encode c)) \<longleftrightarrow>
      ct_enable c \<and> ct_protocol c \<noteq> IPAHAL_NAT_INVALID_PROTOCOL) \<and>
   (ipa_nat_is_entry_zeroed (halves_num (nat_encode e)) \<longleftrightarrow> e = nat_rule_zero)"
  by (intro conjI nat_layout_agrees ct_layout_agrees hal_valid_agrees hal_zeroed_agrees)

section \<open>PDN entries\<close>

lemma pdn_parse_construct: "ipa_nat_ipv4_pdn_parse_entry_v_4_0 (ipa_nat_ipv4_pdn_construct_entry_v_4_0 p) = p"
proof -
  have lt: "unat (x :: u32) mod 4294967296 = unat x" for x using unsigned_less [of x, where ?'a = nat] by simp
  show ?thesis
    unfolding ipa_nat_ipv4_pdn_parse_entry_v_4_0_def get_field_unpack ipa_nat_ipv4_pdn_construct_entry_v_4_0_def
    by (subst (1 2 3) unpack_pack_struct) (simp_all add: ipa_nat_hw_pdn_entry_def lt)
qed

section \<open>Payloads\<close>

lemmas imm_structs = ipa_imm_cmd_hw_ip_v4_nat_init_def ipa_imm_cmd_hw_ip_v6_ct_init_def ipa_imm_cmd_hw_nat_dma_def
  ipa_imm_cmd_hw_table_dma_ipav4_def ipa_imm_cmd_hw_register_write_def ipa_imm_cmd_hw_register_write_v_4_0_def
  ipa_imm_cmd_hw_dma_shared_mem_def ipa_imm_cmd_hw_dma_shared_mem_v_4_0_def

lemma imm_obj_zero [simp]: "\<not> imm_obj_is_zero (imm_obj cb op)" "imm_obj_is_zero imm_zero_obj"
  by (simp_all add: imm_obj_is_zero_def imm_obj_def imm_zero_obj_def)

lemma hal_imm_objs_inherited:
  assumes "IPA_HW_v3_0 \<le> hw" "hw < IPA_HW_MAX"
  shows "hal_imm_objs hw hw nm = inherited imm_obj_is_zero ipahal_imm_cmd_objs hw nm"
  using assms by (cases nm) (simp_all add: hal_imm_objs_def ipahal_imm_cmd_init_def fill_versions_inherited)

lemma hal_imm_from:
  assumes "IPA_HW_v3_0 \<le> v" "v \<le> hw" "hw < IPA_HW_MAX" "\<not> imm_obj_is_zero (ipahal_imm_cmd_objs v nm)"
    and "\<And>i. v < i \<Longrightarrow> i \<le> hw \<Longrightarrow> imm_obj_is_zero (ipahal_imm_cmd_objs i nm)"
  shows "hal_imm_objs hw hw nm = ipahal_imm_cmd_objs v nm"
proof -
  have ge: "IPA_HW_v3_0 \<le> hw" using assms(1,2) by simp
  show ?thesis unfolding hal_imm_objs_inherited [OF ge assms(3)] by (intro inherited_from assms(1,2,4,5))
qed

text \<open>The commands of version 4.0 and later.\<close>

lemma hal_imm_v4:
  assumes "IPA_HW_v4_0 \<le> hw" "hw < IPA_HW_MAX"
  shows "hal_imm_objs hw hw nm = (case nm of N_IP_V4_NAT_INIT \<Rightarrow> imm_obj Construct_ip_v4_nat_init 5
    | N_IP_V6_CT_INIT \<Rightarrow> imm_obj Construct_ip_v6_ct_init 23 | N_REGISTER_WRITE \<Rightarrow> imm_obj Construct_register_write_v_4_0 12
    | N_NAT_DMA \<Rightarrow> imm_obj Construct_dummy (- 1) | N_TABLE_DMA \<Rightarrow> imm_obj Construct_table_dma_ipav4 14
    | N_DMA_SHARED_MEM \<Rightarrow> imm_obj Construct_dma_shared_mem_v_4_0 19)"
proof (cases "nm = N_IP_V4_NAT_INIT")
  case True
  have "hal_imm_objs hw hw nm = ipahal_imm_cmd_objs IPA_HW_v3_0 nm"
    using assms True by (intro hal_imm_from) (auto simp: ipahal_imm_cmd_objs_def versions)
  with True show ?thesis by (simp add: ipahal_imm_cmd_objs_def)
next
  case False
  have "hal_imm_objs hw hw nm = ipahal_imm_cmd_objs IPA_HW_v4_0 nm"
    using assms False by (intro hal_imm_from) (auto simp: ipahal_imm_cmd_objs_def versions split: imm_name.splits)
  with False show ?thesis by (simp add: ipahal_imm_cmd_objs_def versions split: imm_name.splits)
qed

text \<open>Before 4.0: the connection tracking and table commands do not exist.\<close>

lemma hal_imm_v3:
  assumes "IPA_HW_v3_0 \<le> hw" "hw < IPA_HW_v4_0"
  shows "hal_imm_objs hw hw nm = (case nm of N_IP_V4_NAT_INIT \<Rightarrow> imm_obj Construct_ip_v4_nat_init 5
    | N_IP_V6_CT_INIT \<Rightarrow> imm_zero_obj | N_REGISTER_WRITE \<Rightarrow> imm_obj Construct_register_write 12
    | N_NAT_DMA \<Rightarrow> imm_obj Construct_nat_dma 14 | N_TABLE_DMA \<Rightarrow> imm_zero_obj
    | N_DMA_SHARED_MEM \<Rightarrow> imm_obj Construct_dma_shared_mem 19)"
proof (cases "nm = N_IP_V6_CT_INIT \<or> nm = N_TABLE_DMA")
  case True
  have "hw < IPA_HW_MAX" using assms(2) by (simp add: versions)
  then have "hal_imm_objs hw hw nm = imm_zero_obj"
    unfolding hal_imm_objs_inherited [OF assms(1) \<open>hw < IPA_HW_MAX\<close>] using assms True
    by (intro inherited_none) (auto simp: ipahal_imm_cmd_objs_def versions)
  with True show ?thesis by auto
next
  case False
  have "hal_imm_objs hw hw nm = ipahal_imm_cmd_objs IPA_HW_v3_0 nm"
    using assms False by (intro hal_imm_from) (auto simp: ipahal_imm_cmd_objs_def versions split: imm_name.splits)
  with False show ?thesis by (simp add: ipahal_imm_cmd_objs_def versions split: imm_name.splits)
qed

end
