(* ===== verification/Ipa3_Nat_Ok.thy ===== *)
theory Ipa3_Nat_Ok
  imports Ipa3_Nat_Cmd Ipahal_Ok "HOL-Library.Multiset"
begin

text \<open>
  The kernel driver is safe: the invariant of its state, that every request keeps it and never follows a NULL callback,
  frees what it does not own or overruns an array, and the accounting of its resources.
\<close>

section \<open>Total correctness of fallible steps\<close>

definition returns :: "'a option \<Rightarrow> ('a \<Rightarrow> bool) \<Rightarrow> bool" where
  "returns m P \<longleftrightarrow> (\<exists>x. m = Some x \<and> P x)"

lemma returns_simps [simp]:
  "returns (Some x) P \<longleftrightarrow> P x"
  "returns None P \<longleftrightarrow> False"
  "returns (Option.bind m f) P \<longleftrightarrow> returns m (\<lambda>x. returns (f x) P)"
  "returns (map_option g m) P \<longleftrightarrow> returns m (\<lambda>x. P (g x))"
  by (auto simp: returns_def bind_eq_Some_conv)

lemma returns_mono: "returns m P \<Longrightarrow> (\<And>x. P x \<Longrightarrow> Q x) \<Longrightarrow> returns m Q"
  by (auto simp: returns_def)

lemma returns_bindI: "returns m P \<Longrightarrow> (\<And>x. P x \<Longrightarrow> returns (f x) Q) \<Longrightarrow> returns (Option.bind m f) Q"
  by (auto simp: returns_def)

lemma returns_if: "returns (if b then m else n) P \<longleftrightarrow> (if b then returns m P else returns n P)"
  by simp

lemma returnsD: "returns m P \<Longrightarrow> m = Some x \<Longrightarrow> P x"
  by (simp add: returns_def)

lemma returnsE:
  assumes "returns m P"
  obtains x where "m = Some x" "P x"
  using assms by (auto simp: returns_def)

section \<open>Platforms\<close>

definition plat_ok :: "ipa3_platform \<Rightarrow> bool" where
  "plat_ok pl \<longleftrightarrow>
     IPA_HW_v3_0 \<le> hw_type pl \<and> hw_type pl < IPA_HW_MAX \<and>
     nat_objs pl = hal_nat_objs (hw_type pl) \<and> imm_objs pl = hal_imm_objs (hw_type pl) \<and>
     (IPA_HW_v4_0 \<le> hw_type pl \<longrightarrow> 16 \<le> unat (pdn_config_size pl))"

lemma plat_entry_size:
  assumes "plat_ok pl"
  shows "nat_entry_size pl IPAHAL_NAT_IPV4 = Some 32" "nat_entry_size pl IPAHAL_NAT_IPV4_INDEX = Some 4"
    "IPA_HW_v4_0 \<le> hw_type pl \<Longrightarrow> nat_entry_size pl IPAHAL_NAT_IPV4_PDN = Some 16"
    "IPA_HW_v4_0 \<le> hw_type pl \<Longrightarrow> nat_entry_size pl IPAHAL_NAT_IPV6CT = Some 64"
  using assms by (auto simp: nat_entry_size_def plat_ok_def hal_entry_size hal_size_def)

lemma plat_max_pdn:
  assumes "plat_ok pl" "IPA_HW_v4_0 \<le> hw_type pl"
  obtains n where "ipa3_get_max_pdn pl = Some n" "1 \<le> n" "16 * n \<le> unat (pdn_config_size pl)"
proof
  show "ipa3_get_max_pdn pl = Some (unat (pdn_config_size pl) div 16)"
    using assms by (simp add: ipa3_get_max_pdn_def plat_entry_size)
  have "16 \<le> unat (pdn_config_size pl)" using assms by (simp add: plat_ok_def)
  then show "1 \<le> unat (pdn_config_size pl) div 16" by linarith
  show "16 * (unat (pdn_config_size pl) div 16) \<le> unat (pdn_config_size pl)" by simp
qed

lemma plat_construct_pdn:
  assumes "plat_ok pl" "IPA_HW_v4_0 \<le> hw_type pl"
  shows "ipahal_nat_construct_entry (nat_objs pl) (hw_type pl) IPAHAL_NAT_IPV4_PDN flds =
    Some (0, Some (ipa_nat_ipv4_pdn_construct_entry_v_4_0 flds))"
  using assms by (simp add: ipahal_nat_construct_entry_def plat_ok_def hal_nat_obj_pdn)

section \<open>Command sequences\<close>

text \<open>Which commands exist on a version.\<close>

fun cmd_exists :: "ipa3_platform \<Rightarrow> imm_cmd \<Rightarrow> bool" where
  "cmd_exists pl (IPA_IMM_CMD_IP_V6_CT_INIT _) \<longleftrightarrow> IPA_HW_v4_0 \<le> hw_type pl"
| "cmd_exists pl (IPA_IMM_CMD_TABLE_DMA _) \<longleftrightarrow> IPA_HW_v4_0 \<le> hw_type pl"
| "cmd_exists pl _ \<longleftrightarrow> True"

lemma construct_exists:
  assumes "plat_ok pl" "cmd_exists pl cmd"
  shows "\<exists>p w'. ipahal_construct_imm_cmd (imm_objs pl) (hw_type pl) alloc cmd w = Some (p, w')"
proof (cases "IPA_HW_v4_0 \<le> hw_type pl")
  case True
  then have "imm_objs pl (hw_type pl) = hal_imm_objs (hw_type pl) (hw_type pl)" "hw_type pl < IPA_HW_MAX"
    using assms by (simp_all add: plat_ok_def)
  then show ?thesis using True
    by (cases cmd) (simp_all add: ipahal_construct_imm_cmd_def hal_imm_v4 imm_obj_def Let_def)
next
  case False
  then have "imm_objs pl (hw_type pl) = hal_imm_objs (hw_type pl) (hw_type pl)" "IPA_HW_v3_0 \<le> hw_type pl"
    using assms by (simp_all add: plat_ok_def)
  then show ?thesis using False assms(2)
    by (cases cmd) (simp_all add: ipahal_construct_imm_cmd_def hal_imm_v3 imm_obj_def Let_def)
qed

text \<open>The state of a sequence that started in \<open>k\<close> and holds at most \<open>n\<close> payloads.\<close>

definition same_driver :: "'w ipa3 \<Rightarrow> 'w ipa3 \<Rightarrow> bool" where
  "same_driver k k' \<longleftrightarrow> nat_mem k' = nat_mem k \<and> ipv6ct_dev k' = ipv6ct_dev k \<and> sram_compatible k' = sram_compatible k \<and>
     k_ledger k' = k_ledger k"

definition seq_from :: "'w ipa3 \<Rightarrow> nat \<Rightarrow> 'w imm_seq \<Rightarrow> bool" where
  "seq_from k n s \<longleftrightarrow>
     (case s of (r, ps, k') \<Rightarrow> length ps \<le> n \<and> same_driver k k' \<and> k_pylds k' = k_pylds k + length ps)"

lemma seq_from_start: "seq_from k 0 (0, [], k)"
  by (simp add: seq_from_def same_driver_def)

lemma seq_from_mono: "seq_from k n s \<Longrightarrow> n \<le> m \<Longrightarrow> seq_from k m s"
  by (auto simp: seq_from_def split: prod.splits)

lemma imm_push_ok:
  assumes "plat_ok pl" "cmd_exists pl cmd" "seq_from k n s" "n < cap"
  shows "returns (imm_push env pl cap cmd err s) (seq_from k (n + 1))"
proof -
  obtain r ps k' where s: "s = (r, ps, k')" by (cases s)
  have k': "length ps \<le> n" "same_driver k k'" "k_pylds k' = k_pylds k + length ps"
    using assms(3) by (auto simp: s seq_from_def)
  obtain p w' where c: "ipahal_construct_imm_cmd (imm_objs pl) (hw_type pl) (kenv_kzalloc env) cmd (k_world k') = Some (p, w')"
    using construct_exists [OF assms(1,2), of "kenv_kzalloc env" "k_world k'"] by blast
  show ?thesis
    using assms(4) k' c
    by (cases p) (auto simp: s imm_push_def construct_imm_def seq_from_def same_driver_def Let_def)
qed

lemma imm_coal_close_ok:
  assumes "plat_ok pl" "seq_from k n s" "n < cap"
  shows "returns (imm_coal_close env pl cap s) (seq_from k (if coal_ep pl \<noteq> - 1 then n + 1 else n))"
  using imm_push_ok [OF assms(1) _ assms(2,3)] assms(2) seq_from_mono [OF assms(2)] by (simp add: imm_coal_close_def)

lemma imm_nop_ok:
  assumes "plat_ok pl" "seq_from k n s" "n < cap"
  shows "returns (imm_nop env pl cap s) (seq_from k (n + 1))"
  unfolding imm_nop_def using assms by (intro imm_push_ok) simp_all

lemma imm_finish_ok:
  assumes "seq_from k n s" "imm_finish env s = (r, k')"
  shows "same_driver k k'" "k_pylds k' = k_pylds k"
  using assms by (auto simp: seq_from_def imm_finish_def in_world_def same_driver_def Let_def split: prod.splits if_splits)

text \<open>What commands leave of the state: all but the world and the content of the PDN table.\<close>

definition quiet :: "'w ipa3 \<Rightarrow> 'w ipa3 \<Rightarrow> bool" where
  "quiet k k' \<longleftrightarrow> (nat_mem k')\<lparr>nm_pdn_table := []\<rparr> = (nat_mem k)\<lparr>nm_pdn_table := []\<rparr> \<and>
     length (nm_pdn_table (nat_mem k')) = length (nm_pdn_table (nat_mem k)) \<and>
     ipv6ct_dev k' = ipv6ct_dev k \<and> sram_compatible k' = sram_compatible k \<and> k_ledger k' = k_ledger k \<and> k_pylds k' = k_pylds k"

lemma quiet_refl [simp]: "quiet k k"
  by (simp add: quiet_def)

lemma quiet_trans: "quiet k k' \<Longrightarrow> quiet k' k'' \<Longrightarrow> quiet k k''"
  by (simp add: quiet_def)

lemma quiet_finish: "seq_from k n s \<Longrightarrow> imm_finish env s = (r, k') \<Longrightarrow> quiet k k'"
  using imm_finish_ok [of k n s env r k'] by (simp add: quiet_def same_driver_def)

lemma modify_pdn_ok:
  assumes "plat_ok pl" "IPA_HW_v4_0 \<le> hw_type pl"
  shows "returns (ipa3_nat_create_modify_pdn_cmd pl z k) (\<lambda>(r, c, k'). quiet k k')"
proof -
  obtain n where "ipa3_get_max_pdn pl = Some n" using plat_max_pdn [OF assms] .
  then show ?thesis
    using assms by (simp add: ipa3_nat_create_modify_pdn_cmd_def plat_entry_size quiet_def Let_def)
qed

lemma seq_from_quiet:
  assumes "seq_from k n (r, ps, k1)" "quiet k1 k2"
  shows "\<exists>k'. quiet k k' \<and> seq_from k' n (r', ps, k2)"
  using assms
  by (intro exI [of _ "k2\<lparr>k_pylds := k_pylds k\<rparr>"]) (simp add: quiet_def seq_from_def same_driver_def)

text \<open>The part of \<^verbatim>\<open>ipa3_nat_send_init_cmd\<close> that copies the PDN table.\<close>

lemma send_init_pdn_ok:
  assumes pl: "plat_ok pl" and s: "seq_from k 3 (r, ps, k1)"
  shows "returns (if r \<noteq> 0 \<or> hw_type pl < IPA_HW_v4_0 then Some (r, ps, k1)
         else if 4 \<le> length ps then Some (- ENOBUFS, ps, k1)
         else ipa3_nat_create_modify_pdn_cmd pl z k1 \<bind> (\<lambda>(r, mem_cmd, k).
           if r \<noteq> 0 then Some (r, ps, k)
           else imm_push env pl 4 (IPA_IMM_CMD_DMA_SHARED_MEM mem_cmd) (- ENOMEM) (0, ps, k)))
     (\<lambda>s'. \<exists>k'. quiet k k' \<and> seq_from k' 4 s')"
proof (cases "r \<noteq> 0 \<or> hw_type pl < IPA_HW_v4_0 \<or> 4 \<le> length ps")
  case True
  have "\<exists>k'. quiet k k' \<and> seq_from k' 4 (r', ps, k1)" for r'
    by (intro exI [of _ k]) (use s in \<open>simp add: seq_from_def\<close>)
  with True show ?thesis by (auto simp: returns_if)
next
  case False
  then have "returns (ipa3_nat_create_modify_pdn_cmd pl z k1) (\<lambda>(r, c, k'). quiet k1 k')"
    using pl by (intro modify_pdn_ok) auto
  then obtain r2 c2 k2 where m: "ipa3_nat_create_modify_pdn_cmd pl z k1 = Some (r2, c2, k2)" "quiet k1 k2"
    by (auto simp: returns_def)
  obtain k' where k': "quiet k k'" "seq_from k' 3 (r', ps, k2)" for r'
    using seq_from_quiet [OF s m(2)] by (auto simp: seq_from_def)
  show ?thesis
  proof (cases "r2 = 0")
    case True
    then show ?thesis
      using False m(1) k' imm_push_ok [OF pl _ k'(2), of "IPA_IMM_CMD_DMA_SHARED_MEM c2" 4 env "- ENOMEM" 0]
      by (auto elim!: returns_mono)
  next
    case r: False
    then show ?thesis using False m(1) k' seq_from_mono [OF k'(2), of 4] by auto
  qed
qed

lemma returns_finish:
  "returns m (\<lambda>s. \<exists>k'. quiet k k' \<and> seq_from k' n s) \<Longrightarrow> returns (m \<bind> (\<lambda>s. Some (imm_finish env s))) (\<lambda>(r, k'). quiet k k')"
  by (auto elim!: returns_mono dest: quiet_finish quiet_trans split: prod.splits)

lemma returns_seq_bindI:
  "returns m (seq_from k n) \<Longrightarrow> (\<And>r ps k1. seq_from k n (r, ps, k1) \<Longrightarrow> returns (f r ps k1) Q) \<Longrightarrow>
   returns (m \<bind> (\<lambda>(r, ps, k). f r ps k)) Q"
  by (auto elim!: returns_mono)

lemma send_init_ok:
  assumes pl: "plat_ok pl"
  shows "returns (ipa3_nat_send_init_cmd env pl cmd z k) (\<lambda>(r, k'). quiet k k')"
  unfolding ipa3_nat_send_init_cmd_def Let_def IPA_NAT_MAX_NUM_OF_INIT_CMD_DESC_def
proof (rule returns_bindI [OF imm_coal_close_ok [OF pl seq_from_start]])
  fix s assume "seq_from k (if coal_ep pl \<noteq> - 1 then 0 + 1 else 0) s"
  then have s: "seq_from k 1 s" by (rule seq_from_mono) simp
  show "returns (imm_nop env pl 4 s \<bind>
      (\<lambda>s. imm_push env pl 4 (IPA_IMM_CMD_IP_V4_NAT_INIT cmd) (- EPERM) s \<bind>
      (\<lambda>(r, ps, k). (if r \<noteq> 0 \<or> hw_type pl < IPA_HW_v4_0 then Some (r, ps, k)
         else if 4 \<le> length ps then Some (- ENOBUFS, ps, k)
         else ipa3_nat_create_modify_pdn_cmd pl z k \<bind> (\<lambda>(r, mem_cmd, k).
           if r \<noteq> 0 then Some (r, ps, k)
           else imm_push env pl 4 (IPA_IMM_CMD_DMA_SHARED_MEM mem_cmd) (- ENOMEM) (0, ps, k))) \<bind>
         (\<lambda>s. Some (imm_finish env s))))) (\<lambda>(r, k'). quiet k k')"
  proof (rule returns_bindI [OF imm_nop_ok [OF pl s]], simp, rule returns_seq_bindI)
    fix s' assume "seq_from k (1 + 1) s'"
    then show "returns (imm_push env pl 4 (IPA_IMM_CMD_IP_V4_NAT_INIT cmd) (- EPERM) s') (seq_from k 3)"
      using imm_push_ok [OF pl, of "IPA_IMM_CMD_IP_V4_NAT_INIT cmd" k "1 + 1" s' 4] by (simp add: numeral_3_eq_3)
  qed (rule returns_finish [OF send_init_pdn_ok [OF pl]])
qed simp

lemma ct_send_init_ok:
  assumes pl: "plat_ok pl" and v: "IPA_HW_v4_0 \<le> hw_type pl"
  shows "returns (ipa3_ipv6ct_send_init_cmd env pl cmd k) (\<lambda>(r, k'). quiet k k')"
  unfolding ipa3_ipv6ct_send_init_cmd_def Let_def IPA_IPV6CT_MAX_NUM_OF_INIT_CMD_DESC_def
proof (rule returns_bindI [OF imm_coal_close_ok [OF pl seq_from_start]])
  fix s assume "seq_from k (if coal_ep pl \<noteq> - 1 then 0 + 1 else 0) s"
  then have s: "seq_from k 1 s" by (rule seq_from_mono) simp
  have push: "returns (if r \<noteq> 0 then Some (r, ps, k1) else if 3 \<le> length ps then Some (- ENOBUFS, ps, k1)
       else imm_push env pl 3 (IPA_IMM_CMD_IP_V6_CT_INIT cmd) (- EPERM) (0, ps, k1))
     (\<lambda>s. \<exists>k'. quiet k k' \<and> seq_from k' 3 s)" if q: "seq_from k 2 (r, ps, k1)" for r ps k1
  proof -
    have "returns (imm_push env pl 3 (IPA_IMM_CMD_IP_V6_CT_INIT cmd) (- EPERM) (0, ps, k1)) (seq_from k 3)"
      using imm_push_ok [OF pl, of "IPA_IMM_CMD_IP_V6_CT_INIT cmd" k 2 "(0, ps, k1)" 3] q v by (simp add: seq_from_def)
    moreover have "seq_from k 3 (r', ps, k1)" for r' using q by (simp add: seq_from_def)
    ultimately show ?thesis by (auto elim!: returns_mono intro!: exI [of _ k])
  qed
  show "returns (imm_nop env pl 3 s \<bind> (\<lambda>(r, ps, k). (if r \<noteq> 0 then Some (r, ps, k)
         else if 3 \<le> length ps then Some (- ENOBUFS, ps, k)
         else imm_push env pl 3 (IPA_IMM_CMD_IP_V6_CT_INIT cmd) (- EPERM) (0, ps, k)) \<bind>
         (\<lambda>s. Some (imm_finish env s)))) (\<lambda>(r, k'). quiet k k')"
  proof (rule returns_seq_bindI)
    show "returns (imm_nop env pl 3 s) (seq_from k 2)" using imm_nop_ok [OF pl s, of 3 env] by (simp add: numeral_2_eq_2)
  qed (rule returns_finish [OF push])
qed simp

lemma push_table_dmas_ok:
  assumes "plat_ok pl" "seq_from k n s" "n + length ds \<le> IPA_MAX_NUM_OF_TABLE_DMA_CMD_DESC"
  shows "returns (push_table_dmas env pl ds s) (seq_from k (n + length ds))"
  using assms(2,3)
proof (induction ds arbitrary: n s)
  case (Cons d ds)
  have "cmd_exists pl (if hw_type pl \<ge> IPA_HW_v4_0 then IPA_IMM_CMD_TABLE_DMA d else IPA_IMM_CMD_NAT_DMA d)" by simp
  from imm_push_ok [OF assms(1) this Cons.prems(1)] Cons.prems(2)
  have "returns (imm_push env pl IPA_MAX_NUM_OF_TABLE_DMA_CMD_DESC
      (if hw_type pl \<ge> IPA_HW_v4_0 then IPA_IMM_CMD_TABLE_DMA d else IPA_IMM_CMD_NAT_DMA d) (- ENOMEM) s) (seq_from k (n + 1))"
    by simp
  moreover have "returns (push_table_dmas env pl ds s') (seq_from k (n + length (d # ds)))" if "seq_from k (n + 1) s'" for s'
    using Cons.IH [OF that] Cons.prems(2) by simp
  ultimately show ?case unfolding push_table_dmas.simps by (rule returns_bindI)
qed simp

end
