(* ===== verification/Ipa3_Nat_Inv.thy ===== *)
theory Ipa3_Nat_Inv
  imports Ipa3_Nat_Ok
begin

text \<open>
  The invariant of the driver's state and the accounting of its resources: what the ledger holds is what the state
  refers to and a rest \<open>S\<close> that no request touches.
\<close>

section \<open>Invariant\<close>

text \<open>A table of \<open>n\<close> bytes at \<open>a\<close> lies in the allocation of \<open>sz\<close> bytes at \<open>b\<close>.\<close>

definition fits :: "u64 \<Rightarrow> u64 \<Rightarrow> u64 \<Rightarrow> nat \<Rightarrow> bool" where
  "fits b sz a n \<longleftrightarrow> unat (a - b) + n \<le> unat sz"

definition tables_fit :: "ipa3_nat_mem_loc_data \<Rightarrow> bool" where
  "tables_fit l \<longleftrightarrow>
     (let b = ml_base_address l; sz = ml_table_alloc_size l; te = unat (ml_table_entries l) + 1; xe = unat (ml_expn_table_entries l) in
      te < 65536 \<and> xe < 65536 \<and>
      fits b sz (ml_base_table_addr l) (32 * te) \<and> fits b sz (ml_expansion_table_addr l) (32 * xe) \<and>
      fits b sz (ml_index_table_addr l) (4 * te) \<and> fits b sz (ml_index_table_expansion_addr l) (4 * xe))"

definition loc_ok :: "bool \<Rightarrow> ipa3_nat_mem_loc_data \<Rightarrow> bool" where
  "loc_ok in_use l \<longleftrightarrow>
     (\<not> in_use \<longrightarrow> ml_vaddr l = 0) \<and> (ml_vaddr l = 0 \<longrightarrow> \<not> ml_is_mapped l) \<and>
     (ml_is_mapped l \<longrightarrow> ml_base_address l = ml_vaddr l) \<and>
     (\<not> ml_is_mapped l \<longrightarrow> ml_table_entries l = 0) \<and>
     (if ml_table_entries l = 0 then ml_expn_table_entries l = 0 else tables_fit l)"

definition own_dma :: "u64 \<Rightarrow> u64 \<Rightarrow> u64 \<Rightarrow> kres multiset" where
  "own_dma v h sz = (if v = 0 then {#} else {#DmaMem v h sz#})"

definition owned_nat :: "ipa3_nat_mem \<Rightarrow> kres multiset" where
  "owned_nat nm =
     (let d = nm_mem_loc nm IPA_NAT_MEM_IN_DDR; s = nm_mem_loc nm IPA_NAT_MEM_IN_SRAM in
      own_dma (ml_vaddr d) (ml_dma_handle d) (ml_table_alloc_size d) +
      (if ml_io_vaddr s = 0 then {#} else {#IoMem (ml_io_vaddr s)#}) +
      own_dma (nm_pdn_base nm) (nm_pdn_phys_base nm) (ucast (nm_pdn_size nm)))"

definition owned_ct :: "ipa3_nat_ipv6ct_common_mem \<Rightarrow> kres multiset" where
  "owned_ct d = own_dma (cm_vaddr d) (cm_dma_handle d) (cm_table_alloc_size d)"

definition nat_mem_ok :: "ipa3_platform \<Rightarrow> ipa3_nat_mem \<Rightarrow> bool" where
  "nat_mem_ok pl nm \<longleftrightarrow>
     cm_is_dev_init (nm_dev nm) \<and> cm_is_nat_mem (nm_dev nm) \<and> \<not> cm_is_ipv6ct_mem (nm_dev nm) \<and>
     loc_ok (nm_ddr_in_use nm) (nm_mem_loc nm IPA_NAT_MEM_IN_DDR) \<and>
     loc_ok (nm_sram_in_use nm) (nm_mem_loc nm IPA_NAT_MEM_IN_SRAM) \<and>
     ml_io_vaddr (nm_mem_loc nm IPA_NAT_MEM_IN_SRAM) = ml_vaddr (nm_mem_loc nm IPA_NAT_MEM_IN_SRAM) \<and>
     (ml_vaddr (nm_mem_loc nm IPA_NAT_MEM_IN_SRAM) \<noteq> 0 \<longrightarrow>
        unat (ml_table_alloc_size (nm_mem_loc nm IPA_NAT_MEM_IN_SRAM)) \<le> unat (nat_tbl_size pl)) \<and>
     (cm_is_hw_init (nm_dev nm) \<longrightarrow>
        nm_active_table nm \<noteq> IPA_NAT_MEM_IN_MAX \<and> ml_table_entries (nm_mem_loc nm (nm_active_table nm)) \<noteq> 0) \<and>
     (nm_pdn_base nm \<noteq> 0 \<longrightarrow> IPA_HW_v4_0 \<le> hw_type pl \<and> ipa3_get_max_pdn pl = Some (length (nm_pdn_table nm)))"

definition ct_dev_ok :: "ipa3_platform \<Rightarrow> ipa3_nat_ipv6ct_common_mem \<Rightarrow> bool" where
  "ct_dev_ok pl d \<longleftrightarrow>
     (if IPA_HW_v4_0 \<le> hw_type pl then cm_is_dev_init d \<and> cm_is_ipv6ct_mem d \<and> \<not> cm_is_nat_mem d
      else \<not> cm_is_dev_init d \<and> cm_vaddr d = 0)"

definition kinv :: "ipa3_platform \<Rightarrow> kres multiset \<Rightarrow> 'w ipa3 \<Rightarrow> bool" where
  "kinv pl S k \<longleftrightarrow>
     nat_mem_ok pl (nat_mem k) \<and> ct_dev_ok pl (ipv6ct_dev k) \<and> k_pylds k = 0 \<and>
     mset (k_ledger k) = owned_nat (nat_mem k) + owned_ct (ipv6ct_dev k) + S"

lemma kinv_world [simp]: "kinv pl S (k\<lparr>k_world := w\<rparr>) = kinv pl S k"
  by (simp add: kinv_def)

lemma quiet_nat_mem:
  assumes "quiet k k'"
  shows "nm_dev (nat_mem k') = nm_dev (nat_mem k)" "nm_mem_loc (nat_mem k') = nm_mem_loc (nat_mem k)"
    "nm_ddr_in_use (nat_mem k') = nm_ddr_in_use (nat_mem k)" "nm_sram_in_use (nat_mem k') = nm_sram_in_use (nat_mem k)"
    "nm_pdn_base (nat_mem k') = nm_pdn_base (nat_mem k)" "nm_pdn_phys_base (nat_mem k') = nm_pdn_phys_base (nat_mem k)"
    "nm_pdn_size (nat_mem k') = nm_pdn_size (nat_mem k)" "nm_active_table (nat_mem k') = nm_active_table (nat_mem k)"
    "nm_last_alloc_loc (nat_mem k') = nm_last_alloc_loc (nat_mem k)" "ipv6ct_dev k' = ipv6ct_dev k" "sram_compatible k' = sram_compatible k"
    "length (nm_pdn_table (nat_mem k')) = length (nm_pdn_table (nat_mem k))"
proof -
  have e: "(nat_mem k')\<lparr>nm_pdn_table := []\<rparr> = (nat_mem k)\<lparr>nm_pdn_table := []\<rparr>" using assms by (simp add: quiet_def)
  from arg_cong [OF e, of nm_dev] arg_cong [OF e, of nm_mem_loc] arg_cong [OF e, of nm_ddr_in_use]
    arg_cong [OF e, of nm_sram_in_use] arg_cong [OF e, of nm_pdn_base] arg_cong [OF e, of nm_pdn_phys_base]
    arg_cong [OF e, of nm_pdn_size] arg_cong [OF e, of nm_active_table] arg_cong [OF e, of nm_last_alloc_loc] assms
  show "nm_dev (nat_mem k') = nm_dev (nat_mem k)" "nm_mem_loc (nat_mem k') = nm_mem_loc (nat_mem k)"
    "nm_ddr_in_use (nat_mem k') = nm_ddr_in_use (nat_mem k)" "nm_sram_in_use (nat_mem k') = nm_sram_in_use (nat_mem k)"
    "nm_pdn_base (nat_mem k') = nm_pdn_base (nat_mem k)" "nm_pdn_phys_base (nat_mem k') = nm_pdn_phys_base (nat_mem k)"
    "nm_pdn_size (nat_mem k') = nm_pdn_size (nat_mem k)" "nm_active_table (nat_mem k') = nm_active_table (nat_mem k)"
    "nm_last_alloc_loc (nat_mem k') = nm_last_alloc_loc (nat_mem k)" "ipv6ct_dev k' = ipv6ct_dev k" "sram_compatible k' = sram_compatible k"
    "length (nm_pdn_table (nat_mem k')) = length (nm_pdn_table (nat_mem k))"
    by (simp_all add: quiet_def)
qed

lemma quiet_kinv: "quiet k k' \<Longrightarrow> kinv pl S k' = kinv pl S k"
  unfolding kinv_def nat_mem_ok_def owned_nat_def by (simp add: quiet_nat_mem) (simp add: quiet_def)

lemma release_ok:
  assumes "mset (k_ledger k) = A + {#r#} + B"
  shows "release r k = Some (k\<lparr>k_ledger := remove1 r (k_ledger k)\<rparr>)" "mset (remove1 r (k_ledger k)) = A + B"
proof -
  have "r \<in># mset (k_ledger k)" unfolding assms by simp
  then show "release r k = Some (k\<lparr>k_ledger := remove1 r (k_ledger k)\<rparr>)" by (simp add: release_def)
  show "mset (remove1 r (k_ledger k)) = A + B" by (simp add: assms)
qed

section \<open>Allocation\<close>

lemma loc_ok_free [simp]: "loc_ok False l \<longleftrightarrow> ml_vaddr l = 0 \<and> \<not> ml_is_mapped l \<and> ml_table_entries l = 0 \<and> ml_expn_table_entries l = 0"
  by (auto simp: loc_ok_def)

lemma loc_ok_fresh: "\<not> ml_is_mapped l \<Longrightarrow> ml_table_entries l = 0 \<Longrightarrow> ml_expn_table_entries l = 0 \<Longrightarrow> loc_ok True l"
  by (simp add: loc_ok_def)

lemmas state_defs = get_loc_def set_loc_def acquire_def in_world_def dma_alloc_coherent_def Let_def

definition in_use :: "ipa3_nat_mem_in \<Rightarrow> ipa3_nat_mem \<Rightarrow> bool" where
  "in_use nmi nm \<longleftrightarrow> nmi = IPA_NAT_MEM_IN_DDR \<and> nm_ddr_in_use nm \<or> nmi = IPA_NAT_MEM_IN_SRAM \<and> nm_sram_in_use nm"

lemma in_use_simps [simp]:
  "in_use IPA_NAT_MEM_IN_DDR nm = nm_ddr_in_use nm" "in_use IPA_NAT_MEM_IN_SRAM nm = nm_sram_in_use nm"
  by (simp_all add: in_use_def)

text \<open>A change of one memory location.\<close>

lemma nat_mem_ok_put:
  assumes "nat_mem_ok pl nm" "nmi \<noteq> IPA_NAT_MEM_IN_MAX" "nm_dev nm' = nm_dev nm" "nm_mem_loc nm' = (nm_mem_loc nm)(nmi := l)"
    "\<And>m. m \<noteq> nmi \<Longrightarrow> in_use m nm' = in_use m nm" "nm_active_table nm' = nm_active_table nm"
    "nm_pdn_base nm' = nm_pdn_base nm" "nm_pdn_table nm' = nm_pdn_table nm" "loc_ok (in_use nmi nm') l"
    "nmi = IPA_NAT_MEM_IN_SRAM \<Longrightarrow> ml_io_vaddr l = ml_vaddr l"
    "nmi = IPA_NAT_MEM_IN_SRAM \<Longrightarrow> ml_vaddr l \<noteq> 0 \<Longrightarrow> unat (ml_table_alloc_size l) \<le> unat (nat_tbl_size pl)"
    "ml_table_entries (nm_mem_loc nm nmi) \<noteq> 0 \<Longrightarrow> ml_table_entries l \<noteq> 0"
  shows "nat_mem_ok pl nm'"
proof (cases nmi)
  case IPA_NAT_MEM_IN_DDR
  then show ?thesis
    using assms(1,3,4,6-9,12) assms(5) [of IPA_NAT_MEM_IN_SRAM] by (auto simp: nat_mem_ok_def)
next
  case IPA_NAT_MEM_IN_SRAM
  then show ?thesis
    using assms(1,3,4,6-12) assms(5) [of IPA_NAT_MEM_IN_DDR] by (auto simp: nat_mem_ok_def)
qed (use assms(2) in simp)

lemma loc_ok_at:
  assumes "nat_mem_ok pl nm" "nmi \<noteq> IPA_NAT_MEM_IN_MAX"
  shows "loc_ok (in_use nmi nm) (nm_mem_loc nm nmi)"
  using assms by (cases nmi) (simp_all add: nat_mem_ok_def)

lemma sram_facts:
  assumes "nat_mem_ok pl nm"
  shows "nmi = IPA_NAT_MEM_IN_SRAM \<Longrightarrow> ml_io_vaddr (nm_mem_loc nm nmi) = ml_vaddr (nm_mem_loc nm nmi)"
    "nmi = IPA_NAT_MEM_IN_SRAM \<Longrightarrow> ml_vaddr (nm_mem_loc nm nmi) \<noteq> 0 \<Longrightarrow>
       unat (ml_table_alloc_size (nm_mem_loc nm nmi)) \<le> unat (nat_tbl_size pl)"
  using assms by (simp_all add: nat_mem_ok_def)

lemma loc_unused:
  assumes "nat_mem_ok pl nm" "\<not> in_use nmi nm" "nmi \<noteq> IPA_NAT_MEM_IN_MAX"
  shows "ml_vaddr (nm_mem_loc nm nmi) = 0" "\<not> ml_is_mapped (nm_mem_loc nm nmi)" "ml_table_entries (nm_mem_loc nm nmi) = 0"
    "ml_expn_table_entries (nm_mem_loc nm nmi) = 0" "nmi = IPA_NAT_MEM_IN_SRAM \<Longrightarrow> ml_io_vaddr (nm_mem_loc nm nmi) = 0"
  using assms by (cases nmi; simp add: nat_mem_ok_def)+

text \<open>The allocation of the memory of \<open>nmi\<close> succeeded: nothing else changed, and what it owns is new.\<close>

lemma alloc_sram_ok:
  assumes inv: "kinv pl S k" and sram: "sram_compatible k \<and> unat sz \<le> unat (nat_tbl_size pl)"
    and free: "\<not> nm_sram_in_use (nat_mem k)" and a: "allocate_nat_mem env pl sz k = (r, k')"
  shows "kinv pl S k' \<and> (r = 0 \<longrightarrow> nm_last_alloc_loc (nat_mem k') = IPA_NAT_MEM_IN_SRAM \<and>
      \<not> ml_is_mapped (get_loc IPA_NAT_MEM_IN_SRAM k') \<and> ml_vaddr (get_loc IPA_NAT_MEM_IN_SRAM k') \<noteq> 0)"
proof -
  have nm: "nat_mem_ok pl (nat_mem k)" using inv by (simp add: kinv_def)
  obtain io w where io: "kenv_ioremap env (ucast (sram_phys_addr pl)) (nat_tbl_size pl) (k_world k) = (io, w)" by fastforce
  have u: "\<not> in_use IPA_NAT_MEM_IN_SRAM (nat_mem k)" using free by simp
  note l = loc_unused [OF nm u, simplified]
  note a = a [unfolded allocate_nat_mem_def if_P [OF sram] if_not_P [OF free]]
  have "nat_mem_ok pl (nat_mem k')"
    by (rule nat_mem_ok_put [OF nm, of IPA_NAT_MEM_IN_SRAM _ "nm_mem_loc (nat_mem k') IPA_NAT_MEM_IN_SRAM"])
       (use a io l free sram in \<open>auto simp: state_defs in_use_def intro!: loc_ok_fresh split: if_splits\<close>)
  moreover have "ct_dev_ok pl (ipv6ct_dev k')" "k_pylds k' = 0" "mset (k_ledger k') = owned_nat (nat_mem k') + owned_ct (ipv6ct_dev k') + S"
    using inv a io l by (auto simp: kinv_def state_defs owned_nat_def split: if_splits)
  moreover have "r = 0 \<longrightarrow> nm_last_alloc_loc (nat_mem k') = IPA_NAT_MEM_IN_SRAM \<and>
      \<not> ml_is_mapped (get_loc IPA_NAT_MEM_IN_SRAM k') \<and> ml_vaddr (get_loc IPA_NAT_MEM_IN_SRAM k') \<noteq> 0"
    using a io l by (auto simp: state_defs split: if_splits)
  ultimately show ?thesis by (simp add: kinv_def)
qed

lemma alloc_ddr_ok:
  assumes inv: "kinv pl S k" and ddr: "\<not> (sram_compatible k \<and> unat sz \<le> unat (nat_tbl_size pl))"
    and free: "\<not> nm_ddr_in_use (nat_mem k)" and a: "allocate_nat_mem env pl sz k = (r, k')"
  shows "kinv pl S k' \<and> (r = 0 \<longrightarrow> nm_last_alloc_loc (nat_mem k') = IPA_NAT_MEM_IN_DDR \<and>
      \<not> ml_is_mapped (get_loc IPA_NAT_MEM_IN_DDR k') \<and> ml_vaddr (get_loc IPA_NAT_MEM_IN_DDR k') \<noteq> 0)"
proof -
  have nm: "nat_mem_ok pl (nat_mem k)" using inv by (simp add: kinv_def)
  obtain v h w where v: "kenv_dma_alloc_coherent env sz (k_world k) = (v, h, w)"
    by (cases "kenv_dma_alloc_coherent env sz (k_world k)")
  have u: "\<not> in_use IPA_NAT_MEM_IN_DDR (nat_mem k)" using free by simp
  note l = loc_unused [OF nm u, simplified]
  note a = a [unfolded allocate_nat_mem_def if_not_P [OF ddr] if_not_P [OF free]]
  have "nat_mem_ok pl (nat_mem k')"
    by (rule nat_mem_ok_put [OF nm, of IPA_NAT_MEM_IN_DDR _ "nm_mem_loc (nat_mem k') IPA_NAT_MEM_IN_DDR"])
       (use a v l free in \<open>auto simp: state_defs in_use_def intro!: loc_ok_fresh split: if_splits\<close>)
  moreover have "ct_dev_ok pl (ipv6ct_dev k')" "k_pylds k' = 0" "mset (k_ledger k') = owned_nat (nat_mem k') + owned_ct (ipv6ct_dev k') + S"
    using inv a v l by (auto simp: kinv_def state_defs owned_nat_def own_dma_def split: if_splits)
  moreover have "r = 0 \<longrightarrow> nm_last_alloc_loc (nat_mem k') = IPA_NAT_MEM_IN_DDR \<and>
      \<not> ml_is_mapped (get_loc IPA_NAT_MEM_IN_DDR k') \<and> ml_vaddr (get_loc IPA_NAT_MEM_IN_DDR k') \<noteq> 0"
    using a v l by (auto simp: state_defs split: if_splits)
  ultimately show ?thesis by (simp add: kinv_def)
qed

lemma allocate_nat_mem_ok:
  assumes inv: "kinv pl S k" and a: "allocate_nat_mem env pl sz k = (r, k')"
  shows "kinv pl S k' \<and> (r = 0 \<longrightarrow> nm_last_alloc_loc (nat_mem k') \<noteq> IPA_NAT_MEM_IN_MAX \<and>
      \<not> ml_is_mapped (get_loc (nm_last_alloc_loc (nat_mem k')) k') \<and> ml_vaddr (get_loc (nm_last_alloc_loc (nat_mem k')) k') \<noteq> 0)"
proof (cases "sram_compatible k \<and> unat sz \<le> unat (nat_tbl_size pl)")
  case sram: True
  show ?thesis
  proof (cases "nm_sram_in_use (nat_mem k)")
    case True
    show ?thesis using a inv unfolding allocate_nat_mem_def if_P [OF sram] if_P [OF True] by simp
  next
    case False
    then show ?thesis using alloc_sram_ok [OF inv sram False a] by auto
  qed
next
  case ddr: False
  show ?thesis
  proof (cases "nm_ddr_in_use (nat_mem k)")
    case True
    show ?thesis using a inv unfolding allocate_nat_mem_def if_not_P [OF ddr] if_P [OF True] by simp
  next
    case False
    then show ?thesis using alloc_ddr_ok [OF inv ddr False a] by auto
  qed
qed

lemma fail_alloc_pdn_ok:
  assumes inv: "kinv pl S k" and l: "nm_last_alloc_loc (nat_mem k) \<noteq> IPA_NAT_MEM_IN_MAX"
    "\<not> ml_is_mapped (get_loc (nm_last_alloc_loc (nat_mem k)) k)" "ml_vaddr (get_loc (nm_last_alloc_loc (nat_mem k)) k) \<noteq> 0"
  shows "returns (fail_alloc_pdn k) (kinv pl S)"
proof -
  have nm: "nat_mem_ok pl (nat_mem k)" using inv by (simp add: kinv_def)
  let ?d = "nm_mem_loc (nat_mem k) IPA_NAT_MEM_IN_DDR" and ?s = "nm_mem_loc (nat_mem k) IPA_NAT_MEM_IN_SRAM"
  let ?p = "own_dma (nm_pdn_base (nat_mem k)) (nm_pdn_phys_base (nat_mem k)) (ucast (nm_pdn_size (nat_mem k)))"
  have led: "mset (k_ledger k) = owned_nat (nat_mem k) + owned_ct (ipv6ct_dev k) + S" using inv by (simp add: kinv_def)
  show ?thesis
  proof (cases "nm_last_alloc_loc (nat_mem k)")
    case IPA_NAT_MEM_IN_DDR
    define A where "A = (if ml_io_vaddr ?s = 0 then {#} else {#IoMem (ml_io_vaddr ?s)#}) + ?p + owned_ct (ipv6ct_dev k) + S"
    have m: "mset (k_ledger k) = {#} + {#DmaMem (ml_vaddr ?d) (ml_dma_handle ?d) (ml_table_alloc_size ?d)#} + A"
      using l IPA_NAT_MEM_IN_DDR by (simp add: led owned_nat_def own_dma_def get_loc_def A_def Let_def)
    have ok: "nat_mem_ok pl ((nat_mem k)\<lparr>nm_mem_loc := (nm_mem_loc (nat_mem k))(IPA_NAT_MEM_IN_DDR := ?d\<lparr>ml_vaddr := 0\<rparr>)\<rparr>)"
      by (rule nat_mem_ok_put [OF nm, of IPA_NAT_MEM_IN_DDR _ "?d\<lparr>ml_vaddr := 0\<rparr>"])
         (use nm l IPA_NAT_MEM_IN_DDR in \<open>auto simp: get_loc_def in_use_def nat_mem_ok_def loc_ok_def split: if_splits\<close>)
    show ?thesis
      using inv IPA_NAT_MEM_IN_DDR l(3) release_ok [OF m] ok
      by (simp add: fail_alloc_pdn_def dma_free_coherent_def get_loc_def set_loc_def kinv_def Let_def owned_nat_def own_dma_def A_def)
  next
    case IPA_NAT_MEM_IN_SRAM
    define A where "A = own_dma (ml_vaddr ?d) (ml_dma_handle ?d) (ml_table_alloc_size ?d)"
    define B where "B = ?p + owned_ct (ipv6ct_dev k) + S"
    have io: "ml_io_vaddr ?s = ml_vaddr ?s" using nm by (simp add: nat_mem_ok_def)
    have m: "mset (k_ledger k) = A + {#IoMem (ml_io_vaddr ?s)#} + B"
      using l io IPA_NAT_MEM_IN_SRAM by (simp add: led owned_nat_def get_loc_def A_def B_def Let_def)
    have ok: "nat_mem_ok pl ((nat_mem k)\<lparr>nm_mem_loc := (nm_mem_loc (nat_mem k))(IPA_NAT_MEM_IN_SRAM := ?s\<lparr>ml_io_vaddr := 0, ml_vaddr := 0\<rparr>)\<rparr>)"
      by (rule nat_mem_ok_put [OF nm, of IPA_NAT_MEM_IN_SRAM _ "?s\<lparr>ml_io_vaddr := 0, ml_vaddr := 0\<rparr>"])
         (use nm l IPA_NAT_MEM_IN_SRAM in \<open>auto simp: get_loc_def in_use_def nat_mem_ok_def loc_ok_def split: if_splits\<close>)
    show ?thesis
      using inv IPA_NAT_MEM_IN_SRAM l(3) io release_ok [OF m] ok
      by (simp add: fail_alloc_pdn_def get_loc_def set_loc_def kinv_def Let_def owned_nat_def A_def B_def)
  qed (use l in simp)
qed

lemma nat_mem_ok_pdn_size [simp]: "nat_mem_ok pl (nm\<lparr>nm_pdn_size := x\<rparr>) = nat_mem_ok pl nm"
  by (simp add: nat_mem_ok_def)

lemma allocate_nat_table_ok:
  assumes pl: "plat_ok pl" and inv: "kinv pl S k"
  shows "returns (ipa3_allocate_nat_table env pl sz k) (\<lambda>(r, k'). kinv pl S k')"
proof -
  have dev: "cm_is_dev_init (nm_dev (nat_mem k))" "cm_is_nat_mem (nm_dev (nat_mem k))" "\<not> cm_is_ipv6ct_mem (nm_dev (nat_mem k))"
    using inv by (simp_all add: kinv_def nat_mem_ok_def)
  obtain r k1 where a: "allocate_nat_mem env pl sz k = (r, k1)" by fastforce
  note a1 = allocate_nat_mem_ok [OF inv a]
  have al: "ipa3_nat_ipv6ct_allocate_mem env pl NatDev sz IPAHAL_NAT_IPV4 k =
      (if sz = 0 \<or> unat sz > MAX_ALLOC_NAT_SIZE 32 then Some (- EPERM, k) else Some (r, k1))"
    using dev a by (simp add: ipa3_nat_ipv6ct_allocate_mem_def plat_entry_size [OF pl] Let_def)
  show ?thesis
  proof (cases "sz \<noteq> 0 \<and> unat sz \<le> MAX_ALLOC_NAT_SIZE 32 \<and> r = 0 \<and> IPA_HW_v4_0 \<le> hw_type pl \<and> nm_pdn_base (nat_mem k1) = 0")
    case False
    then show ?thesis using inv a1 by (auto simp: ipa3_allocate_nat_table_def al)
  next
    case True
    then have v: "IPA_HW_v4_0 \<le> hw_type pl" and b0: "nm_pdn_base (nat_mem k1) = 0" and r0: "r = 0" by simp_all
    obtain n where n: "ipa3_get_max_pdn pl = Some n" "1 \<le> n" "16 * n \<le> unat (pdn_config_size pl)"
      using plat_max_pdn [OF pl v] .
    define psz where "psz = (of_nat (16 * n) :: u32)"
    have "unat (of_nat (16 * n) :: u32) = 16 * n"
      using n(3) unsigned_less [of "pdn_config_size pl", where ?'a = nat] by (intro unat_of_nat_u32) simp
    then have small: "\<not> pdn_config_size pl < psz" using n(3) by (simp add: psz_def word_less_nat_alt)
    define k2 where "k2 = k1\<lparr>nat_mem := (nat_mem k1)\<lparr>nm_pdn_size := psz\<rparr>\<rparr>"
    obtain v1 h w where d: "kenv_dma_alloc_coherent env (ucast psz) (k_world k2) = (v1, h, w)"
      by (cases "kenv_dma_alloc_coherent env (ucast psz) (k_world k2)")
    have inv2: "kinv pl S (k2\<lparr>k_world := w, nat_mem := (nat_mem k2)\<lparr>nm_pdn_base := 0, nm_pdn_phys_base := h\<rparr>\<rparr>)"
      using a1 b0 by (simp add: k2_def kinv_def owned_nat_def own_dma_def nat_mem_ok_def Let_def)
    have fail: "returns (fail_alloc_pdn (k2\<lparr>k_world := w, nat_mem := (nat_mem k2)\<lparr>nm_pdn_base := 0, nm_pdn_phys_base := h\<rparr>\<rparr>)) (kinv pl S)"
      by (rule fail_alloc_pdn_ok [OF inv2]) (use a1 r0 in \<open>simp_all add: k2_def get_loc_def\<close>)
    have ok: "v1 \<noteq> 0 \<Longrightarrow> kinv pl S (k2\<lparr>k_world := w, k_ledger := DmaMem v1 h (ucast psz) # k_ledger k2,
        nat_mem := (nat_mem k2)\<lparr>nm_pdn_base := v1, nm_pdn_phys_base := h, nm_pdn_table := replicate n 0\<rparr>\<rparr>)"
      using a1 b0 v n(1) by (simp add: k2_def kinv_def owned_nat_def own_dma_def nat_mem_ok_def Let_def)
    show ?thesis
      using True fail ok d n(1) small unfolding k2_def psz_def
      by (simp add: ipa3_allocate_nat_table_def al plat_entry_size [OF pl] dma_alloc_coherent_def acquire_def Let_def)
  qed
qed

end
