(* ===== verification/Ipa3_Nat_Safe.thy ===== *)
theory Ipa3_Nat_Safe
  imports Ipa3_Nat_Inv
begin

text \<open>
  Every request keeps the invariant of the driver: mapping, initialisation, PDN entries, table writes and deletion; then
  sequences of requests.
\<close>

section \<open>IPv6 connection tracking memory and mapping\<close>

text \<open>An allocation while there is memory already adds that memory to what the driver has lost track of.\<close>

lemma allocate_ct_ok:
  assumes pl: "plat_ok pl" and inv: "kinv pl S k"
  shows "returns (ipa3_allocate_ipv6ct_table env pl sz k)
     (\<lambda>(r, k'). \<exists>S'. kinv pl S' k' \<and> (S' = S \<or> S' = S + owned_ct (ipv6ct_dev k)))"
proof (cases "IPA_HW_v4_0 \<le> hw_type pl")
  case False
  then show ?thesis using inv by (auto simp: ipa3_allocate_ipv6ct_table_def)
next
  case True
  have dev: "cm_is_dev_init (ipv6ct_dev k)" "cm_is_ipv6ct_mem (ipv6ct_dev k)" "\<not> cm_is_nat_mem (ipv6ct_dev k)"
    using inv True by (simp_all add: kinv_def ct_dev_ok_def)
  obtain v h w where v: "kenv_dma_alloc_coherent env sz (k_world k) = (v, h, w)"
    by (cases "kenv_dma_alloc_coherent env sz (k_world k)")
  obtain r k1 where a: "allocate_ipv6ct_mem env sz k = (r, k1)" by fastforce
  have "kinv pl (S + owned_ct (ipv6ct_dev k)) k1"
    using inv a v True
    by (auto simp: kinv_def allocate_ipv6ct_mem_def state_defs ct_dev_ok_def owned_ct_def own_dma_def split: if_splits)
  then show ?thesis
    using inv dev True a
    by (auto simp: ipa3_allocate_ipv6ct_table_def ipa3_nat_ipv6ct_allocate_mem_def plat_entry_size [OF pl] Let_def)
qed

lemma mmap_ok:
  assumes inv: "kinv pl S k" and m: "ipa3_nat_ipv6ct_mmap env d vsize k = (r, k')"
  shows "kinv pl S k'"
proof (cases d)
  case Ipv6ctDev
  then show ?thesis
    using inv m
    by (auto simp: ipa3_nat_ipv6ct_mmap_def kinv_def ct_dev_ok_def owned_ct_def in_world_def Let_def split: prod.splits if_splits)
next
  case NatDev
  let ?nmi = "nm_last_alloc_loc (nat_mem k)" and ?l = "nm_mem_loc (nat_mem k) (nm_last_alloc_loc (nat_mem k))"
  have nm: "nat_mem_ok pl (nat_mem k)" using inv by (simp add: kinv_def)
  have dev: "cm_is_dev_init (nm_dev (nat_mem k))" "cm_is_nat_mem (nm_dev (nat_mem k))" using nm by (simp_all add: nat_mem_ok_def)
  show ?thesis
  proof (cases "k' = k")
    case False
    then have g: "IPA_VALID_NAT_MEM_IN ?nmi" "ml_vaddr ?l \<noteq> 0" "\<not> ml_is_mapped ?l"
      using m NatDev dev by (auto simp: ipa3_nat_ipv6ct_mmap_def get_loc_def Let_def split: if_splits)
    have p: "\<not> (?nmi = IPA_NAT_MEM_IN_SRAM \<and>
        (cm_phys_mem_size (nm_dev (nat_mem k)) = 0 \<or> unat (cm_phys_mem_size (nm_dev (nat_mem k))) > unat vsize))"
      using False m NatDev dev by (auto simp: ipa3_nat_ipv6ct_mmap_def get_loc_def Let_def split: if_splits)
    define F where "F = (if ?nmi = IPA_NAT_MEM_IN_DDR
          then kenv_dma_mmap_coherent env vsize (ml_vaddr ?l) (ml_dma_handle ?l) (ml_table_alloc_size ?l)
          else kenv_vm_iomap_memory env vsize (ml_phys_addr ?l) (cm_phys_mem_size (nm_dev (nat_mem k))))"
    obtain r1 w where e: "F (k_world k) = (r1, w)" by fastforce
    define l' where "l' = (if r1 = 0 then ?l\<lparr>ml_base_address := ml_vaddr ?l, ml_is_mapped := True\<rparr> else ?l\<lparr>ml_base_address := 0\<rparr>)"
    have k': "nat_mem k' = (nat_mem k)\<lparr>nm_mem_loc := (nm_mem_loc (nat_mem k))(?nmi := l')\<rparr>" "ipv6ct_dev k' = ipv6ct_dev k"
      "k_ledger k' = k_ledger k" "k_pylds k' = k_pylds k"
    proof -
      note m1 = m [unfolded NatDev ipa3_nat_ipv6ct_mmap_def Let_def get_dev.simps get_loc_def if_not_P [OF p]]
      from m1 dev g have m2: "(case in_world F (set_loc ?nmi (?l\<lparr>ml_base_address := 0\<rparr>) k) of
            (result, k) \<Rightarrow> if result \<noteq> 0 then (result, k)
             else (0, set_loc ?nmi ((nm_mem_loc (nat_mem k) ?nmi)\<lparr>ml_base_address := ml_vaddr ?l, ml_is_mapped := True\<rparr>) k)) = (r, k')"
        by (simp add: F_def split del: if_split)
      show "nat_mem k' = (nat_mem k)\<lparr>nm_mem_loc := (nm_mem_loc (nat_mem k))(?nmi := l')\<rparr>" "ipv6ct_dev k' = ipv6ct_dev k"
        "k_ledger k' = k_ledger k" "k_pylds k' = k_pylds k"
        using m2 by (cases "r1 = 0"; clarsimp simp: in_world_def set_loc_def l'_def e split del: if_split)+
    qed
    have nmi: "?nmi \<noteq> IPA_NAT_MEM_IN_MAX" using g(1) by (auto simp: IPA_VALID_NAT_MEM_IN_def)
    have "loc_ok (in_use ?nmi (nat_mem k)) l'"
      using loc_ok_at [OF nm nmi] g by (auto simp: l'_def loc_ok_def)
    moreover have "ml_table_entries ?l = 0" using loc_ok_at [OF nm nmi] g(3) by (simp add: loc_ok_def)
    moreover have sel: "ml_vaddr l' = ml_vaddr ?l" "ml_io_vaddr l' = ml_io_vaddr ?l" "ml_table_alloc_size l' = ml_table_alloc_size ?l"
      "ml_dma_handle l' = ml_dma_handle ?l" by (simp_all add: l'_def)
    ultimately have "nat_mem_ok pl (nat_mem k')"
      using sram_facts [OF nm] by (intro nat_mem_ok_put [OF nm nmi, of _ l']) (simp_all add: k' in_use_def)
    then show ?thesis
      using inv sel by (simp add: kinv_def owned_nat_def k' Let_def)
  qed (use inv in simp)
qed

section \<open>Initialisation\<close>

lemma check_params_ok:
  assumes e: "nat_entry_size pl ty = Some n" "n \<le> 64"
  obtains r where "ipa3_nat_ipv6ct_check_table_params pl d nmi ofs ents ty k = Some r"
    "r = 0 \<Longrightarrow> unat ofs + n * unat ents \<le>
       unat (if cm_is_ipv6ct_mem (get_dev d k) then cm_table_alloc_size (get_dev d k) else ml_table_alloc_size (get_loc nmi k))"
proof -
  let ?ts = "of_nat n * (ucast ents :: u64)"
  have b: "unat ents < 65536" "unat ofs < 4294967296" using unsigned_less [of ents, where ?'a = nat] unsigned_less [of ofs, where ?'a = nat] by simp_all
  have "n * unat ents \<le> 64 * 65536" using e(2) b(1) by (intro mult_mono) simp_all
  then have ts: "unat ?ts = n * unat ents"
    using e(2) b(1) by (simp add: unat_word_ariths unsigned_ucast_eq unat_of_nat take_bit_eq_mod)
  have "unat (ucast ofs :: u64) = unat ofs" using b(2) by (simp add: unsigned_ucast_eq take_bit_eq_mod)
  then have sum: "unat (ucast ofs + ?ts) = unat ofs + n * unat ents"
    using ts b \<open>n * unat ents \<le> 64 * 65536\<close> by (simp add: unat_word_ariths(1))
  let ?sz = "if cm_is_ipv6ct_mem (get_dev d k) then cm_table_alloc_size (get_dev d k) else ml_table_alloc_size (get_loc nmi k)"
  let ?r = "if (if cm_is_ipv6ct_mem (get_dev d k) then ucast ofs > UINT_MAX - cm_dma_handle (get_dev d k)
                else nmi = IPA_NAT_MEM_IN_DDR \<and> ucast ofs > UINT_MAX - ml_dma_handle (get_loc nmi k)) then - EPERM
            else if ucast ofs > UINT_MAX - ?ts then - EPERM else if ucast ofs + ?ts > ?sz then - EPERM else 0"
  have r: "ipa3_nat_ipv6ct_check_table_params pl d nmi ofs ents ty k = Some ?r"
    unfolding ipa3_nat_ipv6ct_check_table_params_def e(1) Let_def by simp
  have "(if a then - EPERM else if b then - EPERM else if c then - EPERM else 0) = 0 \<Longrightarrow> \<not> c" for a b c
    by (cases a; cases b; cases c) simp_all
  from this [of _ _ "ucast ofs + ?ts > ?sz"] have "?r = 0 \<Longrightarrow> \<not> ucast ofs + ?ts > ?sz" .
  then have "?r = 0 \<Longrightarrow> unat ofs + n * unat ents \<le> unat ?sz"
    using sum by (simp only: word_less_nat_alt linorder_not_less)
  with r show thesis by (rule that)
qed

lemma unat_ucast64 [simp]: "unat (ucast (x :: u32) :: u64) = unat x"
  using unsigned_less [of x, where ?'a = nat] by (simp add: unsigned_ucast_eq take_bit_eq_mod)

lemma unat_ucast32 [simp]: "unat (ucast (x :: u16) :: u32) = unat x"
  using unsigned_less [of x, where ?'a = nat] by (simp add: unsigned_ucast_eq take_bit_eq_mod)

lemma unat_plus1_u16: "x \<noteq> 0xFFFF \<Longrightarrow> unat (x + 1 :: u16) = unat x + 1"
proof -
  assume "x \<noteq> 0xFFFF"
  then have "unat x \<noteq> unat (0xFFFF :: u16)" by (simp add: word_unat_eq_iff)
  then have "unat x + 1 < 65536" using unsigned_less [of x, where ?'a = nat] by simp
  then show ?thesis by (simp add: unat_word_ariths(1))
qed

lemma nat_mem_ok_active:
  assumes "nat_mem_ok pl nm" "nmi \<noteq> IPA_NAT_MEM_IN_MAX" "ml_table_entries (nm_mem_loc nm nmi) \<noteq> 0"
  shows "nat_mem_ok pl (nm\<lparr>nm_active_table := nmi\<rparr>)"
    "nat_mem_ok pl (nm\<lparr>nm_active_table := nmi, nm_dev := (nm_dev nm)\<lparr>cm_is_hw_init := True\<rparr>\<rparr>)"
  using assms by (simp_all add: nat_mem_ok_def)

text \<open>The fields the invariant does not mention.\<close>

lemma nat_mem_ok_irrelevant [simp]:
  "nat_mem_ok pl (nm\<lparr>nm_switch2ddr_cnt := x\<rparr>) = nat_mem_ok pl nm" "nat_mem_ok pl (nm\<lparr>nm_switch2sram_cnt := x\<rparr>) = nat_mem_ok pl nm"
  "nat_mem_ok pl (nm\<lparr>nm_public_ip_addr := y\<rparr>) = nat_mem_ok pl nm"
  by (simp_all add: nat_mem_ok_def)

lemma owned_nat_irrelevant [simp]:
  "owned_nat (nm\<lparr>nm_switch2ddr_cnt := x\<rparr>) = owned_nat nm" "owned_nat (nm\<lparr>nm_switch2sram_cnt := x\<rparr>) = owned_nat nm"
  "owned_nat (nm\<lparr>nm_public_ip_addr := x\<rparr>) = owned_nat nm" "owned_nat (nm\<lparr>nm_active_table := m\<rparr>) = owned_nat nm"
  "owned_nat (nm\<lparr>nm_dev := d\<rparr>) = owned_nat nm"
  by (simp_all add: owned_nat_def)

definition init_fits :: "u64 \<Rightarrow> ipa_ioc_v4_nat_init \<Rightarrow> bool" where
  "init_fits sz init \<longleftrightarrow>
     unat (ipv4_rules_offset init) + 32 * (unat (init_table_entries init) + 1) \<le> unat sz \<and>
     unat (expn_rules_offset init) + 32 * unat (init_expn_table_entries init) \<le> unat sz \<and>
     unat (index_offset init) + 4 * (unat (init_table_entries init) + 1) \<le> unat sz \<and>
     unat (index_expn_offset init) + 4 * unat (init_expn_table_entries init) \<le> unat sz"

lemma init_structure_ok:
  assumes inv: "kinv pl S k" and nmi: "nmi \<noteq> IPA_NAT_MEM_IN_MAX" and m: "ml_is_mapped (get_loc nmi k)"
    and te: "init_table_entries init \<noteq> 0" "init_table_entries init \<noteq> 0xFFFF"
    and f: "init_fits (ml_table_alloc_size (get_loc nmi k)) init"
    and s: "ipa3_nat_ipv6ct_init_device_structure NatDev nmi (ipv4_rules_offset init) (expn_rules_offset init)
      (init_table_entries init) (init_expn_table_entries init) (index_offset init) (index_expn_offset init) fc k = (r, k')"
  shows "kinv pl S k' \<and> nm_active_table (nat_mem k') = nmi \<and> ml_table_entries (get_loc nmi k') = ucast (init_table_entries init) \<and>
    ml_expn_table_entries (get_loc nmi k') = ucast (init_expn_table_entries init)"
proof -
  let ?l = "nm_mem_loc (nat_mem k) nmi"
  define l where "l = ?l\<lparr>ml_base_table_addr := ml_base_address ?l + ucast (ipv4_rules_offset init),
      ml_expansion_table_addr := ml_base_address ?l + ucast (expn_rules_offset init),
      ml_table_entries := ucast (init_table_entries init), ml_expn_table_entries := ucast (init_expn_table_entries init),
      ml_index_table_addr := ml_base_address ?l + ucast (index_offset init),
      ml_index_table_expansion_addr := ml_base_address ?l + ucast (index_expn_offset init)\<rparr>"
  have nm: "nat_mem_ok pl (nat_mem k)" using inv by (simp add: kinv_def)
  have dev: "cm_is_nat_mem (nm_dev (nat_mem k))" "\<not> cm_is_ipv6ct_mem (nm_dev (nat_mem k))" using nm by (simp_all add: nat_mem_ok_def)
  have te0: "ml_table_entries l \<noteq> 0" using te(1) by (simp add: l_def unat_eq_zero [symmetric] del: unat_eq_zero)
  have te1: "unat (init_table_entries init) + 1 < 65536"
    using unat_plus1_u16 [OF te(2)] unsigned_less [of "init_table_entries init + 1", where ?'a = nat] by simp
  have "tables_fit l"
    using f te1 unsigned_less [of "init_expn_table_entries init", where ?'a = nat]
    by (simp add: tables_fit_def l_def fits_def init_fits_def get_loc_def)
  moreover have "ml_vaddr ?l \<noteq> 0" "ml_base_address ?l = ml_vaddr ?l"
    using loc_ok_at [OF nm nmi] m by (auto simp: loc_ok_def get_loc_def)
  ultimately have lok: "loc_ok (in_use nmi (nat_mem k)) l"
    using loc_ok_at [OF nm nmi] m te0 by (auto simp: loc_ok_def get_loc_def l_def)
  let ?nm1 = "(nat_mem k)\<lparr>nm_mem_loc := (nm_mem_loc (nat_mem k))(nmi := l)\<rparr>"
  have sel: "ml_vaddr l = ml_vaddr ?l" "ml_io_vaddr l = ml_io_vaddr ?l" "ml_table_alloc_size l = ml_table_alloc_size ?l"
    "ml_dma_handle l = ml_dma_handle ?l" by (simp_all add: l_def)
  have ok1: "nat_mem_ok pl ?nm1"
    using sram_facts [OF nm, of nmi] lok te0 sel by (intro nat_mem_ok_put [OF nm nmi, of _ l]) (simp_all add: in_use_def)
  have ok2: "nat_mem_ok pl (?nm1\<lparr>nm_active_table := nmi\<rparr>)"
    using te0 by (intro nat_mem_ok_active [OF ok1 nmi]) simp
  have own: "owned_nat ?nm1 = owned_nat (nat_mem k)" using sel by (simp add: owned_nat_def Let_def)
  define N where "N = ?nm1\<lparr>nm_active_table := nmi\<rparr>"
  define K where "K = k\<lparr>nat_mem := N\<rparr>"
  have "set_loc nmi l (k\<lparr>nat_mem := (nat_mem k)\<lparr>nm_active_table := nmi\<rparr>\<rparr>) = K"
    by (simp add: set_loc_def K_def N_def)
  moreover have "(nm_mem_loc (nat_mem (k\<lparr>nat_mem := (nat_mem k)\<lparr>nm_active_table := nmi\<rparr>\<rparr>)) nmi) = ?l" by simp
  ultimately have "ipa3_nat_ipv6ct_init_device_structure NatDev nmi (ipv4_rules_offset init) (expn_rules_offset init)
      (init_table_entries init) (init_expn_table_entries init) (index_offset init) (index_expn_offset init) fc k =
    (if nmi = IPA_NAT_MEM_IN_DDR then
       (0, if fc then K\<lparr>nat_mem := (nat_mem K)\<lparr>nm_switch2ddr_cnt := nm_switch2ddr_cnt (nat_mem K) + 1\<rparr>\<rparr> else K)
     else if \<not> chk_sram_offset_alignment (ml_base_table_addr l) 31 \<or> \<not> chk_sram_offset_alignment (ml_expansion_table_addr l) 31 \<or>
             \<not> chk_sram_offset_alignment (ml_index_table_addr l) 3 \<or> \<not> chk_sram_offset_alignment (ml_index_table_expansion_addr l) 3
          then (- ENODEV, K)
     else (0, if fc then K\<lparr>nat_mem := (nat_mem K)\<lparr>nm_switch2sram_cnt := nm_switch2sram_cnt (nat_mem K) + 1\<rparr>\<rparr> else K))"
    unfolding ipa3_nat_ipv6ct_init_device_structure_def Let_def get_dev.simps if_not_P [OF dev(2)] if_P [OF dev(1)] get_loc_def
    by (simp only: l_def [symmetric])
  with s have "k' = K \<or> (\<exists>x. k' = K\<lparr>nat_mem := (nat_mem K)\<lparr>nm_switch2ddr_cnt := x\<rparr>\<rparr>) \<or>
      (\<exists>x. k' = K\<lparr>nat_mem := (nat_mem K)\<lparr>nm_switch2sram_cnt := x\<rparr>\<rparr>)"
    by (auto split: if_splits)
  moreover have "kinv pl S K" using inv ok2 own by (simp add: kinv_def K_def N_def)
  moreover have "nm_active_table (nat_mem K) = nmi" "nm_mem_loc (nat_mem K) nmi = l" by (simp_all add: K_def N_def)
  ultimately show ?thesis by (auto simp: kinv_def get_loc_def l_def)
qed

lemma check_tables_ok:
  assumes "\<forall>c \<in> set cs. returns (c ()) (\<lambda>_. True)"
  shows "returns (check_tables cs) (\<lambda>r. r = 0 \<longrightarrow> (\<forall>c \<in> set cs. c () = Some 0))"
  using assms by (induction cs) (auto simp: returns_def)

lemma construct_pdn_ok:
  assumes pl: "plat_ok pl" "IPA_HW_v4_0 \<le> hw_type pl" and inv: "kinv pl S k" and b: "nm_pdn_base (nat_mem k) \<noteq> 0"
    and i: "ipa3_get_max_pdn pl = Some n" "i < n"
  shows "returns (construct_pdn_entry pl i flds k) (\<lambda>(r, k'). r = 0 \<and> quiet k k')"
proof -
  have "length (nm_pdn_table (nat_mem k)) = n" using inv b i by (simp add: kinv_def nat_mem_ok_def)
  then show ?thesis using i(2) by (simp add: construct_pdn_entry_def plat_construct_pdn [OF pl] quiet_def)
qed

lemma check_params_returns:
  assumes "nat_entry_size pl ty = Some n" "n \<le> 64"
  shows "returns (ipa3_nat_ipv6ct_check_table_params pl d nmi ofs ents ty k) (\<lambda>_. True)"
  using check_params_ok [OF assms, of d nmi ofs ents k] by (auto simp: returns_def)

lemma check_params_fit:
  assumes "nat_entry_size pl ty = Some n" "n \<le> 64" "ipa3_nat_ipv6ct_check_table_params pl NatDev nmi ofs ents ty k = Some 0"
    "\<not> cm_is_ipv6ct_mem (nm_dev (nat_mem k))"
  shows "unat ofs + n * unat ents \<le> unat (ml_table_alloc_size (get_loc nmi k))"
  using check_params_ok [OF assms(1,2), of NatDev nmi ofs ents k] assms(3,4) by auto

text \<open>The effective parameters: without SRAM support the memory type and the change of focus are those of DDR.\<close>

definition eff_init :: "'w ipa3 \<Rightarrow> ipa_ioc_v4_nat_init \<Rightarrow> ipa_ioc_v4_nat_init" where
  "eff_init k init = (if sram_compatible k then init else init\<lparr>init_mem_type := IPA_NAT_MEM_IN_DDR, init_focus_change := False\<rparr>)"

lemma nat_init_ok:
  assumes pl: "plat_ok pl" and inv: "kinv pl S k"
  shows "returns (ipa3_nat_init_cmd env pl init k) (\<lambda>(r, k'). kinv pl S k' \<and>
    (r = 0 \<longrightarrow> (let nmi = init_mem_type (eff_init k init) in
       nmi \<noteq> IPA_NAT_MEM_IN_MAX \<and> ml_is_mapped (get_loc nmi k) \<and> init_fits (ml_table_alloc_size (get_loc nmi k)) init \<and>
       cm_is_hw_init (nm_dev (nat_mem k')) \<and> nm_active_table (nat_mem k') = nmi \<and>
       ml_table_entries (get_loc nmi k') = ucast (init_table_entries init) \<and>
       ml_expn_table_entries (get_loc nmi k') = ucast (init_expn_table_entries init))))"
proof -
  define i where "i = eff_init k init"
  define nmi where "nmi = init_mem_type i"
  define cs where "cs =
          [\<lambda>_ :: unit. ipa3_nat_ipv6ct_check_table_params pl NatDev nmi (ipv4_rules_offset i) (init_table_entries i + 1) IPAHAL_NAT_IPV4 k,
           \<lambda>_. ipa3_nat_ipv6ct_check_table_params pl NatDev nmi (expn_rules_offset i) (init_expn_table_entries i) IPAHAL_NAT_IPV4 k,
           \<lambda>_. ipa3_nat_ipv6ct_check_table_params pl NatDev nmi (index_offset i) (init_table_entries i + 1) IPAHAL_NAT_IPV4_INDEX k,
           \<lambda>_. ipa3_nat_ipv6ct_check_table_params pl NatDev nmi (index_expn_offset i) (init_expn_table_entries i) IPAHAL_NAT_IPV4_INDEX k]"
  have same: "init_table_entries i = init_table_entries init" "init_fits sz i = init_fits sz init"
      "init_expn_table_entries i = init_expn_table_entries init" for sz
    by (simp_all add: i_def eff_init_def init_fits_def)
  have dev: "\<not> cm_is_ipv6ct_mem (nm_dev (nat_mem k))" using inv by (simp add: kinv_def nat_mem_ok_def)
  have cs: "returns (check_tables cs) (\<lambda>r. r = 0 \<longrightarrow> (\<forall>c \<in> set cs. c () = Some 0))"
    by (rule check_tables_ok) (simp add: cs_def check_params_returns plat_entry_size [OF pl])
  obtain cr where cr: "check_tables cs = Some cr" "cr = 0 \<Longrightarrow> (\<forall>c \<in> set cs. c () = Some 0)" using cs by (auto simp: returns_def)
  show ?thesis
  proof (cases "IPA_VALID_TBL_INDEX (init_tbl_index i) \<and> init_table_entries i \<noteq> 0 \<and> init_table_entries i \<noteq> 0xFFFF \<and>
      IPA_VALID_NAT_MEM_IN nmi \<and> ml_is_mapped (get_loc nmi k) \<and> cr = 0")
    case False
    then show ?thesis
      using inv cr(1) unfolding ipa3_nat_init_cmd_def Let_def eff_init_def [symmetric] i_def [symmetric] nmi_def [symmetric] cs_def [symmetric]
      by (simp add: returns_if) auto
  next
    case True
    then have g: "IPA_VALID_TBL_INDEX (init_tbl_index i)" "init_table_entries i \<noteq> 0" "init_table_entries i \<noteq> 0xFFFF" "IPA_VALID_NAT_MEM_IN nmi"
      "ml_is_mapped (get_loc nmi k)" "cr = 0" by simp_all
    have nmi: "nmi \<noteq> IPA_NAT_MEM_IN_MAX" using g(4) by (auto simp: IPA_VALID_NAT_MEM_IN_def)
    have fit: "init_fits (ml_table_alloc_size (get_loc nmi k)) i"
      using cr(2) [OF g(6)] check_params_fit [OF plat_entry_size(1) [OF pl] _ _ dev] check_params_fit [OF plat_entry_size(2) [OF pl] _ _ dev]
        unat_plus1_u16 [OF g(3)]
      by (fastforce simp: cs_def init_fits_def)
    have "returns (if hw_type pl \<ge> IPA_HW_v4_0 \<and> nm_pdn_base (nat_mem k) \<noteq> 0 \<and> \<not> init_focus_change i
        then construct_pdn_entry pl 0 \<lparr>hal_public_ip = init_ip_addr i, hal_src_metadata = 0, hal_dst_metadata = 0\<rparr> k
        else Some (0, k)) (\<lambda>(r, k'). r = 0 \<and> quiet k k')"
    proof (cases "hw_type pl \<ge> IPA_HW_v4_0 \<and> nm_pdn_base (nat_mem k) \<noteq> 0 \<and> \<not> init_focus_change i")
      case True
      then obtain n where n: "ipa3_get_max_pdn pl = Some n" "1 \<le> n" using plat_max_pdn [OF pl] by blast
      show ?thesis unfolding if_P [OF True] by (rule construct_pdn_ok [OF pl _ inv _ n(1)]) (use True n(2) in simp_all)
    next
      case False
      show ?thesis unfolding if_not_P [OF False] by simp
    qed
    then obtain k1 where k1: "(if hw_type pl \<ge> IPA_HW_v4_0 \<and> nm_pdn_base (nat_mem k) \<noteq> 0 \<and> \<not> init_focus_change i
        then construct_pdn_entry pl 0 \<lparr>hal_public_ip = init_ip_addr i, hal_src_metadata = 0, hal_dst_metadata = 0\<rparr> k
        else Some (0, k)) = Some (0, k1)" "quiet k k1"
      by (auto simp: returns_def)
    define cmd where "cmd = (if nmi = IPA_NAT_MEM_IN_DDR then ipa3_nat_create_init_cmd pl i False (ml_dma_handle (get_loc nmi k))
                     else ipa3_nat_create_init_cmd pl i True (ucast (nat_tbl_ofst pl)))"
    obtain r2 k2 where k2: "ipa3_nat_send_init_cmd env pl cmd False k1 = Some (r2, k2)" "quiet k1 k2"
      using send_init_ok [OF pl, of env cmd False k1] by (auto simp: returns_def)
    have q: "quiet k k2" using k1(2) k2(2) by (rule quiet_trans)
    have inv2: "kinv pl S k2" and loc: "get_loc nmi k2 = get_loc nmi k"
      using inv q by (simp_all add: quiet_kinv quiet_nat_mem get_loc_def)
    obtain r3 k3 where k3: "ipa3_nat_ipv6ct_init_device_structure NatDev nmi (ipv4_rules_offset i) (expn_rules_offset i)
                     (init_table_entries i) (init_expn_table_entries i) (index_offset i) (index_expn_offset i)
                     (init_focus_change i) k2 = (r3, k3)" by fastforce
    note st = init_structure_ok [OF inv2 nmi _ g(2,3) _ k3, unfolded loc, OF g(5) fit]
    have fin: "kinv pl S (k3\<lparr>nat_mem := (nat_mem k3)\<lparr>nm_public_ip_addr := init_ip_addr i, nm_dev := (nm_dev (nat_mem k3))\<lparr>cm_is_hw_init := True\<rparr>\<rparr>\<rparr>)"
    proof -
      have "ml_table_entries (get_loc nmi k3) \<noteq> 0" using st g(2) by (simp add: unat_eq_zero [symmetric] del: unat_eq_zero)
      then have "nat_mem_ok pl ((nat_mem k3)\<lparr>nm_public_ip_addr := init_ip_addr i, nm_dev := (nm_dev (nat_mem k3))\<lparr>cm_is_hw_init := True\<rparr>\<rparr>)"
        using st nmi by (simp add: kinv_def nat_mem_ok_def get_loc_def)
      then show ?thesis using st by (simp add: kinv_def owned_nat_def)
    qed
    show ?thesis
      unfolding ipa3_nat_init_cmd_def Let_def eff_init_def [symmetric] i_def [symmetric] nmi_def [symmetric] cs_def [symmetric] cmd_def [symmetric]
      using g(1-5) nmi inv2 st [unfolded same get_loc_def] fin fit [unfolded same get_loc_def]
      by (simp add: get_loc_def cr(1) g(6) k1(1) k2(1) k3 split del: if_split) (simp add: returns_if k3)
  qed
qed

lemma ct_init_ok:
  assumes pl: "plat_ok pl" and inv: "kinv pl S k"
  shows "returns (ipa3_ipv6ct_init_cmd env pl init k) (\<lambda>(r, k'). kinv pl S k')"
proof (cases "IPA_HW_v4_0 \<le> hw_type pl")
  case False
  then show ?thesis using inv by (simp add: ipa3_ipv6ct_init_cmd_def)
next
  case v: True
  have dev: "cm_is_ipv6ct_mem (ipv6ct_dev k)" using inv v by (simp add: kinv_def ct_dev_ok_def)
  define cs where "cs =
          [\<lambda>_ :: unit. ipa3_nat_ipv6ct_check_table_params pl Ipv6ctDev IPA_NAT_MEM_IN_DDR (ct_base_table_offset init)
                  (ct_init_table_entries init + 1) IPAHAL_NAT_IPV6CT k,
           \<lambda>_. ipa3_nat_ipv6ct_check_table_params pl Ipv6ctDev IPA_NAT_MEM_IN_DDR (ct_expn_table_offset init)
                  (ct_init_expn_table_entries init) IPAHAL_NAT_IPV6CT k]"
  have "returns (check_tables cs) (\<lambda>r. r = 0 \<longrightarrow> (\<forall>c \<in> set cs. c () = Some 0))"
    by (rule check_tables_ok) (simp add: cs_def check_params_returns plat_entry_size [OF pl] v)
  then obtain cr where cr: "check_tables cs = Some cr" by (auto simp: returns_def)
  define cmd where "cmd = ipa3_nat_ipv6ct_create_init_cmd False (cm_dma_handle (ipv6ct_dev k)) (ct_tbl_index init) (ct_base_table_offset init)
                (ct_expn_table_offset init) (ct_init_table_entries init) (ct_init_expn_table_entries init)"
  obtain r2 k2 where k2: "ipa3_ipv6ct_send_init_cmd env pl cmd k = Some (r2, k2)" "quiet k k2"
    using ct_send_init_ok [OF pl v, of env cmd k] by (auto simp: returns_def)
  have inv2: "kinv pl S k2" and dev2: "cm_is_ipv6ct_mem (ipv6ct_dev k2)" using inv k2(2) dev by (simp_all add: quiet_kinv quiet_nat_mem)
  show ?thesis
    using v inv inv2 dev2
    unfolding ipa3_ipv6ct_init_cmd_def cs_def [symmetric] cmd_def [symmetric]
    by (simp add: cr k2(1) ipa3_nat_ipv6ct_init_device_structure_def kinv_def ct_dev_ok_def owned_ct_def returns_if Let_def)
qed

section \<open>PDN entries and table writes\<close>

lemma mdfy_pdn_ok:
  assumes pl: "plat_ok pl" and inv: "kinv pl S k"
  shows "returns (ipa3_nat_mdfy_pdn env pl p k) (\<lambda>(r, k'). quiet k k')"
proof (cases "IPA_HW_v4_0 \<le> hw_type pl \<and> nm_pdn_base (nat_mem k) \<noteq> 0")
  case False
  then show ?thesis by (auto simp: ipa3_nat_mdfy_pdn_def)
next
  case True
  then have v: "IPA_HW_v4_0 \<le> hw_type pl" and b: "nm_pdn_base (nat_mem k) \<noteq> 0" by simp_all
  obtain n where n: "ipa3_get_max_pdn pl = Some n" using plat_max_pdn [OF pl v] by blast
  show ?thesis
  proof (cases "uint (ioc_pdn_index p) > int n - 1")
    case True
    then show ?thesis using v b by (simp add: ipa3_nat_mdfy_pdn_def n)
  next
    case False
    then have i: "unat (ioc_pdn_index p) < n" using uint_nat [of "ioc_pdn_index p"] by linarith
    define flds where "flds = \<lparr>hal_public_ip = ioc_public_ip p,
              hal_src_metadata = (if hw_type pl = IPA_HW_v4_1 then ioc_src_metadata p OR IPA_QMAP_TETH_BIT else ioc_src_metadata p),
              hal_dst_metadata = ioc_dst_metadata p\<rparr>"
    obtain k1 where k1: "construct_pdn_entry pl (unat (ioc_pdn_index p)) flds k = Some (0, k1)" "quiet k k1"
      using construct_pdn_ok [OF pl v inv b n i, of flds] by (auto simp: returns_def)
    obtain r2 c k2 where k2: "ipa3_nat_create_modify_pdn_cmd pl False k1 = Some (r2, c, k2)" "quiet k1 k2"
      using modify_pdn_ok [OF pl v, of False k1] by (auto simp: returns_def)
    have q: "quiet k k2" using k1(2) k2(2) by (rule quiet_trans)
    have "returns (imm_push env pl 1 (IPA_IMM_CMD_DMA_SHARED_MEM c) (- ENOMEM) (0, [], k2)) (\<lambda>s. \<exists>k'. quiet k k' \<and> seq_from k' 1 s)"
    proof (rule returns_mono)
      show "returns (imm_push env pl 1 (IPA_IMM_CMD_DMA_SHARED_MEM c) (- ENOMEM) (0, [], k2)) (seq_from k2 (0 + 1))"
        by (rule imm_push_ok [OF pl _ seq_from_start]) simp_all
    qed (use q in auto)
    note push = returns_finish [OF this, of env]
    show ?thesis
      using v b False q push
      unfolding ipa3_nat_mdfy_pdn_def flds_def [symmetric] by (simp add: n k1(1) k2(1) returns_if)
  qed
qed

lemma calculate_size_returns:
  assumes pl: "plat_ok pl" and ct: "base \<in> {4, 5} \<Longrightarrow> IPA_HW_v4_0 \<le> hw_type pl"
  shows "returns (ipa3_nat_ipv6ct_calculate_table_size pl nmi base k) (\<lambda>_. True)"
  using ct by (auto simp: ipa3_nat_ipv6ct_calculate_table_size_def ipa_nat_ipv6ct_table_type_def plat_entry_size [OF pl] Let_def)

lemma validate_returns:
  assumes pl: "plat_ok pl"
  shows "returns (ipa3_table_validate_table_dma_one pl nmi d k) (\<lambda>_. True)"
proof (cases "dma_base_addr d \<in> {4, 5} \<and> \<not> IPA_HW_v4_0 \<le> hw_type pl")
  case True
  then show ?thesis by (auto simp: ipa3_table_validate_table_dma_one_def ipa_nat_ipv6ct_table_type_def)
next
  case False
  then have "returns (ipa3_nat_ipv6ct_calculate_table_size pl nmi (dma_base_addr d) k) (\<lambda>_. True)"
    by (intro calculate_size_returns [OF pl]) auto
  then show ?thesis by (auto simp: ipa3_table_validate_table_dma_one_def returns_if Let_def)
qed

text \<open>The arrays hold five commands: the no-operation, perhaps the command for the coalescing pipe, and the entries.\<close>

lemma table_dma_ok:
  assumes pl: "plat_ok pl"
  shows "returns (ipa3_table_dma_cmd env pl dma k) (\<lambda>(r, k'). quiet k k')"
proof -
  let ?nmi = "if sram_compatible k then nmi_of_u8 (cmd_mem_type dma) else IPA_NAT_MEM_IN_DDR"
  have "returns (check_tables (map (\<lambda>d _. ipa3_table_validate_table_dma_one pl ?nmi d k) (cmd_dma dma)))
      (\<lambda>r. r = 0 \<longrightarrow> (\<forall>c \<in> set (map (\<lambda>d _. ipa3_table_validate_table_dma_one pl ?nmi d k) (cmd_dma dma)). c () = Some 0))"
    by (rule check_tables_ok) (auto simp: validate_returns [OF pl])
  then obtain cr where cr: "check_tables (map (\<lambda>d _. ipa3_table_validate_table_dma_one pl ?nmi d k) (cmd_dma dma)) = Some cr"
    by (auto simp: returns_def)
  let ?n = "if coal_ep pl \<noteq> - 1 then 1 else 0"
  have "returns (imm_coal_close env pl IPA_MAX_NUM_OF_TABLE_DMA_CMD_DESC (0, [], k) \<bind>
      (\<lambda>s. imm_nop env pl IPA_MAX_NUM_OF_TABLE_DMA_CMD_DESC s \<bind> (\<lambda>s. push_table_dmas env pl (cmd_dma dma) s)))
      (\<lambda>s. \<exists>k'. quiet k k' \<and> seq_from k' (?n + 1 + length (cmd_dma dma)) s)"
    if "\<not> length (cmd_dma dma) > max_dma_table_cmds pl - 1"
  proof (rule returns_bindI [OF imm_coal_close_ok [OF pl seq_from_start]])
    fix s assume "seq_from k (if coal_ep pl \<noteq> - 1 then 0 + 1 else 0) s"
    then have s: "seq_from k ?n s" by (simp split: if_splits)
    show "returns (imm_nop env pl IPA_MAX_NUM_OF_TABLE_DMA_CMD_DESC s \<bind> (\<lambda>s. push_table_dmas env pl (cmd_dma dma) s))
       (\<lambda>s. \<exists>k'. quiet k k' \<and> seq_from k' (?n + 1 + length (cmd_dma dma)) s)"
    proof (rule returns_bindI [OF imm_nop_ok [OF pl s]])
      fix s' assume s': "seq_from k (?n + 1) s'"
      have "?n + 1 + length (cmd_dma dma) \<le> IPA_MAX_NUM_OF_TABLE_DMA_CMD_DESC"
        using that by (auto simp: max_dma_table_cmds_def IPA_MAX_NUM_OF_TABLE_DMA_CMD_DESC_def split: if_splits)
      from push_table_dmas_ok [OF pl s' this]
      show "returns (push_table_dmas env pl (cmd_dma dma) s') (\<lambda>s. \<exists>k'. quiet k k' \<and> seq_from k' (?n + 1 + length (cmd_dma dma)) s)"
        by (rule returns_mono) (auto intro!: exI [of _ k])
    qed (simp add: IPA_MAX_NUM_OF_TABLE_DMA_CMD_DESC_def)
  qed (simp add: IPA_MAX_NUM_OF_TABLE_DMA_CMD_DESC_def)
  note send = returns_finish [OF this, of env]
  show ?thesis
    using send by (simp add: ipa3_table_dma_cmd_def cr returns_if Let_def)
qed

section \<open>Deletion\<close>

text \<open>Deletion needs less than the invariant: what is owned is marked as in use.\<close>

definition nat_owns :: "ipa3_nat_mem \<Rightarrow> bool" where
  "nat_owns nm \<longleftrightarrow>
     cm_is_dev_init (nm_dev nm) \<and> cm_is_nat_mem (nm_dev nm) \<and> \<not> cm_is_ipv6ct_mem (nm_dev nm) \<and>
     (ml_vaddr (nm_mem_loc nm IPA_NAT_MEM_IN_DDR) \<noteq> 0 \<longrightarrow> nm_ddr_in_use nm) \<and>
     (ml_io_vaddr (nm_mem_loc nm IPA_NAT_MEM_IN_SRAM) \<noteq> 0 \<longrightarrow> nm_sram_in_use nm)"

lemma nat_owns_ok: "nat_mem_ok pl nm \<Longrightarrow> nat_owns nm"
  by (auto simp: nat_mem_ok_def nat_owns_def loc_ok_def)

text \<open>The state after a deletion.\<close>

definition nat_cleared :: "'w ipa3 \<Rightarrow> bool" where
  "nat_cleared k \<longleftrightarrow> nm_mem_loc (nat_mem k) = (\<lambda>_. loc_zero) \<and> \<not> nm_ddr_in_use (nat_mem k) \<and> \<not> nm_sram_in_use (nat_mem k) \<and>
     \<not> cm_is_hw_init (nm_dev (nat_mem k)) \<and> nm_pdn_base (nat_mem k) = 0"

lemma nat_cleared_ok: "nat_cleared k \<Longrightarrow> nat_owns (nat_mem k) \<Longrightarrow> nat_mem_ok pl (nat_mem k)"
  by (simp add: nat_cleared_def nat_owns_def nat_mem_ok_def loc_zero_def)

text \<open>What the two steps of a deletion keep.\<close>

definition freed_step :: "'w ipa3 \<Rightarrow> 'w ipa3 \<Rightarrow> bool" where
  "freed_step k k' \<longleftrightarrow> nm_mem_loc (nat_mem k') = nm_mem_loc (nat_mem k) \<and> nm_dev (nat_mem k') = nm_dev (nat_mem k) \<and>
     nm_pdn_base (nat_mem k') = nm_pdn_base (nat_mem k) \<and> ipv6ct_dev k' = ipv6ct_dev k \<and> k_pylds k' = k_pylds k"

lemma release_nat_mem:
  assumes "mset (k_ledger k) = A + {#r#} + B"
  shows "release r (k\<lparr>nat_mem := nm\<rparr>) = Some (k\<lparr>nat_mem := nm, k_ledger := remove1 r (k_ledger k)\<rparr>)"
    "mset (remove1 r (k_ledger k)) = A + B"
  using release_ok [OF assms] by (simp_all add: release_def split: if_splits)

lemma free_nat_ok:
  assumes o: "nat_owns (nat_mem k)" and b: "nm_pdn_base (nat_mem k) = 0"
    and led: "mset (k_ledger k) = owned_nat (nat_mem k) + A"
  shows "returns (ipa3_nat_ipv6ct_free_mem NatDev k)
    (\<lambda>k'. nat_cleared k' \<and> nat_owns (nat_mem k') \<and> mset (k_ledger k') = A \<and> ipv6ct_dev k' = ipv6ct_dev k \<and> k_pylds k' = k_pylds k)"
proof -
  let ?d = "nm_mem_loc (nat_mem k) IPA_NAT_MEM_IN_DDR" and ?s = "nm_mem_loc (nat_mem k) IPA_NAT_MEM_IN_SRAM"
  define D where "D = own_dma (ml_vaddr ?d) (ml_dma_handle ?d) (ml_table_alloc_size ?d)"
  define I where "I = (if ml_io_vaddr ?s = 0 then {#} else {#IoMem (ml_io_vaddr ?s)#})"
  have m: "mset (k_ledger k) = D + I + A" using b by (simp add: led owned_nat_def own_dma_def D_def I_def Let_def)
  have dev: "cm_is_nat_mem (nm_dev (nat_mem k))" "\<not> cm_is_ipv6ct_mem (nm_dev (nat_mem k))" using o by (simp_all add: nat_owns_def)
  obtain k1 where k1: "(if nm_ddr_in_use (nat_mem k) then
                let k = k\<lparr>nat_mem := (nat_mem k)\<lparr>nm_ddr_in_use := False\<rparr>\<rparr>; mld = get_loc IPA_NAT_MEM_IN_DDR k
                in if ml_vaddr mld \<noteq> 0 then dma_free_coherent (ml_table_alloc_size mld) (ml_vaddr mld) (ml_dma_handle mld) k
                   else Some k
              else Some k) = Some k1" "mset (k_ledger k1) = I + A" "freed_step k k1" "\<not> nm_ddr_in_use (nat_mem k1)"
      "nm_sram_in_use (nat_mem k1) = nm_sram_in_use (nat_mem k)"
  proof (cases "ml_vaddr ?d = 0")
    case True
    then show thesis
      using that [of k] that [of "k\<lparr>nat_mem := (nat_mem k)\<lparr>nm_ddr_in_use := False\<rparr>\<rparr>"] m
      by (cases "nm_ddr_in_use (nat_mem k)") (simp_all add: get_loc_def D_def own_dma_def freed_step_def Let_def)
  next
    case False
    then have "mset (k_ledger k) = {#} + {#DmaMem (ml_vaddr ?d) (ml_dma_handle ?d) (ml_table_alloc_size ?d)#} + (I + A)"
      using m by (simp add: D_def own_dma_def)
    note r = release_nat_mem(1) [OF this, of "(nat_mem k)\<lparr>nm_ddr_in_use := False\<rparr>"] release_nat_mem(2) [OF this]
    show thesis
      by (rule that [of "k\<lparr>nat_mem := (nat_mem k)\<lparr>nm_ddr_in_use := False\<rparr>, k_ledger := remove1 (DmaMem (ml_vaddr ?d) (ml_dma_handle ?d) (ml_table_alloc_size ?d)) (k_ledger k)\<rparr>"])
         (use False o r in \<open>simp_all add: get_loc_def dma_free_coherent_def nat_owns_def freed_step_def Let_def\<close>)
  qed
  obtain k2 where k2: "(if nm_sram_in_use (nat_mem k1) then
                let k = k1\<lparr>nat_mem := (nat_mem k1)\<lparr>nm_sram_in_use := False\<rparr>\<rparr>; mld = get_loc IPA_NAT_MEM_IN_SRAM k
                in if ml_io_vaddr mld \<noteq> 0 then release (IoMem (ml_io_vaddr mld)) k else Some k
              else Some k1) = Some k2" "mset (k_ledger k2) = A" "freed_step k1 k2" "\<not> nm_sram_in_use (nat_mem k2)"
      "nm_ddr_in_use (nat_mem k2) = nm_ddr_in_use (nat_mem k1)"
  proof (cases "ml_io_vaddr ?s = 0")
    case True
    then show thesis
      using that [of k1] that [of "k1\<lparr>nat_mem := (nat_mem k1)\<lparr>nm_sram_in_use := False\<rparr>\<rparr>"] k1(2,3)
      by (cases "nm_sram_in_use (nat_mem k1)") (simp_all add: get_loc_def I_def freed_step_def Let_def)
  next
    case False
    then have "mset (k_ledger k1) = {#} + {#IoMem (ml_io_vaddr ?s)#} + A" using k1(2) by (simp add: I_def)
    note r = release_nat_mem(1) [OF this, of "(nat_mem k1)\<lparr>nm_sram_in_use := False\<rparr>"] release_nat_mem(2) [OF this]
    show thesis
      by (rule that [of "k1\<lparr>nat_mem := (nat_mem k1)\<lparr>nm_sram_in_use := False\<rparr>, k_ledger := remove1 (IoMem (ml_io_vaddr ?s)) (k_ledger k1)\<rparr>"])
         (use False o r k1(3,5) in \<open>simp_all add: get_loc_def nat_owns_def freed_step_def Let_def\<close>)
  qed
  show ?thesis
    unfolding ipa3_nat_ipv6ct_free_mem_def Let_def get_dev.simps if_not_P [OF dev(2)] if_P [OF dev(1)]
    using b o k1(3-) k2(2-) unfolding k1(1) [unfolded Let_def] bind.bind_lunit k2(1) [unfolded Let_def]
    by (simp add: nat_cleared_def nat_owns_def freed_step_def loc_zero_def)
qed

lemma del_nat_ok:
  assumes pl: "plat_ok pl" and inv: "kinv pl S k"
  shows "returns (ipa3_del_nat_table env pl ti mt k) (\<lambda>(r, k'). kinv pl S k' \<and> (r = 0 \<longrightarrow> nat_cleared k'))"
proof -
  define nmi where "nmi = (if sram_compatible k then nmi_of_u8 mt else IPA_NAT_MEM_IN_DDR)"
  have dev: "cm_is_dev_init (nm_dev (nat_mem k))" using inv by (simp add: kinv_def nat_mem_ok_def)
  have "returns (if cm_is_hw_init (nm_dev (nat_mem k)) then ipa3_nat_send_del_table_cmd env pl ti k else Some (0, k)) (\<lambda>(r, k'). quiet k k')"
    using send_init_ok [OF pl, of env _ True k]
    by (auto simp: ipa3_nat_send_del_table_cmd_def Let_def split: prod.splits)
  then obtain r1 k1 where k1: "(if cm_is_hw_init (nm_dev (nat_mem k)) then ipa3_nat_send_del_table_cmd env pl ti k else Some (0, k)) = Some (r1, k1)"
      "quiet k k1" by (auto simp: returns_def)
  have inv1: "kinv pl S k1" using inv k1(2) by (simp add: quiet_kinv)
  define k2 where "k2 = set_loc nmi ((get_loc nmi (k1\<lparr>nat_mem := (nat_mem k1)\<lparr>nm_public_ip_addr := 0\<rparr>\<rparr>))\<lparr>ml_index_table_addr := 0, ml_index_table_expansion_addr := 0\<rparr>)
      (k1\<lparr>nat_mem := (nat_mem k1)\<lparr>nm_public_ip_addr := 0\<rparr>\<rparr>)"
  have o2: "nat_owns (nat_mem k2)" "owned_nat (nat_mem k2) = owned_nat (nat_mem k1)"
    using nat_owns_ok inv1 by (auto simp: k2_def set_loc_def get_loc_def nat_owns_def kinv_def nat_mem_ok_def owned_nat_def Let_def)
  have led: "mset (k_ledger k2) = owned_nat (nat_mem k2) + (owned_ct (ipv6ct_dev k) + S)"
    unfolding o2(2) using inv1 k1(2) by (simp add: kinv_def k2_def set_loc_def quiet_nat_mem)
  obtain k3 where k3: "(if hw_type pl \<ge> IPA_HW_v4_0 \<and> nm_pdn_base (nat_mem k2) \<noteq> 0 then do {
                  k \<leftarrow> dma_free_coherent (ucast (nm_pdn_size (nat_mem k2))) (nm_pdn_base (nat_mem k2)) (nm_pdn_phys_base (nat_mem k2)) k2;
                  Some (k\<lparr>nat_mem := (nat_mem k)\<lparr>nm_pdn_base := 0, nm_pdn_table := []\<rparr>\<rparr>) }
                else Some k2) = Some k3" "nat_owns (nat_mem k3)" "nm_pdn_base (nat_mem k3) = 0"
      "mset (k_ledger k3) = owned_nat (nat_mem k3) + (owned_ct (ipv6ct_dev k) + S)" "ipv6ct_dev k3 = ipv6ct_dev k" "k_pylds k3 = 0"
  proof (cases "nm_pdn_base (nat_mem k2) = 0")
    case True
    then show thesis using o2 led that [of k2] inv1 k1(2) by (simp add: k2_def set_loc_def quiet_nat_mem kinv_def)
  next
    case False
    have v: "IPA_HW_v4_0 \<le> hw_type pl" using False inv1 by (simp add: kinv_def nat_mem_ok_def k2_def set_loc_def)
    define B where "B = owned_nat ((nat_mem k2)\<lparr>nm_pdn_base := 0, nm_pdn_table := []\<rparr>)"
    have "mset (k_ledger k2) = B + {#DmaMem (nm_pdn_base (nat_mem k2)) (nm_pdn_phys_base (nat_mem k2)) (ucast (nm_pdn_size (nat_mem k2)))#} +
        (owned_ct (ipv6ct_dev k) + S)"
      unfolding led B_def using False by (simp add: owned_nat_def own_dma_def Let_def)
    note r = release_ok [OF this]
    show thesis
    proof (rule that)
      show "(if hw_type pl \<ge> IPA_HW_v4_0 \<and> nm_pdn_base (nat_mem k2) \<noteq> 0 then do {
                  k \<leftarrow> dma_free_coherent (ucast (nm_pdn_size (nat_mem k2))) (nm_pdn_base (nat_mem k2)) (nm_pdn_phys_base (nat_mem k2)) k2;
                  Some (k\<lparr>nat_mem := (nat_mem k)\<lparr>nm_pdn_base := 0, nm_pdn_table := []\<rparr>\<rparr>) }
                else Some k2) = Some (k2\<lparr>k_ledger := remove1 (DmaMem (nm_pdn_base (nat_mem k2)) (nm_pdn_phys_base (nat_mem k2))
                     (ucast (nm_pdn_size (nat_mem k2)))) (k_ledger k2), nat_mem := (nat_mem k2)\<lparr>nm_pdn_base := 0, nm_pdn_table := []\<rparr>\<rparr>)"
        using False v by (simp add: dma_free_coherent_def r(1))
    qed (use o2 r(2) inv1 k1(2) in \<open>simp_all add: B_def nat_owns_def k2_def set_loc_def quiet_nat_mem kinv_def\<close>)
  qed
  obtain k4 where k4: "ipa3_nat_ipv6ct_free_mem NatDev k3 = Some k4" "nat_cleared k4" "nat_owns (nat_mem k4)"
      "mset (k_ledger k4) = owned_ct (ipv6ct_dev k) + S" "ipv6ct_dev k4 = ipv6ct_dev k3" "k_pylds k4 = 0"
    using free_nat_ok [OF k3(2,3,4)] k3(6) by (auto simp: returns_def)
  have "owned_nat (nat_mem k4) = {#}" using k4(2) by (simp add: nat_cleared_def owned_nat_def own_dma_def loc_zero_def)
  then have inv4: "kinv pl S k4"
    using k4 k3(5) inv nat_cleared_ok [OF k4(2,3)] by (simp add: kinv_def)
  show ?thesis
    unfolding ipa3_del_nat_table_def Let_def nmi_def [symmetric] k1(1) bind.bind_lunit prod.case k2_def [symmetric] k3(1) k4(1)
    using dev inv inv1 inv4 k4(2) by (simp add: returns_if)
qed

lemma del_ct_ok:
  assumes pl: "plat_ok pl" and inv: "kinv pl S k"
  shows "returns (ipa3_del_ipv6ct_table env pl ti k) (\<lambda>(r, k'). kinv pl S k' \<and> (r = 0 \<longrightarrow> cm_vaddr (ipv6ct_dev k') = 0))"
proof (cases "IPA_HW_v4_0 \<le> hw_type pl")
  case False
  then show ?thesis using inv by (simp add: ipa3_del_ipv6ct_table_def)
next
  case v: True
  have "returns (if cm_is_hw_init (ipv6ct_dev k) then ipa3_ipv6ct_send_del_table_cmd env pl ti k else Some (0, k)) (\<lambda>(r, k'). quiet k k')"
    using ct_send_init_ok [OF pl v, of env _ k] by (auto simp: ipa3_ipv6ct_send_del_table_cmd_def Let_def split: prod.splits)
  then obtain r1 k1 where k1: "(if cm_is_hw_init (ipv6ct_dev k) then ipa3_ipv6ct_send_del_table_cmd env pl ti k else Some (0, k)) = Some (r1, k1)"
      "quiet k k1" by (auto simp: returns_def)
  have inv1: "kinv pl S k1" using inv k1(2) by (simp add: quiet_kinv)
  have dev: "cm_is_ipv6ct_mem (ipv6ct_dev k1)" using inv1 v by (simp add: kinv_def ct_dev_ok_def)
  have "returns (ipa3_nat_ipv6ct_free_mem Ipv6ctDev k1) (\<lambda>k'. kinv pl S k' \<and> cm_vaddr (ipv6ct_dev k') = 0)"
  proof (cases "cm_vaddr (ipv6ct_dev k1) = 0")
    case True
    then show ?thesis using inv1 dev v by (simp add: ipa3_nat_ipv6ct_free_mem_def kinv_def ct_dev_ok_def owned_ct_def own_dma_def Let_def)
  next
    case False
    then have "mset (k_ledger k1) = owned_nat (nat_mem k1) + {#DmaMem (cm_vaddr (ipv6ct_dev k1)) (cm_dma_handle (ipv6ct_dev k1))
        (cm_table_alloc_size (ipv6ct_dev k1))#} + S"
      using inv1 by (simp add: kinv_def owned_ct_def own_dma_def)
    note r = release_ok [OF this]
    show ?thesis
      using False inv1 dev v r(2)
      by (simp add: ipa3_nat_ipv6ct_free_mem_def dma_free_coherent_def r(1) kinv_def ct_dev_ok_def owned_ct_def own_dma_def Let_def)
  qed
  then show ?thesis
    using v inv inv1 unfolding ipa3_del_ipv6ct_table_def k1(1) by (simp add: returns_if)
qed

section \<open>Requests\<close>

lemma in_world_kinv: "in_world f k = (x, k') \<Longrightarrow> kinv pl S k' = kinv pl S k"
  by (auto simp: in_world_def Let_def split: prod.splits)

lemma handled_ok:
  assumes inv: "kinv pl S k" and h: "\<And>w. returns (h (k\<lparr>k_world := w\<rparr>)) (\<lambda>(r, k'). P k')" and P: "\<And>k w. P (k\<lparr>k_world := w\<rparr>) = P k" "P k"
  shows "returns (handled env h k) (\<lambda>(r, k'). P k')"
proof -
  obtain ok w where c: "kenv_copy_user env (k_world k) = (ok, w)" by fastforce
  show ?thesis using h [of w] P by (cases ok) (auto simp: handled_def in_world_def c Let_def elim!: returns_mono)
qed

lemma copied_back_ok:
  assumes "returns m (\<lambda>(r, k'). P k')" "\<And>k w. P (k\<lparr>k_world := w\<rparr>) = P k"
  shows "returns (map_option (copied_back env b) m) (\<lambda>(r, k'). P k')"
  using assms by (auto simp: copied_back_def in_world_def Let_def elim!: returns_mono split: prod.splits)

text \<open>Every request: the invariant holds again, and the rest of the ledger is what it was, unless memory of the connection
  tracking is allocated a second time.\<close>

definition lost_ct :: "nat_request \<Rightarrow> 'w ipa3 \<Rightarrow> kres multiset" where
  "lost_ct rq k = (case rq of IPA_IOC_ALLOC_IPV6CT_TABLE _ _ \<Rightarrow> owned_ct (ipv6ct_dev k) | _ \<Rightarrow> {#})"

lemma ioctl_ok:
  assumes pl: "plat_ok pl" and inv: "kinv pl S k"
  shows "returns (ipa3_nat_ioctl env pl rq k) (\<lambda>(r, k'). \<exists>S'. kinv pl S' k' \<and> (S' = S \<or> S' = S + lost_ct rq k))"
proof -
  have invw: "kinv pl S (k\<lparr>k_world := w\<rparr>)" for w using inv by simp
  have quietly: "returns m (\<lambda>(r, k'). quiet (k\<lparr>k_world := w\<rparr>) k') \<Longrightarrow> returns m (\<lambda>(r, k'). kinv pl S k')" for m :: "(int \<times> 'a ipa3) option" and w
    using invw quiet_kinv by (fastforce elim!: returns_mono)
  have simple: "returns m (\<lambda>(r, k'). kinv pl S k') \<Longrightarrow>
      returns m (\<lambda>(r, k'). \<exists>S'. kinv pl S' k' \<and> (S' = S \<or> S' = S + lost_ct rq k))" for m :: "(int \<times> 'a ipa3) option"
    by (fastforce elim!: returns_mono)
  note h = handled_ok [where P = "kinv pl S", OF inv _ kinv_world inv]
  show ?thesis
  proof (cases rq)
    case (IPA_IOC_ALLOC_NAT_MEM sz)
    show ?thesis unfolding IPA_IOC_ALLOC_NAT_MEM ipa3_nat_ioctl.simps ipa3_allocate_nat_device_def
      by (rule simple [unfolded IPA_IOC_ALLOC_NAT_MEM], rule copied_back_ok [OF h]) (rule allocate_nat_table_ok [OF pl invw], simp)
  next
    case (IPA_IOC_ALLOC_NAT_TABLE sz ofs)
    show ?thesis unfolding IPA_IOC_ALLOC_NAT_TABLE ipa3_nat_ioctl.simps
      by (rule simple [unfolded IPA_IOC_ALLOC_NAT_TABLE], rule copied_back_ok [OF h]) (rule allocate_nat_table_ok [OF pl invw], simp)
  next
    case (IPA_IOC_ALLOC_IPV6CT_TABLE sz ofs)
    let ?P = "\<lambda>k' :: 'a ipa3. \<exists>S'. kinv pl S' k' \<and> (S' = S \<or> S' = S + owned_ct (ipv6ct_dev k))"
    have "returns (ipa3_allocate_ipv6ct_table env pl sz (k\<lparr>k_world := w\<rparr>)) (\<lambda>(r, k'). ?P k')" for w
      using allocate_ct_ok [OF pl invw, of env sz w] by simp
    then have "returns (handled env (ipa3_allocate_ipv6ct_table env pl sz) k) (\<lambda>(r, k'). ?P k')"
      by (rule handled_ok [where P = ?P, OF inv]) (use inv in auto)
    then have "returns (map_option (copied_back env (ofs \<noteq> 0)) (handled env (ipa3_allocate_ipv6ct_table env pl sz) k)) (\<lambda>(r, k'). ?P k')"
      by (rule copied_back_ok [where P = ?P]) simp
    then show ?thesis unfolding IPA_IOC_ALLOC_IPV6CT_TABLE ipa3_nat_ioctl.simps lost_ct_def nat_request.case .
  next
    case (IPA_IOC_V4_INIT_NAT init)
    have "returns (ipa3_nat_init_cmd env pl init (k\<lparr>k_world := w\<rparr>)) (\<lambda>(r, k'). kinv pl S k')" for w
      using nat_init_ok [OF pl invw, of env init w] by (auto elim!: returns_mono)
    then show ?thesis unfolding IPA_IOC_V4_INIT_NAT ipa3_nat_ioctl.simps by (intro simple [unfolded IPA_IOC_V4_INIT_NAT] h)
  next
    case (IPA_IOC_INIT_IPV6CT_TABLE init)
    show ?thesis unfolding IPA_IOC_INIT_IPV6CT_TABLE ipa3_nat_ioctl.simps
      by (rule simple [unfolded IPA_IOC_INIT_IPV6CT_TABLE], rule h, rule ct_init_ok [OF pl invw])
  next
    case (IPA_IOC_TABLE_DMA_CMD n dma)
    obtain ok w1 where c: "kenv_copy_user env (k_world k) = (ok, w1)" by fastforce
    obtain e w2 where d: "kenv_memdup_user env w1 = (e, w2)" by fastforce
    have "returns (ipa3_table_dma_cmd env pl dma (k\<lparr>k_world := w2\<rparr>)) (\<lambda>(r, k'). kinv pl S k')"
      by (rule quietly, rule table_dma_ok [OF pl])
    then have "returns (ipa3_nat_ioctl env pl rq k) (\<lambda>(r, k'). kinv pl S k')"
      using inv by (auto simp: IPA_IOC_TABLE_DMA_CMD in_world_def c d returns_if elim!: returns_mono)
    then show ?thesis by (rule simple)
  next
    case (IPA_IOC_V4_DEL_NAT st ti)
    have "returns (ipa3_nat_del_cmd env pl st ti (k\<lparr>k_world := w\<rparr>)) (\<lambda>(r, k'). kinv pl S k')" for w
      using del_nat_ok [OF pl invw, of env ti st w] by (auto simp: ipa3_nat_del_cmd_def elim!: returns_mono)
    then show ?thesis unfolding IPA_IOC_V4_DEL_NAT ipa3_nat_ioctl.simps by (intro simple [unfolded IPA_IOC_V4_DEL_NAT] h)
  next
    case (IPA_IOC_DEL_NAT_TABLE ti mt)
    have "returns (ipa3_del_nat_table env pl ti mt (k\<lparr>k_world := w\<rparr>)) (\<lambda>(r, k'). kinv pl S k')" for w
      using del_nat_ok [OF pl invw, of env ti mt w] by (auto elim!: returns_mono)
    then show ?thesis unfolding IPA_IOC_DEL_NAT_TABLE ipa3_nat_ioctl.simps by (intro simple [unfolded IPA_IOC_DEL_NAT_TABLE] h)
  next
    case (IPA_IOC_DEL_IPV6CT_TABLE ti mt)
    have "returns (ipa3_del_ipv6ct_table env pl ti (k\<lparr>k_world := w\<rparr>)) (\<lambda>(r, k'). kinv pl S k')" for w
      using del_ct_ok [OF pl invw, of env ti w] by (auto elim!: returns_mono)
    then show ?thesis unfolding IPA_IOC_DEL_IPV6CT_TABLE ipa3_nat_ioctl.simps by (intro simple [unfolded IPA_IOC_DEL_IPV6CT_TABLE] h)
  next
    case (IPA_IOC_NAT_MODIFY_PDN p)
    have "returns (ipa3_nat_mdfy_pdn env pl p (k\<lparr>k_world := w\<rparr>)) (\<lambda>(r, k'). kinv pl S k')" for w
      by (rule quietly, rule mdfy_pdn_ok [OF pl invw])
    then show ?thesis unfolding IPA_IOC_NAT_MODIFY_PDN ipa3_nat_ioctl.simps by (intro simple [unfolded IPA_IOC_NAT_MODIFY_PDN] h)
  next
    case IPA_IOC_GET_NAT_IN_SRAM_INFO
    have "kinv pl S (k\<lparr>sram_compatible := b, k_world := w\<rparr>)" for b w using inv by (simp add: kinv_def)
    then show ?thesis
      using inv unfolding IPA_IOC_GET_NAT_IN_SRAM_INFO ipa3_nat_ioctl.simps
      by (intro simple [unfolded IPA_IOC_GET_NAT_IN_SRAM_INFO])
         (auto simp: proc_sram_info_rqst_def ipa3_nat_get_sram_info_def in_world_def Let_def split: prod.splits)
  next
    case (MMAP d vsize)
    obtain r k' where m: "ipa3_nat_ipv6ct_mmap env d vsize k = (r, k')" by fastforce
    show ?thesis using mmap_ok [OF inv m] by (auto simp: MMAP m)
  qed
qed

end
