(* ===== verification/Ipa3_Nat_Kernel.thy ===== *)
theory Ipa3_Nat_Kernel
  imports Ipa3_Nat_Safe
begin

text \<open>
  The driver from its start: initialisation of the devices, reachable states, and the properties of every sequence of
  requests.
\<close>

section \<open>Start\<close>

definition cm_zero :: ipa3_nat_ipv6ct_common_mem where
  "cm_zero = \<lparr>cm_name = [], cm_is_nat_mem = False, cm_is_ipv6ct_mem = False, cm_is_dev_init = False, cm_is_hw_init = False,
     cm_is_mapped = False, cm_phys_mem_size = 0, cm_phys_mem_ofst = 0, cm_table_alloc_size = 0, cm_vaddr = 0, cm_dma_handle = 0,
     cm_base_address = 0, cm_base_table_addr = 0, cm_expansion_table_addr = 0, cm_table_entries = 0, cm_expn_table_entries = 0,
     cm_tmp_mem = None\<rparr>"

definition nm_zero :: ipa3_nat_mem where
  "nm_zero = \<lparr>nm_dev = cm_zero, nm_public_ip_addr = 0, nm_pdn_base = 0, nm_pdn_phys_base = 0, nm_pdn_size = 0, nm_pdn_table = [],
     nm_is_tmp_mem_allocated = False, nm_last_alloc_loc = IPA_NAT_MEM_IN_DDR, nm_active_table = IPA_NAT_MEM_IN_DDR,
     nm_switch2ddr_cnt = 0, nm_switch2sram_cnt = 0, nm_ddr_in_use = False, nm_sram_in_use = False, nm_mem_loc = (\<lambda>_. loc_zero)\<rparr>"

text \<open>The state when the module is loaded: the context is zeroed memory.\<close>

definition ipa3_zero :: "'w \<Rightarrow> 'w ipa3" where
  "ipa3_zero w = \<lparr>nat_mem = nm_zero, ipv6ct_dev = cm_zero, sram_compatible = False, k_ledger = [], k_pylds = 0, k_world = w\<rparr>"

definition device_res :: "string \<Rightarrow> kres multiset" where
  "device_res name = {#DevClass name, ChrdevRegion name, DeviceNode name, Cdev name#}"

definition tmp_res :: "ipa3_nat_ipv6ct_tmp_mem \<Rightarrow> kres multiset" where
  "tmp_res tmp = {#TmpStruct, DmaMem (tmp_vaddr tmp) (tmp_dma_handle tmp) IPA_NAT_IPV6CT_TEMP_MEM_SIZE#}"

definition driver_res :: "ipa3_platform \<Rightarrow> ipa3_nat_ipv6ct_tmp_mem \<Rightarrow> kres multiset" where
  "driver_res pl tmp =
     tmp_res tmp + device_res ''ipaNatTable'' + (if IPA_HW_v4_0 \<le> hw_type pl then device_res ''ipaIpv6CTTable'' else {#})"

text \<open>What the initialisation of a device does to the rest of the state.\<close>

definition dev_step :: "mem_dev \<Rightarrow> 'w ipa3 \<Rightarrow> 'w ipa3 \<Rightarrow> bool" where
  "dev_step d k k' \<longleftrightarrow>
     (\<forall>d'. d' \<noteq> d \<longrightarrow> get_dev d' k' = get_dev d' k) \<and> (nat_mem k')\<lparr>nm_dev := cm_zero\<rparr> = (nat_mem k)\<lparr>nm_dev := cm_zero\<rparr> \<and>
     k_pylds k' = k_pylds k \<and> sram_compatible k' = sram_compatible k"

lemma dev_set [simp]:
  "get_dev d (set_dev d c k) = c" "d' \<noteq> d \<Longrightarrow> get_dev d' (set_dev d c k) = get_dev d' k" "k_ledger (set_dev d c k) = k_ledger k"
  "k_pylds (set_dev d c k) = k_pylds k" "sram_compatible (set_dev d c k) = sram_compatible k"
  "(nat_mem (set_dev d c k))\<lparr>nm_dev := x\<rparr> = (nat_mem k)\<lparr>nm_dev := x\<rparr>" "get_dev d (k\<lparr>k_world := w\<rparr>) = get_dev d k"
  "get_dev d (k\<lparr>k_ledger := l\<rparr>) = get_dev d k" "k_world (set_dev d c k) = k_world k"
  by (cases d; cases d'; simp)+

lemma init_device_ok:
  assumes n: "length name < IPA_DEV_NAME_MAX_LEN"
  shows "returns (ipa3_nat_ipv6ct_init_device env d name psz pofs tmp k) (\<lambda>(r, k'). dev_step d k k' \<and>
    (if r = 0 then mset (k_ledger k') = device_res name + mset (k_ledger k) \<and>
       get_dev d k' = (get_dev d k)\<lparr>cm_is_nat_mem := (d = NatDev), cm_is_ipv6ct_mem := (d = Ipv6ctDev), cm_name := name, cm_tmp_mem := tmp,
         cm_phys_mem_size := psz, cm_phys_mem_ofst := pofs, cm_is_dev_init := True\<rparr>
     else mset (k_ledger k') = mset (k_ledger k) \<and> cm_tmp_mem (get_dev d k') = cm_tmp_mem (get_dev d k)))"
proof -
  have n': "length (take IPA_DEV_NAME_MAX_LEN name) \<noteq> IPA_DEV_NAME_MAX_LEN" using n by simp
  let ?w0 = "k_world k"
  obtain ok1 w1 where 1: "kenv_class_create env name ?w0 = (ok1, w1)" by fastforce
  obtain r2 w2 where 2: "kenv_alloc_chrdev_region env name w1 = (r2, w2)" by fastforce
  obtain ok3 w3 where 3: "kenv_device_create env name w2 = (ok3, w3)" by fastforce
  obtain r4 w4 where 4: "kenv_cdev_add env name w3 = (r4, w4)" by fastforce
  show ?thesis
    unfolding ipa3_nat_ipv6ct_init_device_def Let_def
    using n' 1 2 3 4
    by (simp add: in_world_def acquire_def release_def dev_step_def device_res_def returns_if)
qed

lemma destroy_nat_device_ok:
  assumes t: "cm_tmp_mem (nm_dev (nat_mem k)) = Some tmp" "nm_is_tmp_mem_allocated (nat_mem k)" "cm_name (nm_dev (nat_mem k)) = name"
    and led: "mset (k_ledger k) = tmp_res tmp + device_res name + A"
  shows "returns (ipa3_nat_ipv6ct_destroy_device NatDev k)
    (\<lambda>k'. mset (k_ledger k') = add_mset (Cdev name) A \<and> \<not> nm_is_tmp_mem_allocated (nat_mem k'))"
proof -
  have mem: "x \<in> set (k_ledger k) \<longleftrightarrow> x \<in># tmp_res tmp + device_res name + A" for x
    by (simp only: led [symmetric] set_mset_mset)
  show ?thesis
    using t led
    by (simp add: ipa3_nat_ipv6ct_destroy_device_def dma_free_coherent_def release_def mem device_res_def tmp_res_def)
qed

lemma zero_nat_ok:
  assumes "nm\<lparr>nm_dev := cm_zero\<rparr> = nm_zero\<lparr>nm_dev := cm_zero, nm_is_tmp_mem_allocated := b\<rparr>"
    "cm_is_dev_init (nm_dev nm)" "cm_is_nat_mem (nm_dev nm)" "\<not> cm_is_ipv6ct_mem (nm_dev nm)" "\<not> cm_is_hw_init (nm_dev nm)"
  shows "nat_mem_ok pl nm" "owned_nat nm = {#}"
proof -
  have "nm_mem_loc nm = (\<lambda>_. loc_zero)" "nm_pdn_base nm = 0" "\<not> nm_ddr_in_use nm" "\<not> nm_sram_in_use nm"
    using arg_cong [OF assms(1), of nm_mem_loc] arg_cong [OF assms(1), of nm_pdn_base] arg_cong [OF assms(1), of nm_ddr_in_use]
      arg_cong [OF assms(1), of nm_sram_in_use] by (simp_all add: nm_zero_def)
  then show "nat_mem_ok pl nm" "owned_nat nm = {#}"
    using assms(2-) by (simp_all add: nat_mem_ok_def owned_nat_def own_dma_def loc_zero_def)
qed

text \<open>The devices and the temporary memory.  After a failure everything is given back, except that the character device of the
  NAT table stays registered when it is the second device that fails.\<close>

lemma init_devices_ok:
  assumes pl: "plat_ok pl"
  shows "returns (ipa3_nat_ipv6ct_init_devices env pl (ipa3_zero w))
    (\<lambda>(r, k). if r = 0 then (\<exists>tmp. kinv pl (driver_res pl tmp) k) else k_ledger k = [] \<or> k_ledger k = [Cdev ''ipaNatTable''])"
proof -
  let ?z = "ipa3_zero w"
  obtain ok w1 where ok: "kenv_kzalloc env w = (ok, w1)" by fastforce
  obtain v h w2 where v: "kenv_dma_alloc_coherent env IPA_NAT_IPV6CT_TEMP_MEM_SIZE w1 = (v, h, w2)"
    by (cases "kenv_dma_alloc_coherent env IPA_NAT_IPV6CT_TEMP_MEM_SIZE w1")
  show ?thesis
  proof (cases "ok \<and> v \<noteq> 0")
    case False
    then show ?thesis
      using ok v
      by (auto simp: ipa3_nat_ipv6ct_init_devices_def ipa3_nat_ipv6ct_allocate_tmp_memory_def in_world_def ipa3_zero_def
            dma_alloc_coherent_def acquire_def release_def Let_def)
  next
    case True
    define tmp where "tmp = \<lparr>tmp_vaddr = v, tmp_dma_handle = h\<rparr>"
    define k1 where "k1 = ?z\<lparr>k_world := w2, k_ledger := [DmaMem v h IPA_NAT_IPV6CT_TEMP_MEM_SIZE, TmpStruct]\<rparr>"
    have a: "ipa3_nat_ipv6ct_allocate_tmp_memory env ?z = Some (Some tmp, k1)"
      using True ok v
      by (simp add: ipa3_nat_ipv6ct_allocate_tmp_memory_def in_world_def ipa3_zero_def dma_alloc_coherent_def acquire_def tmp_def k1_def Let_def)
    have t1: "mset (k_ledger k1) = tmp_res tmp" by (simp add: k1_def tmp_res_def tmp_def)
    define k2 where "k2 = k1\<lparr>nat_mem := (nat_mem k1)\<lparr>nm_is_tmp_mem_allocated := True\<rparr>\<rparr>"
    obtain r3 k3 where k3: "ipa3_nat_ipv6ct_init_device env NatDev ''ipaNatTable'' (nat_tbl_size pl) (nat_tbl_ofst pl) (Some tmp) k2 = Some (r3, k3)"
      "dev_step NatDev k2 k3" "if r3 = 0 then mset (k_ledger k3) = device_res ''ipaNatTable'' + mset (k_ledger k2) \<and>
       get_dev NatDev k3 = (get_dev NatDev k2)\<lparr>cm_is_nat_mem := True, cm_is_ipv6ct_mem := False, cm_name := ''ipaNatTable'', cm_tmp_mem := Some tmp,
         cm_phys_mem_size := nat_tbl_size pl, cm_phys_mem_ofst := nat_tbl_ofst pl, cm_is_dev_init := True\<rparr>
       else mset (k_ledger k3) = mset (k_ledger k2)"
      using init_device_ok [of "''ipaNatTable''" env NatDev "nat_tbl_size pl" "nat_tbl_ofst pl" "Some tmp" k2]
      by (auto simp: returns_def IPA_DEV_NAME_MAX_LEN_def split: if_splits)
    have nm3: "(nat_mem k3)\<lparr>nm_dev := cm_zero\<rparr> = nm_zero\<lparr>nm_dev := cm_zero, nm_is_tmp_mem_allocated := True\<rparr>"
      "ipv6ct_dev k3 = cm_zero" "k_pylds k3 = 0"
      using k3(2) by (auto simp: dev_step_def k2_def k1_def ipa3_zero_def dest: spec [of _ Ipv6ctDev])
    have al3: "nm_is_tmp_mem_allocated (nat_mem k3)" using arg_cong [OF nm3(1), of nm_is_tmp_mem_allocated] by simp
    have l2: "mset (k_ledger k2) = tmp_res tmp" by (simp add: k2_def t1)
    note start = ipa3_nat_ipv6ct_init_devices_def a bind.bind_lunit prod.case option.case Let_def k2_def [symmetric] k3(1)
    show ?thesis
    proof (cases "r3 = 0")
      case False
      then have "mset (k_ledger k3) = tmp_res tmp" using k3(3) l2 by simp
      moreover from this have "x \<in> set (k_ledger k3) \<longleftrightarrow> x \<in># tmp_res tmp" for x by (simp only: set_mset_mset [symmetric])
      ultimately show ?thesis
        unfolding start using False al3
        by (simp add: dma_free_coherent_def release_def tmp_res_def returns_if flip: mset_zero_iff)
    next
      case r3: True
      have d3: "cm_is_dev_init (nm_dev (nat_mem k3))" "cm_is_nat_mem (nm_dev (nat_mem k3))" "\<not> cm_is_ipv6ct_mem (nm_dev (nat_mem k3))"
        "\<not> cm_is_hw_init (nm_dev (nat_mem k3))" "cm_tmp_mem (nm_dev (nat_mem k3)) = Some tmp" "cm_name (nm_dev (nat_mem k3)) = ''ipaNatTable''"
        using k3(3) r3 by (simp_all add: k2_def k1_def ipa3_zero_def nm_zero_def cm_zero_def)
      have l3: "mset (k_ledger k3) = tmp_res tmp + device_res ''ipaNatTable''" using k3(3) r3 l2 by simp
      show ?thesis
      proof (cases "hw_type pl < IPA_HW_v4_0")
        case True
        then have "kinv pl (driver_res pl tmp) k3"
          using zero_nat_ok [OF nm3(1) d3(1-4)] nm3(2,3) l3
          by (simp add: kinv_def ct_dev_ok_def owned_ct_def own_dma_def cm_zero_def driver_res_def)
        then show ?thesis unfolding start using r3 True by auto
      next
        case v: False
        obtain r4 k4 where k4: "ipa3_nat_ipv6ct_init_device env Ipv6ctDev ''ipaIpv6CTTable'' 0 0 (Some tmp) k3 = Some (r4, k4)"
          "dev_step Ipv6ctDev k3 k4" "if r4 = 0 then mset (k_ledger k4) = device_res ''ipaIpv6CTTable'' + mset (k_ledger k3) \<and>
             get_dev Ipv6ctDev k4 = (get_dev Ipv6ctDev k3)\<lparr>cm_is_nat_mem := False, cm_is_ipv6ct_mem := True, cm_name := ''ipaIpv6CTTable'',
               cm_tmp_mem := Some tmp, cm_phys_mem_size := 0, cm_phys_mem_ofst := 0, cm_is_dev_init := True\<rparr>
           else mset (k_ledger k4) = mset (k_ledger k3)"
          using init_device_ok [of "''ipaIpv6CTTable''" env Ipv6ctDev 0 0 "Some tmp" k3]
          by (auto simp: returns_def IPA_DEV_NAME_MAX_LEN_def split: if_splits)
        have nm4: "nm_dev (nat_mem k4) = nm_dev (nat_mem k3)" "(nat_mem k4)\<lparr>nm_dev := cm_zero\<rparr> = nm_zero\<lparr>nm_dev := cm_zero, nm_is_tmp_mem_allocated := True\<rparr>"
          "k_pylds k4 = 0"
          using k4(2) nm3 by (auto simp: dev_step_def dest: spec [of _ NatDev])
        have al4: "nm_is_tmp_mem_allocated (nat_mem k4)" using arg_cong [OF nm4(2), of nm_is_tmp_mem_allocated] by simp
        show ?thesis
        proof (cases "r4 = 0")
          case True
          have "kinv pl (driver_res pl tmp) k4"
            using zero_nat_ok [OF nm4(2), unfolded nm4(1), OF d3(1-4)] nm3(2) nm4(3) l3 k4(3) v True
            by (simp add: kinv_def ct_dev_ok_def owned_ct_def own_dma_def cm_zero_def driver_res_def)
          then show ?thesis unfolding start using r3 v k4(1) True by auto
        next
          case False
          have "mset (k_ledger k4) = tmp_res tmp + device_res ''ipaNatTable'' + {#}" using k4(3) l3 False by simp
          from destroy_nat_device_ok [OF _ al4 _ this] obtain k5 where
            k5: "ipa3_nat_ipv6ct_destroy_device NatDev k4 = Some k5" "mset (k_ledger k5) = {#Cdev ''ipaNatTable''#}" "\<not> nm_is_tmp_mem_allocated (nat_mem k5)"
            using d3(5,6) by (auto simp: nm4(1) returns_def)
          have "k_ledger k5 = [Cdev ''ipaNatTable'']" using k5(2) by (metis mset_single_iff)
          then show ?thesis unfolding start using r3 v k4(1) False k5(1,3) by simp
        qed
      qed
    qed
  qed
qed

section \<open>Reachable states\<close>

text \<open>\<open>G\<close> restricts the requests a client makes in a state.\<close>

inductive kreach :: "'w kernel_env \<Rightarrow> ipa3_platform \<Rightarrow> (nat_request \<Rightarrow> 'w ipa3 \<Rightarrow> bool) \<Rightarrow> 'w ipa3 \<Rightarrow> bool"
  for env pl G where
  kreach_init: "ipa3_nat_ipv6ct_init_devices env pl (ipa3_zero w) = Some (0, k) \<Longrightarrow> kreach env pl G k"
| kreach_step: "kreach env pl G k \<Longrightarrow> G rq k \<Longrightarrow> ipa3_nat_ioctl env pl rq k = Some (r, k') \<Longrightarrow> kreach env pl G k'"

lemma kreach_inv:
  assumes "kreach env pl G k" "plat_ok pl"
  shows "\<exists>S. kinv pl S k"
  using assms(1)
proof induction
  case (kreach_init w k)
  then show ?case using returnsD [OF init_devices_ok [OF assms(2)]] by fastforce
next
  case (kreach_step k rq r k')
  then obtain S where "kinv pl S k" by blast
  then show ?case using returnsD [OF ioctl_ok [OF assms(2)] kreach_step.hyps(3)] by fastforce
qed

lemma active_tables:
  assumes "nat_mem_ok pl nm" "cm_is_hw_init (nm_dev nm)"
  shows "nm_active_table nm \<noteq> IPA_NAT_MEM_IN_MAX" "ml_is_mapped (nm_mem_loc nm (nm_active_table nm))"
    "tables_fit (nm_mem_loc nm (nm_active_table nm))"
proof -
  have m: "nm_active_table nm \<noteq> IPA_NAT_MEM_IN_MAX" and te: "ml_table_entries (nm_mem_loc nm (nm_active_table nm)) \<noteq> 0"
    using assms by (simp_all add: nat_mem_ok_def)
  show "nm_active_table nm \<noteq> IPA_NAT_MEM_IN_MAX" by (rule m)
  show "ml_is_mapped (nm_mem_loc nm (nm_active_table nm))" "tables_fit (nm_mem_loc nm (nm_active_table nm))"
    using loc_ok_at [OF assms(1) m] te by (auto simp: loc_ok_def split: if_splits)
qed

text \<open>C2: every ioctl and mapping request, in every state that requests can lead to and whatever the kernel services answer, runs
  to its end: no NULL callback of the hardware abstraction layer is called, nothing is freed that the driver does not own, no
  descriptor array overflows and the PDN table is not written outside of its buffer.  Afterwards all command payloads are
  destroyed, everything the state refers to is still allocated, and while the hardware is initialised the four tables of
  the active memory lie inside its allocation, which is mapped.\<close>

theorem kernel_requests_safe:
  assumes "plat_ok pl" "kreach env pl G k"
  shows "\<exists>r k'. ipa3_nat_ioctl env pl rq k = Some (r, k') \<and> k_pylds k' = 0 \<and>
    owned_nat (nat_mem k') + owned_ct (ipv6ct_dev k') \<subseteq># mset (k_ledger k') \<and>
    (cm_is_hw_init (nm_dev (nat_mem k')) \<longrightarrow>
       (let l = get_loc (nm_active_table (nat_mem k')) k' in
        nm_active_table (nat_mem k') \<noteq> IPA_NAT_MEM_IN_MAX \<and> ml_is_mapped l \<and> tables_fit l))"
proof -
  obtain S where inv: "kinv pl S k" using kreach_inv [OF assms(2,1)] by blast
  obtain r k' S' where k': "ipa3_nat_ioctl env pl rq k = Some (r, k')" "kinv pl S' k'"
    using ioctl_ok [OF assms(1) inv, of env rq] by (auto simp: returns_def)
  then have ok: "nat_mem_ok pl (nat_mem k')" by (simp add: kinv_def)
  have "k_pylds k' = 0" "owned_nat (nat_mem k') + owned_ct (ipv6ct_dev k') \<subseteq># mset (k_ledger k')"
    using k'(2) by (simp_all add: kinv_def)
  then show ?thesis using k'(1) active_tables [OF ok] by (simp add: get_loc_def Let_def)
qed

text \<open>Clients that do not allocate connection tracking memory while they have some.\<close>

definition ct_once :: "nat_request \<Rightarrow> 'w ipa3 \<Rightarrow> bool" where
  "ct_once rq k \<longleftrightarrow> (case rq of IPA_IOC_ALLOC_IPV6CT_TABLE _ _ \<Rightarrow> cm_vaddr (ipv6ct_dev k) = 0 | _ \<Rightarrow> True)"

lemma ct_once_lost: "ct_once rq k \<Longrightarrow> lost_ct rq k = {#}"
  by (cases rq) (simp_all add: ct_once_def lost_ct_def owned_ct_def own_dma_def)

text \<open>C14: for clients that allocate connection tracking memory only when they have none, the driver leaks nothing: in every
  reachable state what the kernel has handed out is the resources of the two devices, the table memories and the PDN buffer the
  state refers to, each once; so after the deletion of both tables exactly the resources of the devices are left.\<close>

theorem kernel_no_leak:
  assumes "plat_ok pl" "kreach env pl ct_once k"
  shows "\<exists>tmp. mset (k_ledger k) = driver_res pl tmp + owned_nat (nat_mem k) + owned_ct (ipv6ct_dev k) \<and>
    (nat_cleared k \<and> cm_vaddr (ipv6ct_dev k) = 0 \<longrightarrow> mset (k_ledger k) = driver_res pl tmp)"
proof -
  from assms(2) have "\<exists>tmp. kinv pl (driver_res pl tmp) k"
  proof induction
    case (kreach_init w k)
    then show ?case using returnsD [OF init_devices_ok [OF assms(1)]] by fastforce
  next
    case (kreach_step k rq r k')
    then obtain tmp where "kinv pl (driver_res pl tmp) k" by blast
    then show ?case
      using returnsD [OF ioctl_ok [OF assms(1)] kreach_step.hyps(3)] ct_once_lost [OF kreach_step.hyps(2)] by fastforce
  qed
  then obtain tmp where "kinv pl (driver_res pl tmp) k" by blast
  then have m: "mset (k_ledger k) = driver_res pl tmp + owned_nat (nat_mem k) + owned_ct (ipv6ct_dev k)"
    unfolding kinv_def by (simp only: union_ac)
  moreover have "nat_cleared k \<Longrightarrow> owned_nat (nat_mem k) = {#}"
    by (simp add: owned_nat_def own_dma_def nat_cleared_def loc_zero_def)
  moreover have "cm_vaddr (ipv6ct_dev k) = 0 \<Longrightarrow> owned_ct (ipv6ct_dev k) = {#}" by (simp add: owned_ct_def own_dma_def)
  ultimately show ?thesis by auto
qed

section \<open>Table writes\<close>

definition nat_table_at :: "u8 \<Rightarrow> ipa3_nat_mem_loc_data \<Rightarrow> u64" where
  "nat_table_at b l = (if b = 0 then ml_base_table_addr l else if b = 1 then ml_expansion_table_addr l
     else if b = 2 then ml_index_table_addr l else ml_index_table_expansion_addr l)"

lemma u8_less_4: "(b :: u8) < 4 \<Longrightarrow> b = 0 \<or> b = 1 \<or> b = 2 \<or> b = 3"
proof -
  assume "b < 4"
  then have "unat b = 0 \<or> unat b = 1 \<or> unat b = 2 \<or> unat b = 3" by (auto simp: word_less_nat_alt)
  then show ?thesis by (auto simp: word_unat_eq_iff)
qed

text \<open>The size the driver compares with, for the tables of the memory \<open>l\<close>.\<close>

definition nat_table_bytes :: "u8 \<Rightarrow> ipa3_nat_mem_loc_data \<Rightarrow> nat" where
  "nat_table_bytes b l = (if b = 0 then 32 * (unat (ml_table_entries l) + 1) else if b = 1 then 32 * unat (ml_expn_table_entries l)
     else if b = 2 then 4 * (unat (ml_table_entries l) + 1) else 4 * unat (ml_expn_table_entries l))"

lemma table_size_nat:
  assumes pl: "plat_ok pl" and b: "b < 4" and te: "unat (ml_table_entries (get_loc nmi k)) < 65535" "unat (ml_expn_table_entries (get_loc nmi k)) < 65536"
  shows "\<exists>sz. ipa3_nat_ipv6ct_calculate_table_size pl nmi b k = Some sz \<and> unat sz = nat_table_bytes b (get_loc nmi k)"
proof -
  have e: "unat (ml_table_entries (get_loc nmi k) + 1) = unat (ml_table_entries (get_loc nmi k)) + 1"
    using te(1) by (simp add: unat_word_ariths(1))
  have m: "unat (of_nat c * x :: u32) = c * unat x" if "c \<le> 32" "unat x \<le> 65536" for c x
  proof -
    have "c * unat x \<le> 32 * 65536" using that by (intro mult_mono) simp_all
    then show ?thesis using that by (simp add: unat_word_ariths(2) unat_of_nat take_bit_eq_mod)
  qed
  note m32 = m [of 32, simplified] and m4 = m [of 4, simplified]
  show ?thesis
    using u8_less_4 [OF b] te m32 [of "ml_table_entries (get_loc nmi k) + 1"] m32 [of "ml_expn_table_entries (get_loc nmi k)"]
      m4 [of "ml_table_entries (get_loc nmi k) + 1"] m4 [of "ml_expn_table_entries (get_loc nmi k)"]
    unfolding e
    by (elim disjE)
       (simp_all add: ipa3_nat_ipv6ct_calculate_table_size_def ipa_nat_ipv6ct_table_type_def plat_entry_size [OF pl] nat_table_bytes_def Let_def)
qed

lemma validate_inside:
  assumes pl: "plat_ok pl" and v: "ipa3_table_validate_table_dma_one pl nmi d k = Some 0" and b: "dma_base_addr d < 4"
    and te: "unat (ml_table_entries (get_loc nmi k)) < 65535" "unat (ml_expn_table_entries (get_loc nmi k)) < 65536"
  shows "cm_is_hw_init (nm_dev (nat_mem k)) \<and> unat (dma_offset d) < nat_table_bytes (dma_base_addr d) (get_loc nmi k)"
proof -
  obtain sz where sz: "ipa3_nat_ipv6ct_calculate_table_size pl nmi (dma_base_addr d) k = Some sz"
      "unat sz = nat_table_bytes (dma_base_addr d) (get_loc nmi k)"
    using table_size_nat [OF pl b te] by blast
  have "ipa_nat_ipv6ct_table_type (dma_base_addr d) \<in> {Some IPA_NAT_BASE_TBL_K, Some IPA_NAT_EXPN_TBL_K, Some IPA_NAT_INDX_TBL_K, Some IPA_NAT_INDEX_EXPN_TBL_K}"
    using u8_less_4 [OF b] by (auto simp: ipa_nat_ipv6ct_table_type_def)
  then show ?thesis
    using v sz by (auto simp: ipa3_table_validate_table_dma_one_def word_less_nat_alt linorder_not_le split: if_splits)
qed

lemma nat_table_fits:
  assumes "tables_fit l"
  shows "fits (ml_base_address l) (ml_table_alloc_size l) (nat_table_at b l) (nat_table_bytes b l)"
    "unat (ml_table_entries l) < 65535" "unat (ml_expn_table_entries l) < 65536"
  using assms by (auto simp: tables_fit_def nat_table_at_def nat_table_bytes_def Let_def)

lemma dma_accepted:
  assumes "ipa3_table_dma_cmd env pl dma k = Some (0, k')" "d \<in> set (cmd_dma dma)"
  shows "ipa3_table_validate_table_dma_one pl (if sram_compatible k then nmi_of_u8 (cmd_mem_type dma) else IPA_NAT_MEM_IN_DDR) d k = Some 0"
proof -
  have "check_tables (map (\<lambda>d _. ipa3_table_validate_table_dma_one pl nmi d k) ds) = Some 0 \<Longrightarrow> d \<in> set ds \<Longrightarrow>
      ipa3_table_validate_table_dma_one pl nmi d k = Some 0" for nmi ds
    by (induction ds) (auto simp: bind_eq_Some_conv split: if_splits)
  then show ?thesis
    using assms by (auto simp: ipa3_table_dma_cmd_def bind_eq_Some_conv Let_def split: if_splits)
qed

text \<open>C15: a table write that is accepted and that names the memory of the active table stays inside the allocation of that memory:
  the halfword at its offset does, when the offset is even; an odd offset, which the driver does not refuse, can reach one byte
  further.\<close>

theorem kernel_writes_contained:
  assumes "plat_ok pl" "kreach env pl G k" "ipa3_table_dma_cmd env pl dma k = Some (0, k')" "d \<in> set (cmd_dma dma)"
    "dma_base_addr d < 4" "(if sram_compatible k then nmi_of_u8 (cmd_mem_type dma) else IPA_NAT_MEM_IN_DDR) = nm_active_table (nat_mem k)"
  shows "let l = get_loc (nm_active_table (nat_mem k)) k in
    fits (ml_base_address l) (ml_table_alloc_size l) (nat_table_at (dma_base_addr d) l)
      (unat (dma_offset d) + (if even (unat (dma_offset d)) then 2 else 1))"
proof -
  obtain S where inv: "kinv pl S k" using kreach_inv [OF assms(2,1)] by blast
  let ?l = "get_loc (nm_active_table (nat_mem k)) k"
  note v = dma_accepted [OF assms(3,4), unfolded assms(6)]
  have hw: "cm_is_hw_init (nm_dev (nat_mem k))"
    using v u8_less_4 [OF assms(5)] by (auto simp: ipa3_table_validate_table_dma_one_def ipa_nat_ipv6ct_table_type_def split: if_splits)
  have fit: "tables_fit ?l" using active_tables(3) [of pl, OF _ hw] inv by (simp add: kinv_def get_loc_def)
  note f = nat_table_fits [OF fit]
  have o: "unat (dma_offset d) < nat_table_bytes (dma_base_addr d) ?l"
    using validate_inside [OF assms(1) v assms(5) f(2,3)] by simp
  have "even (nat_table_bytes (dma_base_addr d) ?l)" by (simp add: nat_table_bytes_def)
  then have "unat (dma_offset d) + (if even (unat (dma_offset d)) then 2 else 1) \<le> nat_table_bytes (dma_base_addr d) ?l"
    using o by (auto elim!: evenE)
  then show ?thesis using f(1) [of "dma_base_addr d"] by (simp add: fits_def Let_def)
qed

section \<open>A failed allocation of the PDN entries\<close>

lemma alloc_nat_mem_done:
  assumes "ipa3_nat_ipv6ct_allocate_mem env pl NatDev sz IPAHAL_NAT_IPV4 k = Some (0, k1)"
  shows "k1 = snd (allocate_nat_mem env pl sz k)" "sram_compatible k1 = sram_compatible k" "nm_dev (nat_mem k1) = nm_dev (nat_mem k)"
    "if sram_compatible k \<and> unat sz \<le> unat (nat_tbl_size pl) then nm_sram_in_use (nat_mem k1) \<and> nm_last_alloc_loc (nat_mem k1) = IPA_NAT_MEM_IN_SRAM
     else nm_ddr_in_use (nat_mem k1) \<and> nm_last_alloc_loc (nat_mem k1) = IPA_NAT_MEM_IN_DDR"
proof -
  have m: "allocate_nat_mem env pl sz k = (0, k1)"
    using assms by (auto simp: ipa3_nat_ipv6ct_allocate_mem_def Let_def bind_eq_Some_conv split: if_splits)
  then show "k1 = snd (allocate_nat_mem env pl sz k)" by simp
  obtain io w where io: "kenv_ioremap env (ucast (sram_phys_addr pl)) (nat_tbl_size pl) (k_world k) = (io, w)" by fastforce
  obtain v h w' where v: "kenv_dma_alloc_coherent env sz (k_world k) = (v, h, w')" by (cases "kenv_dma_alloc_coherent env sz (k_world k)")
  show "sram_compatible k1 = sram_compatible k" "nm_dev (nat_mem k1) = nm_dev (nat_mem k)"
    "if sram_compatible k \<and> unat sz \<le> unat (nat_tbl_size pl) then nm_sram_in_use (nat_mem k1) \<and> nm_last_alloc_loc (nat_mem k1) = IPA_NAT_MEM_IN_SRAM
     else nm_ddr_in_use (nat_mem k1) \<and> nm_last_alloc_loc (nat_mem k1) = IPA_NAT_MEM_IN_DDR"
    using m io v
    by (cases "sram_compatible k \<and> unat sz \<le> unat (nat_tbl_size pl)";
        auto simp: allocate_nat_mem_def in_world_def dma_alloc_coherent_def acquire_def set_loc_def Let_def split: if_splits)+
qed

lemma alloc_nat_mem_busy:
  assumes a: "ipa3_nat_ipv6ct_allocate_mem env pl NatDev sz IPAHAL_NAT_IPV4 k = Some (0, k1)"
    and d: "nm_dev (nat_mem k2) = nm_dev (nat_mem k)" "sram_compatible k2 = sram_compatible k"
    and b: "if sram_compatible k \<and> unat sz \<le> unat (nat_tbl_size pl) then nm_sram_in_use (nat_mem k2) else nm_ddr_in_use (nat_mem k2)"
  shows "ipa3_nat_ipv6ct_allocate_mem env' pl NatDev sz IPAHAL_NAT_IPV4 k2 = Some (- EPERM, k2)"
  using a b d
  by (auto simp: ipa3_nat_ipv6ct_allocate_mem_def allocate_nat_mem_def bind_eq_Some_conv Let_def split: if_splits)

lemma fail_alloc_keeps:
  assumes "fail_alloc_pdn k = Some k'"
  shows "sram_compatible k' = sram_compatible k" "(nat_mem k')\<lparr>nm_mem_loc := m\<rparr> = (nat_mem k)\<lparr>nm_mem_loc := m\<rparr>"
    "nm_last_alloc_loc (nat_mem k) = IPA_NAT_MEM_IN_DDR \<Longrightarrow> ml_vaddr (get_loc IPA_NAT_MEM_IN_DDR k') = 0"
    "nm_last_alloc_loc (nat_mem k) = IPA_NAT_MEM_IN_SRAM \<Longrightarrow> ml_io_vaddr (get_loc IPA_NAT_MEM_IN_SRAM k') = 0"
  using assms
  by (auto simp: fail_alloc_pdn_def dma_free_coherent_def release_def set_loc_def get_loc_def bind_eq_Some_conv Let_def split: if_splits)


section \<open>What is sent\<close>

text \<open>A payload that the hardware abstraction layer makes of a command.\<close>

definition payload_of :: "ipa3_platform \<Rightarrow> imm_cmd \<Rightarrow> ipahal_imm_cmd_pyld \<Rightarrow> bool" where
  "payload_of pl cmd p \<longleftrightarrow> (\<exists>op. ipahal_construct_imm_cmd (imm_objs pl) (hw_type pl) (\<lambda>w. (True, w)) cmd () = Some (Some p, op))"

lemma construct_payload:
  assumes "ipahal_construct_imm_cmd (imm_objs pl) (hw_type pl) alloc cmd w = Some (Some p, w')"
  shows "payload_of pl cmd p"
proof -
  let ?op = "ipahal_imm_cmd_get_opcode (imm_objs pl) (hw_type pl) (imm_name_of cmd)"
  have mk: "make_pyld alloc op st vs w = (Some p, w') \<Longrightarrow> make_pyld (\<lambda>w. (True, w)) op st vs () = (Some p, ())" for op st vs
    by (auto simp: make_pyld_def Let_def split: prod.splits if_splits)
  from assms obtain cb where cb: "iobj_construct (imm_objs pl (hw_type pl) (imm_name_of cmd)) = Some cb"
    by (auto simp: ipahal_construct_imm_cmd_def bind_eq_Some_conv Let_def)
  note defs = ipa_imm_cmd_construct_ip_v4_nat_init_def ipa_imm_cmd_construct_ip_v6_ct_init_def
        ipa_imm_cmd_construct_register_write_def ipa_imm_cmd_construct_register_write_v_4_0_def ipa_imm_cmd_construct_nat_dma_def
        ipa_imm_cmd_construct_table_dma_ipav4_def ipa_imm_cmd_construct_dma_shared_mem_def ipa_imm_cmd_construct_dma_shared_mem_v_4_0_def
  show ?thesis
    using assms cb unfolding payload_of_def ipahal_construct_imm_cmd_def Let_def
    by (cases cmd; cases cb) (auto simp: defs Let_def dest!: mk split: if_splits)
qed

lemma imm_push_sent:
  assumes "imm_push env pl cap cmd err (r, ps, k) = Some (0, ps', k')" "err \<noteq> 0"
  shows "r = 0 \<and> (\<exists>p. ps' = ps @ [p] \<and> payload_of pl cmd p)"
  using assms construct_payload
  by (fastforce simp: imm_push_def construct_imm_def bind_eq_Some_conv Let_def split: if_splits option.splits)

definition table_dma_of :: "ipa3_platform \<Rightarrow> ipa_ioc_nat_dma_one \<Rightarrow> imm_cmd" where
  "table_dma_of pl d = (if hw_type pl \<ge> IPA_HW_v4_0 then IPA_IMM_CMD_TABLE_DMA d else IPA_IMM_CMD_NAT_DMA d)"

lemma push_dmas_sent:
  assumes "push_table_dmas env pl ds (r, ps, k) = Some (0, ps', k')"
  shows "r = 0 \<and> (\<exists>qs. ps' = ps @ qs \<and> list_all2 (\<lambda>d. payload_of pl (table_dma_of pl d)) ds qs)"
  using assms
proof (induction ds arbitrary: r ps k)
  case (Cons d ds)
  from Cons.prems obtain r1 ps1 k1 where 1: "imm_push env pl IPA_MAX_NUM_OF_TABLE_DMA_CMD_DESC (table_dma_of pl d) (- ENOMEM) (r, ps, k) = Some (r1, ps1, k1)"
    and 2: "push_table_dmas env pl ds (r1, ps1, k1) = Some (0, ps', k')"
    by (auto simp: bind_eq_Some_conv table_dma_of_def)
  from Cons.IH [OF 2] obtain qs where q: "r1 = 0" "ps' = ps1 @ qs" "list_all2 (\<lambda>d. payload_of pl (table_dma_of pl d)) ds qs" by blast
  from imm_push_sent [OF 1 [unfolded q(1)]] obtain p where "r = 0" "ps1 = ps @ [p]" "payload_of pl (table_dma_of pl d) p" by auto
  then show ?case using q by auto
qed simp

lemma table_dma_payload:
  assumes pl: "plat_ok pl" "IPA_HW_v4_0 \<le> hw_type pl" and p: "payload_of pl (IPA_IMM_CMD_TABLE_DMA d) p"
  shows "pyld_opcode p = 14 \<and> pyld_len p = 8 \<and> unpack (map snd ipa_imm_cmd_hw_table_dma_ipav4) (pyld_data p) =
    [unat (dma_table_index d) mod 8, 0, unat (dma_base_addr d) mod 8, 0, unat (dma_offset d), unat (dma_data d), 0]"
proof -
  have o: "imm_objs pl (hw_type pl) N_TABLE_DMA = imm_obj Construct_table_dma_ipav4 14"
    using pl by (simp add: plat_ok_def hal_imm_v4)
  have "p = \<lparr>pyld_opcode = 14, pyld_len = struct_bytes ipa_imm_cmd_hw_table_dma_ipav4, pyld_data = pack_struct ipa_imm_cmd_hw_table_dma_ipav4
       [unat (dma_table_index d), 0, unat (dma_base_addr d), 0, unat (dma_offset d), unat (dma_data d), 0]\<rparr>"
    using p
    by (simp add: payload_of_def ipahal_construct_imm_cmd_def o imm_obj_def ipahal_imm_cmd_get_opcode_def
          ipa_imm_cmd_construct_table_dma_ipav4_def make_pyld_def)
  moreover have "unpack (map snd ipa_imm_cmd_hw_table_dma_ipav4) (pack_struct ipa_imm_cmd_hw_table_dma_ipav4
       [unat (dma_table_index d), 0, unat (dma_base_addr d), 0, unat (dma_offset d), unat (dma_data d), 0]) =
    map (\<lambda>(w, v). v mod 2 ^ w) (zip (map snd ipa_imm_cmd_hw_table_dma_ipav4)
       [unat (dma_table_index d), 0, unat (dma_base_addr d), 0, unat (dma_offset d), unat (dma_data d), 0])"
    by (rule unpack_pack_struct) (simp add: ipa_imm_cmd_hw_table_dma_ipav4_def)
  ultimately show ?thesis
    using unsigned_less [of "dma_offset d", where ?'a = nat] unsigned_less [of "dma_data d", where ?'a = nat]
    by (simp add: ipa_imm_cmd_hw_table_dma_ipav4_def struct_bytes_def)
qed

end
