(* ===== verification/Ipa3_Nat_Sent.thy ===== *)
theory Ipa3_Nat_Sent
  imports Ipa3_Nat_Kernel
begin

text \<open>
  What the device is sent for an accepted request: the payloads of table writes and of the initialisation of the NAT tables,
  bit for bit.
\<close>

lemma coal_close_sent:
  assumes "imm_coal_close env pl cap (0, [], k) = Some (0, ps, k')"
  shows "length ps = (if coal_ep pl \<noteq> - 1 \<and> \<not> ulso_wa pl then 1 else 0)"
  using assms imm_push_sent by (fastforce simp: imm_coal_close_def split: if_splits)

lemma finish_sent:
  assumes "imm_finish env (r, ps, k) = (0, k')"
  shows "r = 0 \<and> kenv_send_cmd env ps (k_world k) = (0, k_world k')"
  using assms by (auto simp: imm_finish_def in_world_def Let_def split: prod.splits if_splits)

lemma valid_one_fields:
  assumes "ipa3_table_validate_table_dma_one pl nmi d k = Some 0"
  shows "dma_table_index d = 0" "unat (dma_base_addr d) < 8"
proof -
  show "dma_table_index d = 0"
    using assms by (auto simp: ipa3_table_validate_table_dma_one_def word_le_nat_alt unat_eq_zero [symmetric] simp del: unat_eq_zero split: if_splits)
  have "ipa_nat_ipv6ct_table_type (dma_base_addr d) \<noteq> None"
    using assms by (cases "ipa_nat_ipv6ct_table_type (dma_base_addr d)") (auto simp: ipa3_table_validate_table_dma_one_def split: if_splits)
  then show "unat (dma_base_addr d) < 8" by (auto simp: ipa_nat_ipv6ct_table_type_def split: if_splits)
qed


section \<open>Initialisation\<close>

lemma nat_init_payload:
  assumes pl: "plat_ok pl" and p: "payload_of pl (IPA_IMM_CMD_IP_V4_NAT_INIT c) p"
  shows "pyld_opcode p = 5 \<and> pyld_len p = 40 \<and> unpack (map snd ipa_imm_cmd_hw_ip_v4_nat_init) (pyld_data p) =
    [unat (base_table_addr (table_init c)), unat (expansion_table_addr (table_init c)), unat (index_table_addr c),
     unat (index_table_expansion_addr c), unat (init_table_index (table_init c)) mod 8, 0,
     of_bool (base_table_addr_shared (table_init c)), of_bool (expansion_table_addr_shared (table_init c)),
     of_bool (index_table_addr_shared c), of_bool (index_table_expansion_addr_shared c),
     unat (size_base_table (table_init c)) mod 4096, unat (size_expansion_table (table_init c)) mod 1024, 0,
     unat (public_addr_info c)]"
proof -
  have o: "imm_objs pl (hw_type pl) N_IP_V4_NAT_INIT = imm_obj Construct_ip_v4_nat_init 5"
    using pl hal_imm_v4 [of "hw_type pl" N_IP_V4_NAT_INIT] hal_imm_v3 [of "hw_type pl" N_IP_V4_NAT_INIT]
    by (cases "IPA_HW_v4_0 \<le> hw_type pl") (simp_all add: plat_ok_def)
  define vs where "vs = [unat (base_table_addr (table_init c)), unat (expansion_table_addr (table_init c)), unat (index_table_addr c),
         unat (index_table_expansion_addr c), unat (init_table_index (table_init c)), 0, of_bool (base_table_addr_shared (table_init c)),
         of_bool (expansion_table_addr_shared (table_init c)), of_bool (index_table_addr_shared c),
         of_bool (index_table_expansion_addr_shared c), unat (size_base_table (table_init c)), unat (size_expansion_table (table_init c)), 0,
         unat (public_addr_info c)]"
  have "p = \<lparr>pyld_opcode = 5, pyld_len = struct_bytes ipa_imm_cmd_hw_ip_v4_nat_init, pyld_data = pack_struct ipa_imm_cmd_hw_ip_v4_nat_init vs\<rparr>"
    using p
    by (simp add: payload_of_def ipahal_construct_imm_cmd_def o imm_obj_def ipahal_imm_cmd_get_opcode_def
          ipa_imm_cmd_construct_ip_v4_nat_init_def make_pyld_def vs_def Let_def)
  then have e: "pyld_opcode p = 5" "pyld_len p = struct_bytes ipa_imm_cmd_hw_ip_v4_nat_init" "pyld_data p = pack_struct ipa_imm_cmd_hw_ip_v4_nat_init vs"
    by simp_all
  have u: "unpack (map snd ipa_imm_cmd_hw_ip_v4_nat_init) (pyld_data p) =
      map (\<lambda>(w, v). v mod 2 ^ w) (zip (map snd ipa_imm_cmd_hw_ip_v4_nat_init) vs)"
    unfolding e by (rule unpack_pack_struct) (simp add: ipa_imm_cmd_hw_ip_v4_nat_init_def vs_def)
  have "unat x mod 18446744073709551616 = unat x" for x :: u64 using unsigned_less [of x, where ?'a = nat] by simp
  moreover have "unat x mod 4294967296 = unat x" for x :: u32 using unsigned_less [of x, where ?'a = nat] by simp
  ultimately show ?thesis
    unfolding u by (simp add: e(1,2) ipa_imm_cmd_hw_ip_v4_nat_init_def struct_bytes_def vs_def)
qed

lemma send_init_sent:
  assumes "ipa3_nat_send_init_cmd env pl c z k = Some (0, k')"
  shows "\<exists>pre p post w. kenv_send_cmd env (pre @ p # post) w = (0, k_world k') \<and> payload_of pl (IPA_IMM_CMD_IP_V4_NAT_INIT c) p"
proof -
  let ?cap = IPA_NAT_MAX_NUM_OF_INIT_CMD_DESC
  obtain r1 ps1 k1 r2 ps2 k2 r3 ps3 k3 r4 ps4 k4 where
      1: "imm_coal_close env pl ?cap (0, [], k) = Some (r1, ps1, k1)" and 2: "imm_nop env pl ?cap (r1, ps1, k1) = Some (r2, ps2, k2)"
    and 3: "imm_push env pl ?cap (IPA_IMM_CMD_IP_V4_NAT_INIT c) (- EPERM) (r2, ps2, k2) = Some (r3, ps3, k3)"
    and 4: "(if r3 \<noteq> 0 \<or> hw_type pl < IPA_HW_v4_0 then Some (r3, ps3, k3)
             else if length ps3 \<ge> IPA_NAT_MAX_NUM_OF_INIT_CMD_DESC then Some (- ENOBUFS, ps3, k3)
             else do {
               (r, mem_cmd, k) \<leftarrow> ipa3_nat_create_modify_pdn_cmd pl z k3;
               if r \<noteq> 0 then Some (r, ps3, k)
               else imm_push env pl ?cap (IPA_IMM_CMD_DMA_SHARED_MEM mem_cmd) (- ENOMEM) (0, ps3, k) }) = Some (r4, ps4, k4)"
    and 5: "imm_finish env (r4, ps4, k4) = (0, k')"
    using assms unfolding ipa3_nat_send_init_cmd_def Let_def
    by (auto simp: bind_eq_Some_conv split del: if_split)
  note f = finish_sent [OF 5]
  have "r3 = 0 \<and> (\<exists>post. ps4 = ps3 @ post)"
  proof (cases "r3 \<noteq> 0 \<or> hw_type pl < IPA_HW_v4_0")
    case True
    then show ?thesis using 4 f by auto
  next
    case False
    then obtain mc km where "imm_push env pl ?cap (IPA_IMM_CMD_DMA_SHARED_MEM mc) (- ENOMEM) (0, ps3, km) = Some (0, ps4, k4)"
      using 4 f by (auto simp: bind_eq_Some_conv split: if_splits)
    from imm_push_sent [OF this] show ?thesis using False by auto
  qed
  then obtain post where "r3 = 0" "ps4 = ps3 @ post" by blast
  moreover obtain p where "ps3 = ps2 @ [p]" "payload_of pl (IPA_IMM_CMD_IP_V4_NAT_INIT c) p"
    using imm_push_sent [OF 3 [unfolded \<open>r3 = 0\<close>]] by auto
  ultimately have "ps4 = ps2 @ p # post" "payload_of pl (IPA_IMM_CMD_IP_V4_NAT_INIT c) p" by simp_all
  then show ?thesis using f by metis
qed

lemma init_structure_world:
  "k_world (snd (ipa3_nat_ipv6ct_init_device_structure d nmi a b c e f g fc k)) = k_world k"
  by (cases d) (simp_all add: ipa3_nat_ipv6ct_init_device_structure_def set_loc_def Let_def)

text \<open>The base address the device is given for the tables of a memory.\<close>

definition table_base :: "ipa3_platform \<Rightarrow> ipa3_nat_mem_in \<Rightarrow> 'w ipa3 \<Rightarrow> u64" where
  "table_base pl nmi k = (if nmi = IPA_NAT_MEM_IN_DDR then ml_dma_handle (get_loc nmi k) else ucast (nat_tbl_ofst pl))"

definition init_cmd_of :: "ipa3_platform \<Rightarrow> ipa_ioc_v4_nat_init \<Rightarrow> 'w ipa3 \<Rightarrow> ipahal_imm_cmd_ip_v4_nat_init" where
  "init_cmd_of pl init k = (let i = eff_init k init; nmi = init_mem_type i in
     ipa3_nat_create_init_cmd pl i (nmi \<noteq> IPA_NAT_MEM_IN_DDR) (table_base pl nmi k))"

lemma err_branch: "(if c then Some (- EPERM, k) else m) = Some (0, k') \<Longrightarrow> \<not> c \<and> m = Some (0 :: int, k')"
  by (cases c) simp_all

lemma result_branch: "(if r \<noteq> 0 then Some (r, k) else m) = Some (0, k') \<Longrightarrow> r = (0 :: int) \<and> m = Some (0, k')"
  by (cases "r = 0") simp_all

lemma init_cmd_sent:
  assumes a: "ipa3_nat_init_cmd env pl init k = Some (0, k')"
  shows "init_tbl_index init = 0 \<and>
    (\<exists>pre p post w. kenv_send_cmd env (pre @ p # post) w = (0, k_world k') \<and> payload_of pl (IPA_IMM_CMD_IP_V4_NAT_INIT (init_cmd_of pl init k)) p)"
proof -
  define i where "i = eff_init k init"
  define nmi where "nmi = init_mem_type i"
  define cmd where "cmd = (if nmi = IPA_NAT_MEM_IN_DDR then ipa3_nat_create_init_cmd pl i False (ml_dma_handle (get_loc nmi k))
                     else ipa3_nat_create_init_cmd pl i True (ucast (nat_tbl_ofst pl)))"
  have cmd: "cmd = init_cmd_of pl init k" by (simp add: cmd_def init_cmd_of_def table_base_def i_def nmi_def Let_def)
  note a = a [unfolded ipa3_nat_init_cmd_def Let_def eff_init_def [symmetric] i_def [symmetric] nmi_def [symmetric] cmd_def [symmetric]]
  note a1 = err_branch [OF a] note a2 = err_branch [OF conjunct2 [OF a1]] note a3 = err_branch [OF conjunct2 [OF a2]]
  note a4 = err_branch [OF conjunct2 [OF a3]]
  from a1 have t: "IPA_VALID_TBL_INDEX (init_tbl_index i)" by simp
  from conjunct2 [OF a4] obtain r k1 k2 where s: "ipa3_nat_send_init_cmd env pl cmd False k1 = Some (r, k2)"
      and e: "(if r \<noteq> 0 then Some (r, k2) else case ipa3_nat_ipv6ct_init_device_structure NatDev nmi (ipv4_rules_offset i) (expn_rules_offset i)
                     (init_table_entries i) (init_expn_table_entries i) (index_offset i) (index_expn_offset i) (init_focus_change i) k2 of
              (result, k) \<Rightarrow> Some (if result \<noteq> 0 then (result, k)
                       else (0, k\<lparr>nat_mem := (nat_mem k)\<lparr>nm_public_ip_addr := init_ip_addr i,
                                    nm_dev := (nm_dev (nat_mem k))\<lparr>cm_is_hw_init := True\<rparr>\<rparr>\<rparr>))) = Some (0, k')"
    unfolding bind_eq_Some_conv by (auto dest!: result_branch simp: bind_eq_Some_conv split del: if_split)
  note e = result_branch [OF e]
  have w: "k_world k' = k_world k2"
    using conjunct2 [OF e] init_structure_world [of NatDev nmi "ipv4_rules_offset i" "expn_rules_offset i"
        "init_table_entries i" "init_expn_table_entries i" "index_offset i" "index_expn_offset i" "init_focus_change i" k2]
    by (auto split: prod.splits if_splits)
  note s = s [unfolded conjunct1 [OF e]]
  have "init_tbl_index init = 0" using t by (simp add: IPA_VALID_TBL_INDEX_def i_def eff_init_def split: if_splits)
  then show ?thesis using send_init_sent [OF s] by (simp add: cmd w)
qed

text \<open>C18: the initialisation command of an accepted request carries the addresses of the four tables, each the base of its
  memory plus the offset of the request, their memory type, and in 12 and 10 bits the sizes of the tables: of the number of
  base entries less one the driver keeps the remainder modulo 4096, of the number of expansion entries the remainder modulo
  1024.  So an expansion table of 1024 entries, which the library requests for its largest tables, is announced with size 0.\<close>

theorem kernel_init_sent:
  assumes pl: "plat_ok pl" and a: "ipa3_nat_init_cmd env pl init k = Some (0, k')"
  shows "\<exists>pre p post w. kenv_send_cmd env (pre @ p # post) w = (0, k_world k') \<and> pyld_opcode p = 5 \<and> pyld_len p = 40 \<and>
    (let nmi = init_mem_type (eff_init k init); b = table_base pl nmi k; sh = of_bool (nmi \<noteq> IPA_NAT_MEM_IN_DDR) in
     unpack (map snd ipa_imm_cmd_hw_ip_v4_nat_init) (pyld_data p) =
       [unat (b + ucast (ipv4_rules_offset init)), unat (b + ucast (expn_rules_offset init)), unat (b + ucast (index_offset init)),
        unat (b + ucast (index_expn_offset init)), 0, 0, sh, sh, sh, sh, unat (init_table_entries init) mod 4096,
        unat (init_expn_table_entries init) mod 1024, 0,
        unat (if hw_type pl \<ge> IPA_HW_v4_0 then pdn_config_ofst pl else init_ip_addr init)])"
proof -
  obtain pre p post w where s: "kenv_send_cmd env (pre @ p # post) w = (0, k_world k')" "init_tbl_index init = 0"
      "payload_of pl (IPA_IMM_CMD_IP_V4_NAT_INIT (init_cmd_of pl init k)) p"
    using init_cmd_sent [OF a] by blast
  show ?thesis
    by (rule exI [of _ pre], rule exI [of _ p], rule exI [of _ post], rule exI [of _ w])
       (use s(1,2) nat_init_payload [OF pl s(3)] in \<open>simp add: init_cmd_of_def ipa3_nat_create_init_cmd_def
          ipa3_nat_ipv6ct_create_init_cmd_def eff_init_def Let_def\<close>)
qed

end
