(* ===== verification/Ipa3_Nat_Link.thy ===== *)
theory Ipa3_Nat_Link
  imports Ipa3_Nat_Sent Nat_Api_Ok
begin

text \<open>
  The library on the driver: what the library sends is accepted.  The initialisation of a table by the library makes the
  driver know the library's geometry, and from then on every table write of an addition or deletion passes the driver's
  validation.
\<close>

section \<open>Services that succeed\<close>

definition services_ok :: "'w kernel_env \<Rightarrow> bool" where
  "services_ok env \<longleftrightarrow> (\<forall>w. fst (kenv_kzalloc env w)) \<and> (\<forall>ps w. fst (kenv_send_cmd env ps w) = 0)"

text \<open>The offsets that go into 16-bit fields of commands are that small; otherwise no payload is made.\<close>

definition plat_regs_ok :: "ipa3_platform \<Rightarrow> bool" where
  "plat_regs_ok pl \<longleftrightarrow> force_close_ofst pl AND NOT 0xFFFF = 0 \<and> unat (pdn_config_size pl) < 65536 \<and>
     (ucast (smem_restricted_bytes pl) + pdn_config_ofst pl) AND NOT 0xFFFF = 0"

text \<open>Commands of which a payload is made.\<close>

fun cmd_made :: "ipa3_platform \<Rightarrow> imm_cmd \<Rightarrow> bool" where
  "cmd_made pl (IPA_IMM_CMD_REGISTER_WRITE c) \<longleftrightarrow> IPA_HW_v4_0 \<le> hw_type pl \<longrightarrow> rw_offset c AND NOT 0xFFFF = 0"
| "cmd_made pl (IPA_IMM_CMD_DMA_SHARED_MEM c) \<longleftrightarrow> IPA_HW_v4_0 \<le> hw_type pl \<longrightarrow>
     sm_size c AND NOT 0xFFFF = 0 \<and> sm_local_addr c AND NOT 0xFFFF = 0"
| "cmd_made pl (IPA_IMM_CMD_NAT_DMA _) \<longleftrightarrow> hw_type pl < IPA_HW_v4_0"
| "cmd_made pl (IPA_IMM_CMD_TABLE_DMA _) \<longleftrightarrow> IPA_HW_v4_0 \<le> hw_type pl"
| "cmd_made pl (IPA_IMM_CMD_IP_V6_CT_INIT _) \<longleftrightarrow> IPA_HW_v4_0 \<le> hw_type pl"
| "cmd_made pl (IPA_IMM_CMD_IP_V4_NAT_INIT _) \<longleftrightarrow> True"

lemma make_pyld_ok: "fst (alloc w) \<Longrightarrow> \<exists>p w'. make_pyld alloc op st vs w = (Some p, w')"
  by (cases "alloc w") (simp add: make_pyld_def)

lemma construct_made:
  assumes pl: "plat_ok pl" and c: "cmd_made pl cmd" and al: "fst (alloc w)"
  shows "\<exists>p w'. ipahal_construct_imm_cmd (imm_objs pl) (hw_type pl) alloc cmd w = Some (Some p, w')"
proof -
  note defs = ipa_imm_cmd_construct_ip_v4_nat_init_def ipa_imm_cmd_construct_ip_v6_ct_init_def
        ipa_imm_cmd_construct_register_write_def ipa_imm_cmd_construct_register_write_v_4_0_def ipa_imm_cmd_construct_nat_dma_def
        ipa_imm_cmd_construct_table_dma_ipav4_def ipa_imm_cmd_construct_dma_shared_mem_def ipa_imm_cmd_construct_dma_shared_mem_v_4_0_def
  show ?thesis
  proof (cases "IPA_HW_v4_0 \<le> hw_type pl")
    case True
    then have "imm_objs pl (hw_type pl) = hal_imm_objs (hw_type pl) (hw_type pl)" "hw_type pl < IPA_HW_MAX"
      using pl by (simp_all add: plat_ok_def)
    then show ?thesis using True c make_pyld_ok [of alloc w, OF al]
      by (cases cmd) (simp_all add: ipahal_construct_imm_cmd_def hal_imm_v4 imm_obj_def defs Let_def)
  next
    case False
    then have "imm_objs pl (hw_type pl) = hal_imm_objs (hw_type pl) (hw_type pl)" "IPA_HW_v3_0 \<le> hw_type pl"
      using pl by (simp_all add: plat_ok_def)
    then show ?thesis using False c make_pyld_ok [of alloc w, OF al]
      by (cases cmd) (simp_all add: ipahal_construct_imm_cmd_def hal_imm_v3 imm_obj_def defs Let_def)
  qed
qed

text \<open>A sequence without an error so far.\<close>

definition seq_good :: "'w ipa3 \<Rightarrow> nat \<Rightarrow> 'w imm_seq \<Rightarrow> bool" where
  "seq_good k n s \<longleftrightarrow> fst s = 0 \<and> seq_from k n s"

lemma push_good:
  assumes pl: "plat_ok pl" and c: "cmd_made pl cmd" and env: "services_ok env" and s: "seq_good k n s" "n < cap"
  shows "returns (imm_push env pl cap cmd err s) (seq_good k (n + 1))"
proof -
  obtain ps k' where [simp]: "s = (0, ps, k')" using s(1) by (cases s) (simp add: seq_good_def)
  have f: "length ps \<le> n" "same_driver k k'" "k_pylds k' = k_pylds k + length ps"
    using s(1) by (simp_all add: seq_good_def seq_from_def)
  have "fst (kenv_kzalloc env (k_world k'))" using env by (simp add: services_ok_def)
  from construct_made [OF pl c, of "kenv_kzalloc env" "k_world k'", OF this] obtain p w' where
    "ipahal_construct_imm_cmd (imm_objs pl) (hw_type pl) (kenv_kzalloc env) cmd (k_world k') = Some (Some p, w')" by blast
  then show ?thesis
    using f s(2) by (simp add: imm_push_def construct_imm_def seq_good_def seq_from_def same_driver_def Let_def)
qed

lemma coal_good:
  assumes pl: "plat_ok pl" "plat_regs_ok pl" and env: "services_ok env" and s: "seq_good k n s" "n < cap"
  shows "returns (imm_coal_close env pl cap s) (seq_good k (if coal_ep pl \<noteq> - 1 then n + 1 else n))"
  using push_good [OF pl(1) _ env s] pl(2) s(1)
  by (auto simp: imm_coal_close_def plat_regs_ok_def seq_good_def elim: seq_from_mono)

lemma nop_good:
  assumes "plat_ok pl" "services_ok env" "seq_good k n s" "n < cap"
  shows "returns (imm_nop env pl cap s) (seq_good k (n + 1))"
  unfolding imm_nop_def using assms by (intro push_good) simp_all

lemma dmas_good:
  assumes pl: "plat_ok pl" and env: "services_ok env" and s: "seq_good k n s" "n + length ds \<le> IPA_MAX_NUM_OF_TABLE_DMA_CMD_DESC"
  shows "returns (push_table_dmas env pl ds s) (seq_good k (n + length ds))"
  using s
proof (induction ds arbitrary: n s)
  case (Cons d ds)
  have "cmd_made pl (table_dma_of pl d)" by (simp add: table_dma_of_def)
  from push_good [OF pl this env Cons.prems(1), of IPA_MAX_NUM_OF_TABLE_DMA_CMD_DESC "- ENOMEM"] Cons.prems(2)
  have "returns (imm_push env pl IPA_MAX_NUM_OF_TABLE_DMA_CMD_DESC (table_dma_of pl d) (- ENOMEM) s) (seq_good k (n + 1))" by simp
  moreover have "returns (push_table_dmas env pl ds s') (seq_good k (n + length (d # ds)))" if "seq_good k (n + 1) s'" for s'
    using Cons.IH [OF that] Cons.prems(2) by simp
  ultimately show ?case unfolding push_table_dmas.simps table_dma_of_def [symmetric] by (rule returns_bindI)
qed simp

lemma finish_good:
  assumes "services_ok env" "seq_good k n s"
  shows "\<exists>k'. imm_finish env s = (0, k') \<and> quiet k k'"
proof -
  obtain ps k1 where [simp]: "s = (0, ps, k1)" using assms(2) by (cases s) (simp add: seq_good_def)
  obtain r w where "kenv_send_cmd env ps (k_world k1) = (r, w)" by fastforce
  moreover from this have "r = 0" using assms(1) by (metis fst_conv services_ok_def)
  ultimately have "\<exists>k'. imm_finish env s = (0, k')" by (simp add: imm_finish_def in_world_def Let_def)
  then show ?thesis using quiet_finish [of k n s env] assms(2) by (auto simp: seq_good_def)
qed

section \<open>Table writes of the library\<close>

text \<open>The driver knows the tables of the memory \<open>nmi\<close>: it was initialised with \<open>te\<close> and \<open>xe\<close> entries.\<close>

definition knows :: "ipa3_nat_mem_in \<Rightarrow> nat \<Rightarrow> nat \<Rightarrow> 'w ipa3 \<Rightarrow> bool" where
  "knows nmi te xe k \<longleftrightarrow>
     cm_is_dev_init (nm_dev (nat_mem k)) \<and> cm_is_hw_init (nm_dev (nat_mem k)) \<and> nmi \<noteq> IPA_NAT_MEM_IN_MAX \<and>
     (sram_compatible k \<or> nmi = IPA_NAT_MEM_IN_DDR) \<and>
     unat (ml_table_entries (get_loc nmi k)) + 1 = te \<and> unat (ml_expn_table_entries (get_loc nmi k)) = xe"

text \<open>The tables of the library: their record sizes, and the table number of their commands.\<close>

definition lib_table :: "nat \<Rightarrow> 'e ipa_table \<Rightarrow> bool" where
  "lib_table sz t \<longleftrightarrow> entry_size t = sz \<and> (\<forall>q. VALID_DMA_HELP_TYPE q \<longrightarrow> help_table_indx (the (dma_help t q)) = 0)"

lemma lib_table_shape: "same_shape t t' \<Longrightarrow> lib_table sz t' = lib_table sz t"
  by (simp add: lib_table_def same_shape_def)

lemma validate_accepts:
  assumes pl: "plat_ok pl" and k: "knows nmi te xe k" "te < 65536" "xe < 65536"
    and d: "dma_table_index d = 0" "dma_base_addr d < 4" "unat (dma_offset d) < nat_table_bytes (dma_base_addr d) (get_loc nmi k)"
  shows "ipa3_table_validate_table_dma_one pl nmi d k = Some 0"
proof -
  have te: "unat (ml_table_entries (get_loc nmi k)) < 65535" "unat (ml_expn_table_entries (get_loc nmi k)) < 65536"
    using k by (auto simp: knows_def)
  obtain sz where sz: "ipa3_nat_ipv6ct_calculate_table_size pl nmi (dma_base_addr d) k = Some sz"
      "unat sz = nat_table_bytes (dma_base_addr d) (get_loc nmi k)"
    using table_size_nat [OF pl d(2) te] by blast
  have "\<not> sz \<le> dma_offset d" "sz \<noteq> 0" using d(3) sz(2) by (auto simp: word_le_nat_alt)
  moreover have "\<exists>ty. ipa_nat_ipv6ct_table_type (dma_base_addr d) = Some ty \<and> ty \<noteq> IPA_IPV6CT_BASE_TBL_K \<and> ty \<noteq> IPA_IPV6CT_EXPN_TBL_K"
    using u8_less_4 [OF d(2)] by (auto simp: ipa_nat_ipv6ct_table_type_def)
  moreover have "cm_is_hw_init (nm_dev (nat_mem k))" using k(1) by (simp add: knows_def)
  ultimately show ?thesis using d(1) sz(1) by (auto simp: ipa3_table_validate_table_dma_one_def)
qed

text \<open>A command of one of the library's tables.\<close>

definition lib_cmd :: "ipa_nat_rule ipa_table \<Rightarrow> ipa_nat_indx_tbl_rule ipa_table \<Rightarrow> ipa_ioc_nat_dma_one \<Rightarrow> bool" where
  "lib_cmd t x d \<longleftrightarrow>
     (\<exists>q j v. VALID_DMA_HELP_TYPE q \<and> (d = cmd_one t q j v \<and> j < n_recs t \<or> d = cmd_one x q j v \<and> j < n_recs x))"

lemma cmd_one_inside:
  assumes g: "table_geom bt xt off t" and i: "i < n_recs t" and q: "VALID_DMA_HELP_TYPE q"
  shows "unat (dma_offset (cmd_one t q i v)) < entry_size t * (if table_entries t \<le> i then expn_table_entries t else table_entries t)"
proof -
  define j where "j = (if table_entries t \<le> i then i - table_entries t else i)"
  have "j < (if table_entries t \<le> i then expn_table_entries t else table_entries t)" using i by (auto simp: j_def)
  then have "Suc j * entry_size t \<le> (if table_entries t \<le> i then expn_table_entries t else table_entries t) * entry_size t"
    by (intro mult_le_mono1) simp
  moreover have "off q < entry_size t" by (rule cmd_one_offset(4) [OF g i q])
  ultimately show ?thesis using cmd_one_offset(1) [OF g i q, of v] by (simp add: j_def [symmetric] mult.commute)
qed

lemma lib_cmd_accepted:
  assumes pl: "plat_ok pl" and inv: "nat_inv t x ct cx" and l: "lib_table 32 t" "lib_table 4 x"
    and k: "knows nmi (table_entries t) (expn_table_entries t) k" and d: "lib_cmd t x d"
  shows "ipa3_table_validate_table_dma_one pl nmi d k = Some 0"
proof -
  note gt = inv_geom [OF nat_inv_t [OF inv]] and gx = inv_geom [OF nat_inv_x [OF inv]]
  have b: "table_entries t < 65536" "expn_table_entries t < 65536" using table_geomD [OF gt] by simp_all
  have te: "table_entries x = table_entries t" "expn_table_entries x = expn_table_entries t" using inv by (simp_all add: nat_inv_def)
  have e: "entry_size t = 32" "entry_size x = 4" using l by (simp_all add: lib_table_def)
  have kn: "nat_table_bytes 0 (get_loc nmi k) = 32 * table_entries t" "nat_table_bytes 1 (get_loc nmi k) = 32 * expn_table_entries t"
      "nat_table_bytes 2 (get_loc nmi k) = 4 * table_entries t" "nat_table_bytes 3 (get_loc nmi k) = 4 * expn_table_entries t"
    using k by (simp_all add: nat_table_bytes_def knows_def)
  have idx: "dma_table_index (cmd_one t q i v) = 0" "dma_table_index (cmd_one x q i v) = 0" if "VALID_DMA_HELP_TYPE q" for q i v
    using l that by (simp_all add: lib_table_def cmd_one_def Let_def)
  from d obtain q j v where q: "VALID_DMA_HELP_TYPE q" and "d = cmd_one t q j v \<and> j < n_recs t \<or> d = cmd_one x q j v \<and> j < n_recs x"
    by (auto simp: lib_cmd_def)
  then show ?thesis
  proof (elim disjE conjE)
    assume j: "d = cmd_one t q j v" "j < n_recs t"
    show ?thesis
      by (rule validate_accepts [OF pl k b])
         (use cmd_one_inside [OF gt j(2) q, of v] cmd_one_offset(2) [OF gt j(2) q, of v] e kn idx [OF q] in \<open>simp_all add: j(1) split: if_splits\<close>)
  next
    assume j: "d = cmd_one x q j v" "j < n_recs x"
    show ?thesis
      by (rule validate_accepts [OF pl k b])
         (use cmd_one_inside [OF gx j(2) q, of v] cmd_one_offset(2) [OF gx j(2) q, of v] e te kn idx [OF q] in \<open>simp_all add: j(1) split: if_splits\<close>)
  qed
qed

lemma check_tables_zero: "\<forall>c \<in> set cs. c () = Some 0 \<Longrightarrow> check_tables cs = Some 0"
  by (induction cs) simp_all

lemma dma_cmd_accepted:
  assumes pl: "plat_ok pl" "plat_regs_ok pl" and env: "services_ok env" and k: "knows nmi te xe k"
    and nmi: "cmd_mem_type dma = of_nat (nmi_code nmi)" and n: "1 \<le> length (cmd_dma dma)" "length (cmd_dma dma) \<le> 3"
    and d: "\<forall>d \<in> set (cmd_dma dma). ipa3_table_validate_table_dma_one pl nmi d k = Some 0"
  shows "\<exists>k'. ipa3_table_dma_cmd env pl dma k = Some (0, k') \<and> quiet k k'"
proof -
  have eff: "(if sram_compatible k then nmi_of_u8 (cmd_mem_type dma) else IPA_NAT_MEM_IN_DDR) = nmi"
    using k nmi by (cases nmi) (auto simp: nmi_of_u8_def knows_def)
  have g: "cm_is_dev_init (nm_dev (nat_mem k))" "IPA_VALID_NAT_MEM_IN nmi" using k by (cases nmi; auto simp: knows_def IPA_VALID_NAT_MEM_IN_def)+
  have num: "\<not> length (cmd_dma dma) > max_dma_table_cmds pl - 1" "length (cmd_dma dma) \<noteq> 0"
    using n by (auto simp: max_dma_table_cmds_def IPA_MAX_NUM_OF_TABLE_DMA_CMD_DESC_def)
  let ?c = "IPA_MAX_NUM_OF_TABLE_DMA_CMD_DESC" and ?m = "if coal_ep pl \<noteq> - 1 then 0 + 1 else 0"
  have start: "seq_good k 0 (0, [], k)" by (simp add: seq_good_def seq_from_start)
  have ch: "check_tables (map (\<lambda>d _. ipa3_table_validate_table_dma_one pl nmi d k) (cmd_dma dma)) = Some 0"
    by (rule check_tables_zero) (use d in auto)
  have "returns (imm_coal_close env pl ?c (0, [], k) \<bind> (\<lambda>s. imm_nop env pl ?c s \<bind> push_table_dmas env pl (cmd_dma dma)))
      (seq_good k (?m + 1 + length (cmd_dma dma)))"
  proof (rule returns_bindI [OF coal_good [OF pl env start]])
    fix s assume s: "seq_good k ?m s"
    show "returns (imm_nop env pl ?c s \<bind> push_table_dmas env pl (cmd_dma dma)) (seq_good k (?m + 1 + length (cmd_dma dma)))"
    proof (rule returns_bindI [OF nop_good [OF pl(1) env s]], simp add: IPA_MAX_NUM_OF_TABLE_DMA_CMD_DESC_def)
      fix s' assume "seq_good k (?m + 1) s'"
      then show "returns (push_table_dmas env pl (cmd_dma dma) s') (seq_good k (?m + 1 + length (cmd_dma dma)))"
        by (rule dmas_good [OF pl(1) env]) (use n in \<open>simp add: IPA_MAX_NUM_OF_TABLE_DMA_CMD_DESC_def\<close>)
    qed
  qed (simp add: IPA_MAX_NUM_OF_TABLE_DMA_CMD_DESC_def)
  then obtain s1 s2 s3 where s: "imm_coal_close env pl ?c (0, [], k) = Some s1" "imm_nop env pl ?c s1 = Some s2"
      "push_table_dmas env pl (cmd_dma dma) s2 = Some s3" "seq_good k (?m + 1 + length (cmd_dma dma)) s3"
    by (auto simp: returns_def bind_eq_Some_conv)
  obtain k' where k': "imm_finish env s3 = (0, k')" "quiet k k'" using finish_good [OF env s(4)] by blast
  have "ipa3_table_dma_cmd env pl dma k = Some (0, k')"
    unfolding ipa3_table_dma_cmd_def Let_def eff using g num ch s(1-3) k'(1) by simp
  then show ?thesis using k'(2) by blast
qed

text \<open>The ioctl as the library sees it, with the driver in state \<open>k\<close>: the device is reached only if the driver returns 0.\<close>

definition kernel_guard ::
  "'v kernel_env \<Rightarrow> ipa3_platform \<Rightarrow> 'v ipa3 \<Rightarrow> ('w, 'z) nat_env_scheme \<Rightarrow> ('w, 'z) nat_env_scheme" where
  "kernel_guard kenv pl k env =
     env\<lparr>env_table_dma := (\<lambda>fd cmd tx w.
       case ipa3_table_dma_cmd kenv pl cmd k of
         Some (r, _) \<Rightarrow> if r = 0 then env_table_dma env fd cmd tx w else (- 1, tx, w)
       | None \<Rightarrow> (- 1, tx, w))\<rparr>"

lemma post_kernel_guard:
  assumes "\<exists>k'. ipa3_table_dma_cmd kenv pl (cmd\<lparr>cmd_mem_type := of_nat (nmi_code (cache_nmi c))\<rparr>) k = Some (0, k')"
  shows "ipa_nati_post_ipv4_dma_cmd (kernel_guard kenv pl k env) c cmd tx w = ipa_nati_post_ipv4_dma_cmd env c cmd tx w"
  using assms by (auto simp: ipa_nati_post_ipv4_dma_cmd_def kernel_guard_def)

lemma lib_cmds_pass:
  assumes "plat_ok pl" "plat_regs_ok pl" "services_ok kenv" "nat_inv t x ct cx" "lib_table 32 t" "lib_table 4 x"
    "knows (cache_nmi c) (table_entries t) (expn_table_entries t) k" "ds \<noteq> []" "length ds \<le> 3" "\<forall>d \<in> set ds. lib_cmd t x d"
  shows "\<exists>k'. ipa3_table_dma_cmd kenv pl (dma_cmd_zero\<lparr>cmd_dma := ds, cmd_mem_type := of_nat (nmi_code (cache_nmi c))\<rparr>) k = Some (0, k')"
proof -
  have "1 \<le> length ds" using assms(8) by (cases ds) simp_all
  then show ?thesis
    using dma_cmd_accepted [OF assms(1-3,7), of "dma_cmd_zero\<lparr>cmd_dma := ds, cmd_mem_type := of_nat (nmi_code (cache_nmi c))\<rparr>"] assms(9,10)
      lib_cmd_accepted [OF assms(1,4-7)] by auto
qed

text \<open>C13: the driver accepts every table write of the library.  When the driver was initialised with the sizes of the library's
  tables, an addition and a deletion behave on the driver as if its validation were not there: the tables, offsets and numbers of
  entries of their commands pass all of its checks, with or without a coalescing pipe.\<close>

theorem library_writes_accepted:
  fixes env :: "('w, 'z) nat_env_scheme"
  assumes pl: "plat_ok pl" "plat_regs_ok pl" "services_ok kenv" and inv: "nat_inv t x ct cx" and l: "lib_table 32 t" "lib_table 4 x"
    and k: "knows (cache_nmi c) (table_entries t) (expn_table_entries t) k" and c: "ipa_desc c = Some desc"
    and u: "pdn_in_range pdns u"
  shows "add_ipv4_rule_body (kernel_guard kenv pl k env) c pdns u token t x w = add_ipv4_rule_body env c pdns u token t x w \<and>
    (live t i \<longrightarrow> del_ipv4_rule_body (kernel_guard kenv pl k env) c (ucast (MakeEntryHdl t i)) t x w =
      del_ipv4_rule_body env c (ucast (MakeEntryHdl t i)) t x w)"
proof (intro conjI impI)
  note pass = lib_cmds_pass [OF pl inv l k]
  note it = nat_inv_t [OF inv] and ix = nat_inv_x [OF inv]
  obtain h token1 where h: "nat_slot desc pdns t u token = (h, token1)" by fastforce
  obtain g token2 where g: "indx_slot t u token1 = (g, token2)" by fastforce
  obtain n where n: "1 \<le> n" "n \<le> 12" "table_entries t = 2 ^ n" using nat_inv_pow [OF inv] by blast
  have hr: "unat h < table_entries t" and gr: "unat g < table_entries x"
    using nat_slot_range [OF n h] indx_slot_range [OF n g] nat_inv_te [OF inv] by simp_all
  have it': "nat_tbl.inv pdns t ct" using it unfolding inv_pdns [of pdns] .
  show "add_ipv4_rule_body (kernel_guard kenv pl k env) c pdns u token t x w = add_ipv4_rule_body env c pdns u token t x w"
  proof (cases rule: add_body_shape [OF inv c u h g, where ?'w = 'w and ?'z = 'z])
    case (1 t' tok)
    then show ?thesis by simp
  next
    case (2 i k p e1 v t1 x1 ds dx)
    note a = nat_tbl.add_shape_cmds [OF it' hr 2(2)] and b = indx_tbl.add_shape_cmds [OF ix gr 2(3)]
    have "\<forall>d \<in> set (ds @ dx). lib_cmd t x d" using a(3) b(3) unfolding lib_cmd_def by (metis Un_iff set_append)
    from pass [OF _ add_posted_commands(3) [OF inv hr gr 2(2,3)] this] a(2) show ?thesis by (simp add: 2(5) post_kernel_guard)
  qed
  assume i: "live t i"
  show "del_ipv4_rule_body (kernel_guard kenv pl k env) c (ucast (MakeEntryHdl t i)) t x w =
      del_ipv4_rule_body env c (ucast (MakeEntryHdl t i)) t x w"
  proof (cases rule: del_body_shape [OF inv c i, where ?'w = 'w and ?'z = 'z])
    case (1 ti t1 xit2 dx d m f)
    have "indx_of t i < 65536" by (simp add: indx_of_def unat_u16_less)
    note sh = moves_inv(3) [OF inv 1(2) this]
    obtain q j v where q: "d = cmd_one t1 q j v" "VALID_DMA_HELP_TYPE q" "j < n_recs t1" using 1(4) by blast
    have "d = cmd_one t q j v" "j < n_recs t" using q same_shape_cmd_one [OF sh] same_shape_fields [OF sh] by simp_all
    then have "lib_cmd t x d" using q(2) by (auto simp: lib_cmd_def)
    moreover have "\<forall>d \<in> set dx. lib_cmd t x d" using 1(3) unfolding lib_cmd_def indx_cmds_ok_def by metis
    ultimately have "\<forall>d \<in> set (dx @ [d]). lib_cmd t x d" by simp
    from pass [OF _ 1(1) this] show ?thesis by (simp add: 1(5) post_kernel_guard)
  qed
qed

section \<open>Initialisation by the library\<close>

lemma high_bits_clear: "unat (x :: u32) < 65536 \<Longrightarrow> x AND NOT 0xFFFF = 0"
proof -
  assume "unat x < 65536"
  then have "drop_bit 16 x = 0" by (simp add: drop_bit_eq_div word_unat_eq_iff unat_div_distrib)
  moreover have "x AND NOT (mask 16) = push_bit 16 (drop_bit 16 x)"
    by (rule bit_eqI) (auto simp: bit_and_iff bit_not_iff bit_mask_iff bit_push_bit_iff bit_drop_bit_eq)
  moreover have "(mask 16 :: u32) = 0xFFFF" by (simp add: mask_eq_exp_minus_1)
  ultimately show ?thesis by simp
qed

lemma modify_pdn_good:
  assumes pl: "plat_ok pl" "plat_regs_ok pl" "IPA_HW_v4_0 \<le> hw_type pl" and b: "nm_pdn_base (nat_mem k) \<noteq> 0"
  shows "returns (ipa3_nat_create_modify_pdn_cmd pl z k) (\<lambda>(r, c, k'). r = 0 \<and> quiet k k' \<and> cmd_made pl (IPA_IMM_CMD_DMA_SHARED_MEM c))"
proof -
  obtain n where n: "ipa3_get_max_pdn pl = Some n" "16 * n \<le> unat (pdn_config_size pl)" using plat_max_pdn [OF pl(1,3)] by blast
  have "16 * n < 65536" using n(2) pl(2) by (simp add: plat_regs_ok_def)
  then have "unat (of_nat (16 * n) :: u32) < 65536" using unat_of_nat_u32 [of "16 * n"] by simp
  then have "of_nat (16 * n) AND NOT (0xFFFF :: u32) = 0" by (rule high_bits_clear)
  then show ?thesis
    using b pl n(1) by (simp add: ipa3_nat_create_modify_pdn_cmd_def plat_entry_size quiet_def plat_regs_ok_def Let_def)
qed

lemma seq_good_quiet:
  assumes "seq_good k n (0, ps, k1)" "quiet k1 k2"
  shows "\<exists>k'. quiet k k' \<and> seq_good k' n (0, ps, k2)"
  using seq_from_quiet [of k n 0 ps k1 k2 0] assms by (auto simp: seq_good_def)

lemma send_init_good:
  assumes pl: "plat_ok pl" "plat_regs_ok pl" and env: "services_ok env" and b: "IPA_HW_v4_0 \<le> hw_type pl \<Longrightarrow> nm_pdn_base (nat_mem k) \<noteq> 0"
  shows "\<exists>k'. ipa3_nat_send_init_cmd env pl cmd z k = Some (0, k') \<and> quiet k k'"
proof -
  have start: "seq_good k 0 (0, [], k)" by (simp add: seq_good_def seq_from_start)
  obtain s1 where s1: "imm_coal_close env pl 4 (0, [], k) = Some s1" "seq_good k 1 s1"
    using coal_good [OF pl env start, of 4] seq_from_mono by (fastforce simp: returns_def seq_good_def split: if_splits)
  obtain s2 where s2: "imm_nop env pl 4 s1 = Some s2" "seq_good k 2 s2"
    using nop_good [OF pl(1) env s1(2), of 4] by (auto simp: returns_def numeral_2_eq_2)
  obtain s3 where s3: "imm_push env pl 4 (IPA_IMM_CMD_IP_V4_NAT_INIT cmd) (- EPERM) s2 = Some s3" "seq_good k 3 s3"
    using push_good [OF pl(1) _ env s2(2), of "IPA_IMM_CMD_IP_V4_NAT_INIT cmd" 4 "- EPERM"] by (auto simp: returns_def numeral_3_eq_3)
  obtain ps k1 where [simp]: "s3 = (0, ps, k1)" using s3(2) by (cases s3) (simp add: seq_good_def)
  have q: "length ps \<le> 3" "nm_pdn_base (nat_mem k1) = nm_pdn_base (nat_mem k)"
    using s3(2) by (simp_all add: seq_good_def seq_from_def same_driver_def)
  obtain s4 k0 where s4: "(if hw_type pl < IPA_HW_v4_0 then Some (0, ps, k1)
       else ipa3_nat_create_modify_pdn_cmd pl z k1 \<bind> (\<lambda>(r, mem_cmd, k). if r \<noteq> 0 then Some (r, ps, k)
           else imm_push env pl 4 (IPA_IMM_CMD_DMA_SHARED_MEM mem_cmd) (- ENOMEM) (0, ps, k))) = Some s4" "quiet k k0" "seq_good k0 4 s4"
  proof (cases "hw_type pl < IPA_HW_v4_0")
    case True
    show thesis by (rule that [of s3 k]) (use True s3(2) in \<open>simp_all add: seq_good_def seq_from_def\<close>)
  next
    case False
    then obtain c k2 where c: "ipa3_nat_create_modify_pdn_cmd pl z k1 = Some (0, c, k2)" "quiet k1 k2" "cmd_made pl (IPA_IMM_CMD_DMA_SHARED_MEM c)"
      using modify_pdn_good [OF pl, of k1 z] b q(2) by (auto simp: returns_def)
    obtain k0 where k0: "quiet k k0" "seq_good k0 3 (0, ps, k2)" using seq_good_quiet [OF s3(2) [simplified] c(2)] by blast
    obtain s4 where "imm_push env pl 4 (IPA_IMM_CMD_DMA_SHARED_MEM c) (- ENOMEM) (0, ps, k2) = Some s4" "seq_good k0 4 s4"
      using push_good [OF pl(1) c(3) env k0(2), of 4 "- ENOMEM"] by (auto simp: returns_def)
    then show thesis using that [of s4 k0] False c(1) k0(1) by simp
  qed
  obtain ps4 k4 where [simp]: "s4 = (0, ps4, k4)" using s4(3) by (cases s4) (simp add: seq_good_def)
  obtain k' where k': "imm_finish env s4 = (0, k')" "quiet k0 k'" using finish_good [OF env s4(3)] by blast
  have "ipa3_nat_send_init_cmd env pl cmd z k = Some (0, k')"
    unfolding ipa3_nat_send_init_cmd_def IPA_NAT_MAX_NUM_OF_INIT_CMD_DESC_def Let_def s1(1) bind.bind_lunit s2(1) s3(1)
    using s4(1) k'(1) q(1) by (auto simp: bind_eq_Some_conv split: if_splits)
  then show ?thesis using quiet_trans [OF s4(2) k'(2)] by blast
qed

lemma ct_send_init_good:
  assumes pl: "plat_ok pl" "plat_regs_ok pl" "IPA_HW_v4_0 \<le> hw_type pl" and env: "services_ok env"
  shows "\<exists>k'. ipa3_ipv6ct_send_init_cmd env pl cmd k = Some (0, k') \<and> quiet k k'"
proof -
  have start: "seq_good k 0 (0, [], k)" by (simp add: seq_good_def seq_from_start)
  obtain s1 where s1: "imm_coal_close env pl 3 (0, [], k) = Some s1" "seq_good k 1 s1"
    using coal_good [OF pl(1,2) env start, of 3] seq_from_mono by (fastforce simp: returns_def seq_good_def split: if_splits)
  obtain s2 where s2: "imm_nop env pl 3 s1 = Some s2" "seq_good k 2 s2"
    using nop_good [OF pl(1) env s1(2), of 3] by (auto simp: returns_def numeral_2_eq_2)
  obtain ps k1 where ps: "s2 = (0, ps, k1)" using s2(2) by (cases s2) (simp add: seq_good_def)
  have l: "length ps \<le> 2" using s2(2) by (simp add: ps seq_good_def seq_from_def)
  obtain s3 where s3: "imm_push env pl 3 (IPA_IMM_CMD_IP_V6_CT_INIT cmd) (- EPERM) s2 = Some s3" "seq_good k 3 s3"
    using push_good [OF pl(1) _ env s2(2), of "IPA_IMM_CMD_IP_V6_CT_INIT cmd" 3 "- EPERM"] pl(3) by (auto simp: returns_def numeral_3_eq_3)
  obtain k' where "imm_finish env s3 = (0, k')" "quiet k k'" using finish_good [OF env s3(2)] by blast
  then show ?thesis
    using s1(1) s2(1) s3(1) l by (simp add: ps ipa3_ipv6ct_send_init_cmd_def IPA_IPV6CT_MAX_NUM_OF_INIT_CMD_DESC_def)
qed

lemma check_params_accept:
  assumes e: "nat_entry_size pl ty = Some n" "n \<le> 64" and dev: "\<not> cm_is_ipv6ct_mem (nm_dev (nat_mem k))"
    and f: "unat ofs + n * unat ents \<le> unat (ml_table_alloc_size (get_loc nmi k))" "unat ofs + n * unat ents < 2 ^ 32"
    and h: "nmi = IPA_NAT_MEM_IN_DDR \<Longrightarrow> unat (ml_dma_handle (get_loc nmi k)) + unat ofs < 2 ^ 32 \<or> 2 ^ 32 \<le> unat (ml_dma_handle (get_loc nmi k))"
  shows "ipa3_nat_ipv6ct_check_table_params pl NatDev nmi ofs ents ty k = Some 0"
proof -
  let ?ts = "of_nat n * (ucast ents :: u64)" and ?h = "ml_dma_handle (get_loc nmi k)"
  have b: "unat ents < 65536" using unsigned_less [of ents, where ?'a = nat] by simp
  have "n * unat ents \<le> 64 * 65536" using e(2) b by (intro mult_mono) simp_all
  then have ts: "unat ?ts = n * unat ents"
    using e(2) b by (simp add: unat_word_ariths unsigned_ucast_eq unat_of_nat take_bit_eq_mod)
  have um: "unat UINT_MAX = 4294967295" by (simp add: UINT_MAX_def)
  have sum: "unat (ucast ofs + ?ts) = unat ofs + n * unat ents" using ts f(2) by (simp add: unat_word_ariths(1))
  have "unat (UINT_MAX - ?ts) = 4294967295 - n * unat ents" using ts um f(2) by (simp add: unat_sub word_le_nat_alt)
  then have 1: "\<not> UINT_MAX - ?ts < ucast ofs" using f(2) by (simp add: word_less_nat_alt)
  have 2: "\<not> ml_table_alloc_size (get_loc nmi k) < ucast ofs + ?ts" using f(1) sum by (simp add: word_less_nat_alt)
  have 3: "\<not> UINT_MAX - ?h < ucast ofs" if "nmi = IPA_NAT_MEM_IN_DDR"
  proof (cases "2 ^ 32 \<le> unat ?h")
    case True
    then have "unat (UINT_MAX - ?h) = 2 ^ 64 + 4294967295 - unat ?h" using um by (simp add: unat_sub_if')
    moreover have "unat ?h < 2 ^ 64" "unat ofs < 2 ^ 32" using unsigned_less [of ?h, where ?'a = nat] unsigned_less [of ofs, where ?'a = nat] by simp_all
    ultimately show ?thesis by (simp add: word_less_nat_alt)
  next
    case False
    then have "unat (UINT_MAX - ?h) = 4294967295 - unat ?h" using um by (simp add: unat_sub word_le_nat_alt)
    then show ?thesis using h [OF that] False by (auto simp: word_less_nat_alt)
  qed
  show ?thesis unfolding ipa3_nat_ipv6ct_check_table_params_def e(1) Let_def using dev 1 2 3 by simp
qed

text \<open>The memory the library mapped: large enough for its tables; the bus address of DDR memory does not cross 4 GB, SRAM is mapped
  at an aligned address.\<close>

definition mem_ready :: "ipa3_platform \<Rightarrow> ipa3_nat_mem_in \<Rightarrow> nat \<Rightarrow> 'w ipa3 \<Rightarrow> bool" where
  "mem_ready pl nmi bytes k \<longleftrightarrow>
     nmi \<noteq> IPA_NAT_MEM_IN_MAX \<and> (sram_compatible k \<or> nmi = IPA_NAT_MEM_IN_DDR) \<and> ml_is_mapped (get_loc nmi k) \<and>
     bytes \<le> unat (ml_table_alloc_size (get_loc nmi k)) \<and> (IPA_HW_v4_0 \<le> hw_type pl \<longrightarrow> nm_pdn_base (nat_mem k) \<noteq> 0) \<and>
     (if nmi = IPA_NAT_MEM_IN_DDR
      then unat (ml_dma_handle (get_loc nmi k)) + bytes < 2 ^ 32 \<or> 2 ^ 32 \<le> unat (ml_dma_handle (get_loc nmi k))
      else 32 dvd unat (ml_base_address (get_loc nmi k)))"

lemma aligned_sum:
  assumes d: "2 ^ n dvd unat (a :: u64)" "2 ^ n dvd unat (b :: u32)" "n < 32"
  shows "chk_sram_offset_alignment (a + ucast b) (mask n)"
proof -
  have m: "(ucast (mask n :: u32) :: u64) = mask n"
    by (rule bit_eqI) (use d(3) in \<open>auto simp: bit_ucast_iff bit_mask_iff\<close>)
  have "2 ^ n dvd (unat a + unat b) mod 2 ^ 64"
    by (rule dvd_mod [OF dvd_add [OF d(1,2)] le_imp_power_dvd]) (use d(3) in simp)
  then have "take_bit n (unat (a + ucast b)) = 0"
    by (simp add: unat_word_ariths(1) take_bit_eq_mod)
  then have "unat (take_bit n (a + ucast b)) = 0" by (simp only: unsigned_take_bit_eq)
  then show ?thesis unfolding chk_sram_offset_alignment_def m take_bit_eq_mask [symmetric] by (simp only: unat_eq_zero)
qed

lemma chk_masks: "(31 :: u32) = mask 5" "(3 :: u32) = mask 2"
  by (simp_all add: mask_eq_exp_minus_1)

lemma init_structure_returns_zero:
  assumes nmi: "nmi \<noteq> IPA_NAT_MEM_IN_MAX" and dev: "\<not> cm_is_ipv6ct_mem (nm_dev (nat_mem k))"
    and al: "nmi \<noteq> IPA_NAT_MEM_IN_DDR \<Longrightarrow> 32 dvd unat (ml_base_address (get_loc nmi k))"
    and o: "32 dvd unat o1" "32 dvd unat o2" "4 dvd unat o3" "4 dvd unat o4"
  shows "fst (ipa3_nat_ipv6ct_init_device_structure NatDev nmi o1 o2 te xe o3 o4 fc k) = 0"
proof (cases "nmi = IPA_NAT_MEM_IN_DDR")
  case True
  then show ?thesis using dev by (simp add: ipa3_nat_ipv6ct_init_device_structure_def Let_def)
next
  case False
  let ?b = "ml_base_address (nm_mem_loc (nat_mem k) nmi)"
  have b: "2 ^ 5 dvd unat ?b" "2 ^ 2 dvd unat ?b" using al [OF False] by (auto simp: get_loc_def intro: dvd_trans)
  have "chk_sram_offset_alignment (?b + ucast o1) 31" "chk_sram_offset_alignment (?b + ucast o2) 31"
    "chk_sram_offset_alignment (?b + ucast o3) 3" "chk_sram_offset_alignment (?b + ucast o4) 3"
    unfolding chk_masks by (rule aligned_sum; use b o in simp)+
  then show ?thesis using False dev by (simp add: ipa3_nat_ipv6ct_init_device_structure_def get_loc_def Let_def)
qed

text \<open>The offsets of the library's initialisation command.\<close>

lemma v4_init_offsets:
  assumes inv: "nat_inv (nat_table tbl) (index_table tbl) ct cx" and o: "addr_offset (mem_desc tbl) = 0"
  defines "te \<equiv> table_entries (nat_table tbl)" and "xe \<equiv> expn_table_entries (nat_table tbl)"
  shows "unat (ipv4_rules_offset (v4_init_cmd c tbl ti fc)) = 0" "unat (expn_rules_offset (v4_init_cmd c tbl ti fc)) = 32 * te"
    "unat (index_offset (v4_init_cmd c tbl ti fc)) = 32 * te + 32 * xe"
    "unat (index_expn_offset (v4_init_cmd c tbl ti fc)) = 32 * te + 32 * xe + 4 * te"
    "unat (init_table_entries (v4_init_cmd c tbl ti fc)) = te - 1" "unat (init_expn_table_entries (v4_init_cmd c tbl ti fc)) = xe"
    "2 \<le> te" "te \<le> 4096" "2 \<le> xe" "xe \<le> 4096"
proof -
  note g = table_geomD [OF inv_geom [OF nat_inv_t [OF inv]]]
  show b: "2 \<le> te" "te \<le> 4096" "2 \<le> xe" "xe \<le> 4096" using g by (simp_all add: te_def xe_def)
  have x: "table_entries (index_table tbl) = te" using inv by (simp add: nat_inv_def te_def)
  have "of_nat te - 1 = (of_nat (te - 1) :: u16)" using b(1) by (simp add: of_nat_diff)
  then show "unat (init_table_entries (v4_init_cmd c tbl ti fc)) = te - 1"
    using unat_of_nat_u16 [of "te - 1"] b(2) by (simp add: v4_init_cmd_def te_def Let_def)
  show "unat (init_expn_table_entries (v4_init_cmd c tbl ti fc)) = xe"
    using unat_of_nat_u16 [of xe] b(4) by (simp add: v4_init_cmd_def xe_def Let_def)
  have 2: "expn_rules_offset (v4_init_cmd c tbl ti fc) = of_nat (32 * te)"
    "index_offset (v4_init_cmd c tbl ti fc) = of_nat (32 * te + 32 * xe)"
    "index_expn_offset (v4_init_cmd c tbl ti fc) = of_nat (32 * te + 32 * xe + 4 * te)"
    using o x by (simp_all add: v4_init_cmd_def te_def xe_def Let_def)
  show "unat (ipv4_rules_offset (v4_init_cmd c tbl ti fc)) = 0" using o by (simp add: v4_init_cmd_def Let_def)
  show "unat (expn_rules_offset (v4_init_cmd c tbl ti fc)) = 32 * te"
    "unat (index_offset (v4_init_cmd c tbl ti fc)) = 32 * te + 32 * xe"
    "unat (index_expn_offset (v4_init_cmd c tbl ti fc)) = 32 * te + 32 * xe + 4 * te"
    unfolding 2 by (rule unat_of_nat_u32, use b(2,4) in simp)+
qed

text \<open>The checks of the four tables, for the offsets of the library.\<close>

lemma lib_init_checks:
  assumes pl: "plat_ok pl" and dev: "\<not> cm_is_ipv6ct_mem (nm_dev (nat_mem k))"
    and o: "unat (ipv4_rules_offset i) = 0" "unat (expn_rules_offset i) = 32 * te" "unat (index_offset i) = 32 * te + 32 * xe"
      "unat (index_expn_offset i) = 32 * te + 32 * xe + 4 * te" "unat (init_table_entries i + 1) = te" "unat (init_expn_table_entries i) = xe"
    and b: "te \<le> 4096" "xe \<le> 4096" "36 * (te + xe) \<le> unat (ml_table_alloc_size (get_loc nmi k))"
    and h: "nmi = IPA_NAT_MEM_IN_DDR \<Longrightarrow>
      unat (ml_dma_handle (get_loc nmi k)) + 36 * (te + xe) < 2 ^ 32 \<or> 2 ^ 32 \<le> unat (ml_dma_handle (get_loc nmi k))"
  shows "check_tables
          [\<lambda>_. ipa3_nat_ipv6ct_check_table_params pl NatDev nmi (ipv4_rules_offset i) (init_table_entries i + 1) IPAHAL_NAT_IPV4 k,
           \<lambda>_. ipa3_nat_ipv6ct_check_table_params pl NatDev nmi (expn_rules_offset i) (init_expn_table_entries i) IPAHAL_NAT_IPV4 k,
           \<lambda>_. ipa3_nat_ipv6ct_check_table_params pl NatDev nmi (index_offset i) (init_table_entries i + 1) IPAHAL_NAT_IPV4_INDEX k,
           \<lambda>_. ipa3_nat_ipv6ct_check_table_params pl NatDev nmi (index_expn_offset i) (init_expn_table_entries i) IPAHAL_NAT_IPV4_INDEX k] = Some 0"
proof -
  have acc: "ipa3_nat_ipv6ct_check_table_params pl NatDev nmi ofs ents ty k = Some 0"
    if "nat_entry_size pl ty = Some n" "n \<le> 64" "unat ofs + n * unat ents \<le> 36 * (te + xe)" for ofs ents ty n
    by (rule check_params_accept [OF that(1,2) dev]) (use that(3) b h in auto)
  show ?thesis
    using acc [OF plat_entry_size(1) [OF pl], of "ipv4_rules_offset i" "init_table_entries i + 1"]
      acc [OF plat_entry_size(1) [OF pl], of "expn_rules_offset i" "init_expn_table_entries i"]
      acc [OF plat_entry_size(2) [OF pl], of "index_offset i" "init_table_entries i + 1"]
      acc [OF plat_entry_size(2) [OF pl], of "index_expn_offset i" "init_expn_table_entries i"] o
    by simp
qed

text \<open>The entry of the first PDN.\<close>

lemma first_pdn_good:
  assumes "plat_ok pl" "kinv pl S k"
  obtains k1 where "(if hw_type pl \<ge> IPA_HW_v4_0 \<and> nm_pdn_base (nat_mem k) \<noteq> 0 \<and> \<not> fc
      then construct_pdn_entry pl 0 flds k else Some (0, k)) = Some (0, k1)" "quiet k k1"
proof (cases "hw_type pl \<ge> IPA_HW_v4_0 \<and> nm_pdn_base (nat_mem k) \<noteq> 0 \<and> \<not> fc")
  case True
  then obtain n where n: "ipa3_get_max_pdn pl = Some n" "0 < n" using plat_max_pdn [OF assms(1)] by (metis less_le_trans zero_less_one)
  show thesis using that True construct_pdn_ok [OF assms(1) _ assms(2) _ n, of flds] by (auto simp: returns_def)
next
  case False
  show thesis by (rule that [of k]) (simp_all add: if_not_P [OF False])
qed

lemma init_accepted:
  assumes pl: "plat_ok pl" "plat_regs_ok pl" "services_ok kenv" and inv: "kinv pl S k"
    and t: "nat_inv (nat_table tbl) (index_table tbl) ct cx" "addr_offset (mem_desc tbl) = 0"
    and m: "mem_ready pl (cache_nmi c) (36 * n_recs (nat_table tbl)) k"
  shows "\<exists>k'. ipa3_nat_init_cmd kenv pl (v4_init_cmd c tbl 0 fc) k = Some (0, k') \<and> kinv pl S k' \<and>
    nm_active_table (nat_mem k') = cache_nmi c \<and> knows (cache_nmi c) (table_entries (nat_table tbl)) (expn_table_entries (nat_table tbl)) k'"
proof -
  define i where "i = eff_init k (v4_init_cmd c tbl 0 fc)"
  let ?nmi = "cache_nmi c" and ?te = "table_entries (nat_table tbl)" and ?xe = "expn_table_entries (nat_table tbl)"
  let ?sz = "ml_table_alloc_size (get_loc ?nmi k)"
  note o = v4_init_offsets(1-6) [OF t, of c 0 fc] v4_init_offsets(7-10) [OF t]
  have io: "unat (ipv4_rules_offset i) = 0" "unat (expn_rules_offset i) = 32 * ?te" "unat (index_offset i) = 32 * ?te + 32 * ?xe"
      "unat (index_expn_offset i) = 32 * ?te + 32 * ?xe + 4 * ?te" "unat (init_table_entries i) = ?te - 1" "unat (init_expn_table_entries i) = ?xe"
      "init_tbl_index i = 0"
    using o by (simp_all add: i_def eff_init_def v4_init_cmd_def Let_def)
  have nmi: "init_mem_type i = ?nmi" "?nmi \<noteq> IPA_NAT_MEM_IN_MAX" "ml_is_mapped (get_loc ?nmi k)" "36 * (?te + ?xe) \<le> unat ?sz"
    using m by (auto simp: mem_ready_def i_def eff_init_def v4_init_cmd_def Let_def)
  have te: "init_table_entries i \<noteq> 0" "init_table_entries i \<noteq> 0xFFFF" using io(5) o(7,8) by auto
  note te1 = unat_plus1_u16 [OF te(2), unfolded io(5)]
  have dev: "\<not> cm_is_ipv6ct_mem (nm_dev (nat_mem k))" "cm_is_dev_init (nm_dev (nat_mem k))" using inv by (simp_all add: kinv_def nat_mem_ok_def)
  have h: "?nmi = IPA_NAT_MEM_IN_DDR \<Longrightarrow>
      unat (ml_dma_handle (get_loc ?nmi k)) + 36 * (?te + ?xe) < 2 ^ 32 \<or> 2 ^ 32 \<le> unat (ml_dma_handle (get_loc ?nmi k))"
    using m by (simp add: mem_ready_def)
  have "unat (init_table_entries i + 1) = ?te" using te1 o(7) by simp
  note cs = lib_init_checks [OF pl(1) dev(1) io(1-4) this io(6) o(8,10) nmi(4) h]
  obtain k1 where k1: "(if hw_type pl \<ge> IPA_HW_v4_0 \<and> nm_pdn_base (nat_mem k) \<noteq> 0 \<and> \<not> init_focus_change i
      then construct_pdn_entry pl 0 \<lparr>hal_public_ip = init_ip_addr i, hal_src_metadata = 0, hal_dst_metadata = 0\<rparr> k else Some (0, k)) = Some (0, k1)"
      "quiet k k1" by (rule first_pdn_good [OF pl(1) inv])
  define cmd where "cmd = (if ?nmi = IPA_NAT_MEM_IN_DDR then ipa3_nat_create_init_cmd pl i False (ml_dma_handle (get_loc ?nmi k))
                     else ipa3_nat_create_init_cmd pl i True (ucast (nat_tbl_ofst pl)))"
  have "IPA_HW_v4_0 \<le> hw_type pl \<Longrightarrow> nm_pdn_base (nat_mem k1) \<noteq> 0" using m k1(2) by (simp add: mem_ready_def quiet_nat_mem)
  from send_init_good [OF pl this, of cmd False] obtain k2 where k2: "ipa3_nat_send_init_cmd kenv pl cmd False k1 = Some (0, k2)" "quiet k1 k2" by blast
  have q: "quiet k k2" using k1(2) k2(2) by (rule quiet_trans)
  obtain r3 k3 where k3: "ipa3_nat_ipv6ct_init_device_structure NatDev ?nmi (ipv4_rules_offset i) (expn_rules_offset i)
         (init_table_entries i) (init_expn_table_entries i) (index_offset i) (index_expn_offset i) (init_focus_change i) k2 = (r3, k3)" by fastforce
  have "fst (ipa3_nat_ipv6ct_init_device_structure NatDev ?nmi (ipv4_rules_offset i) (expn_rules_offset i)
         (init_table_entries i) (init_expn_table_entries i) (index_offset i) (index_expn_offset i) (init_focus_change i) k2) = 0"
    by (rule init_structure_returns_zero [OF nmi(2)])
       (use dev(1) m io q in \<open>auto simp: quiet_nat_mem get_loc_def mem_ready_def intro!: dvd_add\<close>)
  then have r3: "r3 = 0" by (simp add: k3)
  have sc: "sram_compatible k3 = sram_compatible k"
    using arg_cong [OF k3, of "\<lambda>x. sram_compatible (snd x)"] q
    by (simp add: ipa3_nat_ipv6ct_init_device_structure_def set_loc_def quiet_nat_mem Let_def split: if_splits)
  have valid: "IPA_VALID_NAT_MEM_IN ?nmi" using nmi(2) by (cases ?nmi) (simp_all add: IPA_VALID_NAT_MEM_IN_def)
  define k' where "k' = k3\<lparr>nat_mem := (nat_mem k3)\<lparr>nm_public_ip_addr := init_ip_addr i, nm_dev := (nm_dev (nat_mem k3))\<lparr>cm_is_hw_init := True\<rparr>\<rparr>\<rparr>"
  have ret: "ipa3_nat_init_cmd kenv pl (v4_init_cmd c tbl 0 fc) k = Some (0, k')"
    unfolding ipa3_nat_init_cmd_def Let_def eff_init_def [symmetric] i_def [symmetric] nmi(1) cmd_def [symmetric] cs
      bind.bind_lunit k1(1) prod.case k2(1) k3 k'_def
    using nmi(2,3) te io(7) r3 valid by (simp add: IPA_VALID_TBL_INDEX_def cs del: check_tables.simps)
  from returnsD [OF nat_init_ok [OF pl(1) inv] ret] nmi(1)
  have "kinv pl S k'" "cm_is_hw_init (nm_dev (nat_mem k'))" "nm_active_table (nat_mem k') = ?nmi"
    "ml_table_entries (get_loc ?nmi k') = ucast (init_table_entries i)" "ml_expn_table_entries (get_loc ?nmi k') = ucast (init_expn_table_entries i)"
    by (simp_all add: i_def Let_def) (simp_all add: eff_init_def)
  moreover from this have "knows ?nmi ?te ?xe k'"
    using nmi(2) m sc io(5,6) o(7) by (auto simp: knows_def kinv_def nat_mem_ok_def mem_ready_def k'_def)
  ultimately show ?thesis using ret by blast
qed

text \<open>C16: the driver accepts the initialisation of the library's tables.  On mapped memory of the size the library asked for, the
  command passes all checks, and afterwards the driver knows the geometry of the library's tables and this memory is the active
  one.\<close>

theorem library_init_accepted:
  assumes pl: "plat_ok pl" "plat_regs_ok pl" "services_ok kenv" and inv: "kinv pl S k"
    and t: "nat_inv (nat_table tbl) (index_table tbl) ct cx" "addr_offset (mem_desc tbl) = 0"
    and m: "mem_ready pl (cache_nmi c) (36 * n_recs (nat_table tbl)) k"
  shows "\<exists>k'. ipa3_nat_init_cmd kenv pl (v4_init_cmd c tbl 0 fc) k = Some (0, k') \<and> kinv pl S k' \<and>
    nm_active_table (nat_mem k') = cache_nmi c \<and> knows (cache_nmi c) (table_entries (nat_table tbl)) (expn_table_entries (nat_table tbl)) k'"
  using init_accepted [OF assms] .

text \<open>The tables the library creates are such tables.\<close>

lemma calculate_entries_size: "entry_size (snd (ipa_table_calculate_entries_num t n nmi)) = entry_size t"
  by (simp add: ipa_table_calculate_entries_num_def Let_def)

lemma create_table_lib:
  assumes c: "ipa_nati_create_table env c tbl ip n 0 w = Some (0, tbl', w')" and al: "alloc_at_base env"
  shows "lib_table 32 (nat_table tbl') \<and> lib_table 4 (index_table tbl') \<and> addr_offset (mem_desc tbl') = 0"
proof -
  let ?t0 = "ipa_table_init ''IPA NAT table'' (cache_nmi c) 32 None 0 :: ipa_nat_rule ipa_table"
  obtain r1 t1 where t1: "ipa_table_calculate_entries_num ?t0 n (cache_nmi c) = (r1, t1)" by fastforce
  have e1: "entry_size t1 = 32" using calculate_entries_size [of ?t0 n "cache_nmi c"] unfolding t1 by (simp add: ipa_table_init_def)
  define x1 :: "ipa_nat_indx_tbl_rule ipa_table" where
    "x1 = (ipa_table_init ''IPA NAT index table'' (cache_nmi c) 4 (Some (replicate (expn_table_entries t1) 0)) 2)
            \<lparr>table_entries := table_entries t1, expn_table_entries := expn_table_entries t1, tot_tbl_ents := tot_tbl_ents t1\<rparr>"
  obtain ok w1 where ca: "env_calloc env (expn_table_entries t1 * 2) w = (ok, w1)" by fastforce
  have r1: "r1 = 0" using c by (auto simp: ipa_nati_create_table_def t1 Let_def split: if_splits)
  have ok: "ok" using c by (auto simp: ipa_nati_create_table_def t1 r1 ca Let_def split: if_splits)
  define md0 where "md0 = ipa_mem_descriptor_init (mem_desc tbl) ''ipaNatTable''
        (int (ipa_table_calculate_size t1) + int (ipa_table_calculate_size x1)) 0 table_ioctl.IPA_IOC_ALLOC_NAT_TABLE table_ioctl.IPA_IOC_DEL_NAT_TABLE True"
  obtain desc where d: "ipa_desc c = Some desc" using c by (auto simp: ipa_nati_create_table_def t1 r1 ca ok Let_def bind_eq_Some_conv)
  obtain r2 md w2 where m: "ipa_mem_descriptor_allocate_memory env md0 (desc_fd desc) w1 = (r2, md, w2)"
    by (cases "ipa_mem_descriptor_allocate_memory env md0 (desc_fd desc) w1")
  have r2: "r2 = 0" and b: "\<exists>base. base_addr md = Some base \<and> tbl' = ipa_nati_create_table_dma_cmd_helpers (tbl\<lparr>public_addr := ip, mem_desc := md,
       nat_table := ipa_table_reset nat_ei (snd (ipa_table_calculate_addresses t1 base)),
       index_table := ipa_table_reset indx_ei (snd (ipa_table_calculate_addresses x1 (fst (ipa_table_calculate_addresses t1 base))))\<rparr>) 0"
    using c d m
    by (auto simp: ipa_nati_create_table_def t1 r1 ca ok md0_def [symmetric] x1_def [symmetric] bind_eq_Some_conv split_beta split: if_splits)
  note a = allocate_memory_ok [OF al m [unfolded r2]]
  show ?thesis
    using b a(2) e1
    by (auto simp: create_helpers lib_table_def with_helpers_def ipa_table_dma_cmd_helper_init_def ipa_table_reset_def
          ipa_table_calculate_addresses_def x1_def ipa_table_init_def)
qed

end
