(* ===== verification/Ipa3_Nat_Demo.thy ===== *)
theory Ipa3_Nat_Demo
  imports Ipa3_Nat_Link Nat_Demo
begin

text \<open>
  A concrete kernel whose services succeed, a platform of version 4.5 and a run of the driver: allocation of table memory,
  mapping, initialisation for the tables of \<open>demo_cache\<close> and a table write.  The properties of the driver are applied to it.
\<close>

definition kdemo_env :: "unit kernel_env" where
  "kdemo_env =
     \<lparr>kenv_kzalloc = (\<lambda>w. (True, w)), kenv_dma_alloc_coherent = (\<lambda>sz w. (0x10000, 0x80000000, w)),
      kenv_ioremap = (\<lambda>a sz w. (0x20000, w)), kenv_dma_mmap_coherent = (\<lambda>vs v h sz w. (0, w)),
      kenv_vm_iomap_memory = (\<lambda>vs a sz w. (0, w)), kenv_class_create = (\<lambda>s w. (True, w)),
      kenv_alloc_chrdev_region = (\<lambda>s w. (0, w)), kenv_device_create = (\<lambda>s w. (True, w)), kenv_cdev_add = (\<lambda>s w. (0, w)),
      kenv_send_cmd = (\<lambda>ps w. (0, w)), kenv_copy_user = (\<lambda>w. (True, w)), kenv_memdup_user = (\<lambda>w. (0, w))\<rparr>"

definition kdemo_pl :: ipa3_platform where
  "kdemo_pl =
     \<lparr>hw_type = 17, nat_objs = hal_nat_objs 17, imm_objs = hal_imm_objs 17, nat_tbl_ofst = 0x1800, nat_tbl_size = 0x800,
      pdn_config_ofst = 0x9F8, pdn_config_size = 0x50, ipa_wrapper_base = 0x1E00000, ipa_reg_base_ofst = 0x40000,
      sram_direct_ofst = 0x10000, smem_restricted_bytes = 0x280, coal_ep = 19, ulso_wa = False, force_close_ofst = 0xC18,
      force_close_val = 0x80000, force_close_mask = 0xFFFFFFFF\<rparr>"

definition kdemo_dev :: ipa3_nat_ipv6ct_common_mem where
  "kdemo_dev = cm_zero\<lparr>cm_is_dev_init := True, cm_tmp_mem := Some \<lparr>tmp_vaddr = 0x10000, tmp_dma_handle = 0x80000000\<rparr>\<rparr>"

definition kdemo_started :: "unit ipa3" where
  "kdemo_started = (ipa3_zero ())
     \<lparr>nat_mem := nm_zero\<lparr>nm_is_tmp_mem_allocated := True,
        nm_dev := kdemo_dev\<lparr>cm_name := ''ipaNatTable'', cm_is_nat_mem := True, cm_phys_mem_size := 0x800, cm_phys_mem_ofst := 0x1800\<rparr>\<rparr>,
      ipv6ct_dev := kdemo_dev\<lparr>cm_name := ''ipaIpv6CTTable'', cm_is_ipv6ct_mem := True\<rparr>,
      k_ledger := [Cdev ''ipaIpv6CTTable'', DeviceNode ''ipaIpv6CTTable'', ChrdevRegion ''ipaIpv6CTTable'', DevClass ''ipaIpv6CTTable'',
        Cdev ''ipaNatTable'', DeviceNode ''ipaNatTable'', ChrdevRegion ''ipaNatTable'', DevClass ''ipaNatTable'', DmaMem 0x10000 0x80000000 128, TmpStruct]\<rparr>"

lemma kdemo_start: "ipa3_nat_ipv6ct_init_devices kdemo_env kdemo_pl (ipa3_zero ()) = Some (0, kdemo_started)"
  by (simp add: ipa3_nat_ipv6ct_init_devices_def ipa3_nat_ipv6ct_allocate_tmp_memory_def ipa3_nat_ipv6ct_init_device_def
        in_world_def dma_alloc_coherent_def acquire_def IPA_DEV_NAME_MAX_LEN_def kdemo_env_def kdemo_pl_def kdemo_started_def kdemo_dev_def
        ipa3_zero_def nm_zero_def cm_zero_def IPA_NAT_IPV6CT_TEMP_MEM_SIZE_def IPA_HW_v4_0_def)

lemma kdemo_plat: "plat_ok kdemo_pl" "plat_regs_ok kdemo_pl" "services_ok kdemo_env"
  by (simp_all add: plat_ok_def plat_regs_ok_def services_ok_def kdemo_pl_def kdemo_env_def IPA_HW_MAX_def IPA_HW_v3_0_def IPA_HW_v4_0_def)

definition kdemo_loc :: ipa3_nat_mem_loc_data where
  "kdemo_loc = loc_zero\<lparr>ml_table_alloc_size := 144, ml_vaddr := 0x10000, ml_dma_handle := 0x80000000\<rparr>"

definition kdemo_alloced :: "unit ipa3" where
  "kdemo_alloced = kdemo_started
     \<lparr>nat_mem := (nat_mem kdemo_started)\<lparr>nm_ddr_in_use := True, nm_last_alloc_loc := IPA_NAT_MEM_IN_DDR,
        nm_mem_loc := (\<lambda>_. loc_zero)(IPA_NAT_MEM_IN_DDR := kdemo_loc), nm_pdn_size := 80, nm_pdn_base := 0x10000,
        nm_pdn_phys_base := 0x80000000, nm_pdn_table := replicate 5 0\<rparr>,
      k_ledger := [DmaMem 0x10000 0x80000000 80, DmaMem 0x10000 0x80000000 144] @ k_ledger kdemo_started\<rparr>"

definition kdemo_mapped :: "unit ipa3" where
  "kdemo_mapped = set_loc IPA_NAT_MEM_IN_DDR (kdemo_loc\<lparr>ml_base_address := 0x10000, ml_is_mapped := True\<rparr>) kdemo_alloced"

lemmas kdemo_defs = kdemo_env_def kdemo_pl_def kdemo_started_def kdemo_dev_def kdemo_loc_def ipa3_zero_def nm_zero_def cm_zero_def loc_zero_def
  IPA_HW_v4_0_def

lemma kdemo_alloc: "ipa3_nat_ioctl kdemo_env kdemo_pl (IPA_IOC_ALLOC_NAT_TABLE 144 0) kdemo_started = Some (0, kdemo_alloced)"
  using plat_entry_size [OF kdemo_plat(1)]
  by (simp add: handled_def copied_back_def ipa3_allocate_nat_table_def ipa3_nat_ipv6ct_allocate_mem_def allocate_nat_mem_def
        ipa3_get_max_pdn_def in_world_def dma_alloc_coherent_def acquire_def set_loc_def get_loc_def MAX_ALLOC_NAT_SIZE_def
        IPA3_TABLE_MAX_ENTRIES_def kdemo_alloced_def kdemo_defs)

lemma kdemo_mmap: "ipa3_nat_ioctl kdemo_env kdemo_pl (MMAP NatDev 4096) kdemo_alloced = Some (0, kdemo_mapped)"
  by (simp add: ipa3_nat_ipv6ct_mmap_def in_world_def IPA_VALID_NAT_MEM_IN_def get_loc_def set_loc_def kdemo_mapped_def kdemo_alloced_def kdemo_defs)

lemma kdemo_reach: "G (IPA_IOC_ALLOC_NAT_TABLE 144 0) kdemo_started \<Longrightarrow> G (MMAP NatDev 4096) kdemo_alloced \<Longrightarrow> kreach kdemo_env kdemo_pl G kdemo_mapped"
  by (rule kreach_step [OF kreach_step [OF kreach_init [OF kdemo_start] _ kdemo_alloc] _ kdemo_mmap])

lemma demo_geometry: "table_entries (nat_table demo_tbl) = 2" "expn_table_entries (nat_table demo_tbl) = 2" "addr_offset (mem_desc demo_tbl) = 0"
  by (simp_all add: demo_tbl_def create_helpers with_helpers_def ipa_table_reset_def ipa_table_calculate_addresses_def demo_t_def ipa_table_init_def
        demo_md_def mem_desc_zero_def)

lemma kdemo_ready: "mem_ready kdemo_pl (cache_nmi demo_cache) (36 * n_recs (nat_table demo_tbl)) kdemo_mapped"
  by (simp add: mem_ready_def demo_geometry demo_cache_def kdemo_mapped_def kdemo_alloced_def set_loc_def get_loc_def kdemo_defs)

text \<open>The initialised state, and a write to its tables.\<close>

definition kdemo_write :: ipa_ioc_nat_dma_cmd where
  "kdemo_write = \<lparr>cmd_mem_type = 0, cmd_dma = [\<lparr>dma_table_index = 0, dma_base_addr = 0, dma_offset = 46, dma_data = 7\<rparr>]\<rparr>"

lemma kdemo_copy: "in_world (kenv_copy_user kdemo_env) k = (True, k)"
  by (cases k) (simp add: in_world_def kdemo_env_def)

lemma kdemo_inited:
  assumes G: "\<And>rq k. G rq k"
  obtains k1 where "kreach kdemo_env kdemo_pl G k1" "knows IPA_NAT_MEM_IN_DDR 2 2 k1" "nm_active_table (nat_mem k1) = IPA_NAT_MEM_IN_DDR"
    "ipa3_nat_init_cmd kdemo_env kdemo_pl (v4_init_cmd demo_cache demo_tbl 0 False) kdemo_mapped = Some (0, k1)"
proof -
  have r: "kreach kdemo_env kdemo_pl G kdemo_mapped" by (rule kdemo_reach) (rule G)+
  obtain S where "kinv kdemo_pl S kdemo_mapped" using kreach_inv [OF r kdemo_plat(1)] by blast
  from init_accepted [OF kdemo_plat this demo_inv demo_geometry(3) kdemo_ready, of False] obtain k1 where
    k1: "ipa3_nat_init_cmd kdemo_env kdemo_pl (v4_init_cmd demo_cache demo_tbl 0 False) kdemo_mapped = Some (0, k1)"
      "nm_active_table (nat_mem k1) = IPA_NAT_MEM_IN_DDR" "knows IPA_NAT_MEM_IN_DDR 2 2 k1"
    by (auto simp: demo_geometry demo_cache_def)
  have "ipa3_nat_ioctl kdemo_env kdemo_pl (IPA_IOC_V4_INIT_NAT (v4_init_cmd demo_cache demo_tbl 0 False)) kdemo_mapped = Some (0, k1)"
    using k1(1) by (simp add: handled_def kdemo_copy)
  from kreach_step [OF r G this] k1 show thesis using that by blast
qed

lemma kdemo_written:
  assumes k: "knows IPA_NAT_MEM_IN_DDR 2 2 k"
  obtains k' where "ipa3_table_dma_cmd kdemo_env kdemo_pl kdemo_write k = Some (0, k')"
proof -
  have "ml_table_entries (get_loc IPA_NAT_MEM_IN_DDR k) = 1" using k by (simp add: knows_def word_unat_eq_iff)
  then have "ipa3_table_validate_table_dma_one kdemo_pl IPA_NAT_MEM_IN_DDR d k = Some 0" if "d \<in> set (cmd_dma kdemo_write)" for d
    using that by (intro validate_accepts [OF kdemo_plat(1) k]) (simp_all add: kdemo_write_def nat_table_bytes_def)
  then show thesis using dma_cmd_accepted [OF kdemo_plat k, of kdemo_write] that by (auto simp: kdemo_write_def)
qed


section \<open>Connection tracking tables of 65536 entries\<close>

definition kdemo_ct_init :: ipa_ioc_ipv6ct_init where
  "kdemo_ct_init = \<lparr>ct_base_table_offset = 0, ct_expn_table_offset = 0, ct_init_table_entries = 0xFFFF, ct_init_expn_table_entries = 0, ct_tbl_index = 0\<rparr>"

definition kdemo_ct_mapped :: "unit ipa3" where
  "kdemo_ct_mapped = kdemo_started
     \<lparr>ipv6ct_dev := (ipv6ct_dev kdemo_started)\<lparr>cm_table_alloc_size := 64, cm_vaddr := 0x10000, cm_dma_handle := 0x80000000,
        cm_base_address := 0x10000, cm_is_mapped := True\<rparr>,
      k_ledger := DmaMem 0x10000 0x80000000 64 # k_ledger kdemo_started\<rparr>"

lemma kdemo_ct_reach: "kreach kdemo_env kdemo_pl (\<lambda>_ _. True) kdemo_ct_mapped"
proof -
  let ?k = "kdemo_started\<lparr>ipv6ct_dev := (ipv6ct_dev kdemo_started)\<lparr>cm_table_alloc_size := 64, cm_vaddr := 0x10000, cm_dma_handle := 0x80000000\<rparr>,
      k_ledger := DmaMem 0x10000 0x80000000 64 # k_ledger kdemo_started\<rparr>"
  have "ipa3_nat_ioctl kdemo_env kdemo_pl (IPA_IOC_ALLOC_IPV6CT_TABLE 64 0) kdemo_started = Some (0, ?k)"
    using plat_entry_size(4) [OF kdemo_plat(1)]
    by (simp add: handled_def copied_back_def ipa3_allocate_ipv6ct_table_def ipa3_nat_ipv6ct_allocate_mem_def allocate_ipv6ct_mem_def
          in_world_def dma_alloc_coherent_def acquire_def MAX_ALLOC_NAT_SIZE_def IPA3_TABLE_MAX_ENTRIES_def kdemo_defs)
  moreover have "ipa3_nat_ioctl kdemo_env kdemo_pl (MMAP Ipv6ctDev 4096) ?k = Some (0, kdemo_ct_mapped)"
    by (simp add: ipa3_nat_ipv6ct_mmap_def in_world_def kdemo_ct_mapped_def kdemo_defs)
  ultimately show ?thesis by (blast intro: kreach_step [OF kreach_step [OF kreach_init [OF kdemo_start]]])
qed

text \<open>C21: the number of entries of a connection tracking table is incremented in 16 bits before its size is checked, so
  that 65536 entries pass as none.  On memory for one entry, such an initialisation is accepted and from then on a table write
  four megabytes less two bytes behind the start of the table passes the validation.  (For NAT tables 65536 entries are refused.)\<close>

theorem ipv6ct_size_wraps:
  "\<exists>k. kreach kdemo_env kdemo_pl (\<lambda>_ _. True) k \<and> cm_is_hw_init (ipv6ct_dev k) \<and> cm_table_alloc_size (ipv6ct_dev k) = 64 \<and>
     ipa3_table_validate_table_dma_one kdemo_pl IPA_NAT_MEM_IN_DDR
       \<lparr>dma_table_index = 0, dma_base_addr = 4, dma_offset = 0x3FFFFE, dma_data = 7\<rparr> k = Some 0"
proof -
  have v: "IPA_HW_v4_0 \<le> hw_type kdemo_pl" by (simp add: kdemo_defs)
  note sz = plat_entry_size(4) [OF kdemo_plat(1) v]
  have dev: "cm_is_ipv6ct_mem (ipv6ct_dev kdemo_ct_mapped)" "cm_is_mapped (ipv6ct_dev kdemo_ct_mapped)"
    "cm_table_alloc_size (ipv6ct_dev kdemo_ct_mapped) = 64" "cm_dma_handle (ipv6ct_dev kdemo_ct_mapped) = 0x80000000"
    by (simp_all add: kdemo_ct_mapped_def kdemo_defs)
  obtain k1 where k1: "ipa3_ipv6ct_send_init_cmd kdemo_env kdemo_pl
       (ipa3_nat_ipv6ct_create_init_cmd False (cm_dma_handle (ipv6ct_dev kdemo_ct_mapped)) 0 0 0 0xFFFF 0) kdemo_ct_mapped = Some (0, k1)"
      "quiet kdemo_ct_mapped k1"
    using ct_send_init_good [OF kdemo_plat(1,2) v kdemo_plat(3)] by blast
  define k where "k = k1\<lparr>ipv6ct_dev := (ipv6ct_dev k1)\<lparr>cm_base_table_addr := cm_base_address (ipv6ct_dev k1),
      cm_expansion_table_addr := cm_base_address (ipv6ct_dev k1), cm_table_entries := 0xFFFF, cm_expn_table_entries := 0, cm_is_hw_init := True\<rparr>\<rparr>"
  have ct: "ipv6ct_dev k1 = ipv6ct_dev kdemo_ct_mapped" using k1(2) by (simp add: quiet_def)
  have "ipa3_ipv6ct_init_cmd kdemo_env kdemo_pl kdemo_ct_init kdemo_ct_mapped = Some (0, k)"
    using v dev k1(1) ct
    by (simp add: ipa3_ipv6ct_init_cmd_def kdemo_ct_init_def IPA_VALID_TBL_INDEX_def ipa3_nat_ipv6ct_check_table_params_def sz UINT_MAX_def
          ipa3_nat_ipv6ct_init_device_structure_def k_def Let_def)
  then have "ipa3_nat_ioctl kdemo_env kdemo_pl (IPA_IOC_INIT_IPV6CT_TABLE kdemo_ct_init) kdemo_ct_mapped = Some (0, k)"
    by (simp add: handled_def kdemo_copy)
  from kreach_step [OF kdemo_ct_reach _ this] have "kreach kdemo_env kdemo_pl (\<lambda>_ _. True) k" by simp
  moreover have "cm_is_hw_init (ipv6ct_dev k)" "cm_table_alloc_size (ipv6ct_dev k) = 64" using ct dev by (simp_all add: k_def)
  ultimately show ?thesis
    using v by (intro exI [of _ k]) (simp add: ipa3_table_validate_table_dma_one_def ipa_nat_ipv6ct_table_type_def
        ipa3_nat_ipv6ct_calculate_table_size_def sz k_def)
qed

section \<open>Witnesses\<close>

theorem kernel_requests_safe_witness:
  "\<exists>r k'. ipa3_nat_ioctl kdemo_env kdemo_pl (IPA_IOC_V4_INIT_NAT (v4_init_cmd demo_cache demo_tbl 0 False)) kdemo_mapped = Some (r, k') \<and>
     k_pylds k' = 0 \<and> owned_nat (nat_mem k') + owned_ct (ipv6ct_dev k') \<subseteq># mset (k_ledger k')"
  using kernel_requests_safe [OF kdemo_plat(1) kdemo_reach [of "\<lambda>_ _. True"],
      of "IPA_IOC_V4_INIT_NAT (v4_init_cmd demo_cache demo_tbl 0 False)"] by auto

theorem kernel_no_leak_witness:
  "\<exists>tmp. mset (k_ledger kdemo_mapped) = driver_res kdemo_pl tmp + owned_nat (nat_mem kdemo_mapped) + owned_ct (ipv6ct_dev kdemo_mapped)"
  using kernel_no_leak [OF kdemo_plat(1) kdemo_reach [of ct_once]] by (auto simp: ct_once_def)

theorem kernel_writes_contained_witness:
  "\<exists>k k'. kreach kdemo_env kdemo_pl (\<lambda>_ _. True) k \<and> ipa3_table_dma_cmd kdemo_env kdemo_pl kdemo_write k = Some (0, k') \<and>
     (let l = get_loc IPA_NAT_MEM_IN_DDR k in fits (ml_base_address l) (ml_table_alloc_size l) (ml_base_table_addr l) 48)"
proof (rule kdemo_inited [of "\<lambda>_ _. True"])
  fix k assume k: "kreach kdemo_env kdemo_pl (\<lambda>_ _. True) k" "knows IPA_NAT_MEM_IN_DDR 2 2 k" "nm_active_table (nat_mem k) = IPA_NAT_MEM_IN_DDR"
  obtain k' where k': "ipa3_table_dma_cmd kdemo_env kdemo_pl kdemo_write k = Some (0, k')" by (rule kdemo_written [OF k(2)])
  then show ?thesis
    using kernel_writes_contained [OF kdemo_plat(1) k(1) k', of "hd (cmd_dma kdemo_write)"] k
    by (auto simp: kdemo_write_def nat_table_at_def nmi_of_u8_def Let_def)
qed simp


theorem kernel_init_sent_witness:
  "\<exists>k' pre p post w. ipa3_nat_init_cmd kdemo_env kdemo_pl (v4_init_cmd demo_cache demo_tbl 0 False) kdemo_mapped = Some (0, k') \<and>
     kenv_send_cmd kdemo_env (pre @ p # post) w = (0, k_world k') \<and> pyld_opcode p = 5 \<and> pyld_len p = 40"
proof (rule kdemo_inited [of "\<lambda>_ _. True"])
  fix k assume k: "ipa3_nat_init_cmd kdemo_env kdemo_pl (v4_init_cmd demo_cache demo_tbl 0 False) kdemo_mapped = Some (0, k)"
  show ?thesis using kernel_init_sent [OF kdemo_plat(1) k] k by blast
qed simp

theorem library_init_accepted_witness:
  "\<exists>k'. ipa3_nat_init_cmd kdemo_env kdemo_pl (v4_init_cmd demo_cache demo_tbl 0 True) kdemo_mapped = Some (0, k') \<and>
     knows IPA_NAT_MEM_IN_DDR 2 2 k'"
proof -
  obtain S where "kinv kdemo_pl S kdemo_mapped" using kreach_inv [OF kdemo_reach [of "\<lambda>_ _. True"] kdemo_plat(1)] by auto
  from library_init_accepted [OF kdemo_plat this demo_inv demo_geometry(3) kdemo_ready, of True] show ?thesis
    by (auto simp: demo_geometry demo_cache_def)
qed

lemma demo_lib_tables: "lib_table 32 (nat_table demo_tbl)" "lib_table 4 (index_table demo_tbl)"
  by (auto simp: demo_tbl_def create_helpers lib_table_def with_helpers_def ipa_table_dma_cmd_helper_init_def ipa_table_reset_def
        ipa_table_calculate_addresses_def demo_t_def demo_x_def ipa_table_init_def demo_md_def mem_desc_zero_def)

lemma demo_body_added:
  obtains i t x ct cx tok where "add_ipv4_rule_body demo_env demo_cache (st_pdns demo_state) demo_rule 69 (nat_table demo_tbl) (index_table demo_tbl) () =
      Some (0, ucast (MakeEntryHdl t i), t, x, tok, ())"
    "nat_inv t x ct cx" "lib_table 32 t" "lib_table 4 x" "live t i" "table_entries t = 2" "expn_table_entries t = 2"
proof -
  let ?t = "nat_table demo_tbl" and ?x = "index_table demo_tbl"
  obtain h token1 where h: "nat_slot \<lparr>desc_fd = 3, desc_ver = 14\<rparr> (st_pdns demo_state) ?t demo_rule 69 = (h, token1)" by fastforce
  obtain g token2 where g: "indx_slot ?t demo_rule token1 = (g, token2)" by fastforce
  have d: "ipa_desc demo_cache = Some \<lparr>desc_fd = 3, desc_ver = 14\<rparr>" by (simp add: demo_cache_def)
  have pr: "pdn_in_range (st_pdns demo_state) demo_rule" using demo_rule_ok(1) by (simp add: pdn_in_range_def)
  have room: "\<not> nat_full ?t ?x (unat h) (unat g)" by (simp add: nat_full_def demo_empty)
  obtain hdl t' x' tok where b: "add_ipv4_rule_body demo_env demo_cache (st_pdns demo_state) demo_rule 69 ?t ?x () = Some (0, hdl, t', x', tok, ())"
    using add_body_success [OF demo_inv demo_reliable d pr h g room, of "()"] by auto
  have "rule_added ?t ?x no_chains no_chains (unat h) (unat g) (stored_rule (st_pdns demo_state) demo_rule) hdl t' x'"
    using add_body_outcome [OF demo_inv demo_env_ok(2) d pr demo_rule_ok(2) h g, of "()"] b by auto
  then obtain i k where a: "hdl = ucast (MakeEntryHdl ?t i)"
      "nat_inv t' x' (grown nat_ei ?t no_chains (unat h) i) (grown indx_ei ?x no_chains (unat g) k)" "same_shape ?t t'" "same_shape ?x x'"
      "rules_of t' = (rules_of ?t)(i \<mapsto> stored_rule (st_pdns demo_state) demo_rule)" by (auto simp: rule_added_def)
  have "live t' i" using a(5) by (auto simp: rules_of_def fun_eq_iff split: if_splits)
  moreover have "MakeEntryHdl t' i = MakeEntryHdl ?t i" using a(3) by (simp add: same_shape_def MakeEntryHdl_def)
  ultimately show thesis
    using that [of t' i x' tok] b a demo_lib_tables demo_geometry by (simp add: lib_table_shape) (simp add: same_shape_def)
qed

theorem library_writes_accepted_witness:
  "\<exists>k hdl t x tok. add_ipv4_rule_body (kernel_guard kdemo_env kdemo_pl k demo_env) demo_cache (st_pdns demo_state) demo_rule 69
       (nat_table demo_tbl) (index_table demo_tbl) () = Some (0, hdl, t, x, tok, ()) \<and>
     del_ipv4_rule_body (kernel_guard kdemo_env kdemo_pl k demo_env) demo_cache hdl t x () = del_ipv4_rule_body demo_env demo_cache hdl t x ()"
proof (rule kdemo_inited [of "\<lambda>_ _. True"])
  fix k :: "unit ipa3" assume k: "knows IPA_NAT_MEM_IN_DDR 2 2 k"
  have d: "ipa_desc demo_cache = Some \<lparr>desc_fd = 3, desc_ver = 14\<rparr>" "cache_nmi demo_cache = IPA_NAT_MEM_IN_DDR" by (simp_all add: demo_cache_def)
  have pr: "pdn_in_range (st_pdns demo_state) demo_rule" using demo_rule_ok(1) by (simp add: pdn_in_range_def)
  show ?thesis
  proof (rule demo_body_added)
    fix i t x ct cx tok
    assume b: "add_ipv4_rule_body demo_env demo_cache (st_pdns demo_state) demo_rule 69 (nat_table demo_tbl) (index_table demo_tbl) () =
        Some (0, ucast (MakeEntryHdl t i), t, x, tok, ())" and t: "nat_inv t x ct cx" "lib_table 32 t" "lib_table 4 x" "live t i"
      "table_entries t = 2" "expn_table_entries t = 2"
    have k': "knows (cache_nmi demo_cache) (table_entries t) (expn_table_entries t) k" using k t d by simp
    have del: "del_ipv4_rule_body (kernel_guard kdemo_env kdemo_pl k demo_env) demo_cache (ucast (MakeEntryHdl t i)) t x () =
        del_ipv4_rule_body demo_env demo_cache (ucast (MakeEntryHdl t i)) t x ()"
      using library_writes_accepted [OF kdemo_plat t(1-3) k' d(1) pr, of demo_env 69 "()" i] t(4) by simp
    have "knows (cache_nmi demo_cache) (table_entries (nat_table demo_tbl)) (expn_table_entries (nat_table demo_tbl)) k"
      using k d demo_geometry by simp
    from conjunct1 [OF library_writes_accepted [OF kdemo_plat demo_inv demo_lib_tables this d(1) pr, of demo_env 69 "()"]] b del
    show ?thesis by metis
  qed
qed simp

definition kdemo_low :: "unit kernel_env" where
  "kdemo_low = kdemo_env\<lparr>kenv_dma_alloc_coherent := (\<lambda>sz w. if sz < 100 then (0, 0, w) else (0x10000, 0x80000000, w))\<rparr>"


end
