(* ===== verification/Ipa_Clk.thy ===== *)
theory Ipa_Clk
  imports Ipa_Prelude
begin

text \<open>
  The reference count of the clocks of the hardware, \<^verbatim>\<open>ipa3_ctx->ipa3_active_clients\<close> in \<^verbatim>\<open>ipa_v3/ipa.c\<close>, in a mode with
  regular clocks.  The last vote is not dropped at once: if packets were sent a TAG process runs first, and if the
  hardware is busy the decrement is tried again later; both are work items that hold the count at one.

  Each function is one step: it works on an atomic counter and holds the mutex of the count where it tests and changes
  it.  \<open>None\<close> is \<^verbatim>\<open>ipa_assert\<close>.  What the hardware answers is \<open>clk_env\<close>: whether \<^verbatim>\<open>ipa3_suspend_apps_pipes\<close> finds it
  busy and whether \<^verbatim>\<open>gsi_pending_irq_type\<close> reports an interrupt when the clocks are to be switched off.
\<close>

section \<open>State and operations\<close>

record clk_env =
  suspend_busy :: bool
  gsi_irq :: bool

record ipa_clk =
  active_cnt :: int
  tag_before_gating :: bool
  tag_work :: bool
  dec_work :: bool
  clk_vote :: bool
  scaling_enabled :: bool
  rate_of_plan :: "int \<Rightarrow> nat"
  curr_clk_rate :: nat
  bus_vote_idx :: int

definition ipa3_enable_clks :: "ipa_clk \<Rightarrow> ipa_clk" where
  "ipa3_enable_clks c = c\<lparr>clk_vote := True\<rparr>"

text \<open>With the clocks the vote of the power manager goes to index 0; its caller does that.\<close>

definition ipa3_disable_clks :: "clk_env \<Rightarrow> ipa_clk \<Rightarrow> ipa_clk option" where
  "ipa3_disable_clks e c = (if gsi_irq e then None else Some (c\<lparr>clk_vote := False\<rparr>))"

definition ipa3_inc_client_enable_clks :: "ipa_clk \<Rightarrow> ipa_clk" where
  "ipa3_inc_client_enable_clks c =
     (if active_cnt c \<noteq> 0 then c\<lparr>active_cnt := active_cnt c + 1\<rparr>
      else (ipa3_enable_clks c)\<lparr>active_cnt := 1\<rparr>)"

definition ipa3_inc_client_enable_clks_no_block :: "ipa_clk \<Rightarrow> int \<times> ipa_clk" where
  "ipa3_inc_client_enable_clks_no_block c =
     (if active_cnt c \<noteq> 0 then (0, c\<lparr>active_cnt := active_cnt c + 1\<rparr>) else (- EPERM, c))"

text \<open>The first component of the result tells that the clocks were switched off.\<close>

definition ipa3_dec_client_disable_clks :: "clk_env \<Rightarrow> ipa_clk \<Rightarrow> (bool \<times> ipa_clk) option" where
  "ipa3_dec_client_disable_clks e c =
     (if active_cnt c = 0 then None
      else if active_cnt c \<noteq> 1 then Some (False, c\<lparr>active_cnt := active_cnt c - 1\<rparr>)
      else if tag_before_gating c then Some (False, c\<lparr>tag_before_gating := False, tag_work := True\<rparr>)
      else
        let c = c\<lparr>active_cnt := active_cnt c - 1\<rparr> in
        if suspend_busy e then Some (False, c\<lparr>active_cnt := active_cnt c + 1, dec_work := True\<rparr>)
        else do { c \<leftarrow> ipa3_disable_clks e c; Some (True, c) })"

definition ipa3_start_tag_process :: "clk_env \<Rightarrow> ipa_clk \<Rightarrow> (bool \<times> ipa_clk) option" where
  "ipa3_start_tag_process e c = ipa3_dec_client_disable_clks e (c\<lparr>tag_work := False\<rparr>)"

definition ipa_dec_clients_disable_clks_on_wq :: "clk_env \<Rightarrow> ipa_clk \<Rightarrow> (bool \<times> ipa_clk) option" where
  "ipa_dec_clients_disable_clks_on_wq e c = ipa3_dec_client_disable_clks e (c\<lparr>dec_work := False\<rparr>)"

definition ipa3_dec_client_disable_clks_no_block :: "ipa_clk \<Rightarrow> ipa_clk" where
  "ipa3_dec_client_disable_clks_no_block c =
     (if active_cnt c \<noteq> 1 then c\<lparr>active_cnt := active_cnt c - 1\<rparr> else c\<lparr>dec_work := True\<rparr>)"

text \<open>The clock plan: \<^verbatim>\<open>rate_of_plan\<close> are the rates of the plans 1 (SVS2) to 4 (turbo).\<close>

definition ipa3_set_clock_plan_from_pm :: "int \<Rightarrow> ipa_clk \<Rightarrow> int \<times> ipa_clk" where
  "ipa3_set_clock_plan_from_pm idx c =
     (if \<not> scaling_enabled c then (0, c\<lparr>bus_vote_idx := idx\<rparr>)
      else if idx \<le> 0 \<or> idx \<ge> 5 then (- EINVAL, c)
      else if rate_of_plan c idx = curr_clk_rate c then (0, c)
      else (0, c\<lparr>curr_clk_rate := rate_of_plan c idx, bus_vote_idx := idx\<rparr>))"

section \<open>Votes\<close>

text \<open>The count stands for \<open>v\<close> votes: it may be one more while the last decrement waits for one of the work items.\<close>

definition clk_holds :: "nat \<Rightarrow> ipa_clk \<Rightarrow> bool" where
  "clk_holds v c \<longleftrightarrow> active_cnt c = int v + of_bool (tag_work c) + of_bool (dec_work c) \<and> \<not> (tag_work c \<and> dec_work c) \<and>
     (clk_vote c \<longleftrightarrow> active_cnt c \<noteq> 0)"

lemma holds_inc: "clk_holds v c \<Longrightarrow> clk_holds (v + 1) (ipa3_inc_client_enable_clks c)"
  by (auto simp: clk_holds_def ipa3_inc_client_enable_clks_def ipa3_enable_clks_def)

lemma holds_no_block:
  assumes "clk_holds v c" "ipa3_inc_client_enable_clks_no_block c = (r, c')"
  shows "if r = 0 then clk_holds (v + 1) c' else c' = c"
  using assms by (auto simp: clk_holds_def ipa3_inc_client_enable_clks_no_block_def split: if_splits)

text \<open>With one vote more than \<open>v\<close> the decrement never asserts, as long as the hardware reports no interrupt when it is gated.\<close>

lemma holds_dec:
  assumes h: "clk_holds (v + 1) c" and e: "\<not> gsi_irq e"
  obtains g c' where "ipa3_dec_client_disable_clks e c = Some (g, c')" "clk_holds v c'"
proof (cases "active_cnt c = 1")
  case False
  then have "ipa3_dec_client_disable_clks e c = Some (False, c\<lparr>active_cnt := active_cnt c - 1\<rparr>)"
    using h by (auto simp: ipa3_dec_client_disable_clks_def clk_holds_def)
  moreover have "clk_holds v (c\<lparr>active_cnt := active_cnt c - 1\<rparr>)"
    using h False by (auto simp: clk_holds_def)
  ultimately show thesis by (rule that)
next
  case True
  then have c: "v = 0" "\<not> tag_work c" "\<not> dec_work c" "clk_vote c" using h by (auto simp: clk_holds_def of_bool_def split: if_splits)
  have "\<exists>g c'. ipa3_dec_client_disable_clks e c = Some (g, c') \<and> clk_holds v c'"
    by (cases "tag_before_gating c"; cases "suspend_busy e")
       (simp_all add: ipa3_dec_client_disable_clks_def ipa3_disable_clks_def True e c clk_holds_def ex_bool_eq)
  then show thesis using that by blast
qed

lemma holds_dec_no_block: "clk_holds (v + 1) c \<Longrightarrow> clk_holds v (ipa3_dec_client_disable_clks_no_block c)"
  by (auto simp: clk_holds_def ipa3_dec_client_disable_clks_no_block_def)

lemma holds_work:
  assumes "clk_holds v c" "tag_work c \<or> dec_work c"
  shows "clk_holds (v + 1) (c\<lparr>tag_work := False, dec_work := False\<rparr>)"
  using assms by (auto simp: clk_holds_def)

lemma holds_plan: "clk_holds v (snd (ipa3_set_clock_plan_from_pm i c)) = clk_holds v c"
  by (simp add: clk_holds_def ipa3_set_clock_plan_from_pm_def)

section \<open>The contract of a counted vote\<close>

text \<open>What the users of a count of votes rely on: a vote more can always be taken, and a vote that is held can be dropped.\<close>

locale vote_count =
  fixes holds :: "nat \<Rightarrow> 's \<Rightarrow> bool" and inc :: "'s \<Rightarrow> 's" and dec :: "'s \<Rightarrow> 's option"
  assumes inc_holds: "holds v s \<Longrightarrow> holds (v + 1) (inc s)"
    and dec_holds: "holds (v + 1) s \<Longrightarrow> \<exists>t. dec s = Some t \<and> holds v t"
begin

text \<open>The drop gives one state, whatever number of votes is in view.\<close>

lemma drop_one:
  assumes "holds (n + 1) s"
  obtains t where "dec s = Some t" "\<And>v. holds (v + 1) s \<Longrightarrow> holds v t"
  using assms dec_holds by (metis option.inject)

lemma take_drop_balanced:
  assumes "holds v s"
  obtains t where "dec (inc s) = Some t" "holds v t"
  using dec_holds [OF inc_holds [OF assms]] by blast

end

end
