(* ===== verification/Ipa_Pm_Tput.thy ===== *)
theory Ipa_Pm_Tput
  imports Ipa_Prelude "HOL-Library.Multiset"
begin

text \<open>
  The aggregation of throughputs in the power manager of the kernel driver, \<^verbatim>\<open>ipa_v3/ipa_pm.c\<close>: the loop of
  \<^verbatim>\<open>calculate_throughput\<close> over the throughputs of the active clients.  An array with its fill count is the list of its
  used elements.
\<close>

section \<open>The code\<close>

text \<open>The search loop: \<open>i\<close> is the index of the first element of the list, \<open>m\<close> and \<open>mi\<close> the maximum so far and its index.\<close>

fun max_scan :: "int list \<Rightarrow> nat \<Rightarrow> int \<Rightarrow> nat \<Rightarrow> int \<times> nat" where
  "max_scan [] i m mi = (m, mi)"
| "max_scan (x # xs) i m mi = (if x > m then max_scan xs (i + 1) x i else max_scan xs (i + 1) m mi)"

definition pop_max_from_array :: "int list \<Rightarrow> int \<times> int list" where
  "pop_max_from_array arr =
     (if arr = [] then (0, [])
      else
        let (m, mi) = max_scan arr 0 0 (length arr - 1)
        in (m, butlast (arr[mi := last arr])))"

lemma max_scan_index: "mi < i + length xs \<Longrightarrow> snd (max_scan xs i m mi) < i + length xs"
proof (induction xs arbitrary: i m mi)
  case (Cons x xs)
  show ?case using Cons.IH [of i "i + 1"] Cons.IH [of mi "i + 1"] Cons.prems by simp
qed simp

lemma pop_max_length: "arr \<noteq> [] \<Longrightarrow> length (snd (pop_max_from_array arr)) = length arr - 1"
  by (simp add: pop_max_from_array_def split: prod.splits)

function tput_loop :: "int list \<Rightarrow> int \<Rightarrow> int \<times> int list" where
  "tput_loop arr aggregated_tput =
     (if length arr > 1 then
        let (m, arr1) = pop_max_from_array arr;
            (second_max, arr2) = pop_max_from_array arr1
        in tput_loop (arr2 @ [m - second_max]) (aggregated_tput + second_max)
      else (aggregated_tput, arr))"
  by auto
termination
proof (relation "measure (\<lambda>(arr, _). length arr)", simp)
  fix arr :: "int list" and agg m arr1 p second_max arr2 q
  assume a: "1 < length arr" "p = pop_max_from_array arr" "(m, arr1) = p" "q = pop_max_from_array arr1" "(second_max, arr2) = q"
  have "length arr1 = length arr - 1" using pop_max_length [of arr] a by (cases arr) (auto dest: arg_cong [of _ _ snd])
  moreover from this have "length arr2 = length arr1 - 1" using pop_max_length [of arr1] a by (cases arr1) (auto dest: arg_cong [of _ _ snd])
  ultimately show "((arr2 @ [m - second_max], agg + second_max), arr, agg) \<in> measure (\<lambda>(arr, _). length arr)" using a(1) by simp
qed

declare tput_loop.simps [simp del]

text \<open>What is left in the array at the end is not used.\<close>

definition aggregate_tputs :: "int list \<Rightarrow> int" where
  "aggregate_tputs arr = fst (tput_loop arr 0)"

section \<open>Its meaning\<close>

text \<open>Popping removes a largest element of an array of non-negative numbers.\<close>

lemma max_scan_result:
  assumes "\<forall>x \<in> set xs. 0 \<le> x" "mi < i \<and> m = f mi \<or> m = 0 \<and> f mi = 0 \<or> (m = 0 \<and> mi = i + length xs - 1 \<and> xs \<noteq> [])" "0 \<le> m"
    "\<And>j. j < length xs \<Longrightarrow> f (i + j) = xs ! j"
  shows "fst (max_scan xs i m mi) = f (snd (max_scan xs i m mi)) \<and> m \<le> fst (max_scan xs i m mi) \<and> (\<forall>x \<in> set xs. x \<le> fst (max_scan xs i m mi))"
  using assms
proof (induction xs arbitrary: i m mi)
  case (Cons x xs)
  have fx: "f i = x" using Cons.prems(4) [of 0] by simp
  have f: "\<And>j. j < length xs \<Longrightarrow> f (i + 1 + j) = xs ! j" using Cons.prems(4) [of "Suc _"] by simp
  have nn: "\<forall>x \<in> set xs. 0 \<le> x" "0 \<le> x" using Cons.prems(1) by simp_all
  show ?case
  proof (cases "m < x")
    case True
    have "i < i + 1 \<and> x = f i \<or> x = 0 \<and> f i = 0 \<or> (x = 0 \<and> i = i + 1 + length xs - 1 \<and> xs \<noteq> [])" using fx by simp
    from Cons.IH [OF nn(1) this nn(2) f] True Cons.prems(3) show ?thesis by force
  next
    case False
    have "mi < i + 1 \<and> m = f mi \<or> m = 0 \<and> f mi = 0 \<or> (m = 0 \<and> mi = i + 1 + length xs - 1 \<and> xs \<noteq> [])"
      using Cons.prems(2) False nn(2) fx by auto
    from Cons.IH [OF nn(1) this Cons.prems(3) f] False show ?thesis by auto
  qed
qed auto

lemma pop_max_correct:
  assumes nn: "\<forall>x \<in> set arr. 0 \<le> x" and ne: "arr \<noteq> []" and p: "pop_max_from_array arr = (m, rest)"
  shows "mset arr = add_mset m (mset rest)" "\<forall>x \<in> set arr. x \<le> m" "0 \<le> m" "\<forall>x \<in> set rest. 0 \<le> x" "length arr = Suc (length rest)"
proof -
  obtain mi where s: "max_scan arr 0 0 (length arr - 1) = (m, mi)" and r: "rest = butlast (arr[mi := last arr])"
    using p ne by (auto simp: pop_max_from_array_def split: prod.splits)
  have i: "mi < length arr" using max_scan_index [of "length arr - 1" 0 arr 0] ne s by simp
  have "fst (max_scan arr 0 0 (length arr - 1)) = arr ! snd (max_scan arr 0 0 (length arr - 1)) \<and>
      0 \<le> fst (max_scan arr 0 0 (length arr - 1)) \<and> (\<forall>x \<in> set arr. x \<le> fst (max_scan arr 0 0 (length arr - 1)))"
    by (rule max_scan_result [OF nn]) (use ne in auto)
  note f = this [unfolded s fst_conv snd_conv]
  show "\<forall>x \<in> set arr. x \<le> m" "0 \<le> m" using f by iprover+
  note m = conjunct1 [OF f]
  have ne': "arr[mi := last arr] \<noteq> []" using ne by simp
  have l: "last (arr[mi := last arr]) = last arr" using ne by (simp add: last_list_update)
  have "mset (arr[mi := last arr]) = add_mset (last arr) (mset rest)"
    using arg_cong [OF append_butlast_last_id [OF ne'], of mset] unfolding r l by simp
  moreover have "mset (arr[mi := last arr]) = add_mset (last arr) (mset arr - {#m#})" using i m by (simp add: mset_update)
  ultimately have "mset rest = mset arr - {#m#}" by simp
  moreover have "m \<in># mset arr" using i m by simp
  ultimately show mm: "mset arr = add_mset m (mset rest)" by simp
  then have "set rest \<subseteq> set arr" by (metis set_mset_mset set_mset_add_mset_insert subset_insertI)
  then show "\<forall>x \<in> set rest. 0 \<le> x" using nn by blast
  show "length arr = Suc (length rest)" using arg_cong [OF mm, of size] by simp
qed

lemma sum_list_mset: "sum_list xs = sum_mset (mset xs)" for xs :: "int list"
  by (simp add: sum_mset_sum_list)

text \<open>Twice the aggregate and the rest are the sum of the throughputs; the rest is at most the largest of them.\<close>

lemma tput_loop_sum:
  assumes "\<forall>x \<in> set arr. 0 \<le> x" "\<forall>x \<in> set arr. x \<le> M" "0 \<le> M"
  shows "\<exists>rest. tput_loop arr agg = (fst (tput_loop arr agg), rest) \<and> length rest \<le> 1 \<and>
    2 * fst (tput_loop arr agg) + sum_list rest = 2 * agg + sum_list arr \<and> 0 \<le> sum_list rest \<and> sum_list rest \<le> M \<and> agg \<le> fst (tput_loop arr agg)"
  using assms
proof (induction arr agg rule: tput_loop.induct)
  case (1 arr agg)
  show ?case
  proof (cases "length arr > 1")
    case False
    then have "tput_loop arr agg = (agg, arr)" by (simp add: tput_loop.simps)
    then show ?thesis using 1(2-4) False by (cases arr) auto
  next
    case True
    obtain m arr1 where p1: "pop_max_from_array arr = (m, arr1)" by fastforce
    obtain n arr2 where p2: "pop_max_from_array arr1 = (n, arr2)" by fastforce
    have ne: "arr \<noteq> []" using True by auto
    note c1 = pop_max_correct [OF 1(2) ne p1]
    have ne1: "arr1 \<noteq> []" using True c1(5) by auto
    note c2 = pop_max_correct [OF c1(4) ne1 p2]
    have s1: "set arr1 \<subseteq> set arr" "m \<in> set arr" using c1(1) by (metis set_mset_mset set_mset_add_mset_insert subset_insertI, metis set_mset_mset union_single_eq_member)
    have s2: "set arr2 \<subseteq> set arr1" "n \<in> set arr1" using c2(1) by (metis set_mset_mset set_mset_add_mset_insert subset_insertI, metis set_mset_mset union_single_eq_member)
    have nm: "n \<le> m" using c1(2) s1 s2 by auto
    have mM: "m \<le> M" using 1(3) s1 by auto
    have nn: "\<forall>x \<in> set (arr2 @ [m - n]). 0 \<le> x" using c2(4) nm by auto
    have le: "\<forall>x \<in> set (arr2 @ [m - n]). x \<le> M" using 1(3) s1 s2 mM c2(3) by auto
    have sum: "sum_list arr = m + n + sum_list arr2" by (simp add: sum_list_mset c1(1) c2(1))
    have st: "tput_loop arr agg = tput_loop (arr2 @ [m - n]) (agg + n)"
      using True by (subst tput_loop.simps) (simp add: p1 p2)
    from 1(1) [OF True p1 [symmetric] _ p2 [symmetric] _ nn le 1(4)] show ?thesis
      unfolding st using sum c2(3) by auto
  qed
qed

text \<open>If one throughput is at least the sum of the others, the rest is the difference.\<close>

lemma tput_loop_dominated:
  assumes "\<forall>x \<in> set arr. 0 \<le> x" "D \<in> set arr" "sum_list arr \<le> 2 * D"
  shows "sum_list (snd (tput_loop arr agg)) = 2 * D - sum_list arr"
  using assms
proof (induction arr agg arbitrary: D rule: tput_loop.induct)
  case (1 arr agg)
  show ?case
  proof (cases "length arr > 1")
    case False
    then have "tput_loop arr agg = (agg, arr)" by (simp add: tput_loop.simps)
    then show ?thesis using 1(3) False by (cases arr) auto
  next
    case True
    obtain m arr1 where p1: "pop_max_from_array arr = (m, arr1)" by fastforce
    obtain n arr2 where p2: "pop_max_from_array arr1 = (n, arr2)" by fastforce
    have ne: "arr \<noteq> []" using True by auto
    note c1 = pop_max_correct [OF 1(2) ne p1]
    have ne1: "arr1 \<noteq> []" using True c1(5) by auto
    note c2 = pop_max_correct [OF c1(4) ne1 p2]
    have sum: "sum_list arr = m + n + sum_list arr2" "sum_list arr1 = n + sum_list arr2" by (simp_all add: sum_list_mset c1(1) c2(1))
    have m1: "m \<in> set arr" using c1(1) by (metis set_mset_mset union_single_eq_member)
    have n2: "0 \<le> sum_list arr2" using c2(4) by (simp add: sum_list_nonneg)
    have "D = m"
    proof (rule ccontr)
      assume "D \<noteq> m"
      then have "D \<in> set arr1" using 1(3) c1(1) by (metis insert_iff set_mset_add_mset_insert set_mset_mset)
      then have "D \<le> sum_list arr1" using c1(4) by (simp add: member_le_sum_list)
      then show False using sum 1(4) c1(2) 1(3) \<open>D \<noteq> m\<close> by force
    qed
    then have "sum_list (arr2 @ [m - n]) \<le> 2 * (m - n)" using 1(4) sum by simp
    moreover have "n \<le> m" using \<open>D = m\<close> 1(4) sum n2 by simp
    then have "\<forall>x \<in> set (arr2 @ [m - n]). 0 \<le> x" using c2(4) by auto
    moreover have "tput_loop arr agg = tput_loop (arr2 @ [m - n]) (agg + n)"
      using True by (subst tput_loop.simps) (simp add: p1 p2)
    moreover from calculation(1,2) have "sum_list (snd (tput_loop (arr2 @ [m - n]) (agg + n))) = 2 * (m - n) - sum_list (arr2 @ [m - n])"
      by (intro 1(1) [OF True p1 [symmetric] _ p2 [symmetric]]) simp_all
    ultimately show ?thesis using sum \<open>D = m\<close> by simp
  qed
qed



end
