(* ===== verification/Ipa_Pm.thy ===== *)
theory Ipa_Pm
  imports Ipa_Clk Ipa_Pm_Tput "HOL-Library.Word"
begin

unbundle bit_operations_syntax

text \<open>
  The power manager of the kernel driver, \<^verbatim>\<open>ipa_v3/ipa_pm.c\<close>: clients register, vote for the clocks by activating and
  deactivating, and announce a throughput, from which the clock plan follows.

  This theory has the state, the clock scaling arithmetic and the operations that hold the client mutex over all they do:
  initialisation, registration, the association of pipes and the wake-up of suspended clients.  The operations that run
  concurrently are in \<open>Ipa_Pm_Step\<close>.  A pointer to a client is its handle; strings are without their terminator.  The context exists and
  arguments are not NULL, which every function tests first.
\<close>

section \<open>State\<close>

abbreviation EEXIST :: int where "EEXIST \<equiv> 17"
abbreviation ENOBUFS :: int where "ENOBUFS \<equiv> 105"
abbreviation EINPROGRESS :: int where "EINPROGRESS \<equiv> 115"

definition IPA_PM_MAX_CLIENTS :: nat where "IPA_PM_MAX_CLIENTS = 36"
definition IPA_PM_MAX_EX_CL :: nat where "IPA_PM_MAX_EX_CL = 64"
definition IPA_PM_THRESHOLD_MAX :: int where "IPA_PM_THRESHOLD_MAX = 5"
definition IPA_PM_EXCEPTION_MAX :: int where "IPA_PM_EXCEPTION_MAX = 5"
definition IPA_EP_PER_REG :: nat where "IPA_EP_PER_REG = 32"

datatype ipa_pm_state =
    IPA_PM_DEACTIVATED | IPA_PM_DEACTIVATE_IN_PROGRESS | IPA_PM_ACTIVATE_IN_PROGRESS | IPA_PM_ACTIVATED
  | IPA_PM_ACTIVATED_PENDING_DEACTIVATION | IPA_PM_ACTIVATED_TIMER_SET | IPA_PM_ACTIVATED_PENDING_RESCHEDULE

datatype ipa_pm_group = IPA_PM_GROUP_DEFAULT | IPA_PM_GROUP_APPS | IPA_PM_GROUP_MODEM

datatype ipa_pm_cb_event = IPA_PM_CLIENT_ACTIVATED | IPA_PM_REQUEST_WAKEUP

definition IPA_PM_STATE_ACTIVE :: "ipa_pm_state \<Rightarrow> bool" where
  "IPA_PM_STATE_ACTIVE state \<longleftrightarrow> state = IPA_PM_ACTIVATED \<or> state = IPA_PM_ACTIVATED_PENDING_DEACTIVATION \<or>
     state = IPA_PM_ACTIVATED_TIMER_SET \<or> state = IPA_PM_ACTIVATED_PENDING_RESCHEDULE"

definition IPA_PM_STATE_IN_PROGRESS :: "ipa_pm_state \<Rightarrow> bool" where
  "IPA_PM_STATE_IN_PROGRESS state \<longleftrightarrow> state = IPA_PM_ACTIVATE_IN_PROGRESS \<or> state = IPA_PM_DEACTIVATE_IN_PROGRESS"

record ipa_pm_client =
  cl_name :: string
  cl_callback :: bool
  cl_state :: ipa_pm_state
  cl_skip_clk_vote :: bool
  cl_group :: ipa_pm_group
  cl_throughput :: int
  cl_complete :: bool
  cl_act_queued :: bool
  cl_timer :: bool
  cl_awake :: bool

record ipa_pm_exception_list =
  ex_clients :: string
  ex_pending :: int
  ex_bitmask :: "nat \<Rightarrow> 32 word"
  ex_threshold :: "int list"

datatype threshold_ptr = ThNull | ThDefault | ThException nat

record clk_scaling_db =
  exception_list :: "ipa_pm_exception_list list"
  active_client_bitmask :: "nat \<Rightarrow> 32 word"
  threshold_size :: int
  exception_size :: int
  cur_vote :: int
  default_threshold :: "int list"
  current_threshold :: threshold_ptr
  scaling_queued :: bool

text \<open>\<open>ipa_num_pipes\<close> is the number of pipes of the hardware, \<^verbatim>\<open>ipa3_get_max_num_pipes()\<close>.\<close>

record ipa_pm_ctx =
  pm_clients :: "nat \<Rightarrow> ipa_pm_client option"
  clients_by_pipe :: "nat \<Rightarrow> nat option"
  clk_scaling :: clk_scaling_db
  aggregated_tput :: int
  group_tput :: "ipa_pm_group \<Rightarrow> int"
  ipa_num_pipes :: nat

section \<open>Clock scaling\<close>

definition ipahal_get_ep_reg_idx :: "nat \<Rightarrow> nat" where
  "ipahal_get_ep_reg_idx ep = ep div 32"

definition ipahal_get_ep_bit :: "nat \<Rightarrow> 32 word" where
  "ipahal_get_ep_bit ep = push_bit (ep mod 32) 1"

text \<open>The throughputs of the active clients, in the order of their handles; a group counts once.\<close>

fun collect_tputs :: "ipa_pm_ctx \<Rightarrow> nat list \<Rightarrow> ipa_pm_group list \<Rightarrow> int list" where
  "collect_tputs p [] voted = []"
| "collect_tputs p (i # is) voted =
     (case pm_clients p i of
        None \<Rightarrow> collect_tputs p is voted
      | Some c \<Rightarrow>
          if \<not> IPA_PM_STATE_ACTIVE (cl_state c) then collect_tputs p is voted
          else if cl_group c = IPA_PM_GROUP_DEFAULT then cl_throughput c # collect_tputs p is voted
          else if cl_group c \<notin> set voted then group_tput p (cl_group c) # collect_tputs p is (cl_group c # voted)
          else collect_tputs p is voted)"

definition calculate_throughput :: "ipa_pm_ctx \<Rightarrow> int" where
  "calculate_throughput p = aggregate_tputs (collect_tputs p [1..<IPA_PM_MAX_CLIENTS] [])"

definition activate_client :: "nat \<Rightarrow> ipa_pm_ctx \<Rightarrow> ipa_pm_ctx" where
  "activate_client hdl p =
     (let idx = ipahal_get_ep_reg_idx hdl; m = active_client_bitmask (clk_scaling p) in
      p\<lparr>clk_scaling := (clk_scaling p)\<lparr>active_client_bitmask := m(idx := m idx OR ipahal_get_ep_bit hdl)\<rparr>\<rparr>)"

definition deactivate_client :: "nat \<Rightarrow> ipa_pm_ctx \<Rightarrow> ipa_pm_ctx" where
  "deactivate_client hdl p =
     (let idx = ipahal_get_ep_reg_idx hdl; m = active_client_bitmask (clk_scaling p) in
      p\<lparr>clk_scaling := (clk_scaling p)\<lparr>active_client_bitmask := m(idx := m idx AND NOT (ipahal_get_ep_bit hdl))\<rparr>\<rparr>)"

definition exception_passes :: "(nat \<Rightarrow> 32 word) \<Rightarrow> ipa_pm_exception_list \<Rightarrow> bool" where
  "exception_passes active ex \<longleftrightarrow>
     ex_pending ex = 0 \<and> ex_bitmask ex 0 AND NOT (active 0) = 0 \<and> ex_bitmask ex 1 AND NOT (active 1) = 0"

fun first_exception :: "(nat \<Rightarrow> 32 word) \<Rightarrow> ipa_pm_exception_list list \<Rightarrow> nat \<Rightarrow> threshold_ptr" where
  "first_exception active [] i = ThDefault"
| "first_exception active (ex # exs) i = (if exception_passes active ex then ThException i else first_exception active exs (i + 1))"

definition set_current_threshold :: "ipa_pm_ctx \<Rightarrow> ipa_pm_ctx" where
  "set_current_threshold p =
     (let clk = clk_scaling p in
      p\<lparr>clk_scaling := clk\<lparr>current_threshold :=
          first_exception (active_client_bitmask clk) (take (nat (exception_size clk)) (exception_list clk)) 0\<rparr>\<rparr>)"

definition threshold_of :: "clk_scaling_db \<Rightarrow> int list option" where
  "threshold_of clk =
     (case current_threshold clk of
        ThNull \<Rightarrow> None
      | ThDefault \<Rightarrow> Some (default_threshold clk)
      | ThException i \<Rightarrow> if i < length (exception_list clk) then Some (ex_threshold (exception_list clk ! i)) else None)"

definition new_threshold_index :: "int \<Rightarrow> int list \<Rightarrow> int" where
  "new_threshold_index tput ths = 1 + int (length (filter (\<lambda>th. tput \<ge> th) ths))"

section \<open>Initialisation\<close>

record ipa_pm_exception =
  usecase :: string
  exc_threshold :: "int list"

record ipa_pm_init_params =
  par_default_threshold :: "int list"
  par_threshold_size :: int
  par_exceptions :: "ipa_pm_exception list"
  par_exception_size :: int

definition strlcpy :: "string \<Rightarrow> nat \<Rightarrow> string" where
  "strlcpy s n = take (n - 1) s"

text \<open>The first entries of an array of \<^verbatim>\<open>IPA_PM_THRESHOLD_MAX\<close> integers, the others zero.\<close>

definition copy_threshold :: "int \<Rightarrow> int list \<Rightarrow> int list" where
  "copy_threshold n ths = take (nat n) ths @ replicate (nat IPA_PM_THRESHOLD_MAX - nat n) 0"

definition init_exception :: "int \<Rightarrow> ipa_pm_exception \<Rightarrow> ipa_pm_exception_list" where
  "init_exception n ex =
     (let clients = strlcpy (usecase ex) IPA_PM_MAX_EX_CL in
      \<lparr>ex_clients = clients, ex_pending = int (length (filter (\<lambda>c. c = CHR '','') clients)) + 1,
       ex_bitmask = (\<lambda>_. 0), ex_threshold = copy_threshold n (exc_threshold ex)\<rparr>)"

definition null_exception :: ipa_pm_exception_list where
  "null_exception = \<lparr>ex_clients = [], ex_pending = 0, ex_bitmask = (\<lambda>_. 0), ex_threshold = replicate (nat IPA_PM_THRESHOLD_MAX) 0\<rparr>"

text \<open>\<open>ctx_ok\<close> and \<open>wq_ok\<close> tell whether the context and the work queue could be allocated, \<open>pipes\<close> the number of pipes.\<close>

definition ipa_pm_init :: "bool \<Rightarrow> bool \<Rightarrow> nat \<Rightarrow> ipa_pm_init_params option \<Rightarrow> ipa_pm_ctx option \<Rightarrow> int \<times> ipa_pm_ctx option" where
  "ipa_pm_init ctx_ok wq_ok pipes params ctx =
     (case params of
        None \<Rightarrow> (- EINVAL, ctx)
      | Some par \<Rightarrow>
          if par_threshold_size par \<le> 0 \<or> par_threshold_size par > IPA_PM_THRESHOLD_MAX then (- EINVAL, ctx)
          else if par_exception_size par < 0 \<or> par_exception_size par > IPA_PM_EXCEPTION_MAX then (- EINVAL, ctx)
          else if ctx \<noteq> None then (- EPERM, ctx)
          else if \<not> ctx_ok \<or> \<not> wq_ok then (- ENOMEM, None)
          else
            let n = par_threshold_size par; m = nat (par_exception_size par) in
            (0, Some \<lparr>
              pm_clients = (\<lambda>_. None), clients_by_pipe = (\<lambda>_. None),
              clk_scaling = \<lparr>
                exception_list = map (init_exception n) (take m (par_exceptions par)) @ replicate (nat IPA_PM_EXCEPTION_MAX - m) null_exception,
                active_client_bitmask = (\<lambda>_. 0), threshold_size = n, exception_size = par_exception_size par, cur_vote = 0,
                default_threshold = copy_threshold n (par_default_threshold par), current_threshold = ThNull,
                scaling_queued = False\<rparr>,
              aggregated_tput = 0, group_tput = (\<lambda>_. 0), ipa_num_pipes = pipes\<rparr>))"

definition ipa_pm_destroy :: "ipa_pm_ctx option \<Rightarrow> int \<times> ipa_pm_ctx option" where
  "ipa_pm_destroy ctx = (if ctx = None then (- EPERM, None) else (0, None))"

section \<open>Registration\<close>

text \<open>From the last handle down to 1; \<open>n\<close> is the free one found so far.\<close>

fun find_open :: "ipa_pm_ctx \<Rightarrow> string \<Rightarrow> nat \<Rightarrow> int \<Rightarrow> int" where
  "find_open p name 0 n = n"
| "find_open p name (Suc i) n =
     (case pm_clients p (Suc i) of
        None \<Rightarrow> find_open p name i (int (Suc i))
      | Some c \<Rightarrow> if length name = length (cl_name c) \<and> name = cl_name c then - EEXIST else find_open p name i n)"

definition find_next_open_array_element :: "string \<Rightarrow> ipa_pm_ctx \<Rightarrow> int" where
  "find_next_open_array_element name p = find_open p name (IPA_PM_MAX_CLIENTS - 1) (- ENOBUFS)"

text \<open>\<^verbatim>\<open>strnstr\<close>: whether \<open>s2\<close> occurs in the first \<open>len\<close> characters of \<open>s1\<close>.\<close>

fun strnstr :: "string \<Rightarrow> string \<Rightarrow> nat \<Rightarrow> bool" where
  "strnstr s1 s2 0 = (s2 = [])"
| "strnstr s1 s2 (Suc len) =
     (s2 = [] \<or> (if Suc len < length s2 then False else take (length s2) s1 = s2 \<or> strnstr (tl s1) s2 len))"

fun add_to_exceptions :: "nat \<Rightarrow> string \<Rightarrow> nat \<Rightarrow> ipa_pm_exception_list list \<Rightarrow> int \<times> ipa_pm_exception_list list" where
  "add_to_exceptions hdl name 0 exs = (0, exs)"
| "add_to_exceptions hdl name (Suc n) [] = (0, [])"
| "add_to_exceptions hdl name (Suc n) (ex # exs) =
     (if strnstr (ex_clients ex) name (length name) \<and> length (ex_clients ex) = length name then
        if ex_pending ex - 1 < 0 then (- EPERM, ex\<lparr>ex_pending := 0\<rparr> # exs)
        else
          let idx = ipahal_get_ep_reg_idx hdl;
              ex = ex\<lparr>ex_pending := ex_pending ex - 1,
                      ex_bitmask := (ex_bitmask ex)(idx := ex_bitmask ex idx OR ipahal_get_ep_bit hdl)\<rparr>;
              (r, exs) = add_to_exceptions hdl name n exs
          in (r, ex # exs)
      else let (r, exs) = add_to_exceptions hdl name n exs in (r, ex # exs))"

definition add_client_to_exception_list :: "nat \<Rightarrow> string \<Rightarrow> ipa_pm_ctx \<Rightarrow> int \<times> ipa_pm_ctx" where
  "add_client_to_exception_list hdl name p =
     (let db = clk_scaling p; (r, exs) = add_to_exceptions hdl name (nat (exception_size db)) (exception_list db)
      in (r, p\<lparr>clk_scaling := db\<lparr>exception_list := exs\<rparr>\<rparr>))"

definition remove_from_exception :: "nat \<Rightarrow> ipa_pm_exception_list \<Rightarrow> ipa_pm_exception_list" where
  "remove_from_exception hdl ex =
     (let idx = ipahal_get_ep_reg_idx hdl; ep_bit = ipahal_get_ep_bit hdl in
      if ex_bitmask ex idx AND ep_bit \<noteq> 0
      then ex\<lparr>ex_pending := ex_pending ex + 1, ex_bitmask := (ex_bitmask ex)(idx := ex_bitmask ex idx AND NOT ep_bit)\<rparr>
      else ex)"

definition remove_client_from_exception_list :: "nat \<Rightarrow> ipa_pm_ctx \<Rightarrow> ipa_pm_ctx" where
  "remove_client_from_exception_list hdl p =
     (let db = clk_scaling p; n = nat (exception_size db)
      in p\<lparr>clk_scaling := db\<lparr>exception_list :=
             map (remove_from_exception hdl) (take n (exception_list db)) @ drop n (exception_list db)\<rparr>\<rparr>)"

text \<open>The end of \<^verbatim>\<open>ipa_pm_deregister\<close>, under the client mutex.\<close>

definition free_client :: "nat \<Rightarrow> ipa_pm_ctx \<Rightarrow> ipa_pm_ctx" where
  "free_client hdl p =
     remove_client_from_exception_list hdl
       (p\<lparr>clients_by_pipe := (\<lambda>i. if i < ipa_num_pipes p \<and> clients_by_pipe p i = Some hdl then None else clients_by_pipe p i),
          pm_clients := (pm_clients p)(hdl := None)\<rparr>)"

record ipa_pm_register_params =
  par_name :: string
  par_callback :: bool
  par_group :: ipa_pm_group
  par_skip_clk_vote :: bool

definition new_client :: "ipa_pm_register_params \<Rightarrow> ipa_pm_client" where
  "new_client par = \<lparr>
     cl_name = strlcpy (par_name par) IPA_PM_MAX_EX_CL, cl_callback = par_callback par, cl_state = IPA_PM_DEACTIVATED,
     cl_skip_clk_vote = par_skip_clk_vote par, cl_group = par_group par, cl_throughput = 0, cl_complete = False,
     cl_act_queued = False, cl_timer = False, cl_awake = False\<rparr>"

text \<open>\<open>mem_ok\<close> and \<open>wlock_ok\<close> tell whether the client and its wake-up source could be allocated; the result is the status and the
  handle.  The client is deactivated, so the deregistration on the error paths always frees it.\<close>

definition ipa_pm_register :: "bool \<Rightarrow> bool \<Rightarrow> ipa_pm_register_params \<Rightarrow> ipa_pm_ctx \<Rightarrow> int \<times> int \<times> ipa_pm_ctx" where
  "ipa_pm_register mem_ok wlock_ok par p =
     (let elem = find_next_open_array_element (par_name par) p; h = nat elem in
      if elem < 0 \<or> elem > int IPA_PM_MAX_CLIENTS then (elem, elem, p)
      else if \<not> mem_ok then (- ENOMEM, elem, p)
      else
        let c = new_client par; p = p\<lparr>pm_clients := (pm_clients p)(h := Some c)\<rparr> in
        if \<not> wlock_ok then (- ENOMEM, elem, free_client h p)
        else
          let (r, p) = add_client_to_exception_list h (cl_name c) p in
          if r \<noteq> 0 then (- EPERM, elem, free_client h p) else (0, elem, p))"

section \<open>Pipes\<close>

text \<open>\<open>ep_mapping\<close> is \<^verbatim>\<open>ipa_get_ep_mapping\<close>, the pipe the hardware has for a consumer; \<open>client_max\<close> is \<^verbatim>\<open>IPA_CLIENT_MAX\<close>.\<close>

definition ipa_pm_associate_ipa_cons_to_client ::
    "(int \<Rightarrow> int) \<Rightarrow> int \<Rightarrow> nat \<Rightarrow> int \<Rightarrow> ipa_pm_ctx \<Rightarrow> int \<times> ipa_pm_ctx" where
  "ipa_pm_associate_ipa_cons_to_client ep_mapping client_max hdl consumer p =
     (if hdl \<ge> IPA_PM_MAX_CLIENTS \<or> consumer < 0 \<or> consumer \<ge> client_max then (- EINVAL, p)
      else if pm_clients p hdl = None then (- EPERM, p)
      else
        let idx = ep_mapping consumer in
        if idx < 0 then (0, p)
        else if clients_by_pipe p (nat idx) \<noteq> None then (- EPERM, p)
        else (0, p\<lparr>clients_by_pipe := (clients_by_pipe p)(nat idx := Some hdl)\<rparr>))"

text \<open>The clients that are called back, in order.\<close>

fun suspend_loop :: "ipa_pm_ctx \<Rightarrow> 32 word \<Rightarrow> nat \<Rightarrow> nat list \<Rightarrow> nat list \<Rightarrow> nat list" where
  "suspend_loop p pipe_bitmask pipe_add [] notified = notified"
| "suspend_loop p pipe_bitmask pipe_add (i # is) notified =
     (let pipe = (i + pipe_add) mod 2 ^ 32 in
      if \<not> pipe < ipa_num_pipes p then notified
      else if bit pipe_bitmask i then
        (case clients_by_pipe p pipe of
           None \<Rightarrow> suspend_loop p pipe_bitmask pipe_add is notified
         | Some h \<Rightarrow>
             (case pm_clients p h of
                Some c \<Rightarrow> suspend_loop p pipe_bitmask pipe_add is (if h \<notin> set notified \<and> cl_callback c then notified @ [h] else notified)
              | None \<Rightarrow> suspend_loop p pipe_bitmask pipe_add is notified))
      else suspend_loop p pipe_bitmask pipe_add is notified)"

definition ipa_pm_handle_suspend :: "32 word \<Rightarrow> 32 word \<Rightarrow> ipa_pm_ctx \<Rightarrow> nat list" where
  "ipa_pm_handle_suspend pipe_bitmask pipe_arr_idx p =
     (if pipe_bitmask = 0 then []
      else suspend_loop p pipe_bitmask (unat (pipe_arr_idx * 32)) [0..<IPA_EP_PER_REG] [])"

end
