(* ===== verification/Ipa_Pm_Step.thy ===== *)
theory Ipa_Pm_Step
  imports Ipa_Pm
begin

text \<open>
  The concurrent operations of the power manager.  A function runs in steps, cut where the C code takes a lock, blocks, or
  works without a lock; between two steps anything else may happen.  Each function has a type of positions and one definition
  that says what is done at a position and where it goes on.

  The threads are the calls of each client, which follow one another (\<open>api\<close>, by handle), the single thread of the
  work queue (\<open>worker\<close>) and \<^verbatim>\<open>ipa_pm_deactivate_all_deferred\<close> (\<open>sweep\<close>), one run at a time.  Queued work may start in any
  order and a timer may expire as soon as it is set.  Registration, which only the new client can be affected by, is one step.

  Following the pointer to a client that is gone is a fault, \<open>None\<close>, as is \<^verbatim>\<open>ipa_assert\<close> in the clock.  A completion is the
  flag that \<^verbatim>\<open>complete_all\<close> sets, a wake-up source the flag that it is held, a work item the flag that it is queued.
\<close>

section \<open>Threads\<close>

datatype scale_pos = Sc_Start | Sc_Vote int

datatype act_pos = Act_Entry | Act_Waiting | Act_Switch | Act_Inc | Act_Got | Act_Bit | Act_Queue | Act_Scale scale_pos

datatype deact_pos =
    Ds_Entry | Ds_Check | Ds_Waiting | Ds_Lock | Ds_Dec | Ds_Relax | Ds_State | Ds_Cancel | Ds_Bit | Ds_Scale scale_pos

datatype dereg_pos = Dr_Entry | Dr_Waiting | Dr_Locked | Dr_Free

datatype tput_pos = St_Set | St_Check | St_Scale scale_pos

datatype api_pos =
    Returned int
  | Activate bool act_pos
  | DeferredDeactivate
  | DeactivateSync deact_pos
  | Deregister dereg_pos
  | SetThroughput int tput_pos

datatype act_work_pos =
    Aw_Inc | Aw_Awake | Aw_State | Aw_Complete bool | Aw_Dec | Aw_Relax | Aw_Bit | Aw_Callback | Aw_Scale scale_pos

datatype deact_work_pos = Dw_State | Dw_Dec | Dw_Relax | Dw_Bit | Dw_Scale scale_pos

datatype work_pos =
    NoWork
  | ActivateWork nat act_work_pos
  | DeactivateWork nat deact_work_pos
  | ScalingWork scale_pos

text \<open>A number is the client \<^verbatim>\<open>i\<close> of the loop, a truth value \<^verbatim>\<open>run_algorithm\<close>.\<close>

datatype sweep_pos =
    NoSweep
  | Sw_Client nat bool
  | Sw_Check nat bool
  | Sw_Waiting nat bool
  | Sw_Lock nat bool
  | Sw_Dec nat
  | Sw_Relax nat
  | Sw_Bit nat
  | Sw_Scale scale_pos

text \<open>\<open>other_votes\<close> counts the votes of the other users of the clock.\<close>

record pm_sys =
  pm :: ipa_pm_ctx
  clk :: ipa_clk
  api :: "nat \<Rightarrow> api_pos"
  worker :: work_pos
  sweep :: sweep_pos
  cb_log :: "(nat \<times> ipa_pm_cb_event) list"
  other_votes :: nat

text \<open>The outcome of a step: another position, the return of the function, or that it has to wait.\<close>

datatype 'p go = Goto 'p | Return int | Blocked

definition client_of :: "nat \<Rightarrow> pm_sys \<Rightarrow> ipa_pm_client option" where
  "client_of h s = pm_clients (pm s) h"

definition put_client :: "nat \<Rightarrow> ipa_pm_client \<Rightarrow> pm_sys \<Rightarrow> pm_sys" where
  "put_client h c s = s\<lparr>pm := (pm s)\<lparr>pm_clients := (pm_clients (pm s))(h := Some c)\<rparr>\<rparr>"

definition ipa_pm_set_clock_index :: "int \<Rightarrow> ipa_pm_ctx \<Rightarrow> ipa_pm_ctx" where
  "ipa_pm_set_clock_index index p =
     (if index \<ge> 0 then p\<lparr>clk_scaling := (clk_scaling p)\<lparr>cur_vote := index\<rparr>\<rparr> else p)"

text \<open>Voting for the clock and against it; switching the clock off sets the vote of the power manager to 0.\<close>

definition clk_inc :: "pm_sys \<Rightarrow> pm_sys" where
  "clk_inc s = s\<lparr>clk := ipa3_inc_client_enable_clks (clk s)\<rparr>"

definition clk_result :: "(bool \<times> ipa_clk) option \<Rightarrow> pm_sys \<Rightarrow> pm_sys option" where
  "clk_result r s =
     do { (gated, c) \<leftarrow> r;
          Some (s\<lparr>pm := if gated then ipa_pm_set_clock_index 0 (pm s) else pm s, clk := c\<rparr>) }"

definition clk_dec :: "clk_env \<Rightarrow> pm_sys \<Rightarrow> pm_sys option" where
  "clk_dec e s = clk_result (ipa3_dec_client_disable_clks e (clk s)) s"

text \<open>Dropping the vote under the name of a client.\<close>

definition client_dec :: "clk_env \<Rightarrow> nat \<Rightarrow> pm_sys \<Rightarrow> pm_sys option" where
  "client_dec e h s = do { c \<leftarrow> client_of h s; clk_dec e s }"

text \<open>\<^verbatim>\<open>__pm_stay_awake\<close> and \<^verbatim>\<open>__pm_relax\<close> of a client of the applications group.\<close>

definition stay_awake :: "ipa_pm_client \<Rightarrow> ipa_pm_client" where
  "stay_awake c = (if cl_group c = IPA_PM_GROUP_APPS then c\<lparr>cl_awake := True\<rparr> else c)"

definition relax :: "ipa_pm_client \<Rightarrow> ipa_pm_client" where
  "relax c = (if cl_group c = IPA_PM_GROUP_APPS then c\<lparr>cl_awake := False\<rparr> else c)"

section \<open>Clock scaling\<close>

text \<open>\<open>None\<close> as the next position is the return.\<close>

fun do_clk_scaling :: "scale_pos \<Rightarrow> pm_sys \<Rightarrow> (scale_pos option \<times> pm_sys) option" where
  "do_clk_scaling Sc_Start s =
     (if \<not> clk_vote (clk s) then Some (None, s)
      else
        let tput = calculate_throughput (pm s)
        in Some (Some (Sc_Vote tput), s\<lparr>pm := set_current_threshold ((pm s)\<lparr>aggregated_tput := tput\<rparr>)\<rparr>))"
| "do_clk_scaling (Sc_Vote tput) s =
     (let db = clk_scaling (pm s) in
      do {
        ths \<leftarrow> threshold_of db;
        let new_th_idx = new_threshold_index tput (take (nat (threshold_size db)) ths);
        Some (None,
          if cur_vote db \<noteq> new_th_idx
          then s\<lparr>pm := (pm s)\<lparr>clk_scaling := db\<lparr>cur_vote := new_th_idx\<rparr>\<rparr>, clk := snd (ipa3_set_clock_plan_from_pm new_th_idx (clk s))\<rparr>
          else s) })"

text \<open>The scaling at the end of a function, which then returns \<open>0\<close>.\<close>

definition scale_then :: "(scale_pos \<Rightarrow> 'p) \<Rightarrow> scale_pos \<Rightarrow> pm_sys \<Rightarrow> ('p go \<times> pm_sys) option" where
  "scale_then f p s =
     do { (q, s) \<leftarrow> do_clk_scaling p s; Some (case q of None \<Rightarrow> Return 0 | Some q \<Rightarrow> Goto (f q), s) }"

section \<open>Calls of a client\<close>

text \<open>The lines of \<^verbatim>\<open>ipa_pm_activate_helper\<close> after the wait, up to where the lock is dropped.\<close>

definition got_clocks :: "ipa_pm_client \<Rightarrow> ipa_pm_client" where
  "got_clocks c = stay_awake (c\<lparr>cl_state := IPA_PM_ACTIVATED\<rparr>)"

definition act_switch :: "bool \<Rightarrow> nat \<Rightarrow> ipa_pm_client \<Rightarrow> pm_sys \<Rightarrow> act_pos go \<times> pm_sys" where
  "act_switch sync h c s =
     (case cl_state c of
        IPA_PM_ACTIVATED_PENDING_RESCHEDULE \<Rightarrow> (Return 0, put_client h (c\<lparr>cl_state := IPA_PM_ACTIVATED_TIMER_SET\<rparr>) s)
      | IPA_PM_ACTIVATED_PENDING_DEACTIVATION \<Rightarrow> (Return 0, put_client h (c\<lparr>cl_state := IPA_PM_ACTIVATED_TIMER_SET\<rparr>) s)
      | IPA_PM_ACTIVATED \<Rightarrow> (Return 0, s)
      | IPA_PM_ACTIVATED_TIMER_SET \<Rightarrow> (Return 0, s)
      | IPA_PM_DEACTIVATED \<Rightarrow>
          if cl_skip_clk_vote c then (Goto Act_Bit, put_client h (got_clocks c) s)
          else if sync then (Goto Act_Inc, put_client h (c\<lparr>cl_state := IPA_PM_ACTIVATE_IN_PROGRESS\<rparr>) s)
          else
            let (result, k) = ipa3_inc_client_enable_clks_no_block (clk s) in
            if result = 0 then (Goto Act_Bit, put_client h (got_clocks c) (s\<lparr>clk := k\<rparr>))
            else (Return (- EINPROGRESS),
                  put_client h (c\<lparr>cl_state := IPA_PM_ACTIVATE_IN_PROGRESS, cl_complete := False, cl_act_queued := True\<rparr>) s)
      | _ \<Rightarrow> (Return (- EPERM), s))"

fun ipa_pm_activate_helper :: "bool \<Rightarrow> nat \<Rightarrow> act_pos \<Rightarrow> pm_sys \<Rightarrow> (act_pos go \<times> pm_sys) option" where
  "ipa_pm_activate_helper sync h Act_Entry s =
     do { c \<leftarrow> client_of h s;
          Some (if \<not> IPA_PM_STATE_IN_PROGRESS (cl_state c) then act_switch sync h c s
                else if sync then (Goto Act_Waiting, s)
                else (Return (- EINPROGRESS), put_client h (c\<lparr>cl_state := IPA_PM_ACTIVATE_IN_PROGRESS\<rparr>) s)) }"
| "ipa_pm_activate_helper sync h Act_Waiting s =
     do { c \<leftarrow> client_of h s; Some (if cl_complete c then Goto Act_Switch else Blocked, s) }"
| "ipa_pm_activate_helper sync h Act_Switch s =
     do { c \<leftarrow> client_of h s; Some (act_switch sync h c s) }"
| "ipa_pm_activate_helper sync h Act_Inc s =
     do { c \<leftarrow> client_of h s; Some (Goto Act_Got, clk_inc s) }"
| "ipa_pm_activate_helper sync h Act_Got s =
     do { c \<leftarrow> client_of h s; Some (Goto Act_Bit, put_client h (got_clocks c) s) }"
| "ipa_pm_activate_helper sync h Act_Bit s =
     do { c \<leftarrow> client_of h s;
          Some (Goto (if sync then Act_Scale Sc_Start else Act_Queue), s\<lparr>pm := activate_client h (pm s)\<rparr>) }"
| "ipa_pm_activate_helper sync h Act_Queue s =
     Some (Return 0, s\<lparr>pm := (pm s)\<lparr>clk_scaling := (clk_scaling (pm s))\<lparr>scaling_queued := True\<rparr>\<rparr>\<rparr>)"
| "ipa_pm_activate_helper sync h (Act_Scale p) s = scale_then Act_Scale p s"

definition ipa_pm_deferred_deactivate :: "nat \<Rightarrow> pm_sys \<Rightarrow> (unit go \<times> pm_sys) option" where
  "ipa_pm_deferred_deactivate h s =
     do { c \<leftarrow> client_of h s;
          Some (Return 0,
            case cl_state c of
              IPA_PM_ACTIVATE_IN_PROGRESS \<Rightarrow> put_client h (c\<lparr>cl_state := IPA_PM_DEACTIVATE_IN_PROGRESS\<rparr>) s
            | IPA_PM_DEACTIVATED \<Rightarrow> s
            | IPA_PM_ACTIVATED \<Rightarrow> put_client h (c\<lparr>cl_state := IPA_PM_ACTIVATED_PENDING_DEACTIVATION, cl_timer := True\<rparr>) s
            | IPA_PM_ACTIVATED_TIMER_SET \<Rightarrow> put_client h (c\<lparr>cl_state := IPA_PM_ACTIVATED_PENDING_RESCHEDULE\<rparr>) s
            | IPA_PM_ACTIVATED_PENDING_DEACTIVATION \<Rightarrow> put_client h (c\<lparr>cl_state := IPA_PM_ACTIVATED_PENDING_RESCHEDULE\<rparr>) s
            | IPA_PM_DEACTIVATE_IN_PROGRESS \<Rightarrow> s
            | IPA_PM_ACTIVATED_PENDING_RESCHEDULE \<Rightarrow> s) }"

text \<open>\<^verbatim>\<open>cancel_delayed_work_sync\<close>: waits while the work runs, and takes it off the timer and the queue.\<close>

definition deactivate_work_runs :: "nat \<Rightarrow> pm_sys \<Rightarrow> bool" where
  "deactivate_work_runs h s = (case worker s of DeactivateWork i _ \<Rightarrow> i = h | _ \<Rightarrow> False)"

definition cancel_delayed_work_sync :: "nat \<Rightarrow> 'p \<Rightarrow> pm_sys \<Rightarrow> ('p go \<times> pm_sys) option" where
  "cancel_delayed_work_sync h next s =
     do { c \<leftarrow> client_of h s;
          Some (if deactivate_work_runs h s then (Blocked, s) else (Goto next, put_client h (c\<lparr>cl_timer := False\<rparr>) s)) }"

fun ipa_pm_deactivate_sync :: "clk_env \<Rightarrow> nat \<Rightarrow> deact_pos \<Rightarrow> pm_sys \<Rightarrow> (deact_pos go \<times> pm_sys) option" where
  "ipa_pm_deactivate_sync e h Ds_Entry s = cancel_delayed_work_sync h Ds_Check s"
| "ipa_pm_deactivate_sync e h Ds_Check s =
     do { c \<leftarrow> client_of h s; Some (Goto (if IPA_PM_STATE_IN_PROGRESS (cl_state c) then Ds_Waiting else Ds_Lock), s) }"
| "ipa_pm_deactivate_sync e h Ds_Waiting s =
     do { c \<leftarrow> client_of h s; Some (if cl_complete c then Goto Ds_Lock else Blocked, s) }"
| "ipa_pm_deactivate_sync e h Ds_Lock s =
     do { c \<leftarrow> client_of h s;
          Some (if cl_state c = IPA_PM_DEACTIVATED then Return 0
                else Goto (if cl_skip_clk_vote c then Ds_State else Ds_Dec), s) }"
| "ipa_pm_deactivate_sync e h Ds_Dec s =
     do { s \<leftarrow> client_dec e h s; Some (Goto Ds_Relax, s) }"
| "ipa_pm_deactivate_sync e h Ds_Relax s =
     do { c \<leftarrow> client_of h s; Some (Goto Ds_State, put_client h (relax c) s) }"
| "ipa_pm_deactivate_sync e h Ds_State s =
     do { c \<leftarrow> client_of h s; Some (Goto Ds_Cancel, put_client h (c\<lparr>cl_state := IPA_PM_DEACTIVATED\<rparr>) s) }"
| "ipa_pm_deactivate_sync e h Ds_Cancel s = cancel_delayed_work_sync h Ds_Bit s"
| "ipa_pm_deactivate_sync e h Ds_Bit s = Some (Goto (Ds_Scale Sc_Start), s\<lparr>pm := deactivate_client h (pm s)\<rparr>)"
| "ipa_pm_deactivate_sync e h (Ds_Scale p) s = scale_then Ds_Scale p s"

text \<open>With the lock held, after the wait if there was one.  To free a client whose work is queued is a fault: the queue
  would point to freed memory.\<close>

definition dereg_locked :: "ipa_pm_client \<Rightarrow> dereg_pos go" where
  "dereg_locked c = (if IPA_PM_STATE_ACTIVE (cl_state c) then Return (- EPERM) else Goto Dr_Free)"

fun ipa_pm_deregister :: "nat \<Rightarrow> dereg_pos \<Rightarrow> pm_sys \<Rightarrow> (dereg_pos go \<times> pm_sys) option" where
  "ipa_pm_deregister h Dr_Entry s =
     do { c \<leftarrow> client_of h s;
          Some (if IPA_PM_STATE_IN_PROGRESS (cl_state c) then Goto Dr_Waiting else dereg_locked c, s) }"
| "ipa_pm_deregister h Dr_Waiting s =
     do { c \<leftarrow> client_of h s; Some (if cl_complete c then Goto Dr_Locked else Blocked, s) }"
| "ipa_pm_deregister h Dr_Locked s =
     do { c \<leftarrow> client_of h s; Some (dereg_locked c, s) }"
| "ipa_pm_deregister h Dr_Free s =
     do { c \<leftarrow> client_of h s;
          if cl_timer c \<or> cl_act_queued c then None else Some (Return 0, s\<lparr>pm := free_client h (pm s)\<rparr>) }"

fun ipa_pm_set_throughput :: "nat \<Rightarrow> int \<Rightarrow> tput_pos \<Rightarrow> pm_sys \<Rightarrow> (tput_pos go \<times> pm_sys) option" where
  "ipa_pm_set_throughput h throughput St_Set s =
     (case client_of h s of
        None \<Rightarrow> Some (Return (- EINVAL), s)
      | Some c \<Rightarrow>
          if throughput < 0 then Some (Return (- EINVAL), s)
          else if cl_group c = IPA_PM_GROUP_DEFAULT then Some (Goto St_Check, put_client h (c\<lparr>cl_throughput := throughput\<rparr>) s)
          else Some (Goto St_Check, s\<lparr>pm := (pm s)\<lparr>group_tput := (group_tput (pm s))(cl_group c := throughput)\<rparr>\<rparr>))"
| "ipa_pm_set_throughput h throughput St_Check s =
     (case client_of h s of
        None \<Rightarrow> Some (Return 0, s)
      | Some c \<Rightarrow>
          Some (if IPA_PM_STATE_ACTIVE (cl_state c) \<or> cl_group c \<noteq> IPA_PM_GROUP_DEFAULT then Goto (St_Scale Sc_Start) else Return 0, s))"
| "ipa_pm_set_throughput h throughput (St_Scale p) s = scale_then St_Scale p s"

section \<open>The work queue\<close>

fun activate_work_func :: "clk_env \<Rightarrow> nat \<Rightarrow> act_work_pos \<Rightarrow> pm_sys \<Rightarrow> (act_work_pos go \<times> pm_sys) option" where
  "activate_work_func e h Aw_Inc s =
     do { c \<leftarrow> client_of h s; Some (if cl_skip_clk_vote c then (Goto Aw_State, s) else (Goto Aw_Awake, clk_inc s)) }"
| "activate_work_func e h Aw_Awake s =
     do { c \<leftarrow> client_of h s; Some (Goto Aw_State, put_client h (stay_awake c) s) }"
| "activate_work_func e h Aw_State s =
     do { c \<leftarrow> client_of h s;
          Some (case cl_state c of
                  IPA_PM_ACTIVATE_IN_PROGRESS \<Rightarrow> (Goto (Aw_Complete False), put_client h (c\<lparr>cl_state := IPA_PM_ACTIVATED\<rparr>) s)
                | IPA_PM_DEACTIVATE_IN_PROGRESS \<Rightarrow> (Goto (Aw_Complete True), put_client h (c\<lparr>cl_state := IPA_PM_DEACTIVATED\<rparr>) s)
                | _ \<Rightarrow> (Goto (Aw_Complete False), s)) }"
| "activate_work_func e h (Aw_Complete dec_clk) s =
     do { c \<leftarrow> client_of h s;
          Some (if \<not> dec_clk then Goto Aw_Bit else if cl_skip_clk_vote c then Return 0 else Goto Aw_Dec,
                put_client h (c\<lparr>cl_complete := True\<rparr>) s) }"
| "activate_work_func e h Aw_Dec s =
     do { s \<leftarrow> client_dec e h s; Some (Goto Aw_Relax, s) }"
| "activate_work_func e h Aw_Relax s =
     do { c \<leftarrow> client_of h s; Some (Return 0, put_client h (relax c) s) }"
| "activate_work_func e h Aw_Bit s =
     do { c \<leftarrow> client_of h s; Some (Goto Aw_Callback, s\<lparr>pm := activate_client h (pm s)\<rparr>) }"
| "activate_work_func e h Aw_Callback s =
     do { c \<leftarrow> client_of h s;
          Some (Goto (Aw_Scale Sc_Start), if cl_callback c then s\<lparr>cb_log := cb_log s @ [(h, IPA_PM_CLIENT_ACTIVATED)]\<rparr> else s) }"
| "activate_work_func e h (Aw_Scale p) s = scale_then Aw_Scale p s"

fun delayed_deferred_deactivate_work_func ::
    "clk_env \<Rightarrow> nat \<Rightarrow> deact_work_pos \<Rightarrow> pm_sys \<Rightarrow> (deact_work_pos go \<times> pm_sys) option" where
  "delayed_deferred_deactivate_work_func e h Dw_State s =
     do { c \<leftarrow> client_of h s;
          Some (case cl_state c of
                  IPA_PM_ACTIVATED_TIMER_SET \<Rightarrow> (Return 0, put_client h (c\<lparr>cl_state := IPA_PM_ACTIVATED\<rparr>) s)
                | IPA_PM_ACTIVATED_PENDING_RESCHEDULE \<Rightarrow>
                    (Return 0, put_client h (c\<lparr>cl_state := IPA_PM_ACTIVATED_PENDING_DEACTIVATION, cl_timer := True\<rparr>) s)
                | IPA_PM_ACTIVATED_PENDING_DEACTIVATION \<Rightarrow>
                    (Goto (if cl_skip_clk_vote c then Dw_Bit else Dw_Dec), put_client h (c\<lparr>cl_state := IPA_PM_DEACTIVATED\<rparr>) s)
                | _ \<Rightarrow> (Return 0, s)) }"
| "delayed_deferred_deactivate_work_func e h Dw_Dec s =
     do { s \<leftarrow> client_dec e h s; Some (Goto Dw_Relax, s) }"
| "delayed_deferred_deactivate_work_func e h Dw_Relax s =
     do { c \<leftarrow> client_of h s; Some (Goto Dw_Bit, put_client h (relax c) s) }"
| "delayed_deferred_deactivate_work_func e h Dw_Bit s =
     do { c \<leftarrow> client_of h s; Some (Goto (Dw_Scale Sc_Start), s\<lparr>pm := deactivate_client h (pm s)\<rparr>) }"
| "delayed_deferred_deactivate_work_func e h (Dw_Scale p) s = scale_then Dw_Scale p s"

section \<open>Deactivation of all deferred clients\<close>

fun ipa_pm_deactivate_all_deferred :: "clk_env \<Rightarrow> sweep_pos \<Rightarrow> pm_sys \<Rightarrow> (sweep_pos go \<times> pm_sys) option" where
  "ipa_pm_deactivate_all_deferred e NoSweep s = Some (Return 0, s)"
| "ipa_pm_deactivate_all_deferred e (Sw_Client i r) s =
     (if i \<ge> IPA_PM_MAX_CLIENTS then Some (if r then Goto (Sw_Scale Sc_Start) else Return 0, s)
      else if client_of i s = None then Some (Goto (Sw_Client (i + 1) r), s)
      else cancel_delayed_work_sync i (Sw_Check i r) s)"
| "ipa_pm_deactivate_all_deferred e (Sw_Check i r) s =
     do { c \<leftarrow> client_of i s; Some (Goto (if IPA_PM_STATE_IN_PROGRESS (cl_state c) then Sw_Waiting i r else Sw_Lock i r), s) }"
| "ipa_pm_deactivate_all_deferred e (Sw_Waiting i r) s =
     do { c \<leftarrow> client_of i s; Some (if cl_complete c then Goto (Sw_Client (i + 1) r) else Blocked, s) }"
| "ipa_pm_deactivate_all_deferred e (Sw_Lock i r) s =
     do { c \<leftarrow> client_of i s;
          Some (if cl_state c = IPA_PM_ACTIVATED_TIMER_SET
                then (Goto (Sw_Client (i + 1) r), put_client i (c\<lparr>cl_state := IPA_PM_ACTIVATED\<rparr>) s)
                else if cl_state c = IPA_PM_ACTIVATED_PENDING_DEACTIVATION \<or> cl_state c = IPA_PM_ACTIVATED_PENDING_RESCHEDULE
                then (Goto (if cl_skip_clk_vote c then Sw_Bit i else Sw_Dec i), put_client i (c\<lparr>cl_state := IPA_PM_DEACTIVATED\<rparr>) s)
                else (Goto (Sw_Client (i + 1) r), s)) }"
| "ipa_pm_deactivate_all_deferred e (Sw_Dec i) s =
     do { s \<leftarrow> client_dec e i s; Some (Goto (Sw_Relax i), s) }"
| "ipa_pm_deactivate_all_deferred e (Sw_Relax i) s =
     do { c \<leftarrow> client_of i s; Some (Goto (Sw_Bit i), put_client i (relax c) s) }"
| "ipa_pm_deactivate_all_deferred e (Sw_Bit i) s =
     do { c \<leftarrow> client_of i s; Some (Goto (Sw_Client (i + 1) True), s\<lparr>pm := deactivate_client i (pm s)\<rparr>) }"
| "ipa_pm_deactivate_all_deferred e (Sw_Scale p) s = scale_then Sw_Scale p s"

section \<open>The system\<close>

datatype pm_call = CallActivate | CallActivateSync | CallDeferredDeactivate | CallDeactivateSync | CallDeregister | CallSetThroughput int

definition call_pos :: "pm_call \<Rightarrow> api_pos" where
  "call_pos f =
     (case f of
        CallActivate \<Rightarrow> Activate False Act_Entry
      | CallActivateSync \<Rightarrow> Activate True Act_Entry
      | CallDeferredDeactivate \<Rightarrow> DeferredDeactivate
      | CallDeactivateSync \<Rightarrow> DeactivateSync Ds_Entry
      | CallDeregister \<Rightarrow> Deregister Dr_Entry
      | CallSetThroughput t \<Rightarrow> SetThroughput t St_Set)"

text \<open>A call with a handle; all of them refuse a handle without client.\<close>

definition start_call :: "nat \<Rightarrow> pm_call \<Rightarrow> pm_sys \<Rightarrow> pm_sys" where
  "start_call h f s =
     s\<lparr>api := (api s)(h := if h \<ge> IPA_PM_MAX_CLIENTS \<or> client_of h s = None then Returned (- EINVAL) else call_pos f)\<rparr>"

definition api_go :: "nat \<Rightarrow> ('p \<Rightarrow> api_pos) \<Rightarrow> ('p go \<times> pm_sys) option \<Rightarrow> pm_sys option" where
  "api_go h f r =
     do { (g, s) \<leftarrow> r;
          Some (case g of Goto p \<Rightarrow> s\<lparr>api := (api s)(h := f p)\<rparr> | Return v \<Rightarrow> s\<lparr>api := (api s)(h := Returned v)\<rparr> | Blocked \<Rightarrow> s) }"

definition api_step :: "clk_env \<Rightarrow> nat \<Rightarrow> pm_sys \<Rightarrow> pm_sys option" where
  "api_step e h s =
     (case api s h of
        Returned _ \<Rightarrow> Some s
      | Activate sync p \<Rightarrow> api_go h (Activate sync) (ipa_pm_activate_helper sync h p s)
      | DeferredDeactivate \<Rightarrow> api_go h (\<lambda>_. DeferredDeactivate) (ipa_pm_deferred_deactivate h s)
      | DeactivateSync p \<Rightarrow> api_go h DeactivateSync (ipa_pm_deactivate_sync e h p s)
      | Deregister p \<Rightarrow> api_go h Deregister (ipa_pm_deregister h p s)
      | SetThroughput t p \<Rightarrow> api_go h (SetThroughput t) (ipa_pm_set_throughput h t p s))"

definition work_go :: "('p \<Rightarrow> work_pos) \<Rightarrow> ('p go \<times> pm_sys) option \<Rightarrow> pm_sys option" where
  "work_go f r =
     do { (g, s) \<leftarrow> r; Some (case g of Goto p \<Rightarrow> s\<lparr>worker := f p\<rparr> | Return v \<Rightarrow> s\<lparr>worker := NoWork\<rparr> | Blocked \<Rightarrow> s) }"

definition worker_step :: "clk_env \<Rightarrow> pm_sys \<Rightarrow> pm_sys option" where
  "worker_step e s =
     (case worker s of
        NoWork \<Rightarrow> Some s
      | ActivateWork h p \<Rightarrow> work_go (ActivateWork h) (activate_work_func e h p s)
      | DeactivateWork h p \<Rightarrow> work_go (DeactivateWork h) (delayed_deferred_deactivate_work_func e h p s)
      | ScalingWork p \<Rightarrow> work_go ScalingWork (scale_then id p s))"

definition sweep_step :: "clk_env \<Rightarrow> pm_sys \<Rightarrow> pm_sys option" where
  "sweep_step e s =
     do { (g, s) \<leftarrow> ipa_pm_deactivate_all_deferred e (sweep s) s;
          Some (case g of Goto p \<Rightarrow> s\<lparr>sweep := p\<rparr> | Return v \<Rightarrow> s\<lparr>sweep := NoSweep\<rparr> | Blocked \<Rightarrow> s) }"

datatype pm_event =
    EvRegister bool bool ipa_pm_register_params
  | EvCall nat pm_call
  | EvApi clk_env nat
  | EvStartActivate nat
  | EvStartDeactivate nat
  | EvStartScaling
  | EvWorker clk_env
  | EvStartSweep
  | EvSweep clk_env
  | EvOtherInc
  | EvOtherDec clk_env
  | EvPacketSent
  | EvTagWork clk_env
  | EvDecWork clk_env

text \<open>An event whose condition does not hold changes nothing.\<close>

definition pm_exec :: "pm_event \<Rightarrow> pm_sys \<Rightarrow> pm_sys option" where
  "pm_exec ev s =
     (case ev of
        EvRegister mem_ok wlock_ok par \<Rightarrow>
          let (r, h, p) = ipa_pm_register mem_ok wlock_ok par (pm s) in Some (s\<lparr>pm := p\<rparr>)
      | EvCall h f \<Rightarrow> Some (case api s h of Returned _ \<Rightarrow> start_call h f s | _ \<Rightarrow> s)
      | EvApi e h \<Rightarrow> api_step e h s
      | EvStartActivate h \<Rightarrow>
          (case client_of h s of
             Some c \<Rightarrow> Some (if worker s = NoWork \<and> cl_act_queued c
                             then (put_client h (c\<lparr>cl_act_queued := False\<rparr>) s)\<lparr>worker := ActivateWork h Aw_Inc\<rparr> else s)
           | None \<Rightarrow> Some s)
      | EvStartDeactivate h \<Rightarrow>
          (case client_of h s of
             Some c \<Rightarrow> Some (if worker s = NoWork \<and> cl_timer c
                             then (put_client h (c\<lparr>cl_timer := False\<rparr>) s)\<lparr>worker := DeactivateWork h Dw_State\<rparr> else s)
           | None \<Rightarrow> Some s)
      | EvStartScaling \<Rightarrow>
          Some (if worker s = NoWork \<and> scaling_queued (clk_scaling (pm s))
                then s\<lparr>pm := (pm s)\<lparr>clk_scaling := (clk_scaling (pm s))\<lparr>scaling_queued := False\<rparr>\<rparr>, worker := ScalingWork Sc_Start\<rparr> else s)
      | EvWorker e \<Rightarrow> worker_step e s
      | EvStartSweep \<Rightarrow> Some (if sweep s = NoSweep then s\<lparr>sweep := Sw_Client 1 False\<rparr> else s)
      | EvSweep e \<Rightarrow> sweep_step e s
      | EvOtherInc \<Rightarrow> Some ((clk_inc s)\<lparr>other_votes := other_votes s + 1\<rparr>)
      | EvOtherDec e \<Rightarrow>
          if other_votes s = 0 then Some s else do { s \<leftarrow> clk_dec e s; Some (s\<lparr>other_votes := other_votes s - 1\<rparr>) }
      | EvPacketSent \<Rightarrow> Some (s\<lparr>clk := (clk s)\<lparr>tag_before_gating := True\<rparr>\<rparr>)
      | EvTagWork e \<Rightarrow> if tag_work (clk s) then clk_result (ipa3_start_tag_process e (clk s)) s else Some s
      | EvDecWork e \<Rightarrow> if dec_work (clk s) then clk_result (ipa_dec_clients_disable_clks_on_wq e (clk s)) s else Some s)"

text \<open>The power manager and the clock after initialisation.\<close>

definition pm_start :: "ipa_pm_ctx \<Rightarrow> ipa_clk \<Rightarrow> nat \<Rightarrow> pm_sys" where
  "pm_start p c v =
     \<lparr>pm = p, clk = c, api = (\<lambda>_. Returned 0), worker = NoWork, sweep = NoSweep, cb_log = [], other_votes = v\<rparr>"

fun pm_run :: "pm_event list \<Rightarrow> pm_sys \<Rightarrow> pm_sys option" where
  "pm_run [] s = Some s"
| "pm_run (ev # evs) s = do { s \<leftarrow> pm_exec ev s; pm_run evs s }"

end
