(* ===== verification/Ipa_Pm_Inv.thy ===== *)
theory Ipa_Pm_Inv
  imports Ipa_Pm_Step
begin

text \<open>
  The votes of the power manager for the clock.  The count of the clock is at every moment the votes of the other users, one for each
  active client and one for each vote a thread has taken and not yet recorded in the state of the client, or recorded and not yet
  dropped.  What the invariant says of a client depends only on what the threads do with it, its view.
\<close>

section \<open>The invariant\<close>

definition act_work_on :: "nat \<Rightarrow> work_pos \<Rightarrow> act_work_pos option" where
  "act_work_on h w = (case w of ActivateWork i p \<Rightarrow> if i = h then Some p else None | _ \<Rightarrow> None)"

definition deact_work_on :: "nat \<Rightarrow> work_pos \<Rightarrow> deact_work_pos option" where
  "deact_work_on h w = (case w of DeactivateWork i p \<Rightarrow> if i = h then Some p else None | _ \<Rightarrow> None)"

text \<open>The client whose pointer the sweep holds.\<close>

definition sweep_client :: "sweep_pos \<Rightarrow> nat option" where
  "sweep_client p =
     (case p of Sw_Check i _ \<Rightarrow> Some i | Sw_Waiting i _ \<Rightarrow> Some i | Sw_Lock i _ \<Rightarrow> Some i | Sw_Dec i \<Rightarrow> Some i
              | Sw_Relax i \<Rightarrow> Some i | Sw_Bit i \<Rightarrow> Some i | _ \<Rightarrow> None)"

definition sweep_on :: "nat \<Rightarrow> sweep_pos \<Rightarrow> sweep_pos" where
  "sweep_on h p = (if sweep_client p = Some h then p else NoSweep)"

record pm_view =
  v_api :: api_pos
  v_act :: "act_work_pos option"
  v_deact :: "deact_work_pos option"
  v_sweep :: sweep_pos

definition view :: "nat \<Rightarrow> pm_sys \<Rightarrow> pm_view" where
  "view h s = \<lparr>v_api = api s h, v_act = act_work_on h (worker s), v_deact = deact_work_on h (worker s), v_sweep = sweep_on h (sweep s)\<rparr>"

text \<open>\<^verbatim>\<open>ipa_pm_deactivate_sync\<close> has dropped the vote and the state does not tell yet; it is about to drop it.\<close>

definition ds_dropped :: "api_pos \<Rightarrow> bool" where
  "ds_dropped a \<longleftrightarrow> a = DeactivateSync Ds_Relax \<or> a = DeactivateSync Ds_State"

definition ds_between :: "api_pos \<Rightarrow> bool" where
  "ds_between a \<longleftrightarrow> a = DeactivateSync Ds_Dec \<or> ds_dropped a"

definition ds_cancelled :: "api_pos \<Rightarrow> bool" where
  "ds_cancelled a \<longleftrightarrow> a = DeactivateSync Ds_Check \<or> a = DeactivateSync Ds_Waiting \<or> a = DeactivateSync Ds_Lock \<or> ds_between a"

definition sync_activating :: "api_pos \<Rightarrow> bool" where
  "sync_activating a \<longleftrightarrow> (\<exists>b. a = Activate b Act_Inc \<or> a = Activate b Act_Got)"

definition waiting :: "api_pos \<Rightarrow> bool" where
  "waiting a \<longleftrightarrow> (\<exists>b. a = Activate b Act_Waiting) \<or> a = DeactivateSync Ds_Waiting \<or> a = Deregister Dr_Waiting"

definition aw_early :: "act_work_pos option \<Rightarrow> bool" where
  "aw_early w \<longleftrightarrow> w = Some Aw_Inc \<or> w = Some Aw_Awake \<or> w = Some Aw_State"

definition aw_completing :: "act_work_pos option \<Rightarrow> bool" where
  "aw_completing w \<longleftrightarrow> (\<exists>d. w = Some (Aw_Complete d))"

definition votes :: "ipa_pm_client option \<Rightarrow> pm_view \<Rightarrow> nat" where
  "votes oc v =
     (case oc of
        None \<Rightarrow> 0
      | Some c \<Rightarrow>
          if cl_skip_clk_vote c then 0
          else of_bool (IPA_PM_STATE_ACTIVE (cl_state c) \<and> \<not> ds_dropped (v_api v)) +
               of_bool (\<exists>b. v_api v = Activate b Act_Got) +
               of_bool (v_act v = Some Aw_Awake \<or> v_act v = Some Aw_State \<or> v_act v = Some (Aw_Complete True) \<or> v_act v = Some Aw_Dec) +
               of_bool (v_deact v = Some Dw_Dec) +
               of_bool (\<exists>i. v_sweep v = Sw_Dec i))"

definition client_ok :: "nat \<Rightarrow> ipa_pm_client \<Rightarrow> pm_view \<Rightarrow> bool" where
  "client_ok h c v \<longleftrightarrow>
     h < IPA_PM_MAX_CLIENTS \<and>
     (cl_act_queued c \<longrightarrow> IPA_PM_STATE_IN_PROGRESS (cl_state c) \<and> \<not> cl_complete c \<and> \<not> aw_early (v_act v) \<and>
        \<not> aw_completing (v_act v) \<and> \<not> sync_activating (v_api v)) \<and>
     (aw_early (v_act v) \<longrightarrow> IPA_PM_STATE_IN_PROGRESS (cl_state c) \<and> \<not> cl_complete c \<and> \<not> sync_activating (v_api v)) \<and>
     (aw_completing (v_act v) \<longrightarrow> \<not> cl_complete c) \<and>
     (IPA_PM_STATE_IN_PROGRESS (cl_state c) \<longrightarrow> cl_act_queued c \<or> aw_early (v_act v) \<or> sync_activating (v_api v)) \<and>
     (sync_activating (v_api v) \<longrightarrow> IPA_PM_STATE_IN_PROGRESS (cl_state c)) \<and>
     (ds_cancelled (v_api v) \<longrightarrow> \<not> cl_timer c \<and> v_deact v = None) \<and>
     (ds_between (v_api v) \<longrightarrow> IPA_PM_STATE_ACTIVE (cl_state c)) \<and>
     ((\<exists>b. v_api v = Activate b Act_Switch) \<or> v_api v = DeactivateSync Ds_Lock \<or> v_api v = Deregister Dr_Locked \<longrightarrow>
        \<not> IPA_PM_STATE_IN_PROGRESS (cl_state c)) \<and>
     ((\<exists>b. v_api v = Activate b Act_Switch) \<longrightarrow> \<not> aw_completing (v_act v)) \<and>
     (v_api v = Deregister Dr_Free \<longrightarrow> cl_state c = IPA_PM_DEACTIVATED) \<and>
     (waiting (v_api v) \<and> \<not> cl_complete c \<and> \<not> IPA_PM_STATE_IN_PROGRESS (cl_state c) \<longrightarrow> aw_completing (v_act v)) \<and>
     (v_api v = DeactivateSync Ds_Dec \<or> v_api v = DeactivateSync Ds_Relax \<or> sync_activating (v_api v) \<or> v_act v = Some Aw_Awake \<or>
      v_act v = Some Aw_Dec \<or> v_deact v = Some Dw_Dec \<or> (\<exists>i. v_sweep v = Sw_Dec i) \<longrightarrow> \<not> cl_skip_clk_vote c)"

definition view_idle :: "pm_view \<Rightarrow> bool" where
  "view_idle v \<longleftrightarrow> (\<exists>r. v_api v = Returned r) \<and> v_act v = None \<and> v_deact v = None \<and> v_sweep v = NoSweep"

definition view_ok :: "nat \<Rightarrow> ipa_pm_client option \<Rightarrow> pm_view \<Rightarrow> bool" where
  "view_ok h oc v = (case oc of None \<Rightarrow> view_idle v | Some c \<Rightarrow> client_ok h c v)"

definition total_votes :: "pm_sys \<Rightarrow> nat" where
  "total_votes s = other_votes s + (\<Sum>h < IPA_PM_MAX_CLIENTS. votes (client_of h s) (view h s))"

text \<open>A thread that goes on to read the thresholds has set them.\<close>

definition threshold_ok :: "clk_scaling_db \<Rightarrow> bool" where
  "threshold_ok db \<longleftrightarrow>
     (case current_threshold db of ThNull \<Rightarrow> True | ThDefault \<Rightarrow> True | ThException i \<Rightarrow> i < length (exception_list db))"

definition is_vote :: "scale_pos \<Rightarrow> bool" where
  "is_vote p = (case p of Sc_Start \<Rightarrow> False | Sc_Vote _ \<Rightarrow> True)"

definition api_reads :: "api_pos \<Rightarrow> bool" where
  "api_reads a =
     (case a of Activate _ (Act_Scale p) \<Rightarrow> is_vote p | DeactivateSync (Ds_Scale p) \<Rightarrow> is_vote p | SetThroughput _ (St_Scale p) \<Rightarrow> is_vote p
              | _ \<Rightarrow> False)"

definition work_reads :: "work_pos \<Rightarrow> bool" where
  "work_reads w =
     (case w of ActivateWork _ (Aw_Scale p) \<Rightarrow> is_vote p | DeactivateWork _ (Dw_Scale p) \<Rightarrow> is_vote p | ScalingWork p \<Rightarrow> is_vote p | _ \<Rightarrow> False)"

definition sweep_reads :: "sweep_pos \<Rightarrow> bool" where
  "sweep_reads w = (case w of Sw_Scale p \<Rightarrow> is_vote p | _ \<Rightarrow> False)"

definition scaling_ok :: "pm_sys \<Rightarrow> bool" where
  "scaling_ok s \<longleftrightarrow> threshold_ok (clk_scaling (pm s)) \<and>
     ((\<exists>h. api_reads (api s h)) \<or> work_reads (worker s) \<or> sweep_reads (sweep s) \<longrightarrow> current_threshold (clk_scaling (pm s)) \<noteq> ThNull)"

definition pm_inv :: "pm_sys \<Rightarrow> bool" where
  "pm_inv s \<longleftrightarrow> clk_holds (total_votes s) (clk s) \<and> (\<forall>h. view_ok h (client_of h s) (view h s)) \<and> scaling_ok s"

section \<open>A step that concerns one client\<close>

definition local_step :: "nat \<Rightarrow> pm_sys \<Rightarrow> pm_sys \<Rightarrow> bool" where
  "local_step h s s' \<longleftrightarrow>
     (\<forall>i. i \<noteq> h \<longrightarrow> client_of i s' = client_of i s \<and> view i s' = view i s) \<and> other_votes s' = other_votes s"

lemma local_step_inv:
  assumes "pm_inv s" "local_step h s s'" "view_ok h (client_of h s') (view h s')" "scaling_ok s'" "h < IPA_PM_MAX_CLIENTS"
    "\<And>v. clk_holds (v + votes (client_of h s) (view h s)) (clk s) \<Longrightarrow> clk_holds (v + votes (client_of h s') (view h s')) (clk s')"
  shows "pm_inv s'"
proof -
  let ?f = "\<lambda>s i. votes (client_of i s) (view i s)"
  let ?r = "\<Sum>i \<in> {..<IPA_PM_MAX_CLIENTS} - {h}. ?f s i"
  have l: "\<And>i. i \<noteq> h \<Longrightarrow> client_of i s' = client_of i s \<and> view i s' = view i s" "other_votes s' = other_votes s"
    using assms(2) by (auto simp: local_step_def)
  have "(\<Sum>i \<in> {..<IPA_PM_MAX_CLIENTS} - {h}. ?f s' i) = ?r" by (rule sum.cong) (use l(1) in auto)
  then have t: "total_votes s = other_votes s + ?r + ?f s h" "total_votes s' = other_votes s + ?r + ?f s' h"
    using assms(5) l(2) by (simp_all add: total_votes_def sum.remove [of _ h])
  have "clk_holds (total_votes s') (clk s')" unfolding t(2) by (rule assms(6)) (use assms(1) t(1) in \<open>simp add: pm_inv_def\<close>)
  moreover have "view_ok i (client_of i s') (view i s')" for i
    using l(1) assms(1,3) by (cases "i = h") (auto simp: pm_inv_def)
  ultimately show ?thesis using assms(4) by (simp add: pm_inv_def)
qed

lemma client_of_put [simp]: "client_of i (put_client h c s) = (if i = h then Some c else client_of i s)"
  by (simp add: client_of_def put_client_def)

lemma put_client_frame [simp]:
  "clk (put_client h c s) = clk s" "api (put_client h c s) = api s" "worker (put_client h c s) = worker s"
  "sweep (put_client h c s) = sweep s" "other_votes (put_client h c s) = other_votes s"
  "clk_scaling (pm (put_client h c s)) = clk_scaling (pm s)"
  by (simp_all add: put_client_def)

lemma client_of_frame [simp]:
  "client_of i (s\<lparr>clk := k\<rparr>) = client_of i s" "client_of i (s\<lparr>api := f\<rparr>) = client_of i s" "client_of i (s\<lparr>worker := w\<rparr>) = client_of i s"
  "client_of i (s\<lparr>sweep := p\<rparr>) = client_of i s" "client_of i (s\<lparr>cb_log := l\<rparr>) = client_of i s" "client_of i (s\<lparr>other_votes := n\<rparr>) = client_of i s"
  by (simp_all add: client_of_def)

lemma client_of_pm: "pm_clients p = pm_clients (pm s) \<Longrightarrow> client_of i (s\<lparr>pm := p\<rparr>) = client_of i s"
  by (simp add: client_of_def)

text \<open>What the threads other than the clock scaling keep.\<close>

definition framed :: "nat \<Rightarrow> pm_sys \<Rightarrow> pm_sys \<Rightarrow> bool" where
  "framed h s t \<longleftrightarrow> (\<forall>i. i \<noteq> h \<longrightarrow> client_of i t = client_of i s) \<and> api t = api s \<and> worker t = worker s \<and> sweep t = sweep s \<and>
     other_votes t = other_votes s"

definition kept :: "nat \<Rightarrow> pm_sys \<Rightarrow> pm_sys \<Rightarrow> bool" where
  "kept h s t \<longleftrightarrow> framed h s t \<and>
     current_threshold (clk_scaling (pm t)) = current_threshold (clk_scaling (pm s)) \<and>
     length (exception_list (clk_scaling (pm t))) = length (exception_list (clk_scaling (pm s)))"

lemma threshold_ok_kept: "kept h s t \<Longrightarrow> threshold_ok (clk_scaling (pm t)) = threshold_ok (clk_scaling (pm s))"
  by (simp add: kept_def threshold_ok_def split: threshold_ptr.splits)

lemma kept_scaling:
  assumes "pm_inv s" "kept h s t"
  shows "\<not> api_reads q \<Longrightarrow> scaling_ok (t\<lparr>api := (api t)(i := q)\<rparr>)" "\<not> work_reads w \<Longrightarrow> scaling_ok (t\<lparr>worker := w\<rparr>)"
    "\<not> sweep_reads p \<Longrightarrow> scaling_ok (t\<lparr>sweep := p\<rparr>)" "scaling_ok t"
  using assms threshold_ok_kept [OF assms(2)] by (auto simp: pm_inv_def kept_def framed_def scaling_ok_def)

lemma pm_invD: "pm_inv s \<Longrightarrow> client_of h s = Some c \<Longrightarrow> client_ok h c (view h s)"
  by (auto simp: pm_inv_def view_ok_def split: option.splits)

lemma client_okD: "client_ok h c v \<Longrightarrow> h < IPA_PM_MAX_CLIENTS"
  by (simp add: client_ok_def)

text \<open>A thread moves on: a call, the work queue, the sweep.\<close>

lemma api_frame:
  assumes "pm_inv s" "client_of h s = Some c" "framed h s t" "client_of h t = Some c'" "scaling_ok (t\<lparr>api := (api t)(h := q)\<rparr>)"
    "client_ok h c (view h s) \<Longrightarrow> client_ok h c' ((view h s)\<lparr>v_api := q\<rparr>)"
    "\<And>v. client_ok h c (view h s) \<Longrightarrow> clk_holds (v + votes (Some c) (view h s)) (clk s) \<Longrightarrow>
       clk_holds (v + votes (Some c') ((view h s)\<lparr>v_api := q\<rparr>)) (clk t)"
  shows "pm_inv (t\<lparr>api := (api t)(h := q)\<rparr>)"
proof (rule local_step_inv [OF assms(1), of h])
  note k = pm_invD [OF assms(1,2)]
  have v: "view h (t\<lparr>api := (api t)(h := q)\<rparr>) = (view h s)\<lparr>v_api := q\<rparr>" using assms(3) by (simp add: view_def framed_def)
  show "local_step h s (t\<lparr>api := (api t)(h := q)\<rparr>)" using assms(3) by (simp add: local_step_def framed_def view_def)
  show "view_ok h (client_of h (t\<lparr>api := (api t)(h := q)\<rparr>)) (view h (t\<lparr>api := (api t)(h := q)\<rparr>))"
    using assms(4) assms(6) [OF k] by (simp add: v view_ok_def)
  show "scaling_ok (t\<lparr>api := (api t)(h := q)\<rparr>)" by (fact assms(5))
  show "h < IPA_PM_MAX_CLIENTS" using k by (rule client_okD)
  fix n assume "clk_holds (n + votes (client_of h s) (view h s)) (clk s)"
  then show "clk_holds (n + votes (client_of h (t\<lparr>api := (api t)(h := q)\<rparr>)) (view h (t\<lparr>api := (api t)(h := q)\<rparr>))) (clk (t\<lparr>api := (api t)(h := q)\<rparr>))"
    using assms(2,4) assms(7) [OF k] by (simp add: v)
qed

lemma api_move:
  assumes "pm_inv s" "client_of h s = Some c" "kept h s t" "client_of h t = Some c'" "\<not> api_reads q"
    "client_ok h c (view h s) \<Longrightarrow> client_ok h c' ((view h s)\<lparr>v_api := q\<rparr>)"
    "\<And>v. client_ok h c (view h s) \<Longrightarrow> clk_holds (v + votes (Some c) (view h s)) (clk s) \<Longrightarrow>
       clk_holds (v + votes (Some c') ((view h s)\<lparr>v_api := q\<rparr>)) (clk t)"
  shows "pm_inv (t\<lparr>api := (api t)(h := q)\<rparr>)"
  using assms(1-4) kept_scaling [OF assms(1,3)] assms(5-) by (intro api_frame [of s h c t c']) (simp_all add: kept_def)

lemma act_work_none [simp]:
  "act_work_on h NoWork = None" "act_work_on h (DeactivateWork i p) = None" "act_work_on h (ScalingWork q) = None"
  "act_work_on h (ActivateWork i r) = (if i = h then Some r else None)"
  by (simp_all add: act_work_on_def)

lemma deact_work_none [simp]:
  "deact_work_on h NoWork = None" "deact_work_on h (ActivateWork i p) = None" "deact_work_on h (ScalingWork q) = None"
  "deact_work_on h (DeactivateWork i r) = (if i = h then Some r else None)"
  by (simp_all add: deact_work_on_def)

text \<open>The worker stays on the client \<open>h\<close>, starts with it or leaves it.\<close>

definition work_of :: "nat \<Rightarrow> work_pos \<Rightarrow> bool" where
  "work_of h w = (case w of NoWork \<Rightarrow> True | ActivateWork i _ \<Rightarrow> i = h | DeactivateWork i _ \<Rightarrow> i = h | ScalingWork _ \<Rightarrow> True)"

lemma work_of_simps [simp]:
  "work_of h NoWork" "work_of h (ActivateWork i p) \<longleftrightarrow> i = h" "work_of h (DeactivateWork i q) \<longleftrightarrow> i = h" "work_of h (ScalingWork r)"
  by (simp_all add: work_of_def)

lemma work_of_other: "work_of h w \<Longrightarrow> i \<noteq> h \<Longrightarrow> act_work_on i w = None \<and> deact_work_on i w = None"
  by (cases w) simp_all

lemma work_frame:
  assumes "pm_inv s" "client_of h s = Some c" "framed h s t" "client_of h t = Some c'" "scaling_ok (t\<lparr>worker := w\<rparr>)" "work_of h (worker s)" "work_of h w"
    "client_ok h c (view h s) \<Longrightarrow> client_ok h c' ((view h s)\<lparr>v_act := act_work_on h w, v_deact := deact_work_on h w\<rparr>)"
    "\<And>v. client_ok h c (view h s) \<Longrightarrow> clk_holds (v + votes (Some c) (view h s)) (clk s) \<Longrightarrow>
       clk_holds (v + votes (Some c') ((view h s)\<lparr>v_act := act_work_on h w, v_deact := deact_work_on h w\<rparr>)) (clk t)"
  shows "pm_inv (t\<lparr>worker := w\<rparr>)"
proof (rule local_step_inv [OF assms(1), of h])
  note k = pm_invD [OF assms(1,2)]
  have v: "view h (t\<lparr>worker := w\<rparr>) = (view h s)\<lparr>v_act := act_work_on h w, v_deact := deact_work_on h w\<rparr>"
    using assms(3) by (simp add: view_def framed_def)
  show "local_step h s (t\<lparr>worker := w\<rparr>)"
    using assms(3) work_of_other [OF assms(6)] work_of_other [OF assms(7)] by (simp add: local_step_def framed_def view_def)
  show "view_ok h (client_of h (t\<lparr>worker := w\<rparr>)) (view h (t\<lparr>worker := w\<rparr>))"
    using assms(4) assms(8) [OF k] by (simp add: v view_ok_def)
  show "scaling_ok (t\<lparr>worker := w\<rparr>)" by (fact assms(5))
  show "h < IPA_PM_MAX_CLIENTS" using k by (rule client_okD)
  fix n assume "clk_holds (n + votes (client_of h s) (view h s)) (clk s)"
  then show "clk_holds (n + votes (client_of h (t\<lparr>worker := w\<rparr>)) (view h (t\<lparr>worker := w\<rparr>))) (clk (t\<lparr>worker := w\<rparr>))"
    using assms(2,4) assms(9) [OF k] by (simp add: v)
qed

lemma work_move:
  assumes "pm_inv s" "client_of h s = Some c" "kept h s t" "client_of h t = Some c'" "\<not> work_reads w" "work_of h (worker s)" "work_of h w"
    "client_ok h c (view h s) \<Longrightarrow> client_ok h c' ((view h s)\<lparr>v_act := act_work_on h w, v_deact := deact_work_on h w\<rparr>)"
    "\<And>v. client_ok h c (view h s) \<Longrightarrow> clk_holds (v + votes (Some c) (view h s)) (clk s) \<Longrightarrow>
       clk_holds (v + votes (Some c') ((view h s)\<lparr>v_act := act_work_on h w, v_deact := deact_work_on h w\<rparr>)) (clk t)"
  shows "pm_inv (t\<lparr>worker := w\<rparr>)"
  using assms(1-4) kept_scaling [OF assms(1,3)] assms(5-) by (intro work_frame [of s h c t c']) (simp_all add: kept_def)

definition sweep_of :: "nat \<Rightarrow> sweep_pos \<Rightarrow> bool" where
  "sweep_of h p \<longleftrightarrow> sweep_client p = None \<or> sweep_client p = Some h"

lemma sweep_frame:
  assumes "pm_inv s" "client_of h s = Some c" "framed h s t" "client_of h t = Some c'" "scaling_ok (t\<lparr>sweep := p\<rparr>)" "sweep_of h (sweep s)" "sweep_of h p"
    "client_ok h c (view h s) \<Longrightarrow> client_ok h c' ((view h s)\<lparr>v_sweep := sweep_on h p\<rparr>)"
    "\<And>v. client_ok h c (view h s) \<Longrightarrow> clk_holds (v + votes (Some c) (view h s)) (clk s) \<Longrightarrow>
       clk_holds (v + votes (Some c') ((view h s)\<lparr>v_sweep := sweep_on h p\<rparr>)) (clk t)"
  shows "pm_inv (t\<lparr>sweep := p\<rparr>)"
proof (rule local_step_inv [OF assms(1), of h])
  note k = pm_invD [OF assms(1,2)]
  have v: "view h (t\<lparr>sweep := p\<rparr>) = (view h s)\<lparr>v_sweep := sweep_on h p\<rparr>" using assms(3) by (simp add: view_def framed_def)
  show "local_step h s (t\<lparr>sweep := p\<rparr>)"
    using assms(3,6,7) by (auto simp: local_step_def framed_def view_def sweep_on_def sweep_of_def)
  show "view_ok h (client_of h (t\<lparr>sweep := p\<rparr>)) (view h (t\<lparr>sweep := p\<rparr>))"
    using assms(4) assms(8) [OF k] by (simp add: v view_ok_def)
  show "scaling_ok (t\<lparr>sweep := p\<rparr>)" by (fact assms(5))
  show "h < IPA_PM_MAX_CLIENTS" using k by (rule client_okD)
  fix n assume "clk_holds (n + votes (client_of h s) (view h s)) (clk s)"
  then show "clk_holds (n + votes (client_of h (t\<lparr>sweep := p\<rparr>)) (view h (t\<lparr>sweep := p\<rparr>))) (clk (t\<lparr>sweep := p\<rparr>))"
    using assms(2,4) assms(9) [OF k] by (simp add: v)
qed

lemma sweep_move:
  assumes "pm_inv s" "client_of h s = Some c" "kept h s t" "client_of h t = Some c'" "\<not> sweep_reads p" "sweep_of h (sweep s)" "sweep_of h p"
    "client_ok h c (view h s) \<Longrightarrow> client_ok h c' ((view h s)\<lparr>v_sweep := sweep_on h p\<rparr>)"
    "\<And>v. client_ok h c (view h s) \<Longrightarrow> clk_holds (v + votes (Some c) (view h s)) (clk s) \<Longrightarrow>
       clk_holds (v + votes (Some c') ((view h s)\<lparr>v_sweep := sweep_on h p\<rparr>)) (clk t)"
  shows "pm_inv (t\<lparr>sweep := p\<rparr>)"
  using assms(1-4) kept_scaling [OF assms(1,3)] assms(5-) by (intro sweep_frame [of s h c t c']) (simp_all add: kept_def)

end
