(* ===== verification/Ipa_Pm_Safe.thy ===== *)
theory Ipa_Pm_Safe
  imports Ipa_Pm_Inv
begin

text \<open>
  Every step of every thread keeps the invariant of \<open>Ipa_Pm_Inv\<close> and is without fault, if the threads do not meet in one of three
  ways, \<open>pm_allowed\<close>.
\<close>

section \<open>Clock scaling\<close>

lemma first_exception_bound: "first_exception m exs i = ThException j \<Longrightarrow> j < i + length exs"
proof (induction exs arbitrary: i)
  case (Cons ex exs)
  then show ?case using Cons.IH [of "i + 1"] by (auto split: if_splits)
qed simp

lemma first_exception_set: "first_exception m exs i \<noteq> ThNull"
  by (induction exs arbitrary: i) simp_all

lemma set_current_threshold_ok:
  "threshold_ok (clk_scaling (set_current_threshold p))" "current_threshold (clk_scaling (set_current_threshold p)) \<noteq> ThNull"
  "pm_clients (set_current_threshold p) = pm_clients p"
  using first_exception_bound [of _ _ 0] first_exception_set
  by (fastforce simp: set_current_threshold_def Let_def threshold_ok_def split: threshold_ptr.splits)+

definition scaled :: "pm_sys \<Rightarrow> scale_pos option \<Rightarrow> pm_sys \<Rightarrow> bool" where
  "scaled s q t \<longleftrightarrow> (\<forall>h. framed h s t) \<and> (\<forall>h. client_of h t = client_of h s) \<and> threshold_ok (clk_scaling (pm t)) \<and>
     (q \<noteq> None \<longrightarrow> current_threshold (clk_scaling (pm t)) \<noteq> ThNull) \<and>
     (current_threshold (clk_scaling (pm s)) \<noteq> ThNull \<longrightarrow> current_threshold (clk_scaling (pm t)) \<noteq> ThNull) \<and>
     (\<forall>v. clk_holds v (clk t) = clk_holds v (clk s))"

lemma do_clk_scaling_ok:
  assumes "scaling_ok s" "is_vote p \<Longrightarrow> current_threshold (clk_scaling (pm s)) \<noteq> ThNull"
  obtains q t where "do_clk_scaling p s = Some (q, t)" "scaled s q t"
proof (cases p)
  case Sc_Start
  show thesis
  proof (cases "clk_vote (clk s)")
    case True
    show thesis
      by (rule that [of "Some (Sc_Vote (calculate_throughput (pm s)))"
            "s\<lparr>pm := set_current_threshold ((pm s)\<lparr>aggregated_tput := calculate_throughput (pm s)\<rparr>)\<rparr>"])
         (simp_all add: Sc_Start True Let_def scaled_def framed_def client_of_pm set_current_threshold_ok)
  next
    case False
    show thesis by (rule that [of None s]) (use assms(1) in \<open>simp_all add: Sc_Start False scaled_def framed_def scaling_ok_def\<close>)
  qed
next
  case (Sc_Vote tput)
  let ?db = "clk_scaling (pm s)"
  have n: "current_threshold ?db \<noteq> ThNull" "threshold_ok ?db" using assms Sc_Vote by (simp_all add: is_vote_def scaling_ok_def)
  then obtain ths where th: "threshold_of ?db = Some ths"
    by (auto simp: threshold_of_def threshold_ok_def split: threshold_ptr.splits)
  let ?i = "new_threshold_index tput (take (nat (threshold_size ?db)) ths)"
  show thesis
  proof (cases "cur_vote ?db = ?i")
    case True
    show thesis by (rule that [of None s]) (use n in \<open>simp_all add: Sc_Vote th True Let_def scaled_def framed_def\<close>)
  next
    case False
    show thesis
      by (rule that [of None "s\<lparr>pm := (pm s)\<lparr>clk_scaling := ?db\<lparr>cur_vote := ?i\<rparr>\<rparr>, clk := snd (ipa3_set_clock_plan_from_pm ?i (clk s))\<rparr>"])
         (use n in \<open>simp_all add: Sc_Vote th False Let_def scaled_def framed_def client_of_pm holds_plan threshold_ok_def split: threshold_ptr.splits\<close>)
  qed
qed

lemma scale_then_ok:
  assumes "scaling_ok s" "is_vote p \<Longrightarrow> current_threshold (clk_scaling (pm s)) \<noteq> ThNull"
  obtains q t where "scale_then f p s = Some (case q of None \<Rightarrow> Return 0 | Some q \<Rightarrow> Goto (f q), t)" "scaled s q t"
proof -
  obtain q t where "do_clk_scaling p s = Some (q, t)" "scaled s q t" using do_clk_scaling_ok [OF assms] .
  then show thesis by (intro that [of q t]) (simp_all add: scale_then_def)
qed

section \<open>Which interleavings\<close>

text \<open>The pointers to a client that threads other than its own calls hold.\<close>

definition unreferenced :: "nat \<Rightarrow> pm_sys \<Rightarrow> bool" where
  "unreferenced h s \<longleftrightarrow> act_work_on h (worker s) = None \<and> deact_work_on h (worker s) = None \<and> sweep_client (sweep s) \<noteq> Some h \<and>
     (\<forall>c. client_of h s = Some c \<longrightarrow> \<not> cl_timer c)"

text \<open>The client does not enter \<^verbatim>\<open>ipa_pm_activate\<close> between the unlock and the \<^verbatim>\<open>complete_all\<close> of its activation work, does not
  reach the end of \<^verbatim>\<open>ipa_pm_deregister\<close> while another thread holds a pointer to it or its timer is set, the sweep does not lock a client
  between the two locked sections of its \<^verbatim>\<open>ipa_pm_deactivate_sync\<close>, and no interrupt is pending when the clocks are switched off.\<close>

fun pm_allowed :: "pm_event \<Rightarrow> pm_sys \<Rightarrow> bool" where
  "pm_allowed (EvApi e h) s \<longleftrightarrow> \<not> gsi_irq e \<and>
     ((\<exists>b. api s h = Activate b Act_Entry) \<longrightarrow> \<not> aw_completing (act_work_on h (worker s))) \<and>
     (api s h = Deregister Dr_Free \<longrightarrow> unreferenced h s)"
| "pm_allowed (EvSweep e) s \<longleftrightarrow> \<not> gsi_irq e \<and> (\<forall>i r. sweep s = Sw_Lock i r \<longrightarrow> \<not> ds_between (api s i))"
| "pm_allowed (EvWorker e) s \<longleftrightarrow> \<not> gsi_irq e"
| "pm_allowed (EvOtherDec e) s \<longleftrightarrow> \<not> gsi_irq e"
| "pm_allowed (EvTagWork e) s \<longleftrightarrow> \<not> gsi_irq e"
| "pm_allowed (EvDecWork e) s \<longleftrightarrow> \<not> gsi_irq e"
| "pm_allowed _ s \<longleftrightarrow> True"

section \<open>Calls\<close>

lemmas state_preds = IPA_PM_STATE_ACTIVE_def IPA_PM_STATE_IN_PROGRESS_def
lemmas pos_preds = ds_dropped_def ds_between_def ds_cancelled_def sync_activating_def waiting_def aw_early_def aw_completing_def

lemma view_sel [simp]:
  "v_api (view h s) = api s h" "v_act (view h s) = act_work_on h (worker s)" "v_deact (view h s) = deact_work_on h (worker s)"
  "v_sweep (view h s) = sweep_on h (sweep s)"
  by (simp_all add: view_def)

lemma pm_inv_none: "pm_inv s \<Longrightarrow> client_of h s = None \<Longrightarrow> view_idle (view h s)"
  by (auto simp: pm_inv_def view_ok_def dest: spec [of _ h])

lemma api_client: "pm_inv s \<Longrightarrow> (\<And>r. api s h \<noteq> Returned r) \<Longrightarrow> \<exists>c. client_of h s = Some c"
  using pm_inv_none [of s h] by (cases "client_of h s") (auto simp: view_idle_def)

lemma scaled_scaling_ok: "scaled s q t \<Longrightarrow> scaling_ok s \<Longrightarrow> scaling_ok t"
  by (auto simp: scaled_def scaling_ok_def framed_def)

text \<open>The scaling at the end of a call.\<close>

definition quiet_api :: "api_pos \<Rightarrow> bool" where
  "quiet_api a \<longleftrightarrow> \<not> ds_cancelled a \<and> \<not> sync_activating a \<and> (\<forall>b. a \<noteq> Activate b Act_Switch) \<and> a \<noteq> Deregister Dr_Locked \<and> a \<noteq> Deregister Dr_Free \<and>
     \<not> waiting a"

lemma quiet_api_pos:
  assumes "quiet_api a"
  shows "\<not> ds_dropped a" "\<not> ds_between a" "\<not> ds_cancelled a" "\<not> sync_activating a" "a \<noteq> Activate b Act_Switch"
    "a \<noteq> DeactivateSync Ds_Lock" "a \<noteq> Deregister Dr_Locked" "a \<noteq> Deregister Dr_Free" "a \<noteq> DeactivateSync Ds_Dec"
    "a \<noteq> DeactivateSync Ds_Relax" "a \<noteq> Activate b Act_Got" "\<not> waiting a"
  using assms by (auto simp: quiet_api_def pos_preds)

lemma quiet_api_simps [simp]:
  "quiet_api (Returned r)" "quiet_api (Activate b Act_Entry)" "quiet_api (Activate b Act_Bit)"
  "quiet_api (Activate b Act_Queue)" "quiet_api (Activate b (Act_Scale p))" "quiet_api DeferredDeactivate" "quiet_api (DeactivateSync Ds_Entry)"
  "quiet_api (DeactivateSync Ds_Cancel)" "quiet_api (DeactivateSync Ds_Bit)" "quiet_api (DeactivateSync (Ds_Scale p))"
  "quiet_api (Deregister Dr_Entry)" "quiet_api (SetThroughput t q)"
  by (auto simp: quiet_api_def pos_preds)

lemma quiet_same:
  assumes "quiet_api (v_api v)" "quiet_api q"
  shows "client_ok h c (v\<lparr>v_api := q\<rparr>) = client_ok h c v" "votes oc (v\<lparr>v_api := q\<rparr>) = votes oc v"
  using quiet_api_pos [OF assms(1)] quiet_api_pos [OF assms(2)] by (simp_all add: client_ok_def, cases oc, simp_all add: votes_def)

lemma votes_api:
  "ds_dropped q = ds_dropped (v_api v) \<Longrightarrow> (\<exists>b. q = Activate b Act_Got) = (\<exists>b. v_api v = Activate b Act_Got) \<Longrightarrow>
    votes (Some c) (v\<lparr>v_api := q\<rparr>) = votes (Some c) v"
  by (simp add: votes_def)

lemma api_scale_inv:
  assumes s: "pm_inv s" and a: "api s h = g (f p)" and q: "\<And>p. quiet_api (g (f p))" and r: "\<And>p. api_reads (g (f p)) = is_vote p"
    and c: "client_of h s = Some c"
  shows "\<exists>t. api_go h g (scale_then f p s) = Some t \<and> pm_inv t"
proof -
  have so: "scaling_ok s" "is_vote p \<Longrightarrow> current_threshold (clk_scaling (pm s)) \<noteq> ThNull"
    using s a r [of p] by (auto simp: pm_inv_def scaling_ok_def) metis
  obtain n t where st: "scale_then f p s = Some (case n of None \<Rightarrow> Return 0 | Some q \<Rightarrow> Goto (f q), t)" "scaled s n t"
    using scale_then_ok [OF so] .
  let ?q = "case n of None \<Rightarrow> Returned 0 | Some q \<Rightarrow> g (f q)"
  have qq: "quiet_api ?q" using q by (simp split: option.split)
  have "pm_inv (t\<lparr>api := (api t)(h := ?q)\<rparr>)"
  proof (rule api_frame [OF s c])
    show "framed h s t" "client_of h t = Some c" using st(2) c by (simp_all add: scaled_def)
    show "scaling_ok (t\<lparr>api := (api t)(h := ?q)\<rparr>)"
      using st(2) so(1) r by (cases n) (auto simp: scaled_def scaling_ok_def framed_def api_reads_def [of "Returned 0"])
    show "client_ok h c ((view h s)\<lparr>v_api := ?q\<rparr>)" if "client_ok h c (view h s)"
      using that q qq a by (subst quiet_same) simp_all
    show "clk_holds (v + votes (Some c) ((view h s)\<lparr>v_api := ?q\<rparr>)) (clk t)" if "clk_holds (v + votes (Some c) (view h s)) (clk s)" for v
      using that st(2) q qq a by (subst quiet_same) (simp_all add: scaled_def)
  qed
  moreover have "api_go h g (scale_then f p s) = Some (t\<lparr>api := (api t)(h := ?q)\<rparr>)"
    by (simp add: st(1) api_go_def split: option.split)
  ultimately show ?thesis by blast
qed

lemma api_goI:
  "r = Some (Goto q, t) \<Longrightarrow> pm_inv (t\<lparr>api := (api t)(h := f q)\<rparr>) \<Longrightarrow> \<exists>t. api_go h f r = Some t \<and> pm_inv t"
  by (simp add: api_go_def)

lemma api_retI:
  "r = Some (Return q, t) \<Longrightarrow> pm_inv (t\<lparr>api := (api t)(h := Returned q)\<rparr>) \<Longrightarrow> \<exists>t. api_go h f r = Some t \<and> pm_inv t"
  by (simp add: api_go_def)

lemma api_blockI: "r = Some (Blocked, t) \<Longrightarrow> pm_inv t \<Longrightarrow> \<exists>t. api_go h f r = Some t \<and> pm_inv t"
  by (simp add: api_go_def)

lemma put_same: "client_of h s = Some c \<Longrightarrow> put_client h c s = s"
  by (simp add: put_client_def client_of_def fun_upd_idem)

lemma kept_put: "client_of h s = Some c \<Longrightarrow> kept h s (put_client h c' s)" "kept h s s" "kept h s (s\<lparr>clk := k\<rparr>)"
  "kept h s (put_client h c' (s\<lparr>clk := k\<rparr>))" "kept h s (clk_inc s)"
  by (simp_all add: kept_def framed_def clk_inc_def)

lemma got_clocks_sel [simp]:
  "cl_state (got_clocks c) = IPA_PM_ACTIVATED" "cl_skip_clk_vote (got_clocks c) = cl_skip_clk_vote c" "cl_act_queued (got_clocks c) = cl_act_queued c"
  "cl_complete (got_clocks c) = cl_complete c" "cl_timer (got_clocks c) = cl_timer c"
  by (simp_all add: got_clocks_def stay_awake_def)

lemma awake_sel [simp]:
  "cl_state (stay_awake c) = cl_state c" "cl_skip_clk_vote (stay_awake c) = cl_skip_clk_vote c" "cl_act_queued (stay_awake c) = cl_act_queued c"
  "cl_complete (stay_awake c) = cl_complete c" "cl_timer (stay_awake c) = cl_timer c"
  "cl_state (relax c) = cl_state c" "cl_skip_clk_vote (relax c) = cl_skip_clk_vote c" "cl_act_queued (relax c) = cl_act_queued c"
  "cl_complete (relax c) = cl_complete c" "cl_timer (relax c) = cl_timer c"
  by (simp_all add: stay_awake_def relax_def)

lemma active_state: "IPA_PM_STATE_ACTIVE st \<Longrightarrow> \<not> IPA_PM_STATE_IN_PROGRESS st \<and> st \<noteq> IPA_PM_DEACTIVATED"
  by (auto simp: state_preds)

text \<open>Between active states, and between states of progress, the invariant does not see the state.\<close>

lemma same_kind:
  assumes "IPA_PM_STATE_ACTIVE (cl_state c') = IPA_PM_STATE_ACTIVE (cl_state c)" "IPA_PM_STATE_IN_PROGRESS (cl_state c') = IPA_PM_STATE_IN_PROGRESS (cl_state c)"
    "cl_skip_clk_vote c' = cl_skip_clk_vote c" "cl_act_queued c' = cl_act_queued c" "cl_complete c' = cl_complete c"
  shows "client_ok h c v \<Longrightarrow> ds_cancelled (v_api v) \<longrightarrow> cl_timer c' = cl_timer c \<Longrightarrow> client_ok h c' v" "votes (Some c') v = votes (Some c) v"
proof -
  have d: "cl_state c = IPA_PM_DEACTIVATED \<Longrightarrow> cl_state c' = IPA_PM_DEACTIVATED"
    using assms(1,2) by (cases "cl_state c'") (simp_all add: state_preds)
  show "client_ok h c v \<Longrightarrow> ds_cancelled (v_api v) \<longrightarrow> cl_timer c' = cl_timer c \<Longrightarrow> client_ok h c' v"
    using assms d by (simp add: client_ok_def)
  show "votes (Some c') v = votes (Some c) v" using assms by (simp add: votes_def)
qed

lemma quiet_leave:
  assumes "quiet_api q" "\<not> sync_activating (v_api v)"
  shows "client_ok h c v \<Longrightarrow> client_ok h c (v\<lparr>v_api := q\<rparr>)" "\<not> ds_dropped (v_api v) \<Longrightarrow> votes (Some c) (v\<lparr>v_api := q\<rparr>) = votes (Some c) v"
proof -
  have n: "v_api v \<noteq> Activate b Act_Got" for b using assms(2) by (auto simp: sync_activating_def)
  show "client_ok h c v \<Longrightarrow> client_ok h c (v\<lparr>v_api := q\<rparr>)"
    using quiet_api_pos [OF assms(1)] assms(2) by (simp add: client_ok_def)
  show "\<not> ds_dropped (v_api v) \<Longrightarrow> votes (Some c) (v\<lparr>v_api := q\<rparr>) = votes (Some c) v"
    using quiet_api_pos [OF assms(1)] assms(2) n by (simp add: votes_def)
qed

text \<open>A call returns and leaves the client in a state of the same kind.\<close>

lemma api_return_kind:
  assumes s: "pm_inv s" and c: "client_of h s = Some c" and a: "\<not> sync_activating (api s h)" "\<not> ds_dropped (api s h)"
    and k: "IPA_PM_STATE_ACTIVE (cl_state c') = IPA_PM_STATE_ACTIVE (cl_state c)" "IPA_PM_STATE_IN_PROGRESS (cl_state c') = IPA_PM_STATE_IN_PROGRESS (cl_state c)"
      "cl_skip_clk_vote c' = cl_skip_clk_vote c" "cl_act_queued c' = cl_act_queued c" "cl_complete c' = cl_complete c"
    and t: "t = put_client h c' s"
  shows "pm_inv (t\<lparr>api := (api t)(h := Returned r)\<rparr>)"
proof (rule api_move [OF s c])
  have q: "quiet_api (Returned r)" by simp
  have nc: "\<not> ds_cancelled (Returned r)" by (simp add: ds_cancelled_def ds_between_def ds_dropped_def)
  show "kept h s t" "client_of h t = Some c'" "\<not> api_reads (Returned r)" using c by (simp_all add: t kept_put api_reads_def)
  show "client_ok h c' ((view h s)\<lparr>v_api := Returned r\<rparr>)" if "client_ok h c (view h s)"
    by (rule same_kind(1) [OF k quiet_leave(1) [OF q]]) (use that a nc in simp_all)
  show "clk_holds (v + votes (Some c') ((view h s)\<lparr>v_api := Returned r\<rparr>)) (clk t)" if "clk_holds (v + votes (Some c) (view h s)) (clk s)" for v
    using that a by (simp add: t same_kind(2) [OF k] quiet_leave(2) [OF q])
qed

lemma votes_upd [simp]:
  "votes (Some (c\<lparr>cl_timer := b\<rparr>)) v = votes (Some c) v" "votes (Some (c\<lparr>cl_complete := b\<rparr>)) v = votes (Some c) v"
  "votes (Some (c\<lparr>cl_act_queued := b\<rparr>)) v = votes (Some c) v" "votes (Some (c\<lparr>cl_throughput := n\<rparr>)) v = votes (Some c) v"
  "votes (Some (relax c)) v = votes (Some c) v" "votes (Some (stay_awake c)) v = votes (Some c) v"
  by (simp_all add: votes_def)

text \<open>A call moves to a position the invariant says nothing about.\<close>

lemma api_quiet:
  assumes s: "pm_inv s" and c: "client_of h s = Some c" and a: "\<not> sync_activating (api s h)" "\<not> ds_dropped (api s h)"
    and t: "kept h s t" "client_of h t = Some c" "clk t = clk s" and q: "quiet_api q" "\<not> api_reads q"
  shows "pm_inv (t\<lparr>api := (api t)(h := q)\<rparr>)"
  by (rule api_move [OF s c t(1,2) q(2)]) (use a t(3) in \<open>simp_all add: quiet_leave [OF q(1)]\<close>)

lemmas api_pos_defs = sync_activating_def ds_dropped_def api_reads_def is_vote_def

lemmas ok_defs = api_reads_def client_ok_def votes_def state_preds pos_preds

lemma act_switch_inv:
  assumes s: "pm_inv s" and c: "client_of h s = Some c" and a: "api s h = Activate sync p" "p = Act_Entry \<or> p = Act_Switch"
    and n: "\<not> IPA_PM_STATE_IN_PROGRESS (cl_state c)" "\<not> aw_completing (act_work_on h (worker s))"
  shows "\<exists>t. api_go h (Activate sync) (Some (act_switch sync h c s)) = Some t \<and> pm_inv t"
proof (cases "cl_state c = IPA_PM_DEACTIVATED")
  case d: True
  consider (skip) "cl_skip_clk_vote c" | (sync) "\<not> cl_skip_clk_vote c" "sync" | (async) "\<not> cl_skip_clk_vote c" "\<not> sync" by blast
  then show ?thesis
  proof cases
    case skip
    show ?thesis
      by (rule api_goI [of _ Act_Bit "put_client h (got_clocks c) s"], simp add: act_switch_def d skip,
          rule api_move [OF s c, of _ "got_clocks c"])
         (use a n in \<open>auto simp: kept_put c ok_defs d skip\<close>)
  next
    case sync
    show ?thesis
      by (rule api_goI [of _ Act_Inc "put_client h (c\<lparr>cl_state := IPA_PM_ACTIVATE_IN_PROGRESS\<rparr>) s"], simp add: act_switch_def d sync,
          rule api_move [OF s c, of _ "c\<lparr>cl_state := IPA_PM_ACTIVATE_IN_PROGRESS\<rparr>"])
         (use a n in \<open>auto simp: kept_put c ok_defs d sync\<close>)
  next
    case async
    obtain r k where k: "ipa3_inc_client_enable_clks_no_block (clk s) = (r, k)" by fastforce
    note hn = holds_no_block [OF _ k]
    show ?thesis
    proof (cases "r = 0")
      case True
      show ?thesis
        by (rule api_goI [of _ Act_Bit "put_client h (got_clocks c) (s\<lparr>clk := k\<rparr>)"], simp add: act_switch_def d async k True,
            rule api_move [OF s c, of _ "got_clocks c"])
           (use a n hn in \<open>auto simp: kept_put c ok_defs d async True\<close>)
    next
      case False
      show ?thesis
        by (rule api_retI [of _ "- EINPROGRESS" "put_client h (c\<lparr>cl_state := IPA_PM_ACTIVATE_IN_PROGRESS, cl_complete := False, cl_act_queued := True\<rparr>) s"],
            simp add: act_switch_def d async k False, rule api_move [OF s c, of _ "c\<lparr>cl_state := IPA_PM_ACTIVATE_IN_PROGRESS, cl_complete := False, cl_act_queued := True\<rparr>"])
           (use a n in \<open>auto simp: kept_put c ok_defs d async False\<close>)
    qed
  qed
next
  case nd: False
  obtain st where st: "act_switch sync h c s = (Return 0, put_client h (c\<lparr>cl_state := st\<rparr>) s)" "IPA_PM_STATE_ACTIVE st" "IPA_PM_STATE_ACTIVE (cl_state c)"
    by (rule that [of "if cl_state c = IPA_PM_ACTIVATED then IPA_PM_ACTIVATED else IPA_PM_ACTIVATED_TIMER_SET"])
       (use n nd c in \<open>cases "cl_state c"; auto simp: act_switch_def state_preds put_same\<close>)+
  show ?thesis
    by (rule api_retI [of _ 0 "put_client h (c\<lparr>cl_state := st\<rparr>) s"], simp add: st, rule api_return_kind [OF s c])
       (use a st(2,3) active_state [OF st(2)] active_state [OF st(3)] in \<open>auto simp: sync_activating_def ds_dropped_def\<close>)
qed

lemma activate_inv:
  assumes s: "pm_inv s" and a: "api s h = Activate sync p" and g: "pm_allowed (EvApi e h) s"
  shows "\<exists>t. api_go h (Activate sync) (ipa_pm_activate_helper sync h p s) = Some t \<and> pm_inv t"
proof -
  obtain c where c: "client_of h s = Some c" using api_client [OF s] a by fastforce
  note ok = pm_invD [OF s c]
  show ?thesis
  proof (cases p)
    case Act_Entry
    have n: "\<not> aw_completing (act_work_on h (worker s))" using g a Act_Entry by simp
    consider (free) "\<not> IPA_PM_STATE_IN_PROGRESS (cl_state c)" | (wait) "IPA_PM_STATE_IN_PROGRESS (cl_state c)" "sync"
      | (busy) "IPA_PM_STATE_IN_PROGRESS (cl_state c)" "\<not> sync" by blast
    then show ?thesis
    proof cases
      case free
      then show ?thesis using act_switch_inv [OF s c a] n Act_Entry by (simp add: c)
    next
      case wait
      show ?thesis
        by (rule api_goI [of _ Act_Waiting s], simp add: c Act_Entry wait, rule api_move [OF s c, of s c])
           (use a Act_Entry wait(1) in \<open>auto simp: kept_put c client_ok_def votes_api pos_preds api_reads_def\<close>)
    next
      case busy
      show ?thesis
        by (rule api_retI [of _ "- EINPROGRESS" "put_client h (c\<lparr>cl_state := IPA_PM_ACTIVATE_IN_PROGRESS\<rparr>) s"], simp add: c Act_Entry busy,
            rule api_return_kind [OF s c])
           (use a busy Act_Entry in \<open>auto simp: sync_activating_def ds_dropped_def state_preds\<close>)
    qed
  next
    case Act_Waiting
    show ?thesis
    proof (cases "cl_complete c")
      case True
      show ?thesis
        by (rule api_goI [of _ Act_Switch s], simp add: c Act_Waiting True, rule api_move [OF s c, of s c])
           (use a True Act_Waiting in \<open>auto simp: kept_put c client_ok_def votes_api pos_preds api_reads_def\<close>)
    qed (rule api_blockI [of _ s]; simp add: c Act_Waiting s)
  next
    case Act_Switch
    have "\<not> IPA_PM_STATE_IN_PROGRESS (cl_state c)" "\<not> aw_completing (act_work_on h (worker s))"
      using ok a Act_Switch by (auto simp: client_ok_def)
    then show ?thesis using act_switch_inv [OF s c a] Act_Switch by (simp add: c)
  next
    case Act_Inc
    show ?thesis
      by (rule api_goI [of _ Act_Got "clk_inc s"], simp add: c Act_Inc, rule api_move [OF s c, of _ c])
         (use a Act_Inc holds_inc in \<open>auto simp: kept_put clk_inc_def c client_ok_def votes_def pos_preds api_reads_def\<close>)
  next
    case Act_Got
    show ?thesis
      by (rule api_goI [of _ Act_Bit "put_client h (got_clocks c) s"], simp add: c Act_Got, rule api_move [OF s c, of _ "got_clocks c"])
         (use a Act_Got in \<open>auto simp: kept_put c ok_defs\<close>)
  next
    case Act_Bit
    let ?t = "s\<lparr>pm := activate_client h (pm s)\<rparr>"
    have k: "kept h s ?t" "client_of h ?t = Some c" using c by (simp_all add: kept_def framed_def client_of_def activate_client_def Let_def)
    show ?thesis
      by (rule api_goI [of _ "if sync then Act_Scale Sc_Start else Act_Queue" ?t], simp add: c Act_Bit, rule api_quiet [OF s c])
         (simp_all add: a Act_Bit k api_pos_defs)
  next
    case Act_Queue
    let ?t = "s\<lparr>pm := (pm s)\<lparr>clk_scaling := (clk_scaling (pm s))\<lparr>scaling_queued := True\<rparr>\<rparr>\<rparr>"
    have k: "kept h s ?t" "client_of h ?t = Some c" using c by (simp_all add: kept_def framed_def client_of_def)
    show ?thesis
      by (rule api_retI [of _ 0 ?t], simp add: c Act_Queue, rule api_quiet [OF s c])
         (simp_all add: a Act_Queue k api_pos_defs)
  next
    case (Act_Scale q)
    show ?thesis unfolding Act_Scale ipa_pm_activate_helper.simps
      by (rule api_scale_inv [OF s _ _ _ c]) (simp_all add: a Act_Scale api_reads_def)
  qed
qed

lemma deferred_inv:
  assumes s: "pm_inv s" and a: "api s h = DeferredDeactivate"
  shows "\<exists>t. api_go h f (ipa_pm_deferred_deactivate h s) = Some t \<and> pm_inv t"
proof -
  obtain c where c: "client_of h s = Some c" using api_client [OF s] a by fastforce
  let ?c' = "case cl_state c of
      IPA_PM_ACTIVATE_IN_PROGRESS \<Rightarrow> c\<lparr>cl_state := IPA_PM_DEACTIVATE_IN_PROGRESS\<rparr>
    | IPA_PM_ACTIVATED \<Rightarrow> c\<lparr>cl_state := IPA_PM_ACTIVATED_PENDING_DEACTIVATION, cl_timer := True\<rparr>
    | IPA_PM_ACTIVATED_TIMER_SET \<Rightarrow> c\<lparr>cl_state := IPA_PM_ACTIVATED_PENDING_RESCHEDULE\<rparr>
    | IPA_PM_ACTIVATED_PENDING_DEACTIVATION \<Rightarrow> c\<lparr>cl_state := IPA_PM_ACTIVATED_PENDING_RESCHEDULE\<rparr>
    | _ \<Rightarrow> c"
  have k: "IPA_PM_STATE_ACTIVE (cl_state ?c') = IPA_PM_STATE_ACTIVE (cl_state c)"
      "IPA_PM_STATE_IN_PROGRESS (cl_state ?c') = IPA_PM_STATE_IN_PROGRESS (cl_state c)" "cl_skip_clk_vote ?c' = cl_skip_clk_vote c"
      "cl_act_queued ?c' = cl_act_queued c" "cl_complete ?c' = cl_complete c"
    by (cases "cl_state c"; simp add: state_preds)+
  have t: "ipa_pm_deferred_deactivate h s = Some (Return 0, put_client h ?c' s)"
    using put_same [OF c] by (cases "cl_state c") (simp_all add: ipa_pm_deferred_deactivate_def c)
  show ?thesis
    by (rule api_retI [OF t], rule api_return_kind [OF s c _ _ k]) (simp_all add: a sync_activating_def ds_dropped_def)
qed

text \<open>A thread that holds a vote can drop it.\<close>

lemma vote_held:
  assumes s: "pm_inv s" and c: "client_of h s = Some c" and v: "0 < votes (Some c) (view h s)"
  obtains n where "clk_holds (n + 1) (clk s)"
proof -
  have "h \<in> {..<IPA_PM_MAX_CLIENTS}" using client_okD [OF pm_invD [OF s c]] by simp
  then have "votes (client_of h s) (view h s) \<le> total_votes s"
    using member_le_sum [of h "{..<IPA_PM_MAX_CLIENTS}" "\<lambda>h. votes (client_of h s) (view h s)"] by (simp add: total_votes_def)
  with v c have "total_votes s = (total_votes s - 1) + 1" by simp
  then show thesis using s that by (metis pm_inv_def)
qed

lemma clk_dec_frame:
  assumes "clk_dec e s = Some t"
  shows "kept h s t" "client_of i t = client_of i s"
  using assms by (auto simp: clk_dec_def clk_result_def bind_eq_Some_conv kept_def framed_def client_of_def ipa_pm_set_clock_index_def)

interpretation clk_votes: vote_count "\<lambda>v s. clk_holds v (clk s)" clk_inc "clk_dec (e\<lparr>gsi_irq := False\<rparr>)" for e
proof unfold_locales
  show "clk_holds v (clk s) \<Longrightarrow> clk_holds (v + 1) (clk (clk_inc s))" for v s using holds_inc [of v "clk s"] by (simp add: clk_inc_def)
  fix v and s :: pm_sys assume "clk_holds (v + 1) (clk s)"
  then obtain g k where "ipa3_dec_client_disable_clks (e\<lparr>gsi_irq := False\<rparr>) (clk s) = Some (g, k)" "clk_holds v k"
    using holds_dec [of v "clk s" "e\<lparr>gsi_irq := False\<rparr>"] by auto
  then show "\<exists>t. clk_dec (e\<lparr>gsi_irq := False\<rparr>) s = Some t \<and> clk_holds v (clk t)" by (simp add: clk_dec_def clk_result_def)
qed

lemma clk_dec_ok:
  assumes "clk_holds (n + 1) (clk s)" "\<not> gsi_irq e"
  obtains t where "clk_dec e s = Some t" "\<And>h. kept h s t" "\<And>i. client_of i t = client_of i s"
    "\<And>v. clk_holds (v + 1) (clk s) \<Longrightarrow> clk_holds v (clk t)"
proof -
  have e: "e\<lparr>gsi_irq := False\<rparr> = e" using assms(2) by (cases e) simp
  obtain t where t: "clk_dec e s = Some t" "\<And>v. clk_holds (v + 1) (clk s) \<Longrightarrow> clk_holds v (clk t)"
    using clk_votes.drop_one [OF assms(1), of e] unfolding e by blast
  then show thesis using that [OF t(1) clk_dec_frame [OF t(1)] t(2)] by blast
qed

lemma client_dec_ok:
  assumes "pm_inv s" "client_of h s = Some c" "0 < votes (Some c) (view h s)" "\<not> gsi_irq e"
  obtains t where "client_dec e h s = Some t" "kept h s t" "client_of h t = Some c" "\<And>v. clk_holds (v + 1) (clk s) \<Longrightarrow> clk_holds v (clk t)"
proof -
  obtain n where n: "clk_holds (n + 1) (clk s)" using vote_held [OF assms(1-3)] .
  obtain t where "clk_dec e s = Some t" "\<And>h. kept h s t" "\<And>i. client_of i t = client_of i s" "\<And>v. clk_holds (v + 1) (clk s) \<Longrightarrow> clk_holds v (clk t)"
    using clk_dec_ok [OF n assms(4)] by metis
  then show thesis using that assms(2) by (simp add: client_dec_def)
qed

lemma cancel_ok:
  assumes "client_of h s = Some c"
  shows "cancel_delayed_work_sync h q s = Some (if deact_work_on h (worker s) \<noteq> None then (Blocked, s) else (Goto q, put_client h (c\<lparr>cl_timer := False\<rparr>) s))"
  using assms by (simp add: cancel_delayed_work_sync_def deactivate_work_runs_def deact_work_on_def split: work_pos.splits)

lemma deactivate_sync_inv:
  assumes s: "pm_inv s" and a: "api s h = DeactivateSync p" and g: "\<not> gsi_irq e"
  shows "\<exists>t. api_go h DeactivateSync (ipa_pm_deactivate_sync e h p s) = Some t \<and> pm_inv t"
proof -
  obtain c where c: "client_of h s = Some c" using api_client [OF s] a by fastforce
  note ok = pm_invD [OF s c]
  let ?tm = "put_client h (c\<lparr>cl_timer := False\<rparr>) s"
  show ?thesis
  proof (cases p)
    case Ds_Entry
    show ?thesis
    proof (cases "deact_work_on h (worker s) = None")
      case True
      show ?thesis
        by (rule api_goI [of _ Ds_Check ?tm], simp add: cancel_ok [OF c] Ds_Entry True, rule api_move [OF s c, of _ "c\<lparr>cl_timer := False\<rparr>"])
           (use a True Ds_Entry in \<open>auto simp: kept_put c client_ok_def votes_api pos_preds api_reads_def\<close>)
    qed (rule api_blockI [of _ s]; simp add: cancel_ok [OF c] Ds_Entry s)
  next
    case Ds_Check
    show ?thesis
      by (rule api_goI [of _ "if IPA_PM_STATE_IN_PROGRESS (cl_state c) then Ds_Waiting else Ds_Lock" s], simp add: c Ds_Check,
          rule api_move [OF s c, of s c])
         (use a Ds_Check in \<open>auto simp: kept_put c client_ok_def votes_api pos_preds api_reads_def\<close>)
  next
    case Ds_Waiting
    show ?thesis
    proof (cases "cl_complete c")
      case True
      show ?thesis
        by (rule api_goI [of _ Ds_Lock s], simp add: c Ds_Waiting True, rule api_move [OF s c, of s c])
           (use a True Ds_Waiting in \<open>auto simp: kept_put c client_ok_def votes_api pos_preds api_reads_def\<close>)
    qed (rule api_blockI [of _ s]; simp add: c Ds_Waiting s)
  next
    case Ds_Lock
    have np: "\<not> IPA_PM_STATE_IN_PROGRESS (cl_state c)" using ok a Ds_Lock by (simp add: client_ok_def)
    show ?thesis
    proof (cases "cl_state c = IPA_PM_DEACTIVATED")
      case True
      show ?thesis
        by (rule api_retI [of _ 0 s], simp add: c Ds_Lock True, rule api_quiet [OF s c]) (simp_all add: a Ds_Lock kept_put c api_pos_defs)
    next
      case False
      have ac: "IPA_PM_STATE_ACTIVE (cl_state c)" using False np by (cases "cl_state c") (simp_all add: state_preds)
      show ?thesis
      proof (cases "cl_skip_clk_vote c")
        case True
        show ?thesis
          by (rule api_goI [of _ Ds_State s], simp add: c Ds_Lock True False, rule api_move [OF s c, of s c])
             (use a True Ds_Lock ac np in \<open>auto simp: kept_put c client_ok_def votes_def pos_preds api_reads_def\<close>)
      next
        case ns: False
        show ?thesis
          by (rule api_goI [of _ Ds_Dec s], simp add: c Ds_Lock ns False, rule api_move [OF s c, of s c])
             (use a ns Ds_Lock ac np in \<open>auto simp: kept_put c client_ok_def votes_api pos_preds api_reads_def\<close>)
      qed
    qed
  next
    case Ds_Dec
    have i: "\<not> cl_skip_clk_vote c" "IPA_PM_STATE_ACTIVE (cl_state c)" using ok a Ds_Dec by (auto simp: client_ok_def pos_preds)
    have "0 < votes (Some c) (view h s)" using i a Ds_Dec by (simp add: votes_def ds_dropped_def)
    then obtain t where t: "client_dec e h s = Some t" "kept h s t" "client_of h t = Some c" "\<And>v. clk_holds (v + 1) (clk s) \<Longrightarrow> clk_holds v (clk t)"
      using client_dec_ok [OF s c _ g] by metis
    have v: "votes (Some c) (view h s) = votes (Some c) ((view h s)\<lparr>v_api := DeactivateSync Ds_Relax\<rparr>) + 1"
      using i a Ds_Dec by (simp add: votes_def ds_dropped_def)
    have ok': "client_ok h c ((view h s)\<lparr>v_api := DeactivateSync Ds_Relax\<rparr>)"
      using ok a Ds_Dec i by (simp add: client_ok_def pos_preds)
    show ?thesis
      by (rule api_goI [of _ Ds_Relax t], simp add: t(1) Ds_Dec, rule api_move [OF s c t(2,3)])
         (use ok' in \<open>simp_all only: v add.assoc [symmetric] t(4) api_reads_def api_pos.case deact_pos.case not_False_eq_True\<close>)
  next
    case Ds_Relax
    show ?thesis
      by (rule api_goI [of _ Ds_State "put_client h (relax c) s"], simp add: c Ds_Relax, rule api_move [OF s c, of _ "relax c"])
         (use a Ds_Relax in \<open>auto simp: kept_put c client_ok_def votes_api pos_preds api_reads_def\<close>)
  next
    case Ds_State
    let ?c = "c\<lparr>cl_state := IPA_PM_DEACTIVATED\<rparr>"
    have i: "IPA_PM_STATE_ACTIVE (cl_state c)" using ok a Ds_State by (simp add: client_ok_def pos_preds)
    have n: "\<not> cl_act_queued c" "\<not> aw_early (act_work_on h (worker s))"
      using ok a active_state [OF i] by (auto simp: client_ok_def)
    have d: "\<not> IPA_PM_STATE_ACTIVE IPA_PM_DEACTIVATED" "\<not> IPA_PM_STATE_IN_PROGRESS IPA_PM_DEACTIVATED" by (simp_all add: state_preds)
    have q: "\<not> sync_activating (DeactivateSync Ds_Cancel)" "\<not> ds_cancelled (DeactivateSync Ds_Cancel)" "\<not> ds_between (DeactivateSync Ds_Cancel)"
      "\<not> waiting (DeactivateSync Ds_Cancel)" by (simp_all add: pos_preds)
    have ok': "client_ok h ?c ((view h s)\<lparr>v_api := DeactivateSync Ds_Cancel\<rparr>)"
      using ok n d q by (simp add: client_ok_def)
    have v: "votes (Some ?c) ((view h s)\<lparr>v_api := DeactivateSync Ds_Cancel\<rparr>) = votes (Some c) (view h s)"
      using i a Ds_State d by (simp add: votes_def ds_dropped_def)
    show ?thesis
      by (rule api_goI [of _ Ds_Cancel "put_client h ?c s"], simp add: c Ds_State, rule api_move [OF s c, of _ ?c])
         (use ok' in \<open>simp_all add: kept_put c v api_reads_def\<close>)
  next
    case Ds_Cancel
    show ?thesis
    proof (cases "deact_work_on h (worker s) = None")
      case True
      show ?thesis
        by (rule api_goI [of _ Ds_Bit ?tm], simp add: cancel_ok [OF c] Ds_Cancel True, rule api_move [OF s c, of _ "c\<lparr>cl_timer := False\<rparr>"])
           (use a True Ds_Cancel in \<open>auto simp: kept_put c client_ok_def votes_api pos_preds api_reads_def\<close>)
    qed (rule api_blockI [of _ s]; simp add: cancel_ok [OF c] Ds_Cancel s)
  next
    case Ds_Bit
    let ?t = "s\<lparr>pm := deactivate_client h (pm s)\<rparr>"
    have k: "kept h s ?t" "client_of h ?t = Some c" using c by (simp_all add: kept_def framed_def client_of_def deactivate_client_def Let_def)
    show ?thesis
      by (rule api_goI [of _ "Ds_Scale Sc_Start" ?t], simp add: Ds_Bit, rule api_quiet [OF s c]) (simp_all add: a Ds_Bit k api_pos_defs)
  next
    case (Ds_Scale q)
    show ?thesis unfolding Ds_Scale ipa_pm_deactivate_sync.simps
      by (rule api_scale_inv [OF s _ _ _ c]) (simp_all add: a Ds_Scale api_reads_def)
  qed
qed

lemma free_client_frame [simp]:
  "current_threshold (clk_scaling (free_client h p)) = current_threshold (clk_scaling p)"
  "length (exception_list (clk_scaling (free_client h p))) = length (exception_list (clk_scaling p))"
  "pm_clients (free_client h p) = (pm_clients p)(h := None)"
  by (simp_all add: free_client_def remove_client_from_exception_list_def Let_def min_def)

lemma deregister_inv:
  assumes s: "pm_inv s" and a: "api s h = Deregister p" and g: "pm_allowed (EvApi e h) s"
  shows "\<exists>t. api_go h Deregister (ipa_pm_deregister h p s) = Some t \<and> pm_inv t"
proof -
  obtain c where c: "client_of h s = Some c" using api_client [OF s] a by fastforce
  note ok = pm_invD [OF s c]
  have locked: "\<exists>t. api_go h Deregister (Some (dereg_locked c, s)) = Some t \<and> pm_inv t" if np: "\<not> IPA_PM_STATE_IN_PROGRESS (cl_state c)"
  proof (cases "IPA_PM_STATE_ACTIVE (cl_state c)")
    case True
    show ?thesis
      by (rule api_retI [of _ "- EPERM" s], simp add: dereg_locked_def True, rule api_quiet [OF s c]) (simp_all add: a kept_put c api_pos_defs)
  next
    case False
    have d: "cl_state c = IPA_PM_DEACTIVATED" using False np by (cases "cl_state c") (simp_all add: state_preds)
    show ?thesis
      by (rule api_goI [of _ Dr_Free s], simp add: dereg_locked_def False, rule api_move [OF s c, of s c])
         (use a np d in \<open>auto simp: kept_put c client_ok_def votes_api pos_preds api_reads_def\<close>)
  qed
  show ?thesis
  proof (cases p)
    case Dr_Entry
    show ?thesis
    proof (cases "IPA_PM_STATE_IN_PROGRESS (cl_state c)")
      case True
      show ?thesis
        by (rule api_goI [of _ Dr_Waiting s], simp add: c Dr_Entry True, rule api_move [OF s c, of s c])
           (use a Dr_Entry True in \<open>auto simp: kept_put c client_ok_def votes_api pos_preds api_reads_def\<close>)
    qed (use locked in \<open>simp add: c Dr_Entry\<close>)
  next
    case Dr_Waiting
    show ?thesis
    proof (cases "cl_complete c")
      case True
      show ?thesis
        by (rule api_goI [of _ Dr_Locked s], simp add: c Dr_Waiting True, rule api_move [OF s c, of s c])
           (use a True Dr_Waiting in \<open>auto simp: kept_put c client_ok_def votes_api pos_preds api_reads_def\<close>)
    qed (rule api_blockI [of _ s]; simp add: c Dr_Waiting s)
  next
    case Dr_Locked
    then show ?thesis using locked ok a by (simp add: c client_ok_def)
  next
    case Dr_Free
    have d: "cl_state c = IPA_PM_DEACTIVATED" using ok a Dr_Free by (simp add: client_ok_def)
    then have nq: "\<not> cl_act_queued c" using ok by (auto simp: client_ok_def state_preds)
    have u: "act_work_on h (worker s) = None" "deact_work_on h (worker s) = None" "sweep_on h (sweep s) = NoSweep" "\<not> cl_timer c"
      using g a c Dr_Free by (simp_all add: unreferenced_def sweep_on_def)
    let ?t = "s\<lparr>pm := free_client h (pm s)\<rparr>"
    let ?t' = "?t\<lparr>api := (api ?t)(h := Returned 0)\<rparr>"
    have v: "votes (Some c) (view h s) = 0" using a Dr_Free u d by (simp add: votes_def state_preds)
    have n: "client_of h ?t' = None" by (simp add: client_of_def)
    have "pm_inv ?t'"
    proof (rule local_step_inv [OF s, of h])
      show "local_step h s ?t'" by (simp add: local_step_def client_of_def view_def)
      show "view_ok h (client_of h ?t') (view h ?t')" unfolding n using u by (simp add: view_ok_def view_idle_def)
      show "scaling_ok ?t'"
        using kept_scaling(1) [OF s, of h ?t "Returned 0" h] by (simp add: kept_def framed_def client_of_def api_reads_def)
      show "h < IPA_PM_MAX_CLIENTS" using ok by (rule client_okD)
      show "clk_holds (w + votes (client_of h ?t') (view h ?t')) (clk ?t')" if "clk_holds (w + votes (client_of h s) (view h s)) (clk s)" for w
        using that unfolding n c v by (simp add: votes_def [of None])
    qed
    then show ?thesis by (intro api_retI [of _ 0 ?t]) (simp_all add: Dr_Free c u(4) nq)
  qed
qed

lemma set_throughput_inv:
  assumes s: "pm_inv s" and a: "api s h = SetThroughput n p"
  shows "\<exists>t. api_go h (SetThroughput n) (ipa_pm_set_throughput h n p s) = Some t \<and> pm_inv t"
proof -
  obtain c where c: "client_of h s = Some c" using api_client [OF s] a by fastforce
  show ?thesis
  proof (cases p)
    case St_Set
    consider (bad) "n < 0" | (own) "\<not> n < 0" "cl_group c = IPA_PM_GROUP_DEFAULT" | (grp) "\<not> n < 0" "cl_group c \<noteq> IPA_PM_GROUP_DEFAULT" by blast
    then show ?thesis
    proof cases
      case bad
      show ?thesis
        by (rule api_retI [of _ "- EINVAL" s], simp add: c St_Set bad, rule api_quiet [OF s c]) (simp_all add: a kept_put c api_pos_defs)
    next
      case own
      show ?thesis
        by (rule api_goI [of _ St_Check "put_client h (c\<lparr>cl_throughput := n\<rparr>) s"], simp add: c St_Set own,
            rule api_move [OF s c, of _ "c\<lparr>cl_throughput := n\<rparr>"])
           (use a in \<open>auto simp: kept_put c client_ok_def votes_api pos_preds api_reads_def\<close>)
    next
      case grp
      let ?t = "s\<lparr>pm := (pm s)\<lparr>group_tput := (group_tput (pm s))(cl_group c := n)\<rparr>\<rparr>"
      have k: "kept h s ?t" "client_of h ?t = Some c" using c by (simp_all add: kept_def framed_def client_of_def)
      show ?thesis
        by (rule api_goI [of _ St_Check ?t], simp add: c St_Set grp, rule api_quiet [OF s c]) (use grp in \<open>simp_all add: a k api_pos_defs\<close>)
    qed
  next
    case St_Check
    show ?thesis
    proof (cases "IPA_PM_STATE_ACTIVE (cl_state c) \<or> cl_group c \<noteq> IPA_PM_GROUP_DEFAULT")
      case True
      show ?thesis
        by (rule api_goI [of _ "St_Scale Sc_Start" s], simp add: c St_Check True, rule api_quiet [OF s c]) (simp_all add: a kept_put c api_pos_defs)
    next
      case False
      show ?thesis
        by (rule api_retI [of _ 0 s], simp add: c St_Check False, rule api_quiet [OF s c]) (simp_all add: a kept_put c api_pos_defs)
    qed
  next
    case (St_Scale q)
    show ?thesis unfolding St_Scale ipa_pm_set_throughput.simps
      by (rule api_scale_inv [OF s _ _ _ c]) (simp_all add: a St_Scale api_reads_def)
  qed
qed

lemma api_step_inv:
  assumes s: "pm_inv s" and g: "pm_allowed (EvApi e h) s"
  shows "\<exists>t. api_step e h s = Some t \<and> pm_inv t"
proof (cases "api s h")
  case (Activate sync p)
  then show ?thesis using activate_inv [OF s Activate g] by (simp add: api_step_def)
next
  case DeferredDeactivate
  then show ?thesis using deferred_inv [OF s] by (simp add: api_step_def)
next
  case (DeactivateSync p)
  then show ?thesis using deactivate_sync_inv [OF s DeactivateSync] g by (simp add: api_step_def)
next
  case (Deregister p)
  then show ?thesis using deregister_inv [OF s Deregister g] by (simp add: api_step_def)
next
  case (SetThroughput n p)
  then show ?thesis using set_throughput_inv [OF s] by (simp add: api_step_def)
qed (simp add: api_step_def s)

end
