(* ===== verification/Ipa_Pm_Work.thy ===== *)
theory Ipa_Pm_Work
  imports Ipa_Pm_Safe
begin

text \<open>The steps of the work queue and of the sweep keep the invariant.\<close>

section \<open>The work queue\<close>

definition quiet_work :: "work_pos \<Rightarrow> bool" where
  "quiet_work w \<longleftrightarrow> (\<forall>h. \<not> aw_early (act_work_on h w) \<and> \<not> aw_completing (act_work_on h w) \<and> act_work_on h w \<noteq> Some Aw_Dec \<and>
     deact_work_on h w \<noteq> Some Dw_Dec)"

lemma quiet_work_simps [simp]:
  "quiet_work NoWork" "quiet_work (ScalingWork q)" "quiet_work (ActivateWork h Aw_Relax)" "quiet_work (ActivateWork h Aw_Bit)"
  "quiet_work (ActivateWork h Aw_Callback)" "quiet_work (ActivateWork h (Aw_Scale q))" "quiet_work (DeactivateWork h Dw_State)"
  "quiet_work (DeactivateWork h Dw_Relax)" "quiet_work (DeactivateWork h Dw_Bit)" "quiet_work (DeactivateWork h (Dw_Scale q))"
  by (simp_all add: quiet_work_def aw_early_def aw_completing_def)

text \<open>The worker does not come to a client.\<close>

definition no_new_client :: "work_pos \<Rightarrow> work_pos \<Rightarrow> bool" where
  "no_new_client w w' \<longleftrightarrow>
     (\<forall>h. (act_work_on h w' = None \<or> act_work_on h w \<noteq> None) \<and> (deact_work_on h w' = None \<or> deact_work_on h w \<noteq> None))"

lemma no_new_client_simps [simp]:
  "no_new_client w NoWork" "no_new_client w (ScalingWork q)" "no_new_client (ActivateWork h p) (ActivateWork h p')"
  "no_new_client (DeactivateWork h r) (DeactivateWork h r')"
  by (simp_all add: no_new_client_def)

lemma quiet_work_same:
  assumes "quiet_work w" "quiet_work w'" "no_new_client w w'" "v_act v = act_work_on h w" "v_deact v = deact_work_on h w"
  shows "client_ok h c v \<Longrightarrow> client_ok h c (v\<lparr>v_act := act_work_on h w', v_deact := deact_work_on h w'\<rparr>)"
    "votes (Some c) (v\<lparr>v_act := act_work_on h w', v_deact := deact_work_on h w'\<rparr>) = votes (Some c) v"
    "view_idle v \<Longrightarrow> view_idle (v\<lparr>v_act := act_work_on h w', v_deact := deact_work_on h w'\<rparr>)"
proof -
  have q: "\<not> aw_early (act_work_on h x)" "\<not> aw_completing (act_work_on h x)" "act_work_on h x \<noteq> Some Aw_Awake" "act_work_on h x \<noteq> Some Aw_State"
      "act_work_on h x \<noteq> Some (Aw_Complete d)" "act_work_on h x \<noteq> Some Aw_Dec" "deact_work_on h x \<noteq> Some Dw_Dec" if "x = w \<or> x = w'" for x d
    using that assms(1,2) by (auto simp: quiet_work_def aw_early_def aw_completing_def)
  note q = q [of w] q [of w']
  have dn: "deact_work_on h w = None \<Longrightarrow> deact_work_on h w' = None" using assms(3) by (auto simp: no_new_client_def)
  show "client_ok h c v \<Longrightarrow> client_ok h c (v\<lparr>v_act := act_work_on h w', v_deact := deact_work_on h w'\<rparr>)"
    using assms(4-) q dn by (simp add: client_ok_def)
  show "votes (Some c) (v\<lparr>v_act := act_work_on h w', v_deact := deact_work_on h w'\<rparr>) = votes (Some c) v"
    using assms(4-) q by (simp add: votes_def)
  show "view_idle v \<Longrightarrow> view_idle (v\<lparr>v_act := act_work_on h w', v_deact := deact_work_on h w'\<rparr>)"
    using assms(3-) by (auto simp: view_idle_def no_new_client_def)
qed

lemma work_quiet:
  assumes s: "pm_inv s" and t: "\<And>h. framed h s t" "\<And>h. client_of h t = client_of h s" "\<And>v. clk_holds v (clk t) = clk_holds v (clk s)"
    and w: "quiet_work (worker s)" "quiet_work w" "no_new_client (worker s) w" and so: "scaling_ok (t\<lparr>worker := w\<rparr>)"
  shows "pm_inv (t\<lparr>worker := w\<rparr>)"
proof -
  have v: "view h (t\<lparr>worker := w\<rparr>) = (view h s)\<lparr>v_act := act_work_on h w, v_deact := deact_work_on h w\<rparr>" for h
    using t(1) by (simp add: view_def framed_def)
  note q = quiet_work_same [OF w view_sel(2,3)]
  have "votes (client_of h s) ((view h s)\<lparr>v_act := act_work_on h w, v_deact := deact_work_on h w\<rparr>) = votes (client_of h s) (view h s)" for h
    using q(2) by (cases "client_of h s") (simp_all add: votes_def [of None])
  then have "total_votes (t\<lparr>worker := w\<rparr>) = total_votes s"
    using t(1) unfolding total_votes_def v by (simp add: t(2) framed_def)
  moreover have "view_ok h (client_of h s) ((view h s)\<lparr>v_act := act_work_on h w, v_deact := deact_work_on h w\<rparr>)" for h
  proof (cases "client_of h s")
    case None
    show ?thesis unfolding None using q(3) [OF pm_inv_none [OF s None]] by (simp add: view_ok_def)
  next
    case (Some c)
    show ?thesis unfolding Some using q(1) [OF pm_invD [OF s Some]] by (simp add: view_ok_def)
  qed
  ultimately show ?thesis using s so t(3) by (simp add: pm_inv_def t(2) v)
qed

lemma work_scale_inv:
  assumes s: "pm_inv s" and a: "worker s = g (f p)" and q: "\<And>p. quiet_work (g (f p))" "\<And>p q. no_new_client (g (f p)) (g (f q))"
    and r: "\<And>p. work_reads (g (f p)) = is_vote p"
  shows "\<exists>t. work_go g (scale_then f p s) = Some t \<and> pm_inv t"
proof -
  have so: "scaling_ok s" "is_vote p \<Longrightarrow> current_threshold (clk_scaling (pm s)) \<noteq> ThNull"
    using s a r [of p] by (auto simp: pm_inv_def scaling_ok_def)
  obtain n t where st: "scale_then f p s = Some (case n of None \<Rightarrow> Return 0 | Some q \<Rightarrow> Goto (f q), t)" "scaled s n t"
    using scale_then_ok [OF so] .
  let ?q = "case n of None \<Rightarrow> NoWork | Some q \<Rightarrow> g (f q)"
  have qq: "quiet_work ?q" "no_new_client (worker s) ?q" using q a by (simp_all split: option.split)
  have "scaling_ok (t\<lparr>worker := ?q\<rparr>)"
    using st(2) so(1) r by (cases n) (auto simp: scaled_def scaling_ok_def framed_def work_reads_def [of NoWork])
  then have "pm_inv (t\<lparr>worker := ?q\<rparr>)"
    using st(2) a q(1) by (intro work_quiet [OF s _ _ _ _ qq]) (auto simp: scaled_def)
  moreover have "work_go g (scale_then f p s) = Some (t\<lparr>worker := ?q\<rparr>)"
    by (simp add: st(1) work_go_def split: option.split)
  ultimately show ?thesis by blast
qed

lemma work_goI:
  "r = Some (Goto q, t) \<Longrightarrow> pm_inv (t\<lparr>worker := f q\<rparr>) \<Longrightarrow> \<exists>t. work_go f r = Some t \<and> pm_inv t"
  by (simp add: work_go_def)

lemma work_retI:
  "r = Some (Return q, t) \<Longrightarrow> pm_inv (t\<lparr>worker := NoWork\<rparr>) \<Longrightarrow> \<exists>t. work_go f r = Some t \<and> pm_inv t"
  by (simp add: work_go_def)

lemma work_client:
  assumes "pm_inv s" "act_work_on h (worker s) \<noteq> None \<or> deact_work_on h (worker s) \<noteq> None"
  obtains c where "client_of h s = Some c"
  using pm_inv_none [OF assms(1), of h] assms(2) by (cases "client_of h s") (auto simp: view_idle_def)

text \<open>A step of the worker that changes nothing the invariant speaks of.\<close>

lemma work_quiet_kept:
  assumes s: "pm_inv s" and c: "client_of h s = Some c" and t: "kept h s t" "client_of h t = Some c" "clk t = clk s"
    and w: "quiet_work (worker s)" "quiet_work w" "no_new_client (worker s) w" "\<not> work_reads w"
  shows "pm_inv (t\<lparr>worker := w\<rparr>)"
proof (rule work_quiet [OF s _ _ _ w(1-3)])
  have f: "framed h s t" using t(1) by (simp add: kept_def)
  show cl: "client_of i t = client_of i s" for i using f c t(2) by (cases "i = h") (simp_all add: framed_def)
  show "framed i s t" for i using f cl by (simp add: framed_def)
qed (simp_all add: t(3) kept_scaling(2) [OF s t(1) w(4)])

lemma aw_pos [simp]:
  "aw_early (Some Aw_Inc)" "aw_early (Some Aw_Awake)" "aw_early (Some Aw_State)" "\<not> aw_early (Some (Aw_Complete d))" "\<not> aw_early (Some Aw_Dec)"
  "\<not> aw_early (Some Aw_Relax)" "\<not> aw_early (Some Aw_Bit)" "\<not> aw_early None" "aw_completing (Some (Aw_Complete d))"
  "\<not> aw_completing (Some Aw_Inc)" "\<not> aw_completing (Some Aw_Awake)" "\<not> aw_completing (Some Aw_State)" "\<not> aw_completing (Some Aw_Dec)"
  "\<not> aw_completing (Some Aw_Relax)" "\<not> aw_completing (Some Aw_Bit)" "\<not> aw_completing None"
  by (simp_all add: aw_early_def aw_completing_def)

lemmas work_ok_defs = client_ok_def work_reads_def is_vote_def

lemma votes_work:
  assumes "(x = Some Aw_Awake \<or> x = Some Aw_State \<or> x = Some (Aw_Complete True) \<or> x = Some Aw_Dec) =
      (v_act v = Some Aw_Awake \<or> v_act v = Some Aw_State \<or> v_act v = Some (Aw_Complete True) \<or> v_act v = Some Aw_Dec)"
    "(y = Some Dw_Dec) = (v_deact v = Some Dw_Dec)"
  shows "votes (Some c) (v\<lparr>v_act := x, v_deact := y\<rparr>) = votes (Some c) v"
  using assms by (simp add: votes_def)

lemma relax_ok [simp]: "client_ok h (relax c) v = client_ok h c v" "client_ok h (stay_awake c) v = client_ok h c v"
  by (simp_all add: client_ok_def)

lemma activate_work_inv:
  assumes s: "pm_inv s" and w: "worker s = ActivateWork h p" and g: "\<not> gsi_irq e"
  shows "\<exists>t. work_go (ActivateWork h) (activate_work_func e h p s) = Some t \<and> pm_inv t"
proof -
  obtain c where c: "client_of h s = Some c" using work_client [OF s, of h] w by auto
  note ok = pm_invD [OF s c]
  show ?thesis
  proof (cases p)
    case Aw_Inc
    show ?thesis
    proof (cases "cl_skip_clk_vote c")
      case True
      show ?thesis
        by (rule work_goI [of _ Aw_State s], simp add: c Aw_Inc True, rule work_move [OF s c, of s c])
           (use w Aw_Inc True in \<open>auto simp: kept_put c work_ok_defs votes_def\<close>)
    next
      case False
      have v: "votes (Some c) ((view h s)\<lparr>v_act := Some Aw_Awake, v_deact := None\<rparr>) = votes (Some c) (view h s) + 1"
        using w Aw_Inc False by (simp add: votes_def)
      show ?thesis
        by (rule work_goI [of _ Aw_Awake "clk_inc s"], simp add: c Aw_Inc False, rule work_move [OF s c, of _ c])
           (use w Aw_Inc False holds_inc in \<open>auto simp: kept_put c clk_inc_def work_ok_defs v\<close>)
    qed
  next
    case Aw_Awake
    show ?thesis
      by (rule work_goI [of _ Aw_State "put_client h (stay_awake c) s"], simp add: c Aw_Awake, rule work_move [OF s c, of _ "stay_awake c"])
         (use w Aw_Awake in \<open>auto simp: kept_put c work_ok_defs votes_work\<close>)
  next
    case Aw_State
    have np: "IPA_PM_STATE_IN_PROGRESS (cl_state c)" using ok w Aw_State by (simp add: client_ok_def aw_early_def)
    show ?thesis
    proof (cases "cl_state c = IPA_PM_ACTIVATE_IN_PROGRESS")
      case True
      let ?c = "c\<lparr>cl_state := IPA_PM_ACTIVATED\<rparr>"
      have v: "votes (Some ?c) ((view h s)\<lparr>v_act := Some (Aw_Complete False), v_deact := None\<rparr>) = votes (Some c) (view h s)"
        if "client_ok h c (view h s)"
        using that w Aw_State True by (simp add: votes_def state_preds client_ok_def pos_preds)
      show ?thesis
        by (rule work_goI [of _ "Aw_Complete False" "put_client h ?c s"], simp add: c Aw_State True, rule work_move [OF s c, of _ ?c])
           (use w Aw_State True in \<open>auto simp: kept_put c work_ok_defs v state_preds\<close>)
    next
      case False
      then have d: "cl_state c = IPA_PM_DEACTIVATE_IN_PROGRESS" using np by (simp add: state_preds)
      let ?c = "c\<lparr>cl_state := IPA_PM_DEACTIVATED\<rparr>"
      have v: "votes (Some ?c) ((view h s)\<lparr>v_act := Some (Aw_Complete True), v_deact := None\<rparr>) = votes (Some c) (view h s)"
        using w Aw_State d by (simp add: votes_def state_preds)
      show ?thesis
        by (rule work_goI [of _ "Aw_Complete True" "put_client h ?c s"], simp add: c Aw_State d, rule work_move [OF s c, of _ ?c])
           (use w Aw_State d in \<open>auto simp: kept_put c work_ok_defs v state_preds\<close>)
    qed
  next
    case (Aw_Complete d)
    let ?c = "c\<lparr>cl_complete := True\<rparr>"
    have nq: "\<not> cl_act_queued c" using ok w Aw_Complete by (auto simp: client_ok_def aw_completing_def)
    consider (act) "\<not> d" | (skip) "d" "cl_skip_clk_vote c" | (dec) "d" "\<not> cl_skip_clk_vote c" by blast
    then show ?thesis
    proof cases
      case act
      show ?thesis
        by (rule work_goI [of _ Aw_Bit "put_client h ?c s"], simp add: c Aw_Complete act, rule work_move [OF s c, of _ ?c])
           (use w Aw_Complete act nq in \<open>auto simp: kept_put c work_ok_defs votes_work\<close>)
    next
      case skip
      show ?thesis
        by (rule work_retI [of _ 0 "put_client h ?c s"], simp add: c Aw_Complete skip, rule work_move [OF s c, of _ ?c])
           (use w Aw_Complete skip nq in \<open>auto simp: kept_put c work_ok_defs votes_def\<close>)
    next
      case dec
      show ?thesis
        by (rule work_goI [of _ Aw_Dec "put_client h ?c s"], simp add: c Aw_Complete dec, rule work_move [OF s c, of _ ?c])
           (use w Aw_Complete dec nq in \<open>auto simp: kept_put c work_ok_defs votes_work\<close>)
    qed
  next
    case Aw_Dec
    have i: "\<not> cl_skip_clk_vote c" using ok w Aw_Dec by (simp add: client_ok_def)
    have "0 < votes (Some c) (view h s)" using i w Aw_Dec by (simp add: votes_def)
    then obtain t where t: "client_dec e h s = Some t" "kept h s t" "client_of h t = Some c" "\<And>v. clk_holds (v + 1) (clk s) \<Longrightarrow> clk_holds v (clk t)"
      using client_dec_ok [OF s c _ g] by metis
    have v: "votes (Some c) (view h s) = votes (Some c) ((view h s)\<lparr>v_act := Some Aw_Relax, v_deact := None\<rparr>) + 1"
      using i w Aw_Dec by (simp add: votes_def)
    have ok': "client_ok h c ((view h s)\<lparr>v_act := Some Aw_Relax, v_deact := None\<rparr>)"
      using ok w Aw_Dec i by (simp add: client_ok_def aw_early_def aw_completing_def)
    show ?thesis
      by (rule work_goI [of _ Aw_Relax t], simp add: t(1) Aw_Dec, rule work_move [OF s c t(2,3)])
         (use ok' w t(4) v in \<open>simp_all add: work_reads_def flip: add.assoc\<close>)
  next
    case Aw_Relax
    show ?thesis
      by (rule work_retI [of _ 0 "put_client h (relax c) s"], simp add: c Aw_Relax, rule work_move [OF s c, of _ "relax c"])
         (use w Aw_Relax in \<open>auto simp: kept_put c work_ok_defs votes_work\<close>)
  next
    case Aw_Bit
    let ?t = "s\<lparr>pm := activate_client h (pm s)\<rparr>"
    have k: "kept h s ?t" "client_of h ?t = Some c" using c by (simp_all add: kept_def framed_def client_of_def activate_client_def Let_def)
    show ?thesis
      by (rule work_goI [of _ Aw_Callback ?t], simp add: c Aw_Bit, rule work_quiet_kept [OF s c k]) (simp_all add: w Aw_Bit work_reads_def)
  next
    case Aw_Callback
    let ?t = "if cl_callback c then s\<lparr>cb_log := cb_log s @ [(h, IPA_PM_CLIENT_ACTIVATED)]\<rparr> else s"
    have k: "kept h s ?t" "client_of h ?t = Some c" using c by (simp_all add: kept_def framed_def)
    show ?thesis
      by (rule work_goI [of _ "Aw_Scale Sc_Start" ?t], simp add: c Aw_Callback, rule work_quiet_kept [OF s c k])
         (simp_all add: w Aw_Callback work_reads_def is_vote_def)
  next
    case (Aw_Scale q)
    show ?thesis unfolding Aw_Scale activate_work_func.simps
      by (rule work_scale_inv [OF s]) (simp_all add: w Aw_Scale work_reads_def)
  qed
qed

lemma deactivate_work_inv:
  assumes s: "pm_inv s" and w: "worker s = DeactivateWork h p" and g: "\<not> gsi_irq e"
  shows "\<exists>t. work_go (DeactivateWork h) (delayed_deferred_deactivate_work_func e h p s) = Some t \<and> pm_inv t"
proof -
  obtain c where c: "client_of h s = Some c" using work_client [OF s, of h] w by auto
  note ok = pm_invD [OF s c]
  have nd: "\<not> ds_cancelled (api s h)" "\<not> ds_dropped (api s h)" "\<not> ds_between (api s h)"
    using ok w by (auto simp: client_ok_def ds_cancelled_def ds_between_def)
  show ?thesis
  proof (cases p)
    case Dw_State
    show ?thesis
    proof (cases "cl_state c = IPA_PM_ACTIVATED_PENDING_DEACTIVATION")
      case off: True
      let ?c = "c\<lparr>cl_state := IPA_PM_DEACTIVATED\<rparr>"
      let ?q = "if cl_skip_clk_vote c then Dw_Bit else Dw_Dec"
      have ac: "IPA_PM_STATE_ACTIVE (cl_state c)" using off by (simp add: state_preds)
      have v: "votes (Some ?c) ((view h s)\<lparr>v_act := None, v_deact := Some ?q\<rparr>) = votes (Some c) (view h s)"
        using w Dw_State off nd(2) by (simp add: votes_def state_preds)
      show ?thesis
        by (rule work_goI [of _ ?q "put_client h ?c s"], simp add: c Dw_State off, rule work_move [OF s c, of _ ?c])
           (use w Dw_State off nd in \<open>auto simp: kept_put c work_ok_defs v state_preds\<close>)
    next
      case on: False
      let ?c = "if cl_state c = IPA_PM_ACTIVATED_TIMER_SET then c\<lparr>cl_state := IPA_PM_ACTIVATED\<rparr>
        else if cl_state c = IPA_PM_ACTIVATED_PENDING_RESCHEDULE then c\<lparr>cl_state := IPA_PM_ACTIVATED_PENDING_DEACTIVATION, cl_timer := True\<rparr> else c"
      have k: "IPA_PM_STATE_ACTIVE (cl_state ?c) = IPA_PM_STATE_ACTIVE (cl_state c)"
          "IPA_PM_STATE_IN_PROGRESS (cl_state ?c) = IPA_PM_STATE_IN_PROGRESS (cl_state c)" "cl_skip_clk_vote ?c = cl_skip_clk_vote c"
          "cl_act_queued ?c = cl_act_queued c" "cl_complete ?c = cl_complete c"
        by (simp_all add: state_preds)
      have r: "delayed_deferred_deactivate_work_func e h Dw_State s = Some (Return 0, put_client h ?c s)"
        using on put_same [OF c] by (cases "cl_state c") (simp_all add: c)
      let ?v = "(view h s)\<lparr>v_act := act_work_on h NoWork, v_deact := deact_work_on h NoWork\<rparr>"
      have q: "client_ok h c ?v" "votes (Some c) ?v = votes (Some c) (view h s)"
        using quiet_work_same(1,2) [of "worker s" NoWork "view h s" h c] ok w Dw_State by simp_all
      have "client_ok h ?c ?v" by (rule same_kind(1) [OF k q(1)]) (use nd in simp)
      then show ?thesis unfolding Dw_State
        by (intro work_retI [OF r] work_move [OF s c, of _ ?c]) (use q(2) in \<open>simp_all add: kept_put c w work_reads_def same_kind(2) [OF k]\<close>)
    qed
  next
    case Dw_Dec
    have i: "\<not> cl_skip_clk_vote c" using ok w Dw_Dec by (simp add: client_ok_def)
    have "0 < votes (Some c) (view h s)" using i w Dw_Dec by (simp add: votes_def)
    then obtain t where t: "client_dec e h s = Some t" "kept h s t" "client_of h t = Some c" "\<And>v. clk_holds (v + 1) (clk s) \<Longrightarrow> clk_holds v (clk t)"
      using client_dec_ok [OF s c _ g] by metis
    have v: "votes (Some c) (view h s) = votes (Some c) ((view h s)\<lparr>v_act := None, v_deact := Some Dw_Relax\<rparr>) + 1"
      using i w Dw_Dec by (simp add: votes_def)
    have ok': "client_ok h c ((view h s)\<lparr>v_act := None, v_deact := Some Dw_Relax\<rparr>)"
      using ok w Dw_Dec i nd by (simp add: client_ok_def)
    show ?thesis
      by (rule work_goI [of _ Dw_Relax t], simp add: t(1) Dw_Dec, rule work_move [OF s c t(2,3)])
         (use ok' w t(4) v in \<open>simp_all add: work_reads_def flip: add.assoc\<close>)
  next
    case Dw_Relax
    show ?thesis
      by (rule work_goI [of _ Dw_Bit "put_client h (relax c) s"], simp add: c Dw_Relax, rule work_move [OF s c, of _ "relax c"])
         (use w Dw_Relax nd in \<open>auto simp: kept_put c work_ok_defs votes_work\<close>)
  next
    case Dw_Bit
    let ?t = "s\<lparr>pm := deactivate_client h (pm s)\<rparr>"
    have k: "kept h s ?t" "client_of h ?t = Some c" using c by (simp_all add: kept_def framed_def client_of_def deactivate_client_def Let_def)
    show ?thesis
      by (rule work_goI [of _ "Dw_Scale Sc_Start" ?t], simp add: c Dw_Bit, rule work_quiet_kept [OF s c k])
         (simp_all add: w Dw_Bit work_reads_def is_vote_def)
  next
    case (Dw_Scale q)
    show ?thesis unfolding Dw_Scale delayed_deferred_deactivate_work_func.simps
      by (rule work_scale_inv [OF s]) (simp_all add: w Dw_Scale work_reads_def)
  qed
qed

lemma worker_step_inv:
  assumes s: "pm_inv s" and g: "\<not> gsi_irq e"
  shows "\<exists>t. worker_step e s = Some t \<and> pm_inv t"
proof (cases "worker s")
  case (ActivateWork h p)
  then show ?thesis using activate_work_inv [OF s ActivateWork g] by (simp add: worker_step_def)
next
  case (DeactivateWork h p)
  then show ?thesis using deactivate_work_inv [OF s DeactivateWork g] by (simp add: worker_step_def)
next
  case (ScalingWork p)
  then have "\<exists>t. work_go ScalingWork (scale_then id p s) = Some t \<and> pm_inv t"
    by (intro work_scale_inv [OF s]) (simp_all add: work_reads_def)
  then show ?thesis using ScalingWork by (simp add: worker_step_def)
qed (simp add: worker_step_def s)

section \<open>The sweep\<close>

definition sweep_go :: "(sweep_pos go \<times> pm_sys) option \<Rightarrow> pm_sys option" where
  "sweep_go r = do { (g, s) \<leftarrow> r; Some (case g of Goto p \<Rightarrow> s\<lparr>sweep := p\<rparr> | Return v \<Rightarrow> s\<lparr>sweep := NoSweep\<rparr> | Blocked \<Rightarrow> s) }"

lemma sweep_goI: "r = Some (Goto p, t) \<Longrightarrow> pm_inv (t\<lparr>sweep := p\<rparr>) \<Longrightarrow> \<exists>t. sweep_go r = Some t \<and> pm_inv t"
  by (simp add: sweep_go_def)

lemma sweep_retI: "r = Some (Return p, t) \<Longrightarrow> pm_inv (t\<lparr>sweep := NoSweep\<rparr>) \<Longrightarrow> \<exists>t. sweep_go r = Some t \<and> pm_inv t"
  by (simp add: sweep_go_def)

lemma sweep_blockI: "r = Some (Blocked, t) \<Longrightarrow> pm_inv t \<Longrightarrow> \<exists>t. sweep_go r = Some t \<and> pm_inv t"
  by (simp add: sweep_go_def)

text \<open>The sweep moves and holds no pointer to a client before and after.\<close>

lemma sweep_free:
  assumes s: "pm_inv s" and t: "\<And>h. framed h s t" "\<And>h. client_of h t = client_of h s" "\<And>v. clk_holds v (clk t) = clk_holds v (clk s)"
    and w: "sweep_client (sweep s) = None" "sweep_client p = None" and so: "scaling_ok (t\<lparr>sweep := p\<rparr>)"
  shows "pm_inv (t\<lparr>sweep := p\<rparr>)"
proof -
  have v: "view h (t\<lparr>sweep := p\<rparr>) = view h s" for h
    using t(1) w by (simp add: view_def framed_def sweep_on_def)
  have "total_votes (t\<lparr>sweep := p\<rparr>) = total_votes s" using t(1) unfolding total_votes_def v by (simp add: t(2) framed_def)
  then show ?thesis using s so t(3) by (simp add: pm_inv_def t(2) v)
qed

lemma sweep_free_same:
  assumes s: "pm_inv s" and w: "sweep_client (sweep s) = None" "sweep_client p = None" "\<not> sweep_reads p"
  shows "pm_inv (s\<lparr>sweep := p\<rparr>)"
  by (rule sweep_free [OF s _ _ _ w(1,2)]) (simp_all add: framed_def kept_scaling(3) [OF s kept_put(2) w(3)])

lemma sweep_ok_upd:
  assumes "\<And>i. x \<noteq> Sw_Dec i" "\<And>i. v_sweep v \<noteq> Sw_Dec i"
  shows "client_ok h c (v\<lparr>v_sweep := x\<rparr>) = client_ok h c v" "votes (Some c) (v\<lparr>v_sweep := x\<rparr>) = votes (Some c) v"
  using assms by (simp_all add: client_ok_def votes_def)

text \<open>A move of the sweep that leaves the client as it is.\<close>

lemma sweep_same:
  assumes s: "pm_inv s" and c: "client_of h s = Some c" and t: "kept h s t" "client_of h t = Some c" "clk t = clk s"
    and p: "\<not> sweep_reads p" "sweep_of h (sweep s)" "sweep_of h p" "\<And>i. sweep s \<noteq> Sw_Dec i" "\<And>i. p \<noteq> Sw_Dec i"
  shows "pm_inv (t\<lparr>sweep := p\<rparr>)"
proof (rule sweep_move [OF s c t(1,2) p(1-3)])
  have n: "sweep_on h x \<noteq> Sw_Dec i" if "\<And>i. x \<noteq> Sw_Dec i" for x i using that by (simp add: sweep_on_def)
  note u = sweep_ok_upd [of "sweep_on h p" "view h s", OF n [OF p(5)]]
  show "client_ok h c ((view h s)\<lparr>v_sweep := sweep_on h p\<rparr>)" if "client_ok h c (view h s)"
    using that n [OF p(4)] by (simp add: u)
  show "clk_holds (v + votes (Some c) ((view h s)\<lparr>v_sweep := sweep_on h p\<rparr>)) (clk t)" if "clk_holds (v + votes (Some c) (view h s)) (clk s)" for v
    using that n [OF p(4)] by (simp add: u t(3))
qed

lemma sweep_scale_inv:
  assumes s: "pm_inv s" and a: "sweep s = Sw_Scale p"
  shows "\<exists>t. sweep_go (scale_then Sw_Scale p s) = Some t \<and> pm_inv t"
proof -
  have so: "scaling_ok s" "is_vote p \<Longrightarrow> current_threshold (clk_scaling (pm s)) \<noteq> ThNull"
    using s a by (auto simp: pm_inv_def scaling_ok_def sweep_reads_def)
  obtain n t where st: "scale_then Sw_Scale p s = Some (case n of None \<Rightarrow> Return 0 | Some q \<Rightarrow> Goto (Sw_Scale q), t)" "scaled s n t"
    using scale_then_ok [OF so] .
  let ?q = "case n of None \<Rightarrow> NoSweep | Some q \<Rightarrow> Sw_Scale q"
  have "scaling_ok (t\<lparr>sweep := ?q\<rparr>)"
    using st(2) so(1) by (cases n) (auto simp: scaled_def scaling_ok_def framed_def sweep_reads_def)
  then have "pm_inv (t\<lparr>sweep := ?q\<rparr>)"
    using st(2) a by (intro sweep_free [OF s]) (auto simp: scaled_def sweep_client_def split: option.split)
  moreover have "sweep_go (scale_then Sw_Scale p s) = Some (t\<lparr>sweep := ?q\<rparr>)"
    by (simp add: st(1) sweep_go_def split: option.split)
  ultimately show ?thesis by blast
qed

lemma sweep_has_client: "pm_inv s \<Longrightarrow> sweep_client (sweep s) = Some h \<Longrightarrow> \<exists>c. client_of h s = Some c"
  using pm_inv_none [of s h] by (cases "client_of h s") (auto simp: view_idle_def sweep_on_def sweep_client_def)

lemma sweep_lock_inv:
  assumes s: "pm_inv s" and w: "sweep s = Sw_Lock i r" and c: "client_of i s = Some c" and g: "\<not> ds_between (api s i)"
  shows "\<exists>t. sweep_go (ipa_pm_deactivate_all_deferred e (Sw_Lock i r) s) = Some t \<and> pm_inv t"
proof -
  note ok = pm_invD [OF s c]
  note sw = kept_put c w sweep_reads_def sweep_of_def sweep_client_def
  have nd: "\<not> ds_dropped (api s i)" using g by (simp add: ds_between_def)
  consider (set) "cl_state c = IPA_PM_ACTIVATED_TIMER_SET"
    | (off) "cl_state c = IPA_PM_ACTIVATED_PENDING_DEACTIVATION \<or> cl_state c = IPA_PM_ACTIVATED_PENDING_RESCHEDULE"
    | (same) "cl_state c \<noteq> IPA_PM_ACTIVATED_TIMER_SET" "cl_state c \<noteq> IPA_PM_ACTIVATED_PENDING_DEACTIVATION" "cl_state c \<noteq> IPA_PM_ACTIVATED_PENDING_RESCHEDULE"
    by blast
  then show ?thesis
  proof cases
    case set
    let ?c = "c\<lparr>cl_state := IPA_PM_ACTIVATED\<rparr>"
    have k: "IPA_PM_STATE_ACTIVE (cl_state ?c) = IPA_PM_STATE_ACTIVE (cl_state c)"
      "IPA_PM_STATE_IN_PROGRESS (cl_state ?c) = IPA_PM_STATE_IN_PROGRESS (cl_state c)" "cl_skip_clk_vote ?c = cl_skip_clk_vote c"
      "cl_act_queued ?c = cl_act_queued c" "cl_complete ?c = cl_complete c" by (simp_all add: set state_preds)
    have ok': "client_ok i c ((view i s)\<lparr>v_sweep := NoSweep\<rparr>)" "votes (Some c) ((view i s)\<lparr>v_sweep := NoSweep\<rparr>) = votes (Some c) (view i s)"
      using ok by (simp_all add: sweep_ok_upd w sweep_on_def)
    have "client_ok i ?c ((view i s)\<lparr>v_sweep := NoSweep\<rparr>)" by (rule same_kind(1) [OF k ok'(1)]) simp
    then show ?thesis
      by (intro sweep_goI [of _ "Sw_Client (i + 1) r" "put_client i ?c s"] sweep_move [OF s c, of _ ?c])
         (use ok'(2) in \<open>simp_all add: set sw sweep_on_def same_kind(2) [OF k]\<close>)
  next
    case off
    let ?c = "c\<lparr>cl_state := IPA_PM_DEACTIVATED\<rparr>"
    let ?q = "if cl_skip_clk_vote c then Sw_Bit i else Sw_Dec i"
    have nts: "cl_state c \<noteq> IPA_PM_ACTIVATED_TIMER_SET" "IPA_PM_STATE_ACTIVE (cl_state c)" using off by (auto simp: state_preds)
    have q: "sweep_on i (Sw_Lock i r) = Sw_Lock i r" "sweep_on i ?q = ?q" by (simp_all add: sweep_on_def sweep_client_def)
    have v: "votes (Some ?c) ((view i s)\<lparr>v_sweep := ?q\<rparr>) = votes (Some c) (view i s)"
      using nts(2) nd w q(1) by (simp add: votes_def IPA_PM_STATE_ACTIVE_def [of IPA_PM_DEACTIVATED])
    have ok': "client_ok i ?c ((view i s)\<lparr>v_sweep := ?q\<rparr>)"
      using ok active_state [OF nts(2)] g by (auto simp: client_ok_def IPA_PM_STATE_IN_PROGRESS_def [of IPA_PM_DEACTIVATED])
    show ?thesis
      by (intro sweep_goI [of _ ?q "put_client i ?c s"] sweep_move [OF s c, of _ ?c])
         (use off nts ok' v q(2) in \<open>simp_all add: sw\<close>)
  next
    case same
    show ?thesis
      by (rule sweep_goI [of _ "Sw_Client (i + 1) r" s], simp add: c same, rule sweep_same [OF s c]) (simp_all add: sw)
  qed
qed

lemma sweep_step_inv:
  assumes s: "pm_inv s" and g: "pm_allowed (EvSweep e) s"
  shows "\<exists>t. sweep_step e s = Some t \<and> pm_inv t"
proof -
  have irq: "\<not> gsi_irq e" using g by simp
  have "\<exists>t. sweep_go (ipa_pm_deactivate_all_deferred e (sweep s) s) = Some t \<and> pm_inv t"
  proof (cases "sweep s")
    case NoSweep
    have "pm_inv (s\<lparr>sweep := NoSweep\<rparr>)" by (rule sweep_free_same [OF s]) (simp_all add: NoSweep sweep_client_def sweep_reads_def)
    then show ?thesis by (simp add: NoSweep sweep_go_def)
  next
    case (Sw_Client i r)
    have free: "sweep_client p = None \<Longrightarrow> \<not> sweep_reads p \<Longrightarrow> pm_inv (s\<lparr>sweep := p\<rparr>)" for p
      by (rule sweep_free_same [OF s]) (simp_all add: Sw_Client sweep_client_def)
    show ?thesis
    proof (cases "client_of i s")
      case None
      show ?thesis
        by (cases "i \<ge> IPA_PM_MAX_CLIENTS"; cases r)
           (simp_all add: Sw_Client None sweep_go_def free sweep_client_def sweep_reads_def is_vote_def)
    next
      case (Some c)
      have i: "\<not> i \<ge> IPA_PM_MAX_CLIENTS" using client_okD [OF pm_invD [OF s Some]] by simp
      have timer_ok: "client_ok i c v \<Longrightarrow> client_ok i (c\<lparr>cl_timer := False\<rparr>) v" for v by (simp add: client_ok_def)
      show ?thesis
      proof (cases "deact_work_on i (worker s) = None")
        case True
        show ?thesis
          by (rule sweep_goI [of _ "Sw_Check i r" "put_client i (c\<lparr>cl_timer := False\<rparr>) s"], simp add: Sw_Client i Some cancel_ok [OF Some] True,
              rule sweep_move [OF s Some, of _ "c\<lparr>cl_timer := False\<rparr>"])
             (use timer_ok in \<open>simp_all add: kept_put Some Sw_Client sweep_reads_def sweep_of_def sweep_on_def sweep_client_def sweep_ok_upd\<close>)
      qed (rule sweep_blockI [of _ s]; simp add: Sw_Client i Some cancel_ok [OF Some] s)
    qed
  next
    case (Sw_Check i r)
    obtain c where c: "client_of i s = Some c" using sweep_has_client [OF s, of i] by (auto simp: Sw_Check sweep_client_def)
    show ?thesis
      by (rule sweep_goI [of _ "if IPA_PM_STATE_IN_PROGRESS (cl_state c) then Sw_Waiting i r else Sw_Lock i r" s], simp add: Sw_Check c,
          rule sweep_same [OF s c]) (simp_all add: kept_put c Sw_Check sweep_reads_def sweep_of_def sweep_client_def)
  next
    case (Sw_Waiting i r)
    obtain c where c: "client_of i s = Some c" using sweep_has_client [OF s, of i] by (auto simp: Sw_Waiting sweep_client_def)
    show ?thesis
    proof (cases "cl_complete c")
      case True
      show ?thesis
        by (rule sweep_goI [of _ "Sw_Client (i + 1) r" s], simp add: Sw_Waiting c True,
            rule sweep_same [OF s c]) (simp_all add: kept_put c Sw_Waiting sweep_reads_def sweep_of_def sweep_client_def)
    qed (rule sweep_blockI [of _ s]; simp add: Sw_Waiting c s)
  next
    case (Sw_Lock i r)
    obtain c where c: "client_of i s = Some c" using sweep_has_client [OF s, of i] by (auto simp: Sw_Lock sweep_client_def)
    show ?thesis using sweep_lock_inv [OF s Sw_Lock c] g Sw_Lock by simp
  next
    case (Sw_Dec i)
    obtain c where c: "client_of i s = Some c" using sweep_has_client [OF s, of i] by (auto simp: Sw_Dec sweep_client_def)
    note ok = pm_invD [OF s c]
    have on: "sweep_on i (sweep s) = Sw_Dec i" "sweep_on i (Sw_Relax i) = Sw_Relax i" by (simp_all add: Sw_Dec sweep_on_def sweep_client_def)
    have ns: "\<not> cl_skip_clk_vote c" using ok on by (auto simp: client_ok_def)
    have "0 < votes (Some c) (view i s)" using ns on by (simp add: votes_def)
    then obtain t where t: "client_dec e i s = Some t" "kept i s t" "client_of i t = Some c" "\<And>v. clk_holds (v + 1) (clk s) \<Longrightarrow> clk_holds v (clk t)"
      using client_dec_ok [OF s c _ irq] by metis
    have v: "votes (Some c) (view i s) = votes (Some c) ((view i s)\<lparr>v_sweep := Sw_Relax i\<rparr>) + 1"
      using ns on by (simp add: votes_def)
    have ok': "client_ok i c ((view i s)\<lparr>v_sweep := Sw_Relax i\<rparr>)" using ok ns by (simp add: client_ok_def)
    show ?thesis
      by (rule sweep_goI [of _ "Sw_Relax i" t], simp add: t(1) Sw_Dec, rule sweep_move [OF s c t(2,3)])
         (use ok' t(4) v on in \<open>simp_all add: Sw_Dec sweep_reads_def sweep_of_def sweep_client_def flip: add.assoc\<close>)
  next
    case (Sw_Relax i)
    obtain c where c: "client_of i s = Some c" using sweep_has_client [OF s, of i] by (auto simp: Sw_Relax sweep_client_def)
    show ?thesis
      by (rule sweep_goI [of _ "Sw_Bit i" "put_client i (relax c) s"], simp add: Sw_Relax c, rule sweep_move [OF s c, of _ "relax c"])
         (simp_all add: kept_put c Sw_Relax sweep_reads_def sweep_of_def sweep_on_def sweep_client_def sweep_ok_upd)
  next
    case (Sw_Bit i)
    obtain c where c: "client_of i s = Some c" using sweep_has_client [OF s, of i] by (auto simp: Sw_Bit sweep_client_def)
    let ?t = "s\<lparr>pm := deactivate_client i (pm s)\<rparr>"
    have k: "kept i s ?t" "client_of i ?t = Some c" using c by (simp_all add: kept_def framed_def client_of_def deactivate_client_def Let_def)
    show ?thesis
      by (rule sweep_goI [of _ "Sw_Client (i + 1) True" ?t], simp add: Sw_Bit c, rule sweep_same [OF s c k])
         (simp_all add: Sw_Bit sweep_reads_def sweep_of_def sweep_client_def)
  next
    case (Sw_Scale p)
    then show ?thesis using sweep_scale_inv [OF s] by simp
  qed
  then show ?thesis by (simp add: sweep_step_def sweep_go_def)
qed

end
