(* ===== verification/Ipa_Pm_Ok.thy ===== *)
theory Ipa_Pm_Ok
  imports Ipa_Pm_Work
begin

text \<open>
  What holds in every state the power manager can reach, and the functional behaviour of registration and clock scaling.
\<close>

section \<open>Registration\<close>

definition name_taken :: "ipa_pm_ctx \<Rightarrow> string \<Rightarrow> nat \<Rightarrow> bool" where
  "name_taken p name i \<longleftrightarrow> (\<exists>c. pm_clients p i = Some c \<and> cl_name c = name)"

lemma find_open_spec:
  "find_open p name i n =
     (if \<exists>j \<in> {1..i}. name_taken p name j then - EEXIST
      else if \<exists>j \<in> {1..i}. pm_clients p j = None then int (LEAST j. 1 \<le> j \<and> pm_clients p j = None) else n)"
proof (induction i arbitrary: n)
  case (Suc i)
  have s: "{Suc 0..Suc i} = insert (Suc i) {Suc 0..i}" by auto
  show ?case
  proof (cases "pm_clients p (Suc i)")
    case (Some c)
    have nt: "name_taken p name (Suc i) \<longleftrightarrow> name = cl_name c" using Some by (auto simp: name_taken_def)
    then have len: "(length name = length (cl_name c) \<and> name = cl_name c) = name_taken p name (Suc i)" by auto
    show ?thesis using Suc.IH [of n] Some by (cases "name_taken p name (Suc i)") (simp_all add: s len)
  next
    case None
    have l: "(LEAST j. 1 \<le> j \<and> pm_clients p j = None) = Suc i" if "\<not> (\<exists>j \<in> {1..i}. pm_clients p j = None)"
    proof (rule Least_equality)
      show "Suc i \<le> j" if "1 \<le> j \<and> pm_clients p j = None" for j
        using that \<open>\<not> (\<exists>j \<in> {1..i}. pm_clients p j = None)\<close> by (metis atLeastAtMost_iff not_less_eq_eq)
    qed (simp add: None)
    have nt: "\<not> name_taken p name (Suc i)" using None by (simp add: name_taken_def)
    show ?thesis using Suc.IH [of "int (Suc i)"] None l by (simp add: s nt)
  qed
qed simp

lemma find_open_free:
  assumes "find_open p name i (- ENOBUFS) = r" "0 \<le> r"
  shows "pm_clients p (nat r) = None" "1 \<le> nat r" "nat r \<le> i"
proof -
  have e: "\<exists>j \<in> {1..i}. pm_clients p j = None" and r: "r = int (LEAST j. 1 \<le> j \<and> pm_clients p j = None)"
    using assms by (auto simp: find_open_spec split: if_splits)
  from e obtain j where "1 \<le> j \<and> pm_clients p j = None" "j \<le> i" by auto
  then show "pm_clients p (nat r) = None" "1 \<le> nat r" "nat r \<le> i"
    unfolding r using LeastI [of "\<lambda>j. 1 \<le> j \<and> pm_clients p j = None" j] Least_le [of "\<lambda>j. 1 \<le> j \<and> pm_clients p j = None" j] by auto
qed

lemma add_to_exceptions_length: "length (snd (add_to_exceptions h name n exs)) = length exs"
  by (induction h name n exs rule: add_to_exceptions.induct) (auto simp: Let_def split: prod.splits)

lemma add_client_frame:
  assumes "add_client_to_exception_list h name p = (r, q)"
  shows "pm_clients q = pm_clients p" "current_threshold (clk_scaling q) = current_threshold (clk_scaling p)"
    "length (exception_list (clk_scaling q)) = length (exception_list (clk_scaling p))"
  using assms add_to_exceptions_length [of h name "nat (exception_size (clk_scaling p))" "exception_list (clk_scaling p)"]
  by (auto simp: add_client_to_exception_list_def Let_def split: prod.splits)

text \<open>Registration puts the new client under a free handle, or changes no client.\<close>

lemma register_frame:
  assumes "ipa_pm_register mem_ok wlock_ok par p = (r, hdl, q)"
  obtains (new) h where "r = 0" "hdl = int h" "h < IPA_PM_MAX_CLIENTS" "pm_clients p h = None" "pm_clients q = (pm_clients p)(h := Some (new_client par))"
      "current_threshold (clk_scaling q) = current_threshold (clk_scaling p)" "length (exception_list (clk_scaling q)) = length (exception_list (clk_scaling p))"
  | (same) "r < 0" "pm_clients q = pm_clients p"
      "current_threshold (clk_scaling q) = current_threshold (clk_scaling p)" "length (exception_list (clk_scaling q)) = length (exception_list (clk_scaling p))"
proof (cases "find_next_open_array_element (par_name par) p < 0")
  case True
  then show thesis using assms by (intro same) (auto simp: ipa_pm_register_def Let_def)
next
  case False
  let ?h = "nat (find_next_open_array_element (par_name par) p)"
  have f: "pm_clients p ?h = None" "?h \<le> IPA_PM_MAX_CLIENTS - 1"
    using find_open_free [of p "par_name par" "IPA_PM_MAX_CLIENTS - 1"] False by (simp_all add: find_next_open_array_element_def)
  have h: "\<not> find_next_open_array_element (par_name par) p > int IPA_PM_MAX_CLIENTS" "?h < IPA_PM_MAX_CLIENTS"
    using f(2) by (simp_all add: IPA_PM_MAX_CLIENTS_def)
  let ?p = "p\<lparr>pm_clients := (pm_clients p)(?h := Some (new_client par))\<rparr>"
  obtain x y where a: "add_client_to_exception_list ?h (cl_name (new_client par)) ?p = (x, y)" by fastforce
  note fr = add_client_frame [OF a]
  show thesis
  proof (cases "mem_ok \<and> wlock_ok \<and> x = 0")
    case True
    then have "r = 0" "hdl = int ?h" "q = y" using assms False h a by (auto simp: ipa_pm_register_def Let_def)
    then show thesis using fr f h by (intro new [of ?h]) simp_all
  next
    case nok: False
    then have "r < 0 \<and> (q = p \<or> q = free_client ?h ?p \<or> q = free_client ?h y)"
      using assms False h a by (auto simp: ipa_pm_register_def Let_def split: if_splits)
    then show thesis using fr f by (intro same) (auto simp: fun_upd_idem_iff)
  qed
qed

section \<open>Reachable states\<close>

lemma register_inv:
  assumes s: "pm_inv s" and e: "ipa_pm_register mem_ok wlock_ok par (pm s) = (r, h, p)"
  shows "pm_inv (s\<lparr>pm := p\<rparr>)"
  using e
proof (cases rule: register_frame)
  case (new h)
  let ?t = "s\<lparr>pm := p\<rparr>"
  have n: "client_of h s = None" "client_of h ?t = Some (new_client par)" using new by (simp_all add: client_of_def)
  note idle = pm_inv_none [OF s n(1)]
  have v: "view h ?t = view h s" by (simp add: view_def)
  have st: "cl_state (new_client par) = IPA_PM_DEACTIVATED" "\<not> cl_act_queued (new_client par)" by (simp_all add: new_client_def)
  have ok: "client_ok h (new_client par) (view h s)"
    using idle new(3) st by (auto simp: client_ok_def view_idle_def state_preds pos_preds)
  have vt: "votes (Some (new_client par)) (view h s) = 0" using idle st by (auto simp: votes_def view_idle_def state_preds)
  show ?thesis
  proof (rule local_step_inv [OF s, of h])
    show "local_step h s ?t" using new(5) by (simp add: local_step_def client_of_def view_def)
    show "view_ok h (client_of h ?t) (view h ?t)" unfolding n v using ok by (simp add: view_ok_def)
    show "scaling_ok ?t"
      by (rule kept_scaling(4) [OF s, of h]) (use new(5-7) in \<open>simp add: kept_def framed_def client_of_def\<close>)
    show "h < IPA_PM_MAX_CLIENTS" by (fact new(3))
    show "clk_holds (w + votes (client_of h ?t) (view h ?t)) (clk ?t)" if "clk_holds (w + votes (client_of h s) (view h s)) (clk s)" for w
      using that unfolding n v vt by (simp add: votes_def [of None])
  qed
next
  case same
  have c: "client_of i (s\<lparr>pm := p\<rparr>) = client_of i s" for i using same(2) by (simp add: client_of_def)
  have v: "view i (s\<lparr>pm := p\<rparr>) = view i s" for i by (simp add: view_def)
  have "scaling_ok (s\<lparr>pm := p\<rparr>)"
    by (rule kept_scaling(4) [OF s, of 0]) (use same in \<open>simp add: kept_def framed_def client_of_def\<close>)
  then show ?thesis using s by (simp add: pm_inv_def c v total_votes_def)
qed

text \<open>Events outside the power manager.\<close>

lemma other_event_inv:
  assumes s: "pm_inv s" and t: "\<And>h. kept h s t" "\<And>h. client_of h t = client_of h s"
    and k: "clk_holds (total_votes s + n - other_votes s) k"
  shows "pm_inv (t\<lparr>clk := k, other_votes := n\<rparr>)"
proof -
  let ?t = "t\<lparr>clk := k, other_votes := n\<rparr>"
  have v: "view i ?t = view i s" for i using t(1) [of i] by (simp add: view_def kept_def framed_def)
  have "total_votes ?t = total_votes s + n - other_votes s" unfolding total_votes_def v by (simp add: t(2))
  moreover have "scaling_ok ?t" using kept_scaling(4) [OF s t(1)] by (simp add: scaling_ok_def)
  ultimately show ?thesis using s k by (simp add: pm_inv_def t(2) v)
qed

lemma clk_result_inv:
  assumes s: "pm_inv s" and d: "ipa3_dec_client_disable_clks e k = Some (g, k')" and n: "n \<le> other_votes s" "clk_holds (total_votes s - n) k'"
  shows "\<exists>t. clk_result (ipa3_dec_client_disable_clks e k) s = Some t \<and> pm_inv (t\<lparr>other_votes := other_votes t - n\<rparr>)"
proof -
  let ?t = "s\<lparr>pm := if g then ipa_pm_set_clock_index 0 (pm s) else pm s\<rparr>"
  have k: "\<And>h. kept h s ?t" "\<And>h. client_of h ?t = client_of h s"
    by (simp_all add: kept_def framed_def client_of_def ipa_pm_set_clock_index_def)
  have "total_votes s + (other_votes s - n) - other_votes s = total_votes s - n" using n(1) by (simp add: total_votes_def)
  then have "pm_inv (?t\<lparr>clk := k', other_votes := other_votes s - n\<rparr>)" using other_event_inv [OF s k] n(2) by simp
  then show ?thesis by (cases g) (simp_all add: d clk_result_def)
qed

lemma other_dec_inv:
  assumes s: "pm_inv s" and v: "other_votes s \<noteq> 0" and g: "\<not> gsi_irq e"
  shows "\<exists>t. clk_dec e s = Some t \<and> pm_inv (t\<lparr>other_votes := other_votes t - 1\<rparr>)"
proof -
  have "clk_holds ((total_votes s - 1) + 1) (clk s)" using s v by (simp add: pm_inv_def total_votes_def)
  then obtain g' k where "ipa3_dec_client_disable_clks e (clk s) = Some (g', k)" "clk_holds (total_votes s - 1) k" using holds_dec [OF _ g] by metis
  then show ?thesis using clk_result_inv [OF s _, of e "clk s" g' k 1] v by (simp add: clk_dec_def)
qed

lemma pending_work_inv:
  assumes s: "pm_inv s" and w: "tag_work (clk s) \<or> dec_work (clk s)" and g: "\<not> gsi_irq e"
  shows "\<exists>t. clk_result (ipa3_dec_client_disable_clks e ((clk s)\<lparr>tag_work := False, dec_work := False\<rparr>)) s = Some t \<and> pm_inv t"
proof -
  have "clk_holds (total_votes s + 1) ((clk s)\<lparr>tag_work := False, dec_work := False\<rparr>)" using holds_work [OF _ w] s by (simp add: pm_inv_def)
  then obtain g' k where d: "ipa3_dec_client_disable_clks e ((clk s)\<lparr>tag_work := False, dec_work := False\<rparr>) = Some (g', k)" "clk_holds (total_votes s) k"
    using holds_dec [OF _ g] by metis
  show ?thesis using clk_result_inv [OF s d(1), of 0] d(2) by simp
qed

text \<open>A call starts, or is refused.\<close>

lemma start_call_inv:
  assumes s: "pm_inv s" and a: "api s h = Returned r"
  shows "pm_inv (start_call h f s)"
proof (cases "client_of h s")
  case None
  let ?t = "s\<lparr>api := (api s)(h := Returned (- EINVAL))\<rparr>"
  have ok: "view_ok i (client_of i s) (view i ?t)" for i
    using s None pm_inv_none [OF s None] by (cases "i = h") (auto simp: pm_inv_def view_ok_def view_idle_def view_def)
  have "votes (client_of i s) (view i ?t) = votes (client_of i s) (view i s)" for i
    using None by (cases "i = h") (simp_all add: votes_def [of None] view_def)
  then have "total_votes ?t = total_votes s" by (simp add: total_votes_def)
  moreover have "scaling_ok ?t" using kept_scaling(1) [OF s kept_put(2)] by (simp add: api_reads_def)
  ultimately show ?thesis using s ok None by (simp add: pm_inv_def start_call_def)
next
  case (Some c)
  have i: "\<not> h \<ge> IPA_PM_MAX_CLIENTS" using client_okD [OF pm_invD [OF s Some]] by simp
  have "pm_inv (s\<lparr>api := (api s)(h := call_pos f)\<rparr>)"
    by (rule api_quiet [OF s Some]) (simp_all add: a kept_put Some api_pos_defs call_pos_def split: pm_call.splits)
  then show ?thesis using i Some by (simp add: start_call_def)
qed

lemma start_work_inv:
  assumes s: "pm_inv s" and c: "client_of h s = Some c" and w: "worker s = NoWork"
  shows "cl_act_queued c \<Longrightarrow> pm_inv ((put_client h (c\<lparr>cl_act_queued := False\<rparr>) s)\<lparr>worker := ActivateWork h Aw_Inc\<rparr>)"
    "cl_timer c \<Longrightarrow> pm_inv ((put_client h (c\<lparr>cl_timer := False\<rparr>) s)\<lparr>worker := DeactivateWork h Dw_State\<rparr>)"
proof -
  assume q: "cl_act_queued c"
  show "pm_inv ((put_client h (c\<lparr>cl_act_queued := False\<rparr>) s)\<lparr>worker := ActivateWork h Aw_Inc\<rparr>)"
    by (rule work_move [OF s c, of _ "c\<lparr>cl_act_queued := False\<rparr>"])
       (use q w in \<open>auto simp: kept_put c work_ok_defs votes_work\<close>)
next
  assume q: "cl_timer c"
  show "pm_inv ((put_client h (c\<lparr>cl_timer := False\<rparr>) s)\<lparr>worker := DeactivateWork h Dw_State\<rparr>)"
    by (rule work_move [OF s c, of _ "c\<lparr>cl_timer := False\<rparr>"])
       (use q w in \<open>auto simp: kept_put c work_ok_defs votes_work\<close>)
qed

lemma start_scaling_inv:
  assumes s: "pm_inv s" and w: "worker s = NoWork"
  shows "pm_inv (s\<lparr>pm := (pm s)\<lparr>clk_scaling := (clk_scaling (pm s))\<lparr>scaling_queued := False\<rparr>\<rparr>, worker := ScalingWork Sc_Start\<rparr>)"
proof -
  let ?t = "s\<lparr>pm := (pm s)\<lparr>clk_scaling := (clk_scaling (pm s))\<lparr>scaling_queued := False\<rparr>\<rparr>\<rparr>"
  have k: "kept h s ?t" for h by (simp add: kept_def framed_def client_of_def)
  have "pm_inv (?t\<lparr>worker := ScalingWork Sc_Start\<rparr>)"
  proof (rule work_quiet [OF s])
    show "framed h s ?t" for h using k by (simp add: kept_def)
    show "scaling_ok (?t\<lparr>worker := ScalingWork Sc_Start\<rparr>)" by (rule kept_scaling(2) [OF s k]) (simp add: work_reads_def is_vote_def)
  qed (simp_all add: w client_of_def)
  then show ?thesis by simp
qed

lemma pm_exec_inv:
  assumes s: "pm_inv s" and g: "pm_allowed ev s"
  shows "\<exists>t. pm_exec ev s = Some t \<and> pm_inv t"
proof (cases ev)
  case (EvRegister mem_ok wlock_ok par)
  obtain r h p where "ipa_pm_register mem_ok wlock_ok par (pm s) = (r, h, p)" by (cases "ipa_pm_register mem_ok wlock_ok par (pm s)") auto
  then show ?thesis using register_inv [OF s] by (simp add: EvRegister pm_exec_def)
next
  case (EvCall h f)
  then show ?thesis using s start_call_inv [OF s] by (cases "api s h") (simp_all add: pm_exec_def)
next
  case (EvApi e h)
  then show ?thesis using api_step_inv [OF s] g by (simp add: pm_exec_def del: pm_allowed.simps)
next
  case (EvStartActivate h)
  then show ?thesis using s start_work_inv [OF s] by (simp add: pm_exec_def split: option.split)
next
  case (EvStartDeactivate h)
  then show ?thesis using s start_work_inv [OF s] by (simp add: pm_exec_def split: option.split)
next
  case EvStartScaling
  then show ?thesis using s start_scaling_inv [OF s] by (simp add: pm_exec_def)
next
  case (EvWorker e)
  then show ?thesis using worker_step_inv [OF s] g by (simp add: pm_exec_def)
next
  case EvStartSweep
  then show ?thesis using s sweep_free_same [OF s] by (simp add: pm_exec_def sweep_client_def sweep_reads_def)
next
  case (EvSweep e)
  then show ?thesis using sweep_step_inv [OF s] g by (simp add: pm_exec_def del: pm_allowed.simps)
next
  case EvOtherInc
  have "clk_holds (total_votes s + (other_votes s + 1) - other_votes s) (ipa3_inc_client_enable_clks (clk s))"
    using holds_inc [of "total_votes s"] s by (simp add: pm_inv_def)
  from other_event_inv [OF s kept_put(2) refl this] show ?thesis by (simp add: EvOtherInc pm_exec_def clk_inc_def)
next
  case (EvOtherDec e)
  then show ?thesis using s g other_dec_inv [OF s, of e] by (auto simp: pm_exec_def)
next
  case EvPacketSent
  have "clk_holds (total_votes s + other_votes s - other_votes s) ((clk s)\<lparr>tag_before_gating := True\<rparr>)"
    using s by (simp add: pm_inv_def clk_holds_def)
  from other_event_inv [OF s kept_put(2) refl this] show ?thesis by (simp add: EvPacketSent pm_exec_def)
next
  case (EvTagWork e)
  have "(clk s)\<lparr>tag_work := False, dec_work := False\<rparr> = (clk s)\<lparr>tag_work := False\<rparr>" if "tag_work (clk s)"
    using s that by (simp add: pm_inv_def clk_holds_def)
  then show ?thesis using s g pending_work_inv [OF s, of e] by (cases "tag_work (clk s)") (simp_all add: EvTagWork pm_exec_def ipa3_start_tag_process_def)
next
  case (EvDecWork e)
  have "(clk s)\<lparr>tag_work := False, dec_work := False\<rparr> = (clk s)\<lparr>dec_work := False\<rparr>" if "dec_work (clk s)"
    using s that by (simp add: pm_inv_def clk_holds_def)
  then show ?thesis using s g pending_work_inv [OF s, of e] by (cases "dec_work (clk s)") (simp_all add: EvDecWork pm_exec_def ipa_dec_clients_disable_clks_on_wq_def)
qed

text \<open>From initialisation on, over the allowed interleavings of all threads; the clock may be in any state in which it holds
  the votes of its other users.\<close>

inductive pm_reach :: "pm_sys \<Rightarrow> bool" where
  reach_init: "ipa_pm_init ctx_ok wq_ok pipes params None = (0, Some p) \<Longrightarrow> clk_holds v c \<Longrightarrow> pm_reach (pm_start p c v)"
| reach_step: "pm_reach s \<Longrightarrow> pm_allowed ev s \<Longrightarrow> pm_exec ev s = Some t \<Longrightarrow> pm_reach t"

lemma init_no_client:
  assumes "ipa_pm_init ctx_ok wq_ok pipes params None = (0, Some p)"
  shows "pm_clients p h = None" "current_threshold (clk_scaling p) = ThNull" "0 < threshold_size (clk_scaling p)" "threshold_size (clk_scaling p) \<le> IPA_PM_THRESHOLD_MAX"
  using assms by (auto simp: ipa_pm_init_def Let_def split: option.splits if_splits)

lemma reach_inv: "pm_reach s \<Longrightarrow> pm_inv s"
proof (induction rule: pm_reach.induct)
  case (reach_init ctx_ok wq_ok pipes params p v c)
  have n: "client_of h (pm_start p c v) = None" for h
    using init_no_client(1) [OF reach_init(1)] by (simp add: client_of_def pm_start_def)
  have "view_idle (view h (pm_start p c v))" for h by (simp add: view_idle_def pm_start_def sweep_on_def)
  moreover have "total_votes (pm_start p c v) = v" unfolding total_votes_def n by (simp add: votes_def [of None] pm_start_def)
  moreover have "scaling_ok (pm_start p c v)"
    using init_no_client(2) [OF reach_init(1)] by (simp add: scaling_ok_def threshold_ok_def pm_start_def api_reads_def work_reads_def sweep_reads_def)
  ultimately show ?case using reach_init(2) by (simp add: pm_inv_def n view_ok_def) (simp add: pm_start_def)
next
  case (reach_step s ev t)
  then show ?case using pm_exec_inv [of s ev] by auto
qed


definition pm_idle :: "pm_sys \<Rightarrow> bool" where
  "pm_idle s \<longleftrightarrow> (\<forall>h. \<exists>r. api s h = Returned r) \<and> worker s = NoWork \<and> sweep s = NoSweep"


end
