(* ===== verification/Ipa_Pm_Fun.thy ===== *)
theory Ipa_Pm_Fun
  imports Ipa_Pm_Ok
begin

unbundle bit_operations_syntax

text \<open>What registration and clock scaling of the power manager compute.\<close>

section \<open>Clock scaling\<close>

lemma threshold_index_bounds: "1 \<le> new_threshold_index n ths" "new_threshold_index n ths \<le> 1 + int (length ths)"
  by (simp_all add: new_threshold_index_def)

lemma threshold_index_mono: "m \<le> n \<Longrightarrow> new_threshold_index m ths \<le> new_threshold_index n ths"
  by (induction ths) (auto simp: new_threshold_index_def)

text \<open>The thresholds that apply: those of the first exception whose clients are all active, or the default.\<close>

definition applied_threshold :: "clk_scaling_db \<Rightarrow> int list" where
  "applied_threshold db =
     (case find (exception_passes (active_client_bitmask db)) (take (nat (exception_size db)) (exception_list db)) of
        Some ex \<Rightarrow> ex_threshold ex | None \<Rightarrow> default_threshold db)"

lemma first_exception_none: "find (exception_passes m) exs = None \<Longrightarrow> first_exception m exs i = ThDefault"
  by (induction exs arbitrary: i) (simp_all split: if_splits)

lemma first_exception_some:
  "find (exception_passes m) exs = Some ex \<Longrightarrow> \<exists>j < length exs. first_exception m exs i = ThException (i + j) \<and> exs ! j = ex"
proof (induction exs arbitrary: i)
  case (Cons x xs)
  show ?case
  proof (cases "exception_passes m x")
    case True
    then show ?thesis using Cons.prems by (intro exI [of _ 0]) simp
  next
    case False
    then obtain j where "j < length xs" "first_exception m xs (i + 1) = ThException (i + 1 + j)" "xs ! j = ex"
      using Cons.IH [of "i + 1"] Cons.prems by auto
    then show ?thesis using False by (intro exI [of _ "Suc j"]) simp
  qed
qed simp

lemma applied_threshold_of: "threshold_of (clk_scaling (set_current_threshold p)) = Some (applied_threshold (clk_scaling p))"
proof (cases "find (exception_passes (active_client_bitmask (clk_scaling p))) (take (nat (exception_size (clk_scaling p))) (exception_list (clk_scaling p)))")
  case None
  then show ?thesis
    by (simp add: first_exception_none set_current_threshold_def Let_def threshold_of_def applied_threshold_def)
next
  case (Some ex)
  then show ?thesis
    using first_exception_some [OF Some, of 0] by (auto simp: set_current_threshold_def Let_def threshold_of_def applied_threshold_def)
qed


section \<open>Registration\<close>

lemma strnstr_short: "n < length s2 \<Longrightarrow> \<not> strnstr s1 s2 n"
  by (cases n) auto

text \<open>With the length of the name as the bound, a name is found only if it is the whole string.\<close>

lemma strnstr_full: "length s1 = length s2 \<Longrightarrow> strnstr s1 s2 (length s2) \<longleftrightarrow> s1 = s2"
proof (cases s2)
  case (Cons c cs)
  assume l: "length s1 = length s2"
  have "\<not> strnstr (tl s1) s2 (length cs)" using strnstr_short [of "length cs" s2 "tl s1"] Cons by simp
  then show ?thesis using l Cons by simp
qed simp

definition exception_joined :: "nat \<Rightarrow> string \<Rightarrow> ipa_pm_exception_list \<Rightarrow> ipa_pm_exception_list" where
  "exception_joined h name ex =
     (if ex_clients ex = name
      then ex\<lparr>ex_pending := ex_pending ex - 1,
              ex_bitmask := (ex_bitmask ex)(ipahal_get_ep_reg_idx h := ex_bitmask ex (ipahal_get_ep_reg_idx h) OR ipahal_get_ep_bit h)\<rparr>
      else ex)"

lemma found_iff: "strnstr x name (length name) \<and> length x = length name \<longleftrightarrow> x = name"
  using strnstr_full [of x name] by auto

lemma add_to_exceptions_Cons:
  "add_to_exceptions h name (Suc n) (ex # exs) =
     (if ex_clients ex = name \<and> ex_pending ex - 1 < 0 then (- EPERM, ex\<lparr>ex_pending := 0\<rparr> # exs)
      else (fst (add_to_exceptions h name n exs), exception_joined h name ex # snd (add_to_exceptions h name n exs)))"
  unfolding add_to_exceptions.simps found_iff by (simp add: Let_def exception_joined_def split: prod.splits)

declare add_to_exceptions.simps(3) [simp del]

lemma add_to_exceptions_pos:
  "\<forall>ex \<in> set (take n exs). ex_clients ex = name \<longrightarrow> 0 < ex_pending ex \<Longrightarrow> fst (add_to_exceptions h name n exs) = 0"
proof (induction n arbitrary: exs)
  case (Suc n)
  then show ?case by (cases exs) (auto simp: add_to_exceptions_Cons)
qed simp

lemma add_to_exceptions_map:
  "fst (add_to_exceptions h name n exs) = 0 \<Longrightarrow>
    snd (add_to_exceptions h name n exs) = map (exception_joined h name) (take n exs) @ drop n exs"
proof (induction n arbitrary: exs)
  case (Suc n)
  then show ?case by (cases exs) (auto simp: add_to_exceptions_Cons split: if_splits)
qed simp

text \<open>The context with a new client.\<close>

definition registered :: "nat \<Rightarrow> ipa_pm_register_params \<Rightarrow> ipa_pm_ctx \<Rightarrow> ipa_pm_ctx" where
  "registered h par p =
     (let db = clk_scaling p; n = nat (exception_size db) in
      p\<lparr>pm_clients := (pm_clients p)(h := Some (new_client par)),
        clk_scaling := db\<lparr>exception_list := map (exception_joined h (cl_name (new_client par))) (take n (exception_list db)) @ drop n (exception_list db)\<rparr>\<rparr>)"

lemma add_client_registered:
  assumes "add_client_to_exception_list h (cl_name (new_client par)) (p\<lparr>pm_clients := (pm_clients p)(h := Some (new_client par))\<rparr>) = (0, q)"
  shows "q = registered h par p"
  using assms add_to_exceptions_map [of h "cl_name (new_client par)" "nat (exception_size (clk_scaling p))" "exception_list (clk_scaling p)"]
  by (auto simp: add_client_to_exception_list_def registered_def Let_def split: prod.splits)

text \<open>C10: registration.  A name in use is refused, as is any client when all handles are taken; otherwise the client gets the
  lowest free handle and joins exactly the exceptions whose use case is its name alone.  So an exception that names several clients, separated by
  commas, is joined by none of them.\<close>

theorem register_correct:
  assumes "\<forall>ex \<in> set (take (nat (exception_size (clk_scaling p))) (exception_list (clk_scaling p))).
      ex_clients ex = cl_name (new_client par) \<longrightarrow> 0 < ex_pending ex"
  shows "ipa_pm_register True True par p =
    (if \<exists>j \<in> {1..<IPA_PM_MAX_CLIENTS}. name_taken p (par_name par) j then (- EEXIST, - EEXIST, p)
     else if \<forall>j \<in> {1..<IPA_PM_MAX_CLIENTS}. pm_clients p j \<noteq> None then (- ENOBUFS, - ENOBUFS, p)
     else let h = LEAST j. 1 \<le> j \<and> pm_clients p j = None in (0, int h, registered h par p))"
proof -
  have s: "{1..<IPA_PM_MAX_CLIENTS} = {1..IPA_PM_MAX_CLIENTS - 1}" by (auto simp: IPA_PM_MAX_CLIENTS_def)
  let ?taken = "\<exists>j \<in> {1..<IPA_PM_MAX_CLIENTS}. name_taken p (par_name par) j"
  let ?full = "\<not> (\<exists>j \<in> {1..<IPA_PM_MAX_CLIENTS}. pm_clients p j = None)"
  have f: "find_next_open_array_element (par_name par) p =
      (if ?taken then - EEXIST else if \<not> ?full then int (LEAST j. 1 \<le> j \<and> pm_clients p j = None) else - ENOBUFS)"
    unfolding find_next_open_array_element_def find_open_spec s by (simp only: not_not)
  have refused: "ipa_pm_register True True par p = (x, x, p)" if "find_next_open_array_element (par_name par) p = x" "x < 0" for x
    using that by (simp add: ipa_pm_register_def Let_def)
  show ?thesis
  proof (cases "?taken \<or> ?full")
    case True
    then show ?thesis using refused [OF f] by auto
  next
    case False
    let ?h = "LEAST j. 1 \<le> j \<and> pm_clients p j = None"
    have e: "find_next_open_array_element (par_name par) p = int ?h" using False by (simp only: f if_False de_Morgan_disj not_not if_True)
    have "?h \<le> IPA_PM_MAX_CLIENTS - 1"
      using find_open_free(3) [of p "par_name par" "IPA_PM_MAX_CLIENTS - 1" "int ?h"] e unfolding find_next_open_array_element_def by simp
    then have b: "\<not> int ?h > int IPA_PM_MAX_CLIENTS" by (simp add: IPA_PM_MAX_CLIENTS_def)
    let ?p = "p\<lparr>pm_clients := (pm_clients p)(?h := Some (new_client par))\<rparr>"
    obtain r q where a: "add_client_to_exception_list ?h (cl_name (new_client par)) ?p = (r, q)" by fastforce
    have "r = 0" using a add_to_exceptions_pos [OF assms, of ?h] by (auto simp: add_client_to_exception_list_def Let_def split: prod.splits)
    then have "q = registered ?h par p" using add_client_registered a by simp
    then have "ipa_pm_register True True par p = (0, int ?h, registered ?h par p)"
      using a b \<open>r = 0\<close> by (simp add: ipa_pm_register_def e Let_def)
    moreover have "\<not> (\<forall>j \<in> {1..<IPA_PM_MAX_CLIENTS}. pm_clients p j \<noteq> None)" "\<not> ?taken" using False by blast+
    ultimately show ?thesis by (simp only: Let_def if_False)
  qed
qed

lemma ep_bit_nonzero: "ipahal_get_ep_bit h \<noteq> 0"
  by (auto simp: ipahal_get_ep_bit_def bit_eq_iff bit_simps intro!: exI [of _ "h mod 32"])

lemma leave_joined:
  assumes "ex_bitmask ex (ipahal_get_ep_reg_idx h) AND ipahal_get_ep_bit h = 0"
  shows "remove_from_exception h (exception_joined h name ex) = ex"
proof -
  let ?b = "ipahal_get_ep_bit h" and ?i = "ipahal_get_ep_reg_idx h"
  have z: "(ex_bitmask ex ?i OR ?b) AND ?b = ?b" by (simp add: bit_eq_iff bit_simps)
  have r: "(ex_bitmask ex ?i OR ?b) AND NOT ?b = ex_bitmask ex ?i"
    using assms by (auto simp: bit_eq_iff bit_simps)
  show ?thesis
    using assms ep_bit_nonzero [of h] by (simp add: remove_from_exception_def exception_joined_def Let_def z r)
qed

text \<open>C11: the end of a deregistration undoes a registration.  If no pipe is mapped to the handle and its bit was in no exception before, the
  context is as it was.\<close>

theorem register_deregister_roundtrip:
  assumes "ipa_pm_register True True par p = (0, h, q)" "\<forall>i. clients_by_pipe p i \<noteq> Some (nat h)"
    "\<forall>ex \<in> set (exception_list (clk_scaling p)). ex_bitmask ex (ipahal_get_ep_reg_idx (nat h)) AND ipahal_get_ep_bit (nat h) = 0"
  shows "free_client (nat h) q = p"
proof -
  from assms(1) obtain i where i: "h = int i" "i < IPA_PM_MAX_CLIENTS" "pm_clients p i = None" by (cases rule: register_frame) auto
  have e: "find_next_open_array_element (par_name par) p = int i"
    using assms(1) i(1) by (auto simp: ipa_pm_register_def Let_def split: if_splits prod.splits)
  obtain r y where a: "add_client_to_exception_list i (cl_name (new_client par)) (p\<lparr>pm_clients := (pm_clients p)(i := Some (new_client par))\<rparr>) = (r, y)"
    by fastforce
  then have "r = 0" "q = y" using assms(1) e i(2) by (auto simp: ipa_pm_register_def Let_def split: if_splits)
  then have q: "q = registered i par p" using a add_client_registered by simp
  let ?xs = "exception_list (clk_scaling p)" and ?n = "nat (exception_size (clk_scaling p))"
  have m: "map (remove_from_exception i) (map (exception_joined i (cl_name (new_client par))) (take ?n ?xs)) = take ?n ?xs"
    using assms(3) i(1) by (auto intro!: map_idI leave_joined dest: in_set_takeD)
  have l: "take ?n (map (exception_joined i (cl_name (new_client par))) (take ?n ?xs) @ drop ?n ?xs) = map (exception_joined i (cl_name (new_client par))) (take ?n ?xs)"
      "drop ?n (map (exception_joined i (cl_name (new_client par))) (take ?n ?xs) @ drop ?n ?xs) = drop ?n ?xs"
    by (cases "?n \<le> length ?xs"; simp)+
  let ?ys = "map (exception_joined i (cl_name (new_client par))) (take ?n ?xs) @ drop ?n ?xs"
  have "clk_scaling (free_client i q) = (clk_scaling p)\<lparr>exception_list := map (remove_from_exception i) (take ?n ?ys) @ drop ?n ?ys\<rparr>"
    by (simp add: q free_client_def registered_def remove_client_from_exception_list_def Let_def del: take_append drop_append map_append)
  then have "clk_scaling (free_client i q) = clk_scaling p" unfolding l m by simp
  moreover have "clients_by_pipe (free_client i q) = clients_by_pipe p"
    using assms(2) i(1) by (auto simp: q free_client_def registered_def remove_client_from_exception_list_def Let_def)
  moreover have "pm_clients (free_client i q) = pm_clients p" using i(3) by (simp add: q registered_def Let_def fun_upd_idem)
  moreover have "aggregated_tput (free_client i q) = aggregated_tput p" "group_tput (free_client i q) = group_tput p" "ipa_num_pipes (free_client i q) = ipa_num_pipes p"
    by (simp_all add: q free_client_def registered_def remove_client_from_exception_list_def Let_def)
  ultimately show ?thesis using i(1) by (intro ipa_pm_ctx.equality) simp_all
qed

end
