(* ===== verification/Ipa_Pm_Live.thy ===== *)
theory Ipa_Pm_Live
  imports Ipa_Pm_Ok
begin

text \<open>
  A client that waits for the completion of its activation does not wait forever: the work queue never blocks, and what the client waits for is
  queued or running.
\<close>

section \<open>The work queue makes progress\<close>

definition scale_left :: "scale_pos \<Rightarrow> nat" where
  "scale_left p = (case p of Sc_Start \<Rightarrow> 2 | Sc_Vote _ \<Rightarrow> 1)"

definition work_left :: "work_pos \<Rightarrow> nat" where
  "work_left w =
     (case w of
        NoWork \<Rightarrow> 0
      | ActivateWork _ p \<Rightarrow>
          (case p of Aw_Inc \<Rightarrow> 10 | Aw_Awake \<Rightarrow> 9 | Aw_State \<Rightarrow> 8 | Aw_Complete _ \<Rightarrow> 7 | Aw_Bit \<Rightarrow> 6 | Aw_Callback \<Rightarrow> 5 | Aw_Dec \<Rightarrow> 4 | Aw_Relax \<Rightarrow> 3
                   | Aw_Scale q \<Rightarrow> scale_left q)
      | DeactivateWork _ p \<Rightarrow> (case p of Dw_State \<Rightarrow> 6 | Dw_Dec \<Rightarrow> 5 | Dw_Relax \<Rightarrow> 4 | Dw_Bit \<Rightarrow> 3 | Dw_Scale q \<Rightarrow> scale_left q)
      | ScalingWork q \<Rightarrow> scale_left q)"

text \<open>What a step of the worker keeps.\<close>

definition work_frame :: "pm_sys \<Rightarrow> pm_sys \<Rightarrow> bool" where
  "work_frame s t \<longleftrightarrow> api t = api s \<and> (\<forall>h. map_option cl_act_queued (client_of h t) = map_option cl_act_queued (client_of h s))"

lemma work_frame_put [simp]: "client_of h s = Some c \<Longrightarrow> cl_act_queued c' = cl_act_queued c \<Longrightarrow> work_frame s (put_client h c' s)"
  by (simp add: work_frame_def)

lemma work_frame_simps [simp]:
  "work_frame s s" "work_frame s (t\<lparr>worker := w\<rparr>) = work_frame s t" "work_frame s (s\<lparr>cb_log := l\<rparr>)" "work_frame s (clk_inc s)"
  "work_frame s (s\<lparr>pm := activate_client h (pm s)\<rparr>)" "work_frame s (s\<lparr>pm := deactivate_client h (pm s)\<rparr>)"
  by (simp_all add: work_frame_def clk_inc_def client_of_def activate_client_def deactivate_client_def Let_def)

lemma client_dec_frame: "client_dec e h s = Some t \<Longrightarrow> work_frame s t"
  by (auto simp: client_dec_def clk_dec_def clk_result_def work_frame_def client_of_def ipa_pm_set_clock_index_def bind_eq_Some_conv)

lemma scale_frame:
  assumes "do_clk_scaling p s = Some (q, t)"
  shows "work_frame s t" "\<And>r. q = Some r \<Longrightarrow> scale_left r < scale_left p" "0 < scale_left p"
  using assms
  by (cases p; force simp: Let_def work_frame_def client_of_def set_current_threshold_def scale_left_def bind_eq_Some_conv split: if_splits)+

lemma scale_work_progress:
  assumes "work_go g (scale_then f p s) = Some t" "\<And>q. work_left (g (f q)) = scale_left q"
  shows "work_frame s t \<and> work_left (worker t) < scale_left p"
proof -
  obtain q u where d: "do_clk_scaling p s = Some (q, u)" using assms(1) by (auto simp: work_go_def scale_then_def bind_eq_Some_conv)
  note f = scale_frame [OF d]
  have "t = u\<lparr>worker := case q of None \<Rightarrow> NoWork | Some r \<Rightarrow> g (f r)\<rparr>"
    using assms(1) by (cases q) (simp_all add: work_go_def scale_then_def d)
  then show ?thesis using f assms(2) by (cases q) (simp_all add: work_left_def [of NoWork])
qed

lemma activate_work_progress:
  assumes "work_go (ActivateWork h) (activate_work_func e h p s) = Some t"
  shows "work_frame s t \<and> work_left (worker t) < work_left (ActivateWork h p)"
proof (cases p)
  case (Aw_Scale q)
  show ?thesis using scale_work_progress [of "ActivateWork h" Aw_Scale q s t] assms by (simp add: Aw_Scale work_left_def)
next
  case Aw_Dec
  then obtain u where u: "client_dec e h s = Some u" using assms by (auto simp: work_go_def bind_eq_Some_conv)
  show ?thesis using client_dec_frame [OF u] assms by (auto simp: Aw_Dec u work_go_def work_left_def)
qed (use assms in \<open>cases "client_of h s"; auto simp: work_go_def work_left_def scale_left_def split: if_splits ipa_pm_state.splits\<close>)+

lemma deactivate_work_progress:
  assumes "work_go (DeactivateWork h) (delayed_deferred_deactivate_work_func e h p s) = Some t"
  shows "work_frame s t \<and> work_left (worker t) < work_left (DeactivateWork h p)"
proof (cases p)
  case (Dw_Scale q)
  show ?thesis using scale_work_progress [of "DeactivateWork h" Dw_Scale q s t] assms by (simp add: Dw_Scale work_left_def)
next
  case Dw_Dec
  then obtain u where u: "client_dec e h s = Some u" using assms by (auto simp: work_go_def bind_eq_Some_conv)
  show ?thesis using client_dec_frame [OF u] assms by (auto simp: Dw_Dec u work_go_def work_left_def)
qed (use assms in \<open>cases "client_of h s"; auto simp: work_go_def work_left_def scale_left_def split: if_splits ipa_pm_state.splits\<close>)+

lemma worker_progress:
  assumes "worker_step e s = Some t" "worker s \<noteq> NoWork"
  shows "work_frame s t \<and> work_left (worker t) < work_left (worker s)"
proof (cases "worker s")
  case (ActivateWork h p)
  then show ?thesis using assms activate_work_progress by (simp add: worker_step_def)
next
  case (DeactivateWork h p)
  then show ?thesis using assms deactivate_work_progress by (simp add: worker_step_def)
next
  case (ScalingWork q)
  then show ?thesis using assms scale_work_progress [of ScalingWork id q s t] by (simp add: worker_step_def work_left_def)
qed (use assms in simp)

section \<open>Waiting ends\<close>

text \<open>The activation work of a client that waits is still to come, or is running.\<close>

lemma waiting_pending:
  assumes s: "pm_inv s" and w: "waiting (api s h)"
  obtains c where "client_of h s = Some c" "cl_complete c \<or> cl_act_queued c \<or> act_work_on h (worker s) \<noteq> None"
proof -
  obtain c where c: "client_of h s = Some c" using api_client [OF s, of h] w by (auto simp: waiting_def)
  have "\<not> sync_activating (api s h)" using w by (auto simp: waiting_def sync_activating_def)
  then have "cl_complete c \<or> cl_act_queued c \<or> aw_early (act_work_on h (worker s)) \<or> aw_completing (act_work_on h (worker s))"
    using pm_invD [OF s c] w by (cases "IPA_PM_STATE_IN_PROGRESS (cl_state c)") (simp_all add: client_ok_def, blast+)
  then have "cl_complete c \<or> cl_act_queued c \<or> act_work_on h (worker s) \<noteq> None" by (auto simp: aw_early_def aw_completing_def)
  then show thesis using that c by blast
qed

definition wait_left :: "nat \<Rightarrow> pm_sys \<Rightarrow> nat" where
  "wait_left h s = work_left (worker s) + (case client_of h s of Some c \<Rightarrow> if cl_act_queued c then 20 else 0 | None \<Rightarrow> 0)"

lemma wait_ends_aux:
  assumes "pm_inv s" "waiting (api s h)" "wait_left h s \<le> n" "\<not> gsi_irq e"
  shows "\<exists>evs t c. set evs \<subseteq> {EvWorker e, EvStartActivate h} \<and> length evs \<le> n \<and> pm_run evs s = Some t \<and> client_of h t = Some c \<and> cl_complete c \<and>
    api t = api s"
  using assms
proof (induction n arbitrary: s rule: less_induct)
  case (less n)
  obtain c where c: "client_of h s = Some c" "cl_complete c \<or> cl_act_queued c \<or> act_work_on h (worker s) \<noteq> None"
    using waiting_pending [OF less.prems(1,2)] .
  show ?case
  proof (cases "cl_complete c")
    case True
    then show ?thesis using c(1) by (intro exI [of _ "[]"] exI [of _ s] exI [of _ c]) simp
  next
    case False
    obtain ev t where t: "ev \<in> {EvWorker e, EvStartActivate h}" "pm_exec ev s = Some t" "pm_inv t" "api t = api s" "wait_left h t < wait_left h s"
    proof (cases "worker s = NoWork")
      case True
      then have q: "cl_act_queued c" using c(2) False by simp
      let ?t = "(put_client h (c\<lparr>cl_act_queued := False\<rparr>) s)\<lparr>worker := ActivateWork h Aw_Inc\<rparr>"
      have "pm_exec (EvStartActivate h) s = Some ?t" using True q c(1) by (simp add: pm_exec_def)
      moreover have "pm_inv ?t" by (rule start_work_inv(1) [OF less.prems(1) c(1) True q])
      ultimately show thesis using c(1) q True by (intro that [of "EvStartActivate h" ?t]) (simp_all add: wait_left_def work_left_def)
    next
      case busy: False
      obtain t where e: "worker_step e s = Some t" "pm_inv t" using worker_step_inv [OF less.prems(1,4)] by blast
      have f: "work_frame s t" "work_left (worker t) < work_left (worker s)" using worker_progress [OF e(1) busy] by blast+
      have "map_option cl_act_queued (client_of h t) = Some (cl_act_queued c)" using f(1) c(1) by (simp add: work_frame_def)
      then have "wait_left h t < wait_left h s" using f(2) c(1) by (auto simp: wait_left_def)
      then show thesis using e f(1) by (intro that [of "EvWorker e" t]) (simp_all add: pm_exec_def work_frame_def)
    qed
    have lt: "wait_left h t \<le> n - 1" "n - 1 < n" using t(5) less.prems(3) by linarith+
    obtain evs u c' where "set evs \<subseteq> {EvWorker e, EvStartActivate h}" "length evs \<le> n - 1" "pm_run evs t = Some u" "client_of h u = Some c'" "cl_complete c'" "api u = api t"
      using less.IH [OF lt(2) t(3) _ lt(1) less.prems(4)] less.prems(2) t(4) by auto
    then show ?thesis using t lt(2) by (intro exI [of _ "ev # evs"] exI [of _ u] exI [of _ c']) auto
  qed
qed


end
