(* ===== verification/Ipa_Pm_Demo.thy ===== *)
theory Ipa_Pm_Demo
  imports Ipa_Pm_Fun Ipa_Pm_Live
begin

text \<open>Concrete runs of the power manager: the theorems applied to them, and what happens in the three interleavings that \<open>pm_allowed\<close> excludes.\<close>

section \<open>A power manager with one client\<close>

definition demo_params :: ipa_pm_init_params where
  "demo_params = \<lparr>par_default_threshold = [600, 1000, 2000], par_threshold_size = 3, par_exceptions = [\<lparr>usecase = ''USB'', exc_threshold = [100, 200, 300]\<rparr>],
     par_exception_size = 1\<rparr>"

definition demo_exception :: "int \<Rightarrow> 32 word \<Rightarrow> ipa_pm_exception_list" where
  "demo_exception n b = \<lparr>ex_clients = ''USB'', ex_pending = n, ex_bitmask = (\<lambda>_. 0)(0 := b), ex_threshold = [100, 200, 300, 0, 0]\<rparr>"

definition demo_db :: clk_scaling_db where
  "demo_db = \<lparr>exception_list = demo_exception 1 0 # replicate 4 null_exception, active_client_bitmask = (\<lambda>_. 0), threshold_size = 3, exception_size = 1,
     cur_vote = 0, default_threshold = [600, 1000, 2000, 0, 0], current_threshold = ThNull, scaling_queued = False\<rparr>"

definition demo_ctx :: ipa_pm_ctx where
  "demo_ctx = \<lparr>pm_clients = (\<lambda>_. None), clients_by_pipe = (\<lambda>_. None), clk_scaling = demo_db, aggregated_tput = 0, group_tput = (\<lambda>_. 0),
     ipa_num_pipes = 36\<rparr>"

definition demo_clk :: ipa_clk where
  "demo_clk = \<lparr>active_cnt = 0, tag_before_gating = False, tag_work = False, dec_work = False, clk_vote = False, scaling_enabled = True,
     rate_of_plan = (\<lambda>i. 100 * nat i), curr_clk_rate = 0, bus_vote_idx = 0\<rparr>"

definition demo_par :: ipa_pm_register_params where
  "demo_par = \<lparr>par_name = ''USB'', par_callback = True, par_group = IPA_PM_GROUP_APPS, par_skip_clk_vote = False\<rparr>"

abbreviation demo_env :: clk_env where "demo_env \<equiv> \<lparr>suspend_busy = False, gsi_irq = False\<rparr>"

lemma demo_init: "ipa_pm_init True True 36 (Some demo_params) None = (0, Some demo_ctx)"
  by (simp add: ipa_pm_init_def demo_params_def demo_ctx_def demo_db_def init_exception_def demo_exception_def copy_threshold_def strlcpy_def Let_def
      IPA_PM_THRESHOLD_MAX_def IPA_PM_EXCEPTION_MAX_def IPA_PM_MAX_EX_CL_def fun_eq_iff numeral_eq_Suc)

lemma demo_start_reach: "pm_reach (pm_start demo_ctx demo_clk 0)"
  by (rule reach_init [OF demo_init]) (simp add: clk_holds_def demo_clk_def)

lemma demo_find: "find_next_open_array_element (par_name demo_par) demo_ctx = 1"
proof -
  have "find_open p name (Suc i) n = 1" if "\<And>j. pm_clients p j = None" for p name n i
    using that by (induction i arbitrary: n) simp_all
  from this [of demo_ctx "par_name demo_par" 34 "- ENOBUFS"] show ?thesis
    by (simp add: find_next_open_array_element_def IPA_PM_MAX_CLIENTS_def demo_ctx_def)
qed

definition demo_ctx1 :: ipa_pm_ctx where
  "demo_ctx1 = demo_ctx\<lparr>pm_clients := (\<lambda>_. None)(1 := Some (new_client demo_par)), clk_scaling := demo_db\<lparr>exception_list := demo_exception 0 2 # replicate 4 null_exception\<rparr>\<rparr>"

lemma demo_register: "ipa_pm_register True True demo_par demo_ctx = (0, 1, demo_ctx1)"
  unfolding ipa_pm_register_def demo_find
  by (simp add: Let_def add_client_to_exception_list_def demo_ctx_def demo_ctx1_def demo_db_def new_client_def demo_par_def strlcpy_def add_to_exceptions_Cons
      exception_joined_def demo_exception_def ipahal_get_ep_reg_idx_def ipahal_get_ep_bit_def IPA_PM_MAX_EX_CL_def IPA_PM_MAX_CLIENTS_def)

section \<open>A run\<close>

text \<open>\<open>demo_state\<close> is the system with the client of \<open>demo_ctx1\<close> in a given state, \<open>c\<close>, and with a given clock.\<close>

definition demo_state :: "ipa_pm_client \<Rightarrow> ipa_clk \<Rightarrow> api_pos \<Rightarrow> work_pos \<Rightarrow> sweep_pos \<Rightarrow> pm_sys" where
  "demo_state c k a w p = \<lparr>pm = demo_ctx1\<lparr>pm_clients := (\<lambda>_. None)(1 := Some c)\<rparr>, clk = k, api = (\<lambda>_. Returned 0)(1 := a), worker = w, sweep = p,
     cb_log = [], other_votes = 0\<rparr>"

definition clk_on :: ipa_clk where
  "clk_on = demo_clk\<lparr>active_cnt := 1, clk_vote := True\<rparr>"

lemma demo_state_sel [simp]:
  "client_of (Suc 0) (demo_state c k a w p) = Some c" "api (demo_state c k a w p) (Suc 0) = a" "worker (demo_state c k a w p) = w" "clk (demo_state c k a w p) = k"
  "sweep (demo_state c k a w p) = p"
  by (simp_all add: demo_state_def client_of_def)

lemma demo_freed [simp]: "client_of h (s\<lparr>pm := free_client h q\<rparr>) = None"
  by (simp add: client_of_def)

lemma demo_state_upd [simp]:
  "put_client (Suc 0) c' (demo_state c k a w p) = demo_state c' k a w p" "(demo_state c k a w p)\<lparr>clk := k'\<rparr> = demo_state c k' a w p"
  "(demo_state c k a w p)\<lparr>worker := w'\<rparr> = demo_state c k a w' p" "(demo_state c k a w p)\<lparr>sweep := p'\<rparr> = demo_state c k a w p'"
  "(demo_state c k a w p)\<lparr>api := (api (demo_state c k a w p))(Suc 0 := a')\<rparr> = demo_state c k a' w p"
  by (simp_all add: demo_state_def put_client_def)

lemma demo_registered: "pm_exec (EvRegister True True demo_par) (pm_start demo_ctx demo_clk 0) = Some (demo_state (new_client demo_par) demo_clk (Returned 0) NoWork NoSweep)"
  by (simp add: pm_exec_def demo_register Let_def pm_start_def demo_state_def) (simp add: demo_ctx1_def fun_upd_idem)

lemma demo_pm_upd [simp]:
  "(demo_state c k a w p)\<lparr>pm := deactivate_client (Suc 0) (pm (demo_state c k a w p))\<rparr> = demo_state c k a w p"
  "(demo_state c k a w p)\<lparr>pm := ipa_pm_set_clock_index 0 (pm (demo_state c k a w p)), clk := k'\<rparr> = demo_state c k' a w p"
  by (simp_all add: demo_state_def demo_ctx1_def demo_db_def deactivate_client_def ipa_pm_set_clock_index_def ipahal_get_ep_reg_idx_def ipahal_get_ep_bit_def
      Let_def fun_upd_idem)

lemma demo_call: "start_call (Suc 0) f (demo_state c k a w p) = demo_state c k (call_pos f) w p"
  by (simp add: start_call_def IPA_PM_MAX_CLIENTS_def)

lemma demo_inc [simp]: "clk_inc (demo_state c demo_clk a w p) = demo_state c clk_on a w p"
  by (simp add: clk_inc_def ipa3_inc_client_enable_clks_def ipa3_enable_clks_def demo_clk_def clk_on_def)

lemma demo_dec [simp]:
  "client_dec demo_env (Suc 0) (demo_state c clk_on a w p) = Some (demo_state c demo_clk a w p)" "client_dec e (Suc 0) (demo_state c demo_clk a w p) = None"
proof -
  have "ipa3_dec_client_disable_clks demo_env clk_on = Some (True, demo_clk)"
    by (simp add: ipa3_dec_client_disable_clks_def ipa3_disable_clks_def clk_on_def demo_clk_def)
  then show "client_dec demo_env (Suc 0) (demo_state c clk_on a w p) = Some (demo_state c demo_clk a w p)"
    by (simp add: client_dec_def clk_dec_def clk_result_def)
  have "ipa3_dec_client_disable_clks e demo_clk = None" by (simp add: ipa3_dec_client_disable_clks_def demo_clk_def)
  then show "client_dec e (Suc 0) (demo_state c demo_clk a w p) = None" by (simp add: client_dec_def clk_dec_def clk_result_def)
qed

lemma demo_no_block [simp]: "ipa3_inc_client_enable_clks_no_block demo_clk = (- EPERM, demo_clk)"
  by (simp add: ipa3_inc_client_enable_clks_no_block_def demo_clk_def)

lemma clk_vote_demo [simp]: "\<not> clk_vote demo_clk" "clk_vote clk_on"
  by (simp_all add: demo_clk_def clk_on_def)

lemmas demo_run = pm_exec_def api_step_def worker_step_def api_go_def work_go_def demo_call call_pos_def act_switch_def cancel_delayed_work_sync_def
  deactivate_work_runs_def state_preds scale_then_def sweep_step_def IPA_PM_MAX_CLIENTS_def dereg_locked_def
  ipa_pm_deferred_deactivate_def

lemma demo_new [simp]:
  "cl_state (new_client demo_par) = IPA_PM_DEACTIVATED" "\<not> cl_skip_clk_vote (new_client demo_par)"
  by (simp_all add: new_client_def demo_par_def)

abbreviation demo_api :: "nat \<Rightarrow> pm_event list" where "demo_api n \<equiv> replicate n (EvApi demo_env 1)"
abbreviation demo_work :: "nat \<Rightarrow> pm_event list" where "demo_work n \<equiv> replicate n (EvWorker demo_env)"

abbreviation demo_sweep :: "nat \<Rightarrow> pm_event list" where "demo_sweep n \<equiv> replicate n (EvSweep demo_env)"

text \<open>The client is activated by the work queue, up to where the work has unlocked its state, and up to where it has completed.\<close>

definition demo_activated :: "pm_event list" where
  "demo_activated = [EvRegister True True demo_par, EvCall 1 CallActivate] @ demo_api 1 @ [EvStartActivate 1] @ demo_work 3"

text \<open>The client deactivates itself and activates again before the work completes, and deactivates again after it has.\<close>

definition late_completion :: "pm_event list" where
  "late_completion = demo_activated @ [EvCall 1 CallDeactivateSync] @ demo_api 9 @ [EvCall 1 CallActivate] @ demo_api 1 @ demo_work 1 @
     [EvCall 1 CallDeactivateSync] @ demo_api 4"

text \<open>The client deactivates and deregisters itself while its activation work is not done.\<close>

definition freed_in_work :: "pm_event list" where
  "freed_in_work = demo_activated @ demo_work 1 @ [EvCall 1 CallDeactivateSync] @ demo_api 9 @ [EvCall 1 CallDeregister] @ demo_api 2"

text \<open>The client defers its deactivation, then deactivates itself while the sweep comes to it.\<close>

definition swept_twice :: "pm_event list" where
  "swept_twice = demo_activated @ demo_work 1 @ [EvCall 1 CallDeferredDeactivate] @ demo_api 1 @ [EvCall 1 CallDeactivateSync] @ demo_api 3 @
     [EvStartSweep] @ demo_sweep 4"

text \<open>C7: what the three excluded interleavings do.  Each is a run from the same start, with one client, whose next step faults:
  activating again before the activation work signals its completion makes the next synchronous deactivation drop a vote it does not have;
  deregistering while the activation work runs leaves the work with a freed client; and the sweep and a synchronous deactivation both drop the one
  vote of the client.\<close>

theorem pm_races_fault:
  "pm_reach (pm_start demo_ctx demo_clk 0) \<and>
   (\<exists>s. pm_run late_completion (pm_start demo_ctx demo_clk 0) = Some s \<and> pm_exec (EvApi demo_env 1) s = None) \<and>
   (\<exists>s. pm_run freed_in_work (pm_start demo_ctx demo_clk 0) = Some s \<and> pm_exec (EvWorker demo_env) s = None) \<and>
   (\<exists>s. pm_run swept_twice (pm_start demo_ctx demo_clk 0) = Some s \<and> pm_exec (EvApi demo_env 1) s = None)"
proof (intro conjI)
  note r = append_Cons append_Nil pm_run.simps demo_registered bind.bind_lunit demo_activated_def
  show "pm_reach (pm_start demo_ctx demo_clk 0)" by (fact demo_start_reach)
  show "\<exists>s. pm_run late_completion (pm_start demo_ctx demo_clk 0) = Some s \<and> pm_exec (EvApi demo_env 1) s = None"
    unfolding late_completion_def r by (simp add: demo_run numeral_eq_Suc)
  show "\<exists>s. pm_run freed_in_work (pm_start demo_ctx demo_clk 0) = Some s \<and> pm_exec (EvWorker demo_env) s = None"
    unfolding freed_in_work_def r by (simp add: demo_run numeral_eq_Suc)
  show "\<exists>s. pm_run swept_twice (pm_start demo_ctx demo_clk 0) = Some s \<and> pm_exec (EvApi demo_env 1) s = None"
    unfolding swept_twice_def r by (simp add: demo_run numeral_eq_Suc)
qed

section \<open>The theorems on these runs\<close>

fun pm_allowed_run :: "pm_event list \<Rightarrow> pm_sys \<Rightarrow> bool" where
  "pm_allowed_run [] s = True"
| "pm_allowed_run (ev # evs) s = (pm_allowed ev s \<and> (case pm_exec ev s of Some t \<Rightarrow> pm_allowed_run evs t | None \<Rightarrow> False))"

lemma run_reach: "pm_reach s \<Longrightarrow> pm_allowed_run evs s \<Longrightarrow> pm_run evs s = Some t \<Longrightarrow> pm_reach t"
proof (induction evs arbitrary: s)
  case (Cons ev evs)
  then obtain u where "pm_exec ev s = Some u" "pm_allowed_run evs u" "pm_run evs u = Some t" by (auto split: option.splits)
  moreover from this have "pm_reach u" using reach_step Cons.prems by auto
  ultimately show ?case using Cons.IH by blast
qed simp

lemma demo_activated_run:
  "pm_allowed_run demo_activated (pm_start demo_ctx demo_clk 0)"
  "\<exists>s. pm_run demo_activated (pm_start demo_ctx demo_clk 0) = Some s \<and> active_cnt (clk s) = 1 \<and> other_votes s = 0"
  unfolding demo_activated_def append_Cons append_Nil pm_run.simps pm_allowed_run.simps demo_registered bind.bind_lunit
  by (simp_all add: demo_run numeral_eq_Suc act_work_on_def aw_completing_def) (simp_all add: clk_on_def demo_state_def)


theorem register_correct_witness: "ipa_pm_register True True demo_par demo_ctx = (0, 1, registered 1 demo_par demo_ctx)"
proof -
  have l: "(LEAST j. 1 \<le> j \<and> pm_clients demo_ctx j = None) = (1::nat)" by (rule Least_equality) (simp_all add: demo_ctx_def)
  have t: "\<not> (\<exists>j \<in> {1..<IPA_PM_MAX_CLIENTS}. name_taken demo_ctx (par_name demo_par) j)" by (simp add: name_taken_def demo_ctx_def)
  have f: "\<not> (\<forall>j \<in> {1..<IPA_PM_MAX_CLIENTS}. pm_clients demo_ctx j \<noteq> None)" by (auto simp: demo_ctx_def IPA_PM_MAX_CLIENTS_def intro!: exI [of _ 1])
  have p: "\<forall>ex \<in> set (take (nat (exception_size (clk_scaling demo_ctx))) (exception_list (clk_scaling demo_ctx))).
      ex_clients ex = cl_name (new_client demo_par) \<longrightarrow> 0 < ex_pending ex"
    by (simp add: demo_ctx_def demo_db_def demo_exception_def)
  show ?thesis using register_correct [OF p] unfolding if_not_P [OF t] if_not_P [OF f] Let_def l by simp
qed

theorem register_deregister_roundtrip_witness: "free_client 1 demo_ctx1 = demo_ctx"
proof -
  have "free_client (nat 1) demo_ctx1 = demo_ctx"
    by (rule register_deregister_roundtrip [OF demo_register])
       (auto simp: demo_ctx_def demo_db_def demo_exception_def null_exception_def)
  then show ?thesis by simp
qed

lemma demo_no_tput: "calculate_throughput demo_ctx = 0"
proof -
  have "collect_tputs demo_ctx is v = []" for "is" v by (induction "is") (simp_all add: demo_ctx_def)
  then show ?thesis by (simp add: calculate_throughput_def aggregate_tputs_def tput_loop.simps)
qed


text \<open>With the clocks on, the client is active at once.\<close>

definition demo_active :: "pm_event list" where
  "demo_active = [EvRegister True True demo_par, EvCall 1 CallActivate] @ demo_api 3"

lemma demo_active_run:
  "pm_allowed_run demo_active (pm_start demo_ctx clk_on 1)"
  "\<exists>s. pm_run demo_active (pm_start demo_ctx clk_on 1) = Some s \<and> pm_idle s \<and> active_cnt (clk s) = 2 \<and> other_votes s = 1 \<and> \<not> tag_work (clk s) \<and> \<not> dec_work (clk s)"
proof -
  let ?c = "new_client demo_par"
  let ?s1 = "\<lparr>pm = demo_ctx1, clk = clk_on, api = (\<lambda>_. Returned 0), worker = NoWork, sweep = NoSweep, cb_log = [], other_votes = 1\<rparr>"
  have r: "pm_exec (EvRegister True True demo_par) (pm_start demo_ctx clk_on 1) = Some ?s1" by (simp add: pm_exec_def demo_register pm_start_def)
  have c1: "pm s = demo_ctx1 \<Longrightarrow> client_of (Suc 0) s = Some ?c" for s by (simp add: client_of_def demo_ctx1_def)
  have c2: "client_of (Suc 0) (s\<lparr>pm := activate_client i (pm s)\<rparr>) = client_of (Suc 0) s" for s i by (simp add: client_of_def activate_client_def Let_def)
  have nb: "ipa3_inc_client_enable_clks_no_block clk_on = (0, clk_on\<lparr>active_cnt := 2\<rparr>)" by (simp add: ipa3_inc_client_enable_clks_no_block_def clk_on_def)
  show "pm_allowed_run demo_active (pm_start demo_ctx clk_on 1)"
    unfolding demo_active_def append_Cons append_Nil pm_allowed_run.simps r option.case
    by (simp add: demo_run numeral_eq_Suc start_call_def c1 c2 nb act_work_on_def aw_completing_def)
  show "\<exists>s. pm_run demo_active (pm_start demo_ctx clk_on 1) = Some s \<and> pm_idle s \<and> active_cnt (clk s) = 2 \<and> other_votes s = 1 \<and> \<not> tag_work (clk s) \<and> \<not> dec_work (clk s)"
    unfolding demo_active_def append_Cons append_Nil pm_run.simps r bind.bind_lunit
    by (simp add: demo_run numeral_eq_Suc start_call_def c1 c2 nb pm_idle_def) (simp add: clk_on_def demo_clk_def)
qed


text \<open>A synchronous deactivation waits for the activation it follows.\<close>

definition demo_waiting :: "pm_event list" where
  "demo_waiting = [EvRegister True True demo_par, EvCall 1 CallActivate] @ demo_api 1 @ [EvCall 1 CallDeactivateSync] @ demo_api 2"

lemma demo_waiting_run:
  "pm_allowed_run demo_waiting (pm_start demo_ctx demo_clk 0)"
  "\<exists>s. pm_run demo_waiting (pm_start demo_ctx demo_clk 0) = Some s \<and> api s 1 = DeactivateSync Ds_Waiting"
  unfolding demo_waiting_def append_Cons append_Nil pm_run.simps pm_allowed_run.simps demo_registered bind.bind_lunit
  by (simp_all add: demo_run numeral_eq_Suc act_work_on_def aw_completing_def)


end
