(* ===== verification/Spec2Isabelle.thy ===== *)
theory Spec2Isabelle
  imports Nat_Hybrid_Demo Ipv6ct_Client_Ok Ipa3_Nat_Demo Ipa_Pm_Demo
begin

text \<open>
  \<^bold>\<open>Verification of the IPA NAT library, of the NAT driver of the kernel and of its power manager\<close>

  The repository holds the kernel modules of a Qualcomm platform.  This development verifies the network address
  translation of the IPA packet engine: the user space library \<^verbatim>\<open>src/qcom/opensource/dataipa/ipanat\<close>, through which a
  connection manager programs it (\<^verbatim>\<open>src/*.c\<close>, \<^verbatim>\<open>src/ipa_nat_map.cpp\<close> and \<^verbatim>\<open>inc/*.h\<close>), and the kernel driver that
  executes its ioctls, \<^verbatim>\<open>dataipa/drivers/platform/msm/ipa/ipa_v3/ipa_nat.c\<close>, with the parts of \<^verbatim>\<open>ipa.c\<close> and of the
  hardware abstraction layer \<^verbatim>\<open>ipahal\<close> it uses.  A second, independent part is the power manager of the kernel driver,
  \<^verbatim>\<open>ipa_v3/ipa_pm.c\<close>, with the clock reference count of \<^verbatim>\<open>ipa.c\<close>.

  \<^bold>\<open>Parts and how they interact.\<close>  A client calls \<^verbatim>\<open>ipa_nat_drv.c\<close>, which checks arguments and calls the state machine
  \<^verbatim>\<open>ipa_nat_statemach.c\<close>.  The state machine decides whether the NAT table lives in DDR, in SRAM or (hybrid mode) in
  both with one of them active; it moves the rules between the memories and keeps the handles of the client valid
  through the maps of \<^verbatim>\<open>ipa_nat_map.cpp\<close>.  It calls the driver layer \<^verbatim>\<open>ipa_nat_drvi.c\<close> on the cache of one memory.  A
  cache has two hash tables, the NAT table and the index table, whose records refer to each other; both are
  instances of the generic table of \<^verbatim>\<open>ipa_table.c\<close>, which keeps collision chains in an expansion part and changes
  memory shared with the device only by DMA commands that the kernel executes.  The memory comes from
  \<^verbatim>\<open>ipa_mem_descriptor.c\<close> and the device file from \<^verbatim>\<open>ipa_nat_utils.c\<close>.  The IPv6 connection tracking \<^verbatim>\<open>ipa_ipv6ct.c\<close> is a
  second client of the same generic table, with one table and no index.

  The ioctls end in \<^verbatim>\<open>ipa3_ioctl\<close>, which calls \<^verbatim>\<open>ipa_nat.c\<close>: it allocates and maps the memory of the tables, checks
  the geometry of an initialisation and the target of every table write, keeps the PDN entries, and turns requests
  into sequences of immediate commands, whose memory \<^verbatim>\<open>ipahal.c\<close> builds for the version of the hardware.

  The drivers that use the IPA hardware register with the power manager, which votes for the clocks while they are active
  and chooses the clock plan from their throughputs.  Clients activate at once or, when the clocks are off, through a work
  queue; they deactivate at once, after a delay, or all together before the system suspends.  The clock itself is a
  reference count whose last decrement may be deferred.

  \<^bold>\<open>Model.\<close>  C integers are words of their width.  A structure is a record, an enumeration a datatype.  A function that
  may follow a NULL pointer or index an array out of bounds returns an option and is None there; statuses are 32-bit
  signed values (0 or the negated errno).  Globals are threaded: \<open>nat_state\<close> for the caches, PDN entries and the
  world, \<open>ipa_nati_obj\<close> for the state machine.  The kernel, the pthread mutex and the clock are not code of the
  library: they are the fields of the environment records \<open>ipa_env\<close>, \<open>nat_env\<close> and \<open>sm_env\<close>, functions of an arbitrary
  world that every definition takes as argument.

  \<^item> \<open>Ipa_Prelude\<close>: integer types, errno, enumerations of the interface, the exact floating point product the sizing uses.
  \<^item> \<open>Ipa_Table\<close>: \<^verbatim>\<open>ipa_table.c\<close> and \<^verbatim>\<open>ipa_table.h\<close>: sizing, layout, handles, iterator, walk, insertion, deletion, the
    queue of DMA commands.  The callbacks of a table are the fields of \<open>ipa_table_entry_interface\<close>.
  \<^item> \<open>Ipa_Dma\<close>: what the device does with a command, as the documentation of \<^verbatim>\<open>ipa_ioc_nat_dma_one\<close> describes it.
  \<^item> \<open>Ipa_Mem_Descriptor\<close>: \<^verbatim>\<open>ipa_mem_descriptor.c\<close>, the descriptor of \<^verbatim>\<open>ipa_nat_utils.c\<close> and the kernel interface.
  \<^item> \<open>Nat_Rules\<close>: the records of both tables, their layout in memory, their callbacks, hashes and checksums
    (\<^verbatim>\<open>ipa_nat_drvi.h\<close> and the callbacks of \<^verbatim>\<open>ipa_nat_drvi.c\<close>).
  \<^item> \<open>Nat_Drvi\<close>: the operations of \<^verbatim>\<open>ipa_nat_drvi.c\<close> on tables, rules and PDN entries; \<open>Nat_Stats\<close>: its copy and
    statistics.
  \<^item> \<open>Ipv6ct\<close>: \<^verbatim>\<open>ipa_ipv6ct.c\<close>, \<^verbatim>\<open>ipa_ipv6cti.h\<close> and \<^verbatim>\<open>ipa_ipv6ct.h\<close>, with the state \<open>ipa_ipv6ct\<close> and the environment \<open>ct_env\<close>.
  \<^item> \<open>Nat_Map\<close>: \<^verbatim>\<open>ipa_nat_map.cpp\<close>; \<open>Nat_Statemach\<close>: \<^verbatim>\<open>ipa_nat_statemach.c\<close>; \<open>Nat_Drv\<close>: \<^verbatim>\<open>ipa_nat_drv.c\<close>.

  \<^item> \<open>Ipa_Bitfields\<close>, \<open>Ipahal\<close>: structures of bit-fields as numbers; \<^verbatim>\<open>ipahal/ipahal_nat.c\<close> and the immediate commands of
    \<^verbatim>\<open>ipahal/ipahal.c\<close> that the NAT driver sends, with the version tables of their callbacks.
  \<^item> \<open>Ipa3_Nat\<close>, \<open>Ipa3_Nat_Cmd\<close>: \<^verbatim>\<open>ipa_v3/ipa_nat.c\<close> and its cases of \<^verbatim>\<open>ipa3_ioctl\<close> over the state \<open>ipa3\<close>, which has a
    ledger of the resources the kernel has handed out.  The services of the kernel are the fields of \<open>kernel_env\<close>,
    the configuration of the platform is \<open>ipa3_platform\<close>.

  \<^item> \<open>Ipa_Clk\<close>: the reference count of the clocks in \<^verbatim>\<open>ipa.c\<close> and the clock plan.  \<open>Ipa_Pm_Tput\<close>: the aggregation of
    throughputs.  \<open>Ipa_Pm\<close>: the state of \<^verbatim>\<open>ipa_pm.c\<close> and the operations that hold its mutex throughout.  \<open>Ipa_Pm_Step\<close>: the
    operations that interleave, each as positions between which other threads may run: the calls of every client, the
    thread of the work queue, and \<^verbatim>\<open>ipa_pm_deactivate_all_deferred\<close>.  \<open>pm_exec\<close> is one step of the system, \<open>None\<close> a fault.

  \<^bold>\<open>What is proved.\<close>

  \<^item> \<open>Ipa_Chains\<close>, \<open>Ipa_Table_Inv\<close>, \<open>Ipa_Table_Ops\<close>: the invariant of a table (records in use are exactly the chains of
    the base slots, the counters count them) and that insertion and deletion keep it.  The locale \<open>table_entry\<close> is
    the contract of the callbacks; it is interpreted on the callbacks of the NAT table and of the index table.
    The walk refines the filtered list of the records.
  \<^item> \<open>Ipa_Table_Dead\<close>: the locale \<open>dead_head_table\<close> extends that contract for tables whose deleted heads stay until their
    tail is gone; it is interpreted on the NAT table and on the IPv6 connection tracking table.
  \<^item> \<open>Ipa_Service\<close>: runs of client requests and the locale \<open>service\<close>: answers, invariant and refinement of sequences.
  \<^item> \<open>Ipa_Table_Sizing\<close>: bounds of the sizes, handles as a bijection, the search for the number of entries in SRAM
    (largest number that fits, and the size from which it never ends).
  \<^item> \<open>Nat_Rules_Ok\<close>: layout of the records as a bijection, checksum differences, bounds of the hashes.
  \<^item> \<open>Nat_Drvi_Ok\<close>, \<open>Nat_Add_Ok\<close>, \<open>Nat_Del_Ok\<close>, \<open>Nat_Table_Ok\<close>, \<open>Nat_Api_Ok\<close>, \<open>Nat_Pdn_Ok\<close>, \<open>Nat_Stats_Ok\<close>: the invariant of
    a cache (\<open>nat_inv\<close>: rules and index entries are in bijection) is established by the creation of a table and kept
    by every operation; additions and deletions change exactly one rule or roll back; the statistics equal a
    reference.
  \<^item> \<open>Nat_Store_Ok\<close>, \<open>Nat_Migrate_Ok\<close>: a cache as a store of rules (locale \<open>rule_store\<close>, interpreted on the operations of
    the driver layer), and the copy of a table on top of the contract.
  \<^item> \<open>Nat_Statemach_Ok\<close>, \<open>Nat_Hybrid_Ok\<close>, \<open>Nat_Client_Ok\<close>, \<open>Nat_Start_Ok\<close>, \<open>Nat_Drv_Ok\<close>: hybrid mode.  The invariant \<open>hyb\<close> says that both
    tables are well formed and the two maps of each memory are inverse partial bijections into its rules.
    \<open>sm_view\<close> is what the handles of a client lead to.  Sequences of requests (\<open>service\<close>, interpreted on the client
    calls) never go wrong, keep \<open>hyb\<close>, and refine a map from handles to rules.
  \<^item> \<open>Ipv6ct_Ok\<close>, \<open>Ipv6ct_Api_Ok\<close>, \<open>Ipv6ct_Client_Ok\<close>: layout and hash of the IPv6 records, the invariant \<open>ct_ok\<close>, every operation on
    every branch, and (\<open>service\<close>) sequences of requests against an abstract table of slots.
  \<^item> \<open>Ipahal_Ok\<close>: the version tables have the callbacks the driver calls; the records of the driver and of the library
    have the same memory; PDN entries are parsed as constructed.
  \<^item> \<open>Ipa3_Nat_Ok\<close>, \<open>Ipa3_Nat_Inv\<close>, \<open>Ipa3_Nat_Safe\<close>, \<open>Ipa3_Nat_Kernel\<close>: the invariant \<open>kinv\<close> of the driver (what it owns, that
    tables lie inside their allocation), that every request runs to its end and keeps it, and by induction over
    \<open>kreach\<close> that no request goes wrong, leaks, or writes outside of the tables.  \<open>Ipa3_Nat_Sent\<close>: which commands the
    device is sent.
  \<^item> \<open>Ipa3_Nat_Link\<close>: library and driver together: what the library sends passes the checks of the driver.
  \<^item> \<open>Ipa_Pm_Inv\<close>, \<open>Ipa_Pm_Safe\<close>, \<open>Ipa_Pm_Work\<close>, \<open>Ipa_Pm_Ok\<close>: the invariant \<open>pm_inv\<close> of the power manager (the count of the clock is
    the votes of its clients and of the threads that move them, what each position of a thread says of its client), that
    every step keeps it and is without fault, and by induction over \<open>pm_reach\<close> that this holds in every reachable state.
    The locale \<open>vote_count\<close> is the contract of the clock, interpreted on \<open>clk_inc\<close> and \<open>clk_dec\<close>.  \<open>Ipa_Pm_Live\<close>: waiting for an
    activation ends.  \<open>Ipa_Pm_Fun\<close>: what registration and clock scaling compute.
  \<^item> \<open>Ipa_Pm_Demo\<close>: runs of the power manager, among them the three interleavings that \<open>pm_allowed\<close> excludes, which fault.
  \<^item> \<open>Nat_Demo\<close>, \<open>Nat_Hybrid_Demo\<close>, \<open>Ipa3_Nat_Demo\<close>: concrete states and kernels on which the properties with hypotheses are
    applied (\<open>Ipv6ct_Client_Ok\<close> has its own).

  \<^bold>\<open>Hypotheses on the environment.\<close>  \<open>mutex_ok\<close>, \<open>sm_mutex_ok\<close>: the mutex calls succeed.  \<open>dma_device\<close>, \<open>ct_device\<close>: a command
  that returns 0 was executed in order and one that fails changed nothing; \<open>dma_reliable\<close>: commands do not fail.
  \<open>alloc_at_base\<close>: the kernel places a table at the start of the memory it maps.  \<open>focus_ok\<close>: votes and changes of the
  active table are accepted.  \<open>sram_bound\<close>: the SRAM is below the size from which the search does not end.  Of the
  platform of the driver \<open>plat_ok\<close> says that the version is one the driver supports, that the version tables were
  initialised and that there is room for a PDN entry; \<open>plat_regs_ok\<close> that offsets fit the 16 bits of the commands.
  \<open>services_ok\<close>: memory for payloads is available and commands are sent.  \<open>mem_ready\<close>: table memory of the size the
  library asked for is mapped, and its device address is one that the checks of the driver accept.

  \<open>pm_allowed\<close>: a client does not activate between the unlock and the completion of its activation work, does not free
  itself while other threads hold a pointer to it, the sweep does not lock a client between the two locked sections of its
  synchronous deactivation, and no interrupt is pending when the clocks are switched off.  The calls of one client follow
  one another.

  \<^bold>\<open>Loops and bounds.\<close>  Loops of \<^verbatim>\<open>ipa_table.c\<close> over chains and over the SRAM size are partial functions into option;
  that they return is proved under the invariant.  The recursion of \<^verbatim>\<open>ipa_nati_statemach\<close> through its callbacks is
  \<open>statemach_fuel\<close> with bound three, and no call is ever cut short (\<open>statemach_depth_three\<close>).  The work queue needs at
  most ten steps for one item of work; thirty cover the item it is in and the activation a client waits for.

  \<^bold>\<open>Not modelled.\<close>  Printing and logging (\<^verbatim>\<open>ipa_nat_dump_ipv4_table\<close>, \<^verbatim>\<open>ipa_nat_map_dump\<close>, the formatting of
  records, \<^verbatim>\<open>ipa_ipv6ct_dump_table\<close>, the debugfs strings of \<^verbatim>\<open>ipahal_nat.c\<close>) have no effect on the state.  Of the kernel
  driver the data path that carries immediate commands to the hardware, the registers, and the header, routing
  and filtering tables are left out; the data path is a parameter.  Requests of the driver are atomic: it runs them
  under the mutex of the device, except table writes and initialisations, which the library serialises with its own
  mutex.  Of the power manager the statistics for debugfs and the dummy clients of
  its test interface are left out, of the clock the bus votes; a function of the count is one step.  The test programs call the
  library and are not part of it.  The other kernel modules of the repository are
  separate programs.
\<close>

end
